(* ===== verification/Prelude.thy ===== *)
theory Prelude
  imports Main "HOL-Library.AList" "HOL-Library.Sublist"
begin

text \<open>
  Shared vocabulary of the development: the JavaScript strings, numbers and maps that the
  TypeScript sources use, tables of rows as the SQL and Prisma calls use them, and the two
  interfaces that several components share, a keyed store and a transition system with an
  invariant.

  Conventions used by every theory.
  \<^item> A \<^verbatim>\<open>string\<close> is a list of characters; the sources handle ASCII text (Stellar addresses,
    event names, decimal amounts), and letter case and white space are those of ASCII.
  \<^item> A \<^verbatim>\<open>number\<close> that holds a count, a ledger number or a time in milliseconds is an \<open>int\<close> or a
    \<open>nat\<close>, a \<^verbatim>\<open>bigint\<close> is an \<open>int\<close>.
  \<^item> \<^verbatim>\<open>Map\<close> objects keep insertion order, so they are association lists under
    \<open>AList.update\<close> and \<open>AList.delete\<close>; \<^verbatim>\<open>Set\<close> objects that are only tested are lists or sets.
  \<^item> \<^verbatim>\<open>null\<close> and \<^verbatim>\<open>undefined\<close> are \<open>None\<close>; an exception is the left part of a sum.
  \<^item> The clock (\<^verbatim>\<open>Date.now()\<close>) is an argument of the operation that reads it.
\<close>

named_theorems table_simps \<open>rewriting of reads after writes on tables of rows\<close>
named_theorems js_simps \<open>evaluation of the JavaScript string and map operations\<close>

section \<open>Strings and numbers\<close>

definition is_digit :: "char \<Rightarrow> bool" where
  "is_digit c \<longleftrightarrow> 48 \<le> (of_char c :: nat) \<and> (of_char c :: nat) \<le> 57"

definition digit_val :: "char \<Rightarrow> nat" where
  "digit_val c = of_char c - 48"

definition digit_char :: "nat \<Rightarrow> char" where
  "digit_char d = char_of (48 + d)"

definition is_space :: "char \<Rightarrow> bool" where
  "is_space c \<longleftrightarrow> (of_char c :: nat) \<in> {9, 10, 11, 12, 13, 32}"

text \<open>\<^verbatim>\<open>String(n)\<close> for a non-negative and for any integer.\<close>

fun nat_str :: "nat \<Rightarrow> string" where
  "nat_str n = (if n < 10 then [digit_char n] else nat_str (n div 10) @ [digit_char (n mod 10)])"

declare nat_str.simps [simp del]

definition int_str :: "int \<Rightarrow> string" where
  "int_str i = (if i < 0 then CHR ''-'' # nat_str (nat (- i)) else nat_str (nat i))"

definition digits_val :: "string \<Rightarrow> nat" where
  "digits_val cs = foldl (\<lambda>a c. 10 * a + digit_val c) 0 cs"

text \<open>\<^verbatim>\<open>s.trim()\<close>, \<^verbatim>\<open>s.toLowerCase()\<close>, \<^verbatim>\<open>s.toUpperCase()\<close>, \<^verbatim>\<open>s.includes(t)\<close> and \<^verbatim>\<open>s.split(c)\<close>.\<close>

definition js_trim :: "string \<Rightarrow> string" where
  "js_trim s = rev (dropWhile is_space (rev (dropWhile is_space s)))"

definition lower_char :: "char \<Rightarrow> char" where
  "lower_char c = (if 65 \<le> (of_char c :: nat) \<and> (of_char c :: nat) \<le> 90
                   then char_of ((of_char c :: nat) + 32) else c)"

definition js_lower :: "string \<Rightarrow> string" where
  "js_lower s = map lower_char s"

definition upper_char :: "char \<Rightarrow> char" where
  "upper_char c = (if 97 \<le> (of_char c :: nat) \<and> (of_char c :: nat) \<le> 122
                   then char_of ((of_char c :: nat) - 32) else c)"

definition js_upper :: "string \<Rightarrow> string" where "js_upper s = map upper_char s"

text \<open>The characters of \<^verbatim>\<open>\w\<close> in a regular expression.\<close>

definition word_char :: "char \<Rightarrow> bool" where
  "word_char c \<longleftrightarrow> is_digit c \<or> c = CHR ''_'' \<or> (let n = (of_char c :: nat) in 65 \<le> n \<and> n \<le> 90 \<or> 97 \<le> n \<and> n \<le> 122)"

fun js_includes :: "string \<Rightarrow> string \<Rightarrow> bool" where
  "js_includes [] t = (t = [])"
| "js_includes (c # cs) t = (take (length t) (c # cs) = t \<or> js_includes cs t)"

fun js_split :: "char \<Rightarrow> string \<Rightarrow> string list" where
  "js_split d [] = [[]]"
| "js_split d (c # cs) =
     (if c = d then [] # js_split d cs
      else (case js_split d cs of [] \<Rightarrow> [[c]] | p # ps \<Rightarrow> (c # p) # ps))"

text \<open>\<^verbatim>\<open>parts.join(',')\<close>\<close>

fun js_join :: "string list \<Rightarrow> string" where
  "js_join [] = ''''"
| "js_join [p] = p"
| "js_join (p # q # ps) = p @ '','' @ js_join (q # ps)"

text \<open>\<^verbatim>\<open>parseInt(s, 10)\<close>: leading white space, an optional sign, then as many digits as
  there are; \<open>None\<close> is \<^verbatim>\<open>NaN\<close>.\<close>

definition parse_digits :: "string \<Rightarrow> nat option" where
  "parse_digits s = (let ds = takeWhile is_digit s in if ds = [] then None else Some (digits_val ds))"

definition parse_int :: "string \<Rightarrow> int option" where
  "parse_int s = (case dropWhile is_space s of
       [] \<Rightarrow> None
     | c # cs \<Rightarrow>
         if c = CHR ''-'' then map_option (\<lambda>n. - int n) (parse_digits cs)
         else if c = CHR ''+'' then map_option int (parse_digits cs)
         else map_option int (parse_digits (c # cs)))"

text \<open>\<^verbatim>\<open>BigInt(s)\<close> on decimal text: surrounding white space is dropped, the empty text is 0,
  otherwise an optional sign and digits only; \<open>None\<close> is the \<^verbatim>\<open>SyntaxError\<close> it throws. The
  prefixed forms (\<^verbatim>\<open>0x\<close>, \<^verbatim>\<open>0o\<close>, \<^verbatim>\<open>0b\<close>) are read by \<open>radix_val\<close>.\<close>

definition hex_digit :: "char \<Rightarrow> nat option" where
  "hex_digit c = (let n = (of_char c :: nat) in
     if 48 \<le> n \<and> n \<le> 57 then Some (n - 48)
     else if 97 \<le> n \<and> n \<le> 102 then Some (n - 87)
     else if 65 \<le> n \<and> n \<le> 70 then Some (n - 55)
     else None)"

fun radix_val :: "nat \<Rightarrow> nat \<Rightarrow> string \<Rightarrow> nat option" where
  "radix_val b a [] = Some a"
| "radix_val b a (c # cs) = (case hex_digit c of
      None \<Rightarrow> None
    | Some d \<Rightarrow> if d < b then radix_val b (b * a + d) cs else None)"

definition radix_prefix :: "string \<Rightarrow> (nat \<times> string) option" where
  "radix_prefix s = (case s of
      z # x # cs \<Rightarrow>
        if z \<noteq> CHR ''0'' then None
        else if x = CHR ''x'' \<or> x = CHR ''X'' then Some (16, cs)
        else if x = CHR ''o'' \<or> x = CHR ''O'' then Some (8, cs)
        else if x = CHR ''b'' \<or> x = CHR ''B'' then Some (2, cs)
        else None
    | _ \<Rightarrow> None)"

definition decimal_val :: "string \<Rightarrow> nat option" where
  "decimal_val ds = (if ds = [] then None else radix_val 10 0 ds)"

definition big_int :: "string \<Rightarrow> int option" where
  "big_int s0 = (let s = js_trim s0 in
     case s of
       [] \<Rightarrow> Some 0
     | c # cs \<Rightarrow>
         (case radix_prefix s of
            Some (b, ds) \<Rightarrow> if ds = [] then None else map_option int (radix_val b 0 ds)
          | None \<Rightarrow>
              if c = CHR ''-'' then map_option (\<lambda>n. - int n) (decimal_val cs)
              else if c = CHR ''+'' then map_option int (decimal_val cs)
              else map_option int (decimal_val s)))"

subsection \<open>Facts on digits\<close>

lemma digit_char_ok [simp]:
  assumes "d < 10"
  shows "is_digit (digit_char d)" and "digit_val (digit_char d) = d"
    and "\<not> is_space (digit_char d)" and "hex_digit (digit_char d) = Some d"
  using assms
  by (auto simp: is_digit_def digit_char_def digit_val_def is_space_def hex_digit_def)

lemma digit_char_inj: "d < 10 \<Longrightarrow> e < 10 \<Longrightarrow> digit_char d = digit_char e \<Longrightarrow> d = e"
  by (metis digit_char_ok(2))

lemma nat_str_digits: "\<forall>c \<in> set (nat_str n). is_digit c"
proof (induction n rule: nat_str.induct)
  case (1 n)
  show ?case
    by (cases "n < 10") (use "1.IH" in \<open>auto simp: nat_str.simps [of n]\<close>)
qed

lemma nat_str_nonempty [simp]: "nat_str n \<noteq> []"
  by (subst nat_str.simps) simp

lemma digits_val_snoc: "digits_val (cs @ [c]) = 10 * digits_val cs + digit_val c"
  by (simp add: digits_val_def)

lemma digits_val_nat_str [simp]: "digits_val (nat_str n) = n"
proof (induction n rule: nat_str.induct)
  case (1 n)
  show ?case
  proof (cases "n < 10")
    case True
    then show ?thesis by (simp add: nat_str.simps [of n] digits_val_def)
  next
    case False
    with "1.IH" show ?thesis
      by (simp add: nat_str.simps [of n] digits_val_snoc)
  qed
qed

lemma nat_str_inj [simp]: "nat_str m = nat_str n \<longleftrightarrow> m = n"
  by (metis digits_val_nat_str)

lemma takeWhile_nat_str [simp]: "takeWhile is_digit (nat_str n) = nat_str n"
  using nat_str_digits by (simp add: takeWhile_eq_all_conv)

lemma digit_not_special:
  "is_digit c \<Longrightarrow> \<not> is_space c" "is_digit c \<Longrightarrow> c \<noteq> CHR ''-''" "is_digit c \<Longrightarrow> c \<noteq> CHR ''+''"
  by (auto simp: is_digit_def is_space_def)

lemma parse_int_nat_str [simp]: "parse_int (nat_str n) = Some (int n)"
proof -
  obtain c cs where s: "nat_str n = c # cs" by (cases "nat_str n") auto
  have c: "is_digit c" using nat_str_digits [of n] by (simp add: s)
  have "parse_digits (c # cs) = Some n"
    using takeWhile_nat_str [of n] digits_val_nat_str [of n] unfolding parse_digits_def s Let_def by simp
  then show ?thesis
    using c digit_not_special [OF c] by (simp add: parse_int_def s)
qed

lemma digit_of_nat_str: "c \<in> set (nat_str n) \<Longrightarrow> is_digit c"
  using nat_str_digits by blast

lemma radix_val_append:
  "radix_val b a (xs @ ys) = (case radix_val b a xs of None \<Rightarrow> None | Some v \<Rightarrow> radix_val b v ys)"
  by (induction xs arbitrary: a) (auto split: option.splits)

lemma radix_val_nat_str: "radix_val 10 0 (nat_str n) = Some n"
proof (induction n rule: nat_str.induct)
  case (1 n)
  show ?case
    by (cases "n < 10") (use "1.IH" in \<open>auto simp: nat_str.simps [of n] radix_val_append\<close>)
qed

lemma radix_prefix_nat_str: "radix_prefix (nat_str n) = None" "radix_prefix (CHR ''-'' # nat_str n) = None"
proof -
  have "x \<notin> {CHR ''x'', CHR ''X'', CHR ''o'', CHR ''O'', CHR ''b'', CHR ''B''}" if "is_digit x" for x
    using that by (auto simp: is_digit_def)
  then show "radix_prefix (nat_str n) = None"
    using digit_of_nat_str [of _ n] by (auto simp: radix_prefix_def split: list.splits)
  show "radix_prefix (CHR ''-'' # nat_str n) = None"
    by (auto simp: radix_prefix_def split: list.splits)
qed

lemma js_trim_id: "\<forall>c \<in> set s. \<not> is_space c \<Longrightarrow> js_trim s = s"
  by (simp add: js_trim_def dropWhile_eq_self_iff)
     (metis dropWhile_eq_self_iff hd_in_set rev_is_Nil_conv rev_rev_ident set_rev)

lemma int_str_no_space: "c \<in> set (int_str i) \<Longrightarrow> \<not> is_space c"
  by (auto simp: int_str_def is_space_def split: if_splits dest!: digit_of_nat_str) (auto simp: is_digit_def)

lemma big_int_int_str [simp]: "big_int (int_str i) = Some i"
proof (cases "i < 0")
  case True
  then have "int_str i = CHR ''-'' # nat_str (nat (- i))" by (simp add: int_str_def)
  then show ?thesis
    using True js_trim_id [of "int_str i"] int_str_no_space [of _ i]
    by (simp add: big_int_def radix_prefix_nat_str decimal_val_def radix_val_nat_str)
next
  case False
  then have s: "int_str i = nat_str (nat i)" by (simp add: int_str_def)
  obtain c cs where c: "nat_str (nat i) = c # cs" by (cases "nat_str (nat i)") auto
  then have "is_digit c" using digit_of_nat_str [of c "nat i"] by simp
  then have "c \<noteq> CHR ''-''" "c \<noteq> CHR ''+''" by (auto dest: digit_not_special)
  moreover have "js_trim (int_str i) = int_str i" by (rule js_trim_id) (auto dest: int_str_no_space)
  ultimately show ?thesis
    using False radix_val_nat_str [of "nat i"] radix_prefix_nat_str(1) [of "nat i"]
    by (simp add: big_int_def s c decimal_val_def)
qed

subsection \<open>Facts on splitting\<close>

lemma js_split_nonempty [simp]: "js_split d s \<noteq> []"
  by (induction s) (auto split: list.splits)

lemma js_split_no_sep: "d \<notin> set s \<Longrightarrow> js_split d s = [s]"
  by (induction s) auto

lemma js_split_append: "d \<notin> set s \<Longrightarrow> js_split d (s @ d # t) = s # js_split d t"
  by (induction s) auto

lemma js_includes_iff: "js_includes s t \<longleftrightarrow> sublist t s"
proof (induction s)
  case (Cons c cs)
  have "take (length t) (c # cs) = t \<longleftrightarrow> prefix t (c # cs)"
    by (metis prefix_def append_eq_conv_conj)
  with Cons.IH show ?case by (simp add: sublist_Cons_right)
qed auto

section \<open>Tables of rows\<close>

text \<open>
  A table is the list of its rows in insertion order. \<open>table_update\<close> is
  \<^verbatim>\<open>UPDATE ... WHERE p\<close>, \<open>table_upsert\<close> is \<^verbatim>\<open>INSERT ... ON CONFLICT DO UPDATE\<close> (and
  Prisma's \<^verbatim>\<open>upsert\<close>) on a unique key, \<open>table_insert_new\<close> is
  \<^verbatim>\<open>INSERT ... ON CONFLICT DO NOTHING\<close>; \<open>List.find\<close> is a lookup by a unique key.
\<close>

definition table_update :: "('r \<Rightarrow> bool) \<Rightarrow> ('r \<Rightarrow> 'r) \<Rightarrow> 'r list \<Rightarrow> 'r list" where
  "table_update p f t = map (\<lambda>r. if p r then f r else r) t"

definition table_upsert :: "('r \<Rightarrow> bool) \<Rightarrow> ('r \<Rightarrow> 'r) \<Rightarrow> 'r \<Rightarrow> 'r list \<Rightarrow> 'r list" where
  "table_upsert p f new t = (if list_ex p t then table_update p f t else t @ [new])"

definition table_insert_new :: "('r \<Rightarrow> bool) \<Rightarrow> 'r \<Rightarrow> 'r list \<Rightarrow> 'r list" where
  "table_insert_new p new t = (if list_ex p t then t else t @ [new])"

text \<open>Prisma counts a negative \<^verbatim>\<open>take\<close> from the end of the ordered rows.\<close>

definition prisma_take :: "int \<Rightarrow> 'a list \<Rightarrow> 'a list" where
  "prisma_take n xs = (if 0 \<le> n then take (nat n) xs else drop (length xs - nat (- n)) xs)"

lemma slices: "concat (map (\<lambda>k. take n (drop (k * n) xs)) [0..<m]) = take (m * n) xs"
proof (induction m)
  case (Suc m)
  have "take (Suc m * n) xs = take (m * n) xs @ take n (drop (m * n) xs)"
    by (simp add: take_add [symmetric] add.commute)
  then show ?case using Suc by simp
qed simp

lemma sort_key_sorted: "sorted (map k xs) \<Longrightarrow> sort_key k xs = xs"
  by (induction xs) (auto simp: insort_is_Cons)

lemma find_append [table_simps]:
  "List.find p (xs @ ys) = (case List.find p xs of None \<Rightarrow> List.find p ys | Some x \<Rightarrow> Some x)"
  by (induction xs) auto

lemma find_None_iff_ex [table_simps]: "List.find p t = None \<longleftrightarrow> \<not> list_ex p t"
  by (induction t) auto

lemma find_SomeD: "List.find p t = Some r \<Longrightarrow> r \<in> set t \<and> p r"
  by (induction t) (auto split: if_splits)

lemma find_update_same [table_simps]:
  assumes "\<And>r. p r \<Longrightarrow> p (f r)"
  shows "List.find p (table_update p f t) = map_option f (List.find p t)"
  by (induction t) (auto simp: table_update_def assms)

lemma find_update_other [table_simps]:
  assumes "\<And>r. p r \<Longrightarrow> \<not> q r \<and> \<not> q (f r)"
  shows "List.find q (table_update p f t) = List.find q t"
  by (induction t) (use assms in \<open>auto simp: table_update_def\<close>)

lemma find_upsert_same [table_simps]:
  assumes "\<And>r. p r \<Longrightarrow> p (f r)" and "p new"
  shows "List.find p (table_upsert p f new t) =
    Some (case List.find p t of None \<Rightarrow> new | Some r \<Rightarrow> f r)"
proof (cases "List.find p t")
  case None
  then have "\<not> list_ex p t" by (simp add: find_None_iff_ex)
  then show ?thesis using None assms by (simp add: table_upsert_def find_append)
next
  case (Some r)
  then have "list_ex p t" by (metis find_None_iff_ex option.discI)
  then show ?thesis using Some assms by (simp add: table_upsert_def find_update_same)
qed

lemma find_upsert_other [table_simps]:
  assumes "\<And>r. p r \<Longrightarrow> \<not> q r \<and> \<not> q (f r)" and "\<not> q new"
  shows "List.find q (table_upsert p f new t) = List.find q t"
  using assms
  by (auto simp: table_upsert_def find_update_other find_append split: option.splits)

lemma list_ex_insert_new [simp]:
  "p new \<Longrightarrow> list_ex p (table_insert_new p new t)"
  by (simp add: table_insert_new_def)

lemma table_insert_new_idem [simp]:
  "p new \<Longrightarrow> table_insert_new p new' (table_insert_new p new t) = table_insert_new p new t"
  by (simp add: table_insert_new_def)

section \<open>Interfaces shared by the components\<close>

text \<open>A keyed store: what a read returns after a write, and what every write keeps.\<close>

locale kv_store =
  fixes get :: "'s \<Rightarrow> 'k \<Rightarrow> 'v option"
    and put :: "'k \<Rightarrow> 'v \<Rightarrow> 's \<Rightarrow> 's"
    and del :: "'k \<Rightarrow> 's \<Rightarrow> 's"
    and invar :: "'s \<Rightarrow> bool"
  assumes get_put: "invar s \<Longrightarrow> get (put k v s) k' = (if k' = k then Some v else get s k')"
    and get_del: "invar s \<Longrightarrow> get (del k s) k' = (if k' = k then None else get s k')"
    and invar_put: "invar s \<Longrightarrow> invar (put k v s)"
    and invar_del: "invar s \<Longrightarrow> invar (del k s)"
begin

text \<open>A write is an entry of a map to values or to \<open>None\<close>; a batch of writes with distinct
  keys installs exactly its entries and nothing else.\<close>

definition put_entry :: "'k \<times> 'v option \<Rightarrow> 's \<Rightarrow> 's" where
  "put_entry e s = (case e of (k, None) \<Rightarrow> del k s | (k, Some v) \<Rightarrow> put k v s)"

lemma get_put_entry: "invar s \<Longrightarrow> get (put_entry e s) k = (if k = fst e then snd e else get s k)"
  by (cases e; cases "snd e") (auto simp: put_entry_def get_put get_del)

lemma invar_put_entry: "invar s \<Longrightarrow> invar (put_entry e s)"
  by (cases e; cases "snd e") (auto simp: put_entry_def invar_put invar_del)

lemma fold_put_other:
  "invar s \<Longrightarrow> k \<notin> fst ` set es \<Longrightarrow> get (fold put_entry es s) k = get s k"
  by (induction es arbitrary: s) (auto simp: get_put_entry invar_put_entry)

lemma fold_put_entry:
  "invar s \<Longrightarrow> distinct (map fst es) \<Longrightarrow> (k, v) \<in> set es \<Longrightarrow> get (fold put_entry es s) k = v"
proof (induction es arbitrary: s)
  case (Cons e es)
  show ?case
  proof (cases "(k, v) = e")
    case True
    then have "k \<notin> fst ` set es" using Cons.prems(2) by (metis distinct.simps(2) fst_conv list.map(2) list.set_map)
    then have "get (fold put_entry es (put_entry e s)) k = get (put_entry e s) k"
      using Cons.prems by (intro fold_put_other) (auto simp: invar_put_entry)
    then show ?thesis using True Cons.prems by (auto simp: get_put_entry)
  next
    case False
    then show ?thesis using Cons by (auto simp: invar_put_entry)
  qed
qed simp

lemma invar_fold_put: "invar s \<Longrightarrow> invar (fold put_entry es s)"
  by (induction es arbitrary: s) (auto simp: invar_put_entry)

end

text \<open>A JavaScript \<^verbatim>\<open>Map\<close> is such a store.\<close>

interpretation js_map: kv_store map_of AList.update AList.delete "\<lambda>_. True"
  by unfold_locales (auto simp: AList.update_conv' AList.delete_conv')

lemmas js_map_simps [js_simps] = js_map.get_put [OF TrueI] js_map.get_del [OF TrueI]

lemma set_update_subset: "set (AList.update k v xs) \<subseteq> insert (k, v) (set xs)"
  by (induction xs) auto

text \<open>A transition system and an invariant of its reachable states.\<close>

inductive reach :: "('s \<Rightarrow> bool) \<Rightarrow> ('s \<Rightarrow> 's \<Rightarrow> bool) \<Rightarrow> 's \<Rightarrow> bool" for init step where
  reach_init: "init s \<Longrightarrow> reach init step s"
| reach_step: "reach init step s \<Longrightarrow> step s t \<Longrightarrow> reach init step t"

locale inv_system =
  fixes init :: "'s \<Rightarrow> bool"
    and step :: "'s \<Rightarrow> 's \<Rightarrow> bool"
    and invar :: "'s \<Rightarrow> bool"
  assumes invar_init: "init s \<Longrightarrow> invar s"
    and invar_step: "step s t \<Longrightarrow> invar s \<Longrightarrow> invar t"
begin

lemma reach_invar: "reach init step s \<Longrightarrow> invar s"
  by (induction rule: reach.induct) (auto intro: invar_init invar_step)

lemma steps_invar: "step\<^sup>*\<^sup>* s t \<Longrightarrow> invar s \<Longrightarrow> invar t"
  by (induction rule: rtranclp_induct) (auto intro: invar_step)

end

lemma reach_steps: "step\<^sup>*\<^sup>* s t \<Longrightarrow> reach init step s \<Longrightarrow> reach init step t"
  by (induction rule: rtranclp_induct) (auto intro: reach.intros)

end
