(* ===== verification/Subscription_State.thy ===== *)
theory Subscription_State
  imports Prelude
begin

text \<open>
  The subscription lifecycle: the transition table of
  \<^verbatim>\<open>backend/src/lib/subscriptionStateMachine.ts\<close> and the service of
  \<^verbatim>\<open>backend/src/services/subscriptionStateService.ts\<close> that applies an on-chain event to the row
  of a (subscriber, merchant) pair.

  The specification is a function of the pair's own event history: what counts is the part
  after the last \<^verbatim>\<open>subscribe\<close>, in which the first terminal event wins and otherwise the last
  payment result decides. The service is shown to implement it for any interleaving of the
  events of different pairs.
\<close>

section \<open>The state machine\<close>

datatype SubscriptionState = ACTIVE | PAUSED | OVERDUE | CANCELLED | EXPIRED

datatype SubscriptionEventType = Subscribe | Executed | Payment_transfer_failure | Cancel | Ttl_expired

definition TERMINAL_STATES :: "SubscriptionState list" where
  "TERMINAL_STATES = [CANCELLED, EXPIRED]"

fun TRANSITIONS :: "SubscriptionState \<Rightarrow> SubscriptionEventType \<Rightarrow> SubscriptionState option" where
  "TRANSITIONS ACTIVE Subscribe = Some ACTIVE"
| "TRANSITIONS ACTIVE Payment_transfer_failure = Some OVERDUE"
| "TRANSITIONS ACTIVE Cancel = Some CANCELLED"
| "TRANSITIONS ACTIVE Ttl_expired = Some EXPIRED"
| "TRANSITIONS ACTIVE Executed = Some ACTIVE"
| "TRANSITIONS PAUSED Subscribe = Some ACTIVE"
| "TRANSITIONS PAUSED Cancel = Some CANCELLED"
| "TRANSITIONS PAUSED Ttl_expired = Some EXPIRED"
| "TRANSITIONS PAUSED Executed = Some ACTIVE"
| "TRANSITIONS PAUSED Payment_transfer_failure = Some OVERDUE"
| "TRANSITIONS OVERDUE Subscribe = Some ACTIVE"
| "TRANSITIONS OVERDUE Executed = Some ACTIVE"
| "TRANSITIONS OVERDUE Cancel = Some CANCELLED"
| "TRANSITIONS OVERDUE Ttl_expired = Some EXPIRED"
| "TRANSITIONS OVERDUE Payment_transfer_failure = Some OVERDUE"
| "TRANSITIONS CANCELLED Subscribe = Some ACTIVE"
| "TRANSITIONS CANCELLED _ = None"
| "TRANSITIONS EXPIRED Subscribe = Some ACTIVE"
| "TRANSITIONS EXPIRED _ = None"

definition transition :: "SubscriptionState \<Rightarrow> SubscriptionEventType \<Rightarrow> SubscriptionState option" where
  "transition currentState event = TRANSITIONS currentState event"

definition isTerminal :: "SubscriptionState \<Rightarrow> bool" where
  "isTerminal state = (state \<in> set TERMINAL_STATES)"

section \<open>The persisted state\<close>

record subscription_row =
  sr_subscriber :: string
  sr_merchant :: string
  sr_token :: string
  sr_amount :: string
  sr_status :: SubscriptionState

record EventData =
  ed_amount :: "string option"
  ed_token :: "string option"

type_synonym subscription_table = "subscription_row list"

definition is_pair :: "string \<Rightarrow> string \<Rightarrow> subscription_row \<Rightarrow> bool" where
  "is_pair s m r \<longleftrightarrow> sr_subscriber r = s \<and> sr_merchant r = m"

text \<open>\<^verbatim>\<open>data.amount ? {amount: data.amount} : {}\<close>: an absent or empty text leaves the column.\<close>

definition keep_if_falsy :: "string option \<Rightarrow> string \<Rightarrow> string" where
  "keep_if_falsy new old = (case new of None \<Rightarrow> old | Some s \<Rightarrow> if s = [] then old else s)"

definition created_row :: "string \<Rightarrow> string \<Rightarrow> EventData \<Rightarrow> SubscriptionState \<Rightarrow> subscription_row" where
  "created_row subscriber merchant data nextState =
     \<lparr>sr_subscriber = subscriber, sr_merchant = merchant,
      sr_token = (case ed_token data of None \<Rightarrow> [] | Some t \<Rightarrow> t),
      sr_amount = (case ed_amount data of None \<Rightarrow> ''0'' | Some a \<Rightarrow> a),
      sr_status = nextState\<rparr>"

definition updated_row :: "EventData \<Rightarrow> SubscriptionState \<Rightarrow> subscription_row \<Rightarrow> subscription_row" where
  "updated_row data nextState r =
     r\<lparr>sr_status := nextState,
       sr_amount := keep_if_falsy (ed_amount data) (sr_amount r),
       sr_token := keep_if_falsy (ed_token data) (sr_token r)\<rparr>"

definition applyEvent ::
  "string \<Rightarrow> string \<Rightarrow> SubscriptionEventType \<Rightarrow> EventData \<Rightarrow> subscription_table
   \<Rightarrow> SubscriptionState \<times> subscription_table" where
  "applyEvent subscriber merchant eventType data db =
     (let existing = List.find (is_pair subscriber merchant) db;
          currentState = (case existing of None \<Rightarrow> ACTIVE | Some r \<Rightarrow> sr_status r)
      in case transition currentState eventType of
           None \<Rightarrow> (currentState, db)
         | Some nextState \<Rightarrow>
             (nextState,
              table_upsert (is_pair subscriber merchant) (updated_row data nextState)
                (created_row subscriber merchant data nextState) db))"

definition getSubscriptionStatus :: "string \<Rightarrow> string \<Rightarrow> subscription_table \<Rightarrow> SubscriptionState option" where
  "getSubscriptionStatus subscriber merchant db =
     map_option sr_status (List.find (is_pair subscriber merchant) db)"

section \<open>Specification: the status is a function of the event history\<close>

definition terminal_event :: "SubscriptionEventType \<Rightarrow> bool" where
  "terminal_event e \<longleftrightarrow> e = Cancel \<or> e = Ttl_expired"

text \<open>The events since the last \<^verbatim>\<open>subscribe\<close>.\<close>

definition life :: "SubscriptionEventType list \<Rightarrow> SubscriptionEventType list" where
  "life es = rev (takeWhile (\<lambda>e. e \<noteq> Subscribe) (rev es))"

definition spec_status :: "SubscriptionEventType list \<Rightarrow> SubscriptionState" where
  "spec_status es = (case List.find terminal_event (life es) of
      Some Cancel \<Rightarrow> CANCELLED
    | Some _ \<Rightarrow> EXPIRED
    | None \<Rightarrow> if life es \<noteq> [] \<and> last (life es) = Payment_transfer_failure then OVERDUE else ACTIVE)"

text \<open>A history of all pairs, applied in order, and the part of it that belongs to a pair.\<close>

type_synonym history = "(string \<times> string \<times> SubscriptionEventType \<times> EventData) list"

fun apply_history :: "history \<Rightarrow> subscription_table \<Rightarrow> subscription_table" where
  "apply_history [] db = db"
| "apply_history ((s, m, e, d) # h) db = apply_history h (snd (applyEvent s m e d db))"

definition events_of :: "string \<Rightarrow> string \<Rightarrow> history \<Rightarrow> SubscriptionEventType list" where
  "events_of s m h = map (\<lambda>(_, _, e, _). e) (filter (\<lambda>(s', m', _, _). s' = s \<and> m' = m) h)"

section \<open>Lemmas\<close>

lemma transition_None_iff: "transition s e = None \<longleftrightarrow> isTerminal s \<and> e \<noteq> Subscribe"
  by (cases s; cases e) (simp_all add: transition_def isTerminal_def TERMINAL_STATES_def)

lemma transition_subscribe [simp]: "transition s Subscribe = Some ACTIVE"
  by (cases s) (simp_all add: transition_def)

lemma transition_not_paused: "transition s e = Some s' \<Longrightarrow> s' \<noteq> PAUSED"
  by (cases s; cases e) (auto simp: transition_def)

definition next_state :: "SubscriptionState \<Rightarrow> SubscriptionEventType \<Rightarrow> SubscriptionState" where
  "next_state s e = (case transition s e of None \<Rightarrow> s | Some s' \<Rightarrow> s')"

lemma next_state_cases:
  "next_state s Subscribe = ACTIVE"
  "isTerminal s \<Longrightarrow> e \<noteq> Subscribe \<Longrightarrow> next_state s e = s"
  "\<not> isTerminal s \<Longrightarrow> next_state s Executed = ACTIVE"
  "\<not> isTerminal s \<Longrightarrow> next_state s Payment_transfer_failure = OVERDUE"
  "\<not> isTerminal s \<Longrightarrow> next_state s Cancel = CANCELLED"
  "\<not> isTerminal s \<Longrightarrow> next_state s Ttl_expired = EXPIRED"
  by (cases s; cases e; simp add: next_state_def transition_def isTerminal_def TERMINAL_STATES_def)+

lemma life_snoc: "life (es @ [e]) = (if e = Subscribe then [] else life es @ [e])"
  by (simp add: life_def)

lemma spec_status_terminal: "isTerminal (spec_status es) \<longleftrightarrow> list_ex terminal_event (life es)"
proof (cases "List.find terminal_event (life es)")
  case None
  then have "\<not> list_ex terminal_event (life es)" by (simp add: find_None_iff_ex)
  with None show ?thesis by (auto simp: spec_status_def isTerminal_def TERMINAL_STATES_def)
next
  case (Some e)
  then have "terminal_event e" and "list_ex terminal_event (life es)"
    by (auto dest: find_SomeD simp: list_ex_iff)
  then show ?thesis using Some
    by (cases e) (auto simp: spec_status_def isTerminal_def TERMINAL_STATES_def terminal_event_def)
qed

lemma next_state_spec: "next_state (spec_status es) e = spec_status (es @ [e])"
proof (cases "e = Subscribe")
  case True
  then show ?thesis by (simp add: next_state_cases spec_status_def life_snoc)
next
  case e: False
  show ?thesis
  proof (cases "isTerminal (spec_status es)")
    case True
    then have "list_ex terminal_event (life es)" by (simp add: spec_status_terminal)
    then obtain x where "List.find terminal_event (life es) = Some x"
      by (metis find_None_iff_ex not_None_eq)
    then have "spec_status (es @ [e]) = spec_status es"
      using e by (simp add: spec_status_def life_snoc find_append)
    then show ?thesis using True e by (simp add: next_state_cases)
  next
    case False
    then have "List.find terminal_event (life es) = None"
      by (simp add: spec_status_terminal find_None_iff_ex)
    then show ?thesis using False e
      by (cases e) (simp_all add: next_state_cases spec_status_def life_snoc find_append terminal_event_def)
  qed
qed

lemma spec_status_Nil: "spec_status [] = ACTIVE"
  by (simp add: spec_status_def life_def)

lemma row_facts [simp]:
  "is_pair s m (updated_row d st r) = is_pair s m r"
  "is_pair s m (created_row s' m' d st) \<longleftrightarrow> s' = s \<and> m' = m"
  "sr_status (updated_row d st r) = st" "sr_status (created_row s' m' d st) = st"
  by (auto simp: is_pair_def updated_row_def created_row_def)

lemma is_pair_unique: "is_pair s m r \<Longrightarrow> is_pair s' m' r \<longleftrightarrow> s' = s \<and> m' = m"
  by (auto simp: is_pair_def)

lemma status_upsert:
  "getSubscriptionStatus s m (table_upsert (is_pair s' m') (updated_row d st) (created_row s' m' d st) db) =
     (if s = s' \<and> m = m' then Some st else getSubscriptionStatus s m db)"
proof (cases "s = s' \<and> m = m'")
  case True
  then show ?thesis
    by (simp add: getSubscriptionStatus_def find_upsert_same split: option.split)
next
  case False
  then have "List.find (is_pair s m)
      (table_upsert (is_pair s' m') (updated_row d st) (created_row s' m' d st) db) = List.find (is_pair s m) db"
    by (intro find_upsert_other) (auto simp: is_pair_unique)
  then show ?thesis unfolding getSubscriptionStatus_def if_not_P [OF False] by (rule arg_cong)
qed

lemma applyEvent_by_status:
  "applyEvent s m e d db =
     (let st = (case getSubscriptionStatus s m db of None \<Rightarrow> ACTIVE | Some st \<Rightarrow> st)
      in case transition st e of None \<Rightarrow> (st, db)
         | Some st' \<Rightarrow> (st', table_upsert (is_pair s m) (updated_row d st') (created_row s m d st') db))"
  by (simp add: applyEvent_def getSubscriptionStatus_def Let_def split: option.split)

lemma applyEvent_status:
  "getSubscriptionStatus s m (snd (applyEvent s' m' e d db)) =
     (if s = s' \<and> m = m'
      then Some (next_state (case getSubscriptionStatus s m db of None \<Rightarrow> ACTIVE | Some st \<Rightarrow> st) e)
      else getSubscriptionStatus s m db)"
proof (cases "getSubscriptionStatus s' m' db")
  case None
  have "transition ACTIVE e \<noteq> None"
    by (simp add: transition_None_iff isTerminal_def TERMINAL_STATES_def)
  then show ?thesis using None
    by (auto simp: applyEvent_by_status next_state_def status_upsert split: option.splits)
next
  case (Some st)
  then show ?thesis
    by (auto simp: applyEvent_by_status next_state_def status_upsert split: option.splits)
qed

lemma apply_history_append: "apply_history (h @ h') db = apply_history h' (apply_history h db)"
  by (induction h db rule: apply_history.induct) auto

lemma events_of_snoc:
  "events_of s m (h @ [(s', m', e, d)]) = events_of s m h @ (if s' = s \<and> m' = m then [e] else [])"
  by (simp add: events_of_def)

text \<open>The states of the rows: no event leads to \<open>PAUSED\<close>.\<close>

definition never_paused :: "subscription_table \<Rightarrow> bool" where
  "never_paused db \<longleftrightarrow> (\<forall>r \<in> set db. sr_status r \<noteq> PAUSED)"

inductive state_step :: "subscription_table \<Rightarrow> subscription_table \<Rightarrow> bool" where
  apply_event: "state_step db (snd (applyEvent s m e d db))"

lemma applyEvent_never_paused: "never_paused db \<Longrightarrow> never_paused (snd (applyEvent s m e d db))"
  by (auto simp: never_paused_def applyEvent_by_status Let_def table_upsert_def table_update_def
        transition_not_paused split: option.splits)

interpretation sub_states: inv_system "\<lambda>db. db = []" state_step never_paused
proof unfold_locales
  show "never_paused db" if "db = []" for db using that by (simp add: never_paused_def)
  show "never_paused db'" if "state_step db db'" "never_paused db" for db db'
    using that by (auto elim!: state_step.cases intro: applyEvent_never_paused)
qed

section \<open>Properties\<close>

text \<open>C3: After any history of on-chain events, with the events of different (subscriber,
  merchant) pairs interleaved in any way, the stored status of a pair is the specified function
  of the pair's own events: nothing when it had none, otherwise the first terminal event since
  the last subscribe, or else OVERDUE or ACTIVE by the last payment result.\<close>

theorem apply_history_refines:
  "getSubscriptionStatus s m (apply_history h []) =
     (if events_of s m h = [] then None else Some (spec_status (events_of s m h)))"
proof (induction h rule: rev_induct)
  case Nil
  then show ?case by (simp add: getSubscriptionStatus_def events_of_def)
next
  case (snoc x h)
  obtain s' m' e d where x: "x = (s', m', e, d)" by (cases x)
  show ?case
    using snoc.IH
    by (auto simp: x apply_history_append applyEvent_status events_of_snoc next_state_spec
          spec_status_Nil [symmetric])
qed

text \<open>A transition is refused exactly when the state is terminal and the event is not a
  subscribe, and then the stored rows are left as they are and the current state is returned.\<close>

theorem applyEvent_refused:
  assumes "getSubscriptionStatus s m db = Some st"
  shows "(transition st e = None \<longleftrightarrow> isTerminal st \<and> e \<noteq> Subscribe)
    \<and> (transition st e = None \<longrightarrow> applyEvent s m e d db = (st, db))"
  using assms
  by (metis (no_types, lifting) transition_None_iff applyEvent_by_status option.simps(4,5))

theorem applyEvent_refused_witness:
  "applyEvent ''S'' ''M'' Executed \<lparr>ed_amount = None, ed_token = None\<rparr>
     [\<lparr>sr_subscriber = ''S'', sr_merchant = ''M'', sr_token = ''T'', sr_amount = ''5'', sr_status = CANCELLED\<rparr>]
   = (CANCELLED,
      [\<lparr>sr_subscriber = ''S'', sr_merchant = ''M'', sr_token = ''T'', sr_amount = ''5'', sr_status = CANCELLED\<rparr>])"
proof -
  let ?db = "[\<lparr>sr_subscriber = ''S'', sr_merchant = ''M'', sr_token = ''T'', sr_amount = ''5'', sr_status = CANCELLED\<rparr>]"
  have "getSubscriptionStatus ''S'' ''M'' ?db = Some CANCELLED"
    by (simp add: getSubscriptionStatus_def is_pair_def)
  from applyEvent_refused [OF this, of Executed] show ?thesis
    by (simp add: transition_def)
qed

text \<open>The PAUSED state is unreachable: in every table built by applying events, no row is
  PAUSED.\<close>

theorem paused_unreachable:
  assumes "reach (\<lambda>db. db = []) state_step db" and "getSubscriptionStatus s m db = Some st"
  shows "st \<noteq> PAUSED"
proof -
  have "never_paused db" using assms(1) by (rule sub_states.reach_invar)
  then show ?thesis using assms(2)
    by (auto simp: never_paused_def getSubscriptionStatus_def dest: find_SomeD)
qed

theorem paused_unreachable_witness:
  "getSubscriptionStatus ''S'' ''M''
     (snd (applyEvent ''S'' ''M'' Subscribe \<lparr>ed_amount = Some ''5'', ed_token = None\<rparr> [])) = Some ACTIVE
   \<and> ACTIVE \<noteq> PAUSED"
proof -
  let ?db = "snd (applyEvent ''S'' ''M'' Subscribe \<lparr>ed_amount = Some ''5'', ed_token = None\<rparr> [])"
  have r: "reach (\<lambda>db. db = []) state_step ?db"
    by (rule reach.reach_step [OF reach.reach_init]) (auto intro: state_step.intros)
  have st: "getSubscriptionStatus ''S'' ''M'' ?db = Some ACTIVE"
    unfolding applyEvent_status by (simp add: next_state_def getSubscriptionStatus_def)
  show ?thesis using paused_unreachable [OF r st] st by simp
qed

end
