(* ===== verification/Retry_Policy.thy ===== *)
theory Retry_Policy
  imports Complex_Main Prelude
begin

text \<open>
  The two retry helpers of the backend: \<^verbatim>\<open>withBackoff\<close> of \<^verbatim>\<open>backend/src/lib/backoff.ts\<close> and
  \<^verbatim>\<open>withRetry\<close>, with its idempotency cache, of \<^verbatim>\<open>backend/src/lib/retry.ts\<close>.

  The retried function is a step of a world \<open>'w\<close> that returns a value or an error;
  \<^verbatim>\<open>Math.random()\<close> is an argument. Delays are exact rationals: rounding of floating-point
  products is not modelled. Sleeping is recorded in the trace of retries and has no other effect.

  Both loops satisfy one contract, the locale \<open>retry_loop\<close>: they return the first outcome that is
  a success, a failure not worth retrying, or the last one allowed.
\<close>

section \<open>Errors\<close>

text \<open>A thrown value: \<^verbatim>\<open>(err as Error)?.message ?? String(err)\<close> is the text the predicates see.\<close>

record js_error =
  message :: "string option"
  as_string :: string

definition err_text :: "js_error \<Rightarrow> string" where
  "err_text e = (case message e of Some m \<Rightarrow> m | None \<Rightarrow> as_string e)"

definition isRpcRetryable :: "js_error \<Rightarrow> bool" where
  "isRpcRetryable err = (let msg = js_lower (err_text err) in
     list_ex (js_includes msg)
       [''timeout'', ''econnrefused'', ''econnreset'', ''network'', ''socket'', ''rate limit'',
        ''too many requests'', ''503'', ''502'', ''429'', ''unavailable''])"

definition isTransient :: "js_error \<Rightarrow> bool" where
  "isTransient err = (let msg = js_lower (err_text err) in
     list_ex (js_includes msg)
       [''timeout'', ''econnrefused'', ''econnreset'', ''network'', ''rate limit'',
        ''too many requests'', ''503'', ''502'', ''429''])"

lemma isTransient_isRpcRetryable: "isTransient e \<Longrightarrow> isRpcRetryable e"
  by (auto simp: isTransient_def isRpcRetryable_def Let_def)

section \<open>withBackoff\<close>

record BackoffOptions =
  maxRetries :: int
  baseDelayMs :: rat
  maxDelayMs :: rat
  jitterFactor :: rat
  isRetryable :: "(js_error \<Rightarrow> bool) option"

definition default_backoff :: BackoffOptions where
  "default_backoff = \<lparr>maxRetries = 5, baseDelayMs = 1000, maxDelayMs = 60000, jitterFactor = 1/5,
     isRetryable = None\<rparr>"

definition computeDelay :: "nat \<Rightarrow> rat \<Rightarrow> rat \<Rightarrow> rat \<Rightarrow> rat \<Rightarrow> int" where
  "computeDelay attempt base maxd jitf random =
     (let exponential = base * 2 ^ attempt;
          capped = min exponential maxd;
          jitter = (random * 2 - 1) * jitf * capped
      in max 0 \<lfloor>capped + jitter + 1/2\<rfloor>)"

text \<open>One retry: the attempt number and error given to \<^verbatim>\<open>onRetry\<close> and the delay slept.\<close>

type_synonym retry_note = "nat \<times> js_error \<times> int"

definition worth_retry :: "BackoffOptions \<Rightarrow> js_error \<Rightarrow> bool" where
  "worth_retry opts err = (case isRetryable opts of None \<Rightarrow> True | Some p \<Rightarrow> p err)"

function backoff_loop ::
  "('w \<Rightarrow> (js_error + 'a) \<times> 'w) \<Rightarrow> BackoffOptions \<Rightarrow> (nat \<Rightarrow> rat) \<Rightarrow> nat \<Rightarrow> 'w
   \<Rightarrow> (js_error + 'a) \<times> retry_note list \<times> 'w" where
  "backoff_loop fn opts random attempt w =
     (case fn w of
        (Inr a, w') \<Rightarrow> (Inr a, [], w')
      | (Inl err, w') \<Rightarrow>
          if \<not> worth_retry opts err then (Inl err, [], w')
          else if int attempt \<ge> maxRetries opts then (Inl err, [], w')
          else (let delay = computeDelay attempt (baseDelayMs opts) (maxDelayMs opts)
                              (jitterFactor opts) (random attempt);
                    (r, tr, w'') = backoff_loop fn opts random (Suc attempt) w'
                in (r, (Suc attempt, err, delay) # tr, w'')))"
  by pat_completeness auto
termination
  by (relation "measure (\<lambda>(fn, opts, random, attempt, w). nat (maxRetries opts - int attempt))") auto

declare backoff_loop.simps [simp del]

text \<open>With a negative \<^verbatim>\<open>maxRetries\<close> the loop body never runs and \<^verbatim>\<open>undefined\<close> is thrown.\<close>

definition withBackoff ::
  "('w \<Rightarrow> (js_error + 'a) \<times> 'w) \<Rightarrow> BackoffOptions \<Rightarrow> (nat \<Rightarrow> rat) \<Rightarrow> 'w
   \<Rightarrow> (js_error option + 'a) \<times> retry_note list \<times> 'w" where
  "withBackoff fn opts random w =
     (if maxRetries opts < 0 then (Inl None, [], w)
      else (case backoff_loop fn opts random 0 w of
              (Inl e, tr, w') \<Rightarrow> (Inl (Some e), tr, w')
            | (Inr a, tr, w') \<Rightarrow> (Inr a, tr, w')))"

section \<open>withRetry\<close>

record RetryOptions =
  ro_maxAttempts :: nat
  ro_baseDelayMs :: int
  ro_maxDelayMs :: int
  idempotencyKey :: "string option"

datatype RetryExhaustedError = RetryExhaustedError (attempts: nat) (lastError: "js_error option")

text \<open>The loop of \<^verbatim>\<open>attempt\<close>: the last error when it stops without a value, and the delays slept.\<close>

function attempt_loop ::
  "('w \<Rightarrow> (js_error + 'a) \<times> 'w) \<Rightarrow> RetryOptions \<Rightarrow> nat \<Rightarrow> 'w \<Rightarrow> (js_error + 'a) \<times> int list \<times> 'w" where
  "attempt_loop fn opts i w =
     (case fn w of
        (Inr a, w') \<Rightarrow> (Inr a, [], w')
      | (Inl err, w') \<Rightarrow>
          if \<not> isTransient err \<or> Suc i \<ge> ro_maxAttempts opts then (Inl err, [], w')
          else (let delay = min (ro_baseDelayMs opts * 2 ^ i) (ro_maxDelayMs opts);
                    (r, ds, w'') = attempt_loop fn opts (Suc i) w'
                in (r, delay # ds, w'')))"
  by pat_completeness auto
termination
  by (relation "measure (\<lambda>(fn, opts, i, w). ro_maxAttempts opts - i)") auto

declare attempt_loop.simps [simp del]

definition attempt_run ::
  "('w \<Rightarrow> (js_error + 'a) \<times> 'w) \<Rightarrow> RetryOptions \<Rightarrow> 'w \<Rightarrow> (RetryExhaustedError + 'a) \<times> 'w" where
  "attempt_run fn opts w =
     (if ro_maxAttempts opts = 0 then (Inl (RetryExhaustedError 0 None), w)
      else (case attempt_loop fn opts 0 w of
              (Inl e, _, w') \<Rightarrow> (Inl (RetryExhaustedError (ro_maxAttempts opts) (Some e)), w')
            | (Inr a, _, w') \<Rightarrow> (Inr a, w')))"

text \<open>
  The module's \<^verbatim>\<open>_cache\<close> maps a key to the promise of its call; a rejected promise is removed, a
  fulfilled one stays. The model runs a call to its end, so the cache holds the fulfilled values.
  An empty key is falsy and is not cached.
\<close>

type_synonym 'a retry_cache = "(string \<times> 'a) list"

definition withRetry ::
  "('w \<Rightarrow> (js_error + 'a) \<times> 'w) \<Rightarrow> RetryOptions \<Rightarrow> 'a retry_cache \<times> 'w
   \<Rightarrow> (RetryExhaustedError + 'a) \<times> 'a retry_cache \<times> 'w" where
  "withRetry fn opts st = (case st of (cache, w) \<Rightarrow>
     (case idempotencyKey opts of
        Some key \<Rightarrow>
          if key = [] then (case attempt_run fn opts w of (r, w') \<Rightarrow> (r, cache, w'))
          else (case map_of cache key of
                  Some v \<Rightarrow> (Inr v, cache, w)
                | None \<Rightarrow>
                    (case attempt_run fn opts w of
                       (Inl e, w') \<Rightarrow> (Inl e, AList.delete key cache, w')
                     | (Inr v, w') \<Rightarrow> (Inr v, AList.update key v cache, w')))
      | None \<Rightarrow> (case attempt_run fn opts w of (r, w') \<Rightarrow> (r, cache, w'))))"

definition clearRetryCache :: "'a retry_cache \<times> 'w \<Rightarrow> 'a retry_cache \<times> 'w" where
  "clearRetryCache st = ([], snd st)"

section \<open>The contract of a retry loop\<close>

text \<open>The outcome of the \<open>n\<close>-th call of a function, each call starting in the world the one
  before left.\<close>

definition nth_world :: "('w \<Rightarrow> 'r \<times> 'w) \<Rightarrow> 'w \<Rightarrow> nat \<Rightarrow> 'w" where
  "nth_world fn w n = ((\<lambda>w. snd (fn w)) ^^ n) w"

definition outcome :: "('w \<Rightarrow> 'r \<times> 'w) \<Rightarrow> 'w \<Rightarrow> nat \<Rightarrow> 'r" where
  "outcome fn w n = fst (fn (nth_world fn w n))"

lemma nth_world_Suc: "nth_world fn w (Suc n) = snd (fn (nth_world fn w n))"
  by (simp add: nth_world_def)

text \<open>\<open>decides\<close>: a success, or an error that the policy does not retry.\<close>

definition decides :: "('e \<Rightarrow> bool) \<Rightarrow> 'e + 'a \<Rightarrow> bool" where
  "decides retryable r = (case r of Inr _ \<Rightarrow> True | Inl e \<Rightarrow> \<not> retryable e)"

locale retry_loop =
  fixes decided :: "nat \<Rightarrow> bool"
    and limit :: nat
    and stop :: "nat \<Rightarrow> 'r"
    and loop :: "nat \<Rightarrow> 'r"
  assumes loop_stop: "decided i \<or> limit \<le> i \<Longrightarrow> loop i = stop i"
    and loop_again: "\<not> decided i \<Longrightarrow> i < limit \<Longrightarrow> loop i = loop (Suc i)"
begin

lemma loop_from:
  "i \<le> limit \<Longrightarrow> \<exists>k. i \<le> k \<and> k \<le> limit \<and> loop i = stop k
     \<and> (decided k \<or> k = limit) \<and> (\<forall>j. i \<le> j \<and> j < k \<longrightarrow> \<not> decided j)"
proof (induction "limit - i" arbitrary: i)
  case 0
  then show ?case by (intro exI [of _ i]) (auto simp: loop_stop)
next
  case (Suc n)
  show ?case
  proof (cases "decided i")
    case True
    then show ?thesis using Suc.prems by (intro exI [of _ i]) (auto simp: loop_stop)
  next
    case False
    have i: "i < limit" using Suc.hyps(2) by simp
    have "n = limit - Suc i" using Suc.hyps(2) by simp
    from Suc.hyps(1) [OF this] i obtain k where k: "Suc i \<le> k" "k \<le> limit" "loop (Suc i) = stop k"
        "decided k \<or> k = limit" "\<forall>j. Suc i \<le> j \<and> j < k \<longrightarrow> \<not> decided j"
      by auto
    moreover have "\<not> decided j" if "i \<le> j" "j < k" for j
      using that k(5) False by (cases "j = i") auto
    ultimately show ?thesis using loop_again [OF False i]
      by (intro exI [of _ k]) auto
  qed
qed

lemmas loop_first = loop_from [OF le0]

end

text \<open>The two loops as instances. A result is the value or error, the number of calls made so far
  (read off the trace of retries) and the world after the last call.\<close>

definition stop_result :: "('w \<Rightarrow> 'r \<times> 'w) \<Rightarrow> 'w \<Rightarrow> nat \<Rightarrow> 'r \<times> nat \<times> 'w" where
  "stop_result fn w k = (outcome fn w k, Suc k, nth_world fn w (Suc k))"

definition backoff_result ::
  "('w \<Rightarrow> (js_error + 'a) \<times> 'w) \<Rightarrow> BackoffOptions \<Rightarrow> (nat \<Rightarrow> rat) \<Rightarrow> 'w \<Rightarrow> nat \<Rightarrow> (js_error + 'a) \<times> nat \<times> 'w" where
  "backoff_result fn opts random w i =
     (case backoff_loop fn opts random i (nth_world fn w i) of
        (r, tr, w') \<Rightarrow> (r, Suc i + length tr, w'))"

definition attempt_result ::
  "('w \<Rightarrow> (js_error + 'a) \<times> 'w) \<Rightarrow> RetryOptions \<Rightarrow> 'w \<Rightarrow> nat \<Rightarrow> (js_error + 'a) \<times> nat \<times> 'w" where
  "attempt_result fn opts w i =
     (case attempt_loop fn opts i (nth_world fn w i) of
        (r, ds, w') \<Rightarrow> (r, Suc i + length ds, w'))"

lemmas loop_simps = outcome_def nth_world_Suc decides_def stop_result_def

interpretation wb: retry_loop "\<lambda>i. decides (worth_retry opts) (outcome fn w i)"
    "nat (maxRetries opts)" "stop_result fn w" "backoff_result fn opts random w"
  for opts :: BackoffOptions and fn :: "'w \<Rightarrow> (js_error + 'a) \<times> 'w" and w :: 'w
    and random :: "nat \<Rightarrow> rat"
proof unfold_locales
  show "backoff_result fn opts random w i = stop_result fn w i"
    if "decides (worth_retry opts) (outcome fn w i) \<or> nat (maxRetries opts) \<le> i" for i
    using that unfolding backoff_result_def
    by (subst backoff_loop.simps) (auto simp: loop_simps split: prod.splits sum.splits)
  show "backoff_result fn opts random w i = backoff_result fn opts random w (Suc i)"
    if "\<not> decides (worth_retry opts) (outcome fn w i)" "i < nat (maxRetries opts)" for i
    using that unfolding backoff_result_def
    by (subst backoff_loop.simps) (auto simp: loop_simps Let_def split: prod.splits sum.splits)
qed

interpretation wr: retry_loop "\<lambda>i. decides isTransient (outcome fn w i)"
    "ro_maxAttempts opts - 1" "stop_result fn w" "attempt_result fn opts w"
  for opts :: RetryOptions and fn :: "'w \<Rightarrow> (js_error + 'a) \<times> 'w" and w :: 'w
proof unfold_locales
  show "attempt_result fn opts w i = stop_result fn w i"
    if "decides isTransient (outcome fn w i) \<or> ro_maxAttempts opts - 1 \<le> i" for i
    using that unfolding attempt_result_def
    by (subst attempt_loop.simps) (auto simp: loop_simps split: prod.splits sum.splits)
  show "attempt_result fn opts w i = attempt_result fn opts w (Suc i)"
    if "\<not> decides isTransient (outcome fn w i)" "i < ro_maxAttempts opts - 1" for i
    using that unfolding attempt_result_def
    by (subst attempt_loop.simps) (auto simp: loop_simps Let_def split: prod.splits sum.splits)
qed

section \<open>Delays\<close>

lemma floor_near: "\<bar>of_int \<lfloor>x + 1/2\<rfloor> - x\<bar> \<le> (1/2 :: rat)"
  by linarith

lemma computeDelay_near:
  fixes n :: nat
  assumes r: "0 \<le> random" "random \<le> 1" and j: "0 \<le> jitf" "jitf \<le> 1" and d: "0 \<le> base" "0 \<le> maxd"
  defines "capped \<equiv> min (base * 2 ^ n) maxd"
  shows "0 \<le> computeDelay n base maxd jitf random"
    and "\<bar>of_int (computeDelay n base maxd jitf random) - capped\<bar> \<le> jitf * capped + 1/2"
proof -
  let ?jit = "(random * 2 - 1) * jitf * capped"
  have c: "0 \<le> capped" using d by (simp add: capped_def)
  have "\<bar>random * 2 - 1\<bar> \<le> 1" using r by linarith
  then have "\<bar>random * 2 - 1\<bar> * (jitf * capped) \<le> 1 * (jitf * capped)"
    using c j by (intro mult_right_mono) simp_all
  then have jit: "\<bar>?jit\<bar> \<le> jitf * capped" using c j by (simp add: abs_mult mult.assoc)
  have "jitf * capped \<le> 1 * capped" using j(2) c by (rule mult_right_mono)
  then have "0 \<le> capped + ?jit" using jit by linarith
  then have "0 \<le> \<lfloor>capped + ?jit + 1/2\<rfloor>" by linarith
  then have eq: "computeDelay n base maxd jitf random = \<lfloor>capped + ?jit + 1/2\<rfloor>"
    by (simp add: computeDelay_def capped_def Let_def)
  show "0 \<le> computeDelay n base maxd jitf random"
    by (simp add: computeDelay_def Let_def)
  show "\<bar>of_int (computeDelay n base maxd jitf random) - capped\<bar> \<le> jitf * capped + 1/2"
    using jit floor_near [of "capped + ?jit"] unfolding eq by linarith
qed

lemma backoff_notes:
  "backoff_loop fn opts random i w = (r, tr, w') \<Longrightarrow> (n, e, d) \<in> set tr
   \<Longrightarrow> \<exists>m. n = Suc m \<and> d = computeDelay m (baseDelayMs opts) (maxDelayMs opts) (jitterFactor opts) (random m)"
proof (induction fn opts random i w arbitrary: r tr w' rule: backoff_loop.induct)
  case (1 fn opts random i w)
  obtain o1 w1 where fw: "fn w = (o1, w1)" by (cases "fn w")
  have step: "(case (o1, w1) of
        (Inr a, w') \<Rightarrow> (Inr a, [], w')
      | (Inl err, w') \<Rightarrow>
          if \<not> worth_retry opts err then (Inl err, [], w')
          else if int i \<ge> maxRetries opts then (Inl err, [], w')
          else (let delay = computeDelay i (baseDelayMs opts) (maxDelayMs opts) (jitterFactor opts) (random i);
                    (r, tr, w'') = backoff_loop fn opts random (Suc i) w'
                in (r, (Suc i, err, delay) # tr, w''))) = (r, tr, w')"
    using "1.prems"(1) by (simp add: backoff_loop.simps [of fn opts random i w] fw)
  show ?case
    using step "1.prems"(2) "1.IH" [OF fw [symmetric]]
    by (auto simp: Let_def split: sum.splits if_splits prod.splits)
qed

section \<open>Properties\<close>

text \<open>withBackoff calls the function at most maxRetries + 1 times and returns the outcome of
  the first call that succeeded or failed in a way that is not retryable, or of the last call
  allowed; every earlier call failed with a retryable error.\<close>

theorem withBackoff_first_decisive:
  assumes "0 \<le> maxRetries opts" and "withBackoff fn opts random w = (r, tr, w')"
  shows "\<exists>k \<le> nat (maxRetries opts).
      length tr = k \<and> w' = nth_world fn w (Suc k)
    \<and> r = map_sum Some id (outcome fn w k)
    \<and> (decides (worth_retry opts) (outcome fn w k) \<or> k = nat (maxRetries opts))
    \<and> (\<forall>j < k. \<not> decides (worth_retry opts) (outcome fn w j))"
proof -
  obtain r0 tr0 w0 where l: "backoff_loop fn opts random 0 w = (r0, tr0, w0)"
    by (cases "backoff_loop fn opts random 0 w")
  have res: "r = map_sum Some id r0" "tr = tr0" "w' = w0"
    using assms l by (auto simp: withBackoff_def split: sum.splits)
  obtain k where k: "k \<le> nat (maxRetries opts)" "backoff_result fn opts random w 0 = stop_result fn w k"
      "decides (worth_retry opts) (outcome fn w k) \<or> k = nat (maxRetries opts)"
      "\<forall>j. j < k \<longrightarrow> \<not> decides (worth_retry opts) (outcome fn w j)"
    using wb.loop_first [where opts = opts and fn = fn and w = w and random = random] by auto
  then show ?thesis
    using l res by (intro exI [of _ k]) (auto simp: backoff_result_def stop_result_def nth_world_def)
qed

definition flaky :: "nat \<Rightarrow> (js_error + nat) \<times> nat" where
  "flaky w = (if w < 2 then Inl \<lparr>message = Some ''Network error'', as_string = []\<rparr> else Inr w, Suc w)"

theorem withBackoff_first_decisive_witness:
  "fst (withBackoff flaky default_backoff (\<lambda>_. 1/2) 0) = Inr 2 \<and>
   (\<exists>k \<le> 5. length (fst (snd (withBackoff flaky default_backoff (\<lambda>_. 1/2) 0))) = k
      \<and> decides (worth_retry default_backoff) (outcome flaky 0 k) \<or> k = 5)"
proof -
  have v: "withBackoff flaky default_backoff (\<lambda>_. 1/2) 0 =
     (Inr 2, [(1, \<lparr>message = Some ''Network error'', as_string = []\<rparr>, 1000),
              (2, \<lparr>message = Some ''Network error'', as_string = []\<rparr>, 2000)], 3)"
    by (simp add: withBackoff_def backoff_loop.simps flaky_def default_backoff_def worth_retry_def
          computeDelay_def floor_eq_iff)
  have m: "0 \<le> maxRetries default_backoff" by (simp add: default_backoff_def)
  from withBackoff_first_decisive [OF m v] show ?thesis unfolding v
    by (auto simp: default_backoff_def)
qed

text \<open>Every delay that withBackoff sleeps is non-negative and within the jitter band around
  the exponential delay capped at maxDelayMs, so it never exceeds the cap by more than the jitter
  fraction and a rounding of half a millisecond.\<close>

theorem withBackoff_delay_bounds:
  assumes "0 \<le> jitterFactor opts" "jitterFactor opts \<le> 1" "0 \<le> baseDelayMs opts" "0 \<le> maxDelayMs opts"
    and "\<And>i. 0 \<le> random i \<and> random i < 1"
    and "(n, e, d) \<in> set (fst (snd (withBackoff fn opts random w)))"
  shows "0 \<le> d \<and> of_int d \<le> maxDelayMs opts * (1 + jitterFactor opts) + 1/2
    \<and> \<bar>of_int d - min (baseDelayMs opts * 2 ^ (n - 1)) (maxDelayMs opts)\<bar>
        \<le> jitterFactor opts * min (baseDelayMs opts * 2 ^ (n - 1)) (maxDelayMs opts) + 1/2"
proof -
  obtain r tr w' where l: "backoff_loop fn opts random 0 w = (r, tr, w')"
    by (cases "backoff_loop fn opts random 0 w")
  have "(n, e, d) \<in> set tr"
    using assms(6) l by (auto simp: withBackoff_def split: sum.splits if_splits)
  with backoff_notes [OF l] obtain m where m: "n = Suc m"
      "d = computeDelay m (baseDelayMs opts) (maxDelayMs opts) (jitterFactor opts) (random m)" by blast
  let ?c = "min (baseDelayMs opts * 2 ^ m) (maxDelayMs opts)"
  note near = computeDelay_near [of "random m" "jitterFactor opts" "baseDelayMs opts" "maxDelayMs opts" m]
  have 1: "0 \<le> d" and 2: "\<bar>of_int d - ?c\<bar> \<le> jitterFactor opts * ?c + 1/2"
    using near assms(1-4) assms(5) [of m] m(2) by (auto simp: less_imp_le)
  have "jitterFactor opts * ?c \<le> jitterFactor opts * maxDelayMs opts"
    using assms(1) by (intro mult_left_mono) auto
  with 2 have "of_int d \<le> maxDelayMs opts * (1 + jitterFactor opts) + 1/2"
    by (simp add: algebra_simps)
  with 1 2 m(1) show ?thesis by simp
qed

theorem withBackoff_delay_bounds_witness:
  "(0::int) \<le> 2000 \<and> of_int 2000 \<le> (60000::rat) * (1 + 1/5) + 1/2"
proof -
  have v: "(2, \<lparr>message = Some ''Network error'', as_string = []\<rparr>, 2000)
      \<in> set (fst (snd (withBackoff flaky default_backoff (\<lambda>_. 1/2) 0)))"
    by (simp add: withBackoff_def backoff_loop.simps flaky_def default_backoff_def worth_retry_def
          computeDelay_def floor_eq_iff)
  have "jitterFactor default_backoff = 1/5" "maxDelayMs default_backoff = 60000"
       "baseDelayMs default_backoff = 1000"
    by (simp_all add: default_backoff_def)
  with withBackoff_delay_bounds [OF _ _ _ _ _ v] show ?thesis by simp
qed

text \<open>Once a call of withRetry with an idempotency key has succeeded, every later call with the
  same key returns the same value without calling the function again, whatever function and
  options it brings.\<close>

theorem withRetry_idempotent:
  assumes "idempotencyKey opts = Some key" "key \<noteq> []"
    and "withRetry fn opts (cache, w) = (Inr v, cache', w')"
    and "idempotencyKey opts' = Some key"
  shows "withRetry fn' opts' (cache', w'') = (Inr v, cache', w'')"
proof -
  have "map_of cache' key = Some v"
    using assms(1-3)
    by (auto simp: withRetry_def AList.update_conv' split: option.splits prod.splits sum.splits)
  then show ?thesis using assms(2,4) by (simp add: withRetry_def)
qed

definition retry_defaults :: "string \<Rightarrow> RetryOptions" where
  "retry_defaults key = \<lparr>ro_maxAttempts = 4, ro_baseDelayMs = 500, ro_maxDelayMs = 10000, idempotencyKey = Some key\<rparr>"

lemma flaky_transient: "isTransient \<lparr>message = Some ''Network error'', as_string = []\<rparr>"
  by code_simp

theorem withRetry_idempotent_witness:
  "withRetry flaky (retry_defaults ''k'') ([], 0) = (Inr 2, [(''k'', 2)], 3)
   \<and> withRetry flaky (retry_defaults ''k'') ([(''k'', 2)], 0) = (Inr 2, [(''k'', 2)], 0)"
proof -
  have v: "withRetry flaky (retry_defaults ''k'') ([], 0) = (Inr 2, [(''k'', 2)], 3)"
    by (simp add: withRetry_def retry_defaults_def attempt_run_def attempt_loop.simps flaky_def
          flaky_transient)
  have k: "idempotencyKey (retry_defaults ''k'') = Some ''k''" by (simp add: retry_defaults_def)
  from withRetry_idempotent [OF k _ v k] v show ?thesis by simp
qed

text \<open>A call of withRetry that fails leaves its key out of the cache, made at most maxAttempts
  calls, and reports maxAttempts as the number of attempts even when a non-transient error
  stopped it after fewer.\<close>

theorem withRetry_failure:
  assumes "idempotencyKey opts = Some key" "key \<noteq> []" "0 < ro_maxAttempts opts"
    and "withRetry fn opts (cache, w) = (Inl err, cache', w')"
  shows "map_of cache' key = None \<and> attempts err = ro_maxAttempts opts
    \<and> (\<exists>k < ro_maxAttempts opts. w' = nth_world fn w (Suc k)
         \<and> map_option Inl (lastError err) = Some (outcome fn w k)
         \<and> (decides isTransient (outcome fn w k) \<or> Suc k = ro_maxAttempts opts))"
proof -
  obtain r ds w0 where l: "attempt_loop fn opts 0 w = (r, ds, w0)"
    by (cases "attempt_loop fn opts 0 w")
  obtain k where k: "k \<le> ro_maxAttempts opts - 1" "attempt_result fn opts w 0 = stop_result fn w k"
      "decides isTransient (outcome fn w k) \<or> k = ro_maxAttempts opts - 1"
    using wr.loop_first [where opts = opts and fn = fn and w = w] by auto
  have r: "r = outcome fn w k" "w0 = nth_world fn w (Suc k)"
    using k(2) l by (auto simp: attempt_result_def stop_result_def nth_world_def)
  obtain e where e: "r = Inl e" "err = RetryExhaustedError (ro_maxAttempts opts) (Some e)" "w' = w0"
      "cache' = AList.delete key cache"
    using assms l by (auto simp: withRetry_def attempt_run_def split: option.splits sum.splits)
  have "map_of cache' key = None" by (simp add: e(4) AList.delete_conv')
  with e r k assms(3) show ?thesis by (auto intro!: exI [of _ k])
qed

definition bad_request :: "nat \<Rightarrow> (js_error + nat) \<times> nat" where
  "bad_request w = (Inl \<lparr>message = Some ''bad'', as_string = []\<rparr>, Suc w)"

theorem withRetry_failure_witness:
  "withRetry bad_request (retry_defaults ''k'') ([], 0) =
     (Inl (RetryExhaustedError 4 (Some \<lparr>message = Some ''bad'', as_string = []\<rparr>)), [], 1)
   \<and> (\<exists>k < 4. (1::nat) = nth_world bad_request 0 (Suc k))"
proof -
  have bad: "\<not> isTransient \<lparr>message = Some ''bad'', as_string = []\<rparr>"
    by code_simp
  have v: "withRetry bad_request (retry_defaults ''k'') ([], 0) =
     (Inl (RetryExhaustedError 4 (Some \<lparr>message = Some ''bad'', as_string = []\<rparr>)), [], 1)"
    by (simp add: withRetry_def retry_defaults_def attempt_run_def attempt_loop.simps bad_request_def bad)
  have k: "idempotencyKey (retry_defaults ''k'') = Some ''k''" "0 < ro_maxAttempts (retry_defaults ''k'')"
      "ro_maxAttempts (retry_defaults ''k'') = 4"
    by (simp_all add: retry_defaults_def)
  from withRetry_failure [OF k(1) _ k(2) v] v k(3) show ?thesis by auto
qed

end
