(* ===== verification/Reconciler.thy ===== *)
theory Reconciler
  imports Prelude
begin

text \<open>
  The reconciler: \<^verbatim>\<open>backend/reconciler.ts\<close>, which replays the chain events and repairs a
  subscription database, and \<^verbatim>\<open>backend/src/services/reconciler.ts\<close>, with the database adapters.

  The interface \<^verbatim>\<open>SubscriptionDB\<close> of the source is the record \<open>SubscriptionDB_ops\<close>; its two
  implementations are \<open>PrismaSubscriptionDB\<close> (a map filled from the \<^verbatim>\<open>Event\<close> table) and the wrapper
  \<open>ReadOnlySubscriptionDB\<close>. The locale \<open>subscription_db\<close> states the laws a writable implementation
  keeps, and the correctness of the repair loop is proved once from them.

  Composite keys are the strings \<^verbatim>\<open>subscriber:merchant:token\<close> of the source, taken apart again by
  splitting at colons; the theorems assume that the three parts hold no colon, which is so for
  Stellar addresses.
\<close>

section \<open>Data\<close>

text \<open>The event type is the text of a database column, cast without a check, so any text occurs.\<close>

record ChainEvent =
  ce_type :: string
  ce_subscriber :: string
  ce_merchant :: string
  ce_token :: string
  ce_amount :: int
  ce_timestamp :: int

datatype amount = BigI int | Str string

record StoredSubscription =
  ss_subscriber :: string
  ss_merchant :: string
  ss_token :: string
  ss_amount :: amount
  ss_interval :: int
  ss_next_payment :: int
  ss_last_payment_at :: "int option"

record 's SubscriptionDB_ops =
  db_get :: "string \<Rightarrow> string \<Rightarrow> string \<Rightarrow> 's \<Rightarrow> StoredSubscription option"
  db_upsert :: "StoredSubscription \<Rightarrow> 's \<Rightarrow> 's"
  db_delete :: "string \<Rightarrow> string \<Rightarrow> string \<Rightarrow> 's \<Rightarrow> 's"
  db_all :: "'s \<Rightarrow> StoredSubscription list"

datatype RepairAction =
    RInsert StoredSubscription
  | RUpdate StoredSubscription StoredSubscription
  | RDelete string string

datatype syntax_error = SyntaxError

definition triple_key :: "string \<Rightarrow> string \<Rightarrow> string \<Rightarrow> string" where
  "triple_key s m t = s @ '':'' @ m @ '':'' @ t"

definition event_key :: "ChainEvent \<Rightarrow> string" where
  "event_key ev = triple_key (ce_subscriber ev) (ce_merchant ev) (ce_token ev)"

definition record_key :: "StoredSubscription \<Rightarrow> string" where
  "record_key r = triple_key (ss_subscriber r) (ss_merchant r) (ss_token r)"

section \<open>The reconciler\<close>

type_synonym expected = "(string \<times> StoredSubscription option) list"

definition subscribed :: "int \<Rightarrow> ChainEvent \<Rightarrow> StoredSubscription option \<Rightarrow> StoredSubscription" where
  "subscribed defaultInterval ev prev =
     (let interval = (case prev of Some p \<Rightarrow> ss_interval p | None \<Rightarrow> defaultInterval)
      in \<lparr>ss_subscriber = ce_subscriber ev, ss_merchant = ce_merchant ev, ss_token = ce_token ev,
          ss_amount = BigI (ce_amount ev), ss_interval = interval,
          ss_next_payment = ce_timestamp ev + interval,
          ss_last_payment_at = (case prev of Some p \<Rightarrow> ss_last_payment_at p | None \<Rightarrow> None)\<rparr>)"

definition executed :: "ChainEvent \<Rightarrow> StoredSubscription \<Rightarrow> StoredSubscription" where
  "executed ev cur = cur\<lparr>ss_amount := BigI (ce_amount ev),
     ss_last_payment_at := Some (ce_timestamp ev),
     ss_next_payment := ce_timestamp ev + ss_interval cur\<rparr>"

definition no_subscribe_error :: "ChainEvent \<Rightarrow> string" where
  "no_subscribe_error ev = ''executed event for '' @ event_key ev @ '' at t='' @ int_str (ce_timestamp ev)
     @ '' has no preceding subscribe''"

definition replay_event :: "int \<Rightarrow> ChainEvent \<Rightarrow> expected \<times> string list \<Rightarrow> expected \<times> string list" where
  "replay_event defaultInterval ev st = (case st of (expected, errors) \<Rightarrow>
     (let key = event_key ev; cur = Option.bind (map_of expected key) id in
      if ce_type ev = ''subscribe'' then (AList.update key (Some (subscribed defaultInterval ev cur)) expected, errors)
      else if ce_type ev = ''executed'' then
        (case cur of
           None \<Rightarrow> (expected, errors @ [no_subscribe_error ev])
         | Some c \<Rightarrow> (AList.update key (Some (executed ev c)) expected, errors))
      else if ce_type ev = ''cancel'' then (AList.update key None expected, errors)
      else (expected, errors)))"

definition replay :: "int \<Rightarrow> ChainEvent list \<Rightarrow> expected \<times> string list" where
  "replay defaultInterval events = fold (replay_event defaultInterval) events ([], [])"

definition toBigInt :: "amount \<Rightarrow> syntax_error + int" where
  "toBigInt val = (case val of BigI i \<Rightarrow> Inr i
     | Str s \<Rightarrow> (case big_int s of None \<Rightarrow> Inl SyntaxError | Some i \<Rightarrow> Inr i))"

definition recordsMatch :: "StoredSubscription \<Rightarrow> StoredSubscription \<Rightarrow> syntax_error + bool" where
  "recordsMatch a b =
     (if ss_token a \<noteq> ss_token b then Inr False
      else case toBigInt (ss_amount a) of Inl e \<Rightarrow> Inl e | Inr x \<Rightarrow>
        (case toBigInt (ss_amount b) of Inl e \<Rightarrow> Inl e | Inr y \<Rightarrow>
          Inr (x = y \<and> ss_interval a = ss_interval b \<and> ss_next_payment a = ss_next_payment b
               \<and> ss_last_payment_at a = ss_last_payment_at b)))"

text \<open>One entry of the diff: the repairs it adds, or the exception, and the database after it.\<close>

definition diff_want ::
  "'s SubscriptionDB_ops \<Rightarrow> string \<Rightarrow> string \<Rightarrow> string \<Rightarrow> StoredSubscription option \<Rightarrow> 's
   \<Rightarrow> (syntax_error + RepairAction list) \<times> 's" where
  "diff_want ops subscriber merchant token want db =
     (let have = db_get ops subscriber merchant token db in
      case want of
        None \<Rightarrow> (case have of None \<Rightarrow> (Inr [], db)
               | Some _ \<Rightarrow> (Inr [RDelete subscriber merchant], db_delete ops subscriber merchant token db))
      | Some w \<Rightarrow>
          (case have of
             None \<Rightarrow> (Inr [RInsert w], db_upsert ops w db)
           | Some h \<Rightarrow>
               (case recordsMatch h w of
                  Inl e \<Rightarrow> (Inl e, db)
                | Inr True \<Rightarrow> (Inr [], db)
                | Inr False \<Rightarrow> (Inr [RUpdate h w], db_upsert ops w db))))"

text \<open>\<^verbatim>\<open>const [subscriber, merchant, token] = key.split(':')\<close>; a key has at least three parts.\<close>

definition diff_entry ::
  "'s SubscriptionDB_ops \<Rightarrow> string \<times> StoredSubscription option \<Rightarrow> 's \<Rightarrow> (syntax_error + RepairAction list) \<times> 's" where
  "diff_entry ops e db = (case js_split CHR '':'' (fst e) of
      s # m # t # _ \<Rightarrow> diff_want ops s m t (snd e) db
    | _ \<Rightarrow> (Inr [], db))"

fun diff_loop ::
  "'s SubscriptionDB_ops \<Rightarrow> expected \<Rightarrow> 's \<Rightarrow> (syntax_error + RepairAction list) \<times> 's" where
  "diff_loop ops [] db = (Inr [], db)"
| "diff_loop ops (e # es) db =
     (case diff_entry ops e db of
        (Inl x, db') \<Rightarrow> (Inl x, db')
      | (Inr reps, db') \<Rightarrow> (case diff_loop ops es db' of
            (Inl x, db'') \<Rightarrow> (Inl x, db'')
          | (Inr reps', db'') \<Rightarrow> (Inr (reps @ reps'), db'')))"

definition orphan_errors :: "'s SubscriptionDB_ops \<Rightarrow> expected \<Rightarrow> 's \<Rightarrow> string list" where
  "orphan_errors ops expected db =
     map (\<lambda>r. ''orphan record in DB for '' @ record_key r @ '' - no on-chain subscribe event found'')
       (filter (\<lambda>r. map_of expected (record_key r) = None) (db_all ops db))"

record ReconcileResult =
  repairs :: "RepairAction list"
  errors :: "string list"

definition reconcile ::
  "'s SubscriptionDB_ops \<Rightarrow> ChainEvent list \<Rightarrow> 's \<Rightarrow> int \<Rightarrow> (syntax_error + ReconcileResult) \<times> 's" where
  "reconcile ops events db defaultInterval =
     (case replay defaultInterval events of (expected, errs) \<Rightarrow>
       (case diff_loop ops expected db of
          (Inl e, db') \<Rightarrow> (Inl e, db')
        | (Inr reps, db') \<Rightarrow>
            (Inr \<lparr>repairs = reps, errors = errs @ orphan_errors ops expected db'\<rparr>, db')))"

section \<open>The adapters\<close>

type_synonym prisma_store = "(string \<times> StoredSubscription) list"

definition PrismaSubscriptionDB :: "prisma_store SubscriptionDB_ops" where
  "PrismaSubscriptionDB =
     \<lparr>db_get = (\<lambda>s m t store. map_of store (triple_key s m t)),
      db_upsert = (\<lambda>r store. AList.update (record_key r) r store),
      db_delete = (\<lambda>s m t store. AList.delete (triple_key s m t) store),
      db_all = (\<lambda>store. map snd store)\<rparr>"

definition ReadOnlySubscriptionDB :: "'s SubscriptionDB_ops \<Rightarrow> 's SubscriptionDB_ops" where
  "ReadOnlySubscriptionDB inner = inner\<lparr>db_upsert := (\<lambda>_ db. db), db_delete := (\<lambda>_ _ _ db. db)\<rparr>"

text \<open>The \<^verbatim>\<open>Event\<close> table. Both readers order it by ledger; rows of one ledger keep table order.\<close>

record event_row =
  er_type :: string
  er_subscriber :: string
  er_merchant :: string
  er_token :: string
  er_amount :: string
  er_ledgerTimestamp :: int

definition event_findMany :: "event_row list \<Rightarrow> event_row list" where
  "event_findMany tbl = sort_key er_ledgerTimestamp tbl"

definition row_event :: "event_row \<Rightarrow> syntax_error + ChainEvent" where
  "row_event row = (case big_int (er_amount row) of
      None \<Rightarrow> Inl SyntaxError
    | Some a \<Rightarrow> Inr \<lparr>ce_type = er_type row, ce_subscriber = er_subscriber row, ce_merchant = er_merchant row,
        ce_token = er_token row, ce_amount = a, ce_timestamp = er_ledgerTimestamp row\<rparr>)"

fun rows_events :: "event_row list \<Rightarrow> syntax_error + ChainEvent list" where
  "rows_events [] = Inr []"
| "rows_events (r # rs) = (case row_event r of Inl e \<Rightarrow> Inl e
     | Inr ev \<Rightarrow> (case rows_events rs of Inl e \<Rightarrow> Inl e | Inr evs \<Rightarrow> Inr (ev # evs)))"

definition fetchChainEventsFromDB :: "event_row list \<Rightarrow> syntax_error + ChainEvent list" where
  "fetchChainEventsFromDB tbl = rows_events (event_findMany tbl)"

definition load_event :: "int \<Rightarrow> ChainEvent \<Rightarrow> prisma_store \<Rightarrow> prisma_store" where
  "load_event defaultInterval ev store =
     (let key = event_key ev; cur = map_of store key in
      if ce_type ev = ''subscribe'' then AList.update key (subscribed defaultInterval ev cur) store
      else if ce_type ev = ''executed'' then
        (case cur of None \<Rightarrow> store | Some c \<Rightarrow> AList.update key (executed ev c) store)
      else if ce_type ev = ''cancel'' then AList.delete key store
      else store)"

fun load_rows :: "int \<Rightarrow> event_row list \<Rightarrow> prisma_store \<Rightarrow> syntax_error + prisma_store" where
  "load_rows defaultInterval [] store = Inr store"
| "load_rows defaultInterval (r # rs) store = (case row_event r of Inl e \<Rightarrow> Inl e
     | Inr ev \<Rightarrow> load_rows defaultInterval rs (load_event defaultInterval ev store))"

definition load :: "event_row list \<Rightarrow> int \<Rightarrow> syntax_error + prisma_store" where
  "load tbl defaultInterval = load_rows defaultInterval (event_findMany tbl) []"

section \<open>Keys\<close>

definition plain :: "string \<Rightarrow> bool" where
  "plain s \<longleftrightarrow> CHR '':'' \<notin> set s"

definition plain_event :: "ChainEvent \<Rightarrow> bool" where
  "plain_event ev \<longleftrightarrow> plain (ce_subscriber ev) \<and> plain (ce_merchant ev) \<and> plain (ce_token ev)"

definition plain_record :: "StoredSubscription \<Rightarrow> bool" where
  "plain_record r \<longleftrightarrow> plain (ss_subscriber r) \<and> plain (ss_merchant r) \<and> plain (ss_token r)"

lemma split_triple_key:
  "plain s \<Longrightarrow> plain m \<Longrightarrow> plain t \<Longrightarrow> js_split CHR '':'' (triple_key s m t) = [s, m, t]"
  by (simp add: plain_def triple_key_def js_split_append js_split_no_sep)

lemma triple_key_inj:
  assumes "plain s" "plain m" "plain t" "plain s'" "plain m'" "plain t'"
  shows "triple_key s m t = triple_key s' m' t' \<longleftrightarrow> s = s' \<and> m = m' \<and> t = t'"
  using split_triple_key [OF assms(1-3)] split_triple_key [OF assms(4-6)] by (metis list.inject)

lemma plain_count: "plain s \<longleftrightarrow> count_list s CHR '':'' = 0"
  by (simp add: plain_def count_list_0_iff)

lemma triple_key_plain:
  assumes "triple_key s m t = triple_key s' m' t'" "plain s'" "plain m'" "plain t'"
  shows "s = s' \<and> m = m' \<and> t = t'"
proof -
  have "count_list (triple_key s m t) CHR '':'' = count_list (triple_key s' m' t') CHR '':''"
    using assms(1) by simp
  then have "plain s" "plain m" "plain t"
    using assms(2-4) by (simp_all add: plain_count triple_key_def)
  then show ?thesis using assms triple_key_inj by blast
qed

definition is_triple :: "string \<Rightarrow> string \<Rightarrow> string \<Rightarrow> ChainEvent \<Rightarrow> bool" where
  "is_triple s m t ev \<longleftrightarrow> ce_subscriber ev = s \<and> ce_merchant ev = m \<and> ce_token ev = t"

lemma event_key_triple:
  "plain_event ev \<Longrightarrow> plain s \<Longrightarrow> plain m \<Longrightarrow> plain t \<Longrightarrow> event_key ev = triple_key s m t \<longleftrightarrow> is_triple s m t ev"
  by (simp add: event_key_def plain_event_def is_triple_def triple_key_inj)

section \<open>Specification: the state of one subscription from its own events\<close>

definition spec_step :: "int \<Rightarrow> ChainEvent \<Rightarrow> StoredSubscription option \<Rightarrow> StoredSubscription option" where
  "spec_step d ev cur =
     (if ce_type ev = ''subscribe'' then Some (subscribed d ev cur)
      else if ce_type ev = ''executed'' then map_option (executed ev) cur
      else if ce_type ev = ''cancel'' then None
      else cur)"

definition spec_state :: "int \<Rightarrow> ChainEvent list \<Rightarrow> StoredSubscription option" where
  "spec_state d evs = fold (spec_step d) evs None"

definition on_chain :: "ChainEvent list \<Rightarrow> bool" where
  "on_chain evs \<longleftrightarrow> list_ex (\<lambda>ev. ce_type ev = ''subscribe'' \<or> ce_type ev = ''cancel'') evs"

lemma spec_state_snoc: "spec_state d (evs @ [ev]) = spec_step d ev (spec_state d evs)"
  by (simp add: spec_state_def)

lemma on_chain_snoc:
  "on_chain (evs @ [ev]) \<longleftrightarrow> on_chain evs \<or> ce_type ev = ''subscribe'' \<or> ce_type ev = ''cancel''"
  by (auto simp: on_chain_def)

lemma spec_state_off_chain: "\<not> on_chain evs \<Longrightarrow> spec_state d evs = None"
  by (induction evs rule: rev_induct)
    (auto simp: spec_state_snoc on_chain_snoc spec_step_def, simp add: spec_state_def)

lemma replay_snoc: "replay d (evs @ [ev]) = replay_event d ev (replay d evs)"
  by (simp add: replay_def)

lemma replay_event_lookup:
  "map_of (fst (replay_event d ev (ex, errs))) k =
     (if k = event_key ev \<and> (ce_type ev = ''subscribe'' \<or> ce_type ev = ''cancel'' \<or> map_of ex k \<noteq> None)
      then Some (spec_step d ev (Option.bind (map_of ex k) id)) else map_of ex k)"
  by (auto simp: replay_event_def Let_def spec_step_def js_simps bind_eq_Some_conv split: option.splits)

lemma replay_lookup:
  assumes "list_all plain_event events" "plain s" "plain m" "plain t"
  shows "map_of (fst (replay d events)) (triple_key s m t) =
     (let evs = filter (is_triple s m t) events in if on_chain evs then Some (spec_state d evs) else None)"
  using assms(1)
proof (induction events rule: rev_induct)
  case Nil
  then show ?case by (simp add: replay_def on_chain_def)
next
  case (snoc ev events)
  obtain ex errs where r: "replay d events = (ex, errs)" by (cases "replay d events")
  have key: "triple_key s m t = event_key ev \<longleftrightarrow> is_triple s m t ev"
    using snoc.prems assms(2-4) event_key_triple [of ev s m t] by (simp add: eq_commute)
  show ?case
    using snoc.IH snoc.prems key
    by (auto simp: replay_snoc r replay_event_lookup Let_def spec_state_snoc on_chain_snoc
          spec_state_off_chain)
qed

text \<open>What the replayed state looks like: distinct keys, each the key of an event of the log and of
  the record stored under it, with amounts that are big integers.\<close>

definition want_ok :: "string \<times> StoredSubscription option \<Rightarrow> bool" where
  "want_ok e = (case e of (k, None) \<Rightarrow> True | (k, Some r) \<Rightarrow> k = record_key r \<and> (\<exists>i. ss_amount r = BigI i))"

lemma want_ok_simps [simp]:
  "want_ok (k, None)" "want_ok (k, Some r) \<longleftrightarrow> k = record_key r \<and> (\<exists>i. ss_amount r = BigI i)"
  by (simp_all add: want_ok_def)

lemma record_key_subscribed [simp]: "record_key (subscribed d ev p) = event_key ev"
  by (simp add: record_key_def subscribed_def event_key_def Let_def)

lemma record_key_executed [simp]: "record_key (executed ev c) = record_key c"
  by (simp add: record_key_def executed_def)

lemma bigI_amounts [simp]: "\<exists>i. ss_amount (subscribed d ev p) = BigI i" "\<exists>i. ss_amount (executed ev c) = BigI i"
  by (simp_all add: subscribed_def executed_def Let_def)

lemma set_delete_subset: "set (AList.delete k m) \<subseteq> set m"
  by (auto simp: AList.delete_eq)

lemma replay_shape:
  "distinct (map fst (fst (replay d events)))
   \<and> list_all want_ok (fst (replay d events)) \<and> fst ` set (fst (replay d events)) \<subseteq> event_key ` set events"
proof (induction events rule: rev_induct)
  case Nil
  then show ?case by (simp add: replay_def)
next
  case (snoc ev events)
  obtain ex errs where r: "replay d events = (ex, errs)" by (cases "replay d events")
  have upd: "list_all want_ok (AList.update (event_key ev) w ex)" if "want_ok (event_key ev, w)" for w
    using that snoc.IH set_update_subset [of "event_key ev" w ex] by (auto simp: r list_all_iff)
  have cur: "event_key ev = record_key c" if "map_of ex (event_key ev) = Some (Some c)" for c
    using that snoc.IH by (auto simp: r list_all_iff want_ok_def dest!: map_of_SomeD split: option.splits)
  have "list_all want_ok (fst (replay_event d ev (ex, errs)))"
    using snoc.IH cur
    by (auto simp: replay_event_def Let_def r bind_eq_Some_conv split: option.splits intro!: upd)
  moreover have "fst ` set (fst (replay_event d ev (ex, errs))) \<subseteq> event_key ` set (events @ [ev])"
    using snoc.IH by (auto simp: replay_event_def Let_def r image_subset_iff
          split: option.splits if_splits dest!: subsetD [OF set_update_subset])
  ultimately show ?case
    using snoc.IH by (auto simp: replay_snoc r replay_event_def Let_def AList.distinct_update split: option.splits)
qed

section \<open>The contract of a writable database and the repair loop\<close>

definition readable :: "StoredSubscription \<Rightarrow> bool" where
  "readable r \<longleftrightarrow> (\<exists>i. toBigInt (ss_amount r) = Inr i)"

text \<open>A stored record is in sync with the expected state of its triple.\<close>

definition same_terms :: "StoredSubscription \<Rightarrow> StoredSubscription \<Rightarrow> bool" where
  "same_terms h w \<longleftrightarrow> ss_token h = ss_token w \<and> ss_interval h = ss_interval w \<and>
     ss_next_payment h = ss_next_payment w \<and> ss_last_payment_at h = ss_last_payment_at w \<and>
     (case (toBigInt (ss_amount h), toBigInt (ss_amount w)) of (Inr x, Inr y) \<Rightarrow> x = y | _ \<Rightarrow> False)"

lemma recordsMatch_iff: "recordsMatch h w = Inr True \<longleftrightarrow> same_terms h w"
  by (auto simp: recordsMatch_def same_terms_def split: sum.splits)

definition in_sync :: "StoredSubscription option \<Rightarrow> StoredSubscription option \<Rightarrow> bool" where
  "in_sync have want = (case (have, want) of
      (None, None) \<Rightarrow> True
    | (Some h, Some w) \<Rightarrow> same_terms h w
    | _ \<Rightarrow> False)"

lemma in_sync_simps [simp]:
  "in_sync None None" "\<not> in_sync (Some h) None" "\<not> in_sync None (Some w)"
  "in_sync (Some h) (Some w) \<longleftrightarrow> recordsMatch h w = Inr True"
  by (simp_all add: in_sync_def recordsMatch_iff)

lemma recordsMatch_refl: "readable w \<Longrightarrow> recordsMatch w w = Inr True"
  by (auto simp: readable_def recordsMatch_def)

lemma recordsMatch_total: "readable a \<Longrightarrow> readable b \<Longrightarrow> \<exists>x. recordsMatch a b = Inr x"
  by (auto simp: readable_def recordsMatch_def)

lemma readable_BigI [simp]: "ss_amount r = BigI i \<Longrightarrow> readable r"
  by (simp add: readable_def toBigInt_def)

text \<open>An entry of the replayed state, taken apart: its triple, and the record it wants there.\<close>

definition entry_for :: "string \<Rightarrow> string \<Rightarrow> string \<Rightarrow> string \<times> StoredSubscription option \<Rightarrow> bool" where
  "entry_for s m t e \<longleftrightarrow> plain s \<and> plain m \<and> plain t \<and> fst e = triple_key s m t
     \<and> (\<forall>w. snd e = Some w \<longrightarrow> ss_subscriber w = s \<and> ss_merchant w = m \<and> ss_token w = t \<and> readable w)"

definition plain_entries :: "expected \<Rightarrow> bool" where
  "plain_entries es \<longleftrightarrow> distinct (map fst es) \<and> (\<forall>e \<in> set es. \<exists>s m t. entry_for s m t e)"

lemma plain_entries_replay:
  assumes "list_all plain_event events"
  shows "plain_entries (fst (replay d events))"
proof -
  have "\<exists>s m t. entry_for s m t e" if e: "e \<in> set (fst (replay d events))" for e
  proof -
    have ok: "want_ok e" using e replay_shape [of d events] by (simp add: list_all_iff)
    have "fst e \<in> event_key ` set events" using e replay_shape [of d events] by blast
    then obtain ev where ev: "ev \<in> set events" "fst e = event_key ev" by blast
    have pl: "plain (ce_subscriber ev)" "plain (ce_merchant ev)" "plain (ce_token ev)"
      using assms ev(1) by (auto simp: list_all_iff plain_event_def)
    have "entry_for (ce_subscriber ev) (ce_merchant ev) (ce_token ev) e"
    proof (cases "snd e")
      case None
      then show ?thesis using ev(2) pl by (simp add: entry_for_def event_key_def)
    next
      case (Some w)
      then have "e = (fst e, Some w)" by (metis prod.collapse)
      then have w: "fst e = record_key w" "readable w"
        using ok by (metis want_ok_simps(2), metis want_ok_simps(2) readable_BigI)
      then have "triple_key (ss_subscriber w) (ss_merchant w) (ss_token w) =
          triple_key (ce_subscriber ev) (ce_merchant ev) (ce_token ev)"
        using ev(2) by (simp add: record_key_def event_key_def)
      from triple_key_plain [OF this pl] show ?thesis
        using Some ev(2) pl w(2) by (simp add: entry_for_def event_key_def)
    qed
    then show ?thesis by blast
  qed
  then show ?thesis using replay_shape by (auto simp: plain_entries_def)
qed

lemma entry_for_key: "entry_for s' m' t' (triple_key s m t, w) \<Longrightarrow> s = s' \<and> m = m' \<and> t = t'"
  unfolding entry_for_def fst_conv by (elim conjE) (rule triple_key_plain)

lemma diff_entry_for:
  "entry_for s m t e \<Longrightarrow> diff_entry ops e db = diff_want ops s m t (snd e) db"
  by (simp add: entry_for_def diff_entry_def split_triple_key)

locale subscription_db =
  fixes ops :: "'s SubscriptionDB_ops"
    and invar :: "'s \<Rightarrow> bool"
  assumes get_upsert: "invar db \<Longrightarrow> plain_record r \<Longrightarrow> plain s \<Longrightarrow> plain m \<Longrightarrow> plain t \<Longrightarrow>
      db_get ops s m t (db_upsert ops r db) =
        (if s = ss_subscriber r \<and> m = ss_merchant r \<and> t = ss_token r then Some r else db_get ops s m t db)"
    and get_delete: "invar db \<Longrightarrow> plain s \<Longrightarrow> plain m \<Longrightarrow> plain t \<Longrightarrow> plain s' \<Longrightarrow> plain m' \<Longrightarrow> plain t' \<Longrightarrow>
      db_get ops s m t (db_delete ops s' m' t' db) =
        (if s = s' \<and> m = m' \<and> t = t' then None else db_get ops s m t db)"
    and all_upsert: "invar db \<Longrightarrow> K (record_key r) \<Longrightarrow>
      filter (\<lambda>x. \<not> K (record_key x)) (db_all ops (db_upsert ops r db)) =
        filter (\<lambda>x. \<not> K (record_key x)) (db_all ops db)"
    and all_delete: "invar db \<Longrightarrow> K (triple_key s m t) \<Longrightarrow>
      filter (\<lambda>x. \<not> K (record_key x)) (db_all ops (db_delete ops s m t db)) =
        filter (\<lambda>x. \<not> K (record_key x)) (db_all ops db)"
    and get_readable: "invar db \<Longrightarrow> db_get ops s m t db = Some r \<Longrightarrow> readable r"
    and invar_upsert: "invar db \<Longrightarrow> readable r \<Longrightarrow> invar (db_upsert ops r db)"
    and invar_delete: "invar db \<Longrightarrow> invar (db_delete ops s m t db)"
begin

text \<open>One entry: nothing happens when the triple is in sync, otherwise one repair is recorded and
  written.\<close>

lemma diff_entry_cases:
  assumes "invar db" "entry_for s m t e"
  obtains (Sync) "diff_entry ops e db = (Inr [], db)" "in_sync (db_get ops s m t db) (snd e)"
    | (Del) r where "diff_entry ops e db = (Inr [r], db_delete ops s m t db)" "snd e = None"
        "\<not> in_sync (db_get ops s m t db) (snd e)"
    | (Ups) r w where "diff_entry ops e db = (Inr [r], db_upsert ops w db)" "snd e = Some w"
        "\<not> in_sync (db_get ops s m t db) (snd e)"
proof (cases "snd e")
  case None
  then show thesis
    by (cases "db_get ops s m t db")
      (auto simp: diff_entry_for [OF assms(2)] diff_want_def intro: Sync Del)
next
  case (Some w)
  then have w: "readable w" using assms(2) by (auto simp: entry_for_def)
  show thesis
  proof (cases "db_get ops s m t db")
    case None
    then show thesis using Some
      by (intro Ups) (auto simp: diff_entry_for [OF assms(2)] diff_want_def)
  next
    case (Some h)
    obtain b where b: "recordsMatch h w = Inr b"
      using recordsMatch_total [OF get_readable [OF assms(1) Some] w] by blast
    show thesis
      using \<open>snd e = Some w\<close> Some b
      by (cases b) (auto simp: diff_entry_for [OF assms(2)] diff_want_def intro: Sync Ups)
  qed
qed

lemma entry_record:
  assumes "entry_for s m t e" "snd e = Some w"
  shows "plain_record w" "readable w" "record_key w = fst e"
    "ss_subscriber w = s" "ss_merchant w = m" "ss_token w = t"
  using assms by (auto simp: entry_for_def plain_record_def record_key_def)

lemma diff_entry_invar:
  assumes "invar db" "entry_for s m t e"
  shows "invar (snd (diff_entry ops e db))"
  by (rule diff_entry_cases [OF assms])
    (auto simp: assms(1) invar_delete entry_record [OF assms(2)] intro: invar_upsert)

lemma diff_entry_get:
  assumes "invar db" "entry_for s m t e" "plain s'" "plain m'" "plain t'"
  shows "if s' = s \<and> m' = m \<and> t' = t then in_sync (db_get ops s' m' t' (snd (diff_entry ops e db))) (snd e)
    else db_get ops s' m' t' (snd (diff_entry ops e db)) = db_get ops s' m' t' db"
proof (rule diff_entry_cases [OF assms(1,2)])
  fix r w
  assume d: "diff_entry ops e db = (Inr [r], db_upsert ops w db)" and e: "snd e = Some w"
  note w = entry_record [OF assms(2) e]
  have "db_get ops s' m' t' (db_upsert ops w db) =
      (if s' = s \<and> m' = m \<and> t' = t then Some w else db_get ops s' m' t' db)"
    using get_upsert [OF assms(1) w(1) assms(3-5)] w(4-6) by simp
  then show ?thesis
    using d e recordsMatch_refl [OF w(2)] by auto
qed (use assms in \<open>auto simp: get_delete entry_for_def\<close>)

lemma diff_entry_all:
  assumes "invar db" "entry_for s m t e" "K (fst e)"
  shows "filter (\<lambda>x. \<not> K (record_key x)) (db_all ops (snd (diff_entry ops e db))) =
    filter (\<lambda>x. \<not> K (record_key x)) (db_all ops db)"
proof (rule diff_entry_cases [OF assms(1,2)])
  fix r assume "diff_entry ops e db = (Inr [r], db_delete ops s m t db)"
  then show ?thesis using assms by (simp add: all_delete entry_for_def)
next
  fix r w
  assume "diff_entry ops e db = (Inr [r], db_upsert ops w db)" and e: "snd e = Some w"
  then show ?thesis
    using assms(1,3) entry_record(3) [OF assms(2) e] by (simp add: all_upsert)
qed auto

lemma diff_entry_fst:
  assumes "invar db" "entry_for s m t e"
  shows "\<exists>reps. fst (diff_entry ops e db) = Inr reps \<and> (reps = [] \<longleftrightarrow> in_sync (db_get ops s m t db) (snd e))"
  by (rule diff_entry_cases [OF assms]) auto

text \<open>The whole loop, by induction over the entries.\<close>

lemma plain_entries_Cons:
  assumes "plain_entries (e # es)"
  obtains s m t where "entry_for s m t e" "plain_entries es"
    "\<And>e' s' m' t'. e' \<in> set es \<Longrightarrow> entry_for s' m' t' e' \<Longrightarrow> \<not> (s' = s \<and> m' = m \<and> t' = t)"
proof -
  obtain s m t where en: "entry_for s m t e" using assms by (auto simp: plain_entries_def)
  moreover have "plain_entries es" using assms by (simp add: plain_entries_def)
  moreover have "\<not> (s' = s \<and> m' = m \<and> t' = t)" if "e' \<in> set es" "entry_for s' m' t' e'" for e' s' m' t'
  proof
    assume "s' = s \<and> m' = m \<and> t' = t"
    then have "fst e' = fst e" using that(2) en by (simp add: entry_for_def)
    then show False using that(1) assms by (metis distinct.simps(2) image_eqI list.map(2) list.set_map plain_entries_def)
  qed
  ultimately show thesis by (rule that)
qed

lemma diff_loop_Cons:
  assumes "invar db" "entry_for s m t e" "db' = snd (diff_entry ops e db)"
  shows "snd (diff_loop ops (e # es) db) = snd (diff_loop ops es db')"
    and "fst (diff_loop ops es db') = Inr reps' \<Longrightarrow> fst (diff_entry ops e db) = Inr reps
      \<Longrightarrow> fst (diff_loop ops (e # es) db) = Inr (reps @ reps')"
  using diff_entry_fst [OF assms(1,2)] assms(3) by (auto split: prod.splits sum.splits)

lemma diff_loop_invar:
  "invar db \<Longrightarrow> plain_entries es \<Longrightarrow> invar (snd (diff_loop ops es db))"
proof (induction es arbitrary: db)
  case (Cons e es)
  obtain s m t where en: "entry_for s m t e" "plain_entries es"
    by (rule plain_entries_Cons [OF Cons.prems(2)])
  show ?case
    unfolding diff_loop_Cons(1) [OF Cons.prems(1) en(1) refl]
    by (rule Cons.IH [OF diff_entry_invar [OF Cons.prems(1) en(1)] en(2)])
qed simp

lemma diff_loop_other:
  assumes "invar db" "plain_entries es" "plain s" "plain m" "plain t"
    and "\<And>e. e \<in> set es \<Longrightarrow> \<not> entry_for s m t e"
  shows "db_get ops s m t (snd (diff_loop ops es db)) = db_get ops s m t db"
  using assms(1,2,6)
proof (induction es arbitrary: db)
  case (Cons e es)
  obtain s' m' t' where en: "entry_for s' m' t' e" "plain_entries es"
    by (rule plain_entries_Cons [OF Cons.prems(2)])
  then have "\<not> (s = s' \<and> m = m' \<and> t = t')" using Cons.prems(3) [OF list.set_intros(1)] by auto
  then have "db_get ops s m t (snd (diff_entry ops e db)) = db_get ops s m t db"
    using diff_entry_get [OF Cons.prems(1) en(1) assms(3-5)] by (simp only: if_False)
  then show ?case
    unfolding diff_loop_Cons(1) [OF Cons.prems(1) en(1) refl]
    using Cons.IH [OF diff_entry_invar [OF Cons.prems(1) en(1)] en(2)] Cons.prems(3) by simp
qed simp

lemma diff_loop_sync:
  "invar db \<Longrightarrow> plain_entries es \<Longrightarrow> e \<in> set es \<Longrightarrow> entry_for s m t e
   \<Longrightarrow> in_sync (db_get ops s m t (snd (diff_loop ops es db))) (snd e)"
proof (induction es arbitrary: db)
  case (Cons e' es)
  obtain s' m' t' where en: "entry_for s' m' t' e'" "plain_entries es"
      "\<And>e'' s'' m'' t''. e'' \<in> set es \<Longrightarrow> entry_for s'' m'' t'' e'' \<Longrightarrow> \<not> (s'' = s' \<and> m'' = m' \<and> t'' = t')"
    by (rule plain_entries_Cons [OF Cons.prems(2)]) blast
  note inv = diff_entry_invar [OF Cons.prems(1) en(1)]
  have pl: "plain s" "plain m" "plain t" using Cons.prems(4) by (auto simp: entry_for_def)
  show ?case
    unfolding diff_loop_Cons(1) [OF Cons.prems(1) en(1) refl]
  proof (cases "e \<in> set es")
    case True
    then show "in_sync (db_get ops s m t (snd (diff_loop ops es (snd (diff_entry ops e' db))))) (snd e)"
      using Cons.IH [OF inv en(2)] Cons.prems(4) by blast
  next
    case False
    then have e: "e = e'" using Cons.prems(3) by simp
    then have same: "s = s' \<and> m = m' \<and> t = t'"
      using Cons.prems(4) en(1) triple_key_plain by (metis entry_for_def)
    have "db_get ops s m t (snd (diff_loop ops es (snd (diff_entry ops e' db)))) =
        db_get ops s m t (snd (diff_entry ops e' db))"
      using en(3) same by (intro diff_loop_other [OF inv en(2) pl]) blast
    then show "in_sync (db_get ops s m t (snd (diff_loop ops es (snd (diff_entry ops e' db))))) (snd e)"
      using diff_entry_get [OF Cons.prems(1) en(1) pl] same e by simp
  qed
qed simp

lemma diff_loop_all:
  assumes "invar db" "plain_entries es" "\<And>e. e \<in> set es \<Longrightarrow> K (fst e)"
  shows "filter (\<lambda>x. \<not> K (record_key x)) (db_all ops (snd (diff_loop ops es db))) =
    filter (\<lambda>x. \<not> K (record_key x)) (db_all ops db)"
  using assms
proof (induction es arbitrary: db)
  case (Cons e es)
  obtain s m t where en: "entry_for s m t e" "plain_entries es"
    by (rule plain_entries_Cons [OF Cons.prems(2)])
  show ?case
    unfolding diff_loop_Cons(1) [OF Cons.prems(1) en(1) refl]
    using Cons.IH [OF diff_entry_invar [OF Cons.prems(1) en(1)] en(2)] Cons.prems(3)
      diff_entry_all [OF Cons.prems(1) en(1)] by simp
qed simp

lemma diff_loop_fst:
  "invar db \<Longrightarrow> plain_entries es \<Longrightarrow>
   \<exists>reps. fst (diff_loop ops es db) = Inr reps
     \<and> (reps = [] \<longleftrightarrow> (\<forall>e \<in> set es. \<forall>s m t. entry_for s m t e \<longrightarrow> in_sync (db_get ops s m t db) (snd e)))"
proof (induction es arbitrary: db)
  case (Cons e es)
  let ?db = "snd (diff_entry ops e db)"
  obtain s m t where en: "entry_for s m t e" "plain_entries es"
      "\<And>e' s' m' t'. e' \<in> set es \<Longrightarrow> entry_for s' m' t' e' \<Longrightarrow> \<not> (s' = s \<and> m' = m \<and> t' = t)"
    by (rule plain_entries_Cons [OF Cons.prems(2)]) blast
  obtain r1 where r1: "fst (diff_entry ops e db) = Inr r1" "r1 = [] \<longleftrightarrow> in_sync (db_get ops s m t db) (snd e)"
    using diff_entry_fst [OF Cons.prems(1) en(1)] by blast
  obtain r2 where r2: "fst (diff_loop ops es ?db) = Inr r2"
      "r2 = [] \<longleftrightarrow> (\<forall>e \<in> set es. \<forall>s m t. entry_for s m t e \<longrightarrow> in_sync (db_get ops s m t ?db) (snd e))"
    using Cons.IH [OF diff_entry_invar [OF Cons.prems(1) en(1)] en(2)] by blast
  have same: "db_get ops s' m' t' ?db = db_get ops s' m' t' db"
    if "e' \<in> set es" "entry_for s' m' t' e'" for e' s' m' t'
    using diff_entry_get [OF Cons.prems(1) en(1), of s' m' t'] en(3) [OF that] that(2)
    by (auto simp: entry_for_def split: if_splits)
  have uniq: "s' = s \<and> m' = m \<and> t' = t" if "entry_for s' m' t' e" for s' m' t'
    using that en(1) triple_key_plain by (metis entry_for_def)
  have "r1 @ r2 = [] \<longleftrightarrow>
      (\<forall>e' \<in> set (e # es). \<forall>s m t. entry_for s m t e' \<longrightarrow> in_sync (db_get ops s m t db) (snd e'))"
    using r1(2) r2(2) same uniq en(1) by (metis Nil_is_append_conv set_ConsD list.set_intros)
  then show ?case
    using diff_loop_Cons(2) [OF Cons.prems(1) en(1) refl r2(1) r1(1)] by blast
qed simp

text \<open>Nothing is done to a database that is in sync.\<close>

lemma diff_loop_synced:
  "invar db \<Longrightarrow> plain_entries es
   \<Longrightarrow> (\<And>e s m t. e \<in> set es \<Longrightarrow> entry_for s m t e \<Longrightarrow> in_sync (db_get ops s m t db) (snd e))
   \<Longrightarrow> diff_loop ops es db = (Inr [], db)"
proof (induction es)
  case (Cons e es)
  obtain s m t where en: "entry_for s m t e" "plain_entries es"
    by (rule plain_entries_Cons [OF Cons.prems(2)])
  have "diff_entry ops e db = (Inr [], db)"
    using Cons.prems(3) [OF list.set_intros(1) en(1)]
    by (auto intro: diff_entry_cases [OF Cons.prems(1) en(1)])
  moreover have "diff_loop ops es db = (Inr [], db)"
    using Cons.IH [OF Cons.prems(1) en(2)] Cons.prems(3) [OF list.set_intros(2)] by blast
  ultimately show ?case by simp
qed simp

text \<open>The repairs do not depend on the writes made on the way: a read-only copy plans the same.\<close>

lemma diff_loop_read_only:
  assumes "invar db" "plain_entries es"
    and "\<And>e s m t. e \<in> set es \<Longrightarrow> entry_for s m t e \<Longrightarrow> db_get ops s m t db0 = db_get ops s m t db"
  shows "diff_loop (ReadOnlySubscriptionDB ops) es db0 = (fst (diff_loop ops es db), db0)"
  using assms
proof (induction es arbitrary: db)
  case (Cons e es)
  let ?db = "snd (diff_entry ops e db)"
  obtain s m t where en: "entry_for s m t e" "plain_entries es"
      "\<And>e' s' m' t'. e' \<in> set es \<Longrightarrow> entry_for s' m' t' e' \<Longrightarrow> \<not> (s' = s \<and> m' = m \<and> t' = t)"
    by (rule plain_entries_Cons [OF Cons.prems(2)]) blast
  have get0: "db_get ops s m t db0 = db_get ops s m t db" using Cons.prems(3) [OF list.set_intros(1) en(1)] .
  have ro: "diff_entry (ReadOnlySubscriptionDB ops) e db0 = (fst (diff_entry ops e db), db0)"
    using get0
    by (auto simp: diff_entry_for [OF en(1)] diff_want_def ReadOnlySubscriptionDB_def Let_def
          split: option.splits sum.splits bool.splits)
  have "db_get ops s' m' t' db0 = db_get ops s' m' t' ?db"
    if "e' \<in> set es" "entry_for s' m' t' e'" for e' s' m' t'
    using Cons.prems(3) [of e'] that diff_entry_get [OF Cons.prems(1) en(1), of s' m' t'] en(3) [OF that]
    by (auto simp: entry_for_def split: if_splits)
  from Cons.IH [OF diff_entry_invar [OF Cons.prems(1) en(1)] en(2) this] show ?case
    using diff_entry_fst [OF Cons.prems(1) en(1)] by (auto simp: ro split: prod.splits sum.splits)
qed simp

end

text \<open>The repair list tells the truth: what each repair says was stored was stored, and what it
  says is stored now is.\<close>

definition repair_at :: "string \<Rightarrow> string \<Rightarrow> StoredSubscription option \<Rightarrow> StoredSubscription option \<Rightarrow> RepairAction \<Rightarrow> bool" where
  "repair_at s m before after r = (case r of
      RInsert w \<Rightarrow> before = None \<and> after = Some w
    | RUpdate p n \<Rightarrow> before = Some p \<and> after = Some n
    | RDelete s' m' \<Rightarrow> s' = s \<and> m' = m \<and> before \<noteq> None \<and> after = None)"

context subscription_db
begin

lemma diff_entry_repair:
  assumes "entry_for s m t e" "fst (diff_entry ops e db) = Inr reps" "r \<in> set reps"
  shows "repair_at s m (db_get ops s m t db) (snd e) r \<and> \<not> in_sync (db_get ops s m t db) (snd e)"
  using assms(2,3)
  by (auto simp: diff_entry_for [OF assms(1)] diff_want_def repair_at_def Let_def
        split: option.splits sum.splits bool.splits)

lemma diff_loop_repaired:
  "invar db \<Longrightarrow> plain_entries es \<Longrightarrow> e \<in> set es \<Longrightarrow> entry_for s m t e
   \<Longrightarrow> \<not> in_sync (db_get ops s m t db) (snd e)
   \<Longrightarrow> db_get ops s m t (snd (diff_loop ops es db)) = snd e"
proof (induction es arbitrary: db)
  case (Cons e' es)
  obtain s' m' t' where en: "entry_for s' m' t' e'" "plain_entries es"
      "\<And>e'' s'' m'' t''. e'' \<in> set es \<Longrightarrow> entry_for s'' m'' t'' e'' \<Longrightarrow> \<not> (s'' = s' \<and> m'' = m' \<and> t'' = t')"
    by (rule plain_entries_Cons [OF Cons.prems(2)]) blast
  note inv = diff_entry_invar [OF Cons.prems(1) en(1)]
  have pl: "plain s" "plain m" "plain t" using Cons.prems(4) by (auto simp: entry_for_def)
  let ?db = "snd (diff_entry ops e' db)"
  have "db_get ops s m t (snd (diff_loop ops es ?db)) = snd e"
  proof (cases "e \<in> set es")
    case True
    have "db_get ops s m t ?db = db_get ops s m t db"
      using diff_entry_get [OF Cons.prems(1) en(1) pl] en(3) [OF True Cons.prems(4)]
      by (simp only: if_False)
    then show ?thesis using Cons.IH [OF inv en(2) True Cons.prems(4)] Cons.prems(5) by simp
  next
    case False
    then have e: "e' = e" using Cons.prems(3) by simp
    have same: "s' = s \<and> m' = m \<and> t' = t"
      using Cons.prems(4) en(1) e triple_key_plain by (metis entry_for_def)
    have "db_get ops s m t (snd (diff_loop ops es ?db)) = db_get ops s m t ?db"
      using en(3) same by (intro diff_loop_other [OF inv en(2) pl]) blast
    moreover have "db_get ops s m t ?db = snd e"
    proof (rule diff_entry_cases [OF Cons.prems(1,4)])
      fix r w assume "diff_entry ops e db = (Inr [r], db_upsert ops w db)" and w: "snd e = Some w"
      then show ?thesis
        using e get_upsert [OF Cons.prems(1) entry_record(1) [OF Cons.prems(4) w] pl]
          entry_record(4-6) [OF Cons.prems(4) w] by simp
    next
      fix r assume "diff_entry ops e db = (Inr [r], db_delete ops s m t db)" "snd e = None"
      then show ?thesis using e get_delete [OF Cons.prems(1) pl pl] by simp
    qed (use Cons.prems(5) in blast)
    ultimately show ?thesis by simp
  qed
  then show ?case unfolding diff_loop_Cons(1) [OF Cons.prems(1) en(1) refl] .
qed simp

lemma diff_loop_repair_of:
  "invar db \<Longrightarrow> plain_entries es \<Longrightarrow> fst (diff_loop ops es db) = Inr reps \<Longrightarrow> r \<in> set reps \<Longrightarrow>
   \<exists>e \<in> set es. \<exists>s m t. entry_for s m t e \<and> repair_at s m (db_get ops s m t db) (snd e) r
     \<and> \<not> in_sync (db_get ops s m t db) (snd e)"
proof (induction es arbitrary: db reps)
  case (Cons e es)
  let ?db = "snd (diff_entry ops e db)"
  obtain s m t where en: "entry_for s m t e" "plain_entries es"
      "\<And>e' s' m' t'. e' \<in> set es \<Longrightarrow> entry_for s' m' t' e' \<Longrightarrow> \<not> (s' = s \<and> m' = m \<and> t' = t)"
    by (rule plain_entries_Cons [OF Cons.prems(2)]) blast
  note inv = diff_entry_invar [OF Cons.prems(1) en(1)]
  obtain r1 where r1: "fst (diff_entry ops e db) = Inr r1"
    using diff_entry_fst [OF Cons.prems(1) en(1)] by blast
  obtain r2 where r2: "fst (diff_loop ops es ?db) = Inr r2" using diff_loop_fst [OF inv en(2)] by blast
  have reps: "reps = r1 @ r2"
    using diff_loop_Cons(2) [OF Cons.prems(1) en(1) refl r2 r1] Cons.prems(3) by simp
  show ?case
  proof (cases "r \<in> set r1")
    case True
    then show ?thesis using diff_entry_repair [OF en(1) r1] en(1) by auto
  next
    case False
    then have "r \<in> set r2" using Cons.prems(4) reps by simp
    from Cons.IH [OF inv en(2) r2 this] obtain e' s' m' t' where e': "e' \<in> set es" "entry_for s' m' t' e'"
        "repair_at s' m' (db_get ops s' m' t' ?db) (snd e') r" "\<not> in_sync (db_get ops s' m' t' ?db) (snd e')"
      by blast
    have "db_get ops s' m' t' ?db = db_get ops s' m' t' db"
      using diff_entry_get [OF Cons.prems(1) en(1), of s' m' t'] en(3) [OF e'(1,2)] e'(2)
      by (simp add: entry_for_def split: if_splits)
    then show ?thesis using e' by (metis list.set_intros(2))
  qed
qed simp

end

section \<open>The adapters keep the contract\<close>

definition prisma_ok :: "prisma_store \<Rightarrow> bool" where
  "prisma_ok store \<longleftrightarrow> (\<forall>(k, r) \<in> set store. k = record_key r \<and> readable r)"

lemma prisma_ok_update: "prisma_ok store \<Longrightarrow> readable r \<Longrightarrow> prisma_ok (AList.update (record_key r) r store)"
  using set_update_subset [of "record_key r" r store] by (auto simp: prisma_ok_def)

lemma prisma_ok_delete: "prisma_ok store \<Longrightarrow> prisma_ok (AList.delete k store)"
  using set_delete_subset [of k store] by (auto simp: prisma_ok_def)

lemma prisma_ok_lookup: "prisma_ok store \<Longrightarrow> map_of store k = Some r \<Longrightarrow> k = record_key r \<and> readable r"
  by (auto simp: prisma_ok_def dest!: map_of_SomeD)

lemma filter_snd_update:
  "prisma_ok store \<Longrightarrow> K (record_key r) \<Longrightarrow>
   filter (\<lambda>x. \<not> K (record_key x)) (map snd (AList.update (record_key r) r store)) =
   filter (\<lambda>x. \<not> K (record_key x)) (map snd store)"
  by (induction store) (auto simp: prisma_ok_def)

lemma filter_snd_delete:
  "prisma_ok store \<Longrightarrow> K k \<Longrightarrow>
   filter (\<lambda>x. \<not> K (record_key x)) (map snd (AList.delete k store)) =
   filter (\<lambda>x. \<not> K (record_key x)) (map snd store)"
  by (induction store) (auto simp: prisma_ok_def)

lemmas prisma_ops = PrismaSubscriptionDB_def js_simps

interpretation prisma: subscription_db PrismaSubscriptionDB prisma_ok
proof unfold_locales
  fix db :: prisma_store and r s m t
  assume "plain_record r" "plain s" "plain m" "plain t"
  then show "db_get PrismaSubscriptionDB s m t (db_upsert PrismaSubscriptionDB r db) =
      (if s = ss_subscriber r \<and> m = ss_merchant r \<and> t = ss_token r then Some r
       else db_get PrismaSubscriptionDB s m t db)"
    by (simp add: prisma_ops record_key_def plain_record_def triple_key_inj)
next
  fix db :: prisma_store and s m t s' m' t'
  assume "plain s" "plain m" "plain t" "plain s'" "plain m'" "plain t'"
  then show "db_get PrismaSubscriptionDB s m t (db_delete PrismaSubscriptionDB s' m' t' db) =
      (if s = s' \<and> m = m' \<and> t = t' then None else db_get PrismaSubscriptionDB s m t db)"
    by (simp add: prisma_ops triple_key_inj)
qed (auto simp: PrismaSubscriptionDB_def filter_snd_update filter_snd_delete prisma_ok_update
       prisma_ok_delete dest: prisma_ok_lookup)

text \<open>What \<^verbatim>\<open>load\<close> builds from a log of events.\<close>

lemma load_rows_fold:
  "rows_events rows = Inr evs \<Longrightarrow> load_rows d rows store = Inr (fold (load_event d) evs store)"
  by (induction rows arbitrary: evs store) (auto split: sum.splits)

lemma load_event_lookup:
  "map_of (load_event d ev store) k =
     (if k = event_key ev then spec_step d ev (map_of store k) else map_of store k)"
  by (auto simp: load_event_def Let_def spec_step_def js_simps split: option.splits)

lemma readable_steps [simp]: "readable (subscribed d ev p)" "readable (executed ev c)"
  using bigI_amounts readable_BigI by blast+

lemma load_event_ok:
  assumes "prisma_ok store"
  shows "prisma_ok (load_event d ev store)"
proof -
  have "prisma_ok (AList.update (event_key ev) (subscribed d ev p) store)" for p
    using prisma_ok_update [OF assms, of "subscribed d ev p"] by simp
  moreover have "prisma_ok (AList.update (event_key ev) (executed ev c) store)"
    if "map_of store (event_key ev) = Some c" for c
    using prisma_ok_update [OF assms, of "executed ev c"] prisma_ok_lookup [OF assms that] by simp
  ultimately show ?thesis
    using assms by (auto simp: load_event_def Let_def prisma_ok_delete split: option.splits)
qed

lemma load_fold_ok: "prisma_ok store \<Longrightarrow> prisma_ok (fold (load_event d) evs store)"
  by (induction evs arbitrary: store) (auto intro: load_event_ok)

lemma load_fold_lookup:
  assumes "list_all plain_event events" "plain s" "plain m" "plain t"
  shows "map_of (fold (load_event d) events []) (triple_key s m t) =
    spec_state d (filter (is_triple s m t) events)"
  using assms(1)
proof (induction events rule: rev_induct)
  case Nil
  then show ?case by (simp add: spec_state_def)
next
  case (snoc ev events)
  then have "triple_key s m t = event_key ev \<longleftrightarrow> is_triple s m t ev"
    using assms(2-4) event_key_triple [of ev s m t] by (simp add: eq_commute)
  then show ?case using snoc by (simp add: load_event_lookup spec_state_snoc)
qed

lemma reconcile_fst_Inr:
  assumes "prisma_ok store" "list_all plain_event events"
  shows "\<exists>res. reconcile PrismaSubscriptionDB events store d =
      (Inr res, snd (diff_loop PrismaSubscriptionDB (fst (replay d events)) store))
    \<and> fst (diff_loop PrismaSubscriptionDB (fst (replay d events)) store) = Inr (repairs res)"
  using prisma.diff_loop_fst [OF assms(1) plain_entries_replay [OF assms(2)], of d]
  by (auto simp: reconcile_def split: prod.splits)

lemma reconcile_repairs_true:
  assumes "prisma_ok store" "list_all plain_event events"
    and "reconcile PrismaSubscriptionDB events store d = (Inr res, store')" "r \<in> set (repairs res)"
  shows "\<exists>s m t. plain s \<and> plain m \<and> plain t
    \<and> repair_at s m (db_get PrismaSubscriptionDB s m t store) (db_get PrismaSubscriptionDB s m t store') r
    \<and> (\<forall>w. db_get PrismaSubscriptionDB s m t store' = Some w \<longrightarrow> record_key w = triple_key s m t)"
proof -
  note pe = plain_entries_replay [OF assms(2), of d]
  have st: "store' = snd (diff_loop PrismaSubscriptionDB (fst (replay d events)) store)"
    and reps: "fst (diff_loop PrismaSubscriptionDB (fst (replay d events)) store) = Inr (repairs res)"
    using reconcile_fst_Inr [OF assms(1,2), of d] assms(3) by auto
  obtain e s m t where e: "e \<in> set (fst (replay d events))" "entry_for s m t e"
      "repair_at s m (db_get PrismaSubscriptionDB s m t store) (snd e) r"
      "\<not> in_sync (db_get PrismaSubscriptionDB s m t store) (snd e)"
    using prisma.diff_loop_repair_of [OF assms(1) pe reps assms(4)] by blast
  have g: "db_get PrismaSubscriptionDB s m t store' = snd e"
    using prisma.diff_loop_repaired [OF assms(1) pe e(1,2,4)] st by simp
  then have "\<forall>w. db_get PrismaSubscriptionDB s m t store' = Some w \<longrightarrow> record_key w = triple_key s m t"
    using e(2) by (auto simp: entry_for_def record_key_def)
  then show ?thesis using e(2,3) g
    by (intro exI [of _ s] exI [of _ m] exI [of _ t]) (simp add: entry_for_def)
qed

lemma entry_for_lookup:
  assumes "list_all plain_event events" "e \<in> set (fst (replay d events))" "entry_for s m t e"
  shows "on_chain (filter (is_triple s m t) events)
    \<and> snd e = spec_state d (filter (is_triple s m t) events)"
proof -
  have "map_of (fst (replay d events)) (fst e) = Some (snd e)"
    using assms(2) replay_shape [of d events] by (simp add: map_of_is_SomeI)
  then show ?thesis
    using assms(3) replay_lookup [OF assms(1), of s m t d]
    by (auto simp: entry_for_def Let_def split: if_splits)
qed

lemma reconcile_dry_run_eq:
  assumes "prisma_ok store" "list_all plain_event events"
  shows "reconcile (ReadOnlySubscriptionDB PrismaSubscriptionDB) events store d =
    (fst (reconcile PrismaSubscriptionDB events store d), store)"
proof -
  obtain ex errs where r: "replay d events = (ex, errs)" by (cases "replay d events")
  note pe = plain_entries_replay [OF assms(2), of d, unfolded r fst_conv]
  have ro: "diff_loop (ReadOnlySubscriptionDB PrismaSubscriptionDB) ex store =
      (fst (diff_loop PrismaSubscriptionDB ex store), store)"
    by (rule prisma.diff_loop_read_only [OF assms(1) pe]) simp
  have "map_of ex (fst e) \<noteq> None" if "e \<in> set ex" for e
    using that by (simp add: map_of_eq_None_iff)
  then have orph: "orphan_errors PrismaSubscriptionDB ex (snd (diff_loop PrismaSubscriptionDB ex store)) =
      orphan_errors (ReadOnlySubscriptionDB PrismaSubscriptionDB) ex store"
    using prisma.diff_loop_all [OF assms(1) pe, of "\<lambda>k. map_of ex k \<noteq> None"]
    by (simp add: orphan_errors_def ReadOnlySubscriptionDB_def)
  show ?thesis
    using ro orph by (auto simp: reconcile_def r split: prod.splits sum.splits)
qed

section \<open>Properties\<close>

text \<open>C2: For a store whose records sit under their own keys with readable amounts, and an event log
  whose addresses hold no colon, reconcile never throws, and afterwards every subscription that
  the chain mentions is in sync with the state given by its own events alone (absent after a
  cancel), while every other record is untouched.\<close>

theorem reconcile_converges:
  assumes "prisma_ok store" "list_all plain_event events"
  shows "\<exists>res store'. reconcile PrismaSubscriptionDB events store d = (Inr res, store') \<and> prisma_ok store'
    \<and> (\<forall>s m t. plain s \<and> plain m \<and> plain t \<longrightarrow>
         (let evs = filter (is_triple s m t) events in
            if on_chain evs then in_sync (db_get PrismaSubscriptionDB s m t store') (spec_state d evs)
            else db_get PrismaSubscriptionDB s m t store' = db_get PrismaSubscriptionDB s m t store))"
proof -
  let ?es = "fst (replay d events)"
  let ?store = "snd (diff_loop PrismaSubscriptionDB ?es store)"
  note pe = plain_entries_replay [OF assms(2), of d]
  have "if on_chain evs then in_sync (db_get PrismaSubscriptionDB s m t ?store) (spec_state d evs)
      else db_get PrismaSubscriptionDB s m t ?store = db_get PrismaSubscriptionDB s m t store"
    if pl: "plain s" "plain m" "plain t" and evs: "evs = filter (is_triple s m t) events" for s m t evs
  proof (cases "on_chain evs")
    case True
    then have "map_of ?es (triple_key s m t) = Some (spec_state d evs)"
      using replay_lookup [OF assms(2) pl, of d] evs by simp
    then have e: "(triple_key s m t, spec_state d evs) \<in> set ?es" by (rule map_of_SomeD)
    then obtain s' m' t' where en: "entry_for s' m' t' (triple_key s m t, spec_state d evs)"
      using pe by (auto simp: plain_entries_def)
    then have "s = s' \<and> m = m' \<and> t = t'" by (rule entry_for_key)
    with prisma.diff_loop_sync [OF assms(1) pe e en] True show ?thesis by simp
  next
    case False
    then have "\<not> entry_for s m t e" if "e \<in> set ?es" for e
      using entry_for_lookup [OF assms(2) that, of s m t] evs by blast
    with prisma.diff_loop_other [OF assms(1) pe pl] False show ?thesis by simp
  qed
  then show ?thesis
    using reconcile_fst_Inr [OF assms, of d] prisma.diff_loop_invar [OF assms(1) pe]
    by (metis (no_types, lifting))
qed

definition ex_event :: "string \<Rightarrow> int \<Rightarrow> int \<Rightarrow> ChainEvent" where
  "ex_event ty a ts = \<lparr>ce_type = ty, ce_subscriber = ''GS'', ce_merchant = ''GM'', ce_token = ''CT'',
     ce_amount = a, ce_timestamp = ts\<rparr>"

lemma ex_event_plain [simp]: "plain_event (ex_event ty a ts)"
  by (simp add: ex_event_def plain_event_def plain_def)

theorem reconcile_converges_witness:
  "\<exists>res store'. reconcile PrismaSubscriptionDB [ex_event ''subscribe'' 5 100, ex_event ''executed'' 5 200] [] 50
      = (Inr res, store')
    \<and> in_sync (db_get PrismaSubscriptionDB ''GS'' ''GM'' ''CT'' store')
        (Some \<lparr>ss_subscriber = ''GS'', ss_merchant = ''GM'', ss_token = ''CT'', ss_amount = BigI 5,
          ss_interval = 50, ss_next_payment = 250, ss_last_payment_at = Some 200\<rparr>)"
proof -
  let ?evs = "[ex_event ''subscribe'' 5 100, ex_event ''executed'' 5 200]"
  have f: "filter (is_triple ''GS'' ''GM'' ''CT'') ?evs = ?evs" by (simp add: ex_event_def is_triple_def)
  have c: "on_chain ?evs" by (simp add: on_chain_def ex_event_def)
  have s: "spec_state 50 ?evs = Some \<lparr>ss_subscriber = ''GS'', ss_merchant = ''GM'', ss_token = ''CT'',
      ss_amount = BigI 5, ss_interval = 50, ss_next_payment = 250, ss_last_payment_at = Some 200\<rparr>"
    by (simp add: spec_state_def spec_step_def ex_event_def subscribed_def executed_def)
  have "prisma_ok []" "list_all plain_event ?evs" by (simp_all add: prisma_ok_def)
  from reconcile_converges [OF this, of 50] obtain res store' where
    r: "reconcile PrismaSubscriptionDB ?evs [] 50 = (Inr res, store')"
    and g: "\<forall>s m t. plain s \<and> plain m \<and> plain t \<longrightarrow>
         (let evs = filter (is_triple s m t) ?evs in
            if on_chain evs then in_sync (db_get PrismaSubscriptionDB s m t store') (spec_state 50 evs)
            else db_get PrismaSubscriptionDB s m t store' = db_get PrismaSubscriptionDB s m t [])" by blast
  have "plain ''GS'' \<and> plain ''GM'' \<and> plain ''CT''" by (simp add: plain_def)
  with g have "in_sync (db_get PrismaSubscriptionDB ''GS'' ''GM'' ''CT'' store') (spec_state 50 ?evs)"
    unfolding Let_def using f c by metis
  then show ?thesis using r s by metis
qed

text \<open>Reconciliation is idempotent: running it again with the same events on the store it
  repaired finds nothing to repair and leaves the store as it is.\<close>

theorem reconcile_idempotent:
  assumes "prisma_ok store" "list_all plain_event events"
    and "reconcile PrismaSubscriptionDB events store d = (Inr res, store')"
  shows "\<exists>res'. reconcile PrismaSubscriptionDB events store' d = (Inr res', store') \<and> repairs res' = []"
proof -
  let ?es = "fst (replay d events)"
  note pe = plain_entries_replay [OF assms(2), of d]
  have s: "store' = snd (diff_loop PrismaSubscriptionDB ?es store)"
    using reconcile_fst_Inr [OF assms(1,2), of d] assms(3) by auto
  then have ok: "prisma_ok store'" using prisma.diff_loop_invar [OF assms(1) pe] by simp
  have "diff_loop PrismaSubscriptionDB ?es store' = (Inr [], store')"
    using prisma.diff_loop_sync [OF assms(1) pe] s by (intro prisma.diff_loop_synced [OF ok pe]) auto
  then show ?thesis using reconcile_fst_Inr [OF ok assms(2), of d] by auto
qed

theorem reconcile_idempotent_witness:
  "\<exists>res. reconcile PrismaSubscriptionDB [ex_event ''subscribe'' 5 100]
      [(''GS:GM:CT'', \<lparr>ss_subscriber = ''GS'', ss_merchant = ''GM'', ss_token = ''CT'', ss_amount = BigI 5,
          ss_interval = 50, ss_next_payment = 150, ss_last_payment_at = None\<rparr>)] 50
    = (Inr res, [(''GS:GM:CT'', \<lparr>ss_subscriber = ''GS'', ss_merchant = ''GM'', ss_token = ''CT'', ss_amount = BigI 5,
          ss_interval = 50, ss_next_payment = 150, ss_last_payment_at = None\<rparr>)]) \<and> repairs res = []"
proof -
  let ?w = "\<lparr>ss_subscriber = ''GS'', ss_merchant = ''GM'', ss_token = ''CT'', ss_amount = BigI 5,
          ss_interval = 50, ss_next_payment = 150, ss_last_payment_at = None\<rparr>"
  have v: "reconcile PrismaSubscriptionDB [ex_event ''subscribe'' 5 100] [] 50 =
      (Inr \<lparr>repairs = [RInsert ?w], errors = []\<rparr>, [(''GS:GM:CT'', ?w)])"
    by (simp add: reconcile_def replay_def replay_event_def ex_event_def event_key_def triple_key_def
          subscribed_def diff_entry_def diff_want_def PrismaSubscriptionDB_def record_key_def
          orphan_errors_def)
  have "prisma_ok []" "list_all plain_event [ex_event ''subscribe'' 5 100]" by (simp_all add: prisma_ok_def)
  from reconcile_idempotent [OF this v] show ?thesis .
qed

text \<open>A dry run is exact: against the read-only wrapper, reconcile returns the same repairs and
  the same errors as the run that writes, and leaves the database as it was.\<close>

theorem reconcile_dry_run_exact:
  assumes "prisma_ok store" "list_all plain_event events"
  shows "reconcile (ReadOnlySubscriptionDB PrismaSubscriptionDB) events store d =
    (fst (reconcile PrismaSubscriptionDB events store d), store)"
  using assms by (rule reconcile_dry_run_eq)

theorem reconcile_dry_run_exact_witness:
  "reconcile (ReadOnlySubscriptionDB PrismaSubscriptionDB) [ex_event ''subscribe'' 5 100] [] 50 =
    (fst (reconcile PrismaSubscriptionDB [ex_event ''subscribe'' 5 100] [] 50), [])"
proof -
  have "prisma_ok []" "list_all plain_event [ex_event ''subscribe'' 5 100]" by (simp_all add: prisma_ok_def)
  then show ?thesis by (rule reconcile_dry_run_exact)
qed

text \<open>The scheduled reconciliation compares the Event table with a projection of the same
  table: on the store that load builds, reconciling the events fetched from the table never
  repairs anything, whatever the table holds.\<close>

theorem reconcile_of_load_repairs_nothing:
  assumes "fetchChainEventsFromDB tbl = Inr events" "list_all plain_event events"
  shows "\<exists>store res. load tbl d = Inr store
    \<and> reconcile PrismaSubscriptionDB events store d = (Inr res, store) \<and> repairs res = []"
proof -
  let ?store = "fold (load_event d) events []"
  let ?es = "fst (replay d events)"
  note pe = plain_entries_replay [OF assms(2), of d]
  have ld: "load tbl d = Inr ?store"
    using assms(1) by (simp add: load_def fetchChainEventsFromDB_def load_rows_fold)
  have ok: "prisma_ok ?store" by (rule load_fold_ok) (simp add: prisma_ok_def)
  have "in_sync (db_get PrismaSubscriptionDB s m t ?store) (snd e)"
    if "e \<in> set ?es" "entry_for s m t e" for e s m t
  proof -
    have pl: "plain s" "plain m" "plain t" using that(2) by (auto simp: entry_for_def)
    have "db_get PrismaSubscriptionDB s m t ?store = snd e"
      using load_fold_lookup [OF assms(2) pl, of d] entry_for_lookup [OF assms(2) that]
      by (simp add: PrismaSubscriptionDB_def)
    then show ?thesis
      using that(2) by (cases "snd e") (auto simp: entry_for_def recordsMatch_refl)
  qed
  then have "diff_loop PrismaSubscriptionDB ?es ?store = (Inr [], ?store)"
    by (rule prisma.diff_loop_synced [OF ok pe])
  then show ?thesis using ld reconcile_fst_Inr [OF ok assms(2), of d] by auto
qed

definition ex_row :: "string \<Rightarrow> int \<Rightarrow> event_row" where
  "ex_row ty ts = \<lparr>er_type = ty, er_subscriber = ''GS'', er_merchant = ''GM'', er_token = ''CT'',
     er_amount = ''5'', er_ledgerTimestamp = ts\<rparr>"

theorem reconcile_of_load_repairs_nothing_witness:
  "\<exists>store res. load [ex_row ''executed'' 200, ex_row ''subscribe'' 100] 50 = Inr store
    \<and> reconcile PrismaSubscriptionDB [ex_event ''subscribe'' 5 100, ex_event ''executed'' 5 200] store 50
        = (Inr res, store) \<and> repairs res = []"
proof -
  have "big_int ''5'' = Some 5" by code_simp
  then have "fetchChainEventsFromDB [ex_row ''executed'' 200, ex_row ''subscribe'' 100] =
      Inr [ex_event ''subscribe'' 5 100, ex_event ''executed'' 5 200]"
    by (simp add: fetchChainEventsFromDB_def event_findMany_def ex_row_def row_event_def ex_event_def)
  then show ?thesis by (rule reconcile_of_load_repairs_nothing) simp
qed

end
