(* ===== verification/Cursor.thy ===== *)
theory Cursor
  imports Prelude
begin

text \<open>
  Opaque pagination cursors: a decimal number in base64url, as written by \<^verbatim>\<open>encodeCursor\<close> and read by
  \<^verbatim>\<open>decodeCursor\<close> of \<^verbatim>\<open>backend/src/services/reconciler.ts\<close>, and by \<^verbatim>\<open>encodeIdCursor\<close> and
  \<^verbatim>\<open>decodeIdCursor\<close> of \<^verbatim>\<open>backend/src/services/analyticsService.ts\<close>.

  Base64url is that of Node's \<^verbatim>\<open>Buffer\<close>: no padding is written; the decoder accepts both alphabets,
  skips characters outside them and stops at a padding sign.
\<close>

section \<open>Base64url\<close>

definition b64_alphabet :: string where
  "b64_alphabet = ''ABCDEFGHIJKLMNOPQRSTUVWXYZabcdefghijklmnopqrstuvwxyz0123456789-_''"

definition b64_char :: "nat \<Rightarrow> char" where
  "b64_char i = b64_alphabet ! i"

definition b64_index :: "char \<Rightarrow> nat option" where
  "b64_index c =
     (if c = CHR ''+'' then Some 62 else if c = CHR ''/'' then Some 63
      else map_of (zip b64_alphabet [0..<64]) c)"

fun b64_encode :: "nat list \<Rightarrow> string" where
  "b64_encode [] = []"
| "b64_encode [a] = map b64_char [a div 4, a mod 4 * 16]"
| "b64_encode [a, b] = map b64_char [a div 4, a mod 4 * 16 + b div 16, b mod 16 * 4]"
| "b64_encode (a # b # c # bs) =
     map b64_char [a div 4, a mod 4 * 16 + b div 16, b mod 16 * 4 + c div 64, c mod 64] @ b64_encode bs"

fun sextets_bytes :: "nat list \<Rightarrow> nat list" where
  "sextets_bytes (p # q # r # t # ss) =
     [p * 4 + q div 16, q mod 16 * 16 + r div 4, r mod 4 * 64 + t] @ sextets_bytes ss"
| "sextets_bytes [p, q, r] = [p * 4 + q div 16, q mod 16 * 16 + r div 4]"
| "sextets_bytes [p, q] = [p * 4 + q div 16]"
| "sextets_bytes _ = []"

definition b64_decode :: "string \<Rightarrow> nat list" where
  "b64_decode s = sextets_bytes (List.map_filter b64_index (takeWhile (\<lambda>c. c \<noteq> CHR ''='') s))"

section \<open>Cursors\<close>

definition encodeCursor :: "nat \<Rightarrow> string" where
  "encodeCursor offset = b64_encode (map of_char (nat_str offset))"

definition cursor_text :: "string \<Rightarrow> string" where
  "cursor_text cursor = map char_of (b64_decode cursor)"

definition decodeCursor :: "string \<Rightarrow> nat" where
  "decodeCursor cursor = (case parse_int (cursor_text cursor) of
      None \<Rightarrow> 0
    | Some n \<Rightarrow> if n \<ge> 0 then nat n else 0)"

datatype cursor_error = InvalidCursor

definition encodeIdCursor :: "nat \<Rightarrow> string" where
  "encodeIdCursor n = b64_encode (map of_char (nat_str n))"

definition decodeIdCursor :: "string \<Rightarrow> cursor_error + nat" where
  "decodeIdCursor cursor = (case parse_int (cursor_text cursor) of
      None \<Rightarrow> Inl InvalidCursor
    | Some n \<Rightarrow> if n \<le> 0 then Inl InvalidCursor else Inr (nat n))"

section \<open>Round trips\<close>

lemma b64_all: "list_all (\<lambda>i. b64_index (b64_char i) = Some i \<and> b64_char i \<noteq> CHR ''='') [0..<64]"
  by code_simp

lemma b64_index_char [simp]: "i < 64 \<Longrightarrow> b64_index (b64_char i) = Some i"
  and b64_char_no_pad [simp]: "i < 64 \<Longrightarrow> b64_char i \<noteq> CHR ''=''"
  using b64_all by (auto simp: list_all_iff)

definition b64_sextets :: "string \<Rightarrow> nat list" where
  "b64_sextets s = List.map_filter b64_index (takeWhile (\<lambda>c. c \<noteq> CHR ''='') s)"

lemma b64_sextets_chars [simp]:
  "\<forall>i \<in> set is. i < 64 \<Longrightarrow> b64_sextets (map b64_char is @ s) = is @ b64_sextets s"
  by (induction "is") (auto simp: b64_sextets_def List.map_filter_def)

lemma b64_sextets_Nil [simp]: "b64_sextets [] = []"
  by (simp add: b64_sextets_def List.map_filter_def)

lemma pack_unpack:
  assumes "(x::nat) < 64 div k" "y < k"
  shows "(x * k + y) div k = x" "(x * k + y) mod k = y"
  using assms by auto

lemma byte_groups:
  assumes "(a::nat) < 256" "b < 256" "c < 256"
  shows "a div 4 < 64" "a mod 4 * 16 + b div 16 < 64" "b mod 16 * 4 + c div 64 < 64" "c mod 64 < 64"
    "(a mod 4 * 16 + b div 16) div 16 = a mod 4" "(a mod 4 * 16 + b div 16) mod 16 = b div 16"
    "(b mod 16 * 4 + c div 64) div 4 = b mod 16" "(b mod 16 * 4 + c div 64) mod 4 = c div 64"
proof -
  have d: "b div 16 < 16" "c div 64 < 4" "a mod 4 < 4" "b mod 16 < 16"
    using assms by (auto intro: less_mult_imp_div_less)
  show "a div 4 < 64" using assms(1) by (auto intro: less_mult_imp_div_less)
  show "a mod 4 * 16 + b div 16 < 64" "b mod 16 * 4 + c div 64 < 64" using d by linarith+
  show "(a mod 4 * 16 + b div 16) div 16 = a mod 4" "(a mod 4 * 16 + b div 16) mod 16 = b div 16"
    using d pack_unpack [of "a mod 4" 16 "b div 16"] by simp_all
  show "(b mod 16 * 4 + c div 64) div 4 = b mod 16" "(b mod 16 * 4 + c div 64) mod 4 = c div 64"
    using d pack_unpack [of "b mod 16" 4 "c div 64"] by simp_all
qed simp

lemma sextets_encode:
  "\<forall>b \<in> set bs. b < 256 \<Longrightarrow> sextets_bytes (b64_sextets (b64_encode bs)) = bs"
proof (induction bs rule: b64_encode.induct)
  case (2 a)
  have "a div 4 < 64" "a mod 4 * 16 < 64" using 2 by auto
  then have "b64_sextets (b64_encode [a]) = [a div 4, a mod 4 * 16]"
    using b64_sextets_chars [of "[a div 4, a mod 4 * 16]" "[]"] by simp
  then show ?case by simp
next
  case (3 a b)
  then have "a < 256" "b < 256" by auto
  note g = byte_groups [OF this, of 0, simplified]
  have "b mod 16 * 4 < 64" by auto
  then have "b64_sextets (b64_encode [a, b]) = [a div 4, a mod 4 * 16 + b div 16, b mod 16 * 4]"
    using b64_sextets_chars [of "[a div 4, a mod 4 * 16 + b div 16, b mod 16 * 4]" "[]"] g by simp
  then show ?case using g by simp
next
  case (4 a b c bs)
  then have "a < 256" "b < 256" "c < 256" by auto
  note g = byte_groups [OF this]
  have "b64_sextets (b64_encode (a # b # c # bs)) =
      [a div 4, a mod 4 * 16 + b div 16, b mod 16 * 4 + c div 64, c mod 64] @ b64_sextets (b64_encode bs)"
    using b64_sextets_chars [of "[a div 4, a mod 4 * 16 + b div 16, b mod 16 * 4 + c div 64, c mod 64]"
        "b64_encode bs"] g by simp
  then show ?case using 4 g by simp
qed simp

lemma b64_round_trip: "\<forall>b \<in> set bs. b < 256 \<Longrightarrow> b64_decode (b64_encode bs) = bs"
  using sextets_encode by (simp add: b64_decode_def b64_sextets_def)

lemma cursor_text_encode [simp]: "cursor_text (b64_encode (map of_char s)) = s"
  by (simp add: cursor_text_def b64_round_trip o_def)

lemma decode_encodeCursor [simp]: "decodeCursor (encodeCursor n) = n"
  by (simp add: decodeCursor_def encodeCursor_def)

lemma decode_encodeIdCursor: "decodeIdCursor (encodeIdCursor n) = (if n = 0 then Inl InvalidCursor else Inr n)"
  by (simp add: decodeIdCursor_def encodeIdCursor_def)

lemma b64_encode_nonempty: "bs \<noteq> [] \<Longrightarrow> b64_encode bs \<noteq> []"
  by (induction bs rule: b64_encode.induct) auto

lemma encodeCursor_nonempty [simp]: "encodeCursor n \<noteq> []"
  by (simp add: encodeCursor_def b64_encode_nonempty)

end
