(* ===== verification/Reconciler_Reports.thy ===== *)
theory Reconciler_Reports
  imports Reconciler Cursor
begin

text \<open>
  The reporting side of \<^verbatim>\<open>backend/src/services/reconciler.ts\<close>: the paged dry run (\<^verbatim>\<open>dryRun\<close>) and the
  audited run (\<^verbatim>\<open>runReconciledWithAudit\<close>).

  \<^verbatim>\<open>JSON.stringify\<close> of a record and of the list of source events are arguments of the model (\<open>js_rec\<close>,
  \<open>js_evs\<close>), as is the audit table's \<^verbatim>\<open>create\<close> (\<open>logRepair\<close>), which may fail.
\<close>

section \<open>Dry run\<close>

record DryRunOptions =
  dr_limit :: "int option"
  dr_cursor :: "string option"

record DryRunResult =
  dr_repairs :: "RepairAction list"
  dr_errors :: "string list"
  dr_total :: nat
  dr_nextCursor :: "string option"

definition page_limit :: "int option \<Rightarrow> nat" where
  "page_limit l = nat (min (max 1 (case l of None \<Rightarrow> 50 | Some n \<Rightarrow> n)) 500)"

definition dryRun ::
  "'s SubscriptionDB_ops \<Rightarrow> ChainEvent list \<Rightarrow> 's \<Rightarrow> DryRunOptions \<Rightarrow> (syntax_error + DryRunResult) \<times> 's" where
  "dryRun ops events db options =
     (let limit = page_limit (dr_limit options);
          offset = (case dr_cursor options of None \<Rightarrow> 0 | Some c \<Rightarrow> if c = [] then 0 else decodeCursor c)
      in case reconcile (ReadOnlySubscriptionDB ops) events db 86400 of
           (Inl e, db') \<Rightarrow> (Inl e, db')
         | (Inr result, db') \<Rightarrow>
             (let total = length (repairs result);
                  nextOffset = offset + limit
              in (Inr \<lparr>dr_repairs = take limit (drop offset (repairs result)),
                       dr_errors = errors result, dr_total = total,
                       dr_nextCursor = (if nextOffset < total then Some (encodeCursor nextOffset) else None)\<rparr>,
                  db')))"

text \<open>A caller that follows the cursors; \<open>None\<close> is an exception or running out of pages to ask for.\<close>

fun walk_pages ::
  "nat \<Rightarrow> 's SubscriptionDB_ops \<Rightarrow> ChainEvent list \<Rightarrow> 's \<Rightarrow> int option \<Rightarrow> string option \<Rightarrow> RepairAction list list option" where
  "walk_pages 0 ops events db limit cursor = None"
| "walk_pages (Suc fuel) ops events db limit cursor =
     (case dryRun ops events db \<lparr>dr_limit = limit, dr_cursor = cursor\<rparr> of
        (Inl _, _) \<Rightarrow> None
      | (Inr r, db') \<Rightarrow>
          (case dr_nextCursor r of
             None \<Rightarrow> Some [dr_repairs r]
           | Some c \<Rightarrow> map_option ((#) (dr_repairs r)) (walk_pages fuel ops events db' limit (Some c))))"

section \<open>Audited run\<close>

record 'j ReconciliationAuditEntry =
  correlationId :: string
  actor :: string
  tenantId :: string
  repairKind :: string
  aggregateId :: string
  beforeValue :: "'j option"
  afterValue :: "'j option"
  sourceEvents :: 'j
  decision :: string
  ae_timestamp :: int

definition amount_str :: "amount \<Rightarrow> string" where
  "amount_str a = (case a of BigI i \<Rightarrow> int_str i | Str s \<Rightarrow> s)"

definition serializeRecord :: "(StoredSubscription \<Rightarrow> 'j) \<Rightarrow> StoredSubscription \<Rightarrow> 'j" where
  "serializeRecord js_rec r = js_rec (r\<lparr>ss_amount := Str (amount_str (ss_amount r))\<rparr>)"

definition buildDecision :: "string \<Rightarrow> string \<Rightarrow> string" where
  "buildDecision kind aggId =
     (if kind = ''insert'' then ''Reconciler inserted missing subscription for '' @ aggId
      else if kind = ''update'' then ''Reconciler corrected diverged subscription fields for '' @ aggId
      else if kind = ''delete'' then ''Reconciler removed cancelled subscription for '' @ aggId
      else ''Reconciler applied '' @ kind @ '' repair for '' @ aggId)"

definition audit_entry ::
  "(StoredSubscription \<Rightarrow> 'j) \<Rightarrow> ((string \<times> int) list \<Rightarrow> 'j) \<Rightarrow> string \<Rightarrow> string \<Rightarrow> string \<Rightarrow> int
   \<Rightarrow> ChainEvent list \<Rightarrow> RepairAction \<Rightarrow> 'j ReconciliationAuditEntry" where
  "audit_entry js_rec js_evs corr act tenant now events repair =
     (let (aggId, before, after, kind) = (case repair of
             RInsert r \<Rightarrow> (record_key r, None, Some (serializeRecord js_rec r), ''insert'')
           | RUpdate p n \<Rightarrow> (record_key n, Some (serializeRecord js_rec p), Some (serializeRecord js_rec n), ''update'')
           | RDelete s m \<Rightarrow> (s @ '':'' @ m, None, None, ''delete''));
          parts = js_split CHR '':'' aggId;
          related = filter (\<lambda>e. ce_subscriber e = parts ! 0 \<and> ce_merchant e = parts ! 1) events
      in \<lparr>correlationId = corr, actor = act, tenantId = tenant, repairKind = kind, aggregateId = aggId,
          beforeValue = before, afterValue = after,
          sourceEvents = js_evs (map (\<lambda>e. (ce_type e, ce_timestamp e)) related),
          decision = buildDecision kind aggId, ae_timestamp = now\<rparr>)"

text \<open>\<^verbatim>\<open>Promise.all\<close> starts every write and reports the first that failed.\<close>

fun log_all :: "('e \<Rightarrow> 'l \<Rightarrow> (string + unit) \<times> 'l) \<Rightarrow> 'e list \<Rightarrow> 'l \<Rightarrow> (string + unit) \<times> 'l" where
  "log_all f [] l = (Inr (), l)"
| "log_all f (e # es) l = (case f e l of (r, l1) \<Rightarrow> (case log_all f es l1 of (r', l2) \<Rightarrow>
     ((case r of Inl x \<Rightarrow> Inl x | Inr _ \<Rightarrow> r'), l2)))"

datatype audit_error = ReconcileThrew | LogThrew string

record 'j RunReconciledWithAuditResult =
  ra_result :: ReconcileResult
  ra_entries :: "'j ReconciliationAuditEntry list"

definition runReconciledWithAudit ::
  "(StoredSubscription \<Rightarrow> 'j) \<Rightarrow> ((string \<times> int) list \<Rightarrow> 'j) \<Rightarrow> ('j ReconciliationAuditEntry \<Rightarrow> 'l \<Rightarrow> (string + unit) \<times> 'l)
   \<Rightarrow> 's SubscriptionDB_ops \<Rightarrow> ChainEvent list \<Rightarrow> string \<Rightarrow> string \<Rightarrow> string \<Rightarrow> bool \<Rightarrow> int \<Rightarrow> 's \<times> 'l
   \<Rightarrow> (audit_error + 'j RunReconciledWithAuditResult) \<times> 's \<times> 'l" where
  "runReconciledWithAudit js_rec js_evs logRepair ops events act tenant corr dry now st = (case st of (db, l) \<Rightarrow>
     (let dbAdapter = (if dry then ReadOnlySubscriptionDB ops else ops) in
      case reconcile dbAdapter events db 86400 of
        (Inl _, db') \<Rightarrow> (Inl ReconcileThrew, db', l)
      | (Inr result, db') \<Rightarrow>
          (let entries = map (audit_entry js_rec js_evs corr act tenant now events) (repairs result) in
           if \<not> dry \<and> entries \<noteq> [] then
             (case log_all logRepair entries l of
                (Inl x, l') \<Rightarrow> (Inl (LogThrew x), db', l')
              | (Inr _, l') \<Rightarrow> (Inr \<lparr>ra_result = result, ra_entries = entries\<rparr>, db', l'))
           else (Inr \<lparr>ra_result = result, ra_entries = entries\<rparr>, db', l))))"

section \<open>Lemmas\<close>

lemma page_limit_bounds: "1 \<le> page_limit l" "page_limit l \<le> 500"
  by (auto simp: page_limit_def split: option.splits)

lemma dryRun_page:
  assumes "reconcile (ReadOnlySubscriptionDB ops) events db 86400 = (Inr res, db)"
  shows "dryRun ops events db \<lparr>dr_limit = l, dr_cursor = (if off = 0 then None else Some (encodeCursor off))\<rparr> =
    (Inr \<lparr>dr_repairs = take (page_limit l) (drop off (repairs res)), dr_errors = errors res,
       dr_total = length (repairs res),
       dr_nextCursor = (if off + page_limit l < length (repairs res)
                        then Some (encodeCursor (off + page_limit l)) else None)\<rparr>, db)"
  using assms by (simp add: dryRun_def Let_def)

lemma walk_pages_from:
  assumes r: "reconcile (ReadOnlySubscriptionDB ops) events db 86400 = (Inr res, db)"
  shows "length (repairs res) - off < fuel \<Longrightarrow>
    \<exists>pages. walk_pages fuel ops events db l (if off = 0 then None else Some (encodeCursor off)) = Some pages
      \<and> concat pages = drop off (repairs res) \<and> (\<forall>p \<in> set pages. length p \<le> page_limit l)"
proof (induction fuel arbitrary: off)
  case 0
  then show ?case by simp
next
  case (Suc fuel)
  let ?n = "page_limit l" and ?xs = "repairs res"
  have n: "1 \<le> ?n" by (rule page_limit_bounds)
  show ?case
  proof (cases "off + ?n < length ?xs")
    case True
    then have "length ?xs - (off + ?n) < fuel" using Suc.prems n by linarith
    from Suc.IH [OF this] obtain pages where p:
        "walk_pages fuel ops events db l (Some (encodeCursor (off + ?n))) = Some pages"
        "concat pages = drop (off + ?n) ?xs" "\<forall>p \<in> set pages. length p \<le> ?n"
      using n by auto
    have "take ?n (drop off ?xs) @ drop (off + ?n) ?xs = drop off ?xs"
      by (metis add.commute append_take_drop_id drop_drop)
    then show ?thesis using p True by (simp add: dryRun_page [OF r])
  next
    case False
    then show ?thesis by (simp add: dryRun_page [OF r])
  qed
qed

lemma log_all_append:
  "fst (log_all (\<lambda>e l. (Inr (), l @ [e])) es l) = Inr () \<and> snd (log_all (\<lambda>e l. (Inr (), l @ [e])) es l) = l @ es"
  by (induction es arbitrary: l) (auto split: prod.splits)

section \<open>Properties\<close>

text \<open>C21: Following the cursors of dryRun from the first page returns, after finitely many pages of
  at most the clamped limit each, exactly the repairs of a full reconciliation, in order and
  without gaps or duplicates.\<close>

theorem dry_run_pages_complete:
  assumes "prisma_ok store" "list_all plain_event events"
    and "fst (reconcile PrismaSubscriptionDB events store 86400) = Inr res"
    and "length (repairs res) < fuel"
  shows "\<exists>pages. walk_pages fuel PrismaSubscriptionDB events store l None = Some pages
    \<and> concat pages = repairs res \<and> (\<forall>p \<in> set pages. length p \<le> page_limit l \<and> length p \<le> 500)"
proof -
  have r: "reconcile (ReadOnlySubscriptionDB PrismaSubscriptionDB) events store 86400 = (Inr res, store)"
    using reconcile_dry_run_eq [OF assms(1,2)] assms(3) by simp
  show ?thesis
    using walk_pages_from [OF r, of 0 fuel l] assms(4) page_limit_bounds(2) [of l]
    by (auto intro: order_trans)
qed

lemma reconcile_two:
  "fst (reconcile PrismaSubscriptionDB [ex_event ''subscribe'' 5 100] [] 86400) =
     Inr \<lparr>repairs = [RInsert \<lparr>ss_subscriber = ''GS'', ss_merchant = ''GM'', ss_token = ''CT'', ss_amount = BigI 5,
          ss_interval = 86400, ss_next_payment = 86500, ss_last_payment_at = None\<rparr>], errors = []\<rparr>"
  by (simp add: reconcile_def replay_def replay_event_def ex_event_def event_key_def triple_key_def
        subscribed_def diff_entry_def diff_want_def PrismaSubscriptionDB_def record_key_def
        orphan_errors_def)

theorem dry_run_pages_complete_witness:
  "\<exists>pages. walk_pages 2 PrismaSubscriptionDB [ex_event ''subscribe'' 5 100] [] (Some 1) None = Some pages
    \<and> length (concat pages) = 1"
proof -
  have "prisma_ok []" "list_all plain_event [ex_event ''subscribe'' 5 100]" by (simp_all add: prisma_ok_def)
  from dry_run_pages_complete [OF this reconcile_two, of 2 "Some 1"] show ?thesis by auto
qed

text \<open>The audit trail of an applied reconciliation is truthful: there is one entry per repair,
  stamped with the run's correlation id, actor and tenant; its after value is the record now
  stored for its subscription; its before value is the record stored before an insert or update.
  A delete records neither the removed record nor the token in its aggregate id.\<close>

theorem audit_entries_truthful:
  assumes "prisma_ok store" "list_all plain_event events"
    and "runReconciledWithAudit js_rec js_evs logRepair PrismaSubscriptionDB events act tenant corr False now (store, l)
       = (Inr out, store', l')"
    and "e \<in> set (ra_entries out)"
  shows "length (ra_entries out) = length (repairs (ra_result out))
    \<and> correlationId e = corr \<and> actor e = act \<and> tenantId e = tenant
    \<and> (\<exists>s m t. afterValue e = map_option (serializeRecord js_rec) (db_get PrismaSubscriptionDB s m t store')
        \<and> (if repairKind e = ''delete''
           then db_get PrismaSubscriptionDB s m t store \<noteq> None \<and> beforeValue e = None \<and> aggregateId e = s @ '':'' @ m
           else beforeValue e = map_option (serializeRecord js_rec) (db_get PrismaSubscriptionDB s m t store)
              \<and> aggregateId e = triple_key s m t))"
proof -
  obtain res where r: "reconcile PrismaSubscriptionDB events store 86400 = (Inr res, store')"
      and out: "ra_result out = res"
        "ra_entries out = map (audit_entry js_rec js_evs corr act tenant now events) (repairs res)"
    using assms(3)
    by (auto simp: runReconciledWithAudit_def Let_def split: prod.splits sum.splits if_splits)
  obtain rp where rp: "rp \<in> set (repairs res)" "e = audit_entry js_rec js_evs corr act tenant now events rp"
    using assms(4) out(2) by auto
  obtain s m t where t: "repair_at s m (db_get PrismaSubscriptionDB s m t store)
        (db_get PrismaSubscriptionDB s m t store') rp"
      "\<forall>w. db_get PrismaSubscriptionDB s m t store' = Some w \<longrightarrow> record_key w = triple_key s m t"
    using reconcile_repairs_true [OF assms(1,2) r rp(1)] by blast
  have "afterValue e = map_option (serializeRecord js_rec) (db_get PrismaSubscriptionDB s m t store')
        \<and> (if repairKind e = ''delete''
           then db_get PrismaSubscriptionDB s m t store \<noteq> None \<and> beforeValue e = None \<and> aggregateId e = s @ '':'' @ m
           else beforeValue e = map_option (serializeRecord js_rec) (db_get PrismaSubscriptionDB s m t store)
              \<and> aggregateId e = triple_key s m t)"
    using t rp(2) by (cases rp) (auto simp: audit_entry_def repair_at_def Let_def)
  moreover have "correlationId e = corr \<and> actor e = act \<and> tenantId e = tenant"
    using rp(2) by (simp add: audit_entry_def Let_def split: prod.splits)
  moreover have "length (ra_entries out) = length (repairs (ra_result out))" using out by simp
  ultimately show ?thesis by blast
qed

theorem audit_entries_truthful_witness:
  "\<exists>out store' l' e. runReconciledWithAudit (\<lambda>r. ss_amount r) (\<lambda>_. Str []) (\<lambda>e l. (Inr (), l @ [e]))
      PrismaSubscriptionDB [ex_event ''subscribe'' 5 100] ''scheduler'' ''t1'' ''c1'' False 0 ([], [])
      = (Inr out, store', l') \<and> e \<in> set (ra_entries out) \<and> tenantId e = ''t1''
      \<and> aggregateId e = ''GS:GM:CT''"
proof -
  let ?run = "runReconciledWithAudit (\<lambda>r. ss_amount r) (\<lambda>_. Str []) (\<lambda>e l. (Inr (), l @ [e]))
      PrismaSubscriptionDB [ex_event ''subscribe'' 5 100] ''scheduler'' ''t1'' ''c1'' False 0 ([], [])"
  obtain store' where rec: "reconcile PrismaSubscriptionDB [ex_event ''subscribe'' 5 100] [] 86400 =
      (Inr \<lparr>repairs = [RInsert \<lparr>ss_subscriber = ''GS'', ss_merchant = ''GM'', ss_token = ''CT'', ss_amount = BigI 5,
          ss_interval = 86400, ss_next_payment = 86500, ss_last_payment_at = None\<rparr>], errors = []\<rparr>, store')"
    using reconcile_two by (metis prod.collapse)
  obtain out l' where run: "?run = (Inr out, store', l')" "\<exists>e. e \<in> set (ra_entries out) \<and> aggregateId e = ''GS:GM:CT''"
    using rec by (auto simp: runReconciledWithAudit_def audit_entry_def record_key_def triple_key_def Let_def)
  then obtain e where e: "e \<in> set (ra_entries out)" "aggregateId e = ''GS:GM:CT''" by blast
  have "prisma_ok []" "list_all plain_event [ex_event ''subscribe'' 5 100]" by (simp_all add: prisma_ok_def)
  from audit_entries_truthful [OF this run(1) e(1)] e run(1) show ?thesis by blast
qed

end
