(* ===== verification/Webhook_Queue.thy ===== *)
theory Webhook_Queue
  imports Complex_Main Prelude
begin

text \<open>
  The webhook delivery queue with dead letters, \<^verbatim>\<open>backend/src/services/webhookQueue.ts\<close>.

  The injected interface \<^verbatim>\<open>JobStore\<close> is the record \<open>JobStore_ops\<close> and \<open>InMemoryJobStore\<close> is the
  implementation of the source; the locale \<open>job_store\<close> states what the queue relies on, and the
  queue's lemmas are proved from it. The HTTP deliverer is an argument of each delivery: given the
  URL, payload and headers it throws (a message) or returns a \<open>DeliveryResult\<close>. Times are in
  milliseconds; ISO texts are represented by the instant they denote. The state records the HTTP
  calls made and the operator alerts raised, in order.

  \<^verbatim>\<open>deliver\<close> suspends once, while the HTTP call is under way: \<open>deliver_begin\<close> is the part before,
  \<open>deliver_finish\<close> the part after, and \<open>deliver\<close> their composition. The step relation \<open>wq_step\<close> runs
  deliveries one after the other, \<open>ilv_step\<close> lets the parts of several deliveries interleave.
\<close>

section \<open>Data\<close>

definition MAX_ATTEMPTS :: nat where "MAX_ATTEMPTS = 5"
definition BASE_DELAY_MS :: rat where "BASE_DELAY_MS = 1000"
definition MAX_BACKOFF_MS :: rat where "MAX_BACKOFF_MS = 60000"
definition JITTER_FACTOR :: rat where "JITTER_FACTOR = 1/5"

datatype JobStatus = Pending | Delivering | Delivered | Failed | Dead_lettered

record 'p WebhookJob =
  jb_id :: string
  merchantAddress :: string
  jb_url :: string
  payload :: 'p
  signingSecretRef :: "string option"
  attempts :: nat
  lastAttemptAt :: "int option"
  jb_lastError :: "string option"
  status :: JobStatus
  createdAt :: int
  resolvedAt :: "int option"

record 'p DeadLetterEntry =
  dl_job :: "'p WebhookJob"
  dl_reason :: string
  deadLetteredAt :: int
  replayCount :: nat
  lastReplayedAt :: "int option"

record DeliveryResult =
  success :: bool
  statusCode :: "int option"
  dr_error :: "string option"

type_synonym headers = "(string \<times> string) list"
type_synonym 'p deliverer = "string \<Rightarrow> 'p \<Rightarrow> headers \<Rightarrow> string + DeliveryResult"

record ('p, 's) JobStore_ops =
  st_get :: "string \<Rightarrow> 's \<Rightarrow> 'p WebhookJob option"
  st_save :: "'p WebhookJob \<Rightarrow> 's \<Rightarrow> 's"
  st_listByMerchant :: "string \<Rightarrow> 's \<Rightarrow> 'p WebhookJob list"
  st_listDeadLetters :: "'s \<Rightarrow> 'p DeadLetterEntry list"
  st_saveDeadLetter :: "'p DeadLetterEntry \<Rightarrow> 's \<Rightarrow> 's"
  st_getDeadLetter :: "string \<Rightarrow> 's \<Rightarrow> 'p DeadLetterEntry option"

datatype DeliveryOutcome =
    ODelivered string nat
  | OFailed string nat int "string option"
  | ODeadLettered string "nat option" "string option"
  | ONotFound string
  | OAlreadyDelivered string

datatype ReplayResult = Replayed string | NotReplayed string

section \<open>Helpers\<close>

definition computeBackoff :: "nat \<Rightarrow> rat \<Rightarrow> int" where
  "computeBackoff attempt random =
     (let base = min (BASE_DELAY_MS * 2 ^ (attempt - 1)) MAX_BACKOFF_MS;
          jitter = base * JITTER_FACTOR * (random * 2 - 1)
      in max 0 \<lfloor>base + jitter\<rfloor>)"

text \<open>The one-character ellipsis that the source appends is written as character 133.\<close>

definition sanitiseError :: "string \<Rightarrow> string" where
  "sanitiseError msg = (if length msg > 200 then take 200 msg @ [char_of (133::nat)] else msg)"

section \<open>InMemoryJobStore\<close>

record 'p mem_store =
  ms_jobs :: "(string \<times> 'p WebhookJob) list"
  ms_deadLetters :: "(string \<times> 'p DeadLetterEntry) list"

definition InMemoryJobStore :: "('p, 'p mem_store) JobStore_ops" where
  "InMemoryJobStore =
     \<lparr>st_get = (\<lambda>i s. map_of (ms_jobs s) i),
      st_save = (\<lambda>job s. s\<lparr>ms_jobs := AList.update (jb_id job) job (ms_jobs s)\<rparr>),
      st_listByMerchant = (\<lambda>m s. filter (\<lambda>j. merchantAddress j = m) (map snd (ms_jobs s))),
      st_listDeadLetters = (\<lambda>s. map snd (ms_deadLetters s)),
      st_saveDeadLetter = (\<lambda>e s. s\<lparr>ms_deadLetters := AList.update (jb_id (dl_job e)) e (ms_deadLetters s)\<rparr>),
      st_getDeadLetter = (\<lambda>i s. map_of (ms_deadLetters s) i)\<rparr>"

definition clear :: "'p mem_store \<Rightarrow> 'p mem_store" where
  "clear s = \<lparr>ms_jobs = [], ms_deadLetters = []\<rparr>"

section \<open>WebhookQueue\<close>

record ('p, 's) queue_state =
  qs_store :: 's
  qs_posts :: "(string \<times> headers) list"
  qs_alerts :: "'p DeadLetterEntry list"

definition enqueue ::
  "('p, 's) JobStore_ops \<Rightarrow> string \<Rightarrow> string \<Rightarrow> string \<Rightarrow> 'p \<Rightarrow> int \<Rightarrow> ('p, 's) queue_state
   \<Rightarrow> bool \<times> ('p, 's) queue_state" where
  "enqueue ops i merchant url pl now q =
     (case st_get ops i (qs_store q) of
        Some _ \<Rightarrow> (False, q)
      | None \<Rightarrow>
          (let job = \<lparr>jb_id = i, merchantAddress = merchant, jb_url = url, payload = pl,
                      signingSecretRef = None, attempts = 0, lastAttemptAt = None, jb_lastError = None,
                      status = Pending, createdAt = now, resolvedAt = None\<rparr>
           in (True, q\<lparr>qs_store := st_save ops job (qs_store q)\<rparr>)))"

definition delivery_headers :: "'p WebhookJob \<Rightarrow> headers" where
  "delivery_headers job =
     [(''Content-Type'', ''application/json''),
      (''X-SorobanPay-Attempt'', nat_str (attempts job)),
      (''X-SorobanPay-Job-Id'', jb_id job)]"

text \<open>Up to the HTTP call: an outcome returned at once, or the job marked as delivering.\<close>

definition deliver_begin ::
  "('p, 's) JobStore_ops \<Rightarrow> string \<Rightarrow> int \<Rightarrow> ('p, 's) queue_state
   \<Rightarrow> (DeliveryOutcome + 'p WebhookJob) \<times> ('p, 's) queue_state" where
  "deliver_begin ops i now q =
     (case st_get ops i (qs_store q) of
        None \<Rightarrow> (Inl (ONotFound i), q)
      | Some job \<Rightarrow>
          if status job = Delivered then (Inl (OAlreadyDelivered i), q)
          else if status job = Dead_lettered then (Inl (ODeadLettered i None None), q)
          else (let updatedJob = job\<lparr>status := Delivering, attempts := attempts job + 1,
                                     lastAttemptAt := Some now\<rparr>
                in (Inr updatedJob,
                    q\<lparr>qs_store := st_save ops updatedJob (qs_store q),
                      qs_posts := qs_posts q @ [(i, delivery_headers updatedJob)]\<rparr>)))"

definition failure_text :: "DeliveryResult \<Rightarrow> string" where
  "failure_text r = (case dr_error r of Some e \<Rightarrow> e
     | None \<Rightarrow> ''HTTP '' @ (case statusCode r of Some c \<Rightarrow> int_str c | None \<Rightarrow> ''unknown''))"

definition exhausted_reason :: "string \<Rightarrow> string" where
  "exhausted_reason err = ''Exhausted '' @ nat_str MAX_ATTEMPTS @ '' delivery attempts. Last error: '' @ err"

definition dead_entry :: "'p WebhookJob \<Rightarrow> string \<Rightarrow> int \<Rightarrow> 'p DeadLetterEntry" where
  "dead_entry failedJob err now =
     \<lparr>dl_job = failedJob\<lparr>status := Dead_lettered, resolvedAt := Some now\<rparr>,
      dl_reason = exhausted_reason err, deadLetteredAt = now, replayCount = 0, lastReplayedAt = None\<rparr>"

text \<open>After the HTTP call, on the job captured before it.\<close>

definition deliver_finish ::
  "('p, 's) JobStore_ops \<Rightarrow> 'p WebhookJob \<Rightarrow> string + DeliveryResult \<Rightarrow> int \<Rightarrow> rat \<Rightarrow> ('p, 's) queue_state
   \<Rightarrow> DeliveryOutcome \<times> ('p, 's) queue_state" where
  "deliver_finish ops updatedJob response now random q =
     (let i = jb_id updatedJob;
          result = (case response of
             Inl msg \<Rightarrow> \<lparr>success = False, statusCode = None, dr_error = Some (sanitiseError msg)\<rparr>
           | Inr r \<Rightarrow> r)
      in if success result then
           (ODelivered i (attempts updatedJob),
            q\<lparr>qs_store := st_save ops (updatedJob\<lparr>status := Delivered, resolvedAt := Some now\<rparr>) (qs_store q)\<rparr>)
         else
           (let err = failure_text result;
                failedJob = updatedJob\<lparr>status := Failed, jb_lastError := Some err\<rparr>
            in if attempts updatedJob \<ge> MAX_ATTEMPTS then
                 (let entry = dead_entry failedJob err now
                  in (ODeadLettered i (Some (attempts updatedJob)) (Some (dl_reason entry)),
                      q\<lparr>qs_store := st_saveDeadLetter ops entry (st_save ops (dl_job entry) (qs_store q)),
                        qs_alerts := qs_alerts q @ [entry]\<rparr>))
               else
                 (OFailed i (attempts updatedJob) (computeBackoff (attempts updatedJob) random) (Some err),
                  q\<lparr>qs_store := st_save ops failedJob (qs_store q)\<rparr>)))"

definition deliver ::
  "('p, 's) JobStore_ops \<Rightarrow> string \<Rightarrow> 'p deliverer \<Rightarrow> int \<Rightarrow> rat \<Rightarrow> ('p, 's) queue_state
   \<Rightarrow> DeliveryOutcome \<times> ('p, 's) queue_state" where
  "deliver ops i deliverer now random q =
     (case deliver_begin ops i now q of
        (Inl oc, q') \<Rightarrow> (oc, q')
      | (Inr job, q') \<Rightarrow>
          deliver_finish ops job (deliverer (jb_url job) (payload job) (delivery_headers job)) now random q')"

definition replayDeadLetter ::
  "('p, 's) JobStore_ops \<Rightarrow> string \<Rightarrow> int \<Rightarrow> ('p, 's) queue_state \<Rightarrow> ReplayResult \<times> ('p, 's) queue_state" where
  "replayDeadLetter ops i now q =
     (case st_getDeadLetter ops i (qs_store q) of
        None \<Rightarrow> (NotReplayed ''dead-letter entry not found'', q)
      | Some entry \<Rightarrow>
          if (case st_get ops i (qs_store q) of None \<Rightarrow> False | Some j \<Rightarrow> status j \<noteq> Dead_lettered)
          then (NotReplayed ''live job already exists - replay is a no-op'', q)
          else
            (let replayed = (dl_job entry)\<lparr>attempts := 0, status := Pending, jb_lastError := None,
                               lastAttemptAt := None, resolvedAt := None, createdAt := now\<rparr>;
                 updatedEntry = entry\<lparr>replayCount := replayCount entry + 1, lastReplayedAt := Some now\<rparr>
             in (Replayed i,
                 q\<lparr>qs_store := st_saveDeadLetter ops updatedEntry (st_save ops replayed (qs_store q))\<rparr>)))"

definition listJobs :: "('p, 's) JobStore_ops \<Rightarrow> string \<Rightarrow> ('p, 's) queue_state \<Rightarrow> 'p WebhookJob list" where
  "listJobs ops merchant q = st_listByMerchant ops merchant (qs_store q)"

definition listDeadLetters :: "('p, 's) JobStore_ops \<Rightarrow> ('p, 's) queue_state \<Rightarrow> 'p DeadLetterEntry list" where
  "listDeadLetters ops q = st_listDeadLetters ops (qs_store q)"

definition getJob :: "('p, 's) JobStore_ops \<Rightarrow> string \<Rightarrow> ('p, 's) queue_state \<Rightarrow> 'p WebhookJob option" where
  "getJob ops i q = st_get ops i (qs_store q)"

definition getDeadLetter :: "('p, 's) JobStore_ops \<Rightarrow> string \<Rightarrow> ('p, 's) queue_state \<Rightarrow> 'p DeadLetterEntry option" where
  "getDeadLetter ops i q = st_getDeadLetter ops i (qs_store q)"

section \<open>Invariants\<close>

text \<open>A job at rest: never left as delivering, attempts within the budget, resolved when final.\<close>

definition job_ok :: "'p WebhookJob \<Rightarrow> bool" where
  "job_ok j = (case status j of
       Pending \<Rightarrow> attempts j = 0 \<and> resolvedAt j = None
     | Delivering \<Rightarrow> False
     | Delivered \<Rightarrow> 1 \<le> attempts j \<and> attempts j \<le> MAX_ATTEMPTS \<and> resolvedAt j \<noteq> None
     | Failed \<Rightarrow> 1 \<le> attempts j \<and> attempts j < MAX_ATTEMPTS \<and> jb_lastError j \<noteq> None \<and> resolvedAt j = None
     | Dead_lettered \<Rightarrow> attempts j = MAX_ATTEMPTS \<and> jb_lastError j \<noteq> None \<and> resolvedAt j \<noteq> None)"

definition queue_ok :: "('p, 's) JobStore_ops \<Rightarrow> 's \<Rightarrow> bool" where
  "queue_ok ops s \<longleftrightarrow>
     (\<forall>i j. st_get ops i s = Some j \<longrightarrow> job_ok j \<and>
        (status j = Dead_lettered \<longrightarrow> (\<exists>e. st_getDeadLetter ops i s = Some e \<and> dl_job e = j))) \<and>
     (\<forall>i e. st_getDeadLetter ops i s = Some e \<longrightarrow> status (dl_job e) = Dead_lettered \<and> job_ok (dl_job e))"

text \<open>A deliverer that never succeeds, and a series of delivery calls for one job at the given
  times (with the random numbers drawn).\<close>

definition always_fails :: "'p deliverer \<Rightarrow> bool" where
  "always_fails dv \<longleftrightarrow> (\<forall>u p h. case dv u p h of Inl _ \<Rightarrow> True | Inr r \<Rightarrow> \<not> success r)"

definition deliver_seq ::
  "('p, 's) JobStore_ops \<Rightarrow> string \<Rightarrow> 'p deliverer \<Rightarrow> (int \<times> rat) list \<Rightarrow> ('p, 's) queue_state
   \<Rightarrow> ('p, 's) queue_state" where
  "deliver_seq ops i dv ts q = fold (\<lambda>(now, random) q. snd (deliver ops i dv now random q)) ts q"

section \<open>The contract of a job store, and the queue on top of it\<close>

locale job_store =
  fixes ops :: "('p, 's) JobStore_ops"
    and invar :: "'s \<Rightarrow> bool"
  assumes get_save: "invar s \<Longrightarrow> st_get ops i (st_save ops j s) = (if i = jb_id j then Some j else st_get ops i s)"
    and get_saveDeadLetter: "invar s \<Longrightarrow> st_get ops i (st_saveDeadLetter ops e s) = st_get ops i s"
    and getDeadLetter_save: "invar s \<Longrightarrow> st_getDeadLetter ops i (st_save ops j s) = st_getDeadLetter ops i s"
    and getDeadLetter_saveDeadLetter: "invar s \<Longrightarrow> st_getDeadLetter ops i (st_saveDeadLetter ops e s) =
      (if i = jb_id (dl_job e) then Some e else st_getDeadLetter ops i s)"
    and set_listByMerchant: "invar s \<Longrightarrow>
      set (st_listByMerchant ops m s) = {j. merchantAddress j = m \<and> st_get ops (jb_id j) s = Some j}"
    and get_id: "invar s \<Longrightarrow> st_get ops i s = Some j \<Longrightarrow> jb_id j = i"
    and getDeadLetter_id: "invar s \<Longrightarrow> st_getDeadLetter ops i s = Some e \<Longrightarrow> jb_id (dl_job e) = i"
    and invar_save: "invar s \<Longrightarrow> invar (st_save ops j s)"
    and invar_saveDeadLetter: "invar s \<Longrightarrow> invar (st_saveDeadLetter ops e s)"
begin

lemmas store_laws = get_save get_saveDeadLetter getDeadLetter_save getDeadLetter_saveDeadLetter
  invar_save invar_saveDeadLetter

lemma deliver_invar: "invar (qs_store q) \<Longrightarrow> invar (qs_store (snd (deliver ops i dv now random q)))"
  by (auto simp: deliver_def deliver_begin_def deliver_finish_def Let_def store_laws
        split: option.splits sum.splits)

lemma deliver_other:
  assumes "invar (qs_store q)" "k \<noteq> i"
  shows "getJob ops k (snd (deliver ops i dv now random q)) = getJob ops k q"
    and "getDeadLetter ops k (snd (deliver ops i dv now random q)) = getDeadLetter ops k q"
  using assms get_id [OF assms(1), of i]
  by (auto simp: deliver_def deliver_begin_def deliver_finish_def Let_def store_laws getJob_def
        getDeadLetter_def dead_entry_def split: option.splits sum.splits)

text \<open>What holds of every job between two operations, and of its dead-letter entry.\<close>

lemma queue_okI:
  assumes "\<And>i j. st_get ops i s = Some j \<Longrightarrow> job_ok j"
    and "\<And>i j. st_get ops i s = Some j \<Longrightarrow> status j = Dead_lettered \<Longrightarrow>
      \<exists>e. st_getDeadLetter ops i s = Some e \<and> dl_job e = j"
    and "\<And>i e. st_getDeadLetter ops i s = Some e \<Longrightarrow> status (dl_job e) = Dead_lettered \<and> job_ok (dl_job e)"
  shows "queue_ok ops s"
  using assms by (auto simp: queue_ok_def)

lemma queue_ok_save:
  assumes "invar s" "queue_ok ops s" "job_ok j" "status j \<noteq> Dead_lettered"
  shows "queue_ok ops (st_save ops j s)"
  using assms by (intro queue_okI) (auto simp: store_laws queue_ok_def split: if_splits)

lemma queue_ok_saveDeadLetter:
  assumes "invar s" "queue_ok ops s" "job_ok (dl_job e)" "status (dl_job e) = Dead_lettered"
    and "\<And>j. st_get ops (jb_id (dl_job e)) s = Some j \<Longrightarrow> status j \<noteq> Dead_lettered"
  shows "queue_ok ops (st_saveDeadLetter ops e s)"
  using assms by (intro queue_okI) (auto simp: store_laws queue_ok_def split: if_splits)

lemma queue_ok_dead:
  assumes "invar s" "queue_ok ops s" "job_ok (dl_job e)" "status (dl_job e) = Dead_lettered"
  shows "queue_ok ops (st_saveDeadLetter ops e (st_save ops (dl_job e) s))"
  using assms by (intro queue_okI) (auto simp: store_laws queue_ok_def split: if_splits)

lemma enqueue_ok:
  assumes "invar (qs_store q)" "queue_ok ops (qs_store q)"
  shows "queue_ok ops (qs_store (snd (enqueue ops i m u pl now q)))"
  using assms by (auto simp: enqueue_def Let_def job_ok_def intro!: queue_ok_save split: option.splits)

lemma save_save:
  assumes "invar s" "jb_id j = jb_id j'"
  shows "queue_ok ops (st_save ops j (st_save ops j' s)) = queue_ok ops (st_save ops j s)"
    and "queue_ok ops (st_saveDeadLetter ops e (st_save ops j (st_save ops j' s))) =
         queue_ok ops (st_saveDeadLetter ops e (st_save ops j s))"
  using assms by (simp_all add: queue_ok_def store_laws)

lemma deliver_ok:
  assumes inv: "invar (qs_store q)" and ok: "queue_ok ops (qs_store q)"
  shows "queue_ok ops (qs_store (snd (deliver ops i dv now random q)))"
proof (cases "st_get ops i (qs_store q)")
  case None
  then show ?thesis using ok by (simp add: deliver_def deliver_begin_def)
next
  case (Some j)
  then have j: "job_ok j" using ok by (auto simp: queue_ok_def)
  have D: "\<And>e. job_ok (dl_job e) \<Longrightarrow> status (dl_job e) = Dead_lettered \<Longrightarrow>
      queue_ok ops (st_saveDeadLetter ops e (st_save ops (dl_job e) (qs_store q)))"
    and S: "\<And>j. job_ok j \<Longrightarrow> status j \<noteq> Dead_lettered \<Longrightarrow> queue_ok ops (st_save ops j (qs_store q))"
    using inv ok by (auto intro: queue_ok_dead queue_ok_save)
  show ?thesis
    using Some j ok inv
    by (cases "status j") (auto simp: deliver_def deliver_begin_def deliver_finish_def Let_def save_save dead_entry_def
          job_ok_def MAX_ATTEMPTS_def intro!: S D [of "dead_entry _ _ _", simplified dead_entry_def, simplified]
          split: sum.splits)
qed

lemma replay_ok:
  assumes inv: "invar (qs_store q)" and ok: "queue_ok ops (qs_store q)"
  shows "queue_ok ops (qs_store (snd (replayDeadLetter ops i now q)))"
proof (cases "st_getDeadLetter ops i (qs_store q)")
  case None
  then show ?thesis using ok by (simp add: replayDeadLetter_def)
next
  case (Some e)
  then have e: "status (dl_job e) = Dead_lettered" "job_ok (dl_job e)" using ok by (auto simp: queue_ok_def)
  let ?r = "(dl_job e)\<lparr>attempts := 0, status := Pending, jb_lastError := None,
     lastAttemptAt := None, resolvedAt := None, createdAt := now\<rparr>"
  have "queue_ok ops (st_save ops ?r (qs_store q))"
    by (rule queue_ok_save [OF inv ok]) (simp_all add: job_ok_def)
  then have "queue_ok ops (st_saveDeadLetter ops
      (e\<lparr>replayCount := Suc (replayCount e), lastReplayedAt := Some now\<rparr>) (st_save ops ?r (qs_store q)))"
    by (rule queue_ok_saveDeadLetter [rotated]) (simp_all add: e inv store_laws)
  then show ?thesis using Some ok
    by (simp add: replayDeadLetter_def Let_def split: option.splits)
qed

text \<open>One failing delivery of a job that is neither delivered nor dead, and a series of them.\<close>

lemma deliver_fail:
  assumes inv: "invar (qs_store q)" and fails: "always_fails dv"
    and j: "st_get ops i (qs_store q) = Some j" "status j \<notin> {Delivered, Dead_lettered}"
    and q': "q' = snd (deliver ops i dv now random q)"
  obtains (retry) err where "Suc (attempts j) < MAX_ATTEMPTS" "qs_alerts q' = qs_alerts q"
      "length (qs_posts q') = Suc (length (qs_posts q))"
      "st_get ops i (qs_store q') = Some (j\<lparr>status := Failed, attempts := Suc (attempts j),
         lastAttemptAt := Some now, jb_lastError := Some err\<rparr>)"
  | (dead) e where "MAX_ATTEMPTS \<le> Suc (attempts j)" "qs_alerts q' = qs_alerts q @ [e]"
      "length (qs_posts q') = Suc (length (qs_posts q))" "status (dl_job e) = Dead_lettered"
      "attempts (dl_job e) = Suc (attempts j)" "replayCount e = 0"
      "st_get ops i (qs_store q') = Some (dl_job e)" "st_getDeadLetter ops i (qs_store q') = Some e"
proof -
  have ident: "jb_id j = i" using get_id [OF inv j(1)] .
  let ?u = "j\<lparr>status := Delivering, attempts := Suc (attempts j), lastAttemptAt := Some now\<rparr>"
  let ?resp = "dv (jb_url j) (payload j) (delivery_headers ?u)"
  have nsucc: "case ?resp of Inl _ \<Rightarrow> True | Inr r \<Rightarrow> \<not> success r"
    using fails unfolding always_fails_def by blast
  define err where "err = failure_text (case ?resp of
      Inl msg \<Rightarrow> \<lparr>success = False, statusCode = None, dr_error = Some (sanitiseError msg)\<rparr> | Inr r \<Rightarrow> r)"
  let ?f = "?u\<lparr>status := Failed, jb_lastError := Some err\<rparr>"
  show thesis
  proof (cases "MAX_ATTEMPTS \<le> Suc (attempts j)")
    case True
    show thesis
      by (rule dead [of "dead_entry ?f err now"])
         (use True j nsucc inv ident in \<open>simp_all add: q' deliver_def deliver_begin_def deliver_finish_def
           Let_def dead_entry_def store_laws err_def split: sum.splits\<close>)
  next
    case False
    show thesis
      by (rule retry [of err])
         (use False j nsucc inv ident in \<open>simp_all add: q' deliver_def deliver_begin_def deliver_finish_def
           Let_def store_laws err_def split: sum.splits\<close>)
  qed
qed

lemma deliver_final:
  assumes "st_get ops i (qs_store q) = Some j" "status j \<in> {Delivered, Dead_lettered}"
  shows "snd (deliver ops i dv now random q) = q"
  using assms by (auto simp: deliver_def deliver_begin_def)

lemma deliver_seq_final:
  assumes "st_get ops i (qs_store q) = Some j" "status j \<in> {Delivered, Dead_lettered}"
  shows "deliver_seq ops i dv ts q = q"
  unfolding deliver_seq_def
proof (induction ts)
  case (Cons t ts)
  then show ?case using deliver_final [OF assms] by (cases t) simp
qed simp

lemma deliver_seq_fail:
  assumes "invar (qs_store q)" "always_fails dv" "st_get ops i (qs_store q) = Some j"
    "status j \<notin> {Delivered, Dead_lettered}" "attempts j < MAX_ATTEMPTS"
    "MAX_ATTEMPTS \<le> attempts j + length ts"
  shows "\<exists>e. length (qs_posts (deliver_seq ops i dv ts q)) = length (qs_posts q) + (MAX_ATTEMPTS - attempts j) \<and>
     qs_alerts (deliver_seq ops i dv ts q) = qs_alerts q @ [e] \<and>
     status (dl_job e) = Dead_lettered \<and> attempts (dl_job e) = MAX_ATTEMPTS \<and> replayCount e = 0 \<and>
     st_get ops i (qs_store (deliver_seq ops i dv ts q)) = Some (dl_job e) \<and>
     st_getDeadLetter ops i (qs_store (deliver_seq ops i dv ts q)) = Some e"
  using assms
proof (induction ts arbitrary: q j)
  case Nil
  then show ?case by simp
next
  case (Cons t ts)
  obtain now random where t: "t = (now, random)" by (cases t)
  define q' where "q' = snd (deliver ops i dv now random q)"
  have seq: "deliver_seq ops i dv (t # ts) q = deliver_seq ops i dv ts q'"
    by (simp add: deliver_seq_def t q'_def)
  from Cons.prems(1-4) q'_def show ?case
  proof (cases rule: deliver_fail)
    case (retry err)
    have "invar (qs_store q')" unfolding q'_def by (rule deliver_invar) fact
    from Cons.IH [OF this Cons.prems(2) retry(4)] show ?thesis
      unfolding seq using retry Cons.prems by fastforce
  next
    case (dead e)
    have "deliver_seq ops i dv ts q' = q'" by (rule deliver_seq_final [OF dead(7)]) (simp add: dead(4))
    then show ?thesis unfolding seq using dead Cons.prems by (intro exI [of _ e]) auto
  qed
qed

lemma enqueue_fresh:
  assumes "invar (qs_store q)" "st_get ops i (qs_store q) = None"
  shows "invar (qs_store (snd (enqueue ops i m u pl now q)))"
    and "\<exists>j. st_get ops i (qs_store (snd (enqueue ops i m u pl now q))) = Some j \<and> status j = Pending \<and>
      attempts j = 0 \<and> merchantAddress j = m \<and> jb_url j = u \<and> payload j = pl"
  using assms by (auto simp: enqueue_def Let_def store_laws)

lemma replay_live:
  assumes inv: "invar (qs_store q)" and "queue_ok ops (qs_store q)"
    and j: "st_get ops i (qs_store q) = Some j" "status j = Dead_lettered"
  shows "\<exists>j' e. replayDeadLetter ops i now q = (Replayed i, snd (replayDeadLetter ops i now q)) \<and>
      invar (qs_store (snd (replayDeadLetter ops i now q))) \<and>
      st_get ops i (qs_store (snd (replayDeadLetter ops i now q))) = Some j' \<and>
      status j' = Pending \<and> attempts j' = 0 \<and> payload j' = payload j \<and> jb_url j' = jb_url j \<and>
      merchantAddress j' = merchantAddress j \<and>
      st_getDeadLetter ops i (qs_store (snd (replayDeadLetter ops i now q))) = Some e \<and> replayCount e \<ge> 1 \<and>
      qs_posts (snd (replayDeadLetter ops i now q)) = qs_posts q \<and>
      qs_alerts (snd (replayDeadLetter ops i now q)) = qs_alerts q"
proof -
  obtain e where e: "st_getDeadLetter ops i (qs_store q) = Some e" "dl_job e = j"
    using assms by (auto simp: queue_ok_def)
  show ?thesis
    using j e inv get_id [OF inv j(1)] by (simp add: replayDeadLetter_def Let_def store_laws)
qed

lemma replay_again:
  assumes "st_get ops i (qs_store q) = Some j" "status j \<noteq> Dead_lettered"
  shows "snd (replayDeadLetter ops i now q) = q"
  using assms by (auto simp: replayDeadLetter_def split: option.splits)

end

section \<open>The store of the source, and its steps\<close>

definition mem_ok :: "'p mem_store \<Rightarrow> bool" where
  "mem_ok s \<longleftrightarrow> distinct (map fst (ms_jobs s)) \<and> distinct (map fst (ms_deadLetters s)) \<and>
     (\<forall>(i, j) \<in> set (ms_jobs s). jb_id j = i) \<and> (\<forall>(i, e) \<in> set (ms_deadLetters s). jb_id (dl_job e) = i)"

lemma mem_ok_save: "mem_ok s \<Longrightarrow> mem_ok (st_save InMemoryJobStore j s)"
  using set_update_subset [of "jb_id j" j "ms_jobs s"]
  by (auto simp: mem_ok_def InMemoryJobStore_def intro: distinct_update)

lemma mem_ok_saveDeadLetter: "mem_ok s \<Longrightarrow> mem_ok (st_saveDeadLetter InMemoryJobStore e s)"
  using set_update_subset [of "jb_id (dl_job e)" e "ms_deadLetters s"]
  by (auto simp: mem_ok_def InMemoryJobStore_def intro: distinct_update)

lemma mem_ok_list:
  assumes "mem_ok s"
  shows "set (st_listByMerchant InMemoryJobStore m s) =
    {j. merchantAddress j = m \<and> st_get InMemoryJobStore (jb_id j) s = Some j}"
proof -
  have "j \<in> snd ` set (ms_jobs s) \<longleftrightarrow> (jb_id j, j) \<in> set (ms_jobs s)" for j
    using assms by (force simp: mem_ok_def)
  then show ?thesis using assms by (auto simp: mem_ok_def InMemoryJobStore_def)
qed

lemma mem_ok_ids:
  assumes "mem_ok s"
  shows "st_get InMemoryJobStore i s = Some j \<Longrightarrow> jb_id j = i"
    and "st_getDeadLetter InMemoryJobStore i s = Some e \<Longrightarrow> jb_id (dl_job e) = i"
  using assms by (auto simp: mem_ok_def InMemoryJobStore_def dest!: map_of_SomeD)

interpretation mem: job_store InMemoryJobStore mem_ok
  by unfold_locales
     (simp_all add: mem_ok_save mem_ok_saveDeadLetter mem_ok_list mem_ok_ids,
      auto simp: InMemoryJobStore_def AList.update_conv')

definition empty_queue :: "('p, 'p mem_store) queue_state" where
  "empty_queue = \<lparr>qs_store = \<lparr>ms_jobs = [], ms_deadLetters = []\<rparr>, qs_posts = [], qs_alerts = []\<rparr>"

inductive wq_step :: "('p, 'p mem_store) queue_state \<Rightarrow> ('p, 'p mem_store) queue_state \<Rightarrow> bool" where
  wq_enqueue: "wq_step q (snd (enqueue InMemoryJobStore i m u pl now q))"
| wq_deliver: "wq_step q (snd (deliver InMemoryJobStore i dv now random q))"
| wq_replay: "wq_step q (snd (replayDeadLetter InMemoryJobStore i now q))"

abbreviation wq_reach :: "('p, 'p mem_store) queue_state \<Rightarrow> bool" where
  "wq_reach \<equiv> reach (\<lambda>q. q = empty_queue) wq_step"

definition wq_invar :: "('p, 'p mem_store) queue_state \<Rightarrow> bool" where
  "wq_invar q \<longleftrightarrow> mem_ok (qs_store q) \<and> queue_ok InMemoryJobStore (qs_store q)"

lemma wq_invar_step: "wq_step q q' \<Longrightarrow> wq_invar q \<Longrightarrow> wq_invar q'"
proof (induction rule: wq_step.induct)
  case (wq_enqueue q i m u pl now)
  then show ?case
    by (auto simp: wq_invar_def intro: mem.enqueue_ok)
       (auto simp: enqueue_def Let_def intro: mem_ok_save split: option.splits)
next
  case (wq_deliver q i dv now random)
  then show ?case by (simp add: wq_invar_def mem.deliver_ok mem.deliver_invar)
next
  case (wq_replay q i now)
  then show ?case
    by (auto simp: wq_invar_def intro: mem.replay_ok)
       (auto simp: replayDeadLetter_def Let_def intro: mem_ok_save mem_ok_saveDeadLetter split: option.splits)
qed

lemma wq_invar_empty: "wq_invar empty_queue"
  by (simp add: wq_invar_def empty_queue_def mem_ok_def queue_ok_def InMemoryJobStore_def)

interpretation wq: inv_system "\<lambda>q. q = empty_queue" wq_step wq_invar
  by unfold_locales (simp_all add: wq_invar_empty wq_invar_step)

text \<open>A save for another merchant leaves a merchant's list as it is, order included.\<close>

lemma filter_update_other:
  assumes "\<And>j0. map_of xs k = Some j0 \<Longrightarrow> \<not> P j0" "\<not> P v"
  shows "filter P (map snd (AList.update k v xs)) = filter P (map snd xs)"
  using assms by (induction xs) auto

lemma listJobs_save:
  assumes "case st_get InMemoryJobStore (jb_id j) s of None \<Rightarrow> True | Some j0 \<Rightarrow> merchantAddress j0 \<noteq> m"
    "merchantAddress j \<noteq> m"
  shows "st_listByMerchant InMemoryJobStore m (st_save InMemoryJobStore j s) = st_listByMerchant InMemoryJobStore m s"
  using assms by (auto simp: InMemoryJobStore_def intro!: filter_update_other split: option.splits)

lemma listJobs_saveDeadLetter:
  "st_listByMerchant InMemoryJobStore m (st_saveDeadLetter InMemoryJobStore e s) =
   st_listByMerchant InMemoryJobStore m s"
  by (simp add: InMemoryJobStore_def)

lemma listJobs_save_twice:
  assumes "mem_ok s" "st_get InMemoryJobStore (jb_id j) s = Some j0" "merchantAddress j0 \<noteq> m"
    "merchantAddress j \<noteq> m" "merchantAddress j' \<noteq> m" "jb_id j' = jb_id j"
  shows "st_listByMerchant InMemoryJobStore m (st_save InMemoryJobStore j' (st_save InMemoryJobStore j s)) =
    st_listByMerchant InMemoryJobStore m s"
  using assms by (simp add: listJobs_save mem.get_save)

lemma listJobs_deliver:
  assumes "mem_ok (qs_store q)" "st_get InMemoryJobStore i (qs_store q) = Some j" "merchantAddress j \<noteq> m"
  shows "listJobs InMemoryJobStore m (snd (deliver InMemoryJobStore i dv now random q)) =
    listJobs InMemoryJobStore m q"
  using assms mem_ok_ids(1) [OF assms(1,2)]
  by (auto simp: listJobs_def deliver_def deliver_begin_def deliver_finish_def Let_def dead_entry_def
        listJobs_save_twice listJobs_saveDeadLetter split: sum.splits)

lemma listJobs_replay:
  assumes "wq_invar q" "st_get InMemoryJobStore i (qs_store q) = Some j" "merchantAddress j \<noteq> m"
  shows "listJobs InMemoryJobStore m (snd (replayDeadLetter InMemoryJobStore i now q)) =
    listJobs InMemoryJobStore m q"
proof (cases "status j = Dead_lettered")
  case True
  then obtain e where "st_getDeadLetter InMemoryJobStore i (qs_store q) = Some e" "dl_job e = j"
    using assms by (auto simp: wq_invar_def queue_ok_def)
  moreover have "jb_id j = i" using assms by (auto simp: wq_invar_def intro: mem_ok_ids)
  ultimately show ?thesis using True assms
    by (simp add: listJobs_def replayDeadLetter_def Let_def listJobs_save listJobs_saveDeadLetter)
next
  case False
  then show ?thesis using mem.replay_again [OF assms(2)] by simp
qed

section \<open>Properties\<close>

text \<open>C4: In every state that calls of \<^verbatim>\<open>enqueue\<close>, \<^verbatim>\<open>deliver\<close> and
  \<^verbatim>\<open>replayDeadLetter\<close>, one after the other, can reach: no job is left as delivering; a pending job has
  used no attempt and a failed one between 1 and 4; a delivered or dead-lettered job is resolved and
  within 5 attempts; a dead-lettered job used all 5 and has a dead-letter entry that holds exactly it.\<close>

theorem queue_reachable_ok:
  assumes "wq_reach q"
  shows "queue_ok InMemoryJobStore (qs_store q)"
  using wq.reach_invar [OF assms] by (simp add: wq_invar_def)

definition demo_queue :: "(string, string mem_store) queue_state" where
  "demo_queue = snd (enqueue InMemoryJobStore ''j1'' ''GM'' ''http://x'' ''p'' 0 empty_queue)"

definition demo_down :: "string deliverer" where
  "demo_down = (\<lambda>u p h. Inl ''ECONNREFUSED'')"

lemma demo_reach: "wq_reach demo_queue"
proof -
  have "wq_reach (empty_queue :: (string, string mem_store) queue_state)" by (rule reach_init) (rule refl)
  then show ?thesis unfolding demo_queue_def by (rule reach_step) (rule wq_enqueue)
qed

theorem queue_reachable_ok_witness:
  "queue_ok InMemoryJobStore (qs_store (snd (deliver InMemoryJobStore ''j1'' demo_down 5 0 demo_queue)))"
  by (rule queue_reachable_ok) (rule reach_step [OF demo_reach wq_deliver])

text \<open>C9: A job enqueued under a new id, for an endpoint that never accepts it, is posted exactly
  \<open>MAX_ATTEMPTS\<close> times however many more times \<^verbatim>\<open>deliver\<close> is called; it ends dead-lettered with
  \<open>MAX_ATTEMPTS\<close> attempts, its dead-letter entry holds the job as stored, and the operator is alerted
  exactly once, with that entry.\<close>

theorem exhausted_after_max_attempts:
  assumes "wq_reach q" "getJob InMemoryJobStore i q = None" "always_fails dv" "MAX_ATTEMPTS \<le> length ts"
    and "q' = deliver_seq InMemoryJobStore i dv ts (snd (enqueue InMemoryJobStore i m u pl now q))"
  shows "length (qs_posts q') = length (qs_posts q) + MAX_ATTEMPTS \<and>
    (\<exists>e. qs_alerts q' = qs_alerts q @ [e] \<and> status (dl_job e) = Dead_lettered \<and>
       attempts (dl_job e) = MAX_ATTEMPTS \<and>
       getJob InMemoryJobStore i q' = Some (dl_job e) \<and> getDeadLetter InMemoryJobStore i q' = Some e)"
proof -
  let ?q = "snd (enqueue InMemoryJobStore i m u pl now q)"
  have inv: "mem_ok (qs_store q)" using wq.reach_invar [OF assms(1)] by (simp add: wq_invar_def)
  note new = mem.enqueue_fresh [OF inv assms(2) [unfolded getJob_def], of m u pl now]
  then obtain j where j: "st_get InMemoryJobStore i (qs_store ?q) = Some j" "status j = Pending" "attempts j = 0"
    by blast
  have "qs_posts ?q = qs_posts q" "qs_alerts ?q = qs_alerts q"
    by (auto simp: enqueue_def Let_def split: option.splits)
  then show ?thesis
    using mem.deliver_seq_fail [OF new(1) assms(3) j(1), of ts] j assms(4)
    unfolding assms(5) getJob_def getDeadLetter_def by (auto simp: MAX_ATTEMPTS_def)
qed

theorem exhausted_after_max_attempts_witness:
  "\<exists>e. qs_alerts (deliver_seq InMemoryJobStore ''j2'' demo_down [(1,0),(2,0),(3,0),(4,0),(5,0),(6,0),(7,0)]
      (snd (enqueue InMemoryJobStore ''j2'' ''GM'' ''http://y'' ''p'' 0 demo_queue))) = [e]"
  using exhausted_after_max_attempts [OF demo_reach _ _ _ refl, of "''j2''" demo_down
      "[(1,0),(2,0),(3,0),(4,0),(5,0),(6,0),(7,0)]" "''GM''" "''http://y''" "''p''" 0]
  by (auto simp: demo_queue_def demo_down_def always_fails_def MAX_ATTEMPTS_def getJob_def enqueue_def Let_def
        InMemoryJobStore_def empty_queue_def)

text \<open>Replaying a dead-lettered job gives it a full fresh budget: it is pending again for the same
  merchant, URL and payload; replaying it once more before it is dead-lettered again changes
  nothing; and if the endpoint still never accepts it, it is posted exactly \<open>MAX_ATTEMPTS\<close> more times and
  dead-lettered again. Its entry then has replay count 0: the second dead-lettering overwrites the
  entry that recorded the replay.\<close>

theorem replay_full_budget:
  assumes "wq_reach q" "getJob InMemoryJobStore i q = Some j" "status j = Dead_lettered"
    and "always_fails dv" "MAX_ATTEMPTS \<le> length ts"
    and "q1 = snd (replayDeadLetter InMemoryJobStore i now q)"
    and "q2 = deliver_seq InMemoryJobStore i dv ts q1"
  shows "fst (replayDeadLetter InMemoryJobStore i now q) = Replayed i \<and>
    (\<exists>j'. getJob InMemoryJobStore i q1 = Some j' \<and> status j' = Pending \<and> attempts j' = 0 \<and>
      payload j' = payload j \<and> jb_url j' = jb_url j \<and> merchantAddress j' = merchantAddress j) \<and>
    (\<exists>e. getDeadLetter InMemoryJobStore i q1 = Some e \<and> replayCount e \<ge> 1) \<and>
    snd (replayDeadLetter InMemoryJobStore i now' q1) = q1 \<and>
    length (qs_posts q2) = length (qs_posts q) + MAX_ATTEMPTS \<and>
    (\<exists>e. getDeadLetter InMemoryJobStore i q2 = Some e \<and> getJob InMemoryJobStore i q2 = Some (dl_job e) \<and>
      status (dl_job e) = Dead_lettered \<and> replayCount e = 0)"
proof -
  have "mem_ok (qs_store q)" "queue_ok InMemoryJobStore (qs_store q)"
    using wq.reach_invar [OF assms(1)] by (simp_all add: wq_invar_def)
  from mem.replay_live [OF this assms(2) [unfolded getJob_def] assms(3), of now]
  obtain j' e where r: "replayDeadLetter InMemoryJobStore i now q = (Replayed i, q1)" "mem_ok (qs_store q1)"
      "st_get InMemoryJobStore i (qs_store q1) = Some j'" "status j' = Pending" "attempts j' = 0"
      "payload j' = payload j" "jb_url j' = jb_url j" "merchantAddress j' = merchantAddress j"
      "st_getDeadLetter InMemoryJobStore i (qs_store q1) = Some e" "replayCount e \<ge> 1"
      "qs_posts q1 = qs_posts q"
    unfolding assms(6) by blast
  have "MAX_ATTEMPTS \<le> attempts j' + length ts" "attempts j' < MAX_ATTEMPTS"
    using assms(5) r(5) by (auto simp: MAX_ATTEMPTS_def)
  note again = mem.deliver_seq_fail [OF r(2) assms(4) r(3) _ this(2,1)]
  show ?thesis
  proof (intro conjI)
    show "fst (replayDeadLetter InMemoryJobStore i now q) = Replayed i" using r(1) by simp
    show "\<exists>j'. getJob InMemoryJobStore i q1 = Some j' \<and> status j' = Pending \<and> attempts j' = 0 \<and>
        payload j' = payload j \<and> jb_url j' = jb_url j \<and> merchantAddress j' = merchantAddress j"
      using r by (simp add: getJob_def)
    show "\<exists>e. getDeadLetter InMemoryJobStore i q1 = Some e \<and> replayCount e \<ge> 1"
      using r by (simp add: getDeadLetter_def)
    show "snd (replayDeadLetter InMemoryJobStore i now' q1) = q1"
      by (rule mem.replay_again [OF r(3)]) (simp add: r(4))
    show "length (qs_posts q2) = length (qs_posts q) + MAX_ATTEMPTS"
      and "\<exists>e. getDeadLetter InMemoryJobStore i q2 = Some e \<and> getJob InMemoryJobStore i q2 = Some (dl_job e) \<and>
        status (dl_job e) = Dead_lettered \<and> replayCount e = 0"
      using again r unfolding assms(7) getJob_def getDeadLetter_def by auto
  qed
qed

definition demo_dead :: "(string, string mem_store) queue_state" where
  "demo_dead = deliver_seq InMemoryJobStore ''j1'' demo_down [(1,0),(2,0),(3,0),(4,0),(5,0)] demo_queue"

lemma wq_reach_deliver_seq: "wq_reach q \<Longrightarrow> wq_reach (deliver_seq InMemoryJobStore i dv ts q)"
  unfolding deliver_seq_def
  by (induction ts arbitrary: q) (auto intro: reach.intros wq_step.intros)

lemma demo_dead_reach: "wq_reach demo_dead"
  unfolding demo_dead_def by (rule wq_reach_deliver_seq [OF demo_reach])

lemma demo_dead_status: "map_option status (getJob InMemoryJobStore ''j1'' demo_dead) = Some Dead_lettered"
  by (simp add: demo_dead_def deliver_seq_def demo_queue_def demo_down_def getJob_def enqueue_def Let_def
      InMemoryJobStore_def empty_queue_def deliver_def deliver_begin_def deliver_finish_def dead_entry_def
      MAX_ATTEMPTS_def)

theorem replay_full_budget_witness:
  "fst (replayDeadLetter InMemoryJobStore ''j1'' 9 demo_dead) = Replayed ''j1''"
proof -
  obtain j where "getJob InMemoryJobStore ''j1'' demo_dead = Some j" "status j = Dead_lettered"
    using demo_dead_status by (cases "getJob InMemoryJobStore ''j1'' demo_dead") auto
  from replay_full_budget [OF demo_dead_reach this _ _ refl refl, of demo_down "[(1,0),(2,0),(3,0),(4,0),(5,0)]" 9]
  show ?thesis by (simp add: always_fails_def demo_down_def MAX_ATTEMPTS_def)
qed

text \<open>Tenant isolation. Whatever an operation does to a job of one merchant, or to a job newly
  enqueued for one merchant, the list of jobs that another merchant sees is the same list as before;
  and a merchant sees exactly the stored jobs that carry its own address.\<close>

theorem tenant_isolation:
  assumes "wq_reach q" "getJob InMemoryJobStore i q = Some j" "merchantAddress j \<noteq> m" "m' \<noteq> m"
  shows "listJobs InMemoryJobStore m (snd (deliver InMemoryJobStore i dv now random q)) = listJobs InMemoryJobStore m q \<and>
    listJobs InMemoryJobStore m (snd (replayDeadLetter InMemoryJobStore i now q)) = listJobs InMemoryJobStore m q \<and>
    listJobs InMemoryJobStore m (snd (enqueue InMemoryJobStore k m' u pl now q)) = listJobs InMemoryJobStore m q \<and>
    set (listJobs InMemoryJobStore m q) = {j. merchantAddress j = m \<and> getJob InMemoryJobStore (jb_id j) q = Some j}"
proof -
  have inv: "wq_invar q" by (rule wq.reach_invar [OF assms(1)])
  then have ok: "mem_ok (qs_store q)" by (simp add: wq_invar_def)
  have "listJobs InMemoryJobStore m (snd (enqueue InMemoryJobStore k m' u pl now q)) = listJobs InMemoryJobStore m q"
    using assms(4) by (auto simp: enqueue_def Let_def listJobs_def listJobs_save split: option.splits)
  moreover have "set (listJobs InMemoryJobStore m q) =
      {j. merchantAddress j = m \<and> getJob InMemoryJobStore (jb_id j) q = Some j}"
    using mem_ok_list [OF ok] by (simp add: listJobs_def getJob_def)
  ultimately show ?thesis
    using listJobs_deliver [OF ok] listJobs_replay [OF inv] assms(2,3) by (simp add: getJob_def)
qed

theorem tenant_isolation_witness:
  "listJobs InMemoryJobStore ''GN'' (snd (deliver InMemoryJobStore ''j1'' demo_down 1 0 demo_queue)) =
   listJobs InMemoryJobStore ''GN'' demo_queue"
proof -
  have "map_option merchantAddress (getJob InMemoryJobStore ''j1'' demo_queue) = Some ''GM''"
    by (simp add: demo_queue_def getJob_def enqueue_def InMemoryJobStore_def empty_queue_def Let_def)
  then obtain j where "getJob InMemoryJobStore ''j1'' demo_queue = Some j" "merchantAddress j = ''GM''"
    by (cases "getJob InMemoryJobStore ''j1'' demo_queue") auto
  then show ?thesis using tenant_isolation [OF demo_reach, of "''j1''" j "''GN''" "''GM''"] by simp
qed

text \<open>The delay proposed after attempt \<open>n\<close> (a random number in $[0,1)$ drawn) lies within 20 per
  cent of the exponential base, so it is never negative and never above 72 seconds; from the seventh
  attempt on the base is the cap of 60 seconds.\<close>

theorem computeBackoff_bounds:
  assumes "0 \<le> random" "random < 1" "1 \<le> n"
  shows "of_int (computeBackoff n random) \<le> 6/5 * min (1000 * 2 ^ (n - 1)) (60000 :: rat) \<and>
    4/5 * min (1000 * 2 ^ (n - 1)) (60000 :: rat) - 1 < of_int (computeBackoff n random) \<and>
    0 \<le> computeBackoff n random \<and> computeBackoff n random \<le> 72000 \<and>
    (n \<ge> 7 \<longrightarrow> 47999 < computeBackoff n random)"
proof -
  define b :: rat where "b = min (1000 * 2 ^ (n - 1)) 60000"
  define x where "x = b + b * (1/5) * (random * 2 - 1)"
  have b: "0 \<le> b" "b \<le> 60000" by (auto simp: b_def)
  have c: "computeBackoff n random = max 0 \<lfloor>x\<rfloor>"
    by (simp add: computeBackoff_def Let_def x_def b_def BASE_DELAY_MS_def MAX_BACKOFF_MS_def JITTER_FACTOR_def)
  have "b * (random * 2 - 1) \<le> b * 1" "b * (- 1) \<le> b * (random * 2 - 1)"
    by (rule mult_left_mono; use b assms in simp)+
  then have x: "x \<le> 6/5 * b" "4/5 * b \<le> x" by (auto simp: x_def)
  then have x0: "0 \<le> x" using b by linarith
  then have f: "computeBackoff n random = \<lfloor>x\<rfloor>" by (simp add: c)
  have fl: "of_int \<lfloor>x\<rfloor> \<le> x" "x < of_int \<lfloor>x\<rfloor> + 1" by linarith+
  have up: "of_int \<lfloor>x\<rfloor> \<le> (72000 :: rat)" using fl x b by linarith
  have "47999 < \<lfloor>x\<rfloor>" if "n \<ge> 7"
  proof -
    have "(2::rat) ^ 6 \<le> 2 ^ (n - 1)" using that by (intro power_increasing) auto
    then have "b = 60000" by (simp add: b_def)
    then have "(47999 :: rat) < of_int \<lfloor>x\<rfloor>" using fl x by linarith
    then show ?thesis by linarith
  qed
  moreover have "\<lfloor>x\<rfloor> \<le> 72000" using up by linarith
  moreover have "of_int \<lfloor>x\<rfloor> \<le> 6/5 * b" "4/5 * b - 1 < of_int \<lfloor>x\<rfloor>" using fl x by linarith+
  ultimately show ?thesis using x0 unfolding f b_def by simp
qed

theorem computeBackoff_bounds_witness:
  "computeBackoff 5 (1/2) \<le> 72000"
  using computeBackoff_bounds [of "1/2" 5] by simp

section \<open>Interleaved deliveries\<close>

text \<open>A state in which several deliveries may be waiting for their HTTP call: the jobs captured
  by the deliveries under way.\<close>

record 'p ilv_state =
  il_queue :: "('p, 'p mem_store) queue_state"
  il_inflight :: "'p WebhookJob list"

inductive ilv_step :: "'p ilv_state \<Rightarrow> 'p ilv_state \<Rightarrow> bool" where
  ilv_enqueue: "ilv_step s (s\<lparr>il_queue := snd (enqueue InMemoryJobStore i m u pl now (il_queue s))\<rparr>)"
| ilv_replay: "ilv_step s (s\<lparr>il_queue := snd (replayDeadLetter InMemoryJobStore i now (il_queue s))\<rparr>)"
| ilv_begin: "deliver_begin InMemoryJobStore i now (il_queue s) = (Inr job, q) \<Longrightarrow>
    ilv_step s \<lparr>il_queue = q, il_inflight = il_inflight s @ [job]\<rparr>"
| ilv_finish: "job \<in> set (il_inflight s) \<Longrightarrow>
    ilv_step s \<lparr>il_queue = snd (deliver_finish InMemoryJobStore job response now random (il_queue s)),
                il_inflight = remove1 job (il_inflight s)\<rparr>"

abbreviation ilv_reach :: "'p ilv_state \<Rightarrow> bool" where
  "ilv_reach \<equiv> reach (\<lambda>s. s = \<lparr>il_queue = empty_queue, il_inflight = []\<rparr>) ilv_step"

definition demo_job :: "nat \<Rightarrow> string WebhookJob" where
  "demo_job n = \<lparr>jb_id = ''j1'', merchantAddress = ''GM'', jb_url = ''http://x'', payload = ''p'',
     signingSecretRef = None, attempts = n, lastAttemptAt = Some (int n), jb_lastError = None,
     status = Delivering, createdAt = 0, resolvedAt = None\<rparr>"

definition ilv_demo :: "nat \<Rightarrow> string ilv_state" where
  "ilv_demo n = (case n of
       0 \<Rightarrow> \<lparr>il_queue = demo_queue, il_inflight = []\<rparr>
     | Suc 0 \<Rightarrow> \<lparr>il_queue = snd (deliver_begin InMemoryJobStore ''j1'' 1 demo_queue), il_inflight = [demo_job 1]\<rparr>
     | Suc (Suc _) \<Rightarrow>
         \<lparr>il_queue = snd (deliver_begin InMemoryJobStore ''j1'' 2 (snd (deliver_begin InMemoryJobStore ''j1'' 1 demo_queue))),
          il_inflight = [demo_job 1, demo_job 2]\<rparr>)"

definition ilv_won :: "string ilv_state" where
  "ilv_won = \<lparr>il_queue = snd (deliver_finish InMemoryJobStore (demo_job 2)
       (Inr \<lparr>success = True, statusCode = Some 200, dr_error = None\<rparr>) 3 0 (il_queue (ilv_demo 2))),
     il_inflight = [demo_job 1]\<rparr>"

definition ilv_lost :: "string ilv_state" where
  "ilv_lost = \<lparr>il_queue = snd (deliver_finish InMemoryJobStore (demo_job 1) (Inl ''timeout'') 4 0 (il_queue ilv_won)),
     il_inflight = []\<rparr>"

lemmas demo_eval = demo_queue_def demo_job_def ilv_demo_def ilv_won_def ilv_lost_def enqueue_def Let_def
  InMemoryJobStore_def empty_queue_def deliver_begin_def deliver_finish_def dead_entry_def MAX_ATTEMPTS_def

lemma ilv_demo_begin: "ilv_step (ilv_demo 0) (ilv_demo 1)" "ilv_step (ilv_demo 1) (ilv_demo 2)"
proof -
  have "ilv_step (ilv_demo 0) \<lparr>il_queue = il_queue (ilv_demo 1), il_inflight = il_inflight (ilv_demo 0) @ [demo_job 1]\<rparr>"
    by (rule ilv_begin [of "''j1''" 1]) (simp add: demo_eval)
  then show "ilv_step (ilv_demo 0) (ilv_demo 1)" by (simp add: ilv_demo_def)
  have "ilv_step (ilv_demo 1) \<lparr>il_queue = il_queue (ilv_demo 2), il_inflight = il_inflight (ilv_demo 1) @ [demo_job 2]\<rparr>"
    by (rule ilv_begin [of "''j1''" 2]) (simp add: demo_eval)
  then show "ilv_step (ilv_demo 1) (ilv_demo 2)" by (simp add: ilv_demo_def numeral_2_eq_2)
qed

lemma ilv_demo_reach: "ilv_reach (ilv_demo 2)"
proof -
  have "ilv_step \<lparr>il_queue = empty_queue, il_inflight = []\<rparr> (ilv_demo 0)"
    using ilv_enqueue [of "\<lparr>il_queue = empty_queue, il_inflight = []\<rparr>"] by (simp add: ilv_demo_def demo_queue_def)
  then have "ilv_reach (ilv_demo 0)" by (rule reach_step [OF reach_init, rotated]) (rule refl)
  from reach_step [OF reach_step [OF this ilv_demo_begin(1)] ilv_demo_begin(2)] show ?thesis .
qed

lemma ilv_demo_finish: "ilv_step (ilv_demo 2) ilv_won" "ilv_step ilv_won ilv_lost"
proof -
  have "remove1 (demo_job 2) [demo_job 1, demo_job 2] = [demo_job 1]" by (simp add: demo_job_def)
  then show "ilv_step (ilv_demo 2) ilv_won"
    using ilv_finish [of "demo_job 2" "ilv_demo 2" "Inr \<lparr>success = True, statusCode = Some 200, dr_error = None\<rparr>" 3 0]
    by (simp add: ilv_won_def ilv_demo_def numeral_2_eq_2)
  show "ilv_step ilv_won ilv_lost"
    using ilv_finish [of "demo_job 1" ilv_won "Inl ''timeout''" 4 0] by (simp add: ilv_lost_def ilv_won_def)
qed

text \<open>The job status is not protected against two overlapping deliveries of one job: an execution
  exists in which the second attempt succeeds and the job is stored as delivered, and the first
  attempt, timing out afterwards, overwrites it with failed and attempt count 1. The next delivery
  call then posts the delivered webhook again.\<close>

theorem overlapping_deliveries_lose_success:
  "\<exists>s t j k. ilv_reach s \<and> ilv_step s t \<and>
     getJob InMemoryJobStore ''j1'' (il_queue s) = Some j \<and> status j = Delivered \<and> attempts j = 2 \<and>
     getJob InMemoryJobStore ''j1'' (il_queue t) = Some k \<and> status k = Failed \<and> attempts k = 1 \<and>
     length (qs_posts (snd (deliver_begin InMemoryJobStore ''j1'' 9 (il_queue t :: (string, string mem_store) queue_state))))
       = Suc (length (qs_posts (il_queue t)))"
proof -
  have r: "ilv_reach ilv_won" using ilv_demo_reach ilv_demo_finish(1) by (rule reach_step)
  have d: "\<exists>j. getJob InMemoryJobStore ''j1'' (il_queue ilv_won) = Some j \<and> status j = Delivered \<and> attempts j = 2"
    by (simp add: demo_eval getJob_def numeral_2_eq_2)
  have f: "\<exists>j. getJob InMemoryJobStore ''j1'' (il_queue ilv_lost) = Some j \<and> status j = Failed \<and> attempts j = 1"
    by (simp add: demo_eval getJob_def numeral_2_eq_2)
  have p: "length (qs_posts (snd (deliver_begin InMemoryJobStore ''j1'' 9 (il_queue ilv_lost)))) =
      Suc (length (qs_posts (il_queue ilv_lost)))"
    by (simp add: demo_eval numeral_2_eq_2)
  obtain j k where "getJob InMemoryJobStore ''j1'' (il_queue ilv_won) = Some j" "status j = Delivered" "attempts j = 2"
      "getJob InMemoryJobStore ''j1'' (il_queue ilv_lost) = Some k" "status k = Failed" "attempts k = 1"
    using d f by blast
  then show ?thesis using r ilv_demo_finish(2) p by blast
qed

end
