(* ===== verification/Indexer.thy ===== *)
theory Indexer
  imports Cursor "HOL-Library.Word"
begin

unbundle bit_operations_syntax

text \<open>
  The event indexer, \<^verbatim>\<open>backend/src/services/indexer.ts\<close>: it pages through the contract's
  events, decodes them and writes each in one PostgreSQL transaction, and keeps the cursor of the
  last page written. Tables follow \<^verbatim>\<open>backend/src/db/schema.sql\<close>; the bookkeeping columns
  \<^verbatim>\<open>id\<close>, \<^verbatim>\<open>created_at\<close>, \<^verbatim>\<open>updated_at\<close> are left out. The RPC server is an argument: a function
  from a request to an error or a page of events. Database faults are an argument too: which
  statement of which transaction throws. XDR values are the constructors that the code
  distinguishes; \<^verbatim>\<open>toXDR('base64')\<close> of the SDK is an argument. Instants are numbers of milliseconds.
\<close>

section \<open>Data\<close>

datatype EventType = SubscribeEv | ExecutedEv | CancelEv | FailureEv

record DecodedEvent =
  de_type :: EventType
  de_subscriber :: string
  de_merchant :: string
  de_amount :: string
  txHash :: string
  ledgerSeq :: "int option"   \<comment> \<open>\<open>None\<close> is \<^verbatim>\<open>NaN\<close>\<close>
  occurredAt :: int

datatype ScAddress = AccountAddr "nat list" | ContractAddr "nat list" | OtherAddr

datatype ScVal =
    ScvSymbol string
  | ScvAddress ScAddress
  | ScvString string
  | ScvI128 (i128_hi: int) (i128_lo: int)
  | ScvU64 int
  | ScvI64 int
  | ScvOther

datatype ledger = LedgerText string | LedgerNumber int

record raw_event =
  rv_id :: string
  rv_topic :: "ScVal list option"
  rv_value :: "ScVal option"
  rv_ledger :: ledger
  rv_closedAt :: "int option"
  rv_txHash :: "string option"

definition MAX_EVENTS_PER_PAGE :: nat where "MAX_EVENTS_PER_PAGE = 100"

section \<open>Decoding\<close>

text \<open>\<^verbatim>\<open>Buffer.toString('base64')\<close> (the standard alphabet, padded) and \<^verbatim>\<open>Buffer.toString('hex')\<close>.\<close>

definition to_base64 :: "nat list \<Rightarrow> string" where
  "to_base64 bs = (let t = map (\<lambda>c. if c = CHR ''-'' then CHR ''+'' else if c = CHR ''_'' then CHR ''/'' else c)
       (b64_encode bs)
     in t @ replicate ((4 - length t mod 4) mod 4) (CHR ''=''))"

definition hex_char :: "nat \<Rightarrow> char" where
  "hex_char n = (if n < 10 then char_of (48 + n) else char_of (87 + n))"

definition to_hex :: "nat list \<Rightarrow> string" where
  "to_hex bs = concat (map (\<lambda>b. [hex_char (b div 16), hex_char (b mod 16)]) bs)"

definition scValToString :: "(ScVal \<Rightarrow> string) \<Rightarrow> ScVal \<Rightarrow> string" where
  "scValToString toXDR v = (case v of
      ScvSymbol s \<Rightarrow> s
    | ScvAddress (AccountAddr k) \<Rightarrow> to_base64 k
    | ScvAddress (ContractAddr k) \<Rightarrow> to_hex k
    | ScvAddress OtherAddr \<Rightarrow> toXDR v
    | ScvString s \<Rightarrow> s
    | _ \<Rightarrow> toXDR v)"

definition scValToAmount :: "ScVal \<Rightarrow> string" where
  "scValToAmount v = (case v of
      ScvI128 hi lo \<Rightarrow> int_str (push_bit 64 hi OR lo)
    | ScvU64 n \<Rightarrow> int_str n
    | ScvI64 n \<Rightarrow> int_str n
    | _ \<Rightarrow> ''0'')"

definition event_type_of :: "string \<Rightarrow> EventType option" where
  "event_type_of s =
     (if s = ''subscribe'' then Some SubscribeEv
      else if s = ''executed'' then Some ExecutedEv
      else if s = ''cancel'' then Some CancelEv
      else if s = ''payment_transfer_failure'' then Some FailureEv
      else None)"

definition decodeEvent :: "(ScVal \<Rightarrow> string) \<Rightarrow> int \<Rightarrow> raw_event \<Rightarrow> DecodedEvent option" where
  "decodeEvent toXDR now ev =
     (case rv_topic ev of
        Some (name # sub # mer # _) \<Rightarrow>
          (case event_type_of (scValToString toXDR name) of
             None \<Rightarrow> None
           | Some ty \<Rightarrow> Some
               \<lparr>de_type = ty, de_subscriber = scValToString toXDR sub, de_merchant = scValToString toXDR mer,
                de_amount = (case rv_value ev of None \<Rightarrow> ''0'' | Some v \<Rightarrow> scValToAmount v),
                txHash = (case rv_txHash ev of None \<Rightarrow> '''' | Some h \<Rightarrow> h),
                ledgerSeq = (case rv_ledger ev of LedgerText t \<Rightarrow> parse_int t | LedgerNumber n \<Rightarrow> Some n),
                occurredAt = (case rv_closedAt ev of Some t \<Rightarrow> t | None \<Rightarrow> now)\<rparr>)
      | _ \<Rightarrow> None)"

section \<open>Persistence\<close>

datatype sub_status = Active | Overdue | Expired | Cancelled

record sub_row =
  sb_subscriber :: string
  sb_merchant :: string
  sb_token :: string
  sb_amount :: string
  sb_interval_sec :: int
  sb_next_payment :: int
  sb_status :: sub_status

record pay_row =
  py_tx_hash :: string
  py_event_type :: string
  py_subscriber :: string
  py_merchant :: string
  py_amount :: string
  py_ledger_seq :: int
  py_occurred_at :: int

record pg_db =
  subscriptions :: "sub_row list"
  payments :: "pay_row list"
  indexer_cursor :: "string option"

type_synonym stmt = "pg_db \<Rightarrow> pg_db option"

text \<open>A column of type NUMERIC(38) takes 38 digits.\<close>

definition fits_numeric :: "string \<Rightarrow> bool" where
  "fits_numeric s = (case big_int s of None \<Rightarrow> False | Some n \<Rightarrow> \<bar>n\<bar> < 10 ^ 38)"

definition is_sub :: "string \<Rightarrow> string \<Rightarrow> sub_row \<Rightarrow> bool" where
  "is_sub s m r \<longleftrightarrow> sb_subscriber r = s \<and> sb_merchant r = m"

definition upsertSubscription :: "DecodedEvent \<Rightarrow> stmt" where
  "upsertSubscription e db =
     (if fits_numeric (de_amount e) then
        Some (db\<lparr>subscriptions := table_upsert (is_sub (de_subscriber e) (de_merchant e))
                (\<lambda>r. r\<lparr>sb_amount := de_amount e, sb_status := Active\<rparr>)
                \<lparr>sb_subscriber = de_subscriber e, sb_merchant = de_merchant e, sb_token = '''',
                 sb_amount = de_amount e, sb_interval_sec = 0, sb_next_payment = occurredAt e,
                 sb_status = Active\<rparr>
                (subscriptions db)\<rparr>)
      else None)"

definition pay_conflict :: "pay_row \<Rightarrow> pay_row \<Rightarrow> bool" where
  "pay_conflict p q \<longleftrightarrow> py_tx_hash p = py_tx_hash q \<and> py_event_type p = py_event_type q \<and>
     py_subscriber p = py_subscriber q \<and> py_merchant p = py_merchant q"

definition pay_of :: "DecodedEvent \<Rightarrow> string \<Rightarrow> int \<Rightarrow> pay_row" where
  "pay_of e ty seq = \<lparr>py_tx_hash = txHash e, py_event_type = ty, py_subscriber = de_subscriber e,
     py_merchant = de_merchant e, py_amount = de_amount e, py_ledger_seq = seq, py_occurred_at = occurredAt e\<rparr>"

definition recordPayment :: "DecodedEvent \<Rightarrow> string \<Rightarrow> stmt" where
  "recordPayment e eventType db =
     (case ledgerSeq e of
        Some seq \<Rightarrow>
          if fits_numeric (de_amount e) then
            Some (db\<lparr>payments := table_insert_new (pay_conflict (pay_of e eventType seq))
                       (pay_of e eventType seq) (payments db)\<rparr>)
          else None
      | None \<Rightarrow> None)"

definition set_status :: "sub_status \<Rightarrow> DecodedEvent \<Rightarrow> stmt" where
  "set_status st e db = Some (db\<lparr>subscriptions :=
     table_update (is_sub (de_subscriber e) (de_merchant e)) (\<lambda>r. r\<lparr>sb_status := st\<rparr>) (subscriptions db)\<rparr>)"

definition updateSubscriptionAfterPayment :: "DecodedEvent \<Rightarrow> stmt" where
  "updateSubscriptionAfterPayment = set_status Active"

definition markSubscriptionCancelled :: "DecodedEvent \<Rightarrow> stmt" where
  "markSubscriptionCancelled = set_status Cancelled"

definition event_statements :: "DecodedEvent \<Rightarrow> stmt list" where
  "event_statements e = (case de_type e of
      SubscribeEv \<Rightarrow> [upsertSubscription e]
    | ExecutedEv \<Rightarrow> [recordPayment e ''executed'', updateSubscriptionAfterPayment e]
    | CancelEv \<Rightarrow> [markSubscriptionCancelled e, recordPayment e ''cancel'']
    | FailureEv \<Rightarrow> [recordPayment e ''failure''])"

text \<open>The statements of one transaction, in order; \<open>flt k\<close> says that the \<open>k\<close>-th one throws (BEGIN is
  the first, COMMIT the last). \<open>None\<close> is an exception, after which the transaction is rolled back.\<close>

fun run_stmts :: "(nat \<Rightarrow> bool) \<Rightarrow> nat \<Rightarrow> stmt list \<Rightarrow> pg_db \<Rightarrow> pg_db option" where
  "run_stmts flt k [] db = (if flt k then None else Some db)"
| "run_stmts flt k (st # sts) db =
     (if flt k then None
      else (case st db of None \<Rightarrow> None | Some db' \<Rightarrow> run_stmts flt (Suc k) sts db'))"

definition persistEvent :: "(nat \<Rightarrow> bool) \<Rightarrow> DecodedEvent \<Rightarrow> pg_db \<Rightarrow> bool \<times> pg_db" where
  "persistEvent flt e db =
     (if flt 0 then (False, db)
      else (case run_stmts flt 1 (event_statements e) db of
              None \<Rightarrow> (False, db)
            | Some db' \<Rightarrow> (True, db')))"

definition loadCursor :: "pg_db \<Rightarrow> string" where
  "loadCursor db = (case indexer_cursor db of None \<Rightarrow> '''' | Some c \<Rightarrow> c)"

definition saveCursor :: "string \<Rightarrow> pg_db \<Rightarrow> pg_db" where
  "saveCursor c db = db\<lparr>indexer_cursor := Some c\<rparr>"

section \<open>Polling\<close>

record events_request =
  rq_cursor :: "string option"
  rq_startLedger :: "nat option"
  rq_limit :: nat

type_synonym rpc = "events_request \<Rightarrow> string + raw_event list"

record poll_faults =
  pf_load :: bool
  pf_event :: "nat \<Rightarrow> nat \<Rightarrow> bool"   \<comment> \<open>statement of the n-th decoded event\<close>
  pf_save :: "nat \<Rightarrow> bool"           \<comment> \<open>saving the cursor after the n-th page\<close>

datatype poll_result = PollDone nat | PollError

definition fetchEventsPage :: "rpc \<Rightarrow> string \<Rightarrow> string + raw_event list" where
  "fetchEventsPage getEvents cursor =
     getEvents \<lparr>rq_cursor = (if cursor = '''' then None else Some cursor),
                rq_startLedger = (if cursor = '''' then Some 0 else None),
                rq_limit = MAX_EVENTS_PER_PAGE\<rparr>"

text \<open>The inner loop: \<open>dec\<close> is the decoder at the time of the poll, \<open>n\<close> counts the events written.\<close>

fun process_events ::
  "(raw_event \<Rightarrow> DecodedEvent option) \<Rightarrow> poll_faults \<Rightarrow> nat \<Rightarrow> raw_event list \<Rightarrow> pg_db \<Rightarrow> (nat option) \<times> pg_db" where
  "process_events dec flt n [] db = (Some n, db)"
| "process_events dec flt n (ev # evs) db =
     (case dec ev of
        None \<Rightarrow> process_events dec flt n evs db
      | Some e \<Rightarrow>
          (case persistEvent (pf_event flt n) e db of
             (False, db') \<Rightarrow> (None, db')
           | (True, db') \<Rightarrow> process_events dec flt (Suc n) evs db'))"

fun poll_loop ::
  "nat \<Rightarrow> rpc \<Rightarrow> (raw_event \<Rightarrow> DecodedEvent option) \<Rightarrow> poll_faults \<Rightarrow> string \<Rightarrow> nat \<Rightarrow> nat \<Rightarrow> pg_db
   \<Rightarrow> (poll_result \<times> pg_db) option" where
  "poll_loop 0 getEvents dec flt cursor page n db = None"
| "poll_loop (Suc fuel) getEvents dec flt cursor page n db =
     (case fetchEventsPage getEvents cursor of
        Inl _ \<Rightarrow> Some (PollError, db)
      | Inr [] \<Rightarrow> Some (PollDone n, db)
      | Inr evs \<Rightarrow>
          (case process_events dec flt n evs db of
             (None, db') \<Rightarrow> Some (PollError, db')
           | (Some n', db') \<Rightarrow>
               if pf_save flt page then Some (PollError, db')
               else (let cursor' = rv_id (last evs); db'' = saveCursor cursor' db'
                     in if length evs < MAX_EVENTS_PER_PAGE then Some (PollDone n', db'')
                        else poll_loop fuel getEvents dec flt cursor' (Suc page) n' db'')))"

definition poll ::
  "nat \<Rightarrow> rpc \<Rightarrow> (raw_event \<Rightarrow> DecodedEvent option) \<Rightarrow> poll_faults \<Rightarrow> pg_db \<Rightarrow> (poll_result \<times> pg_db) option" where
  "poll fuel getEvents dec flt db =
     (if pf_load flt then Some (PollError, db)
      else poll_loop fuel getEvents dec flt (loadCursor db) 0 0 db)"

text \<open>The service around it: \<^verbatim>\<open>start\<close> polls unless it is running, \<^verbatim>\<open>stop\<close> clears the timer, and a
  poll of a running service sets the timer for the next one.\<close>

record indexer_service =
  is_running :: bool
  is_timer :: bool

definition poll_service ::
  "nat \<Rightarrow> rpc \<Rightarrow> (raw_event \<Rightarrow> DecodedEvent option) \<Rightarrow> poll_faults \<Rightarrow> indexer_service \<times> pg_db
   \<Rightarrow> (indexer_service \<times> pg_db) option" where
  "poll_service fuel getEvents dec flt = (\<lambda>(svc, db).
     if \<not> is_running svc then Some (svc, db)
     else map_option (\<lambda>(r, db'). (svc\<lparr>is_timer := True\<rparr>, db')) (poll fuel getEvents dec flt db))"

definition start_service ::
  "nat \<Rightarrow> rpc \<Rightarrow> (raw_event \<Rightarrow> DecodedEvent option) \<Rightarrow> poll_faults \<Rightarrow> indexer_service \<times> pg_db
   \<Rightarrow> (indexer_service \<times> pg_db) option" where
  "start_service fuel getEvents dec flt = (\<lambda>(svc, db).
     if is_running svc then Some (svc, db)
     else poll_service fuel getEvents dec flt (svc\<lparr>is_running := True\<rparr>, db))"

definition stop_service :: "indexer_service \<times> pg_db \<Rightarrow> indexer_service \<times> pg_db" where
  "stop_service = (\<lambda>(svc, db). (svc\<lparr>is_running := False, is_timer := False\<rparr>, db))"

section \<open>Numbers\<close>

lemma push_bit_or:
  assumes "0 \<le> lo" "lo < 2 ^ n"
  shows "push_bit n hi OR lo = hi * 2 ^ n + (lo :: int)"
proof -
  have "lo = take_bit n lo" using assms by (simp add: take_bit_int_eq_self)
  then have "\<not> bit lo k" if "n \<le> k" for k using that by (metis bit_take_bit_iff not_le)
  then have "push_bit n hi AND lo = 0"
    by (auto simp: bit_eq_iff bit_simps)
  then show ?thesis by (simp add: disjunctive_add_eq_or [symmetric] push_bit_eq_mult)
qed

section \<open>Transactions\<close>

text \<open>The effect of an event when no statement throws, and when it is accepted.\<close>

definition accepted :: "DecodedEvent \<Rightarrow> bool" where
  "accepted e \<longleftrightarrow> fits_numeric (de_amount e) \<and> (de_type e \<noteq> SubscribeEv \<longrightarrow> ledgerSeq e \<noteq> None)"

definition apply_event :: "DecodedEvent \<Rightarrow> pg_db \<Rightarrow> pg_db" where
  "apply_event e db = snd (persistEvent (\<lambda>_. False) e db)"

definition apply_raw :: "(raw_event \<Rightarrow> DecodedEvent option) \<Rightarrow> raw_event \<Rightarrow> pg_db \<Rightarrow> pg_db" where
  "apply_raw dec ev db = (case dec ev of None \<Rightarrow> db | Some e \<Rightarrow> apply_event e db)"

definition raw_accepted :: "(raw_event \<Rightarrow> DecodedEvent option) \<Rightarrow> raw_event \<Rightarrow> bool" where
  "raw_accepted dec ev = (case dec ev of None \<Rightarrow> True | Some e \<Rightarrow> accepted e)"

lemma run_stmts_fault:
  "run_stmts flt k sts db = Some db' \<Longrightarrow> run_stmts (\<lambda>_. False) k sts db = Some db'"
  by (induction flt k sts db rule: run_stmts.induct) (auto split: if_splits option.splits)

lemma persist_accepted: "fst (persistEvent (\<lambda>_. False) e db) \<longleftrightarrow> accepted e"
  by (cases "de_type e")
     (auto simp: persistEvent_def event_statements_def accepted_def upsertSubscription_def recordPayment_def
       updateSubscriptionAfterPayment_def markSubscriptionCancelled_def set_status_def split: option.splits)

text \<open>A transaction applies the event completely or leaves the database as it was.\<close>

lemma persistEvent_atomic:
  "persistEvent flt e db = (False, db) \<or> (accepted e \<and> persistEvent flt e db = (True, apply_event e db))"
proof (cases "persistEvent flt e db")
  case (Pair ok db')
  show ?thesis
  proof (cases ok)
    case True
    then have "run_stmts (\<lambda>_. False) 1 (event_statements e) db = Some db'"
      using Pair by (auto simp: persistEvent_def split: if_splits option.splits dest: run_stmts_fault)
    then have "persistEvent (\<lambda>_. False) e db = (True, db')" by (simp add: persistEvent_def)
    then show ?thesis using Pair True persist_accepted [of e db] by (simp add: apply_event_def)
  next
    case False
    then show ?thesis using Pair by (auto simp: persistEvent_def split: if_splits option.splits)
  qed
qed

lemma persistEvent_ok: "accepted e \<Longrightarrow> persistEvent (\<lambda>_. False) e db = (True, apply_event e db)"
  using persist_accepted [of e db] by (cases "persistEvent (\<lambda>_. False) e db") (simp add: apply_event_def)

lemma apply_event_cursor [simp]: "indexer_cursor (apply_event e db) = indexer_cursor db"
  by (cases "de_type e")
     (auto simp: apply_event_def persistEvent_def event_statements_def upsertSubscription_def recordPayment_def
       updateSubscriptionAfterPayment_def markSubscriptionCancelled_def set_status_def split: option.splits)

lemma apply_raw_cursor [simp]: "indexer_cursor (fold (apply_raw dec) evs db) = indexer_cursor db"
  by (induction evs arbitrary: db) (auto simp: apply_raw_def split: option.splits)

text \<open>An event reads and writes the tables only: it commutes with moving the cursor.\<close>

lemma apply_event_save: "apply_event e (saveCursor c db) = saveCursor c (apply_event e db)"
  by (cases "de_type e")
     (auto simp: apply_event_def persistEvent_def event_statements_def upsertSubscription_def recordPayment_def
       updateSubscriptionAfterPayment_def markSubscriptionCancelled_def set_status_def saveCursor_def
       split: option.splits)

lemma apply_raw_save: "fold (apply_raw dec) evs (saveCursor c db) = saveCursor c (fold (apply_raw dec) evs db)"
  by (induction evs arbitrary: db) (auto simp: apply_raw_def apply_event_save split: option.splits)

lemma saveCursor_simps [simp]:
  "saveCursor c (saveCursor d db) = saveCursor c db" "indexer_cursor (saveCursor c db) = Some c"
  "subscriptions (saveCursor c db) = subscriptions db" "payments (saveCursor c db) = payments db"
  by (simp_all add: saveCursor_def)

section \<open>Polling a log of events\<close>

lemma process_events_prefix:
  assumes "process_events dec flt n evs db = (r, db')"
  shows "\<exists>i \<le> length evs. db' = fold (apply_raw dec) (take i evs) db \<and> list_all (raw_accepted dec) (take i evs) \<and>
    (r \<noteq> None \<longrightarrow> i = length evs)"
  using assms
proof (induction evs arbitrary: n db)
  case (Cons ev evs)
  show ?case
  proof (cases "dec ev")
    case None
    then obtain i where "i \<le> length evs" "db' = fold (apply_raw dec) (take i evs) db"
        "list_all (raw_accepted dec) (take i evs)" "r \<noteq> None \<longrightarrow> i = length evs"
      using Cons by fastforce
    then show ?thesis using None by (intro exI [of _ "Suc i"]) (simp add: apply_raw_def [of dec ev] raw_accepted_def [of dec ev])
  next
    case (Some e)
    from persistEvent_atomic [of "pf_event flt n" e db] show ?thesis
    proof
      assume "persistEvent (pf_event flt n) e db = (False, db)"
      then show ?thesis using Some Cons.prems by (intro exI [of _ 0]) auto
    next
      assume a: "accepted e \<and> persistEvent (pf_event flt n) e db = (True, apply_event e db)"
      then obtain i where "i \<le> length evs" "db' = fold (apply_raw dec) (take i evs) (apply_event e db)"
          "list_all (raw_accepted dec) (take i evs)" "r \<noteq> None \<longrightarrow> i = length evs"
        using Some Cons.IH [of "Suc n" "apply_event e db"] Cons.prems by auto
      then show ?thesis using Some a by (intro exI [of _ "Suc i"]) (simp add: apply_raw_def [of dec ev] raw_accepted_def [of dec ev])
    qed
  qed
qed simp

lemma process_events_ok:
  assumes "list_all (raw_accepted dec) evs" "\<And>n k. \<not> pf_event flt n k"
  shows "\<exists>n'. process_events dec flt n evs db = (Some n', fold (apply_raw dec) evs db)"
  using assms(1)
proof (induction evs arbitrary: n db)
  case (Cons ev evs)
  have f: "pf_event flt n = (\<lambda>_. False)" using assms(2) by blast
  show ?case
    using Cons by (cases "dec ev") (auto simp: f persistEvent_ok raw_accepted_def apply_raw_def)
qed simp

text \<open>What the RPC server documents: after a cursor it returns the next events of the log, at most as
  many as asked for. \<open>answers\<close> allows it to fail, \<open>serves\<close> does not. \<open>log_cursor\<close> is the cursor after
  the first \<open>k\<close> events.\<close>

definition log_cursor :: "raw_event list \<Rightarrow> nat \<Rightarrow> string" where
  "log_cursor evs k = (if k = 0 then '''' else rv_id (evs ! (k - 1)))"

definition answers :: "raw_event list \<Rightarrow> rpc \<Rightarrow> bool" where
  "answers evs getEvents \<longleftrightarrow>
     (\<forall>ev \<in> set evs. rv_id ev \<noteq> '''') \<and>
     (\<forall>n page. getEvents \<lparr>rq_cursor = None, rq_startLedger = Some 0, rq_limit = n\<rparr> = Inr page
        \<longrightarrow> page = take n evs) \<and>
     (\<forall>k n page. k < length evs \<longrightarrow>
        getEvents \<lparr>rq_cursor = Some (rv_id (evs ! k)), rq_startLedger = None, rq_limit = n\<rparr> = Inr page
        \<longrightarrow> page = take n (drop (Suc k) evs))"

definition serves :: "raw_event list \<Rightarrow> rpc \<Rightarrow> bool" where
  "serves evs getEvents \<longleftrightarrow> answers evs getEvents \<and> (\<forall>rq e. getEvents rq \<noteq> Inl e)"

lemma answers_fetch:
  assumes "answers evs getEvents" "k \<le> length evs" "fetchEventsPage getEvents (log_cursor evs k) = Inr page"
  shows "page = take 100 (drop k evs)"
  using assms
  by (cases k) (auto simp: answers_def fetchEventsPage_def log_cursor_def MAX_EVENTS_PER_PAGE_def)

lemma page_end:
  assumes "k < length evs" "page = take 100 (drop k evs)"
  shows "page \<noteq> []" "rv_id (last page) = log_cursor evs (k + length page)" "k + length page \<le> length evs"
    "length page < 100 \<Longrightarrow> k + length page = length evs"
proof -
  show ne: "page \<noteq> []" using assms by simp
  have "last page = evs ! (k + length page - 1)"
    using ne assms by (simp add: last_conv_nth)
  then show "rv_id (last page) = log_cursor evs (k + length page)" using ne by (simp add: log_cursor_def)
qed (use assms in auto)

lemma take_drop_join:
  assumes "k \<le> j" "j \<le> l"
  shows "take (j - k) (drop k xs) @ take (l - j) (drop j xs) = take (l - k) (drop k xs)"
  using take_add [of "j - k" "l - j" "drop k xs"] assms by (simp add: add.commute)

lemma poll_loop_page:
  assumes "fetchEventsPage getEvents cursor = Inr pg" "pg \<noteq> []" "process_events dec flt n pg db = (r, db1)"
  shows "poll_loop (Suc fuel) getEvents dec flt cursor page n db = (case r of
      None \<Rightarrow> Some (PollError, db1)
    | Some n' \<Rightarrow>
        if pf_save flt page then Some (PollError, db1)
        else if length pg < 100 then Some (PollDone n', saveCursor (rv_id (last pg)) db1)
        else poll_loop fuel getEvents dec flt (rv_id (last pg)) (Suc page) n' (saveCursor (rv_id (last pg)) db1))"
  using assms
  by (cases pg) (simp_all add: Let_def MAX_EVENTS_PER_PAGE_def del: process_events.simps split: option.splits)

text \<open>Every poll, whatever fails in it, has applied a prefix of the events still to come and left the
  cursor at an event inside that prefix; if it reports success it has applied them all.\<close>

lemma poll_loop_prefix:
  assumes "answers evs getEvents" "k \<le> length evs" "cursor = log_cursor evs k"
    and "poll_loop fuel getEvents dec flt cursor page n db = Some (res, db')"
  shows "\<exists>k' j. k \<le> k' \<and> k' \<le> j \<and> j \<le> length evs \<and>
    db' = (if k' = k then id else saveCursor (log_cursor evs k'))
            (fold (apply_raw dec) (take (j - k) (drop k evs)) db) \<and>
    list_all (raw_accepted dec) (take (j - k) (drop k evs)) \<and>
    (res \<noteq> PollError \<longrightarrow> k' = length evs \<and> j = length evs)"
  using assms(2-)
proof (induction fuel arbitrary: k cursor page n db)
  case (Suc fuel)
  show ?case
  proof (cases "fetchEventsPage getEvents cursor")
    case (Inl e)
    then show ?thesis using Suc.prems by (intro exI [of _ k]) auto
  next
    case (Inr pg)
    then have pg: "pg = take 100 (drop k evs)" using answers_fetch [OF assms(1) Suc.prems(1)] Suc.prems(2) by simp
    show ?thesis
    proof (cases "k < length evs")
      case False
      then have "pg = []" using pg by simp
      then show ?thesis using Inr Suc.prems False by (intro exI [of _ k]) auto
    next
      case True
      note pe = page_end [OF True pg]
      obtain r db1 where p: "process_events dec flt n pg db = (r, db1)" by force
      from process_events_prefix [OF p] obtain i where
        i: "i \<le> length pg" "db1 = fold (apply_raw dec) (take i pg) db" "list_all (raw_accepted dec) (take i pg)"
          "r \<noteq> None \<longrightarrow> i = length pg" by blast
      have "i \<le> 100" using i(1) pg by simp
      then have ti: "take i pg = take i (drop k evs)" by (simp add: pg min.absorb1)
      have stop: ?thesis if "db' = db1" "res = PollError"
        using i pe(3) that by (intro exI [of _ k] exI [of _ "k + i"]) (simp add: ti)
      show ?thesis
      proof (cases r)
        case None
        then have "db' = db1 \<and> res = PollError"
          using Suc.prems(3) poll_loop_page [OF Inr pe(1) p] by simp
        then show ?thesis using stop by blast
      next
        case (Some n')
        then have il: "i = length pg" using i by simp
        have tk: "take (length pg) (drop k evs) = pg" by (simp add: pg min_def)
        let ?k = "k + length pg"
        let ?db2 = "saveCursor (log_cursor evs ?k) db1"
        show ?thesis
        proof (cases "pf_save flt page")
          case True
          then have "db' = db1 \<and> res = PollError"
            using Suc.prems(3) poll_loop_page [OF Inr pe(1) p] Some by simp
          then show ?thesis using stop by blast
        next
          case nosave: False
          show ?thesis
          proof (cases "length pg < 100")
            case True
            then have "db' = ?db2" "res = PollDone n'"
              using Suc.prems(3) poll_loop_page [OF Inr pe(1) p] pe(2) Some nosave by simp_all
            then show ?thesis using i il pe tk
              by (intro exI [of _ ?k]) (auto simp: pe(4) [OF True, symmetric])
          next
            case False
            then have "poll_loop fuel getEvents dec flt (log_cursor evs ?k) (Suc page) n' ?db2 = Some (res, db')"
              using Suc.prems(3) poll_loop_page [OF Inr pe(1) p] pe(2) Some nosave by simp_all
            from Suc.IH [OF pe(3) refl this] obtain k' j where
              r: "?k \<le> k'" "k' \<le> j" "j \<le> length evs"
                "db' = (if k' = ?k then id else saveCursor (log_cursor evs k'))
                   (fold (apply_raw dec) (take (j - ?k) (drop ?k evs)) ?db2)"
                "list_all (raw_accepted dec) (take (j - ?k) (drop ?k evs))"
                "res \<noteq> PollError \<longrightarrow> k' = length evs \<and> j = length evs" by blast
            have join: "take (j - k) (drop k evs) = pg @ take (j - ?k) (drop ?k evs)"
              using take_drop_join [of k ?k j evs] r(1,2) tk by simp
            have "k' \<noteq> k" using r(1) pe(1) by auto
            then show ?thesis using r i il join tk
              by (intro exI [of _ k'] exI [of _ j]) (auto simp: apply_raw_save split: if_splits)
          qed
        qed
      qed
    qed
  qed
qed simp

lemma poll_prefix:
  assumes "answers evs getEvents" "k \<le> length evs" "loadCursor db = log_cursor evs k"
    and "poll fuel getEvents dec flt db = Some (res, db')"
  shows "\<exists>k' j. k \<le> k' \<and> k' \<le> j \<and> j \<le> length evs \<and> loadCursor db' = log_cursor evs k' \<and>
    subscriptions db' = subscriptions (fold (apply_raw dec) (take (j - k) (drop k evs)) db) \<and>
    payments db' = payments (fold (apply_raw dec) (take (j - k) (drop k evs)) db) \<and>
    list_all (raw_accepted dec) (take (j - k) (drop k evs)) \<and>
    (res \<noteq> PollError \<longrightarrow> k' = length evs \<and> j = length evs)"
proof (cases "pf_load flt")
  case True
  then show ?thesis using assms by (intro exI [of _ k]) (auto simp: poll_def)
next
  case False
  then have "poll_loop fuel getEvents dec flt (loadCursor db) 0 0 db = Some (res, db')"
    using assms(4) by (simp add: poll_def)
  from poll_loop_prefix [OF assms(1-3) this] obtain k' j where
    r: "k \<le> k'" "k' \<le> j" "j \<le> length evs"
      "db' = (if k' = k then id else saveCursor (log_cursor evs k')) (fold (apply_raw dec) (take (j - k) (drop k evs)) db)"
      "list_all (raw_accepted dec) (take (j - k) (drop k evs))" "res \<noteq> PollError \<longrightarrow> k' = length evs \<and> j = length evs"
    by blast
  have "loadCursor db' = log_cursor evs k'"
    using r(4) assms(3) by (auto simp: loadCursor_def saveCursor_def)
  then show ?thesis using r by (intro exI [of _ k'] exI [of _ j]) auto
qed

text \<open>A poll in which nothing fails always ends, having applied all events still to come.\<close>

definition no_faults :: poll_faults where
  "no_faults = \<lparr>pf_load = False, pf_event = \<lambda>_ _. False, pf_save = \<lambda>_. False\<rparr>"

lemma poll_loop_done:
  assumes "serves evs getEvents" "k \<le> length evs" "cursor = log_cursor evs k"
    and "list_all (raw_accepted dec) (drop k evs)" "length evs - k < fuel"
  shows "\<exists>n' db'. poll_loop fuel getEvents dec no_faults cursor page n db = Some (PollDone n', db')"
  using assms(2-)
proof (induction fuel arbitrary: k cursor page n db)
  case (Suc fuel)
  have save: "\<not> pf_save no_faults page" by (simp add: no_faults_def)
  have ans: "answers evs getEvents" using assms(1) by (simp add: serves_def)
  obtain pg where Inr: "fetchEventsPage getEvents cursor = Inr pg"
    using assms(1) unfolding serves_def fetchEventsPage_def by (metis sumE)
  have pg: "pg = take 100 (drop k evs)" using answers_fetch [OF ans Suc.prems(1)] Suc.prems(2) Inr by simp
  show ?case
  proof (cases "k < length evs")
    case False
    then show ?thesis using Inr pg by simp
  next
    case True
    note pe = page_end [OF True pg]
    have "list_all (raw_accepted dec) pg"
      using Suc.prems(3) unfolding pg list_all_iff by (meson in_set_takeD)
    then obtain n' where p: "process_events dec no_faults n pg db = (Some n', fold (apply_raw dec) pg db)"
      using process_events_ok [of dec pg no_faults n db] by (auto simp: no_faults_def)
    show ?thesis
    proof (cases "length pg < 100")
      case True
      then show ?thesis unfolding poll_loop_page [OF Inr pe(1) p] by (simp add: save)
    next
      case False
      let ?k = "k + length pg"
      have "list_all (raw_accepted dec) (drop ?k evs)"
        using Suc.prems(3) unfolding list_all_iff by (metis add.commute drop_drop in_set_dropD)
      moreover have "length evs - ?k < fuel" using Suc.prems(4) pe(1,3) by (cases pg) auto
      ultimately have "\<exists>n'' db'. poll_loop fuel getEvents dec no_faults (log_cursor evs ?k) (Suc page) n'
          (saveCursor (log_cursor evs ?k) (fold (apply_raw dec) pg db)) = Some (PollDone n'', db')"
        using Suc.IH [OF pe(3) refl] by blast
      then show ?thesis unfolding poll_loop_page [OF Inr pe(1) p] using False pe(2) by (simp add: save)
    qed
  qed
qed simp

section \<open>Applying events again\<close>

text \<open>The row of one subscription under one event. An event rejected by the database does nothing.\<close>

definition sub_at :: "string \<Rightarrow> string \<Rightarrow> pg_db \<Rightarrow> sub_row option" where
  "sub_at s m db = List.find (is_sub s m) (subscriptions db)"

definition row_status :: "DecodedEvent \<Rightarrow> sub_status \<Rightarrow> sub_status" where
  "row_status e st = (case de_type e of SubscribeEv \<Rightarrow> Active | ExecutedEv \<Rightarrow> Active | CancelEv \<Rightarrow> Cancelled
     | FailureEv \<Rightarrow> st)"

definition row_amount :: "DecodedEvent \<Rightarrow> string \<Rightarrow> string" where
  "row_amount e a = (if de_type e = SubscribeEv then de_amount e else a)"

definition new_row :: "DecodedEvent \<Rightarrow> sub_row" where
  "new_row e = \<lparr>sb_subscriber = de_subscriber e, sb_merchant = de_merchant e, sb_token = '''',
     sb_amount = de_amount e, sb_interval_sec = 0, sb_next_payment = occurredAt e, sb_status = Active\<rparr>"

definition row_step :: "DecodedEvent \<Rightarrow> sub_row option \<Rightarrow> sub_row option" where
  "row_step e r = (case r of
      None \<Rightarrow> if de_type e = SubscribeEv then Some (new_row e) else None
    | Some r \<Rightarrow> Some (r\<lparr>sb_amount := row_amount e (sb_amount r), sb_status := row_status e (sb_status r)\<rparr>))"

definition relevant :: "string \<Rightarrow> string \<Rightarrow> DecodedEvent \<Rightarrow> bool" where
  "relevant s m e \<longleftrightarrow> accepted e \<and> de_subscriber e = s \<and> de_merchant e = m"

lemma is_sub_facts [simp]:
  "is_sub s m (r\<lparr>sb_amount := a\<rparr>) = is_sub s m r" "is_sub s m (r\<lparr>sb_status := st\<rparr>) = is_sub s m r"
  by (simp_all add: is_sub_def)

lemma is_sub_new: "is_sub s m (new_row e) \<longleftrightarrow> de_subscriber e = s \<and> de_merchant e = m"
  by (auto simp: is_sub_def new_row_def)

lemma is_sub_other: "is_sub s m r \<Longrightarrow> (s, m) \<noteq> (s', m') \<Longrightarrow> \<not> is_sub s' m' r"
  by (auto simp: is_sub_def)

lemma sub_at_status: "List.find (is_sub s m) (table_update (is_sub s' m') (\<lambda>r. r\<lparr>sb_status := st\<rparr>) t) =
  (if s' = s \<and> m' = m then map_option (\<lambda>r. r\<lparr>sb_status := st\<rparr>) (List.find (is_sub s m) t)
   else List.find (is_sub s m) t)"
proof (cases "s' = s \<and> m' = m")
  case True
  then show ?thesis by (simp add: find_update_same)
next
  case False
  then show ?thesis by (auto intro!: find_update_other dest: is_sub_other)
qed

lemma sub_at_apply_event:
  "sub_at s m (apply_event e db) = (if relevant s m e then row_step e (sub_at s m db) else sub_at s m db)"
proof (cases "accepted e")
  case False
  then have "apply_event e db = db"
    using persistEvent_atomic [of "\<lambda>_. False" e db] by (auto simp: apply_event_def)
  then show ?thesis using False by (simp add: relevant_def)
next
  case True
  show ?thesis
  proof (cases "de_type e = SubscribeEv")
    case sub: True
    let ?p = "is_sub (de_subscriber e) (de_merchant e)"
    have db: "subscriptions (apply_event e db) =
        table_upsert ?p (\<lambda>r. r\<lparr>sb_amount := de_amount e, sb_status := Active\<rparr>) (new_row e) (subscriptions db)"
      using True sub by (simp add: apply_event_def persistEvent_def event_statements_def upsertSubscription_def
          accepted_def new_row_def)
    show ?thesis
    proof (cases "de_subscriber e = s \<and> de_merchant e = m")
      case True
      then have "sub_at s m (apply_event e db) = Some (case sub_at s m db of None \<Rightarrow> new_row e
          | Some r \<Rightarrow> r\<lparr>sb_amount := de_amount e, sb_status := Active\<rparr>)"
        by (simp add: sub_at_def db find_upsert_same is_sub_new)
      then show ?thesis using True \<open>accepted e\<close> sub
        by (simp add: relevant_def row_step_def row_amount_def row_status_def split: option.splits)
    next
      case False
      then have "sub_at s m (apply_event e db) = sub_at s m db"
        unfolding sub_at_def db by (intro find_upsert_other) (auto simp: is_sub_new dest: is_sub_other)
      then show ?thesis using False by (auto simp: relevant_def)
    qed
  next
    case False
    then show ?thesis using True
      by (cases "de_type e")
         (auto simp: sub_at_def apply_event_def persistEvent_def event_statements_def recordPayment_def
           accepted_def updateSubscriptionAfterPayment_def markSubscriptionCancelled_def set_status_def
           sub_at_status relevant_def row_step_def row_amount_def row_status_def split: option.splits)
  qed
qed

lemma sub_at_fold:
  "sub_at s m (fold apply_event es db) = fold row_step (filter (relevant s m) es) (sub_at s m db)"
  by (induction es arbitrary: db) (auto simp: sub_at_apply_event)

text \<open>What a series of events does to an existing row, and to a row it creates.\<close>

definition amount_after :: "DecodedEvent list \<Rightarrow> string \<Rightarrow> string" where
  "amount_after es a = fold row_amount es a"

definition status_after :: "DecodedEvent list \<Rightarrow> sub_status \<Rightarrow> sub_status" where
  "status_after es st = fold row_status es st"

lemma fold_row_Some:
  "fold row_step es (Some r) =
     Some (r\<lparr>sb_amount := amount_after es (sb_amount r), sb_status := status_after es (sb_status r)\<rparr>)"
  by (induction es arbitrary: r) (simp_all add: row_step_def amount_after_def status_after_def)

lemma amount_after_idem: "amount_after es (amount_after es a) = amount_after es a"
proof -
  have "(\<forall>a. amount_after es a = a) \<or> (\<exists>c. \<forall>a. amount_after es a = c)"
    by (induction es rule: rev_induct) (auto simp: amount_after_def row_amount_def)
  then show ?thesis by metis
qed

lemma status_after_idem: "status_after es (status_after es st) = status_after es st"
proof -
  have "(\<forall>st. status_after es st = st) \<or> (\<exists>c. \<forall>st. status_after es st = c)"
    by (induction es rule: rev_induct)
       (auto simp: status_after_def row_status_def split: EventType.splits)
  then show ?thesis by metis
qed

lemma fold_row_None:
  "fold row_step es None = Some r \<Longrightarrow> amount_after es a = sb_amount r \<and> status_after es st = sb_status r"
proof (induction es arbitrary: r rule: rev_induct)
  case (snoc e es)
  then show ?case
    by (cases "fold row_step es None")
       (auto simp: amount_after_def status_after_def row_step_def [of e] row_amount_def [of e] row_status_def [of e]
         new_row_def [of e] split: if_splits EventType.splits)
qed simp

lemma fold_row_idem: "fold row_step es (fold row_step es x) = fold row_step es x"
proof (cases x)
  case None
  show ?thesis
  proof (cases "fold row_step es None")
    case (Some r)
    then show ?thesis using None fold_row_None [OF Some] by (simp add: fold_row_Some)
  qed (use None in simp)
next
  case (Some r)
  then show ?thesis by (simp add: fold_row_Some amount_after_idem status_after_idem)
qed

text \<open>The payments table: recording payments that are there already changes nothing.\<close>

definition event_payments :: "DecodedEvent \<Rightarrow> pay_row list" where
  "event_payments e = (case ledgerSeq e of
      None \<Rightarrow> []
    | Some seq \<Rightarrow> (case de_type e of
          SubscribeEv \<Rightarrow> []
        | ExecutedEv \<Rightarrow> [pay_of e ''executed'' seq]
        | CancelEv \<Rightarrow> [pay_of e ''cancel'' seq]
        | FailureEv \<Rightarrow> [pay_of e ''failure'' seq]))"

definition add_payment :: "pay_row \<Rightarrow> pay_row list \<Rightarrow> pay_row list" where
  "add_payment p t = table_insert_new (pay_conflict p) p t"

lemma payments_apply_event:
  "payments (apply_event e db) = (if accepted e then fold add_payment (event_payments e) (payments db) else payments db)"
proof (cases "accepted e")
  case False
  then have "apply_event e db = db"
    using persistEvent_atomic [of "\<lambda>_. False" e db] by (auto simp: apply_event_def)
  then show ?thesis using False by simp
next
  case True
  then show ?thesis
    by (cases "de_type e")
       (auto simp: apply_event_def persistEvent_def event_statements_def recordPayment_def accepted_def
         upsertSubscription_def updateSubscriptionAfterPayment_def markSubscriptionCancelled_def set_status_def
         event_payments_def add_payment_def split: option.splits)
qed

definition payments_of :: "DecodedEvent list \<Rightarrow> pay_row list" where
  "payments_of es = concat (map event_payments (filter accepted es))"

lemma payments_fold: "payments (fold apply_event es db) = fold add_payment (payments_of es) (payments db)"
  by (induction es arbitrary: db) (auto simp: payments_apply_event payments_of_def)

lemma pay_conflict_trans: "pay_conflict p q \<Longrightarrow> pay_conflict p r = pay_conflict q r"
  by (auto simp: pay_conflict_def)

lemma add_payment_keeps: "list_ex (pay_conflict p) t \<Longrightarrow> list_ex (pay_conflict p) (add_payment q t)"
  by (auto simp: add_payment_def table_insert_new_def)

lemma add_payment_there: "list_ex (pay_conflict p) (add_payment p t)"
  by (simp add: add_payment_def table_insert_new_def pay_conflict_def)

lemma fold_payment_keeps: "list_ex (pay_conflict p) t \<Longrightarrow> list_ex (pay_conflict p) (fold add_payment ps t)"
  by (induction ps arbitrary: t) (auto intro: add_payment_keeps)

lemma fold_payment_there: "p \<in> set ps \<Longrightarrow> list_ex (pay_conflict p) (fold add_payment ps t)"
  by (induction ps arbitrary: t) (auto intro: fold_payment_keeps add_payment_there)

lemma fold_payment_noop: "\<forall>p \<in> set ps. list_ex (pay_conflict p) t \<Longrightarrow> fold add_payment ps t = t"
  by (induction ps) (auto simp: add_payment_def table_insert_new_def)

lemma fold_payment_idem: "fold add_payment ps (fold add_payment ps t) = fold add_payment ps t"
  by (rule fold_payment_noop) (auto intro: fold_payment_there)

section \<open>Properties\<close>

text \<open>The decoded events of a log.\<close>

definition decoded :: "(raw_event \<Rightarrow> DecodedEvent option) \<Rightarrow> raw_event list \<Rightarrow> DecodedEvent list" where
  "decoded dec evs = List.map_filter dec evs"

lemma decoded_simps [simp]:
  "decoded dec [] = []" "decoded dec (ev # evs) = (case dec ev of None \<Rightarrow> [] | Some e \<Rightarrow> [e]) @ decoded dec evs"
  by (simp_all add: decoded_def List.map_filter_def split: option.splits)

lemma decoded_append: "decoded dec (xs @ ys) = decoded dec xs @ decoded dec ys"
  by (induction xs) auto

lemma decoded_cong: "(\<And>ev. ev \<in> set evs \<Longrightarrow> dec ev = dec' ev) \<Longrightarrow> decoded dec evs = decoded dec' evs"
  by (induction evs) auto

lemma fold_apply_raw: "fold (apply_raw dec) evs db = fold apply_event (decoded dec evs) db"
  by (induction evs arbitrary: db) (auto simp: apply_raw_def split: option.splits)

lemma sub_at_cong: "subscriptions db = subscriptions db' \<Longrightarrow> sub_at s m db = sub_at s m db'"
  by (simp add: sub_at_def)

lemma decodeEvent_now: "rv_closedAt ev \<noteq> None \<Longrightarrow> decodeEvent toXDR now ev = decodeEvent toXDR now' ev"
  by (auto simp: decodeEvent_def split: option.splits list.splits)

lemma i128_text: "scValToAmount (ScvI128 (v div 2 ^ 64) (v mod 2 ^ 64)) = int_str v"
proof -
  have "push_bit 64 (v div 2 ^ 64) OR (v mod 2 ^ 64) = v div 2 ^ 64 * 2 ^ 64 + v mod 2 ^ 64"
    by (rule push_bit_or) auto
  also have "\<dots> = v" by (rule div_mult_mod_eq)
  finally show ?thesis by (simp add: scValToAmount_def)
qed

text \<open>Decoding an i128 amount is exact: from the two halves of a 128-bit value, the signed high
  and the unsigned low 64 bits, \<^verbatim>\<open>((hi << 64n) | lo).toString()\<close> gives the decimal text of the value,
  negative values included, and reading that text back gives the value.\<close>

theorem i128_amount_exact:
  "scValToAmount (ScvI128 (v div 2 ^ 64) (v mod 2 ^ 64)) = int_str v \<and>
   big_int (scValToAmount (ScvI128 (v div 2 ^ 64) (v mod 2 ^ 64))) = Some v"
  unfolding i128_text by simp

text \<open>C5: Polling is crash-safe. Whatever goes wrong during a poll (the RPC server, any statement of
  any transaction, saving the cursor), a later poll in which nothing fails ends, consumes the log to
  its end, and leaves both tables as if each event after the original cursor had been applied exactly
  once, although the second poll may apply some of them again.\<close>

theorem poll_recovers:
  fixes toXDR now now2
  defines "dec \<equiv> decodeEvent toXDR now" and "dec2 \<equiv> decodeEvent toXDR now2"
  assumes "answers evs rpc1" "serves evs rpc2" "\<And>ev. ev \<in> set evs \<Longrightarrow> rv_closedAt ev \<noteq> None"
    and "k \<le> length evs" "loadCursor db = log_cursor evs k" "list_all (raw_accepted dec) (drop k evs)"
    and "poll fuel rpc1 dec flt db = Some (res, db1)" "length evs < fuel2"
  shows "\<exists>n db2. poll fuel2 rpc2 dec2 no_faults db1 = Some (PollDone n, db2) \<and>
    loadCursor db2 = log_cursor evs (length evs) \<and>
    payments db2 = fold add_payment (payments_of (decoded dec (drop k evs))) (payments db) \<and>
    (\<forall>s m. sub_at s m db2 = fold row_step (filter (relevant s m) (decoded dec (drop k evs))) (sub_at s m db))"
proof -
  have dd: "dec2 ev = dec ev" if "ev \<in> set evs" for ev
    unfolding dec_def dec2_def by (rule decodeEvent_now) (rule assms(5) [OF that])
  obtain k' j where p: "k \<le> k'" "k' \<le> j" "j \<le> length evs" "loadCursor db1 = log_cursor evs k'"
      "subscriptions db1 = subscriptions (fold (apply_raw dec) (take (j - k) (drop k evs)) db)"
      "payments db1 = payments (fold (apply_raw dec) (take (j - k) (drop k evs)) db)"
    using poll_prefix [OF assms(3,6,7,9)] by blast
  have k': "k' \<le> length evs" using p by simp
  have acc: "list_all (raw_accepted dec2) (drop k' evs)"
    using assms(8) p(1) dd unfolding list_all_iff raw_accepted_def
    by (metis in_set_dropD set_drop_subset_set_drop subsetD)
  have "length evs - k' < fuel2" using assms(10) by simp
  from poll_loop_done [OF assms(4) k' p(4) acc this, of 0 0 db1]
  obtain n db2 where d: "poll fuel2 rpc2 dec2 no_faults db1 = Some (PollDone n, db2)"
    by (auto simp: poll_def no_faults_def)
  have ans2: "answers evs rpc2" using assms(4) by (simp add: serves_def)
  from poll_prefix [OF ans2 k' p(4) d]
  have q: "loadCursor db2 = log_cursor evs (length evs)"
      "subscriptions db2 = subscriptions (fold (apply_raw dec2) (drop k' evs) db1)"
      "payments db2 = payments (fold (apply_raw dec2) (drop k' evs) db1)"
    by auto
  have deq: "decoded dec2 (drop k' evs) = decoded dec (drop k' evs)"
    by (rule decoded_cong) (auto dest: in_set_dropD dd)
  define A where "A = decoded dec (take (k' - k) (drop k evs))"
  define S where "S = decoded dec (take (j - k') (drop k' evs))"
  define T where "T = decoded dec (drop j evs)"
  have split1: "decoded dec (take (j - k) (drop k evs)) = A @ S"
    unfolding A_def S_def decoded_append [symmetric] using take_drop_join p by metis
  have "drop k' evs = take (j - k') (drop k' evs) @ drop j evs"
    using p(2) by (metis append_take_drop_id drop_drop le_add_diff_inverse2)
  then have split2: "decoded dec (drop k' evs) = S @ T" unfolding S_def T_def by (metis decoded_append)
  have "drop k evs = take (k' - k) (drop k evs) @ drop k' evs"
    using p(1) by (metis append_take_drop_id drop_drop le_add_diff_inverse2)
  then have split3: "decoded dec (drop k evs) = A @ S @ T" unfolding A_def split2 [symmetric] by (metis decoded_append)
  have subs: "sub_at s m db2 = fold row_step (filter (relevant s m) (A @ S @ T)) (sub_at s m db)" for s m
  proof -
    have "sub_at s m db1 = fold row_step (filter (relevant s m) (A @ S)) (sub_at s m db)"
      using sub_at_cong [OF p(5)] by (simp only: fold_apply_raw split1 sub_at_fold)
    moreover have "sub_at s m db2 = fold row_step (filter (relevant s m) (S @ T)) (sub_at s m db1)"
      using sub_at_cong [OF q(2)] by (simp only: fold_apply_raw deq split2 sub_at_fold)
    ultimately show ?thesis by (simp add: fold_row_idem)
  qed
  have "payments db1 = fold add_payment (payments_of (A @ S)) (payments db)"
    using p(6) by (simp only: fold_apply_raw split1 payments_fold)
  moreover have "payments db2 = fold add_payment (payments_of (S @ T)) (payments db1)"
    using q(3) by (simp only: fold_apply_raw deq split2 payments_fold)
  ultimately have "payments db2 = fold add_payment (payments_of (A @ S @ T)) (payments db)"
    by (simp add: payments_of_def fold_payment_idem)
  then show ?thesis using d q(1) subs unfolding split3 by blast
qed

text \<open>A server that serves a fixed log: the events after the one that carries the cursor.\<close>

definition log_server :: "raw_event list \<Rightarrow> rpc" where
  "log_server evs rq = Inr (take (rq_limit rq) (case rq_cursor rq of
      None \<Rightarrow> evs
    | Some c \<Rightarrow> drop 1 (dropWhile (\<lambda>ev. rv_id ev \<noteq> c) evs)))"

definition demo_event :: "string \<Rightarrow> string \<Rightarrow> int \<Rightarrow> raw_event" where
  "demo_event i name amt = \<lparr>rv_id = i, rv_topic = Some [ScvSymbol name, ScvString ''S'', ScvString ''M''],
     rv_value = Some (ScvI128 (amt div 2 ^ 64) (amt mod 2 ^ 64)), rv_ledger = LedgerNumber 7, rv_closedAt = Some 5,
     rv_txHash = Some i\<rparr>"

definition demo_log :: "raw_event list" where
  "demo_log = [demo_event ''e1'' ''subscribe'' 5, demo_event ''e2'' ''executed'' 5]"

lemma log_server_demo: "serves demo_log (log_server demo_log)"
proof -
  have "answers demo_log (log_server demo_log)"
    unfolding answers_def
    by (auto simp: demo_log_def demo_event_def log_server_def less_Suc_eq numeral_2_eq_2)
  then show ?thesis by (simp add: serves_def log_server_def)
qed

definition empty_db :: pg_db where
  "empty_db = \<lparr>subscriptions = [], payments = [], indexer_cursor = Some ''''\<rparr>"

definition demo_xdr :: "ScVal \<Rightarrow> string" where
  "demo_xdr v = ''xdr''"

lemma fits_numeric_int_str [simp]: "fits_numeric (int_str v) \<longleftrightarrow> \<bar>v\<bar> < 10 ^ 38"
  by (simp add: fits_numeric_def)

lemma demo_accepted: "list_all (raw_accepted (decodeEvent demo_xdr now)) demo_log"
  using i128_text [of 5]
  by (simp add: demo_log_def demo_event_def raw_accepted_def decodeEvent_def accepted_def scValToString_def
      event_type_of_def)

theorem poll_recovers_witness:
  "\<exists>n db2. poll 3 (log_server demo_log) (decodeEvent demo_xdr 9) no_faults
       (snd (the (poll 9 (log_server demo_log) (decodeEvent demo_xdr 8)
          \<lparr>pf_load = False, pf_event = \<lambda>n k. n = 1 \<and> k = 2, pf_save = \<lambda>_. False\<rparr> empty_db)))
     = Some (PollDone n, db2)"
proof -
  let ?flt = "\<lparr>pf_load = False, pf_event = \<lambda>n k. n = 1 \<and> k = 2, pf_save = \<lambda>_. False\<rparr>"
  have "\<exists>r. poll 9 (log_server demo_log) (decodeEvent demo_xdr 8) ?flt empty_db = Some r"
    by (simp add: poll_def eval_nat_numeral fetchEventsPage_def log_server_def MAX_EVENTS_PER_PAGE_def demo_log_def
        empty_db_def loadCursor_def Let_def split: option.splits prod.splits)
  then obtain res db1 where r: "poll 9 (log_server demo_log) (decodeEvent demo_xdr 8) ?flt empty_db = Some (res, db1)"
    by auto
  have "answers demo_log (log_server demo_log)" using log_server_demo by (simp add: serves_def)
  moreover have "rv_closedAt ev \<noteq> None" if "ev \<in> set demo_log" for ev
    using that by (auto simp: demo_log_def demo_event_def)
  moreover have "loadCursor empty_db = log_cursor demo_log 0" by (simp add: empty_db_def loadCursor_def log_cursor_def)
  moreover have "length demo_log < 3" by (simp add: demo_log_def)
  ultimately have "\<exists>n db2. poll 3 (log_server demo_log) (decodeEvent demo_xdr 9) no_faults db1 = Some (PollDone n, db2)"
    using poll_recovers [OF _ log_server_demo _ _ _ _ r, of 0 3 9] demo_accepted [of 8] by auto
  then show ?thesis unfolding r option.sel snd_conv .
qed

text \<open>An amount that NUMERIC(38) cannot hold (an i128 can) stops the indexer: if the log has such a
  subscribe event after the cursor, no poll succeeds and none moves the cursor past that event, so
  no later event is ever acknowledged.\<close>

theorem oversized_amount_stalls:
  assumes "answers evs getEvents" "k \<le> j" "j < length evs" "loadCursor db = log_cursor evs k"
    and "rv_topic (evs ! j) = Some [ScvSymbol ''subscribe'', sub, mer]"
    and "rv_value (evs ! j) = Some (ScvI128 (v div 2 ^ 64) (v mod 2 ^ 64))" "10 ^ 38 \<le> v"
    and "poll fuel getEvents (decodeEvent toXDR now) flt db = Some (res, db')"
  shows "res = PollError \<and> (\<exists>k'. k \<le> k' \<and> k' \<le> j \<and> loadCursor db' = log_cursor evs k')"
proof -
  have bad: "\<not> raw_accepted (decodeEvent toXDR now) (evs ! j)"
    using assms(5-7) i128_text [of v]
    by (simp add: raw_accepted_def decodeEvent_def accepted_def event_type_of_def scValToString_def)
  have "k \<le> length evs" using assms(2,3) by simp
  from poll_prefix [OF assms(1) this assms(4,8)] obtain k' i where
    r: "k \<le> k'" "k' \<le> i" "i \<le> length evs" "loadCursor db' = log_cursor evs k'"
      "list_all (raw_accepted (decodeEvent toXDR now)) (take (i - k) (drop k evs))"
      "res \<noteq> PollError \<longrightarrow> k' = length evs \<and> i = length evs" by blast
  have "i \<le> j"
  proof (rule ccontr)
    assume "\<not> i \<le> j"
    then have "take (i - k) (drop k evs) ! (j - k) = evs ! j" "j - k < length (take (i - k) (drop k evs))"
      using assms(2,3) r(3) by auto
    then show False using r(5) bad unfolding list_all_length by metis
  qed
  then show ?thesis using r assms(3) by auto
qed

definition demo_huge :: "raw_event list" where
  "demo_huge = [demo_event ''e1'' ''subscribe'' (10 ^ 38)]"

theorem oversized_amount_stalls_witness:
  "\<exists>db'. poll 2 (log_server demo_huge) (decodeEvent demo_xdr 8) no_faults empty_db = Some (PollError, db')"
proof -
  have a: "answers demo_huge (log_server demo_huge)"
    unfolding answers_def by (auto simp: demo_huge_def demo_event_def log_server_def)
  have "\<exists>r. poll 2 (log_server demo_huge) (decodeEvent demo_xdr 8) no_faults empty_db = Some r"
    by (simp add: poll_def eval_nat_numeral fetchEventsPage_def log_server_def MAX_EVENTS_PER_PAGE_def demo_huge_def
        empty_db_def loadCursor_def no_faults_def Let_def split: option.splits prod.splits)
  then obtain res db' where r: "poll 2 (log_server demo_huge) (decodeEvent demo_xdr 8) no_faults empty_db = Some (res, db')"
    by auto
  have "res = PollError"
    using oversized_amount_stalls [OF a _ _ _ _ _ _ r, of 0 0 "ScvString ''S''" "ScvString ''M''" "10 ^ 38"]
    by (simp add: demo_huge_def demo_event_def empty_db_def loadCursor_def log_cursor_def)
  then show ?thesis using r by simp
qed

end
