(* ===== verification/Webhook_Worker.thy ===== *)
theory Webhook_Worker
  imports Indexer
begin

text \<open>
  The webhook worker, \<^verbatim>\<open>backend/src/workers/webhook.ts\<close>: deliveries are rows of the table
  \<^verbatim>\<open>webhook_deliveries\<close> (\<^verbatim>\<open>backend/src/db/schema.sql\<close>), retried by a periodic scan. The HMAC, the JSON
  text of a payload and the HTTP server are arguments; the server maps a URL, body, signature and
  the state of the world to an error or a response. Instants are in milliseconds; all instants of one
  call are the one passed to it.
\<close>

section \<open>Data\<close>

record WebhookPayload =
  wp_event_type :: EventType
  wp_subscriber :: string
  wp_merchant :: string
  wp_amount :: string
  wp_tx_hash :: string
  wp_ledger_seq :: "int option"
  wp_occurred_at :: int
  wp_delivered_at :: int

datatype delivery_status = WPending | WDelivered | WFailed | WDead

record delivery_row =
  dv_id :: nat
  dv_merchant :: string
  dv_event_type :: EventType
  dv_payload :: WebhookPayload
  dv_url :: string
  dv_attempt :: nat
  dv_status :: delivery_status
  dv_response_status :: "int option"
  dv_response_body :: "string option"
  dv_error_message :: "string option"
  dv_next_retry_at :: "int option"
  dv_delivered_at :: "int option"
  dv_created_at :: int

record webhook_config =
  wc_merchant :: string
  wc_url :: string
  wc_secret :: string
  wc_enabled :: bool

record worker_db =
  webhook_configs :: "webhook_config list"
  webhook_deliveries :: "delivery_row list"
  next_delivery_id :: nat

record DeliveryAttempt =
  da_deliveryId :: nat
  da_attempt :: nat
  da_status :: delivery_status
  da_responseStatus :: "int option"
  da_responseBody :: "string option"
  da_errorMessage :: "string option"

definition RETRY_DELAYS_MS :: "int list" where "RETRY_DELAYS_MS = [1000, 10000, 60000]"
definition WORKER_MAX_ATTEMPTS :: nat where "WORKER_MAX_ATTEMPTS = length RETRY_DELAYS_MS"

text \<open>The environment: the secret, the HMAC-SHA256 hex digest, the JSON text of a payload and the
  HTTP server.\<close>

type_synonym 'w http = "string \<Rightarrow> string \<Rightarrow> string \<Rightarrow> 'w \<Rightarrow> (string + int \<times> string) \<times> 'w"

record 'w worker_env =
  we_secret :: string
  we_hmac :: "string \<Rightarrow> string \<Rightarrow> string"
  we_json :: "WebhookPayload \<Rightarrow> string"
  we_http :: "'w http"

section \<open>Signing\<close>

definition sign :: "'w worker_env \<Rightarrow> string \<Rightarrow> string" where
  "sign env body = (if we_secret env = '''' then '''' else we_hmac env (we_secret env) body)"

text \<open>\<^verbatim>\<open>Buffer.from(s, 'hex')\<close>: the bytes of the leading pairs of hexadecimal digits; reading stops at
  the first pair that is not one, and a single last character is dropped.\<close>

fun from_hex :: "string \<Rightarrow> nat list" where
  "from_hex (a # b # cs) = (case (hex_digit a, hex_digit b) of
      (Some x, Some y) \<Rightarrow> (16 * x + y) # from_hex cs
    | _ \<Rightarrow> [])"
| "from_hex _ = []"

text \<open>\<^verbatim>\<open>crypto.timingSafeEqual\<close> throws on different lengths, which \<^verbatim>\<open>verify\<close> catches.\<close>

definition verify :: "'w worker_env \<Rightarrow> string \<Rightarrow> string \<Rightarrow> bool" where
  "verify env body signature =
     (let expected = sign env body
      in if expected = '''' then False
         else if length (from_hex expected) \<noteq> length (from_hex signature) then False
         else from_hex expected = from_hex signature)"

section \<open>Database\<close>

definition getMerchantWebhookConfig :: "string \<Rightarrow> worker_db \<Rightarrow> webhook_config option" where
  "getMerchantWebhookConfig merchant db =
     List.find (\<lambda>c. wc_merchant c = merchant \<and> wc_enabled c) (webhook_configs db)"

definition createDeliveryRecord ::
  "string \<Rightarrow> EventType \<Rightarrow> WebhookPayload \<Rightarrow> string \<Rightarrow> int \<Rightarrow> worker_db \<Rightarrow> nat \<times> worker_db" where
  "createDeliveryRecord merchant eventType payload url now db =
     (let i = next_delivery_id db;
          row = \<lparr>dv_id = i, dv_merchant = merchant, dv_event_type = eventType, dv_payload = payload, dv_url = url,
                 dv_attempt = 1, dv_status = WPending, dv_response_status = None, dv_response_body = None,
                 dv_error_message = None, dv_next_retry_at = None, dv_delivered_at = None, dv_created_at = now\<rparr>
      in (i, db\<lparr>webhook_deliveries := webhook_deliveries db @ [row], next_delivery_id := Suc i\<rparr>))"

definition updateDeliveryRecord ::
  "nat \<Rightarrow> nat \<Rightarrow> delivery_status \<Rightarrow> int option \<Rightarrow> string option \<Rightarrow> string option \<Rightarrow> int option \<Rightarrow> int
   \<Rightarrow> worker_db \<Rightarrow> worker_db" where
  "updateDeliveryRecord i attemptNumber st responseStatus responseBody errorMessage nextRetryAt now db =
     db\<lparr>webhook_deliveries := table_update (\<lambda>r. dv_id r = i)
         (\<lambda>r. r\<lparr>dv_attempt := attemptNumber, dv_status := st, dv_response_status := responseStatus,
               dv_response_body := responseBody, dv_error_message := errorMessage,
               dv_next_retry_at := nextRetryAt,
               dv_delivered_at := (if st = WDelivered then Some now else None)\<rparr>)
         (webhook_deliveries db)\<rparr>"

section \<open>Delivery\<close>

definition attemptDelivery ::
  "'w worker_env \<Rightarrow> nat \<Rightarrow> string \<Rightarrow> WebhookPayload \<Rightarrow> nat \<Rightarrow> int \<Rightarrow> worker_db \<times> 'w
   \<Rightarrow> DeliveryAttempt \<times> worker_db \<times> 'w" where
  "attemptDelivery env i url payload attemptNumber now = (\<lambda>(db, w).
     (let body = we_json env payload;
          (response, w') = we_http env url body (sign env body) w;
          responseStatus = (case response of Inl _ \<Rightarrow> None | Inr (code, _) \<Rightarrow> Some code);
          responseBody = (case response of Inl _ \<Rightarrow> None | Inr (_, text) \<Rightarrow> Some (take 4096 text));
          errorMessage = (case response of Inl msg \<Rightarrow> Some msg | Inr _ \<Rightarrow> None);
          success = (case response of Inl _ \<Rightarrow> False | Inr (code, _) \<Rightarrow> 200 \<le> code \<and> code < 300);
          isLastAttempt = (attemptNumber \<ge> WORKER_MAX_ATTEMPTS);
          st = (if success then WDelivered else if isLastAttempt then WDead else WPending);
          nextRetryAt = (if success \<or> isLastAttempt then None
             else Some (now + (if attemptNumber < length RETRY_DELAYS_MS then RETRY_DELAYS_MS ! attemptNumber
                               else last RETRY_DELAYS_MS)));
          db' = updateDeliveryRecord i attemptNumber st responseStatus responseBody errorMessage nextRetryAt now db
      in (\<lparr>da_deliveryId = i, da_attempt = attemptNumber, da_status = (if st = WPending then WFailed else st),
           da_responseStatus = responseStatus, da_responseBody = responseBody, da_errorMessage = errorMessage\<rparr>,
          db', w')))"

definition worker_enqueue ::
  "'w worker_env \<Rightarrow> DecodedEvent \<Rightarrow> int \<Rightarrow> worker_db \<times> 'w \<Rightarrow> worker_db \<times> 'w" where
  "worker_enqueue env event now = (\<lambda>(db, w).
     (case getMerchantWebhookConfig (de_merchant event) db of
        None \<Rightarrow> (db, w)
      | Some config \<Rightarrow>
          (let payload = \<lparr>wp_event_type = de_type event, wp_subscriber = de_subscriber event,
                          wp_merchant = de_merchant event, wp_amount = de_amount event,
                          wp_tx_hash = txHash event, wp_ledger_seq = ledgerSeq event,
                          wp_occurred_at = occurredAt event, wp_delivered_at = now\<rparr>;
               (i, db') = createDeliveryRecord (de_merchant event) (de_type event) payload (wc_url config) now db
           in snd (attemptDelivery env i (wc_url config) payload 1 now (db', w)))))"

definition due_deliveries :: "int \<Rightarrow> worker_db \<Rightarrow> delivery_row list" where
  "due_deliveries now db = take 50 (sort_key dv_created_at
     (filter (\<lambda>r. dv_status r = WPending \<and> (case dv_next_retry_at r of None \<Rightarrow> True | Some t \<Rightarrow> t \<le> now))
       (webhook_deliveries db)))"

definition processDueDeliveries :: "'w worker_env \<Rightarrow> int \<Rightarrow> worker_db \<times> 'w \<Rightarrow> worker_db \<times> 'w" where
  "processDueDeliveries env now = (\<lambda>(db, w).
     fold (\<lambda>r s. snd (attemptDelivery env (dv_id r) (dv_url r) (dv_payload r) (dv_attempt r) now s))
       (due_deliveries now db) (db, w))"

section \<open>Hexadecimal text\<close>

lemma hex_digit_char [simp]: "n < 16 \<Longrightarrow> hex_digit (hex_char n) = Some n"
  by (auto simp: hex_digit_def hex_char_def Let_def)

definition no_hex_start :: "string \<Rightarrow> bool" where
  "no_hex_start s = (case s of c # d # _ \<Rightarrow> hex_digit c = None \<or> hex_digit d = None | _ \<Rightarrow> True)"

lemma from_hex_stop: "no_hex_start s \<Longrightarrow> from_hex s = []"
  by (cases s rule: from_hex.cases) (auto simp: no_hex_start_def split: option.splits)

lemma from_to_hex:
  assumes "list_all (\<lambda>b. b < 256) bs" "no_hex_start junk"
  shows "from_hex (to_hex bs @ junk) = bs"
  using assms(1)
proof (induction bs)
  case Nil
  then show ?case using assms(2) by (simp add: to_hex_def from_hex_stop)
next
  case (Cons b bs)
  then have "b div 16 < 16" by auto
  then show ?case using Cons by (simp add: to_hex_def)
qed

text \<open>What is documented of the digest: 32 bytes as hexadecimal text.\<close>

definition hex_digests :: "(string \<Rightarrow> string \<Rightarrow> string) \<Rightarrow> bool" where
  "hex_digests hmac \<longleftrightarrow> (\<forall>k b. \<exists>bs. length bs = 32 \<and> list_all (\<lambda>x. x < 256) bs \<and> hmac k b = to_hex bs)"

lemma hex_digest_read:
  assumes "hex_digests hmac" "no_hex_start junk"
  shows "to_hex (from_hex (hmac k b @ junk)) = hmac k b" "hmac k b \<noteq> ''''" "from_hex (hmac k b @ junk) = from_hex (hmac k b)"
proof -
  obtain bs where "length bs = 32" "list_all (\<lambda>x. x < 256) bs" "hmac k b = to_hex bs"
    using assms(1) unfolding hex_digests_def by blast
  moreover have "no_hex_start []" by (simp add: no_hex_start_def)
  ultimately show "to_hex (from_hex (hmac k b @ junk)) = hmac k b" "hmac k b \<noteq> ''''"
      "from_hex (hmac k b @ junk) = from_hex (hmac k b)"
    using from_to_hex [of bs junk] from_to_hex [of bs "[]"] assms(2) by (auto simp: to_hex_def)
qed

section \<open>Steps of the worker\<close>

text \<open>The worker handles events and scans its table in any order, at any time, with any answers of the
  merchants' servers; merchants may change their configurations in between.\<close>

inductive ww_step :: "'w worker_env \<Rightarrow> worker_db \<times> 'w \<Rightarrow> worker_db \<times> 'w \<Rightarrow> bool" for env where
  ww_enqueue: "ww_step env s (worker_enqueue env event now s)"
| ww_process: "ww_step env s (processDueDeliveries env now s)"
| ww_config: "ww_step env (db, w) (db\<lparr>webhook_configs := cs\<rparr>, w')"

definition ww_init :: "worker_db \<times> 'w \<Rightarrow> bool" where
  "ww_init s \<longleftrightarrow> webhook_deliveries (fst s) = []"

definition first_attempt_only :: "delivery_row \<Rightarrow> bool" where
  "first_attempt_only r \<longleftrightarrow> dv_attempt r = 1 \<and> dv_status r \<in> {WPending, WDelivered}"

definition ww_invar :: "worker_db \<times> 'w \<Rightarrow> bool" where
  "ww_invar s \<longleftrightarrow> list_all first_attempt_only (webhook_deliveries (fst s))"

lemma attemptDelivery_db:
  assumes "attemptDelivery env i url p n now (db, w) = (da, db', w')"
  shows "\<exists>st rs rb em nr. db' = updateDeliveryRecord i n st rs rb em nr now db \<and> st \<in> {WPending, WDelivered, WDead} \<and>
    (n < WORKER_MAX_ATTEMPTS \<longrightarrow> st \<noteq> WDead)"
proof -
  obtain resp w1 where h: "we_http env url (we_json env p) (sign env (we_json env p)) w = (resp, w1)" by force
  let ?succ = "case resp of Inl _ \<Rightarrow> False | Inr (code, _) \<Rightarrow> 200 \<le> code \<and> code < 300"
  let ?st = "if ?succ then WDelivered else if n \<ge> WORKER_MAX_ATTEMPTS then WDead else WPending"
  let ?nr = "if ?succ \<or> n \<ge> WORKER_MAX_ATTEMPTS then None
     else Some (now + (if n < length RETRY_DELAYS_MS then RETRY_DELAYS_MS ! n else last RETRY_DELAYS_MS))"
  have "db' = updateDeliveryRecord i n ?st (case resp of Inl _ \<Rightarrow> None | Inr (code, _) \<Rightarrow> Some code)
      (case resp of Inl _ \<Rightarrow> None | Inr (_, text) \<Rightarrow> Some (take 4096 text))
      (case resp of Inl msg \<Rightarrow> Some msg | Inr _ \<Rightarrow> None) ?nr now db"
    using assms h by (simp add: attemptDelivery_def Let_def)
  moreover have "?st \<in> {WPending, WDelivered, WDead} \<and> (n < WORKER_MAX_ATTEMPTS \<longrightarrow> ?st \<noteq> WDead)" by simp
  ultimately show ?thesis by blast
qed

lemma attemptDelivery_invar:
  assumes "ww_invar s" "n = 1"
  shows "ww_invar (snd (attemptDelivery env i url p n now s))"
proof -
  obtain db w where s: "s = (db, w)" by (cases s)
  obtain da db' w' where a: "attemptDelivery env i url p n now (db, w) = (da, db', w')" by (metis prod.exhaust)
  then have res: "snd (attemptDelivery env i url p n now s) = (db', w')" by (simp add: s)
  from attemptDelivery_db [OF a] show ?thesis
    unfolding res using assms by (auto simp: s ww_invar_def list_all_iff updateDeliveryRecord_def table_update_def
        first_attempt_only_def WORKER_MAX_ATTEMPTS_def RETRY_DELAYS_MS_def)
qed

lemma fold_attempt_invar:
  assumes "ww_invar s" "list_all (\<lambda>r. dv_attempt r = 1) rs"
  shows "ww_invar (fold (\<lambda>r s. snd (attemptDelivery env (dv_id r) (dv_url r) (dv_payload r) (dv_attempt r) now s)) rs s)"
  using assms
proof (induction rs arbitrary: s)
  case (Cons r rs)
  have "ww_invar (snd (attemptDelivery env (dv_id r) (dv_url r) (dv_payload r) (dv_attempt r) now s))"
    using Cons.prems by (intro attemptDelivery_invar) auto
  from Cons.IH [OF this] show ?case using Cons.prems(2) by simp
qed simp

lemma due_subset: "set (due_deliveries now db) \<subseteq> set (webhook_deliveries db)"
  by (auto simp: due_deliveries_def dest: in_set_takeD)

lemma ww_invar_step: "ww_step env s t \<Longrightarrow> ww_invar s \<Longrightarrow> ww_invar t"
proof (induction rule: ww_step.induct)
  case (ww_enqueue s event now)
  obtain db w where s: "s = (db, w)" by (cases s)
  show ?case
  proof (cases "getMerchantWebhookConfig (de_merchant event) db")
    case None
    then show ?thesis using ww_enqueue by (simp add: s worker_enqueue_def)
  next
    case (Some c)
    have "ww_invar (snd (createDeliveryRecord m ty p u now db), w)" for m ty p u
      using ww_enqueue by (auto simp: s ww_invar_def createDeliveryRecord_def Let_def first_attempt_only_def)
    then show ?thesis using Some
      by (auto simp: s worker_enqueue_def Let_def createDeliveryRecord_def intro!: attemptDelivery_invar)
  qed
next
  case (ww_process s now)
  obtain db w where s: "s = (db, w)" by (cases s)
  have "list_all (\<lambda>r. dv_attempt r = 1) (due_deliveries now db)"
    using ww_process due_subset [of now db] by (auto simp: s ww_invar_def list_all_iff first_attempt_only_def)
  then show ?case using ww_process fold_attempt_invar [of "(db, w)"] by (simp add: s processDueDeliveries_def)
next
  case (ww_config db w cs w')
  then show ?case by (simp add: ww_invar_def)
qed

interpretation ww: inv_system ww_init "ww_step env" ww_invar for env
  by unfold_locales (simp_all add: ww_init_def ww_invar_def [of "(_, _)"] ww_invar_step, simp add: ww_invar_def)

section \<open>Properties\<close>

text \<open>With a secret set, and a digest that is 32 bytes in hexadecimal, \<^verbatim>\<open>verify\<close> accepts the signature
  that \<^verbatim>\<open>sign\<close> makes for the same body, and accepts it for another body only if the two digests are
  equal; it also accepts the signature with any text appended that does not go on with two
  hexadecimal digits, because \<^verbatim>\<open>Buffer.from\<close> stops reading there. Without a secret it accepts nothing.\<close>

theorem verify_signature:
  assumes "hex_digests (we_hmac env)" "we_secret env \<noteq> ''''" "no_hex_start junk"
  shows "verify env body (sign env body) \<and>
    (verify env body' (sign env body) \<longleftrightarrow> we_hmac env (we_secret env) body' = we_hmac env (we_secret env) body) \<and>
    verify env body (sign env body @ junk) \<and>
    \<not> verify (env\<lparr>we_secret := ''''\<rparr>) body sig"
proof -
  have nil: "no_hex_start []" by (simp add: no_hex_start_def)
  let ?h = "we_hmac env (we_secret env)"
  note r = hex_digest_read [OF assms(1), where k = "we_secret env"]
  have "from_hex (?h body') = from_hex (?h body) \<longleftrightarrow> ?h body' = ?h body"
    using r(1) [OF nil, of body'] r(1) [OF nil, of body] by (metis append_Nil2)
  then show ?thesis
    using assms(2) r(2) [OF nil] r(3) [OF assms(3), of body]
    by (auto simp: verify_def sign_def Let_def)
qed

definition demo_env :: "unit worker_env" where
  "demo_env = \<lparr>we_secret = ''k'', we_hmac = (\<lambda>k b. to_hex (replicate 32 (length b mod 256))),
     we_json = (\<lambda>p. wp_tx_hash p), we_http = (\<lambda>u b s w. (Inl ''refused'', w))\<rparr>"

lemma demo_env_digests: "hex_digests (we_hmac demo_env)"
  unfolding hex_digests_def demo_env_def
  by (auto intro!: exI [of _ "replicate 32 (length _ mod 256)"] simp: list_all_iff)

theorem verify_signature_witness:
  "verify demo_env ''abc'' (sign demo_env ''abc'' @ ''zz'')"
  using verify_signature [OF demo_env_digests, of "''zz''" "''abc''" "''abc''" "''''"]
  by (simp add: no_hex_start_def hex_digit_def demo_env_def)

text \<open>The scan passes the stored attempt number on without incrementing it, so in every state the
  worker can reach, every delivery is still at attempt 1 and is pending or delivered: however often a
  merchant's endpoint fails, no delivery ever becomes dead.\<close>

theorem deliveries_never_die:
  assumes "reach ww_init (ww_step env) s" "r \<in> set (webhook_deliveries (fst s))"
  shows "dv_attempt r = 1 \<and> dv_status r \<noteq> WDead"
  using ww.reach_invar [OF assms(1)] assms(2)
  by (auto simp: ww_invar_def list_all_iff first_attempt_only_def)

definition demo_decoded :: DecodedEvent where
  "demo_decoded = \<lparr>de_type = ExecutedEv, de_subscriber = ''S'', de_merchant = ''M'', de_amount = ''5'',
     txHash = ''h'', ledgerSeq = Some 7, occurredAt = 3\<rparr>"

definition demo_worker_db :: worker_db where
  "demo_worker_db = \<lparr>webhook_configs = [\<lparr>wc_merchant = ''M'', wc_url = ''http://m'', wc_secret = '''', wc_enabled = True\<rparr>],
     webhook_deliveries = [], next_delivery_id = 1\<rparr>"

definition demo_scans :: "worker_db \<times> unit" where
  "demo_scans = fold (processDueDeliveries demo_env) [20000, 40000, 60000, 80000]
     (worker_enqueue demo_env demo_decoded 0 (demo_worker_db, ()))"

lemma reach_scans:
  "reach ww_init (ww_step env) s \<Longrightarrow> reach ww_init (ww_step env) (fold (processDueDeliveries env) ts s)"
proof (induction ts arbitrary: s)
  case (Cons t ts)
  from reach_step [where step = "ww_step env", OF Cons.prems ww_process] show ?case using Cons.IH by simp
qed simp

lemma demo_scans_reach: "reach ww_init (ww_step demo_env) demo_scans"
proof -
  have "reach ww_init (ww_step demo_env) (demo_worker_db, ())"
    by (rule reach_init) (simp add: ww_init_def demo_worker_db_def)
  then have "reach ww_init (ww_step demo_env) (worker_enqueue demo_env demo_decoded 0 (demo_worker_db, ()))"
    by (rule reach_step) (rule ww_enqueue)
  then show ?thesis unfolding demo_scans_def by (rule reach_scans)
qed

theorem deliveries_never_die_witness:
  "map dv_attempt (webhook_deliveries (fst demo_scans)) = [1] \<and>
   list_all (\<lambda>r. dv_status r \<noteq> WDead) (webhook_deliveries (fst demo_scans))"
proof -
  have "length (webhook_deliveries (fst demo_scans)) = 1" by code_simp
  then obtain r where r: "webhook_deliveries (fst demo_scans) = [r]" by (auto simp: length_Suc_conv)
  then show ?thesis using deliveries_never_die [OF demo_scans_reach, of r] by simp
qed

text \<open>A server that keeps a log of the requests, whatever it answers.\<close>

definition logs_posts :: "(string \<times> string \<times> string) list worker_env \<Rightarrow> bool" where
  "logs_posts env \<longleftrightarrow> (\<forall>u b s w. snd (we_http env u b s w) = w @ [(u, b, s)])"

definition post_of :: "'w worker_env \<Rightarrow> delivery_row \<Rightarrow> string \<times> string \<times> string" where
  "post_of env r = (dv_url r, we_json env (dv_payload r), sign env (we_json env (dv_payload r)))"

lemma attemptDelivery_log:
  assumes "logs_posts env"
  shows "snd (snd (attemptDelivery env i u p n now s)) = snd s @ [(u, we_json env p, sign env (we_json env p))]"
  using assms by (auto simp: attemptDelivery_def Let_def logs_posts_def split: prod.splits) (metis snd_conv)

lemma attemptDelivery_keeps:
  assumes "r \<in> set (webhook_deliveries (fst s))" "dv_id r \<noteq> i"
  shows "r \<in> set (webhook_deliveries (fst (snd (attemptDelivery env i u p n now s))))"
proof -
  obtain db w where s: "s = (db, w)" by (cases s)
  obtain da db' w' where a: "attemptDelivery env i u p n now (db, w) = (da, db', w')" by (metis prod.exhaust)
  from attemptDelivery_db [OF a] show ?thesis using assms unfolding s a
    by (force simp: updateDeliveryRecord_def table_update_def)
qed

lemma fold_attempt_log:
  assumes "logs_posts env"
  shows "snd (fold (\<lambda>r s. snd (attemptDelivery env (dv_id r) (dv_url r) (dv_payload r) (dv_attempt r) now s)) rs s) =
    snd s @ map (post_of env) rs"
proof (induction rs arbitrary: s)
  case (Cons r rs)
  show ?case using Cons.IH [of "snd (attemptDelivery env (dv_id r) (dv_url r) (dv_payload r) (dv_attempt r) now s)"]
    by (simp add: attemptDelivery_log [OF assms] post_of_def)
qed simp

lemma fold_attempt_keeps:
  assumes "r \<in> set (webhook_deliveries (fst s))" "\<forall>r' \<in> set rs. dv_id r' \<noteq> dv_id r"
  shows "r \<in> set (webhook_deliveries (fst
    (fold (\<lambda>r s. snd (attemptDelivery env (dv_id r) (dv_url r) (dv_payload r) (dv_attempt r) now s)) rs s)))"
  using assms
proof (induction rs arbitrary: s)
  case (Cons r' rs)
  have "dv_id r \<noteq> dv_id r'" using Cons.prems(2) by auto
  from Cons.IH [OF attemptDelivery_keeps [OF Cons.prems(1) this]] show ?case using Cons.prems(2) by simp
qed simp

text \<open>One scan posts the oldest deliveries that are due, at most 50, exactly once, oldest first, each
  body with its signature; only pending deliveries whose retry time has come are posted, and every
  other row is left as it was, so a delivered webhook is never posted again.\<close>

theorem scan_posts_due_once:
  assumes "logs_posts env" "distinct (map dv_id (webhook_deliveries db))"
  shows "snd (processDueDeliveries env now (db, w)) = w @ map (post_of env) (due_deliveries now db) \<and>
    length (due_deliveries now db) \<le> 50 \<and>
    sorted (map dv_created_at (due_deliveries now db)) \<and>
    (\<forall>r \<in> set (due_deliveries now db). r \<in> set (webhook_deliveries db) \<and> dv_status r = WPending \<and>
       (\<forall>t. dv_next_retry_at r = Some t \<longrightarrow> t \<le> now)) \<and>
    (\<forall>r \<in> set (webhook_deliveries db) - set (due_deliveries now db).
       r \<in> set (webhook_deliveries (fst (processDueDeliveries env now (db, w)))))"
proof -
  have "r \<in> set (webhook_deliveries (fst (processDueDeliveries env now (db, w))))"
    if r: "r \<in> set (webhook_deliveries db) - set (due_deliveries now db)" for r
  proof -
    have "\<forall>r' \<in> set (due_deliveries now db). dv_id r' \<noteq> dv_id r"
      using r assms(2) due_subset [of now db] by (metis Diff_iff inj_onD distinct_map subsetD)
    then show ?thesis using r unfolding processDueDeliveries_def prod.case by (intro fold_attempt_keeps) auto
  qed
  moreover have "sorted (map dv_created_at (due_deliveries now db))"
    unfolding due_deliveries_def take_map [symmetric] by (intro sorted_wrt_take sorted_sort_key)
  moreover have "\<forall>r \<in> set (due_deliveries now db). r \<in> set (webhook_deliveries db) \<and> dv_status r = WPending \<and>
       (\<forall>t. dv_next_retry_at r = Some t \<longrightarrow> t \<le> now)"
    by (auto simp: due_deliveries_def dest!: in_set_takeD)
  moreover have "length (due_deliveries now db) \<le> 50" by (simp add: due_deliveries_def)
  moreover have "snd (processDueDeliveries env now (db, w)) = w @ map (post_of env) (due_deliveries now db)"
    using fold_attempt_log [OF assms(1)] by (simp add: processDueDeliveries_def)
  ultimately show ?thesis by blast
qed

definition demo_log_env :: "(string \<times> string \<times> string) list worker_env" where
  "demo_log_env = \<lparr>we_secret = '''', we_hmac = (\<lambda>k b. b), we_json = (\<lambda>p. wp_tx_hash p),
     we_http = (\<lambda>u b s w. (Inr (500, ''down''), w @ [(u, b, s)]))\<rparr>"

theorem scan_posts_due_once_witness:
  "snd (processDueDeliveries demo_log_env 20000
      (fst (worker_enqueue demo_log_env demo_decoded 0 (demo_worker_db, [])), [])) = [(''http://m'', ''h'', '''')]"
proof -
  let ?db = "fst (worker_enqueue demo_log_env demo_decoded 0 (demo_worker_db, []))"
  have "distinct (map dv_id (webhook_deliveries ?db))" by code_simp
  moreover have "logs_posts demo_log_env" by (simp add: logs_posts_def demo_log_env_def)
  moreover have "map (post_of demo_log_env) (due_deliveries 20000 ?db) = [(''http://m'', ''h'', '''')]" by code_simp
  ultimately show ?thesis using scan_posts_due_once [of demo_log_env ?db 20000 "[]"] by simp
qed

end
