(* ===== verification/Indexer_State.thy ===== *)
theory Indexer_State
  imports Prelude
begin

text \<open>
  The persisted state of the cursor-based indexer, \<^verbatim>\<open>backend/src/services/indexerStateService.ts\<close>
  (the singleton cursor row, checkpoints with checksums, processed-event marks with their in-memory
  cache) and the in-memory deduplicator \<^verbatim>\<open>backend/src/services/eventDeduplication.ts\<close>. SHA-256 is an
  argument: the checksum function of a call is a function from cursor and ledger to a text.
\<close>

section \<open>Cursor row\<close>

record IndexerStateRow =
  lastCursor :: "string option"
  lastProcessedLedger :: int

record CheckpointEntry =
  cp_sequence :: int
  cp_cursor :: string
  cp_ledger :: int
  cp_eventCount :: nat
  cp_checksum :: string

record state_db =
  sd_state :: "IndexerStateRow option"   \<comment> \<open>the row with id 1\<close>
  sd_checkpoints :: "CheckpointEntry list"
  sd_processed :: "(string \<times> int) list"

record state_service =
  ss_cache :: "string list"              \<comment> \<open>\<^verbatim>\<open>_processedEvents\<close>\<close>
  ss_db :: state_db

definition getLastCursor :: "state_db \<Rightarrow> string option" where
  "getLastCursor db = (case sd_state db of None \<Rightarrow> None | Some r \<Rightarrow> lastCursor r)"

definition getLastProcessedLedger :: "state_db \<Rightarrow> int" where
  "getLastProcessedLedger db = (case sd_state db of None \<Rightarrow> 0 | Some r \<Rightarrow> lastProcessedLedger r)"

definition saveState :: "string option \<Rightarrow> int \<Rightarrow> state_db \<Rightarrow> state_db" where
  "saveState c l db = db\<lparr>sd_state := Some \<lparr>lastCursor = c, lastProcessedLedger = l\<rparr>\<rparr>"

definition clearState :: "state_db \<Rightarrow> state_db" where
  "clearState db = db\<lparr>sd_state := None\<rparr>"

section \<open>Checkpoints\<close>

record CheckpointOptions =
  maxCheckpoints :: nat
  checksumFn :: "string \<Rightarrow> int \<Rightarrow> string"

definition saveCheckpoint ::
  "int \<Rightarrow> string \<Rightarrow> int \<Rightarrow> nat \<Rightarrow> CheckpointOptions \<Rightarrow> state_db \<Rightarrow> CheckpointEntry \<times> state_db" where
  "saveCheckpoint sequence cursor ledger eventCount opts db =
     (let entry = \<lparr>cp_sequence = sequence, cp_cursor = cursor, cp_ledger = ledger, cp_eventCount = eventCount,
                   cp_checksum = checksumFn opts cursor ledger\<rparr>;
          t = table_upsert (\<lambda>r. cp_sequence r = sequence) (\<lambda>_. entry) entry (sd_checkpoints db);
          total = length t;
          t' = (if total > maxCheckpoints opts then
                  (let oldest = take (total - maxCheckpoints opts) (sort_key cp_sequence t)
                   in if oldest \<noteq> [] then
                        (let minSequence = cp_sequence (last oldest) + 1
                         in filter (\<lambda>r. \<not> cp_sequence r < minSequence) t)
                      else t)
                else t)
      in (entry, db\<lparr>sd_checkpoints := t'\<rparr>))"

definition getCheckpoint :: "int \<Rightarrow> state_db \<Rightarrow> CheckpointEntry option" where
  "getCheckpoint sequence db = List.find (\<lambda>r. cp_sequence r = sequence) (sd_checkpoints db)"

definition listCheckpoints :: "state_db \<Rightarrow> CheckpointEntry list" where
  "listCheckpoints db = rev (sort_key cp_sequence (sd_checkpoints db))"

definition getLatestCheckpoint :: "state_db \<Rightarrow> CheckpointEntry option" where
  "getLatestCheckpoint db = (case listCheckpoints db of [] \<Rightarrow> None | r # _ \<Rightarrow> Some r)"

definition recoverFromCheckpoint ::
  "int option \<Rightarrow> (string \<Rightarrow> int \<Rightarrow> string) \<Rightarrow> state_db \<Rightarrow> (string \<times> int \<times> nat) option" where
  "recoverFromCheckpoint sequence csum db =
     (case (case sequence of Some n \<Rightarrow> getCheckpoint n db | None \<Rightarrow> getLatestCheckpoint db) of
        None \<Rightarrow> None
      | Some cp \<Rightarrow>
          if cp_checksum cp \<noteq> csum (cp_cursor cp) (cp_ledger cp) then None
          else Some (cp_cursor cp, cp_ledger cp, cp_eventCount cp))"

section \<open>Processed events\<close>

definition isDuplicateEvent :: "string \<Rightarrow> state_service \<Rightarrow> bool \<times> state_service" where
  "isDuplicateEvent eventId s =
     (if eventId \<in> set (ss_cache s) then (True, s)
      else (case map_of (sd_processed (ss_db s)) eventId of
              Some _ \<Rightarrow> (True, s\<lparr>ss_cache := List.insert eventId (ss_cache s)\<rparr>)
            | None \<Rightarrow> (False, s)))"

definition markEventProcessed :: "string \<Rightarrow> int \<Rightarrow> state_service \<Rightarrow> state_service" where
  "markEventProcessed eventId ledger s =
     (let db = ss_db s
      in s\<lparr>ss_cache := List.insert eventId (ss_cache s),
           ss_db := db\<lparr>sd_processed := table_insert_new (\<lambda>r. fst r = eventId) (eventId, ledger) (sd_processed db)\<rparr>\<rparr>)"

text \<open>A restart of the process: the cache is empty, the database stays.\<close>

definition restart_service :: "state_service \<Rightarrow> state_service" where
  "restart_service s = s\<lparr>ss_cache := []\<rparr>"

section \<open>EventDeduplicator\<close>

record PaymentEventRecord =
  pe_txHash :: string
  pe_ledger :: nat

record dedup_state =
  processedPayments :: "string list"
  processedGenericHashes :: "string list"
  dd_lastLedger :: nat
  dd_pagingToken :: string

definition dedup_reset :: "dedup_state \<Rightarrow> dedup_state" where
  "dedup_reset s = \<lparr>processedPayments = [], processedGenericHashes = [], dd_lastLedger = 0, dd_pagingToken = ''''\<rparr>"

definition naturalKey :: "PaymentEventRecord \<Rightarrow> string" where
  "naturalKey e = pe_txHash e @ '':'' @ nat_str (pe_ledger e)"

definition processPaymentEventAtomic ::
  "PaymentEventRecord \<Rightarrow> nat \<Rightarrow> string \<Rightarrow> dedup_state \<Rightarrow> bool \<times> dedup_state" where
  "processPaymentEventAtomic event ledger pagingToken s =
     (if naturalKey event \<in> set (processedPayments s) then (False, s)
      else (True, s\<lparr>processedPayments := naturalKey event # processedPayments s,
                    dd_lastLedger := ledger, dd_pagingToken := pagingToken\<rparr>))"

definition processGenericEventAtomic :: "string \<Rightarrow> nat \<Rightarrow> string \<Rightarrow> dedup_state \<Rightarrow> bool \<times> dedup_state" where
  "processGenericEventAtomic eventHash ledger pagingToken s =
     (if eventHash \<in> set (processedGenericHashes s) then (False, s)
      else (True, s\<lparr>processedGenericHashes := eventHash # processedGenericHashes s,
                    dd_lastLedger := ledger, dd_pagingToken := pagingToken\<rparr>))"

definition dedup_getCursor :: "dedup_state \<Rightarrow> nat \<times> string" where
  "dedup_getCursor s = (dd_lastLedger s, dd_pagingToken s)"

section \<open>Checkpoints are pruned to the newest\<close>

lemma sort_key_Nil_iff [simp]: "sort_key f t = [] \<longleftrightarrow> t = []"
  by (metis length_0_conv length_sort)

definition distinct_seqs :: "CheckpointEntry list \<Rightarrow> bool" where
  "distinct_seqs t \<longleftrightarrow> distinct (map cp_sequence t)"

lemma table_upsert_distinct:
  assumes "distinct_seqs t"
  shows "distinct_seqs (table_upsert (\<lambda>r. cp_sequence r = cp_sequence e) (\<lambda>_. e) e t)"
proof (cases "list_ex (\<lambda>r. cp_sequence r = cp_sequence e) t")
  case True
  have "map cp_sequence (table_update (\<lambda>r. cp_sequence r = cp_sequence e) (\<lambda>_. e) t) = map cp_sequence t"
    by (simp add: table_update_def)
  then show ?thesis using assms True by (simp add: table_upsert_def distinct_seqs_def)
next
  case False
  then show ?thesis using assms by (auto simp: table_upsert_def distinct_seqs_def list_ex_iff)
qed

lemma sorted_le_last: "sorted (map f xs) \<Longrightarrow> x \<in> set xs \<Longrightarrow> f x \<le> f (last xs)"
  by (induction xs) auto

text \<open>Cutting a table at the key of the last of its \<open>k\<close> smallest rows removes exactly those \<open>k\<close>.\<close>

lemma prune_oldest:
  assumes "distinct_seqs t" "0 < k" "k \<le> length t"
  shows "length (filter (\<lambda>r. \<not> cp_sequence r < cp_sequence (last (take k (sort_key cp_sequence t))) + 1) t) = length t - k"
    and "set (filter (\<lambda>r. \<not> cp_sequence r < cp_sequence (last (take k (sort_key cp_sequence t))) + 1) t) =
      set (drop k (sort_key cp_sequence t))"
proof -
  let ?s = "sort_key cp_sequence t"
  let ?c = "cp_sequence (last (take k ?s))"
  have d: "distinct (map cp_sequence ?s)"
    using assms(1) by (metis distinct_map distinct_sort distinct_seqs_def inj_on_cong set_sort)
  have srt: "sorted_wrt (<) (map cp_sequence ?s)"
    using d by (simp add: strict_sorted_iff)
  have app: "map cp_sequence ?s = map cp_sequence (take k ?s) @ map cp_sequence (drop k ?s)"
    by (metis append_take_drop_id map_append)
  have "length (take k ?s) = k" using assms(3) by simp
  then have ne: "take k ?s \<noteq> []" using assms(2) by auto
  have lt: "\<forall>x \<in> set (take k ?s). \<forall>y \<in> set (drop k ?s). cp_sequence x < cp_sequence y"
    using srt unfolding app sorted_wrt_append by auto
  have "sorted (map cp_sequence (take k ?s))" by (simp add: take_map [symmetric] sorted_wrt_take)
  then have le: "cp_sequence x \<le> ?c" if "x \<in> set (take k ?s)" for x using that by (rule sorted_le_last)
  have gt: "?c < cp_sequence y" if "y \<in> set (drop k ?s)" for y using lt that last_in_set [OF ne] by blast
  have f: "filter (\<lambda>r. \<not> cp_sequence r < ?c + 1) ?s = drop k ?s"
  proof -
    have "filter (\<lambda>r. \<not> cp_sequence r < ?c + 1) (take k ?s) = []" using le by (auto simp: filter_empty_conv)
    moreover have "filter (\<lambda>r. \<not> cp_sequence r < ?c + 1) (drop k ?s) = drop k ?s"
      unfolding filter_id_conv
    proof
      fix y assume "y \<in> set (drop k ?s)"
      from gt [OF this] show "\<not> cp_sequence y < ?c + 1" by simp
    qed
    ultimately show ?thesis by (metis append_Nil append_take_drop_id filter_append)
  qed
  have "length (filter (\<lambda>r. \<not> cp_sequence r < ?c + 1) t) = length (filter (\<lambda>r. \<not> cp_sequence r < ?c + 1) ?s)"
    by (metis filter_sort length_sort)
  then show "length (filter (\<lambda>r. \<not> cp_sequence r < ?c + 1) t) = length t - k"
    unfolding f by simp
  have "set (filter (\<lambda>r. \<not> cp_sequence r < ?c + 1) t) = set (filter (\<lambda>r. \<not> cp_sequence r < ?c + 1) ?s)" by simp
  then show "set (filter (\<lambda>r. \<not> cp_sequence r < ?c + 1) t) = set (drop k ?s)" by (simp only: f)
qed

definition upserted :: "CheckpointEntry \<Rightarrow> state_db \<Rightarrow> CheckpointEntry list" where
  "upserted e db = table_upsert (\<lambda>r. cp_sequence r = cp_sequence e) (\<lambda>_. e) e (sd_checkpoints db)"

lemma saveCheckpoint_newest:
  fixes opts db
  assumes "distinct_seqs (sd_checkpoints db)" "saveCheckpoint sq c l n opts db = (e, db')"
  shows "e = \<lparr>cp_sequence = sq, cp_cursor = c, cp_ledger = l, cp_eventCount = n, cp_checksum = checksumFn opts c l\<rparr>"
    and "distinct_seqs (sd_checkpoints db')"
    and "length (sd_checkpoints db') = min (maxCheckpoints opts) (length (upserted e db))"
    and "set (sd_checkpoints db') =
      set (drop (length (upserted e db) - maxCheckpoints opts) (sort_key cp_sequence (upserted e db)))"
proof -
  let ?e = "\<lparr>cp_sequence = sq, cp_cursor = c, cp_ledger = l, cp_eventCount = n, cp_checksum = checksumFn opts c l\<rparr>"
  show e: "e = ?e" using assms(2) by (simp add: saveCheckpoint_def Let_def)
  let ?t = "upserted e db"
  let ?k = "length ?t - maxCheckpoints opts"
  have d: "distinct_seqs ?t" unfolding upserted_def by (rule table_upsert_distinct) fact
  have t: "sd_checkpoints db' = (if 0 < ?k then
      (filter (\<lambda>r. \<not> cp_sequence r < cp_sequence (last (take ?k (sort_key cp_sequence ?t))) + 1) ?t) else ?t)"
    using assms(2) by (auto simp: saveCheckpoint_def Let_def upserted_def)
  have dd: "distinct_seqs (if 0 < ?k then filter P ?t else ?t)" for P
    using d by (simp add: distinct_seqs_def distinct_map_filter)
  show "distinct_seqs (sd_checkpoints db')" unfolding t by (rule dd)
  show "length (sd_checkpoints db') = min (maxCheckpoints opts) (length ?t)"
    unfolding t using prune_oldest(1) [OF d, of ?k] by auto
  show "set (sd_checkpoints db') = set (drop ?k (sort_key cp_sequence ?t))"
    unfolding t using prune_oldest(2) [OF d, of ?k] by auto
qed

lemma find_unique:
  assumes "distinct_seqs t" "e \<in> set t"
  shows "List.find (\<lambda>r. cp_sequence r = cp_sequence e) t = Some e"
  using assms by (induction t) (auto simp: distinct_seqs_def rev_image_eqI)

lemma latest_max:
  assumes "e \<in> set t" "\<forall>r \<in> set t. r \<noteq> e \<longrightarrow> cp_sequence r < cp_sequence e"
  shows "hd (rev (sort_key cp_sequence t)) = e"
proof -
  let ?s = "sort_key cp_sequence t"
  have ne: "?s \<noteq> []" using assms(1) by (metis empty_iff list.set(1) set_sort)
  have "last ?s \<in> set t" using last_in_set [OF ne] by simp
  moreover have "cp_sequence e \<le> cp_sequence (last ?s)"
    using assms(1) by (intro sorted_le_last) auto
  ultimately have "last ?s = e" using assms(2) by (metis not_le)
  then show ?thesis using ne by (simp add: hd_rev)
qed

lemma newest_kept:
  assumes "set t' = set (drop k (sort_key cp_sequence t))" "k < length t" "e \<in> set t"
    and "\<forall>r \<in> set t. r \<noteq> e \<longrightarrow> cp_sequence r < cp_sequence e"
  shows "e \<in> set t'" "\<And>r. r \<in> set t' \<Longrightarrow> r \<in> set t"
proof -
  let ?s = "sort_key cp_sequence t"
  have ne: "drop k ?s \<noteq> []" using assms(2) by simp
  have "?s \<noteq> []" using assms(2) by auto
  then have "last ?s = e" using latest_max [OF assms(3,4)] by (simp add: hd_rev)
  then have "last (drop k ?s) = e" using ne assms(2) by (simp add: last_drop)
  then show "e \<in> set t'" using assms(1) last_in_set [OF ne] by simp
  show "\<And>r. r \<in> set t' \<Longrightarrow> r \<in> set t" using assms(1) by (metis in_set_dropD set_sort)
qed

section \<open>Properties\<close>

text \<open>A checkpoint saved with a sequence number above all stored ones is the one that recovery finds,
  by its number and as the latest, with the cursor, ledger and event count that were saved; the table
  then holds no two checkpoints of one number and never more than \<^verbatim>\<open>maxCheckpoints\<close>. A checkpoint whose
  cursor or ledger was altered so that its checksum no longer fits is not recovered from.\<close>

theorem checkpoint_recovery:
  assumes "distinct_seqs (sd_checkpoints db)" "0 < maxCheckpoints opts"
    and "\<And>r. r \<in> set (sd_checkpoints db) \<Longrightarrow> cp_sequence r < sq"
    and "saveCheckpoint sq c l n opts db = (e, db')"
  shows "recoverFromCheckpoint None (checksumFn opts) db' = Some (c, l, n) \<and>
    recoverFromCheckpoint (Some sq) (checksumFn opts) db' = Some (c, l, n) \<and>
    distinct_seqs (sd_checkpoints db') \<and> length (sd_checkpoints db') \<le> maxCheckpoints opts \<and>
    (\<forall>csum. csum c l \<noteq> checksumFn opts c l \<longrightarrow> recoverFromCheckpoint None csum db' = None)"
proof -
  note sv = saveCheckpoint_newest [OF assms(1,4)]
  have "\<not> list_ex (\<lambda>r. cp_sequence r = cp_sequence e) (sd_checkpoints db)"
    using assms(3) sv(1) by (auto simp: list_ex_iff)
  then have up: "upserted e db = sd_checkpoints db @ [e]" by (simp add: upserted_def table_upsert_def)
  have lt: "\<forall>r \<in> set (upserted e db). r \<noteq> e \<longrightarrow> cp_sequence r < cp_sequence e"
    using assms(3) sv(1) up by auto
  have k: "length (upserted e db) - maxCheckpoints opts < length (upserted e db)" using assms(2) up by simp
  have e: "e \<in> set (upserted e db)" using up by simp
  note nk = newest_kept [OF sv(4) k e lt]
  have "hd (listCheckpoints db') = e"
    unfolding listCheckpoints_def by (rule latest_max [OF nk(1)]) (use lt nk(2) in blast)
  moreover have "listCheckpoints db' \<noteq> []"
    unfolding listCheckpoints_def using nk(1) by (metis empty_iff list.set(1) rev_is_Nil_conv set_sort)
  ultimately have latest: "getLatestCheckpoint db' = Some e"
    by (auto simp: getLatestCheckpoint_def split: list.splits)
  have "getCheckpoint sq db' = Some e"
    using find_unique [OF sv(2) nk(1)] sv(1) by (simp add: getCheckpoint_def)
  then show ?thesis
    using latest sv(1,2,3) by (auto simp: recoverFromCheckpoint_def)
qed

definition demo_opts :: CheckpointOptions where
  "demo_opts = \<lparr>maxCheckpoints = 1, checksumFn = (\<lambda>c l. c @ '':'' @ int_str l)\<rparr>"

definition demo_state :: state_db where
  "demo_state = \<lparr>sd_state = None, sd_checkpoints = [\<lparr>cp_sequence = 1, cp_cursor = ''a'', cp_ledger = 3,
     cp_eventCount = 0, cp_checksum = ''a:3''\<rparr>], sd_processed = []\<rparr>"

theorem checkpoint_recovery_witness:
  "recoverFromCheckpoint None (checksumFn demo_opts) (snd (saveCheckpoint 2 ''b'' 9 4 demo_opts demo_state)) = Some (''b'', 9, 4)"
proof -
  obtain e db' where s: "saveCheckpoint 2 ''b'' 9 4 demo_opts demo_state = (e, db')" by force
  have "distinct_seqs (sd_checkpoints demo_state)" by (simp add: demo_state_def distinct_seqs_def)
  then show ?thesis unfolding s
    using checkpoint_recovery [OF _ _ _ s] by (simp add: demo_state_def demo_opts_def)
qed

text \<open>The marks that a history of calls and restarts has made.\<close>

datatype mark_op = MarkOp string int | CheckOp string | RestartOp

fun run_marks :: "mark_op list \<Rightarrow> state_service \<Rightarrow> state_service" where
  "run_marks [] s = s"
| "run_marks (MarkOp e l # ops) s = run_marks ops (markEventProcessed e l s)"
| "run_marks (CheckOp e # ops) s = run_marks ops (snd (isDuplicateEvent e s))"
| "run_marks (RestartOp # ops) s = run_marks ops (restart_service s)"

definition marked :: "mark_op list \<Rightarrow> string set" where
  "marked ops = {e. \<exists>l. MarkOp e l \<in> set ops}"

definition service_of :: "state_service \<Rightarrow> string set \<Rightarrow> bool" where
  "service_of s M \<longleftrightarrow> dom (map_of (sd_processed (ss_db s))) = M \<and> set (ss_cache s) \<subseteq> M"

lemma dom_insert_new: "dom (map_of (table_insert_new (\<lambda>r. fst r = k) (k, v) t)) = insert k (dom (map_of t))"
proof (cases "k \<in> dom (map_of t)")
  case True
  then have "list_ex (\<lambda>r. fst r = k) t" unfolding dom_map_of_conv_image_fst list_ex_iff by auto
  then show ?thesis using True by (auto simp: table_insert_new_def)
next
  case False
  then have "\<not> list_ex (\<lambda>r. fst r = k) t" unfolding dom_map_of_conv_image_fst list_ex_iff by auto
  then show ?thesis by (simp add: table_insert_new_def dom_map_of_conv_image_fst)
qed

lemma service_of_mark: "service_of s M \<Longrightarrow> service_of (markEventProcessed e l s) (insert e M)"
  by (auto simp: service_of_def markEventProcessed_def Let_def dom_insert_new)

lemma service_of_check: "service_of s M \<Longrightarrow> service_of (snd (isDuplicateEvent e s)) M \<and> (fst (isDuplicateEvent e s) \<longleftrightarrow> e \<in> M)"
  by (auto simp: service_of_def isDuplicateEvent_def split: option.splits)

lemma run_marks_service: "service_of s M \<Longrightarrow> service_of (run_marks ops s) (M \<union> marked ops)"
proof (induction ops s arbitrary: M rule: run_marks.induct)
  case (2 e l ops s)
  have "insert e M \<union> marked ops = M \<union> marked (MarkOp e l # ops)" by (auto simp: marked_def)
  then show ?case using "2.IH" [OF service_of_mark [OF "2.prems", of e l]] by simp
next
  case (3 e ops s)
  from "3.IH" service_of_check [OF "3.prems"] show ?case by (simp add: marked_def)
next
  case (4 ops s)
  have "service_of (restart_service s) M" using "4.prems" by (simp add: service_of_def restart_service_def)
  from "4.IH" [OF this] show ?case by (simp add: marked_def)
qed (simp add: marked_def)

text \<open>Whatever calls and restarts came before, an event is reported as a duplicate exactly if it
  was marked as processed: the cache neither hides a mark that is only in the database nor invents
  one, and marks survive a restart.\<close>

theorem duplicate_iff_marked:
  "fst (isDuplicateEvent e (run_marks ops \<lparr>ss_cache = [], ss_db = \<lparr>sd_state = st, sd_checkpoints = cps, sd_processed = []\<rparr>\<rparr>))
     \<longleftrightarrow> (\<exists>l. MarkOp e l \<in> set ops)"
proof -
  let ?s = "\<lparr>ss_cache = [], ss_db = \<lparr>sd_state = st, sd_checkpoints = cps, sd_processed = []\<rparr>\<rparr>"
  have "service_of ?s {}" by (simp add: service_of_def)
  from service_of_check [OF run_marks_service [OF this]] show ?thesis by (auto simp: marked_def)
qed

end
