(* ===== verification/Event_Indexer.thy ===== *)
theory Event_Indexer
  imports Subscription_State Retry_Policy Reconciler Indexer_State
begin

text \<open>
  The cursor-based indexer with its transactional outbox, \<^verbatim>\<open>backend/src/services/eventIndexer.ts\<close>, on top
  of the state service, the subscription state machine, the backoff utility and the audit logger
  (\<^verbatim>\<open>backend/src/services/auditLogger.ts\<close>). The accessors of the Stellar SDK on an XDR value of type
  \<open>'v\<close> are arguments (\<open>None\<close> is an exception), and so are JSON texts, the RPC server, the caches and the
  mailer. The tables are those the code addresses. Database faults are an argument: which step of
  the processing of which event of a batch throws.
\<close>

section \<open>Data\<close>

record 'v sdk =
  sdk_sym :: "'v \<Rightarrow> string option"
  sdk_address :: "'v \<Rightarrow> string option"
  sdk_i128 :: "'v \<Rightarrow> string option"
  sdk_u64 :: "'v \<Rightarrow> string option"

record 'v rpc_event =
  re_topic :: "'v list option"
  re_value :: 'v
  re_ledger :: nat
  re_id :: string

record indexed_event =
  ie_type :: string
  ie_subscriber :: string
  ie_merchant :: string
  ie_token :: "string option"
  ie_amount :: "string option"
  ie_ledger :: nat
  ie_id :: string

record outbox_payload =
  op_eventType :: string
  op_subscriber :: string
  op_merchant :: string
  op_token :: string
  op_amount :: string
  op_ledger :: nat
  op_txHash :: string

datatype outbox_status = OPending | OPublished | OFail

record OutboxEventRecord =
  ob_id :: nat
  ob_aggregateType :: string
  ob_aggregateId :: string
  ob_eventType :: string
  ob_payload :: string
  ob_status :: outbox_status
  ob_deduplicationKey :: string
  ob_publishedAt :: "int option"

record AuditLogData =
  al_eventType :: string
  al_subscriber :: string
  al_merchant :: string
  al_token :: string
  al_amount :: string
  al_transactionHash :: string
  al_ledger :: nat

record payment_record =
  pr_subscriber :: string
  pr_merchant :: string
  pr_token :: string
  pr_amount :: string
  pr_txHash :: string
  pr_ledger :: nat
  pr_timestamp :: int
  pr_status :: string

record eidx_db =
  ei_events :: "event_row list"
  ei_outbox :: "OutboxEventRecord list"
  ei_audit :: "AuditLogData list"
  ei_payments :: "payment_record list"
  ei_subs :: subscription_table
  ei_state :: state_db

definition SUPPORTED_EVENT_TYPES :: "string list" where
  "SUPPORTED_EVENT_TYPES = [''subscribe'', ''executed'', ''payment_transfer_failure'', ''cancel'']"

definition STORED_EVENT_TYPES :: "string list" where
  "STORED_EVENT_TYPES = [''subscribe'', ''executed'']"

section \<open>Decoding\<close>

definition scValToSymbol :: "'v sdk \<Rightarrow> 'v \<Rightarrow> string option" where
  "scValToSymbol sdk v = sdk_sym sdk v"

definition scValToAddress :: "'v sdk \<Rightarrow> 'v \<Rightarrow> string option" where
  "scValToAddress sdk v = sdk_address sdk v"

definition scValToAmount :: "'v sdk \<Rightarrow> 'v \<Rightarrow> string option" where
  "scValToAmount sdk v = (case sdk_i128 sdk v of Some t \<Rightarrow> Some t | None \<Rightarrow> sdk_u64 sdk v)"

definition falsy :: "string option \<Rightarrow> bool" where
  "falsy s \<longleftrightarrow> s = None \<or> s = Some ''''"

definition or_empty :: "string option \<Rightarrow> string" where
  "or_empty s = (case s of None \<Rightarrow> '''' | Some t \<Rightarrow> t)"

text \<open>The early returns of \<^verbatim>\<open>processEvent\<close>: the fields of an event that is stored, or \<open>None\<close>.\<close>

definition decode_stored :: "'v sdk \<Rightarrow> 'v rpc_event \<Rightarrow> indexed_event option" where
  "decode_stored sdk ev =
     (case re_topic ev of
        None \<Rightarrow> None
      | Some topics \<Rightarrow>
          if length topics < 2 then None
          else (let eventType = scValToSymbol sdk (topics ! 0);
                    subscriber = scValToAddress sdk (topics ! 1);
                    merchant = (if length topics > 2 then scValToAddress sdk (topics ! 2) else None);
                    token = (if length topics > 3 then scValToAddress sdk (topics ! 3) else None);
                    amount = scValToAmount sdk (re_value ev)
                in if falsy eventType \<or> the eventType \<notin> set SUPPORTED_EVENT_TYPES then None
                   else if falsy subscriber \<or> falsy merchant then None
                   else if the eventType \<notin> set STORED_EVENT_TYPES then None
                   else Some \<lparr>ie_type = the eventType, ie_subscriber = the subscriber, ie_merchant = the merchant,
                          ie_token = token, ie_amount = amount, ie_ledger = re_ledger ev, ie_id = re_id ev\<rparr>))"

section \<open>Processing one event\<close>

definition row_of :: "indexed_event \<Rightarrow> event_row" where
  "row_of e = \<lparr>er_type = ie_type e, er_subscriber = ie_subscriber e, er_merchant = ie_merchant e,
     er_token = or_empty (ie_token e), er_amount = or_empty (ie_amount e), er_ledgerTimestamp = int (ie_ledger e)\<rparr>"

definition payload_of :: "indexed_event \<Rightarrow> outbox_payload" where
  "payload_of e = \<lparr>op_eventType = ie_type e, op_subscriber = ie_subscriber e, op_merchant = ie_merchant e,
     op_token = or_empty (ie_token e), op_amount = or_empty (ie_amount e), op_ledger = ie_ledger e, op_txHash = ie_id e\<rparr>"

definition outbox_of :: "(outbox_payload \<Rightarrow> string) \<Rightarrow> nat \<Rightarrow> indexed_event \<Rightarrow> OutboxEventRecord" where
  "outbox_of json i e = \<lparr>ob_id = i, ob_aggregateType = ''subscription'',
     ob_aggregateId = ie_subscriber e @ '':'' @ ie_merchant e, ob_eventType = ie_type e,
     ob_payload = json (payload_of e), ob_status = OPending, ob_deduplicationKey = ie_id e, ob_publishedAt = None\<rparr>"

text \<open>The transaction that stores an event and its outbox record together.\<close>

definition store_event :: "(outbox_payload \<Rightarrow> string) \<Rightarrow> indexed_event \<Rightarrow> eidx_db \<Rightarrow> eidx_db" where
  "store_event json e db =
     db\<lparr>ei_events := ei_events db @ [row_of e],
        ei_outbox := table_insert_new (\<lambda>o'. ob_deduplicationKey o' = ie_id e)
          (outbox_of json (Suc (length (ei_outbox db))) e) (ei_outbox db)\<rparr>"

definition state_event :: "string \<Rightarrow> SubscriptionEventType" where
  "state_event ty = (if ty = ''subscribe'' then Subscribe else if ty = ''executed'' then Executed
     else if ty = ''cancel'' then Cancel else Payment_transfer_failure)"

definition apply_to_state :: "indexed_event \<Rightarrow> eidx_db \<Rightarrow> eidx_db" where
  "apply_to_state e db =
     db\<lparr>ei_subs := snd (applyEvent (ie_subscriber e) (ie_merchant e) (state_event (ie_type e))
          \<lparr>ed_amount = Some (case ie_amount e of None \<Rightarrow> ''0'' | Some a \<Rightarrow> a), ed_token = Some (or_empty (ie_token e))\<rparr>
          (ei_subs db))\<rparr>"

definition logPayment :: "AuditLogData \<Rightarrow> AuditLogData list \<Rightarrow> AuditLogData list" where
  "logPayment d t = table_insert_new (\<lambda>r. al_transactionHash r = al_transactionHash d) d t"

definition audit_payment :: "indexed_event \<Rightarrow> eidx_db \<Rightarrow> eidx_db" where
  "audit_payment e db = db\<lparr>ei_audit := logPayment
     \<lparr>al_eventType = ie_type e, al_subscriber = ie_subscriber e, al_merchant = ie_merchant e,
      al_token = or_empty (ie_token e), al_amount = or_empty (ie_amount e), al_transactionHash = ie_id e,
      al_ledger = ie_ledger e\<rparr> (ei_audit db)\<rparr>"

definition store_payment :: "indexed_event \<Rightarrow> eidx_db \<Rightarrow> eidx_db" where
  "store_payment e db = db\<lparr>ei_payments := table_insert_new (\<lambda>r. pr_txHash r = ie_id e)
     \<lparr>pr_subscriber = ie_subscriber e, pr_merchant = ie_merchant e, pr_token = or_empty (ie_token e),
      pr_amount = or_empty (ie_amount e), pr_txHash = ie_id e, pr_ledger = ie_ledger e,
      pr_timestamp = int (ie_ledger e) * 1000, pr_status = ''executed''\<rparr> (ei_payments db)\<rparr>"

text \<open>\<open>flt k\<close> says that step \<open>k\<close> throws: the duplicate check (0), the transaction (1), the state machine
  (2), the audit log (3), the payment record (4). Every exception is caught and dropped.\<close>

definition processEvent ::
  "'v sdk \<Rightarrow> (outbox_payload \<Rightarrow> string) \<Rightarrow> (nat \<Rightarrow> bool) \<Rightarrow> 'v rpc_event \<Rightarrow> eidx_db \<Rightarrow> eidx_db" where
  "processEvent sdk json flt ev db =
     (case decode_stored sdk ev of
        None \<Rightarrow> db
      | Some e \<Rightarrow>
          if flt 0 then db
          else if row_of e \<notin> set (ei_events db) \<and> flt 1 then db
          else (let db1 = (if row_of e \<in> set (ei_events db) then db else store_event json e db)
                in if flt 2 then db1
                   else (let db2 = apply_to_state e db1
                         in if ie_type e \<noteq> ''executed'' then db2
                            else if flt 3 then db2
                            else (let db3 = audit_payment e db2
                                  in if flt 4 then db3 else store_payment e db3))))"

section \<open>Fetching a batch\<close>

record batch_request =
  br_cursor :: "string option"
  br_startLedger :: "int option"
  br_limit :: nat

text \<open>The environment of a poll: the server, and the faults of a batch, which depend on the state of the
  world when it is processed.\<close>

record ('v, 'w) indexer_env =
  en_getEvents :: "batch_request \<Rightarrow> 'w \<Rightarrow> (js_error + 'v rpc_event list) \<times> 'w"
  en_faults :: "'w \<Rightarrow> nat \<Rightarrow> nat \<Rightarrow> bool"
  en_saveFault :: "'w \<Rightarrow> js_error option"

fun process_batch ::
  "'v sdk \<Rightarrow> (outbox_payload \<Rightarrow> string) \<Rightarrow> (nat \<Rightarrow> nat \<Rightarrow> bool) \<Rightarrow> nat \<Rightarrow> 'v rpc_event list
   \<Rightarrow> string option \<times> int \<times> eidx_db \<Rightarrow> string option \<times> int \<times> eidx_db" where
  "process_batch sdk json flt n [] s = s"
| "process_batch sdk json flt n (ev # evs) (cursor, ledger, db) =
     process_batch sdk json flt (Suc n) evs
       (if re_id ev \<noteq> '''' then Some (re_id ev) else cursor,
        if int (re_ledger ev) > ledger then int (re_ledger ev) else ledger,
        processEvent sdk json (flt n) ev db)"

definition fetchBatch ::
  "'v sdk \<Rightarrow> (outbox_payload \<Rightarrow> string) \<Rightarrow> ('v, 'w) indexer_env \<Rightarrow> string option \<Rightarrow> int \<Rightarrow> eidx_db \<times> 'w
   \<Rightarrow> (js_error + unit) \<times> eidx_db \<times> 'w" where
  "fetchBatch sdk json env cursor lastLedger = (\<lambda>(db, w).
     (let request = (if \<not> falsy cursor
            then \<lparr>br_cursor = cursor, br_startLedger = None, br_limit = 100\<rparr>
            else \<lparr>br_cursor = None, br_startLedger = Some (max lastLedger 1), br_limit = 100\<rparr>)
      in case en_getEvents env request w of
           (Inl err, w') \<Rightarrow> (Inl err, db, w')
         | (Inr [], w') \<Rightarrow> (Inr (), db, w')
         | (Inr events, w') \<Rightarrow>
             (case process_batch sdk json (en_faults env w') 0 events (cursor, lastLedger, db) of
                (newCursor, newLedger, db') \<Rightarrow>
                  (case en_saveFault env w' of
                     Some err \<Rightarrow> (Inl err, db', w')
                   | None \<Rightarrow> (Inr (), db'\<lparr>ei_state := saveState newCursor newLedger (ei_state db')\<rparr>, w')))))"

definition poll_backoff :: BackoffOptions where
  "poll_backoff = default_backoff\<lparr>maxRetries := 5, baseDelayMs := 1000, maxDelayMs := 60000, isRetryable := Some isRpcRetryable\<rparr>"

definition fetchAndStoreEventsWithCursor ::
  "'v sdk \<Rightarrow> (outbox_payload \<Rightarrow> string) \<Rightarrow> ('v, 'w) indexer_env \<Rightarrow> (nat \<Rightarrow> rat) \<Rightarrow> eidx_db \<times> 'w
   \<Rightarrow> (js_error option + unit) \<times> retry_note list \<times> (eidx_db \<times> 'w)" where
  "fetchAndStoreEventsWithCursor sdk json env random s =
     (let cursor = getLastCursor (ei_state (fst s)); lastLedger = getLastProcessedLedger (ei_state (fst s))
      in withBackoff (fetchBatch sdk json env cursor lastLedger) poll_backoff random s)"

text \<open>The older entry point: one page from a ledger on, without a cursor.\<close>

definition fetchAndStoreEvents ::
  "'v sdk \<Rightarrow> (outbox_payload \<Rightarrow> string) \<Rightarrow> ('v, 'w) indexer_env \<Rightarrow> int option \<Rightarrow> eidx_db \<times> 'w
   \<Rightarrow> (js_error + unit) \<times> eidx_db \<times> 'w" where
  "fetchAndStoreEvents sdk json env startLedger = (\<lambda>(db, w).
     (case en_getEvents env \<lparr>br_cursor = None, br_startLedger = Some (case startLedger of None \<Rightarrow> 1 | Some l \<Rightarrow> l),
                             br_limit = 100\<rparr> w of
        (Inl err, w') \<Rightarrow> (Inl err, db, w')
      | (Inr events, w') \<Rightarrow> (Inr (), snd (snd (process_batch sdk json (en_faults env w') 0 events (None, 0, db))), w')))"

text \<open>The polling loops of the indexer and of the relay: a tick of a loop that is not stopped runs the
  cycle, whose errors are caught, and sets the timer for the next tick.\<close>

record polling =
  pl_stopped :: bool
  pl_timer :: bool

definition tick :: "('s \<Rightarrow> 's) \<Rightarrow> polling \<times> 's \<Rightarrow> polling \<times> 's" where
  "tick cycle = (\<lambda>(p, s). if pl_stopped p then (p, s) else (p\<lparr>pl_timer := True\<rparr>, cycle s))"

definition startPolling :: "('s \<Rightarrow> 's) \<Rightarrow> polling \<times> 's \<Rightarrow> polling \<times> 's" where
  "startPolling cycle = (\<lambda>(p, s). tick cycle (p\<lparr>pl_stopped := False\<rparr>, s))"

definition stopPolling :: "polling \<Rightarrow> polling" where
  "stopPolling p = p\<lparr>pl_stopped := True, pl_timer := False\<rparr>"

section \<open>The outbox relay\<close>

text \<open>Marking an outbox record is taken to succeed.\<close>

datatype effect =
    CacheDeletePattern string
  | PublishInvalidation string string string
  | PaymentFailureEmail string string string string
  | EnqueueRetries string string string string
  | CancellationEmail string string

text \<open>The environment of the relay: reading a payload, the patterns of the cache keys, and whether an
  effect succeeds given the effects before it.\<close>

record relay_env =
  rl_parse :: "string \<Rightarrow> outbox_payload option"
  rl_merchantPattern :: "string \<Rightarrow> string"
  rl_analyticsPattern :: "string \<Rightarrow> string"
  rl_subscriptionPattern :: "string \<Rightarrow> string \<Rightarrow> string"
  rl_ok :: "effect list \<Rightarrow> effect \<Rightarrow> bool"

definition cache_effects :: "relay_env \<Rightarrow> outbox_payload \<Rightarrow> effect list" where
  "cache_effects env p =
     [CacheDeletePattern (rl_merchantPattern env (op_merchant p)),
      CacheDeletePattern (rl_analyticsPattern env (op_merchant p)),
      CacheDeletePattern (rl_subscriptionPattern env (op_subscriber p) (op_merchant p)),
      PublishInvalidation (op_merchant p) (op_subscriber p) (op_eventType p)]"

definition notify_effects :: "outbox_payload \<Rightarrow> effect list" where
  "notify_effects p =
     (if op_eventType p = ''payment_transfer_failure'' then
        [PaymentFailureEmail (op_subscriber p) (op_merchant p) (op_amount p) (op_token p),
         EnqueueRetries (op_subscriber p) (op_merchant p) (op_amount p) (op_token p)]
      else []) @
     (if op_eventType p = ''cancel'' then [CancellationEmail (op_subscriber p) (op_merchant p)] else [])"

definition mark_outbox :: "nat \<Rightarrow> outbox_status \<Rightarrow> int option \<Rightarrow> OutboxEventRecord list \<Rightarrow> OutboxEventRecord list" where
  "mark_outbox i st pub t = table_update (\<lambda>o'. ob_id o' = i)
     (\<lambda>o'. o'\<lparr>ob_status := st, ob_publishedAt := (case pub of None \<Rightarrow> ob_publishedAt o' | Some t \<Rightarrow> Some t)\<rparr>) t"

text \<open>The four cache operations start together, so all of them are performed even if one fails; mails
  and retries catch their own errors.\<close>

definition dispatchOutboxEvent ::
  "relay_env \<Rightarrow> int \<Rightarrow> OutboxEventRecord \<Rightarrow> OutboxEventRecord list \<times> effect list \<Rightarrow> OutboxEventRecord list \<times> effect list" where
  "dispatchOutboxEvent env now rec = (\<lambda>(t, fx).
     (case rl_parse env (ob_payload rec) of
        None \<Rightarrow> (mark_outbox (ob_id rec) OFail None t, fx)
      | Some p \<Rightarrow>
          (let cs = cache_effects env p
           in if list_all (rl_ok env fx) cs
              then (mark_outbox (ob_id rec) OPublished (Some now) t, fx @ cs @ notify_effects p)
              else (mark_outbox (ob_id rec) OFail None t, fx @ cs))))"

definition processPendingEvents ::
  "relay_env \<Rightarrow> int \<Rightarrow> OutboxEventRecord list \<times> effect list \<Rightarrow> OutboxEventRecord list \<times> effect list" where
  "processPendingEvents env now = (\<lambda>(t, fx).
     fold (dispatchOutboxEvent env now) (filter (\<lambda>o'. ob_status o' = OPending) t) (t, fx))"

section \<open>Processing an event again\<close>

lemma keep_if_falsy_idem: "keep_if_falsy a (keep_if_falsy a b) = keep_if_falsy a b"
  by (auto simp: keep_if_falsy_def split: option.splits)

lemma table_update_idem: "(\<And>r. p r \<Longrightarrow> f (f r) = f r) \<Longrightarrow> table_update p f (table_update p f t) = table_update p f t"
  by (auto simp: table_update_def)

lemma table_upsert_idem:
  assumes "\<And>r. p r \<Longrightarrow> p (f r)" "\<And>r. p r \<Longrightarrow> f (f r) = f r" "p new" "f new = new"
  shows "table_upsert p f new (table_upsert p f new t) = table_upsert p f new t"
proof (cases "list_ex p t")
  case True
  then have "list_ex p (table_update p f t)" using assms(1) by (auto simp: list_ex_iff table_update_def)
  then show ?thesis using True table_update_idem [of p f t] assms(2) by (simp add: table_upsert_def)
next
  case False
  then have "table_update p f (t @ [new]) = t @ [new]"
    using assms(3,4) by (induction t) (auto simp: table_update_def)
  then show ?thesis using False assms(3) by (simp add: table_upsert_def)
qed

text \<open>A subscribe or executed event applied twice leaves the subscription as applied once.\<close>

lemma transition_again: "transition st e = Some st' \<Longrightarrow> e \<in> {Subscribe, Executed} \<Longrightarrow> transition st' e = Some st'"
  by (cases st; cases e) (auto simp: transition_def)

lemma applyEvent_again:
  assumes "e \<in> {Subscribe, Executed}"
  shows "snd (applyEvent s m e d (snd (applyEvent s m e d db))) = snd (applyEvent s m e d db)"
proof -
  let ?st = "case List.find (is_pair s m) db of None \<Rightarrow> ACTIVE | Some r \<Rightarrow> sr_status r"
  show ?thesis
  proof (cases "transition ?st e")
    case None
    then show ?thesis by (simp add: applyEvent_def Let_def)
  next
    case (Some st')
    let ?u = "table_upsert (is_pair s m) (updated_row d st') (created_row s m d st')"
    have one: "snd (applyEvent s m e d db) = ?u db" using Some by (simp add: applyEvent_def Let_def)
    have p: "is_pair s m (updated_row d st' r) = is_pair s m r" for r by (simp add: is_pair_def updated_row_def)
    have n: "is_pair s m (created_row s m d st')" by (simp add: is_pair_def created_row_def)
    have "List.find (is_pair s m) (?u db) = Some (case List.find (is_pair s m) db of
        None \<Rightarrow> created_row s m d st' | Some r \<Rightarrow> updated_row d st' r)"
      by (rule find_upsert_same) (auto simp: p n)
    then have "(case List.find (is_pair s m) (?u db) of None \<Rightarrow> ACTIVE | Some r \<Rightarrow> sr_status r) = st'"
      by (simp add: updated_row_def created_row_def split: option.splits)
    then have "snd (applyEvent s m e d (?u db)) = ?u (?u db)"
      using transition_again [OF Some assms] by (simp add: applyEvent_def Let_def)
    also have "\<dots> = ?u db"
      by (rule table_upsert_idem)
         (auto simp: p n, auto simp: updated_row_def created_row_def keep_if_falsy_def split: option.splits)
    finally show ?thesis by (simp add: one)
  qed
qed

lemma stored_type: "decode_stored sdk ev = Some e \<Longrightarrow> ie_type e \<in> {''subscribe'', ''executed''}"
  by (auto simp: decode_stored_def Let_def STORED_EVENT_TYPES_def split: option.splits if_splits)

lemma apply_to_state_again:
  assumes "ie_type e \<in> {''subscribe'', ''executed''}"
  shows "apply_to_state e (apply_to_state e db) = apply_to_state e db"
proof -
  have "state_event (ie_type e) \<in> {Subscribe, Executed}" using assms by (auto simp: state_event_def)
  then show ?thesis by (simp add: apply_to_state_def applyEvent_again)
qed

text \<open>The steps write different tables, so they commute with what they do not touch.\<close>

lemma step_simps [simp]:
  "ei_events (apply_to_state e db) = ei_events db" "ei_events (audit_payment e db) = ei_events db"
  "ei_events (store_payment e db) = ei_events db" "ei_outbox (apply_to_state e db) = ei_outbox db"
  "ei_outbox (audit_payment e db) = ei_outbox db" "ei_outbox (store_payment e db) = ei_outbox db"
  "ei_events (store_event json e db) = ei_events db @ [row_of e]"
  by (simp_all add: apply_to_state_def audit_payment_def store_payment_def store_event_def)

lemma step_comm:
  "apply_to_state e (audit_payment e db) = audit_payment e (apply_to_state e db)"
  "apply_to_state e (store_payment e db) = store_payment e (apply_to_state e db)"
  "audit_payment e (store_payment e db) = store_payment e (audit_payment e db)"
  by (simp_all add: apply_to_state_def audit_payment_def store_payment_def)

lemma audit_again: "audit_payment e (audit_payment e db) = audit_payment e db"
  by (simp add: audit_payment_def logPayment_def)

lemma store_payment_again: "store_payment e (store_payment e db) = store_payment e db"
  by (simp add: store_payment_def)

lemmas redo_simps = step_comm audit_again store_payment_again

section \<open>Properties\<close>

text \<open>C7: Processing is safe to repeat: whatever step failed when an event was processed, processing it
  again without a failure leaves all tables exactly as one failure-free processing would have, with
  no second event, outbox, audit or payment row.\<close>

theorem processEvent_repeatable:
  "processEvent sdk json (\<lambda>_. False) ev (processEvent sdk json flt ev db) = processEvent sdk json (\<lambda>_. False) ev db"
proof (cases "decode_stored sdk ev")
  case None
  then show ?thesis by (simp add: processEvent_def)
next
  case (Some e)
  note ty = apply_to_state_again [OF stored_type [OF Some]]
  show ?thesis
    by (cases "flt 0"; cases "flt 1"; cases "flt 2"; cases "flt 3"; cases "flt 4"; cases "row_of e \<in> set (ei_events db)")
       (simp_all add: processEvent_def Some Let_def ty redo_simps)
qed

text \<open>But it is not repeated: a batch whose events all fail to be stored counts as processed. The
  call succeeds, no event is in any table, and the saved cursor is past the whole batch.\<close>

theorem failed_events_are_skipped:
  assumes "en_getEvents env (if \<not> falsy cursor then \<lparr>br_cursor = cursor, br_startLedger = None, br_limit = 100\<rparr>
        else \<lparr>br_cursor = None, br_startLedger = Some (max lastLedger 1), br_limit = 100\<rparr>) w = (Inr events, w')"
    and "events \<noteq> []" "re_id (last events) \<noteq> ''''" "en_saveFault env w' = None" "\<And>n. en_faults env w' n 0"
  shows "\<exists>db'. fetchBatch sdk json env cursor lastLedger (db, w) = (Inr (), db', w') \<and>
    getLastCursor (ei_state db') = Some (re_id (last events)) \<and>
    ei_events db' = ei_events db \<and> ei_outbox db' = ei_outbox db \<and> ei_payments db' = ei_payments db \<and>
    ei_subs db' = ei_subs db"
proof -
  have skip: "processEvent sdk json (en_faults env w' n) ev db = db" for n ev
    using assms(5) by (auto simp: processEvent_def split: option.splits)
  have "\<exists>l. process_batch sdk json (en_faults env w') n evs (c, l0, db) = (Some (re_id (last evs)), l, db)"
    if "evs \<noteq> []" "re_id (last evs) \<noteq> ''''" for n evs c l0
    using that by (induction evs arbitrary: n c l0) (auto simp: skip split: if_splits)
  from this [OF assms(2,3)] obtain l where
    "process_batch sdk json (en_faults env w') 0 events (cursor, lastLedger, db) = (Some (re_id (last events)), l, db)" by blast
  then show ?thesis using assms(1,2,4)
    by (cases events) (auto simp: fetchBatch_def Let_def getLastCursor_def saveState_def split: if_splits)
qed

definition demo_sdk :: "string sdk" where
  "demo_sdk = \<lparr>sdk_sym = Some, sdk_address = Some, sdk_i128 = Some, sdk_u64 = (\<lambda>_. None)\<rparr>"

definition demo_rpc_event :: "string \<Rightarrow> string \<Rightarrow> string rpc_event" where
  "demo_rpc_event i ty = \<lparr>re_topic = Some [ty, ''S'', ''M'', ''T''], re_value = ''5'', re_ledger = 9, re_id = i\<rparr>"

definition empty_eidx :: eidx_db where
  "empty_eidx = \<lparr>ei_events = [], ei_outbox = [], ei_audit = [], ei_payments = [], ei_subs = [],
     ei_state = \<lparr>sd_state = None, sd_checkpoints = [], sd_processed = []\<rparr>\<rparr>"

definition demo_indexer_env :: "(string, unit) indexer_env" where
  "demo_indexer_env = \<lparr>en_getEvents = (\<lambda>rq w. (Inr [demo_rpc_event ''e1'' ''executed''], w)),
     en_faults = (\<lambda>w n k. k = 0), en_saveFault = (\<lambda>w. None)\<rparr>"

theorem failed_events_are_skipped_witness:
  "\<exists>db'. fetchBatch demo_sdk (\<lambda>p. op_txHash p) demo_indexer_env None 0 (empty_eidx, ()) = (Inr (), db', ()) \<and>
     getLastCursor (ei_state db') = Some ''e1'' \<and> ei_events db' = []"
  using failed_events_are_skipped [of demo_indexer_env None 0 "()" "[demo_rpc_event ''e1'' ''executed'']" "()"
      demo_sdk "\<lambda>p. op_txHash p" empty_eidx]
  by (auto simp: demo_indexer_env_def falsy_def demo_rpc_event_def empty_eidx_def)

section \<open>Events and their outbox records\<close>

text \<open>The indexer processes events of a log in which an id stands for one event, in any order, any
  number of times, with any faults; the relay runs in between.\<close>

record eidx_system =
  es_db :: eidx_db
  es_effects :: "effect list"

inductive ei_step ::
  "'v sdk \<Rightarrow> (outbox_payload \<Rightarrow> string) \<Rightarrow> relay_env \<Rightarrow> (string \<Rightarrow> 'v rpc_event) \<Rightarrow> eidx_system \<Rightarrow> eidx_system \<Rightarrow> bool"
  for sdk json env lg where
  ei_process: "re_id (lg i) = i \<Longrightarrow>
    ei_step sdk json env lg s (s\<lparr>es_db := processEvent sdk json flt (lg i) (es_db s)\<rparr>)"
| ei_relay: "processPendingEvents env now (ei_outbox (es_db s), es_effects s) = (t, fx) \<Longrightarrow>
    ei_step sdk json env lg s (s\<lparr>es_db := (es_db s)\<lparr>ei_outbox := t\<rparr>, es_effects := fx\<rparr>)"

definition ei_init :: "eidx_system \<Rightarrow> bool" where
  "ei_init s \<longleftrightarrow> s = \<lparr>es_db = empty_eidx, es_effects = []\<rparr>"

definition records ::
  "'v sdk \<Rightarrow> (outbox_payload \<Rightarrow> string) \<Rightarrow> (string \<Rightarrow> 'v rpc_event) \<Rightarrow> OutboxEventRecord \<Rightarrow> event_row \<Rightarrow> bool" where
  "records sdk json lg o' row \<longleftrightarrow> (\<exists>e. decode_stored sdk (lg (ob_deduplicationKey o')) = Some e \<and>
     row = row_of e \<and> ob_payload o' = json (payload_of e) \<and> ob_eventType o' = ie_type e)"

definition quiet_effect :: "effect \<Rightarrow> bool" where
  "quiet_effect x = (case x of CacheDeletePattern _ \<Rightarrow> True | PublishInvalidation _ _ _ \<Rightarrow> True | _ \<Rightarrow> False)"

definition ei_invar ::
  "'v sdk \<Rightarrow> (outbox_payload \<Rightarrow> string) \<Rightarrow> (string \<Rightarrow> 'v rpc_event) \<Rightarrow> eidx_system \<Rightarrow> bool" where
  "ei_invar sdk json lg s \<longleftrightarrow>
     list_all2 (records sdk json lg) (ei_outbox (es_db s)) (ei_events (es_db s)) \<and>
     distinct (ei_events (es_db s)) \<and> distinct (map ob_deduplicationKey (ei_outbox (es_db s))) \<and>
     list_all quiet_effect (es_effects s)"

lemma list_all2_member: "list_all2 P xs ys \<Longrightarrow> x \<in> set xs \<Longrightarrow> \<exists>y \<in> set ys. P x y"
  by (induction rule: list_all2_induct) auto

lemma decode_stored_id: "decode_stored sdk ev = Some e \<Longrightarrow> ie_id e = re_id ev"
  by (auto simp: decode_stored_def Let_def split: option.splits if_splits)

lemma records_outbox_of: "decode_stored sdk (lg (ie_id e)) = Some e \<Longrightarrow> records sdk json lg (outbox_of json n e) (row_of e)"
  by (auto simp: records_def outbox_of_def)

lemma records_key:
  assumes "records sdk json lg o' row" "decode_stored sdk (lg (ob_deduplicationKey o')) = Some e"
  shows "row = row_of e"
  using assms by (auto simp: records_def)

lemma processEvent_tables:
  "(ei_events (processEvent sdk json flt ev db) = ei_events db \<and> ei_outbox (processEvent sdk json flt ev db) = ei_outbox db) \<or>
   (\<exists>e. decode_stored sdk ev = Some e \<and> row_of e \<notin> set (ei_events db) \<and>
     ei_events (processEvent sdk json flt ev db) = ei_events db @ [row_of e] \<and>
     ei_outbox (processEvent sdk json flt ev db) = ei_outbox (store_event json e db))"
  by (cases "decode_stored sdk ev") (auto simp: processEvent_def Let_def)

lemma ei_invar_process:
  assumes "ei_invar sdk json lg s" "re_id (lg i) = i"
  shows "ei_invar sdk json lg (s\<lparr>es_db := processEvent sdk json flt (lg i) (es_db s)\<rparr>)"
  using processEvent_tables [of sdk json flt "lg i" "es_db s"]
proof (elim disjE exE conjE)
  assume "ei_events (processEvent sdk json flt (lg i) (es_db s)) = ei_events (es_db s)"
    and "ei_outbox (processEvent sdk json flt (lg i) (es_db s)) = ei_outbox (es_db s)"
  then show ?thesis using assms(1) by (simp add: ei_invar_def)
next
  fix e
  assume e: "decode_stored sdk (lg i) = Some e" "row_of e \<notin> set (ei_events (es_db s))"
    and t: "ei_events (processEvent sdk json flt (lg i) (es_db s)) = ei_events (es_db s) @ [row_of e]"
      "ei_outbox (processEvent sdk json flt (lg i) (es_db s)) = ei_outbox (store_event json e (es_db s))"
  have i: "ie_id e = i" using decode_stored_id [OF e(1)] assms(2) by simp
  have new: "\<not> list_ex (\<lambda>o'. ob_deduplicationKey o' = ie_id e) (ei_outbox (es_db s))"
  proof
    assume "list_ex (\<lambda>o'. ob_deduplicationKey o' = ie_id e) (ei_outbox (es_db s))"
    then obtain o' where o': "o' \<in> set (ei_outbox (es_db s))" "ob_deduplicationKey o' = i" by (auto simp: list_ex_iff i)
    have "list_all2 (records sdk json lg) (ei_outbox (es_db s)) (ei_events (es_db s))"
      using assms(1) by (simp add: ei_invar_def)
    from list_all2_member [OF this o'(1)] obtain row
      where row: "row \<in> set (ei_events (es_db s))" "records sdk json lg o' row" ..
    have "row = row_of e" by (rule records_key [OF row(2)]) (simp add: o'(2) e(1))
    then show False using row(1) e(2) by simp
  qed
  have ob: "ei_outbox (store_event json e (es_db s)) =
      ei_outbox (es_db s) @ [outbox_of json (Suc (length (ei_outbox (es_db s)))) e]"
    using new by (simp add: store_event_def table_insert_new_def)
  let ?o = "outbox_of json (Suc (length (ei_outbox (es_db s)))) e"
  have inv: "list_all2 (records sdk json lg) (ei_outbox (es_db s)) (ei_events (es_db s))" "distinct (ei_events (es_db s))"
    "distinct (map ob_deduplicationKey (ei_outbox (es_db s)))" "list_all quiet_effect (es_effects s)"
    using assms(1) unfolding ei_invar_def by blast+
  have rec: "records sdk json lg ?o (row_of e)" by (rule records_outbox_of) (simp add: i e(1))
  have "list_all2 (records sdk json lg) (ei_outbox (es_db s) @ [?o]) (ei_events (es_db s) @ [row_of e])"
    by (rule list_all2_appendI [OF inv(1)]) (simp add: rec)
  moreover have "ob_deduplicationKey ?o \<notin> set (map ob_deduplicationKey (ei_outbox (es_db s)))"
    using new by (auto simp: list_ex_iff outbox_of_def)
  then have "distinct (map ob_deduplicationKey (ei_outbox (es_db s) @ [?o]))" using inv(3) by simp
  moreover have "distinct (ei_events (es_db s) @ [row_of e])" using inv(2) e(2) by simp
  ultimately show ?thesis using inv(4) by (simp add: ei_invar_def t ob)
qed

text \<open>The relay changes statuses only, and performs cache effects only as long as all recorded events
  are subscribe and executed events.\<close>

definition same_records :: "OutboxEventRecord list \<Rightarrow> OutboxEventRecord list \<Rightarrow> bool" where
  "same_records t t' \<longleftrightarrow>
     map (\<lambda>o'. (ob_id o', ob_deduplicationKey o', ob_payload o', ob_eventType o')) t =
     map (\<lambda>o'. (ob_id o', ob_deduplicationKey o', ob_payload o', ob_eventType o')) t'"

lemma same_records_mark: "same_records t (mark_outbox i st p t)"
  by (simp add: same_records_def mark_outbox_def table_update_def)

lemma same_records_trans: "same_records t u \<Longrightarrow> same_records u v \<Longrightarrow> same_records t v"
  by (simp add: same_records_def)

lemma same_recordsD:
  assumes "same_records t t'"
  shows "map ob_deduplicationKey t = map ob_deduplicationKey t'"
    and "list_all2 (records sdk json lg) t rows = list_all2 (records sdk json lg) t' rows"
proof -
  let ?f = "\<lambda>o'. (ob_id o', ob_deduplicationKey o', ob_payload o', ob_eventType o')"
  let ?g = "\<lambda>x row. \<exists>e. decode_stored sdk (lg (fst (snd x))) = Some e \<and> row = row_of e \<and>
    fst (snd (snd x)) = json (payload_of e) \<and> snd (snd (snd x)) = ie_type e"
  have m: "map ?f t = map ?f t'" using assms by (simp add: same_records_def)
  from arg_cong [OF this, of "map (fst \<circ> snd)"] show "map ob_deduplicationKey t = map ob_deduplicationKey t'"
    by (simp add: comp_def)
  have "records sdk json lg = (\<lambda>o'. ?g (?f o'))" by (intro ext) (simp add: records_def)
  then have "list_all2 (records sdk json lg) u rows = list_all2 ?g (map ?f u) rows" for u
    by (simp only: list_all2_map1)
  then show "list_all2 (records sdk json lg) t rows = list_all2 (records sdk json lg) t' rows" by (simp only: m)
qed

lemma dispatch_facts:
  assumes "dispatchOutboxEvent env now r (t, fx) = (t', fx')"
  shows "same_records t t'"
    and "(\<forall>p. rl_parse env (ob_payload r) = Some p \<longrightarrow> notify_effects p = []) \<Longrightarrow> list_all quiet_effect fx \<Longrightarrow>
      list_all quiet_effect fx'"
    and "\<exists>st p. st \<noteq> OPending \<and> t' = mark_outbox (ob_id r) st p t"
proof -
  have cs: "list_all quiet_effect (cache_effects env p)" for p by (simp add: cache_effects_def quiet_effect_def)
  show "\<exists>st p. st \<noteq> OPending \<and> t' = mark_outbox (ob_id r) st p t"
    using assms by (force simp: dispatchOutboxEvent_def Let_def split: option.splits if_splits)
  then show "same_records t t'" using same_records_mark by auto
  show "list_all quiet_effect fx'"
    if "\<forall>p. rl_parse env (ob_payload r) = Some p \<longrightarrow> notify_effects p = []" "list_all quiet_effect fx"
    using assms that cs by (auto simp: dispatchOutboxEvent_def Let_def split: option.splits if_splits)
qed

lemma fold_dispatch_facts:
  assumes "fold (dispatchOutboxEvent env now) rs (t, fx) = (t', fx')"
  shows "same_records t t'"
    and "(\<forall>r \<in> set rs. \<forall>p. rl_parse env (ob_payload r) = Some p \<longrightarrow> notify_effects p = []) \<Longrightarrow> list_all quiet_effect fx
      \<Longrightarrow> list_all quiet_effect fx'"
  using assms
proof (induction rs arbitrary: t fx)
  case Nil
  { case 1 then show ?case by (simp add: same_records_def) }
  { case 2 then show ?case by simp }
next
  case (Cons r rs)
  { case 1
    obtain t1 fx1 where d: "dispatchOutboxEvent env now r (t, fx) = (t1, fx1)" by force
    then have "fold (dispatchOutboxEvent env now) rs (t1, fx1) = (t', fx')" using 1 by simp
    from same_records_trans [OF dispatch_facts(1) [OF d] Cons.IH(1) [OF this]] show ?case . }
  { case 2
    obtain t1 fx1 where d: "dispatchOutboxEvent env now r (t, fx) = (t1, fx1)" by force
    then have "fold (dispatchOutboxEvent env now) rs (t1, fx1) = (t', fx')" using 2 by simp
    then show ?case using Cons.IH(2) [of fx1 t1] dispatch_facts(2) [OF d] 2 by simp }
qed

lemma ei_invar_relay:
  assumes inv: "ei_invar sdk json lg s" and parse: "\<And>p. rl_parse env (json p) = Some p"
    and r: "processPendingEvents env now (ei_outbox (es_db s), es_effects s) = (t, fx)"
  shows "ei_invar sdk json lg (s\<lparr>es_db := (es_db s)\<lparr>ei_outbox := t\<rparr>, es_effects := fx\<rparr>)"
proof -
  let ?t = "ei_outbox (es_db s)"
  have f: "fold (dispatchOutboxEvent env now) (filter (\<lambda>o'. ob_status o' = OPending) ?t) (?t, es_effects s) = (t, fx)"
    using r by (simp add: processPendingEvents_def)
  have outs: "list_all2 (records sdk json lg) ?t (ei_events (es_db s))" using inv by (simp add: ei_invar_def)
  have "notify_effects p = []" if o': "o' \<in> set ?t" and pr: "rl_parse env (ob_payload o') = Some p" for o' p
  proof -
    obtain row where "records sdk json lg o' row" using list_all2_member [OF outs o'] by blast
    then obtain e where "decode_stored sdk (lg (ob_deduplicationKey o')) = Some e" "ob_payload o' = json (payload_of e)"
      by (auto simp: records_def)
    then show ?thesis using stored_type pr parse by (fastforce simp: notify_effects_def payload_of_def)
  qed
  then have "list_all quiet_effect fx"
    using fold_dispatch_facts(2) [OF f] inv by (auto simp: ei_invar_def)
  moreover note same = fold_dispatch_facts(1) [OF f]
  have "list_all2 (records sdk json lg) t (ei_events (es_db s))" using outs same_recordsD(2) [OF same] by blast
  moreover have "distinct (map ob_deduplicationKey t)" using inv same_recordsD(1) [OF same] by (simp add: ei_invar_def)
  moreover have "distinct (ei_events (es_db s))" using inv by (simp add: ei_invar_def)
  ultimately show ?thesis by (simp add: ei_invar_def)
qed

text \<open>What JSON promises: a text that was written is read back as it was.\<close>

definition json_ok :: "(outbox_payload \<Rightarrow> string) \<Rightarrow> relay_env \<Rightarrow> bool" where
  "json_ok json env \<longleftrightarrow> (\<forall>p. rl_parse env (json p) = Some p)"

lemma ei_reach_invar:
  assumes "json_ok json env" "reach ei_init (ei_step sdk json env lg) s"
  shows "ei_invar sdk json lg s"
  using assms(2)
proof (induction rule: reach.induct)
  case (reach_init s)
  then show ?case by (simp add: ei_init_def ei_invar_def empty_eidx_def)
next
  case (reach_step s t)
  from reach_step.hyps(2) show ?case
  proof cases
    case (ei_process i flt)
    then show ?thesis using ei_invar_process [OF reach_step.IH] by simp
  next
    case (ei_relay now t' fx)
    then show ?thesis using ei_invar_relay [OF reach_step.IH _ ei_relay(2)] assms(1) by (simp add: json_ok_def)
  qed
qed

text \<open>C6: Stored events and outbox records correspond one to one, in order: in every state reached by processing
  the events of a log, in any order and with any repetitions and faults, and by running the relay, the n-th outbox
  record was written for the n-th stored event, with its type and payload, and there are as many of the one as of
  the other; no event is stored twice, and no two outbox records have the same deduplication key.\<close>

theorem outbox_matches_events:
  assumes "json_ok json env" "reach ei_init (ei_step sdk json env lg) s"
  shows "list_all2 (records sdk json lg) (ei_outbox (es_db s)) (ei_events (es_db s)) \<and>
    distinct (ei_events (es_db s)) \<and> distinct (map ob_deduplicationKey (ei_outbox (es_db s)))"
  using ei_reach_invar [OF assms] by (simp add: ei_invar_def)

text \<open>A codec with the promised round trip: every character of a field behind a dot, a semicolon after
  the field.\<close>

definition enc_field :: "string \<Rightarrow> string" where
  "enc_field f = concat (map (\<lambda>c. [CHR ''.'', c]) f) @ '';''"

fun dec_field :: "string \<Rightarrow> (string \<times> string) option" where
  "dec_field (x # c # cs) = (if x = CHR '';'' then Some ([], c # cs)
     else map_option (\<lambda>(f, r). (c # f, r)) (dec_field cs))"
| "dec_field [x] = (if x = CHR '';'' then Some ([], []) else None)"
| "dec_field [] = None"

fun dec_fields :: "nat \<Rightarrow> string \<Rightarrow> string list option" where
  "dec_fields 0 s = Some []"
| "dec_fields (Suc n) s = (case dec_field s of None \<Rightarrow> None
     | Some (f, r) \<Rightarrow> map_option (\<lambda>fs. f # fs) (dec_fields n r))"

lemma dec_enc_field [simp]: "dec_field (enc_field f @ r) = Some (f, r)"
proof (induction f)
  case Nil
  show ?case by (cases r) (simp_all add: enc_field_def)
next
  case (Cons c f)
  then show ?case by (simp add: enc_field_def)
qed

definition demo_json :: "outbox_payload \<Rightarrow> string" where
  "demo_json p = enc_field (op_eventType p) @ enc_field (op_subscriber p) @ enc_field (op_merchant p) @
     enc_field (op_token p) @ enc_field (op_amount p) @ enc_field (nat_str (op_ledger p)) @ enc_field (op_txHash p) @ []"

definition demo_parse :: "string \<Rightarrow> outbox_payload option" where
  "demo_parse s = (case dec_fields 7 s of
      Some [ty, su, me, tk, am, ld, tx] \<Rightarrow>
        (case parse_int ld of None \<Rightarrow> None | Some n \<Rightarrow> Some \<lparr>op_eventType = ty, op_subscriber = su, op_merchant = me,
           op_token = tk, op_amount = am, op_ledger = nat n, op_txHash = tx\<rparr>)
    | _ \<Rightarrow> None)"

definition demo_relay :: relay_env where
  "demo_relay = \<lparr>rl_parse = demo_parse, rl_merchantPattern = (\<lambda>m. m), rl_analyticsPattern = (\<lambda>m. m),
     rl_subscriptionPattern = (\<lambda>s m. s), rl_ok = (\<lambda>fx x. True)\<rparr>"

lemma demo_json_ok: "json_ok demo_json demo_relay"
  using dec_enc_field [where r = "[]"] by (simp add: json_ok_def demo_relay_def demo_parse_def demo_json_def eval_nat_numeral)

definition demo_lg :: "string \<Rightarrow> string rpc_event" where
  "demo_lg i = demo_rpc_event i (if i = ''e1'' then ''subscribe'' else ''executed'')"

definition demo_system :: eidx_system where
  "demo_system = \<lparr>es_db = processEvent demo_sdk demo_json (\<lambda>_. False) (demo_lg ''e1'') empty_eidx, es_effects = []\<rparr>"

lemma demo_system_reach: "reach ei_init (ei_step demo_sdk demo_json demo_relay demo_lg) demo_system"
proof -
  have a: "reach ei_init (ei_step demo_sdk demo_json demo_relay demo_lg) \<lparr>es_db = empty_eidx, es_effects = []\<rparr>"
    by (rule reach_init) (simp add: ei_init_def)
  have "ei_step demo_sdk demo_json demo_relay demo_lg \<lparr>es_db = empty_eidx, es_effects = []\<rparr> demo_system"
    using ei_process [of demo_lg "''e1''" demo_sdk demo_json demo_relay "\<lparr>es_db = empty_eidx, es_effects = []\<rparr>" "\<lambda>_. False"]
    by (simp add: demo_system_def demo_lg_def demo_rpc_event_def)
  with a show ?thesis by (rule reach_step)
qed

theorem outbox_matches_events_witness:
  "list_all2 (records demo_sdk demo_json demo_lg) (ei_outbox (es_db demo_system)) (ei_events (es_db demo_system)) \<and>
     length (ei_outbox (es_db demo_system)) = 1"
proof
  show "list_all2 (records demo_sdk demo_json demo_lg) (ei_outbox (es_db demo_system)) (ei_events (es_db demo_system))"
    using outbox_matches_events [OF demo_json_ok demo_system_reach] by blast
  show "length (ei_outbox (es_db demo_system)) = 1" by code_simp
qed

text \<open>Cancel and payment-failure events are dropped. They change no table, and in no reachable state
  has the relay sent a failure or cancellation mail or scheduled a retry, although it has the code
  to do so.\<close>

theorem cancel_and_failure_dropped:
  assumes "json_ok json env" "reach ei_init (ei_step sdk json env lg) s"
    and "re_topic ev = Some (nm # topics)" "sdk_sym sdk nm = Some ty" "ty \<in> {''cancel'', ''payment_transfer_failure''}"
  shows "processEvent sdk json flt ev db = db \<and>
    (\<forall>su me am tk. PaymentFailureEmail su me am tk \<notin> set (es_effects s) \<and> EnqueueRetries su me am tk \<notin> set (es_effects s) \<and>
       CancellationEmail su me \<notin> set (es_effects s))"
proof -
  have "decode_stored sdk ev = None"
    using assms(3-5) by (auto simp: decode_stored_def Let_def STORED_EVENT_TYPES_def scValToSymbol_def)
  moreover have "list_all quiet_effect (es_effects s)" using ei_reach_invar [OF assms(1,2)] by (simp add: ei_invar_def)
  ultimately show ?thesis by (auto simp: processEvent_def list_all_iff quiet_effect_def)
qed

theorem cancel_and_failure_dropped_witness:
  "processEvent demo_sdk demo_json (\<lambda>_. False) (demo_rpc_event ''e9'' ''cancel'') (es_db demo_system) = es_db demo_system"
  using cancel_and_failure_dropped [OF demo_json_ok demo_system_reach,
      of "demo_rpc_event ''e9'' ''cancel''" "''cancel''" "[''S'', ''M'', ''T'']" "''cancel''"]
  by (simp add: demo_rpc_event_def demo_sdk_def)

lemma mark_outbox_id [simp]: "map ob_id (mark_outbox i st p t) = map ob_id t"
  by (simp add: mark_outbox_def table_update_def)

lemma fold_dispatch_status:
  assumes "fold (dispatchOutboxEvent env now) rs (t, fx) = (t', fx')"
  shows "map ob_id t' = map ob_id t \<and>
    (\<forall>o' \<in> set t'. ob_status o' = OPending \<longrightarrow> ob_id o' \<notin> ob_id ` set rs \<and> o' \<in> set t) \<and>
    (\<forall>o' \<in> set t. ob_id o' \<notin> ob_id ` set rs \<longrightarrow> o' \<in> set t')"
  using assms
proof (induction rs arbitrary: t fx)
  case (Cons r rs)
  obtain t1 fx1 where d: "dispatchOutboxEvent env now r (t, fx) = (t1, fx1)" by force
  obtain st p where m: "st \<noteq> OPending" "t1 = mark_outbox (ob_id r) st p t" using dispatch_facts(3) [OF d] by blast
  have "fold (dispatchOutboxEvent env now) rs (t1, fx1) = (t', fx')" using Cons.prems d by simp
  note ih = Cons.IH [OF this]
  have a: "ob_id o' \<noteq> ob_id r \<and> o' \<in> set t" if "o' \<in> set t1" "ob_status o' = OPending" for o'
    using that m by (auto simp: mark_outbox_def table_update_def split: if_splits)
  have b: "o' \<in> set t1" if "o' \<in> set t" "ob_id o' \<noteq> ob_id r" for o'
    using that m(2) by (force simp: mark_outbox_def table_update_def)
  have "map ob_id t' = map ob_id t" using ih m(2) by simp
  moreover have "ob_id o' \<notin> ob_id ` set (r # rs) \<and> o' \<in> set t" if "o' \<in> set t'" "ob_status o' = OPending" for o'
    using ih that a [of o'] by auto
  moreover have "o' \<in> set t'" if "o' \<in> set t" "ob_id o' \<notin> ob_id ` set (r # rs)" for o'
    using ih that b [of o'] by auto
  ultimately show ?case by blast
qed simp

text \<open>One run of the relay leaves no record pending: every record that was pending is published or
  failed afterwards, the other records are untouched, and no record is added or lost. A failed record
  is therefore never dispatched again.\<close>

theorem relay_drains:
  assumes "distinct (map ob_id t)" "processPendingEvents env now (t, fx) = (t', fx')"
  shows "map ob_id t' = map ob_id t \<and> (\<forall>o' \<in> set t'. ob_status o' \<noteq> OPending) \<and>
    (\<forall>o' \<in> set t. ob_status o' \<noteq> OPending \<longrightarrow> o' \<in> set t')"
proof -
  let ?rs = "filter (\<lambda>o'. ob_status o' = OPending) t"
  have "fold (dispatchOutboxEvent env now) ?rs (t, fx) = (t', fx')"
    using assms(2) by (simp add: processPendingEvents_def)
  note f = fold_dispatch_status [OF this]
  have "ob_id o' \<notin> ob_id ` set ?rs" if "o' \<in> set t" "ob_status o' \<noteq> OPending" for o'
  proof
    assume "ob_id o' \<in> ob_id ` set ?rs"
    then obtain r where "r \<in> set t" "ob_status r = OPending" "ob_id r = ob_id o'" by auto
    then have "r = o'" using assms(1) that(1) by (metis distinct_map inj_onD)
    then show False using that(2) \<open>ob_status r = OPending\<close> by simp
  qed
  moreover have "ob_status o' \<noteq> OPending" if "o' \<in> set t'" for o'
  proof
    assume "ob_status o' = OPending"
    then have "ob_id o' \<notin> ob_id ` set ?rs" "o' \<in> set ?rs" using f that by auto
    then show False by blast
  qed
  ultimately show ?thesis using f by blast
qed

theorem relay_drains_witness:
  "list_all (\<lambda>o'. ob_status o' \<noteq> OPending) (fst (processPendingEvents demo_relay 7 (ei_outbox (es_db demo_system), [])))"
proof -
  obtain t' fx' where p: "processPendingEvents demo_relay 7 (ei_outbox (es_db demo_system), []) = (t', fx')" by force
  have "map ob_id (ei_outbox (es_db demo_system)) = [1]" by code_simp
  then have "distinct (map ob_id (ei_outbox (es_db demo_system)))" by simp
  from relay_drains [OF this p] show ?thesis by (simp add: p list_all_iff)
qed

end
