(* ===== verification/Payment_Execution.thy ===== *)
theory Payment_Execution
  imports Complex_Main Prelude
begin

text \<open>
  Idempotent payment execution: the key table of \<^verbatim>\<open>backend/src/services/idempotencyService.ts\<close> and the
  contract call of \<^verbatim>\<open>backend/src/services/executePaymentHelper.ts\<close>. The Stellar SDK and the RPC server
  are arguments: each call maps the state of the world to an error or an answer and a new state.
  Database faults are arguments: whether the look-up and whether the recording throws. Building and
  signing the transaction is taken to succeed.
\<close>

section \<open>Idempotency keys\<close>

record IdempotencyKeyParams =
  ip_key :: string
  ip_subscriber :: string
  ip_merchant :: string
  ip_token :: string
  ip_amount :: string
  ip_tenantId :: "string option"

datatype idem_status = IPending | ISucceeded | IFailed

record idem_row =
  ik_key :: string
  ik_subscriber :: string
  ik_merchant :: string
  ik_token :: string
  ik_amount :: string
  ik_status :: idem_status
  ik_txHash :: "string option"
  ik_error :: "string option"

record IdempotencyResult =
  ir_txHash :: string
  ir_isRetry :: bool

record IdempotencyCheckResult =
  ic_exists :: bool
  ic_status :: "idem_status option"
  ic_txHash :: "string option"
  ic_error :: "string option"
  ic_isConflict :: bool

datatype idem_error =
    IdempotencyError string
  | IdempotencyConflictError (ice_key: string) (ice_stored: IdempotencyKeyParams) (ice_incoming: IdempotencyKeyParams)
  | IdempotencyAuthorizationError string string "string option"

definition authorizeSubscriptionAccess :: "string \<Rightarrow> string option \<Rightarrow> bool" where
  "authorizeSubscriptionAccess merchant tenantId = (case tenantId of None \<Rightarrow> True | Some _ \<Rightarrow> True)"

definition truthy_text :: "string option \<Rightarrow> string option" where
  "truthy_text s = (case s of None \<Rightarrow> None | Some t \<Rightarrow> if t = '''' then None else Some t)"

definition is_key :: "string \<Rightarrow> idem_row \<Rightarrow> bool" where
  "is_key k r \<longleftrightarrow> ik_key r = k"

definition checkIdempotencyKey ::
  "string option \<Rightarrow> IdempotencyKeyParams \<Rightarrow> idem_row list \<Rightarrow> idem_error + IdempotencyCheckResult" where
  "checkIdempotencyKey dbErr params tbl =
     (if \<not> authorizeSubscriptionAccess (ip_merchant params) (ip_tenantId params)
      then Inl (IdempotencyAuthorizationError (ip_key params) (ip_merchant params) (ip_tenantId params))
      else (case dbErr of
        Some err \<Rightarrow> Inl (IdempotencyError (''Failed to check idempotency key: '' @ err))
      | None \<Rightarrow>
          (case List.find (is_key (ip_key params)) tbl of
             None \<Rightarrow> Inr \<lparr>ic_exists = False, ic_status = None, ic_txHash = None, ic_error = None, ic_isConflict = False\<rparr>
           | Some ex \<Rightarrow>
               if ik_subscriber ex \<noteq> ip_subscriber params \<or> ik_merchant ex \<noteq> ip_merchant params \<or>
                  ik_token ex \<noteq> ip_token params \<or> ik_amount ex \<noteq> ip_amount params
               then Inr \<lparr>ic_exists = True, ic_status = Some (ik_status ex), ic_txHash = None, ic_error = None, ic_isConflict = True\<rparr>
               else Inr \<lparr>ic_exists = True, ic_status = Some (ik_status ex), ic_txHash = truthy_text (ik_txHash ex),
                         ic_error = truthy_text (ik_error ex), ic_isConflict = False\<rparr>)))"

definition recordIdempotencySuccess ::
  "string option \<Rightarrow> IdempotencyKeyParams \<Rightarrow> string \<Rightarrow> idem_row list \<Rightarrow> (idem_error + unit) \<times> idem_row list" where
  "recordIdempotencySuccess dbErr params txHash tbl =
     (if \<not> authorizeSubscriptionAccess (ip_merchant params) (ip_tenantId params)
      then (Inl (IdempotencyAuthorizationError (ip_key params) (ip_merchant params) (ip_tenantId params)), tbl)
      else (case dbErr of
        Some err \<Rightarrow> (Inl (IdempotencyError (''Failed to record idempotency success: '' @ err)), tbl)
      | None \<Rightarrow> (Inr (), table_upsert (is_key (ip_key params))
          (\<lambda>r. r\<lparr>ik_status := ISucceeded, ik_txHash := Some txHash, ik_error := None\<rparr>)
          \<lparr>ik_key = ip_key params, ik_subscriber = ip_subscriber params, ik_merchant = ip_merchant params,
           ik_token = ip_token params, ik_amount = ip_amount params, ik_status = ISucceeded, ik_txHash = Some txHash,
           ik_error = None\<rparr> tbl)))"

definition recordIdempotencyFailure ::
  "string option \<Rightarrow> IdempotencyKeyParams \<Rightarrow> string \<Rightarrow> idem_row list \<Rightarrow> (idem_error + unit) \<times> idem_row list" where
  "recordIdempotencyFailure dbErr params err tbl =
     (if \<not> authorizeSubscriptionAccess (ip_merchant params) (ip_tenantId params)
      then (Inl (IdempotencyAuthorizationError (ip_key params) (ip_merchant params) (ip_tenantId params)), tbl)
      else (case dbErr of
        Some e \<Rightarrow> (Inl (IdempotencyError (''Failed to record idempotency failure: '' @ e)), tbl)
      | None \<Rightarrow> (Inr (), table_upsert (is_key (ip_key params))
          (\<lambda>r. r\<lparr>ik_status := IFailed, ik_error := Some err\<rparr>)
          \<lparr>ik_key = ip_key params, ik_subscriber = ip_subscriber params, ik_merchant = ip_merchant params,
           ik_token = ip_token params, ik_amount = ip_amount params, ik_status = IFailed, ik_txHash = None,
           ik_error = Some err\<rparr> tbl)))"

definition handleIdempotencyCheck ::
  "string option \<Rightarrow> IdempotencyKeyParams \<Rightarrow> idem_row list \<Rightarrow> idem_error + IdempotencyResult option" where
  "handleIdempotencyCheck dbErr params tbl =
     (case checkIdempotencyKey dbErr params tbl of
        Inl e \<Rightarrow> Inl e
      | Inr check \<Rightarrow>
          if \<not> ic_exists check then Inr None
          else if ic_isConflict check then Inl (IdempotencyConflictError (ip_key params) params params)
          else (case (ic_status check, ic_txHash check) of
                  (Some ISucceeded, Some h) \<Rightarrow> Inr (Some \<lparr>ir_txHash = h, ir_isRetry = True\<rparr>)
                | _ \<Rightarrow> Inr None))"

text \<open>Validation: the UUID v4 pattern, or 1 to 255 letters, digits, underscores and hyphens.\<close>

definition is_hex :: "char \<Rightarrow> bool" where
  "is_hex c \<longleftrightarrow> hex_digit c \<noteq> None"

definition is_word_char :: "char \<Rightarrow> bool" where
  "is_word_char c = (let n = (of_char c :: nat) in
     (97 \<le> n \<and> n \<le> 122) \<or> (65 \<le> n \<and> n \<le> 90) \<or> (48 \<le> n \<and> n \<le> 57) \<or> c = CHR ''_'' \<or> c = CHR ''-'')"

definition uuid_char :: "nat \<Rightarrow> char \<Rightarrow> bool" where
  "uuid_char i c = (if i \<in> {8, 13, 18, 23} then c = CHR ''-''
     else if i = 14 then c = CHR ''4''
     else if i = 19 then c \<in> set ''89abAB''
     else is_hex c)"

definition isValidIdempotencyKey :: "string \<Rightarrow> bool" where
  "isValidIdempotencyKey key =
     (if key = '''' then False
      else if length key = 36 \<and> (\<forall>i < 36. uuid_char i (key ! i)) then True
      else 1 \<le> length key \<and> length key \<le> 255 \<and> list_all is_word_char key)"

text \<open>The fallback generator, with the random numbers drawn.\<close>

definition hex_chars :: string where "hex_chars = ''0123456789abcdef''"

definition generate_fallback :: "(nat \<Rightarrow> rat) \<Rightarrow> string" where
  "generate_fallback random = concat (map (\<lambda>i.
     (if i \<in> {8, 12, 16, 20} then ''-'' else []) @ [hex_chars ! nat \<lfloor>random i * 16\<rfloor>]) [0..<32])"

section \<open>Executing a payment\<close>

datatype sim_result = SimOk | SimFailed "string option"
datatype send_result = SendFailed "string option" | Sent string
datatype tx_status = TxNotFound | TxSuccess | TxFailed

record 'w payment_server =
  ps_address :: "string \<Rightarrow> string option"
  ps_getAccount :: "'w \<Rightarrow> (string + unit) \<times> 'w"
  ps_simulate :: "string \<Rightarrow> string \<Rightarrow> 'w \<Rightarrow> (string + sim_result) \<times> 'w"
  ps_send :: "string \<Rightarrow> string \<Rightarrow> 'w \<Rightarrow> (string + send_result) \<times> 'w"
  ps_getTransaction :: "string \<Rightarrow> 'w \<Rightarrow> (string + tx_status) \<times> 'w"

record ExecutePaymentParams =
  ep_subscriber :: string
  ep_merchant :: string
  ep_idempotencyKey :: "string option"

record pay_faults =
  pf_check :: "string option"
  pf_record :: "string option"

datatype pay_error = HelperError string | ServiceError idem_error | RawError string

definition key_params :: "ExecutePaymentParams \<Rightarrow> string \<Rightarrow> IdempotencyKeyParams" where
  "key_params params key = \<lparr>ip_key = key, ip_subscriber = ep_subscriber params, ip_merchant = ep_merchant params,
     ip_token = ''token_placeholder'', ip_amount = ''amount_placeholder'', ip_tenantId = None\<rparr>"

text \<open>Recording is best effort: its own errors are ignored, and without a key nothing is recorded.\<close>

definition active_key :: "ExecutePaymentParams \<Rightarrow> string option" where
  "active_key params = truthy_text (ep_idempotencyKey params)"

definition note_failure :: "pay_faults \<Rightarrow> ExecutePaymentParams \<Rightarrow> string \<Rightarrow> idem_row list \<Rightarrow> idem_row list" where
  "note_failure flt params msg tbl = (case active_key params of
      None \<Rightarrow> tbl
    | Some key \<Rightarrow> snd (recordIdempotencyFailure (pf_record flt) (key_params params key) msg tbl))"

definition note_success :: "pay_faults \<Rightarrow> ExecutePaymentParams \<Rightarrow> string \<Rightarrow> idem_row list \<Rightarrow> idem_row list" where
  "note_success flt params h tbl = (case active_key params of
      None \<Rightarrow> tbl
    | Some key \<Rightarrow> snd (recordIdempotencySuccess (pf_record flt) (key_params params key) h tbl))"

definition or_text :: "string option \<Rightarrow> string \<Rightarrow> string" where
  "or_text s d = (case truthy_text s of None \<Rightarrow> d | Some t \<Rightarrow> t)"

text \<open>The confirmation loop, with the number of polls left.\<close>

fun confirm ::
  "'w payment_server \<Rightarrow> pay_faults \<Rightarrow> ExecutePaymentParams \<Rightarrow> string \<Rightarrow> nat \<Rightarrow> idem_row list \<times> 'w
   \<Rightarrow> (pay_error + IdempotencyResult) \<times> idem_row list \<times> 'w" where
  "confirm srv flt params h 0 (tbl, w) =
     (let detail = ''Transaction '' @ h @ '' not confirmed after 30 s''
      in (Inl (HelperError detail), note_failure flt params detail tbl, w))"
| "confirm srv flt params h (Suc n) (tbl, w) =
     (case ps_getTransaction srv h w of
        (Inl err, w') \<Rightarrow> (Inl (RawError err), tbl, w')
      | (Inr TxSuccess, w') \<Rightarrow> (Inr \<lparr>ir_txHash = h, ir_isRetry = False\<rparr>, note_success flt params h tbl, w')
      | (Inr TxFailed, w') \<Rightarrow>
          (let detail = ''Transaction failed on-chain: '' @ h
           in (Inl (HelperError detail), note_failure flt params detail tbl, w'))
      | (Inr TxNotFound, w') \<Rightarrow> confirm srv flt params h n (tbl, w'))"

text \<open>From the signing account to the confirmation.\<close>

definition submit_transaction ::
  "'w payment_server \<Rightarrow> pay_faults \<Rightarrow> ExecutePaymentParams \<Rightarrow> idem_row list \<times> 'w
   \<Rightarrow> (pay_error + IdempotencyResult) \<times> idem_row list \<times> 'w" where
  "submit_transaction srv flt params = (\<lambda>(tbl, w).
     (let fail = (\<lambda>msg w'. (Inl (HelperError msg), note_failure flt params msg tbl, w'))
      in case ps_getAccount srv w of
           (Inl err, w1) \<Rightarrow> (Inl (HelperError (''Failed to fetch signing account: '' @ err)), tbl, w1)
         | (Inr _, w1) \<Rightarrow>
             (case ps_simulate srv (ep_subscriber params) (ep_merchant params) w1 of
                (Inl err, w2) \<Rightarrow> fail (''Simulation failed: '' @ err) w2
              | (Inr (SimFailed d), w2) \<Rightarrow> fail (''Simulation failed: '' @ or_text d ''unknown simulation error'') w2
              | (Inr SimOk, w2) \<Rightarrow>
                  (case ps_send srv (ep_subscriber params) (ep_merchant params) w2 of
                     (Inl err, w3) \<Rightarrow> fail (''Send failed: '' @ err) w3
                   | (Inr (SendFailed d), w3) \<Rightarrow> fail (''Send failed: '' @ or_text d ''unknown error'') w3
                   | (Inr (Sent h), w3) \<Rightarrow> confirm srv flt params h 20 (tbl, w3)))))"

definition submitExecutePayment ::
  "'w payment_server \<Rightarrow> pay_faults \<Rightarrow> ExecutePaymentParams \<Rightarrow> idem_row list \<times> 'w
   \<Rightarrow> (pay_error + IdempotencyResult) \<times> idem_row list \<times> 'w" where
  "submitExecutePayment srv flt params = (\<lambda>(tbl, w).
     if ep_subscriber params = '''' \<or> ep_merchant params = ''''
     then (Inl (HelperError ''subscriber and merchant are required for execute_payment''), tbl, w)
     else (case ps_address srv (ep_subscriber params) of
        Some err \<Rightarrow> (Inl (HelperError (''Invalid execute_payment addresses: '' @ err)), tbl, w)
      | None \<Rightarrow> (case ps_address srv (ep_merchant params) of
        Some err \<Rightarrow> (Inl (HelperError (''Invalid execute_payment addresses: '' @ err)), tbl, w)
      | None \<Rightarrow>
          (case active_key params of
             None \<Rightarrow> submit_transaction srv flt params (tbl, w)
           | Some key \<Rightarrow>
               (case handleIdempotencyCheck (pf_check flt) (key_params params key) tbl of
                  Inl (IdempotencyConflictError k st inc) \<Rightarrow>
                    (Inl (HelperError (''Idempotency conflict: Idempotency conflict: key '' @ [CHR 0x22] @ k @ [CHR 0x22] @
                       '' already used with different parameters'')), tbl, w)
                | Inl e \<Rightarrow> (Inl (ServiceError e), tbl, w)
                | Inr (Some r) \<Rightarrow> (Inr r, tbl, w)
                | Inr None \<Rightarrow> submit_transaction srv flt params (tbl, w))))))"

section \<open>Rows of the key table\<close>

text \<open>A key whose payment succeeded with a hash, for the parameters of a call.\<close>

definition settled :: "ExecutePaymentParams \<Rightarrow> string \<Rightarrow> string \<Rightarrow> idem_row list \<Rightarrow> bool" where
  "settled params key h tbl \<longleftrightarrow> (\<exists>r. List.find (is_key key) tbl = Some r \<and> ik_subscriber r = ep_subscriber params \<and>
     ik_merchant r = ep_merchant params \<and> ik_token r = ''token_placeholder'' \<and> ik_amount r = ''amount_placeholder'' \<and>
     ik_status r = ISucceeded \<and> ik_txHash r = Some h)"

definition fits :: "ExecutePaymentParams \<Rightarrow> idem_row \<Rightarrow> bool" where
  "fits params r \<longleftrightarrow> ik_subscriber r = ep_subscriber params \<and> ik_merchant r = ep_merchant params \<and>
     ik_token r = ''token_placeholder'' \<and> ik_amount r = ''amount_placeholder''"

lemma check_cases:
  "handleIdempotencyCheck None (key_params params key) tbl =
     (case List.find (is_key key) tbl of
        None \<Rightarrow> Inr None
      | Some r \<Rightarrow>
          if \<not> fits params r then Inl (IdempotencyConflictError key (key_params params key) (key_params params key))
          else (case (ik_status r, truthy_text (ik_txHash r)) of
                  (ISucceeded, Some h) \<Rightarrow> Inr (Some \<lparr>ir_txHash = h, ir_isRetry = True\<rparr>) | _ \<Rightarrow> Inr None))"
  by (auto simp: handleIdempotencyCheck_def checkIdempotencyKey_def authorizeSubscriptionAccess_def key_params_def
        fits_def split: option.splits idem_status.splits)

lemma check_fault:
  "handleIdempotencyCheck (Some e) params tbl \<noteq> Inr r"
  by (auto simp: handleIdempotencyCheck_def checkIdempotencyKey_def authorizeSubscriptionAccess_def split: option.splits)

lemma is_key_update [simp]:
  "is_key k (r\<lparr>ik_status := st\<rparr>) = is_key k r" "is_key k (r\<lparr>ik_txHash := h\<rparr>) = is_key k r"
  "is_key k (r\<lparr>ik_error := e\<rparr>) = is_key k r"
  by (simp_all add: is_key_def)

lemma authorized [simp]: "authorizeSubscriptionAccess m t"
  by (simp add: authorizeSubscriptionAccess_def split: option.splits)

lemma note_success_settled:
  assumes "active_key params = Some key" "pf_record flt = None"
    and "\<And>r. List.find (is_key key) tbl = Some r \<Longrightarrow> fits params r"
  shows "settled params key h (note_success flt params h tbl)"
proof -
  have k: "is_key key \<lparr>ik_key = key, ik_subscriber = s, ik_merchant = m, ik_token = t, ik_amount = a, ik_status = st,
      ik_txHash = x, ik_error = e\<rparr>" for s m t a st x e by (simp add: is_key_def)
  have "note_success flt params h tbl = table_upsert (is_key key)
      (\<lambda>r. r\<lparr>ik_status := ISucceeded, ik_txHash := Some h, ik_error := None\<rparr>)
      \<lparr>ik_key = key, ik_subscriber = ep_subscriber params, ik_merchant = ep_merchant params,
       ik_token = ''token_placeholder'', ik_amount = ''amount_placeholder'', ik_status = ISucceeded,
       ik_txHash = Some h, ik_error = None\<rparr> tbl"
    using assms(1,2) by (simp add: note_success_def recordIdempotencySuccess_def key_params_def)
  then show ?thesis
    using assms(3) by (cases "List.find (is_key key) tbl") (simp_all add: settled_def find_upsert_same k fits_def)
qed

text \<open>A recording never changes which payment a key stands for.\<close>

definition same_owner :: "idem_row list \<Rightarrow> idem_row list \<Rightarrow> bool" where
  "same_owner tbl tbl' \<longleftrightarrow> (\<forall>k r. List.find (is_key k) tbl = Some r \<longrightarrow> (\<exists>r'. List.find (is_key k) tbl' = Some r' \<and>
     ik_subscriber r' = ik_subscriber r \<and> ik_merchant r' = ik_merchant r \<and> ik_token r' = ik_token r \<and> ik_amount r' = ik_amount r))"

lemma same_owner_refl [simp]: "same_owner tbl tbl"
  by (simp add: same_owner_def)

lemma same_owner_upsert:
  assumes "\<And>r. ik_key (f r) = ik_key r" "\<And>r. ik_subscriber (f r) = ik_subscriber r" "\<And>r. ik_merchant (f r) = ik_merchant r"
    "\<And>r. ik_token (f r) = ik_token r" "\<And>r. ik_amount (f r) = ik_amount r" "ik_key new = key"
  shows "same_owner tbl (table_upsert (is_key key) f new tbl)"
  unfolding same_owner_def
proof (intro allI impI)
  fix k r assume r: "List.find (is_key k) tbl = Some r"
  show "\<exists>r'. List.find (is_key k) (table_upsert (is_key key) f new tbl) = Some r' \<and> ik_subscriber r' = ik_subscriber r \<and>
      ik_merchant r' = ik_merchant r \<and> ik_token r' = ik_token r \<and> ik_amount r' = ik_amount r"
  proof (cases "k = key")
    case True
    have "List.find (is_key key) (table_upsert (is_key key) f new tbl) =
        Some (case List.find (is_key key) tbl of None \<Rightarrow> new | Some r \<Rightarrow> f r)"
      by (rule find_upsert_same) (auto simp: is_key_def assms)
    then show ?thesis using True r assms by simp
  next
    case False
    then have "List.find (is_key k) (table_upsert (is_key key) f new tbl) = List.find (is_key k) tbl"
      by (intro find_upsert_other) (auto simp: is_key_def assms)
    then show ?thesis using r by simp
  qed
qed

lemma same_owner_notes: "same_owner tbl (note_failure flt params msg tbl)" "same_owner tbl (note_success flt params h tbl)"
  by (auto simp: note_failure_def note_success_def recordIdempotencyFailure_def recordIdempotencySuccess_def key_params_def
        intro!: same_owner_upsert split: option.splits)

lemma confirm_owner: "confirm srv flt params h n (tbl, w) = (r, tbl', w') \<Longrightarrow> same_owner tbl tbl'"
proof (induction srv flt params h n "(tbl, w)" arbitrary: w rule: confirm.induct)
  case (2 srv flt params h n w)
  then show ?case by (auto simp: Let_def same_owner_notes split: prod.splits sum.splits tx_status.splits)
qed (auto simp: Let_def same_owner_notes)

text \<open>What a submission does to the table: nothing, a recorded failure, or what the confirmation does.\<close>

lemma submit_cases:
  assumes "submit_transaction srv flt params (tbl, w) = (r, tbl', w')"
  obtains (failed) e where "r = Inl e" "tbl' = tbl \<or> (\<exists>msg. tbl' = note_failure flt params msg tbl)"
  | (sent) h w3 where "confirm srv flt params h 20 (tbl, w3) = (r, tbl', w')"
proof -
  obtain a1 w1 where a: "ps_getAccount srv w = (a1, w1)" by force
  obtain s2 w2 where b: "ps_simulate srv (ep_subscriber params) (ep_merchant params) w1 = (s2, w2)" by force
  obtain s3 w3 where c: "ps_send srv (ep_subscriber params) (ep_merchant params) w2 = (s3, w3)" by force
  note unf = submit_transaction_def Let_def a b c
  show thesis
  proof (cases a1)
    case (Inl e)
    then have "r = Inl (HelperError (''Failed to fetch signing account: '' @ e)) \<and> tbl' = tbl" using assms by (simp add: unf)
    then show thesis using failed by blast
  next
    case acc: (Inr u)
    show thesis
    proof (cases s2)
      case (Inl e)
      then have "(r, tbl') = (Inl (HelperError (''Simulation failed: '' @ e)), note_failure flt params (''Simulation failed: '' @ e) tbl)"
        using assms acc by (simp add: unf)
      then show thesis using failed by blast
    next
      case sim: (Inr sr)
      show thesis
      proof (cases sr)
        case (SimFailed d)
        let ?m = "''Simulation failed: '' @ or_text d ''unknown simulation error''"
        have "(r, tbl') = (Inl (HelperError ?m), note_failure flt params ?m tbl)" using assms acc sim SimFailed by (simp add: unf)
        then show thesis using failed by blast
      next
        case ok: SimOk
        show thesis
        proof (cases s3)
          case (Inl e)
          then have "(r, tbl') = (Inl (HelperError (''Send failed: '' @ e)), note_failure flt params (''Send failed: '' @ e) tbl)"
            using assms acc sim ok by (simp add: unf)
          then show thesis using failed by blast
        next
          case snd: (Inr sd)
          show thesis
          proof (cases sd)
            case (SendFailed d)
            let ?m = "''Send failed: '' @ or_text d ''unknown error''"
            have "(r, tbl') = (Inl (HelperError ?m), note_failure flt params ?m tbl)"
              using assms acc sim ok snd SendFailed by (simp add: unf)
            then show thesis using failed by blast
          next
            case (Sent h)
            then have "confirm srv flt params h 20 (tbl, w3) = (r, tbl', w')" using assms acc sim ok snd by (simp add: unf)
            then show thesis by (rule sent)
          qed
        qed
      qed
    qed
  qed
qed

lemma submit_owner: "submit_transaction srv flt params (tbl, w) = (r, tbl', w') \<Longrightarrow> same_owner tbl tbl'"
  by (erule submit_cases) (auto intro: same_owner_notes confirm_owner)

lemma confirm_success:
  "confirm srv flt params h n (tbl, w) = (Inr r, tbl', w') \<Longrightarrow>
     tbl' = note_success flt params (ir_txHash r) tbl"
proof (induction srv flt params h n "(tbl, w)" arbitrary: w rule: confirm.induct)
  case (2 srv flt params h n w)
  then show ?case by (auto simp: Let_def split: prod.splits sum.splits tx_status.splits)
qed (auto simp: Let_def)

lemma submit_success:
  "submit_transaction srv flt params (tbl, w) = (Inr r, tbl', w') \<Longrightarrow>
     tbl' = note_success flt params (ir_txHash r) tbl"
  by (erule submit_cases) (auto dest: confirm_success)

text \<open>The call itself, for a valid pair and a key.\<close>

lemma submit_keyed:
  assumes "ep_subscriber params \<noteq> ''''" "ep_merchant params \<noteq> ''''" "ps_address srv (ep_subscriber params) = None"
    "ps_address srv (ep_merchant params) = None" "active_key params = Some key" "pf_check flt = None"
  shows "submitExecutePayment srv flt params (tbl, w) =
     (case List.find (is_key key) tbl of
        None \<Rightarrow> submit_transaction srv flt params (tbl, w)
      | Some r \<Rightarrow>
          if \<not> fits params r then
            (Inl (HelperError (''Idempotency conflict: Idempotency conflict: key '' @ [CHR 0x22] @ key @ [CHR 0x22] @
                '' already used with different parameters'')), tbl, w)
          else (case (ik_status r, truthy_text (ik_txHash r)) of
                  (ISucceeded, Some h) \<Rightarrow> (Inr \<lparr>ir_txHash = h, ir_isRetry = True\<rparr>, tbl, w)
                | _ \<Rightarrow> submit_transaction srv flt params (tbl, w)))"
  unfolding submitExecutePayment_def using assms
  by (simp add: check_cases split: option.splits idem_status.splits)

lemma submit_valid:
  assumes "submitExecutePayment srv flt params (tbl, w) = (Inr r, tbl', w')"
  shows "ep_subscriber params \<noteq> ''''" "ep_merchant params \<noteq> ''''" "ps_address srv (ep_subscriber params) = None"
    "ps_address srv (ep_merchant params) = None" "active_key params = Some key \<Longrightarrow> pf_check flt = None"
proof -
  show a: "ep_subscriber params \<noteq> ''''" "ep_merchant params \<noteq> ''''"
    using assms by (auto simp: submitExecutePayment_def)
  show b: "ps_address srv (ep_subscriber params) = None"
    using assms a by (cases "ps_address srv (ep_subscriber params)") (simp_all add: submitExecutePayment_def)
  show d: "ps_address srv (ep_merchant params) = None"
    using assms a b by (cases "ps_address srv (ep_merchant params)") (simp_all add: submitExecutePayment_def)
  show "pf_check flt = None" if "active_key params = Some key"
  proof (cases "pf_check flt")
    case (Some e)
    then have "handleIdempotencyCheck (pf_check flt) (key_params params key) tbl =
        Inl (IdempotencyError (''Failed to check idempotency key: '' @ e))"
      by (simp add: handleIdempotencyCheck_def checkIdempotencyKey_def)
    then show ?thesis using assms a b d that by (simp add: submitExecutePayment_def)
  qed simp
qed

lemma success_settled:
  assumes "submitExecutePayment srv flt params (tbl, w) = (Inr r, tbl', w')" "active_key params = Some key"
    "pf_record flt = None"
  shows "settled params key (ir_txHash r) tbl'"
proof -
  note v = submit_valid [OF assms(1)]
  note k = submit_keyed [OF v(1-4) assms(2) v(5) [OF assms(2)], of tbl w]
  show ?thesis
  proof (cases "List.find (is_key key) tbl")
    case None
    then have "submit_transaction srv flt params (tbl, w) = (Inr r, tbl', w')" using assms(1) k by simp
    from submit_success [OF this] show ?thesis
      using note_success_settled [OF assms(2,3), of tbl "ir_txHash r"] None by simp
  next
    case (Some row)
    then have f: "fits params row" using assms(1) k by (auto split: if_splits)
    show ?thesis
    proof (cases "submit_transaction srv flt params (tbl, w) = (Inr r, tbl', w')")
      case True
      from submit_success [OF this] show ?thesis
        using note_success_settled [OF assms(2,3), of tbl "ir_txHash r"] Some f by simp
    next
      case False
      then have "ik_status row = ISucceeded" "truthy_text (ik_txHash row) = Some (ir_txHash r)" "tbl' = tbl"
        using assms(1) k Some f by (auto split: idem_status.splits option.splits)
      then show ?thesis using Some f by (auto simp: settled_def fits_def truthy_text_def split: option.splits if_splits)
    qed
  qed
qed

text \<open>A settled key stays settled: another call with it and its pair returns the hash without a change, one with
  another pair is refused, and a call with another key writes another row.\<close>

lemma notes_other_key:
  assumes "active_key params \<noteq> Some key"
  shows "List.find (is_key key) (note_failure flt params msg tbl) = List.find (is_key key) tbl"
    and "List.find (is_key key) (note_success flt params h tbl) = List.find (is_key key) tbl"
  using assms
  by (auto simp: note_failure_def note_success_def recordIdempotencyFailure_def recordIdempotencySuccess_def
      key_params_def is_key_def intro!: find_upsert_other split: option.splits)

lemma confirm_other_key:
  "confirm srv flt params h n (tbl, w) = (r, tbl', w') \<Longrightarrow> active_key params \<noteq> Some key \<Longrightarrow>
     List.find (is_key key) tbl' = List.find (is_key key) tbl"
proof (induction srv flt params h n "(tbl, w)" arbitrary: w rule: confirm.induct)
  case (2 srv flt params h n w)
  then show ?case by (auto simp: Let_def notes_other_key split: prod.splits sum.splits tx_status.splits)
qed (auto simp: Let_def notes_other_key)

lemma submit_other_key:
  "submit_transaction srv flt params (tbl, w) = (r, tbl', w') \<Longrightarrow> active_key params \<noteq> Some key \<Longrightarrow>
     List.find (is_key key) tbl' = List.find (is_key key) tbl"
  by (erule submit_cases) (auto simp: notes_other_key confirm_other_key)

lemma call_keeps_settled:
  assumes "settled params key h tbl" "h \<noteq> ''''"
    and "submitExecutePayment srv flt params2 (tbl, w) = (r, tbl', w')"
  shows "settled params key h tbl'"
proof -
  obtain row where row: "List.find (is_key key) tbl = Some row" "fits params row" "ik_status row = ISucceeded" "ik_txHash row = Some h"
    using assms(1) by (auto simp: settled_def fits_def)
  have "tbl' = tbl \<or> submit_transaction srv flt params2 (tbl, w) = (r, tbl', w') \<and> active_key params2 \<noteq> Some key"
  proof (cases "active_key params2 = Some key")
    case True
    have "handleIdempotencyCheck (pf_check flt) (key_params params2 key) tbl \<noteq> Inr None"
      using row assms(2) check_fault by (cases "pf_check flt") (auto simp: check_cases truthy_text_def)
    then show ?thesis using assms(3) True unfolding submitExecutePayment_def
      by (auto split: if_splits option.splits sum.splits idem_error.splits)
  next
    case False
    then show ?thesis using assms(3) unfolding submitExecutePayment_def
      by (auto split: if_splits option.splits sum.splits idem_error.splits)
  qed
  then have "List.find (is_key key) tbl' = List.find (is_key key) tbl"
    by (elim disjE conjE) (simp, rule submit_other_key)
  then show ?thesis using assms(1) by (simp add: settled_def)
qed

text \<open>Any calls one after the other, each with its own server, faults and state of the world.\<close>

fun payment_calls :: "('w payment_server \<times> pay_faults \<times> ExecutePaymentParams \<times> 'w) list \<Rightarrow> idem_row list \<Rightarrow> idem_row list" where
  "payment_calls [] tbl = tbl"
| "payment_calls ((srv, flt, params, w) # calls) tbl =
     payment_calls calls (fst (snd (submitExecutePayment srv flt params (tbl, w))))"

lemma calls_keep_settled:
  "settled params key h tbl \<Longrightarrow> h \<noteq> '''' \<Longrightarrow> settled params key h (payment_calls calls tbl)"
proof (induction calls arbitrary: tbl)
  case (Cons c calls)
  obtain srv flt p w where c: "c = (srv, flt, p, w)" by (cases c)
  obtain r tbl' w' where r: "submitExecutePayment srv flt p (tbl, w) = (r, tbl', w')" by (rule prod_cases3)
  show ?case using Cons.IH [OF call_keeps_settled [OF Cons.prems r] Cons.prems(2)] c r by simp
qed simp

section \<open>Properties\<close>

text \<open>C1: Once a call with an idempotency key has returned a transaction hash and its success could be recorded,
  every later call with that key and pair makes no call to the server and changes nothing, whatever calls with
  whatever keys, pairs, servers and faults came in between: it returns the same hash, marked as a retry, or, if an
  address cannot be parsed or the look-up of the key fails, that error.\<close>

theorem payment_idempotent:
  assumes "submitExecutePayment srv flt params (tbl, w) = (Inr r, tbl1, w1)" "active_key params = Some key"
    "pf_record flt = None" "ir_txHash r \<noteq> ''''"
    and "tbl' = payment_calls calls tbl1" "active_key params2 = Some key"
    "ep_subscriber params2 = ep_subscriber params" "ep_merchant params2 = ep_merchant params"
  shows "submitExecutePayment srv2 flt2 params2 (tbl', w2) =
    (case (ps_address srv2 (ep_subscriber params), ps_address srv2 (ep_merchant params), pf_check flt2) of
       (Some err, _, _) \<Rightarrow> Inl (HelperError (''Invalid execute_payment addresses: '' @ err))
     | (None, Some err, _) \<Rightarrow> Inl (HelperError (''Invalid execute_payment addresses: '' @ err))
     | (None, None, Some err) \<Rightarrow> Inl (ServiceError (IdempotencyError (''Failed to check idempotency key: '' @ err)))
     | (None, None, None) \<Rightarrow> Inr \<lparr>ir_txHash = ir_txHash r, ir_isRetry = True\<rparr>, tbl', w2)"
proof -
  have "settled params key (ir_txHash r) tbl'"
    unfolding assms(5) by (rule calls_keep_settled [OF success_settled [OF assms(1-3)] assms(4)])
  then obtain row where row: "List.find (is_key key) tbl' = Some row" "fits params2 row" "ik_status row = ISucceeded"
      "ik_txHash row = Some (ir_txHash r)"
    using assms(7,8) by (auto simp: settled_def fits_def)
  have ne: "ep_subscriber params2 \<noteq> ''''" "ep_merchant params2 \<noteq> ''''"
    using submit_valid(1,2) [OF assms(1)] assms(7,8) by simp_all
  consider "ps_address srv2 (ep_subscriber params) = None" "ps_address srv2 (ep_merchant params) = None" "pf_check flt2 = None"
    | "ps_address srv2 (ep_subscriber params) \<noteq> None \<or> ps_address srv2 (ep_merchant params) \<noteq> None \<or> pf_check flt2 \<noteq> None"
    by blast
  then show ?thesis
  proof cases
    case 1
    then show ?thesis
      using submit_keyed [OF ne _ _ assms(6), of srv2 flt2 tbl' w2] row assms(4,7,8) by (simp add: truthy_text_def)
  next
    case 2
    then show ?thesis using ne assms(6-8)
      by (auto simp: submitExecutePayment_def handleIdempotencyCheck_def checkIdempotencyKey_def split: option.splits)
  qed
qed

text \<open>A server that takes a number of polls to confirm; the world counts submissions and polls.\<close>

definition slow_server :: "nat \<Rightarrow> (nat \<times> nat) payment_server" where
  "slow_server n = \<lparr>ps_address = (\<lambda>a. None), ps_getAccount = (\<lambda>w. (Inr (), w)), ps_simulate = (\<lambda>s m w. (Inr SimOk, w)),
     ps_send = (\<lambda>s m (sends, polls). (Inr (Sent (''tx'' @ nat_str (Suc sends))), (Suc sends, polls))),
     ps_getTransaction = (\<lambda>h (sends, polls). (Inr (if polls < n then TxNotFound else TxSuccess), (sends, Suc polls)))\<rparr>"

definition no_pay_faults :: pay_faults where
  "no_pay_faults = \<lparr>pf_check = None, pf_record = None\<rparr>"

definition demo_pay :: ExecutePaymentParams where
  "demo_pay = \<lparr>ep_subscriber = ''S'', ep_merchant = ''M'', ep_idempotencyKey = Some ''k1''\<rparr>"

text \<open>In between, another payment is made under another key, and a call with the same key and another pair is refused.\<close>

definition demo_between :: "((nat \<times> nat) payment_server \<times> pay_faults \<times> ExecutePaymentParams \<times> nat \<times> nat) list" where
  "demo_between = [(slow_server 1, no_pay_faults, demo_pay\<lparr>ep_merchant := ''X'', ep_idempotencyKey := Some ''k2''\<rparr>, (1, 0)),
     (slow_server 1, no_pay_faults, demo_pay\<lparr>ep_merchant := ''X''\<rparr>, (2, 0))]"

theorem payment_idempotent_witness:
  "\<exists>tbl'. submitExecutePayment (slow_server 3) no_pay_faults demo_pay (tbl', (7, 7)) =
     (Inr \<lparr>ir_txHash = ''tx1'', ir_isRetry = True\<rparr>, tbl', (7, 7)) \<and> map ik_key tbl' = [''k1'', ''k2'']"
proof -
  obtain tbl1 where r: "submitExecutePayment (slow_server 3) no_pay_faults demo_pay ([], (0, 0)) =
      (Inr \<lparr>ir_txHash = ''tx1'', ir_isRetry = False\<rparr>, tbl1, (1, 4))"
    and k: "map ik_key (payment_calls demo_between tbl1) = [''k1'', ''k2'']"
  proof -
    let ?x = "submitExecutePayment (slow_server 3) no_pay_faults demo_pay ([], (0, 0))"
    have "fst ?x = Inr \<lparr>ir_txHash = ''tx1'', ir_isRetry = False\<rparr>" "snd (snd ?x) = (1, 4)"
      "map ik_key (payment_calls demo_between (fst (snd ?x))) = [''k1'', ''k2'']" by code_simp+
    then show thesis using that [of "fst (snd ?x)"] by (metis prod.collapse)
  qed
  have "active_key demo_pay = Some ''k1''" "ps_address (slow_server 3) a = None" "pf_check no_pay_faults = None"
    "pf_record no_pay_faults = None" for a
    by (simp_all add: demo_pay_def active_key_def truthy_text_def no_pay_faults_def slow_server_def)
  then show ?thesis
    using payment_idempotent [OF r, of "''k1''" "payment_calls demo_between tbl1" demo_between demo_pay "slow_server 3"
        no_pay_faults "(7, 7)"] k by auto
qed

text \<open>C8: A key keeps the payment it was first used for: no call, for whatever parameters and with
  whatever faults, changes the subscriber or merchant recorded under any key; and a call that brings
  a key of another pair is refused without touching the table or the server.\<close>

theorem key_bound_to_payment:
  assumes "List.find (is_key key) tbl = Some row"
    and "submitExecutePayment srv flt params (tbl, w) = (res, tbl', w')"
  shows "(\<exists>row'. List.find (is_key key) tbl' = Some row' \<and> ik_subscriber row' = ik_subscriber row \<and>
       ik_merchant row' = ik_merchant row) \<and>
    (active_key params = Some key \<and> (ik_subscriber row \<noteq> ep_subscriber params \<or> ik_merchant row \<noteq> ep_merchant params)
       \<longrightarrow> (\<exists>e. res = Inl e) \<and> tbl' = tbl \<and> w' = w)"
proof -
  have cases: "(\<exists>e. res = Inl e) \<and> tbl' = tbl \<and> w' = w \<or> tbl' = tbl \<and> active_key params \<noteq> None \<and>
       (\<exists>r k. active_key params = Some k \<and> pf_check flt = None \<and> handleIdempotencyCheck None (key_params params k) tbl = Inr (Some r))
     \<or> (submit_transaction srv flt params (tbl, w) = (res, tbl', w') \<and>
       (\<forall>k. active_key params = Some k \<longrightarrow> pf_check flt = None \<and> handleIdempotencyCheck None (key_params params k) tbl = Inr None))"
    using assms(2) check_fault [of _ _ tbl] unfolding submitExecutePayment_def
    by (cases "pf_check flt") (auto split: if_splits option.splits sum.splits idem_error.splits)
  have own: "same_owner tbl tbl'" using cases submit_owner by auto
  have "(\<exists>e. res = Inl e) \<and> tbl' = tbl \<and> w' = w"
    if "active_key params = Some key" "ik_subscriber row \<noteq> ep_subscriber params \<or> ik_merchant row \<noteq> ep_merchant params"
  proof -
    have "\<not> fits params row" using that(2) by (auto simp: fits_def)
    then show ?thesis using cases that(1) assms(1) by (auto simp: check_cases)
  qed
  then show ?thesis using own assms(1) by (auto simp: same_owner_def)
qed

definition other_row :: idem_row where
  "other_row = \<lparr>ik_key = ''k1'', ik_subscriber = ''S'', ik_merchant = ''Other'', ik_token = ''token_placeholder'',
     ik_amount = ''amount_placeholder'', ik_status = IFailed, ik_txHash = None, ik_error = None\<rparr>"

theorem key_bound_to_payment_witness:
  "\<exists>e. submitExecutePayment (slow_server 0) no_pay_faults demo_pay ([other_row], (0, 0)) = (Inl e, [other_row], (0, 0))"
proof -
  obtain res tbl' w' where r: "submitExecutePayment (slow_server 0) no_pay_faults demo_pay ([other_row], (0, 0)) = (res, tbl', w')"
    by (metis prod.collapse)
  have k: "List.find (is_key ''k1'') [other_row] = Some other_row" by (simp add: is_key_def other_row_def)
  have "active_key demo_pay = Some ''k1''" "ik_merchant other_row \<noteq> ep_merchant demo_pay"
    by (simp_all add: demo_pay_def active_key_def truthy_text_def other_row_def)
  then show ?thesis using key_bound_to_payment [OF k r] r by auto
qed

text \<open>A payment that is confirmed late is made twice: if the first transaction is not confirmed
  within the 20 polls, the call fails and records the key as failed although the transaction may
  still succeed; a retry with the same key then submits a second transaction, and both succeed.\<close>

theorem late_confirmation_pays_twice:
  "\<exists>tbl1 tbl2 w1 w2.
     submitExecutePayment (slow_server 20) no_pay_faults demo_pay ([], (0, 0)) =
       (Inl (HelperError ''Transaction tx1 not confirmed after 30 s''), tbl1, w1) \<and>
     submitExecutePayment (slow_server 20) no_pay_faults demo_pay (tbl1, w1) =
       (Inr \<lparr>ir_txHash = ''tx2'', ir_isRetry = False\<rparr>, tbl2, w2) \<and>
     fst w2 = 2 \<and> fst (ps_getTransaction (slow_server 20) ''tx1'' w2) = Inr TxSuccess"
proof -
  let ?a = "submitExecutePayment (slow_server 20) no_pay_faults demo_pay ([], (0, 0))"
  let ?b = "submitExecutePayment (slow_server 20) no_pay_faults demo_pay (snd ?a)"
  have "fst ?a = Inl (HelperError ''Transaction tx1 not confirmed after 30 s'')" by code_simp
  moreover have "fst ?b = Inr \<lparr>ir_txHash = ''tx2'', ir_isRetry = False\<rparr>" by code_simp
  moreover have "snd (snd ?b) = (2, 21)" by code_simp
  moreover have "fst (ps_getTransaction (slow_server 20) ''tx1'' (2, 21)) = Inr TxSuccess" by code_simp
  ultimately show ?thesis by (metis fst_conv prod.collapse)
qed

end
