(* ===== verification/Circuit_Breaker.thy ===== *)
theory Circuit_Breaker
  imports Prelude
begin

text \<open>
  Circuit breakers. The interface says what a client may rely on: once enough calls have failed the
  breaker is open, and an open breaker lets no call pass before its recovery window has elapsed. What
  follows for a run of failing calls is proved once from the interface. The breaker of
  \<^verbatim>\<open>lib/redis.ts\<close> is modelled and shown to satisfy the stronger, probing contract here; the
  endpoints of \<^verbatim>\<open>rpc/rpcPool.ts\<close> satisfy the weaker one (theory \<open>Rpc_Pool\<close>).
\<close>

section \<open>The interface\<close>

text \<open>Calls that come one after the other, each with the time it arrives and the time its failure is
  known if it is made, and the calls among them that are really made when all of them fail.\<close>

fun failing_attempts :: "(int \<Rightarrow> 's \<Rightarrow> bool \<times> 's) \<Rightarrow> (int \<Rightarrow> 's \<Rightarrow> 's) \<Rightarrow> (int \<times> int) list \<Rightarrow> 's \<Rightarrow> (int \<times> int) list" where
  "failing_attempts permit failed [] s = []"
| "failing_attempts permit failed ((t, f) # ts) s =
     (case permit t s of
        (True, s') \<Rightarrow> (t, f) # failing_attempts permit failed ts (failed f s')
      | (False, s') \<Rightarrow> failing_attempts permit failed ts s')"

definition in_sequence :: "(int \<times> int) list \<Rightarrow> bool" where
  "in_sequence ts \<longleftrightarrow> (\<forall>c \<in> set ts. fst c \<le> snd c) \<and> sorted_wrt (\<lambda>c d. snd c \<le> fst d) ts"

lemma in_sequence_Cons [simp]:
  "in_sequence (c # ts) \<longleftrightarrow> fst c \<le> snd c \<and> (\<forall>d \<in> set ts. snd c \<le> fst d) \<and> in_sequence ts"
  "in_sequence []"
  by (auto simp: in_sequence_def)

text \<open>\<open>opened s\<close> is the time of the failure that opened the breaker; \<open>need s\<close> bounds how many more
  failing calls open a closed one.\<close>

locale breaker =
  fixes permit :: "int \<Rightarrow> 's \<Rightarrow> bool \<times> 's"
    and failed :: "int \<Rightarrow> 's \<Rightarrow> 's"
    and opened :: "'s \<Rightarrow> int option"
    and need :: "'s \<Rightarrow> nat"
    and threshold :: nat
    and window :: int
    and invar :: "'s \<Rightarrow> bool"
  assumes permit_open: "invar s \<Longrightarrow> opened s = Some t0 \<Longrightarrow> fst (permit t s) \<Longrightarrow> t0 + window \<le> t"
    and refuse_keeps: "invar s \<Longrightarrow> \<not> fst (permit t s) \<Longrightarrow> snd (permit t s) = s"
    and failed_counts: "invar s \<Longrightarrow> fst (permit t s) \<Longrightarrow>
      opened (failed f (snd (permit t s))) = Some f \<or>
      0 < need (failed f (snd (permit t s))) \<and> need (failed f (snd (permit t s))) < need s"
    and need_le: "invar s \<Longrightarrow> need s \<le> threshold"
    and invar_failed: "invar s \<Longrightarrow> fst (permit t s) \<Longrightarrow> invar (failed f (snd (permit t s)))"
begin

abbreviation attempts :: "(int \<times> int) list \<Rightarrow> 's \<Rightarrow> (int \<times> int) list" where
  "attempts \<equiv> failing_attempts permit failed"

abbreviation failed_call :: "int \<times> int \<Rightarrow> 's \<Rightarrow> 's" where
  "failed_call c s \<equiv> failed (snd c) (snd (permit (fst c) s))"

lemma attempts_permitted: "fst (permit (fst c) s) \<Longrightarrow> attempts (c # ts) s = c # attempts ts (failed_call c s)"
  by (cases c) (auto split: prod.splits bool.splits)

lemma attempts_refused: "invar s \<Longrightarrow> \<not> fst (permit (fst c) s) \<Longrightarrow> attempts (c # ts) s = attempts ts s"
  using refuse_keeps [of s "fst c"] by (cases c) (auto split: prod.splits bool.splits)

lemma attempts_subset: "set (attempts ts s) \<subseteq> set ts"
proof (induction ts arbitrary: s)
  case (Cons c ts)
  show ?case using Cons.IH by (cases c) (force split: prod.splits bool.splits)
qed simp

lemma attempts_after: "in_sequence (c # ts) \<Longrightarrow> a \<in> set (attempts ts s) \<Longrightarrow> snd c \<le> fst a"
  using attempts_subset [of ts s] by auto

lemma attempts_open:
  "invar s \<Longrightarrow> opened s = Some t0 \<Longrightarrow> in_sequence ts \<Longrightarrow> a \<in> set (attempts ts s) \<Longrightarrow> t0 + window \<le> fst a"
proof (induction ts)
  case (Cons c ts)
  show ?case
  proof (cases "fst (permit (fst c) s)")
    case True
    then have "t0 + window \<le> fst c" using permit_open Cons.prems by blast
    moreover have "a = c \<or> a \<in> set (attempts ts (failed_call c s))"
      using Cons.prems(4) unfolding attempts_permitted [OF True, of ts] by simp
    moreover have "fst c \<le> snd c" using Cons.prems(3) by simp
    ultimately show ?thesis using attempts_after [OF Cons.prems(3), of a "failed_call c s"] by force
  next
    case False
    then show ?thesis using Cons by (simp add: attempts_refused del: failing_attempts.simps)
  qed
qed simp

lemma attempts_nth_need:
  "invar s \<Longrightarrow> in_sequence ts \<Longrightarrow> need s \<le> k \<Longrightarrow> 0 < k \<Longrightarrow> k < length (attempts ts s) \<Longrightarrow>
   snd (attempts ts s ! 0) + window \<le> fst (attempts ts s ! k)"
proof (induction ts arbitrary: s k)
  case (Cons c ts)
  show ?case
  proof (cases "fst (permit (fst c) s)")
    case True
    let ?r = "failed_call c s"
    note as = attempts_permitted [OF True, of ts] and inv = invar_failed [OF Cons.prems(1) True, of "snd c"]
    obtain j where j: "k = Suc j" "j < length (attempts ts ?r)"
      using Cons.prems as by (cases k) auto
    have "snd c + window \<le> fst (attempts ts ?r ! j)"
    proof (cases "opened ?r = Some (snd c)")
      case True
      then show ?thesis using attempts_open [OF inv, of "snd c" ts] Cons.prems(2) j by simp
    next
      case False
      then have "0 < need ?r" "need ?r < need s" using failed_counts [OF Cons.prems(1) True] by auto
      then have "need ?r \<le> j" "0 < j" using Cons.prems(3) j by simp_all
      then have "snd (attempts ts ?r ! 0) + window \<le> fst (attempts ts ?r ! j)"
        using Cons.IH [OF inv, of j] Cons.prems j by simp
      moreover have m: "attempts ts ?r ! 0 \<in> set (attempts ts ?r)" using j(2) by (intro nth_mem) (cases "attempts ts ?r", simp_all)
      then have "snd c \<le> fst (attempts ts ?r ! 0)" using attempts_after [OF Cons.prems(2)] by blast
      moreover have "fst (attempts ts ?r ! 0) \<le> snd (attempts ts ?r ! 0)"
        using m attempts_subset Cons.prems(2) by (force simp: in_sequence_def)
      ultimately show ?thesis by linarith
    qed
    then show ?thesis using as j by simp
  next
    case False
    then show ?thesis using Cons by (simp add: attempts_refused del: failing_attempts.simps)
  qed
qed simp

lemma attempts_drop:
  "invar s \<Longrightarrow> in_sequence ts \<Longrightarrow> \<exists>ts' s'. invar s' \<and> in_sequence ts' \<and> attempts ts' s' = drop i (attempts ts s)"
proof (induction ts arbitrary: s i)
  case (Cons c ts)
  consider "i = 0" | j where "i = Suc j" "fst (permit (fst c) s)" | "\<not> fst (permit (fst c) s)" by (cases i) auto
  then show ?case
  proof cases
    case 1
    then show ?thesis using Cons.prems by (metis drop0)
  next
    case 2
    then show ?thesis using Cons.IH [OF invar_failed [OF Cons.prems(1), of "fst c" "snd c"], of j] Cons.prems
      by (simp add: attempts_permitted del: failing_attempts.simps)
  next
    case 3
    then show ?thesis using Cons by (simp add: attempts_refused del: failing_attempts.simps)
  qed
qed (rule exI [of _ "[]"], auto)

text \<open>Any \<open>threshold + 1\<close> successive failing attempts span the recovery window.\<close>

lemma attempts_spaced:
  assumes "invar s" "in_sequence ts" "i + max 1 threshold < length (attempts ts s)"
  shows "snd (attempts ts s ! i) + window \<le> fst (attempts ts s ! (i + max 1 threshold))"
proof -
  obtain ts' s' where "invar s'" "in_sequence ts'" and d: "attempts ts' s' = drop i (attempts ts s)"
    using attempts_drop [OF assms(1,2)] by blast
  then have "snd (attempts ts' s' ! 0) + window \<le> fst (attempts ts' s' ! max 1 threshold)"
    using attempts_nth_need [of s' ts' "max 1 threshold"] need_le [of s'] assms(3) by (simp add: max_def)
  then show ?thesis using assms(3) by (simp add: d)
qed

end

text \<open>A breaker that probes with one call: a failure after the recovery window opens it again at once.\<close>

locale probing_breaker = breaker +
  assumes reopens: "invar s \<Longrightarrow> opened s \<noteq> None \<Longrightarrow> fst (permit t s) \<Longrightarrow>
    opened (failed f (snd (permit t s))) = Some f"
begin

lemma probes_spaced:
  "invar s \<Longrightarrow> opened s = Some t0 \<Longrightarrow> in_sequence ts \<Longrightarrow> Suc i < length (attempts ts s) \<Longrightarrow>
   snd (attempts ts s ! i) + window \<le> fst (attempts ts s ! Suc i)"
proof (induction ts arbitrary: s t0 i)
  case (Cons c ts)
  show ?case
  proof (cases "fst (permit (fst c) s)")
    case True
    note as = attempts_permitted [OF True, of ts] and inv = invar_failed [OF Cons.prems(1) True, of "snd c"]
    have r: "opened (failed_call c s) = Some (snd c)" using reopens Cons.prems(1,2) True by simp
    show ?thesis
    proof (cases i)
      case 0
      then show ?thesis using attempts_open [OF inv r, of ts] Cons.prems(3,4) as by simp
    next
      case (Suc j)
      then show ?thesis using Cons.IH [OF inv r, of j] Cons.prems(3,4) as by simp
    qed
  next
    case False
    then show ?thesis using Cons by (simp add: attempts_refused del: failing_attempts.simps)
  qed
qed simp

text \<open>So once \<open>need\<close> attempts have failed, every further attempt waits for a whole window.\<close>

lemma attempts_probe:
  "invar s \<Longrightarrow> in_sequence ts \<Longrightarrow> need s \<le> Suc i \<Longrightarrow> Suc i < length (attempts ts s) \<Longrightarrow>
   snd (attempts ts s ! i) + window \<le> fst (attempts ts s ! Suc i)"
proof (induction ts arbitrary: s i)
  case (Cons c ts)
  show ?case
  proof (cases "fst (permit (fst c) s)")
    case True
    let ?r = "failed_call c s"
    note as = attempts_permitted [OF True, of ts] and inv = invar_failed [OF Cons.prems(1) True, of "snd c"]
    show ?thesis
    proof (cases "opened ?r = Some (snd c)")
      case True
      then show ?thesis
        using attempts_open [OF inv True, of ts] probes_spaced [OF inv True, of ts] Cons.prems(2,4) as by (cases i) simp_all
    next
      case False
      then have "0 < need ?r" "need ?r < need s" using failed_counts [OF Cons.prems(1) True] by auto
      then obtain j where j: "i = Suc j" "need ?r \<le> Suc j" using Cons.prems(3) by (cases i) auto
      then show ?thesis using Cons.IH [OF inv, of j] Cons.prems(2,4) as by simp
    qed
  next
    case False
    then show ?thesis using Cons by (simp add: attempts_refused del: failing_attempts.simps)
  qed
qed simp

end

section \<open>The breaker of the Redis client\<close>

datatype CircuitState = Closed | Open | HalfOpen

record CircuitBreaker =
  cb_state :: CircuitState
  cb_failures :: nat
  cb_lastFailureAt :: int
  cb_failureThreshold :: nat
  cb_recoveryWindowMs :: int

definition new_CircuitBreaker :: "nat \<Rightarrow> int \<Rightarrow> CircuitBreaker" where
  "new_CircuitBreaker failureThreshold recoveryWindowMs =
     \<lparr>cb_state = Closed, cb_failures = 0, cb_lastFailureAt = 0,
      cb_failureThreshold = failureThreshold, cb_recoveryWindowMs = recoveryWindowMs\<rparr>"

definition default_CircuitBreaker :: CircuitBreaker where
  "default_CircuitBreaker = new_CircuitBreaker 3 10000"

definition allowCall :: "int \<Rightarrow> CircuitBreaker \<Rightarrow> bool \<times> CircuitBreaker" where
  "allowCall now b = (case cb_state b of
      Closed \<Rightarrow> (True, b)
    | Open \<Rightarrow> if now - cb_lastFailureAt b \<ge> cb_recoveryWindowMs b
              then (True, b\<lparr>cb_state := HalfOpen\<rparr>) else (False, b)
    | HalfOpen \<Rightarrow> (True, b))"

definition onSuccess :: "CircuitBreaker \<Rightarrow> CircuitBreaker" where
  "onSuccess b = b\<lparr>cb_state := Closed, cb_failures := 0\<rparr>"

definition onFailure :: "int \<Rightarrow> CircuitBreaker \<Rightarrow> CircuitBreaker" where
  "onFailure now b = (let b1 = b\<lparr>cb_failures := cb_failures b + 1, cb_lastFailureAt := now\<rparr> in
     if cb_state b1 = HalfOpen \<or> cb_failures b1 \<ge> cb_failureThreshold b1 then b1\<lparr>cb_state := Open\<rparr> else b1)"

definition currentState :: "CircuitBreaker \<Rightarrow> CircuitState" where
  "currentState b = cb_state b"

text \<open>It satisfies the probing contract, for whatever configuration it was constructed with.\<close>

definition cb_opened :: "CircuitBreaker \<Rightarrow> int option" where
  "cb_opened b = (if cb_state b = Open then Some (cb_lastFailureAt b) else None)"

definition cb_need :: "CircuitBreaker \<Rightarrow> nat" where
  "cb_need b = (if cb_state b = Closed then cb_failureThreshold b - cb_failures b else 0)"

definition cb_configured :: "nat \<Rightarrow> int \<Rightarrow> CircuitBreaker \<Rightarrow> bool" where
  "cb_configured n w b \<longleftrightarrow> cb_failureThreshold b = n \<and> cb_recoveryWindowMs b = w"

interpretation cb: probing_breaker allowCall onFailure cb_opened cb_need n w "cb_configured n w" for n w
  by unfold_locales
    (auto simp: allowCall_def onFailure_def cb_opened_def cb_need_def cb_configured_def Let_def
      split: CircuitState.splits if_splits)

end
