(* ===== verification/Rpc_Pool.thy ===== *)
theory Rpc_Pool
  imports Circuit_Breaker
begin

text \<open>
  The pool of Soroban RPC endpoints, \<^verbatim>\<open>rpc/rpcPool.ts\<close>: the constructor, the request loop with its
  fail-over, the circuit breaker of each endpoint, the read-only accessors and the single HTTP call.
  The network is an argument: \<open>pn_fetch\<close> gives the response (or the network error, a time-out
  included) to a posted body, and \<open>pn_clock\<close> is \<^verbatim>\<open>Date.now()\<close> in the current world. Requests are
  modelled one at a time.
\<close>

section \<open>Data\<close>

datatype EndpointState = Healthy | Unhealthy

record EndpointStatus =
  es_url :: string
  es_state :: EndpointState
  consecutiveFailures :: nat
  lastFailureAt :: "int option"
  totalRequests :: nat
  totalFailures :: nat
  lastCheckedAt :: "int option"

datatype pool_urls = UrlText string | UrlList "string list"

record RpcPoolConfig =
  pc_urls :: pool_urls
  pc_failureThreshold :: "nat option"
  pc_recoveryTimeoutMs :: "int option"
  pc_requestTimeoutMs :: "int option"

record pool =
  endpoints :: "EndpointStatus list"
  currentIndex :: nat
  failureThreshold :: nat
  recoveryTimeoutMs :: int
  requestTimeoutMs :: int

text \<open>A request and the body that is posted for it; parameters and responses stay abstract.\<close>

datatype rpc_id = IdNumber int | IdText string

record 'p RpcRequest =
  rq_method :: string
  rq_params :: "'p list option"
  rq_id :: "rpc_id option"

record 'p rpc_body =
  bd_jsonrpc :: string
  bd_id :: rpc_id
  bd_method :: string
  bd_params :: "'p list"

record 'r http_reply =
  hr_status :: nat
  hr_json :: "string + 'r"

record ('p, 'r, 'w) pool_net =
  pn_fetch :: "int \<Rightarrow> string \<Rightarrow> 'p rpc_body \<Rightarrow> 'w \<Rightarrow> (string + 'r http_reply) \<times> 'w"
  pn_clock :: "'w \<Rightarrow> int"

section \<open>Construction\<close>

text \<open>\<^verbatim>\<open>[...new Set(xs)]\<close> keeps the first occurrence of each text.\<close>

definition js_unique :: "'a list \<Rightarrow> 'a list" where
  "js_unique xs = rev (remdups (rev xs))"

definition fresh_endpoint :: "string \<Rightarrow> EndpointStatus" where
  "fresh_endpoint u = \<lparr>es_url = u, es_state = Healthy, consecutiveFailures = 0, lastFailureAt = None,
     totalRequests = 0, totalFailures = 0, lastCheckedAt = None\<rparr>"

definition raw_urls :: "pool_urls \<Rightarrow> string list" where
  "raw_urls us = (case us of UrlList xs \<Rightarrow> xs | UrlText s \<Rightarrow> map js_trim (js_split (CHR '','') s))"

definition or_default :: "'a option \<Rightarrow> 'a \<Rightarrow> 'a" where
  "or_default x d = (case x of None \<Rightarrow> d | Some v \<Rightarrow> v)"

definition new_pool :: "RpcPoolConfig \<Rightarrow> string + pool" where
  "new_pool config = (let urls = js_unique (filter (\<lambda>u. u \<noteq> '''') (raw_urls (pc_urls config))) in
     if urls = [] then Inl ''RpcConnectionPool: at least one RPC URL is required''
     else Inr \<lparr>endpoints = map fresh_endpoint urls, currentIndex = 0,
       failureThreshold = or_default (pc_failureThreshold config) 3,
       recoveryTimeoutMs = or_default (pc_recoveryTimeoutMs config) 60000,
       requestTimeoutMs = or_default (pc_requestTimeoutMs config) 10000\<rparr>)"

section \<open>The breaker of an endpoint\<close>

definition recover_endpoint :: "int \<Rightarrow> int \<Rightarrow> EndpointStatus \<Rightarrow> EndpointStatus" where
  "recover_endpoint timeout now ep =
     (if es_state ep = Unhealthy \<and> (case lastFailureAt ep of None \<Rightarrow> False | Some t \<Rightarrow> now - t \<ge> timeout)
      then ep\<lparr>es_state := Healthy, consecutiveFailures := 0\<rparr> else ep)"

definition maybeRecoverEndpoints :: "int \<Rightarrow> pool \<Rightarrow> pool" where
  "maybeRecoverEndpoints now p = p\<lparr>endpoints := map (recover_endpoint (recoveryTimeoutMs p) now) (endpoints p)\<rparr>"

definition recordSuccess :: "int \<Rightarrow> EndpointStatus \<Rightarrow> EndpointStatus" where
  "recordSuccess now ep = (let ep1 = ep\<lparr>consecutiveFailures := 0, totalRequests := totalRequests ep + 1,
       lastCheckedAt := Some now\<rparr> in
     if es_state ep1 \<noteq> Healthy then ep1\<lparr>es_state := Healthy\<rparr> else ep1)"

definition recordFailure :: "nat \<Rightarrow> int \<Rightarrow> EndpointStatus \<Rightarrow> EndpointStatus" where
  "recordFailure threshold now ep = (let ep1 = ep\<lparr>consecutiveFailures := consecutiveFailures ep + 1,
       totalFailures := totalFailures ep + 1, totalRequests := totalRequests ep + 1,
       lastFailureAt := Some now, lastCheckedAt := Some now\<rparr> in
     if consecutiveFailures ep1 \<ge> threshold then ep1\<lparr>es_state := Unhealthy\<rparr> else ep1)"

section \<open>Requests\<close>

definition request_body :: "'p RpcRequest \<Rightarrow> 'p rpc_body" where
  "request_body req = \<lparr>bd_jsonrpc = ''2.0'', bd_id = or_default (rq_id req) (IdNumber 1), bd_method = rq_method req,
     bd_params = or_default (rq_params req) []\<rparr>"

definition sendRequest ::
  "('p, 'r, 'w) pool_net \<Rightarrow> int \<Rightarrow> string \<Rightarrow> 'p RpcRequest \<Rightarrow> 'w \<Rightarrow> (string + 'r) \<times> 'w" where
  "sendRequest net timeout url req w =
     (case pn_fetch net timeout url (request_body req) w of
        (Inl err, w1) \<Rightarrow> (Inl err, w1)
      | (Inr res, w1) \<Rightarrow>
          if hr_status res = 429 then (Inl (''HTTP 429 rate-limited by '' @ url), w1)
          else if \<not> (200 \<le> hr_status res \<and> hr_status res \<le> 299)
          then (Inl (''HTTP '' @ nat_str (hr_status res) @ '' from '' @ url), w1)
          else (hr_json res, w1))"

text \<open>One pass over the offsets, from the pointer the request started with.\<close>

fun request_loop ::
  "('p, 'r, 'w) pool_net \<Rightarrow> 'p RpcRequest \<Rightarrow> nat \<Rightarrow> nat list \<Rightarrow> string list \<Rightarrow> pool \<times> 'w \<Rightarrow> (string + 'r) \<times> pool \<times> 'w" where
  "request_loop net req startIndex [] tried (p, w) =
     (Inl ''[RpcPool] All RPC endpoints are unavailable or exhausted'', p, w)"
| "request_loop net req startIndex (offset # offsets) tried (p0, w) =
     (let p = maybeRecoverEndpoints (pn_clock net w) p0;
          idx = (startIndex + offset) mod length (endpoints p);
          ep = endpoints p ! idx in
      if es_url ep \<in> set tried \<or> es_state ep \<noteq> Healthy
      then request_loop net req startIndex offsets tried (p, w)
      else (case sendRequest net (requestTimeoutMs p) (es_url ep) req w of
          (Inr response, w1) \<Rightarrow>
            (let p1 = p\<lparr>endpoints := (endpoints p)[idx := recordSuccess (pn_clock net w1) ep]\<rparr> in
             (Inr response, (if offset = 0 then p1\<lparr>currentIndex := (idx + 1) mod length (endpoints p1)\<rparr> else p1), w1))
        | (Inl err, w1) \<Rightarrow>
            request_loop net req startIndex offsets (es_url ep # tried)
              (p\<lparr>endpoints := (endpoints p)[idx := recordFailure (failureThreshold p) (pn_clock net w1) ep]\<rparr>, w1)))"

definition request ::
  "('p, 'r, 'w) pool_net \<Rightarrow> 'p RpcRequest \<Rightarrow> pool \<times> 'w \<Rightarrow> (string + 'r) \<times> pool \<times> 'w" where
  "request net req s = (case s of (p, w) \<Rightarrow> request_loop net req (currentIndex p) [0..<length (endpoints p)] [] (p, w))"

section \<open>Accessors\<close>

definition getStatus :: "int \<Rightarrow> pool \<Rightarrow> EndpointStatus list \<times> pool" where
  "getStatus now p = (let p1 = maybeRecoverEndpoints now p in (endpoints p1, p1))"

definition pickEndpoint :: "int \<Rightarrow> pool \<Rightarrow> EndpointStatus option \<times> pool" where
  "pickEndpoint now p0 = (let p = maybeRecoverEndpoints now p0; n = length (endpoints p) in
     case List.find (\<lambda>idx. es_state (endpoints p ! idx) = Healthy) (map (\<lambda>i. (currentIndex p + i) mod n) [0..<n]) of
       None \<Rightarrow> (None, p)
     | Some idx \<Rightarrow> (Some (endpoints p ! idx), p\<lparr>currentIndex := idx\<rparr>))"

definition activeUrl :: "int \<Rightarrow> pool \<Rightarrow> string option \<times> pool" where
  "activeUrl now p = (case pickEndpoint now (maybeRecoverEndpoints now p) of
     (ep, p1) \<Rightarrow> (map_option es_url ep, p1))"

definition pool_size :: "pool \<Rightarrow> nat" where
  "pool_size p = length (endpoints p)"

definition healthyCount :: "int \<Rightarrow> pool \<Rightarrow> nat \<times> pool" where
  "healthyCount now p = (let p1 = maybeRecoverEndpoints now p in
     (length (filter (\<lambda>ep. es_state ep = Healthy) (endpoints p1)), p1))"

definition advanceIndex :: "pool \<Rightarrow> pool" where
  "advanceIndex p = p\<lparr>currentIndex := (currentIndex p + 1) mod length (endpoints p)\<rparr>"

text \<open>The singleton of the module, with the environment variables given as read: the URLs as text
  and the three numbers as parsed.\<close>

definition env_config :: "string option \<Rightarrow> nat option \<Rightarrow> int option \<Rightarrow> int option \<Rightarrow> RpcPoolConfig" where
  "env_config urls threshold recovery timeout =
     \<lparr>pc_urls = UrlText (case urls of None \<Rightarrow> ''https://soroban-testnet.stellar.org''
        | Some u \<Rightarrow> if u = '''' then ''https://soroban-testnet.stellar.org'' else u),
      pc_failureThreshold = Some (or_default threshold 3), pc_recoveryTimeoutMs = Some (or_default recovery 60000),
      pc_requestTimeoutMs = Some (or_default timeout 10000)\<rparr>"

definition getRpcPool :: "RpcPoolConfig \<Rightarrow> pool option \<Rightarrow> (string + pool) \<times> pool option" where
  "getRpcPool config cached = (case cached of
      Some p \<Rightarrow> (Inr p, cached)
    | None \<Rightarrow> (case new_pool config of Inl e \<Rightarrow> (Inl e, None) | Inr p \<Rightarrow> (Inr p, Some p)))"

definition resetRpcPool :: "pool option \<Rightarrow> pool option" where
  "resetRpcPool cached = None"

section \<open>An endpoint is a circuit breaker\<close>

definition endpoint_permit :: "int \<Rightarrow> int \<Rightarrow> EndpointStatus \<Rightarrow> bool \<times> EndpointStatus" where
  "endpoint_permit timeout now ep = (es_state (recover_endpoint timeout now ep) = Healthy, recover_endpoint timeout now ep)"

definition endpoint_opened :: "EndpointStatus \<Rightarrow> int option" where
  "endpoint_opened ep = (if es_state ep = Unhealthy then lastFailureAt ep else None)"

definition endpoint_need :: "nat \<Rightarrow> EndpointStatus \<Rightarrow> nat" where
  "endpoint_need n ep = (if es_state ep = Healthy then n - consecutiveFailures ep else n)"

lemma not_Healthy [simp]: "s \<noteq> Healthy \<longleftrightarrow> s = Unhealthy" "s \<noteq> Unhealthy \<longleftrightarrow> s = Healthy"
  by (cases s; simp)+

interpretation endpoint: breaker "endpoint_permit timeout" "recordFailure n" endpoint_opened "endpoint_need n" n timeout
    "\<lambda>_. True" for n timeout
  by unfold_locales
    (auto simp: endpoint_permit_def recover_endpoint_def recordFailure_def endpoint_opened_def endpoint_need_def Let_def
      split: if_splits option.splits)

section \<open>The pool invariant\<close>

definition endpoint_ok :: "nat \<Rightarrow> EndpointStatus \<Rightarrow> bool" where
  "endpoint_ok threshold ep \<longleftrightarrow>
     (es_state ep = Healthy \<longrightarrow> consecutiveFailures ep < max 1 threshold) \<and>
     (es_state ep = Unhealthy \<longrightarrow> lastFailureAt ep \<noteq> None \<and> threshold \<le> consecutiveFailures ep) \<and>
     consecutiveFailures ep \<le> totalFailures ep \<and> totalFailures ep \<le> totalRequests ep"

definition pool_ok :: "pool \<Rightarrow> bool" where
  "pool_ok p \<longleftrightarrow> endpoints p \<noteq> [] \<and> distinct (map es_url (endpoints p)) \<and>
     currentIndex p < length (endpoints p) \<and> (\<forall>ep \<in> set (endpoints p). endpoint_ok (failureThreshold p) ep)"

lemma recover_ok: "endpoint_ok n ep \<Longrightarrow> endpoint_ok n (recover_endpoint t now ep)"
  by (auto simp: endpoint_ok_def recover_endpoint_def)

lemma success_ok: "endpoint_ok n ep \<Longrightarrow> endpoint_ok n (recordSuccess now ep)"
  by (auto simp: endpoint_ok_def recordSuccess_def Let_def)

lemma failure_ok: "endpoint_ok n ep \<Longrightarrow> endpoint_ok n (recordFailure n now ep)"
  by (auto simp: endpoint_ok_def recordFailure_def Let_def max_def split: if_splits)

lemma endpoint_urls [simp]:
  "es_url (recover_endpoint t now ep) = es_url ep" "es_url (recordSuccess now ep) = es_url ep"
  "es_url (recordFailure n now ep) = es_url ep" "es_url (fresh_endpoint u) = u"
  by (simp_all add: recover_endpoint_def recordSuccess_def recordFailure_def fresh_endpoint_def Let_def)

text \<open>What every step of the loop keeps.\<close>

definition same_pool :: "pool \<Rightarrow> pool \<Rightarrow> bool" where
  "same_pool p p' \<longleftrightarrow> map es_url (endpoints p') = map es_url (endpoints p) \<and> failureThreshold p' = failureThreshold p \<and>
     recoveryTimeoutMs p' = recoveryTimeoutMs p \<and> requestTimeoutMs p' = requestTimeoutMs p"

lemma same_pool_length: "same_pool p p' \<Longrightarrow> length (endpoints p') = length (endpoints p)"
  by (metis length_map same_pool_def)

lemma recover_pool_fields [simp]:
  "length (endpoints (maybeRecoverEndpoints now p)) = length (endpoints p)"
  "currentIndex (maybeRecoverEndpoints now p) = currentIndex p"
  "failureThreshold (maybeRecoverEndpoints now p) = failureThreshold p"
  "recoveryTimeoutMs (maybeRecoverEndpoints now p) = recoveryTimeoutMs p"
  "requestTimeoutMs (maybeRecoverEndpoints now p) = requestTimeoutMs p"
  "map es_url (endpoints (maybeRecoverEndpoints now p)) = map es_url (endpoints p)"
  "i < length (endpoints p) \<Longrightarrow>
     endpoints (maybeRecoverEndpoints now p) ! i = recover_endpoint (recoveryTimeoutMs p) now (endpoints p ! i)"
  by (simp_all add: maybeRecoverEndpoints_def comp_def)

lemma recover_pool_ok: "pool_ok p \<Longrightarrow> pool_ok (maybeRecoverEndpoints now p)"
  by (auto simp: pool_ok_def recover_ok maybeRecoverEndpoints_def comp_def)

lemma update_endpoint_ok:
  assumes "pool_ok p" "i < length (endpoints p)" "es_url ep = es_url (endpoints p ! i)" "endpoint_ok (failureThreshold p) ep"
  shows "pool_ok (p\<lparr>endpoints := (endpoints p)[i := ep]\<rparr>)"
proof -
  have "map es_url ((endpoints p)[i := ep]) = map es_url (endpoints p)"
    using assms(2,3) by (metis list_update_id map_update nth_map)
  then show ?thesis using assms set_update_subset_insert [of "endpoints p" i ep]
    by (auto simp: pool_ok_def dest!: subsetD)
qed


lemma failure_pool_ok:
  "pool_ok p \<Longrightarrow> i < length (endpoints p) \<Longrightarrow>
   pool_ok (p\<lparr>endpoints := (endpoints p)[i := recordFailure (failureThreshold p) now (endpoints p ! i)]\<rparr>)"
  by (rule update_endpoint_ok) (auto simp: pool_ok_def intro: failure_ok)

lemma same_pool_refl [simp]: "same_pool p p"
  by (simp add: same_pool_def)

lemma same_pool_trans: "same_pool p q \<Longrightarrow> same_pool q r \<Longrightarrow> same_pool p r"
  by (simp add: same_pool_def)

lemma same_pool_recover: "same_pool p (maybeRecoverEndpoints now p)"
  by (simp add: same_pool_def)

lemma same_pool_update:
  "i < length (endpoints p) \<Longrightarrow> es_url ep = es_url (endpoints p ! i) \<Longrightarrow> same_pool p (p\<lparr>endpoints := (endpoints p)[i := ep]\<rparr>)"
  by (simp add: same_pool_def) (metis list_update_id map_update nth_map)

lemma same_pool_step:
  "q = maybeRecoverEndpoints now p \<Longrightarrow> i < length (endpoints q) \<Longrightarrow> ep = endpoints q ! i \<Longrightarrow> es_url ep' = es_url ep \<Longrightarrow>
   same_pool p (q\<lparr>endpoints := (endpoints q)[i := ep']\<rparr>)"
  using same_pool_trans [OF same_pool_recover same_pool_update] by blast

text \<open>One iteration, as a case rule: the endpoint is skipped, answers, or fails.\<close>

lemma request_loop_cases:
  assumes "request_loop net req st (offset # offsets) tried (p0, w) = (res, p', w')" "endpoints p0 \<noteq> []"
  obtains p i ep where "p = maybeRecoverEndpoints (pn_clock net w) p0" "i = (st + offset) mod length (endpoints p0)"
      "i < length (endpoints p)" "ep = endpoints p ! i"
      "es_url ep \<in> set tried \<or> es_state ep \<noteq> Healthy"
      "request_loop net req st offsets tried (p, w) = (res, p', w')"
    | p i ep r p1 where "p = maybeRecoverEndpoints (pn_clock net w) p0" "i = (st + offset) mod length (endpoints p0)"
      "i < length (endpoints p)" "ep = endpoints p ! i"
      "sendRequest net (requestTimeoutMs p0) (es_url ep) req w = (Inr r, w')" "res = Inr r"
      "p1 = p\<lparr>endpoints := (endpoints p)[i := recordSuccess (pn_clock net w') ep]\<rparr>"
      "p' = (if offset = 0 then p1\<lparr>currentIndex := (i + 1) mod length (endpoints p0)\<rparr> else p1)"
    | p i ep e w1 where "p = maybeRecoverEndpoints (pn_clock net w) p0" "i = (st + offset) mod length (endpoints p0)"
      "i < length (endpoints p)" "ep = endpoints p ! i"
      "sendRequest net (requestTimeoutMs p0) (es_url ep) req w = (Inl e, w1)"
      "request_loop net req st offsets (es_url ep # tried)
         (p\<lparr>endpoints := (endpoints p)[i := recordFailure (failureThreshold p) (pn_clock net w1) ep]\<rparr>, w1) = (res, p', w')"
proof -
  let ?p = "maybeRecoverEndpoints (pn_clock net w) p0"
  let ?i = "(st + offset) mod length (endpoints p0)"
  have i: "?i < length (endpoints ?p)" using assms(2) by simp
  obtain a w1 where s: "sendRequest net (requestTimeoutMs p0) (es_url (endpoints ?p ! ?i)) req w = (a, w1)"
    by (metis prod.exhaust)
  show thesis
  proof (cases "es_url (endpoints ?p ! ?i) \<in> set tried \<or> es_state (endpoints ?p ! ?i) \<noteq> Healthy")
    case True
    then show thesis using assms(1) by (intro that(1) [OF refl refl i refl]) (simp_all add: Let_def)
  next
    case False
    show thesis
    proof (cases a)
      case (Inl e)
      show thesis using assms(1) False s Inl
        by (intro that(3) [OF refl refl i refl]) (simp_all add: Let_def)
    next
      case (Inr r)
      show thesis using assms(1) False s Inr
        by (intro that(2) [OF refl refl i refl _ _ refl]) (auto simp: Let_def)
    qed
  qed
qed

lemma request_loop_ok:
  "pool_ok p \<Longrightarrow> request_loop net req st offs tried (p, w) = (res, p', w') \<Longrightarrow> pool_ok p' \<and> same_pool p p'"
proof (induction offs arbitrary: p w tried)
  case (Cons offset offs)
  have ne: "endpoints p \<noteq> []" using Cons.prems(1) by (simp add: pool_ok_def)
  show ?case using Cons.prems(2)
  proof (cases rule: request_loop_cases [OF _ ne, consumes 1, case_names skip answer failed])
    case (skip q i ep)
    show ?thesis using Cons.IH [OF _ skip(6)] recover_pool_ok [OF Cons.prems(1)] same_pool_recover same_pool_trans
      unfolding skip(1) by blast
  next
    case (answer q i ep r p1)
    have q: "pool_ok q" using recover_pool_ok [OF Cons.prems(1)] answer(1) by simp
    then have "endpoint_ok (failureThreshold q) ep" using answer(3,4) by (auto simp: pool_ok_def)
    then have "pool_ok p1" unfolding answer(7) using answer(3,4) q by (intro update_endpoint_ok success_ok) auto
    moreover have "same_pool p p1" unfolding answer(7) using same_pool_step [OF answer(1,3,4)] by simp
    ultimately show ?thesis using answer(8) ne same_pool_length [of p p1]
      by (auto simp: pool_ok_def same_pool_def)
  next
    case (failed q i ep e w1)
    have q: "pool_ok q" using recover_pool_ok [OF Cons.prems(1)] failed(1) by simp
    then have "pool_ok (q\<lparr>endpoints := (endpoints q)[i := recordFailure (failureThreshold q) (pn_clock net w1) ep]\<rparr>)"
      unfolding failed(4) by (rule failure_pool_ok [OF _ failed(3)])
    moreover have "same_pool p (q\<lparr>endpoints := (endpoints q)[i := recordFailure (failureThreshold q) (pn_clock net w1) ep]\<rparr>)"
      using same_pool_step [OF failed(1,3,4)] by simp
    ultimately show ?thesis using Cons.IH [OF _ failed(6)] same_pool_trans by blast
  qed
qed simp

lemma new_pool_ok: "new_pool config = Inr p \<Longrightarrow> pool_ok p"
  by (auto simp: new_pool_def pool_ok_def endpoint_ok_def fresh_endpoint_def js_unique_def Let_def comp_def distinct_rev
      split: if_splits)

lemma request_ok: "pool_ok p \<Longrightarrow> request net req (p, w) = (res, p', w') \<Longrightarrow> pool_ok p' \<and> same_pool p p'"
  unfolding request_def by (simp add: request_loop_ok)


section \<open>Properties\<close>

lemma recover_healthy: "es_state ep = Healthy \<Longrightarrow> recover_endpoint t now ep = ep"
  by (simp add: recover_endpoint_def)

lemma distinct_url_other:
  "distinct (map es_url eps) \<Longrightarrow> i < length eps \<Longrightarrow> j < length eps \<Longrightarrow> i \<noteq> j \<Longrightarrow> es_url (eps ! i) \<noteq> es_url (eps ! j)"
  by (metis distinct_conv_nth length_map nth_map)

text \<open>What is known of one endpoint while the loop has not reached it.\<close>

definition awaits :: "('p, 'r, 'w) pool_net \<Rightarrow> nat \<Rightarrow> string \<Rightarrow> string list \<Rightarrow> pool \<times> 'w \<Rightarrow> bool" where
  "awaits net i u tried s \<longleftrightarrow> (case s of (p, w) \<Rightarrow> pool_ok p \<and> i < length (endpoints p) \<and> es_url (endpoints p ! i) = u \<and>
     es_state (recover_endpoint (recoveryTimeoutMs p) (pn_clock net w) (endpoints p ! i)) = Healthy \<and> u \<notin> set tried)"

lemma awaits_skip:
  assumes "awaits net i u tried (p0, w)" "p = maybeRecoverEndpoints (pn_clock net w) p0"
  shows "awaits net i u tried (p, w)" "es_state (endpoints p ! i) = Healthy" "es_url (endpoints p ! i) = u"
  using assms recover_pool_ok by (auto simp: awaits_def recover_healthy)

lemma awaits_failed:
  assumes "awaits net i u tried (p0, w)" "p = maybeRecoverEndpoints (pn_clock net w) p0" "j < length (endpoints p)"
    "j \<noteq> i" "ep = endpoints p ! j"
  shows "awaits net i u (es_url ep # tried)
    (p\<lparr>endpoints := (endpoints p)[j := recordFailure (failureThreshold p) t ep]\<rparr>, w1)"
proof -
  note s = awaits_skip [OF assms(1,2)]
  have p: "pool_ok p" "i < length (endpoints p)" "u \<notin> set tried" using s(1) by (auto simp: awaits_def)
  then have "es_url ep \<noteq> u"
    using assms(3-5) s(3) distinct_url_other [of "endpoints p" j i] by (auto simp: pool_ok_def)
  then show ?thesis
    using p s(2,3) assms(3-5) failure_pool_ok [OF p(1) assms(3)] by (auto simp: awaits_def recover_healthy)
qed

lemma request_loop_answers:
  assumes "awaits net i u tried (p, w)" "\<exists>offset \<in> set offs. (st + offset) mod length (endpoints p) = i"
    and good: "\<And>w. \<exists>r w1. sendRequest net (requestTimeoutMs p) u req w = (Inr r, w1)"
  shows "\<exists>r p' w'. request_loop net req st offs tried (p, w) = (Inr r, p', w')"
  using assms
proof (induction offs arbitrary: p w tried)
  case (Cons offset offs)
  obtain res p' w' where l: "request_loop net req st (offset # offs) tried (p, w) = (res, p', w')"
    by (metis prod.exhaust)
  have ne: "endpoints p \<noteq> []" using Cons.prems(1) by (auto simp: awaits_def pool_ok_def)
  from l ne show ?case
  proof (cases rule: request_loop_cases [case_names skip answer failed])
    case (skip q j ep)
    note s = awaits_skip [OF Cons.prems(1) skip(1)]
    have "j \<noteq> i" using s skip(4,5) by (auto simp: awaits_def)
    then show ?thesis using Cons.IH [OF s(1)] Cons.prems(2,3) skip(1,2,6) l by auto
  next
    case (answer q j ep r p1)
    then show ?thesis using l by simp
  next
    case (failed q j ep e w1)
    have "j \<noteq> i" using awaits_skip(3) [OF Cons.prems(1) failed(1)] Cons.prems(3) [of w] failed(4,5) by auto
    note a = awaits_failed [OF Cons.prems(1) failed(1,3) this failed(4), of "pn_clock net w1" w1]
    show ?thesis using Cons.IH [OF a] Cons.prems(2,3) failed(1,2,6) l \<open>j \<noteq> i\<close> by auto
  qed
qed simp

lemma request_loop_source:
  "pool_ok p \<Longrightarrow> request_loop net req st offs tried (p, w) = (Inr r, p', w') \<Longrightarrow>
   \<exists>u w0. u \<in> es_url ` set (endpoints p) \<and> sendRequest net (requestTimeoutMs p) u req w0 = (Inr r, w')"
proof (induction offs arbitrary: p w tried)
  case (Cons offset offs)
  have ne: "endpoints p \<noteq> []" using Cons.prems(1) by (auto simp: pool_ok_def)
  have urls: "es_url ` set (endpoints q) = es_url ` set (endpoints p)" if "same_pool p q" for q
    using that by (metis list.set_map same_pool_def)
  from Cons.prems(2) ne show ?case
  proof (cases rule: request_loop_cases [case_names skip answer failed])
    case (skip q j ep)
    then show ?thesis using Cons.IH [OF _ skip(6)] recover_pool_ok [OF Cons.prems(1)] urls [OF same_pool_recover] by simp
  next
    case (answer q j ep r' p1)
    then have "es_url ep \<in> es_url ` set (endpoints p)" using urls [OF same_pool_recover] by (metis image_eqI nth_mem)
    then show ?thesis using answer(5,6) by blast
  next
    case (failed q j ep e w1)
    let ?q = "q\<lparr>endpoints := (endpoints q)[j := recordFailure (failureThreshold q) (pn_clock net w1) ep]\<rparr>"
    have s: "same_pool p ?q" using same_pool_step [OF failed(1,3,4)] by simp
    have q: "pool_ok q" using recover_pool_ok [OF Cons.prems(1)] failed(1) by simp
    then have "pool_ok ?q" unfolding failed(4) by (rule failure_pool_ok [OF _ failed(3)])
    from Cons.IH [OF this failed(6)] obtain u w0 where "u \<in> es_url ` set (endpoints ?q)"
        "sendRequest net (requestTimeoutMs ?q) u req w0 = (Inr r, w')" by blast
    then show ?thesis unfolding urls [OF s] using s by (auto simp: same_pool_def)
  qed
qed simp

lemma offset_exists: "i < n \<Longrightarrow> s < n \<Longrightarrow> \<exists>offset \<in> set [0..<n]. (s + offset) mod n = (i :: nat)"
  by (rule bexI [of _ "(i + n - s) mod n"]) (auto simp: mod_simps)


text \<open>C17: A request is answered as long as one endpoint works: in a pool that is well formed (as the
  constructor builds it and every request keeps it), if some endpoint is healthy or due for recovery
  and answers whatever is sent to it, the request returns a response, however the other endpoints
  fail, and the response is one that a configured endpoint gave to this request.\<close>

theorem request_available:
  assumes "pool_ok p" "i < length (endpoints p)"
    "es_state (recover_endpoint (recoveryTimeoutMs p) (pn_clock net w) (endpoints p ! i)) = Healthy"
    "\<And>w. \<exists>r w1. sendRequest net (requestTimeoutMs p) (es_url (endpoints p ! i)) req w = (Inr r, w1)"
  shows "\<exists>r p' w' u w0. request net req (p, w) = (Inr r, p', w') \<and> pool_ok p' \<and> u \<in> es_url ` set (endpoints p) \<and>
    sendRequest net (requestTimeoutMs p) u req w0 = (Inr r, w')"
proof -
  let ?offs = "[0..<length (endpoints p)]"
  have "awaits net i (es_url (endpoints p ! i)) [] (p, w)" using assms(1-3) by (simp add: awaits_def)
  moreover have "\<exists>offset \<in> set ?offs. (currentIndex p + offset) mod length (endpoints p) = i"
    using offset_exists [OF assms(2)] assms(1) by (simp add: pool_ok_def)
  ultimately obtain r p' w' where l: "request_loop net req (currentIndex p) ?offs [] (p, w) = (Inr r, p', w')"
    using request_loop_answers [OF _ _ assms(4), where offs = ?offs and st = "currentIndex p" and tried = "[]" and w = w]
    by blast
  then show ?thesis using request_loop_ok [OF assms(1) l] request_loop_source [OF assms(1) l] by (auto simp: request_def)
qed

text \<open>A network where only one URL answers; the world counts the calls and is the clock.\<close>

definition one_url_net :: "string \<Rightarrow> (unit, nat, int) pool_net" where
  "one_url_net good = \<lparr>pn_fetch = (\<lambda>timeout u body w. (if u = good then Inr \<lparr>hr_status = 200, hr_json = Inr 7\<rparr>
     else Inr \<lparr>hr_status = 429, hr_json = Inl ''''\<rparr>, w + 1)), pn_clock = (\<lambda>w. w)\<rparr>"

definition ping_request :: "unit RpcRequest" where
  "ping_request = \<lparr>rq_method = ''getHealth'', rq_params = None, rq_id = None\<rparr>"

definition demo_pool :: pool where
  "demo_pool = \<lparr>endpoints = [fresh_endpoint ''a'', fresh_endpoint ''b'', fresh_endpoint ''c''], currentIndex = 0,
     failureThreshold = 3, recoveryTimeoutMs = 60000, requestTimeoutMs = 10000\<rparr>"

lemma demo_pool_ok: "pool_ok demo_pool"
  by (simp add: demo_pool_def pool_ok_def endpoint_ok_def fresh_endpoint_def)

theorem request_available_witness:
  "\<exists>r p' w'. request (one_url_net ''c'') ping_request (demo_pool, 0) = (Inr r, p', w') \<and> pool_ok p'"
proof -
  have "\<exists>r w1. sendRequest (one_url_net ''c'') 10000 ''c'' ping_request w = (Inr r, w1)" for w
    by (simp add: sendRequest_def one_url_net_def)
  then show ?thesis using request_available [OF demo_pool_ok, of 2 "one_url_net ''c''" 0 ping_request]
    by (auto simp: demo_pool_def fresh_endpoint_def recover_endpoint_def)
qed

text \<open>Two networks that differ at most on one URL.\<close>

definition nets_agree :: "string \<Rightarrow> ('p, 'r, 'w) pool_net \<Rightarrow> ('p, 'r, 'w) pool_net \<Rightarrow> bool" where
  "nets_agree u net net' \<longleftrightarrow> pn_clock net' = pn_clock net \<and>
     (\<forall>timeout v body w. v \<noteq> u \<longrightarrow> pn_fetch net' timeout v body w = pn_fetch net timeout v body w)"

definition open_at :: "nat \<Rightarrow> EndpointStatus \<Rightarrow> ('p, 'r, 'w) pool_net \<Rightarrow> pool \<Rightarrow> bool" where
  "open_at i ep net p \<longleftrightarrow> pool_ok p \<and> i < length (endpoints p) \<and> endpoints p ! i = ep \<and> es_state ep = Unhealthy \<and>
     (\<forall>w t. lastFailureAt ep = Some t \<longrightarrow> pn_clock net w < t + recoveryTimeoutMs p)"

lemma open_at_recover:
  assumes "open_at i ep net p"
  shows "open_at i ep net (maybeRecoverEndpoints (pn_clock net w) p)"
proof -
  have "\<not> (case lastFailureAt ep of None \<Rightarrow> False | Some t \<Rightarrow> pn_clock net w - t \<ge> recoveryTimeoutMs p)"
  proof (cases "lastFailureAt ep")
    case (Some t)
    then have "pn_clock net w < t + recoveryTimeoutMs p" using assms by (simp add: open_at_def)
    then show ?thesis using Some by simp
  qed simp
  then have "recover_endpoint (recoveryTimeoutMs p) (pn_clock net w) ep = ep" by (simp add: recover_endpoint_def)
  then show ?thesis using assms recover_pool_ok by (simp add: open_at_def)
qed

lemma request_loop_open:
  assumes "open_at i ep net p" "nets_agree (es_url ep) net net'"
  shows "request_loop net' req st offs tried (p, w) = request_loop net req st offs tried (p, w) \<and>
    endpoints (fst (snd (request_loop net req st offs tried (p, w)))) ! i = ep"
  using assms(1)
proof (induction offs arbitrary: p w tried)
  case Nil
  then show ?case by (simp add: open_at_def)
next
  case (Cons offset offs)
  obtain q where q: "q = maybeRecoverEndpoints (pn_clock net w) p" by simp
  define j where "j = (st + offset) mod length (endpoints q)"
  have o: "open_at i ep net q" using open_at_recover [OF Cons.prems] q by simp
  have clk: "pn_clock net' = pn_clock net" using assms(2) by (simp add: nets_agree_def)
  have len: "length (endpoints q) = length (endpoints p)" using q by simp
  have "endpoints p \<noteq> []" using Cons.prems by (auto simp: open_at_def pool_ok_def)
  then have jlt: "j < length (endpoints q)" unfolding j_def using len by (metis length_greater_0_conv mod_less_divisor)
  show ?case
  proof (cases "es_url (endpoints q ! j) \<in> set tried \<or> es_state (endpoints q ! j) \<noteq> Healthy")
    case True
    then show ?thesis using Cons.IH [OF o, of tried w] by (simp add: Let_def clk flip: q j_def)
  next
    case False
    then have "j \<noteq> i" using o by (auto simp: open_at_def)
    then have "es_url (endpoints q ! j) \<noteq> es_url ep"
      using o jlt distinct_url_other [of "endpoints q" j i] by (auto simp: open_at_def pool_ok_def)
    then have snd: "sendRequest net' t (es_url (endpoints q ! j)) req w = sendRequest net t (es_url (endpoints q ! j)) req w" for t
      using assms(2) by (simp add: sendRequest_def nets_agree_def)
    have keep: "open_at i ep net (q\<lparr>endpoints := (endpoints q)[j := recordFailure (failureThreshold q) t (endpoints q ! j)]\<rparr>)" for t
      using o jlt \<open>j \<noteq> i\<close> failure_pool_ok [of q j t] by (simp add: open_at_def)
    obtain a w1 where s: "sendRequest net (requestTimeoutMs q) (es_url (endpoints q ! j)) req w = (a, w1)" by (metis prod.exhaust)
    then show ?thesis
      using False snd \<open>j \<noteq> i\<close> o Cons.IH [OF keep [of "pn_clock net w1"], of "es_url (endpoints q ! j) # tried" w1]
      by (cases a) (simp_all add: Let_def clk open_at_def flip: q j_def)
  qed
qed

text \<open>While the circuit of an endpoint is open, requests do not use it: until its recovery time
  has passed, what the endpoint would answer makes no difference to any request, and the endpoint's
  record (its failure time, with it the end of the window, and its counters) stays as it is.\<close>

theorem open_endpoint_untouched:
  assumes "pool_ok p" "i < length (endpoints p)" "es_state (endpoints p ! i) = Unhealthy"
    and "lastFailureAt (endpoints p ! i) = Some t" "\<And>w. pn_clock net w < t + recoveryTimeoutMs p"
    and "nets_agree (es_url (endpoints p ! i)) net net'"
  shows "request net' req (p, w) = request net req (p, w) \<and>
    endpoints (fst (snd (request net req (p, w)))) ! i = endpoints p ! i"
proof -
  have "open_at i (endpoints p ! i) net p" using assms by (simp add: open_at_def)
  from request_loop_open [OF this assms(6)] show ?thesis by (simp add: request_def)
qed

definition frozen_net :: "string + nat http_reply \<Rightarrow> (unit, nat, int) pool_net" where
  "frozen_net b = \<lparr>pn_fetch = (\<lambda>timeout u body w. (if u = ''b'' then b else Inl ''ECONNREFUSED'', w)), pn_clock = (\<lambda>w. 1000)\<rparr>"

definition opened_pool :: pool where
  "opened_pool = demo_pool\<lparr>endpoints := [fresh_endpoint ''a'', (fresh_endpoint ''b'')\<lparr>es_state := Unhealthy,
     consecutiveFailures := 3, totalFailures := 3, totalRequests := 3, lastFailureAt := Some 900\<rparr>]\<rparr>"

theorem open_endpoint_untouched_witness:
  "request (frozen_net (Inr \<lparr>hr_status = 200, hr_json = Inr 7\<rparr>)) ping_request (opened_pool, 0) =
   request (frozen_net (Inl ''ETIMEDOUT'')) ping_request (opened_pool, 0)"
proof -
  have ok: "pool_ok opened_pool" by (simp add: opened_pool_def demo_pool_def pool_ok_def endpoint_ok_def fresh_endpoint_def)
  have "nets_agree ''b'' (frozen_net (Inl ''ETIMEDOUT'')) (frozen_net (Inr \<lparr>hr_status = 200, hr_json = Inr 7\<rparr>))"
    by (simp add: nets_agree_def frozen_net_def)
  then show ?thesis
    using open_endpoint_untouched [OF ok, of 1 900 "frozen_net (Inl ''ETIMEDOUT'')"
        "frozen_net (Inr \<lparr>hr_status = 200, hr_json = Inr 7\<rparr>)" ping_request 0]
    by (simp add: opened_pool_def demo_pool_def fresh_endpoint_def frozen_net_def)
qed

end
