(* ===== verification/Redis_Client.thy ===== *)
theory Redis_Client
  imports Circuit_Breaker
begin

text \<open>
  The Redis client of \<^verbatim>\<open>lib/redis.ts\<close>: \<open>RedisClient\<close> with its fallbacks, locks and namespacing, the
  bounded in-memory cache, the adapter that does nothing and the module-level cache functions. The
  adapter (a connection to a Redis server) is an argument: each of its calls answers, rejects, or
  does not answer within the operation time-out, and changes the world it acts on. \<open>ra_clock\<close> is
  \<^verbatim>\<open>Date.now()\<close>. A call that was given up after the time-out has whatever effect it has within its
  own step.
\<close>

section \<open>Adapter and client\<close>

definition OPERATION_TIMEOUT_MS :: nat where "OPERATION_TIMEOUT_MS = 2000"
definition DEFAULT_TTL_SECONDS :: int where "DEFAULT_TTL_SECONDS = 300"
definition LOCK_TTL_SECONDS :: int where "LOCK_TTL_SECONDS = 30"

datatype 'a reply = Replied 'a | Rejected string | NoReply

record 'w RedisAdapter =
  ra_get :: "string \<Rightarrow> 'w \<Rightarrow> string option reply \<times> 'w"
  ra_set :: "string \<Rightarrow> string \<Rightarrow> int \<Rightarrow> 'w \<Rightarrow> unit reply \<times> 'w"
  ra_del :: "string \<Rightarrow> 'w \<Rightarrow> unit reply \<times> 'w"
  ra_set_nx :: "string \<Rightarrow> string \<Rightarrow> int \<Rightarrow> 'w \<Rightarrow> bool reply \<times> 'w"
  ra_ping :: "'w \<Rightarrow> string reply \<times> 'w"
  ra_quit :: "'w \<Rightarrow> unit reply \<times> 'w"
  ra_clock :: "'w \<Rightarrow> int"

record LockResult =
  lr_acquired :: bool
  lr_token :: "string option"

record RedisClient =
  rc_keyPrefix :: string
  rc_breaker :: CircuitBreaker
  rc_connected :: bool

definition new_RedisClient :: "string option \<Rightarrow> CircuitBreaker option \<Rightarrow> RedisClient" where
  "new_RedisClient keyPrefix brk =
     \<lparr>rc_keyPrefix = (case keyPrefix of None \<Rightarrow> ''sorobanpay'' | Some s \<Rightarrow> s),
      rc_breaker = (case brk of None \<Rightarrow> default_CircuitBreaker | Some b \<Rightarrow> b), rc_connected = False\<rparr>"

definition ns :: "RedisClient \<Rightarrow> string \<Rightarrow> string" where
  "ns c key = rc_keyPrefix c @ '':'' @ key"

text \<open>\<^verbatim>\<open>Promise.race\<close> with the time-out turns a missing answer into an error.\<close>

definition race :: "string \<Rightarrow> 'a reply \<Rightarrow> string + 'a" where
  "race timeoutMsg r = (case r of Replied x \<Rightarrow> Inr x | Rejected e \<Rightarrow> Inl e | NoReply \<Rightarrow> Inl timeoutMsg)"

definition timeout_text :: "string \<Rightarrow> string" where
  "timeout_text operation = ''Redis '' @ operation @ '' timed out after '' @ nat_str OPERATION_TIMEOUT_MS @ ''ms''"

definition withFallback ::
  "'w RedisAdapter \<Rightarrow> string \<Rightarrow> ('w \<Rightarrow> 'a reply \<times> 'w) \<Rightarrow> 'a \<Rightarrow> RedisClient \<times> 'w \<Rightarrow> 'a \<times> RedisClient \<times> 'w" where
  "withFallback A operation fn fallback s = (case s of (c, w) \<Rightarrow>
     (case allowCall (ra_clock A w) (rc_breaker c) of
        (False, b) \<Rightarrow> (fallback, c\<lparr>rc_breaker := b\<rparr>, w)
      | (True, b) \<Rightarrow>
          (case fn w of (r, w1) \<Rightarrow>
             (case race (timeout_text operation) r of
                Inr result \<Rightarrow> (result, c\<lparr>rc_breaker := onSuccess b, rc_connected := True\<rparr>, w1)
              | Inl err \<Rightarrow> (fallback, c\<lparr>rc_breaker := onFailure (ra_clock A w1) b, rc_connected := False\<rparr>, w1)))))"

definition client_get :: "'w RedisAdapter \<Rightarrow> string \<Rightarrow> RedisClient \<times> 'w \<Rightarrow> string option \<times> RedisClient \<times> 'w" where
  "client_get A key s = withFallback A ''GET'' (ra_get A (ns (fst s) key)) None s"

definition client_set ::
  "'w RedisAdapter \<Rightarrow> string \<Rightarrow> string \<Rightarrow> int \<Rightarrow> RedisClient \<times> 'w \<Rightarrow> unit \<times> RedisClient \<times> 'w" where
  "client_set A key v ttlSeconds s = withFallback A ''SET'' (ra_set A (ns (fst s) key) v ttlSeconds) () s"

definition client_del :: "'w RedisAdapter \<Rightarrow> string \<Rightarrow> RedisClient \<times> 'w \<Rightarrow> unit \<times> RedisClient \<times> 'w" where
  "client_del A key s = withFallback A ''DEL'' (ra_del A (ns (fst s) key)) () s"

section \<open>Locks\<close>

definition lock_key :: "RedisClient \<Rightarrow> string \<Rightarrow> string" where
  "lock_key c resource = ns c (''lock:'' @ resource)"

text \<open>The token is the time and a random text, which is an argument.\<close>

definition lock_token :: "int \<Rightarrow> string \<Rightarrow> string" where
  "lock_token now random = int_str now @ ''-'' @ random"

definition not_acquired :: LockResult where
  "not_acquired = \<lparr>lr_acquired = False, lr_token = None\<rparr>"

definition client_acquireLock ::
  "'w RedisAdapter \<Rightarrow> string \<Rightarrow> string \<Rightarrow> int \<Rightarrow> RedisClient \<times> 'w \<Rightarrow> LockResult \<times> RedisClient \<times> 'w" where
  "client_acquireLock A random resource ttl s = (case s of (c, w) \<Rightarrow>
     (case allowCall (ra_clock A w) (rc_breaker c) of
        (False, b) \<Rightarrow> (not_acquired, c\<lparr>rc_breaker := b\<rparr>, w)
      | (True, b) \<Rightarrow>
          (let token = lock_token (ra_clock A w) random in
           case ra_set_nx A (lock_key c resource) token ttl w of (r, w1) \<Rightarrow>
             (case race ''Redis acquireLock timed out'' r of
                Inr acquired \<Rightarrow>
                  ((if acquired then \<lparr>lr_acquired = True, lr_token = Some token\<rparr> else not_acquired),
                   c\<lparr>rc_breaker := onSuccess b\<rparr>, w1)
              | Inl err \<Rightarrow> (not_acquired, c\<lparr>rc_breaker := onFailure (ra_clock A w1) b\<rparr>, w1)))))"

text \<open>Releasing is two calls: the stored token is read, and the key is deleted if it matches.\<close>

definition release_read :: "'w RedisAdapter \<Rightarrow> string \<Rightarrow> string \<Rightarrow> 'w \<Rightarrow> bool reply \<times> 'w" where
  "release_read A key token w = (case ra_get A key w of
      (Replied stored, w1) \<Rightarrow> (Replied (stored = Some token), w1)
    | (Rejected e, w1) \<Rightarrow> (Rejected e, w1)
    | (NoReply, w1) \<Rightarrow> (NoReply, w1))"

definition release_calls :: "'w RedisAdapter \<Rightarrow> string \<Rightarrow> string \<Rightarrow> 'w \<Rightarrow> unit reply \<times> 'w" where
  "release_calls A key token w = (case release_read A key token w of
      (Replied matches, w1) \<Rightarrow> if matches then ra_del A key w1 else (Replied (), w1)
    | (Rejected e, w1) \<Rightarrow> (Rejected e, w1)
    | (NoReply, w1) \<Rightarrow> (NoReply, w1))"

definition client_releaseLock ::
  "'w RedisAdapter \<Rightarrow> string \<Rightarrow> string \<Rightarrow> RedisClient \<times> 'w \<Rightarrow> unit \<times> RedisClient \<times> 'w" where
  "client_releaseLock A resource token s =
     withFallback A ''releaseLock'' (release_calls A (lock_key (fst s) resource) token) () s"

section \<open>Health and shutdown\<close>

definition ping_call :: "'w RedisAdapter \<Rightarrow> 'w \<Rightarrow> string option reply \<times> 'w" where
  "ping_call A w = (case ra_ping A w of
      (Replied s, w1) \<Rightarrow> (Replied (Some s), w1)
    | (Rejected e, w1) \<Rightarrow> (Rejected e, w1)
    | (NoReply, w1) \<Rightarrow> (NoReply, w1))"

definition client_ping :: "'w RedisAdapter \<Rightarrow> RedisClient \<times> 'w \<Rightarrow> bool \<times> RedisClient \<times> 'w" where
  "client_ping A s = (case withFallback A ''PING'' (ping_call A) None s of
     (response, s1) \<Rightarrow> (response = Some ''PONG'', s1))"

definition client_quit :: "'w RedisAdapter \<Rightarrow> RedisClient \<times> 'w \<Rightarrow> unit \<times> RedisClient \<times> 'w" where
  "client_quit A s = (case s of (c, w) \<Rightarrow> (case ra_quit A w of (_, w1) \<Rightarrow> ((), c\<lparr>rc_connected := False\<rparr>, w1)))"

definition isConnected :: "RedisClient \<Rightarrow> bool" where
  "isConnected c = rc_connected c"

definition NoopAdapter :: "int RedisAdapter" where
  "NoopAdapter = \<lparr>ra_get = (\<lambda>key w. (Replied None, w)), ra_set = (\<lambda>key v ex w. (Replied (), w)),
     ra_del = (\<lambda>key w. (Replied (), w)), ra_set_nx = (\<lambda>key v ex w. (Replied False, w)),
     ra_ping = (\<lambda>w. (Replied ''PONG'', w)), ra_quit = (\<lambda>w. (Replied (), w)), ra_clock = (\<lambda>w. w)\<rparr>"

section \<open>The in-memory fallback cache\<close>

text \<open>A \<^verbatim>\<open>Map\<close> from keys to a value and its expiry time, in insertion order.\<close>

type_synonym mem_cache = "(string \<times> (string \<times> int)) list"

definition MAX_ENTRIES :: nat where "MAX_ENTRIES = 1000"

definition evict_oldest :: "mem_cache \<Rightarrow> mem_cache" where
  "evict_oldest m = (case m of [] \<Rightarrow> [] | (firstKey, _) # _ \<Rightarrow> AList.delete firstKey m)"

definition mem_set :: "string \<Rightarrow> string \<Rightarrow> int \<Rightarrow> int \<Rightarrow> mem_cache \<Rightarrow> mem_cache" where
  "mem_set key v ttlSeconds now m =
     AList.update key (v, now + ttlSeconds * 1000) (if length m \<ge> MAX_ENTRIES then evict_oldest m else m)"

definition mem_get :: "string \<Rightarrow> int \<Rightarrow> mem_cache \<Rightarrow> string option \<times> mem_cache" where
  "mem_get key now m = (case map_of m key of
      None \<Rightarrow> (None, m)
    | Some (v, expiresAt) \<Rightarrow> if now > expiresAt then (None, AList.delete key m) else (Some v, m))"

definition mem_del :: "string \<Rightarrow> mem_cache \<Rightarrow> mem_cache" where
  "mem_del key m = AList.delete key m"

definition mem_clear :: "mem_cache \<Rightarrow> mem_cache" where
  "mem_clear m = []"

definition mem_size :: "mem_cache \<Rightarrow> nat" where
  "mem_size m = length m"

section \<open>The module-level functions\<close>

record 'w redis_module =
  rm_adapter :: "'w RedisAdapter"
  rm_client :: RedisClient
  rm_fallback :: mem_cache

definition setRedisAdapter :: "'w RedisAdapter \<Rightarrow> string option \<Rightarrow> 'w redis_module \<Rightarrow> 'w redis_module" where
  "setRedisAdapter A pre m = m\<lparr>rm_adapter := A, rm_client := new_RedisClient pre None\<rparr>"

definition cacheGet :: "string \<Rightarrow> 'w redis_module \<times> 'w \<Rightarrow> string option \<times> 'w redis_module \<times> 'w" where
  "cacheGet key s = (case s of (m, w) \<Rightarrow>
     (case client_get (rm_adapter m) key (rm_client m, w) of
        (Some v, c, w1) \<Rightarrow> (Some v, m\<lparr>rm_client := c\<rparr>, w1)
      | (None, c, w1) \<Rightarrow>
          (case mem_get key (ra_clock (rm_adapter m) w1) (rm_fallback m) of
             (memResult, fb) \<Rightarrow> (memResult, m\<lparr>rm_client := c, rm_fallback := fb\<rparr>, w1))))"

definition cacheSet :: "string \<Rightarrow> string \<Rightarrow> int \<Rightarrow> 'w redis_module \<times> 'w \<Rightarrow> 'w redis_module \<times> 'w" where
  "cacheSet key v ttlSeconds s = (case s of (m, w) \<Rightarrow>
     (case client_set (rm_adapter m) key v ttlSeconds (rm_client m, w) of
        (_, c, w1) \<Rightarrow> (m\<lparr>rm_client := c, rm_fallback := mem_set key v ttlSeconds (ra_clock (rm_adapter m) w1) (rm_fallback m)\<rparr>, w1)))"

definition cacheDel :: "string \<Rightarrow> 'w redis_module \<times> 'w \<Rightarrow> 'w redis_module \<times> 'w" where
  "cacheDel key s = (case s of (m, w) \<Rightarrow>
     (case client_del (rm_adapter m) key (rm_client m, w) of
        (_, c, w1) \<Rightarrow> (m\<lparr>rm_client := c, rm_fallback := mem_del key (rm_fallback m)\<rparr>, w1)))"

definition acquireLock ::
  "string \<Rightarrow> string \<Rightarrow> int \<Rightarrow> 'w redis_module \<times> 'w \<Rightarrow> LockResult \<times> 'w redis_module \<times> 'w" where
  "acquireLock random resource ttl s = (case s of (m, w) \<Rightarrow>
     (case client_acquireLock (rm_adapter m) random resource ttl (rm_client m, w) of
        (r, c, w1) \<Rightarrow> (r, m\<lparr>rm_client := c\<rparr>, w1)))"

definition releaseLock :: "string \<Rightarrow> string \<Rightarrow> 'w redis_module \<times> 'w \<Rightarrow> 'w redis_module \<times> 'w" where
  "releaseLock resource token s = (case s of (m, w) \<Rightarrow>
     (case client_releaseLock (rm_adapter m) resource token (rm_client m, w) of
        (_, c, w1) \<Rightarrow> (m\<lparr>rm_client := c\<rparr>, w1)))"


section \<open>Operations as data\<close>

text \<open>The operations of a client, so that runs of them can be stated. Before each operation the world
  may change on its own: time passes, keys expire.\<close>

datatype redis_op =
    OpGet string
  | OpSet string string int
  | OpDel string
  | OpLock string string int
  | OpUnlock string string
  | OpPing

fun run_op :: "'w RedisAdapter \<Rightarrow> redis_op \<Rightarrow> RedisClient \<times> 'w \<Rightarrow> LockResult option \<times> RedisClient \<times> 'w" where
  "run_op A (OpGet key) s = (None, snd (client_get A key s))"
| "run_op A (OpSet key v ttl) s = (None, snd (client_set A key v ttl s))"
| "run_op A (OpDel key) s = (None, snd (client_del A key s))"
| "run_op A (OpLock random resource ttl) s =
     (case client_acquireLock A random resource ttl s of (r, s1) \<Rightarrow> (Some r, s1))"
| "run_op A (OpUnlock resource token) s = (None, snd (client_releaseLock A resource token s))"
| "run_op A OpPing s = (None, snd (client_ping A s))"

text \<open>Interleaved operations of several clients of one server.\<close>

fun run_ops ::
  "'w RedisAdapter \<Rightarrow> (('w \<Rightarrow> 'w) \<times> nat \<times> redis_op) list \<Rightarrow> RedisClient list \<times> 'w \<Rightarrow>
     (redis_op \<times> LockResult option) list \<times> RedisClient list \<times> 'w" where
  "run_ops A [] s = ([], s)"
| "run_ops A ((env, i, op) # ops) (cs, w) =
     (case run_op A op (cs ! i, env w) of (r, c, w1) \<Rightarrow>
       (case run_ops A ops (cs[i := c], w1) of (rs, s1) \<Rightarrow> ((op, r) # rs, s1)))"

text \<open>The start and end times of the calls one client really makes.\<close>

fun op_attempts :: "'w RedisAdapter \<Rightarrow> (('w \<Rightarrow> 'w) \<times> redis_op) list \<Rightarrow> RedisClient \<times> 'w \<Rightarrow> (int \<times> int) list" where
  "op_attempts A [] s = []"
| "op_attempts A ((env, op) # ops) (c, w) =
     (case run_op A op (c, env w) of (_, c1, w1) \<Rightarrow>
       if fst (allowCall (ra_clock A (env w)) (rc_breaker c))
       then (ra_clock A (env w), ra_clock A w1) # op_attempts A ops (c1, w1)
       else op_attempts A ops (c1, w1))"

section \<open>What one operation does\<close>

text \<open>The call an operation makes on the adapter when the breaker lets it pass.\<close>

fun op_call :: "'w RedisAdapter \<Rightarrow> redis_op \<Rightarrow> RedisClient \<Rightarrow> 'w \<Rightarrow> unit reply \<times> 'w" where
  "op_call A (OpGet key) c w = map_prod (map_reply (\<lambda>_. ())) id (ra_get A (ns c key) w)"
| "op_call A (OpSet key v ttl) c w = ra_set A (ns c key) v ttl w"
| "op_call A (OpDel key) c w = ra_del A (ns c key) w"
| "op_call A (OpLock random resource ttl) c w =
     map_prod (map_reply (\<lambda>_. ())) id (ra_set_nx A (lock_key c resource) (lock_token (ra_clock A w) random) ttl w)"
| "op_call A (OpUnlock resource token) c w = release_calls A (lock_key c resource) token w"
| "op_call A OpPing c w = map_prod (map_reply (\<lambda>_. ())) id (ra_ping A w)"

lemma race_simps [simp]:
  "race t (Replied x) = Inr x" "race t (Rejected e) = Inl e" "race t NoReply = Inl t"
  by (simp_all add: race_def)

definition replied :: "'a reply \<Rightarrow> bool" where
  "replied r = (case r of Replied _ \<Rightarrow> True | _ \<Rightarrow> False)"

lemma replied_simps [simp]:
  "replied (Replied x)" "\<not> replied (Rejected e)" "\<not> replied NoReply" "replied (map_reply f r) = replied r"
  by (simp_all add: replied_def split: reply.splits)

definition settle :: "CircuitBreaker \<Rightarrow> int \<Rightarrow> 'a reply \<Rightarrow> CircuitBreaker" where
  "settle b t r = (if replied r then onSuccess b else onFailure t b)"

lemma settle_map [simp]: "settle b t (map_reply f r) = settle b t r"
  by (simp add: settle_def)

lemma withFallback_permitted:
  assumes "allowCall (ra_clock A w) (rc_breaker c) = (True, b)" "fn w = (r, w1)"
  shows "withFallback A operation fn fallback (c, w) =
    ((case r of Replied x \<Rightarrow> x | _ \<Rightarrow> fallback),
     c\<lparr>rc_breaker := settle b (ra_clock A w1) r, rc_connected := replied r\<rparr>, w1)"
  using assms by (cases r) (simp_all add: withFallback_def settle_def)

lemma client_acquireLock_permitted:
  assumes "allowCall (ra_clock A w) (rc_breaker c) = (True, b)"
    "ra_set_nx A (lock_key c resource) (lock_token (ra_clock A w) random) ttl w = (r, w1)"
  shows "client_acquireLock A random resource ttl (c, w) =
    ((if r = Replied True then \<lparr>lr_acquired = True, lr_token = Some (lock_token (ra_clock A w) random)\<rparr> else not_acquired),
     c\<lparr>rc_breaker := settle b (ra_clock A w1) r\<rparr>, w1)"
  using assms by (cases r) (simp_all add: client_acquireLock_def settle_def Let_def)

lemma ping_call_reply: "ra_ping A w = (r, w1) \<Longrightarrow> ping_call A w = (map_reply Some r, w1)"
  by (cases r) (simp_all add: ping_call_def)

lemma refused_same:
  assumes "\<not> fst (allowCall now b)"
  shows "allowCall now b = (False, b)"
  using assms by (auto simp: allowCall_def split: CircuitState.splits if_splits)

lemma run_op_refused:
  assumes "\<not> fst (allowCall (ra_clock A w) (rc_breaker c))"
  shows "snd (run_op A op (c, w)) = (c, w)" "fst (run_op A (OpLock random resource ttl) (c, w)) = Some not_acquired"
  using refused_same [OF assms]
  by (cases op; simp add: client_get_def client_set_def client_del_def client_acquireLock_def
      client_releaseLock_def client_ping_def withFallback_def)
     (simp add: client_acquireLock_def refused_same [OF assms])

lemma run_op_permitted:
  assumes "allowCall (ra_clock A w) (rc_breaker c) = (True, b)" "op_call A op c w = (r, w1)"
  shows "\<exists>res c'. run_op A op (c, w) = (res, c', w1) \<and> rc_keyPrefix c' = rc_keyPrefix c \<and>
    rc_breaker c' = settle b (ra_clock A w1) r"
proof (cases op)
  case (OpGet key)
  obtain r0 where "ra_get A (ns c key) w = (r0, w1)" "r = map_reply (\<lambda>_. ()) r0"
    using assms(2) OpGet by (cases "ra_get A (ns c key) w") simp
  then show ?thesis using withFallback_permitted [OF assms(1), where fn = "ra_get A (ns c key)"] OpGet
    by (simp add: client_get_def)
next
  case (OpLock random resource ttl)
  obtain r0 where "ra_set_nx A (lock_key c resource) (lock_token (ra_clock A w) random) ttl w = (r0, w1)"
      "r = map_reply (\<lambda>_. ()) r0"
    using assms(2) OpLock by (cases "ra_set_nx A (lock_key c resource) (lock_token (ra_clock A w) random) ttl w") simp
  then show ?thesis using client_acquireLock_permitted [OF assms(1)] OpLock by simp
next
  case OpPing
  obtain r0 where "ra_ping A w = (r0, w1)" "r = map_reply (\<lambda>_. ()) r0"
    using assms(2) OpPing by (cases "ra_ping A w") simp
  then show ?thesis using withFallback_permitted [OF assms(1) ping_call_reply] OpPing by (simp add: client_ping_def)
next
  case (OpSet key v ttl)
  then show ?thesis using assms(2) withFallback_permitted [OF assms(1), where fn = "ra_set A (ns c key) v ttl"]
    by (simp add: client_set_def)
next
  case (OpDel key)
  then show ?thesis using assms(2) withFallback_permitted [OF assms(1), where fn = "ra_del A (ns c key)"]
    by (simp add: client_del_def)
next
  case (OpUnlock resource token)
  then show ?thesis
    using assms(2) withFallback_permitted [OF assms(1), where fn = "release_calls A (lock_key c resource) token"]
    by (simp add: client_releaseLock_def)
qed


section \<open>Calls during an outage\<close>

text \<open>An adapter none of whose calls is answered, whose clock does not run backwards.\<close>

definition outage :: "'w RedisAdapter \<Rightarrow> bool" where
  "outage A \<longleftrightarrow> (\<forall>op c w. \<not> replied (fst (op_call A op c w)) \<and> ra_clock A w \<le> ra_clock A (snd (op_call A op c w)))"

definition time_passes :: "'w RedisAdapter \<Rightarrow> ('w \<Rightarrow> 'w) \<Rightarrow> bool" where
  "time_passes A env \<longleftrightarrow> (\<forall>w. ra_clock A w \<le> ra_clock A (env w))"

lemma outage_attempts:
  assumes "outage A"
  shows "\<forall>(env, op) \<in> set ops. time_passes A env \<Longrightarrow>
    \<exists>ts. in_sequence ts \<and> (\<forall>t \<in> set ts. ra_clock A w \<le> fst t) \<and>
      op_attempts A ops (c, w) = failing_attempts allowCall onFailure ts (rc_breaker c)"
proof (induction ops arbitrary: c w)
  case Nil
  show ?case by (intro exI [of _ "[]"]) simp
next
  case (Cons e ops)
  obtain env op where e: "e = (env, op)" by (cases e)
  let ?t = "ra_clock A (env w)"
  have t: "ra_clock A w \<le> ?t" using Cons.prems e by (auto simp: time_passes_def)
  have ops: "\<forall>(env, op) \<in> set ops. time_passes A env" using Cons.prems by simp
  show ?case
  proof (cases "fst (allowCall ?t (rc_breaker c))")
    case True
    obtain b where b: "allowCall ?t (rc_breaker c) = (True, b)" using True by (metis prod.collapse)
    obtain r w1 where r: "op_call A op c (env w) = (r, w1)" by (cases "op_call A op c (env w)")
    have r': "\<not> replied r" "?t \<le> ra_clock A w1"
      using assms r unfolding outage_def by (metis fst_conv, metis snd_conv)
    obtain res c' where s: "run_op A op (c, env w) = (res, c', w1)" "rc_breaker c' = onFailure (ra_clock A w1) b"
      using run_op_permitted [OF b r] r'(1) by (auto simp: settle_def)
    obtain ts where ts: "in_sequence ts" "\<forall>t \<in> set ts. ra_clock A w1 \<le> fst t"
        "op_attempts A ops (c', w1) = failing_attempts allowCall onFailure ts (rc_breaker c')"
      using Cons.IH [OF ops] by blast
    have "op_attempts A (e # ops) (c, w) = (?t, ra_clock A w1) # op_attempts A ops (c', w1)"
      using s(1) b by (simp add: e)
    then show ?thesis using ts r'(2) t s(2) b by (intro exI [of _ "(?t, ra_clock A w1) # ts"]) auto
  next
    case False
    obtain ts where ts: "in_sequence ts" "\<forall>t \<in> set ts. ?t \<le> fst t"
        "op_attempts A ops (c, env w) = failing_attempts allowCall onFailure ts (rc_breaker c)"
      using Cons.IH [OF ops] by blast
    have "op_attempts A (e # ops) (c, w) = op_attempts A ops (c, env w)"
      using False run_op_refused(1) [OF False, of op] by (cases "run_op A op (c, env w)") (simp add: e)
    then show ?thesis using ts t by (intro exI [of _ ts]) auto
  qed
qed

text \<open>While Redis is down a client does not hammer it: whatever operations are called and however
  long the caller waits between them, once as many calls as the failure threshold have failed, two
  successive calls to Redis are at least the recovery window apart, counted from the failure of the
  first; everything in between is answered with the fallback without a call.\<close>

theorem redis_probe_spacing:
  assumes "outage A" "\<forall>(env, op) \<in> set ops. time_passes A env"
    and "rc_breaker c = new_CircuitBreaker threshold window" "op_attempts A ops (c, w) = calls"
    and "threshold \<le> Suc i" "Suc i < length calls"
  shows "snd (calls ! i) + window \<le> fst (calls ! Suc i)"
proof -
  obtain ts where ts: "in_sequence ts" "calls = failing_attempts allowCall onFailure ts (rc_breaker c)"
    using outage_attempts [OF assms(1,2), of w c] assms(4) by blast
  have "cb_configured threshold window (rc_breaker c)" "cb_need (rc_breaker c) \<le> Suc i"
    using assms(3,5) by (simp_all add: cb_configured_def cb_need_def new_CircuitBreaker_def)
  from cb.attempts_probe [OF this(1) ts(1) this(2)] show ?thesis using assms(6) by (simp add: ts(2))
qed

definition dead_redis :: "int RedisAdapter" where
  "dead_redis = \<lparr>ra_get = (\<lambda>key w. (NoReply, w + 2000)), ra_set = (\<lambda>key v ex w. (NoReply, w + 2000)),
     ra_del = (\<lambda>key w. (Rejected ''ECONNREFUSED'', w)), ra_set_nx = (\<lambda>key v ex w. (NoReply, w + 2000)),
     ra_ping = (\<lambda>w. (Rejected ''ECONNREFUSED'', w)), ra_quit = (\<lambda>w. (Replied (), w)), ra_clock = (\<lambda>w. w)\<rparr>"

lemma dead_redis_outage: "outage dead_redis"
  unfolding outage_def
proof (intro allI)
  fix op c and w :: int
  show "\<not> replied (fst (op_call dead_redis op c w)) \<and> ra_clock dead_redis w \<le> ra_clock dead_redis (snd (op_call dead_redis op c w))"
    by (cases op) (simp_all add: dead_redis_def release_calls_def release_read_def)
qed

theorem redis_probe_spacing_witness:
  "snd (op_attempts dead_redis (replicate 20 (\<lambda>w. w + 1500, OpGet ''k'')) (new_RedisClient None None, 0) ! 2) + 10000 \<le>
   fst (op_attempts dead_redis (replicate 20 (\<lambda>w. w + 1500, OpGet ''k'')) (new_RedisClient None None, 0) ! 3)"
proof -
  let ?ops = "replicate 20 (\<lambda>w::int. w + 1500, OpGet ''k'')"
  have "\<forall>(env, op) \<in> set ?ops. time_passes dead_redis env" by (simp add: time_passes_def dead_redis_def)
  moreover have "rc_breaker (new_RedisClient None None) = new_CircuitBreaker 3 10000"
    by (simp add: new_RedisClient_def default_CircuitBreaker_def)
  moreover have "Suc 2 < length (op_attempts dead_redis ?ops (new_RedisClient None None, 0))" by code_simp
  ultimately show ?thesis
    using redis_probe_spacing [OF dead_redis_outage, of ?ops "new_RedisClient None None" 3 10000 0 _ 2]
    by (simp add: numeral_eq_Suc del: op_attempts.simps replicate.simps)
qed


section \<open>Distributed locks\<close>

text \<open>Time passing on the server may only remove values.\<close>

definition expires :: "('w \<Rightarrow> string \<Rightarrow> string option) \<Rightarrow> ('w \<Rightarrow> 'w) \<Rightarrow> bool" where
  "expires val env \<longleftrightarrow> (\<forall>w k. val (env w) k \<in> {val w k, None})"

text \<open>The cache writes to a lock key only when it is given its name.\<close>

fun spares :: "string \<Rightarrow> redis_op \<Rightarrow> bool" where
  "spares resource (OpSet key v ttl) = (key \<noteq> ''lock:'' @ resource)"
| "spares resource _ = True"

text \<open>An operation that does not draw the given token for the resource.\<close>

definition other_token :: "string \<Rightarrow> string \<Rightarrow> redis_op \<Rightarrow> bool" where
  "other_token resource tok op \<longleftrightarrow> (\<forall>random ttl t. op = OpLock random resource ttl \<longrightarrow> tok \<noteq> lock_token t random)"

definition failed_lock :: "string \<Rightarrow> redis_op \<times> LockResult option \<Rightarrow> bool" where
  "failed_lock resource e \<longleftrightarrow> (\<forall>random ttl. fst e = OpLock random resource ttl \<longrightarrow> snd e = Some not_acquired)"

lemma lock_key_eq [simp]:
  "ns c key = lock_key c resource \<longleftrightarrow> key = ''lock:'' @ resource" "lock_key c resource = ns c key \<longleftrightarrow> key = ''lock:'' @ resource"
  "lock_key c res = lock_key c resource \<longleftrightarrow> res = resource"
  by (auto simp: lock_key_def ns_def)

text \<open>What the client relies on of a Redis server: \<open>val w k\<close> is the live value of a key. A value may
  expire at any time, but only the calls on a key give it another one; \<^verbatim>\<open>SET NX\<close> sets only an absent
  key, and what it does when its answer is lost is left open.\<close>

locale redis_store =
  fixes A :: "'w RedisAdapter"
    and val :: "'w \<Rightarrow> string \<Rightarrow> string option"
  assumes get_sound: "ra_get A k w = (Replied x, w') \<Longrightarrow> x = val w k"
    and get_frame: "ra_get A k w = (r, w') \<Longrightarrow> val w' k' \<in> {val w k', None}"
    and set_frame: "ra_set A k v ex w = (ru, w') \<Longrightarrow> k' \<noteq> k \<Longrightarrow> val w' k' \<in> {val w k', None}"
    and del_frame: "ra_del A k w = (ru, w') \<Longrightarrow> val w' k' \<in> {val w k', None}"
    and nx_frame: "ra_set_nx A k v ex w = (rb, w') \<Longrightarrow> k' \<noteq> k \<Longrightarrow> val w' k' \<in> {val w k', None}"
    and nx_held: "ra_set_nx A k v ex w = (rb, w') \<Longrightarrow> val w k = Some t \<Longrightarrow> rb \<noteq> Replied True \<and> val w' k \<in> {Some t, None}"
    and nx_free: "ra_set_nx A k v ex w = (rb, w') \<Longrightarrow> val w k = None \<Longrightarrow> val w' k \<in> {Some v, None}"
    and nx_won: "ra_set_nx A k v ex w = (Replied True, w') \<Longrightarrow> 0 < ex \<Longrightarrow> val w' k = Some v"
    and ping_frame: "ra_ping A w = (rs, w') \<Longrightarrow> val w' k' \<in> {val w k', None}"
begin

lemma release_frame:
  assumes "release_calls A k tok w = (r, w')"
  shows "val w' k' \<in> {val w k', None}"
proof -
  obtain g w1 where g: "ra_get A k w = (g, w1)" by (cases "ra_get A k w")
  have "w' = w1 \<or> (\<exists>ru. ra_del A k w1 = (ru, w'))"
    using assms g by (cases g) (auto simp: release_calls_def release_read_def split: if_splits)
  then show ?thesis
  proof
    assume "\<exists>ru. ra_del A k w1 = (ru, w')"
    then obtain ru where "ra_del A k w1 = (ru, w')" ..
    from del_frame [OF this, of k'] show ?thesis using get_frame [OF g, of k'] by auto
  qed (use get_frame [OF g, of k'] in simp)
qed

lemma release_other_reads:
  assumes "val w k = Some t" "t \<noteq> tok"
  shows "snd (release_calls A k tok w) = snd (ra_get A k w)"
  using assms get_sound [of k w] by (auto simp: release_calls_def release_read_def split: prod.splits reply.splits)

lemma lock_step:
  assumes "run_op A op (c, w) = (res, c', w')" "spares resource op"
    and "other_token resource tok op"
  shows "val w (lock_key c resource) = Some tok \<Longrightarrow> val w' (lock_key c resource) \<in> {Some tok, None}"
    and "val w (lock_key c resource) \<noteq> Some tok \<Longrightarrow> val w' (lock_key c resource) \<noteq> Some tok"
    and "val w (lock_key c resource) = Some tok \<Longrightarrow> op = OpLock random resource ttl \<Longrightarrow> res = Some not_acquired"
    and "rc_keyPrefix c' = rc_keyPrefix c"
proof -
  let ?k = "lock_key c resource"
  have "(val w ?k = Some tok \<longrightarrow> val w' ?k \<in> {Some tok, None}) \<and> (val w ?k \<noteq> Some tok \<longrightarrow> val w' ?k \<noteq> Some tok) \<and>
     (val w ?k = Some tok \<and> op = OpLock random resource ttl \<longrightarrow> res = Some not_acquired) \<and> rc_keyPrefix c' = rc_keyPrefix c"
  proof (cases "fst (allowCall (ra_clock A w) (rc_breaker c))")
    case False
    then have "c' = c" "w' = w" using run_op_refused(1) [OF False, of op] assms(1) by simp_all
    then show ?thesis using run_op_refused(2) [OF False] assms(1) by (metis fst_conv insertI1)
  next
    case True
    then obtain b where b: "allowCall (ra_clock A w) (rc_breaker c) = (True, b)" by (metis prod.collapse)
    obtain r w1 where r: "op_call A op c w = (r, w1)" by (cases "op_call A op c w")
    have w: "w' = w1" "rc_keyPrefix c' = rc_keyPrefix c" using run_op_permitted [OF b r] assms(1) by auto
    show ?thesis
    proof (cases op)
      case (OpLock ran rs tl)
      obtain rb where nx: "ra_set_nx A (lock_key c rs) (lock_token (ra_clock A w) ran) tl w = (rb, w1)"
        using r OpLock by (cases "ra_set_nx A (lock_key c rs) (lock_token (ra_clock A w) ran) tl w") simp
      have res: "rb \<noteq> Replied True \<longrightarrow> res = Some not_acquired"
        using assms(1) client_acquireLock_permitted [OF b nx] OpLock by auto
      show ?thesis
      proof (cases "rs = resource")
        case True
        then have "tok \<noteq> lock_token (ra_clock A w) ran" using assms(3) OpLock by (auto simp: other_token_def)
        then show ?thesis using nx_held [OF nx] nx_free [OF nx] res w True OpLock by (cases "val w ?k") fastforce+
      next
        case False
        then show ?thesis using nx_frame [OF nx, of ?k] w OpLock by auto
      qed
    next
      case (OpUnlock rs t)
      then have rel: "release_calls A (lock_key c rs) t w = (r, w')" using r w by simp
      show ?thesis using release_frame [OF rel, of ?k] w OpUnlock by auto
    next
      case (OpGet key)
      then show ?thesis using r w get_frame [of "ns c key" w _ w' ?k] by (cases "ra_get A (ns c key) w") auto
    next
      case (OpSet key v tl)
      then show ?thesis using r w set_frame [of "ns c key" v tl w r w' ?k] assms(2) by auto
    next
      case (OpDel key)
      then show ?thesis using r w del_frame [of "ns c key" w r w' ?k] by auto
    next
      case OpPing
      then show ?thesis using r w ping_frame [of w _ w' ?k] by (cases "ra_ping A w") auto
    qed
  qed
  then show "val w (lock_key c resource) = Some tok \<Longrightarrow> val w' (lock_key c resource) \<in> {Some tok, None}"
    and "val w (lock_key c resource) \<noteq> Some tok \<Longrightarrow> val w' (lock_key c resource) \<noteq> Some tok"
    and "val w (lock_key c resource) = Some tok \<Longrightarrow> op = OpLock random resource ttl \<Longrightarrow> res = Some not_acquired"
    and "rc_keyPrefix c' = rc_keyPrefix c" by blast+
qed

lemma run_ops_exclusion:
  assumes "run_ops A ops (cs, w) = (rs, cs', w')" "\<forall>c \<in> set cs. rc_keyPrefix c = rc_keyPrefix c0"
    and "\<forall>(env, i, op) \<in> set ops. expires val env \<and> i < length cs \<and> spares resource op \<and> other_token resource tok op"
  shows "(val w (lock_key c0 resource) \<noteq> Some tok \<longrightarrow> val w' (lock_key c0 resource) \<noteq> Some tok) \<and>
    (val w (lock_key c0 resource) = Some tok \<and> val w' (lock_key c0 resource) = Some tok \<longrightarrow> list_all (failed_lock resource) rs)"
  using assms
proof (induction ops arbitrary: cs w rs)
  case (Cons e ops)
  obtain env i op where e: "e = (env, i, op)" by (cases e)
  let ?k = "lock_key c0 resource"
  obtain r c w1 where r: "run_op A op (cs ! i, env w) = (r, c, w1)" by (metis prod_cases3)
  obtain rs1 where rs: "run_ops A ops (cs[i := c], w1) = (rs1, cs', w')" "rs = (op, r) # rs1"
    using Cons.prems(1) r e by (auto split: prod.splits)
  have h: "expires val env" "i < length cs" "spares resource op" "other_token resource tok op"
    using Cons.prems(3) e by auto
  have k: "lock_key (cs ! i) resource = ?k" using Cons.prems(2) h(2) by (simp add: lock_key_def ns_def)
  note step = lock_step [OF r h(3,4), unfolded k]
  have "\<forall>c' \<in> set (cs[i := c]). rc_keyPrefix c' = rc_keyPrefix c0"
    using step(4) Cons.prems(2) h(2) set_update_subset_insert [of cs i c] by auto
  moreover have "\<forall>(env, i, op) \<in> set ops. expires val env \<and> i < length (cs[i := c]) \<and> spares resource op \<and> other_token resource tok op"
    using Cons.prems(3) by auto
  ultimately have ih: "(val w1 ?k \<noteq> Some tok \<longrightarrow> val w' ?k \<noteq> Some tok) \<and>
      (val w1 ?k = Some tok \<and> val w' ?k = Some tok \<longrightarrow> list_all (failed_lock resource) rs1)"
    using Cons.IH [OF rs(1)] by auto
  have en: "val (env w) ?k \<in> {val w ?k, None}" using h(1) by (simp add: expires_def)
  have "failed_lock resource (op, r)" if "val (env w) ?k = Some tok" using step(3) that by (auto simp: failed_lock_def)
  then show ?case using ih en step(1,2) rs(2) by auto
qed simp

end


text \<open>The adapter that does nothing satisfies the contract: it never holds a value.\<close>

interpretation noop: redis_store NoopAdapter "\<lambda>w k. None"
  by unfold_locales (auto simp: NoopAdapter_def)

text \<open>A server that behaves as Redis does: a clock and the keys with value and expiry time.\<close>

record mem_server =
  ms_now :: int
  ms_keys :: "(string \<times> (string \<times> int)) list"

definition ms_val :: "mem_server \<Rightarrow> string \<Rightarrow> string option" where
  "ms_val w k = (case map_of (ms_keys w) k of None \<Rightarrow> None | Some (v, e) \<Rightarrow> if ms_now w < e then Some v else None)"

definition ms_put :: "string \<Rightarrow> string \<Rightarrow> int \<Rightarrow> mem_server \<Rightarrow> mem_server" where
  "ms_put k v ex w = w\<lparr>ms_keys := AList.update k (v, ms_now w + 1000 * ex) (ms_keys w)\<rparr>"

definition mem_redis :: "mem_server RedisAdapter" where
  "mem_redis = \<lparr>ra_get = (\<lambda>key w. (Replied (ms_val w key), w)), ra_set = (\<lambda>key v ex w. (Replied (), ms_put key v ex w)),
     ra_del = (\<lambda>key w. (Replied (), w\<lparr>ms_keys := AList.delete key (ms_keys w)\<rparr>)),
     ra_set_nx = (\<lambda>key v ex w. if ms_val w key = None then (Replied True, ms_put key v ex w) else (Replied False, w)),
     ra_ping = (\<lambda>w. (Replied ''PONG'', w)), ra_quit = (\<lambda>w. (Replied (), w)), ra_clock = ms_now\<rparr>"

definition wait_ms :: "int \<Rightarrow> mem_server \<Rightarrow> mem_server" where
  "wait_ms d w = w\<lparr>ms_now := ms_now w + d\<rparr>"

lemma ms_val_put: "ms_val (ms_put k v ex w) k' = (if k' = k then (if 0 < ex then Some v else None) else ms_val w k')"
  by (auto simp: ms_val_def ms_put_def js_simps split: option.split)

lemma ms_val_del: "ms_val (w\<lparr>ms_keys := AList.delete k (ms_keys w)\<rparr>) k' = (if k' = k then None else ms_val w k')"
  by (auto simp: ms_val_def js_simps split: option.split)

interpretation mem: redis_store mem_redis ms_val
  by unfold_locales (auto simp: mem_redis_def ms_val_put ms_val_del split: if_splits)

lemma wait_expires: "0 \<le> d \<Longrightarrow> expires ms_val (wait_ms d)"
  by (auto simp: expires_def ms_val_def wait_ms_def split: option.splits)

text \<open>C16: Locks exclude each other. Let any number of clients with the same key prefix run any
  operations in any interleaving, with time passing and answers lost in between. If a lock key holds
  a token before and still holds it afterwards, no attempt to acquire that lock in between
  succeeded, provided the cache is not used on the lock's own key and nobody draws the same token.
  Moreover a release with another token only reads the key.\<close>

theorem lock_exclusion:
  assumes "redis_store A val" "run_ops A ops (cs, w) = (rs, cs', w')" "\<forall>c \<in> set cs. rc_keyPrefix c = rc_keyPrefix c0"
    and "\<forall>(env, i, op) \<in> set ops. expires val env \<and> i < length cs \<and> spares resource op \<and> other_token resource tok op"
    and "val w (lock_key c0 resource) = Some tok" "val w' (lock_key c0 resource) = Some tok"
  shows "list_all (failed_lock resource) rs \<and>
    (tok' \<noteq> tok \<longrightarrow> snd (release_calls A (lock_key c0 resource) tok' w) = snd (ra_get A (lock_key c0 resource) w))"
  using redis_store.run_ops_exclusion [OF assms(1-4)] redis_store.release_other_reads [OF assms(1,5), of tok'] assms(5,6) by simp

definition lock_run :: "((mem_server \<Rightarrow> mem_server) \<times> nat \<times> redis_op) list" where
  "lock_run = [(wait_ms 500, 1, OpLock ''y'' ''pay'' 30), (wait_ms 100, 1, OpUnlock ''pay'' ''500-y''),
     (wait_ms 100, 1, OpLock ''z'' ''pay'' 30)]"

definition held_server :: mem_server where
  "held_server = \<lparr>ms_now = 0, ms_keys = [(''sorobanpay:lock:pay'', (''tok'', 30000))]\<rparr>"

theorem lock_exclusion_witness:
  "list_all (failed_lock ''pay'') (fst (run_ops mem_redis lock_run (replicate 2 (new_RedisClient None None), held_server)))"
proof -
  let ?r = "run_ops mem_redis lock_run (replicate 2 (new_RedisClient None None), held_server)"
  let ?c = "new_RedisClient None None"
  have e: "?r = (fst ?r, fst (snd ?r), snd (snd ?r))" by simp
  have tok: "''tok'' \<noteq> lock_token t random" for t random
  proof -
    have "hd (nat_str n) \<noteq> CHR ''t''" for n
      using digit_of_nat_str [OF hd_in_set [OF nat_str_nonempty], of n] by (auto simp: is_digit_def)
    then have "hd (lock_token t random) \<noteq> CHR ''t''" by (simp add: lock_token_def int_str_def)
    then show ?thesis by (metis list.sel(1))
  qed
  have ops: "\<forall>(env, i, op) \<in> set lock_run. expires ms_val env \<and> i < length (replicate 2 ?c) \<and> spares ''pay'' op \<and>
      other_token ''pay'' ''tok'' op"
    using tok by (auto simp: lock_run_def other_token_def wait_expires)
  have "ms_val held_server (lock_key ?c ''pay'') = Some ''tok''" "ms_val (snd (snd ?r)) (lock_key ?c ''pay'') = Some ''tok''"
    by code_simp+
  then show ?thesis using lock_exclusion [OF mem.redis_store_axioms e _ ops, of ?c] by simp
qed

text \<open>Releasing a lock is not atomic: the token is read first and the key deleted in a second
  call. If the lock expires in between and another client acquires it, the delete removes the new
  holder's lock and a third client acquires it too, while the second holds a lock that has not
  expired.\<close>

theorem stale_release_breaks_lock:
  "\<exists>w1 w2 w3 w4 w5 c1 c2 c3.
     client_acquireLock mem_redis ''a'' ''pay'' 1 (new_RedisClient None None, \<lparr>ms_now = 0, ms_keys = []\<rparr>) =
       (\<lparr>lr_acquired = True, lr_token = Some ''0-a''\<rparr>, c1, w1) \<and>
     release_read mem_redis ''sorobanpay:lock:pay'' ''0-a'' (wait_ms 990 w1) = (Replied True, w2) \<and>
     client_acquireLock mem_redis ''b'' ''pay'' 1 (new_RedisClient None None, wait_ms 20 w2) =
       (\<lparr>lr_acquired = True, lr_token = Some ''1010-b''\<rparr>, c2, w3) \<and>
     ra_del mem_redis ''sorobanpay:lock:pay'' w3 = (Replied (), w4) \<and>
     client_acquireLock mem_redis ''c'' ''pay'' 1 (new_RedisClient None None, w4) =
       (\<lparr>lr_acquired = True, lr_token = Some ''1010-c''\<rparr>, c3, w5)"
proof -
  let ?c = "new_RedisClient None None"
  let ?a = "client_acquireLock mem_redis ''a'' ''pay'' 1 (?c, \<lparr>ms_now = 0, ms_keys = []\<rparr>)"
  let ?r = "release_read mem_redis ''sorobanpay:lock:pay'' ''0-a'' (wait_ms 990 (snd (snd ?a)))"
  let ?b = "client_acquireLock mem_redis ''b'' ''pay'' 1 (?c, wait_ms 20 (snd ?r))"
  let ?d = "ra_del mem_redis ''sorobanpay:lock:pay'' (snd (snd ?b))"
  let ?e = "client_acquireLock mem_redis ''c'' ''pay'' 1 (?c, snd ?d)"
  have a: "fst ?a = \<lparr>lr_acquired = True, lr_token = Some ''0-a''\<rparr>" by code_simp
  have r: "fst ?r = Replied True" by code_simp
  have b: "fst ?b = \<lparr>lr_acquired = True, lr_token = Some ''1010-b''\<rparr>" by code_simp
  have d: "fst ?d = Replied ()" by code_simp
  have e: "fst ?e = \<lparr>lr_acquired = True, lr_token = Some ''1010-c''\<rparr>" by code_simp
  have pair2: "x = (y, snd x)" if "fst x = y" for x :: "'x \<times> 'y" and y using that by (cases x) simp
  have pair3: "x = (y, fst (snd x), snd (snd x))" if "fst x = y" for x :: "'x \<times> 'y \<times> 'z" and y using that by (cases x) simp
  show ?thesis
    by (intro exI conjI) (rule pair3 [OF a], rule pair2 [OF r], rule pair3 [OF b], rule pair2 [OF d], rule pair3 [OF e])
qed


section \<open>The two cache layers\<close>

definition mem_ok :: "mem_cache \<Rightarrow> bool" where
  "mem_ok m \<longleftrightarrow> distinct (map fst m) \<and> length m \<le> MAX_ENTRIES"

lemma length_update: "length (AList.update k v m) = (if k \<in> fst ` set m then length m else Suc (length m))"
  by (induction m) auto

lemma length_delete_le: "length (AList.delete k m) \<le> length m"
  by (simp add: AList.delete_eq)

lemma evict_shorter: "mem_ok m \<Longrightarrow> m \<noteq> [] \<Longrightarrow> length (evict_oldest m) < MAX_ENTRIES"
proof (cases m)
  case (Cons e m')
  assume "mem_ok m"
  moreover have "length (AList.delete k m') \<le> length m'" for k by (rule length_delete_le)
  ultimately show ?thesis using Cons by (cases e) (auto simp: evict_oldest_def mem_ok_def less_Suc_eq_le intro: le_less_trans)
qed simp

lemma mem_ok_ops:
  assumes "mem_ok m"
  shows "mem_ok (mem_set key v ttl now m)" "mem_ok (snd (mem_get key now m))" "mem_ok (mem_del key m)" "mem_ok (mem_clear m)"
proof -
  let ?m = "if length m \<ge> MAX_ENTRIES then evict_oldest m else m"
  have "length ?m < MAX_ENTRIES" using evict_shorter [OF assms] by (cases "m = []") (auto simp: MAX_ENTRIES_def)
  moreover have "distinct (map fst ?m)"
    using assms by (auto simp: mem_ok_def evict_oldest_def intro: distinct_delete split: list.splits)
  ultimately show "mem_ok (mem_set key v ttl now m)"
    by (auto simp: mem_set_def mem_ok_def length_update intro!: distinct_update)
  show "mem_ok (mem_del key m)" using assms length_delete_le [of key m]
    by (auto simp: mem_del_def mem_ok_def intro: distinct_delete)
  then show "mem_ok (snd (mem_get key now m))" using assms by (auto simp: mem_get_def mem_del_def split: option.splits)
  show "mem_ok (mem_clear m)" by (simp add: mem_clear_def mem_ok_def)
qed

text \<open>The module between calls.\<close>

inductive module_step :: "'w redis_module \<times> 'w \<Rightarrow> 'w redis_module \<times> 'w \<Rightarrow> bool" where
  step_cacheSet: "module_step s (cacheSet key v ttl s)"
| step_cacheGet: "module_step s (snd (cacheGet key s))"
| step_cacheDel: "module_step s (cacheDel key s)"

lemma cache_ok_step:
  "module_step s t \<Longrightarrow> mem_ok (rm_fallback (fst s)) \<Longrightarrow> mem_ok (rm_fallback (fst t))"
proof (induction rule: module_step.induct)
  case (step_cacheGet s key)
  then have "mem_ok fb" if "mem_get key now (rm_fallback (fst s)) = (r, fb)" for now r fb
    using mem_ok_ops(2) [OF step_cacheGet, of key now] that by simp
  then show ?case using step_cacheGet by (auto simp: cacheGet_def split: prod.splits option.splits)
qed (auto simp: cacheSet_def cacheDel_def mem_ok_ops split: prod.splits)

interpretation cache_sys: inv_system "\<lambda>s. rm_fallback (fst s) = []" module_step "\<lambda>s. mem_ok (rm_fallback (fst s))"
  by unfold_locales (simp add: mem_ok_def, rule cache_ok_step)

lemma client_get_outage:
  assumes "outage A" "client_get A key (c, w) = (r, c', w')"
  shows "r = None" "ra_clock A w \<le> ra_clock A w'"
proof -
  have o: "\<not> replied (fst (ra_get A (ns c key) w))" "ra_clock A w \<le> ra_clock A (snd (ra_get A (ns c key) w))"
    using assms(1) [unfolded outage_def, THEN spec [of _ "OpGet key"], THEN spec [of _ c], THEN spec [of _ w]]
    by (simp_all add: fst_map_prod snd_map_prod)
  have "r = None \<and> ra_clock A w \<le> ra_clock A w'"
  proof (cases "fst (allowCall (ra_clock A w) (rc_breaker c))")
    case True
    then obtain b where b: "allowCall (ra_clock A w) (rc_breaker c) = (True, b)" by (metis prod.collapse)
    obtain g w1 where g: "ra_get A (ns c key) w = (g, w1)" by (cases "ra_get A (ns c key) w")
    then show ?thesis
      using assms(2) withFallback_permitted [OF b, where fn = "ra_get A (ns c key)"] o
      by (cases g) (auto simp: client_get_def)
  next
    case False
    then show ?thesis using assms(2) refused_same [OF False] by (auto simp: client_get_def withFallback_def)
  qed
  then show "r = None" "ra_clock A w \<le> ra_clock A w'" by simp_all
qed

lemma mem_get_set: "now' \<le> now + ttl * 1000 \<Longrightarrow> fst (mem_get key now' (mem_set key v ttl now m)) = Some v"
  by (simp add: mem_get_def mem_set_def js_simps)

text \<open>A cached value survives an outage of Redis: after a value was stored with \<^verbatim>\<open>cacheSet\<close>, as
  long as its time to live has not passed and no Redis call is answered, \<^verbatim>\<open>cacheGet\<close> returns it,
  whether the breaker makes it try Redis first or not.\<close>

theorem cache_survives_outage:
  assumes "cacheSet key v ttl (m, w) = (m1, w1)" "outage (rm_adapter m)"
    and "cacheGet key (m1, w2) = (r, m2, w3)" "ra_clock (rm_adapter m) w3 \<le> ra_clock (rm_adapter m) w1 + ttl * 1000"
  shows "r = Some v"
proof -
  have m1: "rm_adapter m1 = rm_adapter m"
      "rm_fallback m1 = mem_set key v ttl (ra_clock (rm_adapter m) w1) (rm_fallback m)"
    using assms(1) by (auto simp: cacheSet_def split: prod.splits)
  obtain x c w4 where g: "client_get (rm_adapter m1) key (rm_client m1, w2) = (x, c, w4)" by (metis prod_cases3)
  have "x = None" using client_get_outage(1) [OF _ g] assms(2) m1(1) by simp
  then have "w4 = w3" "r = fst (mem_get key (ra_clock (rm_adapter m) w3) (rm_fallback m1))"
    using assms(3) g m1(1) by (auto simp: cacheGet_def split: prod.splits)
  then show ?thesis using mem_get_set [OF assms(4)] m1(2) by simp
qed

definition dead_module :: "int redis_module" where
  "dead_module = \<lparr>rm_adapter = dead_redis, rm_client = new_RedisClient None None, rm_fallback = []\<rparr>"

theorem cache_survives_outage_witness:
  "fst (cacheGet ''k'' (fst (cacheSet ''k'' ''v'' 60 (dead_module, 0)), 4000)) = Some ''v''"
proof -
  let ?s = "cacheSet ''k'' ''v'' 60 (dead_module, 0)"
  let ?g = "cacheGet ''k'' (fst ?s, 4000)"
  have "snd ?s = 2000" "snd (snd ?g) = 6000" by code_simp+
  moreover have "?s = (fst ?s, snd ?s)" "?g = (fst ?g, fst (snd ?g), snd (snd ?g))" by simp_all
  ultimately show ?thesis
    using cache_survives_outage [of "''k''" "''v''" 60 dead_module 0 "fst ?s" "snd ?s" 4000 "fst ?g" "fst (snd ?g)" "snd (snd ?g)"]
      dead_redis_outage by (simp add: dead_module_def dead_redis_def)
qed

text \<open>The in-memory layer also answers when Redis is up and says the key is absent, so a process
  keeps serving a value that another process has deleted: no answer was missing, and the key has no
  value in Redis.\<close>

theorem deleted_key_still_served:
  "\<exists>m1 w1 w2 m3 w3.
     cacheSet ''k'' ''old'' 60 (\<lparr>rm_adapter = mem_redis, rm_client = new_RedisClient None None, rm_fallback = []\<rparr>,
       \<lparr>ms_now = 0, ms_keys = []\<rparr>) = (m1, w1) \<and>
     snd (client_del mem_redis ''k'' (new_RedisClient None None, w1)) = (new_RedisClient None None\<lparr>rc_connected := True\<rparr>, w2) \<and>
     ms_val w2 ''sorobanpay:k'' = None \<and> cacheGet ''k'' (m1, w2) = (Some ''old'', m3, w3)"
proof -
  let ?s = "cacheSet ''k'' ''old'' 60 (\<lparr>rm_adapter = mem_redis, rm_client = new_RedisClient None None, rm_fallback = []\<rparr>,
       \<lparr>ms_now = 0, ms_keys = []\<rparr>)"
  let ?d = "client_del mem_redis ''k'' (new_RedisClient None None, snd ?s)"
  let ?g = "cacheGet ''k'' (fst ?s, snd (snd ?d))"
  have d: "fst (snd ?d) = new_RedisClient None None\<lparr>rc_connected := True\<rparr>" by code_simp
  have v: "ms_val (snd (snd ?d)) ''sorobanpay:k'' = None" by code_simp
  have g: "fst ?g = Some ''old''" by code_simp
  have pair: "x = (y, snd x)" if "fst x = y" for x :: "'x \<times> 'y" and y using that by (cases x) simp
  have pair3: "x = (y, fst (snd x), snd (snd x))" if "fst x = y" for x :: "'x \<times> 'y \<times> 'z" and y using that by (cases x) simp
  show ?thesis
    by (intro exI conjI) (rule pair [OF refl], rule pair [OF d], rule v, rule pair3 [OF g])
qed

end
