(* ===== verification/Webhook_Notifier.thy ===== *)
theory Webhook_Notifier
  imports Prelude
begin

text \<open>
  Direct webhook notification, \<^verbatim>\<open>services/webhookNotifier.ts\<close> with the signatures of
  \<^verbatim>\<open>services/webhookSignature.ts\<close>: the choice of the endpoints, the stable event id, and the delivery
  loop with its retries and records. Hash, HMAC, JSON text, random ids, HTTP, the clock and the
  BullMQ queue are fields of an environment that acts on a world; the table of deliveries is a list
  and its insertions may fail. The deliveries that \<^verbatim>\<open>Promise.all\<close> starts together are run one after
  the other; an error of one is the error of all, after the others have run.
\<close>

section \<open>Data\<close>

datatype WebhookEventType = PaymentExecuted | PaymentFailed | SubscriptionCancelled

definition event_text :: "WebhookEventType \<Rightarrow> string" where
  "event_text e = (case e of PaymentExecuted \<Rightarrow> ''payment.executed'' | PaymentFailed \<Rightarrow> ''payment.failed''
     | SubscriptionCancelled \<Rightarrow> ''subscription.cancelled'')"

record WebhookPayload =
  wp_event :: WebhookEventType
  wp_subscriber :: string
  wp_merchant :: string
  wp_amount :: string
  wp_txHash :: "string option"
  wp_eventIndex :: "nat option"
  wp_timestamp :: int
  wp_traceContext :: "string option"

record webhook_endpoint =
  we_id :: nat
  we_url :: string
  we_secret :: "string option"
  we_merchant :: string
  we_active :: bool
  we_events :: "string option"

record delivery_record =
  dr_eventId :: string
  dr_deliveryId :: string
  dr_url :: string
  dr_merchant :: string
  dr_event :: string
  dr_payload :: string
  dr_statusCode :: nat
  dr_attempt :: nat
  dr_success :: bool
  dr_error :: "string option"
  dr_endpointId :: nat

definition MAX_ATTEMPTS :: nat where "MAX_ATTEMPTS = 5"
definition RETRY_DELAYS_MS :: "int list" where "RETRY_DELAYS_MS = [1000, 5000, 15000, 60000, 300000]"

record 'w notifier_env =
  ne_sha256 :: "string \<Rightarrow> string"
  ne_hmac :: "string \<Rightarrow> string \<Rightarrow> string"
  ne_json :: "WebhookPayload \<Rightarrow> string \<Rightarrow> string"
  ne_uuid :: "'w \<Rightarrow> string \<times> 'w"
  ne_clock :: "'w \<Rightarrow> int"
  ne_sleep :: "int \<Rightarrow> 'w \<Rightarrow> 'w"
  ne_fetch :: "string \<Rightarrow> (string \<times> string) list \<Rightarrow> string \<Rightarrow> 'w \<Rightarrow> (string + nat) \<times> 'w"
  ne_db_fault :: "'w \<Rightarrow> string option"
  ne_queue :: "(nat \<Rightarrow> WebhookPayload \<Rightarrow> string \<Rightarrow> 'w \<Rightarrow> (string + unit) \<times> 'w) option"

section \<open>Signatures\<close>

definition signPayload :: "'w notifier_env \<Rightarrow> string \<Rightarrow> string \<Rightarrow> string" where
  "signPayload env body secret = ''sha256='' @ ne_hmac env secret body"

definition verifyWebhookSignature :: "'w notifier_env \<Rightarrow> string \<Rightarrow> string \<Rightarrow> string \<Rightarrow> bool" where
  "verifyWebhookSignature env body signatureHeader secret =
     (if signatureHeader = '''' \<or> secret = '''' then False
      else let expected = signPayload env body secret in
        if length expected \<noteq> length signatureHeader then False else signatureHeader = expected)"

section \<open>Operations\<close>

definition deriveEventId :: "'w notifier_env \<Rightarrow> string \<Rightarrow> nat \<Rightarrow> string" where
  "deriveEventId env txHash eventIndex = ne_sha256 env (txHash @ nat_str eventIndex)"

definition isEventAllowed :: "string option \<Rightarrow> string \<Rightarrow> bool" where
  "isEventAllowed endpointEvents eventType = (case endpointEvents of
      None \<Rightarrow> True
    | Some es \<Rightarrow> if js_trim es = '''' then True
        else eventType \<in> set (filter (\<lambda>e. e \<noteq> '''') (map js_trim (js_split (CHR '','') es))))"

text \<open>The filter that \<^verbatim>\<open>notifyWebhooks\<close> itself uses.\<close>

definition applicable :: "WebhookPayload \<Rightarrow> webhook_endpoint \<Rightarrow> bool" where
  "applicable payload ep = (case we_events ep of
      None \<Rightarrow> True
    | Some es \<Rightarrow> if es = '''' then True
        else event_text (wp_event payload) \<in> set (map js_trim (js_split (CHR '','') es)))"

text \<open>\<^verbatim>\<open>res.ok\<close> of a response.\<close>

definition res_ok :: "nat \<Rightarrow> bool" where
  "res_ok code \<longleftrightarrow> 200 \<le> code \<and> code \<le> 299"

definition create_delivery ::
  "'w notifier_env \<Rightarrow> delivery_record \<Rightarrow> delivery_record list \<times> 'w \<Rightarrow> (string + unit) \<times> delivery_record list \<times> 'w" where
  "create_delivery env row s = (case s of (tbl, w) \<Rightarrow>
     (case ne_db_fault env w of Some e \<Rightarrow> (Inl e, tbl, w) | None \<Rightarrow> (Inr (), tbl @ [row], w)))"

definition attempt_headers ::
  "'w notifier_env \<Rightarrow> webhook_endpoint \<Rightarrow> string \<Rightarrow> string \<Rightarrow> string \<Rightarrow> int \<Rightarrow> (string \<times> string) list" where
  "attempt_headers env ep eventId deliveryId body now =
     [(''Content-Type'', ''application/json''), (''X-SorobanPay-Event-ID'', eventId),
      (''X-SorobanPay-Delivery-ID'', deliveryId), (''X-SorobanPay-Timestamp'', int_str (now div 1000))] @
     (case we_secret ep of None \<Rightarrow> []
      | Some sec \<Rightarrow> if sec = '''' then [] else [(''X-SorobanPay-Signature'', signPayload env body sec)])"

definition delivery_row ::
  "webhook_endpoint \<Rightarrow> WebhookPayload \<Rightarrow> string \<Rightarrow> string \<Rightarrow> string \<Rightarrow> nat \<Rightarrow> nat \<Rightarrow> bool \<Rightarrow> string option \<Rightarrow> delivery_record" where
  "delivery_row ep payload eventId deliveryId body code attempt ok err =
     \<lparr>dr_eventId = eventId, dr_deliveryId = deliveryId, dr_url = we_url ep, dr_merchant = wp_merchant payload,
      dr_event = event_text (wp_event payload), dr_payload = body, dr_statusCode = code, dr_attempt = attempt + 1,
      dr_success = ok, dr_error = err, dr_endpointId = we_id ep\<rparr>"

text \<open>The loop over the attempts. An error of the first insertion is caught like one of the HTTP call;
  an error of the insertion in the handler leaves the loop.\<close>

definition record_error ::
  "'w notifier_env \<Rightarrow> webhook_endpoint \<Rightarrow> WebhookPayload \<Rightarrow> string \<Rightarrow> string \<Rightarrow> string \<Rightarrow> nat \<Rightarrow> string \<Rightarrow>
     delivery_record list \<times> 'w \<Rightarrow> (string + unit) \<times> delivery_record list \<times> 'w" where
  "record_error env ep payload eventId deliveryId body attempt msg s =
     create_delivery env (delivery_row ep payload eventId deliveryId body 0 attempt False (Some msg)) s"

fun deliver_loop ::
  "'w notifier_env \<Rightarrow> webhook_endpoint \<Rightarrow> WebhookPayload \<Rightarrow> string \<Rightarrow> string \<Rightarrow> nat list \<Rightarrow>
     delivery_record list \<times> 'w \<Rightarrow> (string + unit) \<times> delivery_record list \<times> 'w" where
  "deliver_loop env ep payload eventId body [] s = (Inr (), s)"
| "deliver_loop env ep payload eventId body (attempt # rest) (tbl, w) =
     (let w0 = (if attempt > 0 then ne_sleep env (RETRY_DELAYS_MS ! (attempt - 1)) w else w) in
      case ne_uuid env w0 of (deliveryId, w1) \<Rightarrow>
      (case ne_fetch env (we_url ep) (attempt_headers env ep eventId deliveryId body (ne_clock env w1)) body w1 of
         (Inr code, w2) \<Rightarrow>
           (let ok = res_ok code in
            case create_delivery env (delivery_row ep payload eventId deliveryId body code attempt ok None) (tbl, w2) of
              (Inr _, s3) \<Rightarrow> if ok then (Inr (), s3) else deliver_loop env ep payload eventId body rest s3
            | (Inl msg, s3) \<Rightarrow>
                (case record_error env ep payload eventId deliveryId body attempt msg s3 of
                   (Inl e, s4) \<Rightarrow> (Inl e, s4)
                 | (Inr _, s4) \<Rightarrow> deliver_loop env ep payload eventId body rest s4))
       | (Inl msg, w2) \<Rightarrow>
           (case record_error env ep payload eventId deliveryId body attempt msg (tbl, w2) of
              (Inl e, s4) \<Rightarrow> (Inl e, s4)
            | (Inr _, s4) \<Rightarrow> deliver_loop env ep payload eventId body rest s4)))"

definition deliverWithRetry ::
  "'w notifier_env \<Rightarrow> webhook_endpoint \<Rightarrow> WebhookPayload \<Rightarrow> string \<Rightarrow>
     delivery_record list \<times> 'w \<Rightarrow> (string + unit) \<times> delivery_record list \<times> 'w" where
  "deliverWithRetry env ep payload eventId s =
     deliver_loop env ep payload eventId (ne_json env payload eventId) [0..<MAX_ATTEMPTS] s"

definition deliver_one ::
  "'w notifier_env \<Rightarrow> WebhookPayload \<Rightarrow> string \<Rightarrow> webhook_endpoint \<Rightarrow>
     delivery_record list \<times> 'w \<Rightarrow> (string + unit) \<times> delivery_record list \<times> 'w" where
  "deliver_one env payload eventId ep s = (case ne_queue env of
      Some enq \<Rightarrow> (case s of (tbl, w) \<Rightarrow> (case enq (we_id ep) payload eventId w of (r, w1) \<Rightarrow> (r, tbl, w1)))
    | None \<Rightarrow> deliverWithRetry env ep payload eventId s)"

text \<open>All of them are run; the first error is the result.\<close>

fun deliver_all ::
  "'w notifier_env \<Rightarrow> WebhookPayload \<Rightarrow> string \<Rightarrow> webhook_endpoint list \<Rightarrow>
     delivery_record list \<times> 'w \<Rightarrow> (string + unit) \<times> delivery_record list \<times> 'w" where
  "deliver_all env payload eventId [] s = (Inr (), s)"
| "deliver_all env payload eventId (ep # eps) s =
     (case deliver_one env payload eventId ep s of (r, s1) \<Rightarrow>
       (case deliver_all env payload eventId eps s1 of (r', s2) \<Rightarrow> ((case r of Inl e \<Rightarrow> Inl e | Inr _ \<Rightarrow> r'), s2)))"

definition notifyWebhooks ::
  "'w notifier_env \<Rightarrow> webhook_endpoint list \<Rightarrow> WebhookPayload \<Rightarrow>
     delivery_record list \<times> 'w \<Rightarrow> (string + unit) \<times> delivery_record list \<times> 'w" where
  "notifyWebhooks env tbl_endpoints payload s = (case s of (tbl, w) \<Rightarrow>
     (let endpoints = filter (\<lambda>ep. we_merchant ep = wp_merchant payload \<and> we_active ep) tbl_endpoints;
          idw = (case wp_txHash payload of
             Some h \<Rightarrow> if h = '''' then ne_uuid env w
               else (deriveEventId env h (case wp_eventIndex payload of None \<Rightarrow> 0 | Some i \<Rightarrow> i), w)
           | None \<Rightarrow> ne_uuid env w) in
      case idw of (eventId, w1) \<Rightarrow> deliver_all env payload eventId (filter (applicable payload) endpoints) (tbl, w1)))"


section \<open>Properties\<close>

text \<open>The two event filters differ only on a filter of white space.\<close>

lemma filters_agree:
  assumes "\<And>es. we_events ep = Some es \<Longrightarrow> es = '''' \<or> js_trim es \<noteq> ''''"
  shows "applicable payload ep = isEventAllowed (we_events ep) (event_text (wp_event payload))"
proof (cases "we_events ep")
  case (Some es)
  have "event_text (wp_event payload) \<noteq> ''''" by (simp add: event_text_def split: WebhookEventType.splits)
  moreover have "es = '''' \<or> js_trim es \<noteq> ''''" using assms Some by blast
  moreover have "js_trim '''' = ''''" by (simp add: js_trim_def)
  ultimately show ?thesis using Some by (auto simp: applicable_def isEventAllowed_def)
qed (simp add: applicable_def isEventAllowed_def)

definition db_up :: "'w notifier_env \<Rightarrow> bool" where
  "db_up env \<longleftrightarrow> (\<forall>w. ne_db_fault env w = None)"

lemma create_db_up [simp]: "db_up env \<Longrightarrow> create_delivery env row (tbl, w) = (Inr (), tbl @ [row], w)"
  by (simp add: create_delivery_def db_up_def)

lemma delivery_row_fields [simp]:
  "dr_attempt (delivery_row ep payload eventId d body code a ok err) = Suc a"
  "dr_eventId (delivery_row ep payload eventId d body code a ok err) = eventId"
  "dr_endpointId (delivery_row ep payload eventId d body code a ok err) = we_id ep"
  "dr_payload (delivery_row ep payload eventId d body code a ok err) = body"
  "dr_success (delivery_row ep payload eventId d body code a ok err) = ok"
  by (simp_all add: delivery_row_def)

text \<open>The rows that the attempts \<open>a, \<dots>, n - 1\<close> may leave.\<close>

definition attempt_rows :: "webhook_endpoint \<Rightarrow> string \<Rightarrow> string \<Rightarrow> nat \<Rightarrow> nat \<Rightarrow> delivery_record list \<Rightarrow> bool" where
  "attempt_rows ep eventId body a n rows \<longleftrightarrow>
     map dr_attempt rows = [Suc a..<Suc (a + length rows)] \<and> a + length rows \<le> n \<and>
     (\<forall>r \<in> set rows. dr_eventId r = eventId \<and> dr_endpointId r = we_id ep \<and> dr_payload r = body) \<and>
     (\<forall>r \<in> set (butlast rows). \<not> dr_success r) \<and>
     (a + length rows < n \<longrightarrow> rows \<noteq> [] \<and> dr_success (last rows))"

lemma attempt_rows_done: "attempt_rows ep eventId body n n []"
  by (simp add: attempt_rows_def)

lemma attempt_rows_last:
  "a < n \<Longrightarrow> attempt_rows ep eventId body a n [delivery_row ep payload eventId d body code a True err]"
  by (simp add: attempt_rows_def)

lemma attempt_rows_next:
  assumes "attempt_rows ep eventId body (Suc a) n rows"
  shows "attempt_rows ep eventId body a n (delivery_row ep payload eventId d body code a False err # rows)"
  using assms by (cases "rows = []") (auto simp: attempt_rows_def upt_rec [of "Suc a"] simp del: upt_Suc)

lemma deliver_loop_rows:
  assumes "db_up env"
  shows "a \<le> n \<Longrightarrow> \<exists>rows w'. deliver_loop env ep payload eventId body [a..<n] (tbl, w) = (Inr (), tbl @ rows, w') \<and>
    attempt_rows ep eventId body a n rows"
proof (induction "n - a" arbitrary: a tbl w)
  case 0
  then show ?case by (auto simp: attempt_rows_done)
next
  case (Suc k)
  then have a: "[a..<n] = a # [Suc a..<n]" "k = n - Suc a" "Suc a \<le> n" "a < n" by (simp_all add: upt_conv_Cons)
  define w0 where "w0 = (if a > 0 then ne_sleep env (RETRY_DELAYS_MS ! (a - 1)) w else w)"
  obtain d w1 where d: "ne_uuid env w0 = (d, w1)" by (cases "ne_uuid env w0")
  obtain r w2 where r: "ne_fetch env (we_url ep) (attempt_headers env ep eventId d body (ne_clock env w1)) body w1 = (r, w2)"
    by (metis prod.exhaust)
  have ih: "\<exists>rows w'. deliver_loop env ep payload eventId body [Suc a..<n] (t, x) = (Inr (), t @ rows, w') \<and>
      attempt_rows ep eventId body (Suc a) n rows" for t x
    using Suc.hyps(1) [OF a(2,3)] .
  let ?failed = "\<lambda>code err. delivery_row ep payload eventId d body code a False err"
  have next': "\<exists>rows w'. deliver_loop env ep payload eventId body [Suc a..<n] (tbl @ [?failed code err], w2) = (Inr (), tbl @ rows, w') \<and>
      attempt_rows ep eventId body a n rows" for code err
    using ih [of "tbl @ [?failed code err]" w2] attempt_rows_next by fastforce
  show ?case
  proof (cases r)
    case (Inl msg)
    then show ?thesis using next' [of 0 "Some msg"] assms d r
      by (simp add: a(1) Let_def record_error_def flip: w0_def)
  next
    case (Inr code)
    show ?thesis
    proof (cases "res_ok code")
      case True
      then show ?thesis using Inr assms d r attempt_rows_last [OF a(4)]
        by (auto simp: a(1) Let_def simp flip: w0_def)
    next
      case False
      then show ?thesis using next' [of code None] Inr assms d r
        by (simp add: a(1) Let_def flip: w0_def)
    qed
  qed
qed

text \<open>Direct delivery to an endpoint, while the database is up: there are at most five attempts,
  numbered from one, all with the same event id and body, so the merchant can recognise a repeated
  one; the attempts stop at the first success, and only if there is none are all five made. In either
  case the call itself succeeds.\<close>

theorem delivery_attempts:
  assumes "db_up env"
  shows "\<exists>rows w'. deliverWithRetry env ep payload eventId (tbl, w) = (Inr (), tbl @ rows, w') \<and>
    map dr_attempt rows = [1..<Suc (length rows)] \<and> length rows \<le> 5 \<and>
    (\<forall>r \<in> set rows. dr_eventId r = eventId \<and> dr_endpointId r = we_id ep \<and> dr_payload r = ne_json env payload eventId) \<and>
    (\<forall>r \<in> set (butlast rows). \<not> dr_success r) \<and> (length rows < 5 \<longrightarrow> rows \<noteq> [] \<and> dr_success (last rows))"
  using deliver_loop_rows [OF assms, of 0 5 ep payload eventId "ne_json env payload eventId" tbl w]
  by (simp add: deliverWithRetry_def MAX_ATTEMPTS_def attempt_rows_def del: upt_Suc)

text \<open>A merchant's server that answers 500 a number of times and then 200; the world counts the calls.\<close>

definition flaky_env :: "nat \<Rightarrow> nat notifier_env" where
  "flaky_env n = \<lparr>ne_sha256 = (\<lambda>s. s), ne_hmac = (\<lambda>k b. k @ b), ne_json = (\<lambda>p i. i), ne_uuid = (\<lambda>w. (nat_str w, w)),
     ne_clock = (\<lambda>w. 0), ne_sleep = (\<lambda>d w. w), ne_fetch = (\<lambda>u h b w. (Inr (if w < n then 500 else 200), Suc w)),
     ne_db_fault = (\<lambda>w. None), ne_queue = None\<rparr>"

definition demo_endpoint :: webhook_endpoint where
  "demo_endpoint = \<lparr>we_id = 1, we_url = ''http://m'', we_secret = Some ''s'', we_merchant = ''M'', we_active = True,
     we_events = Some ''payment.executed, payment.failed''\<rparr>"

definition demo_payload :: WebhookPayload where
  "demo_payload = \<lparr>wp_event = PaymentFailed, wp_subscriber = ''S'', wp_merchant = ''M'', wp_amount = ''5'',
     wp_txHash = Some ''h'', wp_eventIndex = Some 2, wp_timestamp = 0, wp_traceContext = None\<rparr>"

theorem delivery_attempts_witness:
  "length (fst (snd (deliverWithRetry (flaky_env 2) demo_endpoint demo_payload ''e'' ([], 0)))) \<le> 5"
  using delivery_attempts [of "flaky_env 2" demo_endpoint demo_payload "''e''" "[]" 0] by (auto simp: db_up_def flaky_env_def)

text \<open>A whole notification then succeeds as well, however the endpoints answer.\<close>

lemma deliver_all_db_up:
  "db_up env \<Longrightarrow> ne_queue env = None \<Longrightarrow> \<exists>rows w'. deliver_all env payload eventId eps (tbl, w) = (Inr (), tbl @ rows, w')"
proof (induction eps arbitrary: tbl w)
  case (Cons ep eps)
  obtain rows w1 where "deliverWithRetry env ep payload eventId (tbl, w) = (Inr (), tbl @ rows, w1)"
    using deliver_loop_rows [OF Cons.prems(1), of 0 5 ep payload eventId "ne_json env payload eventId" tbl w]
    by (auto simp: deliverWithRetry_def MAX_ATTEMPTS_def)
  moreover obtain rows' w2 where "deliver_all env payload eventId eps (tbl @ rows, w1) = (Inr (), (tbl @ rows) @ rows', w2)"
    using Cons.IH [OF Cons.prems] by blast
  ultimately show ?case using Cons.prems(2) by (simp add: deliver_one_def)
qed simp

lemma notify_db_up:
  assumes "db_up env" "ne_queue env = None"
  shows "\<exists>rows w'. notifyWebhooks env eps payload (tbl, w) = (Inr (), tbl @ rows, w')"
  using deliver_all_db_up [OF assms] by (simp add: notifyWebhooks_def Let_def split: prod.splits)

end
