(* ===== verification/Retry_Queue.thy ===== *)
theory Retry_Queue
  imports Webhook_Notifier
begin

text \<open>
  The payment retry queue, \<^verbatim>\<open>services/retryQueue.ts\<close>: the schedule, the rows of
  \<^verbatim>\<open>payment_retries\<close>, scheduling, cancelling and processing of retries. The BullMQ queue is an
  argument: adding a job gives its id or throws, removing one may throw; both act on a world.
  The notification that a job sends is an argument too, and is \<open>notifyWebhooks\<close> where the two
  components are put together. The database is taken to be up; \<open>re_unique\<close> says whether the table
  has the unique index on pair and attempt number that the schema declares.
\<close>

section \<open>Data\<close>

record RetryJobData =
  rj_subscriber :: string
  rj_merchant :: string
  rj_amount :: string
  rj_token :: string
  rj_attemptNumber :: nat
  rj_retryId :: nat

datatype RetryStatus = RetryPending | RetrySucceeded | RetryFailed | RetryCancelled

record PaymentRetryRecord =
  pr_id :: nat
  pr_subscriber :: string
  pr_merchant :: string
  pr_amount :: string
  pr_token :: string
  pr_attemptNumber :: nat
  pr_status :: RetryStatus
  pr_scheduledAt :: int
  pr_attemptedAt :: "int option"
  pr_error :: "string option"
  pr_jobId :: "string option"

record retry_db =
  rd_rows :: "PaymentRetryRecord list"
  rd_next :: nat

definition MAX_RETRIES :: nat where "MAX_RETRIES = 3"

record 'w retry_env =
  re_add :: "string \<Rightarrow> RetryJobData \<Rightarrow> int \<Rightarrow> 'w \<Rightarrow> (string + string option) \<times> 'w"
  re_remove :: "string \<Rightarrow> 'w \<Rightarrow> (string + unit) \<times> 'w"
  re_notify :: "WebhookPayload \<Rightarrow> 'w \<Rightarrow> (string + unit) \<times> 'w"
  re_clock :: "'w \<Rightarrow> int"
  re_delays_var :: "string option"
  re_unique :: bool

section \<open>Schedule\<close>

definition default_delays :: "int list" where
  "default_delays = (let day = 24 * 60 * 60 * 1000 in [day, 3 * day, 7 * day])"

definition getRetryDelays :: "string option \<Rightarrow> int list" where
  "getRetryDelays envVal = (case envVal of
      None \<Rightarrow> default_delays
    | Some v \<Rightarrow> if v = '''' then default_delays
        else let parsed = map (\<lambda>x. parse_int (js_trim x)) (js_split (CHR '','') v) in
          if list_all (\<lambda>n. case n of None \<Rightarrow> False | Some i \<Rightarrow> i > 0) parsed then map the parsed else default_delays)"

section \<open>Rows\<close>

definition of_pair :: "string \<Rightarrow> string \<Rightarrow> PaymentRetryRecord \<Rightarrow> bool" where
  "of_pair subscriber merchant r \<longleftrightarrow> pr_subscriber r = subscriber \<and> pr_merchant r = merchant"

definition getRawRetries :: "string \<Rightarrow> string \<Rightarrow> retry_db \<Rightarrow> PaymentRetryRecord list" where
  "getRawRetries subscriber merchant db = sort_key pr_attemptNumber (filter (of_pair subscriber merchant) (rd_rows db))"

definition createRetryRecord ::
  "bool \<Rightarrow> string \<Rightarrow> string \<Rightarrow> string \<Rightarrow> string \<Rightarrow> nat \<Rightarrow> int \<Rightarrow> retry_db \<Rightarrow> (string + PaymentRetryRecord) \<times> retry_db" where
  "createRetryRecord uniq subscriber merchant amount token attemptNumber scheduledAt db =
     (if uniq \<and> list_ex (\<lambda>r. of_pair subscriber merchant r \<and> pr_attemptNumber r = attemptNumber) (rd_rows db)
      then (Inl ''duplicate key value violates unique constraint'', db)
      else let row = \<lparr>pr_id = rd_next db, pr_subscriber = subscriber, pr_merchant = merchant, pr_amount = amount,
             pr_token = token, pr_attemptNumber = attemptNumber, pr_status = RetryPending, pr_scheduledAt = scheduledAt,
             pr_attemptedAt = None, pr_error = None, pr_jobId = None\<rparr>
        in (Inr row, db\<lparr>rd_rows := rd_rows db @ [row], rd_next := rd_next db + 1\<rparr>))"

text \<open>Only the columns that are given are set; \<open>Some None\<close> for the job id is an explicit \<^verbatim>\<open>null\<close>.\<close>

record UpdateRetryInput =
  ui_status :: "RetryStatus option"
  ui_attemptedAt :: "int option"
  ui_error :: "string option"
  ui_jobId :: "string option option"

definition no_update :: UpdateRetryInput where
  "no_update = \<lparr>ui_status = None, ui_attemptedAt = None, ui_error = None, ui_jobId = None\<rparr>"

definition apply_update :: "UpdateRetryInput \<Rightarrow> PaymentRetryRecord \<Rightarrow> PaymentRetryRecord" where
  "apply_update u r = r\<lparr>
     pr_status := (case ui_status u of None \<Rightarrow> pr_status r | Some s \<Rightarrow> s),
     pr_attemptedAt := (case ui_attemptedAt u of None \<Rightarrow> pr_attemptedAt r | Some t \<Rightarrow> Some t),
     pr_error := (case ui_error u of None \<Rightarrow> pr_error r | Some e \<Rightarrow> Some e),
     pr_jobId := (case ui_jobId u of None \<Rightarrow> pr_jobId r | Some j \<Rightarrow> j)\<rparr>"

definition updateRetryRecord :: "nat \<Rightarrow> UpdateRetryInput \<Rightarrow> retry_db \<Rightarrow> retry_db" where
  "updateRetryRecord rid u db = db\<lparr>rd_rows := table_update (\<lambda>r. pr_id r = rid) (apply_update u) (rd_rows db)\<rparr>"

section \<open>Scheduling\<close>

definition retry_job_name :: "string \<Rightarrow> string \<Rightarrow> nat \<Rightarrow> string" where
  "retry_job_name subscriber merchant attemptNumber =
     ''retry-'' @ subscriber @ ''-'' @ merchant @ ''-'' @ nat_str attemptNumber"

fun enqueue_loop ::
  "'w retry_env \<Rightarrow> string \<Rightarrow> string \<Rightarrow> string \<Rightarrow> string \<Rightarrow> int \<Rightarrow> (nat \<times> int) list \<Rightarrow> nat list \<Rightarrow>
     retry_db \<times> 'w \<Rightarrow> (string + nat list) \<times> retry_db \<times> 'w" where
  "enqueue_loop env subscriber merchant amount token now [] ids s = (Inr ids, s)"
| "enqueue_loop env subscriber merchant amount token now ((i, delayMs) # rest) ids (db, w) =
     (case createRetryRecord (re_unique env) subscriber merchant amount token (i + 1) (now + delayMs) db of
        (Inl e, db1) \<Rightarrow> (Inl e, db1, w)
      | (Inr row, db1) \<Rightarrow>
          (case re_add env (retry_job_name subscriber merchant (i + 1))
              \<lparr>rj_subscriber = subscriber, rj_merchant = merchant, rj_amount = amount, rj_token = token,
               rj_attemptNumber = i + 1, rj_retryId = pr_id row\<rparr> delayMs w of
             (Inl e, w1) \<Rightarrow> (Inl e, db1, w1)
           | (Inr jobId, w1) \<Rightarrow>
               enqueue_loop env subscriber merchant amount token now rest (ids @ [pr_id row])
                 (updateRetryRecord (pr_id row) (no_update\<lparr>ui_jobId := Some jobId\<rparr>) db1, w1)))"

definition has_pending :: "string \<Rightarrow> string \<Rightarrow> retry_db \<Rightarrow> bool" where
  "has_pending subscriber merchant db = list_ex (\<lambda>r. pr_status r = RetryPending) (getRawRetries subscriber merchant db)"

definition enqueueRetries ::
  "'w retry_env \<Rightarrow> string \<Rightarrow> string \<Rightarrow> string \<Rightarrow> string \<Rightarrow> retry_db \<times> 'w \<Rightarrow> (string + nat list) \<times> retry_db \<times> 'w" where
  "enqueueRetries env subscriber merchant amount token s = (case s of (db, w) \<Rightarrow>
     if has_pending subscriber merchant db then (Inr [], db, w)
     else let delays = getRetryDelays (re_delays_var env) in
       enqueue_loop env subscriber merchant amount token (re_clock env w)
         (zip [0..<min MAX_RETRIES (length delays)] delays) [] (db, w))"

section \<open>Cancelling\<close>

text \<open>Removing the job is best effort.\<close>

definition cancel_one :: "'w retry_env \<Rightarrow> PaymentRetryRecord \<Rightarrow> retry_db \<times> 'w \<Rightarrow> retry_db \<times> 'w" where
  "cancel_one env r s = (case s of (db, w) \<Rightarrow>
     (let w1 = (case pr_jobId r of None \<Rightarrow> w | Some j \<Rightarrow> if j = '''' then w else snd (re_remove env j w)) in
      (updateRetryRecord (pr_id r) (no_update\<lparr>ui_status := Some RetryCancelled\<rparr>) db, w1)))"

definition cancelRetries :: "'w retry_env \<Rightarrow> string \<Rightarrow> string \<Rightarrow> retry_db \<times> 'w \<Rightarrow> retry_db \<times> 'w" where
  "cancelRetries env subscriber merchant s =
     fold (cancel_one env) (filter (\<lambda>r. pr_status r = RetryPending) (getRawRetries subscriber merchant (fst s))) s"

section \<open>Processing\<close>

definition retry_payload :: "RetryJobData \<Rightarrow> int \<Rightarrow> string option \<Rightarrow> WebhookPayload" where
  "retry_payload d now txHash = \<lparr>wp_event = PaymentFailed, wp_subscriber = rj_subscriber d, wp_merchant = rj_merchant d,
     wp_amount = rj_amount d, wp_txHash = txHash, wp_eventIndex = None, wp_timestamp = now, wp_traceContext = None\<rparr>"

definition emitMaxRetriesExceeded :: "'w retry_env \<Rightarrow> RetryJobData \<Rightarrow> 'w \<Rightarrow> 'w" where
  "emitMaxRetriesExceeded env d w = snd (re_notify env (retry_payload d (re_clock env w) (Some ''max_retries_exceeded'')) w)"

definition processRetryJob :: "'w retry_env \<Rightarrow> RetryJobData \<Rightarrow> retry_db \<times> 'w \<Rightarrow> retry_db \<times> 'w" where
  "processRetryJob env d s = (case s of (db, w) \<Rightarrow>
     (let db1 = updateRetryRecord (rj_retryId d) (no_update\<lparr>ui_attemptedAt := Some (re_clock env w)\<rparr>) db in
      case re_notify env (retry_payload d (re_clock env w) None) w of
        (Inr _, w1) \<Rightarrow>
          (let db2 = updateRetryRecord (rj_retryId d) (no_update\<lparr>ui_status := Some RetrySucceeded\<rparr>) db1;
               pendingAfterThis = filter (\<lambda>r. pr_status r = RetryPending \<and> pr_id r \<noteq> rj_retryId d)
                 (getRawRetries (rj_subscriber d) (rj_merchant d) db2) in
           fold (cancel_one env) pendingAfterThis (db2, w1))
      | (Inl errorMsg, w1) \<Rightarrow>
          (let db2 = updateRetryRecord (rj_retryId d)
                 (no_update\<lparr>ui_status := Some RetryFailed, ui_error := Some errorMsg\<rparr>) db1 in
           if rj_attemptNumber d \<ge> MAX_RETRIES then (db2, emitMaxRetriesExceeded env d w1) else (db2, w1))))"


section \<open>Lemmas\<close>

definition retry_ok :: "retry_db \<Rightarrow> bool" where
  "retry_ok db \<longleftrightarrow> distinct (map pr_id (rd_rows db)) \<and> (\<forall>r \<in> set (rd_rows db). pr_id r < rd_next db)"

lemma apply_update_fields [simp]:
  "pr_id (apply_update u r) = pr_id r" "pr_subscriber (apply_update u r) = pr_subscriber r"
  "pr_merchant (apply_update u r) = pr_merchant r" "pr_attemptNumber (apply_update u r) = pr_attemptNumber r"
  "pr_status (apply_update u r) = (case ui_status u of None \<Rightarrow> pr_status r | Some s \<Rightarrow> s)"
  "of_pair sub mer (apply_update u r) = of_pair sub mer r"
  by (simp_all add: apply_update_def of_pair_def)

lemma update_ids [simp]: "map pr_id (rd_rows (updateRetryRecord rid u db)) = map pr_id (rd_rows db)"
  by (auto simp: updateRetryRecord_def table_update_def)

lemma update_next [simp]: "rd_next (updateRetryRecord rid u db) = rd_next db"
  by (simp add: updateRetryRecord_def)

lemma retry_ok_update: "retry_ok db \<Longrightarrow> retry_ok (updateRetryRecord rid u db)"
  by (auto simp: retry_ok_def) (auto simp: updateRetryRecord_def table_update_def)

lemma set_getRawRetries [simp]: "set (getRawRetries sub mer db) = {r \<in> set (rd_rows db). of_pair sub mer r}"
  by (auto simp: getRawRetries_def)

lemma has_pending_iff: "has_pending sub mer db \<longleftrightarrow> (\<exists>r \<in> set (rd_rows db). of_pair sub mer r \<and> pr_status r = RetryPending)"
  by (auto simp: has_pending_def list_ex_iff)

lemma row_by_id: "retry_ok db \<Longrightarrow> r \<in> set (rd_rows db) \<Longrightarrow> r' \<in> set (rd_rows db) \<Longrightarrow> pr_id r = pr_id r' \<Longrightarrow> r = r'"
  by (metis distinct_map inj_onD retry_ok_def)

text \<open>Cancelling a list of rows: the rows with one of their ids become cancelled, the others stay.\<close>

lemma fold_cancel:
  assumes "fold (cancel_one env) rs (db, w) = (db', w')"
  shows "rd_rows db' = map (\<lambda>r. if pr_id r \<in> pr_id ` set rs then apply_update (no_update\<lparr>ui_status := Some RetryCancelled\<rparr>) r else r)
      (rd_rows db)" "rd_next db' = rd_next db"
proof -
  let ?u = "no_update\<lparr>ui_status := Some RetryCancelled\<rparr>"
  have idem: "apply_update ?u (apply_update ?u r) = apply_update ?u r" for r by (simp add: apply_update_def no_update_def)
  have "rd_rows db' = map (\<lambda>r. if pr_id r \<in> pr_id ` set rs then apply_update ?u r else r) (rd_rows db) \<and> rd_next db' = rd_next db"
    using assms
  proof (induction rs arbitrary: db w)
    case (Cons a rs)
    obtain w1 where "fold (cancel_one env) rs (updateRetryRecord (pr_id a) ?u db, w1) = (db', w')"
      using Cons.prems by (simp add: cancel_one_def [of _ a] Let_def)
    from Cons.IH [OF this] show ?case by (auto simp: updateRetryRecord_def table_update_def idem)
  qed simp
  then show "rd_rows db' = map (\<lambda>r. if pr_id r \<in> pr_id ` set rs then apply_update ?u r else r) (rd_rows db)"
    "rd_next db' = rd_next db" by simp_all
qed

lemma cancel_pair_rows:
  assumes "retry_ok db" "fold (cancel_one env) (filter P (getRawRetries sub mer db)) (db, w) = (db', w')"
  shows "rd_rows db' = map (\<lambda>r. if of_pair sub mer r \<and> P r
    then apply_update (no_update\<lparr>ui_status := Some RetryCancelled\<rparr>) r else r) (rd_rows db)"
proof -
  have "pr_id r \<in> pr_id ` set (filter P (getRawRetries sub mer db)) \<longleftrightarrow> of_pair sub mer r \<and> P r" if "r \<in> set (rd_rows db)" for r
    using that row_by_id [OF assms(1) that] by auto
  then show ?thesis unfolding fold_cancel(1) [OF assms(2)] by (intro map_cong) auto
qed

section \<open>Properties\<close>

text \<open>Cancelling the retries of a subscription is complete and touches nothing else: afterwards no
  retry of the pair is pending, those that were are cancelled, and every other row, of this pair or
  of another, is as before, whether or not the jobs could be removed from the queue.\<close>

theorem cancel_complete:
  assumes "retry_ok db" "cancelRetries env subscriber merchant (db, w) = (db', w')"
  shows "\<not> has_pending subscriber merchant db' \<and>
    rd_rows db' = map (\<lambda>r. if of_pair subscriber merchant r \<and> pr_status r = RetryPending
      then r\<lparr>pr_status := RetryCancelled\<rparr> else r) (rd_rows db)"
proof -
  have u: "apply_update (no_update\<lparr>ui_status := Some RetryCancelled\<rparr>) r = r\<lparr>pr_status := RetryCancelled\<rparr>" for r
    by (simp add: apply_update_def no_update_def)
  have "rd_rows db' = map (\<lambda>r. if of_pair subscriber merchant r \<and> pr_status r = RetryPending
      then r\<lparr>pr_status := RetryCancelled\<rparr> else r) (rd_rows db)"
    using cancel_pair_rows [OF assms(1) assms(2) [unfolded cancelRetries_def fst_conv]] unfolding u .
  moreover have "\<not> (of_pair subscriber merchant r' \<and> pr_status r' = RetryPending)"
    if "r' = (if of_pair subscriber merchant r \<and> pr_status r = RetryPending then r\<lparr>pr_status := RetryCancelled\<rparr> else r)" for r r'
    unfolding that by simp
  then have "\<not> has_pending subscriber merchant db'" unfolding has_pending_iff calculation set_map by blast
  ultimately show ?thesis by (rule conjI [rotated])
qed

definition quiet_env :: "unit retry_env" where
  "quiet_env = \<lparr>re_add = (\<lambda>n d t w. (Inr (Some ''j''), w)), re_remove = (\<lambda>j w. (Inl ''gone'', w)),
     re_notify = (\<lambda>p w. (Inr (), w)), re_clock = (\<lambda>w. 0), re_delays_var = None, re_unique = True\<rparr>"

definition empty_retries :: retry_db where
  "empty_retries = \<lparr>rd_rows = [], rd_next = 1\<rparr>"

definition scheduled_retries :: retry_db where
  "scheduled_retries = fst (snd (enqueueRetries quiet_env ''S'' ''M'' ''5'' ''T'' (empty_retries, ())))"

lemma scheduled_ok: "retry_ok scheduled_retries"
proof -
  have "map pr_id (rd_rows scheduled_retries) = [1, 2, 3]" "rd_next scheduled_retries = 4" by code_simp+
  moreover from this(1) have "pr_id ` set (rd_rows scheduled_retries) = {1, 2, 3}" by (metis list.set_map list.simps(15) empty_set)
  ultimately show ?thesis by (auto simp: retry_ok_def)
qed

theorem cancel_complete_witness:
  "has_pending ''S'' ''M'' scheduled_retries \<and>
   \<not> has_pending ''S'' ''M'' (fst (cancelRetries quiet_env ''S'' ''M'' (scheduled_retries, ())))"
proof -
  obtain db' w' where r: "cancelRetries quiet_env ''S'' ''M'' (scheduled_retries, ()) = (db', w')" by (metis prod.exhaust)
  have "has_pending ''S'' ''M'' scheduled_retries" by code_simp
  then show ?thesis using cancel_complete [OF scheduled_ok r] r by simp
qed


text \<open>A queue that accepts jobs.\<close>

definition adds_ok :: "'w retry_env \<Rightarrow> bool" where
  "adds_ok env \<longleftrightarrow> (\<forall>n d t w. \<exists>j w'. re_add env n d t w = (Inr j, w'))"

definition fresh_attempts :: "string \<Rightarrow> string \<Rightarrow> nat set \<Rightarrow> retry_db \<Rightarrow> bool" where
  "fresh_attempts sub mer ns db \<longleftrightarrow> (\<forall>r \<in> set (rd_rows db). of_pair sub mer r \<longrightarrow> pr_attemptNumber r \<notin> ns)"

definition scheduled_row :: "string \<Rightarrow> string \<Rightarrow> string \<Rightarrow> string \<Rightarrow> int \<Rightarrow> nat \<times> int \<Rightarrow> PaymentRetryRecord \<Rightarrow> bool" where
  "scheduled_row sub mer amt tok now item r \<longleftrightarrow> of_pair sub mer r \<and> pr_amount r = amt \<and> pr_token r = tok \<and>
     pr_attemptNumber r = fst item + 1 \<and> pr_scheduledAt r = now + snd item \<and> pr_status r = RetryPending"

lemma update_new_row:
  assumes "\<forall>r \<in> set rows. pr_id r < pr_id row"
  shows "table_update (\<lambda>r. pr_id r = pr_id row) f (rows @ [row]) = rows @ [f row]"
  using assms by (auto simp: table_update_def intro!: map_idI)

lemma enqueue_step:
  assumes "retry_ok db" "adds_ok env" "re_unique env \<longrightarrow> fresh_attempts sub mer {i + 1} db"
  obtains row w1 where "enqueue_loop env sub mer amt tok now ((i, delay) # rest) ids (db, w) =
      enqueue_loop env sub mer amt tok now rest (ids @ [rd_next db]) (db\<lparr>rd_rows := rd_rows db @ [row], rd_next := rd_next db + 1\<rparr>, w1)"
    "scheduled_row sub mer amt tok now (i, delay) row" "pr_id row = rd_next db"
proof -
  define row where "row = \<lparr>pr_id = rd_next db, pr_subscriber = sub, pr_merchant = mer, pr_amount = amt,
     pr_token = tok, pr_attemptNumber = i + 1, pr_status = RetryPending, pr_scheduledAt = now + delay,
     pr_attemptedAt = None, pr_error = None, pr_jobId = None\<rparr>"
  have c: "createRetryRecord (re_unique env) sub mer amt tok (i + 1) (now + delay) db =
      (Inr row, db\<lparr>rd_rows := rd_rows db @ [row], rd_next := rd_next db + 1\<rparr>)"
    using assms(3) by (auto simp: createRetryRecord_def Let_def row_def list_ex_iff fresh_attempts_def)
  define d where "d = \<lparr>rj_subscriber = sub, rj_merchant = mer, rj_amount = amt, rj_token = tok, rj_attemptNumber = i + 1, rj_retryId = rd_next db\<rparr>"
  obtain j w1 where j: "re_add env (retry_job_name sub mer (i + 1)) d delay w = (Inr j, w1)"
    using assms(2) unfolding adds_ok_def by metis
  let ?u = "no_update\<lparr>ui_jobId := Some j\<rparr>"
  have id: "pr_id row = rd_next db" by (simp add: row_def)
  have "\<forall>r \<in> set (rd_rows db). pr_id r < pr_id row" using assms(1) by (simp add: retry_ok_def id)
  then have "updateRetryRecord (pr_id row) ?u (db\<lparr>rd_rows := rd_rows db @ [row], rd_next := rd_next db + 1\<rparr>) =
      db\<lparr>rd_rows := rd_rows db @ [apply_update ?u row], rd_next := rd_next db + 1\<rparr>"
    by (simp add: updateRetryRecord_def update_new_row)
  then have "enqueue_loop env sub mer amt tok now ((i, delay) # rest) ids (db, w) =
      enqueue_loop env sub mer amt tok now rest (ids @ [rd_next db])
        (db\<lparr>rd_rows := rd_rows db @ [apply_update ?u row], rd_next := rd_next db + 1\<rparr>, w1)"
    using c j by (simp add: id d_def)
  moreover have "scheduled_row sub mer amt tok now (i, delay) (apply_update ?u row)" "pr_id (apply_update ?u row) = rd_next db"
    by (simp_all add: scheduled_row_def apply_update_def no_update_def row_def of_pair_def)
  ultimately show thesis by (rule that)
qed

lemma enqueue_loop_ok:
  assumes "adds_ok env"
  shows "retry_ok db \<Longrightarrow> distinct (map fst items) \<Longrightarrow>
    (re_unique env \<longrightarrow> fresh_attempts sub mer (Suc ` fst ` set items) db) \<Longrightarrow>
    \<exists>rows db' w'. enqueue_loop env sub mer amt tok now items ids (db, w) = (Inr (ids @ map pr_id rows), db', w') \<and>
      retry_ok db' \<and> rd_rows db' = rd_rows db @ rows \<and> list_all2 (scheduled_row sub mer amt tok now) items rows"
proof (induction items arbitrary: ids db w)
  case (Cons it items)
  obtain i delay where it: "it = (i, delay)" by (cases it)
  have f: "re_unique env \<longrightarrow> fresh_attempts sub mer {i + 1} db" using Cons.prems(3) it by (auto simp: fresh_attempts_def)
  obtain row w1 where s: "enqueue_loop env sub mer amt tok now (it # items) ids (db, w) =
      enqueue_loop env sub mer amt tok now items (ids @ [rd_next db]) (db\<lparr>rd_rows := rd_rows db @ [row], rd_next := rd_next db + 1\<rparr>, w1)"
      "scheduled_row sub mer amt tok now it row" "pr_id row = rd_next db"
    using enqueue_step [OF Cons.prems(1) assms f, where delay = delay and rest = items and ids = ids and amt = amt and tok = tok and now = now and w = w]
    unfolding it by blast
  let ?db = "db\<lparr>rd_rows := rd_rows db @ [row], rd_next := rd_next db + 1\<rparr>"
  have ok: "retry_ok ?db" using Cons.prems(1) s(3) by (auto simp: retry_ok_def)
  have fr: "re_unique env \<longrightarrow> fresh_attempts sub mer (Suc ` fst ` set items) ?db"
    using Cons.prems(2,3) s(2) it by (auto simp: fresh_attempts_def scheduled_row_def image_iff)
  have "distinct (map fst items)" using Cons.prems(2) by simp
  note ih = Cons.IH [OF ok this fr, of "ids @ [rd_next db]" w1]
  obtain rows db' w' where
    "enqueue_loop env sub mer amt tok now items (ids @ [rd_next db]) (?db, w1) = (Inr ((ids @ [rd_next db]) @ map pr_id rows), db', w')"
    "retry_ok db'" "rd_rows db' = rd_rows ?db @ rows" "list_all2 (scheduled_row sub mer amt tok now) items rows"
    using ih by blast
  then show ?case using s by (intro exI [of _ "row # rows"]) simp
qed simp


lemma delays_nonempty: "getRetryDelays v \<noteq> []"
  by (simp add: getRetryDelays_def default_delays_def Let_def split: option.splits)

lemma first_item:
  assumes "ds = d # ds'"
  shows "zip [0..<min MAX_RETRIES (length ds)] ds = (0, d) # zip [1..<min MAX_RETRIES (length ds)] ds'"
proof -
  have "[0..<min MAX_RETRIES (length ds)] = 0 # [1..<min MAX_RETRIES (length ds)]"
    using assms upt_conv_Cons [of 0 "min MAX_RETRIES (length ds)"] by (simp add: MAX_RETRIES_def)
  then show ?thesis using assms by (simp only: zip_Cons_Cons)
qed

lemma enqueue_pending: "has_pending sub mer db \<Longrightarrow> enqueueRetries env sub mer amt tok (db, w) = (Inr [], db, w)"
  by (simp add: enqueueRetries_def)

text \<open>Scheduling the retries of a failed payment: if none is pending, the queue accepts jobs and the
  pair has no rows with the same attempt numbers, one pending row per configured delay (three at
  most) is added, attempt \<open>i + 1\<close> at the time of the call plus the \<open>i\<close>-th delay, and nothing else
  changes; scheduling again, for whatever amount and at whatever time, then does nothing.\<close>

theorem enqueue_schedules:
  assumes "retry_ok db" "adds_ok env" "\<not> has_pending subscriber merchant db"
    "re_unique env \<longrightarrow> fresh_attempts subscriber merchant {1, 2, 3} db"
  shows "\<exists>rows db' w'. enqueueRetries env subscriber merchant amount token (db, w) = (Inr (map pr_id rows), db', w') \<and>
    rd_rows db' = rd_rows db @ rows \<and>
    list_all2 (scheduled_row subscriber merchant amount token (re_clock env w))
      (zip [0..<min 3 (length (getRetryDelays (re_delays_var env)))] (getRetryDelays (re_delays_var env))) rows \<and>
    (\<forall>amount' token' w2. enqueueRetries env subscriber merchant amount' token' (db', w2) = (Inr [], db', w2))"
proof -
  let ?ds = "getRetryDelays (re_delays_var env)"
  let ?items = "zip [0..<min 3 (length ?ds)] ?ds"
  have d: "distinct (map fst ?items)" by (simp add: map_fst_zip_take)
  have "Suc ` fst ` set ?items \<subseteq> {1, 2, 3}" by (auto dest!: set_zip_leftD)
  then have f: "re_unique env \<longrightarrow> fresh_attempts subscriber merchant (Suc ` fst ` set ?items) db"
    using assms(4) by (auto simp: fresh_attempts_def)
  obtain rows db' w' where l: "enqueue_loop env subscriber merchant amount token (re_clock env w) ?items [] (db, w) = (Inr (map pr_id rows), db', w')"
      "rd_rows db' = rd_rows db @ rows" "list_all2 (scheduled_row subscriber merchant amount token (re_clock env w)) ?items rows"
    using enqueue_loop_ok [OF assms(2,1) d f, of amount token "re_clock env w" "[]" w] by auto
  have "?items \<noteq> []" using delays_nonempty [of "re_delays_var env"] by (simp add: zip_eq_Nil_iff)
  then obtain r where "r \<in> set rows" "scheduled_row subscriber merchant amount token (re_clock env w) (hd ?items) r"
    using l(3) by (cases rows; cases ?items) auto
  then have "has_pending subscriber merchant db'" using l(2) by (auto simp: has_pending_iff scheduled_row_def)
  moreover have "enqueueRetries env subscriber merchant amount token (db, w) = (Inr (map pr_id rows), db', w')"
    using assms(3) l(1) by (simp add: enqueueRetries_def Let_def MAX_RETRIES_def)
  ultimately show ?thesis using l(2,3) enqueue_pending by (intro exI conjI allI) auto
qed

theorem enqueue_schedules_witness:
  "\<exists>rows db' w'. enqueueRetries quiet_env ''S'' ''M'' ''5'' ''T'' (empty_retries, ()) = (Inr (map pr_id rows), db', w') \<and>
    list_all2 (scheduled_row ''S'' ''M'' ''5'' ''T'' 0) (zip [0..<3] [86400000, 259200000, 604800000]) rows"
proof -
  have "retry_ok empty_retries" "adds_ok quiet_env" "\<not> has_pending ''S'' ''M'' empty_retries"
      "re_unique quiet_env \<longrightarrow> fresh_attempts ''S'' ''M'' {1, 2, 3} empty_retries"
    by (simp_all add: retry_ok_def empty_retries_def adds_ok_def quiet_env_def has_pending_iff fresh_attempts_def)
  from enqueue_schedules [OF this, of "''5''" "''T''" "()"] show ?thesis
    by (simp add: getRetryDelays_def default_delays_def Let_def quiet_env_def min_def) blast
qed

text \<open>With the unique index of the schema a pair gets retries once: after a first round has ended
  (no row is pending, but one with attempt number 1 exists), scheduling for a later failure of the
  same subscription throws and schedules nothing.\<close>

theorem second_round_refused:
  assumes "re_unique env" "\<not> has_pending subscriber merchant db"
    "r \<in> set (rd_rows db)" "of_pair subscriber merchant r" "pr_attemptNumber r = 1"
  shows "\<exists>e. enqueueRetries env subscriber merchant amount token (db, w) = (Inl e, db, w)"
proof -
  let ?ds = "getRetryDelays (re_delays_var env)"
  obtain d ds where ds: "?ds = d # ds" using delays_nonempty by (cases ?ds) auto
  note first_item [OF ds]
  moreover have "createRetryRecord True subscriber merchant amount token 1 t db = (Inl ''duplicate key value violates unique constraint'', db)" for t
    using assms(3-5) by (auto simp: createRetryRecord_def list_ex_iff)
  ultimately show ?thesis using assms(1,2) by (simp add: enqueueRetries_def Let_def)
qed

theorem second_round_refused_witness:
  "\<exists>e. enqueueRetries quiet_env ''S'' ''M'' ''5'' ''T'' (fst (cancelRetries quiet_env ''S'' ''M'' (scheduled_retries, ())), ()) =
    (Inl e, fst (cancelRetries quiet_env ''S'' ''M'' (scheduled_retries, ())), ())"
proof -
  let ?db = "fst (cancelRetries quiet_env ''S'' ''M'' (scheduled_retries, ()))"
  have "\<not> has_pending ''S'' ''M'' ?db" "list_ex (\<lambda>r. of_pair ''S'' ''M'' r \<and> pr_attemptNumber r = 1) (rd_rows ?db)" by code_simp+
  then show ?thesis using second_round_refused [of quiet_env "''S''" "''M''" ?db]
    by (auto simp: list_ex_iff quiet_env_def)
qed

text \<open>A job that cannot be queued blocks the pair: if the queue refuses the first job, the call
  fails but leaves its row pending without a job, and from then on scheduling for this pair does
  nothing, although no retry will ever run.\<close>

theorem lost_job_blocks_retries:
  fixes env :: "'w retry_env"
  assumes "\<not> has_pending subscriber merchant db" "re_unique env \<longrightarrow> fresh_attempts subscriber merchant {1} db"
    and "\<And>n d t. re_add env n d t w = (Inl e, w1)"
  shows "\<exists>db'. enqueueRetries env subscriber merchant amount token (db, w) = (Inl e, db', w1) \<and>
    (\<exists>r. rd_rows db' = rd_rows db @ [r] \<and> pr_jobId r = None \<and> pr_status r = RetryPending) \<and>
    (\<forall>env' amount' token' w2. enqueueRetries (env' :: 'w retry_env) subscriber merchant amount' token' (db', w2) = (Inr [], db', w2))"
proof -
  let ?ds = "getRetryDelays (re_delays_var env)"
  obtain d ds where ds: "?ds = d # ds" using delays_nonempty by (cases ?ds) auto
  note z = first_item [OF ds]
  obtain row where c: "createRetryRecord (re_unique env) subscriber merchant amount token 1 (re_clock env w + d) db =
      (Inr row, db\<lparr>rd_rows := rd_rows db @ [row], rd_next := rd_next db + 1\<rparr>)"
    and row: "pr_jobId row = None" "pr_status row = RetryPending" "of_pair subscriber merchant row"
    using assms(2) by (auto simp: createRetryRecord_def Let_def list_ex_iff fresh_attempts_def of_pair_def)
  let ?db = "db\<lparr>rd_rows := rd_rows db @ [row], rd_next := rd_next db + 1\<rparr>"
  have "enqueueRetries env subscriber merchant amount token (db, w) = (Inl e, ?db, w1)"
    using assms(1,3) z c by (simp add: enqueueRetries_def Let_def)
  moreover have "has_pending subscriber merchant ?db" using row by (auto simp: has_pending_iff)
  ultimately show ?thesis using row enqueue_pending by (intro exI [of _ ?db]) auto
qed

definition full_env :: "unit retry_env" where
  "full_env = quiet_env\<lparr>re_add := (\<lambda>n d t w. (Inl ''ECONNREFUSED'', w))\<rparr>"

theorem lost_job_blocks_retries_witness:
  "\<exists>db'. enqueueRetries full_env ''S'' ''M'' ''5'' ''T'' (empty_retries, ()) = (Inl ''ECONNREFUSED'', db', ()) \<and>
     enqueueRetries quiet_env ''S'' ''M'' ''5'' ''T'' (db', ()) = (Inr [], db', ())"
proof -
  have "\<not> has_pending ''S'' ''M'' empty_retries" "re_unique full_env \<longrightarrow> fresh_attempts ''S'' ''M'' {1} empty_retries"
    by (simp_all add: empty_retries_def has_pending_iff fresh_attempts_def)
  from lost_job_blocks_retries [OF this, of "()" "''ECONNREFUSED''" "()" "''5''" "''T''"] show ?thesis
    by (auto simp: full_env_def)
qed

text \<open>A retry counts as succeeded although nobody was told: with the direct notification of
  \<^verbatim>\<open>webhookNotifier.ts\<close>, processing a job marks its row as succeeded and cancels the remaining
  retries of the pair, whatever the merchant's endpoints answer to all attempts.\<close>

theorem retry_succeeds_regardless:
  assumes "re_notify env = notifyWebhooks nenv eps" "db_up nenv" "ne_queue nenv = None" "retry_ok db"
    and "r \<in> set (rd_rows db)" "pr_id r = rj_retryId d"
    and "processRetryJob env d (db, w) = (db', w')"
  shows "\<not> has_pending (rj_subscriber d) (rj_merchant d) db' \<and>
    (\<exists>r' \<in> set (rd_rows db'). pr_id r' = rj_retryId d \<and> pr_status r' = RetrySucceeded)"
proof -
  let ?u1 = "no_update\<lparr>ui_attemptedAt := Some (re_clock env w)\<rparr>" and ?u2 = "no_update\<lparr>ui_status := Some RetrySucceeded\<rparr>"
  define db2 where "db2 = updateRetryRecord (rj_retryId d) ?u2 (updateRetryRecord (rj_retryId d) ?u1 db)"
  obtain w1 where n: "re_notify env (retry_payload d (re_clock env w) None) w = (Inr (), w1)"
    using notify_db_up [OF assms(2,3), of eps "retry_payload d (re_clock env w) None" "fst w" "snd w"] assms(1)
    by (metis prod.collapse)
  let ?P = "\<lambda>r. pr_status r = RetryPending \<and> pr_id r \<noteq> rj_retryId d"
  have ok: "retry_ok db2" unfolding db2_def by (intro retry_ok_update assms(4))
  have f: "fold (cancel_one env) (filter ?P (getRawRetries (rj_subscriber d) (rj_merchant d) db2)) (db2, w1) = (db', w')"
    using assms(7) n by (simp add: processRetryJob_def Let_def db2_def)
  note rows = cancel_pair_rows [OF ok f]
  have fin: "pr_status x = RetrySucceeded" if "x \<in> set (rd_rows db2)" "pr_id x = rj_retryId d" for x
    using that by (auto simp: db2_def updateRetryRecord_def table_update_def no_update_def split: if_splits)
  have "apply_update ?u2 (apply_update ?u1 r) \<in> set (rd_rows db2)"
    using assms(5,6) by (auto simp: db2_def updateRetryRecord_def table_update_def image_iff intro!: bexI [of _ r])
  then obtain x where x: "x \<in> set (rd_rows db2)" "pr_id x = rj_retryId d" using assms(6) by (metis apply_update_fields(1))
  then have "x \<in> set (rd_rows db')" unfolding rows by (auto simp: image_iff intro!: bexI [of _ x])
  moreover have "\<not> (of_pair (rj_subscriber d) (rj_merchant d) y \<and> pr_status y = RetryPending)" if mem: "y \<in> set (rd_rows db')" for y
  proof -
    obtain x where x: "x \<in> set (rd_rows db2)" and y: "y = (if of_pair (rj_subscriber d) (rj_merchant d) x \<and> ?P x
        then apply_update (no_update\<lparr>ui_status := Some RetryCancelled\<rparr>) x else x)"
      using mem unfolding rows set_map by blast
    then show ?thesis using fin [OF x] by (auto simp: no_update_def)
  qed
  ultimately show ?thesis using fin x by (auto simp: has_pending_iff)
qed

definition deaf_env :: "(delivery_record list \<times> nat) retry_env" where
  "deaf_env = \<lparr>re_add = (\<lambda>n d t w. (Inr (Some ''j''), w)), re_remove = (\<lambda>j w. (Inr (), w)),
     re_notify = notifyWebhooks (flaky_env 100) [demo_endpoint], re_clock = (\<lambda>w. 0), re_delays_var = None, re_unique = True\<rparr>"

definition demo_retry_job :: RetryJobData where
  "demo_retry_job = \<lparr>rj_subscriber = ''S'', rj_merchant = ''M'', rj_amount = ''5'', rj_token = ''T'',
     rj_attemptNumber = 1, rj_retryId = 1\<rparr>"

theorem retry_succeeds_regardless_witness:
  "map dr_success (fst (snd (processRetryJob deaf_env demo_retry_job (scheduled_retries, ([], 0))))) = [False, False, False, False, False] \<and>
   (\<exists>r' \<in> set (rd_rows (fst (processRetryJob deaf_env demo_retry_job (scheduled_retries, ([], 0))))).
     pr_id r' = 1 \<and> pr_status r' = RetrySucceeded)"
proof -
  obtain db' w' where p: "processRetryJob deaf_env demo_retry_job (scheduled_retries, ([], 0)) = (db', w')" by (metis prod.exhaust)
  have "map dr_success (fst (snd (processRetryJob deaf_env demo_retry_job (scheduled_retries, ([], 0))))) = [False, False, False, False, False]"
    by code_simp
  moreover have "list_ex (\<lambda>r. pr_id r = 1) (rd_rows scheduled_retries)" by code_simp
  then obtain r where "r \<in> set (rd_rows scheduled_retries)" "pr_id r = rj_retryId demo_retry_job"
    by (auto simp: list_ex_iff demo_retry_job_def)
  from retry_succeeds_regardless [OF _ _ _ scheduled_ok this p, of "flaky_env 100" "[demo_endpoint]"]
  have "\<exists>r' \<in> set (rd_rows db'). pr_id r' = 1 \<and> pr_status r' = RetrySucceeded"
    by (simp add: deaf_env_def db_up_def flaky_env_def demo_retry_job_def)
  ultimately show ?thesis using p by simp
qed

end
