(* ===== verification/Payment_Scheduler.thy ===== *)
theory Payment_Scheduler
  imports Event_Indexer Payment_Execution
begin

text \<open>
  The payment scheduler, \<^verbatim>\<open>services/paymentScheduler.ts\<close>: which subscriptions are due according to
  the stored events, and the run that submits a payment for each. It reads the rows that the event
  indexer writes and calls the execute-payment helper without an idempotency key; the keypair and
  the network passphrase are part of the server argument. The clock is an argument, in seconds.
\<close>

section \<open>Due subscriptions\<close>

text \<open>Prisma's \<^verbatim>\<open>distinct\<close>: the first row of every combination, in the order of the query.\<close>

fun distinct_on :: "('a \<Rightarrow> 'k) \<Rightarrow> 'a list \<Rightarrow> 'a list" where
  "distinct_on f [] = []"
| "distinct_on f (x # xs) = x # filter (\<lambda>y. f y \<noteq> f x) (distinct_on f xs)"

definition row_pair :: "event_row \<Rightarrow> string \<times> string" where
  "row_pair r = (er_subscriber r, er_merchant r)"

definition newest_first :: "event_row list \<Rightarrow> event_row list" where
  "newest_first rows = sort_key (\<lambda>r. - er_ledgerTimestamp r) rows"

definition subscribe_events :: "event_row list \<Rightarrow> event_row list" where
  "subscribe_events rows = distinct_on row_pair (newest_first (filter (\<lambda>r. er_type r = ''subscribe'') rows))"

definition last_exec :: "string \<times> string \<Rightarrow> event_row list \<Rightarrow> event_row option" where
  "last_exec pr rows = (case newest_first (filter (\<lambda>r. er_type r = ''executed'' \<and> row_pair r = pr) rows) of
      [] \<Rightarrow> None | r # _ \<Rightarrow> Some r)"

definition last_timestamp :: "event_row list \<Rightarrow> event_row \<Rightarrow> int" where
  "last_timestamp rows sub = (case last_exec (row_pair sub) rows of
      Some r \<Rightarrow> er_ledgerTimestamp r | None \<Rightarrow> er_ledgerTimestamp sub)"

definition findDueSubscriptions :: "int \<Rightarrow> event_row list \<Rightarrow> (string \<times> string) list" where
  "findDueSubscriptions nowSec rows =
     map row_pair (filter (\<lambda>sub. nowSec - last_timestamp rows sub \<ge> 86400) (subscribe_events rows))"

section \<open>Payments\<close>

definition executePayment ::
  "'w payment_server \<Rightarrow> string \<times> string \<Rightarrow> idem_row list \<times> 'w \<Rightarrow> (pay_error + string) \<times> idem_row list \<times> 'w" where
  "executePayment srv pr s =
     (case submitExecutePayment srv \<lparr>pf_check = None, pf_record = None\<rparr>
         \<lparr>ep_subscriber = fst pr, ep_merchant = snd pr, ep_idempotencyKey = None\<rparr> s of
        (Inr r, s1) \<Rightarrow> (Inr (ir_txHash r), s1)
      | (Inl e, s1) \<Rightarrow> (Inl e, s1))"

text \<open>The run, with the outcome of every payment as it is logged.\<close>

fun pay_all ::
  "'w payment_server \<Rightarrow> (string \<times> string) list \<Rightarrow> idem_row list \<times> 'w \<Rightarrow>
     ((string \<times> string) \<times> (pay_error + string)) list \<times> idem_row list \<times> 'w" where
  "pay_all srv [] s = ([], s)"
| "pay_all srv (pr # prs) s = (case executePayment srv pr s of
      (r, s1) \<Rightarrow> (case pay_all srv prs s1 of (rs, s2) \<Rightarrow> ((pr, r) # rs, s2)))"

definition processDuePayments ::
  "'w payment_server \<Rightarrow> int \<Rightarrow> event_row list \<Rightarrow> idem_row list \<times> 'w \<Rightarrow>
     ((string \<times> string) \<times> (pay_error + string)) list \<times> idem_row list \<times> 'w" where
  "processDuePayments srv nowSec rows s = pay_all srv (findDueSubscriptions nowSec rows) s"

section \<open>Lemmas\<close>

lemma set_distinct_on: "f ` set (distinct_on f xs) = f ` set xs" "set (distinct_on f xs) \<subseteq> set xs"
proof -
  have *: "f ` {y \<in> S. f y \<noteq> c} = f ` S - {c}" for S c by auto
  show "f ` set (distinct_on f xs) = f ` set xs" by (induction xs) (auto simp: *)
  show "set (distinct_on f xs) \<subseteq> set xs" by (induction xs) auto
qed

lemma distinct_map_filter: "distinct (map f xs) \<Longrightarrow> distinct (map f (filter P xs))"
  by (induction xs) auto

lemma distinct_map_distinct_on: "distinct (map f (distinct_on f xs))"
  by (induction xs) (auto simp: distinct_map_filter)

lemma set_newest_first [simp]: "set (newest_first rows) = set rows"
  by (simp add: newest_first_def)

lemma sorted_newest_first: "sorted (map (\<lambda>r. - er_ledgerTimestamp r) (newest_first rows))"
  by (simp add: newest_first_def)

text \<open>The first row of each combination is kept: with an order, the least one.\<close>

lemma distinct_on_least:
  "sorted (map k xs) \<Longrightarrow> y \<in> set (distinct_on f xs) \<Longrightarrow> x \<in> set xs \<Longrightarrow> f x = f y \<Longrightarrow> k y \<le> (k x :: int)"
  by (induction xs) auto

definition newest :: "(event_row \<Rightarrow> bool) \<Rightarrow> event_row list \<Rightarrow> int" where
  "newest P rows = Max (er_ledgerTimestamp ` {r \<in> set rows. P r})"

lemma newestI:
  assumes "r \<in> set rows" "P r" "\<And>x. x \<in> set rows \<Longrightarrow> P x \<Longrightarrow> er_ledgerTimestamp x \<le> er_ledgerTimestamp r"
  shows "newest P rows = er_ledgerTimestamp r"
  unfolding newest_def by (rule Max_eqI) (use assms in auto)

lemma subscribe_events_newest:
  assumes "sub \<in> set (subscribe_events rows)"
  shows "sub \<in> set rows" "er_type sub = ''subscribe''"
    "er_ledgerTimestamp sub = newest (\<lambda>r. er_type r = ''subscribe'' \<and> row_pair r = row_pair sub) rows"
proof -
  define sel where "sel = filter (\<lambda>r. er_type r = ''subscribe'') rows"
  have sel: "x \<in> set sel \<longleftrightarrow> x \<in> set rows \<and> er_type x = ''subscribe''" for x by (simp add: sel_def)
  have s: "sub \<in> set (distinct_on row_pair (newest_first sel))" using assms by (simp add: subscribe_events_def sel_def)
  then have "sub \<in> set sel" using set_distinct_on(2) [of row_pair "newest_first sel"] by auto
  then show m: "sub \<in> set rows" "er_type sub = ''subscribe''" using sel by blast+
  have "er_ledgerTimestamp x \<le> er_ledgerTimestamp sub" if "x \<in> set sel" "row_pair x = row_pair sub" for x
    using distinct_on_least [OF sorted_newest_first s, of x] that by simp
  then show "er_ledgerTimestamp sub = newest (\<lambda>r. er_type r = ''subscribe'' \<and> row_pair r = row_pair sub) rows"
    using m sel by (intro newestI [symmetric]) blast+
qed

lemma last_exec_newest:
  "last_exec pr rows = None \<longleftrightarrow> \<not> (\<exists>r \<in> set rows. er_type r = ''executed'' \<and> row_pair r = pr)"
  "last_exec pr rows = Some r \<Longrightarrow> er_ledgerTimestamp r = newest (\<lambda>r. er_type r = ''executed'' \<and> row_pair r = pr) rows"
proof -
  define sel where "sel = filter (\<lambda>r. er_type r = ''executed'' \<and> row_pair r = pr) rows"
  have sel: "x \<in> set sel \<longleftrightarrow> x \<in> set rows \<and> er_type x = ''executed'' \<and> row_pair x = pr" for x by (simp add: sel_def)
  have le: "last_exec pr rows = (case newest_first sel of [] \<Rightarrow> None | r # _ \<Rightarrow> Some r)"
    by (simp add: last_exec_def sel_def)
  have "newest_first sel = [] \<longleftrightarrow> sel = []" by (metis set_empty set_newest_first)
  moreover have "sel = [] \<longleftrightarrow> \<not> (\<exists>r \<in> set rows. er_type r = ''executed'' \<and> row_pair r = pr)"
    by (auto simp: sel_def filter_empty_conv)
  ultimately show "last_exec pr rows = None \<longleftrightarrow> \<not> (\<exists>r \<in> set rows. er_type r = ''executed'' \<and> row_pair r = pr)"
    unfolding le by (auto split: list.splits)
  assume "last_exec pr rows = Some r"
  then obtain rs where l: "newest_first sel = r # rs" unfolding le by (auto split: list.splits)
  then have "r \<in> set sel" by (metis list.set_intros(1) set_newest_first)
  moreover have "er_ledgerTimestamp x \<le> er_ledgerTimestamp r" if "x \<in> set sel" for x
    using sorted_newest_first [of sel] that set_newest_first [of sel] unfolding l by auto
  ultimately show "er_ledgerTimestamp r = newest (\<lambda>r. er_type r = ''executed'' \<and> row_pair r = pr) rows"
    using sel by (intro newestI [symmetric]) blast+
qed


section \<open>Properties\<close>

text \<open>The specification: a pair is due if it has subscribed and its last activity, the newest executed
  payment or else the newest subscription, is at least a day ago.\<close>

definition subscribed :: "event_row list \<Rightarrow> string \<times> string \<Rightarrow> bool" where
  "subscribed rows pr \<longleftrightarrow> (\<exists>r \<in> set rows. er_type r = ''subscribe'' \<and> row_pair r = pr)"

definition last_activity :: "event_row list \<Rightarrow> string \<times> string \<Rightarrow> int" where
  "last_activity rows pr =
     (if \<exists>r \<in> set rows. er_type r = ''executed'' \<and> row_pair r = pr
      then newest (\<lambda>r. er_type r = ''executed'' \<and> row_pair r = pr) rows
      else newest (\<lambda>r. er_type r = ''subscribe'' \<and> row_pair r = pr) rows)"

lemma last_timestamp_activity:
  assumes "sub \<in> set (subscribe_events rows)"
  shows "last_timestamp rows sub = last_activity rows (row_pair sub)"
proof (cases "last_exec (row_pair sub) rows")
  case None
  then have "\<not> (\<exists>r \<in> set rows. er_type r = ''executed'' \<and> row_pair r = row_pair sub)"
    using last_exec_newest(1) by blast
  then show ?thesis unfolding last_timestamp_def last_activity_def None
    using subscribe_events_newest(3) [OF assms] by (simp only: if_False option.case)
next
  case (Some r)
  then have "\<exists>r \<in> set rows. er_type r = ''executed'' \<and> row_pair r = row_pair sub"
    using last_exec_newest(1) [of "row_pair sub" rows] by simp
  then show ?thesis using last_exec_newest(2) [OF Some] Some by (simp add: last_timestamp_def last_activity_def)
qed

lemma subscribed_events: "row_pair ` set (subscribe_events rows) = {pr. subscribed rows pr}"
  unfolding subscribe_events_def set_distinct_on(1) by (force simp: subscribed_def)

lemma due_set:
  "set (findDueSubscriptions nowSec rows) = {pr. subscribed rows pr \<and> 86400 \<le> nowSec - last_activity rows pr}"
proof -
  have "set (findDueSubscriptions nowSec rows) =
      row_pair ` {sub \<in> set (subscribe_events rows). 86400 \<le> nowSec - last_timestamp rows sub}"
    by (simp add: findDueSubscriptions_def)
  also have "\<dots> = row_pair ` {sub \<in> set (subscribe_events rows). 86400 \<le> nowSec - last_activity rows (row_pair sub)}"
    using last_timestamp_activity by (metis (mono_tags, lifting) Collect_cong)
  also have "\<dots> = {pr \<in> row_pair ` set (subscribe_events rows). 86400 \<le> nowSec - last_activity rows pr}" by auto
  finally show ?thesis unfolding subscribed_events by auto
qed

text \<open>C19: The scheduler finds exactly the pairs that subscribed and whose last activity is at least one day ago,
  each of them once, whatever the order and number of the stored events. One day is used for every subscription,
  whatever its own interval is, although the class comment speaks of the last execution plus the interval. The last
  activity is the newest executed payment of the pair, if there is one; a subscription that was made again after
  that payment does not count, and only without any payment the newest subscription decides.\<close>

theorem due_exactly:
  "distinct (findDueSubscriptions nowSec rows) \<and>
   set (findDueSubscriptions nowSec rows) = {pr. subscribed rows pr \<and> 86400 \<le> nowSec - last_activity rows pr}"
proof
  show "distinct (findDueSubscriptions nowSec rows)"
    unfolding findDueSubscriptions_def by (rule distinct_map_filter) (simp add: subscribe_events_def distinct_map_distinct_on)
qed (rule due_set)

lemma newest_le:
  assumes "\<forall>r \<in> set rows. er_ledgerTimestamp r \<le> b" "\<exists>r \<in> set rows. P r"
  shows "newest P rows \<le> b"
  unfolding newest_def using assms by (subst Max_le_iff) auto

lemma activity_le:
  assumes "\<forall>r \<in> set rows. er_ledgerTimestamp r \<le> b" "subscribed rows pr"
  shows "last_activity rows pr \<le> b"
  using newest_le [OF assms(1)] assms(2) by (auto simp: last_activity_def subscribed_def)

text \<open>A payment does not stop the next one: the indexer stores the ledger's sequence number where
  the scheduler expects seconds, so as long as sequence numbers lie a day below the time in seconds
  every subscription is due in every run, also right after the indexer has processed the event of
  its payment.\<close>

theorem paid_subscription_still_due:
  assumes "subscribed (ei_events db) pr" "\<forall>r \<in> set (ei_events db). er_ledgerTimestamp r \<le> nowSec - 86400"
    and "int (re_ledger ev) \<le> nowSec - 86400"
  shows "pr \<in> set (findDueSubscriptions nowSec (ei_events (Event_Indexer.processEvent sdk json flt ev db)))"
proof -
  let ?rows = "ei_events (Event_Indexer.processEvent sdk json flt ev db)"
  have "?rows = ei_events db \<or> (\<exists>e. decode_stored sdk ev = Some e \<and> ?rows = ei_events db @ [row_of e])"
    using processEvent_tables [of sdk json flt ev db] by blast
  moreover have "er_ledgerTimestamp (row_of e) \<le> nowSec - 86400" if "decode_stored sdk ev = Some e" for e
    using that assms(3) by (auto simp: row_of_def decode_stored_def Let_def split: option.splits if_splits)
  ultimately have r: "\<forall>r \<in> set ?rows. er_ledgerTimestamp r \<le> nowSec - 86400" "set (ei_events db) \<subseteq> set ?rows"
    using assms(2) by auto
  then have "subscribed ?rows pr" using assms(1) by (auto simp: subscribed_def)
  with activity_le [OF r(1) this] show ?thesis unfolding due_set by simp
qed


definition demo_paid :: eidx_db where
  "demo_paid = Event_Indexer.processEvent demo_sdk demo_json (\<lambda>_. False) (demo_rpc_event ''e1'' ''subscribe'') empty_eidx"

theorem paid_subscription_still_due_witness:
  "list_ex (\<lambda>r. er_type r = ''executed'') (ei_events
     (Event_Indexer.processEvent demo_sdk demo_json (\<lambda>_. False) (demo_rpc_event ''e2'' ''executed'') demo_paid)) \<and>
   (''S'', ''M'') \<in> set (findDueSubscriptions 100000 (ei_events
     (Event_Indexer.processEvent demo_sdk demo_json (\<lambda>_. False) (demo_rpc_event ''e2'' ''executed'') demo_paid)))"
proof -
  have rows: "list_all (\<lambda>r. er_ledgerTimestamp r \<le> 100000 - 86400) (ei_events demo_paid)"
    "list_ex (\<lambda>r. er_type r = ''subscribe'' \<and> row_pair r = (''S'', ''M'')) (ei_events demo_paid)" by code_simp+
  have "subscribed (ei_events demo_paid) (''S'', ''M'')" "\<forall>r \<in> set (ei_events demo_paid). er_ledgerTimestamp r \<le> 100000 - 86400"
    using rows unfolding subscribed_def list_ex_iff list_all_iff by blast+
  from paid_subscription_still_due [OF this, of "demo_rpc_event ''e2'' ''executed''" demo_sdk demo_json "\<lambda>_. False"]
  have "(''S'', ''M'') \<in> set (findDueSubscriptions 100000 (ei_events
     (Event_Indexer.processEvent demo_sdk demo_json (\<lambda>_. False) (demo_rpc_event ''e2'' ''executed'') demo_paid)))"
    by (simp add: demo_rpc_event_def)
  moreover have "list_ex (\<lambda>r. er_type r = ''executed'') (ei_events
     (Event_Indexer.processEvent demo_sdk demo_json (\<lambda>_. False) (demo_rpc_event ''e2'' ''executed'') demo_paid))" by code_simp
  ultimately show ?thesis by blast
qed

end
