(* ===== verification/Payout_Summaries.thy ===== *)
theory Payout_Summaries
  imports Reconciler
begin

text \<open>
  Payout summaries, \<^verbatim>\<open>services/payoutSummaryGenerator.ts\<close>: the grouping of the executed payments of a
  period by merchant and token and the upsert of one summary per group. Dates are instants in
  milliseconds; the local midnight of a day is an argument of the two entry points, and a day has 24
  hours. The tables are lists; \<^verbatim>\<open>BigInt\<close> of a malformed amount throws, and the run then stops where it
  is, keeping what it has written.
\<close>

section \<open>Data\<close>

record timed_event = event_row +
  te_createdAt :: int

datatype summary_type = Daily | Weekly

record payout_summary =
  ps_id :: nat
  ps_merchant :: string
  ps_startDate :: int
  ps_endDate :: int
  ps_totalAmount :: string
  ps_paymentCount :: nat
  ps_currency :: string
  ps_type :: summary_type

section \<open>Periods\<close>

definition day_ms :: int where "day_ms = 86400000"

text \<open>The end of a day is 23:59:59.000, the end of a week 23:59:59.999 of its seventh day. \<open>weekday\<close> is
  the day of the week, 0 for Sunday.\<close>

definition daily_period :: "int \<Rightarrow> int \<times> int" where
  "daily_period midnight = (midnight, midnight + day_ms - 1000)"

definition weekly_period :: "int \<Rightarrow> nat \<Rightarrow> int \<times> int" where
  "weekly_period midnight weekday =
     (let startOfWeek = midnight - int weekday * day_ms in (startOfWeek, startOfWeek + 7 * day_ms - 1))"

section \<open>Grouping\<close>

definition period_events :: "int \<Rightarrow> int \<Rightarrow> timed_event list \<Rightarrow> timed_event list" where
  "period_events startDate endDate events =
     filter (\<lambda>e. er_type e = ''executed'' \<and> startDate \<le> te_createdAt e \<and> te_createdAt e \<le> endDate) events"

definition event_token :: "timed_event \<Rightarrow> string" where
  "event_token e = (if er_token e = '''' then ''unknown'' else er_token e)"

text \<open>The nested maps, in insertion order.\<close>

type_synonym token_groups = "(string \<times> timed_event list) list"

definition map_push :: "'k \<Rightarrow> 'a \<Rightarrow> ('k \<times> 'a list) list \<Rightarrow> ('k \<times> 'a list) list" where
  "map_push k x m = (let m1 = (if map_of m k = None then AList.update k [] m else m) in
     AList.update k (the (map_of m1 k) @ [x]) m1)"

definition add_event :: "timed_event \<Rightarrow> (string \<times> token_groups) list \<Rightarrow> (string \<times> token_groups) list" where
  "add_event e m = (let m1 = (if map_of m (er_merchant e) = None then AList.update (er_merchant e) [] m else m) in
     AList.update (er_merchant e) (map_push (event_token e) e (the (map_of m1 (er_merchant e)))) m1)"

definition merchantTokenGroups :: "timed_event list \<Rightarrow> (string \<times> token_groups) list" where
  "merchantTokenGroups events = fold add_event events []"

definition flat_groups :: "(string \<times> token_groups) list \<Rightarrow> ((string \<times> string) \<times> timed_event list) list" where
  "flat_groups m = concat (map (\<lambda>(merchant, groups). map (\<lambda>(token, es). ((merchant, token), es)) groups) m)"

section \<open>Summaries\<close>

fun total_amount :: "int \<Rightarrow> timed_event list \<Rightarrow> int option" where
  "total_amount t [] = Some t"
| "total_amount t (e # es) = (case big_int (er_amount e) of None \<Rightarrow> None | Some a \<Rightarrow> total_amount (t + a) es)"

definition is_summary :: "int \<Rightarrow> int \<Rightarrow> summary_type \<Rightarrow> string \<times> string \<Rightarrow> payout_summary \<Rightarrow> bool" where
  "is_summary startDate endDate ty key s \<longleftrightarrow> ps_merchant s = fst key \<and> ps_startDate s = startDate \<and> ps_endDate s = endDate \<and>
     ps_type s = ty \<and> ps_currency s = snd key"

definition store_summary ::
  "int \<Rightarrow> int \<Rightarrow> summary_type \<Rightarrow> string \<times> string \<Rightarrow> int \<Rightarrow> nat \<Rightarrow> payout_summary list \<Rightarrow> payout_summary list" where
  "store_summary startDate endDate ty key amount count tbl =
     (case List.find (is_summary startDate endDate ty key) tbl of
        Some old \<Rightarrow> table_update (\<lambda>s. ps_id s = ps_id old)
          (\<lambda>s. s\<lparr>ps_totalAmount := int_str amount, ps_paymentCount := count\<rparr>) tbl
      | None \<Rightarrow> tbl @ [\<lparr>ps_id = Suc (fold max (map ps_id tbl) 0), ps_merchant = fst key, ps_startDate = startDate,
          ps_endDate = endDate, ps_totalAmount = int_str amount, ps_paymentCount = count, ps_currency = snd key, ps_type = ty\<rparr>])"

fun write_summaries ::
  "int \<Rightarrow> int \<Rightarrow> summary_type \<Rightarrow> ((string \<times> string) \<times> timed_event list) list \<Rightarrow> payout_summary list \<Rightarrow> payout_summary list" where
  "write_summaries startDate endDate ty [] tbl = tbl"
| "write_summaries startDate endDate ty ((key, es) # gs) tbl =
     (case total_amount 0 es of
        None \<Rightarrow> tbl
      | Some amount \<Rightarrow> write_summaries startDate endDate ty gs (store_summary startDate endDate ty key amount (length es) tbl))"

definition generateSummaries ::
  "int \<Rightarrow> int \<Rightarrow> summary_type \<Rightarrow> timed_event list \<Rightarrow> payout_summary list \<Rightarrow> payout_summary list" where
  "generateSummaries startDate endDate ty events tbl =
     (let es = period_events startDate endDate events in
      if es = [] then tbl
      else write_summaries startDate endDate ty (flat_groups (merchantTokenGroups es)) tbl)"

definition generateDailySummaries :: "int \<Rightarrow> timed_event list \<Rightarrow> payout_summary list \<Rightarrow> payout_summary list" where
  "generateDailySummaries midnight events tbl =
     (case daily_period midnight of (s, e) \<Rightarrow> generateSummaries s e Daily events tbl)"

definition generateWeeklySummaries :: "int \<Rightarrow> nat \<Rightarrow> timed_event list \<Rightarrow> payout_summary list \<Rightarrow> payout_summary list" where
  "generateWeeklySummaries midnight weekday events tbl =
     (case weekly_period midnight weekday of (s, e) \<Rightarrow> generateSummaries s e Weekly events tbl)"


text \<open>The daily job of \<^verbatim>\<open>index.ts\<close> runs at one o'clock and passes no date, so the day is the current one;
  it sees the events stored by then. Days are counted from an arbitrary midnight.\<close>

definition cron_daily :: "int \<Rightarrow> timed_event list \<Rightarrow> payout_summary list \<Rightarrow> payout_summary list" where
  "cron_daily day events tbl =
     generateDailySummaries (day * day_ms) (filter (\<lambda>e. te_createdAt e \<le> day * day_ms + 3600000) events) tbl"

section \<open>The groups\<close>

definition event_key :: "timed_event \<Rightarrow> string \<times> string" where
  "event_key e = (er_merchant e, event_token e)"

definition look :: "(string \<times> token_groups) list \<Rightarrow> string \<times> string \<Rightarrow> timed_event list option" where
  "look m k = (case map_of m (fst k) of None \<Rightarrow> None | Some g \<Rightarrow> map_of g (snd k))"

definition push_opt :: "'a list option \<Rightarrow> 'a list \<Rightarrow> 'a list option" where
  "push_opt old xs = (if xs = [] then old else Some ((case old of None \<Rightarrow> [] | Some ys \<Rightarrow> ys) @ xs))"

lemma map_of_push:
  "map_of (map_push k x m) k' = (if k' = k then push_opt (map_of m k) [x] else map_of m k')"
  by (simp add: map_push_def Let_def js_simps push_opt_def split: option.splits)

lemma look_add: "look (add_event e m) k = (if k = event_key e then push_opt (look m k) [e] else look m k)"
  by (cases k) (auto simp: add_event_def look_def Let_def js_simps map_of_push event_key_def push_opt_def split: option.splits)

lemma look_fold: "look (fold add_event es m) k = push_opt (look m k) (filter (\<lambda>e. event_key e = k) es)"
proof (induction es arbitrary: m)
  case (Cons e es)
  show ?case by (simp add: Cons.IH look_add) (auto simp: push_opt_def split: option.splits)
qed (simp add: push_opt_def)

definition groups_ok :: "(string \<times> token_groups) list \<Rightarrow> bool" where
  "groups_ok m \<longleftrightarrow> distinct (map fst m) \<and> (\<forall>g \<in> snd ` set m. distinct (map fst g))"

lemma distinct_map_push: "distinct (map fst m) \<Longrightarrow> distinct (map fst (map_push k x m))"
  by (auto simp: map_push_def Let_def intro!: distinct_update)

lemma groups_ok_add: "groups_ok m \<Longrightarrow> groups_ok (add_event e m)"
proof -
  assume m: "groups_ok m"
  define m1 where "m1 = (if map_of m (er_merchant e) = None then AList.update (er_merchant e) [] m else m)"
  have m1: "groups_ok m1" using m set_update_subset [of "er_merchant e" "[]" m]
    by (force simp: m1_def groups_ok_def intro: distinct_update)
  have "map_of m1 (er_merchant e) \<noteq> None" by (simp add: m1_def js_simps)
  then obtain g where g: "map_of m1 (er_merchant e) = Some g" by blast
  then have "distinct (map fst g)" using m1 by (metis groups_ok_def map_of_SomeD image_eqI snd_conv)
  then have "distinct (map fst (map_push (event_token e) e g))" by (rule distinct_map_push)
  then show "groups_ok (add_event e m)"
    using m1 set_update_subset [of "er_merchant e" "map_push (event_token e) e g" m1]
    by (force simp: add_event_def Let_def groups_ok_def g simp flip: m1_def intro: distinct_update)
qed

lemma groups_ok_fold: "groups_ok m \<Longrightarrow> groups_ok (fold add_event es m)"
  by (induction es arbitrary: m) (auto simp: groups_ok_add)

lemma set_flat_groups:
  assumes "groups_ok m"
  shows "(k, es) \<in> set (flat_groups m) \<longleftrightarrow> look m k = Some es"
proof -
  obtain mer tok where k: "k = (mer, tok)" by (cases k)
  have "(k, es) \<in> set (flat_groups m) \<longleftrightarrow> (\<exists>g. (mer, g) \<in> set m \<and> (tok, es) \<in> set g)"
    unfolding k flat_groups_def by force
  also have "\<dots> \<longleftrightarrow> (\<exists>g. map_of m mer = Some g \<and> map_of g tok = Some es)"
    using assms by (metis (no_types, lifting) groups_ok_def image_eqI map_of_SomeD map_of_eq_Some_iff snd_conv)
  finally show ?thesis by (auto simp: k look_def split: option.splits)
qed

lemma distinct_flat_groups:
  assumes "groups_ok m"
  shows "distinct (map fst (flat_groups m))"
  using assms
proof (induction m)
  case (Cons a m)
  obtain mer g where a: "a = (mer, g)" by (cases a)
  have "map fst (map (\<lambda>(token, es). ((mer, token), es)) g) = map (Pair mer) (map fst g)" by (simp add: split_def)
  moreover have "distinct (map fst g)" using Cons.prems a by (simp add: groups_ok_def)
  ultimately have "distinct (map fst (map (\<lambda>(token, es). ((mer, token), es)) g))"
    by (simp only: distinct_map) (simp add: inj_on_def)
  moreover have "groups_ok m" "mer \<notin> fst ` set m" using Cons.prems a by (auto simp: groups_ok_def)
  ultimately show ?case using Cons.IH a by (auto simp: flat_groups_def) (metis fst_conv image_eqI)
qed (simp add: flat_groups_def)

text \<open>So the groups are the events of the period by merchant and token, each key once.\<close>

lemma groups_exact:
  "distinct (map fst (flat_groups (merchantTokenGroups es)))"
  "(k, g) \<in> set (flat_groups (merchantTokenGroups es)) \<longleftrightarrow> g = filter (\<lambda>e. event_key e = k) es \<and> g \<noteq> []"
proof -
  have ok: "groups_ok (merchantTokenGroups es)"
    unfolding merchantTokenGroups_def by (rule groups_ok_fold) (simp add: groups_ok_def)
  from distinct_flat_groups [OF ok] show "distinct (map fst (flat_groups (merchantTokenGroups es)))" .
  show "(k, g) \<in> set (flat_groups (merchantTokenGroups es)) \<longleftrightarrow> g = filter (\<lambda>e. event_key e = k) es \<and> g \<noteq> []"
    unfolding set_flat_groups [OF ok] unfolding merchantTokenGroups_def look_fold
    by (auto simp: look_def push_opt_def)
qed


section \<open>Writing the summaries\<close>

definition amounts :: "timed_event list \<Rightarrow> int" where
  "amounts es = sum_list (map (\<lambda>e. the (big_int (er_amount e))) es)"

lemma total_amount_sum:
  "\<forall>e \<in> set es. big_int (er_amount e) \<noteq> None \<Longrightarrow> total_amount t es = Some (t + amounts es)"
  by (induction es arbitrary: t) (auto simp: amounts_def)

definition summary_ids :: "payout_summary list \<Rightarrow> bool" where
  "summary_ids tbl \<longleftrightarrow> distinct (map ps_id tbl)"

definition has_summary :: "int \<Rightarrow> int \<Rightarrow> summary_type \<Rightarrow> string \<times> string \<Rightarrow> int \<Rightarrow> nat \<Rightarrow> payout_summary list \<Rightarrow> bool" where
  "has_summary s e ty k amt cnt tbl \<longleftrightarrow> (\<exists>x. List.find (is_summary s e ty k) tbl = Some x \<and>
     ps_totalAmount x = int_str amt \<and> ps_paymentCount x = cnt)"

lemma fold_max_ge: "x \<in> set xs \<Longrightarrow> x \<le> fold max xs (a :: nat)" "a \<le> fold max xs a"
  by (induction xs arbitrary: a) (auto intro: order_trans [OF max.cobounded2] order_trans [OF max.cobounded1])

lemma is_summary_update [simp]:
  "is_summary s e ty k (x\<lparr>ps_totalAmount := t, ps_paymentCount := c\<rparr>) = is_summary s e ty k x"
  by (simp add: is_summary_def)

lemma find_update_map:
  assumes "\<And>x. P (f x) = P x"
  shows "List.find P (map f xs) = map_option f (List.find P xs)"
  by (induction xs) (simp_all add: assms)

lemma store_summary_ids: "summary_ids tbl \<Longrightarrow> summary_ids (store_summary s e ty k t c tbl)"
proof (cases "List.find (is_summary s e ty k) tbl")
  case None
  assume "summary_ids tbl"
  moreover have "Suc (fold max (map ps_id tbl) 0) \<notin> set (map ps_id tbl)"
    using fold_max_ge(1) [of _ "map ps_id tbl" 0] by (metis Suc_n_not_le_n)
  ultimately show ?thesis using None by (simp add: store_summary_def summary_ids_def)
next
  case (Some old)
  assume "summary_ids tbl"
  moreover have "map ps_id (table_update p (\<lambda>x. x\<lparr>ps_totalAmount := a, ps_paymentCount := b\<rparr>) tbl) = map ps_id tbl" for p a b
    by (simp add: table_update_def)
  ultimately show ?thesis using Some by (simp add: store_summary_def summary_ids_def)
qed

lemma store_summary_find:
  assumes "summary_ids tbl"
  shows "has_summary s e ty k t c (store_summary s e ty k t c tbl)"
    and "k' \<noteq> k \<Longrightarrow> List.find (is_summary s e ty k') (store_summary s e ty k t c tbl) = List.find (is_summary s e ty k') tbl"
proof -
  let ?f = "\<lambda>x. x\<lparr>ps_totalAmount := int_str t, ps_paymentCount := c\<rparr>"
  have other: "\<not> is_summary s e ty k' x" if "is_summary s e ty k x" "k' \<noteq> k" for k' x
    using that by (auto simp: is_summary_def prod_eq_iff)
  have "has_summary s e ty k t c (store_summary s e ty k t c tbl) \<and>
     (k' \<noteq> k \<longrightarrow> List.find (is_summary s e ty k') (store_summary s e ty k t c tbl) = List.find (is_summary s e ty k') tbl)"
  proof (cases "List.find (is_summary s e ty k) tbl")
    case None
    then show ?thesis
      by (auto simp: store_summary_def has_summary_def find_append is_summary_def prod_eq_iff split: option.split)
  next
    case (Some old)
    have old: "old \<in> set tbl" "is_summary s e ty k old" using find_SomeD [OF Some] by auto
    let ?g = "\<lambda>x. if ps_id x = ps_id old then ?f x else x"
    have tbl': "store_summary s e ty k t c tbl = map ?g tbl"
      using Some by (simp add: store_summary_def table_update_def)
    have same: "x = old" if "x \<in> set tbl" "ps_id x = ps_id old" for x
      using assms that old(1) by (metis distinct_map inj_onD summary_ids_def)
    have "List.find (is_summary s e ty k) (map ?g tbl) = map_option ?g (Some old)"
      using find_update_map [of "is_summary s e ty k" ?g tbl] Some by simp
    moreover have "List.find (is_summary s e ty k') (map ?g tbl) = List.find (is_summary s e ty k') tbl" if "k' \<noteq> k"
    proof -
      have "map_option ?g (List.find (is_summary s e ty k') tbl) = List.find (is_summary s e ty k') tbl"
      proof (cases "List.find (is_summary s e ty k') tbl")
        case (Some y)
        then have "y \<noteq> old" using find_SomeD [OF Some] other [OF old(2) that] by blast
        then show ?thesis using same find_SomeD [OF Some] Some by auto
      qed simp
      then show ?thesis using find_update_map [of "is_summary s e ty k'" ?g tbl] by simp
    qed
    ultimately show ?thesis by (simp add: tbl' has_summary_def)
  qed
  then show "has_summary s e ty k t c (store_summary s e ty k t c tbl)"
    and "k' \<noteq> k \<Longrightarrow> List.find (is_summary s e ty k') (store_summary s e ty k t c tbl) = List.find (is_summary s e ty k') tbl" by blast+
qed

text \<open>Storing what is already stored changes nothing.\<close>

lemma store_summary_same:
  assumes "summary_ids tbl" "has_summary s e ty k t c tbl"
  shows "store_summary s e ty k t c tbl = tbl"
proof -
  obtain x where x: "List.find (is_summary s e ty k) tbl = Some x" "ps_totalAmount x = int_str t" "ps_paymentCount x = c"
    using assms(2) by (auto simp: has_summary_def)
  have "y = x" if "y \<in> set tbl" "ps_id y = ps_id x" for y
    using assms(1) that find_SomeD [OF x(1)] by (metis distinct_map inj_onD summary_ids_def)
  moreover have "x\<lparr>ps_totalAmount := int_str t, ps_paymentCount := c\<rparr> = x" using x(2,3) by simp
  ultimately have "y\<lparr>ps_totalAmount := int_str t, ps_paymentCount := c\<rparr> = y" if "y \<in> set tbl" "ps_id y = ps_id x" for y
    using that by blast
  then show ?thesis using x(1) by (auto simp: store_summary_def table_update_def intro!: map_idI)
qed

lemma write_summaries_ok:
  assumes "\<forall>(k, es) \<in> set gs. \<forall>e \<in> set es. big_int (er_amount e) \<noteq> None" "distinct (map fst gs)" "summary_ids tbl"
  shows "summary_ids (write_summaries s e ty gs tbl) \<and>
    (\<forall>(k, es) \<in> set gs. has_summary s e ty k (amounts es) (length es) (write_summaries s e ty gs tbl)) \<and>
    (\<forall>k. k \<notin> fst ` set gs \<longrightarrow> List.find (is_summary s e ty k) (write_summaries s e ty gs tbl) = List.find (is_summary s e ty k) tbl)"
  using assms
proof (induction gs arbitrary: tbl)
  case (Cons g gs)
  obtain k es where g: "g = (k, es)" by (cases g)
  let ?tbl = "store_summary s e ty k (amounts es) (length es) tbl"
  have w: "write_summaries s e ty (g # gs) tbl = write_summaries s e ty gs ?tbl"
    using Cons.prems(1) total_amount_sum [of es 0] by (simp add: g)
  have ids: "summary_ids ?tbl" by (rule store_summary_ids [OF Cons.prems(3)])
  have ih: "summary_ids (write_summaries s e ty gs ?tbl) \<and>
      (\<forall>(k, es) \<in> set gs. has_summary s e ty k (amounts es) (length es) (write_summaries s e ty gs ?tbl)) \<and>
      (\<forall>k'. k' \<notin> fst ` set gs \<longrightarrow> List.find (is_summary s e ty k') (write_summaries s e ty gs ?tbl) = List.find (is_summary s e ty k') ?tbl)"
    using Cons.IH [of ?tbl] Cons.prems(1,2) ids by simp
  have "k \<notin> fst ` set gs" using Cons.prems(2) by (simp add: g)
  then have "has_summary s e ty k (amounts es) (length es) (write_summaries s e ty gs ?tbl)"
    using ih [THEN conjunct2, THEN conjunct2, rule_format, of k] store_summary_find(1) [OF Cons.prems(3), of s e ty k "amounts es" "length es"]
    unfolding has_summary_def by simp
  moreover have "List.find (is_summary s e ty k') (write_summaries s e ty gs ?tbl) = List.find (is_summary s e ty k') tbl"
    if "k' \<notin> fst ` set (g # gs)" for k'
    using ih [THEN conjunct2, THEN conjunct2, rule_format, of k'] store_summary_find(2) [OF Cons.prems(3), of k' k] that by (simp add: g)
  ultimately show ?case unfolding w using ih by (simp add: g)
qed simp

lemma write_summaries_same:
  assumes "\<forall>(k, es) \<in> set gs. (\<forall>e \<in> set es. big_int (er_amount e) \<noteq> None) \<and> has_summary s e ty k (amounts es) (length es) tbl"
    and "summary_ids tbl"
  shows "write_summaries s e ty gs tbl = tbl"
  using assms(1)
proof (induction gs)
  case (Cons g gs)
  obtain k es where g: "g = (k, es)" by (cases g)
  have "total_amount 0 es = Some (amounts es)" using Cons.prems total_amount_sum [of es 0] by (simp add: g)
  moreover have "store_summary s e ty k (amounts es) (length es) tbl = tbl"
    using Cons.prems store_summary_same [OF assms(2)] by (simp add: g)
  ultimately show ?case using Cons by (simp add: g)
qed simp

text \<open>The specification: the executed payments of a merchant in a token from the first to the last instant of a period,
  where payments without a token count as of the token \<^verbatim>\<open>unknown\<close>; the summaries that such payments bear on; and
  what tells two summaries apart.\<close>

definition paid :: "string \<Rightarrow> string \<Rightarrow> int \<Rightarrow> int \<Rightarrow> timed_event list \<Rightarrow> timed_event list" where
  "paid m t s e events = filter (\<lambda>x. er_type x = ''executed'' \<and> er_merchant x = m \<and>
     (er_token x = t \<and> t \<noteq> '''' \<or> er_token x = '''' \<and> t = ''unknown'') \<and> s \<le> te_createdAt x \<and> te_createdAt x \<le> e) events"

definition concerned :: "int \<Rightarrow> int \<Rightarrow> summary_type \<Rightarrow> timed_event list \<Rightarrow> payout_summary \<Rightarrow> bool" where
  "concerned s e ty events x \<longleftrightarrow> ps_startDate x = s \<and> ps_endDate x = e \<and> ps_type x = ty \<and>
     paid (ps_merchant x) (ps_currency x) s e events \<noteq> []"

definition summary_key :: "payout_summary \<Rightarrow> string \<times> string \<times> int \<times> int \<times> summary_type" where
  "summary_key x = (ps_merchant x, ps_currency x, ps_startDate x, ps_endDate x, ps_type x)"

lemma filter_map_unchanged:
  "(\<And>x. x \<in> set xs \<Longrightarrow> g x = x \<or> \<not> P x \<and> \<not> P (g x)) \<Longrightarrow> filter P (map g xs) = filter P xs"
  by (induction xs) (simp, metis filter.simps list.set_intros list.simps(9))

lemma is_summary_key: "is_summary s e ty k x \<longleftrightarrow> summary_key x = (fst k, snd k, s, e, ty)"
  by (auto simp: is_summary_def summary_key_def)

lemma store_summary_frame:
  assumes "summary_ids tbl" and "\<And>x. is_summary s e ty k x \<Longrightarrow> \<not> P x"
  shows "filter P (store_summary s e ty k t c tbl) = filter P tbl"
proof (cases "List.find (is_summary s e ty k) tbl")
  case None
  then show ?thesis using assms(2) by (simp add: store_summary_def is_summary_def)
next
  case (Some old)
  let ?g = "\<lambda>x. if ps_id x = ps_id old then x\<lparr>ps_totalAmount := int_str t, ps_paymentCount := c\<rparr> else x"
  have old: "old \<in> set tbl" "is_summary s e ty k old" using find_SomeD [OF Some] by simp_all
  have "?g x = x \<or> \<not> P x \<and> \<not> P (?g x)" if "x \<in> set tbl" for x
  proof (cases "ps_id x = ps_id old")
    case True
    then have "x = old" using assms(1) that old(1) by (metis distinct_map inj_onD summary_ids_def)
    then show ?thesis using assms(2) old(2) by simp
  qed simp
  then have "filter P (map ?g tbl) = filter P tbl" by (rule filter_map_unchanged)
  then show ?thesis using Some by (simp add: store_summary_def table_update_def)
qed

lemma store_summary_keys:
  assumes "distinct (map summary_key tbl)"
  shows "distinct (map summary_key (store_summary s e ty k t c tbl))"
proof (cases "List.find (is_summary s e ty k) tbl")
  case None
  then have "(fst k, snd k, s, e, ty) \<notin> summary_key ` set tbl"
    by (auto simp: find_None_iff is_summary_key)
  then show ?thesis using None assms by (simp add: store_summary_def summary_key_def)
next
  case (Some old)
  have "map summary_key (table_update p (\<lambda>x. x\<lparr>ps_totalAmount := a, ps_paymentCount := b\<rparr>) tbl) = map summary_key tbl" for p a b
    by (simp add: table_update_def summary_key_def)
  then show ?thesis using Some assms by (simp add: store_summary_def)
qed

lemma write_summaries_frame:
  assumes "summary_ids tbl" and "\<And>k x. k \<in> fst ` set gs \<Longrightarrow> is_summary s e ty k x \<Longrightarrow> \<not> P x"
  shows "filter P (write_summaries s e ty gs tbl) = filter P tbl"
  using assms
proof (induction gs arbitrary: tbl)
  case (Cons g gs)
  obtain k es where g: "g = (k, es)" by (cases g)
  show ?case
  proof (cases "total_amount 0 es")
    case (Some amount)
    let ?tbl = "store_summary s e ty k amount (length es) tbl"
    have "filter P (write_summaries s e ty gs ?tbl) = filter P ?tbl"
      by (rule Cons.IH [OF store_summary_ids [OF Cons.prems(1)]]) (use Cons.prems(2) in auto)
    also have "\<dots> = filter P tbl"
      by (rule store_summary_frame [OF Cons.prems(1)], rule Cons.prems(2) [of k]) (simp_all add: g)
    finally show ?thesis using Some g by simp
  qed (simp add: g)
qed simp

lemma write_summaries_keys:
  "distinct (map summary_key tbl) \<Longrightarrow> distinct (map summary_key (write_summaries s e ty gs tbl))"
proof (induction gs arbitrary: tbl)
  case (Cons g gs)
  then show ?case by (cases g) (auto simp: store_summary_keys split: option.split)
qed simp

lemma paid_group: "filter (\<lambda>x. event_key x = (m, t)) (period_events s e events) = paid m t s e events"
  unfolding period_events_def paid_def filter_filter
  by (rule filter_cong) (auto simp: event_key_def event_token_def)

lemma write_summaries_paid:
  assumes "summary_ids tbl" "\<forall>x \<in> set (period_events s e events). big_int (er_amount x) \<noteq> None"
    and "paid m t s e events \<noteq> []"
  shows "has_summary s e ty (m, t) (amounts (paid m t s e events)) (length (paid m t s e events))
    (write_summaries s e ty (flat_groups (merchantTokenGroups (period_events s e events))) tbl)"
proof -
  let ?gs = "flat_groups (merchantTokenGroups (period_events s e events))"
  have "\<forall>(k, es) \<in> set ?gs. \<forall>x \<in> set es. big_int (er_amount x) \<noteq> None"
    using assms(2) by (auto simp: groups_exact(2))
  from write_summaries_ok [OF this groups_exact(1) assms(1), of s e ty]
  have "\<forall>(k, es) \<in> set ?gs. has_summary s e ty k (amounts es) (length es) (write_summaries s e ty ?gs tbl)" by blast
  moreover have "((m, t), paid m t s e events) \<in> set ?gs" using assms(3) by (simp add: groups_exact(2) paid_group)
  ultimately show ?thesis by blast
qed

lemma run_unconcerned:
  assumes "summary_ids tbl"
  shows "filter (\<lambda>x. \<not> concerned s e ty events x) (generateSummaries s e ty events tbl) =
    filter (\<lambda>x. \<not> concerned s e ty events x) tbl"
proof -
  let ?gs = "flat_groups (merchantTokenGroups (period_events s e events))"
  have "concerned s e ty events x" if "k \<in> fst ` set ?gs" "is_summary s e ty k x" for k x
    using that by (auto simp: groups_exact(2) paid_group concerned_def is_summary_def)
  then show ?thesis
    using write_summaries_frame [OF assms, of ?gs s e ty "\<lambda>x. \<not> concerned s e ty events x"]
    by (auto simp: generateSummaries_def Let_def)
qed

section \<open>Properties\<close>

text \<open>C18: A run over a period whose executed payments have numbers as amounts is exact: for every merchant and token
  with executed payments in the period there is one summary of the period, type, merchant and token, with exactly
  the sum of their amounts and their number; every other summary, such as one of another period, type, merchant or
  token, stays as and where it was and none is added; and running again changes nothing.\<close>

theorem summaries_exact:
  assumes "summary_ids tbl" "distinct (map summary_key tbl)"
    and "\<forall>x \<in> set events. er_type x = ''executed'' \<and> s \<le> te_createdAt x \<and> te_createdAt x \<le> e \<longrightarrow> big_int (er_amount x) \<noteq> None"
    and "generateSummaries s e ty events tbl = tbl'"
  shows "(\<forall>m t. paid m t s e events \<noteq> [] \<longrightarrow> (\<exists>x \<in> set tbl'. ps_merchant x = m \<and> ps_currency x = t \<and>
        ps_startDate x = s \<and> ps_endDate x = e \<and> ps_type x = ty \<and>
        ps_totalAmount x = int_str (\<Sum>p\<leftarrow>paid m t s e events. the (big_int (er_amount p))) \<and>
        ps_paymentCount x = length (paid m t s e events))) \<and>
    distinct (map summary_key tbl') \<and>
    filter (\<lambda>x. \<not> concerned s e ty events x) tbl' = filter (\<lambda>x. \<not> concerned s e ty events x) tbl \<and>
    generateSummaries s e ty events tbl' = tbl'"
proof -
  let ?pe = "period_events s e events"
  let ?gs = "flat_groups (merchantTokenGroups ?pe)"
  have parse: "\<forall>x \<in> set ?pe. big_int (er_amount x) \<noteq> None" using assms(3) by (auto simp: period_events_def)
  have t: "tbl' = (if ?pe = [] then tbl else write_summaries s e ty ?gs tbl)"
    using assms(4) by (simp add: generateSummaries_def Let_def)
  have "\<exists>x \<in> set tbl'. ps_merchant x = m \<and> ps_currency x = t \<and> ps_startDate x = s \<and> ps_endDate x = e \<and> ps_type x = ty \<and>
      ps_totalAmount x = int_str (\<Sum>p\<leftarrow>paid m t s e events. the (big_int (er_amount p))) \<and>
      ps_paymentCount x = length (paid m t s e events)" if "paid m t s e events \<noteq> []" for m t
  proof -
    have "?pe \<noteq> []" using that paid_group [of m t s e events] by auto
    with write_summaries_paid [OF assms(1) parse that, of ty] have
      "has_summary s e ty (m, t) (amounts (paid m t s e events)) (length (paid m t s e events)) tbl'" by (simp add: t)
    then obtain x where x: "List.find (is_summary s e ty (m, t)) tbl' = Some x"
      "ps_totalAmount x = int_str (amounts (paid m t s e events))" "ps_paymentCount x = length (paid m t s e events)"
      unfolding has_summary_def by blast
    show ?thesis using find_SomeD [OF x(1)] x(2,3) by (auto simp: is_summary_def amounts_def)
  qed
  moreover have "distinct (map summary_key tbl')" using assms(2) write_summaries_keys by (simp add: t)
  moreover have "filter (\<lambda>x. \<not> concerned s e ty events x) tbl' = filter (\<lambda>x. \<not> concerned s e ty events x) tbl"
    using run_unconcerned [OF assms(1)] assms(4) by blast
  moreover have "generateSummaries s e ty events tbl' = tbl'"
  proof (cases "?pe = []")
    case False
    have gp: "\<forall>(k, es) \<in> set ?gs. \<forall>x \<in> set es. big_int (er_amount x) \<noteq> None"
      using parse by (auto simp: groups_exact(2))
    note w = write_summaries_ok [OF gp groups_exact(1) assms(1), of s e ty]
    have "write_summaries s e ty ?gs tbl' = tbl'"
      using write_summaries_same [of ?gs s e ty tbl'] gp w False by (simp add: t) blast
    then show ?thesis using False by (simp add: generateSummaries_def Let_def)
  qed (simp add: generateSummaries_def)
  ultimately show ?thesis by blast
qed

definition demo_payment :: "string \<Rightarrow> string \<Rightarrow> int \<Rightarrow> timed_event" where
  "demo_payment mer amt t = \<lparr>er_type = ''executed'', er_subscriber = ''S'', er_merchant = mer, er_token = ''T'', er_amount = amt,
     er_ledgerTimestamp = 0, te_createdAt = t\<rparr>"

text \<open>Two payments of the merchant in the period, one of another merchant, one after the period, and a subscribe event;
  and a summary of an earlier period.\<close>

definition demo_payments :: "timed_event list" where
  "demo_payments = [demo_payment ''M'' ''5'' 10, demo_payment ''N'' ''1'' 20, demo_payment ''M'' ''7'' 30,
     demo_payment ''M'' ''9'' 101, (demo_payment ''M'' ''x'' 40)\<lparr>er_type := ''subscribe''\<rparr>]"

definition demo_earlier :: payout_summary where
  "demo_earlier = \<lparr>ps_id = 1, ps_merchant = ''M'', ps_startDate = - 100, ps_endDate = - 1, ps_totalAmount = ''3'',
     ps_paymentCount = 1, ps_currency = ''T'', ps_type = Daily\<rparr>"

theorem summaries_exact_witness:
  "\<exists>x \<in> set (generateSummaries 0 100 Daily demo_payments [demo_earlier]). ps_merchant x = ''M'' \<and> ps_currency x = ''T'' \<and>
     ps_startDate x = 0 \<and> ps_totalAmount x = ''12'' \<and> ps_paymentCount x = 2"
proof -
  have "list_all (\<lambda>x. er_type x = ''executed'' \<and> 0 \<le> te_createdAt x \<and> te_createdAt x \<le> 100 \<longrightarrow> big_int (er_amount x) \<noteq> None)
      demo_payments" by code_simp
  then have p: "\<forall>x \<in> set demo_payments. er_type x = ''executed'' \<and> 0 \<le> te_createdAt x \<and> te_createdAt x \<le> 100 \<longrightarrow>
      big_int (er_amount x) \<noteq> None" by (simp only: list_all_iff)
  have "paid ''M'' ''T'' 0 100 demo_payments = [demo_payment ''M'' ''5'' 10, demo_payment ''M'' ''7'' 30]"
    by (simp add: paid_def demo_payments_def demo_payment_def)
  moreover have "int_str (\<Sum>p\<leftarrow>[demo_payment ''M'' ''5'' 10, demo_payment ''M'' ''7'' 30]. the (big_int (er_amount p))) = ''12''"
    by code_simp
  ultimately have *: "paid ''M'' ''T'' 0 100 demo_payments \<noteq> []" "length (paid ''M'' ''T'' 0 100 demo_payments) = 2"
    "int_str (\<Sum>p\<leftarrow>paid ''M'' ''T'' 0 100 demo_payments. the (big_int (er_amount p))) = ''12''" by simp_all
  have "summary_ids [demo_earlier]" "distinct (map summary_key [demo_earlier])" by (simp_all add: summary_ids_def)
  from summaries_exact [OF this p refl, of Daily, THEN conjunct1, rule_format, OF *(1)] *(2,3) show ?thesis
    by (simp only:) blast
qed

text \<open>The daily job misses most payments: it runs at one o'clock for the day that has just begun, so
  a payment stored later in a day is in no run's period and seen in time by none, and removing it
  changes no run at all.\<close>

theorem daily_job_misses_payments:
  assumes "3600000 < te_createdAt x mod day_ms"
  shows "cron_daily day (xs @ x # ys) tbl = cron_daily day (xs @ ys) tbl"
proof -
  have "\<not> (day * day_ms \<le> te_createdAt x \<and> te_createdAt x \<le> day * day_ms + 3600000)"
  proof
    assume a: "day * day_ms \<le> te_createdAt x \<and> te_createdAt x \<le> day * day_ms + 3600000"
    then have "(te_createdAt x - day * day_ms) mod day_ms = te_createdAt x - day * day_ms"
      by (intro mod_pos_pos_trivial) (simp_all add: day_ms_def)
    moreover have "(te_createdAt x - day * day_ms) mod day_ms = te_createdAt x mod day_ms" by (metis mod_diff_right_eq mod_mult_self2_is_0 diff_zero)
    ultimately show False using assms a by simp
  qed
  then show ?thesis
    by (auto simp: cron_daily_def generateDailySummaries_def daily_period_def generateSummaries_def period_events_def)
qed

theorem daily_job_misses_payments_witness:
  "cron_daily 0 ([] @ demo_payment ''M'' ''5'' 7200000 # []) [] = cron_daily 0 ([] @ []) []"
  by (rule daily_job_misses_payments) (simp add: demo_payment_def day_ms_def)

end
