(* ===== verification/Effects.thy ===== *)
theory Effects
  imports Prelude
begin

text \<open>
  Asynchronous functions that call a database and may throw: a computation maps the database and the
  outcomes of the calls still to come to a result or an exception and what is left of both. Every call
  takes one outcome: \<open>True\<close> is a call that rejects (the connection is lost, say) and leaves the
  database as it was; when no outcome is listed any more, calls succeed. \<open>io_bind\<close> is \<^verbatim>\<open>await\<close> followed
  by the rest of the function, \<open>io_catch\<close> is \<^verbatim>\<open>try\<close> with \<^verbatim>\<open>catch\<close>. The judgement \<open>keeps\<close> (an
  invariant of the database, whatever calls reject) is proved
  rule by rule, so that an operation built from these parts is verified by resolution.
\<close>

named_theorems keeps_intros \<open>rules for invariants of computations\<close>

type_synonym ('d, 'e, 'a) io = "'d \<times> bool list \<Rightarrow> ('e + 'a) \<times> 'd \<times> bool list"

definition io_return :: "'a \<Rightarrow> ('d, 'e, 'a) io" where
  "io_return a = (\<lambda>s. (Inr a, s))"

definition io_throw :: "'e \<Rightarrow> ('d, 'e, 'a) io" where
  "io_throw e = (\<lambda>s. (Inl e, s))"

definition io_bind :: "('d, 'e, 'a) io \<Rightarrow> ('a \<Rightarrow> ('d, 'e, 'b) io) \<Rightarrow> ('d, 'e, 'b) io" where
  "io_bind m f = (\<lambda>s. case m s of (Inl e, s') \<Rightarrow> (Inl e, s') | (Inr a, s') \<Rightarrow> f a s')"

definition io_catch :: "('d, 'e, 'a) io \<Rightarrow> ('e \<Rightarrow> ('d, 'e, 'a) io) \<Rightarrow> ('d, 'e, 'a) io" where
  "io_catch m h = (\<lambda>s. case m s of (Inl e, s') \<Rightarrow> h e s' | (Inr a, s') \<Rightarrow> (Inr a, s'))"

definition db_call :: "'e \<Rightarrow> ('d \<Rightarrow> 'a \<times> 'd) \<Rightarrow> ('d, 'e, 'a) io" where
  "db_call e f = (\<lambda>(d, fs). if fs \<noteq> [] \<and> hd fs then (Inl e, d, tl fs)
     else (case f d of (a, d') \<Rightarrow> (Inr a, d', tl fs)))"

definition db_read :: "'e \<Rightarrow> ('d \<Rightarrow> 'a) \<Rightarrow> ('d, 'e, 'a) io" where
  "db_read e q = db_call e (\<lambda>d. (q d, d))"

definition db_write :: "'e \<Rightarrow> ('d \<Rightarrow> 'd) \<Rightarrow> ('d, 'e, unit) io" where
  "db_write e u = db_call e (\<lambda>d. ((), u d))"

text \<open>Reading something that no call is made for, such as the clock.\<close>

definition io_gets :: "('d \<Rightarrow> 'a) \<Rightarrow> ('d, 'e, 'a) io" where
  "io_gets f = (\<lambda>s. (Inr (f (fst s)), s))"

text \<open>A change that takes no call, such as one of the process's own memory.\<close>

definition io_memory :: "('d \<Rightarrow> 'a \<times> 'd) \<Rightarrow> ('d, 'e, 'a) io" where
  "io_memory f = (\<lambda>(d, fs). case f d of (a, d') \<Rightarrow> (Inr a, d', fs))"

text \<open>The database after a computation.\<close>

definition db_after :: "('d, 'e, 'a) io \<Rightarrow> bool list \<Rightarrow> 'd \<Rightarrow> 'd" where
  "db_after m fs d = fst (snd (m (d, fs)))"

section \<open>Invariants\<close>

definition keeps :: "('d \<Rightarrow> bool) \<Rightarrow> ('d, 'e, 'a) io \<Rightarrow> bool" where
  "keeps P m \<longleftrightarrow> (\<forall>d fs. P d \<longrightarrow> P (fst (snd (m (d, fs)))))"

lemma keepsD: "keeps P m \<Longrightarrow> P d \<Longrightarrow> P (db_after m fs d)"
  by (simp add: keeps_def db_after_def)

lemma keeps_return [keeps_intros]: "keeps P (io_return a)"
  by (simp add: keeps_def io_return_def)

lemma keeps_throw [keeps_intros]: "keeps P (io_throw e)"
  by (simp add: keeps_def io_throw_def)

lemma keeps_gets [keeps_intros]: "keeps P (io_gets f)"
  by (simp add: keeps_def io_gets_def)

lemma keeps_bind [keeps_intros]:
  assumes "keeps P m" and "\<And>a. keeps P (f a)"
  shows "keeps P (io_bind m f)"
  unfolding keeps_def
proof (intro allI impI)
  fix d fs assume "P d"
  then have "P (fst (snd (m (d, fs))))" using assms(1) by (simp add: keeps_def)
  then show "P (fst (snd (io_bind m f (d, fs))))"
    using assms(2) by (auto simp: io_bind_def keeps_def split: prod.splits sum.splits)
qed

lemma keeps_catch [keeps_intros]:
  assumes "keeps P m" and "\<And>e. keeps P (h e)"
  shows "keeps P (io_catch m h)"
  unfolding keeps_def
proof (intro allI impI)
  fix d fs assume "P d"
  then have "P (fst (snd (m (d, fs))))" using assms(1) by (simp add: keeps_def)
  then show "P (fst (snd (io_catch m h (d, fs))))"
    using assms(2) by (auto simp: io_catch_def keeps_def split: prod.splits sum.splits)
qed

lemma keeps_read [keeps_intros]: "keeps P (db_read e q)"
  by (simp add: keeps_def db_read_def db_call_def)

lemma keeps_call: "(\<And>d. P d \<Longrightarrow> P (snd (f d))) \<Longrightarrow> keeps P (db_call e f)"
  by (auto simp: keeps_def db_call_def split_beta)

lemma keeps_write: "(\<And>d. P d \<Longrightarrow> P (u d)) \<Longrightarrow> keeps P (db_write e u)"
  by (auto simp: keeps_def db_write_def db_call_def)

lemma keeps_memory: "(\<And>d. P d \<Longrightarrow> P (snd (f d))) \<Longrightarrow> keeps P (io_memory f)"
  by (auto simp: keeps_def io_memory_def split_beta)

lemma keeps_if [keeps_intros]: "(b \<Longrightarrow> keeps P m) \<Longrightarrow> (\<not> b \<Longrightarrow> keeps P n) \<Longrightarrow> keeps P (if b then m else n)"
  by simp

lemma keeps_option [keeps_intros]:
  "(x = None \<Longrightarrow> keeps P m) \<Longrightarrow> (\<And>a. x = Some a \<Longrightarrow> keeps P (f a)) \<Longrightarrow>
   keeps P (case x of None \<Rightarrow> m | Some a \<Rightarrow> f a)"
  by (cases x) auto

lemma keeps_sum [keeps_intros]:
  "(\<And>e. x = Inl e \<Longrightarrow> keeps P (f e)) \<Longrightarrow> (\<And>a. x = Inr a \<Longrightarrow> keeps P (g a)) \<Longrightarrow>
   keeps P (case x of Inl e \<Rightarrow> f e | Inr a \<Rightarrow> g a)"
  by (cases x) auto

text \<open>A read hands on a row of the table that satisfies the invariant.\<close>

lemma keeps_read_bind:
  assumes "\<And>d0 a. P d0 \<Longrightarrow> a = q d0 \<Longrightarrow> keeps (\<lambda>d. P d) (f a)"
  shows "keeps P (io_bind (db_read e q) f)"
  unfolding keeps_def
proof (intro allI impI)
  fix d fs assume d: "P d"
  then have "keeps P (f (q d))" using assms by blast
  with d show "P (fst (snd (io_bind (db_read e q) f (d, fs))))"
    by (auto simp: io_bind_def db_read_def db_call_def keeps_def)
qed

lemma bind_read_cases:
  "io_bind (db_read e q) f (d, fs) = (if fs \<noteq> [] \<and> hd fs then (Inl e, d, tl fs) else f (q d) (d, tl fs))"
  by (simp add: io_bind_def db_read_def db_call_def)

section \<open>Undisturbed runs\<close>

text \<open>Evaluation when every call succeeds.\<close>

named_theorems io_simps \<open>evaluation of a computation in which no call rejects\<close>

lemma io_return_run [io_simps]: "io_return a s = (Inr a, s)"
  by (simp add: io_return_def)

lemma io_throw_run [io_simps]: "io_throw e s = (Inl e, s)"
  by (simp add: io_throw_def)

lemma io_gets_run [io_simps]: "io_gets f s = (Inr (f (fst s)), s)"
  by (simp add: io_gets_def)

lemma db_call_run [io_simps]: "db_call e f (d, []) = (case f d of (a, d') \<Rightarrow> (Inr a, d', []))"
  by (simp add: db_call_def)

lemma db_read_run [io_simps]: "db_read e q (d, []) = (Inr (q d), d, [])"
  by (simp add: db_read_def db_call_def)

lemma db_write_run [io_simps]: "db_write e u (d, []) = (Inr (), u d, [])"
  by (simp add: db_write_def db_call_def)

lemma io_bind_run [io_simps]:
  "io_bind m f s = (case m s of (r, s') \<Rightarrow> (case r of Inl e \<Rightarrow> (Inl e, s') | Inr a \<Rightarrow> f a s'))"
  by (auto simp: io_bind_def split: prod.splits sum.splits)

lemma io_catch_run [io_simps]:
  "io_catch m h s = (case m s of (r, s') \<Rightarrow> (case r of Inl e \<Rightarrow> h e s' | Inr a \<Rightarrow> (Inr a, s')))"
  by (auto simp: io_catch_def split: prod.splits sum.splits)

section \<open>Pre- and postconditions\<close>

text \<open>\<open>ensures P m Q E\<close>: from a database that satisfies \<open>P\<close>, whatever calls reject, a result \<open>a\<close>
  comes with a database that satisfies \<open>Q a\<close> and an exception with one that satisfies \<open>E\<close>.\<close>

definition ensures :: "('d \<Rightarrow> bool) \<Rightarrow> ('d, 'e, 'a) io \<Rightarrow> ('a \<Rightarrow> 'd \<Rightarrow> bool) \<Rightarrow> ('d \<Rightarrow> bool) \<Rightarrow> bool" where
  "ensures P m Q E \<longleftrightarrow> (\<forall>d fs d' fs'. P d \<longrightarrow>
     (\<forall>a. m (d, fs) = (Inr a, d', fs') \<longrightarrow> Q a d') \<and> (\<forall>e. m (d, fs) = (Inl e, d', fs') \<longrightarrow> E d'))"

named_theorems ensures_intros \<open>rules for pre- and postconditions\<close>

lemma ensuresI:
  assumes "\<And>d fs a d' fs'. P d \<Longrightarrow> m (d, fs) = (Inr a, d', fs') \<Longrightarrow> Q a d'"
    and "\<And>d fs e d' fs'. P d \<Longrightarrow> m (d, fs) = (Inl e, d', fs') \<Longrightarrow> E d'"
  shows "ensures P m Q E"
  using assms unfolding ensures_def by blast

lemma ensures_result: "ensures P m Q E \<Longrightarrow> P d \<Longrightarrow> m (d, fs) = (Inr a, d', fs') \<Longrightarrow> Q a d'"
  unfolding ensures_def by blast

lemma ensures_error: "ensures P m Q E \<Longrightarrow> P d \<Longrightarrow> m (d, fs) = (Inl e, d', fs') \<Longrightarrow> E d'"
  unfolding ensures_def by blast

lemma keeps_ensures: "keeps P m \<Longrightarrow> ensures P m (\<lambda>_. P) P"
  unfolding keeps_def by (rule ensuresI) (metis fst_conv snd_conv)+

lemma ensures_bind [ensures_intros]:
  assumes "ensures P m Q E" and "\<And>a. ensures (Q a) (f a) R E"
  shows "ensures P (io_bind m f) R E"
proof (rule ensuresI)
  fix d fs b d' fs' assume "P d" and run: "io_bind m f (d, fs) = (Inr b, d', fs')"
  then obtain a d1 fs1 where m: "m (d, fs) = (Inr a, d1, fs1)" "f a (d1, fs1) = (Inr b, d', fs')"
    by (auto simp: io_bind_def split: prod.splits sum.splits)
  show "R b d'" by (rule ensures_result [OF assms(2) ensures_result [OF assms(1) \<open>P d\<close> m(1)] m(2)])
next
  fix d fs e d' fs' assume "P d" and run: "io_bind m f (d, fs) = (Inl e, d', fs')"
  then consider "m (d, fs) = (Inl e, d', fs')"
    | a d1 fs1 where "m (d, fs) = (Inr a, d1, fs1)" "f a (d1, fs1) = (Inl e, d', fs')"
    by (auto simp: io_bind_def split: prod.splits sum.splits)
  then show "E d'"
    by cases (auto intro: ensures_error [OF assms(1) \<open>P d\<close>]
      ensures_error [OF assms(2) ensures_result [OF assms(1) \<open>P d\<close>]])
qed

lemma ensures_catch:
  assumes "ensures P m Q E" and "\<And>e. ensures E (h e) Q E'"
  shows "ensures P (io_catch m h) Q E'"
proof (rule ensuresI)
  fix d fs b d' fs' assume "P d" and run: "io_catch m h (d, fs) = (Inr b, d', fs')"
  then consider "m (d, fs) = (Inr b, d', fs')"
    | e d1 fs1 where "m (d, fs) = (Inl e, d1, fs1)" "h e (d1, fs1) = (Inr b, d', fs')"
    by (auto simp: io_catch_def split: prod.splits sum.splits)
  then show "Q b d'"
    by cases (auto intro: ensures_result [OF assms(1) \<open>P d\<close>]
      ensures_result [OF assms(2) ensures_error [OF assms(1) \<open>P d\<close>]])
next
  fix d fs e d' fs' assume "P d" and run: "io_catch m h (d, fs) = (Inl e, d', fs')"
  then obtain e1 d1 fs1 where m: "m (d, fs) = (Inl e1, d1, fs1)" "h e1 (d1, fs1) = (Inl e, d', fs')"
    by (auto simp: io_catch_def split: prod.splits sum.splits)
  show "E' d'" by (rule ensures_error [OF assms(2) ensures_error [OF assms(1) \<open>P d\<close> m(1)] m(2)])
qed

lemma ensures_True: "ensures P m (\<lambda>_ _. True) (\<lambda>_. True)"
  by (simp add: ensures_def)

lemma ensures_return [ensures_intros]: "(\<And>d. P d \<Longrightarrow> Q a d) \<Longrightarrow> ensures P (io_return a) Q E"
  by (simp add: ensures_def io_return_def)

lemma ensures_throw [ensures_intros]: "(\<And>d. P d \<Longrightarrow> E d) \<Longrightarrow> ensures P (io_throw e) Q E"
  by (simp add: ensures_def io_throw_def)

lemma ensures_gets [ensures_intros]: "(\<And>d. P d \<Longrightarrow> Q (f d) d) \<Longrightarrow> ensures P (io_gets f) Q E"
  by (simp add: ensures_def io_gets_def)

lemma ensures_call:
  "(\<And>d. P d \<Longrightarrow> E d) \<Longrightarrow> (\<And>d. P d \<Longrightarrow> Q (fst (f d)) (snd (f d))) \<Longrightarrow> ensures P (db_call e f) Q E"
  by (auto simp: ensures_def db_call_def split_beta)

lemma ensures_memory: "(\<And>d. P d \<Longrightarrow> Q (fst (f d)) (snd (f d))) \<Longrightarrow> ensures P (io_memory f) Q E"
  by (auto simp: ensures_def io_memory_def split_beta)

lemma ensures_read:
  "(\<And>d. P d \<Longrightarrow> E d) \<Longrightarrow> (\<And>d. P d \<Longrightarrow> Q (q d) d) \<Longrightarrow> ensures P (db_read e q) Q E"
  unfolding db_read_def by (rule ensures_call) auto

lemma ensures_write:
  "(\<And>d. P d \<Longrightarrow> E d) \<Longrightarrow> (\<And>d. P d \<Longrightarrow> Q () (u d)) \<Longrightarrow> ensures P (db_write e u) Q E"
  unfolding db_write_def by (rule ensures_call) auto

lemma ensures_weaken:
  assumes "ensures P m Q E" and "\<And>d. P' d \<Longrightarrow> P d" and "\<And>a d. Q a d \<Longrightarrow> Q' a d" and "\<And>d. E d \<Longrightarrow> E' d"
  shows "ensures P' m Q' E'"
  by (rule ensuresI) (blast intro: assms ensures_result [OF assms(1)] ensures_error [OF assms(1)])+

lemma keeps_result: "keeps P m \<Longrightarrow> ensures P m (\<lambda>_. P) (\<lambda>_. True)"
  by (rule ensures_weaken [OF keeps_ensures]) simp_all

lemma ensures_pre_False: "ensures (\<lambda>_. False) m Q E"
  by (simp add: ensures_def)

lemma ensures_pure: "(c \<Longrightarrow> ensures P m Q E) \<Longrightarrow> ensures (\<lambda>d. c \<and> P d) m Q E"
  unfolding ensures_def by blast

lemma ensures_after:
  assumes "ensures P m (\<lambda>_. R) R" and "P d"
  shows "R (db_after m fs d)"
proof -
  obtain r d' fs' where m: "m (d, fs) = (r, d', fs')" by (metis prod_cases3)
  show ?thesis
    using ensures_result [OF assms] ensures_error [OF assms] m by (cases r) (simp_all add: db_after_def)
qed

lemma ensures_keeps: "ensures P m (\<lambda>_. P) P \<Longrightarrow> keeps P m"
  unfolding keeps_def by (metis db_after_def ensures_after)

end
