(* ===== verification/Json.thy ===== *)
theory Json
  imports Prelude
begin

text \<open>
  JSON values as JavaScript sees them after \<^verbatim>\<open>JSON.parse\<close>, with the operators that the sources apply to
  values they have not checked: optional chaining, nullish coalescing, truth and conversion to a
  number. \<open>None\<close> is \<^verbatim>\<open>undefined\<close>; numbers are whole.
\<close>

datatype json = JNull | JBool bool | JNum int | JStr string | JArr "json list" | JObj "(string \<times> json) list"

text \<open>\<^verbatim>\<open>v?.k\<close> and \<^verbatim>\<open>a ?? b\<close>.\<close>

definition jget :: "json option \<Rightarrow> string \<Rightarrow> json option" where
  "jget v k = (case v of Some (JObj kvs) \<Rightarrow> map_of kvs k | _ \<Rightarrow> None)"

definition coalesce :: "json option \<Rightarrow> json option \<Rightarrow> json option" where
  "coalesce a b = (case a of None \<Rightarrow> b | Some JNull \<Rightarrow> b | Some _ \<Rightarrow> a)"

definition json_number :: "json option \<Rightarrow> int option" where
  "json_number v = (case v of Some (JNum n) \<Rightarrow> Some n | _ \<Rightarrow> None)"

text \<open>A value as a condition.\<close>

definition truthy :: "json option \<Rightarrow> bool" where
  "truthy v = (case v of None \<Rightarrow> False | Some JNull \<Rightarrow> False | Some (JBool b) \<Rightarrow> b
     | Some (JNum n) \<Rightarrow> n \<noteq> 0 | Some (JStr s) \<Rightarrow> s \<noteq> '''' | Some _ \<Rightarrow> True)"

text \<open>The number that \<^verbatim>\<open><\<close> compares; \<open>None\<close> is \<^verbatim>\<open>NaN\<close>. An array counts as the text of its elements
  joined by commas, an object as a text that is no number.\<close>

fun to_number :: "json \<Rightarrow> int option" where
  "to_number JNull = Some 0"
| "to_number (JBool b) = Some (if b then 1 else 0)"
| "to_number (JNum n) = Some n"
| "to_number (JStr s) = big_int s"
| "to_number (JArr []) = Some 0"
| "to_number (JArr [x]) = (case x of JBool _ \<Rightarrow> None | _ \<Rightarrow> to_number x)"
| "to_number (JArr (x # y # zs)) = None"
| "to_number (JObj kvs) = None"

definition less_than :: "json \<Rightarrow> int \<Rightarrow> bool" where
  "less_than v n = (case to_number v of None \<Rightarrow> False | Some i \<Rightarrow> i < n)"

end
