(* ===== verification/Kyc.thy ===== *)
theory Kyc
  imports Effects Json
begin

text \<open>
  Identity checks: \<^verbatim>\<open>backend/src/services/kycService.ts\<close> and the routes of
  \<^verbatim>\<open>backend/src/routes/kyc.ts\<close> that change state or read a status.

  The verification and audit tables are lists of rows; the sources' schema has no such models, so the
  values of the columns that a new row leaves open are arguments (\<open>kyc_env\<close>). So is what Prisma makes of
  a filter or of a column value that is not a string: the routes hand on parts of a request's JSON body
  unchecked. Every Prisma call may reject. All instants of one operation are the one passed to it. The
  stored webhook log is represented by what \<^verbatim>\<open>JSON.parse\<close> makes of it, an audit record's details by the
  object that is stringified; risk scores are whole numbers; the dash in the messages is written \<^verbatim>\<open>-\<close>.
  The providers' functions are the stand-ins of the source.
\<close>

section \<open>Data\<close>

datatype KycProvider = Onfido | Jumio | OtherProvider string

datatype KycStatus = KPending | KSubmitted | KApproved | KRejected | KExpired | KReverify

text \<open>\<open>AmlOther\<close> is a value of a request body that is cast to a status unchecked.\<close>

datatype AmlStatus = AmlPending | AmlClear | AmlConsider | AmlFlagged | AmlOther json

datatype kyc_error = KycDbError | KycTypeError | KycValidation | NoKycRecord string

record log_entry =
  le_fields :: "(string \<times> json) list"
  le_receivedAt :: int

datatype kyc_log = LogEntries "log_entry list" | LogUnparsable | LogNotArray

record kyc_row =
  kv_id :: nat
  kv_wallet :: string
  kv_status :: KycStatus
  kv_provider :: KycProvider
  kv_applicant :: "string option"
  kv_workflow :: "string option"
  kv_documentType :: "string option"
  kv_liveness :: bool
  kv_aml :: AmlStatus
  kv_amlCheckId :: "string option"
  kv_country :: "string option"
  kv_risk :: "int option"
  kv_log :: kyc_log
  kv_submittedAt :: "int option"
  kv_approvedAt :: "int option"
  kv_rejectedAt :: "int option"
  kv_expiresAt :: "int option"
  kv_updatedAt :: int

datatype kyc_details =
    InitiatedDetails KycProvider string string
  | WebhookDetails json KycStatus AmlStatus "int option"
  | ReverifyDetails string KycStatus AmlStatus

record kyc_audit =
  ka_wallet :: string
  ka_action :: string
  ka_actor :: string
  ka_details :: kyc_details
  ka_ip :: "string option"
  ka_agent :: "string option"

record kyc_db =
  kyc_rows :: "kyc_row list"
  kyc_audits :: "kyc_audit list"
  kyc_next :: nat

type_synonym 'a kyc = "(kyc_db, kyc_error, 'a) io"

record InitiateKycParams =
  ip_wallet :: string
  ip_documentType :: string
  ip_country :: string
  ip_ip :: "string option"
  ip_agent :: "string option"

record KycVerificationResult =
  vr_wallet :: string
  vr_status :: KycStatus
  vr_provider :: KycProvider
  vr_applicant :: "string option"
  vr_sdkToken :: "string option"
  vr_workflow :: "string option"
  vr_aml :: AmlStatus
  vr_liveness :: bool
  vr_documentType :: "string option"
  vr_risk :: "int option"
  vr_message :: string

record ProviderWebhookPayload =
  pw_provider :: KycProvider
  pw_event :: json
  pw_applicant :: "json option"
  pw_workflow :: "json option"
  pw_status :: "json option"
  pw_subResult :: "json option"
  pw_risk :: "int option"
  pw_raw :: "(string \<times> json) list"

text \<open>What the sources leave to Prisma and to the schema: whether a filter whose value is \<^verbatim>\<open>undefined\<close>
  matches, what a filter or a written value other than a string stands for (\<open>None\<close> is a validation
  error), and the defaults of a new row.\<close>

record kyc_env =
  ke_undefined :: bool
  ke_filter :: "json \<Rightarrow> (string option \<Rightarrow> bool) option"
  ke_set :: "json \<Rightarrow> string option"
  ke_liveness :: bool
  ke_log :: kyc_log

section \<open>Provider stand-ins\<close>

record ProviderApplicantResult =
  pa_applicantId :: string
  pa_sdkToken :: string
  pa_workflowRunId :: string

definition createOnfidoApplicant :: "int \<Rightarrow> InitiateKycParams \<Rightarrow> ProviderApplicantResult" where
  "createOnfidoApplicant now params =
     \<lparr>pa_applicantId = ''onfido_'' @ int_str now @ ''_'' @ take 8 (ip_wallet params),
      pa_sdkToken = ''sdk_token_'' @ int_str now, pa_workflowRunId = ''wf_'' @ int_str now\<rparr>"

definition createOnfidoAmlCheck :: "int \<Rightarrow> string" where
  "createOnfidoAmlCheck now = ''check_'' @ int_str now"

definition createJumioTransaction :: "int \<Rightarrow> InitiateKycParams \<Rightarrow> ProviderApplicantResult" where
  "createJumioTransaction now params =
     \<lparr>pa_applicantId = ''jumio_'' @ int_str now @ ''_'' @ take 8 (ip_wallet params),
      pa_sdkToken = ''jumio_token_'' @ int_str now, pa_workflowRunId = ''jumio_wf_'' @ int_str now\<rparr>"

definition runJumioAmlScreening :: "int \<Rightarrow> string" where
  "runJumioAmlScreening now = ''jumio_aml_'' @ int_str now"

section \<open>The service\<close>

text \<open>The constructor: an argument, else the environment variable (unchecked), else Onfido.\<close>

definition provider_of_string :: "string \<Rightarrow> KycProvider" where
  "provider_of_string s = (if s = ''onfido'' then Onfido else if s = ''jumio'' then Jumio else OtherProvider s)"

definition newKycService :: "KycProvider option \<Rightarrow> string option \<Rightarrow> KycProvider" where
  "newKycService arg env = (case arg of Some p \<Rightarrow> p
     | None \<Rightarrow> (case env of Some s \<Rightarrow> provider_of_string s | None \<Rightarrow> Onfido))"

definition buildResult :: "kyc_row \<Rightarrow> string \<Rightarrow> KycVerificationResult" where
  "buildResult r message = \<lparr>vr_wallet = kv_wallet r, vr_status = kv_status r, vr_provider = kv_provider r,
     vr_applicant = kv_applicant r, vr_sdkToken = None, vr_workflow = None, vr_aml = kv_aml r,
     vr_liveness = kv_liveness r, vr_documentType = kv_documentType r, vr_risk = kv_risk r,
     vr_message = message\<rparr>"

fun statusMessage :: "KycStatus \<Rightarrow> string" where
  "statusMessage KPending = ''Verification not yet started.''"
| "statusMessage KSubmitted = ''Verification submitted - awaiting provider review.''"
| "statusMessage KApproved = ''Identity verified.''"
| "statusMessage KRejected = ''Verification rejected. Please contact support.''"
| "statusMessage KExpired = ''Verification expired. Re-verification required.''"
| "statusMessage KReverify = ''Re-verification required due to compliance review.''"

definition findWallet :: "string \<Rightarrow> kyc_row option kyc" where
  "findWallet w = db_read KycDbError (\<lambda>d. List.find (\<lambda>r. kv_wallet r = w) (kyc_rows d))"

definition auditLog :: "string \<Rightarrow> string \<Rightarrow> string \<Rightarrow> kyc_details \<Rightarrow> string option \<Rightarrow> string option \<Rightarrow> unit kyc" where
  "auditLog w action actor details ip agent = db_write KycDbError
     (\<lambda>d. d\<lparr>kyc_audits := kyc_audits d @ [\<lparr>ka_wallet = w, ka_action = action, ka_actor = actor,
        ka_details = details, ka_ip = ip, ka_agent = agent\<rparr>]\<rparr>)"

text \<open>The two branches of the upsert: a new row gets an expiry one year ahead, an existing one keeps
  the expiry it has.\<close>

definition YEAR_MS :: int where "YEAR_MS = 365 * 24 * 60 * 60 * 1000"

definition submitted_new ::
    "kyc_env \<Rightarrow> KycProvider \<Rightarrow> int \<Rightarrow> InitiateKycParams \<Rightarrow> ProviderApplicantResult \<Rightarrow> string \<Rightarrow> nat \<Rightarrow> kyc_row" where
  "submitted_new env prov now params app chk i =
     \<lparr>kv_id = i, kv_wallet = ip_wallet params, kv_status = KSubmitted, kv_provider = prov,
      kv_applicant = Some (pa_applicantId app), kv_workflow = Some (pa_workflowRunId app),
      kv_documentType = Some (ip_documentType params), kv_liveness = ke_liveness env, kv_aml = AmlPending,
      kv_amlCheckId = Some chk, kv_country = Some (ip_country params), kv_risk = None, kv_log = ke_log env,
      kv_submittedAt = Some now, kv_approvedAt = None, kv_rejectedAt = None,
      kv_expiresAt = Some (now + YEAR_MS), kv_updatedAt = now\<rparr>"

definition submitted_update ::
    "KycProvider \<Rightarrow> int \<Rightarrow> InitiateKycParams \<Rightarrow> ProviderApplicantResult \<Rightarrow> string \<Rightarrow> kyc_row \<Rightarrow> kyc_row" where
  "submitted_update prov now params app chk r =
     r\<lparr>kv_status := KSubmitted, kv_provider := prov, kv_applicant := Some (pa_applicantId app),
       kv_workflow := Some (pa_workflowRunId app), kv_documentType := Some (ip_documentType params),
       kv_aml := AmlPending, kv_amlCheckId := Some chk, kv_submittedAt := Some now, kv_updatedAt := now\<rparr>"

definition upsertVerification :: "(nat \<Rightarrow> kyc_row) \<Rightarrow> (kyc_row \<Rightarrow> kyc_row) \<Rightarrow> string \<Rightarrow> kyc_db \<Rightarrow> kyc_row \<times> kyc_db" where
  "upsertVerification new upd w d = (case List.find (\<lambda>r. kv_wallet r = w) (kyc_rows d) of
      None \<Rightarrow> (new (kyc_next d), d\<lparr>kyc_rows := kyc_rows d @ [new (kyc_next d)], kyc_next := Suc (kyc_next d)\<rparr>)
    | Some r \<Rightarrow> (upd r, d\<lparr>kyc_rows := table_update (\<lambda>r. kv_wallet r = w) upd (kyc_rows d)\<rparr>))"

definition initiateVerification ::
    "kyc_env \<Rightarrow> KycProvider \<Rightarrow> int \<Rightarrow> InitiateKycParams \<Rightarrow> KycVerificationResult kyc" where
  "initiateVerification env prov now params =
     io_bind (findWallet (ip_wallet params)) (\<lambda>existing.
       if (case existing of None \<Rightarrow> False | Some r \<Rightarrow> kv_status r = KApproved)
       then io_return (buildResult (the existing) ''Already verified.'')
       else (let app = (if prov = Onfido then createOnfidoApplicant now params else createJumioTransaction now params);
                 chk = (if prov = Onfido then createOnfidoAmlCheck now else runJumioAmlScreening now)
             in io_bind (db_call KycDbError (upsertVerification (submitted_new env prov now params app chk)
                  (submitted_update prov now params app chk) (ip_wallet params))) (\<lambda>r.
                io_bind (auditLog (ip_wallet params) ''initiated'' ''user''
                  (InitiatedDetails prov (pa_applicantId app) (ip_documentType params)) (ip_ip params) (ip_agent params)) (\<lambda>_.
                io_return ((buildResult r ''KYC verification initiated. Complete the document upload flow.'')
                  \<lparr>vr_sdkToken := Some (pa_sdkToken app), vr_workflow := Some (pa_workflowRunId app)\<rparr>)))))"

definition getVerificationStatus :: "string \<Rightarrow> KycVerificationResult option kyc" where
  "getVerificationStatus w = io_bind (findWallet w) (\<lambda>r.
     io_return (map_option (\<lambda>r. buildResult r (statusMessage (kv_status r))) r))"

definition triggerReVerification :: "int \<Rightarrow> string \<Rightarrow> string \<Rightarrow> string \<Rightarrow> string option \<Rightarrow> unit kyc" where
  "triggerReVerification now w reason actor ip =
     io_bind (findWallet w) (\<lambda>existing. case existing of
         None \<Rightarrow> io_throw (NoKycRecord w)
       | Some r \<Rightarrow>
           io_bind (db_write KycDbError (\<lambda>d. d\<lparr>kyc_rows := table_update (\<lambda>r. kv_wallet r = w)
             (\<lambda>r. r\<lparr>kv_status := KReverify, kv_updatedAt := now\<rparr>) (kyc_rows d)\<rparr>)) (\<lambda>_.
           auditLog w ''re_verification_triggered'' actor
             (ReverifyDetails reason (kv_status r) (kv_aml r)) ip None))"

definition isVerified :: "int \<Rightarrow> string \<Rightarrow> bool kyc" where
  "isVerified now w = io_bind (findWallet w) (\<lambda>r. io_return (case r of
      None \<Rightarrow> False
    | Some r \<Rightarrow>
        if kv_status r \<noteq> KApproved then False
        else if kv_aml r = AmlFlagged then False
        else if (case kv_expiresAt r of None \<Rightarrow> False | Some e \<Rightarrow> e < now) then False
        else True))"

section \<open>Provider webhooks\<close>

text \<open>The filter of one branch of the \<^verbatim>\<open>OR\<close>: \<open>None\<close> is a validation error.\<close>

definition id_filter :: "kyc_env \<Rightarrow> json option \<Rightarrow> (string option \<Rightarrow> bool) option" where
  "id_filter env j = (case j of
      None \<Rightarrow> Some (\<lambda>_. ke_undefined env)
    | Some JNull \<Rightarrow> Some (\<lambda>_. ke_undefined env)
    | Some (JStr s) \<Rightarrow> Some (\<lambda>v. v = Some s)
    | Some x \<Rightarrow> ke_filter env x)"

definition findWebhookRecord :: "kyc_env \<Rightarrow> ProviderWebhookPayload \<Rightarrow> kyc_row option kyc" where
  "findWebhookRecord env p = (case (id_filter env (pw_applicant p), id_filter env (pw_workflow p)) of
      (Some f, Some g) \<Rightarrow> db_read KycDbError (\<lambda>d. List.find (\<lambda>r. f (kv_applicant r) \<or> g (kv_workflow r)) (kyc_rows d))
    | _ \<Rightarrow> io_throw KycValidation)"

text \<open>\<^verbatim>\<open>slice(-50)\<close> of the log with the new event; a parsed value that is no array has no \<^verbatim>\<open>push\<close>.\<close>

definition last_entries :: "nat \<Rightarrow> 'a list \<Rightarrow> 'a list" where
  "last_entries n xs = drop (length xs - n) xs"

definition appendLog :: "int \<Rightarrow> (string \<times> json) list \<Rightarrow> kyc_log \<Rightarrow> kyc_error + kyc_log" where
  "appendLog now raw l = (let e = \<lparr>le_fields = AList.delete ''receivedAt'' raw, le_receivedAt = now\<rparr> in
     case l of LogEntries es \<Rightarrow> Inr (LogEntries (last_entries 50 (es @ [e])))
     | LogUnparsable \<Rightarrow> Inr (LogEntries [e])
     | LogNotArray \<Rightarrow> Inl KycTypeError)"

record webhook_vars =
  wv_status :: KycStatus
  wv_aml :: AmlStatus
  wv_liveness :: bool
  wv_approvedAt :: "int option"
  wv_rejectedAt :: "int option"
  wv_risk :: "int option"

definition vars_of :: "kyc_row \<Rightarrow> webhook_vars" where
  "vars_of r = \<lparr>wv_status = kv_status r, wv_aml = kv_aml r, wv_liveness = kv_liveness r,
     wv_approvedAt = None, wv_rejectedAt = None, wv_risk = kv_risk r\<rparr>"

definition set_risk :: "int option \<Rightarrow> webhook_vars \<Rightarrow> webhook_vars" where
  "set_risk x v = (case x of None \<Rightarrow> v | Some n \<Rightarrow> v\<lparr>wv_risk := Some n\<rparr>)"

text \<open>\<^verbatim>\<open>payload.subResult?.toLowerCase()\<close> and the three-way branch on it.\<close>

definition aml_of_subResult :: "json option \<Rightarrow> kyc_error + AmlStatus" where
  "aml_of_subResult x = (case x of
      Some (JStr s) \<Rightarrow> Inr (if js_lower s = ''clear'' then AmlClear
                           else if js_lower s = ''consider'' then AmlConsider else AmlFlagged)
    | None \<Rightarrow> Inr AmlFlagged
    | Some JNull \<Rightarrow> Inr AmlFlagged
    | Some _ \<Rightarrow> Inl KycTypeError)"

definition onfidoEvent :: "int \<Rightarrow> ProviderWebhookPayload \<Rightarrow> webhook_vars \<Rightarrow> kyc_error + webhook_vars" where
  "onfidoEvent now p v =
     (if pw_event p = JStr ''workflow_run.completed'' then
        Inr (if pw_status p = Some (JStr ''approved'') then v\<lparr>wv_status := KApproved, wv_approvedAt := Some now\<rparr>
             else if pw_status p = Some (JStr ''declined'') then v\<lparr>wv_status := KRejected, wv_rejectedAt := Some now\<rparr>
             else v)
      else if pw_event p = JStr ''check.completed'' then
        (case aml_of_subResult (pw_subResult p) of
           Inl e \<Rightarrow> Inl e
         | Inr a \<Rightarrow> Inr (set_risk (pw_risk p) (v\<lparr>wv_aml := a\<rparr>)))
      else if pw_event p = JStr ''liveness_photo.created'' \<or> pw_event p = JStr ''video.created'' then
        Inr (v\<lparr>wv_liveness := True\<rparr>)
      else Inr v)"

definition aml_of_string :: "string \<Rightarrow> AmlStatus" where
  "aml_of_string s = (if s = ''pending'' then AmlPending else if s = ''clear'' then AmlClear
     else if s = ''consider'' then AmlConsider else if s = ''flagged'' then AmlFlagged else AmlOther (JStr s))"

text \<open>\<^verbatim>\<open>(status as AmlStatus) ?? 'clear'\<close>.\<close>

definition aml_cast :: "json option \<Rightarrow> AmlStatus" where
  "aml_cast x = (case x of None \<Rightarrow> AmlClear | Some JNull \<Rightarrow> AmlClear
     | Some (JStr s) \<Rightarrow> aml_of_string s | Some j \<Rightarrow> AmlOther j)"

definition jumioEvent :: "int \<Rightarrow> ProviderWebhookPayload \<Rightarrow> webhook_vars \<Rightarrow> webhook_vars" where
  "jumioEvent now p v =
     (if pw_event p = JStr ''transaction.success'' then
        v\<lparr>wv_status := KApproved, wv_approvedAt := Some now, wv_liveness := True\<rparr>
      else if pw_event p = JStr ''transaction.failed'' \<or> pw_event p = JStr ''transaction.declined'' then
        v\<lparr>wv_status := KRejected, wv_rejectedAt := Some now\<rparr>
      else if pw_event p = JStr ''aml_screening.completed'' then
        set_risk (pw_risk p) (v\<lparr>wv_aml := aml_cast (pw_status p)\<rparr>)
      else v)"

definition providerEvent :: "int \<Rightarrow> ProviderWebhookPayload \<Rightarrow> webhook_vars \<Rightarrow> kyc_error + webhook_vars" where
  "providerEvent now p v = (case pw_provider p of
      Onfido \<Rightarrow> onfidoEvent now p v
    | Jumio \<Rightarrow> Inr (jumioEvent now p v)
    | OtherProvider _ \<Rightarrow> Inr v)"

text \<open>The value that the column \<^verbatim>\<open>amlStatus\<close> gets.\<close>

definition aml_column :: "kyc_env \<Rightarrow> AmlStatus \<Rightarrow> AmlStatus option" where
  "aml_column env a = (case a of
      AmlOther (JStr s) \<Rightarrow> Some a
    | AmlOther j \<Rightarrow> map_option aml_of_string (ke_set env j)
    | _ \<Rightarrow> Some a)"

definition apply_vars :: "int \<Rightarrow> webhook_vars \<Rightarrow> AmlStatus \<Rightarrow> kyc_row \<Rightarrow> kyc_log \<Rightarrow> kyc_row \<Rightarrow> kyc_row" where
  "apply_vars now v a old l r = r\<lparr>kv_status := wv_status v, kv_aml := a, kv_liveness := wv_liveness v,
     kv_risk := (case wv_risk v of None \<Rightarrow> kv_risk r | Some n \<Rightarrow> Some n),
     kv_approvedAt := (case wv_approvedAt v of None \<Rightarrow> kv_approvedAt old | Some t \<Rightarrow> Some t),
     kv_rejectedAt := (case wv_rejectedAt v of None \<Rightarrow> kv_rejectedAt old | Some t \<Rightarrow> Some t),
     kv_log := l, kv_updatedAt := now\<rparr>"

definition riskMessage :: "int option \<Rightarrow> string" where
  "riskMessage n = ''AML screening flagged high-risk score: '' @
     (case n of None \<Rightarrow> ''undefined'' | Some i \<Rightarrow> int_str i)"

definition high_risk :: "webhook_vars \<Rightarrow> bool" where
  "high_risk v \<longleftrightarrow> wv_aml v = AmlFlagged \<and> (case wv_risk v of None \<Rightarrow> 0 | Some n \<Rightarrow> n) \<ge> 75"

text \<open>The handler from the record found on, then the whole handler.\<close>

definition processWebhook :: "kyc_env \<Rightarrow> int \<Rightarrow> ProviderWebhookPayload \<Rightarrow> kyc_row \<Rightarrow> unit kyc" where
  "processWebhook env now p r =
     (case appendLog now (pw_raw p) (kv_log r) of Inl e \<Rightarrow> io_throw e | Inr l \<Rightarrow>
     (case providerEvent now p (vars_of r) of Inl e \<Rightarrow> io_throw e | Inr v \<Rightarrow>
     (case aml_column env (wv_aml v) of None \<Rightarrow> io_throw KycValidation | Some a \<Rightarrow>
       io_bind (db_write KycDbError (\<lambda>d. d\<lparr>kyc_rows := table_update (\<lambda>x. kv_id x = kv_id r)
         (apply_vars now v a r l) (kyc_rows d)\<rparr>)) (\<lambda>_.
       io_bind (auditLog (kv_wallet r) ''webhook_received'' ''webhook''
         (WebhookDetails (pw_event p) (wv_status v) (wv_aml v) (wv_risk v)) None None) (\<lambda>_.
       if high_risk v
       then triggerReVerification now (kv_wallet r) (riskMessage (wv_risk v)) ''system'' None
       else io_return ())))))"

definition handleWebhook :: "kyc_env \<Rightarrow> int \<Rightarrow> ProviderWebhookPayload \<Rightarrow> unit kyc" where
  "handleWebhook env now p = io_bind (findWebhookRecord env p)
     (\<lambda>found. case found of None \<Rightarrow> io_return () | Some r \<Rightarrow> processWebhook env now p r)"

section \<open>The invariant of the tables\<close>

definition log_ok :: "kyc_log \<Rightarrow> bool" where
  "log_ok l = (case l of LogEntries es \<Rightarrow> length es \<le> 50 | _ \<Rightarrow> True)"

definition row_ok :: "kyc_row \<Rightarrow> bool" where
  "row_ok r \<longleftrightarrow> (kv_status r = KApproved \<longrightarrow> kv_approvedAt r \<noteq> None) \<and> log_ok (kv_log r) \<and> kv_expiresAt r \<noteq> None"

definition kyc_ok :: "kyc_db \<Rightarrow> bool" where
  "kyc_ok d \<longleftrightarrow> distinct (map kv_wallet (kyc_rows d)) \<and> distinct (map kv_id (kyc_rows d)) \<and>
     list_all (\<lambda>r. kv_id r < kyc_next d \<and> row_ok r) (kyc_rows d)"

definition kyc_empty :: kyc_db where
  "kyc_empty = \<lparr>kyc_rows = [], kyc_audits = [], kyc_next = 0\<rparr>"

text \<open>The operations that change the tables, each with any outcome of its calls.\<close>

inductive kyc_step :: "kyc_env \<Rightarrow> kyc_db \<Rightarrow> kyc_db \<Rightarrow> bool" for env where
  initiate_step: "kyc_step env d (db_after (initiateVerification env prov now params) fs d)"
| webhook_step: "kyc_step env d (db_after (handleWebhook env now p) fs d)"
| reverify_step: "kyc_step env d (db_after (triggerReVerification now w reason actor ip) fs d)"

inductive_cases kyc_stepE: "kyc_step env d d'"

text \<open>Rows only change in place by updates that keep identifier and wallet, so an invariant of the
  database follows from one of the rows.\<close>

lemma map_table_update:
  "(\<And>r. g (f r) = g r) \<Longrightarrow> map g (table_update p f t) = map g t"
  by (induction t) (auto simp: table_update_def)

lemma list_all_table_update:
  "list_all Q t \<Longrightarrow> (\<And>r. Q r \<Longrightarrow> p r \<Longrightarrow> Q (f r)) \<Longrightarrow> list_all Q (table_update p f t)"
  by (induction t) (auto simp: table_update_def)

lemma kyc_ok_update:
  assumes "kyc_ok d" and "\<And>r. kv_wallet (f r) = kv_wallet r" and "\<And>r. kv_id (f r) = kv_id r"
    and "\<And>r. row_ok r \<Longrightarrow> p r \<Longrightarrow> row_ok (f r)"
  shows "kyc_ok (d\<lparr>kyc_rows := table_update p f (kyc_rows d)\<rparr>)"
  using assms by (auto simp: kyc_ok_def map_table_update intro!: list_all_table_update)

lemma kyc_ok_find:
  assumes "kyc_ok d" and "List.find q (kyc_rows d) = Some r"
  shows "row_ok r"
  using find_SomeD [OF assms(2)] assms(1) by (auto simp: kyc_ok_def list_all_iff)

lemma kyc_ok_audit [simp]: "kyc_ok (d\<lparr>kyc_audits := xs\<rparr>) = kyc_ok d"
  by (simp add: kyc_ok_def)

lemma keeps_auditLog [keeps_intros]: "keeps kyc_ok (auditLog w action actor details ip agent)"
  unfolding auditLog_def by (rule keeps_write) simp

lemma keeps_findWallet [keeps_intros]: "keeps P (findWallet w)"
  unfolding findWallet_def by (rule keeps_read)

lemma row_ok_new: "log_ok (ke_log env) \<Longrightarrow> row_ok (submitted_new env prov now params app chk i)"
  by (simp add: row_ok_def submitted_new_def)

lemma row_ok_submitted: "row_ok r \<Longrightarrow> row_ok (submitted_update prov now params app chk r)"
  by (simp add: row_ok_def submitted_update_def)

lemma keeps_upsert:
  assumes "log_ok (ke_log env)"
  shows "keeps kyc_ok (db_call e (upsertVerification (submitted_new env prov now params app chk)
    (submitted_update prov now params app chk) (ip_wallet params)))"
proof -
  have "kyc_ok (snd (upsertVerification (submitted_new env prov now params app chk)
    (submitted_update prov now params app chk) (ip_wallet params) d))" if d: "kyc_ok d" for d
  proof (cases "List.find (\<lambda>r. kv_wallet r = ip_wallet params) (kyc_rows d)")
    case None
    then have "ip_wallet params \<notin> kv_wallet ` set (kyc_rows d)"
      by (auto simp: find_None_iff_ex list_ex_iff)
    moreover have "kyc_next d \<notin> kv_id ` set (kyc_rows d)"
      using d by (auto simp: kyc_ok_def list_all_iff)
    ultimately show ?thesis
      using d None row_ok_new [OF assms]
      by (auto simp: upsertVerification_def kyc_ok_def list_all_iff submitted_new_def less_Suc_eq)
  next
    case (Some r)
    then show ?thesis
      using kyc_ok_update [OF d, of "submitted_update prov now params app chk"] row_ok_submitted
      by (simp add: upsertVerification_def submitted_update_def)
  qed
  then show ?thesis by (rule keeps_call)
qed

lemma keeps_initiate: "log_ok (ke_log env) \<Longrightarrow> keeps kyc_ok (initiateVerification env prov now params)"
  unfolding initiateVerification_def Let_def by (intro keeps_intros keeps_upsert)

lemma keeps_trigger [keeps_intros]: "keeps kyc_ok (triggerReVerification now w reason actor ip)"
proof -
  have "keeps kyc_ok (db_write e (\<lambda>d. d\<lparr>kyc_rows := table_update (\<lambda>r. kv_wallet r = w)
    (\<lambda>r. r\<lparr>kv_status := KReverify, kv_updatedAt := now\<rparr>) (kyc_rows d)\<rparr>))" for e
    by (rule keeps_write, rule kyc_ok_update) (auto simp: row_ok_def)
  then show ?thesis unfolding triggerReVerification_def by (intro keeps_intros)
qed

lemma log_ok_append: "appendLog now raw l = Inr l' \<Longrightarrow> log_ok l'"
  by (cases l) (auto simp: appendLog_def log_ok_def last_entries_def)

text \<open>An event that approves also records when.\<close>

lemma providerEvent_approvedAt:
  assumes "providerEvent now p (vars_of r) = Inr v" and "wv_status v = KApproved" and "row_ok r"
  shows "wv_approvedAt v \<noteq> None \<or> kv_approvedAt r \<noteq> None"
  using assms
  by (auto simp: providerEvent_def onfidoEvent_def jumioEvent_def vars_of_def set_risk_def row_ok_def
        split: KycProvider.splits if_splits sum.splits option.splits)

lemma row_ok_apply:
  assumes "row_ok r" and "providerEvent now p (vars_of r) = Inr v" and "log_ok l" and "row_ok x"
  shows "row_ok (apply_vars now v a r l x)"
  using providerEvent_approvedAt [OF assms(2)] assms(1,3,4)
  by (auto simp: row_ok_def apply_vars_def split: option.splits)

text \<open>The record found satisfies what all rows satisfy.\<close>

lemma keeps_found_rows:
  assumes rows: "\<And>d. P d \<Longrightarrow> list_all Q (kyc_rows d)"
    and "keeps P (f None)" and "\<And>r. Q r \<Longrightarrow> keeps P (f (Some r))"
  shows "keeps P (io_bind (findWebhookRecord env p) f)"
proof -
  have "keeps P (f (List.find q (kyc_rows d)))" if "P d" for d q
  proof (cases "List.find q (kyc_rows d)")
    case (Some r)
    then have "Q r" using find_SomeD [OF Some] rows [OF that] by (simp add: list_all_iff)
    then show ?thesis using assms(3) Some by simp
  qed (use assms(2) in simp)
  then have "keeps P (io_bind (db_read KycDbError (\<lambda>d. List.find q (kyc_rows d))) f)" for q
    by (intro keeps_read_bind) auto
  moreover have "keeps P (io_bind (io_throw e) f)" for e
    by (simp add: keeps_def io_bind_def io_throw_def)
  ultimately show ?thesis by (simp add: findWebhookRecord_def split: option.splits)
qed

text \<open>An invariant is kept by the handler if it is kept by its writes.\<close>

lemma keeps_processWebhook:
  assumes "\<And>l v a. log_ok l \<Longrightarrow> providerEvent now p (vars_of r) = Inr v \<Longrightarrow>
      keeps P (db_write KycDbError (\<lambda>d. d\<lparr>kyc_rows := table_update (\<lambda>x. kv_id x = kv_id r) (apply_vars now v a r l) (kyc_rows d)\<rparr>))"
    and "\<And>w action actor details ip agent. keeps P (auditLog w action actor details ip agent)"
    and "\<And>v. providerEvent now p (vars_of r) = Inr v \<Longrightarrow> high_risk v \<Longrightarrow>
      keeps P (triggerReVerification now (kv_wallet r) (riskMessage (wv_risk v)) ''system'' None)"
  shows "keeps P (processWebhook env now p r)"
  unfolding processWebhook_def by (intro keeps_intros assms) (auto simp: log_ok_append)

lemma keeps_handleWebhook: "keeps kyc_ok (handleWebhook env now p)"
proof -
  have "keeps kyc_ok (db_write e (\<lambda>d. d\<lparr>kyc_rows := table_update (\<lambda>x. kv_id x = kv_id r)
      (apply_vars now v a r l) (kyc_rows d)\<rparr>))"
    if "row_ok r" "providerEvent now p (vars_of r) = Inr v" "log_ok l" for e r v a l
    by (rule keeps_write, rule kyc_ok_update) (use row_ok_apply [OF that] in \<open>auto simp: apply_vars_def\<close>)
  then have "keeps kyc_ok (processWebhook env now p r)" if "row_ok r" for r
    using that by (intro keeps_processWebhook keeps_intros)
  moreover have "list_all row_ok (kyc_rows d)" if "kyc_ok d" for d
    using that by (simp add: kyc_ok_def list_all_iff)
  ultimately show ?thesis
    unfolding handleWebhook_def by (intro keeps_found_rows [where Q = row_ok]) (simp_all add: keeps_return)
qed

interpretation kyc: inv_system "\<lambda>d. d = kyc_empty \<and> log_ok (ke_log env)" "kyc_step env"
  "\<lambda>d. kyc_ok d \<and> log_ok (ke_log env)" for env
proof
  fix d d' assume "kyc_step env d d'" and ok: "kyc_ok d \<and> log_ok (ke_log env)"
  then show "kyc_ok d' \<and> log_ok (ke_log env)"
    by (cases rule: kyc_stepE) (use ok keepsD [OF keeps_initiate] keepsD [OF keeps_handleWebhook]
      keepsD [OF keeps_trigger] in auto)
qed (simp add: kyc_ok_def kyc_empty_def)

text \<open>Who counts as verified.\<close>

definition verified_row :: "int \<Rightarrow> kyc_row \<Rightarrow> bool" where
  "verified_row now r \<longleftrightarrow> kv_status r = KApproved \<and> kv_aml r \<noteq> AmlFlagged \<and>
     (case kv_expiresAt r of None \<Rightarrow> True | Some e \<Rightarrow> now \<le> e)"

lemma isVerified_run:
  "isVerified now w (d, []) =
     (Inr (case List.find (\<lambda>r. kv_wallet r = w) (kyc_rows d) of None \<Rightarrow> False | Some r \<Rightarrow> verified_row now r), d, [])"
  by (auto simp: isVerified_def findWallet_def io_simps verified_row_def split: option.splits)

lemma find_distinct:
  assumes "distinct (map g t)" and "x \<in> set t"
  shows "List.find (\<lambda>r. g r = g x) t = Some x"
  using assms by (induction t) (auto simp: rev_image_eqI)

text \<open>C13: The tables of identity checks stay consistent, and what makes a wallet verified. Whatever
  requests come in and whichever of their database calls fail, there is at most one record per wallet,
  an approved record says when it was approved, every record has an expiry date and keeps at most 50
  webhook events; a wallet may transact exactly if its one record is approved, its money-laundering check is not
  \<open>flagged\<close>, and it is not past its expiry date, and then it was approved at a recorded time. The comment
  on the check asks for a money-laundering result that is clear or pending; the code, and this theorem, also let the results
  \<open>consider\<close> and any unknown text that a provider sent pass.\<close>

theorem kyc_verified_exactly:
  assumes "reach (\<lambda>d. d = kyc_empty \<and> log_ok (ke_log env)) (kyc_step env) d"
  shows "kyc_ok d \<and> isVerified now w (d, []) =
      (Inr (list_ex (\<lambda>r. kv_wallet r = w \<and> verified_row now r \<and> kv_approvedAt r \<noteq> None) (kyc_rows d)), d, [])"
proof
  show ok: "kyc_ok d" using kyc.reach_invar [OF assms] by simp
  have uniq: "List.find (\<lambda>r. kv_wallet r = w) (kyc_rows d) = Some r"
    if "r \<in> set (kyc_rows d)" "kv_wallet r = w" for r
    using find_distinct [of kv_wallet "kyc_rows d" r] ok that by (simp add: kyc_ok_def)
  show "isVerified now w (d, []) =
      (Inr (list_ex (\<lambda>r. kv_wallet r = w \<and> verified_row now r \<and> kv_approvedAt r \<noteq> None) (kyc_rows d)), d, [])"
  proof (cases "List.find (\<lambda>r. kv_wallet r = w) (kyc_rows d)")
    case None
    then have "\<forall>r\<in>set (kyc_rows d). kv_wallet r \<noteq> w" by (simp add: find_None_iff_ex list_ex_iff)
    with None show ?thesis by (auto simp: isVerified_run list_ex_iff)
  next
    case (Some r)
    then have r: "r \<in> set (kyc_rows d)" "kv_wallet r = w" "row_ok r"
      using find_SomeD [OF Some] kyc_ok_find [OF ok Some] by auto
    have at: "verified_row now r \<Longrightarrow> kv_approvedAt r \<noteq> None"
      using r(3) unfolding verified_row_def row_ok_def by blast
    have one: "x = r" if "x \<in> set (kyc_rows d)" "kv_wallet x = w" for x
      using uniq [OF that] Some by simp
    have "list_ex (\<lambda>r. kv_wallet r = w \<and> verified_row now r \<and> kv_approvedAt r \<noteq> None) (kyc_rows d)
        = verified_row now r"
      unfolding list_ex_iff using r(1,2) at one by blast
    then show ?thesis by (simp add: isVerified_run Some)
  qed
qed

section \<open>Expiry\<close>

definition has_expiry :: "string \<Rightarrow> int \<Rightarrow> kyc_db \<Rightarrow> bool" where
  "has_expiry w e d \<longleftrightarrow>
     (case List.find (\<lambda>r. kv_wallet r = w) (kyc_rows d) of None \<Rightarrow> False | Some r \<Rightarrow> kv_expiresAt r = Some e)"

lemma find_table_update:
  "(\<And>r. p (f r) = p r) \<Longrightarrow>
   List.find p (table_update q f t) = map_option (\<lambda>r. if q r then f r else r) (List.find p t)"
  by (induction t) (auto simp: table_update_def)

lemma has_expiry_update:
  assumes "has_expiry w e d" and "\<And>r. kv_wallet (f r) = kv_wallet r" and "\<And>r. kv_expiresAt (f r) = kv_expiresAt r"
  shows "has_expiry w e (d\<lparr>kyc_rows := table_update q f (kyc_rows d)\<rparr>)"
  using assms by (auto simp: has_expiry_def find_table_update split: option.splits)

lemma has_expiry_audit: "keeps (has_expiry w e) (auditLog x action actor details ip agent)"
  unfolding auditLog_def by (rule keeps_write) (simp add: has_expiry_def)

lemma has_expiry_trigger: "keeps (has_expiry w e) (triggerReVerification now x reason actor ip)"
proof -
  have "keeps (has_expiry w e) (db_write er (\<lambda>d. d\<lparr>kyc_rows := table_update (\<lambda>r. kv_wallet r = x)
    (\<lambda>r. r\<lparr>kv_status := KReverify, kv_updatedAt := now\<rparr>) (kyc_rows d)\<rparr>))" for er
    by (rule keeps_write, erule has_expiry_update) auto
  then show ?thesis unfolding triggerReVerification_def by (intro keeps_intros has_expiry_audit)
qed

lemma has_expiry_webhook: "keeps (has_expiry w e) (handleWebhook env now p)"
proof -
  have "keeps (has_expiry w e) (db_write er (\<lambda>d. d\<lparr>kyc_rows := table_update (\<lambda>x. kv_id x = kv_id r)
      (apply_vars now v a r l) (kyc_rows d)\<rparr>))" for er r v a l
    by (rule keeps_write, erule has_expiry_update) (auto simp: apply_vars_def)
  then have "keeps (has_expiry w e) (processWebhook env now p r)" for r
    by (intro keeps_processWebhook has_expiry_audit has_expiry_trigger)
  moreover have "keeps (has_expiry w e) (findWebhookRecord env p)"
    by (simp add: findWebhookRecord_def keeps_intros split: option.splits)
  ultimately show ?thesis
    unfolding handleWebhook_def by (intro keeps_intros)
qed

lemma has_expiry_initiate: "keeps (has_expiry w e) (initiateVerification env prov now params)"
proof -
  have "keeps (has_expiry w e) (db_call er (upsertVerification new (submitted_update prov now params app chk)
      (ip_wallet params)))" for er new app chk
  proof (rule keeps_call)
    fix d assume d: "has_expiry w e d"
    show "has_expiry w e (snd (upsertVerification new (submitted_update prov now params app chk) (ip_wallet params) d))"
    proof (cases "List.find (\<lambda>r. kv_wallet r = ip_wallet params) (kyc_rows d)")
      case None
      then show ?thesis
        using d by (auto simp: upsertVerification_def has_expiry_def find_append split: option.splits)
    next
      case (Some r)
      then show ?thesis
        using has_expiry_update [OF d, of "submitted_update prov now params app chk"]
        by (simp add: upsertVerification_def submitted_update_def)
    qed
  qed
  then show ?thesis
    unfolding initiateVerification_def Let_def by (intro keeps_intros has_expiry_audit)
qed

lemma has_expiry_step: "kyc_step env d d' \<Longrightarrow> has_expiry w e d \<Longrightarrow> has_expiry w e d'"
  by (erule kyc_stepE) (use keepsD [OF has_expiry_initiate] keepsD [OF has_expiry_webhook]
    keepsD [OF has_expiry_trigger] in auto)

interpretation expiry: inv_system "has_expiry w e" "kyc_step env" "has_expiry w e" for w e env
  by unfold_locales (auto intro: has_expiry_step)

text \<open>C14: Once a wallet's check has expired it can never be renewed: the expiry date is written only
  when the record is created, so after any further requests, approvals included, the wallet stays
  unverified; and while the expired record is still approved, starting a new check answers that the
  wallet is already verified and does nothing.\<close>

theorem expired_stays_expired:
  assumes "(kyc_step env)\<^sup>*\<^sup>* d d'"
    and "List.find (\<lambda>r. kv_wallet r = w) (kyc_rows d) = Some r" and "kv_expiresAt r = Some e" and "e < now"
  shows "isVerified now w (d', []) = (Inr False, d', []) \<and>
    (kv_status r = KApproved \<and> ip_wallet params = w \<longrightarrow>
      initiateVerification env prov now params (d, []) = (Inr (buildResult r ''Already verified.''), d, []))"
proof (intro conjI impI)
  have "has_expiry w e d'"
    using expiry.steps_invar [OF assms(1)] assms(2,3) by (simp add: has_expiry_def)
  with assms(4) show "isVerified now w (d', []) = (Inr False, d', [])"
    by (auto simp: isVerified_run has_expiry_def verified_row_def split: option.splits)
  show "initiateVerification env prov now params (d, []) = (Inr (buildResult r ''Already verified.''), d, [])"
    if "kv_status r = KApproved \<and> ip_wallet params = w"
    using that assms(2) by (simp add: initiateVerification_def findWallet_def io_simps)
qed

subsection \<open>A sample run\<close>

definition demo_kyc_env :: kyc_env where
  "demo_kyc_env = \<lparr>ke_undefined = False, ke_filter = (\<lambda>_. None), ke_set = (\<lambda>_. None),
     ke_liveness = False, ke_log = LogEntries []\<rparr>"

definition demo_kyc_params :: InitiateKycParams where
  "demo_kyc_params = \<lparr>ip_wallet = ''GA'', ip_documentType = ''passport'', ip_country = ''GBR'', ip_ip = None, ip_agent = None\<rparr>"

definition demo_approval :: ProviderWebhookPayload where
  "demo_approval = \<lparr>pw_provider = Onfido, pw_event = JStr ''workflow_run.completed'', pw_applicant = None,
     pw_workflow = Some (JStr ''wf_5''), pw_status = Some (JStr ''approved''), pw_subResult = None,
     pw_risk = None, pw_raw = []\<rparr>"

definition demo_kyc_db :: kyc_db where
  "demo_kyc_db = db_after (handleWebhook demo_kyc_env 7 demo_approval) []
     (db_after (initiateVerification demo_kyc_env Onfido 5 demo_kyc_params) [] kyc_empty)"

lemma demo_kyc_reach:
  "reach (\<lambda>d. d = kyc_empty \<and> log_ok (ke_log demo_kyc_env)) (kyc_step demo_kyc_env) demo_kyc_db"
proof -
  have "log_ok (ke_log demo_kyc_env)" by (simp add: demo_kyc_env_def log_ok_def)
  then have "reach (\<lambda>d. d = kyc_empty \<and> log_ok (ke_log demo_kyc_env)) (kyc_step demo_kyc_env)
      (db_after (initiateVerification demo_kyc_env Onfido 5 demo_kyc_params) [] kyc_empty)"
    by (intro reach_step [OF reach_init, of _ kyc_empty] initiate_step) simp
  then show ?thesis
    unfolding demo_kyc_db_def by (rule reach_step) (rule webhook_step)
qed

definition demo_kyc_row :: kyc_row where
  "demo_kyc_row = \<lparr>kv_id = 0, kv_wallet = ''GA'', kv_status = KApproved, kv_provider = Onfido,
     kv_applicant = Some ''onfido_5_GA'', kv_workflow = Some ''wf_5'', kv_documentType = Some ''passport'',
     kv_liveness = False, kv_aml = AmlPending, kv_amlCheckId = Some ''check_5'', kv_country = Some ''GBR'',
     kv_risk = None, kv_log = LogEntries [\<lparr>le_fields = [], le_receivedAt = 7\<rparr>], kv_submittedAt = Some 5,
     kv_approvedAt = Some 7, kv_rejectedAt = None, kv_expiresAt = Some (5 + YEAR_MS), kv_updatedAt = 7\<rparr>"

lemma demo_kyc_rows: "kyc_rows demo_kyc_db = [demo_kyc_row]"
  by code_simp

theorem kyc_verified_exactly_witness:
  "fst (isVerified 9 ''GA'' (demo_kyc_db, [])) = Inr True \<and> fst (isVerified 9 ''GB'' (demo_kyc_db, [])) = Inr False"
proof -
  have "fst (isVerified 9 ''GA'' (demo_kyc_db, [])) = Inr True"
    using conjunct2 [OF kyc_verified_exactly [OF demo_kyc_reach, of 9 "''GA''"]]
    by (simp add: demo_kyc_rows demo_kyc_row_def verified_row_def YEAR_MS_def)
  moreover have "fst (isVerified 9 ''GB'' (demo_kyc_db, [])) = Inr False"
    using conjunct2 [OF kyc_verified_exactly [OF demo_kyc_reach, of 9 "''GB''"]]
    by (simp add: demo_kyc_rows demo_kyc_row_def)
  ultimately show ?thesis by simp
qed

theorem expired_stays_expired_witness:
  "fst (isVerified (6 + YEAR_MS) ''GA''
     (db_after (handleWebhook demo_kyc_env (6 + YEAR_MS) demo_approval) [] demo_kyc_db, [])) = Inr False \<and>
   fst (initiateVerification demo_kyc_env Onfido (6 + YEAR_MS) demo_kyc_params (demo_kyc_db, [])) =
     Inr (buildResult demo_kyc_row ''Already verified.'')"
proof -
  have "(kyc_step demo_kyc_env)\<^sup>*\<^sup>* demo_kyc_db (db_after (handleWebhook demo_kyc_env (6 + YEAR_MS) demo_approval) [] demo_kyc_db)"
    by (intro r_into_rtranclp kyc_step.intros)
  moreover have "List.find (\<lambda>r. kv_wallet r = ''GA'') (kyc_rows demo_kyc_db) = Some demo_kyc_row"
    by (simp add: demo_kyc_rows demo_kyc_row_def)
  moreover have "kv_expiresAt demo_kyc_row = Some (5 + YEAR_MS)" "5 + YEAR_MS < 6 + YEAR_MS"
    by (simp_all add: demo_kyc_row_def)
  moreover have "kv_status demo_kyc_row = KApproved \<and> ip_wallet demo_kyc_params = ''GA''"
    by (simp add: demo_kyc_row_def demo_kyc_params_def)
  ultimately show ?thesis
    using expired_stays_expired [of demo_kyc_env demo_kyc_db _ "''GA''" demo_kyc_row "5 + YEAR_MS" "6 + YEAR_MS"
      demo_kyc_params Onfido] by simp
qed

end
