(* ===== verification/Kyc_Routes.thy ===== *)
theory Kyc_Routes
  imports Kyc
begin

text \<open>
  The HTTP routes over the identity-check service, \<^verbatim>\<open>backend/src/routes/kyc.ts\<close>: starting a check,
  reading a status, the two provider webhooks with their signatures, and re-verification by an
  administrator. A webhook body is a JSON object whose parts are read the way the optional chains of
  the source read them; the text fields of the other two bodies are given or missing. HMAC, JSON
  printing and base64 decoding are arguments. The audit listing is left out.
\<close>

section \<open>Requests and replies\<close>

record webhook_request =
  rq_raw :: "string option"
  rq_body :: "(string \<times> json) list"
  rq_signature :: "string option"

record webhook_server =
  ws_onfido_secret :: "string option"
  ws_jumio_secret :: "string option"
  ws_hmac_hex :: "string \<Rightarrow> string \<Rightarrow> string"
  ws_hmac_base64 :: "string \<Rightarrow> string \<Rightarrow> string"
  ws_base64_decode :: "string \<Rightarrow> nat list"
  ws_stringify :: "(string \<times> json) list \<Rightarrow> string"

datatype kyc_body =
    ErrorBody string
  | ResultBody KycVerificationResult
  | NotFoundBody string
  | ReceivedBody bool
  | ReverifiedBody string

datatype kyc_reply = Reply nat kyc_body

section \<open>Signatures\<close>

text \<open>\<^verbatim>\<open>timingSafeEqual\<close> throws on buffers of different lengths, which counts as a mismatch.\<close>

definition validateOnfidoSignature :: "webhook_server \<Rightarrow> string \<Rightarrow> string \<Rightarrow> string \<Rightarrow> bool" where
  "validateOnfidoSignature srv raw signature secret =
     (signature = ''sha256='' @ ws_hmac_hex srv secret raw)"

definition validateJumioSignature :: "webhook_server \<Rightarrow> string \<Rightarrow> string \<Rightarrow> string \<Rightarrow> bool" where
  "validateJumioSignature srv raw signature secret =
     (ws_base64_decode srv signature = ws_base64_decode srv (ws_hmac_base64 srv secret raw))"

definition rawBody :: "webhook_server \<Rightarrow> webhook_request \<Rightarrow> string" where
  "rawBody srv req = (case rq_raw req of Some b \<Rightarrow> b | None \<Rightarrow> ws_stringify srv (rq_body req))"

text \<open>\<^verbatim>\<open>if (secret && signature)\<close>: the check is made only when both are non-empty.\<close>

definition signature_refused ::
    "(string \<Rightarrow> string \<Rightarrow> string \<Rightarrow> bool) \<Rightarrow> string option \<Rightarrow> webhook_server \<Rightarrow> webhook_request \<Rightarrow> bool" where
  "signature_refused validate secret srv req = (case (secret, rq_signature req) of
      (Some k, Some g) \<Rightarrow> k \<noteq> '''' \<and> g \<noteq> '''' \<and> \<not> validate (rawBody srv req) g k
    | _ \<Rightarrow> False)"

section \<open>Webhook routes\<close>

definition onfidoPayload :: "(string \<times> json) list \<Rightarrow> ProviderWebhookPayload" where
  "onfidoPayload body = (let payload = map_of body ''payload''; object = jget payload ''object'' in
     \<lparr>pw_provider = Onfido,
      pw_event = the (coalesce (jget payload ''action'') (coalesce (map_of body ''event'') (Some (JStr ''unknown'')))),
      pw_applicant = coalesce (jget object ''id'') (coalesce (map_of body ''applicant_id'') None),
      pw_workflow = coalesce (jget object ''id'') (coalesce (map_of body ''workflow_run_id'') None),
      pw_status = jget object ''status'', pw_subResult = jget object ''sub_result'',
      pw_risk = None, pw_raw = body\<rparr>)"

definition jumioPayload :: "(string \<times> json) list \<Rightarrow> ProviderWebhookPayload" where
  "jumioPayload body =
     \<lparr>pw_provider = Jumio,
      pw_event = the (coalesce (map_of body ''event'') (coalesce (map_of body ''callbackType'') (Some (JStr ''unknown'')))),
      pw_applicant = coalesce (map_of body ''transactionReference'') None,
      pw_workflow = coalesce (map_of body ''transactionReference'') None,
      pw_status = coalesce (map_of body ''idCheckStatus'') None, pw_subResult = None,
      pw_risk = json_number (map_of body ''riskScore''), pw_raw = body\<rparr>"

definition webhook_route :: "bool \<Rightarrow> kyc_env \<Rightarrow> int \<Rightarrow> ProviderWebhookPayload \<Rightarrow> kyc_reply kyc" where
  "webhook_route refused env now p = io_catch
     (if refused then io_return (Reply 401 (ErrorBody ''Invalid webhook signature''))
      else io_bind (handleWebhook env now p) (\<lambda>_. io_return (Reply 200 (ReceivedBody False))))
     (\<lambda>_. io_return (Reply 200 (ReceivedBody True)))"

definition post_webhook_onfido :: "kyc_env \<Rightarrow> webhook_server \<Rightarrow> int \<Rightarrow> webhook_request \<Rightarrow> kyc_reply kyc" where
  "post_webhook_onfido env srv now req = webhook_route
     (signature_refused (validateOnfidoSignature srv) (ws_onfido_secret srv) srv req) env now (onfidoPayload (rq_body req))"

definition post_webhook_jumio :: "kyc_env \<Rightarrow> webhook_server \<Rightarrow> int \<Rightarrow> webhook_request \<Rightarrow> kyc_reply kyc" where
  "post_webhook_jumio env srv now req = webhook_route
     (signature_refused (validateJumioSignature srv) (ws_jumio_secret srv) srv req) env now (jumioPayload (rq_body req))"

section \<open>The other routes\<close>

text \<open>The pattern \<^verbatim>\<open>^G[A-Z0-9]{55}$\<close>.\<close>

definition stellar_address :: "string \<Rightarrow> bool" where
  "stellar_address s \<longleftrightarrow> length s = 56 \<and> hd s = CHR ''G'' \<and>
     list_all (\<lambda>c. (65 \<le> (of_char c :: nat) \<and> (of_char c :: nat) \<le> 90) \<or> is_digit c) (tl s)"

record initiate_body =
  ib_wallet :: "string option"
  ib_firstName :: "string option"
  ib_lastName :: "string option"
  ib_email :: "string option"
  ib_dateOfBirth :: "string option"
  ib_country :: "string option"
  ib_documentType :: "string option"
  ib_ip :: "string option"
  ib_agent :: "string option"

definition given :: "string option \<Rightarrow> bool" where
  "given x = (case x of None \<Rightarrow> False | Some s \<Rightarrow> s \<noteq> '''')"

definition DOCUMENT_TYPES :: "string list" where
  "DOCUMENT_TYPES = [''passport'', ''national_id'', ''driving_license'']"

definition post_initiate :: "kyc_env \<Rightarrow> KycProvider \<Rightarrow> int \<Rightarrow> initiate_body \<Rightarrow> kyc_reply kyc" where
  "post_initiate env prov now b = io_catch
     (if \<not> list_all given [ib_wallet b, ib_firstName b, ib_lastName b, ib_email b, ib_dateOfBirth b, ib_country b, ib_documentType b]
      then io_return (Reply 400 (ErrorBody ''Missing required fields''))
      else if the (ib_documentType b) \<notin> set DOCUMENT_TYPES
      then io_return (Reply 400 (ErrorBody ''Invalid documentType''))
      else if \<not> stellar_address (the (ib_wallet b))
      then io_return (Reply 400 (ErrorBody ''Invalid walletAddress - must be a valid Stellar G-address''))
      else io_bind (initiateVerification env prov now
             \<lparr>ip_wallet = the (ib_wallet b), ip_documentType = the (ib_documentType b),
              ip_country = the (ib_country b), ip_ip = ib_ip b, ip_agent = ib_agent b\<rparr>)
           (\<lambda>r. io_return (Reply 201 (ResultBody r))))
     (\<lambda>_. io_return (Reply 500 (ErrorBody ''Failed to initiate KYC verification'')))"

definition get_status :: "string \<Rightarrow> kyc_reply kyc" where
  "get_status w = io_catch
     (if \<not> stellar_address w then io_return (Reply 400 (ErrorBody ''Invalid walletAddress''))
      else io_bind (getVerificationStatus w) (\<lambda>r. io_return (case r of
          None \<Rightarrow> Reply 404 (NotFoundBody w)
        | Some v \<Rightarrow> Reply 200 (ResultBody v))))
     (\<lambda>_. io_return (Reply 500 (ErrorBody ''Failed to retrieve KYC status'')))"

definition post_reverify :: "int \<Rightarrow> string option \<Rightarrow> string option \<Rightarrow> string option \<Rightarrow> kyc_reply kyc" where
  "post_reverify now w reason ip = io_catch
     (if \<not> given w \<or> \<not> given reason then io_return (Reply 400 (ErrorBody ''walletAddress and reason are required''))
      else if \<not> stellar_address (the w) then io_return (Reply 400 (ErrorBody ''Invalid walletAddress''))
      else io_bind (triggerReVerification now (the w) (the reason) ''admin'' ip)
             (\<lambda>_. io_return (Reply 200 (ReverifiedBody (the w)))))
     (\<lambda>e. case e of
         NoKycRecord x \<Rightarrow> io_return (Reply 404 (ErrorBody (''No KYC record found for wallet '' @ x)))
       | _ \<Rightarrow> io_return (Reply 500 (ErrorBody ''Failed to trigger re-verification'')))"

section \<open>Properties\<close>

lemma webhook_route_cases:
  "webhook_route refused env now p s =
     (if refused then (Inr (Reply 401 (ErrorBody ''Invalid webhook signature'')), s)
      else (Inr (Reply 200 (ReceivedBody (isl (fst (handleWebhook env now p s))))),
            snd (handleWebhook env now p s)))"
  by (auto simp: webhook_route_def io_simps split: prod.splits sum.splits)

text \<open>The signature gate of the Onfido webhook. A request whose signature differs from the
  keyed digest of its body is answered 401 and changes nothing; every other request is answered 200
  whatever fails, with the database that processing the payload leaves. A request without a signature
  is among the latter, whatever secret is configured.\<close>

lemma onfido_gate:
  "post_webhook_onfido env srv now req (d, fs) =
     (case (ws_onfido_secret srv, rq_signature req) of
        (Some k, Some g) \<Rightarrow>
          if k \<noteq> '''' \<and> g \<noteq> '''' \<and> g \<noteq> ''sha256='' @ ws_hmac_hex srv k (rawBody srv req)
          then (Inr (Reply 401 (ErrorBody ''Invalid webhook signature'')), d, fs)
          else (Inr (Reply 200 (ReceivedBody (isl (fst (handleWebhook env now (onfidoPayload (rq_body req)) (d, fs)))))),
                snd (handleWebhook env now (onfidoPayload (rq_body req)) (d, fs)))
      | _ \<Rightarrow> (Inr (Reply 200 (ReceivedBody (isl (fst (handleWebhook env now (onfidoPayload (rq_body req)) (d, fs)))))),
              snd (handleWebhook env now (onfidoPayload (rq_body req)) (d, fs))))"
  by (simp add: post_webhook_onfido_def webhook_route_cases signature_refused_def validateOnfidoSignature_def
        split: option.splits)

text \<open>The effect of an undisturbed webhook on the record it finds.\<close>

lemma handleWebhook_run:
  assumes "findWebhookRecord env p (d, []) = (Inr (Some r), d, [])"
    and "appendLog now (pw_raw p) (kv_log r) = Inr l" and "providerEvent now p (vars_of r) = Inr v"
    and "aml_column env (wv_aml v) = Some a"
    and "\<not> high_risk v"
  shows "\<exists>xs. handleWebhook env now p (d, []) =
    (Inr (), d\<lparr>kyc_rows := table_update (\<lambda>x. kv_id x = kv_id r) (apply_vars now v a r l) (kyc_rows d),
       kyc_audits := kyc_audits d @ xs\<rparr>, [])"
  using assms by (auto simp: handleWebhook_def processWebhook_def io_simps auditLog_def)

lemma find_after_webhook:
  assumes "kyc_ok d" and "r \<in> set (kyc_rows d)"
  shows "List.find (\<lambda>x. kv_wallet x = kv_wallet r)
     (table_update (\<lambda>x. kv_id x = kv_id r) (apply_vars now v a r l) (kyc_rows d)) = Some (apply_vars now v a r l r)"
proof -
  have "List.find (\<lambda>x. kv_wallet x = kv_wallet r) (kyc_rows d) = Some r"
    using find_distinct [of kv_wallet "kyc_rows d" r] assms by (simp add: kyc_ok_def)
  then show ?thesis by (simp add: find_table_update apply_vars_def)
qed

text \<open>A request that claims the completion of a workflow run.\<close>

definition approval_body :: "string \<Rightarrow> (string \<times> json) list" where
  "approval_body i = [(''payload'', JObj [(''action'', JStr ''workflow_run.completed''),
     (''object'', JObj [(''id'', JStr i), (''status'', JStr ''approved'')])])]"

definition unsigned_approval :: "string \<Rightarrow> webhook_request" where
  "unsigned_approval i = \<lparr>rq_raw = None, rq_body = approval_body i, rq_signature = None\<rparr>"

lemma onfidoPayload_approval:
  "onfidoPayload (approval_body i) = \<lparr>pw_provider = Onfido, pw_event = JStr ''workflow_run.completed'',
     pw_applicant = Some (JStr i), pw_workflow = Some (JStr i), pw_status = Some (JStr ''approved''),
     pw_subResult = None, pw_risk = None, pw_raw = approval_body i\<rparr>"
  by (simp add: onfidoPayload_def Let_def approval_body_def jget_def coalesce_def)

text \<open>A webhook secret does not protect the webhook. Whatever secret is configured, a request
  without a signature header that names the applicant or workflow run of a wallet is processed: it
  approves that wallet, which then counts as verified until its check expires, provided that the
  money-laundering check did not flag it.\<close>

theorem unsigned_request_approves:
  assumes "kyc_ok d"
    and "List.find (\<lambda>r. kv_applicant r = Some i \<or> kv_workflow r = Some i) (kyc_rows d) = Some r"
    and "kv_log r = LogEntries es" and "kv_aml r \<in> {AmlPending, AmlClear, AmlConsider}"
    and "kv_expiresAt r = Some e" and "t \<le> e"
  shows "\<exists>d'. post_webhook_onfido env srv now (unsigned_approval i) (d, []) = (Inr (Reply 200 (ReceivedBody False)), d', []) \<and>
    isVerified t (kv_wallet r) (d', []) = (Inr True, d', [])"
proof -
  let ?p = "onfidoPayload (approval_body i)" and ?a = "kv_aml r"
  let ?v = "(vars_of r)\<lparr>wv_status := KApproved, wv_approvedAt := Some now\<rparr>"
  obtain l where l: "appendLog now (pw_raw ?p) (kv_log r) = Inr l" using assms(3) by (simp add: appendLog_def)
  have find: "findWebhookRecord env ?p (d, []) = (Inr (Some r), d, [])"
    using assms(2) by (simp add: findWebhookRecord_def onfidoPayload_approval id_filter_def io_simps)
  have v: "providerEvent now ?p (vars_of r) = Inr ?v"
    by (simp add: providerEvent_def onfidoEvent_def onfidoPayload_approval)
  have a: "aml_column env (wv_aml ?v) = Some ?a" "\<not> high_risk ?v"
    using assms(4) by (auto simp: aml_column_def vars_of_def high_risk_def)
  obtain xs where run: "handleWebhook env now ?p (d, []) = (Inr (), d\<lparr>kyc_rows := table_update (\<lambda>x. kv_id x = kv_id r)
      (apply_vars now ?v ?a r l) (kyc_rows d), kyc_audits := kyc_audits d @ xs\<rparr>, [])"
    using handleWebhook_run [OF find l v a] by blast
  define d' where "d' = d\<lparr>kyc_rows := table_update (\<lambda>x. kv_id x = kv_id r)
      (apply_vars now ?v ?a r l) (kyc_rows d), kyc_audits := kyc_audits d @ xs\<rparr>"
  have r: "r \<in> set (kyc_rows d)" using find_SomeD [OF assms(2)] by simp
  have "isVerified t (kv_wallet r) (d', []) = (Inr (verified_row t (apply_vars now ?v ?a r l r)), d', [])"
    using find_after_webhook [OF assms(1) r] by (simp add: isVerified_run d'_def)
  moreover have "verified_row t (apply_vars now ?v ?a r l r)"
    using assms(4-6) by (auto simp: verified_row_def apply_vars_def)
  moreover have "post_webhook_onfido env srv now (unsigned_approval i) (d, []) = (Inr (Reply 200 (ReceivedBody False)), d', [])"
    using run by (simp add: onfido_gate unsigned_approval_def d'_def split: option.splits)
  ultimately show ?thesis by auto
qed

theorem unsigned_request_approves_witness:
  "\<exists>d'. post_webhook_onfido demo_kyc_env \<lparr>ws_onfido_secret = Some ''secret'', ws_jumio_secret = None,
       ws_hmac_hex = (\<lambda>k b. k @ b), ws_hmac_base64 = (\<lambda>k b. b), ws_base64_decode = (\<lambda>s. []), ws_stringify = (\<lambda>_. '''')\<rparr>
       8 (unsigned_approval ''wf_5'') (demo_kyc_db, []) = (Inr (Reply 200 (ReceivedBody False)), d', []) \<and>
     isVerified 9 ''GA'' (d', []) = (Inr True, d', [])"
proof -
  have "kyc_ok demo_kyc_db" using kyc.reach_invar [OF demo_kyc_reach] by simp
  moreover have "List.find (\<lambda>r. kv_applicant r = Some ''wf_5'' \<or> kv_workflow r = Some ''wf_5'') (kyc_rows demo_kyc_db)
      = Some demo_kyc_row"
    by (simp add: demo_kyc_rows demo_kyc_row_def)
  moreover have "kv_log demo_kyc_row = LogEntries [\<lparr>le_fields = [], le_receivedAt = 7\<rparr>]"
    "kv_aml demo_kyc_row \<in> {AmlPending, AmlClear, AmlConsider}" "kv_expiresAt demo_kyc_row = Some (5 + YEAR_MS)"
    "kv_wallet demo_kyc_row = ''GA''"
    by (simp_all add: demo_kyc_row_def)
  ultimately show ?thesis
    using unsigned_request_approves [of demo_kyc_db "''wf_5''" demo_kyc_row _ "5 + YEAR_MS" 9]
    by (simp add: YEAR_MS_def)
qed

section \<open>Re-verification\<close>

text \<open>No score reaches the handler through the Onfido route.\<close>

lemma onfido_no_risk: "pw_risk (onfidoPayload body) = None" "pw_provider (onfidoPayload body) = Onfido"
  by (simp_all add: onfidoPayload_def Let_def)

definition unscored :: "kyc_row \<Rightarrow> bool" where
  "unscored r \<longleftrightarrow> kv_risk r = None \<and> kv_status r \<noteq> KReverify"

lemma onfido_unscored:
  assumes "unscored r" and "providerEvent now (onfidoPayload body) (vars_of r) = Inr v"
  shows "wv_risk v = None \<and> wv_status v \<noteq> KReverify"
  using assms
  by (auto simp: providerEvent_def onfido_no_risk onfidoEvent_def vars_of_def set_risk_def unscored_def
        split: if_splits sum.splits)

text \<open>High-risk results of the default provider never lead to re-verification. The Onfido route
  hands no risk score on, so as long as no record has a score or waits for re-verification, no Onfido
  webhook, flagged ones included, puts a score into a record or demands re-verification, whatever it
  contains and whichever calls fail.\<close>

theorem onfido_never_reverifies:
  assumes "list_all unscored (kyc_rows d)"
  shows "list_all unscored (kyc_rows (db_after (post_webhook_onfido env srv now req) fs d))"
proof -
  let ?P = "\<lambda>d. list_all unscored (kyc_rows d)" and ?p = "onfidoPayload (rq_body req)"
  have upd: "keeps ?P (db_write er (\<lambda>d. d\<lparr>kyc_rows := table_update (\<lambda>x. kv_id x = kv_id r)
      (apply_vars now v a r l) (kyc_rows d)\<rparr>))"
    if "unscored r" "providerEvent now ?p (vars_of r) = Inr v" for er r v a l
    using onfido_unscored [OF that]
    by (intro keeps_write) (auto simp: unscored_def apply_vars_def intro!: list_all_table_update)
  have audit: "keeps ?P (auditLog w action actor details ip agent)" for w action actor details ip agent
    unfolding auditLog_def by (rule keeps_write) simp
  have quiet: "\<not> high_risk v" if "unscored r" "providerEvent now ?p (vars_of r) = Inr v" for r v
    using onfido_unscored [OF that] by (simp add: high_risk_def)
  have "keeps ?P (processWebhook env now ?p r)" if "unscored r" for r
    by (intro keeps_processWebhook audit upd that) (use quiet [OF that] in auto)
  then have "keeps ?P (handleWebhook env now ?p)"
    unfolding handleWebhook_def by (intro keeps_found_rows [where Q = unscored]) (auto simp: keeps_return)
  then have "keeps ?P (post_webhook_onfido env srv now req)"
    unfolding post_webhook_onfido_def webhook_route_def by (intro keeps_intros)
  then show ?thesis using assms by (rule keepsD)
qed

theorem onfido_never_reverifies_witness:
  "list_all unscored (kyc_rows (db_after (post_webhook_onfido demo_kyc_env
     \<lparr>ws_onfido_secret = None, ws_jumio_secret = None, ws_hmac_hex = (\<lambda>k b. b), ws_hmac_base64 = (\<lambda>k b. b),
      ws_base64_decode = (\<lambda>s. []), ws_stringify = (\<lambda>_. '''')\<rparr> 9
     \<lparr>rq_raw = None, rq_body = [(''event'', JStr ''check.completed''), (''workflow_run_id'', JStr ''wf_5''),
        (''riskScore'', JNum 99)], rq_signature = None\<rparr>) [] demo_kyc_db))"
  by (rule onfido_never_reverifies) (simp add: demo_kyc_rows demo_kyc_row_def unscored_def)

end
