(* ===== verification/Auth.thy ===== *)
theory Auth
  imports Effects Json
begin

text \<open>
  Signing in, \<^verbatim>\<open>backend/src/services/authService.ts\<close>: challenges, merchant tokens and rotating refresh
  tokens. The store is Redis: keys with values and expiry times, every command atomic, every command
  able to reject. Its clock and the servers' clock are one, in seconds. The stringified records of the
  source are the records themselves, as the keys of the kinds of records are disjoint. The Stellar SDK
  (decoding, hashing, verifying), base64, JSON text, HMAC and the random values are arguments.
\<close>

section \<open>Data\<close>

record ChallengeRecord =
  cr_account :: string
  cr_nonce :: string
  cr_transactionXdr :: string
  cr_expiresAt :: int

record RefreshTokenRecord =
  rt_tokenId :: string
  rt_familyId :: string
  rt_address :: string
  rt_token :: string
  rt_expiresAt :: int

datatype auth_value = ChallengeV ChallengeRecord | RefreshV RefreshTokenRecord | SentinelV string | FlagV

datatype auth_error = AuthError string | RefreshTokenError | RedisError | NotConnected | InvalidAccount

record auth_db =
  rd_store :: "string \<rightharpoonup> auth_value \<times> int"
  rd_clock :: int

type_synonym 'a auth = "(auth_db, auth_error, 'a) io"

definition CHALLENGE_TTL_SECONDS :: int where "CHALLENGE_TTL_SECONDS = 5 * 60"
definition JWT_TTL_SECONDS :: int where "JWT_TTL_SECONDS = 24 * 60 * 60"
definition REFRESH_TOKEN_TTL_SECONDS :: int where "REFRESH_TOKEN_TTL_SECONDS = 30 * 24 * 60 * 60"
definition MANAGE_DATA_KEY :: string where "MANAGE_DATA_KEY = ''SorobanPay auth''"

text \<open>Redis commands.\<close>

definition rd_get :: "string \<Rightarrow> auth_db \<Rightarrow> auth_value option" where
  "rd_get k d = (case rd_store d k of None \<Rightarrow> None | Some (v, e) \<Rightarrow> if rd_clock d < e then Some v else None)"

definition rd_set :: "string \<Rightarrow> auth_value \<Rightarrow> int \<Rightarrow> auth_db \<Rightarrow> auth_db" where
  "rd_set k v ttl d = d\<lparr>rd_store := (rd_store d)(k \<mapsto> (v, rd_clock d + ttl))\<rparr>"

definition rd_getdel :: "string \<Rightarrow> auth_db \<Rightarrow> auth_value option \<times> auth_db" where
  "rd_getdel k d = (rd_get k d, d\<lparr>rd_store := (rd_store d)(k := None)\<rparr>)"

definition redis_set :: "string \<Rightarrow> auth_value \<Rightarrow> int \<Rightarrow> unit auth" where
  "redis_set k v ttl = db_write RedisError (rd_set k v ttl)"

definition redis_get :: "string \<Rightarrow> auth_value option auth" where
  "redis_get k = db_read RedisError (rd_get k)"

definition redis_getdel :: "string \<Rightarrow> auth_value option auth" where
  "redis_getdel k = db_call RedisError (rd_getdel k)"

definition challengeKey :: "string \<Rightarrow> string" where
  "challengeKey account = ''sep10:challenge:'' @ account"

definition rtTokenKey :: "string \<Rightarrow> string" where "rtTokenKey token = ''refresh:token:'' @ token"
definition rtUsedKey :: "string \<Rightarrow> string" where "rtUsedKey token = ''refresh:used:'' @ token"
definition rtFamilyRevokedKey :: "string \<Rightarrow> string" where
  "rtFamilyRevokedKey f = ''refresh:family:revoked:'' @ f"

definition requireRedis :: "bool \<Rightarrow> unit auth" where
  "requireRedis connected = (if connected then io_return () else io_throw NotConnected)"

section \<open>Challenges\<close>

text \<open>What the SDK makes of a transaction: its source, its operations (the name and bytes of a
  manage-data operation), its signatures and its hash.\<close>

datatype operation = ManageData string "nat list option" | OtherOperation

record transaction =
  tx_source :: string
  tx_operations :: "operation list"
  tx_signatures :: "string list"
  tx_hash :: string

text \<open>\<open>sk_verify\<close> is \<open>None\<close> when verification throws.\<close>

record stellar_sdk =
  sk_valid_key :: "string \<Rightarrow> bool"
  sk_challenge :: "string \<Rightarrow> string \<Rightarrow> string \<Rightarrow> nat list \<Rightarrow> int \<Rightarrow> int \<Rightarrow> string"
  sk_decode :: "string \<Rightarrow> string \<Rightarrow> transaction option"
  sk_verify :: "string \<Rightarrow> string \<Rightarrow> string \<Rightarrow> bool option"

definition hex_char :: "nat \<Rightarrow> char" where
  "hex_char n = (if n < 10 then char_of (48 + n) else char_of (87 + n))"

definition hex_of_bytes :: "nat list \<Rightarrow> string" where
  "hex_of_bytes bs = concat (map (\<lambda>b. [hex_char (b div 16), hex_char (b mod 16)]) bs)"

text \<open>The nonce is the hexadecimal text of random bytes; reading it back gives these bytes.\<close>

definition generateChallenge :: "stellar_sdk \<Rightarrow> bool \<Rightarrow> nat list \<Rightarrow> string \<Rightarrow> string \<Rightarrow> ChallengeRecord auth" where
  "generateChallenge sdk connected bytes account networkPassphrase =
     (if \<not> sk_valid_key sdk account then io_throw InvalidAccount
      else io_bind (io_gets rd_clock) (\<lambda>now.
        let record = \<lparr>cr_account = account, cr_nonce = hex_of_bytes bytes,
              cr_transactionXdr = sk_challenge sdk account networkPassphrase MANAGE_DATA_KEY bytes CHALLENGE_TTL_SECONDS now,
              cr_expiresAt = now + CHALLENGE_TTL_SECONDS\<rparr>
        in io_bind (requireRedis connected) (\<lambda>_.
           io_bind (redis_set (challengeKey account) (ChallengeV record) CHALLENGE_TTL_SECONDS) (\<lambda>_.
           io_return record))))"

definition is_challenge_op :: "operation \<Rightarrow> bool" where
  "is_challenge_op op = (case op of ManageData n _ \<Rightarrow> n = MANAGE_DATA_KEY | OtherOperation \<Rightarrow> False)"

definition op_value :: "operation \<Rightarrow> nat list option" where
  "op_value op = (case op of ManageData _ v \<Rightarrow> v | OtherOperation \<Rightarrow> None)"

definition signatureValid :: "stellar_sdk \<Rightarrow> string \<Rightarrow> transaction \<Rightarrow> bool" where
  "signatureValid sdk account tx = list_ex (\<lambda>sig. sk_verify sdk account (tx_hash tx) sig = Some True) (tx_signatures tx)"

definition verifyChallenge :: "stellar_sdk \<Rightarrow> bool \<Rightarrow> string \<Rightarrow> string \<Rightarrow> string auth" where
  "verifyChallenge sdk connected signedXdr networkPassphrase =
     (case sk_decode sdk signedXdr networkPassphrase of
        None \<Rightarrow> io_throw (AuthError ''Invalid transaction XDR'')
      | Some tx \<Rightarrow>
          io_bind (requireRedis connected) (\<lambda>_.
          io_bind (redis_getdel (challengeKey (tx_source tx))) (\<lambda>raw. case raw of
              Some (ChallengeV record) \<Rightarrow>
               (case List.find is_challenge_op (tx_operations tx) of
                  None \<Rightarrow> io_throw (AuthError ''Challenge transaction missing ManageData operation'')
                | Some op \<Rightarrow>
                   (case op_value op of
                      None \<Rightarrow> io_throw (AuthError ''Challenge transaction missing ManageData operation'')
                    | Some bytes \<Rightarrow>
                       if hex_of_bytes bytes \<noteq> cr_nonce record then io_throw (AuthError ''Nonce mismatch'')
                       else if tx_signatures tx = [] then io_throw (AuthError ''Transaction has no signatures'')
                       else if \<not> sk_valid_key sdk (tx_source tx) then io_throw InvalidAccount
                       else if \<not> signatureValid sdk (tx_source tx) tx
                       then io_throw (AuthError ''No valid signature from account'')
                       else io_return (tx_source tx)))
            | _ \<Rightarrow> io_throw (AuthError ''No pending challenge for this account''))))"

section \<open>Refresh tokens\<close>

text \<open>The identifiers and the token of a new record are random.\<close>

definition issueRefreshToken :: "bool \<Rightarrow> string \<times> string \<times> string \<Rightarrow> string \<Rightarrow> RefreshTokenRecord auth" where
  "issueRefreshToken connected random address =
     io_bind (requireRedis connected) (\<lambda>_.
     io_bind (io_gets rd_clock) (\<lambda>now.
       let (tokenId, familyId, token) = random;
           record = \<lparr>rt_tokenId = tokenId, rt_familyId = familyId, rt_address = address, rt_token = token,
             rt_expiresAt = now + REFRESH_TOKEN_TTL_SECONDS\<rparr>
       in io_bind (redis_set (rtTokenKey token) (RefreshV record) REFRESH_TOKEN_TTL_SECONDS) (\<lambda>_. io_return record)))"

text \<open>A sentinel holds the family; revoking is skipped for an empty one.\<close>

definition revoke_replayed :: "string \<Rightarrow> RefreshTokenRecord auth" where
  "revoke_replayed token =
     io_bind (redis_get (rtUsedKey token)) (\<lambda>sentinel. case sentinel of
         Some (SentinelV familyId) \<Rightarrow>
           io_bind (if familyId \<noteq> '''' then redis_set (rtFamilyRevokedKey familyId) FlagV (REFRESH_TOKEN_TTL_SECONDS * 2)
                    else io_return ())
             (\<lambda>_. io_throw RefreshTokenError)
       | _ \<Rightarrow> io_throw RefreshTokenError)"

text \<open>A rotation from the consumed record on: the check of the family, the sentinel, and the
  replacement in the same family.\<close>

definition issue_replacement :: "string \<times> string \<Rightarrow> RefreshTokenRecord \<Rightarrow> RefreshTokenRecord auth" where
  "issue_replacement random record =
     io_bind (io_gets rd_clock) (\<lambda>now.
       let new = \<lparr>rt_tokenId = fst random, rt_familyId = rt_familyId record, rt_address = rt_address record,
             rt_token = snd random, rt_expiresAt = now + REFRESH_TOKEN_TTL_SECONDS\<rparr>
       in io_bind (redis_set (rtTokenKey (snd random)) (RefreshV new) REFRESH_TOKEN_TTL_SECONDS)
            (\<lambda>_. io_return new))"

definition rotate_record :: "string \<times> string \<Rightarrow> string \<Rightarrow> RefreshTokenRecord \<Rightarrow> RefreshTokenRecord auth" where
  "rotate_record random token record =
     io_bind (redis_get (rtFamilyRevokedKey (rt_familyId record))) (\<lambda>revoked.
       if revoked \<noteq> None then io_throw RefreshTokenError
       else io_bind (redis_set (rtUsedKey token) (SentinelV (rt_familyId record)) (REFRESH_TOKEN_TTL_SECONDS * 2))
              (\<lambda>_. issue_replacement random record))"

definition rotateRefreshToken :: "bool \<Rightarrow> string \<times> string \<Rightarrow> string \<Rightarrow> RefreshTokenRecord auth" where
  "rotateRefreshToken connected random token =
     io_bind (requireRedis connected) (\<lambda>_.
     io_bind (redis_getdel (rtTokenKey token)) (\<lambda>raw. case raw of
         None \<Rightarrow> revoke_replayed token
       | Some (RefreshV record) \<Rightarrow> rotate_record random token record
       | Some _ \<Rightarrow> io_throw RefreshTokenError))"

section \<open>Merchant tokens\<close>

text \<open>The run-time library: standard base64 text, its lenient reader, JSON text and its parser, and
  the base64url digest of HMAC-SHA256.\<close>

record codec =
  cd_base64 :: "string \<Rightarrow> string"
  cd_unbase64 :: "string \<Rightarrow> string"
  cd_stringify :: "json \<Rightarrow> string"
  cd_parse :: "string \<Rightarrow> json option"
  cd_hmac :: "string \<Rightarrow> string \<Rightarrow> string"

definition replace_char :: "char \<Rightarrow> char \<Rightarrow> string \<Rightarrow> string" where
  "replace_char a b s = map (\<lambda>c. if c = a then b else c) s"

definition base64url :: "codec \<Rightarrow> string \<Rightarrow> string" where
  "base64url cd s = filter (\<lambda>c. c \<noteq> CHR ''='')
     (replace_char (CHR ''/'') (CHR ''_'') (replace_char (CHR ''+'') (CHR ''-'') (cd_base64 cd s)))"

definition token_payload :: "string \<Rightarrow> int \<Rightarrow> json" where
  "token_payload address now =
     JObj [(''address'', JStr address), (''iat'', JNum now), (''exp'', JNum (now + JWT_TTL_SECONDS))]"

definition issueMerchantJwt :: "codec \<Rightarrow> int \<Rightarrow> string \<Rightarrow> string \<Rightarrow> string" where
  "issueMerchantJwt cd now address secret =
     (let header = base64url cd (cd_stringify cd (JObj [(''alg'', JStr ''HS256''), (''typ'', JStr ''JWT'')]));
          body = base64url cd (cd_stringify cd (token_payload address now));
          signingInput = header @ ''.'' @ body
      in signingInput @ ''.'' @ cd_hmac cd secret signingInput)"

text \<open>\<open>JwtTypeError\<close> is the error of reading a field of a payload that is \<^verbatim>\<open>null\<close>.\<close>

datatype jwt_error = JwtAuthError string | JwtTypeError

definition check_claims :: "int \<Rightarrow> json \<Rightarrow> jwt_error + json" where
  "check_claims now payload =
     (if payload = JNull then Inl JwtTypeError
      else (case jget (Some payload) ''exp'' of
              None \<Rightarrow> Inl (JwtAuthError ''Token expired'')
            | Some e \<Rightarrow>
                if \<not> truthy (Some e) \<or> less_than e now then Inl (JwtAuthError ''Token expired'')
                else if \<not> truthy (jget (Some payload) ''address'') then Inl (JwtAuthError ''Token missing address claim'')
                else Inr payload))"

definition verifyMerchantJwt :: "codec \<Rightarrow> int \<Rightarrow> string \<Rightarrow> string \<Rightarrow> jwt_error + json" where
  "verifyMerchantJwt cd now token secret = (case js_split (CHR ''.'') token of
      [headerB64, payloadB64, receivedSig] \<Rightarrow>
        if cd_hmac cd secret (headerB64 @ ''.'' @ payloadB64) \<noteq> receivedSig
        then Inl (JwtAuthError ''Invalid token signature'')
        else (case cd_parse cd (cd_unbase64 cd (replace_char (CHR ''_'') (CHR ''/'')
                (replace_char (CHR ''-'') (CHR ''+'') payloadB64))) of
                None \<Rightarrow> Inl (JwtAuthError ''Malformed token payload'')
              | Some payload \<Rightarrow> check_claims now payload)
    | _ \<Rightarrow> Inl (JwtAuthError ''Invalid JWT format''))"

section \<open>Operations in sequence\<close>

datatype auth_op =
    Wait nat
  | Challenge bool "nat list" string string
  | Verify bool string string
  | Issue bool "string \<times> string \<times> string" string
  | Rotate bool "string \<times> string" string

fun run_auth :: "stellar_sdk \<Rightarrow> auth_op \<times> bool list \<Rightarrow> auth_db \<Rightarrow> auth_db" where
  "run_auth sdk (Wait n, fs) d = d\<lparr>rd_clock := rd_clock d + int n\<rparr>"
| "run_auth sdk (Challenge connected bytes account pass, fs) d =
     db_after (generateChallenge sdk connected bytes account pass) fs d"
| "run_auth sdk (Verify connected xdr pass, fs) d = db_after (verifyChallenge sdk connected xdr pass) fs d"
| "run_auth sdk (Issue connected random address, fs) d = db_after (issueRefreshToken connected random address) fs d"
| "run_auth sdk (Rotate connected random token, fs) d = db_after (rotateRefreshToken connected random token) fs d"

definition auth_empty :: auth_db where "auth_empty = \<lparr>rd_store = (\<lambda>_. None), rd_clock = 0\<rparr>"

text \<open>The tokens, the families and the challenged accounts that an operation may bring into the store.\<close>

fun op_tokens :: "auth_op \<Rightarrow> string list" where
  "op_tokens (Issue _ (_, _, t) _) = [t]"
| "op_tokens (Rotate _ (_, t) _) = [t]"
| "op_tokens _ = []"

fun op_families :: "auth_op \<Rightarrow> string list" where
  "op_families (Issue _ (_, f, _) _) = [f]"
| "op_families _ = []"

fun op_accounts :: "auth_op \<Rightarrow> string list" where
  "op_accounts (Challenge _ _ a _) = [a]"
| "op_accounts _ = []"

subsection \<open>Reads after writes\<close>

named_theorems redis_simps \<open>reads of the store after commands\<close>

lemma rd_get_set [redis_simps]:
  "rd_get k (rd_set k' v ttl d) = (if k = k' then (if 0 < ttl then Some v else None) else rd_get k d)"
  by (simp add: rd_get_def rd_set_def cong: option.case_cong)

lemma rd_store_set [redis_simps]:
  "rd_store (rd_set k v ttl d) = (rd_store d)(k \<mapsto> (v, rd_clock d + ttl))" "rd_clock (rd_set k v ttl d) = rd_clock d"
  by (simp_all add: rd_set_def)

lemma rd_getdel_simps [redis_simps]:
  "fst (rd_getdel k d) = rd_get k d" "rd_store (snd (rd_getdel k d)) = (rd_store d)(k := None)"
  "rd_clock (snd (rd_getdel k d)) = rd_clock d"
  by (simp_all add: rd_getdel_def)

lemma key_simps [simp]:
  "challengeKey a = challengeKey b \<longleftrightarrow> a = b" "rtTokenKey s = rtTokenKey t \<longleftrightarrow> s = t"
  "rtUsedKey s = rtUsedKey t \<longleftrightarrow> s = t" "rtFamilyRevokedKey f = rtFamilyRevokedKey g \<longleftrightarrow> f = g"
  "challengeKey a \<noteq> rtTokenKey t" "challengeKey a \<noteq> rtUsedKey t" "challengeKey a \<noteq> rtFamilyRevokedKey t"
  "rtTokenKey t \<noteq> challengeKey a" "rtUsedKey t \<noteq> challengeKey a" "rtFamilyRevokedKey t \<noteq> challengeKey a"
  "rtTokenKey s \<noteq> rtUsedKey t" "rtTokenKey s \<noteq> rtFamilyRevokedKey t" "rtUsedKey s \<noteq> rtFamilyRevokedKey t"
  "rtUsedKey t \<noteq> rtTokenKey s" "rtFamilyRevokedKey t \<noteq> rtTokenKey s" "rtFamilyRevokedKey t \<noteq> rtUsedKey s"
  by (simp_all add: challengeKey_def rtTokenKey_def rtUsedKey_def rtFamilyRevokedKey_def)

lemma TTL_positive [simp]: "0 < REFRESH_TOKEN_TTL_SECONDS" "0 < CHALLENGE_TTL_SECONDS"
  by (simp_all add: REFRESH_TOKEN_TTL_SECONDS_def CHALLENGE_TTL_SECONDS_def)

lemma keeps_set: "(\<And>d. P d \<Longrightarrow> P (rd_set k v ttl d)) \<Longrightarrow> keeps P (redis_set k v ttl)"
  unfolding redis_set_def by (rule keeps_write)

lemma keeps_get [keeps_intros]: "keeps P (redis_get k)"
  unfolding redis_get_def by (rule keeps_read)

lemma keeps_requireRedis [keeps_intros]: "keeps P (requireRedis connected)"
  unfolding requireRedis_def by (intro keeps_intros)

lemma keeps_getdel: "(\<And>d. P d \<Longrightarrow> P (d\<lparr>rd_store := (rd_store d)(k := None)\<rparr>)) \<Longrightarrow> keeps P (redis_getdel k)"
  unfolding redis_getdel_def by (rule keeps_call) (simp add: rd_getdel_def)

lemma keeps_generateChallenge:
  assumes "\<And>d r. P d \<Longrightarrow> P (rd_set (challengeKey account) (ChallengeV r) CHALLENGE_TTL_SECONDS d)"
  shows "keeps P (generateChallenge sdk connected bytes account pass)"
  unfolding generateChallenge_def Let_def by (intro keeps_intros keeps_set assms)

lemma keeps_verifyChallenge:
  assumes "\<And>d a. P d \<Longrightarrow> P (d\<lparr>rd_store := (rd_store d)(challengeKey a := None)\<rparr>)"
  shows "keeps P (verifyChallenge sdk connected xdr pass)"
  unfolding verifyChallenge_def
  by (rule keeps_option, rule keeps_throw, intro keeps_bind keeps_requireRedis keeps_getdel assms)
     (auto intro!: keeps_intros split: option.splits auth_value.splits)

lemma keeps_issueRefreshToken:
  assumes "\<And>d r. rt_familyId r = fst (snd random) \<Longrightarrow> P d \<Longrightarrow>
    P (rd_set (rtTokenKey (snd (snd random))) (RefreshV r) REFRESH_TOKEN_TTL_SECONDS d)"
  shows "keeps P (issueRefreshToken connected random address)"
  unfolding issueRefreshToken_def Let_def
  using assms by (cases random) (auto intro!: keeps_intros keeps_set)

lemma keeps_revoke_replayed:
  assumes "\<And>d f. P d \<Longrightarrow> P (rd_set (rtFamilyRevokedKey f) FlagV (REFRESH_TOKEN_TTL_SECONDS * 2) d)"
  shows "keeps P (revoke_replayed token)"
  unfolding revoke_replayed_def
  by (intro keeps_bind keeps_get) (auto intro!: keeps_intros keeps_set assms split: option.splits auth_value.splits)

text \<open>The rule for a rotation: \<open>G\<close> is what the consumed record tells, \<open>H\<close> what is left of it when the
  family turned out not to be revoked and the sentinel is written.\<close>

lemma keeps_rotateRefreshToken:
  assumes del: "\<And>d. P d \<Longrightarrow> P (d\<lparr>rd_store := (rd_store d)(rtTokenKey token := None)\<rparr>)"
    and flag: "\<And>d f. P d \<Longrightarrow> P (rd_set (rtFamilyRevokedKey f) FlagV (REFRESH_TOKEN_TTL_SECONDS * 2) d)"
    and found: "\<And>d r. P d \<Longrightarrow> rd_get (rtTokenKey token) d = Some (RefreshV r) \<Longrightarrow>
      G r (d\<lparr>rd_store := (rd_store d)(rtTokenKey token := None)\<rparr>)"
    and G: "\<And>d r. G r d \<Longrightarrow> P d"
    and used: "\<And>d r. G r d \<Longrightarrow> rd_get (rtFamilyRevokedKey (rt_familyId r)) d = None \<Longrightarrow>
      H r (rd_set (rtUsedKey token) (SentinelV (rt_familyId r)) (REFRESH_TOKEN_TTL_SECONDS * 2) d)"
    and H: "\<And>d r. H r d \<Longrightarrow> P d"
    and new: "\<And>d r r'. H r d \<Longrightarrow> rt_familyId r' = rt_familyId r \<Longrightarrow>
      P (rd_set (rtTokenKey (snd random)) (RefreshV r') REFRESH_TOKEN_TTL_SECONDS d)"
  shows "keeps P (rotateRefreshToken connected random token)"
proof (rule ensures_keeps)
  define Q where "Q raw d = (P d \<and> (case raw of Some (RefreshV r) \<Rightarrow> G r d | _ \<Rightarrow> True))" for raw d
  have getdel: "ensures P (redis_getdel (rtTokenKey token)) Q P"
    unfolding redis_getdel_def
    by (rule ensures_call) (auto simp: Q_def rd_getdel_def del found split: option.splits auth_value.splits)
  have issue: "ensures (H r) (issue_replacement random r) (\<lambda>_. P) P" for r
    unfolding issue_replacement_def redis_set_def Let_def
    by (rule ensures_bind [OF ensures_gets [where Q = "\<lambda>_. H r"]], assumption)
       (auto intro!: ensures_bind [where Q = "\<lambda>_. P"] ensures_return ensures_write new [of r] dest: H)
  have rotate: "ensures (G r) (rotate_record random token r) (\<lambda>_. P) P" for r
    unfolding rotate_record_def
  proof (rule ensures_bind)
    show "ensures (G r) (redis_get (rtFamilyRevokedKey (rt_familyId r)))
      (\<lambda>x d. G r d \<and> x = rd_get (rtFamilyRevokedKey (rt_familyId r)) d) P"
      unfolding redis_get_def by (rule ensures_read) (auto dest: G)
    have "ensures (\<lambda>d. G r d \<and> None = rd_get (rtFamilyRevokedKey (rt_familyId r)) d)
      (redis_set (rtUsedKey token) (SentinelV (rt_familyId r)) (REFRESH_TOKEN_TTL_SECONDS * 2)) (\<lambda>_. H r) P"
      unfolding redis_set_def by (rule ensures_write) (auto dest: G intro: used)
    note sentinel = ensures_bind [OF this issue]
    show "ensures (\<lambda>d. G r d \<and> x = rd_get (rtFamilyRevokedKey (rt_familyId r)) d)
      (if x \<noteq> None then io_throw RefreshTokenError
       else io_bind (redis_set (rtUsedKey token) (SentinelV (rt_familyId r)) (REFRESH_TOKEN_TTL_SECONDS * 2))
              (\<lambda>_. issue_replacement random r)) (\<lambda>_. P) P" for x
      using sentinel by (cases x) (auto intro!: ensures_throw dest: G)
  qed
  have "ensures (Q None) (revoke_replayed token) (\<lambda>_. P) P"
    by (rule ensures_weaken [OF keeps_ensures [OF keeps_revoke_replayed [where P = P, OF flag]]]) (auto simp: Q_def)
  moreover have "ensures (Q (Some (RefreshV r))) (rotate_record random token r) (\<lambda>_. P) P" for r
    by (rule ensures_weaken [OF rotate]) (auto simp: Q_def)
  ultimately have "ensures (Q raw) (case raw of None \<Rightarrow> revoke_replayed token
       | Some (RefreshV r) \<Rightarrow> rotate_record random token r | Some _ \<Rightarrow> io_throw RefreshTokenError) (\<lambda>_. P) P" for raw
    by (auto simp: Q_def intro!: ensures_throw split: option.split auth_value.split)
  from ensures_bind [OF keeps_ensures [OF keeps_requireRedis] ensures_bind [OF getdel this]]
  show "ensures P (rotateRefreshToken connected random token) (\<lambda>_. P) P"
    unfolding rotateRefreshToken_def .
qed

text \<open>The rule for any operation, from the writes it may make.\<close>

lemma run_auth_keeps:
  assumes "P d"
    and wait: "\<And>d n. P d \<Longrightarrow> P (d\<lparr>rd_clock := rd_clock d + int n\<rparr>)"
    and challenge: "\<And>d a r. a \<in> set (op_accounts (fst op)) \<Longrightarrow> P d \<Longrightarrow>
      P (rd_set (challengeKey a) (ChallengeV r) CHALLENGE_TTL_SECONDS d)"
    and consume: "\<And>d a. P d \<Longrightarrow> P (d\<lparr>rd_store := (rd_store d)(challengeKey a := None)\<rparr>)"
    and issue: "\<And>t r. rt_familyId r \<in> set (op_families (fst op)) \<Longrightarrow> t \<in> set (op_tokens (fst op)) \<Longrightarrow>
      P (rd_set (rtTokenKey t) (RefreshV r) REFRESH_TOKEN_TTL_SECONDS d)"
    and del: "\<And>d t. P d \<Longrightarrow> P (d\<lparr>rd_store := (rd_store d)(rtTokenKey t := None)\<rparr>)"
    and flag: "\<And>d f. P d \<Longrightarrow> P (rd_set (rtFamilyRevokedKey f) FlagV (REFRESH_TOKEN_TTL_SECONDS * 2) d)"
    and found: "\<And>d r t. P d \<Longrightarrow> rd_get (rtTokenKey t) d = Some (RefreshV r) \<Longrightarrow>
      G t r (d\<lparr>rd_store := (rd_store d)(rtTokenKey t := None)\<rparr>)"
    and G: "\<And>d r t. G t r d \<Longrightarrow> P d"
    and used: "\<And>d r t. G t r d \<Longrightarrow> rd_get (rtFamilyRevokedKey (rt_familyId r)) d = None \<Longrightarrow>
      H r (rd_set (rtUsedKey t) (SentinelV (rt_familyId r)) (REFRESH_TOKEN_TTL_SECONDS * 2) d)"
    and H: "\<And>d r. H r d \<Longrightarrow> P d"
    and new: "\<And>d r r' t. H r d \<Longrightarrow> rt_familyId r' = rt_familyId r \<Longrightarrow> t \<in> set (op_tokens (fst op)) \<Longrightarrow>
      P (rd_set (rtTokenKey t) (RefreshV r') REFRESH_TOKEN_TTL_SECONDS d)"
  shows "P (run_auth sdk op d)"
proof (cases "(sdk, op, d)" rule: run_auth.cases)
  case (1 sdk n fs d)
  then show ?thesis using assms(1) wait by simp
next
  case (2 sdk connected bytes account pass fs d)
  then have "keeps P (generateChallenge sdk connected bytes account pass)"
    using challenge by (intro keeps_generateChallenge) simp
  from keepsD [OF this] show ?thesis using 2 assms(1) by simp
next
  case (3 sdk connected xdr pass fs d)
  have "keeps P (verifyChallenge sdk connected xdr pass)" by (rule keeps_verifyChallenge) (rule consume)
  from keepsD [OF this] show ?thesis using 3 assms(1) by simp
next
  case (4 sdk' connected random address fs d')
  obtain i f t where r: "random = (i, f, t)" by (cases random)
  have "ensures (\<lambda>x. x = d) (issueRefreshToken connected random address) (\<lambda>_. P) P"
    unfolding issueRefreshToken_def redis_set_def Let_def r prod.case requireRedis_def
    by (rule ensures_bind [where Q = "\<lambda>_ x. x = d"], use assms(1) in \<open>auto intro!: ensures_return ensures_throw\<close>,
        rule ensures_bind [where Q = "\<lambda>_ x. x = d"], rule ensures_gets, assumption,
        rule ensures_bind [where Q = "\<lambda>_. P"])
       (use 4 r issue assms(1) in \<open>auto intro!: ensures_write ensures_return\<close>)
  from ensures_after [OF this] show ?thesis using 4 by simp
next
  case (5 sdk connected random token fs d)
  then have t: "snd random \<in> set (op_tokens (fst op))" by (cases random) simp
  have "keeps P (rotateRefreshToken connected random token)"
    by (rule keeps_rotateRefreshToken [where G = "G token" and H = H])
       (fact del, fact flag, fact found, fact G, fact used, fact H, rule new [OF _ _ t])
  from keepsD [OF this] show ?thesis using 5 assms(1) by simp
qed

text \<open>Running a sequence of operations.\<close>

definition run_auths :: "stellar_sdk \<Rightarrow> (auth_op \<times> bool list) list \<Rightarrow> auth_db \<Rightarrow> auth_db" where
  "run_auths sdk ops d = fold (run_auth sdk) ops d"

lemma run_auths_invariant:
  assumes "P d" and "list_all ok ops" and "\<And>op d. ok op \<Longrightarrow> P d \<Longrightarrow> P (run_auth sdk op d)"
  shows "P (run_auths sdk ops d)"
  using assms unfolding run_auths_def by (induction ops arbitrary: d) auto

section \<open>Challenges are single-use\<close>

definition no_challenge :: "string \<Rightarrow> auth_db \<Rightarrow> bool" where
  "no_challenge a d \<longleftrightarrow> rd_get (challengeKey a) d = None"

lemma no_challenge_set: "k \<noteq> challengeKey a \<Longrightarrow> no_challenge a d \<Longrightarrow> no_challenge a (rd_set k v ttl d)"
  by (auto simp: no_challenge_def rd_get_set)

lemma no_challenge_delete: "no_challenge a d \<Longrightarrow> no_challenge a (d\<lparr>rd_store := (rd_store d)(k := None)\<rparr>)"
  by (auto simp: no_challenge_def rd_get_def split: option.splits)

lemma no_challenge_run:
  assumes "a \<notin> set (op_accounts (fst op))" and "no_challenge a d"
  shows "no_challenge a (run_auth sdk op d)"
proof (rule run_auth_keeps [where P = "no_challenge a" and G = "\<lambda>_ _. no_challenge a" and H = "\<lambda>_. no_challenge a"])
  show "no_challenge a (d\<lparr>rd_clock := rd_clock d + int n\<rparr>)" if "no_challenge a d" for d n
    using that by (auto simp: no_challenge_def rd_get_def split: option.splits if_splits)
  show "no_challenge a (rd_set (challengeKey b) v ttl d)"
    if "b \<in> set (op_accounts (fst op))" "no_challenge a d" for b d v ttl
    using that assms(1) by (intro no_challenge_set) auto
qed (use assms in \<open>auto simp: no_challenge_set no_challenge_delete\<close>)

text \<open>An attempt that reaches the store consumes the challenge.\<close>

lemma verify_consumes:
  assumes "sk_decode sdk xdr pass = Some tx" and "verifyChallenge sdk True xdr pass (d, fs) = (r, d', fs')"
    and "r \<noteq> Inl RedisError"
  shows "no_challenge (tx_source tx) d'"
proof -
  let ?P = "\<lambda>d. no_challenge (tx_source tx) d"
  have "fs = [] \<or> \<not> hd fs"
    using assms by (auto simp: verifyChallenge_def requireRedis_def io_bind_def io_return_def redis_getdel_def db_call_def)
  moreover have "rd_get k (snd (rd_getdel k d)) = None" for k by (simp add: rd_getdel_def rd_get_def)
  ultimately show ?thesis
    using assms
    by (auto simp: verifyChallenge_def requireRedis_def redis_getdel_def db_call_def no_challenge_def rd_getdel_def
        io_simps rd_get_def split: option.splits auth_value.splits if_splits)
qed

text \<open>C12: A challenge is good for one attempt. Once a signed transaction of an account has been
  checked against the store, successfully or not, no transaction of that account is accepted again
  until the account asks for a new challenge, whatever other requests are served in between and
  whichever of their store commands fail.\<close>

theorem challenge_single_use:
  assumes "sk_decode sdk xdr pass = Some tx" and "verifyChallenge sdk True xdr pass (d, fs) = (r, d', fs')"
    and "r \<noteq> Inl RedisError" and "list_all (\<lambda>op. tx_source tx \<notin> set (op_accounts (fst op))) ops"
    and "sk_decode sdk xdr' pass' = Some tx'" and "tx_source tx' = tx_source tx"
  shows "fst (verifyChallenge sdk True xdr' pass' (run_auths sdk ops d', [])) =
    Inl (AuthError ''No pending challenge for this account'')"
proof -
  have "no_challenge (tx_source tx) (run_auths sdk ops d')"
    by (rule run_auths_invariant [where P = "no_challenge (tx_source tx)", OF verify_consumes [OF assms(1-3)] assms(4)])
       (rule no_challenge_run)
  then show ?thesis
    using assms(5,6)
    by (simp add: verifyChallenge_def requireRedis_def redis_getdel_def io_simps rd_getdel_def no_challenge_def)
qed

text \<open>Who may sign in. A signed transaction is accepted exactly if it decodes, its source account
  has an unexpired challenge, its first challenge operation carries the bytes of that challenge's
  nonce, and one of its signatures is valid for the source account; the result is that account.\<close>

lemma verifyChallenge_exact:
  "(\<exists>d'. verifyChallenge sdk True xdr pass (d, []) = (Inr a, d', [])) \<longleftrightarrow>
   (\<exists>tx record n bytes. sk_decode sdk xdr pass = Some tx \<and> tx_source tx = a \<and> sk_valid_key sdk a \<and>
      rd_get (challengeKey a) d = Some (ChallengeV record) \<and>
      List.find is_challenge_op (tx_operations tx) = Some (ManageData n (Some bytes)) \<and>
      hex_of_bytes bytes = cr_nonce record \<and> signatureValid sdk a tx)"
proof -
  have op: "op_value op = Some bytes \<longleftrightarrow> (\<exists>n. op = ManageData n (Some bytes))" "op_value (ManageData n v) = v"
    for op bytes n v
    by (cases op) (auto simp: op_value_def)
  have sig: "signatureValid sdk a tx \<Longrightarrow> tx_signatures tx \<noteq> []" for a tx
    by (auto simp: signatureValid_def)
  show ?thesis
    by (auto simp: verifyChallenge_def requireRedis_def redis_getdel_def io_simps rd_getdel_def op sig
        split: option.splits auth_value.splits if_splits)
qed

section \<open>Refresh tokens\<close>

definition token_entry :: "auth_db \<Rightarrow> string \<Rightarrow> (auth_value \<times> int) option" where
  "token_entry d t = rd_store d (rtTokenKey t)"

lemma token_entry_set: "(\<And>t. k \<noteq> rtTokenKey t) \<Longrightarrow> token_entry (rd_set k v ttl d) = token_entry d"
  by (auto simp: token_entry_def redis_simps fun_eq_iff)

lemma token_entry_new:
  "token_entry (rd_set (rtTokenKey s) v ttl d) = (token_entry d)(s \<mapsto> (v, rd_clock d + ttl))"
  by (auto simp: token_entry_def redis_simps fun_eq_iff)

text \<open>Every stored token expires within the lifetime of a token.\<close>

definition tokens_ok :: "auth_db \<Rightarrow> bool" where
  "tokens_ok d \<longleftrightarrow> (\<forall>t v e. token_entry d t = Some (v, e) \<longrightarrow>
     e \<le> rd_clock d + REFRESH_TOKEN_TTL_SECONDS \<and> (\<exists>r. v = RefreshV r))"

text \<open>No two stored tokens belong to one family.\<close>

definition in_family :: "auth_db \<Rightarrow> string \<Rightarrow> string \<Rightarrow> bool" where
  "in_family d f t \<longleftrightarrow> (\<exists>r e. token_entry d t = Some (RefreshV r, e) \<and> rt_familyId r = f)"

definition one_per_family :: "auth_db \<Rightarrow> bool" where
  "one_per_family d \<longleftrightarrow> (\<forall>f s t. in_family d f s \<longrightarrow> in_family d f t \<longrightarrow> s = t)"

definition family_absent :: "string \<Rightarrow> auth_db \<Rightarrow> bool" where
  "family_absent f d \<longleftrightarrow> (\<forall>t. \<not> in_family d f t)"

definition refresh_ok :: "auth_db \<Rightarrow> bool" where
  "refresh_ok d \<longleftrightarrow> tokens_ok d \<and> one_per_family d"

lemma in_family_new:
  "in_family (rd_set (rtTokenKey s) (RefreshV r) ttl d) f t \<longleftrightarrow>
     (if t = s then rt_familyId r = f else in_family d f t)"
  by (simp add: in_family_def token_entry_new)

lemma in_family_delete: "in_family (d\<lparr>rd_store := (rd_store d)(k := None)\<rparr>) f t \<Longrightarrow> in_family d f t \<and> k \<noteq> rtTokenKey t"
  by (auto simp: in_family_def token_entry_def split: if_splits)

lemma refresh_ok_other:
  assumes "refresh_ok d" and "\<And>t. k \<noteq> rtTokenKey t"
  shows "refresh_ok (rd_set k v ttl d)"
  using assms(1) by (simp add: refresh_ok_def tokens_ok_def one_per_family_def in_family_def
    token_entry_set [OF assms(2)] redis_simps)

lemma refresh_ok_delete:
  assumes "refresh_ok d"
  shows "refresh_ok (d\<lparr>rd_store := (rd_store d)(k := None)\<rparr>)"
proof -
  have "tokens_ok (d\<lparr>rd_store := (rd_store d)(k := None)\<rparr>)"
    using assms by (auto simp: refresh_ok_def tokens_ok_def token_entry_def)
  moreover have "one_per_family (d\<lparr>rd_store := (rd_store d)(k := None)\<rparr>)"
    using assms in_family_delete unfolding refresh_ok_def one_per_family_def by blast
  ultimately show ?thesis by (simp add: refresh_ok_def)
qed

lemma refresh_ok_set:
  assumes "refresh_ok d" and "family_absent (rt_familyId r) d"
  shows "refresh_ok (rd_set (rtTokenKey t) (RefreshV r) REFRESH_TOKEN_TTL_SECONDS d)"
proof -
  have "tokens_ok (rd_set (rtTokenKey t) (RefreshV r) REFRESH_TOKEN_TTL_SECONDS d)"
    using assms(1) by (auto simp: refresh_ok_def tokens_ok_def token_entry_new redis_simps)
  moreover have "one_per_family (rd_set (rtTokenKey t) (RefreshV r) REFRESH_TOKEN_TTL_SECONDS d)"
    unfolding one_per_family_def in_family_new
    using assms unfolding refresh_ok_def one_per_family_def family_absent_def by metis
  ultimately show ?thesis by (simp add: refresh_ok_def)
qed

lemma family_absent_after:
  assumes "refresh_ok d" and "rd_get (rtTokenKey t) d = Some (RefreshV r)"
  shows "family_absent (rt_familyId r) (d\<lparr>rd_store := (rd_store d)(rtTokenKey t := None)\<rparr>)"
proof -
  have "in_family d (rt_familyId r) t"
    using assms(2) by (auto simp: rd_get_def in_family_def token_entry_def split: option.splits if_splits)
  then show ?thesis
    using assms(1) in_family_delete unfolding family_absent_def refresh_ok_def one_per_family_def by blast
qed

lemma family_absent_other:
  "family_absent f d \<Longrightarrow> (\<And>t. k \<noteq> rtTokenKey t) \<Longrightarrow> family_absent f (rd_set k v ttl d)"
  by (simp add: family_absent_def in_family_def token_entry_set)

text \<open>A step: an operation with any outcomes, the family of a newly issued token being new.\<close>

inductive auth_step :: "stellar_sdk \<Rightarrow> auth_db \<Rightarrow> auth_db \<Rightarrow> bool" for sdk where
  "list_all (\<lambda>f. family_absent f d) (op_families (fst op)) \<Longrightarrow> auth_step sdk d (run_auth sdk op d)"

lemma refresh_ok_run:
  assumes "list_all (\<lambda>f. family_absent f d) (op_families (fst op))" and "refresh_ok d"
  shows "refresh_ok (run_auth sdk op d)"
proof (rule run_auth_keeps [where P = refresh_ok and G = "\<lambda>_ r d. refresh_ok d \<and> family_absent (rt_familyId r) d"
      and H = "\<lambda>r d. refresh_ok d \<and> family_absent (rt_familyId r) d"])
  show "refresh_ok (d\<lparr>rd_clock := rd_clock d + int n\<rparr>)" if "refresh_ok d" for d n
    using that by (fastforce simp: refresh_ok_def tokens_ok_def one_per_family_def in_family_def token_entry_def)
  show "refresh_ok (rd_set (rtTokenKey t) (RefreshV r) REFRESH_TOKEN_TTL_SECONDS d)"
    if "rt_familyId r \<in> set (op_families (fst op))" for t r
    using that assms by (simp add: refresh_ok_set list_all_iff)
qed (use assms in \<open>auto simp: refresh_ok_other refresh_ok_delete family_absent_after family_absent_other refresh_ok_set\<close>)

interpretation refresh: inv_system "\<lambda>d. d = auth_empty" "auth_step sdk" refresh_ok for sdk
proof
  show "refresh_ok d" if "d = auth_empty" for d
    using that by (simp add: auth_empty_def refresh_ok_def tokens_ok_def one_per_family_def in_family_def token_entry_def)
  show "refresh_ok d'" if "auth_step sdk d d'" "refresh_ok d" for d d'
    using that by (cases rule: auth_step.cases) (simp add: refresh_ok_run)
qed

text \<open>The lifetime bound alone needs no freshness.\<close>

lemma tokens_ok_other: "tokens_ok d \<Longrightarrow> (\<And>t. k \<noteq> rtTokenKey t) \<Longrightarrow> tokens_ok (rd_set k v ttl d)"
  by (simp add: tokens_ok_def token_entry_set redis_simps)

lemma tokens_ok_delete: "tokens_ok d \<Longrightarrow> tokens_ok (d\<lparr>rd_store := (rd_store d)(k := None)\<rparr>)"
  by (auto simp: tokens_ok_def token_entry_def)

lemma tokens_ok_set: "tokens_ok d \<Longrightarrow> tokens_ok (rd_set (rtTokenKey t) (RefreshV r) REFRESH_TOKEN_TTL_SECONDS d)"
  by (auto simp: tokens_ok_def token_entry_new redis_simps)

lemma tokens_ok_run:
  assumes "tokens_ok d"
  shows "tokens_ok (run_auth sdk op d)"
proof (rule run_auth_keeps [where P = tokens_ok and G = "\<lambda>_ _. tokens_ok" and H = "\<lambda>_. tokens_ok"])
  show "tokens_ok (d\<lparr>rd_clock := rd_clock d + int n\<rparr>)" if "tokens_ok d" for d n
    using that by (fastforce simp: tokens_ok_def token_entry_def)
qed (use assms in \<open>auto simp: tokens_ok_other tokens_ok_delete tokens_ok_set\<close>)

text \<open>A used token: gone from the store, its sentinel in place.\<close>

definition used_token :: "string \<Rightarrow> string \<Rightarrow> int \<Rightarrow> auth_db \<Rightarrow> bool" where
  "used_token t f e d \<longleftrightarrow> token_entry d t = None \<and> rd_store d (rtUsedKey t) = Some (SentinelV f, e)"

lemma used_token_other:
  "used_token t f e d \<Longrightarrow> k \<noteq> rtTokenKey t \<Longrightarrow> k \<noteq> rtUsedKey t \<Longrightarrow> used_token t f e (rd_set k v ttl d)"
  by (auto simp: used_token_def token_entry_def redis_simps)

lemma used_token_delete:
  "used_token t f e d \<Longrightarrow> k \<noteq> rtUsedKey t \<Longrightarrow> used_token t f e (d\<lparr>rd_store := (rd_store d)(k := None)\<rparr>)"
  by (auto simp: used_token_def token_entry_def)

lemma used_token_run:
  assumes "t \<notin> set (op_tokens (fst op))" and "used_token t f e d"
  shows "used_token t f e (run_auth sdk op d)"
proof (rule run_auth_keeps [where P = "used_token t f e" and G = "\<lambda>s _ d. used_token t f e d \<and> s \<noteq> t"
      and H = "\<lambda>_. used_token t f e"])
  show "used_token t f e (d\<lparr>rd_clock := rd_clock d + int n\<rparr>)" if "used_token t f e d" for d n
    using that by (simp add: used_token_def token_entry_def)
  show "used_token t f e (d\<lparr>rd_store := (rd_store d)(rtTokenKey s := None)\<rparr>) \<and> s \<noteq> t"
    if "used_token t f e d" "rd_get (rtTokenKey s) d = Some (RefreshV r)" for d r s
    using that by (auto simp: used_token_def token_entry_def rd_get_def)
  show "used_token t f e (rd_set (rtUsedKey s) v ttl d)" if "used_token t f e d \<and> s \<noteq> t" for d s v ttl
    using that by (simp add: used_token_other)
  have other: "used_token t f e (rd_set (rtTokenKey s) v ttl d)"
    if "s \<in> set (op_tokens (fst op))" "used_token t f e d" for d s v ttl
    using that assms(1) by (intro used_token_other) auto
  show "used_token t f e (rd_set (rtTokenKey s) v ttl d)" if "s \<in> set (op_tokens (fst op))" for s v ttl
    using that assms(2) by (rule other)
  show "used_token t f e (rd_set (rtTokenKey s) v ttl d)"
    if "used_token t f e d" "s \<in> set (op_tokens (fst op))" for d s v ttl
    using that(2,1) by (rule other)
qed (use assms in \<open>auto simp: used_token_other used_token_delete\<close>)

text \<open>A family revoked at time \<open>T\<close>: the flag outlives every token of the family.\<close>

definition revoked_since :: "string \<Rightarrow> int \<Rightarrow> auth_db \<Rightarrow> bool" where
  "revoked_since f T d \<longleftrightarrow> T \<le> rd_clock d \<and>
     (\<exists>v e. rd_store d (rtFamilyRevokedKey f) = Some (v, e) \<and> T + 2 * REFRESH_TOKEN_TTL_SECONDS \<le> e) \<and>
     (\<forall>t r e. token_entry d t = Some (RefreshV r, e) \<longrightarrow> rt_familyId r = f \<longrightarrow> e \<le> T + REFRESH_TOKEN_TTL_SECONDS)"

lemma revoked_other:
  "revoked_since f T d \<Longrightarrow> (\<And>t. k \<noteq> rtTokenKey t) \<Longrightarrow> k \<noteq> rtFamilyRevokedKey f \<Longrightarrow> revoked_since f T (rd_set k v ttl d)"
  by (auto simp: revoked_since_def token_entry_set redis_simps)

lemma revoked_flag:
  assumes "revoked_since f T d"
  shows "revoked_since f T (rd_set (rtFamilyRevokedKey g) FlagV (REFRESH_TOKEN_TTL_SECONDS * 2) d)"
  using assms by (auto simp: revoked_since_def token_entry_set redis_simps)

lemma revoked_delete:
  "revoked_since f T d \<Longrightarrow> k \<noteq> rtFamilyRevokedKey f \<Longrightarrow> revoked_since f T (d\<lparr>rd_store := (rd_store d)(k := None)\<rparr>)"
  by (auto simp: revoked_since_def token_entry_def)

lemma revoked_new:
  "revoked_since f T d \<Longrightarrow> rt_familyId r \<noteq> f \<Longrightarrow> revoked_since f T (rd_set (rtTokenKey t) (RefreshV r) ttl d)"
  by (auto simp: revoked_since_def token_entry_new redis_simps)

lemma revoked_live:
  assumes "revoked_since f T d" and "rd_get (rtTokenKey t) d = Some (RefreshV r)" and "rt_familyId r = f"
  shows "rd_clock d < T + REFRESH_TOKEN_TTL_SECONDS"
  using assms by (fastforce simp: revoked_since_def rd_get_def token_entry_def split: option.splits if_splits)

lemma revoked_flag_live:
  assumes "revoked_since f T d" and "rd_clock d < T + REFRESH_TOKEN_TTL_SECONDS"
  shows "rd_get (rtFamilyRevokedKey f) d \<noteq> None"
  using assms TTL_positive(1) by (auto simp: revoked_since_def rd_get_def simp del: TTL_positive)

lemma revoked_run:
  assumes "f \<notin> set (op_families (fst op))" and "revoked_since f T d"
  shows "revoked_since f T (run_auth sdk op d)"
proof (rule run_auth_keeps [where P = "revoked_since f T"
      and G = "\<lambda>_ r d. revoked_since f T d \<and> (rt_familyId r = f \<longrightarrow> rd_clock d < T + REFRESH_TOKEN_TTL_SECONDS)"
      and H = "\<lambda>r d. revoked_since f T d \<and> rt_familyId r \<noteq> f"])
  show "revoked_since f T (d\<lparr>rd_clock := rd_clock d + int n\<rparr>)" if "revoked_since f T d" for d n
    using that by (fastforce simp: revoked_since_def token_entry_def)
  show "revoked_since f T (rd_set (rtUsedKey t) v ttl d) \<and> rt_familyId r \<noteq> f"
    if "revoked_since f T d \<and> (rt_familyId r = f \<longrightarrow> rd_clock d < T + REFRESH_TOKEN_TTL_SECONDS)"
      "rd_get (rtFamilyRevokedKey (rt_familyId r)) d = None" for d r t v ttl
    using that revoked_flag_live [of f T d] by (auto simp: revoked_other)
  show "revoked_since f T (rd_set (rtTokenKey t) (RefreshV r) ttl d)"
    if "rt_familyId r \<in> set (op_families (fst op))" for t r ttl
    using that assms by (intro revoked_new) auto
  show "revoked_since f T (d\<lparr>rd_store := (rd_store d)(rtTokenKey t := None)\<rparr>) \<and>
      (rt_familyId r = f \<longrightarrow>
        rd_clock (d\<lparr>rd_store := (rd_store d)(rtTokenKey t := None)\<rparr>) < T + REFRESH_TOKEN_TTL_SECONDS)"
    if "revoked_since f T d" "rd_get (rtTokenKey t) d = Some (RefreshV r)" for d r t
    using that revoked_live [OF that] by (simp add: revoked_delete)
qed (use assms in \<open>auto simp: revoked_other revoked_flag revoked_delete revoked_new\<close>)

text \<open>What a successful rotation leaves, what presenting a used token does, and that a revoked family
  is dead.\<close>

lemma rotate_uses:
  assumes "rotateRefreshToken True random token (d, []) = (Inr new, d', [])" and "snd random \<noteq> token"
  shows "used_token token (rt_familyId new) (rd_clock d + REFRESH_TOKEN_TTL_SECONDS * 2) d' \<and> rd_clock d' = rd_clock d"
  using assms
  by (auto simp: rotateRefreshToken_def rotate_record_def issue_replacement_def revoke_replayed_def requireRedis_def
      redis_getdel_def redis_get_def redis_set_def io_simps rd_getdel_def used_token_def token_entry_def rd_set_def Let_def
      split: option.splits auth_value.splits if_splits)

lemma replay_revokes:
  assumes "used_token token f e d" and "rd_clock d < e" and "f \<noteq> ''''" and "tokens_ok d"
  shows "\<exists>d'. rotateRefreshToken True random token (d, []) = (Inl RefreshTokenError, d', []) \<and>
    revoked_since f (rd_clock d) d' \<and> token_entry d' = token_entry d"
proof -
  let ?d = "d\<lparr>rd_store := (rd_store d)(rtTokenKey token := None)\<rparr>"
  let ?d' = "rd_set (rtFamilyRevokedKey f) FlagV (REFRESH_TOKEN_TTL_SECONDS * 2) ?d"
  have gone: "rd_get (rtTokenKey token) d = None" and sentinel: "rd_get (rtUsedKey token) ?d = Some (SentinelV f)"
    using assms(1,2) by (simp_all add: used_token_def token_entry_def rd_get_def)
  have "rotateRefreshToken True random token (d, []) = (Inl RefreshTokenError, ?d', [])"
    using gone sentinel assms(3)
    by (simp add: rotateRefreshToken_def revoke_replayed_def requireRedis_def redis_getdel_def redis_get_def
        redis_set_def io_simps rd_getdel_def)
  moreover have "tokens_ok ?d" by (rule tokens_ok_delete [OF assms(4)])
  then have "revoked_since f (rd_clock d) ?d'"
    by (auto simp: revoked_since_def token_entry_set redis_simps tokens_ok_def)
  moreover have "token_entry ?d' = token_entry d"
    using assms(1) by (auto simp: token_entry_def redis_simps used_token_def fun_eq_iff)
  ultimately show ?thesis by blast
qed

lemma revoked_family_dead:
  assumes "revoked_since f T d" and "in_family d f t"
  shows "fst (rotateRefreshToken True random t (d, [])) = Inl RefreshTokenError"
proof (cases "rd_get (rtTokenKey t) d")
  case None
  then show ?thesis
    by (auto simp: rotateRefreshToken_def revoke_replayed_def requireRedis_def redis_getdel_def redis_get_def
        redis_set_def io_simps rd_getdel_def split: option.splits auth_value.splits)
next
  case (Some v)
  then obtain r where v: "v = RefreshV r" "rt_familyId r = f"
    using assms(2) by (auto simp: in_family_def token_entry_def rd_get_def split: if_splits)
  let ?d = "d\<lparr>rd_store := (rd_store d)(rtTokenKey t := None)\<rparr>"
  have "rd_clock d < T + REFRESH_TOKEN_TTL_SECONDS" using revoked_live [OF assms(1)] Some v by simp
  then have "rd_get (rtFamilyRevokedKey f) ?d \<noteq> None"
    using revoked_flag_live [OF revoked_delete [OF assms(1)]] by simp
  then show ?thesis
    using Some v
    by (auto simp: rotateRefreshToken_def rotate_record_def requireRedis_def redis_getdel_def redis_get_def
        io_simps rd_getdel_def)
qed

text \<open>C11: Theft of a refresh token is contained. If a token that was rotated is presented again within the
  60 days that its sentinel lives, and no store command of that rotation and of that presentation fails, then
  the presentation fails and from then on no token of its family, the successors handed out in the
  meantime included, can be rotated, whatever other requests are served before and after and whichever of their
  store commands fail. (The condition is needed: the sentinel is written by a command of its own after the
  token has been taken, and a replay that comes after a failure in between, or after 60 days, revokes nothing.)\<close>

theorem replay_revokes_family:
  assumes "tokens_ok d" and "rotateRefreshToken True random token (d, []) = (Inr new, d1, [])"
    and "snd random \<noteq> token" and "rt_familyId new \<noteq> ''''"
    and "list_all (\<lambda>op. token \<notin> set (op_tokens (fst op))) before"
    and "d2 = run_auths sdk before d1" and "rd_clock d2 < rd_clock d + REFRESH_TOKEN_TTL_SECONDS * 2"
    and "rotateRefreshToken True random' token (d2, []) = (r, d3, [])"
    and "list_all (\<lambda>op. rt_familyId new \<notin> set (op_families (fst op))) after"
    and "in_family (run_auths sdk after d3) (rt_familyId new) t"
  shows "r = Inl RefreshTokenError \<and>
    fst (rotateRefreshToken True random'' t (run_auths sdk after d3, [])) = Inl RefreshTokenError"
proof -
  let ?f = "rt_familyId new" and ?e = "rd_clock d + REFRESH_TOKEN_TTL_SECONDS * 2"
  have "tokens_ok d1"
    using tokens_ok_run [OF assms(1), of sdk "(Rotate True random token, [])"] assms(2) by (simp add: db_after_def)
  then have ok: "tokens_ok d2"
    unfolding assms(6) by (rule run_auths_invariant [where ok = "\<lambda>_. True"]) (simp_all add: list_all_iff tokens_ok_run)
  have "used_token token ?f ?e d1" using rotate_uses [OF assms(2,3)] by simp
  then have "used_token token ?f ?e d2"
    unfolding assms(6)
    by (rule run_auths_invariant [where P = "used_token token ?f ?e", OF _ assms(5)]) (rule used_token_run)
  from replay_revokes [OF this assms(7,4) ok, of random'] obtain d' where
    d': "rotateRefreshToken True random' token (d2, []) = (Inl RefreshTokenError, d', [])"
      "revoked_since ?f (rd_clock d2) d'" by blast
  have "revoked_since ?f (rd_clock d2) (run_auths sdk after d')"
    by (rule run_auths_invariant [where P = "revoked_since ?f (rd_clock d2)", OF d'(2) assms(9)]) (rule revoked_run)
  then show ?thesis using revoked_family_dead assms(8,10) d'(1) by simp
qed

text \<open>C15: At any time at most one token of a family is stored, and it expires within 30 days: in every
  state reached from an empty store, by requests whose store commands may fail at any point, two
  stored tokens of the same family are the same token.\<close>

theorem one_live_token_per_family:
  assumes "reach (\<lambda>d. d = auth_empty) (auth_step sdk) d" and "in_family d f s" and "in_family d f t"
  shows "s = t \<and> (\<exists>v e. token_entry d s = Some (v, e) \<and> e \<le> rd_clock d + REFRESH_TOKEN_TTL_SECONDS)"
  using refresh.reach_invar [OF assms(1)] assms(2,3)
  unfolding refresh_ok_def one_per_family_def tokens_ok_def in_family_def by blast

subsection \<open>A sample run\<close>

definition demo_tx :: transaction where
  "demo_tx = \<lparr>tx_source = ''G'', tx_operations = [ManageData MANAGE_DATA_KEY (Some [1, 2])],
     tx_signatures = [''S''], tx_hash = ''H''\<rparr>"

definition demo_sdk :: stellar_sdk where
  "demo_sdk = \<lparr>sk_valid_key = (\<lambda>_. True), sk_challenge = (\<lambda>_ _ _ _ _ _. ''C''),
     sk_decode = (\<lambda>x _. if x = ''X'' then Some demo_tx else None), sk_verify = (\<lambda>_ _ s. Some (s = ''S''))\<rparr>"

theorem challenge_single_use_witness:
  "fst (verifyChallenge demo_sdk True ''X'' '''' (run_auths demo_sdk [(Wait 1, []), (Issue True (''i'', ''f'', ''t'') ''G'', [])]
     (db_after (verifyChallenge demo_sdk True ''X'' '''') []
       (db_after (generateChallenge demo_sdk True [1, 2] ''G'' '''') [] auth_empty)), [])) =
    Inl (AuthError ''No pending challenge for this account'')"
proof -
  let ?d = "db_after (generateChallenge demo_sdk True [1, 2] ''G'' '''') [] auth_empty"
  have decode: "sk_decode demo_sdk ''X'' '''' = Some demo_tx" by (simp add: demo_sdk_def)
  obtain r d' fs' where run: "verifyChallenge demo_sdk True ''X'' '''' (?d, []) = (r, d', fs')" by (metis prod_cases3)
  have "r \<noteq> Inl RedisError"
    using run decode
    by (auto simp: verifyChallenge_def requireRedis_def redis_getdel_def io_simps rd_getdel_def
        split: option.splits auth_value.splits if_splits)
  from challenge_single_use [OF decode run this _ decode refl, of "[(Wait 1, []), (Issue True (''i'', ''f'', ''t'') ''G'', [])]"]
  show ?thesis using run by (simp add: db_after_def)
qed

text \<open>A token is issued, rotated, and presented again.\<close>

definition demo_issued :: auth_db where
  "demo_issued = run_auth demo_sdk (Issue True (''i'', ''f'', ''t0'') ''G'', []) auth_empty"

lemma demo_issued_ok: "tokens_ok demo_issued"
  unfolding demo_issued_def by (rule tokens_ok_run) (simp add: tokens_ok_def token_entry_def auth_empty_def)

theorem replay_revokes_family_witness:
  "\<exists>new d1 r d3. rotateRefreshToken True (''j'', ''t1'') ''t0'' (demo_issued, []) = (Inr new, d1, []) \<and>
     rotateRefreshToken True (''k'', ''t2'') ''t0'' (d1, []) = (r, d3, []) \<and> r = Inl RefreshTokenError \<and>
     fst (rotateRefreshToken True (''l'', ''t3'') ''t1'' (d3, [])) = Inl RefreshTokenError"
proof -
  note defs = rotateRefreshToken_def rotate_record_def issue_replacement_def revoke_replayed_def requireRedis_def
    redis_getdel_def redis_get_def redis_set_def io_simps rd_getdel_def Let_def issueRefreshToken_def db_after_def
    rd_set_def rd_get_def demo_issued_def auth_empty_def
  obtain new d1 where d1: "rotateRefreshToken True (''j'', ''t1'') ''t0'' (demo_issued, []) = (Inr new, d1, [])"
    "rt_familyId new = ''f''" "rd_clock d1 = 0" "in_family d1 ''f'' ''t1''" "tokens_ok d1"
    using tokens_ok_run [OF demo_issued_ok, of demo_sdk "(Rotate True (''j'', ''t1'') ''t0'', [])"]
    by (simp add: defs in_family_def token_entry_def REFRESH_TOKEN_TTL_SECONDS_def)
  have early: "rd_clock d1 < rd_clock demo_issued + REFRESH_TOKEN_TTL_SECONDS * 2"
    using d1(3) by (simp add: defs)
  obtain d3 where d3: "rotateRefreshToken True (''k'', ''t2'') ''t0'' (d1, []) = (Inl RefreshTokenError, d3, [])" "in_family d3 ''f'' ''t1''"
    using replay_revokes [OF conjunct1 [OF rotate_uses [OF d1(1)]] early _ d1(5), of "(''k'', ''t2'')"] d1(2,4)
    by (auto simp: in_family_def)
  have "fst (rotateRefreshToken True (''l'', ''t3'') ''t1'' (d3, [])) = Inl RefreshTokenError"
    using replay_revokes_family [OF demo_issued_ok d1(1), of "[]" d1 demo_sdk "(''k'', ''t2'')" _ d3 "[]" "''t1''" "(''l'', ''t3'')"] d1(2) d3 early
    by (simp add: run_auths_def)
  then show ?thesis using d1(1) d3(1) by blast
qed

theorem one_live_token_per_family_witness:
  "in_family demo_issued ''f'' ''t0'' \<and>
   (\<exists>v e. token_entry demo_issued ''t0'' = Some (v, e) \<and> e \<le> rd_clock demo_issued + REFRESH_TOKEN_TTL_SECONDS)"
proof -
  have "auth_step demo_sdk auth_empty demo_issued"
    unfolding demo_issued_def
    by (rule auth_step.intros) (simp add: family_absent_def in_family_def token_entry_def auth_empty_def)
  then have r: "reach (\<lambda>d. d = auth_empty) (auth_step demo_sdk) demo_issued"
    by (rule reach_step [OF reach_init, rotated]) simp
  have "in_family demo_issued ''f'' ''t0''"
    by (simp add: demo_issued_def issueRefreshToken_def requireRedis_def redis_set_def io_simps Let_def db_after_def
        in_family_def token_entry_def rd_set_def)
  with one_live_token_per_family [OF r this this] show ?thesis by simp
qed

end
