(* ===== verification/Auth_Routes.thy ===== *)
theory Auth_Routes
  imports Auth
begin

text \<open>
  The sign-in routes, \<^verbatim>\<open>backend/src/routes/auth.ts\<close>, the guard of the merchant routes,
  \<^verbatim>\<open>backend/src/middleware/merchantAuth.ts\<close>, and what the three make together with the service. An
  exception that a route passes on is the left part of its result. Of the exceptions of the challenge
  route only the SDK's complaint about the address has a message with the word \<^verbatim>\<open>invalid\<close>.
\<close>

section \<open>Routes\<close>

datatype auth_reply =
    AuthStatus nat string
  | ChallengeReply string string int
  | TokenReply string int

definition network_passphrase :: "string option \<Rightarrow> string" where
  "network_passphrase env = (case env of Some p \<Rightarrow> p | None \<Rightarrow> ''Test SDF Network ; September 2015'')"

definition get_challenge ::
    "stellar_sdk \<Rightarrow> bool \<Rightarrow> string option \<Rightarrow> nat list \<Rightarrow> string option \<Rightarrow> auth_reply auth" where
  "get_challenge sdk connected passEnv bytes account =
     (if account = None \<or> account = Some '''' then io_return (AuthStatus 400 ''account query parameter is required'')
      else io_catch
        (io_bind (generateChallenge sdk connected bytes (js_trim (the account)) (network_passphrase passEnv))
           (\<lambda>r. io_return (ChallengeReply (cr_transactionXdr r) (network_passphrase passEnv) CHALLENGE_TTL_SECONDS)))
        (\<lambda>e. if e = InvalidAccount then io_return (AuthStatus 400 ''Invalid Stellar account address'') else io_throw e))"

definition post_token ::
    "stellar_sdk \<Rightarrow> codec \<Rightarrow> bool \<Rightarrow> string option \<Rightarrow> string option \<Rightarrow> string option \<Rightarrow> auth_reply auth" where
  "post_token sdk cd connected secretEnv passEnv transaction =
     (if secretEnv = None \<or> secretEnv = Some ''''
      then io_return (AuthStatus 503 ''Authentication not configured (JWT_SECRET missing)'')
      else if transaction = None \<or> transaction = Some '''' then io_return (AuthStatus 400 ''transaction field is required'')
      else io_catch
        (io_bind (verifyChallenge sdk connected (js_trim (the transaction)) (network_passphrase passEnv)) (\<lambda>address.
         io_bind (io_gets rd_clock) (\<lambda>now.
         io_return (TokenReply (issueMerchantJwt cd now address (the secretEnv)) JWT_TTL_SECONDS))))
        (\<lambda>e. case e of AuthError m \<Rightarrow> io_return (AuthStatus 401 m) | _ \<Rightarrow> io_throw e))"

text \<open>The guard: it answers, passes the request on with the address, or passes an error on.\<close>

datatype guard_result = Refused nat string | Passed "json option" | PassedError jwt_error

definition requireMerchant :: "codec \<Rightarrow> int \<Rightarrow> string option \<Rightarrow> string option \<Rightarrow> guard_result" where
  "requireMerchant cd now secretEnv authHeader =
     (if secretEnv = None \<or> secretEnv = Some ''''
      then Refused 503 ''Authentication not configured (JWT_SECRET missing)''
      else (case authHeader of
          None \<Rightarrow> Refused 401 ''Missing or invalid Authorization header''
        | Some h \<Rightarrow>
            if take 7 h \<noteq> ''Bearer '' then Refused 401 ''Missing or invalid Authorization header''
            else (case verifyMerchantJwt cd now (drop 7 h) (the secretEnv) of
                    Inr payload \<Rightarrow> Passed (jget (Some payload) ''address'')
                  | Inl (JwtAuthError m) \<Rightarrow> Refused 401 m
                  | Inl e \<Rightarrow> PassedError e)))"

section \<open>Tokens\<close>

text \<open>What the run-time library documents: the alphabet of base64, that the reader accepts text without
  padding, that the parser inverts the printer on the payload of a token, and that a base64url
  digest has no dot.\<close>

definition base64_char :: "char \<Rightarrow> bool" where
  "base64_char c \<longleftrightarrow> (65 \<le> (of_char c :: nat) \<and> (of_char c :: nat) \<le> 90) \<or> (97 \<le> (of_char c :: nat) \<and> (of_char c :: nat) \<le> 122) \<or>
     is_digit c \<or> c = CHR ''+'' \<or> c = CHR ''/'' \<or> c = CHR ''=''"

definition codec_ok :: "codec \<Rightarrow> bool" where
  "codec_ok cd \<longleftrightarrow> (\<forall>s. list_all base64_char (cd_base64 cd s)) \<and>
     (\<forall>s. cd_unbase64 cd (filter (\<lambda>c. c \<noteq> CHR ''='') (cd_base64 cd s)) = s) \<and>
     (\<forall>a n. cd_parse cd (cd_stringify cd (token_payload a n)) = Some (token_payload a n)) \<and>
     (\<forall>k m. CHR ''.'' \<notin> set (cd_hmac cd k m))"

lemma base64_char_not: "base64_char c \<Longrightarrow> c \<noteq> CHR ''-'' \<and> c \<noteq> CHR ''_'' \<and> c \<noteq> CHR ''.''"
  by (auto simp: base64_char_def is_digit_def)

lemma base64url_inverse:
  assumes "list_all base64_char s"
  shows "replace_char (CHR ''_'') (CHR ''/'') (replace_char (CHR ''-'') (CHR ''+'')
    (filter (\<lambda>c. c \<noteq> CHR ''='') (replace_char (CHR ''/'') (CHR ''_'') (replace_char (CHR ''+'') (CHR ''-'') s)))) =
    filter (\<lambda>c. c \<noteq> CHR ''='') s"
  using assms by (induction s) (auto simp: replace_char_def dest: base64_char_not)

lemma base64url_no_dot: "codec_ok cd \<Longrightarrow> CHR ''.'' \<notin> set (base64url cd s)"
  using base64_char_not by (auto simp: codec_ok_def base64url_def replace_char_def list_all_iff)

lemma js_split_token:
  assumes "CHR ''.'' \<notin> set h" and "CHR ''.'' \<notin> set b" and "CHR ''.'' \<notin> set g"
  shows "js_split (CHR ''.'') ((h @ ''.'' @ b) @ ''.'' @ g) = [h, b, g]"
  using assms by (simp add: js_split_append js_split_no_sep)

text \<open>The claims of an issued token are checked when it is read.\<close>

lemma check_issued:
  assumes "a \<noteq> ''''" and "0 \<le> now"
  shows "check_claims t (token_payload a now) =
    (if t \<le> now + JWT_TTL_SECONDS then Inr (token_payload a now) else Inl (JwtAuthError ''Token expired''))"
  using assms by (auto simp: check_claims_def token_payload_def jget_def truthy_def less_than_def JWT_TTL_SECONDS_def)

lemma jwt_round_trip:
  assumes "codec_ok cd"
  shows "verifyMerchantJwt cd t (issueMerchantJwt cd now a secret) secret = check_claims t (token_payload a now)"
proof -
  let ?h = "base64url cd (cd_stringify cd (JObj [(''alg'', JStr ''HS256''), (''typ'', JStr ''JWT'')]))"
  let ?b = "base64url cd (cd_stringify cd (token_payload a now))"
  let ?g = "cd_hmac cd secret (?h @ ''.'' @ ?b)"
  have "js_split (CHR ''.'') (issueMerchantJwt cd now a secret) = [?h, ?b, ?g]"
    using js_split_token [of ?h ?b ?g] base64url_no_dot [OF assms] assms
    by (simp add: issueMerchantJwt_def Let_def codec_ok_def)
  moreover have "cd_unbase64 cd (replace_char (CHR ''_'') (CHR ''/'') (replace_char (CHR ''-'') (CHR ''+'') ?b)) =
      cd_stringify cd (token_payload a now)"
    using assms base64url_inverse [of "cd_base64 cd (cd_stringify cd (token_payload a now))"]
    by (simp add: base64url_def codec_ok_def)
  ultimately show ?thesis using assms by (simp add: verifyMerchantJwt_def codec_ok_def)
qed

section \<open>Signing in\<close>

lemma get_challenge_run:
  assumes "account \<noteq> ''''" and "sk_valid_key sdk (js_trim account)"
  shows "\<exists>xdr record. get_challenge sdk True passEnv bytes (Some account) (d, []) =
      (Inr (ChallengeReply xdr (network_passphrase passEnv) CHALLENGE_TTL_SECONDS),
       rd_set (challengeKey (js_trim account)) (ChallengeV record) CHALLENGE_TTL_SECONDS d, []) \<and>
    cr_nonce record = hex_of_bytes bytes"
  using assms
  by (intro exI conjI) (simp add: get_challenge_def generateChallenge_def requireRedis_def redis_set_def io_simps Let_def, simp)

text \<open>C10: Signing in works end to end. A merchant that asks for a challenge and within five minutes
  posts a transaction of its account that carries the challenge and a valid signature gets a token,
  and the guard of the merchant routes accepts this token as that account for 24 hours and refuses it
  as expired from then on.\<close>

theorem sign_in_round_trip:
  assumes "codec_ok cd" and "account \<noteq> ''''" and "js_trim account \<noteq> ''''" and "sk_valid_key sdk (js_trim account)"
    and "get_challenge sdk True passEnv bytes (Some account) (d, []) = (Inr reply, d1, [])"
    and "int n < CHALLENGE_TTL_SECONDS" and "d2 = run_auth sdk (Wait n, []) d1" and "0 \<le> rd_clock d"
    and "signed \<noteq> ''''" and "sk_decode sdk (js_trim signed) (network_passphrase passEnv) = Some tx"
    and "tx_source tx = js_trim account"
    and "List.find is_challenge_op (tx_operations tx) = Some (ManageData nm (Some bytes))"
    and "signatureValid sdk (js_trim account) tx" and "secret \<noteq> ''''"
  shows "\<exists>token d3. post_token sdk cd True (Some secret) passEnv (Some signed) (d2, []) =
      (Inr (TokenReply token JWT_TTL_SECONDS), d3, []) \<and>
    requireMerchant cd t (Some secret) (Some (''Bearer '' @ token)) =
      (if t \<le> rd_clock d2 + JWT_TTL_SECONDS then Passed (Some (JStr (js_trim account)))
       else Refused 401 ''Token expired'')"
proof -
  let ?a = "js_trim account"
  obtain xdr rec where "get_challenge sdk True passEnv bytes (Some account) (d, []) =
      (Inr (ChallengeReply xdr (network_passphrase passEnv) CHALLENGE_TTL_SECONDS),
       rd_set (challengeKey ?a) (ChallengeV rec) CHALLENGE_TTL_SECONDS d, [])"
    and nonce: "cr_nonce rec = hex_of_bytes bytes"
    using get_challenge_run [OF assms(2,4)] by blast
  then have d1: "d1 = rd_set (challengeKey ?a) (ChallengeV rec) CHALLENGE_TTL_SECONDS d" using assms(5) by simp
  have "rd_get (challengeKey ?a) d2 = Some (ChallengeV rec)" and now: "0 \<le> rd_clock d2"
    using assms(6,8) by (simp_all add: assms(7) d1 rd_get_def rd_set_def)
  then have "\<exists>d3. verifyChallenge sdk True (js_trim signed) (network_passphrase passEnv) (d2, []) = (Inr ?a, d3, [])"
    using assms(4,10-13) nonce unfolding verifyChallenge_exact by auto
  then obtain d3 where d3: "verifyChallenge sdk True (js_trim signed) (network_passphrase passEnv) (d2, []) = (Inr ?a, d3, [])"
    by blast
  have clock: "rd_clock d3 = rd_clock d2"
    using d3 assms(10)
    by (auto simp: verifyChallenge_def requireRedis_def redis_getdel_def io_simps rd_getdel_def
        split: option.splits auth_value.splits if_splits)
  have address: "jget (Some (token_payload ?a (rd_clock d2))) ''address'' = Some (JStr ?a)"
    by (simp add: token_payload_def jget_def)
  have "post_token sdk cd True (Some secret) passEnv (Some signed) (d2, []) =
      (Inr (TokenReply (issueMerchantJwt cd (rd_clock d2) ?a secret) JWT_TTL_SECONDS), d3, [])"
    using d3 clock assms(9,14) by (simp add: post_token_def io_simps)
  moreover have "requireMerchant cd t (Some secret) (Some (''Bearer '' @ issueMerchantJwt cd (rd_clock d2) ?a secret)) =
      (if t \<le> rd_clock d2 + JWT_TTL_SECONDS then Passed (Some (JStr ?a)) else Refused 401 ''Token expired'')"
    using assms(14) address
    by (simp add: requireMerchant_def jwt_round_trip [OF assms(1)] check_issued [OF assms(3) now])
  ultimately show ?thesis by blast
qed

subsection \<open>A sample codec\<close>

text \<open>Hexadecimal text in capital letters stands for base64, the two varying fields of a payload for
  its JSON text.\<close>

definition demo_encode :: "string \<Rightarrow> string" where
  "demo_encode s = concat (map (\<lambda>c. [char_of (65 + (of_char c :: nat) div 16), char_of (65 + (of_char c :: nat) mod 16)]) s)"

fun demo_decode :: "string \<Rightarrow> string" where
  "demo_decode (a # b # cs) = char_of (((of_char a :: nat) - 65) * 16 + ((of_char b :: nat) - 65)) # demo_decode cs"
| "demo_decode _ = []"

definition demo_stringify :: "json \<Rightarrow> string" where
  "demo_stringify j = (case j of
      JObj [(_, JStr a), (_, JNum n), _] \<Rightarrow> int_str n @ '';'' @ a | _ \<Rightarrow> '''')"

definition demo_parse :: "string \<Rightarrow> json option" where
  "demo_parse s = map_option (token_payload (tl (dropWhile (\<lambda>c. c \<noteq> CHR '';'') s))) (big_int (takeWhile (\<lambda>c. c \<noteq> CHR '';'') s))"

definition demo_codec :: codec where
  "demo_codec = \<lparr>cd_base64 = demo_encode, cd_unbase64 = demo_decode, cd_stringify = demo_stringify,
     cd_parse = demo_parse, cd_hmac = (\<lambda>k m. filter (\<lambda>c. c \<noteq> CHR ''.'') (k @ m))\<rparr>"

lemma demo_letters:
  fixes n :: nat
  assumes "n < 16"
  shows "(of_char (char_of (65 + n) :: char) :: nat) = 65 + n"
  using assms by simp

lemma of_char_less: "(of_char c :: nat) < 256"
  by (metis of_char_mod_256 mod_less_divisor zero_less_numeral)

lemma demo_encode_Cons:
  "demo_encode (c # s) = char_of (65 + (of_char c :: nat) div 16) # char_of (65 + (of_char c :: nat) mod 16) # demo_encode s"
  by (simp add: demo_encode_def)

lemma demo_encode_ok: "list_all base64_char (demo_encode s) \<and> CHR ''='' \<notin> set (demo_encode s) \<and> demo_decode (demo_encode s) = s"
proof (induction s)
  case Nil
  show ?case by (simp add: demo_encode_def)
next
  case (Cons c s)
  let ?n = "of_char c :: nat"
  have n: "?n div 16 < 16" "?n mod 16 < 16" using of_char_less [of c] by (auto intro: less_mult_imp_div_less)
  have letter: "base64_char (char_of (65 + m)) \<and> CHR ''='' \<noteq> char_of (65 + m)" if "m < 16" for m :: nat
  proof -
    have "(of_char (CHR ''='') :: nat) = 61" by simp
    moreover have "(of_char (char_of (65 + m) :: char) :: nat) \<noteq> 61" using demo_letters [OF that] by arith
    ultimately have "CHR ''='' \<noteq> char_of (65 + m)" by metis
    then show ?thesis using demo_letters [OF that] that by (auto simp: base64_char_def)
  qed
  have "char_of (((65 + ?n div 16) - 65) * 16 + ((65 + ?n mod 16) - 65)) = c" by simp
  then show ?case
    using Cons letter [OF n(1)] letter [OF n(2)] demo_letters [OF n(1)] demo_letters [OF n(2)]
    by (simp add: demo_encode_Cons)
qed

lemma int_str_no_semicolon: "\<forall>c\<in>set (int_str i). c \<noteq> CHR '';''"
  by (auto simp: int_str_def is_digit_def split: if_splits dest!: digit_of_nat_str)

lemma demo_codec_ok: "codec_ok demo_codec"
proof -
  have "filter (\<lambda>c. c \<noteq> CHR ''='') (demo_encode s) = demo_encode s" for s
    using demo_encode_ok [of s] by (intro filter_True) auto
  moreover have "demo_parse (demo_stringify (token_payload a n)) = Some (token_payload a n)" for a n
    using int_str_no_semicolon [of n]
    by (simp add: token_payload_def [of a n] demo_stringify_def demo_parse_def takeWhile_tail dropWhile_append)
  ultimately show ?thesis
    using demo_encode_ok by (simp add: codec_ok_def demo_codec_def)
qed

theorem sign_in_round_trip_witness:
  "\<exists>token d3. post_token demo_sdk demo_codec True (Some ''k'') None (Some ''X'')
      (run_auth demo_sdk (Wait 60, []) (db_after (get_challenge demo_sdk True None [1, 2] (Some ''G'')) [] auth_empty), []) =
      (Inr (TokenReply token JWT_TTL_SECONDS), d3, []) \<and>
    requireMerchant demo_codec 100 (Some ''k'') (Some (''Bearer '' @ token)) = Passed (Some (JStr ''G''))"
proof -
  have trim: "js_trim ''G'' = ''G''" "js_trim ''X'' = ''X''" by (simp_all add: js_trim_def is_space_def)
  obtain reply d1 where d1: "get_challenge demo_sdk True None [1, 2] (Some ''G'') (auth_empty, []) = (Inr reply, d1, [])"
      "rd_clock d1 = 0"
    using get_challenge_run [of "''G''" demo_sdk None "[1, 2]" auth_empty]
    by (fastforce simp: trim demo_sdk_def rd_set_def auth_empty_def)
  have "int 60 < CHALLENGE_TTL_SECONDS" "0 \<le> rd_clock auth_empty"
    "sk_decode demo_sdk (js_trim ''X'') (network_passphrase None) = Some demo_tx"
    "List.find is_challenge_op (tx_operations demo_tx) = Some (ManageData MANAGE_DATA_KEY (Some [1, 2]))"
    "signatureValid demo_sdk (js_trim ''G'') demo_tx" "tx_source demo_tx = js_trim ''G''"
    "sk_valid_key demo_sdk (js_trim ''G'')"
    by (simp_all add: CHALLENGE_TTL_SECONDS_def auth_empty_def trim demo_sdk_def demo_tx_def is_challenge_op_def signatureValid_def)
  from sign_in_round_trip [OF demo_codec_ok _ _ this(7) d1(1) this(1) refl this(2) _ this(3) this(6) this(4,5), of "''k''" 100]
  have "\<exists>token d3. post_token demo_sdk demo_codec True (Some ''k'') None (Some ''X'') (run_auth demo_sdk (Wait 60, []) d1, []) =
      (Inr (TokenReply token JWT_TTL_SECONDS), d3, []) \<and>
    requireMerchant demo_codec 100 (Some ''k'') (Some (''Bearer '' @ token)) = Passed (Some (JStr ''G''))"
    by (simp add: trim d1(2) JWT_TTL_SECONDS_def)
  then show ?thesis using d1(1) by (simp add: db_after_def)
qed

end
