(* ===== verification/Token_Amounts.thy ===== *)
theory Token_Amounts
  imports Prelude
begin

text \<open>
  Token amounts in the front end, \<^verbatim>\<open>frontend/src/lib/token_decimals.ts\<close>: the registry of decimal places,
  printing and reading of amounts in the smallest unit, and rescaling. Amounts are unbounded integers;
  \<^verbatim>\<open>/\<close> and \<^verbatim>\<open>%\<close> of JavaScript integers truncate towards zero. The two regular expressions are written
  out as tests on the text. The cache of powers of ten is not a state of the model.
\<close>

section \<open>The registry\<close>

type_synonym registry = "(string \<times> int) list"

definition TOKEN_DECIMALS :: registry where
  "TOKEN_DECIMALS = [(''native'', 7), (''XLM'', 7), (''USDC'', 6), (''EURC'', 6), (''BTC'', 7), (''ETH'', 7)]"

definition getTokenDecimals :: "registry \<Rightarrow> string \<Rightarrow> int" where
  "getTokenDecimals reg symbol = (case map_of reg (js_upper symbol) of Some n \<Rightarrow> n | None \<Rightarrow> 7)"

definition registerToken :: "string \<Rightarrow> int \<Rightarrow> registry \<Rightarrow> string + registry" where
  "registerToken symbol decimals reg =
     (if decimals < 0 \<or> decimals > 19
      then Inl (''Invalid decimals: '' @ int_str decimals @ ''. Must be between 0 and 19.'')
      else Inr (AList.update (js_upper symbol) decimals reg))"

section \<open>Printing\<close>

definition js_quot :: "int \<Rightarrow> int \<Rightarrow> int" where
  "js_quot a b = (if (a < 0) = (b < 0) then \<bar>a\<bar> div \<bar>b\<bar> else - (\<bar>a\<bar> div \<bar>b\<bar>))"

definition js_rem :: "int \<Rightarrow> int \<Rightarrow> int" where "js_rem a b = a - b * js_quot a b"

definition padStart :: "string \<Rightarrow> nat \<Rightarrow> string" where
  "padStart s n = replicate (n - length s) (CHR ''0'') @ s"

definition padEnd :: "string \<Rightarrow> nat \<Rightarrow> string" where
  "padEnd s n = s @ replicate (n - length s) (CHR ''0'')"

definition getDecimalMultiplier :: "int \<Rightarrow> int" where
  "getDecimalMultiplier decimals = 10 ^ nat decimals"

text \<open>\<^verbatim>\<open>s.replace(/\.?0+$/, "")\<close>: the zeros at the end, and the dot before them if they follow one.\<close>

definition trim_zeros :: "string \<Rightarrow> string" where
  "trim_zeros s = (case rev s of
      [] \<Rightarrow> s
    | c # _ \<Rightarrow>
        if c \<noteq> CHR ''0'' then s
        else (case dropWhile (\<lambda>c. c = CHR ''0'') (rev s) of
                [] \<Rightarrow> []
              | x # r \<Rightarrow> if x = CHR ''.'' then rev r else rev (x # r)))"

definition formatTokenAmount :: "int \<Rightarrow> int \<Rightarrow> bool \<Rightarrow> string + string" where
  "formatTokenAmount amount decimals trimTrailing =
     (if decimals < 0 then Inl (''Invalid decimals: '' @ int_str decimals)
      else if decimals = 0 then Inr (int_str amount)
      else (let multiplier = getDecimalMultiplier decimals;
                whole = js_quot amount multiplier;
                frac = js_rem amount multiplier;
                fracStr = padStart (int_str frac) (nat decimals);
                result = int_str whole @ ''.'' @ fracStr
            in Inr (if trimTrailing then trim_zeros result else result)))"

definition formatTokenWithSymbol :: "int \<Rightarrow> int \<Rightarrow> string option \<Rightarrow> string + string" where
  "formatTokenWithSymbol amount decimals symbol = (case formatTokenAmount amount decimals True of
      Inl e \<Rightarrow> Inl e
    | Inr formatted \<Rightarrow> Inr (if symbol = None \<or> symbol = Some '''' then formatted else formatted @ '' '' @ the symbol))"

section \<open>Reading\<close>

text \<open>\<^verbatim>\<open>/^[0-9]*\.?[0-9]*$/\<close> and \<^verbatim>\<open>/^[0-9]*\.?[0-9]+$/\<close>.\<close>

definition amount_shape :: "string \<Rightarrow> bool" where
  "amount_shape s = (case dropWhile is_digit s of [] \<Rightarrow> True | c # r \<Rightarrow> c = CHR ''.'' \<and> list_all is_digit r)"

definition positive_shape :: "string \<Rightarrow> bool" where
  "positive_shape s = (case dropWhile is_digit s of [] \<Rightarrow> s \<noteq> [] | c # r \<Rightarrow> c = CHR ''.'' \<and> r \<noteq> [] \<and> list_all is_digit r)"

definition parseTokenAmount :: "string \<Rightarrow> int \<Rightarrow> int option" where
  "parseTokenAmount amountStr decimals =
     (let trimmed = js_trim amountStr in
      if trimmed = '''' \<or> \<not> amount_shape trimmed then None
      else (let parts = js_split (CHR ''.'') trimmed;
                wholeStr = hd parts;
                fracStr = (case tl parts of [] \<Rightarrow> ''0'' | f # _ \<Rightarrow> f)
            in if int (length fracStr) > decimals then None
               else (case (big_int (if wholeStr = '''' then ''0'' else wholeStr), big_int (padEnd fracStr (nat decimals))) of
                       (Some whole, Some frac) \<Rightarrow> Some (whole * getDecimalMultiplier decimals + frac)
                     | _ \<Rightarrow> None)))"

definition parseTokenAmountOrDefault :: "string \<Rightarrow> int \<Rightarrow> int \<Rightarrow> int" where
  "parseTokenAmountOrDefault amountStr decimals defaultValue =
     (case parseTokenAmount amountStr decimals of Some v \<Rightarrow> v | None \<Rightarrow> defaultValue)"

definition validateAmountString :: "string \<Rightarrow> string option" where
  "validateAmountString amountStr = (let trimmed = js_trim amountStr in
     if trimmed = '''' then Some ''Amount is required''
     else if \<not> positive_shape trimmed then Some ''Amount must be a positive number''
     else if take 1 trimmed = ''0'' \<and> length trimmed > 1 \<and> take 2 trimmed \<noteq> ''0.''
     then Some ''Amount should not have leading zeros''
     else None)"

section \<open>Comparison and scale\<close>

definition isAmountWithinLimit :: "int \<Rightarrow> int \<Rightarrow> bool" where
  "isAmountWithinLimit amount maxAmount = (amount \<le> maxAmount)"

definition calculateShortfall :: "int \<Rightarrow> int \<Rightarrow> int" where
  "calculateShortfall required available = (if required > available then required - available else 0)"

definition roundToDecimals :: "int \<Rightarrow> int \<Rightarrow> int \<Rightarrow> int" where
  "roundToDecimals amount decimals newDecimals =
     (if newDecimals > decimals then amount * 10 ^ nat (newDecimals - decimals)
      else if newDecimals < decimals then js_quot amount (10 ^ nat (decimals - newDecimals))
      else amount)"

definition convertDecimals :: "int \<Rightarrow> int \<Rightarrow> int \<Rightarrow> int" where
  "convertDecimals amount fromDecimals toDecimals =
     (if fromDecimals = toDecimals then amount
      else if fromDecimals > toDecimals then js_quot amount (10 ^ nat (fromDecimals - toDecimals))
      else amount * 10 ^ nat (toDecimals - fromDecimals))"

section \<open>Digits\<close>

lemma digits_val_append: "digits_val (xs @ ys) = digits_val xs * 10 ^ length ys + digits_val ys"
  by (induction ys rule: rev_induct) (simp_all add: digits_val_def algebra_simps)

lemma digits_val_zeros [simp]: "digits_val (replicate n (CHR ''0'')) = 0"
  by (induction n) (simp_all add: digits_val_def replicate_append_same [symmetric] digit_val_def)

lemma is_digit_zero [simp]: "is_digit (CHR ''0'')" "\<not> is_digit (CHR ''.'')"
  by (simp_all add: is_digit_def)

lemma length_nat_str: "0 < d \<Longrightarrow> n < 10 ^ d \<Longrightarrow> length (nat_str n) \<le> d"
proof (induction d arbitrary: n)
  case (Suc d)
  show ?case
  proof (cases "n < 10")
    case False
    then have "0 < d" using Suc.prems by (cases d) auto
    moreover have "n div 10 < 10 ^ d" using Suc.prems by (simp add: less_mult_imp_div_less mult.commute)
    ultimately show ?thesis using Suc.IH [of "n div 10"] False by (simp add: nat_str.simps [of n])
  qed (simp add: nat_str.simps [of n])
qed simp

text \<open>\<^verbatim>\<open>BigInt\<close> of a text of digits.\<close>

lemma big_int_digits:
  assumes "list_all is_digit s"
  shows "big_int s = Some (int (digits_val s))"
proof -
  have hex: "hex_digit c = Some (digit_val c) \<and> digit_val c < 10" if "is_digit c" for c
    using that by (auto simp: is_digit_def hex_digit_def digit_val_def Let_def)
  have radix: "radix_val 10 a s = Some (foldl (\<lambda>a c. 10 * a + digit_val c) a s)" if "list_all is_digit s" for a s
    using that hex by (induction s arbitrary: a) auto
  have trim: "js_trim s = s"
    using assms digit_not_special by (intro js_trim_id) (auto simp: list_all_iff)
  show ?thesis
  proof (cases s)
    case Nil
    then show ?thesis by (simp add: big_int_def js_trim_def digits_val_def)
  next
    case (Cons c cs)
    have "radix_prefix s = None"
      using assms unfolding radix_prefix_def by (auto simp: is_digit_def split: list.splits)
    moreover have "c \<noteq> CHR ''-''" "c \<noteq> CHR ''+''" using assms Cons digit_not_special by auto
    ultimately show ?thesis
      using Cons trim radix [OF assms, of 0] by (simp add: big_int_def decimal_val_def digits_val_def)
  qed
qed

lemma digits_nat_str: "list_all is_digit (nat_str n)"
  using nat_str_digits by (simp add: list_all_iff)

text \<open>Splitting a text of digits with at most one dot.\<close>

lemma amount_shape_digits: "list_all is_digit w \<Longrightarrow> amount_shape w"
  by (simp add: amount_shape_def list_all_iff dropWhile_eq_Nil_conv [THEN iffD2])

lemma amount_shape_dot: "list_all is_digit w \<Longrightarrow> list_all is_digit f \<Longrightarrow> amount_shape (w @ ''.'' @ f)"
  by (auto simp: amount_shape_def list_all_iff dropWhile_append)

lemma dot_not_digit: "list_all is_digit w \<Longrightarrow> CHR ''.'' \<notin> set w"
  by (auto simp: list_all_iff)

lemma amount_no_space: "list_all is_digit w \<Longrightarrow> list_all is_digit f \<Longrightarrow> js_trim (w @ ''.'' @ f) = w @ ''.'' @ f"
  using digit_not_special by (intro js_trim_id) (auto simp: list_all_iff is_space_def)

lemma digits_no_space: "list_all is_digit w \<Longrightarrow> js_trim w = w"
  using digit_not_special by (intro js_trim_id) (auto simp: list_all_iff)

text \<open>What reading returns on a whole number and on one with a fraction.\<close>

lemma parse_whole:
  assumes "list_all is_digit w" and "w \<noteq> ''''" and "0 < decimals"
  shows "parseTokenAmount w decimals = Some (int (digits_val w) * 10 ^ nat decimals)"
proof -
  have pad: "padEnd ''0'' (nat decimals) = replicate (Suc (nat decimals - 1)) (CHR ''0'')"
    by (simp add: padEnd_def)
  have z: "list_all is_digit (padEnd ''0'' (nat decimals))" "digits_val (padEnd ''0'' (nat decimals)) = 0"
    unfolding pad by (simp add: list_all_iff, rule digits_val_zeros)
  show ?thesis
    using assms z big_int_digits [OF assms(1)] big_int_digits [OF z(1)]
    by (simp add: parseTokenAmount_def digits_no_space amount_shape_digits js_split_no_sep dot_not_digit getDecimalMultiplier_def)
qed

lemma parse_fraction:
  assumes "list_all is_digit w" and "list_all is_digit f" and "int (length f) \<le> decimals" and "0 < decimals"
  shows "parseTokenAmount (w @ ''.'' @ f) decimals =
    Some (int (digits_val w) * 10 ^ nat decimals + int (digits_val f * 10 ^ (nat decimals - length f)))"
proof -
  let ?z = "padEnd f (nat decimals)"
  have z: "list_all is_digit ?z" "digits_val ?z = digits_val f * 10 ^ (nat decimals - length f)"
    using assms(2) by (auto simp: padEnd_def list_all_iff digits_val_append)
  have w: "big_int (if w = '''' then ''0'' else w) = Some (int (digits_val w))"
    using big_int_digits [OF assms(1)] big_int_digits [of "''0''"] by (auto simp: digits_val_def digit_val_def)
  have parts: "js_split (CHR ''.'') (w @ ''.'' @ f) = [w, f]"
    using assms(1,2) by (simp add: js_split_append js_split_no_sep dot_not_digit)
  show ?thesis
    using assms(3) w big_int_digits [OF z(1)] z(2) parts amount_no_space [OF assms(1,2)] amount_shape_dot [OF assms(1,2)]
    by (cases "w = []") (simp_all add: parseTokenAmount_def Let_def getDecimalMultiplier_def)
qed

text \<open>Printing, with and without the zeros at the end.\<close>

lemma format_parts:
  assumes "0 \<le> amount" and "0 < decimals"
  obtains w f where "formatTokenAmount amount decimals trim = Inr (if trim then trim_zeros (w @ ''.'' @ f) else w @ ''.'' @ f)"
    and "list_all is_digit w" and "w \<noteq> ''''" and "list_all is_digit f" and "length f = nat decimals"
    and "amount = int (digits_val w) * 10 ^ nat decimals + int (digits_val f)"
proof -
  define m :: int where "m = 10 ^ nat decimals"
  have m: "0 < m" by (simp add: m_def)
  have q: "js_quot amount m = amount div m" "js_rem amount m = amount mod m"
    using assms(1) m by (simp_all add: js_quot_def js_rem_def minus_mult_div_eq_mod)
  define w where "w = nat_str (nat (amount div m))"
  define f where "f = padStart (nat_str (nat (amount mod m))) (nat decimals)"
  have nn: "0 \<le> amount div m" "0 \<le> amount mod m" "amount mod m < m"
    using assms(1) m by (simp_all add: pos_imp_zdiv_nonneg_iff)
  then have "nat (amount mod m) < 10 ^ nat decimals"
    by (metis m_def nat_less_iff of_nat_numeral of_nat_power)
  then have len: "length (nat_str (nat (amount mod m))) \<le> nat decimals"
    using assms(2) by (intro length_nat_str) auto
  have f: "list_all is_digit f" "length f = nat decimals" "digits_val f = nat (amount mod m)"
    using len digits_nat_str by (auto simp: f_def padStart_def list_all_iff digits_val_append)
  have F: "formatTokenAmount amount decimals trim = Inr (if trim then trim_zeros (w @ ''.'' @ f) else w @ ''.'' @ f)"
    using assms(2) nn by (simp add: formatTokenAmount_def getDecimalMultiplier_def m_def [symmetric] q Let_def int_str_def w_def f_def)
  have w: "list_all is_digit w" "w \<noteq> ''''" unfolding w_def by (rule digits_nat_str, rule nat_str_nonempty)
  have "amount = int (digits_val w) * 10 ^ nat decimals + int (digits_val f)"
    using nn f(3) by (simp add: w_def m_def [symmetric])
  from that [OF F w f(1,2) this] show thesis .
qed

lemma trim_zeros_fraction:
  assumes "list_all is_digit f"
  shows "\<exists>g n. f = g @ replicate n (CHR ''0'') \<and> trim_zeros (w @ ''.'' @ f) = (if g = [] \<and> n > 0 then w else w @ ''.'' @ g)"
proof -
  define z where "z = takeWhile (\<lambda>c. c = CHR ''0'') (rev f)"
  define h where "h = dropWhile (\<lambda>c. c = CHR ''0'') (rev f)"
  have zr: "z = replicate (length z) (CHR ''0'')"
    by (rule replicate_length_same [symmetric]) (auto simp: z_def dest: set_takeWhileD)
  have "rev f = z @ h" by (simp add: z_def h_def)
  then have f: "f = rev h @ replicate (length z) (CHR ''0'')" by (metis rev_append rev_replicate rev_rev_ident zr)
  have h: "h = [] \<or> hd h \<noteq> CHR ''0''" by (metis (full_types) h_def hd_dropWhile)
  have rev: "rev (w @ ''.'' @ f) = z @ h @ CHR ''.'' # rev w" using \<open>rev f = z @ h\<close> by simp
  have drop: "dropWhile (\<lambda>c. c = CHR ''0'') (z @ h @ CHR ''.'' # rev w) = h @ CHR ''.'' # rev w"
    using h zr by (cases h) (auto simp: z_def dropWhile_append dest: set_takeWhileD)
  have "trim_zeros (w @ ''.'' @ f) = (if rev h = [] \<and> length z > 0 then w else w @ ''.'' @ rev h)"
  proof (cases "z = []")
    case True
    then have "trim_zeros (w @ ''.'' @ f) = w @ ''.'' @ f"
      using h unfolding trim_zeros_def rev by (cases h) auto
    then show ?thesis using True f by simp
  next
    case False
    then obtain c zs where c: "z = CHR ''0'' # zs" using zr by (metis length_0_conv not0_implies_Suc replicate_Suc)
    have dot: "x \<noteq> CHR ''.''" if "x \<in> set h" for x
    proof -
      have "x \<in> set f" using that f by (metis Un_iff set_append set_rev)
      then show ?thesis using assms is_digit_zero(2) by (metis list_all_iff)
    qed
    show ?thesis
      unfolding trim_zeros_def rev using drop dot c by (cases h) auto
  qed
  then show ?thesis using f by blast
qed

text \<open>C20: What is printed is read back. For every amount that is not negative and every token with
  decimal places, reading the printed text gives the amount again, whether or not the zeros at the end
  were removed.\<close>

theorem amount_round_trip:
  assumes "0 \<le> amount" and "0 < decimals"
  shows "\<exists>s. formatTokenAmount amount decimals trim = Inr s \<and> parseTokenAmount s decimals = Some amount"
proof -
  obtain w f where F: "formatTokenAmount amount decimals trim = Inr (if trim then trim_zeros (w @ ''.'' @ f) else w @ ''.'' @ f)"
    and w: "list_all is_digit w" "w \<noteq> ''''" and f: "list_all is_digit f" "length f = nat decimals"
    and a: "amount = int (digits_val w) * 10 ^ nat decimals + int (digits_val f)"
    using format_parts [OF assms] .
  have full: "parseTokenAmount (w @ ''.'' @ f) decimals = Some amount"
    using parse_fraction [OF w(1) f(1) _ assms(2)] f(2) assms(2) a by simp
  obtain g n where g: "f = g @ replicate n (CHR ''0'')"
    "trim_zeros (w @ ''.'' @ f) = (if g = [] \<and> n > 0 then w else w @ ''.'' @ g)"
    using trim_zeros_fraction [OF f(1)] by blast
  have "parseTokenAmount (trim_zeros (w @ ''.'' @ f)) decimals = Some amount"
  proof (cases "g = [] \<and> n > 0")
    case True
    then show ?thesis using parse_whole [OF w assms(2)] a g by simp
  next
    case False
    have "list_all is_digit g" using f(1) g(1) by simp
    moreover have "nat decimals - length g = n" "int (length g) \<le> decimals" using f(2) g(1) assms(2) by auto
    ultimately have "parseTokenAmount (w @ ''.'' @ g) decimals = Some amount"
      using parse_fraction [OF w(1) _ _ assms(2)] a g(1) by (simp add: digits_val_append)
    then show ?thesis unfolding g(2) if_not_P [OF False] .
  qed
  with F full show ?thesis by (cases trim) auto
qed

theorem amount_round_trip_witness:
  "\<exists>s. formatTokenAmount 1005000000 7 True = Inr s \<and> parseTokenAmount s 7 = Some 1005000000"
  by (rule amount_round_trip) simp_all

text \<open>Whole amounts of tokens without decimal places are rejected: no text of digits can be read
  with zero decimal places, although printing produces exactly such texts.\<close>

theorem zero_decimals_unreadable:
  assumes "0 \<le> amount"
  shows "\<exists>s. formatTokenAmount amount 0 trim = Inr s \<and> parseTokenAmount s 0 = None"
proof -
  have "list_all is_digit (nat_str (nat amount))" by (rule digits_nat_str)
  then have "parseTokenAmount (nat_str (nat amount)) 0 = None"
    by (simp add: parseTokenAmount_def digits_no_space amount_shape_digits js_split_no_sep dot_not_digit)
  then show ?thesis using assms by (simp add: formatTokenAmount_def int_str_def)
qed

theorem zero_decimals_unreadable_witness:
  "\<exists>s. formatTokenAmount 5 0 False = Inr s \<and> parseTokenAmount s 0 = None"
  by (rule zero_decimals_unreadable) simp

section \<open>Rescaling\<close>

text \<open>The two rescaling functions are one; rescaling to more places and back loses nothing, and
  rescaling to fewer places loses less than one unit of the coarser scale.\<close>

lemma round_is_convert: "roundToDecimals amount d e = convertDecimals amount d e"
  by (simp add: roundToDecimals_def convertDecimals_def)

lemma js_quot_mult: "0 < b \<Longrightarrow> js_quot (a * b) b = a"
  by (cases "a < 0") (auto simp: js_quot_def abs_mult mult_less_0_iff simp flip: mult_minus_left)

lemma convert_back: "d \<le> e \<Longrightarrow> convertDecimals (convertDecimals amount d e) e d = amount"
  by (simp add: convertDecimals_def js_quot_mult)

lemma convert_truncates:
  assumes "0 \<le> amount" and "e \<le> d"
  shows "convertDecimals amount d e * 10 ^ nat (d - e) \<le> amount \<and>
    amount < (convertDecimals amount d e + 1) * 10 ^ nat (d - e)"
proof -
  define m :: int where "m = 10 ^ nat (d - e)"
  have m: "0 < m" by (simp add: m_def)
  have "convertDecimals amount d e = amount div m"
    using assms m by (auto simp: convertDecimals_def js_quot_def m_def)
  moreover have "amount = m * (amount div m) + amount mod m" "0 \<le> amount mod m" "amount mod m < m"
    using m by simp_all
  ultimately show ?thesis unfolding m_def [symmetric] distrib_right by (simp only: mult.commute) linarith
qed

text \<open>What the form accepts can be read, if it has no more places than the token.\<close>

lemma validated_is_readable:
  assumes "validateAmountString s = None" and "0 < decimals"
    and "js_trim s = w @ ''.'' @ f \<or> js_trim s = w \<and> f = ''''" and "list_all is_digit w" and "list_all is_digit f"
    and "int (length f) \<le> decimals"
  shows "\<exists>v. parseTokenAmount s decimals = Some v \<and> 0 \<le> v"
proof -
  have idem: "js_trim (js_trim s) = js_trim s"
    using assms(3) amount_no_space [OF assms(4,5)] digits_no_space [OF assms(4)] by auto
  have same: "parseTokenAmount s decimals = parseTokenAmount (js_trim s) decimals"
    unfolding parseTokenAmount_def idem ..
  have "js_trim s \<noteq> ''''" using assms(1) by (auto simp: validateAmountString_def Let_def split: if_splits)
  then show ?thesis
    using same assms(2-6) parse_whole [OF assms(4) _ assms(2)] parse_fraction [OF assms(4,5,6,2)] by auto
qed

end
