(* ===== verification/Csv.thy ===== *)
theory Csv
  imports Json
begin

text \<open>
  The readers of the data import, first part of \<^verbatim>\<open>backend/src/services/dataImportService.ts\<close>: lines and
  fields of CSV text, JSON wrappers, and the detection of the format. A row is a JSON value, because the
  JSON reader hands on the elements of an array unchecked. \<^verbatim>\<open>JSON.parse\<close> is an argument, as is the reader
  for XML, which is made of regular expressions with back references. Column names are not array indices
  (JavaScript would list those first).

  The reference for the CSV reader is a writer that quotes every field; the reader inverts it.
\<close>

section \<open>CSV\<close>

text \<open>\<^verbatim>\<open>split(/\r?\n/)\<close>: the pieces between line feeds, each but the last without one carriage return at its end.\<close>

definition LF :: char where "LF = CHR 0x0A"
definition CR :: char where "CR = CHR 0x0D"
definition QUOTE :: char where "QUOTE = CHR 0x22"

definition chop_cr :: "string \<Rightarrow> string" where
  "chop_cr s = (if s \<noteq> [] \<and> last s = CR then butlast s else s)"

definition split_lines :: "string \<Rightarrow> string list" where
  "split_lines s = (let ps = js_split LF s in map chop_cr (butlast ps) @ [last ps])"

text \<open>The scanner: the field so far and whether a quotation is open.\<close>

function csv_scan :: "string \<Rightarrow> string \<Rightarrow> bool \<Rightarrow> string list" where
  "csv_scan [] current inQuotes = [current]"
| "csv_scan (c # cs) current inQuotes =
     (if c = QUOTE then
        (if inQuotes \<and> cs \<noteq> [] \<and> hd cs = QUOTE then csv_scan (tl cs) (current @ [QUOTE]) inQuotes
         else csv_scan cs current (\<not> inQuotes))
      else if c = CHR '','' \<and> \<not> inQuotes then current # csv_scan cs [] inQuotes
      else csv_scan cs (current @ [c]) inQuotes)"
  by pat_completeness auto
termination
  by (relation "measure (\<lambda>(s, _, _). length s)") (auto simp: less_Suc_eq)

definition splitCsvLine :: "string \<Rightarrow> string list" where
  "splitCsvLine line = csv_scan line [] False"

text \<open>One row: every header names a column, a missing value is \<^verbatim>\<open>null\<close>, a repeated header keeps its
  first place and its last value.\<close>

definition csv_cell :: "string list \<Rightarrow> nat \<Rightarrow> json" where
  "csv_cell values idx = (if idx < length values then JStr (js_trim (values ! idx)) else JNull)"

fun csv_columns :: "string list \<Rightarrow> nat \<Rightarrow> string list \<Rightarrow> (string \<times> json) list \<Rightarrow> (string \<times> json) list" where
  "csv_columns [] idx values row = row"
| "csv_columns (h # hs) idx values row =
     csv_columns hs (Suc idx) values (AList.update (js_trim h) (csv_cell values idx) row)"

definition csv_row :: "string list \<Rightarrow> string \<Rightarrow> json" where
  "csv_row headers line = JObj (csv_columns headers 0 (splitCsvLine line) [])"

definition parseCsv :: "string \<Rightarrow> json list" where
  "parseCsv content = (let lines = split_lines (js_trim content) in
     if length lines < 2 then []
     else map (csv_row (splitCsvLine (hd lines))) (filter (\<lambda>l. l \<noteq> '''') (map js_trim (tl lines))))"

section \<open>JSON and the choice of the reader\<close>

datatype import_error = ImportError string | ImportTypeError | ImportDbError

definition is_array :: "json option \<Rightarrow> bool" where
  "is_array v = (case v of Some (JArr _) \<Rightarrow> True | _ \<Rightarrow> False)"

definition array_items :: "json option \<Rightarrow> json list" where
  "array_items v = (case v of Some (JArr xs) \<Rightarrow> xs | _ \<Rightarrow> [])"

definition JSON_WRAPPERS :: "string list" where
  "JSON_WRAPPERS = [''data'', ''items'', ''records'', ''rows'']"

definition parseJson :: "(string \<Rightarrow> string + json) \<Rightarrow> string \<Rightarrow> import_error + json list" where
  "parseJson parse content = (case parse content of
      Inl m \<Rightarrow> Inl (ImportError (''Invalid JSON: '' @ m))
    | Inr (JArr xs) \<Rightarrow> Inr xs
    | Inr j \<Rightarrow>
        (case List.find (\<lambda>k. is_array (jget (Some j) k)) JSON_WRAPPERS of
           Some k \<Rightarrow> Inr (array_items (jget (Some j) k))
         | None \<Rightarrow> Inl (ImportError ''JSON must be an array or an object with a data/items/records/rows array'')))"

datatype ImportFormat = FCsv | FJson | FXml

definition starts_with :: "char \<Rightarrow> string \<Rightarrow> bool" where
  "starts_with c s = (s \<noteq> [] \<and> hd s = c)"

definition detectFormat :: "string \<Rightarrow> string \<Rightarrow> ImportFormat" where
  "detectFormat filename content =
     (let ext = js_lower (last (js_split (CHR ''.'') filename)); trimmed = dropWhile is_space content in
      if ext = ''csv'' then FCsv
      else if ext = ''json'' then FJson
      else if ext = ''xml'' then FXml
      else if starts_with (CHR ''['') trimmed \<or> starts_with (CHR ''{'') trimmed then FJson
      else if starts_with (CHR ''<'') trimmed then FXml
      else FCsv)"

section \<open>The reference writer\<close>

fun quote_chars :: "string \<Rightarrow> string" where
  "quote_chars [] = []"
| "quote_chars (c # cs) = (if c = QUOTE then [QUOTE, QUOTE] else [c]) @ quote_chars cs"

definition quote_field :: "string \<Rightarrow> string" where
  "quote_field f = [QUOTE] @ quote_chars f @ [QUOTE]"

fun write_line :: "string list \<Rightarrow> string" where
  "write_line [] = []"
| "write_line [f] = quote_field f"
| "write_line (f # g # fs) = quote_field f @ '','' @ write_line (g # fs)"

fun write_lines :: "string list list \<Rightarrow> string" where
  "write_lines [] = []"
| "write_lines [r] = write_line r"
| "write_lines (r # s # rs) = write_line r @ [LF] @ write_lines (s # rs)"

section \<open>Reading what was written\<close>

lemma char_facts [simp]:
  "QUOTE \<noteq> CHR '',''" "CHR '','' \<noteq> QUOTE" "LF \<noteq> QUOTE" "QUOTE \<noteq> LF" "CR \<noteq> QUOTE" "QUOTE \<noteq> CR" "LF \<noteq> CHR '',''" "CHR '','' \<noteq> LF"
  "CR \<noteq> LF" "LF \<noteq> CR" "\<not> is_space QUOTE"
  by (simp_all add: QUOTE_def LF_def CR_def is_space_def)

text \<open>Inside a quotation the scanner reads a quoted text back, and then goes on behind it, provided that
  no further quotation mark follows.\<close>

lemma csv_scan_quoted:
  "rest = [] \<or> hd rest \<noteq> QUOTE \<Longrightarrow>
   csv_scan (quote_chars f @ QUOTE # rest) current True = csv_scan rest (current @ f) False"
  by (induction f arbitrary: current) auto

lemma csv_scan_field:
  "rest = [] \<or> hd rest \<noteq> QUOTE \<Longrightarrow> csv_scan (quote_field f @ rest) [] False = csv_scan rest f False"
  using csv_scan_quoted [of rest f "[]"] by (simp add: quote_field_def)

lemma split_write_line: "fs \<noteq> [] \<Longrightarrow> splitCsvLine (write_line fs) = fs"
  unfolding splitCsvLine_def
proof (induction fs rule: write_line.induct)
  case (2 f)
  then show ?case using csv_scan_field [of "[]" f] by simp
next
  case (3 f g fs)
  then show ?case using csv_scan_field [of "CHR '','' # write_line (g # fs)" f] by simp
qed simp

lemma write_line_ends:
  assumes "fs \<noteq> []"
  shows "write_line fs \<noteq> []" and "hd (write_line fs) = QUOTE" and "last (write_line fs) = QUOTE"
  using assms by (induction fs rule: write_line.induct) (auto simp: quote_field_def)

lemma set_quote_chars: "set (quote_chars f) = set f"
  by (induction f) auto

lemma write_line_no_LF:
  assumes "list_all (\<lambda>f. LF \<notin> set f) fs"
  shows "LF \<notin> set (write_line fs)"
  using assms by (induction fs rule: write_line.induct) (auto simp: quote_field_def set_quote_chars)

lemma write_lines_ends:
  assumes "rs \<noteq> []" and "list_all (\<lambda>r. r \<noteq> []) rs"
  shows "write_lines rs \<noteq> []" and "hd (write_lines rs) = QUOTE" and "last (write_lines rs) = QUOTE"
  using assms by (induction rs rule: write_lines.induct) (auto simp: write_line_ends)

lemma js_split_write_lines:
  assumes "rs \<noteq> []" and "list_all (list_all (\<lambda>f. LF \<notin> set f)) rs"
  shows "js_split LF (write_lines rs) = map write_line rs"
  using assms
  by (induction rs rule: write_lines.induct) (auto simp: js_split_append js_split_no_sep write_line_no_LF)

lemma js_trim_ends: "s \<noteq> [] \<Longrightarrow> \<not> is_space (hd s) \<Longrightarrow> \<not> is_space (last s) \<Longrightarrow> js_trim s = s"
proof -
  assume s: "s \<noteq> []" "\<not> is_space (hd s)" "\<not> is_space (last s)"
  have "dropWhile is_space s = s" using s(1,2) by (cases s) simp_all
  moreover have "dropWhile is_space (rev s) = rev s" using s(1,3) by (cases s rule: rev_cases) simp_all
  ultimately show ?thesis by (simp add: js_trim_def)
qed

lemma split_lines_written:
  assumes "rs \<noteq> []" and "list_all (list_all (\<lambda>f. LF \<notin> set f)) rs" and "list_all (\<lambda>r. r \<noteq> []) rs"
  shows "split_lines (js_trim (write_lines rs)) = map write_line rs"
proof -
  have "chop_cr (write_line r) = write_line r" if "r \<in> set rs" for r
    using that assms(3) write_line_ends [of r] by (auto simp: chop_cr_def list_all_iff)
  then have "map chop_cr (butlast (map write_line rs)) = butlast (map write_line rs)"
    by (intro map_idI) (auto dest!: in_set_butlastD)
  moreover have "js_trim (write_lines rs) = write_lines rs"
    using write_lines_ends [OF assms(1,3)] by (intro js_trim_ends) simp_all
  ultimately show ?thesis
    using assms(1) js_split_write_lines [OF assms(1,2)] by (simp add: split_lines_def Let_def)
qed

lemma update_new_key: "k \<notin> fst ` set row \<Longrightarrow> AList.update k v row = row @ [(k, v)]"
  by (induction row) auto

lemma csv_columns_distinct:
  assumes "distinct hs" and "list_all (\<lambda>h. js_trim h = h \<and> h \<notin> fst ` set row) hs"
  shows "csv_columns hs i values row = row @ zip hs (map (csv_cell values) [i..<i + length hs])"
  using assms
proof (induction hs arbitrary: i row)
  case (Cons h hs)
  have "AList.update h v row = row @ [(h, v)]" for v
    using Cons.prems(2) by (intro update_new_key) simp
  moreover have "list_all (\<lambda>x. js_trim x = x \<and> x \<notin> fst ` set (row @ [(h, csv_cell values i)])) hs"
    using Cons.prems by (auto simp: list_all_iff)
  moreover have "[i..<i + length (h # hs)] = i # [Suc i..<Suc i + length hs]"
    by (simp add: upt_conv_Cons del: upt_Suc)
  ultimately show ?case
    using Cons.IH [of "row @ [(h, csv_cell values i)]" "Suc i"] Cons.prems
    by (simp del: upt_Suc)
qed simp

lemma csv_row_cells:
  assumes "distinct hs" and "list_all (\<lambda>h. js_trim h = h) hs" and "list_all (\<lambda>f. js_trim f = f) r"
    and "length r = length hs" and "splitCsvLine line = r"
  shows "csv_row hs line = JObj (zip hs (map JStr r))"
proof -
  have "map (csv_cell r) [0..<length hs] = map JStr r"
    using assms(3,4) by (intro nth_equalityI) (auto simp: csv_cell_def list_all_length)
  then show ?thesis
    using csv_columns_distinct [OF assms(1), of "[]" 0 r] assms(2)
    by (simp add: csv_row_def assms(5))
qed

text \<open>Lines without white space at their ends that split into the cells of a table are read as that table.\<close>

lemma parseCsv_lines:
  assumes lines: "split_lines (js_trim content) = map line (headers # rows)"
    and cells: "\<And>r. r \<in> set (headers # rows) \<Longrightarrow> line r \<noteq> '''' \<and> js_trim (line r) = line r \<and> splitCsvLine (line r) = r"
    and "distinct headers" and "list_all (\<lambda>r. length r = length headers) rows"
    and "list_all (list_all (\<lambda>f. js_trim f = f)) (headers # rows)"
  shows "parseCsv content = map (\<lambda>r. JObj (zip headers (map JStr r))) rows"
proof -
  have trimmed: "map (js_trim \<circ> line) rows = map line rows" using cells by simp
  have "filter (\<lambda>l. l \<noteq> '''') (map line rows) = map line rows" using cells by (simp add: filter_id_conv)
  moreover have "csv_row headers (line r) = JObj (zip headers (map JStr r))" if "r \<in> set rows" for r
    using that assms(3-5) cells by (intro csv_row_cells) (auto simp: list_all_iff)
  ultimately have "map (csv_row headers) (filter (\<lambda>l. l \<noteq> '''') (map js_trim (map line rows))) =
      map (\<lambda>r. JObj (zip headers (map JStr r))) rows"
    by (simp add: trimmed)
  then show ?thesis
    unfolding parseCsv_def Let_def lines using cells by simp
qed

text \<open>The CSV reader inverts the writer. A table with distinct column names, whose rows are as long as
  the header and whose cells have no line feed and no white space at their ends, is read back cell by
  cell, commas and quotation marks inside the cells included.\<close>

theorem csv_round_trip:
  assumes "headers \<noteq> []" and "distinct headers"
    and "list_all (\<lambda>r. length r = length headers) rows"
    and "list_all (list_all (\<lambda>f. LF \<notin> set f \<and> js_trim f = f)) (headers # rows)"
  shows "parseCsv (write_lines (headers # rows)) = map (\<lambda>r. JObj (zip headers (map JStr r))) rows"
proof -
  have ne: "list_all (\<lambda>r. r \<noteq> []) (headers # rows)" using assms(1,3) by (auto simp: list_all_iff)
  have lf: "list_all (list_all (\<lambda>f. LF \<notin> set f)) (headers # rows)" using assms(4) by (auto simp: list_all_iff)
  have lines: "split_lines (js_trim (write_lines (headers # rows))) = map write_line (headers # rows)"
    by (rule split_lines_written) (use lf ne in simp_all)
  have "write_line r \<noteq> '''' \<and> js_trim (write_line r) = write_line r \<and> splitCsvLine (write_line r) = r"
    if "r \<in> set (headers # rows)" for r
    using that ne write_line_ends [of r] split_write_line [of r] by (auto simp: list_all_iff intro!: js_trim_ends)
  then show ?thesis
    using assms(4) by (intro parseCsv_lines [OF lines _ assms(2,3)]) (auto simp: list_all_iff)
qed

theorem csv_round_trip_witness:
  "parseCsv (write_lines [[''id'', ''note''], [''1'', ''a, '' @ [QUOTE] @ ''b'' @ [QUOTE]]]) =
     [JObj [(''id'', JStr ''1''), (''note'', JStr (''a, '' @ [QUOTE] @ ''b'' @ [QUOTE]))]]"
  using csv_round_trip [of "[''id'', ''note'']" "[[''1'', ''a, '' @ [QUOTE] @ ''b'' @ [QUOTE]]]"]
  by (simp add: LF_def QUOTE_def js_trim_def is_space_def)

end
