(* ===== verification/Import_Xml.thy ===== *)
theory Import_Xml
  imports Csv
begin

text \<open>
  The XML reader of the data import, \<open>parseXml\<close> of \<^verbatim>\<open>backend/src/services/dataImportService.ts\<close>. Its four
  regular expressions are written out as the searches that a backtracking matcher makes: positions from
  left to right, at each position the longest tag name first and then shorter ones (the back reference may
  fail), the greedy body up to the last closing tag and the lazy body up to the first. \<^verbatim>\<open>[^>]*>\<close> can only
  stop at the first \<^verbatim>\<open>>\<close>, and \<^verbatim>\<open>[^<]*<\<close> only at the first \<^verbatim>\<open><\<close>. Field names are not array indices
  (JavaScript would list those first).

  The reference is a writer for tables; the reader inverts it.
\<close>

section \<open>Searching\<close>

definition is_word :: "char \<Rightarrow> bool" where
  "is_word c \<longleftrightarrow> (let n = (of_char c :: nat) in
     (48 \<le> n \<and> n \<le> 57) \<or> (65 \<le> n \<and> n \<le> 90) \<or> (97 \<le> n \<and> n \<le> 122) \<or> n = 95)"

definition close_tag :: "string \<Rightarrow> string" where
  "close_tag w = [CHR 0x3C, CHR 0x2F] @ w @ [CHR 0x3E]"

definition after_tag :: "string \<Rightarrow> string option" where
  "after_tag s = (case dropWhile (\<lambda>c. c \<noteq> CHR 0x3E) s of [] \<Rightarrow> None | _ # r \<Rightarrow> Some r)"

text \<open>What stands before the last, and before and behind the first occurrence of a text.\<close>

fun cut_last :: "string \<Rightarrow> string \<Rightarrow> string option" where
  "cut_last t [] = (if t = [] then Some [] else None)"
| "cut_last t (c # cs) = (case cut_last t cs of
      Some a \<Rightarrow> Some (c # a)
    | None \<Rightarrow> if prefix t (c # cs) then Some [] else None)"

fun cut_first :: "string \<Rightarrow> string \<Rightarrow> (string \<times> string) option" where
  "cut_first t [] = (if t = [] then Some ([], []) else None)"
| "cut_first t (c # cs) = (if prefix t (c # cs) then Some ([], drop (length t) (c # cs))
     else map_option (\<lambda>(a, b). (c # a, b)) (cut_first t cs))"

text \<open>\<^verbatim>\<open>/<(\w+)[^>]*>([\s\S]*)<\/\1>/\<close>: the names behind a \<^verbatim>\<open><\<close> from the longest on, then the positions.\<close>

fun root_words :: "nat \<Rightarrow> string \<Rightarrow> string option" where
  "root_words 0 cs = None"
| "root_words (Suc k) cs = (case after_tag (drop (Suc k) cs) of
      None \<Rightarrow> root_words k cs
    | Some body \<Rightarrow> (case cut_last (close_tag (take (Suc k) cs)) body of
        Some inner \<Rightarrow> Some inner
      | None \<Rightarrow> root_words k cs))"

fun xml_root :: "string \<Rightarrow> string option" where
  "xml_root [] = None"
| "xml_root (c # cs) =
     (if c \<noteq> CHR 0x3C then xml_root cs
      else (case root_words (length (takeWhile is_word cs)) cs of
          Some inner \<Rightarrow> Some inner
        | None \<Rightarrow> xml_root cs))"

text \<open>\<^verbatim>\<open>/<(\w+)[\s>]/\<close>\<close>

fun item_tag :: "string \<Rightarrow> string option" where
  "item_tag [] = None"
| "item_tag (c # cs) = (let w = takeWhile is_word cs; r = dropWhile is_word cs in
     if c = CHR 0x3C \<and> w \<noteq> [] \<and> r \<noteq> [] \<and> (is_space (hd r) \<or> hd r = CHR 0x3E) then Some w else item_tag cs)"

text \<open>\<open><item[^>]*>([\s\S]*?)</item>\<close>: the content and what is left to search.\<close>

fun next_item :: "string \<Rightarrow> string \<Rightarrow> (string \<times> string) option" where
  "next_item tag [] = None"
| "next_item tag (c # cs) =
     (if prefix (CHR 0x3C # tag) (c # cs) then
        (case after_tag (drop (length tag) cs) of
           None \<Rightarrow> next_item tag cs
         | Some body \<Rightarrow> (case cut_first (close_tag tag) body of
             Some r \<Rightarrow> Some r
           | None \<Rightarrow> next_item tag cs))
      else next_item tag cs)"

text \<open>\<^verbatim>\<open>/<(\w+)[^>]*>([^<]*)<\/\1>/g\<close>: the name, the text and what is left to search.\<close>

fun field_words :: "nat \<Rightarrow> string \<Rightarrow> (string \<times> string \<times> string) option" where
  "field_words 0 cs = None"
| "field_words (Suc k) cs = (case after_tag (drop (Suc k) cs) of
      None \<Rightarrow> field_words k cs
    | Some body \<Rightarrow>
        (let v = takeWhile (\<lambda>c. c \<noteq> CHR 0x3C) body; r = dropWhile (\<lambda>c. c \<noteq> CHR 0x3C) body;
             t = close_tag (take (Suc k) cs) in
         if prefix t r then Some (take (Suc k) cs, v, drop (length t) r) else field_words k cs))"

fun next_field :: "string \<Rightarrow> (string \<times> string \<times> string) option" where
  "next_field [] = None"
| "next_field (c # cs) =
     (if c \<noteq> CHR 0x3C then next_field cs
      else (case field_words (length (takeWhile is_word cs)) cs of
          Some f \<Rightarrow> Some f
        | None \<Rightarrow> next_field cs))"

subsection \<open>Every search leaves less to search\<close>

lemma after_tag_length: "after_tag s = Some r \<Longrightarrow> length r < length s"
  using length_dropWhile_le [of "\<lambda>c. c \<noteq> CHR 0x3E" s]
  by (auto simp: after_tag_def split: list.splits)

lemma cut_first_length: "cut_first t s = Some (a, b) \<Longrightarrow> length b \<le> length s"
  by (induction s arbitrary: a) (auto split: if_splits)

lemma next_item_length: "next_item tag s = Some (a, b) \<Longrightarrow> length b < length s"
proof (induction s)
  case (Cons c cs)
  from Cons.prems consider "next_item tag cs = Some (a, b)"
    | body where "after_tag (drop (length tag) cs) = Some body" "cut_first (close_tag tag) body = Some (a, b)"
    by (auto split: if_splits option.splits)
  then show ?case
    by cases (use Cons.IH in \<open>auto dest!: after_tag_length cut_first_length\<close>)
qed simp

lemma field_words_length: "field_words k cs = Some (n, v, r) \<Longrightarrow> length r < length cs"
proof (induction k)
  case (Suc k)
  from Suc.prems consider "field_words k cs = Some (n, v, r)"
    | body where "after_tag (drop (Suc k) cs) = Some body" "length r \<le> length body"
    using length_dropWhile_le [of "\<lambda>c. c \<noteq> CHR 0x3C"]
    by (auto simp: Let_def split: if_splits option.splits) (metis le_diff_conv le_trans trans_le_add1)
  then show ?case
    by cases (use Suc.IH in \<open>auto dest!: after_tag_length\<close>)
qed simp

lemma next_field_length: "next_field s = Some (n, v, r) \<Longrightarrow> length r < length s"
  by (induction s) (auto split: if_splits option.splits dest: field_words_length)

section \<open>The reader\<close>

function xml_items :: "string \<Rightarrow> string \<Rightarrow> string list" where
  "xml_items tag s = (case next_item tag s of None \<Rightarrow> [] | Some (a, b) \<Rightarrow> a # xml_items tag b)"
  by pat_completeness auto
termination
  by (relation "measure (\<lambda>(_, s). length s)") (auto dest: next_item_length)

declare xml_items.simps [simp del]

definition xml_text :: "string \<Rightarrow> json" where
  "xml_text v = (if js_trim v = '''' then JNull else JStr (js_trim v))"

function xml_fields :: "string \<Rightarrow> (string \<times> json) list \<Rightarrow> (string \<times> json) list" where
  "xml_fields s row = (case next_field s of
      None \<Rightarrow> row
    | Some (n, v, r) \<Rightarrow> xml_fields r (AList.update n (xml_text v) row))"
  by pat_completeness auto
termination
  by (relation "measure (\<lambda>(s, _). length s)") (auto dest: next_field_length)

declare xml_fields.simps [simp del]

definition parseXml :: "string \<Rightarrow> import_error + json list" where
  "parseXml content = (case xml_root content of
      None \<Rightarrow> Inl (ImportError ''Invalid XML: no root element found'')
    | Some inner \<Rightarrow> (case item_tag inner of
        None \<Rightarrow> Inr []
      | Some tag \<Rightarrow>
          Inr (map JObj (filter (\<lambda>row. row \<noteq> []) (map (\<lambda>c. xml_fields c []) (xml_items tag inner))))))"

section \<open>The reference writer\<close>

definition xml_element :: "string \<Rightarrow> string \<Rightarrow> string" where
  "xml_element w body = [CHR 0x3C] @ w @ [CHR 0x3E] @ body @ close_tag w"

definition write_row :: "(string \<times> string) list \<Rightarrow> string" where
  "write_row row = concat (map (\<lambda>(n, v). xml_element n v) row)"

definition write_xml :: "string \<Rightarrow> string \<Rightarrow> (string \<times> string) list list \<Rightarrow> string" where
  "write_xml root tag rows = xml_element root (concat (map (\<lambda>row. xml_element tag (write_row row)) rows))"

definition xml_name :: "string \<Rightarrow> bool" where
  "xml_name w \<longleftrightarrow> w \<noteq> [] \<and> list_all is_word w"

definition xml_field_ok :: "string \<times> string \<Rightarrow> bool" where
  "xml_field_ok f \<longleftrightarrow> xml_name (fst f) \<and> snd f \<noteq> '''' \<and> js_trim (snd f) = snd f \<and> CHR 0x3C \<notin> set (snd f)"

definition xml_row_ok :: "string \<Rightarrow> (string \<times> string) list \<Rightarrow> bool" where
  "xml_row_ok tag row \<longleftrightarrow> row \<noteq> [] \<and> distinct (map fst row) \<and> tag \<notin> set (map fst row) \<and> list_all xml_field_ok row"

section \<open>Reading what was written\<close>

lemma is_word_not_special [simp]: "\<not> is_word (CHR 0x3C)" "\<not> is_word (CHR 0x3E)" "\<not> is_word (CHR 0x2F)"
  by (simp_all add: is_word_def)

lemma word_no_special:
  assumes "list_all is_word w"
  shows "CHR 0x3C \<notin> set w" and "CHR 0x3E \<notin> set w" and "CHR 0x2F \<notin> set w"
  using assms is_word_not_special by (auto simp: list_all_iff)

lemma takeWhile_word [simp]:
  "list_all is_word w \<Longrightarrow> takeWhile is_word (w @ CHR 0x3E # r) = w"
  "list_all is_word w \<Longrightarrow> dropWhile is_word (w @ CHR 0x3E # r) = CHR 0x3E # r"
  by (induction w) auto

lemma after_tag_gt [simp]: "after_tag (CHR 0x3E # r) = Some r"
  by (simp add: after_tag_def)

lemma prefix_word_gt:
  assumes "list_all is_word a" and "list_all is_word b"
  shows "prefix (a @ [CHR 0x3E]) (b @ CHR 0x3E # r) \<longleftrightarrow> a = b"
  using assms
proof (induction a arbitrary: b)
  case Nil
  then show ?case by (cases b) auto
next
  case (Cons c a)
  then show ?case by (cases b) auto
qed

lemma prefix_close_tag:
  "list_all is_word a \<Longrightarrow> list_all is_word b \<Longrightarrow> prefix (close_tag a) (close_tag b @ r) \<longleftrightarrow> a = b"
  using prefix_word_gt [of a b r] by (simp add: close_tag_def)

text \<open>A text without \<^verbatim>\<open><\<close> and a tag with another name hold no closing tag.\<close>

lemma cut_first_skip:
  "CHR 0x3C \<notin> set xs \<Longrightarrow>
   cut_first (close_tag w) (xs @ ys) = map_option (\<lambda>(a, b). (xs @ a, b)) (cut_first (close_tag w) ys)"
proof (induction xs)
  case Nil
  show ?case by (cases "cut_first (close_tag w) ys") auto
next
  case (Cons x xs)
  have "\<not> prefix (close_tag w) ((x # xs) @ ys)" using Cons.prems by (simp add: close_tag_def)
  then show ?case
    using Cons by (cases "cut_first (close_tag w) ys") auto
qed

lemma cut_first_step:
  "\<not> prefix (close_tag w) (CHR 0x3C # ys) \<Longrightarrow>
   cut_first (close_tag w) (CHR 0x3C # ys) = map_option (\<lambda>(a, b). (CHR 0x3C # a, b)) (cut_first (close_tag w) ys)"
  by simp

lemma cut_first_element:
  assumes "xml_name n" and "list_all is_word tag" and "n \<noteq> tag" and "CHR 0x3C \<notin> set v"
  shows "cut_first (close_tag tag) (xml_element n v @ r) =
    map_option (\<lambda>(a, b). (xml_element n v @ a, b)) (cut_first (close_tag tag) r)"
proof -
  have n: "list_all is_word n" "n \<noteq> []" using assms(1) by (simp_all add: xml_name_def)
  have open_tag: "\<not> prefix (close_tag tag) (CHR 0x3C # n @ ys)" for ys
    using n word_no_special(3) [OF n(1)] by (cases n) (auto simp: close_tag_def)
  have shut_tag: "\<not> prefix (close_tag tag) (close_tag n @ r)"
    using prefix_close_tag [OF assms(2) n(1)] assms(3) by auto
  have body: "CHR 0x3C \<notin> set (n @ [CHR 0x3E] @ v)" using assms(4) word_no_special [OF n(1)] by simp
  have rest: "CHR 0x3C \<notin> set ([CHR 0x2F] @ n @ [CHR 0x3E])" using word_no_special [OF n(1)] by simp
  show ?thesis
    using cut_first_step [of tag "(n @ [CHR 0x3E] @ v) @ close_tag n @ r"] open_tag
      cut_first_skip [OF body, of tag "close_tag n @ r"]
      cut_first_step [of tag "([CHR 0x2F] @ n @ [CHR 0x3E]) @ r"] shut_tag
      cut_first_skip [OF rest, of tag r]
    by (cases "cut_first (close_tag tag) r")
      (auto simp: xml_element_def close_tag_def simp del: cut_first.simps)
qed

lemma cut_first_row:
  assumes "xml_row_ok tag row" and "list_all is_word tag"
  shows "cut_first (close_tag tag) (write_row row @ close_tag tag @ r) = Some (write_row row, r)"
proof -
  have "list_all xml_field_ok row" "tag \<notin> set (map fst row)" using assms(1) by (simp_all add: xml_row_ok_def)
  then show ?thesis
  proof (induction row)
    case Nil
    show ?case by (simp add: write_row_def close_tag_def)
  next
    case (Cons f row)
    have "cut_first (close_tag tag) (xml_element (fst f) (snd f) @ write_row row @ close_tag tag @ r) =
        Some (xml_element (fst f) (snd f) @ write_row row, r)"
      using Cons assms(2) by (subst cut_first_element) (auto simp: xml_field_ok_def)
    then show ?case by (simp add: write_row_def split_beta)
  qed
qed

lemma next_item_element:
  assumes "xml_name tag" and "xml_row_ok tag row"
  shows "next_item tag (xml_element tag (write_row row) @ r) = Some (write_row row, r)"
  using assms cut_first_row [OF assms(2), of r] by (simp add: xml_element_def xml_name_def)

lemma xml_items_written:
  assumes "xml_name tag" and "list_all (xml_row_ok tag) rows"
  shows "xml_items tag (concat (map (\<lambda>row. xml_element tag (write_row row)) rows)) = map write_row rows"
  using assms(2)
proof (induction rows)
  case (Cons row rows)
  then show ?case
    using next_item_element [OF assms(1), of row] by (simp add: xml_items.simps)
qed (simp add: xml_items.simps)

lemma takeWhile_no_lt:
  assumes "CHR 0x3C \<notin> set v"
  shows "takeWhile (\<lambda>c. c \<noteq> CHR 0x3C) (v @ CHR 0x3C # r) = v"
    and "dropWhile (\<lambda>c. c \<noteq> CHR 0x3C) (v @ CHR 0x3C # r) = CHR 0x3C # r"
  using assms by (induction v) auto

lemma next_field_element:
  assumes "xml_name n" and "CHR 0x3C \<notin> set v"
  shows "next_field (xml_element n v @ r) = Some (n, v, r)"
proof -
  obtain k where k: "length n = Suc k" "list_all is_word n" using assms(1) by (cases n) (auto simp: xml_name_def)
  have "close_tag n @ r = CHR 0x3C # (CHR 0x2F # n @ CHR 0x3E # r)" by (simp add: close_tag_def)
  then have "field_words (length n) (n @ CHR 0x3E # v @ close_tag n @ r) = Some (n, v, r)"
    using takeWhile_no_lt [OF assms(2), of "CHR 0x2F # n @ CHR 0x3E # r"] k(1) prefix_close_tag [OF k(2,2), of r]
    by (simp add: Let_def)
  then show ?thesis
    using k(2) by (simp add: xml_element_def)
qed

lemma xml_fields_written:
  assumes "list_all xml_field_ok row" and "distinct (map fst row)" and "fst ` set acc \<inter> fst ` set row = {}"
  shows "xml_fields (write_row row) acc = acc @ map (\<lambda>(n, v). (n, JStr v)) row"
  using assms
proof (induction row arbitrary: acc)
  case Nil
  show ?case by (simp add: write_row_def xml_fields.simps)
next
  case (Cons f row)
  obtain n v where f: "f = (n, v)" by (cases f)
  have ok: "xml_name n" "CHR 0x3C \<notin> set v" "v \<noteq> ''''" "js_trim v = v"
    using Cons.prems(1) by (simp_all add: f xml_field_ok_def)
  have upd: "AList.update n (JStr v) acc = acc @ [(n, JStr v)]"
    using Cons.prems(3) by (intro update_new_key) (auto simp: f)
  have "fst ` set (acc @ [(n, JStr v)]) \<inter> fst ` set row = {}"
    using Cons.prems by (auto simp: f)
  then have "xml_fields (write_row row) (acc @ [(n, JStr v)]) = (acc @ [(n, JStr v)]) @ map (\<lambda>(n, v). (n, JStr v)) row"
    using Cons.IH Cons.prems by simp
  moreover have "xml_fields (xml_element n v @ write_row row) acc = xml_fields (write_row row) (acc @ [(n, JStr v)])"
    using ok(3,4) upd
    by (simp add: xml_fields.simps [of "xml_element n v @ write_row row"] next_field_element [OF ok(1,2)] xml_text_def)
  ultimately show ?case by (simp add: f write_row_def)
qed

lemma cut_last_short: "length s < length t \<Longrightarrow> cut_last t s = None"
proof (induction s)
  case (Cons c cs)
  then have "\<not> prefix t (c # cs)" using prefix_length_le by fastforce
  with Cons show ?case by simp
qed auto

lemma cut_last_self: "t \<noteq> [] \<Longrightarrow> cut_last t (xs @ t) = Some xs"
proof (induction xs)
  case Nil
  then show ?case by (cases t) (simp_all add: cut_last_short)
qed simp

lemma xml_root_element:
  assumes "xml_name root"
  shows "xml_root (xml_element root body) = Some body"
proof -
  obtain k where k: "length root = Suc k" "list_all is_word root" using assms by (cases root) (auto simp: xml_name_def)
  have "cut_last (close_tag root) (body @ close_tag root) = Some body"
    by (rule cut_last_self) (simp add: close_tag_def)
  then have "root_words (length root) (root @ CHR 0x3E # body @ close_tag root) = Some body"
    using k(1) by simp
  then show ?thesis using k(2) by (simp add: xml_element_def)
qed

lemma item_tag_element: "xml_name tag \<Longrightarrow> item_tag (xml_element tag body @ r) = Some tag"
  by (simp add: xml_element_def xml_name_def Let_def)

text \<open>The XML reader inverts the writer. A table whose names are words, whose rows have distinct field
  names other than the name of the item element, and whose values are not empty, have no white space at
  their ends and no \<^verbatim>\<open><\<close>, is read back field by field.\<close>

theorem xml_round_trip:
  assumes "xml_name root" and "xml_name tag" and "list_all (xml_row_ok tag) rows"
  shows "parseXml (write_xml root tag rows) = Inr (map (\<lambda>row. JObj (map (\<lambda>(n, v). (n, JStr v)) row)) rows)"
proof (cases rows)
  case Nil
  then show ?thesis using xml_root_element [OF assms(1)] by (simp add: parseXml_def write_xml_def)
next
  case (Cons row rest)
  have fields: "xml_fields (write_row r) [] = map (\<lambda>(n, v). (n, JStr v)) r" "r \<noteq> []" if "r \<in> set rows" for r
    using that assms(3) xml_fields_written [of r "[]"] by (auto simp: list_all_iff xml_row_ok_def)
  have read: "map (\<lambda>c. xml_fields c []) (map write_row rows) = map (map (\<lambda>(n, v). (n, JStr v))) rows"
    using fields(1) by simp
  have "filter (\<lambda>row. row \<noteq> []) (map (map (\<lambda>(n, v). (n, JStr v))) rows) =
      map (map (\<lambda>(n, v). (n, JStr v))) rows"
    using fields(2) by (simp add: filter_id_conv)
  moreover have "item_tag (concat (map (\<lambda>row. xml_element tag (write_row row)) rows)) = Some tag"
    using item_tag_element [OF assms(2)] by (simp add: Cons)
  ultimately show ?thesis
    unfolding parseXml_def write_xml_def xml_root_element [OF assms(1)] option.case
    by (simp add: xml_items_written [OF assms(2,3)] read del: map_map) (simp add: comp_def)
qed

theorem xml_round_trip_witness:
  "parseXml (write_xml ''users'' ''user'' [[(''id'', ''1''), (''name'', ''A > B'')], [(''id'', ''2'')]]) =
     Inr [JObj [(''id'', JStr ''1''), (''name'', JStr ''A > B'')], JObj [(''id'', JStr ''2'')]]"
  using xml_round_trip [of "''users''" "''user''" "[[(''id'', ''1''), (''name'', ''A > B'')], [(''id'', ''2'')]]"]
  by (simp add: xml_name_def xml_row_ok_def xml_field_ok_def is_word_def js_trim_def is_space_def)

end
