(* ===== verification/Data_Import.thy ===== *)
theory Data_Import
  imports Import_Xml Effects
begin

text \<open>
  The rest of the data import: validation of rows, duplicate detection and the life of an import job
  (\<^verbatim>\<open>backend/src/services/dataImportService.ts\<close>), and the routes over it
  (\<^verbatim>\<open>backend/src/routes/dataImport.ts\<close>). The job table and the tasks handed to \<^verbatim>\<open>setImmediate\<close> are the
  state; a task runs as a whole. \<^verbatim>\<open>JSON.parse\<close> and \<^verbatim>\<open>Date.parse\<close> are arguments. The texts that
  \<^verbatim>\<open>JSON.stringify\<close> puts into columns are kept as the values they are made from. Columns that a job does
  not set at its creation are \<open>None\<close>. A field name is not a property that every JavaScript object has.
\<close>

section \<open>Values\<close>

text \<open>\<^verbatim>\<open>String(v)\<close>\<close>

fun json_text :: "json \<Rightarrow> string" where
  "json_text JNull = ''null''"
| "json_text (JBool b) = (if b then ''true'' else ''false'')"
| "json_text (JNum n) = int_str n"
| "json_text (JStr s) = s"
| "json_text (JArr xs) = js_join (map (\<lambda>x. if x = JNull then '''' else json_text x) xs)"
| "json_text (JObj kvs) = ''[object Object]''"

text \<open>Whether \<^verbatim>\<open>Number(s)\<close> is a number: white space only, a prefixed literal, \<^verbatim>\<open>Infinity\<close> or a decimal
  with optional fraction and exponent.\<close>

definition unsigned_part :: "string \<Rightarrow> string" where
  "unsigned_part s = (if s \<noteq> [] \<and> (hd s = CHR ''-'' \<or> hd s = CHR ''+'') then tl s else s)"

definition exponent_ok :: "string \<Rightarrow> bool" where
  "exponent_ok s = (s = [] \<or> ((hd s = CHR ''e'' \<or> hd s = CHR ''E'') \<and>
     unsigned_part (tl s) \<noteq> [] \<and> list_all is_digit (unsigned_part (tl s))))"

definition decimal_ok :: "string \<Rightarrow> bool" where
  "decimal_ok s = (let whole = takeWhile is_digit s; r = dropWhile is_digit s;
       frac = (if r \<noteq> [] \<and> hd r = CHR ''.'' then takeWhile is_digit (tl r) else []);
       r' = (if r \<noteq> [] \<and> hd r = CHR ''.'' then dropWhile is_digit (tl r) else r) in
     whole @ frac \<noteq> [] \<and> exponent_ok r')"

definition number_ok :: "string \<Rightarrow> bool" where
  "number_ok s = (let t = js_trim s in
     t = [] \<or>
     (case radix_prefix t of
        Some (b, ds) \<Rightarrow> ds \<noteq> [] \<and> radix_val b 0 ds \<noteq> None
      | None \<Rightarrow> unsigned_part t = ''Infinity'' \<or> decimal_ok (unsigned_part t)))"

definition is_number :: "json \<Rightarrow> bool" where
  "is_number v = (case v of JNull \<Rightarrow> True | JBool _ \<Rightarrow> True | JNum _ \<Rightarrow> True | _ \<Rightarrow> number_ok (json_text v))"

text \<open>\<open>EMAIL_RE\<close> and \<open>PHONE_RE\<close>\<close>

definition email_ok :: "string \<Rightarrow> bool" where
  "email_ok s = (let user = takeWhile (\<lambda>c. c \<noteq> CHR 0x40) s; domain = drop (length user + 1) s in
     list_all (\<lambda>c. \<not> is_space c) s \<and> user \<noteq> [] \<and> CHR 0x40 \<in> set s \<and> CHR 0x40 \<notin> set domain \<and>
     CHR ''.'' \<in> set (butlast (tl domain)))"

definition phone_ok :: "string \<Rightarrow> bool" where
  "phone_ok s = (let digits = (if s \<noteq> [] \<and> hd s = CHR ''+'' then tl s else s) in
     7 \<le> length digits \<and> length digits \<le> 15 \<and> hd digits \<noteq> CHR ''0'' \<and> list_all is_digit digits)"

section \<open>Validation\<close>

datatype field_type = TString | TNumber | TBoolean | TEmail | TPhone | TDate

record FieldSchema =
  fs_name :: string
  fs_required :: bool
  fs_type :: "field_type option"
  fs_maxLength :: "nat option"
  fs_pattern :: "(string \<Rightarrow> bool) option"

datatype fault = FaultRequired | FaultTooLong nat | FaultNumber | FaultEmail | FaultPhone | FaultDate | FaultPattern

record ValidationError =
  ve_row :: nat
  ve_field :: string
  ve_fault :: fault

definition row_value :: "json \<Rightarrow> string \<Rightarrow> import_error + json option" where
  "row_value row k = (if row = JNull then Inl ImportTypeError else Inr (jget (Some row) k))"

definition is_empty :: "json option \<Rightarrow> bool" where
  "is_empty v = (v = None \<or> v = Some JNull \<or> v = Some (JStr ''''))"

text \<open>The checks of one value, in the order of the source; an empty optional value has none.\<close>

definition value_faults :: "(string \<Rightarrow> bool) \<Rightarrow> FieldSchema \<Rightarrow> json \<Rightarrow> fault list" where
  "value_faults date_ok field v = (let strVal = json_text v in
     (case fs_maxLength field of Some n \<Rightarrow> if n \<noteq> 0 \<and> n < length strVal then [FaultTooLong n] else [] | None \<Rightarrow> []) @
     (if fs_type field = Some TNumber \<and> \<not> is_number v then [FaultNumber] else []) @
     (if fs_type field = Some TEmail \<and> \<not> email_ok strVal then [FaultEmail] else []) @
     (if fs_type field = Some TPhone \<and> \<not> phone_ok (filter (\<lambda>c. \<not> is_space c) strVal) then [FaultPhone] else []) @
     (if fs_type field = Some TDate \<and> \<not> date_ok strVal then [FaultDate] else []) @
     (case fs_pattern field of Some ok \<Rightarrow> if \<not> ok strVal then [FaultPattern] else [] | None \<Rightarrow> []))"

definition field_faults :: "(string \<Rightarrow> bool) \<Rightarrow> FieldSchema \<Rightarrow> json option \<Rightarrow> fault list" where
  "field_faults date_ok field v =
     (if is_empty v then (if fs_required field then [FaultRequired] else [])
      else value_faults date_ok field (the v))"

definition validate_field :: "(string \<Rightarrow> bool) \<Rightarrow> nat \<Rightarrow> json \<Rightarrow> FieldSchema \<Rightarrow> import_error + ValidationError list" where
  "validate_field date_ok rowNum row field = (case row_value row (fs_name field) of
      Inl e \<Rightarrow> Inl e
    | Inr v \<Rightarrow> Inr (map (\<lambda>f. \<lparr>ve_row = rowNum, ve_field = fs_name field, ve_fault = f\<rparr>) (field_faults date_ok field v)))"

text \<open>\<^verbatim>\<open>forEach\<close> with a body that collects and may throw.\<close>

fun collect :: "('a \<Rightarrow> 'e + 'b list) \<Rightarrow> 'a list \<Rightarrow> 'e + 'b list" where
  "collect f [] = Inr []"
| "collect f (x # xs) = (case f x of
      Inl e \<Rightarrow> Inl e
    | Inr ys \<Rightarrow> (case collect f xs of Inl e \<Rightarrow> Inl e | Inr zs \<Rightarrow> Inr (ys @ zs)))"

definition validateRows :: "(string \<Rightarrow> bool) \<Rightarrow> json list \<Rightarrow> FieldSchema list \<Rightarrow> import_error + ValidationError list" where
  "validateRows date_ok rows schema =
     collect (\<lambda>(row, idx). collect (validate_field date_ok (idx + 1) row) schema) (zip rows [0..<length rows])"

section \<open>Duplicates\<close>

datatype DuplicateStrategy = Skip | Overwrite | Merge

record DuplicateInfo =
  di_row :: nat
  di_key :: string
  di_action :: DuplicateStrategy

definition row_key :: "string \<Rightarrow> json \<Rightarrow> import_error + string" where
  "row_key keyField row = (case row_value row keyField of
      Inl e \<Rightarrow> Inl e
    | Inr v \<Rightarrow> Inr (case coalesce v (Some (JStr '''')) of None \<Rightarrow> '''' | Some j \<Rightarrow> json_text j))"

fun detect_loop ::
    "string \<Rightarrow> DuplicateStrategy \<Rightarrow> string set \<Rightarrow> json list \<Rightarrow> nat \<Rightarrow> string list \<Rightarrow> import_error + DuplicateInfo list" where
  "detect_loop keyField strategy existingKeys [] idx seen = Inr []"
| "detect_loop keyField strategy existingKeys (row # rows) idx seen = (case row_key keyField row of
      Inl e \<Rightarrow> Inl e
    | Inr keyVal \<Rightarrow>
        if keyVal = '''' then detect_loop keyField strategy existingKeys rows (idx + 1) seen
        else if keyVal \<in> set seen \<or> keyVal \<in> existingKeys then
          (case detect_loop keyField strategy existingKeys rows (idx + 1) seen of
             Inl e \<Rightarrow> Inl e
           | Inr ds \<Rightarrow> Inr (\<lparr>di_row = idx + 1, di_key = keyVal, di_action = strategy\<rparr> # ds))
        else detect_loop keyField strategy existingKeys rows (idx + 1) (keyVal # seen))"

definition detectDuplicates ::
    "json list \<Rightarrow> string \<Rightarrow> DuplicateStrategy \<Rightarrow> string set \<Rightarrow> import_error + DuplicateInfo list" where
  "detectDuplicates rows keyField strategy existingKeys = detect_loop keyField strategy existingKeys rows 0 []"

text \<open>Reference: the rows, numbered from 1, whose key is not empty and occurs in an earlier row or in the
  existing keys.\<close>

definition duplicate_at :: "string list \<Rightarrow> string set \<Rightarrow> nat \<Rightarrow> bool" where
  "duplicate_at keys existing i = (keys ! i \<noteq> '''' \<and> (keys ! i \<in> set (take i keys) \<or> keys ! i \<in> existing))"

definition duplicates_ref :: "DuplicateStrategy \<Rightarrow> string set \<Rightarrow> string list \<Rightarrow> DuplicateInfo list" where
  "duplicates_ref strategy existing keys =
     map (\<lambda>i. \<lparr>di_row = i + 1, di_key = keys ! i, di_action = strategy\<rparr>)
       (filter (duplicate_at keys existing) [0..<length keys])"

section \<open>Jobs\<close>

datatype ImportStatus = StPending | StValidating | StPreviewing | StProcessing | StDone | StFailed | StRolledBack

datatype job_errors = RowErrors "ValidationError list" | JobError import_error

record job_preview =
  pv_rows :: "json list"
  pv_columns :: "string list"
  pv_sampleSize :: nat

record rollback_data =
  rb_format :: ImportFormat
  rb_rowCount :: nat
  rb_keyField :: string
  rb_strategy :: DuplicateStrategy
  rb_capturedAt :: int

record ImportJob =
  ij_id :: nat
  ij_userId :: string
  ij_filename :: string
  ij_format :: ImportFormat
  ij_status :: ImportStatus
  ij_strategy :: DuplicateStrategy
  ij_totalRows :: "nat option"
  ij_processedRows :: "nat option"
  ij_errorCount :: "nat option"
  ij_errors :: "job_errors option"
  ij_preview :: "job_preview option"
  ij_duplicates :: "DuplicateInfo list option"
  ij_rollbackData :: "rollback_data option"
  ij_createdAt :: int

record import_task =
  tk_jobId :: nat
  tk_content :: string
  tk_format :: ImportFormat
  tk_strategy :: DuplicateStrategy
  tk_schema :: "FieldSchema list"
  tk_keyField :: string

record import_db =
  im_jobs :: "ImportJob list"
  im_nextId :: nat
  im_tasks :: "import_task list"

record import_env =
  ie_parse :: "string \<Rightarrow> string + json"
  ie_date_ok :: "string \<Rightarrow> bool"
  ie_now :: int

type_synonym 'a import_io = "(import_db, import_error, 'a) io"

text \<open>\<^verbatim>\<open>prisma.importJob.update\<close> throws when there is no such row.\<close>

definition job_update :: "nat \<Rightarrow> (ImportJob \<Rightarrow> ImportJob) \<Rightarrow> unit import_io" where
  "job_update jobId f = io_bind
     (db_call ImportDbError (\<lambda>db. (list_ex (\<lambda>j. ij_id j = jobId) (im_jobs db),
        db\<lparr>im_jobs := table_update (\<lambda>j. ij_id j = jobId) f (im_jobs db)\<rparr>)))
     (\<lambda>found. if found then io_return () else io_throw ImportDbError)"

definition job_find :: "nat \<Rightarrow> ImportJob option import_io" where
  "job_find jobId = db_read ImportDbError (\<lambda>db. List.find (\<lambda>j. ij_id j = jobId) (im_jobs db))"

definition new_job :: "nat \<Rightarrow> string \<Rightarrow> string \<Rightarrow> ImportFormat \<Rightarrow> DuplicateStrategy \<Rightarrow> int \<Rightarrow> ImportJob" where
  "new_job i userId filename format strategy now =
     \<lparr>ij_id = i, ij_userId = userId, ij_filename = filename, ij_format = format, ij_status = StPending,
      ij_strategy = strategy, ij_totalRows = None, ij_processedRows = None, ij_errorCount = None, ij_errors = None,
      ij_preview = None, ij_duplicates = None, ij_rollbackData = None, ij_createdAt = now\<rparr>"

text \<open>The row is created by one call; the task is then queued, for which there is no call.\<close>

definition createImportJob ::
    "import_env \<Rightarrow> string \<Rightarrow> string \<Rightarrow> string \<Rightarrow> DuplicateStrategy \<Rightarrow> FieldSchema list \<Rightarrow> string \<Rightarrow> nat import_io" where
  "createImportJob env userId filename content strategy schema keyField =
     (let format = detectFormat filename content in
      db_call ImportDbError (\<lambda>db. let i = im_nextId db in
        (i, db\<lparr>im_jobs := im_jobs db @ [new_job i userId filename format strategy (ie_now env)], im_nextId := i + 1,
               im_tasks := im_tasks db @ [\<lparr>tk_jobId = i, tk_content = content, tk_format = format,
                 tk_strategy = strategy, tk_schema = schema, tk_keyField = keyField\<rparr>]\<rparr>)))"

definition read_rows :: "import_env \<Rightarrow> ImportFormat \<Rightarrow> string \<Rightarrow> import_error + json list" where
  "read_rows env format content = (case format of
      FCsv \<Rightarrow> Inr (parseCsv content)
    | FJson \<Rightarrow> parseJson (ie_parse env) content
    | FXml \<Rightarrow> parseXml content)"

text \<open>\<^verbatim>\<open>Object.keys(rows[0])\<close>\<close>

definition object_keys :: "json \<Rightarrow> import_error + string list" where
  "object_keys row = (case row of
      JNull \<Rightarrow> Inl ImportTypeError
    | JObj kvs \<Rightarrow> Inr (map fst kvs)
    | JArr xs \<Rightarrow> Inr (map nat_str [0..<length xs])
    | JStr s \<Rightarrow> Inr (map nat_str [0..<length s])
    | _ \<Rightarrow> Inr [])"

definition row_columns :: "json list \<Rightarrow> import_error + string list" where
  "row_columns rows = (case rows of [] \<Rightarrow> Inr [] | row # _ \<Rightarrow> object_keys row)"

text \<open>What the source computes between the readers and the preview; the first exception is thrown.\<close>

record inspection =
  in_errors :: "ValidationError list"
  in_columns :: "string list"
  in_duplicates :: "DuplicateInfo list"

definition inspect_rows :: "import_env \<Rightarrow> import_task \<Rightarrow> json list \<Rightarrow> import_error + inspection" where
  "inspect_rows env t rows = (case validateRows (ie_date_ok env) rows (tk_schema t) of
      Inl e \<Rightarrow> Inl e
    | Inr errs \<Rightarrow> (case row_columns rows of
        Inl e \<Rightarrow> Inl e
      | Inr cols \<Rightarrow> (case detectDuplicates rows (tk_keyField t) (tk_strategy t) {} of
          Inl e \<Rightarrow> Inl e
        | Inr dups \<Rightarrow> Inr \<lparr>in_errors = errs, in_columns = cols, in_duplicates = dups\<rparr>)))"

text \<open>The loop over the rows. Only a row that is not skipped can reach the checkpoint.\<close>

fun process_rows :: "nat \<Rightarrow> DuplicateStrategy \<Rightarrow> DuplicateInfo list \<Rightarrow> json list \<Rightarrow> nat \<Rightarrow> nat import_io" where
  "process_rows jobId strategy dups [] processed = io_return processed"
| "process_rows jobId strategy dups (row # rows) processed =
     (if list_ex (\<lambda>d. di_row d = processed + 1) dups \<and> strategy = Skip
      then process_rows jobId strategy dups rows (processed + 1)
      else io_bind
        (if (processed + 1) mod 100 = 0 then job_update jobId (\<lambda>j. j\<lparr>ij_processedRows := Some (processed + 1)\<rparr>)
         else io_return ())
        (\<lambda>_. process_rows jobId strategy dups rows (processed + 1)))"

definition set_preview :: "json list \<Rightarrow> inspection \<Rightarrow> ImportJob \<Rightarrow> ImportJob" where
  "set_preview rows ins j = j\<lparr>ij_status := StPreviewing, ij_totalRows := Some (length rows),
     ij_errorCount := Some (length (in_errors ins)), ij_errors := Some (RowErrors (in_errors ins)),
     ij_preview := Some \<lparr>pv_rows = take 20 rows, pv_columns = in_columns ins, pv_sampleSize = length (take 20 rows)\<rparr>,
     ij_duplicates := Some (in_duplicates ins)\<rparr>"

definition set_done :: "import_env \<Rightarrow> import_task \<Rightarrow> json list \<Rightarrow> nat \<Rightarrow> ImportJob \<Rightarrow> ImportJob" where
  "set_done env t rows processed j = j\<lparr>ij_status := StDone, ij_processedRows := Some processed,
     ij_rollbackData := Some \<lparr>rb_format = tk_format t, rb_rowCount = length rows, rb_keyField = tk_keyField t,
       rb_strategy = tk_strategy t, rb_capturedAt = ie_now env\<rparr>\<rparr>"

definition set_failed :: "import_error \<Rightarrow> ImportJob \<Rightarrow> ImportJob" where
  "set_failed e j = j\<lparr>ij_status := StFailed, ij_errors := Some (JobError e)\<rparr>"

definition commit_rows :: "import_env \<Rightarrow> import_task \<Rightarrow> json list \<Rightarrow> inspection \<Rightarrow> unit import_io" where
  "commit_rows env t rows ins =
     io_bind (job_update (tk_jobId t) (set_preview rows ins)) (\<lambda>_.
     if in_errors ins \<noteq> [] then io_return ()
     else io_bind (job_update (tk_jobId t) (\<lambda>j. j\<lparr>ij_status := StProcessing\<rparr>)) (\<lambda>_.
       io_bind (process_rows (tk_jobId t) (tk_strategy t) (in_duplicates ins) rows 0) (\<lambda>processed.
       job_update (tk_jobId t) (set_done env t rows processed))))"

definition processImportJobAsync :: "import_env \<Rightarrow> import_task \<Rightarrow> unit import_io" where
  "processImportJobAsync env t = io_catch
     (io_bind (job_update (tk_jobId t) (\<lambda>j. j\<lparr>ij_status := StValidating\<rparr>)) (\<lambda>_.
      case read_rows env (tk_format t) (tk_content t) of
        Inl e \<Rightarrow> job_update (tk_jobId t) (set_failed e)
      | Inr rows \<Rightarrow> (case inspect_rows env t rows of
          Inl e \<Rightarrow> io_throw e
        | Inr ins \<Rightarrow> commit_rows env t rows ins)))
     (\<lambda>e. job_update (tk_jobId t) (set_failed e))"

text \<open>The event loop takes the next task.\<close>

definition run_task :: "import_env \<Rightarrow> unit import_io" where
  "run_task env = io_bind (io_gets im_tasks) (\<lambda>ts. case ts of
      [] \<Rightarrow> io_return ()
    | t # rest \<Rightarrow> io_bind (\<lambda>(db, fs). (Inr (), db\<lparr>im_tasks := rest\<rparr>, fs)) (\<lambda>_. processImportJobAsync env t))"

definition getImportJob :: "nat \<Rightarrow> ImportJob option import_io" where
  "getImportJob jobId = job_find jobId"

definition getImportHistory :: "string \<Rightarrow> int \<Rightarrow> ImportJob list import_io" where
  "getImportHistory userId limit = db_read ImportDbError (\<lambda>db.
     prisma_take limit (sort_key (\<lambda>j. - ij_createdAt j) (filter (\<lambda>j. ij_userId j = userId) (im_jobs db))))"

text \<open>The user of a rollback comes from a request body and is compared as it is.\<close>

datatype rollback_result =
    RolledBack nat
  | RollbackNotFound
  | RollbackUnauthorized
  | RollbackWrongStatus ImportStatus
  | RollbackNoSnapshot

definition rollbackImportJob :: "nat \<Rightarrow> json \<Rightarrow> rollback_result import_io" where
  "rollbackImportJob jobId userId = io_bind (job_find jobId) (\<lambda>found. case found of
      None \<Rightarrow> io_return RollbackNotFound
    | Some job \<Rightarrow>
        if JStr (ij_userId job) \<noteq> userId then io_return RollbackUnauthorized
        else if ij_status job \<noteq> StDone then io_return (RollbackWrongStatus (ij_status job))
        else if ij_rollbackData job = None then io_return RollbackNoSnapshot
        else io_bind (job_update jobId (\<lambda>j. j\<lparr>ij_status := StRolledBack\<rparr>)) (\<lambda>_. io_return (RolledBack jobId)))"

text \<open>The stored preview always parses; both lists of the answer are empty whatever the job holds.\<close>

definition getPreviewFromJob :: "ImportJob \<Rightarrow> (job_preview \<times> ValidationError list \<times> DuplicateInfo list) option" where
  "getPreviewFromJob job = (case ij_preview job of None \<Rightarrow> None | Some p \<Rightarrow> Some (p, [], []))"

section \<open>Routes\<close>

text \<open>The columns that the status route shows, and the reply bodies.\<close>

record job_status =
  js_job :: ImportJob
  js_duplicateCount :: nat

datatype import_body =
    ErrorBody string
  | CreatedBody nat
  | StatusBody job_status
  | NotReadyBody ImportStatus
  | PreviewBody nat ImportStatus job_preview "job_errors option" "DuplicateInfo list" "nat option"
  | RollbackErrorBody rollback_result
  | RollbackBody nat
  | HistoryBody string nat "ImportJob list"

datatype import_reply = Reply nat import_body

record import_request =
  ir_userId :: "json option"
  ir_filename :: "json option"
  ir_content :: "json option"
  ir_strategy :: "json option"
  ir_schema :: "FieldSchema list option"
  ir_keyField :: "string option"

definition server_error :: "import_error \<Rightarrow> import_reply import_io" where
  "server_error e = io_return (Reply 500 (ErrorBody ''Internal server error''))"

definition text_of :: "json option \<Rightarrow> string option" where
  "text_of v = (case v of Some (JStr s) \<Rightarrow> if s = '''' then None else Some s | _ \<Rightarrow> None)"

definition resolve_strategy :: "json option \<Rightarrow> DuplicateStrategy" where
  "resolve_strategy v =
     (if v = Some (JStr ''overwrite'') then Overwrite else if v = Some (JStr ''merge'') then Merge else Skip)"

text \<open>A user that is not a text passes the route's own check and is refused by Prisma.\<close>

definition post_import :: "import_env \<Rightarrow> import_request \<Rightarrow> import_reply import_io" where
  "post_import env req =
     (if \<not> truthy (ir_userId req) then io_return (Reply 400 (ErrorBody ''userId is required''))
      else case text_of (ir_filename req) of
        None \<Rightarrow> io_return (Reply 400 (ErrorBody ''filename is required''))
      | Some filename \<Rightarrow> (case text_of (ir_content req) of
          None \<Rightarrow> io_return (Reply 400 (ErrorBody ''content is required (raw file text)''))
        | Some content \<Rightarrow> io_catch
            (case text_of (ir_userId req) of
               None \<Rightarrow> io_throw ImportDbError
             | Some userId \<Rightarrow> io_bind
                 (createImportJob env userId filename content (resolve_strategy (ir_strategy req))
                    (case ir_schema req of Some s \<Rightarrow> s | None \<Rightarrow> [])
                    (case ir_keyField req of Some k \<Rightarrow> k | None \<Rightarrow> ''id''))
                 (\<lambda>jobId. io_return (Reply 202 (CreatedBody jobId))))
            server_error))"

definition find_param :: "int \<Rightarrow> ImportJob option import_io" where
  "find_param n = (if n < 0 then db_read ImportDbError (\<lambda>_. None) else getImportJob (nat n))"

definition with_job :: "string \<Rightarrow> (ImportJob \<Rightarrow> import_reply import_io) \<Rightarrow> import_reply import_io" where
  "with_job param body = (case parse_int param of
      None \<Rightarrow> io_return (Reply 400 (ErrorBody ''Invalid jobId''))
    | Some n \<Rightarrow> io_catch
        (io_bind (find_param n) (\<lambda>found. case found of
            None \<Rightarrow> io_return (Reply 404 (ErrorBody ''Import job not found''))
          | Some job \<Rightarrow> body job))
        server_error)"

definition job_duplicates :: "ImportJob \<Rightarrow> DuplicateInfo list" where
  "job_duplicates job = (case ij_duplicates job of Some ds \<Rightarrow> ds | None \<Rightarrow> [])"

definition get_import :: "string \<Rightarrow> import_reply import_io" where
  "get_import param = with_job param (\<lambda>job.
     io_return (Reply 200 (StatusBody \<lparr>js_job = job, js_duplicateCount = length (job_duplicates job)\<rparr>)))"

definition get_preview :: "string \<Rightarrow> import_reply import_io" where
  "get_preview param = with_job param (\<lambda>job. case ij_preview job of
      None \<Rightarrow> io_return (Reply 425 (NotReadyBody (ij_status job)))
    | Some p \<Rightarrow> io_return (Reply 200
        (PreviewBody (ij_id job) (ij_status job) p (ij_errors job) (job_duplicates job) (ij_totalRows job))))"

definition rollback_reply :: "rollback_result \<Rightarrow> import_reply" where
  "rollback_reply r = (case r of RolledBack i \<Rightarrow> Reply 200 (RollbackBody i) | _ \<Rightarrow> Reply 400 (RollbackErrorBody r))"

definition post_rollback :: "string \<Rightarrow> json option \<Rightarrow> import_reply import_io" where
  "post_rollback param userId = (case parse_int param of
      None \<Rightarrow> io_return (Reply 400 (ErrorBody ''Invalid jobId''))
    | Some n \<Rightarrow>
        if \<not> truthy userId then io_return (Reply 400 (ErrorBody ''userId is required''))
        else io_catch
          (io_bind
             (if n < 0 then io_bind (find_param n) (\<lambda>_. io_return RollbackNotFound)
              else rollbackImportJob (nat n) (the userId))
             (\<lambda>r. io_return (rollback_reply r)))
          server_error)"

text \<open>\<^verbatim>\<open>Math.min(NaN, 100)\<close> is \<^verbatim>\<open>NaN\<close>, which Prisma refuses.\<close>

definition get_history :: "string \<Rightarrow> string option \<Rightarrow> import_reply import_io" where
  "get_history userId limit = io_catch
     (case parse_int (case limit of Some l \<Rightarrow> l | None \<Rightarrow> ''20'') of
        None \<Rightarrow> io_throw ImportDbError
      | Some n \<Rightarrow> io_bind (getImportHistory userId (min n 100))
          (\<lambda>js. io_return (Reply 200 (HistoryBody userId (length js) js))))
     server_error"

section \<open>Duplicates are found exactly\<close>

definition seen_ok :: "string set \<Rightarrow> string list \<Rightarrow> string list \<Rightarrow> bool" where
  "seen_ok existing done_keys seen \<longleftrightarrow> set seen = {k \<in> set done_keys. k \<noteq> '''' \<and> k \<notin> existing}"

lemma detect_loop_exact:
  assumes "map (row_key keyField) rows = map Inr keys" and "seen_ok existing done_keys seen"
  shows "detect_loop keyField strategy existing rows (length done_keys) seen =
    Inr (map (\<lambda>i. \<lparr>di_row = i + 1, di_key = (done_keys @ keys) ! i, di_action = strategy\<rparr>)
      (filter (duplicate_at (done_keys @ keys) existing) [length done_keys..<length done_keys + length keys]))"
  using assms
proof (induction rows arbitrary: keys done_keys seen)
  case Nil
  then show ?case by simp
next
  case (Cons row rows)
  then obtain k ks where keys: "keys = k # ks" and k: "row_key keyField row = Inr k"
    and ks: "map (row_key keyField) rows = map Inr ks" by (cases keys) auto
  let ?d = "done_keys @ [k]"
  let ?n = "length done_keys"
  have at: "duplicate_at (done_keys @ keys) existing ?n \<longleftrightarrow> k \<noteq> '''' \<and> (k \<in> set seen \<or> k \<in> existing)"
    using Cons.prems(2) by (auto simp: duplicate_at_def keys seen_ok_def)
  have cut: "[?n..<?n + length keys] = ?n # [length ?d..<length ?d + length ks]"
    by (simp add: keys upt_conv_Cons del: upt_Suc)
  have rest: "detect_loop keyField strategy existing rows (Suc ?n) seen' =
    Inr (map (\<lambda>i. \<lparr>di_row = i + 1, di_key = (done_keys @ keys) ! i, di_action = strategy\<rparr>)
      (filter (duplicate_at (done_keys @ keys) existing) [length ?d..<length ?d + length ks]))"
    if "seen_ok existing ?d seen'" for seen'
    using Cons.IH [OF ks that] by (simp add: keys del: upt_Suc)
  have same: "seen_ok existing ?d seen" if "k = '''' \<or> k \<in> set seen \<or> k \<in> existing"
    using that Cons.prems(2) by (auto simp: seen_ok_def)
  have more: "seen_ok existing ?d (k # seen)" if "k \<noteq> ''''" "k \<notin> existing"
    using that Cons.prems(2) by (auto simp: seen_ok_def)
  consider "k = ''''" | "k \<noteq> ''''" "k \<in> set seen \<or> k \<in> existing" | "k \<noteq> ''''" "k \<notin> set seen" "k \<notin> existing" by blast
  then show ?case
  proof cases
    case 1
    then show ?thesis using at same [THEN rest] by (simp add: k cut del: upt_Suc)
  next
    case 2
    then have "detect_loop keyField strategy existing rows (Suc ?n) seen = Inr (map (\<lambda>i. \<lparr>di_row = i + 1, di_key = (done_keys @ keys) ! i, di_action = strategy\<rparr>)
      (filter (duplicate_at (done_keys @ keys) existing) [length ?d..<length ?d + length ks]))"
      using same [THEN rest] by blast
    moreover have "(done_keys @ keys) ! ?n = k" by (simp add: keys)
    ultimately show ?thesis using 2 at by (simp add: k cut del: upt_Suc)
  next
    case 3
    then show ?thesis using at more [THEN rest] by (simp add: k cut del: upt_Suc)
  qed
qed

text \<open>C29: The single pass over the rows finds exactly the duplicates: a row is reported, under its own
  number and key, if and only if its key is not empty and occurs in an earlier row or among the existing
  keys, and the reports come in the order of the rows. The set the pass keeps, which holds only first
  occurrences, is therefore enough.\<close>

theorem duplicates_exact:
  assumes "map (row_key keyField) rows = map Inr keys"
  shows "detectDuplicates rows keyField strategy existing = Inr (duplicates_ref strategy existing keys)"
  using detect_loop_exact [OF assms, of existing "[]" "[]"]
  by (simp add: detectDuplicates_def duplicates_ref_def seen_ok_def)

theorem duplicates_exact_witness:
  "detectDuplicates [JObj [(''id'', JStr ''a'')], JObj [(''id'', JNum 7)], JObj [], JObj [(''id'', JStr ''a'')]] ''id'' Skip {''7''} =
     Inr (duplicates_ref Skip {''7''} [''a'', ''7'', '''', ''a''])"
  by (rule duplicates_exact) code_simp

section \<open>Finished jobs are complete, whatever calls fail\<close>

text \<open>A job that is done, or was and is rolled back, had no row error, went through all its rows and has
  its snapshot.\<close>

definition job_ok :: "ImportJob \<Rightarrow> bool" where
  "job_ok j \<longleftrightarrow> (ij_status j = StDone \<or> ij_status j = StRolledBack) \<longrightarrow>
     ij_errorCount j = Some 0 \<and> ij_totalRows j \<noteq> None \<and> ij_processedRows j = ij_totalRows j \<and> ij_rollbackData j \<noteq> None"

definition jobs_ok :: "import_db \<Rightarrow> bool" where
  "jobs_ok db \<longleftrightarrow> list_all job_ok (im_jobs db) \<and> distinct (map ij_id (im_jobs db)) \<and>
     list_all (\<lambda>j. ij_id j < im_nextId db) (im_jobs db)"

text \<open>The same, and every job of one number satisfies \<open>Q\<close>.\<close>

definition jobs_at :: "nat \<Rightarrow> (ImportJob \<Rightarrow> bool) \<Rightarrow> import_db \<Rightarrow> bool" where
  "jobs_at i Q db \<longleftrightarrow> jobs_ok db \<and> list_all (\<lambda>j. ij_id j = i \<longrightarrow> Q j) (im_jobs db)"

lemma jobs_at_jobs_ok: "jobs_at i Q db \<Longrightarrow> jobs_ok db"
  by (simp add: jobs_at_def)

lemma ids_table_update: "(\<And>j. ij_id (f j) = ij_id j) \<Longrightarrow> map ij_id (table_update p f jobs) = map ij_id jobs"
  by (simp add: table_update_def)

lemma jobs_at_update:
  assumes "\<And>j. Q j \<Longrightarrow> job_ok j \<Longrightarrow> ij_id j = i \<Longrightarrow> job_ok (f j) \<and> R (f j)" and "\<And>j. ij_id (f j) = ij_id j" and "jobs_at i Q db"
  shows "jobs_at i R (db\<lparr>im_jobs := table_update (\<lambda>j. ij_id j = i) f (im_jobs db)\<rparr>)"
proof -
  let ?js = "table_update (\<lambda>j. ij_id j = i) f (im_jobs db)"
  have new: "\<exists>k \<in> set (im_jobs db). ij_id j = ij_id k \<and> j = (if ij_id k = i then f k else k)" if "j \<in> set ?js" for j
    using that assms(2) by (auto simp: table_update_def)
  have "job_ok j \<and> ij_id j < im_nextId db \<and> (ij_id j = i \<longrightarrow> R j)" if j: "j \<in> set ?js" for j
    using new [OF j] assms(1,3) by (auto simp: jobs_at_def jobs_ok_def list_all_iff)
  then show ?thesis
    using assms(3) ids_table_update [OF assms(2), of "\<lambda>j. ij_id j = i" "im_jobs db"]
    by (simp add: jobs_at_def jobs_ok_def list_all_iff)
qed

lemma ensures_job_update:
  assumes "\<And>db. P db \<Longrightarrow> jobs_at i Q db" and "\<And>j. Q j \<Longrightarrow> job_ok j \<Longrightarrow> ij_id j = i \<Longrightarrow> job_ok (f j) \<and> R (f j)"
    and "\<And>j. ij_id (f j) = ij_id j"
  shows "ensures P (job_update i f) (\<lambda>_. jobs_at i R) jobs_ok"
  unfolding job_update_def
proof (rule ensures_bind)
  show "ensures P (db_call ImportDbError (\<lambda>db. (list_ex (\<lambda>j. ij_id j = i) (im_jobs db),
      db\<lparr>im_jobs := table_update (\<lambda>j. ij_id j = i) f (im_jobs db)\<rparr>))) (\<lambda>_. jobs_at i R) jobs_ok"
  proof (rule ensures_call)
    fix db assume "P db"
    then have at: "jobs_at i Q db" by (rule assms(1))
    then show "jobs_ok db" by (rule jobs_at_jobs_ok)
    show "jobs_at i R (snd (list_ex (\<lambda>j. ij_id j = i) (im_jobs db), db\<lparr>im_jobs := table_update (\<lambda>j. ij_id j = i) f (im_jobs db)\<rparr>))"
      using at jobs_at_update [OF assms(2,3)] by simp
  qed
  show "ensures (jobs_at i R) (if a then io_return () else io_throw ImportDbError) (\<lambda>_. jobs_at i R) jobs_ok" for a
    by (cases a) (auto intro!: ensures_return ensures_throw dest: jobs_at_jobs_ok)
qed

text \<open>The two statuses in which a job may be while its task runs, once its rows were found valid.\<close>

definition in_progress :: "nat \<Rightarrow> ImportJob \<Rightarrow> bool" where
  "in_progress n j \<longleftrightarrow> (ij_status j = StPreviewing \<or> ij_status j = StProcessing) \<and>
     ij_errorCount j = Some 0 \<and> ij_totalRows j = Some n"

lemma ensures_process_rows:
  "ensures (jobs_at i (in_progress n)) (process_rows i strategy dups rows k)
     (\<lambda>p db. p = k + length rows \<and> jobs_at i (in_progress n) db) jobs_ok"
proof (induction rows arbitrary: k)
  case Nil
  show ?case by (auto intro!: ensures_return)
next
  case (Cons row rows)
  have next_row: "ensures (jobs_at i (in_progress n)) (process_rows i strategy dups rows (k + 1))
     (\<lambda>p db. p = k + length (row # rows) \<and> jobs_at i (in_progress n) db) jobs_ok"
    using Cons.IH [of "k + 1"] by simp
  have checkpoint: "ensures (jobs_at i (in_progress n))
      (if (k + 1) mod 100 = 0 then job_update i (\<lambda>j. j\<lparr>ij_processedRows := Some (k + 1)\<rparr>) else io_return ())
      (\<lambda>_. jobs_at i (in_progress n)) jobs_ok"
  proof (cases "(k + 1) mod 100 = 0")
    case True
    have "ensures (jobs_at i (in_progress n)) (job_update i (\<lambda>j. j\<lparr>ij_processedRows := Some (k + 1)\<rparr>))
        (\<lambda>_. jobs_at i (in_progress n)) jobs_ok"
      by (rule ensures_job_update [where Q = "in_progress n"]) (auto simp: in_progress_def job_ok_def)
    with True show ?thesis by simp
  next
    case False
    then show ?thesis by (auto intro!: ensures_return)
  qed
  show ?case
    using next_row ensures_bind [OF checkpoint next_row] by (cases "strategy = Skip") simp_all
qed

lemma ensures_commit_rows:
  "ensures jobs_ok (commit_rows env t rows ins) (\<lambda>_. jobs_ok) jobs_ok"
proof -
  let ?i = "tk_jobId t" and ?Q = "\<lambda>j. ij_status j = StPreviewing \<and> ij_errorCount j = Some (length (in_errors ins)) \<and> ij_totalRows j = Some (length rows)"
  have preview: "ensures jobs_ok (job_update ?i (set_preview rows ins)) (\<lambda>_. jobs_at ?i ?Q) jobs_ok"
    by (rule ensures_job_update [where Q = "\<lambda>_. True"])
      (auto simp: jobs_at_def set_preview_def job_ok_def list_all_iff)
  show ?thesis
  proof (cases "in_errors ins = []")
    case True
    have start: "ensures (jobs_at ?i ?Q) (job_update ?i (\<lambda>j. j\<lparr>ij_status := StProcessing\<rparr>))
        (\<lambda>_. jobs_at ?i (in_progress (length rows))) jobs_ok"
      by (rule ensures_job_update [where Q = ?Q]) (auto simp: in_progress_def job_ok_def True)
    have finish: "ensures (\<lambda>db. p = 0 + length rows \<and> jobs_at ?i (in_progress (length rows)) db)
        (job_update ?i (set_done env t rows p)) (\<lambda>_. jobs_ok) jobs_ok" for p
      by (rule ensures_weaken [where P = "\<lambda>db. p = 0 + length rows \<and> jobs_at ?i (in_progress (length rows)) db" and Q = "\<lambda>_. jobs_at ?i (\<lambda>_. True)" and E = jobs_ok],
          rule ensures_job_update [where Q = "\<lambda>j. p = length rows \<and> in_progress (length rows) j"])
        (auto simp: jobs_at_def list_all_iff set_done_def job_ok_def in_progress_def)
    show ?thesis
      unfolding commit_rows_def using True
      by (auto intro!: ensures_bind [OF preview] ensures_bind [OF start] ensures_bind [OF ensures_process_rows] finish)
  next
    case False
    then show ?thesis
      unfolding commit_rows_def by (auto intro!: ensures_bind [OF preview] ensures_return dest: jobs_at_jobs_ok)
  qed
qed

lemma keeps_job_update:
  assumes "\<And>j. job_ok j \<Longrightarrow> job_ok (f j)" and "\<And>j. ij_id (f j) = ij_id j"
  shows "ensures jobs_ok (job_update i f) (\<lambda>_. jobs_ok) jobs_ok"
proof (rule ensures_weaken)
  show "ensures jobs_ok (job_update i f) (\<lambda>_. jobs_at i (\<lambda>_. True)) jobs_ok"
    by (rule ensures_job_update [where Q = "\<lambda>_. True"]) (auto simp: assms jobs_at_def list_all_iff)
qed (auto dest: jobs_at_jobs_ok)

lemma keeps_processImportJobAsync: "keeps jobs_ok (processImportJobAsync env t)"
proof -
  have failed: "ensures jobs_ok (job_update (tk_jobId t) (set_failed e)) (\<lambda>_. jobs_ok) jobs_ok" for e
    by (rule keeps_job_update) (auto simp: job_ok_def set_failed_def)
  have start: "ensures jobs_ok (job_update (tk_jobId t) (\<lambda>j. j\<lparr>ij_status := StValidating\<rparr>)) (\<lambda>_. jobs_ok) jobs_ok"
    by (rule keeps_job_update) (auto simp: job_ok_def)
  show ?thesis
    unfolding processImportJobAsync_def
    by (rule keeps_catch; rule ensures_keeps, (rule ensures_bind [OF start])?)
      (auto split: sum.splits intro!: failed ensures_commit_rows ensures_throw)
qed

lemma keeps_run_task: "keeps jobs_ok (run_task env)"
proof -
  have "keeps jobs_ok (\<lambda>(db, fs). (Inr (), db\<lparr>im_tasks := rest\<rparr>, fs) :: (import_error + unit) \<times> import_db \<times> bool list)" for rest
    by (simp add: keeps_def jobs_ok_def)
  then show ?thesis
    unfolding run_task_def
    by (auto intro!: keeps_intros keeps_processImportJobAsync split: list.splits)
qed

lemma keeps_createImportJob: "keeps jobs_ok (createImportJob env userId filename content strategy schema keyField)"
  unfolding createImportJob_def Let_def
  by (rule keeps_call) (auto simp: jobs_ok_def new_job_def job_ok_def list_all_iff)

text \<open>A rollback answers without a write, or marks the one job of that number, which it found done, with a
  snapshot, and owned by the given user.\<close>

lemma rollback_cases:
  obtains "fst (snd (rollbackImportJob jobId userId (db, fs))) = db"
  | job where "List.find (\<lambda>j. ij_id j = jobId) (im_jobs db) = Some job" "userId = JStr (ij_userId job)"
      "ij_status job = StDone" "ij_rollbackData job \<noteq> None"
      "fst (snd (rollbackImportJob jobId userId (db, fs))) =
         db\<lparr>im_jobs := table_update (\<lambda>j. ij_id j = jobId) (\<lambda>j. j\<lparr>ij_status := StRolledBack\<rparr>) (im_jobs db)\<rparr>"
proof -
  let ?run = "fst (snd (rollbackImportJob jobId userId (db, fs)))"
  let ?upd = "db\<lparr>im_jobs := table_update (\<lambda>j. ij_id j = jobId) (\<lambda>j. j\<lparr>ij_status := StRolledBack\<rparr>) (im_jobs db)\<rparr>"
  have wrote: "fst (snd (io_bind (job_update jobId (\<lambda>j. j\<lparr>ij_status := StRolledBack\<rparr>)) (\<lambda>_. io_return r) (db, fs'))) \<in> {db, ?upd}"
    for r :: rollback_result and fs'
    by (auto simp: job_update_def io_bind_def db_call_def io_return_def io_throw_def split: sum.splits prod.splits if_splits)
  show ?thesis
  proof (cases "List.find (\<lambda>j. ij_id j = jobId) (im_jobs db)")
    case None
    then have "?run = db" by (simp add: rollbackImportJob_def job_find_def bind_read_cases io_return_run)
    then show ?thesis by (rule that(1))
  next
    case (Some job)
    let ?guard = "userId = JStr (ij_userId job) \<and> ij_status job = StDone \<and> ij_rollbackData job \<noteq> None"
    show ?thesis
    proof (cases "?guard \<and> \<not> (fs \<noteq> [] \<and> hd fs)")
      case True
      then have "?run = fst (snd (io_bind (job_update jobId (\<lambda>j. j\<lparr>ij_status := StRolledBack\<rparr>)) (\<lambda>_. io_return (RolledBack jobId)) (db, tl fs)))"
        using Some by (simp add: rollbackImportJob_def job_find_def bind_read_cases del: not_None_eq) blast
      then have "?run \<in> {db, ?upd}" using wrote [of "RolledBack jobId" "tl fs"] by simp
      then show ?thesis using that(1) that(2) [OF Some] True by (elim insertE emptyE) simp_all
    next
      case False
      then have "?run = db" using Some by (auto simp: rollbackImportJob_def job_find_def bind_read_cases io_return_run)
      then show ?thesis by (rule that(1))
    qed
  qed
qed

lemma distinct_find:
  assumes "distinct (map ij_id jobs)" and "List.find (\<lambda>j. ij_id j = i) jobs = Some job" and "j \<in> set jobs" and "ij_id j = i"
  shows "j = job"
  using assms find_SomeD [OF assms(2)] by (auto simp: distinct_map dest: inj_onD)

lemma keeps_rollbackImportJob: "keeps jobs_ok (rollbackImportJob jobId userId)"
  unfolding keeps_def
proof (intro allI impI)
  fix db fs assume ok: "jobs_ok db"
  show "jobs_ok (fst (snd (rollbackImportJob jobId userId (db, fs))))"
  proof (cases rule: rollback_cases [of jobId userId db fs])
    case 1
    with ok show ?thesis by simp
  next
    case (2 job)
    have "job_ok (j\<lparr>ij_status := StRolledBack\<rparr>)" if "j \<in> set (im_jobs db)" "ij_id j = jobId" for j
    proof -
      have "j = job" using ok that 2(1) distinct_find by (auto simp: jobs_ok_def)
      then show ?thesis using that ok 2(3) by (auto simp: jobs_ok_def job_ok_def list_all_iff)
    qed
    moreover have "map ij_id (table_update (\<lambda>j. ij_id j = jobId) (\<lambda>j. j\<lparr>ij_status := StRolledBack\<rparr>) (im_jobs db)) = map ij_id (im_jobs db)"
      by (rule ids_table_update) simp
    ultimately show ?thesis
      using ok unfolding 2(5) by (simp add: jobs_ok_def) (auto simp: table_update_def list_all_iff)
  qed
qed

inductive import_step :: "import_db \<Rightarrow> import_db \<Rightarrow> bool" where
  step_post: "import_step db (db_after (post_import env req) fs db)"
| step_task: "import_step db (db_after (run_task env) fs db)"
| step_rollback: "import_step db (db_after (post_rollback param userId) fs db)"

definition import_empty :: import_db where
  "import_empty = \<lparr>im_jobs = [], im_nextId = 1, im_tasks = []\<rparr>"

lemma keeps_post_import: "keeps jobs_ok (post_import env req)"
  unfolding post_import_def server_error_def
  by (intro keeps_intros keeps_createImportJob)

lemma keeps_post_rollback: "keeps jobs_ok (post_rollback param userId)"
  unfolding post_rollback_def server_error_def find_param_def getImportJob_def job_find_def
  by (intro keeps_intros keeps_rollbackImportJob)

interpretation importing: inv_system "\<lambda>db. db = import_empty" import_step jobs_ok
proof
  show "jobs_ok db" if "db = import_empty" for db
    using that by (simp add: jobs_ok_def import_empty_def)
  show "jobs_ok t" if "import_step s t" "jobs_ok s" for s t
    using that by cases (auto intro: keepsD keeps_post_import keeps_run_task keeps_post_rollback)
qed

text \<open>C26: Whatever requests come, in whatever order tasks run between them, and whatever database calls
  fail on the way: a job that is shown as done, or as rolled back, had no row error, its processed rows are
  all its rows, and its rollback snapshot is there. A failing call never leaves a job marked as done
  half-way.\<close>

theorem done_jobs_complete:
  assumes "reach (\<lambda>db. db = import_empty) import_step db" and "job \<in> set (im_jobs db)"
    and "ij_status job = StDone \<or> ij_status job = StRolledBack"
  shows "ij_errorCount job = Some 0 \<and> ij_totalRows job \<noteq> None \<and> ij_processedRows job = ij_totalRows job \<and>
    ij_rollbackData job \<noteq> None"
  using importing.reach_invar [OF assms(1)] assms(2,3) by (auto simp: jobs_ok_def job_ok_def list_all_iff)

definition demo_env :: import_env where
  "demo_env = \<lparr>ie_parse = (\<lambda>_. Inl ''no parser''), ie_date_ok = (\<lambda>_. True), ie_now = 5\<rparr>"

definition demo_request :: import_request where
  "demo_request = \<lparr>ir_userId = Some (JStr ''u''), ir_filename = Some (JStr ''a.csv''),
     ir_content = Some (JStr (''id'' @ [LF] @ ''1'' @ [LF] @ ''2'')), ir_strategy = None, ir_schema = None, ir_keyField = None\<rparr>"

definition demo_db :: import_db where
  "demo_db = db_after (run_task demo_env) [] (db_after (post_import demo_env demo_request) [] import_empty)"

lemma demo_import_reach: "reach (\<lambda>db. db = import_empty) import_step demo_db"
proof -
  have "reach (\<lambda>db. db = import_empty) import_step import_empty" by (rule reach_init) (rule refl)
  then have "reach (\<lambda>db. db = import_empty) import_step (db_after (post_import demo_env demo_request) [] import_empty)"
    by (rule reach_step) (rule step_post)
  then show ?thesis unfolding demo_db_def by (rule reach_step) (rule step_task)
qed

lemma demo_done: "map (\<lambda>j. (ij_status j, ij_processedRows j)) (im_jobs demo_db) = [(StDone, Some 2)]"
  by code_simp

theorem done_jobs_complete_witness:
  "ij_errorCount (hd (im_jobs demo_db)) = Some 0 \<and> ij_totalRows (hd (im_jobs demo_db)) = Some 2"
proof -
  obtain j where j: "im_jobs demo_db = [j]" "ij_status j = StDone" "ij_processedRows j = Some 2"
    using demo_done by (cases "im_jobs demo_db") auto
  then show ?thesis using done_jobs_complete [OF demo_import_reach, of j] by auto
qed

section \<open>The outcome of an undisturbed task\<close>

definition import_outcome :: "import_env \<Rightarrow> import_task \<Rightarrow> ImportStatus" where
  "import_outcome env t = (case read_rows env (tk_format t) (tk_content t) of
      Inl e \<Rightarrow> StFailed
    | Inr rows \<Rightarrow> (case inspect_rows env t rows of
        Inl e \<Rightarrow> StFailed
      | Inr ins \<Rightarrow> if in_errors ins = [] then StDone else StPreviewing))"

definition has_job :: "nat \<Rightarrow> import_db \<Rightarrow> bool" where
  "has_job i db \<longleftrightarrow> list_ex (\<lambda>j. ij_id j = i) (im_jobs db)"

definition put_job :: "nat \<Rightarrow> (ImportJob \<Rightarrow> ImportJob) \<Rightarrow> import_db \<Rightarrow> import_db" where
  "put_job i f db = db\<lparr>im_jobs := table_update (\<lambda>j. ij_id j = i) f (im_jobs db)\<rparr>"

definition status_at :: "nat \<Rightarrow> import_db \<Rightarrow> ImportStatus option" where
  "status_at i db = map_option ij_status (List.find (\<lambda>j. ij_id j = i) (im_jobs db))"

lemma job_update_run: "has_job i db \<Longrightarrow> job_update i f (db, []) = (Inr (), put_job i f db, [])"
  by (simp add: job_update_def has_job_def put_job_def io_simps)

lemma has_job_put [simp]: "(\<And>j. ij_id (f j) = ij_id j) \<Longrightarrow> has_job i (put_job k f db) = has_job i db"
  by (auto simp: has_job_def put_job_def table_update_def list_ex_iff)

lemma status_at_put:
  assumes "\<And>j. ij_id (f j) = ij_id j" and "\<And>j. ij_status (f j) = st" and "has_job i db"
  shows "status_at i (put_job i f db) = Some st"
proof -
  have "List.find (\<lambda>j. ij_id j = i) (im_jobs db) \<noteq> None"
    using assms(3) by (auto simp: has_job_def find_None_iff list_ex_iff)
  moreover have "List.find (\<lambda>j. ij_id j = i) (table_update (\<lambda>j. ij_id j = i) f js) =
      map_option f (List.find (\<lambda>j. ij_id j = i) js)" for js
    by (induction js) (auto simp: table_update_def assms(1))
  ultimately show ?thesis by (auto simp: status_at_def put_job_def assms(2))
qed

lemma process_rows_run:
  "has_job i db \<Longrightarrow> \<exists>db'. process_rows i strategy dups rows k (db, []) = (Inr (k + length rows), db', []) \<and> has_job i db'"
proof (induction rows arbitrary: k db)
  case Nil
  then show ?case by (simp add: io_simps)
next
  case (Cons row rows)
  have more: "\<exists>db'. process_rows i strategy dups rows (k + 1) (db1, []) = (Inr (k + length (row # rows)), db', []) \<and> has_job i db'"
    if "has_job i db1" for db1 using Cons.IH [OF that, of "k + 1"] by simp
  show ?case
    using more [OF Cons.prems] more [of "put_job i (\<lambda>j. j\<lparr>ij_processedRows := Some (k + 1)\<rparr>) db"] Cons.prems
    by (auto simp: io_bind_run io_return_run job_update_run)
qed

lemma commit_rows_run:
  assumes "has_job (tk_jobId t) db"
  shows "\<exists>db'. commit_rows env t rows ins (db, []) = (Inr (), db', []) \<and>
    status_at (tk_jobId t) db' = Some (if in_errors ins = [] then StDone else StPreviewing)"
proof -
  let ?i = "tk_jobId t"
  let ?p = "put_job ?i (set_preview rows ins) db"
  have p: "has_job ?i ?p" "status_at ?i ?p = Some StPreviewing"
    using assms by (auto simp: set_preview_def intro!: status_at_put)
  obtain db' where loop: "process_rows ?i (tk_strategy t) (in_duplicates ins) rows 0
      (put_job ?i (\<lambda>j. j\<lparr>ij_status := StProcessing\<rparr>) ?p, []) = (Inr (length rows), db', [])" "has_job ?i db'"
    using process_rows_run [of ?i "put_job ?i (\<lambda>j. j\<lparr>ij_status := StProcessing\<rparr>) ?p" "tk_strategy t" "in_duplicates ins" rows 0] p(1)
    by auto
  have "status_at ?i (put_job ?i (set_done env t rows (length rows)) db') = Some StDone"
    using loop(2) by (intro status_at_put) (simp_all add: set_done_def)
  then show ?thesis
    using p loop assms by (auto simp: commit_rows_def io_bind_run io_return_run job_update_run)
qed

text \<open>Without failing calls, one run of the task settles the job: it is failed exactly if the reader or
  the inspection of the rows throws, it stays in the preview exactly if some row breaks the schema, and
  otherwise it is done. The task is then over, so a job with row errors is never moved on: there is no
  operation that commits or abandons it.\<close>

theorem task_settles_job:
  assumes "has_job (tk_jobId t) db"
  shows "\<exists>db'. processImportJobAsync env t (db, []) = (Inr (), db', []) \<and>
    status_at (tk_jobId t) db' = Some (import_outcome env t)"
proof -
  let ?i = "tk_jobId t"
  let ?v = "put_job ?i (\<lambda>j. j\<lparr>ij_status := StValidating\<rparr>) db"
  have v: "has_job ?i ?v" using assms by simp
  have failed: "status_at ?i (put_job ?i (set_failed e) ?v) = Some StFailed" for e
    using v by (intro status_at_put) (simp_all add: set_failed_def)
  show ?thesis
  proof (cases "read_rows env (tk_format t) (tk_content t)")
    case (Inl e)
    with v failed show ?thesis
      by (simp add: processImportJobAsync_def import_outcome_def io_catch_run io_bind_run job_update_run assms)
  next
    case rows: (Inr rows)
    show ?thesis
    proof (cases "inspect_rows env t rows")
      case (Inl e)
      with rows v failed show ?thesis
        by (simp add: processImportJobAsync_def import_outcome_def io_catch_run io_bind_run io_throw_run job_update_run assms)
    next
      case (Inr ins)
      with rows v commit_rows_run [OF v, of env rows ins] show ?thesis
        by (auto simp: processImportJobAsync_def import_outcome_def io_catch_run io_bind_run job_update_run assms)
    qed
  qed
qed

definition demo_task :: "FieldSchema list \<Rightarrow> import_task" where
  "demo_task schema = \<lparr>tk_jobId = 1, tk_content = ''id'' @ [LF] @ ''x'', tk_format = FCsv, tk_strategy = Skip, tk_schema = schema, tk_keyField = ''id''\<rparr>"

definition demo_number :: FieldSchema where
  "demo_number = \<lparr>fs_name = ''id'', fs_required = True, fs_type = Some TNumber, fs_maxLength = None, fs_pattern = None\<rparr>"

theorem task_settles_job_witness:
  "import_outcome demo_env (demo_task [demo_number]) = StPreviewing \<and>
   (\<exists>db'. processImportJobAsync demo_env (demo_task [demo_number]) (demo_db, []) = (Inr (), db', []) \<and>
      status_at 1 db' = Some StPreviewing)"
proof -
  have out: "import_outcome demo_env (demo_task [demo_number]) = StPreviewing" by code_simp
  have "has_job (tk_jobId (demo_task [demo_number])) demo_db" by code_simp
  from task_settles_job [OF this, of demo_env] out show ?thesis by (simp add: demo_task_def)
qed

section \<open>Who may roll back\<close>

lemma rollback_run:
  assumes "List.find (\<lambda>j. ij_id j = i) (im_jobs db) = Some job" and "ij_status job = StDone" and "ij_rollbackData job \<noteq> None"
  shows "rollbackImportJob i (JStr (ij_userId job)) (db, []) =
    (Inr (RolledBack i), put_job i (\<lambda>j. j\<lparr>ij_status := StRolledBack\<rparr>) db, [])"
proof -
  have "has_job i db" using find_SomeD [OF assms(1)] by (auto simp: has_job_def list_ex_iff)
  then show ?thesis
    using assms by (simp add: rollbackImportJob_def job_find_def bind_read_cases io_bind_run [of "job_update _ _"] io_return_run job_update_run)
qed

text \<open>A rollback is not bound to who asks. The user that \<open>post_rollback\<close> compares with the owner is
  taken from the request, and \<open>get_import\<close> tells anybody the owner of a job: whoever knows the number of a
  finished job reads the owner from the first reply, sends it with the second request, and the job is rolled
  back.\<close>

theorem stranger_rolls_back:
  assumes "List.find (\<lambda>j. ij_id j = i) (im_jobs db) = Some job" and "ij_status job = StDone"
    and "ij_rollbackData job \<noteq> None" and "ij_userId job \<noteq> ''''"
  shows "\<exists>s db'. get_import (nat_str i) (db, []) = (Inr (Reply 200 (StatusBody s)), db, []) \<and>
    post_rollback (nat_str i) (Some (JStr (ij_userId (js_job s)))) (db, []) = (Inr (Reply 200 (RollbackBody i)), db', []) \<and>
    status_at i db' = Some StRolledBack"
proof -
  let ?db' = "put_job i (\<lambda>j. j\<lparr>ij_status := StRolledBack\<rparr>) db"
  have "has_job i db" using find_SomeD [OF assms(1)] by (auto simp: has_job_def list_ex_iff)
  then have "status_at i ?db' = Some StRolledBack" by (intro status_at_put) simp_all
  moreover have "get_import (nat_str i) (db, []) =
      (Inr (Reply 200 (StatusBody \<lparr>js_job = job, js_duplicateCount = length (job_duplicates job)\<rparr>)), db, [])"
    using assms(1) by (simp add: get_import_def with_job_def find_param_def getImportJob_def job_find_def io_catch_run bind_read_cases io_return_run)
  moreover have "post_rollback (nat_str i) (Some (JStr (ij_userId job))) (db, []) = (Inr (Reply 200 (RollbackBody i)), ?db', [])"
    using rollback_run [OF assms(1,2,3)] assms(4)
    by (simp add: post_rollback_def truthy_def io_catch_run io_bind_run io_return_run rollback_reply_def)
  ultimately show ?thesis by (metis job_status.select_convs(1))
qed

theorem stranger_rolls_back_witness:
  "\<exists>s db'. get_import ''1'' (demo_db, []) = (Inr (Reply 200 (StatusBody s)), demo_db, []) \<and>
    post_rollback ''1'' (Some (JStr (ij_userId (js_job s)))) (demo_db, []) = (Inr (Reply 200 (RollbackBody 1)), db', []) \<and>
    status_at 1 db' = Some StRolledBack"
proof -
  let ?job = "hd (im_jobs demo_db)"
  have job: "List.find (\<lambda>j. ij_id j = 1) (im_jobs demo_db) = Some ?job" "ij_status ?job = StDone"
      "ij_rollbackData ?job \<noteq> None" "ij_userId ?job \<noteq> ''''" by code_simp+
  have "nat_str 1 = ''1''" by code_simp
  with stranger_rolls_back [OF job] show ?thesis by simp
qed

end
