(* ===== verification/Payment_Exports.thy ===== *)
theory Payment_Exports
  imports Csv Token_Amounts
begin

text \<open>
  The two exports of payments: \<^verbatim>\<open>backend/src/routes/payments.ts\<close> (payment rows, or executed events when
  the first query fails, as CSV or JSON) and the CSV part of \<^verbatim>\<open>backend/src/routes/reports.ts\<close> (audit rows).
  Both stream batches of rows. The table does not change during an export; each query takes one
  outcome from a list (\<open>True\<close> fails). When a stream breaks, some rows may still wait in its buffer and are
  lost, so the number of rows that were passed on is an argument. ISO dates are an argument.
  The batches are read with an offset in an order by time alone. Rows of equal time come in the order of the table, in every
  batch the same; the database does not promise that, and with another order in each query a row on the border of
  two batches could be exported twice or not at all.

  The JSON part of \<^verbatim>\<open>reports.ts\<close> calls \<^verbatim>\<open>CacheKey.analyticsRevenue\<close>, which \<^verbatim>\<open>lib/redis.ts\<close> does not export:
  the handler throws there.
\<close>

section \<open>Cells and rows\<close>

definition needs_quotes :: "char \<Rightarrow> bool" where
  "needs_quotes c = (c = QUOTE \<or> c = CHR '','' \<or> c = CR \<or> c = LF)"

definition escapeCsvCell :: "string \<Rightarrow> string" where
  "escapeCsvCell value = (if list_ex needs_quotes value then [QUOTE] @ quote_chars value @ [QUOTE] else value)"

definition toCsvRow :: "string list \<Rightarrow> string" where
  "toCsvRow cells = js_join (map escapeCsvCell cells) @ [CR, LF]"

text \<open>\<^verbatim>\<open>s.replace(/0+$/, '') || '0'\<close>\<close>

definition strip_zeros :: "string \<Rightarrow> string" where
  "strip_zeros s = (let t = rev (dropWhile (\<lambda>c. c = CHR ''0'') (rev s)) in if t = '''' then ''0'' else t)"

text \<open>The two versions of \<open>toHumanAmount\<close>: that of the payment export splits off the sign first.\<close>

definition toHumanAmount :: "string \<Rightarrow> string" where
  "toHumanAmount raw = (case big_int raw of
      None \<Rightarrow> raw
    | Some n \<Rightarrow>
        (let isNeg = n < 0; absn = (if isNeg then - n else n);
             wholePart = js_quot absn 10000000; fracPart = js_rem absn 10000000 in
         (if isNeg then ''-'' else '''') @ int_str wholePart @ ''.'' @ strip_zeros (padStart (int_str fracPart) 7)))"

definition report_toHumanAmount :: "string \<Rightarrow> string" where
  "report_toHumanAmount raw = (case big_int raw of
      None \<Rightarrow> raw
    | Some n \<Rightarrow> int_str (js_quot n 10000000) @ ''.'' @ strip_zeros (padStart (int_str (js_rem n 10000000)) 7))"

section \<open>Batches\<close>

text \<open>\<open>createDbReadable\<close>: the batches pushed, and whether the stream ended without an error.\<close>

function read_batches :: "'r list \<Rightarrow> nat \<Rightarrow> nat \<Rightarrow> bool list \<Rightarrow> 'r list \<times> bool" where
  "read_batches table batchSize offset fs =
     (if fs \<noteq> [] \<and> hd fs then ([], False)
      else let rows = take batchSize (drop offset table) in
        if rows = [] then ([], True)
        else if length rows < batchSize then (rows, True)
        else (case read_batches table batchSize (offset + length rows) (tl fs) of (rest, ok) \<Rightarrow> (rows @ rest, ok)))"
  by pat_completeness auto
termination
  by (relation "measure (\<lambda>(table, _, offset, _). length table - offset)") auto

declare read_batches.simps [simp del]

text \<open>\<open>createPaymentReadable\<close>: every batch asks the payment table first and the events when that fails, at the
  same offset.\<close>

definition batch_query :: "'r list \<Rightarrow> 'r list \<Rightarrow> nat \<Rightarrow> nat \<Rightarrow> bool list \<Rightarrow> 'r list option \<times> bool list" where
  "batch_query payments events batchSize offset fs =
     (if fs \<noteq> [] \<and> hd fs then
        (let gs = tl fs in
         if gs \<noteq> [] \<and> hd gs then (None, tl gs) else (Some (take batchSize (drop offset events)), tl gs))
      else (Some (take batchSize (drop offset payments)), tl fs))"

lemma batch_query_progress:
  "batch_query payments events batchSize offset fs = (Some rows, gs) \<Longrightarrow> rows \<noteq> [] \<Longrightarrow>
   offset < max (length payments) (length events)"
  by (auto simp: batch_query_def Let_def split: if_splits)

lemma batch_measure: "xs \<noteq> [] \<Longrightarrow> i < (m :: nat) \<Longrightarrow> m - (i + length xs) < m - i"
  by (cases xs) auto

function payment_batches :: "'r list \<Rightarrow> 'r list \<Rightarrow> nat \<Rightarrow> nat \<Rightarrow> bool list \<Rightarrow> 'r list \<times> bool" where
  "payment_batches payments events batchSize offset fs =
     (case batch_query payments events batchSize offset fs of
        (None, gs) \<Rightarrow> ([], False)
      | (Some rows, gs) \<Rightarrow>
          if rows = [] then ([], True)
          else if length rows < batchSize then (rows, True)
          else (case payment_batches payments events batchSize (offset + length rows) gs of (rest, ok) \<Rightarrow> (rows @ rest, ok)))"
  by pat_completeness auto
termination
  by (relation "measure (\<lambda>(payments, events, _, offset, _). max (length payments) (length events) - offset)")
    (auto dest!: batch_query_progress [OF sym] intro: batch_measure)

declare payment_batches.simps [simp del]

section \<open>The payment export\<close>

text \<open>A record of either table: what a table has no column for is \<open>None\<close>.\<close>

record payment_record =
  pm_timestamp :: "int option"
  pm_ledgerTimestamp :: "int option"
  pm_amount :: "string option"
  pm_status :: "string option"
  pm_type :: "string option"
  pm_subscriber :: "string option"
  pm_token :: "string option"
  pm_txHash :: "string option"
  pm_transactionHash :: "string option"
  pm_paymentNonce :: "nat option"

definition or_else :: "'a option \<Rightarrow> 'a option \<Rightarrow> 'a option" where
  "or_else a b = (case a of Some _ \<Rightarrow> a | None \<Rightarrow> b)"

definition or_text :: "string option \<Rightarrow> string \<Rightarrow> string" where
  "or_text a d = (case a of Some s \<Rightarrow> s | None \<Rightarrow> d)"

record NormalisedRow =
  nr_date :: string
  nr_type :: string
  nr_subscriber :: string
  nr_amountHuman :: string
  nr_amountRaw :: string
  nr_token :: string
  nr_txHash :: string
  nr_nonce :: string

definition normaliseRow :: "(int \<Rightarrow> string) \<Rightarrow> int \<Rightarrow> payment_record \<Rightarrow> NormalisedRow" where
  "normaliseRow isoDate now r =
     \<lparr>nr_date = (case pm_timestamp r of Some t \<Rightarrow> isoDate t | None \<Rightarrow>
        (case pm_ledgerTimestamp r of Some l \<Rightarrow> isoDate (l * 1000) | None \<Rightarrow> isoDate now)),
      nr_type = or_text (or_else (pm_status r) (pm_type r)) ''executed'',
      nr_subscriber = or_text (pm_subscriber r) '''',
      nr_amountHuman = toHumanAmount (or_text (pm_amount r) ''0''),
      nr_amountRaw = or_text (pm_amount r) ''0'',
      nr_token = or_text (pm_token r) '''',
      nr_txHash = or_text (or_else (pm_txHash r) (pm_transactionHash r)) '''',
      nr_nonce = (case pm_paymentNonce r of Some n \<Rightarrow> nat_str n | None \<Rightarrow> '''')\<rparr>"

definition row_cells :: "NormalisedRow \<Rightarrow> string list" where
  "row_cells r = [nr_date r, nr_type r, nr_subscriber r, nr_amountHuman r, nr_amountRaw r, nr_token r, nr_txHash r, nr_nonce r]"

definition CSV_COLUMNS :: "string list" where
  "CSV_COLUMNS = [''Date'', ''Type'', ''Subscriber'', ''Amount (human-readable)'', ''Amount (raw)'', ''Token'', ''Tx Hash'', ''Nonce'']"

text \<open>The rows of the two tables as the queries return them.\<close>

record payment_entry =
  pe_subscriber :: string
  pe_merchant :: string
  pe_token :: string
  pe_amount :: string
  pe_eventType :: string
  pe_txHash :: string
  pe_paymentNonce :: nat
  pe_timestamp :: int

record event_entry =
  ev_type :: string
  ev_subscriber :: string
  ev_merchant :: string
  ev_token :: string
  ev_amount :: string
  ev_ledgerTimestamp :: int

definition of_payment :: "payment_entry \<Rightarrow> payment_record" where
  "of_payment p = \<lparr>pm_timestamp = Some (pe_timestamp p), pm_ledgerTimestamp = None, pm_amount = Some (pe_amount p),
     pm_status = None, pm_type = None, pm_subscriber = Some (pe_subscriber p), pm_token = Some (pe_token p),
     pm_txHash = Some (pe_txHash p), pm_transactionHash = None, pm_paymentNonce = Some (pe_paymentNonce p)\<rparr>"

definition of_event :: "event_entry \<Rightarrow> payment_record" where
  "of_event e = \<lparr>pm_timestamp = None, pm_ledgerTimestamp = Some (ev_ledgerTimestamp e), pm_amount = Some (ev_amount e),
     pm_status = None, pm_type = Some (ev_type e), pm_subscriber = Some (ev_subscriber e), pm_token = Some (ev_token e),
     pm_txHash = None, pm_transactionHash = None, pm_paymentNonce = None\<rparr>"

definition payment_query :: "string \<Rightarrow> payment_entry list \<Rightarrow> payment_record list" where
  "payment_query merchant ps = map of_payment (sort_key pe_timestamp (filter (\<lambda>p. pe_merchant p = merchant) ps))"

definition event_query :: "string \<Rightarrow> event_entry list \<Rightarrow> payment_record list" where
  "event_query merchant es = map of_event
     (sort_key ev_ledgerTimestamp (filter (\<lambda>e. ev_merchant e = merchant \<and> ev_type e = ''executed'') es))"

text \<open>A reply with its body; the flag says whether the response was ended, rather than cut off.\<close>

datatype export_reply =
    BadRequest string
  | CsvReply string string bool
  | JsonReply string "NormalisedRow list" bool

record export_env =
  xe_iso :: "int \<Rightarrow> string"
  xe_now :: int
  xe_passed :: nat

definition export_filename :: "export_env \<Rightarrow> string \<Rightarrow> string \<Rightarrow> string" where
  "export_filename env merchant ext =
     ''payments-'' @ take 8 merchant @ ''-'' @ hd (js_split (CHR ''T'') (xe_iso env (xe_now env))) @ ''.'' @ ext"

text \<open>The handler. An error of the stream cuts a CSV response off; in a JSON response the headers are sent by
  then, so the array is closed and the response ended.\<close>

definition payment_export ::
    "export_env \<Rightarrow> payment_entry list \<Rightarrow> event_entry list \<Rightarrow> string \<Rightarrow> string option \<Rightarrow> bool list \<Rightarrow> export_reply" where
  "payment_export env ps es merchant fmt fs =
     (let format = js_lower (or_text fmt ''csv'') in
      if merchant = '''' then BadRequest ''merchant path parameter is required''
      else if format \<noteq> ''csv'' \<and> format \<noteq> ''json'' then BadRequest (''format must be '' @ [QUOTE] @ ''csv'' @ [QUOTE] @ '' or '' @ [QUOTE] @ ''json'' @ [QUOTE])
      else case payment_batches (payment_query merchant ps) (event_query merchant es) 500 0 fs of (records, ok) \<Rightarrow>
        (let rows = map (normaliseRow (xe_iso env) (xe_now env)) (if ok then records else take (xe_passed env) records) in
         if format = ''csv''
         then CsvReply (export_filename env merchant ''csv'')
                (toCsvRow CSV_COLUMNS @ concat (map (\<lambda>r. toCsvRow (row_cells r)) rows)) ok
         else JsonReply (export_filename env merchant ''json'') rows True))"

section \<open>The report\<close>

record AuditLog =
  au_createdAt :: int
  au_subscriber :: string
  au_merchant :: string
  au_token :: string
  au_amount :: string
  au_transactionHash :: string
  au_status :: string

datatype report_status = AnyStatus | Success | Failed

record ReportQuery =
  rq_merchant :: string
  rq_from :: "int option"
  rq_to :: "int option"
  rq_csv :: bool
  rq_status :: report_status
  rq_limit :: nat
  rq_offset :: nat

definition report_where :: "ReportQuery \<Rightarrow> AuditLog \<Rightarrow> bool" where
  "report_where q r =
     (au_merchant r = rq_merchant q \<and>
      (case rq_from q of Some t \<Rightarrow> t \<le> au_createdAt r | None \<Rightarrow> True) \<and>
      (case rq_to q of Some t \<Rightarrow> au_createdAt r \<le> t | None \<Rightarrow> True) \<and>
      (case rq_status q of AnyStatus \<Rightarrow> True | Success \<Rightarrow> au_status r = ''executed'' | Failed \<Rightarrow> au_status r \<noteq> ''executed''))"

definition CSV_HEADERS :: "string list" where
  "CSV_HEADERS = [''Date'', ''Subscriber'', ''Token'', ''Amount (human-readable)'', ''Amount (raw)'', ''Tx Hash'', ''Status'']"

definition toPaymentRow :: "(int \<Rightarrow> string) \<Rightarrow> AuditLog \<Rightarrow> string list" where
  "toPaymentRow isoDate r = [isoDate (au_createdAt r), au_subscriber r, au_token r, report_toHumanAmount (au_amount r),
     au_amount r, au_transactionHash r, au_status r]"

datatype report_reply = ReportThrows | ReportCsv string string bool

definition report_export :: "export_env \<Rightarrow> AuditLog list \<Rightarrow> ReportQuery \<Rightarrow> bool list \<Rightarrow> report_reply" where
  "report_export env logs q fs =
     (if \<not> rq_csv q then ReportThrows
      else case read_batches (sort_key au_createdAt (filter (report_where q) logs)) 500 0 fs of (records, ok) \<Rightarrow>
        ReportCsv (''payments-'' @ take 8 (rq_merchant q) @ ''-'' @ int_str (xe_now env) @ ''.csv'')
          (toCsvRow CSV_HEADERS @ concat (map (\<lambda>r. toCsvRow (toPaymentRow (xe_iso env) r)) (if ok then records else take (xe_passed env) records)))
          ok)"

section \<open>Batches cover the table\<close>

lemma take_drop_batch:
  "take n (drop i xs) @ drop (i + length (take n (drop i xs))) xs = drop i xs"
proof -
  have "drop (i + length (take n (drop i xs))) xs = drop n (drop i xs)"
    by (cases "n \<le> length (drop i xs)") (simp_all add: add.commute)
  then show ?thesis by (simp only: append_take_drop_id)
qed

lemma read_batches_exact:
  assumes "0 < batchSize"
  shows "read_batches table batchSize offset [] = (drop offset table, True)"
proof (induction "length table - offset" arbitrary: offset rule: less_induct)
  case less
  let ?rows = "take batchSize (drop offset table)"
  show ?case
  proof (cases "?rows = [] \<or> length ?rows < batchSize")
    case True
    then have "?rows = drop offset table" using assms by auto
    then show ?thesis using True by (auto simp: read_batches.simps [of _ _ offset] Let_def)
  next
    case False
    then have "length table - (offset + length ?rows) < length table - offset" by (auto simp: min_def)
    from less [OF this] False show ?thesis
      using take_drop_batch [of batchSize offset table]
      by (simp add: read_batches.simps [of _ _ offset] Let_def)
  qed
qed

text \<open>When every query of the payment table succeeds, the events do not matter.\<close>

lemma payment_batches_exact:
  assumes "0 < batchSize"
  shows "payment_batches payments events batchSize offset [] = (drop offset payments, True)"
proof (induction "length payments - offset" arbitrary: offset rule: less_induct)
  case less
  let ?rows = "take batchSize (drop offset payments)"
  have query: "batch_query payments events batchSize offset [] = (Some ?rows, [])" by (simp add: batch_query_def)
  show ?case
  proof (cases "?rows = [] \<or> length ?rows < batchSize")
    case True
    then have "?rows = drop offset payments" using assms by auto
    then show ?thesis using True query by (auto simp: payment_batches.simps [of _ _ _ offset])
  next
    case False
    then have "length payments - (offset + length ?rows) < length payments - offset" by (auto simp: min_def)
    from less [OF this] False query show ?thesis
      using take_drop_batch [of batchSize offset payments]
      by (simp add: payment_batches.simps [of _ _ _ offset])
  qed
qed

section \<open>An export can be imported\<close>

lemma csv_scan_plain:
  "list_all (\<lambda>c. c \<noteq> QUOTE \<and> c \<noteq> CHR '','') v \<Longrightarrow> csv_scan (v @ rest) current False = csv_scan rest (current @ v) False"
  by (induction v arbitrary: current) auto

lemma csv_scan_escaped:
  assumes "rest = [] \<or> hd rest \<noteq> QUOTE"
  shows "csv_scan (escapeCsvCell v @ rest) [] False = csv_scan rest v False"
proof (cases "list_ex needs_quotes v")
  case True
  then show ?thesis using csv_scan_field [OF assms, of v] by (simp add: escapeCsvCell_def quote_field_def)
next
  case False
  then have "list_all (\<lambda>c. c \<noteq> QUOTE \<and> c \<noteq> CHR '','') v" by (auto simp: list_ex_iff list_all_iff needs_quotes_def)
  then show ?thesis using False csv_scan_plain [of v rest "[]"] by (simp add: escapeCsvCell_def)
qed

definition csv_line :: "string list \<Rightarrow> string" where
  "csv_line cells = js_join (map escapeCsvCell cells)"

lemma split_csv_line: "cells \<noteq> [] \<Longrightarrow> splitCsvLine (csv_line cells) = cells"
  unfolding splitCsvLine_def csv_line_def
proof (induction cells rule: induct_list012)
  case (2 v)
  then show ?case using csv_scan_escaped [of "[]" v] by simp
next
  case (3 v w vs)
  then show ?case using csv_scan_escaped [of "CHR '','' # js_join (map escapeCsvCell (w # vs))" v] by simp
qed simp

text \<open>A line of at least two cells without white space at their ends has none at its ends either.\<close>

definition cell_ok :: "string \<Rightarrow> bool" where
  "cell_ok v \<longleftrightarrow> CR \<notin> set v \<and> LF \<notin> set v \<and> js_trim v = v"

lemma trimmed_ends: "js_trim v = v \<Longrightarrow> v \<noteq> [] \<Longrightarrow> \<not> is_space (hd v) \<and> \<not> is_space (last v)"
proof
  assume v: "js_trim v = v" "v \<noteq> []"
  define w where "w = dropWhile is_space v"
  have vw: "v = rev (dropWhile is_space (rev w))" using v(1) by (simp add: js_trim_def w_def)
  then have "w \<noteq> []" using v(2) by auto
  have "length v \<le> length w" using vw length_dropWhile_le [of is_space "rev w"] by (metis length_rev)
  moreover have split_v: "takeWhile is_space v @ w = v" by (simp add: w_def)
  moreover have "length (takeWhile is_space v) + length w = length v" by (metis length_append split_v)
  ultimately have "length (takeWhile is_space v) = 0" by linarith
  with split_v have "w = v" by simp
  then show "\<not> is_space (hd v)" using v(2) hd_dropWhile [of is_space v] by (simp add: w_def)
  have "dropWhile is_space (rev v) = rev v" using vw \<open>w = v\<close> by (metis rev_rev_ident)
  then show "\<not> is_space (last v)" using v(2) hd_dropWhile [of is_space "rev v"] by (simp add: hd_rev)
qed

lemma escape_ends:
  assumes "cell_ok v"
  shows "escapeCsvCell v = [] \<or> \<not> is_space (hd (escapeCsvCell v)) \<and> \<not> is_space (last (escapeCsvCell v))"
  using assms trimmed_ends [of v] by (auto simp: escapeCsvCell_def cell_ok_def)

lemma csv_line_Cons: "csv_line (v # w # vs) = escapeCsvCell v @ CHR '','' # csv_line (w # vs)"
  by (simp add: csv_line_def)

lemma comma_no_space [simp]: "\<not> is_space (CHR '','')"
  by (simp add: is_space_def)

lemma csv_line_last:
  assumes "list_all cell_ok (w # vs)"
  shows "csv_line (w # vs) = [] \<or> \<not> is_space (last (csv_line (w # vs)))"
  using assms
proof (induction vs arbitrary: w)
  case Nil
  then show ?case using escape_ends [of w] by (auto simp: csv_line_def)
next
  case (Cons u us)
  then have "csv_line (u # us) = [] \<or> \<not> is_space (last (csv_line (u # us)))" by simp
  then show ?case by (auto simp: csv_line_Cons)
qed

lemma csv_line_ends:
  assumes "2 \<le> length cells" and "list_all cell_ok cells"
  shows "csv_line cells \<noteq> []" and "\<not> is_space (hd (csv_line cells))" and "\<not> is_space (last (csv_line cells))"
proof -
  obtain v w vs where c: "cells = v # w # vs" using assms(1) by (cases cells; cases "tl cells") auto
  have ok: "cell_ok v" "list_all cell_ok (w # vs)" using assms(2) by (simp_all add: c)
  show "csv_line cells \<noteq> []" by (simp add: c csv_line_Cons)
  show "\<not> is_space (hd (csv_line cells))" using escape_ends [OF ok(1)] by (auto simp: c csv_line_Cons hd_append)
  show "\<not> is_space (last (csv_line cells))" using csv_line_last [OF ok(2)] by (auto simp: c csv_line_Cons)
qed

lemma csv_line_no_LF: "list_all cell_ok cells \<Longrightarrow> LF \<notin> set (csv_line cells)"
proof (induction cells rule: induct_list012)
  case (2 v)
  then show ?case by (auto simp: csv_line_def escapeCsvCell_def cell_ok_def set_quote_chars)
next
  case (3 v w vs)
  then show ?case by (auto simp: csv_line_Cons escapeCsvCell_def cell_ok_def set_quote_chars)
qed (simp add: csv_line_def)

definition csv_text :: "string list list \<Rightarrow> string" where
  "csv_text rows = concat (map toCsvRow rows)"

lemma toCsvRow_line: "toCsvRow cells = csv_line cells @ [CR, LF]"
  by (simp add: toCsvRow_def csv_line_def)

text \<open>All lines but the last keep their line end when the text is trimmed.\<close>

fun csv_body :: "string list list \<Rightarrow> string" where
  "csv_body [] = []"
| "csv_body [r] = csv_line r"
| "csv_body (r # s # rs) = csv_line r @ [CR, LF] @ csv_body (s # rs)"

lemma csv_text_body: "rows \<noteq> [] \<Longrightarrow> csv_text rows = csv_body rows @ [CR, LF]"
  by (induction rows rule: csv_body.induct) (auto simp: csv_text_def toCsvRow_line)

definition table_ok :: "string list list \<Rightarrow> bool" where
  "table_ok rows \<longleftrightarrow> list_all (\<lambda>r. 2 \<le> length r \<and> list_all cell_ok r) rows"

lemma csv_body_ends:
  "rows \<noteq> [] \<Longrightarrow> table_ok rows \<Longrightarrow>
   csv_body rows \<noteq> [] \<and> \<not> is_space (hd (csv_body rows)) \<and> \<not> is_space (last (csv_body rows))"
proof (induction rows rule: csv_body.induct)
  case (2 r)
  then show ?case using csv_line_ends [of r] by (simp add: table_ok_def)
next
  case (3 r s rs)
  then show ?case using csv_line_ends [of r] by (simp add: table_ok_def)
qed simp

lemma js_trim_CRLF: "s \<noteq> [] \<Longrightarrow> \<not> is_space (hd s) \<Longrightarrow> \<not> is_space (last s) \<Longrightarrow> js_trim (s @ [CR, LF]) = s"
proof -
  assume s: "s \<noteq> []" "\<not> is_space (hd s)" "\<not> is_space (last s)"
  have sp: "is_space CR" "is_space LF" by (simp_all add: is_space_def CR_def LF_def)
  have "dropWhile is_space (s @ [CR, LF]) = s @ [CR, LF]" using s(1,2) by (cases s) simp_all
  moreover have "dropWhile is_space (rev s) = rev s" using s(1,3) by (cases s rule: rev_cases) simp_all
  ultimately show ?thesis by (simp add: js_trim_def sp)
qed

lemma split_csv_body:
  assumes "rows \<noteq> []" and "table_ok rows"
  shows "js_split LF (csv_body rows) = map (\<lambda>r. csv_line r @ [CR]) (butlast rows) @ [csv_line (last rows)]"
  using assms
proof (induction rows rule: csv_body.induct)
  case (2 r)
  then show ?case by (simp add: js_split_no_sep csv_line_no_LF table_ok_def)
next
  case (3 r s rs)
  have "LF \<notin> set (csv_line r @ [CR])" using 3 by (simp add: csv_line_no_LF table_ok_def)
  then have "js_split LF ((csv_line r @ [CR]) @ LF # csv_body (s # rs)) = (csv_line r @ [CR]) # js_split LF (csv_body (s # rs))"
    by (rule js_split_append)
  then show ?case using 3 by (simp add: table_ok_def)
qed simp

lemma csv_text_imports:
  assumes "table_ok (headers # rows)" and "distinct headers" and "list_all (\<lambda>r. length r = length headers) rows"
  shows "parseCsv (csv_text (headers # rows)) = map (\<lambda>r. JObj (zip headers (map JStr r))) rows"
proof (rule parseCsv_lines [where line = csv_line, OF _ _ assms(2,3)])
  let ?t = "headers # rows"
  have "js_trim (csv_text ?t) = csv_body ?t"
    using csv_body_ends [OF _ assms(1)] by (simp add: csv_text_body js_trim_CRLF)
  moreover have "map chop_cr (map (\<lambda>r. csv_line r @ [CR]) (butlast ?t)) = map csv_line (butlast ?t)"
    by (simp add: chop_cr_def)
  moreover have "map csv_line ?t = map csv_line (butlast ?t) @ [csv_line (last ?t)]"
    by (metis append_butlast_last_id list.simps(3) list.simps(8,9) map_append)
  ultimately show "split_lines (js_trim (csv_text ?t)) = map csv_line ?t"
    using split_csv_body [OF _ assms(1)] by (simp add: split_lines_def Let_def)
  show "csv_line r \<noteq> '''' \<and> js_trim (csv_line r) = csv_line r \<and> splitCsvLine (csv_line r) = r" if "r \<in> set ?t" for r
  proof -
    have r: "2 \<le> length r" "list_all cell_ok r" using that assms(1) by (auto simp: table_ok_def list_all_iff)
    then have "r \<noteq> []" by auto
    then show ?thesis using csv_line_ends [OF r] split_csv_line by (auto intro!: js_trim_ends)
  qed
  show "list_all (list_all (\<lambda>f. js_trim f = f)) ?t" using assms(1) by (auto simp: table_ok_def list_all_iff cell_ok_def)
qed

text \<open>C27: An export can be imported. The CSV that the payment export sends, read by the CSV reader of the data
  import, gives one object per payment of the merchant in the order of time, with every cell under its column:
  no payment is lost, doubled or split, commas and quotation marks in cells included. (Cells have no line
  breaks and no white space at their ends.)\<close>

theorem export_imports:
  assumes "merchant \<noteq> ''''"
    and "list_all (\<lambda>p. list_all cell_ok (row_cells (normaliseRow (xe_iso env) (xe_now env) (of_payment p)))) ps"
  shows "\<exists>text. payment_export env ps es merchant None [] = CsvReply (export_filename env merchant ''csv'') text True \<and>
    parseCsv text = map (\<lambda>p. JObj (zip CSV_COLUMNS (map JStr (row_cells (normaliseRow (xe_iso env) (xe_now env) (of_payment p))))))
      (sort_key pe_timestamp (filter (\<lambda>p. pe_merchant p = merchant) ps))"
proof -
  let ?sel = "sort_key pe_timestamp (filter (\<lambda>p. pe_merchant p = merchant) ps)"
  let ?cells = "\<lambda>p. row_cells (normaliseRow (xe_iso env) (xe_now env) (of_payment p))"
  let ?text = "csv_text (CSV_COLUMNS # map ?cells ?sel)"
  have lower: "js_lower ''csv'' = ''csv''" by code_simp
  have columns: "list_all cell_ok CSV_COLUMNS" "2 \<le> length CSV_COLUMNS" "distinct CSV_COLUMNS" "length CSV_COLUMNS = 8" by code_simp+
  have rows: "2 \<le> length (?cells p)" "length (?cells p) = 8" for p by (simp_all add: row_cells_def)
  have "payment_export env ps es merchant None [] = CsvReply (export_filename env merchant ''csv'') ?text True"
    using assms(1)
    by (simp add: payment_export_def or_text_def lower payment_batches_exact payment_query_def csv_text_def comp_def)
  moreover have "parseCsv ?text = map (\<lambda>r. JObj (zip CSV_COLUMNS (map JStr r))) (map ?cells ?sel)"
    using columns rows assms(2) by (intro csv_text_imports) (auto simp: table_ok_def list_all_iff)
  ultimately show ?thesis by (simp add: comp_def)
qed

definition demo_export :: export_env where
  "demo_export = \<lparr>xe_iso = (\<lambda>t. ''D'' @ int_str t), xe_now = 9, xe_passed = 0\<rparr>"

definition demo_payment :: "string \<Rightarrow> payment_entry" where
  "demo_payment ty = \<lparr>pe_subscriber = ''GS'', pe_merchant = ''GM'', pe_token = ''T,1'', pe_amount = ''25'',
     pe_eventType = ty, pe_txHash = ''h'', pe_paymentNonce = 3, pe_timestamp = 5\<rparr>"

theorem export_imports_witness:
  "\<exists>text. payment_export demo_export [demo_payment ''executed''] [] ''GM'' None [] = CsvReply (export_filename demo_export ''GM'' ''csv'') text True \<and>
    parseCsv text = [JObj (zip CSV_COLUMNS (map JStr [''D5'', ''executed'', ''GS'', ''0.0000025'', ''25'', ''T,1'', ''h'', ''3'']))]"
proof -
  have ok: "list_all (\<lambda>p. list_all cell_ok (row_cells (normaliseRow (xe_iso demo_export) (xe_now demo_export) (of_payment p)))) [demo_payment ''executed'']"
    by code_simp
  have cells: "row_cells (normaliseRow (xe_iso demo_export) (xe_now demo_export) (of_payment (demo_payment ''executed''))) =
      [''D5'', ''executed'', ''GS'', ''0.0000025'', ''25'', ''T,1'', ''h'', ''3'']" by code_simp
  have sel: "sort_key pe_timestamp (filter (\<lambda>p. pe_merchant p = ''GM'') [demo_payment ''executed'']) = [demo_payment ''executed'']"
    by (simp add: demo_payment_def)
  have "''GM'' \<noteq> ''''" by simp
  from export_imports [OF this ok, of "[]"] show ?thesis unfolding sel by (simp add: cells)
qed

text \<open>A failed payment is exported as executed. The payment table keeps the outcome in \<^verbatim>\<open>eventType\<close>; the export
  looks for \<^verbatim>\<open>status\<close> and \<^verbatim>\<open>type\<close>, which that table does not have, and falls back to its default, so the type
  column of every payment reads \<^verbatim>\<open>executed\<close> whatever happened to it.\<close>

theorem failed_payment_exported_as_executed:
  "nr_type (normaliseRow isoDate now (of_payment p)) = ''executed'' \<and>
   normaliseRow isoDate now (of_payment (p\<lparr>pe_eventType := ''failed''\<rparr>)) = normaliseRow isoDate now (of_payment p)"
  by (simp add: normaliseRow_def of_payment_def or_text_def or_else_def)

text \<open>A broken JSON export looks complete. If the queries of a batch fail, the reply is the same, byte
  for byte, as that of a complete export of a shorter table: status, file name, closing bracket and regular end.
  (The CSV export is cut off instead.)\<close>

theorem broken_json_export_looks_complete:
  assumes "merchant \<noteq> ''''" and "payment_batches (payment_query merchant ps) (event_query merchant es) 500 0 fs = (map of_payment ps', False)"
    and "sorted (map pe_timestamp ps')" and "list_all (\<lambda>p. pe_merchant p = merchant) ps'"
  shows "payment_export env ps es merchant (Some ''json'') fs =
    payment_export env (take (xe_passed env) ps') es merchant (Some ''json'') []"
proof -
  let ?q = "take (xe_passed env) ps'"
  have lower: "js_lower ''json'' = ''json''" by code_simp
  have "filter (\<lambda>p. pe_merchant p = merchant) ?q = ?q"
    using assms(4) by (auto simp: filter_id_conv list_all_iff dest: in_set_takeD)
  moreover have "sort_key pe_timestamp ?q = ?q"
  proof -
    have "sorted (map pe_timestamp ?q)" using assms(3) by (metis sorted_wrt_take take_map)
    then show ?thesis by (rule sort_key_sorted)
  qed
  ultimately have "payment_query merchant ?q = map of_payment ?q" by (simp add: payment_query_def)
  then show ?thesis
    using assms(1,2) lower by (simp add: payment_export_def or_text_def payment_batches_exact take_map)
qed

lemma demo_batches:
  "payment_batches (payment_query ''GM'' (replicate 600 (demo_payment ''executed''))) (event_query ''GM'' []) 500 0 [False, True, True] =
     (map of_payment (replicate 500 (demo_payment ''executed'')), False)"
proof -
  let ?p = "demo_payment ''executed''"
  have "sort_key pe_timestamp (replicate 600 ?p) = replicate 600 ?p" by (rule sort_key_sorted) simp
  then have q: "payment_query ''GM'' (replicate 600 ?p) = replicate 600 (of_payment ?p)"
    by (simp add: payment_query_def filter_replicate) (simp add: demo_payment_def)
  show ?thesis
    unfolding q by (simp add: payment_batches.simps batch_query_def)
qed

theorem broken_json_export_looks_complete_witness:
  "payment_export (demo_export\<lparr>xe_passed := 500\<rparr>) (replicate 600 (demo_payment ''executed'')) [] ''GM'' (Some ''json'') [False, True, True] =
   payment_export (demo_export\<lparr>xe_passed := 500\<rparr>) (replicate 500 (demo_payment ''executed'')) [] ''GM'' (Some ''json'') []"
  using broken_json_export_looks_complete [OF _ demo_batches, of "demo_export\<lparr>xe_passed := 500\<rparr>"]
  by (simp add: demo_export_def demo_payment_def list_all_iff)

section \<open>Amounts\<close>

lemma strip_zeros_digits:
  assumes "list_all is_digit f"
  shows "list_all is_digit (strip_zeros f)" and "strip_zeros f \<noteq> []"
    and "length f = 7 \<Longrightarrow> length (strip_zeros f) \<le> 7 \<and> digits_val (strip_zeros f) * 10 ^ (7 - length (strip_zeros f)) = digits_val f"
proof -
  define z where "z = takeWhile (\<lambda>c. c = CHR ''0'') (rev f)"
  define g where "g = rev (dropWhile (\<lambda>c. c = CHR ''0'') (rev f))"
  have z: "z = replicate (length z) (CHR ''0'')"
    by (rule replicate_length_same [symmetric]) (auto simp: z_def dest: set_takeWhileD)
  have "rev f = z @ rev g" by (simp add: z_def g_def)
  then have f: "f = g @ replicate (length z) (CHR ''0'')" by (metis rev_append rev_replicate rev_rev_ident z)
  have s: "strip_zeros f = (if g = [] then ''0'' else g)" by (simp add: strip_zeros_def g_def Let_def)
  show "list_all is_digit (strip_zeros f)" using assms by (subst s, subst (asm) f) simp
  show "strip_zeros f \<noteq> []" by (simp add: s)
  assume len: "length f = 7"
  have val: "digits_val f = digits_val g * 10 ^ length z" by (subst f) (simp add: digits_val_append)
  have "length g + length z = 7" using len arg_cong [OF f, of length] by simp
  then have "7 - length g = length z" "length g \<le> 7" by simp_all
  then show "length (strip_zeros f) \<le> 7 \<and> digits_val (strip_zeros f) * 10 ^ (7 - length (strip_zeros f)) = digits_val f"
    using val by (auto simp: s digits_val_def digit_val_def)
qed

lemma human_parts:
  assumes "0 \<le> n"
  obtains f where "toHumanAmount (int_str n) = nat_str (nat (n div 10000000)) @ ''.'' @ strip_zeros f"
    and "report_toHumanAmount (int_str n) = nat_str (nat (n div 10000000)) @ ''.'' @ strip_zeros f"
    and "list_all is_digit f" and "length f = 7" and "int (digits_val f) = n mod 10000000"
proof -
  define f where "f = padStart (nat_str (nat (n mod 10000000))) 7"
  have q: "js_quot n 10000000 = n div 10000000" "js_rem n 10000000 = n mod 10000000"
    using assms by (simp_all add: js_quot_def js_rem_def minus_mult_div_eq_mod)
  have nn: "0 \<le> n div 10000000" "0 \<le> n mod 10000000" "nat (n mod 10000000) < 10 ^ 7"
    using assms by (simp_all add: pos_imp_zdiv_nonneg_iff)
  then have len: "length (nat_str (nat (n mod 10000000))) \<le> 7" by (intro length_nat_str) simp_all
  have texts: "int_str (n div 10000000) = nat_str (nat (n div 10000000))" "int_str (n mod 10000000) = nat_str (nat (n mod 10000000))"
    using nn by (simp_all add: int_str_def)
  have "toHumanAmount (int_str n) = nat_str (nat (n div 10000000)) @ ''.'' @ strip_zeros f"
    "report_toHumanAmount (int_str n) = nat_str (nat (n div 10000000)) @ ''.'' @ strip_zeros f"
    using assms by (simp_all add: toHumanAmount_def report_toHumanAmount_def Let_def q texts f_def)
  moreover have "list_all is_digit f" "length f = 7" "int (digits_val f) = n mod 10000000"
    using len digits_nat_str nn by (auto simp: f_def padStart_def list_all_iff digits_val_append)
  ultimately show thesis by (rule that)
qed

text \<open>Both exports print an amount that is not negative as the same decimal number, and the front end reads exactly
  that amount back from it. A negative amount is printed by the report with the sign inside the fraction.\<close>

theorem human_amount_exact:
  assumes "0 \<le> n"
  shows "parseTokenAmount (toHumanAmount (int_str n)) 7 = Some n \<and>
    report_toHumanAmount (int_str n) = toHumanAmount (int_str n) \<and>
    report_toHumanAmount (int_str (- 5)) = ''0.00000-5''"
proof -
  obtain f where f: "toHumanAmount (int_str n) = nat_str (nat (n div 10000000)) @ ''.'' @ strip_zeros f"
      "report_toHumanAmount (int_str n) = nat_str (nat (n div 10000000)) @ ''.'' @ strip_zeros f"
      "list_all is_digit f" "length f = 7" "int (digits_val f) = n mod 10000000"
    using human_parts [OF assms] by blast
  note g = strip_zeros_digits(1,3) [OF f(3)]
  have "parseTokenAmount (nat_str (nat (n div 10000000)) @ ''.'' @ strip_zeros f) 7 =
      Some (int (digits_val (nat_str (nat (n div 10000000)))) * 10 ^ nat 7 + int (digits_val f))"
    using g(2) [OF f(4)] parse_fraction [OF digits_nat_str g(1), of 7] by simp
  also have "int (digits_val (nat_str (nat (n div 10000000)))) * 10 ^ nat 7 + int (digits_val f) = n"
    using assms f(5) by (simp add: pos_imp_zdiv_nonneg_iff)
  finally have "parseTokenAmount (toHumanAmount (int_str n)) 7 = Some n" by (simp add: f(1))
  moreover have "report_toHumanAmount (int_str (- 5)) = ''0.00000-5''" by code_simp
  ultimately show ?thesis using f(1,2) by simp
qed

theorem human_amount_exact_witness:
  "parseTokenAmount (toHumanAmount (int_str 12345678901234567890)) 7 = Some 12345678901234567890"
  using human_amount_exact [of 12345678901234567890] by simp

text \<open>The report ignores its page. The limit and the offset of a request are checked and then used for nothing:
  whatever they are, a CSV report holds every row of the merchant in the period, in the order of time.\<close>

theorem report_ignores_page:
  assumes "rq_csv q"
  shows "\<exists>name. report_export env logs (q\<lparr>rq_limit := l, rq_offset := k\<rparr>) [] =
    ReportCsv name (csv_text (CSV_HEADERS # map (toPaymentRow (xe_iso env)) (sort_key au_createdAt (filter (report_where q) logs)))) True"
proof -
  have "report_where (q\<lparr>rq_limit := l, rq_offset := k\<rparr>) = report_where q" by (simp add: report_where_def fun_eq_iff)
  then show ?thesis
    using assms by (simp add: report_export_def read_batches_exact csv_text_def comp_def)
qed

definition demo_audit :: "int \<Rightarrow> AuditLog" where
  "demo_audit t = \<lparr>au_createdAt = t, au_subscriber = ''S'', au_merchant = ''M'', au_token = ''T'', au_amount = ''5'', au_transactionHash = ''h'', au_status = ''executed''\<rparr>"

definition demo_query :: ReportQuery where
  "demo_query = \<lparr>rq_merchant = ''M'', rq_from = None, rq_to = None, rq_csv = True, rq_status = AnyStatus, rq_limit = 10000, rq_offset = 0\<rparr>"

theorem report_ignores_page_witness:
  "\<exists>name. report_export demo_export [demo_audit 2, demo_audit 1] (demo_query\<lparr>rq_limit := 1, rq_offset := 1\<rparr>) [] =
    ReportCsv name (csv_text (CSV_HEADERS # map (toPaymentRow (xe_iso demo_export)) [demo_audit 1, demo_audit 2])) True"
proof -
  have "rq_csv demo_query" "sort_key au_createdAt (filter (report_where demo_query) [demo_audit 2, demo_audit 1]) = [demo_audit 1, demo_audit 2]"
    by (simp_all add: demo_query_def report_where_def demo_audit_def)
  then show ?thesis using report_ignores_page [of demo_query demo_export "[demo_audit 2, demo_audit 1]" 1 1] by simp
qed

end
