(* ===== verification/Tally.thy ===== *)
theory Tally
  imports Prelude "HOL-Library.Multiset"
begin

text \<open>
  Grouping into a \<^verbatim>\<open>Map\<close>: a loop that looks a key up, and sets it to a first or an extended value. The map keeps
  the order in which the keys came first; the value of a key is what its own items make, in their order.
\<close>

definition tally :: "('a \<Rightarrow> 'k) \<Rightarrow> ('a \<Rightarrow> 'v) \<Rightarrow> ('v \<Rightarrow> 'a \<Rightarrow> 'v) \<Rightarrow> 'a list \<Rightarrow> ('k \<times> 'v) list" where
  "tally key new add xs = foldl (\<lambda>m x.
     AList.update (key x) (case map_of m (key x) of Some v \<Rightarrow> add v x | None \<Rightarrow> new x) m) [] xs"

definition first_keys :: "('a \<Rightarrow> 'k) \<Rightarrow> 'a list \<Rightarrow> 'k list" where
  "first_keys key xs = rev (remdups (rev (map key xs)))"

text \<open>The value that a list of items makes; only lists that are not empty occur.\<close>

definition gather :: "('a \<Rightarrow> 'v) \<Rightarrow> ('v \<Rightarrow> 'a \<Rightarrow> 'v) \<Rightarrow> 'a list \<Rightarrow> 'v" where
  "gather new add xs = foldl add (new (hd xs)) (tl xs)"

lemma first_keys_snoc:
  "first_keys key (xs @ [x]) = (if key x \<in> key ` set xs then first_keys key xs else first_keys key xs @ [key x])"
  by (simp add: first_keys_def)

lemma set_first_keys [simp]: "set (first_keys key xs) = key ` set xs"
  by (simp add: first_keys_def)

lemma distinct_first_keys [simp]: "distinct (first_keys key xs)"
  by (simp add: first_keys_def)

lemma gather_snoc: "gather new add (xs @ [x]) = (if xs = [] then new x else add (gather new add xs) x)"
  by (cases xs) (simp_all add: gather_def)

lemma gather_single [simp]: "gather new add [x] = new x"
  by (simp add: gather_def)

lemma map_of_keys: "map_of (map (\<lambda>k. (k, f k)) ks) k = (if k \<in> set ks then Some (f k) else None)"
  by (induction ks) auto

lemma update_keys:
  "distinct ks \<Longrightarrow> AList.update k v (map (\<lambda>k. (k, f k)) ks) =
     (if k \<in> set ks then map (\<lambda>k'. (k', if k' = k then v else f k')) ks else map (\<lambda>k. (k, f k)) ks @ [(k, v)])"
  by (induction ks) auto

lemma no_items: "filter (\<lambda>x. key x = k) xs = [] \<longleftrightarrow> k \<notin> key ` set xs"
  by (induction xs) auto

lemma tally_exact:
  "tally key new add xs = map (\<lambda>k. (k, gather new add (filter (\<lambda>x. key x = k) xs))) (first_keys key xs)"
proof (induction xs rule: rev_induct)
  case Nil
  show ?case by (simp add: tally_def first_keys_def)
next
  case (snoc x xs)
  let ?m = "tally key new add xs"
  let ?v = "case map_of ?m (key x) of Some v \<Rightarrow> add v x | None \<Rightarrow> new x"
  have step: "tally key new add (xs @ [x]) = AList.update (key x) ?v ?m" by (simp add: tally_def)
  have v: "?v = gather new add (filter (\<lambda>y. key y = key x) (xs @ [x]))"
    unfolding snoc.IH by (simp add: map_of_keys gather_snoc no_items)
  have other: "filter (\<lambda>y. key y = k) (xs @ [x]) = filter (\<lambda>y. key y = k) xs" if "k \<noteq> key x" for k using that by simp
  show ?case
    unfolding step v unfolding snoc.IH update_keys [OF distinct_first_keys]
    using other by (auto simp: first_keys_snoc intro!: map_cong)
qed

lemma gather_sum:
  assumes "xs \<noteq> []"
  shows "gather (\<lambda>x. (f x, Suc 0)) (\<lambda>v x. (fst v + f x, Suc (snd v))) xs = ((\<Sum>x\<leftarrow>xs. f x :: int), length xs)"
  using assms
proof (induction xs rule: rev_induct)
  case (snoc x xs)
  then show ?case by (cases "xs = []") (simp_all add: gather_snoc add.commute)
qed simp

lemma sum_list_first_keys:
  "(\<Sum>k\<leftarrow>first_keys key xs. \<Sum>x\<leftarrow>filter (\<lambda>x. key x = k) xs. f x :: int) = (\<Sum>x\<leftarrow>xs. f x)"
proof (induction xs rule: rev_induct)
  case Nil
  show ?case by (simp add: first_keys_def)
next
  case (snoc x xs)
  let ?s = "\<lambda>ys k. \<Sum>x\<leftarrow>filter (\<lambda>x. key x = k) ys. f x"
  have "?s (xs @ [x]) = (\<lambda>k. ?s xs k + (if k = key x then f x else 0))" by (auto simp: fun_eq_iff)
  then have s: "(\<Sum>k\<leftarrow>ks. ?s (xs @ [x]) k) = (\<Sum>k\<leftarrow>ks. ?s xs k) + (\<Sum>k\<leftarrow>ks. if k = key x then f x else 0)" for ks
    by (simp add: sum_list_addf)
  have one: "(\<Sum>k\<leftarrow>ks. if k = key x then f x else 0) = (if key x \<in> set ks then f x else 0)" if "distinct ks" for ks
    using that by (induction ks) auto
  have none: "?s xs (key x) = 0" if "key x \<notin> key ` set xs"
    using that no_items [of key "key x" xs] by simp
  show ?case
    using snoc.IH none unfolding first_keys_snoc
    by (auto simp: s one simp del: filter_append)
qed

lemma int_sum_list: "int (\<Sum>x\<leftarrow>xs. f x) = (\<Sum>x\<leftarrow>xs. int (f x))"
  by (induction xs) auto

lemma length_first_keys: "(\<Sum>k\<leftarrow>first_keys key xs. length (filter (\<lambda>x. key x = k) xs)) = length xs"
proof -
  have "int (\<Sum>k\<leftarrow>first_keys key xs. length (filter (\<lambda>x. key x = k) xs)) =
      (\<Sum>k\<leftarrow>first_keys key xs. \<Sum>x\<leftarrow>filter (\<lambda>x. key x = k) xs. 1)"
    by (simp add: int_sum_list sum_list_triv)
  also have "\<dots> = int (length xs)" unfolding sum_list_first_keys by (simp add: sum_list_triv)
  finally show ?thesis by simp
qed

lemma sum_list_sort_key: "(\<Sum>x\<leftarrow>sort_key k xs. (g x :: 'a :: comm_monoid_add)) = (\<Sum>x\<leftarrow>xs. g x)"
  by (metis mset_map mset_sort sum_mset_sum_list)

end
