(* ===== verification/Revenue.thy ===== *)
theory Revenue
  imports Payment_Exports Tally "HOL-Library.Multiset" "HOL-Library.List_Lexorder" "HOL-Library.Char_ord"
begin

text \<open>
  Revenue figures of a merchant from the event table: monthly recurring revenue with its cache
  (\<^verbatim>\<open>backend/src/routes/mrr.ts\<close>) and the revenue chart (\<^verbatim>\<open>backend/src/routes/analytics.ts\<close>). The event rows
  are those of \<open>Payment_Exports\<close>. Month keys and labels depend on the server's time zone and locale and are
  arguments, as is the floating-point success rate; month keys are compared character by character.
\<close>

section \<open>Monthly recurring revenue\<close>

definition MONTH_SECONDS :: int where "MONTH_SECONDS = 2592000"
definition MRR_CACHE_TTL_MS :: int where "MRR_CACHE_TTL_MS = 5 * 60 * 1000"
definition SIXTY_DAYS_MS :: int where "SIXTY_DAYS_MS = 60 * 24 * 60 * 60 * 1000"

definition normaliseToMonthly :: "int \<Rightarrow> int \<Rightarrow> int" where
  "normaliseToMonthly amount intervalSeconds =
     (if intervalSeconds \<le> 0 then amount else js_quot (amount * MONTH_SECONDS) intervalSeconds)"

text \<open>\<^verbatim>\<open>Math.round(d / 1000)\<close> on whole milliseconds.\<close>

definition round_seconds :: "int \<Rightarrow> int" where
  "round_seconds d = (d + 500) div 1000"

fun gaps :: "int list \<Rightarrow> int list" where
  "gaps (a # b # ts) = round_seconds (b - a) # gaps (b # ts)"
| "gaps _ = []"

definition inferInterval :: "int list \<Rightarrow> int" where
  "inferInterval timestampsMs =
     (if length timestampsMs < 2 then MONTH_SECONDS
      else let gs = sort (gaps (sort timestampsMs)) in gs ! (length gs div 2))"

record pay_group =
  pg_token :: string
  pg_amounts :: "int list"
  pg_timestampsMs :: "int list"

definition sub_key :: "event_entry \<Rightarrow> string" where
  "sub_key p = ev_subscriber p @ ''|'' @ ev_token p"

definition ev_amt :: "event_entry \<Rightarrow> int" where
  "ev_amt p = the (big_int (ev_amount p))"

definition new_group :: "event_entry \<Rightarrow> pay_group" where
  "new_group p = \<lparr>pg_token = ev_token p, pg_amounts = [ev_amt p], pg_timestampsMs = [ev_ledgerTimestamp p * 1000]\<rparr>"

definition add_group :: "pay_group \<Rightarrow> event_entry \<Rightarrow> pay_group" where
  "add_group g p = g\<lparr>pg_amounts := pg_amounts g @ [ev_amt p], pg_timestampsMs := pg_timestampsMs g @ [ev_ledgerTimestamp p * 1000]\<rparr>"

definition contribution :: "pay_group \<Rightarrow> int" where
  "contribution g = normaliseToMonthly (last (pg_amounts g)) (inferInterval (pg_timestampsMs g))"

record TokenMrr =
  tm_token :: string
  tm_mrr_amount :: string
  tm_active_subscriptions :: nat
  tm_currency_symbol :: string

record MrrResponse =
  mr_merchant :: string
  mr_tokens :: "TokenMrr list"
  mr_computed_at :: int
  mr_cache_hit :: bool

datatype mrr_error = MrrDbError | MrrSyntaxError

definition recent_payments :: "int \<Rightarrow> string \<Rightarrow> event_entry list \<Rightarrow> event_entry list" where
  "recent_payments now merchant es = sort_key ev_ledgerTimestamp
     (filter (\<lambda>e. ev_merchant e = merchant \<and> ev_type e = ''executed'' \<and> (now - SIXTY_DAYS_MS) div 1000 \<le> ev_ledgerTimestamp e) es)"

definition token_mrr :: "event_entry list \<Rightarrow> TokenMrr list" where
  "token_mrr payments =
     (let groups = map snd (tally sub_key new_group add_group payments);
          tokenMrr = tally pg_token (\<lambda>g. (contribution g, Suc 0)) (\<lambda>v g. (fst v + contribution g, Suc (snd v))) groups in
      map (\<lambda>(token, mrr, cnt). \<lparr>tm_token = token, tm_mrr_amount = int_str mrr, tm_active_subscriptions = cnt,
             tm_currency_symbol = ''''\<rparr>) tokenMrr)"

text \<open>An amount that is no number stops the loop with an exception.\<close>

definition computeMrr :: "int \<Rightarrow> string \<Rightarrow> event_entry list \<Rightarrow> mrr_error + MrrResponse" where
  "computeMrr now merchant es = (let payments = recent_payments now merchant es in
     if list_ex (\<lambda>p. big_int (ev_amount p) = None) payments then Inl MrrSyntaxError
     else Inr \<lparr>mr_merchant = merchant, mr_tokens = token_mrr payments, mr_computed_at = now, mr_cache_hit = False\<rparr>)"

subsection \<open>Cache and route\<close>

record MrrCacheEntry =
  me_data :: MrrResponse
  me_cachedAt :: int

type_synonym mrr_cache = "(string \<times> MrrCacheEntry) list"

definition getCachedMrr :: "int \<Rightarrow> string \<Rightarrow> mrr_cache \<Rightarrow> MrrResponse option \<times> mrr_cache" where
  "getCachedMrr now merchant cache = (case map_of cache merchant of
      None \<Rightarrow> (None, cache)
    | Some entry \<Rightarrow>
        if now - me_cachedAt entry > MRR_CACHE_TTL_MS then (None, AList.delete merchant cache)
        else (Some ((me_data entry)\<lparr>mr_cache_hit := True\<rparr>), cache))"

datatype mrr_reply = MrrForbidden | MrrData MrrResponse | MrrFailed

text \<open>The caller is the address that the merchant guard took from the token.\<close>

definition get_mrr :: "int \<Rightarrow> string \<Rightarrow> string \<Rightarrow> (mrr_error + event_entry list) \<Rightarrow> mrr_cache \<Rightarrow> mrr_reply \<times> mrr_cache" where
  "get_mrr now caller requested db cache =
     (if caller \<noteq> requested then (MrrForbidden, cache)
      else case getCachedMrr now caller cache of
        (Some data, cache') \<Rightarrow> (MrrData data, cache')
      | (None, cache') \<Rightarrow>
          (case db of
             Inl e \<Rightarrow> (MrrFailed, cache')
           | Inr es \<Rightarrow> (case computeMrr now caller es of
               Inl e \<Rightarrow> (MrrFailed, cache')
             | Inr result \<Rightarrow> (MrrData result, AList.update caller \<lparr>me_data = result, me_cachedAt = now\<rparr> cache'))))"

section \<open>The revenue chart\<close>

datatype period = P30 | P90 | PAll

definition cutoffDate :: "(int \<Rightarrow> nat \<Rightarrow> int) \<Rightarrow> int \<Rightarrow> period \<Rightarrow> int option" where
  "cutoffDate days_before now p = (case p of PAll \<Rightarrow> None | P90 \<Rightarrow> Some (days_before now 90) | P30 \<Rightarrow> Some (days_before now 30))"

definition parse_period :: "string option \<Rightarrow> period option" where
  "parse_period s = (let p = (case s of Some t \<Rightarrow> if t = '''' then ''30d'' else t | None \<Rightarrow> ''30d'') in
     if p = ''30d'' then Some P30 else if p = ''90d'' then Some P90 else if p = ''all'' then Some PAll else None)"

text \<open>\<^verbatim>\<open>BigInt(e.amount || '0')\<close>\<close>

definition chart_amt :: "event_entry \<Rightarrow> int option" where
  "chart_amt e = big_int (if ev_amount e = '''' then ''0'' else ev_amount e)"

record month_row =
  mo_month :: string
  mo_label :: string
  mo_revenue :: string
  mo_paymentCount :: nat

record chart_env =
  ce_month :: "int \<Rightarrow> string"
  ce_label :: "string \<Rightarrow> string"
  ce_days_before :: "int \<Rightarrow> nat \<Rightarrow> int"
  ce_rate :: "nat \<Rightarrow> nat \<Rightarrow> int"
  ce_now :: int

record RevenueAnalytics =
  ra_merchant :: string
  ra_mrr :: "month_row list"
  ra_activeSubscribers :: nat
  ra_totalRevenue :: string
  ra_successRate :: int
  ra_executedCount :: nat
  ra_failureCount :: nat
  ra_events :: "event_entry list"

datatype chart_reply = ChartBadRequest string | ChartFailed | ChartData RevenueAnalytics

definition chart_events :: "chart_env \<Rightarrow> string \<Rightarrow> period \<Rightarrow> event_entry list \<Rightarrow> event_entry list" where
  "chart_events env merchant p es = sort_key ev_ledgerTimestamp (filter (\<lambda>e. ev_merchant e = merchant \<and>
     (case cutoffDate (ce_days_before env) (ce_now env) p of Some c \<Rightarrow> c div 1000 \<le> ev_ledgerTimestamp e | None \<Rightarrow> True)) es)"

definition executed :: "event_entry list \<Rightarrow> event_entry list" where
  "executed es = filter (\<lambda>e. ev_type e = ''executed'') es"

definition month_rows :: "chart_env \<Rightarrow> event_entry list \<Rightarrow> month_row list" where
  "month_rows env ex = map (\<lambda>(k, revenue, cnt). \<lparr>mo_month = k, mo_label = ce_label env k, mo_revenue = int_str revenue, mo_paymentCount = cnt\<rparr>)
     (sort_key fst (tally (\<lambda>e. ce_month env (ev_ledgerTimestamp e)) (\<lambda>e. (the (chart_amt e), Suc 0))
        (\<lambda>v e. (fst v + the (chart_amt e), Suc (snd v))) ex))"

definition chart_data :: "chart_env \<Rightarrow> string \<Rightarrow> event_entry list \<Rightarrow> chart_reply" where
  "chart_data env merchant events =
     (let ex = executed events; failures = length (filter (\<lambda>e. ev_type e = ''payment_transfer_failure'') events) in
      if list_ex (\<lambda>e. chart_amt e = None) ex then ChartFailed
      else ChartData \<lparr>ra_merchant = merchant, ra_mrr = month_rows env ex,
        ra_activeSubscribers = length (remdups (map ev_subscriber (filter (\<lambda>e. ev_type e = ''subscribe'') events))),
        ra_totalRevenue = int_str (foldl (\<lambda>s e. s + the (chart_amt e)) 0 ex),
        ra_successRate = (if length ex + failures > 0 then ce_rate env (length ex) (length ex + failures) else 100),
        ra_executedCount = length ex, ra_failureCount = failures, ra_events = events\<rparr>)"

definition get_revenue :: "chart_env \<Rightarrow> string option \<Rightarrow> string option \<Rightarrow> (mrr_error + event_entry list) \<Rightarrow> chart_reply" where
  "get_revenue env merchant0 period0 db =
     (case merchant0 of
        None \<Rightarrow> ChartBadRequest ''merchant query parameter is required''
      | Some merchant \<Rightarrow>
          if merchant = '''' then ChartBadRequest ''merchant query parameter is required''
          else case parse_period period0 of
            None \<Rightarrow> ChartBadRequest ''period must be one of: 30d, 90d, all''
          | Some p \<Rightarrow>
              (case db of
                 Inl e \<Rightarrow> ChartFailed
               | Inr table \<Rightarrow> chart_data env merchant (chart_events env merchant p table)))"

section \<open>Subscriptions are kept apart\<close>

definition mrr_key :: "string \<Rightarrow> string \<Rightarrow> string" where
  "mrr_key s t = s @ ''|'' @ t"

lemma mrr_key_inj: "CHR ''|'' \<notin> set s \<Longrightarrow> CHR ''|'' \<notin> set s' \<Longrightarrow> mrr_key s t = mrr_key s' t' \<longleftrightarrow> s = s' \<and> t = t'"
  unfolding mrr_key_def
proof (induction s arbitrary: s')
  case Nil
  then show ?case by (cases s') auto
next
  case (Cons c s)
  then show ?case by (cases s') auto
qed

lemma gather_group:
  "xs \<noteq> [] \<Longrightarrow> gather new_group add_group xs =
     \<lparr>pg_token = ev_token (hd xs), pg_amounts = map ev_amt xs, pg_timestampsMs = map (\<lambda>p. ev_ledgerTimestamp p * 1000) xs\<rparr>"
proof (induction xs rule: rev_induct)
  case (snoc x xs)
  then show ?case by (cases "xs = []") (simp_all add: gather_snoc new_group_def add_group_def)
qed simp

text \<open>Reference: the payments of one subscriber in one token, and the monthly amount they make.\<close>

definition sub_payments :: "string \<Rightarrow> string \<Rightarrow> event_entry list \<Rightarrow> event_entry list" where
  "sub_payments s t ps = filter (\<lambda>p. ev_subscriber p = s \<and> ev_token p = t) ps"

definition sub_mrr :: "string \<Rightarrow> string \<Rightarrow> event_entry list \<Rightarrow> int" where
  "sub_mrr s t ps = normaliseToMonthly (ev_amt (last (sub_payments s t ps)))
     (inferInterval (map (\<lambda>p. ev_ledgerTimestamp p * 1000) (sub_payments s t ps)))"

definition token_subscribers :: "string \<Rightarrow> event_entry list \<Rightarrow> string set" where
  "token_subscribers t ps = {s. \<exists>p \<in> set ps. ev_subscriber p = s \<and> ev_token p = t}"

definition plain_subscribers :: "event_entry list \<Rightarrow> bool" where
  "plain_subscribers ps \<longleftrightarrow> list_all (\<lambda>p. CHR ''|'' \<notin> set (ev_subscriber p)) ps"

definition group_of :: "event_entry list \<Rightarrow> string \<Rightarrow> pay_group" where
  "group_of ps k = gather new_group add_group (filter (\<lambda>p. sub_key p = k) ps)"

lemma group_of_key:
  assumes "plain_subscribers ps" and "p \<in> set ps"
  shows "pg_token (group_of ps (sub_key p)) = ev_token p"
    and "contribution (group_of ps (sub_key p)) = sub_mrr (ev_subscriber p) (ev_token p) ps"
proof -
  let ?f = "filter (\<lambda>q. sub_key q = sub_key p) ps"
  have f: "?f = sub_payments (ev_subscriber p) (ev_token p) ps" unfolding sub_payments_def
  proof (rule filter_cong [OF refl])
    fix q assume "q \<in> set ps"
    then have "CHR ''|'' \<notin> set (ev_subscriber q)" "CHR ''|'' \<notin> set (ev_subscriber p)"
      using assms by (auto simp: plain_subscribers_def list_all_iff)
    from mrr_key_inj [OF this] show "sub_key q = sub_key p \<longleftrightarrow> ev_subscriber q = ev_subscriber p \<and> ev_token q = ev_token p"
      unfolding sub_key_def mrr_key_def .
  qed
  have ne: "?f \<noteq> []" using assms(2) by (auto simp: filter_empty_conv)
  then have "hd ?f \<in> set ?f" by (rule hd_in_set)
  then have "ev_token (hd ?f) = ev_token p" unfolding f by (auto simp: sub_payments_def)
  then show "pg_token (group_of ps (sub_key p)) = ev_token p" by (simp add: group_of_def gather_group [OF ne])
  show "contribution (group_of ps (sub_key p)) = sub_mrr (ev_subscriber p) (ev_token p) ps"
    using ne unfolding group_of_def gather_group [OF ne] contribution_def sub_mrr_def f [symmetric]
    by (simp add: last_map)
qed

definition token_keys :: "event_entry list \<Rightarrow> string \<Rightarrow> string list" where
  "token_keys ps t = filter (\<lambda>k. pg_token (group_of ps k) = t) (first_keys sub_key ps)"

lemma token_keys_set:
  assumes "plain_subscribers ps"
  shows "set (token_keys ps t) = (\<lambda>s. mrr_key s t) ` token_subscribers t ps"
proof -
  have "set (token_keys ps t) = sub_key ` {p \<in> set ps. ev_token p = t}"
    by (auto simp: token_keys_def group_of_key(1) [OF assms])
  also have "\<dots> = (\<lambda>p. mrr_key (ev_subscriber p) t) ` {p \<in> set ps. ev_token p = t}"
    by (rule image_cong) (simp_all add: sub_key_def mrr_key_def)
  also have "\<dots> = (\<lambda>s. mrr_key s t) ` ev_subscriber ` {p \<in> set ps. ev_token p = t}" by (simp only: image_image)
  also have "ev_subscriber ` {p \<in> set ps. ev_token p = t} = token_subscribers t ps"
    unfolding token_subscribers_def by blast
  finally show ?thesis .
qed

lemma token_subscribers_inj:
  assumes "plain_subscribers ps"
  shows "inj_on (\<lambda>s. mrr_key s t) (token_subscribers t ps)"
proof (rule inj_onI)
  fix s s' assume "s \<in> token_subscribers t ps" "s' \<in> token_subscribers t ps" and key: "mrr_key s t = mrr_key s' t"
  then have "CHR ''|'' \<notin> set s" "CHR ''|'' \<notin> set s'"
    using assms by (auto simp: token_subscribers_def plain_subscribers_def list_all_iff)
  from mrr_key_inj [OF this] key show "s = s'" by simp
qed

lemma token_keys_sum:
  assumes "plain_subscribers ps"
  shows "(\<Sum>k\<leftarrow>token_keys ps t. contribution (group_of ps k)) = (\<Sum>s\<in>token_subscribers t ps. sub_mrr s t ps)"
    and "length (token_keys ps t) = card (token_subscribers t ps)"
proof -
  have d: "distinct (token_keys ps t)" by (simp add: token_keys_def)
  have "contribution (group_of ps (mrr_key s t)) = sub_mrr s t ps" if "s \<in> token_subscribers t ps" for s
    using that group_of_key(2) [OF assms] by (auto simp: token_subscribers_def sub_key_def mrr_key_def)
  then show "(\<Sum>k\<leftarrow>token_keys ps t. contribution (group_of ps k)) = (\<Sum>s\<in>token_subscribers t ps. sub_mrr s t ps)"
    using d token_subscribers_inj [OF assms]
    by (simp add: sum_list_distinct_conv_sum_set token_keys_set [OF assms] sum.reindex)
  show "length (token_keys ps t) = card (token_subscribers t ps)"
    using distinct_card [OF d] card_image [OF token_subscribers_inj [OF assms]] token_keys_set [OF assms] by metis
qed

definition mrr_row :: "event_entry list \<Rightarrow> string \<Rightarrow> TokenMrr" where
  "mrr_row ps t = \<lparr>tm_token = t, tm_mrr_amount = int_str (\<Sum>s\<in>token_subscribers t ps. sub_mrr s t ps),
     tm_active_subscriptions = card (token_subscribers t ps), tm_currency_symbol = ''''\<rparr>"

lemma token_mrr_exact:
  assumes "plain_subscribers ps"
  shows "distinct (map tm_token (token_mrr ps))" and "set (token_mrr ps) = mrr_row ps ` ev_token ` set ps"
proof -
  let ?gs = "map (group_of ps) (first_keys sub_key ps)"
  have groups: "map snd (tally sub_key new_group add_group ps) = ?gs"
    by (simp add: tally_exact comp_def group_of_def)
  have tokens: "pg_token ` set ?gs = ev_token ` set ps"
    using group_of_key(1) [OF assms] by (force simp: image_image)
  have tokval: "gather (\<lambda>g. (contribution g, Suc 0)) (\<lambda>v g. (fst v + contribution g, Suc (snd v))) (filter (\<lambda>g. pg_token g = t) ?gs) =
      (\<Sum>s\<in>token_subscribers t ps. sub_mrr s t ps, card (token_subscribers t ps))" if "t \<in> pg_token ` set ?gs" for t
  proof -
    have f: "filter (\<lambda>g. pg_token g = t) ?gs = map (group_of ps) (token_keys ps t)"
      by (simp add: token_keys_def filter_map comp_def)
    have "filter (\<lambda>g. pg_token g = t) ?gs \<noteq> []" using that no_items [of pg_token t ?gs] by blast
    from gather_sum [OF this, of contribution] show ?thesis
      using token_keys_sum [OF assms, of t] unfolding f by (simp add: comp_def)
  qed
  have rows: "token_mrr ps = map (mrr_row ps) (first_keys pg_token ?gs)"
    unfolding token_mrr_def Let_def groups unfolding tally_exact map_map
  proof (rule map_cong [OF refl])
    fix t assume "t \<in> set (first_keys pg_token ?gs)"
    then have t: "t \<in> pg_token ` set ?gs" by simp
    show "((\<lambda>(token, mrr, cnt). \<lparr>tm_token = token, tm_mrr_amount = int_str mrr, tm_active_subscriptions = cnt, tm_currency_symbol = ''''\<rparr>) \<circ>
      (\<lambda>k. (k, gather (\<lambda>g. (contribution g, Suc 0)) (\<lambda>v g. (fst v + contribution g, Suc (snd v))) (filter (\<lambda>x. pg_token x = k) ?gs)))) t =
      mrr_row ps t"
      using tokval [OF t] by (simp add: mrr_row_def)
  qed
  show "distinct (map tm_token (token_mrr ps))" unfolding rows by (simp add: comp_def mrr_row_def)
  show "set (token_mrr ps) = mrr_row ps ` ev_token ` set ps" unfolding rows using tokens by simp
qed

section \<open>Reference: what a payer is worth\<close>

text \<open>The payments that count: executed payments of this merchant's subscriptions in the last sixty days (to the second).
  The distances of the sorted times are taken in seconds; their median is given by counting: at most half of them are
  shorter, and more than half are at most as long.\<close>

definition counted :: "int \<Rightarrow> string \<Rightarrow> event_entry \<Rightarrow> bool" where
  "counted now merchant e \<longleftrightarrow> ev_type e = ''executed'' \<and> ev_merchant e = merchant \<and> now < (ev_ledgerTimestamp e + 1) * 1000 + 5184000000"

definition billed :: "int \<Rightarrow> string \<Rightarrow> string \<Rightarrow> string \<Rightarrow> event_entry list \<Rightarrow> event_entry list" where
  "billed now merchant t s es = filter (\<lambda>e. counted now merchant e \<and> ev_token e = t \<and> ev_subscriber e = s) es"

definition payers :: "int \<Rightarrow> string \<Rightarrow> string \<Rightarrow> event_entry list \<Rightarrow> string set" where
  "payers now merchant t es = {s. billed now merchant t s es \<noteq> []}"

definition distances :: "int list \<Rightarrow> int list" where
  "distances ts = map2 (\<lambda>a b. b - a) (sort ts) (tl (sort ts))"

definition is_median :: "int list \<Rightarrow> int \<Rightarrow> bool" where
  "is_median ds d \<longleftrightarrow> d \<in> set ds \<and> 2 * length (filter (\<lambda>x. x < d) ds) \<le> length ds \<and> length ds < 2 * length (filter (\<lambda>x. x \<le> d) ds)"

definition is_interval :: "int list \<Rightarrow> int \<Rightarrow> bool" where
  "is_interval ts d \<longleftrightarrow> (if length ts < 2 then d = 30 * 24 * 60 * 60 else is_median (distances ts) d)"

text \<open>The monthly amount of a payer: the amount of a payment with the greatest time, scaled from the interval to thirty
  days and cut towards zero (unscaled when the interval is zero).\<close>

definition monthly_share :: "event_entry list \<Rightarrow> int \<Rightarrow> bool" where
  "monthly_share ps v \<longleftrightarrow> (\<exists>e a d. e \<in> set ps \<and> (\<forall>p \<in> set ps. ev_ledgerTimestamp p \<le> ev_ledgerTimestamp e) \<and>
     big_int (ev_amount e) = Some a \<and> is_interval (map ev_ledgerTimestamp ps) d \<and>
     v = (if d \<le> 0 then a else sgn a * (\<bar>a\<bar> * 2592000 div d)))"

lemma recent_counted:
  "recent_payments now merchant es = sort_key ev_ledgerTimestamp (filter (counted now merchant) es)"
proof -
  have "(now - SIXTY_DAYS_MS) div 1000 \<le> t \<longleftrightarrow> now < (t + 1) * 1000 + 5184000000" for t
  proof -
    obtain q m where x: "now - 5184000000 = 1000 * q + m" and m: "0 \<le> m" "m < 1000"
      using mult_div_mod_eq [of 1000 "now - 5184000000"] by (metis pos_mod_bound pos_mod_sign zero_less_numeral)
    have "(now - 5184000000) div 1000 = q" unfolding x using m by simp
    moreover have "SIXTY_DAYS_MS = 5184000000" by (simp add: SIXTY_DAYS_MS_def)
    moreover have "q \<le> t \<longleftrightarrow> now < (t + 1) * 1000 + 5184000000" 
    proof
      assume "q \<le> t"
      then have "1000 * q \<le> 1000 * t" by simp
      then show "now < (t + 1) * 1000 + 5184000000" using x m by (simp add: distrib_right)
    next
      assume "now < (t + 1) * 1000 + 5184000000"
      then have "1000 * q < 1000 * (t + 1)" using x m by (simp add: distrib_right)
      then show "q \<le> t" by simp
    qed
    ultimately show ?thesis by simp
  qed
  then show ?thesis
    unfolding recent_payments_def by (intro arg_cong [where f = "sort_key ev_ledgerTimestamp"] filter_cong) (auto simp: counted_def)
qed

lemma sub_payments_billed:
  "sub_payments s t (recent_payments now merchant es) = sort_key ev_ledgerTimestamp (billed now merchant t s es)"
  by (simp add: sub_payments_def recent_counted filter_sort billed_def conj_commute conj_left_commute)

lemma subscribers_payers: "token_subscribers t (recent_payments now merchant es) = payers now merchant t es"
  by (auto simp: token_subscribers_def payers_def recent_counted billed_def filter_empty_conv)

lemma gaps_seconds: "gaps (map (\<lambda>t. t * 1000) ts) = map2 (\<lambda>a b. b - a) ts (tl ts)"
proof (induction ts rule: induct_list012)
  case (3 a b ts)
  have "round_seconds (b * 1000 - a * 1000) = b - a" by (simp add: round_seconds_def)
  then show ?case using 3 by simp
qed simp_all

lemma length_distances: "length (distances ts) = length ts - 1"
  by (simp add: distances_def)

text \<open>The element in the middle of the sorted list is a median.\<close>

lemma sorted_middle:
  assumes "sorted gs" and "gs \<noteq> []"
  shows "is_median gs (gs ! (length gs div 2))"
proof -
  let ?k = "length gs div 2" and ?d = "gs ! (length gs div 2)"
  have k: "?k < length gs" using assms(2) by (simp add: div_less_dividend)
  have split: "gs = take ?k gs @ drop ?k gs" "gs = take (Suc ?k) gs @ drop (Suc ?k) gs" by simp_all
  have hi: "\<forall>x \<in> set (drop ?k gs). \<not> x < ?d"
    using assms(1) k by (auto simp: in_set_conv_nth sorted_iff_nth_mono not_less)
  have lo: "\<forall>x \<in> set (take (Suc ?k) gs). x \<le> ?d"
    using assms(1) k by (auto simp: in_set_conv_nth sorted_iff_nth_mono)
  have "length (filter (\<lambda>x. x < ?d) gs) = length (filter (\<lambda>x. x < ?d) (take ?k gs)) + length (filter (\<lambda>x. x < ?d) (drop ?k gs))"
    by (subst split(1)) (simp only: filter_append length_append)
  then have less: "length (filter (\<lambda>x. x < ?d) gs) \<le> ?k"
    using hi k length_filter_le [of "\<lambda>x. x < ?d" "take ?k gs"] by (simp add: filter_False)
  have "length (filter (\<lambda>x. x \<le> ?d) gs) = length (filter (\<lambda>x. x \<le> ?d) (take (Suc ?k) gs)) + length (filter (\<lambda>x. x \<le> ?d) (drop (Suc ?k) gs))"
    by (subst split(2)) (simp only: filter_append length_append)
  then have more: "Suc ?k \<le> length (filter (\<lambda>x. x \<le> ?d) gs)"
    using lo k by (simp add: filter_True del: take_Suc)
  from less more k show ?thesis unfolding is_median_def by (intro conjI nth_mem) presburger+
qed

lemma is_median_mset: "mset ds = mset ds' \<Longrightarrow> is_median ds d = is_median ds' d"
proof -
  assume m: "mset ds = mset ds'"
  have "length (filter P ds) = length (filter P ds')" for P using m by (metis mset_eq_length mset_filter)
  then show ?thesis using mset_eq_length [OF m] mset_eq_setD [OF m] by (simp only: is_median_def)
qed

lemma sorted_map_const: "sorted (map (\<lambda>t. t * 1000) ts) = sorted (ts :: int list)"
  by (induction ts) auto

lemma inferInterval_median:
  "is_interval ts (inferInterval (map (\<lambda>t. t * 1000) ts))"
proof (cases "length ts < 2")
  case True
  then show ?thesis by (simp add: is_interval_def inferInterval_def MONTH_SECONDS_def)
next
  case False
  let ?gs = "sort (distances ts)"
  have "sort (map (\<lambda>t. t * 1000) ts) = map (\<lambda>t. t * 1000) (sort ts)"
    by (rule properties_for_sort) (simp_all add: sorted_map_const)
  then have "inferInterval (map (\<lambda>t. t * 1000) ts) = ?gs ! (length ?gs div 2)"
    using False by (simp add: inferInterval_def gaps_seconds distances_def)
  moreover have "?gs \<noteq> []" using False length_distances [of ts] by (metis length_sort list.size(3) diff_is_0_eq not_less_eq_eq One_nat_def numeral_2_eq_2 not_le)
  ultimately have "is_median ?gs (inferInterval (map (\<lambda>t. t * 1000) ts))" using sorted_middle [of ?gs] by simp
  then have "is_median (distances ts) (inferInterval (map (\<lambda>t. t * 1000) ts))"
    using is_median_mset [of ?gs "distances ts"] by simp
  then show ?thesis using False by (simp add: is_interval_def)
qed

lemma is_interval_mset:
  assumes "mset ts = mset ts'"
  shows "is_interval ts d = is_interval ts' d"
proof -
  have "sort ts = sort ts'" using assms by (metis sorted_list_of_multiset_mset)
  moreover have "length ts = length ts'" by (rule mset_eq_length [OF assms])
  ultimately show ?thesis by (simp only: is_interval_def distances_def)
qed

lemma js_quot_sgn: "0 < d \<Longrightarrow> js_quot a d = sgn a * (\<bar>a\<bar> div d)"
  by (auto simp: js_quot_def sgn_if)

lemma sub_mrr_share:
  assumes "s \<in> payers now merchant t es" and "\<forall>e \<in> set (billed now merchant t s es). big_int (ev_amount e) \<noteq> None"
  shows "monthly_share (billed now merchant t s es) (sub_mrr s t (recent_payments now merchant es))"
proof -
  let ?B = "billed now merchant t s es" and ?S = "sort_key ev_ledgerTimestamp (billed now merchant t s es)"
  have ne: "?S \<noteq> []" using assms(1) by (metis (mono_tags, lifting) payers_def mem_Collect_eq length_0_conv length_sort)
  let ?e = "last ?S" and ?d = "inferInterval (map (\<lambda>p. ev_ledgerTimestamp p * 1000) ?S)"
  have e: "?e \<in> set ?B" using last_in_set [OF ne] by simp
  obtain a where a: "big_int (ev_amount ?e) = Some a" using assms(2) e by auto
  have greatest: "ev_ledgerTimestamp p \<le> ev_ledgerTimestamp ?e" if "p \<in> set ?B" for p
  proof -
    have p: "p \<in> set ?S" using that by simp
    have "sorted (map ev_ledgerTimestamp (butlast ?S @ [?e]))" using ne by simp
    moreover have "p \<in> set (butlast ?S) \<or> p = ?e" using p append_butlast_last_id [OF ne] by (metis in_set_butlastD Un_iff set_append empty_iff insert_iff list.set)
    ultimately show ?thesis by (auto simp: sorted_append)
  qed
  have "map (\<lambda>p. ev_ledgerTimestamp p * 1000) ?S = map (\<lambda>t. t * 1000) (map ev_ledgerTimestamp ?S)" by (simp add: comp_def)
  then have "is_interval (map ev_ledgerTimestamp ?S) ?d" using inferInterval_median by metis
  then have d: "is_interval (map ev_ledgerTimestamp ?B) ?d" using is_interval_mset [of "map ev_ledgerTimestamp ?S" "map ev_ledgerTimestamp ?B"] by simp
  have "sub_mrr s t (recent_payments now merchant es) = (if ?d \<le> 0 then a else sgn a * (\<bar>a\<bar> * 2592000 div ?d))"
    by (auto simp: sub_mrr_def sub_payments_billed normaliseToMonthly_def ev_amt_def a MONTH_SECONDS_def js_quot_sgn sgn_mult abs_mult)
  with e greatest a d show ?thesis unfolding monthly_share_def by blast
qed

text \<open>C28: The recurring revenue that the route computes, from all events of the table. There is exactly one row for every
  token in which this merchant was paid (an executed payment) in the last sixty days. Its count is the number of
  subscribers who paid, and its amount is the sum of one monthly amount per such subscriber: the amount of their
  latest payment, scaled from the median distance of their payments (thirty days for a single one) to thirty days.
  Payments of other merchants, older payments and other events do not enter. Payers are counted, not subscriptions:
  a payer who has cancelled since stays in the figure that the code and its documentation describe as that of the
  active subscriptions. (Addresses contain no separator sign; the counted amounts are numbers.)\<close>

theorem mrr_exact:
  assumes "\<forall>e \<in> set es. counted now merchant e \<longrightarrow> CHR ''|'' \<notin> set (ev_subscriber e) \<and> big_int (ev_amount e) \<noteq> None"
  shows "\<exists>r. computeMrr now merchant es = Inr r \<and> distinct (map tm_token (mr_tokens r)) \<and>
    tm_token ` set (mr_tokens r) = {ev_token e |e. e \<in> set es \<and> counted now merchant e} \<and>
    (\<forall>row \<in> set (mr_tokens r).
       tm_active_subscriptions row = card (payers now merchant (tm_token row) es) \<and>
       (\<exists>f. (\<forall>s \<in> payers now merchant (tm_token row) es. monthly_share (billed now merchant (tm_token row) s es) (f s)) \<and>
          tm_mrr_amount row = int_str (\<Sum>s\<in>payers now merchant (tm_token row) es. f s)))"
proof -
  let ?ps = "recent_payments now merchant es"
  have in_ps: "set ?ps = {e \<in> set es. counted now merchant e}" by (simp add: recent_counted)
  have plain: "plain_subscribers ?ps" and amounts: "\<not> list_ex (\<lambda>p. big_int (ev_amount p) = None) ?ps"
    using assms in_ps by (auto simp: plain_subscribers_def list_all_iff list_ex_iff)
  let ?r = "\<lparr>mr_merchant = merchant, mr_tokens = token_mrr ?ps, mr_computed_at = now, mr_cache_hit = False\<rparr>"
  have r: "computeMrr now merchant es = Inr ?r" using amounts by (simp add: computeMrr_def)
  have rows: "set (mr_tokens ?r) = mrr_row ?ps ` ev_token ` set ?ps" using token_mrr_exact(2) [OF plain] by simp
  have share: "monthly_share (billed now merchant t s es) (sub_mrr s t ?ps)" if "s \<in> payers now merchant t es" for s t
    using that assms by (intro sub_mrr_share) (auto simp: billed_def)
  have row: "tm_active_subscriptions row = card (payers now merchant (tm_token row) es) \<and>
       (\<exists>f. (\<forall>s \<in> payers now merchant (tm_token row) es. monthly_share (billed now merchant (tm_token row) s es) (f s)) \<and>
          tm_mrr_amount row = int_str (\<Sum>s\<in>payers now merchant (tm_token row) es. f s))" if "row \<in> set (mr_tokens ?r)" for row
  proof -
    have "row = mrr_row ?ps (tm_token row)" using that unfolding rows by (auto simp: mrr_row_def)
    then have "tm_active_subscriptions row = card (payers now merchant (tm_token row) es)"
        "tm_mrr_amount row = int_str (\<Sum>s\<in>payers now merchant (tm_token row) es. sub_mrr s (tm_token row) ?ps)"
      by (metis mrr_row_def subscribers_payers TokenMrr.select_convs(3), metis mrr_row_def subscribers_payers TokenMrr.select_convs(2))
    then show ?thesis using share by (intro conjI exI [of _ "\<lambda>s. sub_mrr s (tm_token row) ?ps"]) simp_all
  qed
  have tokens: "tm_token ` set (mr_tokens ?r) = {ev_token e |e. e \<in> set es \<and> counted now merchant e}"
    unfolding rows image_image in_ps by (auto simp: mrr_row_def)
  have "distinct (map tm_token (mr_tokens ?r))" using token_mrr_exact(1) [OF plain] by simp
  with r tokens row show ?thesis by blast
qed

definition demo_paid :: "string \<Rightarrow> int \<Rightarrow> event_entry" where
  "demo_paid s t = \<lparr>ev_type = ''executed'', ev_subscriber = s, ev_merchant = ''M'', ev_token = ''T'', ev_amount = ''7'', ev_ledgerTimestamp = t\<rparr>"

definition demo_table :: "event_entry list" where
  "demo_table = [demo_paid ''a'' 1, demo_paid ''b'' 2, demo_paid ''a'' 604801, (demo_paid ''a'' 604802)\<lparr>ev_merchant := ''N''\<rparr>]"

lemma demo_payers: "payers 700000000 ''M'' ''T'' demo_table = {''a'', ''b''}"
proof -
  have "billed 700000000 ''M'' ''T'' s demo_table = (if s = ''a'' then [demo_paid ''a'' 1, demo_paid ''a'' 604801] else if s = ''b'' then [demo_paid ''b'' 2] else [])" for s
    by (auto simp: billed_def counted_def demo_table_def demo_paid_def)
  then show ?thesis by (auto simp: payers_def)
qed

theorem mrr_exact_witness:
  "\<exists>r. computeMrr 700000000 ''M'' demo_table = Inr r \<and> tm_token ` set (mr_tokens r) = {''T''} \<and>
    (\<forall>row \<in> set (mr_tokens r). tm_active_subscriptions row = 2)"
proof -
  have seven: "big_int ''7'' \<noteq> None" by code_simp
  have "\<forall>e \<in> set demo_table. counted 700000000 ''M'' e \<longrightarrow> CHR ''|'' \<notin> set (ev_subscriber e) \<and> big_int (ev_amount e) \<noteq> None"
    using seven by (simp add: demo_table_def demo_paid_def)
  from mrr_exact [OF this] obtain r where r: "computeMrr 700000000 ''M'' demo_table = Inr r"
      "tm_token ` set (mr_tokens r) = {ev_token e |e. e \<in> set demo_table \<and> counted 700000000 ''M'' e}"
      and n: "\<forall>row \<in> set (mr_tokens r). tm_active_subscriptions row = card (payers 700000000 ''M'' (tm_token row) demo_table) \<and>
        (\<exists>f. (\<forall>s \<in> payers 700000000 ''M'' (tm_token row) demo_table. monthly_share (billed 700000000 ''M'' (tm_token row) s demo_table) (f s)) \<and>
          tm_mrr_amount row = int_str (\<Sum>s\<in>payers 700000000 ''M'' (tm_token row) demo_table. f s))" by (elim exE conjE) (rule that)
  have r3: "tm_active_subscriptions row = card (payers 700000000 ''M'' (tm_token row) demo_table)" if "row \<in> set (mr_tokens r)" for row
    using bspec [OF n that] by (rule conjunct1)
  have "demo_paid ''a'' 1 \<in> set demo_table" "counted 700000000 ''M'' (demo_paid ''a'' 1)" "ev_token (demo_paid ''a'' 1) = ''T''"
    by (simp_all add: demo_table_def demo_paid_def counted_def)
  moreover have "\<forall>e \<in> set demo_table. ev_token e = ''T''" by (simp add: demo_table_def demo_paid_def)
  ultimately have one: "{ev_token e |e. e \<in> set demo_table \<and> counted 700000000 ''M'' e} = {''T''}" by (simp only: set_eq_iff mem_Collect_eq singleton_iff) metis
  have t: "tm_token ` set (mr_tokens r) = {''T''}" using r(2) unfolding one .
  have "tm_active_subscriptions row = 2" if "row \<in> set (mr_tokens r)" for row
  proof -
    have "tm_token row \<in> {''T''}" unfolding t [symmetric] using that by (rule imageI)
    then have "tm_token row = ''T''" by (simp only: singleton_iff)
    with r3 [OF that] show ?thesis by (simp only: demo_payers) simp
  qed
  then have "\<forall>row \<in> set (mr_tokens r). tm_active_subscriptions row = 2" by (rule ballI)
  with r(1) t show ?thesis by (intro exI conjI)
qed

section \<open>Regular payments\<close>

lemma gaps_regular:
  "gaps (map (\<lambda>i. (t0 + int i * d) * 1000) [k..<k + Suc n]) = replicate n d"
proof (induction n arbitrary: k)
  case (Suc n)
  have u: "[k..<k + Suc (Suc n)] = k # Suc k # [Suc (Suc k)..<k + Suc (Suc n)]" "[Suc k..<Suc k + Suc n] = Suc k # [Suc (Suc k)..<k + Suc (Suc n)]"
    by (simp_all add: upt_conv_Cons)
  have one: "round_seconds ((t0 + int (Suc k) * d) * 1000 - (t0 + int k * d) * 1000) = d"
    by (simp add: round_seconds_def algebra_simps)
  show ?case
    using Suc.IH [of "Suc k"] one unfolding u by simp
qed simp

lemma inferInterval_regular:
  assumes "0 \<le> d" and "2 \<le> n"
  shows "inferInterval (map (\<lambda>i. (t0 + int i * d) * 1000) [0..<n]) = d"
proof -
  let ?ts = "map (\<lambda>i. (t0 + int i * d) * 1000) [0..<n]"
  obtain m where m: "n = Suc (Suc m)" using assms(2) by (metis Suc_1 Suc_le_D le_add_diff_inverse plus_1_eq_Suc add_Suc)
  have "sorted ?ts" using assms(1) by (simp add: sorted_iff_nth_mono mult_right_mono)
  then have "sort ?ts = ?ts" by (rule sorted_sort_id)
  moreover have "gaps ?ts = replicate (Suc m) d" using gaps_regular [of t0 d 0 "Suc m"] by (simp add: m del: upt_Suc replicate_Suc)
  moreover have "sort (replicate (Suc m) d) = replicate (Suc m) d" by (rule sorted_sort_id) simp
  ultimately show ?thesis using assms(2) by (simp add: inferInterval_def Let_def m del: upt_Suc replicate_Suc)
qed

text \<open>Regular payments give the right monthly amount. For a plan that was paid at least twice, every \<open>d\<close> seconds, the
  median distance is \<open>d\<close>, and the monthly amount is the exact share of the month, rounded down by less than one unit.\<close>

theorem regular_plan_monthly:
  assumes "0 < d" and "2 \<le> n" and "0 \<le> amount"
  shows "let m = normaliseToMonthly amount (inferInterval (map (\<lambda>i. (t0 + int i * d) * 1000) [0..<n]))
    in m * d \<le> amount * 2592000 \<and> amount * 2592000 < (m + 1) * d"
proof -
  let ?q = "amount * 2592000 div d"
  have m: "normaliseToMonthly amount (inferInterval (map (\<lambda>i. (t0 + int i * d) * 1000) [0..<n])) = ?q"
    using assms inferInterval_regular [of d n t0] by (simp add: normaliseToMonthly_def js_quot_def MONTH_SECONDS_def)
  have mod: "amount * 2592000 = ?q * d + amount * 2592000 mod d" by (rule div_mult_mod_eq [symmetric])
  have rem: "amount * 2592000 mod d < d" "0 \<le> amount * 2592000 mod d"
    using assms(1) by simp_all
  have "?q * d \<le> amount * 2592000" "amount * 2592000 < ?q * d + d" using mod rem by linarith+
  then have "?q * d \<le> amount * 2592000 \<and> amount * 2592000 < (?q + 1) * d" by (simp add: distrib_right)
  then show ?thesis unfolding m Let_def .
qed

theorem regular_plan_monthly_witness:
  "let m = normaliseToMonthly 100 (inferInterval (map (\<lambda>i. (50 + int i * 604800) * 1000) [0..<5]))
    in m * 604800 \<le> 100 * 2592000 \<and> 100 * 2592000 < (m + 1) * 604800"
  by (rule regular_plan_monthly) simp_all

text \<open>A cancelled subscription still counts. The figure that is described as the revenue of active subscriptions is
  computed from payments only: an event that is no payment, such as the cancellation of a subscription, changes
  nothing, so for sixty days a subscriber who left is counted as active and their amount as recurring.\<close>

theorem cancelled_subscription_counted:
  assumes "ev_type e = ''cancel''"
  shows "computeMrr now merchant (es @ e # fs) = computeMrr now merchant (es @ fs)"
proof -
  have "ev_type e \<noteq> ''executed''" using assms by simp
  then have "recent_payments now merchant (es @ e # fs) = recent_payments now merchant (es @ fs)"
    by (simp add: recent_payments_def)
  then show ?thesis by (simp add: computeMrr_def)
qed

theorem cancelled_subscription_counted_witness:
  "computeMrr 5000 ''M'' [demo_paid ''a'' 1, (demo_paid ''a'' 2)\<lparr>ev_type := ''cancel''\<rparr>] = computeMrr 5000 ''M'' [demo_paid ''a'' 1]"
  using cancelled_subscription_counted [of "(demo_paid ''a'' 2)\<lparr>ev_type := ''cancel''\<rparr>" 5000 "''M''" "[demo_paid ''a'' 1]" "[]"] by simp

section \<open>The cache\<close>

text \<open>A request: its time, the address in the token, the requested merchant, and the table (or the failure) it would read.\<close>

type_synonym mrr_request = "int \<times> string \<times> string \<times> (mrr_error + event_entry list)"

definition get_mrr_all :: "mrr_request list \<Rightarrow> mrr_cache \<Rightarrow> mrr_cache" where
  "get_mrr_all rs cache = foldl (\<lambda>c (now, caller, requested, db). snd (get_mrr now caller requested db c)) cache rs"

definition own_events :: "string \<Rightarrow> event_entry list \<Rightarrow> event_entry list" where
  "own_events merchant es = filter (\<lambda>e. ev_merchant e = merchant) es"

text \<open>Data that was computed at some time, for a request of this merchant, from this merchant's own events alone.\<close>

definition computed_by :: "mrr_request list \<Rightarrow> string \<Rightarrow> int \<Rightarrow> MrrResponse \<Rightarrow> bool" where
  "computed_by rs merchant t data \<longleftrightarrow>
     (\<exists>es. (t, merchant, merchant, Inr es) \<in> set rs \<and> computeMrr t merchant (own_events merchant es) = Inr data)"

definition mrr_cache_ok :: "mrr_request list \<Rightarrow> mrr_cache \<Rightarrow> bool" where
  "mrr_cache_ok rs cache \<longleftrightarrow> (\<forall>(m, e) \<in> set cache. computed_by rs m (me_cachedAt e) (me_data e))"

lemma computeMrr_own: "computeMrr now merchant (own_events merchant es) = computeMrr now merchant es"
proof -
  have "filter (counted now merchant) (own_events merchant es) = filter (counted now merchant) es"
    unfolding own_events_def filter_filter by (rule filter_cong) (auto simp: counted_def)
  then show ?thesis by (simp add: computeMrr_def recent_counted)
qed

lemma computed_by_mono: "computed_by rs m t d \<Longrightarrow> computed_by (rs @ rs') m t d"
  by (auto simp: computed_by_def)

lemma mrr_cache_ok_mono: "mrr_cache_ok rs cache \<Longrightarrow> set cache' \<subseteq> set cache \<Longrightarrow> mrr_cache_ok (rs @ rs') cache'"
  unfolding mrr_cache_ok_def by (blast intro: computed_by_mono)

lemma getCachedMrr_subset:
  "getCachedMrr now m cache = (r, cache') \<Longrightarrow> set cache' \<subseteq> set cache"
  by (auto simp: getCachedMrr_def AList.delete_eq split: option.splits if_splits)

lemma getCachedMrr_hit:
  assumes "getCachedMrr now m cache = (Some data, cache')"
  shows "\<exists>e. (m, e) \<in> set cache \<and> now - me_cachedAt e \<le> 300000 \<and> data = (me_data e)\<lparr>mr_cache_hit := True\<rparr>"
  using assms map_of_SomeD [of cache m] by (auto simp: getCachedMrr_def MRR_CACHE_TTL_MS_def split: option.splits if_splits)

lemma get_mrr_ok:
  assumes ok: "mrr_cache_ok rs cache" and g: "get_mrr now caller requested db cache = (reply, cache')"
  defines "rs' \<equiv> rs @ [(now, caller, requested, db)]"
  shows "mrr_cache_ok rs' cache'"
    and "reply = MrrData data \<Longrightarrow> caller = requested \<and>
      (\<exists>t d. now - t \<le> 300000 \<and> computed_by rs' requested t d \<and> data = d\<lparr>mr_cache_hit := mr_cache_hit data\<rparr>)"
proof -
  have "mrr_cache_ok rs' cache' \<and> (reply = MrrData data \<longrightarrow> caller = requested \<and>
      (\<exists>t d. now - t \<le> 300000 \<and> computed_by rs' requested t d \<and> data = d\<lparr>mr_cache_hit := mr_cache_hit data\<rparr>))"
  proof (cases "caller = requested")
    case False
    then show ?thesis using g mrr_cache_ok_mono [OF ok subset_refl] by (auto simp: get_mrr_def rs'_def)
  next
    case True
    obtain h c where c: "getCachedMrr now caller cache = (h, c)" by fastforce
    have keep: "mrr_cache_ok rs' c" unfolding rs'_def by (rule mrr_cache_ok_mono [OF ok getCachedMrr_subset [OF c]])
    show ?thesis
    proof (cases h)
      case (Some d)
      then obtain e where e: "(caller, e) \<in> set cache" "now - me_cachedAt e \<le> 300000" "d = (me_data e)\<lparr>mr_cache_hit := True\<rparr>"
        using getCachedMrr_hit c by blast
      from e(1) have "computed_by rs' caller (me_cachedAt e) (me_data e)"
        using ok unfolding mrr_cache_ok_def rs'_def by (auto intro: computed_by_mono)
      moreover have "reply = MrrData d" "cache' = c" using g c Some True by (auto simp: get_mrr_def)
      ultimately show ?thesis using keep e True by (intro conjI impI) (auto intro!: exI [of _ "me_cachedAt e"] exI [of _ "me_data e"])
    next
      case None
      show ?thesis
      proof (cases "\<exists>es result. db = Inr es \<and> computeMrr now caller es = Inr result")
        case False
        then have "reply = MrrFailed \<and> cache' = c" using g c None True by (auto simp: get_mrr_def split: sum.splits)
        then show ?thesis using keep True by simp
      next
        case (True)
        then obtain es result where r: "db = Inr es" "computeMrr now caller es = Inr result" by blast
        have new: "computed_by rs' caller now result"
          using r \<open>caller = requested\<close> by (auto simp: computed_by_def rs'_def computeMrr_own)
        have "reply = MrrData result" "cache' = AList.update caller \<lparr>me_data = result, me_cachedAt = now\<rparr> c"
          using g c None r \<open>caller = requested\<close> by (auto simp: get_mrr_def)
        moreover have "mrr_cache_ok rs' (AList.update caller \<lparr>me_data = result, me_cachedAt = now\<rparr> c)"
          using keep new set_update_subset [of caller "\<lparr>me_data = result, me_cachedAt = now\<rparr>" c] by (fastforce simp: mrr_cache_ok_def)
        ultimately show ?thesis using new \<open>caller = requested\<close> by (auto intro!: exI [of _ now] exI [of _ result])
      qed
    qed
  qed
  then show "mrr_cache_ok rs' cache'" "reply = MrrData data \<Longrightarrow> caller = requested \<and>
      (\<exists>t d. now - t \<le> 300000 \<and> computed_by rs' requested t d \<and> data = d\<lparr>mr_cache_hit := mr_cache_hit data\<rparr>)"
    by blast+
qed

lemma get_mrr_all_ok: "mrr_cache_ok rs (get_mrr_all rs [])"
proof (induction rs rule: rev_induct)
  case Nil
  then show ?case by (simp add: get_mrr_all_def mrr_cache_ok_def)
next
  case (snoc r rs)
  obtain now caller requested db where r: "r = (now, caller, requested, db)" by (cases r) auto
  obtain reply cache' where g: "get_mrr now caller requested db (get_mrr_all rs []) = (reply, cache')" by fastforce
  have "get_mrr_all (rs @ [r]) [] = cache'" using g by (simp add: get_mrr_all_def r)
  then show ?case using get_mrr_ok(1) [OF snoc.IH g] r by simp
qed

text \<open>C40: The revenue route never leaks another merchant's figures, and its cache is fresh. After any sequence of requests
  of any merchants, at any times, on any tables, a reply with data goes to the merchant who is named in the token, and
  the data is what the computation gives at a time at most five minutes ago on the table that a request of this very
  merchant read then, with the events of all other merchants taken out of it.\<close>

theorem mrr_private_and_fresh:
  assumes "get_mrr now caller requested db (get_mrr_all rs []) = (MrrData data, cache)"
  shows "caller = requested \<and> (\<exists>t es d. now - t \<le> 300000 \<and> (t, requested, requested, Inr es) \<in> set (rs @ [(now, caller, requested, db)]) \<and>
    computeMrr t requested (filter (\<lambda>e. ev_merchant e = requested) es) = Inr d \<and>
    mr_merchant data = requested \<and> mr_computed_at data = t \<and> mr_tokens data = mr_tokens d)"
proof -
  obtain t d where d: "caller = requested" "now - t \<le> 300000" "data = d\<lparr>mr_cache_hit := mr_cache_hit data\<rparr>"
      "computed_by (rs @ [(now, caller, requested, db)]) requested t d"
    using get_mrr_ok(2) [OF get_mrr_all_ok assms refl] by blast
  from d(4) obtain es where es: "(t, requested, requested, Inr es) \<in> set (rs @ [(now, caller, requested, db)])"
      "computeMrr t requested (own_events requested es) = Inr d"
    unfolding computed_by_def by blast
  have "mr_merchant d = requested" "mr_computed_at d = t" using es(2) by (auto simp: computeMrr_def Let_def split: if_splits)
  moreover have "mr_merchant data = mr_merchant d" "mr_computed_at data = mr_computed_at d" "mr_tokens data = mr_tokens d"
    by (subst d(3), simp)+
  ultimately show ?thesis using d(1,2) es unfolding own_events_def by auto
qed

theorem mrr_private_and_fresh_witness:
  "\<exists>data t es. fst (get_mrr 700000000 ''M'' ''M'' (Inl MrrDbError) (get_mrr_all [(699999000, ''M'', ''M'', Inr demo_table)] [])) = MrrData data \<and>
    700000000 - t \<le> 300000 \<and> (t = 699999000 \<and> es = demo_table) \<and>
    map_sum id mr_tokens (computeMrr t ''M'' (filter (\<lambda>e. ev_merchant e = ''M'') es)) = Inr (mr_tokens data)"
proof -
  let ?rs = "[(699999000, ''M'', ''M'', Inr demo_table)]"
  have bad: "list_ex (\<lambda>p. big_int (ev_amount p) = None) (recent_payments 699999000 ''M'' demo_table) = False"
  proof -
    have "big_int ''7'' \<noteq> None" by code_simp
    then show ?thesis by (simp add: recent_counted counted_def demo_table_def demo_paid_def)
  qed
  have "get_mrr_all ?rs [] = [(''M'', \<lparr>me_data = \<lparr>mr_merchant = ''M'', mr_tokens = token_mrr (recent_payments 699999000 ''M'' demo_table),
      mr_computed_at = 699999000, mr_cache_hit = False\<rparr>, me_cachedAt = 699999000\<rparr>)]"
    using bad by (simp add: get_mrr_all_def get_mrr_def getCachedMrr_def computeMrr_def)
  then obtain data cache where g: "get_mrr 700000000 ''M'' ''M'' (Inl MrrDbError) (get_mrr_all ?rs []) = (MrrData data, cache)"
    by (simp add: get_mrr_def getCachedMrr_def MRR_CACHE_TTL_MS_def)
  from mrr_private_and_fresh [OF g] obtain t es d where
    t: "700000000 - t \<le> 300000" "(t, ''M'', ''M'', Inr es) \<in> set (?rs @ [(700000000, ''M'', ''M'', Inl MrrDbError)])"
      "computeMrr t ''M'' (filter (\<lambda>e. ev_merchant e = ''M'') es) = Inr d" "mr_tokens data = mr_tokens d"
    by blast
  from t(2) have "t = 699999000 \<and> es = demo_table" by auto
  with g t show ?thesis by (intro exI [of _ data] exI [of _ t] exI [of _ es]) simp
qed

section \<open>The chart adds up\<close>

lemma foldl_sum: "foldl (\<lambda>s e. s + f e) (a :: int) xs = a + (\<Sum>e\<leftarrow>xs. f e)"
  by (induction xs arbitrary: a) auto

lemma get_revenue_data:
  assumes "get_revenue env merchant0 period0 (Inr table) = ChartData r"
  shows "\<exists>ex. ra_mrr r = month_rows env ex \<and> ra_executedCount r = length ex \<and>
    ra_totalRevenue r = int_str (foldl (\<lambda>s e. s + the (chart_amt e)) 0 ex)"
proof -
  obtain m es where "chart_data env m es = ChartData r"
    using assms by (auto simp: get_revenue_def split: option.splits if_splits)
  then have "ra_mrr r = month_rows env (executed es) \<and> ra_executedCount r = length (executed es) \<and>
      ra_totalRevenue r = int_str (foldl (\<lambda>s e. s + the (chart_amt e)) 0 (executed es))"
    unfolding chart_data_def Let_def by (auto split: if_splits)
  then show ?thesis by blast
qed

text \<open>The revenue chart adds up. Every month occurs once and in order; the revenues of the months add up to the total
  revenue, and their payments to the number of executed payments.\<close>

theorem revenue_chart_adds_up:
  assumes "get_revenue env merchant period (Inr table) = ChartData r"
  shows "sorted (map mo_month (ra_mrr r)) \<and> distinct (map mo_month (ra_mrr r)) \<and>
    (\<Sum>m\<leftarrow>ra_mrr r. mo_paymentCount m) = ra_executedCount r \<and>
    (\<exists>vs. map mo_revenue (ra_mrr r) = map int_str vs \<and> ra_totalRevenue r = int_str (sum_list vs))"
proof -
  obtain ex where r: "ra_mrr r = month_rows env ex" "ra_executedCount r = length ex"
      "ra_totalRevenue r = int_str (\<Sum>e\<leftarrow>ex. the (chart_amt e))"
    using get_revenue_data [OF assms] by (auto simp: foldl_sum)
  let ?key = "\<lambda>e. ce_month env (ev_ledgerTimestamp e)"
  let ?val = "\<lambda>k. (\<Sum>e\<leftarrow>filter (\<lambda>e. ?key e = k) ex. the (chart_amt e), length (filter (\<lambda>e. ?key e = k) ex))"
  let ?T = "map (\<lambda>k. (k, ?val k)) (first_keys ?key ex)"
  have tally: "tally ?key (\<lambda>e. (the (chart_amt e), Suc 0)) (\<lambda>v e. (fst v + the (chart_amt e), Suc (snd v))) ex = ?T"
    unfolding tally_exact
  proof (rule map_cong [OF refl])
    fix k assume "k \<in> set (first_keys ?key ex)"
    then have "filter (\<lambda>e. ?key e = k) ex \<noteq> []" using no_items [of ?key k ex] by simp
    from gather_sum [OF this, of "\<lambda>e. the (chart_amt e)"]
    show "(k, gather (\<lambda>e. (the (chart_amt e), Suc 0)) (\<lambda>v e. (fst v + the (chart_amt e), Suc (snd v))) (filter (\<lambda>e. ?key e = k) ex)) = (k, ?val k)"
      by simp
  qed
  let ?S = "sort_key fst ?T"
  have rows: "map mo_month (month_rows env ex) = map fst ?S" "map mo_revenue (month_rows env ex) = map int_str (map (\<lambda>x. fst (snd x)) ?S)"
      "(\<Sum>m\<leftarrow>month_rows env ex. mo_paymentCount m) = (\<Sum>x\<leftarrow>?S. snd (snd x))"
    unfolding month_rows_def tally by (simp_all add: split_beta comp_def)
  have "sorted (map fst ?S)" by simp
  moreover have "distinct (map fst ?S)"
  proof -
    have "mset (map fst ?S) = mset (first_keys ?key ex)" by (simp add: multiset.map_comp comp_def)
    then show ?thesis using distinct_first_keys mset_eq_imp_distinct_iff by blast
  qed
  moreover have "(\<Sum>x\<leftarrow>?S. fst (snd x)) = (\<Sum>e\<leftarrow>ex. the (chart_amt e))"
    unfolding sum_list_sort_key using sum_list_first_keys [where key = ?key and f = "\<lambda>e. the (chart_amt e)" and xs = ex] by (simp add: comp_def)
  moreover have "(\<Sum>x\<leftarrow>?S. snd (snd x)) = length ex"
    unfolding sum_list_sort_key using length_first_keys [where key = ?key and xs = ex] by (simp add: comp_def)
  ultimately show ?thesis unfolding r rows by (intro conjI exI [of _ "map (\<lambda>x. fst (snd x)) ?S"]) simp_all
qed

definition demo_chart :: chart_env where
  "demo_chart = \<lparr>ce_month = (\<lambda>t. if t < 100 then ''2024-01'' else ''2024-02''), ce_label = id, ce_days_before = (\<lambda>n d. n - int d),
     ce_rate = (\<lambda>a b. 100), ce_now = 0\<rparr>"

theorem revenue_chart_adds_up_witness:
  "\<exists>r. get_revenue demo_chart (Some ''M'') (Some ''all'') (Inr [demo_paid ''a'' 1, demo_paid ''a'' 200, demo_paid ''b'' 50]) = ChartData r \<and>
    (\<Sum>m\<leftarrow>ra_mrr r. mo_paymentCount m) = ra_executedCount r"
proof -
  let ?g = "get_revenue demo_chart (Some ''M'') (Some ''all'') (Inr [demo_paid ''a'' 1, demo_paid ''a'' 200, demo_paid ''b'' 50])"
  have "(case ?g of ChartData r \<Rightarrow> ra_executedCount r = 3 | _ \<Rightarrow> False)" by code_simp
  then obtain r where r: "?g = ChartData r" by (auto split: chart_reply.splits)
  from revenue_chart_adds_up [OF r] show ?thesis using r by blast
qed

end
