(* ===== verification/Analytics.thy ===== *)
theory Analytics
  imports Json Effects Cursor Tally
begin

text \<open>
  Event tracking with consent, \<^verbatim>\<open>backend/src/services/analyticsService.ts\<close>. The two tables are lists in the
  order of insertion; equal keys of an \<^verbatim>\<open>orderBy\<close> and equal counts of a \<^verbatim>\<open>groupBy\<close> come in that order too,
  which SQL leaves open. SHA-256 and the floating-point percentage are arguments. Property texts are kept as
  the values that \<^verbatim>\<open>JSON.stringify\<close> prints; calls that the source starts together are made one after
  the other, as none of them writes.
\<close>

section \<open>State\<close>

record ConsentRecord =
  cr_id :: nat
  cr_userId :: "string option"
  cr_anonymousId :: "string option"
  cr_analytics :: bool
  cr_marketing :: bool
  cr_functional :: bool
  cr_ipHash :: "string option"
  cr_userAgent :: "string option"
  cr_createdAt :: int

record AnalyticsEvent =
  ae_id :: nat
  ae_eventName :: string
  ae_userId :: "string option"
  ae_anonymousId :: "string option"
  ae_sessionId :: "string option"
  ae_properties :: "(string \<times> json) list option"
  ae_page :: "string option"
  ae_referrer :: "string option"
  ae_userAgent :: "string option"
  ae_ipHash :: "string option"
  ae_consentGiven :: bool
  ae_createdAt :: int

record analytics_db =
  an_consents :: "ConsentRecord list"
  an_events :: "AnalyticsEvent list"
  an_nextConsent :: nat
  an_nextEvent :: nat

datatype analytics_error = InvalidCursorError | AnalyticsDbError

type_synonym 'a analytics_io = "(analytics_db, analytics_error, 'a) io"

record analytics_env =
  av_sha256 :: "string \<Rightarrow> string"
  av_percent :: "nat \<Rightarrow> nat \<Rightarrow> int"
  av_now :: int

text \<open>\<^verbatim>\<open>if (s)\<close> for a text that may be missing.\<close>

definition given :: "string option \<Rightarrow> string option" where
  "given s = (case s of Some t \<Rightarrow> if t = '''' then None else Some t | None \<Rightarrow> None)"

section \<open>Privacy\<close>

definition hashIp :: "analytics_env \<Rightarrow> string \<Rightarrow> string" where
  "hashIp env ip = take 16 (av_sha256 env ip)"

definition PII_FIELDS :: "string list" where
  "PII_FIELDS = [''email'', ''phone'', ''name'', ''firstName'', ''lastName'', ''first_name'', ''last_name'',
     ''address'', ''city'', ''state'', ''zip'', ''zipCode'', ''country'', ''dateOfBirth'', ''dob'',
     ''ssn'', ''passport'', ''nationalId'', ''creditCard'', ''cardNumber'']"

definition sanitizeProperties :: "(string \<times> json) list \<Rightarrow> bool \<Rightarrow> (string \<times> json) list" where
  "sanitizeProperties properties consentGiven =
     (if consentGiven then properties
      else filter (\<lambda>(key, val). js_lower key \<notin> set PII_FIELDS) properties)"

section \<open>Consent\<close>

record ConsentOptions =
  co_userId :: "string option"
  co_anonymousId :: "string option"
  co_analytics :: bool
  co_marketing :: bool
  co_functional :: "bool option"
  co_ip :: "string option"
  co_userAgent :: "string option"

definition recordConsent :: "analytics_env \<Rightarrow> ConsentOptions \<Rightarrow> nat analytics_io" where
  "recordConsent env options = db_call AnalyticsDbError (\<lambda>db. let i = an_nextConsent db in
     (i, db\<lparr>an_consents := an_consents db @ [\<lparr>cr_id = i, cr_userId = co_userId options,
              cr_anonymousId = co_anonymousId options, cr_analytics = co_analytics options,
              cr_marketing = co_marketing options,
              cr_functional = (case co_functional options of Some b \<Rightarrow> b | None \<Rightarrow> True),
              cr_ipHash = map_option (hashIp env) (given (co_ip options)),
              cr_userAgent = co_userAgent options, cr_createdAt = av_now env\<rparr>],
            an_nextConsent := i + 1\<rparr>))"

definition consent_matches :: "string option \<Rightarrow> string option \<Rightarrow> ConsentRecord \<Rightarrow> bool" where
  "consent_matches userId anonymousId r = (case given userId of
      Some u \<Rightarrow> cr_userId r = Some u
    | None \<Rightarrow> (case given anonymousId of Some a \<Rightarrow> cr_anonymousId r = Some a | None \<Rightarrow> True))"

definition newest :: "ConsentRecord list \<Rightarrow> ConsentRecord option" where
  "newest rs = (case sort_key (\<lambda>r. - cr_createdAt r) rs of [] \<Rightarrow> None | r # _ \<Rightarrow> Some r)"

definition getConsent :: "string option \<Rightarrow> string option \<Rightarrow> ConsentRecord option analytics_io" where
  "getConsent userId anonymousId =
     (if given userId = None \<and> given anonymousId = None then io_return None
      else db_read AnalyticsDbError (\<lambda>db. newest (filter (consent_matches userId anonymousId) (an_consents db))))"

definition hasAnalyticsConsent :: "string option \<Rightarrow> string option \<Rightarrow> bool analytics_io" where
  "hasAnalyticsConsent userId anonymousId = io_bind (getConsent userId anonymousId) (\<lambda>r.
     io_return (case r of Some c \<Rightarrow> cr_analytics c | None \<Rightarrow> False))"

section \<open>Tracking\<close>

record TrackEventOptions =
  to_eventName :: string
  to_userId :: "string option"
  to_anonymousId :: "string option"
  to_sessionId :: "string option"
  to_properties :: "(string \<times> json) list"
  to_page :: "string option"
  to_referrer :: "string option"
  to_userAgent :: "string option"
  to_ip :: "string option"
  to_consentGiven :: bool

definition analytics_event :: "analytics_env \<Rightarrow> TrackEventOptions \<Rightarrow> bool \<Rightarrow> nat \<Rightarrow> AnalyticsEvent" where
  "analytics_event env o0 consent i = (let safeProps = sanitizeProperties (to_properties o0) consent in
     \<lparr>ae_id = i, ae_eventName = to_eventName o0, ae_userId = to_userId o0, ae_anonymousId = to_anonymousId o0,
      ae_sessionId = to_sessionId o0, ae_properties = (if safeProps = [] then None else Some safeProps),
      ae_page = to_page o0, ae_referrer = to_referrer o0, ae_userAgent = to_userAgent o0,
      ae_ipHash = map_option (hashIp env) (given (to_ip o0)), ae_consentGiven = consent, ae_createdAt = av_now env\<rparr>)"

definition trackEvent :: "analytics_env \<Rightarrow> TrackEventOptions \<Rightarrow> nat analytics_io" where
  "trackEvent env o0 = io_bind
     (if to_consentGiven o0 then io_return True else hasAnalyticsConsent (to_userId o0) (to_anonymousId o0))
     (\<lambda>consent. db_call AnalyticsDbError (\<lambda>db. let i = an_nextEvent db in
        (i, db\<lparr>an_events := an_events db @ [analytics_event env o0 consent i], an_nextEvent := i + 1\<rparr>)))"

definition plain_options :: "string \<Rightarrow> string option \<Rightarrow> (string \<times> json) list \<Rightarrow> bool \<Rightarrow> TrackEventOptions" where
  "plain_options eventName userId properties consent =
     \<lparr>to_eventName = eventName, to_userId = userId, to_anonymousId = None, to_sessionId = None,
      to_properties = properties, to_page = None, to_referrer = None, to_userAgent = None, to_ip = None,
      to_consentGiven = consent\<rparr>"

record PageViewOptions =
  po_page :: string
  po_userId :: "string option"
  po_anonymousId :: "string option"
  po_sessionId :: "string option"
  po_referrer :: "string option"
  po_userAgent :: "string option"
  po_ip :: "string option"
  po_consentGiven :: bool

definition trackPageView :: "analytics_env \<Rightarrow> PageViewOptions \<Rightarrow> nat analytics_io" where
  "trackPageView env p = trackEvent env
     \<lparr>to_eventName = ''page_view'', to_userId = po_userId p, to_anonymousId = po_anonymousId p,
      to_sessionId = po_sessionId p, to_properties = [(''path'', JStr (po_page p))], to_page = Some (po_page p),
      to_referrer = po_referrer p, to_userAgent = po_userAgent p, to_ip = po_ip p, to_consentGiven = po_consentGiven p\<rparr>"

definition trackSubscriptionCreated :: "analytics_env \<Rightarrow> string \<Rightarrow> string \<Rightarrow> string \<Rightarrow> string \<Rightarrow> nat analytics_io" where
  "trackSubscriptionCreated env userId merchant amount token = trackEvent env
     (plain_options ''subscription_created'' (Some userId)
        [(''merchant'', JStr merchant), (''amount'', JStr amount), (''token'', JStr token)] True)"

definition trackPaymentExecuted :: "analytics_env \<Rightarrow> string \<Rightarrow> string \<Rightarrow> string \<Rightarrow> string \<Rightarrow> nat analytics_io" where
  "trackPaymentExecuted env userId merchant amount txHash = trackEvent env
     (plain_options ''payment_executed'' (Some userId)
        [(''merchant'', JStr merchant), (''amount'', JStr amount), (''txHash'', JStr txHash)] True)"

definition trackPaymentFailed :: "analytics_env \<Rightarrow> string \<Rightarrow> string \<Rightarrow> string \<Rightarrow> nat analytics_io" where
  "trackPaymentFailed env userId merchant amount = trackEvent env
     (plain_options ''payment_failed'' (Some userId) [(''merchant'', JStr merchant), (''amount'', JStr amount)] True)"

definition trackSubscriptionCancelled :: "analytics_env \<Rightarrow> string \<Rightarrow> string \<Rightarrow> nat analytics_io" where
  "trackSubscriptionCancelled env userId merchant = trackEvent env
     (plain_options ''subscription_cancelled'' (Some userId) [(''merchant'', JStr merchant)] True)"

definition trackWalletConnected :: "analytics_env \<Rightarrow> string option \<Rightarrow> string option \<Rightarrow> string \<Rightarrow> nat analytics_io" where
  "trackWalletConnected env userId anonymousId walletType = trackEvent env
     ((plain_options ''wallet_connected'' userId [(''walletType'', JStr walletType)] False)\<lparr>to_anonymousId := anonymousId\<rparr>)"

section \<open>Aggregates\<close>

text \<open>\<^verbatim>\<open>groupBy\<close> with a count: every key once, in the order of its first row; the largest groups first.\<close>

definition group_count :: "('a \<Rightarrow> 'k) \<Rightarrow> 'a list \<Rightarrow> ('k \<times> nat) list" where
  "group_count f xs = map (\<lambda>k. (k, length (filter (\<lambda>x. f x = k) xs))) (first_keys f xs)"

definition largest_groups :: "('a \<Rightarrow> 'k) \<Rightarrow> 'a list \<Rightarrow> ('k \<times> nat) list" where
  "largest_groups f xs = sort_key (\<lambda>g. - int (snd g)) (group_count f xs)"

definition DAY_MS :: int where "DAY_MS = 24 * 3600000"

definition in_range :: "int \<Rightarrow> int \<Rightarrow> AnalyticsEvent \<Rightarrow> bool" where
  "in_range startDate endDate e = (startDate \<le> ae_createdAt e \<and> ae_createdAt e \<le> endDate)"

record DashboardStats =
  ds_totalEvents :: nat
  ds_uniqueUsers :: nat
  ds_pageViews :: nat
  ds_topPages :: "(string \<times> nat) list"
  ds_topEvents :: "(string \<times> nat) list"
  ds_dailyTrend :: "(int \<times> nat) list"
  ds_consentRate :: int

definition events_where :: "(AnalyticsEvent \<Rightarrow> bool) \<Rightarrow> (AnalyticsEvent list \<Rightarrow> 'a) \<Rightarrow> 'a analytics_io" where
  "events_where p q = db_read AnalyticsDbError (\<lambda>db. q (filter p (an_events db)))"

text \<open>The day of an event is its number since the epoch. A group of pages never has the key \<^verbatim>\<open>null\<close>, which
  the filter excludes.\<close>

definition getDashboardStats :: "analytics_env \<Rightarrow> int option \<Rightarrow> int option \<Rightarrow> DashboardStats analytics_io" where
  "getDashboardStats env start end0 =
     (let startDate = (case start of Some t \<Rightarrow> t | None \<Rightarrow> av_now env - 30 * DAY_MS);
          endDate = (case end0 of Some t \<Rightarrow> t | None \<Rightarrow> av_now env);
          ok = in_range startDate endDate in
      io_bind (events_where ok length) (\<lambda>totalEvents.
      io_bind (events_where (\<lambda>e. ok e \<and> ae_consentGiven e) length) (\<lambda>consentCount.
      io_bind (events_where (\<lambda>e. ae_eventName e = ''page_view'' \<and> ok e) length) (\<lambda>pageViews.
      io_bind (events_where (\<lambda>e. ae_eventName e = ''page_view'' \<and> ae_page e \<noteq> None \<and> ok e)
                 (\<lambda>es. take 10 (largest_groups ae_page es))) (\<lambda>topPagesRaw.
      io_bind (events_where ok (\<lambda>es. take 10 (largest_groups ae_eventName es))) (\<lambda>topEventsRaw.
      io_bind (events_where ok (\<lambda>es. sort_key fst (group_count (\<lambda>e. ae_createdAt e div DAY_MS) es))) (\<lambda>dailyRaw.
      io_bind (events_where (\<lambda>e. ae_userId e \<noteq> None \<and> ok e) (\<lambda>es. length (group_count ae_userId es))) (\<lambda>uniqueUsers.
      io_return \<lparr>ds_totalEvents = totalEvents, ds_uniqueUsers = uniqueUsers, ds_pageViews = pageViews,
        ds_topPages = map (\<lambda>(p, n). (case p of Some q \<Rightarrow> q | None \<Rightarrow> ''/'', n)) topPagesRaw,
        ds_topEvents = topEventsRaw, ds_dailyTrend = dailyRaw,
        ds_consentRate = (if totalEvents > 0 then av_percent env consentCount totalEvents else 0)\<rparr>))))))))"

definition getUserEventProfile :: "string \<Rightarrow> (string \<times> nat) list analytics_io" where
  "getUserEventProfile userId = events_where (\<lambda>e. ae_userId e = Some userId) (largest_groups ae_eventName)"

definition getRecentEventsForUser :: "string \<Rightarrow> int \<Rightarrow> AnalyticsEvent list analytics_io" where
  "getRecentEventsForUser userId limit = events_where (\<lambda>e. ae_userId e = Some userId)
     (\<lambda>es. prisma_take limit (sort_key (\<lambda>e. - ae_createdAt e) es))"

record TenantAggregates =
  ta_totalEvents :: nat
  ta_uniqueSessions :: nat
  ta_topEvents :: "(string \<times> nat) list"
  ta_start :: "int option"
  ta_end :: "int option"

definition least_opt :: "int list \<Rightarrow> int option" where
  "least_opt ts = (case ts of [] \<Rightarrow> None | t # us \<Rightarrow> Some (foldl min t us))"

definition greatest_opt :: "int list \<Rightarrow> int option" where
  "greatest_opt ts = (case ts of [] \<Rightarrow> None | t # us \<Rightarrow> Some (foldl max t us))"

definition tenant_filter :: "string \<Rightarrow> int option \<Rightarrow> int option \<Rightarrow> AnalyticsEvent \<Rightarrow> bool" where
  "tenant_filter tenantId startDate endDate e =
     (ae_userId e = Some tenantId \<and> (case startDate of Some t \<Rightarrow> t \<le> ae_createdAt e | None \<Rightarrow> True) \<and>
      (case endDate of Some t \<Rightarrow> ae_createdAt e \<le> t | None \<Rightarrow> True))"

definition getTenantAggregates :: "string \<Rightarrow> int option \<Rightarrow> int option \<Rightarrow> TenantAggregates analytics_io" where
  "getTenantAggregates tenantId startDate endDate =
     (let ok = tenant_filter tenantId startDate endDate in
      io_bind (events_where ok length) (\<lambda>totalEvents.
      io_bind (events_where ok (\<lambda>es. take 10 (largest_groups ae_eventName es))) (\<lambda>topEvents.
      io_bind (events_where (\<lambda>e. ok e \<and> ae_sessionId e \<noteq> None) (\<lambda>es. length (group_count ae_sessionId es))) (\<lambda>sessions.
      io_bind (events_where ok (\<lambda>es. (least_opt (map ae_createdAt es), greatest_opt (map ae_createdAt es)))) (\<lambda>(lo, hi).
      io_return \<lparr>ta_totalEvents = totalEvents, ta_uniqueSessions = sessions, ta_topEvents = topEvents,
        ta_start = lo, ta_end = hi\<rparr>)))))"

section \<open>Pages\<close>

datatype direction = Forward | Backward

record CursorOptions =
  cu_cursor :: "string option"
  cu_limit :: "int option"
  cu_direction :: "direction option"

record CursorPage =
  cp_items :: "AnalyticsEvent list"
  cp_nextCursor :: "string option"
  cp_prevCursor :: "string option"
  cp_total :: nat
  cp_pageSize :: nat

definition page_limit :: "int option \<Rightarrow> nat" where
  "page_limit l = nat (min (max 1 (case l of Some n \<Rightarrow> n | None \<Rightarrow> 50)) 200)"

definition page_pivot :: "string option \<Rightarrow> cursor_error + nat option" where
  "page_pivot cursor = (case given cursor of
      None \<Rightarrow> Inr None
    | Some c \<Rightarrow> (case decodeIdCursor c of Inl e \<Rightarrow> Inl e | Inr n \<Rightarrow> Inr (Some n)))"

definition cursor_where :: "direction \<Rightarrow> nat option \<Rightarrow> AnalyticsEvent \<Rightarrow> bool" where
  "cursor_where dir pivot e = (case pivot of
      None \<Rightarrow> True
    | Some p \<Rightarrow> (case dir of Forward \<Rightarrow> p < ae_id e | Backward \<Rightarrow> ae_id e < p))"

text \<open>\<^verbatim>\<open>orderBy: [{ createdAt }, { id }]\<close>: sorting is stable, so by the second key first.\<close>

definition page_order :: "direction \<Rightarrow> AnalyticsEvent list \<Rightarrow> AnalyticsEvent list" where
  "page_order dir es = (case dir of
      Forward \<Rightarrow> sort_key ae_createdAt (sort_key ae_id es)
    | Backward \<Rightarrow> sort_key (\<lambda>e. - ae_createdAt e) (sort_key (\<lambda>e. - int (ae_id e)) es))"

definition make_page :: "nat \<Rightarrow> nat option \<Rightarrow> AnalyticsEvent list \<Rightarrow> nat \<Rightarrow> CursorPage" where
  "make_page limit pivot fetched total0 =
     (let hasMore = limit < length fetched; items = (if hasMore then butlast fetched else fetched) in
      \<lparr>cp_items = items,
       cp_nextCursor = (if hasMore \<and> items \<noteq> [] then Some (encodeIdCursor (ae_id (last items))) else None),
       cp_prevCursor = (if pivot \<noteq> None \<and> items \<noteq> [] then Some (encodeIdCursor (ae_id (hd items))) else None),
       cp_total = total0, cp_pageSize = length items\<rparr>)"

definition getPaginatedEvents :: "string \<Rightarrow> CursorOptions \<Rightarrow> CursorPage analytics_io" where
  "getPaginatedEvents tenantId options =
     (let limit = page_limit (cu_limit options);
          dir = (case cu_direction options of Some d \<Rightarrow> d | None \<Rightarrow> Forward) in
      case page_pivot (cu_cursor options) of
        Inl e \<Rightarrow> io_throw InvalidCursorError
      | Inr pivot \<Rightarrow>
          io_bind (events_where (\<lambda>e. ae_userId e = Some tenantId \<and> cursor_where dir pivot e)
                     (\<lambda>es. take (limit + 1) (page_order dir es))) (\<lambda>fetched.
          io_bind (events_where (\<lambda>e. ae_userId e = Some tenantId) length) (\<lambda>total0.
          io_return (make_page limit pivot fetched total0))))"

text \<open>A client that follows \<^verbatim>\<open>nextCursor\<close>, at most \<open>n\<close> pages.\<close>

fun read_pages :: "nat \<Rightarrow> string \<Rightarrow> int option \<Rightarrow> string option \<Rightarrow> analytics_db \<Rightarrow> AnalyticsEvent list" where
  "read_pages 0 tenantId limit cursor db = []"
| "read_pages (Suc n) tenantId limit cursor db =
     (case fst (getPaginatedEvents tenantId \<lparr>cu_cursor = cursor, cu_limit = limit, cu_direction = Some Forward\<rparr> (db, [])) of
        Inl e \<Rightarrow> []
      | Inr page \<Rightarrow> cp_items page @ (case cp_nextCursor page of
            None \<Rightarrow> []
          | Some c \<Rightarrow> read_pages n tenantId limit (Some c) db))"

section \<open>Consent decides what is stored\<close>

lemma sort_key_last_least:
  "\<forall>x \<in> set xs. k r < (k x :: int) \<Longrightarrow> sort_key k (xs @ [r]) = r # sort_key k xs"
  by (induction xs) auto

lemma newest_appended:
  assumes "\<forall>c \<in> set cs. cr_createdAt c < cr_createdAt r"
  shows "newest (cs @ [r]) = Some r"
proof -
  have "sort_key (\<lambda>c. - cr_createdAt c) (cs @ [r]) = r # sort_key (\<lambda>c. - cr_createdAt c) cs"
    using assms by (intro sort_key_last_least) simp
  then show ?thesis by (simp add: newest_def)
qed

lemma trackEvent_run:
  assumes "\<not> to_consentGiven o0"
  shows "an_events (db_after (trackEvent env o0) [] db) = an_events db @
    [analytics_event env o0 (case fst (hasAnalyticsConsent (to_userId o0) (to_anonymousId o0) (db, [])) of Inr b \<Rightarrow> b | Inl _ \<Rightarrow> False)
       (an_nextEvent db)]"
  using assms
  by (simp add: trackEvent_def db_after_def hasAnalyticsConsent_def getConsent_def io_simps Let_def)

text \<open>The latest choice decides. After a user records a choice on analytics, later than every earlier record
  of that user, an event of that user that brings no consent of its own is stored with exactly that choice, and
  its properties are filtered according to it.\<close>

theorem latest_consent_decides:
  assumes "co_userId options = Some u" and "u \<noteq> ''''" and "to_userId o0 = Some u" and "\<not> to_consentGiven o0"
    and "list_all (\<lambda>c. cr_userId c = Some u \<longrightarrow> cr_createdAt c < av_now env) (an_consents db)"
  shows "an_events (db_after (trackEvent env' o0) [] (db_after (recordConsent env options) [] db)) =
    an_events db @ [analytics_event env' o0 (co_analytics options) (an_nextEvent db)]"
proof -
  let ?db = "db_after (recordConsent env options) [] db"
  obtain r where r: "an_consents ?db = an_consents db @ [r]" "cr_userId r = Some u" "cr_analytics r = co_analytics options"
      "cr_createdAt r = av_now env" "an_events ?db = an_events db" "an_nextEvent ?db = an_nextEvent db"
    using assms(1) by (simp add: recordConsent_def db_after_def io_simps Let_def)
  have match: "consent_matches (Some u) a c \<longleftrightarrow> cr_userId c = Some u" for a c
    using assms(2) by (simp add: consent_matches_def given_def)
  have "newest (filter (consent_matches (Some u) (to_anonymousId o0)) (an_consents ?db)) = Some r"
    using r assms(5) by (simp add: match) (intro newest_appended, auto simp: list_all_iff match)
  then have "fst (hasAnalyticsConsent (to_userId o0) (to_anonymousId o0) (?db, [])) = Inr (co_analytics options)"
    using assms(2,3) r(3) by (simp add: hasAnalyticsConsent_def getConsent_def given_def io_simps)
  then show ?thesis using trackEvent_run [OF assms(4), of env' ?db] r(5,6) by simp
qed

definition demo_av :: "int \<Rightarrow> analytics_env" where
  "demo_av t = \<lparr>av_sha256 = id, av_percent = (\<lambda>c n. int (100 * c div n)), av_now = t\<rparr>"

definition demo_consent :: "bool \<Rightarrow> ConsentOptions" where
  "demo_consent b = \<lparr>co_userId = Some ''u'', co_anonymousId = None, co_analytics = b, co_marketing = False,
     co_functional = None, co_ip = None, co_userAgent = None\<rparr>"

definition demo_analytics :: analytics_db where
  "demo_analytics = \<lparr>an_consents = [], an_events = [], an_nextConsent = 1, an_nextEvent = 1\<rparr>"

definition demo_options :: TrackEventOptions where
  "demo_options = plain_options ''signup'' (Some ''u'') [(''Email'', JStr ''a@b.c''), (''plan'', JStr ''pro'')] False"

theorem latest_consent_decides_witness:
  "map ae_consentGiven (an_events (db_after (trackEvent (demo_av 9) demo_options) []
     (db_after (recordConsent (demo_av 8) (demo_consent False)) [] (db_after (recordConsent (demo_av 7) (demo_consent True)) [] demo_analytics)))) = [False]"
  using latest_consent_decides [of "demo_consent False" "''u''" demo_options "demo_av 8"
      "db_after (recordConsent (demo_av 7) (demo_consent True)) [] demo_analytics" "demo_av 9"]
  by (simp add: demo_consent_def demo_options_def plain_options_def demo_av_def recordConsent_def db_after_def
        demo_analytics_def io_simps Let_def analytics_event_def)

section \<open>The filter misses fields that it lists\<close>

definition CAMEL_PII :: "string list" where
  "CAMEL_PII = [''firstName'', ''lastName'', ''zipCode'', ''dateOfBirth'', ''nationalId'', ''creditCard'', ''cardNumber'']"

lemma camel_pii_listed: "list_all (\<lambda>k. k \<in> set PII_FIELDS \<and> js_lower k \<notin> set PII_FIELDS) CAMEL_PII"
  by code_simp

text \<open>Personal data is stored without consent. Keys are compared in lower case with a list that holds
  names with capital letters, so the first and last name, the zip code, the date of birth, the national
  number, the credit card and the card number, though listed, are never removed: a tracked event of somebody who
  never consented is stored with them.\<close>

theorem listed_pii_stored_without_consent:
  assumes "key \<in> set CAMEL_PII" and "(key, val) \<in> set (to_properties o0)" and "\<not> to_consentGiven o0"
    and "an_consents db = []"
  shows "key \<in> set PII_FIELDS \<and> (\<exists>e props. an_events (db_after (trackEvent env o0) [] db) = an_events db @ [e] \<and>
    \<not> ae_consentGiven e \<and> ae_properties e = Some props \<and> (key, val) \<in> set props)"
proof -
  have key: "key \<in> set PII_FIELDS" "js_lower key \<notin> set PII_FIELDS"
    using camel_pii_listed assms(1) by (simp_all add: list_all_iff)
  have "fst (hasAnalyticsConsent (to_userId o0) (to_anonymousId o0) (db, [])) = Inr False"
    using assms(4) by (simp add: hasAnalyticsConsent_def getConsent_def io_simps newest_def)
  moreover have mem: "(key, val) \<in> set (sanitizeProperties (to_properties o0) False)"
    using key(2) assms(2) by (auto simp: sanitizeProperties_def)
  then have "sanitizeProperties (to_properties o0) False \<noteq> []" by force
  ultimately show ?thesis
    using trackEvent_run [OF assms(3), of env db] key(1) mem by (simp add: analytics_event_def Let_def)
qed

theorem listed_pii_stored_without_consent_witness:
  "map ae_properties (an_events (db_after (trackEvent (demo_av 9)
     (plain_options ''signup'' (Some ''u'') [(''cardNumber'', JStr ''4111'')] False)) [] demo_analytics)) =
   [Some [(''cardNumber'', JStr ''4111'')]]"
proof -
  let ?o = "plain_options ''signup'' (Some ''u'') [(''cardNumber'', JStr ''4111'')] False"
  have props: "to_properties ?o = [(''cardNumber'', JStr ''4111'')]" by (simp add: plain_options_def)
  have "''cardNumber'' \<in> set CAMEL_PII" by code_simp
  from listed_pii_stored_without_consent [OF this, of "JStr ''4111''" ?o demo_analytics "demo_av 9"]
  obtain e ps where e: "an_events (db_after (trackEvent (demo_av 9) ?o) [] demo_analytics) = [e]" "\<not> ae_consentGiven e"
      "ae_properties e = Some ps" "(''cardNumber'', JStr ''4111'') \<in> set ps"
    by (auto simp: plain_options_def demo_analytics_def)
  have "an_events (db_after (trackEvent (demo_av 9) ?o) [] demo_analytics) = [e'] \<Longrightarrow> ae_properties e' = Some qs \<Longrightarrow> length qs \<le> 1" for e' qs
    using length_filter_le [of _ "to_properties ?o"]
    by (auto simp: trackEvent_def db_after_def io_simps Let_def plain_options_def hasAnalyticsConsent_def getConsent_def
      analytics_event_def sanitizeProperties_def demo_analytics_def given_def newest_def split: if_splits)
  from this [OF e(1,3)] e(4) have "ps = [(''cardNumber'', JStr ''4111'')]" by (cases ps) auto
  with e show ?thesis by simp
qed

section \<open>Following the cursors\<close>

definition tenant_events :: "string \<Rightarrow> analytics_db \<Rightarrow> AnalyticsEvent list" where
  "tenant_events tenantId db = sort_key ae_id (filter (\<lambda>e. ae_userId e = Some tenantId) (an_events db))"

text \<open>Numbers and times agree: a larger number never has an earlier time.\<close>

definition chronological :: "AnalyticsEvent list \<Rightarrow> bool" where
  "chronological es \<longleftrightarrow> distinct (map ae_id es) \<and> list_all (\<lambda>e. 0 < ae_id e) es \<and>
     sorted (map ae_createdAt (sort_key ae_id es))"

lemma sorted_map_filter: "sorted (map k xs) \<Longrightarrow> sorted (map k (filter p xs))"
  by (induction xs) auto

lemma make_page_take:
  assumes "0 < limit"
  shows "cp_items (make_page limit pivot (take (limit + 1) es) n) = take limit es"
    and "cp_nextCursor (make_page limit pivot (take (limit + 1) es) n) =
      (if limit < length es then Some (encodeIdCursor (ae_id (last (take limit es)))) else None)"
proof -
  have "butlast (take (limit + 1) es) = take limit es" if "limit < length es"
    using that by (simp add: butlast_take)
  moreover have "take limit es \<noteq> []" if "limit < length es" using that assms by auto
  ultimately show "cp_items (make_page limit pivot (take (limit + 1) es) n) = take limit es"
    "cp_nextCursor (make_page limit pivot (take (limit + 1) es) n) =
      (if limit < length es then Some (encodeIdCursor (ae_id (last (take limit es)))) else None)"
    by (auto simp: make_page_def Let_def)
qed

lemma page_limit_pos: "0 < page_limit l"
  by (simp add: page_limit_def)

lemma pivot_filter:
  assumes "sorted_wrt (<) (map ae_id (before @ rest))" and "pivot = (if before = [] then None else Some (ae_id (last before)))"
  shows "filter (cursor_where Forward pivot) (before @ rest) = rest"
proof (cases before rule: rev_cases)
  case Nil
  then show ?thesis using assms(2) by (simp add: cursor_where_def)
next
  case (snoc ys y)
  have "\<forall>e \<in> set before. \<not> ae_id y < ae_id e" "\<forall>e \<in> set rest. ae_id y < ae_id e"
    using assms(1) by (auto simp: snoc sorted_wrt_append)
  then show ?thesis
    using assms(2) by (simp add: snoc cursor_where_def filter_empty_conv filter_id_conv)
qed

lemma forward_page:
  assumes "chronological (filter (\<lambda>e. ae_userId e = Some tenantId) (an_events db))"
    and "tenant_events tenantId db = before @ rest"
    and "page_pivot cursor = Inr (if before = [] then None else Some (ae_id (last before)))"
  shows "\<exists>page. fst (getPaginatedEvents tenantId \<lparr>cu_cursor = cursor, cu_limit = limit, cu_direction = Some Forward\<rparr> (db, [])) = Inr page \<and>
    cp_items page = take (page_limit limit) rest \<and>
    cp_nextCursor page = (if page_limit limit < length rest
      then Some (encodeIdCursor (ae_id (last (take (page_limit limit) rest)))) else None)"
proof -
  let ?T = "filter (\<lambda>e. ae_userId e = Some tenantId) (an_events db)"
  let ?pivot = "if before = [] then None else Some (ae_id (last before))"
  have "sorted (map ae_id (tenant_events tenantId db))" by (simp add: tenant_events_def)
  moreover have "distinct (map ae_id (tenant_events tenantId db))"
    using assms(1) by (simp add: chronological_def tenant_events_def distinct_map)
  ultimately have strict: "sorted_wrt (<) (map ae_id (before @ rest))"
    by (simp add: assms(2) strict_sorted_iff)
  have "page_order Forward (filter (cursor_where Forward ?pivot) ?T) =
      sort_key ae_createdAt (filter (cursor_where Forward ?pivot) (sort_key ae_id ?T))"
    by (simp add: page_order_def filter_sort)
  also have "\<dots> = filter (cursor_where Forward ?pivot) (sort_key ae_id ?T)"
    using assms(1) by (intro sort_key_sorted sorted_map_filter) (simp add: chronological_def)
  also have "\<dots> = rest"
    using pivot_filter [OF strict refl] assms(2) by (simp add: tenant_events_def)
  finally have order: "page_order Forward (filter (\<lambda>e. ae_userId e = Some tenantId \<and> cursor_where Forward ?pivot e) (an_events db)) = rest"
    by (simp add: filter_filter conj_commute)
  have "fst (getPaginatedEvents tenantId \<lparr>cu_cursor = cursor, cu_limit = limit, cu_direction = Some Forward\<rparr> (db, [])) =
      Inr (make_page (page_limit limit) ?pivot (take (page_limit limit + 1) rest) (length ?T))"
    unfolding getPaginatedEvents_def
    by (simp add: assms(3) events_where_def io_simps order Let_def del: if_split)
  then show ?thesis using make_page_take [OF page_limit_pos] by (intro exI conjI) assumption+
qed

lemma encodeIdCursor_pivot: "0 < n \<Longrightarrow> page_pivot (Some (encodeIdCursor n)) = Inr (Some n)"
  by (simp add: page_pivot_def given_def decode_encodeIdCursor) (simp add: encodeIdCursor_def b64_encode_nonempty)

lemma read_pages_rest:
  assumes "chronological (filter (\<lambda>e. ae_userId e = Some tenantId) (an_events db))"
    and "tenant_events tenantId db = before @ rest"
    and "page_pivot cursor = Inr (if before = [] then None else Some (ae_id (last before)))" and "length rest < n"
  shows "read_pages n tenantId limit cursor db = rest"
  using assms(2,3,4)
proof (induction n arbitrary: before rest cursor)
  case (Suc n)
  let ?l = "page_limit limit"
  obtain page where page: "fst (getPaginatedEvents tenantId \<lparr>cu_cursor = cursor, cu_limit = limit, cu_direction = Some Forward\<rparr> (db, [])) = Inr page"
    "cp_items page = take ?l rest"
    "cp_nextCursor page = (if ?l < length rest then Some (encodeIdCursor (ae_id (last (take ?l rest)))) else None)"
    using forward_page [OF assms(1) Suc.prems(1,2)] by blast
  show ?case
  proof (cases "?l < length rest")
    case True
    let ?t = "take ?l rest"
    have ne: "?t \<noteq> []" using True page_limit_pos [of limit] by auto
    have "last ?t \<in> set rest" using last_in_set [OF ne] by (rule in_set_takeD)
    then have "last ?t \<in> set (tenant_events tenantId db)" by (simp add: Suc.prems(1))
    then have "0 < ae_id (last ?t)"
      using assms(1) by (auto simp: tenant_events_def chronological_def list_all_iff)
    then have pivot: "page_pivot (Some (encodeIdCursor (ae_id (last ?t)))) =
        Inr (if before @ ?t = [] then None else Some (ae_id (last (before @ ?t))))"
      using ne by (simp add: encodeIdCursor_pivot)
    have "read_pages n tenantId limit (Some (encodeIdCursor (ae_id (last ?t)))) db = drop ?l rest"
      using Suc.prems(1,3) True page_limit_pos [of limit] by (intro Suc.IH [OF _ pivot]) auto
    then show ?thesis using True page by simp
  next
    case False
    then show ?thesis using page by simp
  qed
qed simp

text \<open>Following the cursors forward from the start, a client gets every event of its tenant exactly once,
  in the order of their numbers, for every page size, provided that no event has a later number and an
  earlier time than another. As many pages as there are events, and one more, are always enough.\<close>

theorem pages_complete:
  assumes "chronological (filter (\<lambda>e. ae_userId e = Some tenantId) (an_events db))"
    and "length (tenant_events tenantId db) < n"
  shows "read_pages n tenantId limit None db = tenant_events tenantId db"
  using read_pages_rest [OF assms(1), of "[]" "tenant_events tenantId db" None n limit] assms(2)
  by (simp add: page_pivot_def given_def)

definition demo_event :: "nat \<Rightarrow> int \<Rightarrow> AnalyticsEvent" where
  "demo_event i t = analytics_event (demo_av t) (plain_options ''view'' (Some ''t'') [] True) True i"

definition demo_events :: "(nat \<times> int) list \<Rightarrow> analytics_db" where
  "demo_events xs = demo_analytics\<lparr>an_events := map (\<lambda>(i, t). demo_event i t) xs\<rparr>"

theorem pages_complete_witness:
  "map ae_id (read_pages 4 ''t'' (Some 2) None (demo_events [(1, 10), (2, 10), (3, 12)])) = [1, 2, 3]"
proof -
  have "chronological (filter (\<lambda>e. ae_userId e = Some ''t'') (an_events (demo_events [(1, 10), (2, 10), (3, 12)])))"
    "length (tenant_events ''t'' (demo_events [(1, 10), (2, 10), (3, 12)])) < 4"
    "map ae_id (tenant_events ''t'' (demo_events [(1, 10), (2, 10), (3, 12)])) = [1, 2, 3]" by code_simp+
  then show ?thesis using pages_complete [of "''t''" "demo_events [(1, 10), (2, 10), (3, 12)]" 4 "Some 2"] by simp
qed

text \<open>The condition is needed: the cursor compares numbers while the order is by time. An event with a
  later number and an earlier time comes first, the cursor behind it excludes the other event, and the pages
  end without it although the total counts it.\<close>

theorem pages_lose_events:
  "map ae_id (tenant_events ''t'' (demo_events [(1, 10), (2, 5)])) = [1, 2] \<and>
   map ae_id (read_pages 9 ''t'' (Some 1) None (demo_events [(1, 10), (2, 5)])) = [2]"
  by code_simp

section \<open>Aggregates are exact\<close>

lemma set_group_count: "set (group_count f xs) = (\<lambda>k. (k, length (filter (\<lambda>x. f x = k) xs))) ` f ` set xs"
  by (simp add: group_count_def)

lemma length_group_count: "length (group_count f xs) = card (f ` set xs)"
  using distinct_card [OF distinct_first_keys, of f xs] by (simp add: group_count_def)

lemma sum_group_count: "sum_list (map snd (group_count f xs)) = length xs"
  using length_first_keys [where key = f and xs = xs] by (simp add: group_count_def comp_def)

lemma largest_groups_top:
  assumes "(k, c) \<in> set (take n (largest_groups f xs))" and "(k', c') \<in> set (drop n (largest_groups f xs))"
  shows "c' \<le> c"
proof -
  let ?g = "largest_groups f xs"
  let ?h = "\<lambda>g. - int (snd g)"
  have "sorted (map ?h ?g)" by (simp add: largest_groups_def)
  then have "sorted (map ?h (take n ?g) @ map ?h (drop n ?g))" by (simp flip: map_append)
  then have all: "\<forall>x \<in> set (map ?h (take n ?g)). \<forall>y \<in> set (map ?h (drop n ?g)). x \<le> y" by (simp only: sorted_append, blast)
  have mem: "?h (k, c) \<in> set (map ?h (take n ?g))" "?h (k', c') \<in> set (map ?h (drop n ?g))"
    unfolding set_map by (rule imageI [OF assms(1)], rule imageI [OF assms(2)])
  have "?h (k, c) \<le> ?h (k', c')" by (rule bspec [OF bspec [OF all mem(1)] mem(2)])
  then show ?thesis by simp
qed

text \<open>The dashboard is exact. Without failing reads, the days of the trend add up to the total; the users are
  counted once each; a listed event name comes with the number of its events in the range, and no event name
  that is not listed has more events than a listed one.\<close>

theorem dashboard_exact:
  fixes db start finish
  defines "es \<equiv> filter (in_range start finish) (an_events db)"
  shows "\<exists>st. fst (getDashboardStats env (Some start) (Some finish) (db, [])) = Inr st \<and>
    ds_totalEvents st = length es \<and>
    sum_list (map snd (ds_dailyTrend st)) = ds_totalEvents st \<and>
    ds_uniqueUsers st = card {u. \<exists>e \<in> set es. ae_userId e = Some u} \<and>
    (\<forall>(k, c) \<in> set (ds_topEvents st). c = length (filter (\<lambda>e. ae_eventName e = k) es) \<and>
       (\<forall>e \<in> set es. ae_eventName e \<in> fst ` set (ds_topEvents st) \<or>
          length (filter (\<lambda>e'. ae_eventName e' = ae_eventName e) es) \<le> c))"
proof -
  let ?lg = "largest_groups ae_eventName es"
  obtain st where st: "fst (getDashboardStats env (Some start) (Some finish) (db, [])) = Inr st"
      "ds_totalEvents st = length es" "ds_topEvents st = take 10 ?lg"
      "ds_dailyTrend st = sort_key fst (group_count (\<lambda>e. ae_createdAt e div DAY_MS) es)"
      "ds_uniqueUsers st = length (group_count ae_userId (filter (\<lambda>e. ae_userId e \<noteq> None) es))"
    by (simp add: getDashboardStats_def events_where_def io_simps Let_def es_def filter_filter conj_commute)
  have users: "ae_userId ` set (filter (\<lambda>e. ae_userId e \<noteq> None) es) = Some ` {u. \<exists>e \<in> set es. ae_userId e = Some u}"
    by force
  have set_lg: "set ?lg = (\<lambda>k. (k, length (filter (\<lambda>x. ae_eventName x = k) es))) ` ae_eventName ` set es"
    by (simp add: largest_groups_def set_group_count)
  have top: "c = length (filter (\<lambda>e. ae_eventName e = k) es) \<and>
       (\<forall>e \<in> set es. ae_eventName e \<in> fst ` set (take 10 ?lg) \<or>
          length (filter (\<lambda>e'. ae_eventName e' = ae_eventName e) es) \<le> c)" if kc: "(k, c) \<in> set (take 10 ?lg)" for k c
  proof (intro conjI ballI disjCI)
    show "c = length (filter (\<lambda>e. ae_eventName e = k) es)" using in_set_takeD [OF kc] by (auto simp: set_lg)
    fix e assume e: "e \<in> set es" "\<not> length (filter (\<lambda>e'. ae_eventName e' = ae_eventName e) es) \<le> c"
    let ?p = "(ae_eventName e, length (filter (\<lambda>e'. ae_eventName e' = ae_eventName e) es))"
    have "?p \<in> set ?lg" using e(1) by (auto simp: set_lg)
    then have "?p \<in> set (take 10 ?lg) \<or> ?p \<in> set (drop 10 ?lg)" by (metis Un_iff append_take_drop_id set_append)
    then show "ae_eventName e \<in> fst ` set (take 10 ?lg)"
      using largest_groups_top [OF kc] e(2) by force
  qed
  have "ds_uniqueUsers st = card {u. \<exists>e \<in> set es. ae_userId e = Some u}"
    unfolding st(5) length_group_count users by (simp add: card_image)
  moreover have "sum_list (map snd (ds_dailyTrend st)) = ds_totalEvents st"
    by (simp add: st(2,4) sum_list_sort_key sum_group_count)
  ultimately show ?thesis using st(1,2,3) top by auto
qed

theorem dashboard_exact_witness:
  "\<exists>st. fst (getDashboardStats (demo_av 20) (Some 0) (Some 11) (demo_events [(1, 10), (2, 10), (3, 12)], [])) = Inr st \<and>
    ds_totalEvents st = 2 \<and> sum_list (map snd (ds_dailyTrend st)) = 2"
proof -
  have "length (filter (in_range 0 11) (an_events (demo_events [(1, 10), (2, 10), (3, 12)]))) = 2" by code_simp
  with dashboard_exact [of "demo_av 20" 0 11 "demo_events [(1, 10), (2, 10), (3, 12)]"] show ?thesis by auto
qed

end
