(* ===== verification/Rpc_Fallback.thy ===== *)
theory Rpc_Fallback
  imports Prelude
begin

text \<open>
  The endpoint fall-back of the front end, \<^verbatim>\<open>frontend/src/lib/rpc_fallback.ts\<close>: the manager with its map
  of endpoints, the availability cache, the call that goes from endpoint to endpoint, the singleton and
  the configuration from the environment. The SDK is an argument: \<open>new_server\<close> is
  \<^verbatim>\<open>new SorobanRpc.Server(url, ...)\<close>, which may throw, and the clock reads the current world. The
  operation acts on the manager as well as on the world, as other calls run while it is awaited.
\<close>

section \<open>Data\<close>

record FbEndpoint =
  fe_url :: string
  fe_priority :: nat
  fe_available :: bool
  fe_lastChecked :: "int option"

record RpcFallbackConfig =
  fc_primary :: string
  fc_fallbacks :: "string list"
  fc_healthCheckTimeoutMs :: "int option"
  fc_cacheExpiryMs :: "int option"

record 'a RpcCallResult =
  cr_data :: 'a
  cr_usedEndpoint :: string
  cr_retries :: nat

record FbManager =
  fm_endpoints :: "(string \<times> FbEndpoint) list"
  fm_primary :: string
  fm_fallbacks :: "string list"
  fm_healthCheckTimeoutMs :: int
  fm_cacheExpiryMs :: int

record ('srv, 'w) fb_env =
  new_server :: "string \<Rightarrow> string + 'srv"
  fb_clock :: "'w \<Rightarrow> int"

type_synonym ('srv, 'w, 'a) fb_op = "'srv \<Rightarrow> FbManager \<times> 'w \<Rightarrow> (string + 'a) \<times> FbManager \<times> 'w"

section \<open>Construction\<close>

definition DEFAULT_HEALTH_CHECK_TIMEOUT_MS :: int where "DEFAULT_HEALTH_CHECK_TIMEOUT_MS = 5000"
definition DEFAULT_CACHE_EXPIRY_MS :: int where "DEFAULT_CACHE_EXPIRY_MS = 60000"

definition fb_fresh :: "string \<Rightarrow> nat \<Rightarrow> FbEndpoint" where
  "fb_fresh url prio = \<lparr>fe_url = url, fe_priority = prio, fe_available = True, fe_lastChecked = None\<rparr>"

fun add_fallbacks :: "nat \<Rightarrow> string list \<Rightarrow> (string \<times> FbEndpoint) list \<Rightarrow> (string \<times> FbEndpoint) list" where
  "add_fallbacks i [] eps = eps"
| "add_fallbacks i (url # urls) eps = add_fallbacks (Suc i) urls (AList.update url (fb_fresh url (i + 1)) eps)"

definition fb_manager :: "RpcFallbackConfig \<Rightarrow> FbManager" where
  "fb_manager c = \<lparr>fm_endpoints = add_fallbacks 0 (fc_fallbacks c) [(fc_primary c, fb_fresh (fc_primary c) 0)],
     fm_primary = fc_primary c, fm_fallbacks = fc_fallbacks c,
     fm_healthCheckTimeoutMs =
       (case fc_healthCheckTimeoutMs c of None \<Rightarrow> DEFAULT_HEALTH_CHECK_TIMEOUT_MS | Some t \<Rightarrow> t),
     fm_cacheExpiryMs = (case fc_cacheExpiryMs c of None \<Rightarrow> DEFAULT_CACHE_EXPIRY_MS | Some t \<Rightarrow> t)\<rparr>"

section \<open>Availability\<close>

text \<open>The check writes the endpoint it looks at; the result is the endpoint as it leaves it. A
  \<^verbatim>\<open>lastChecked\<close> of 0 counts as absent.\<close>

definition isEndpointAvailable :: "int \<Rightarrow> int \<Rightarrow> FbEndpoint \<Rightarrow> FbEndpoint" where
  "isEndpointAvailable now expiry ep =
     (if fe_available ep then ep
      else case fe_lastChecked ep of
          None \<Rightarrow> ep
        | Some t \<Rightarrow> if t \<noteq> 0 \<and> now - t > expiry then ep\<lparr>fe_available := True\<rparr> else ep)"

definition check_all :: "int \<Rightarrow> FbManager \<Rightarrow> FbManager" where
  "check_all now m = m\<lparr>fm_endpoints :=
     map (\<lambda>(u, ep). (u, isEndpointAvailable now (fm_cacheExpiryMs m) ep)) (fm_endpoints m)\<rparr>"

definition by_priority :: "FbManager \<Rightarrow> FbEndpoint list" where
  "by_priority m = sort_key fe_priority (filter fe_available (map snd (fm_endpoints m)))"

definition getEndpointsByPriority :: "int \<Rightarrow> FbManager \<Rightarrow> FbEndpoint list \<times> FbManager" where
  "getEndpointsByPriority now m = (let m' = check_all now m in (by_priority m', m'))"

definition markUnavailable :: "int \<Rightarrow> string \<Rightarrow> FbManager \<Rightarrow> FbManager" where
  "markUnavailable now url m = (case map_of (fm_endpoints m) url of
       None \<Rightarrow> m
     | Some ep \<Rightarrow> m\<lparr>fm_endpoints := AList.update url
         (ep\<lparr>fe_available := False, fe_lastChecked := Some now\<rparr>) (fm_endpoints m)\<rparr>)"

definition resetStatus :: "FbManager \<Rightarrow> FbManager" where
  "resetStatus m = m\<lparr>fm_endpoints :=
     map (\<lambda>(u, ep). (u, ep\<lparr>fe_available := True, fe_lastChecked := None\<rparr>)) (fm_endpoints m)\<rparr>"

definition getPrimary :: "FbManager \<Rightarrow> string" where
  "getPrimary m = fm_primary m"

definition getAllEndpoints :: "FbManager \<Rightarrow> string list" where
  "getAllEndpoints m = fm_primary m # fm_fallbacks m"

definition getStatus :: "int \<Rightarrow> FbManager \<Rightarrow> (string \<times> bool \<times> nat) list \<times> FbManager" where
  "getStatus now m = (let m' = check_all now m in
     (map (\<lambda>(u, ep). (fe_url ep, fe_available ep, fe_priority ep)) (fm_endpoints m'), m'))"

text \<open>The health check posts \<^verbatim>\<open>getHealth\<close> and looks only at \<^verbatim>\<open>response.ok\<close>; the outcome of the
  \<^verbatim>\<open>fetch\<close> within the time-out is an argument, \<open>None\<close> when it rejects or is aborted.\<close>

definition healthCheckEndpoint :: "(string \<Rightarrow> int \<Rightarrow> bool option) \<Rightarrow> string \<Rightarrow> FbManager \<Rightarrow> bool" where
  "healthCheckEndpoint fetch_ok url m =
     (case fetch_ok url (fm_healthCheckTimeoutMs m) of None \<Rightarrow> False | Some ok \<Rightarrow> ok)"

section \<open>Calls\<close>

fun try_endpoints ::
  "('srv, 'w) fb_env \<Rightarrow> ('srv, 'w, 'a) fb_op \<Rightarrow> nat \<Rightarrow> string \<Rightarrow> string list \<Rightarrow> FbManager \<times> 'w
     \<Rightarrow> (string + 'a RpcCallResult) \<times> FbManager \<times> 'w" where
  "try_endpoints E f n lastError [] st = (Inl (''All RPC endpoints failed. Last error: '' @ lastError), st)"
| "try_endpoints E f n lastError (url # urls) st =
     (case (case new_server E url of Inl e \<Rightarrow> (Inl e, st) | Inr srv \<Rightarrow> f srv st) of
        (Inr d, st') \<Rightarrow> (Inr \<lparr>cr_data = d, cr_usedEndpoint = url, cr_retries = n\<rparr>, st')
      | (Inl e, (m, w)) \<Rightarrow>
          try_endpoints E f (n + 1) e urls (markUnavailable (fb_clock E w) url m, w))"

definition executeWithFallback ::
  "('srv, 'w) fb_env \<Rightarrow> ('srv, 'w, 'a) fb_op \<Rightarrow> FbManager \<times> 'w
     \<Rightarrow> (string + 'a RpcCallResult) \<times> FbManager \<times> 'w" where
  "executeWithFallback E f st =
     (case getEndpointsByPriority (fb_clock E (snd st)) (fst st) of
        ([], m) \<Rightarrow> (Inl ''No RPC endpoints available'', m, snd st)
      | (eps, m) \<Rightarrow> try_endpoints E f 0 '''' (map fe_url eps) (m, snd st))"

text \<open>The singleton of the module: the state is the manager, if one was installed.\<close>

definition initializeRpcFallback :: "RpcFallbackConfig \<Rightarrow> FbManager option \<Rightarrow> FbManager option" where
  "initializeRpcFallback c _ = Some (fb_manager c)"

definition getRpcFallbackManager :: "FbManager option \<Rightarrow> string + FbManager" where
  "getRpcFallbackManager s = (case s of
       None \<Rightarrow> Inl ''RPC fallback not initialized. Call initializeRpcFallback() first.''
     | Some m \<Rightarrow> Inr m)"

definition executeRpcWithFallback ::
  "('srv, 'w) fb_env \<Rightarrow> ('srv, 'w, 'a) fb_op \<Rightarrow> FbManager option \<times> 'w
     \<Rightarrow> (string + 'a RpcCallResult) \<times> FbManager option \<times> 'w" where
  "executeRpcWithFallback E f st = (case getRpcFallbackManager (fst st) of
       Inl e \<Rightarrow> (Inl e, st)
     | Inr m \<Rightarrow> (case executeWithFallback E f (m, snd st) of (r, m', w) \<Rightarrow> (r, Some m', w)))"

definition getRpcEndpointStatus ::
  "int \<Rightarrow> FbManager option \<Rightarrow> (string \<times> bool \<times> nat) list \<times> FbManager option" where
  "getRpcEndpointStatus now s = (case getRpcFallbackManager s of
       Inl _ \<Rightarrow> ([], s)
     | Inr m \<Rightarrow> (case getStatus now m of (st, m') \<Rightarrow> (st, Some m')))"

text \<open>An environment variable that is missing or empty counts as absent.\<close>

definition env_text :: "(string \<Rightarrow> string option) \<Rightarrow> string \<Rightarrow> string option" where
  "env_text env k = (case env k of Some v \<Rightarrow> if v = '''' then None else Some v | None \<Rightarrow> None)"

definition env_fallbacks :: "(string \<Rightarrow> string option) \<Rightarrow> string list" where
  "env_fallbacks env = concat (map (\<lambda>k. case env_text env k of None \<Rightarrow> [] | Some v \<Rightarrow> [v])
     [''NEXT_PUBLIC_FALLBACK_RPC_1'', ''NEXT_PUBLIC_FALLBACK_RPC_2'', ''NEXT_PUBLIC_FALLBACK_RPC_3''])"

definition createRpcFallbackConfigFromEnv :: "(string \<Rightarrow> string option) \<Rightarrow> RpcFallbackConfig" where
  "createRpcFallbackConfigFromEnv env = \<lparr>
     fc_primary = (case env_text env ''NEXT_PUBLIC_RPC_URL'' of
         None \<Rightarrow> ''https://soroban-testnet.stellar.org'' | Some u \<Rightarrow> u),
     fc_fallbacks = (case env_fallbacks env of
         [] \<Rightarrow> [''https://soroban-mainnet.stellar.org''] | us \<Rightarrow> us),
     fc_healthCheckTimeoutMs = Some 5000, fc_cacheExpiryMs = Some 60000\<rparr>"

section \<open>The map of endpoints\<close>

text \<open>In every state the map is keyed by the URLs of its endpoints, and an endpoint that is not
  available has the time of its failure.\<close>

definition fb_ok :: "FbManager \<Rightarrow> bool" where
  "fb_ok m \<longleftrightarrow> distinct (map fst (fm_endpoints m)) \<and>
     (\<forall>(u, ep) \<in> set (fm_endpoints m). fe_url ep = u \<and> (\<not> fe_available ep \<longrightarrow> fe_lastChecked ep \<noteq> None))"

definition fb_urls :: "FbManager \<Rightarrow> string list" where
  "fb_urls m = map fst (fm_endpoints m)"

lemma isEndpointAvailable_url [simp]:
  "fe_url (isEndpointAvailable now x ep) = fe_url ep"
  "fe_priority (isEndpointAvailable now x ep) = fe_priority ep"
  "fe_lastChecked (isEndpointAvailable now x ep) = fe_lastChecked ep"
  "fe_available ep \<Longrightarrow> isEndpointAvailable now x ep = ep"
  by (auto simp: isEndpointAvailable_def split: option.splits)

lemma check_all_urls [simp]:
  "fb_urls (check_all now m) = fb_urls m"
  "fm_cacheExpiryMs (check_all now m) = fm_cacheExpiryMs m"
  by (simp_all add: fb_urls_def check_all_def comp_def split_def)

lemma fb_ok_check [simp]: "fb_ok m \<Longrightarrow> fb_ok (check_all now m)"
  by (auto simp: fb_ok_def check_all_def comp_def split_def isEndpointAvailable_def split: option.splits)

lemma fb_ok_reset: "fb_ok m \<Longrightarrow> fb_ok (resetStatus m)"
  by (auto simp: fb_ok_def resetStatus_def comp_def split_def)

lemma markUnavailable_urls [simp]:
  "fb_urls (markUnavailable now url m) = fb_urls m"
  "fm_cacheExpiryMs (markUnavailable now url m) = fm_cacheExpiryMs m"
proof -
  show "fm_cacheExpiryMs (markUnavailable now url m) = fm_cacheExpiryMs m"
    by (simp add: markUnavailable_def split: option.split)
  show "fb_urls (markUnavailable now url m) = fb_urls m"
  proof (cases "map_of (fm_endpoints m) url")
    case (Some ep)
    then have "url \<in> set (map fst (fm_endpoints m))" by (force dest: map_of_SomeD)
    then show ?thesis using Some by (simp add: fb_urls_def markUnavailable_def update_keys)
  qed (simp add: markUnavailable_def)
qed

lemma fb_ok_update:
  assumes "fb_ok m" and "fe_url ep = url" and "\<not> fe_available ep \<longrightarrow> fe_lastChecked ep \<noteq> None"
  shows "fb_ok (m\<lparr>fm_endpoints := AList.update url ep (fm_endpoints m)\<rparr>)"
proof -
  have "distinct (map fst (AList.update url ep (fm_endpoints m)))"
    using assms(1) by (simp add: fb_ok_def distinct_update)
  moreover have "fe_url e = u \<and> (\<not> fe_available e \<longrightarrow> fe_lastChecked e \<noteq> None)"
    if "(u, e) \<in> set (AList.update url ep (fm_endpoints m))" for u e
  proof -
    from that set_update_subset [of url ep "fm_endpoints m"]
    have "(u, e) = (url, ep) \<or> (u, e) \<in> set (fm_endpoints m)" by blast
    then show ?thesis using assms by (auto simp: fb_ok_def)
  qed
  ultimately show ?thesis by (auto simp: fb_ok_def)
qed

lemma fb_ok_mark [simp]: "fb_ok m \<Longrightarrow> fb_ok (markUnavailable now url m)"
proof (cases "map_of (fm_endpoints m) url")
  case (Some ep)
  assume ok: "fb_ok m"
  then have "fe_url ep = url" using Some by (auto simp: fb_ok_def dest: map_of_SomeD)
  then show ?thesis using ok Some by (simp add: markUnavailable_def fb_ok_update)
qed (simp add: markUnavailable_def)

lemma fb_ok_add: "fb_ok m \<Longrightarrow> fb_ok (m\<lparr>fm_endpoints := add_fallbacks i urls (fm_endpoints m)\<rparr>)"
proof (induction urls arbitrary: i m)
  case (Cons url urls)
  let ?m = "m\<lparr>fm_endpoints := AList.update url (fb_fresh url (i + 1)) (fm_endpoints m)\<rparr>"
  have "fb_ok ?m" using Cons.prems by (intro fb_ok_update) (simp_all add: fb_fresh_def)
  from Cons.IH [OF this, of "Suc i"] show ?case by simp
qed simp

lemma fb_ok_manager [simp]: "fb_ok (fb_manager c)"
proof -
  let ?m = "(fb_manager c)\<lparr>fm_endpoints := [(fc_primary c, fb_fresh (fc_primary c) 0)]\<rparr>"
  have "fb_ok ?m" by (simp add: fb_ok_def fb_fresh_def)
  from fb_ok_add [OF this, of 0 "fc_fallbacks c"] show ?thesis by (simp add: fb_manager_def)
qed

lemma set_by_priority:
  "fb_ok m \<Longrightarrow> set (map fe_url (by_priority m)) = {u. \<exists>ep. (u, ep) \<in> set (fm_endpoints m) \<and> fe_available ep}"
  by (force simp: by_priority_def fb_ok_def)

section \<open>A call goes down the list\<close>

lemma mark_lookup:
  "map_of (fm_endpoints (markUnavailable now url m)) u =
     (if u = url then map_option (\<lambda>ep. ep\<lparr>fe_available := False, fe_lastChecked := Some now\<rparr>)
                        (map_of (fm_endpoints m) url)
      else map_of (fm_endpoints m) u)"
  by (auto simp: markUnavailable_def update_conv' split: option.splits)

lemma fb_ok_lookup: "fb_ok m \<Longrightarrow> (u, ep) \<in> set (fm_endpoints m) \<longleftrightarrow> map_of (fm_endpoints m) u = Some ep"
  by (simp add: fb_ok_def)

text \<open>What the operation gives on an endpoint, and the servers it is called on.\<close>

definition endpoint_answer :: "('srv, 'w) fb_env \<Rightarrow> ('srv \<Rightarrow> string + 'a) \<Rightarrow> string \<Rightarrow> string + 'a" where
  "endpoint_answer E answer url = (case new_server E url of Inl e \<Rightarrow> Inl e | Inr srv \<Rightarrow> answer srv)"

definition endpoint_calls :: "('srv, 'w) fb_env \<Rightarrow> string list \<Rightarrow> 'srv list" where
  "endpoint_calls E urls =
     concat (map (\<lambda>u. case new_server E u of Inl _ \<Rightarrow> [] | Inr srv \<Rightarrow> [srv]) urls)"

lemma endpoint_calls_simps [simp]:
  "endpoint_calls E [] = []"
  "endpoint_calls E (u # us) = (case new_server E u of Inl _ \<Rightarrow> [] | Inr srv \<Rightarrow> [srv]) @ endpoint_calls E us"
  by (simp_all add: endpoint_calls_def)

definition fails_on :: "('srv, 'w) fb_env \<Rightarrow> ('srv \<Rightarrow> string + 'a) \<Rightarrow> string \<Rightarrow> bool" where
  "fails_on E answer url = isl (endpoint_answer E answer url)"

definition down_after :: "string list \<Rightarrow> FbManager \<Rightarrow> FbManager \<Rightarrow> bool" where
  "down_after bad m m' \<longleftrightarrow> fb_urls m' = fb_urls m \<and>
     (\<forall>u \<in> set (fb_urls m). if u \<in> set bad then \<exists>ep. map_of (fm_endpoints m') u = Some ep \<and> \<not> fe_available ep
        else map_of (fm_endpoints m') u = map_of (fm_endpoints m) u)"

lemma down_after_mark:
  assumes "down_after bad (markUnavailable now u m) m'"
  shows "down_after (u # bad) m m'"
  unfolding down_after_def
proof (intro conjI ballI)
  show "fb_urls m' = fb_urls m" using assms by (simp add: down_after_def)
  fix v assume v: "v \<in> set (fb_urls m)"
  then obtain ep where ep: "map_of (fm_endpoints m) v = Some ep"
    by (auto simp: fb_urls_def dest: weak_map_of_SomeI)
  have "if v \<in> set bad then \<exists>ep. map_of (fm_endpoints m') v = Some ep \<and> \<not> fe_available ep
     else map_of (fm_endpoints m') v = map_of (fm_endpoints (markUnavailable now u m)) v"
    using assms v by (simp add: down_after_def)
  then show "if v \<in> set (u # bad) then \<exists>ep. map_of (fm_endpoints m') v = Some ep \<and> \<not> fe_available ep
     else map_of (fm_endpoints m') v = map_of (fm_endpoints m) v"
    using ep by (auto simp: mark_lookup split: if_splits)
qed

lemma try_endpoints_in_order:
  assumes f: "\<And>s m w. f s (m, w) = (answer s, m, w @ [s])"
    and run: "try_endpoints E f n le urls (m, w) = (r, m', w')"
  shows "let bad = takeWhile (fails_on E answer) urls; rest = dropWhile (fails_on E answer) urls in
     w' = w @ endpoint_calls E (bad @ take 1 rest) \<and> down_after bad m m' \<and>
     (case rest of [] \<Rightarrow> isl r
      | u # _ \<Rightarrow> r = Inr \<lparr>cr_data = projr (endpoint_answer E answer u), cr_usedEndpoint = u, cr_retries = n + length bad\<rparr>)"
  using run
proof (induction urls arbitrary: n le m w)
  case Nil
  then show ?case by (auto simp: down_after_def)
next
  case (Cons u urls)
  show ?case
  proof (cases "endpoint_answer E answer u")
    case (Inr d)
    then obtain srv where "new_server E u = Inr srv" "answer srv = Inr d"
      by (auto simp: endpoint_answer_def split: sum.splits)
    then show ?thesis using Cons.prems Inr f by (auto simp: fails_on_def down_after_def)
  next
    case (Inl e)
    define w1 where "w1 = w @ (case new_server E u of Inl _ \<Rightarrow> [] | Inr srv \<Rightarrow> [srv])"
    have step: "try_endpoints E f (n + 1) e urls (markUnavailable (fb_clock E w1) u m, w1) = (r, m', w')"
      using Cons.prems Inl f by (auto simp: endpoint_answer_def w1_def split: sum.splits)
    have failed: "fails_on E answer u" by (simp add: fails_on_def Inl)
    have tw: "takeWhile (fails_on E answer) (u # urls) = u # takeWhile (fails_on E answer) urls"
      and dw: "dropWhile (fails_on E answer) (u # urls) = dropWhile (fails_on E answer) urls"
      using failed by simp_all
    show ?thesis
    proof (cases "dropWhile (fails_on E answer) urls")
      case Nil
      then show ?thesis using Cons.IH [OF step] unfolding Let_def tw dw Nil
        by (auto simp: w1_def intro: down_after_mark)
    next
      case (Cons v vs)
      then show ?thesis using Cons.IH [OF step] unfolding Let_def tw dw Cons
        by (auto simp: w1_def intro: down_after_mark)
    qed
  qed
qed

lemma execute_nonempty:
  "getEndpointsByPriority (fb_clock E w) m = (es, m1) \<Longrightarrow> es \<noteq> [] \<Longrightarrow>
     executeWithFallback E f (m, w) = try_endpoints E f 0 '''' (map fe_url es) (m1, w)"
  by (cases es) (simp_all add: executeWithFallback_def)

text \<open>A call tries the available endpoints in the order of their priority and stops at the first on
  which the operation succeeds. It returns that endpoint's result with the number of endpoints that
  failed before it, has called the operation on exactly those endpoints in that order, and leaves exactly
  the failed ones unavailable; it fails when every endpoint does, and without calling anything when none
  is available.\<close>

theorem fallback_in_order:
  assumes op: "\<And>s m w. f s (m, w) = (answer s, m, w @ [s])"
    and run: "executeWithFallback E f (m, w) = (r, m', w')"
  shows "let eps = getEndpointsByPriority (fb_clock E w) m;
             urls = map fe_url (fst eps);
             bad = takeWhile (fails_on E answer) urls;
             rest = dropWhile (fails_on E answer) urls in
     sorted (map fe_priority (fst eps)) \<and>
     w' = w @ endpoint_calls E (bad @ take 1 rest) \<and>
     down_after bad (snd eps) m' \<and>
     (case rest of
        [] \<Rightarrow> isl r
      | u # _ \<Rightarrow> r = Inr \<lparr>cr_data = projr (endpoint_answer E answer u), cr_usedEndpoint = u,
                           cr_retries = length bad\<rparr>)"
proof -
  obtain es m1 where es: "getEndpointsByPriority (fb_clock E w) m = (es, m1)" by fastforce
  have sorted: "sorted (map fe_priority es)"
    using es by (metis by_priority_def fst_conv getEndpointsByPriority_def sorted_sort_key)
  show ?thesis
  proof (cases "es = []")
    case True
    then show ?thesis using run es by (auto simp: executeWithFallback_def down_after_def)
  next
    case False
    then have step: "try_endpoints E f 0 '''' (map fe_url es) (m1, w) = (r, m', w')"
      using run es by (simp add: execute_nonempty)
    show ?thesis
      using try_endpoints_in_order [OF op step] sorted
      unfolding Let_def es fst_conv snd_conv add_0 by blast
  qed
qed

definition demo_env :: "(nat, nat list) fb_env" where
  "demo_env = \<lparr>new_server = (\<lambda>u. if length u = 1 then Inl ''insecure'' else Inr (length u)),
     fb_clock = (\<lambda>w. 100 + int (length w))\<rparr>"

definition demo_manager :: FbManager where
  "demo_manager = fb_manager \<lparr>fc_primary = ''a'', fc_fallbacks = [''bb'', ''ccc'', ''dddd''],
     fc_healthCheckTimeoutMs = None, fc_cacheExpiryMs = Some 50\<rparr>"

definition demo_answer :: "nat \<Rightarrow> string + nat" where
  "demo_answer s = (if s = 2 then Inl ''down'' else Inr (s + 4))"

theorem fallback_in_order_witness:
  "\<exists>m'. executeWithFallback demo_env (\<lambda>s (m, w). (demo_answer s, m, w @ [s])) (demo_manager, []) =
     (Inr \<lparr>cr_data = 7, cr_usedEndpoint = ''ccc'', cr_retries = 2\<rparr>, m', [2, 3])"
proof -
  let ?f = "\<lambda>s (m, w). (demo_answer s, m, w @ [s])"
  let ?bad = "fails_on demo_env demo_answer"
  obtain r m' w' where run: "executeWithFallback demo_env ?f (demo_manager, []) = (r, m', w')"
    by (rule prod_cases3) (rule that)
  have e: "map fe_url (fst (getEndpointsByPriority (fb_clock demo_env []) demo_manager)) = [''a'', ''bb'', ''ccc'', ''dddd'']"
    by code_simp
  have bad: "takeWhile ?bad [''a'', ''bb'', ''ccc'', ''dddd''] = [''a'', ''bb'']"
    and rest: "dropWhile ?bad [''a'', ''bb'', ''ccc'', ''dddd''] = [''ccc'', ''dddd'']"
    and calls: "endpoint_calls demo_env ([''a'', ''bb''] @ take 1 [''ccc'', ''dddd'']) = [2, 3]"
    and ans: "projr (endpoint_answer demo_env demo_answer ''ccc'') = 7"
    by code_simp+
  have "w' = [] @ [2, 3]" and "r = Inr \<lparr>cr_data = 7, cr_usedEndpoint = ''ccc'', cr_retries = length [''a'', ''bb'']\<rparr>"
    using fallback_in_order [OF _ run, of demo_answer]
    unfolding Let_def e bad rest calls list.case ans by simp_all
  then have "w' = [2, 3]" and "r = Inr \<lparr>cr_data = 7, cr_usedEndpoint = ''ccc'', cr_retries = 2\<rparr>" by simp_all
  with run show ?thesis by blast
qed

section \<open>An outage\<close>

text \<open>The endpoints of the list that were down between two times.\<close>

definition down_between :: "int \<Rightarrow> int \<Rightarrow> FbEndpoint \<Rightarrow> bool" where
  "down_between t0 t1 ep \<longleftrightarrow> \<not> fe_available ep \<and> (\<exists>t. fe_lastChecked ep = Some t \<and> t0 \<le> t \<and> t \<le> t1)"

lemma try_endpoints_outage:
  assumes op: "\<And>s m w. \<exists>e w'. f s (m, w) = (Inl e, m, w') \<and> fb_clock E w \<le> fb_clock E w'"
    and run: "try_endpoints E f n le urls (m, w) = (r, m', w')"
  shows "isl r \<and> fb_clock E w \<le> fb_clock E w' \<and> fb_urls m' = fb_urls m \<and>
     fm_cacheExpiryMs m' = fm_cacheExpiryMs m \<and> (fb_ok m \<longrightarrow> fb_ok m') \<and>
     (\<forall>u \<in> set (fb_urls m). \<exists>ep. map_of (fm_endpoints m') u = Some ep \<and>
        (down_between (fb_clock E w) (fb_clock E w') ep
         \<or> u \<notin> set urls \<and> map_of (fm_endpoints m) u = Some ep))"
  using run
proof (induction urls arbitrary: n le m w)
  case Nil
  then show ?case by (auto simp: fb_urls_def dest: weak_map_of_SomeI)
next
  case (Cons u urls)
  obtain e w1 where w1: "(case new_server E u of Inl e \<Rightarrow> (Inl e, m, w) | Inr srv \<Rightarrow> f srv (m, w)) = (Inl e, m, w1)"
      and le: "fb_clock E w \<le> fb_clock E w1"
    using op by (cases "new_server E u") fastforce+
  let ?m = "markUnavailable (fb_clock E w1) u m"
  have step: "try_endpoints E f (n + 1) e urls (?m, w1) = (r, m', w')"
    using Cons.prems w1 by simp
  note IH = Cons.IH [OF step]
  have "\<exists>ep. map_of (fm_endpoints m') v = Some ep \<and>
      (down_between (fb_clock E w) (fb_clock E w') ep \<or> v \<notin> set (u # urls) \<and> map_of (fm_endpoints m) v = Some ep)"
    if v: "v \<in> set (fb_urls m)" for v
  proof -
    from IH v obtain ep where ep: "map_of (fm_endpoints m') v = Some ep"
      and alt: "down_between (fb_clock E w1) (fb_clock E w') ep \<or>
        v \<notin> set urls \<and> map_of (fm_endpoints ?m) v = Some ep"
      by auto
    from alt show ?thesis
    proof
      assume "down_between (fb_clock E w1) (fb_clock E w') ep"
      then show ?thesis using ep le by (auto simp: down_between_def)
    next
      assume a: "v \<notin> set urls \<and> map_of (fm_endpoints ?m) v = Some ep"
      show ?thesis
      proof (cases "v = u")
        case True
        then have "down_between (fb_clock E w) (fb_clock E w') ep"
          using a le IH by (auto simp: mark_lookup down_between_def)
        then show ?thesis using ep by blast
      next
        case False
        then show ?thesis using a ep by (auto simp: mark_lookup)
      qed
    qed
  qed
  then show ?case using IH le by auto
qed

lemma blocked_check:
  assumes "fb_ok m" and "\<forall>u \<in> set (fb_urls m). \<exists>ep. map_of (fm_endpoints m) u = Some ep \<and> down_between t0 t1 ep"
    and "now \<le> t0 + fm_cacheExpiryMs m"
  shows "getEndpointsByPriority now m = ([], m)"
proof -
  have each: "isEndpointAvailable now (fm_cacheExpiryMs m) ep = ep \<and> \<not> fe_available ep"
    if "(u, ep) \<in> set (fm_endpoints m)" for u ep
  proof -
    have "map_of (fm_endpoints m) u = Some ep" using that assms(1) by (simp add: fb_ok_lookup)
    moreover have "u \<in> set (fb_urls m)" using that by (force simp: fb_urls_def)
    ultimately have "down_between t0 t1 ep" using assms(2) by auto
    then show ?thesis using assms(3) by (auto simp: down_between_def isEndpointAvailable_def)
  qed
  have "map (\<lambda>(u, ep). (u, isEndpointAvailable now (fm_cacheExpiryMs m) ep)) (fm_endpoints m) = fm_endpoints m"
    by (rule map_idI) (use each in auto)
  then have "check_all now m = m" by (simp add: check_all_def)
  moreover have "filter fe_available (map snd (fm_endpoints m)) = []"
    using each by (fastforce simp: filter_empty_conv)
  ultimately show ?thesis by (simp add: getEndpointsByPriority_def by_priority_def)
qed

lemma expired_check:
  assumes ok: "fb_ok m" and down: "\<forall>u \<in> set (fb_urls m). \<exists>ep. map_of (fm_endpoints m) u = Some ep \<and> down_between t0 t1 ep"
    and now: "0 < t0" "t1 + fm_cacheExpiryMs m < now"
  shows "set (map fe_url (fst (getEndpointsByPriority now m))) = set (fb_urls m)"
proof -
  have each: "fe_available (isEndpointAvailable now (fm_cacheExpiryMs m) ep)"
    if "(u, ep) \<in> set (fm_endpoints m)" for u ep
  proof -
    have "map_of (fm_endpoints m) u = Some ep" using that ok by (simp add: fb_ok_lookup)
    moreover have "u \<in> set (fb_urls m)" using that by (force simp: fb_urls_def)
    ultimately have "down_between t0 t1 ep" using down by auto
    then show ?thesis using now by (auto simp: down_between_def isEndpointAvailable_def)
  qed
  have "set (map fe_url (fst (getEndpointsByPriority now m))) =
      {u. \<exists>ep. (u, ep) \<in> set (fm_endpoints (check_all now m)) \<and> fe_available ep}"
    unfolding getEndpointsByPriority_def Let_def fst_conv by (rule set_by_priority) (simp add: ok)
  also have "\<dots> = set (fb_urls m)"
    using each by (force simp: check_all_def fb_urls_def)
  finally show ?thesis .
qed

text \<open>C37: One call whose operation fails on every endpoint, for whatever reason, takes the whole
  service down: every later call is refused without being tried until the cache has expired, and once it
  has expired for all of them every endpoint is tried again.\<close>

theorem outage_blocks_then_recovers:
  assumes ok: "fb_ok m" and up: "\<forall>ep \<in> set (map snd (fm_endpoints m)). fe_available ep"
    and op: "\<And>s m w. \<exists>e w'. f s (m, w) = (Inl e, m, w') \<and> fb_clock E w \<le> fb_clock E w'"
    and clock: "0 < fb_clock E w"
    and run: "executeWithFallback E f (m, w) = (r, m', w')"
  shows "isl r \<and> fb_ok m' \<and> fb_urls m' = fb_urls m \<and>
     (fb_clock E v \<le> fb_clock E w + fm_cacheExpiryMs m \<longrightarrow>
        executeWithFallback E g (m', v) = (Inl ''No RPC endpoints available'', m', v)) \<and>
     (fb_clock E w' + fm_cacheExpiryMs m < fb_clock E v \<longrightarrow>
        set (map fe_url (fst (getEndpointsByPriority (fb_clock E v) m'))) = set (fb_urls m))"
proof -
  have "map (\<lambda>(u, ep). (u, isEndpointAvailable (fb_clock E w) (fm_cacheExpiryMs m) ep)) (fm_endpoints m) = fm_endpoints m"
    by (rule map_idI) (use up in auto)
  then have same: "check_all (fb_clock E w) m = m" by (simp add: check_all_def)
  have all: "set (map fe_url (by_priority m)) = set (fb_urls m)"
    using up unfolding set_by_priority [OF ok] by (force simp: fb_urls_def)
  have down: "isl r \<and> fb_clock E w \<le> fb_clock E w' \<and> fb_urls m' = fb_urls m \<and>
      fm_cacheExpiryMs m' = fm_cacheExpiryMs m \<and> fb_ok m' \<and>
      (\<forall>u \<in> set (fb_urls m). \<exists>ep. map_of (fm_endpoints m') u = Some ep \<and>
         down_between (fb_clock E w) (fb_clock E w') ep)"
  proof (cases "by_priority m = []")
    case True
    then have "fb_urls m = []" using all by simp
    then show ?thesis using run True ok
      by (auto simp: executeWithFallback_def getEndpointsByPriority_def same)
  next
    case False
    then have "try_endpoints E f 0 '''' (map fe_url (by_priority m)) (m, w) = (r, m', w')"
      using run by (simp add: execute_nonempty getEndpointsByPriority_def same)
    from try_endpoints_outage [OF op this] show ?thesis unfolding all using ok by blast
  qed
  then have blocked: "getEndpointsByPriority (fb_clock E v) m' = ([], m')"
    if "fb_clock E v \<le> fb_clock E w + fm_cacheExpiryMs m"
    using blocked_check [of m' "fb_clock E w" "fb_clock E w'" "fb_clock E v"] that by simp
  have "set (map fe_url (fst (getEndpointsByPriority (fb_clock E v) m'))) = set (fb_urls m)"
    if "fb_clock E w' + fm_cacheExpiryMs m < fb_clock E v"
    using expired_check [of m' "fb_clock E w" "fb_clock E w'" "fb_clock E v"] that down clock by simp
  then show ?thesis using down blocked by (simp add: executeWithFallback_def)
qed

theorem outage_blocks_then_recovers_witness:
  "\<exists>r m' w'. executeWithFallback demo_env (\<lambda>s (m, w). (Inl ''contract error'' :: string + nat, m, w @ [s]))
       (demo_manager, []) = (r, m', w') \<and>
     executeWithFallback demo_env (\<lambda>s (m, w). (Inr s, m, w @ [s])) (m', replicate 50 0) =
       (Inl ''No RPC endpoints available'', m', replicate 50 0)"
proof -
  let ?f = "\<lambda>s (m, w). (Inl ''contract error'' :: string + nat, m, w @ [s])"
  obtain r m' w' where run: "executeWithFallback demo_env ?f (demo_manager, []) = (r, m', w')"
    by (rule prod_cases3) (rule that)
  have ok: "fb_ok demo_manager" by (simp add: demo_manager_def)
  have up: "\<forall>ep \<in> set (map snd (fm_endpoints demo_manager)). fe_available ep" by code_simp
  have clock: "fb_clock demo_env w = 100 + int (length w)" for w by (simp add: demo_env_def)
  have x: "fm_cacheExpiryMs demo_manager = 50" by code_simp
  have "executeWithFallback demo_env (\<lambda>s (m, w). (Inr s, m, w @ [s])) (m', replicate 50 0) =
       (Inl ''No RPC endpoints available'', m', replicate 50 0)"
    using outage_blocks_then_recovers [OF ok up _ _ run, of "replicate 50 0" "\<lambda>s (m, w). (Inr s, m, w @ [s])"]
    by (simp add: clock x)
  with run show ?thesis by blast
qed

text \<open>With nothing configured the only fall-back of the test network is the main network: an operation
  that fails on the primary is repeated there.\<close>

lemma default_fallback_other_network:
  "map fe_url (by_priority (fb_manager (createRpcFallbackConfigFromEnv (\<lambda>_. None)))) =
     [''https://soroban-testnet.stellar.org'', ''https://soroban-mainnet.stellar.org'']"
  by code_simp

text \<open>A primary that is listed again as a fall-back loses its place.\<close>

lemma repeated_primary_loses_priority:
  "map fe_url (by_priority (fb_manager \<lparr>fc_primary = ''a'', fc_fallbacks = [''b'', ''a''],
     fc_healthCheckTimeoutMs = None, fc_cacheExpiryMs = None\<rparr>)) = [''b'', ''a'']"
  by code_simp

end
