(* ===== verification/Event_Decoder.thy ===== *)
theory Event_Decoder
  imports Token_Amounts
begin

text \<open>
  The decoder of contract events in the front end, \<^verbatim>\<open>frontend/src/lib/event_decoder.ts\<close>, and the events
  as the contract publishes them, \<^verbatim>\<open>contracts/subscription/src/events.rs\<close>. The XDR codec of the SDK is
  an argument: \<open>dec\<close> is \<^verbatim>\<open>scValToNative(xdr.ScVal.fromXDR(b, 'base64'))\<close>, \<open>None\<close> when it throws, and
  \<open>num\<close> is \<^verbatim>\<open>Number(text)\<close>. An exception inside the decoder is \<open>None\<close>.
\<close>

section \<open>Native values\<close>

datatype native = NUndefined | NNull | NBool bool | NNumber int | NBigint int | NText string
  | NArray "native list" | NBytes "nat list" | NObject

text \<open>\<^verbatim>\<open>String(v)\<close>, and the elements of an array when it is joined.\<close>

fun native_text :: "native \<Rightarrow> string" where
  "native_text NUndefined = ''undefined''"
| "native_text NNull = ''null''"
| "native_text (NBool b) = (if b then ''true'' else ''false'')"
| "native_text (NNumber n) = int_str n"
| "native_text (NBigint n) = int_str n"
| "native_text (NText s) = s"
| "native_text (NArray vs) =
     js_join (map (\<lambda>v. case v of NUndefined \<Rightarrow> '''' | NNull \<Rightarrow> '''' | _ \<Rightarrow> native_text v) vs)"
| "native_text (NBytes bs) = map char_of bs"
| "native_text NObject = ''[object Object]''"

text \<open>The values that a destructuring pattern reads: arrays, texts and byte buffers are iterable.\<close>

definition native_items :: "native \<Rightarrow> native list option" where
  "native_items v = (case v of
       NArray vs \<Rightarrow> Some vs
     | NText s \<Rightarrow> Some (map (\<lambda>c. NText [c]) s)
     | NBytes bs \<Rightarrow> Some (map (\<lambda>b. NNumber (int b)) bs)
     | _ \<Rightarrow> None)"

definition item :: "native list \<Rightarrow> nat \<Rightarrow> native" where
  "item vs i = (if i < length vs then vs ! i else NUndefined)"

text \<open>A number in JavaScript: a whole number, or the text of any other (\<^verbatim>\<open>NaN\<close>, a fraction). A
  \<^verbatim>\<open>bigint\<close> beyond 53 bits is rounded to the nearest number, ties to even.\<close>

datatype js_num = Whole int | NotWhole string

fun bit_len :: "nat \<Rightarrow> nat" where
  "bit_len n = (if n = 0 then 0 else Suc (bit_len (n div 2)))"

declare bit_len.simps [simp del]

definition to_double :: "int \<Rightarrow> int" where
  "to_double n = (let m = nat \<bar>n\<bar>; e = bit_len m - 53; q = m div 2 ^ e; r = m mod 2 ^ e; h = 2 ^ (e - 1);
       q' = (if 0 < e \<and> (h < r \<or> h = r \<and> odd q) then q + 1 else q)
     in sgn n * int (q' * 2 ^ e))"

section \<open>Decoding\<close>

definition CANCEL_REASON_LABEL :: "(int \<times> string) list" where
  "CANCEL_REASON_LABEL = [(1, ''Subscriber voluntary''), (2, ''Merchant initiated''),
     (3, ''Grace period expired''), (4, ''Admin forced'')]"

datatype decoded =
    DSubscribe string string string int
  | DExecuted string string string int int
  | DFailure string string int int
  | DSuccess string string int
  | DCancel string string js_num string
  | DExpired string string
  | DLowAllowance string string string int int
  | DBatch string js_num
  | DMigrated string js_num
  | DUnknown string

record raw_event =
  rw_topic :: "string list option"
  rw_value :: string

definition decodeScVal :: "(string \<Rightarrow> native option) \<Rightarrow> string \<Rightarrow> native" where
  "decodeScVal dec b = (case dec b of None \<Rightarrow> NNull | Some v \<Rightarrow> v)"

text \<open>\<^verbatim>\<open>decodeScVal(raw.topic[i])\<close>: beyond the end \<^verbatim>\<open>fromXDR(undefined)\<close> throws.\<close>

definition topic_at :: "(string \<Rightarrow> native option) \<Rightarrow> string list \<Rightarrow> nat \<Rightarrow> native" where
  "topic_at dec ts i = (if i < length ts then decodeScVal dec (ts ! i) else NNull)"

definition toBigInt :: "native \<Rightarrow> int option" where
  "toBigInt v = (case v of NBigint n \<Rightarrow> Some n | NNumber n \<Rightarrow> Some n | NText s \<Rightarrow> big_int s | _ \<Rightarrow> None)"

definition toNumber :: "(string \<Rightarrow> js_num) \<Rightarrow> native \<Rightarrow> js_num option" where
  "toNumber num v = (case v of
       NNumber n \<Rightarrow> Some (Whole n)
     | NBigint n \<Rightarrow> Some (Whole (to_double n))
     | NText s \<Rightarrow> Some (num s)
     | _ \<Rightarrow> None)"

definition toAddress :: "native \<Rightarrow> string option" where
  "toAddress v = (case v of NText s \<Rightarrow> Some s | _ \<Rightarrow> None)"

text \<open>\<^verbatim>\<open>const [a, b] = data\<close> with both read as \<^verbatim>\<open>bigint\<close>.\<close>

definition bigint_pair :: "native \<Rightarrow> (int \<times> int) option" where
  "bigint_pair v = (case native_items v of
       None \<Rightarrow> None
     | Some vs \<Rightarrow> (case toBigInt (item vs 0) of
         None \<Rightarrow> None
       | Some a \<Rightarrow> map_option (\<lambda>b. (a, b)) (toBigInt (item vs 1))))"

definition reason_label :: "js_num \<Rightarrow> string" where
  "reason_label r = (case r of
       Whole n \<Rightarrow> (case map_of CANCEL_REASON_LABEL n of
           Some l \<Rightarrow> l | None \<Rightarrow> ''Unknown reason ('' @ int_str n @ '')'')
     | NotWhole t \<Rightarrow> ''Unknown reason ('' @ t @ '')'')"

text \<open>The first two or three parties of the topics.\<close>

definition two_parties :: "(string \<Rightarrow> native option) \<Rightarrow> string list \<Rightarrow> (string \<times> string) option" where
  "two_parties dec ts = (case toAddress (topic_at dec ts 1) of
       None \<Rightarrow> None
     | Some s \<Rightarrow> map_option (\<lambda>m. (s, m)) (toAddress (topic_at dec ts 2)))"

definition three_parties :: "(string \<Rightarrow> native option) \<Rightarrow> string list \<Rightarrow> (string \<times> string \<times> string) option" where
  "three_parties dec ts = (case two_parties dec ts of
       None \<Rightarrow> None
     | Some (s, m) \<Rightarrow> map_option (\<lambda>t. (s, m, t)) (toAddress (topic_at dec ts 3)))"

definition decode_body ::
  "(string \<Rightarrow> native option) \<Rightarrow> (string \<Rightarrow> js_num) \<Rightarrow> string \<Rightarrow> string list \<Rightarrow> string \<Rightarrow> decoded option" where
  "decode_body dec num eventType ts value = (let data = decodeScVal dec value in
     if eventType = ''subscribe'' then
       (case three_parties dec ts of None \<Rightarrow> None
        | Some (s, m, t) \<Rightarrow> map_option (DSubscribe s m t) (toBigInt data))
     else if eventType = ''executed'' then
       (case three_parties dec ts of None \<Rightarrow> None
        | Some (s, m, t) \<Rightarrow> map_option (\<lambda>(a, n). DExecuted s m t a n) (bigint_pair data))
     else if eventType = ''payment_transfer_failure'' then
       (case two_parties dec ts of None \<Rightarrow> None
        | Some (s, m) \<Rightarrow> map_option (\<lambda>(a, o1). DFailure s m a o1) (bigint_pair data))
     else if eventType = ''payment_transfer_success'' then
       (case two_parties dec ts of None \<Rightarrow> None
        | Some (s, m) \<Rightarrow> map_option (DSuccess s m) (toBigInt data))
     else if eventType = ''cancel'' then
       (case two_parties dec ts of None \<Rightarrow> None
        | Some (s, m) \<Rightarrow> map_option (\<lambda>r. DCancel s m r (reason_label r)) (toNumber num data))
     else if eventType = ''expired'' then
       map_option (\<lambda>(s, m). DExpired s m) (two_parties dec ts)
     else if eventType = ''low_allowance'' then
       (case three_parties dec ts of None \<Rightarrow> None
        | Some (s, m, t) \<Rightarrow> map_option (\<lambda>(a, r). DLowAllowance s m t a r) (bigint_pair data))
     else if eventType = ''batch_execute_initiated'' then
       (case toAddress (topic_at dec ts 1) of None \<Rightarrow> None
        | Some m \<Rightarrow> map_option (DBatch m) (toNumber num data))
     else if eventType = ''contract_migrated'' then
       (case toAddress (topic_at dec ts 1) of None \<Rightarrow> None
        | Some a \<Rightarrow> map_option (DMigrated a) (toNumber num data))
     else Some (DUnknown eventType))"

definition decodeContractEvent ::
  "(string \<Rightarrow> native option) \<Rightarrow> (string \<Rightarrow> js_num) \<Rightarrow> 'x raw_event_scheme \<Rightarrow> decoded" where
  "decodeContractEvent dec num raw = (case rw_topic raw of
       None \<Rightarrow> DUnknown ''''
     | Some [] \<Rightarrow> DUnknown ''''
     | Some (t # ts) \<Rightarrow>
         (case decodeScVal dec t of
            NText eventType \<Rightarrow>
              (case decode_body dec num eventType (t # ts) (rw_value raw) of
                 Some e \<Rightarrow> e | None \<Rightarrow> DUnknown eventType)
          | NUndefined \<Rightarrow> DUnknown ''''
          | NNull \<Rightarrow> DUnknown ''''
          | v \<Rightarrow> DUnknown (native_text v)))"

fun is_unknown :: "decoded \<Rightarrow> bool" where
  "is_unknown (DUnknown _) = True"
| "is_unknown _ = False"

definition decodeContractEvents ::
  "(string \<Rightarrow> native option) \<Rightarrow> (string \<Rightarrow> js_num) \<Rightarrow> 'x raw_event_scheme list \<Rightarrow> decoded list" where
  "decodeContractEvents dec num raws = filter (\<lambda>e. \<not> is_unknown e) (map (decodeContractEvent dec num) raws)"

fun isSubscribeEvent :: "decoded \<Rightarrow> bool" where
  "isSubscribeEvent (DSubscribe _ _ _ _) = True" | "isSubscribeEvent _ = False"
fun isExecutedEvent :: "decoded \<Rightarrow> bool" where
  "isExecutedEvent (DExecuted _ _ _ _ _) = True" | "isExecutedEvent _ = False"
fun isPaymentFailureEvent :: "decoded \<Rightarrow> bool" where
  "isPaymentFailureEvent (DFailure _ _ _ _) = True" | "isPaymentFailureEvent _ = False"
fun isCancelEvent :: "decoded \<Rightarrow> bool" where
  "isCancelEvent (DCancel _ _ _ _) = True" | "isCancelEvent _ = False"

section \<open>What the contract publishes\<close>

datatype scval = ScSymbol string | ScAddress string | ScI128 int | ScU64 int | ScU32 int
  | ScVec "scval list" | ScVoid

text \<open>The native values that the SDK documents for them.\<close>

fun native_of :: "scval \<Rightarrow> native" where
  "native_of (ScSymbol s) = NText s"
| "native_of (ScAddress a) = NText a"
| "native_of (ScI128 n) = NBigint n"
| "native_of (ScU64 n) = NBigint n"
| "native_of (ScU32 n) = NNumber n"
| "native_of (ScVec vs) = NArray (map native_of vs)"
| "native_of ScVoid = NNull"

datatype contract_event =
    emit_contract_deployed string
  | emit_subscribe string string string int
  | emit_payment_transfer_success string string int
  | emit_payment_transfer_failure string string int int
  | emit_executed string string string int int
  | emit_expired string string "string option"
  | emit_updated string string "string option" int int int int
  | emit_cancel_with_reason string string int
  | emit_batch_execute_initiated string int
  | emit_contract_migrated string int
  | emit_subscription_transferred string string string
  | emit_low_allowance string string string int int
  | emit_paused string string "int option"
  | emit_resumed string string int
  | emit_fee_collected string string string int
  | emit_insufficient_allowance string string int int

definition parties :: "string \<Rightarrow> string list \<Rightarrow> scval list" where
  "parties name ps = ScSymbol name # map ScAddress ps"

definition opt_party :: "string option \<Rightarrow> string list" where
  "opt_party t = (case t of None \<Rightarrow> [] | Some a \<Rightarrow> [a])"

text \<open>The topics and the data of each event. \<^verbatim>\<open>emit_expired\<close> and \<^verbatim>\<open>emit_updated\<close> are each defined twice in
  the source, once with and once without the token (and with another order of the data).\<close>

fun published :: "contract_event \<Rightarrow> scval list \<times> scval" where
  "published (emit_contract_deployed v) = ([ScSymbol ''contract_deployed''], ScSymbol v)"
| "published (emit_subscribe s m t a) = (parties ''subscribe'' [s, m, t], ScI128 a)"
| "published (emit_payment_transfer_success s m a) = (parties ''payment_transfer_success'' [s, m], ScI128 a)"
| "published (emit_payment_transfer_failure s m a u) =
     (parties ''payment_transfer_failure'' [s, m], ScVec [ScI128 a, ScU64 u])"
| "published (emit_executed s m t a n) = (parties ''executed'' [s, m, t], ScVec [ScI128 a, ScU32 n])"
| "published (emit_expired s m t) = (parties ''expired'' ([s, m] @ opt_party t), ScVoid)"
| "published (emit_updated s m t a i b j) = (parties ''updated'' ([s, m] @ opt_party t),
     if t = None then ScVec [ScI128 a, ScI128 b, ScU64 i, ScU64 j] else ScVec [ScI128 a, ScU64 i, ScI128 b, ScU64 j])"
| "published (emit_cancel_with_reason s m r) = (parties ''cancel'' [s, m], ScU32 r)"
| "published (emit_batch_execute_initiated m n) = (parties ''batch_execute_initiated'' [m], ScI128 n)"
| "published (emit_contract_migrated a v) = (parties ''contract_migrated'' [a], ScI128 v)"
| "published (emit_subscription_transferred s m m') = (parties ''subscription_transferred'' [s, m, m'], ScVoid)"
| "published (emit_low_allowance s m t a r) = (parties ''low_allowance'' [s, m, t], ScVec [ScI128 a, ScI128 r])"
| "published (emit_paused s m t) =
     (parties ''paused'' [s, m], case t of None \<Rightarrow> ScVoid | Some u \<Rightarrow> ScU64 u)"
| "published (emit_resumed s m n) = (parties ''resumed'' [s, m], ScU64 n)"
| "published (emit_fee_collected s m c a) = (parties ''fee_collected'' [s, m, c], ScI128 a)"
| "published (emit_insufficient_allowance s m a r) =
     (parties ''insufficient_allowance'' [s, m], ScVec [ScI128 a, ScI128 r])"

definition raw_of :: "(scval \<Rightarrow> string) \<Rightarrow> contract_event \<Rightarrow> raw_event" where
  "raw_of enc e = \<lparr>rw_topic = Some (map enc (fst (published e))), rw_value = enc (snd (published e))\<rparr>"

text \<open>What a reader of the contract expects; \<open>None\<close> where the decoder has no case.\<close>

fun expected :: "contract_event \<Rightarrow> decoded" where
  "expected (emit_subscribe s m t a) = DSubscribe s m t a"
| "expected (emit_payment_transfer_success s m a) = DSuccess s m a"
| "expected (emit_payment_transfer_failure s m a u) = DFailure s m a u"
| "expected (emit_executed s m t a n) = DExecuted s m t a n"
| "expected (emit_expired s m t) = DExpired s m"
| "expected (emit_cancel_with_reason s m r) = DCancel s m (Whole r) (reason_label (Whole r))"
| "expected (emit_batch_execute_initiated m n) = DBatch m (Whole n)"
| "expected (emit_contract_migrated a v) = DMigrated a (Whole v)"
| "expected (emit_low_allowance s m t a r) = DLowAllowance s m t a r"
| "expected (emit_contract_deployed _) = DUnknown ''contract_deployed''"
| "expected (emit_updated _ _ _ _ _ _ _) = DUnknown ''updated''"
| "expected (emit_subscription_transferred _ _ _) = DUnknown ''subscription_transferred''"
| "expected (emit_paused _ _ _) = DUnknown ''paused''"
| "expected (emit_resumed _ _ _) = DUnknown ''resumed''"
| "expected (emit_fee_collected _ _ _ _) = DUnknown ''fee_collected''"
| "expected (emit_insufficient_allowance _ _ _ _) = DUnknown ''insufficient_allowance''"

text \<open>The counts are 32-bit in the contract.\<close>

fun counts_ok :: "contract_event \<Rightarrow> bool" where
  "counts_ok (emit_batch_execute_initiated _ n) = (0 \<le> n \<and> n < 2 ^ 32)"
| "counts_ok (emit_contract_migrated _ v) = (0 \<le> v \<and> v < 2 ^ 32)"
| "counts_ok _ = True"

section \<open>Every event of the contract is read as it was published\<close>

lemma bit_len_bound: "n < 2 ^ k \<Longrightarrow> bit_len n \<le> k"
proof (induction k arbitrary: n)
  case 0
  then show ?case by (simp add: bit_len.simps)
next
  case (Suc k)
  then have "n div 2 < 2 ^ k" by simp
  from Suc.IH [OF this] show ?case by (subst bit_len.simps) simp
qed

lemma to_double_exact: "\<bar>n\<bar> < 2 ^ 53 \<Longrightarrow> to_double n = n"
proof -
  assume n: "\<bar>n\<bar> < 2 ^ 53"
  then have "nat \<bar>n\<bar> < 2 ^ 53" by (simp add: nat_less_iff)
  from bit_len_bound [OF this] have "bit_len (nat \<bar>n\<bar>) - 53 = 0" by simp
  then show ?thesis by (simp add: to_double_def Let_def abs_mult_sgn mult.commute sgn_mult_abs)
qed

text \<open>The codec gives back the native value of what was encoded, for the values of an event.\<close>

definition codec_on :: "(string \<Rightarrow> native option) \<Rightarrow> (scval \<Rightarrow> string) \<Rightarrow> contract_event \<Rightarrow> bool" where
  "codec_on dec enc e \<longleftrightarrow>
     list_all (\<lambda>v. dec (enc v) = Some (native_of v)) (snd (published e) # fst (published e))"

lemma codec_value: "codec_on dec enc e \<Longrightarrow> decodeScVal dec (enc (snd (published e))) = native_of (snd (published e))"
  by (simp add: codec_on_def decodeScVal_def)

lemma codec_topic:
  "codec_on dec enc e \<Longrightarrow> i < length (fst (published e)) \<Longrightarrow>
     topic_at dec (map enc (fst (published e))) i = native_of (fst (published e) ! i)"
  by (auto simp: codec_on_def topic_at_def decodeScVal_def list_all_iff)

lemma codec_two:
  "codec_on dec enc e \<Longrightarrow> fst (published e) = parties name (s # m # ps) \<Longrightarrow>
     two_parties dec (map enc (parties name (s # m # ps))) = Some (s, m)"
  using codec_topic [of dec enc e 1] codec_topic [of dec enc e 2]
  by (simp add: two_parties_def parties_def toAddress_def)

lemma codec_three:
  "codec_on dec enc e \<Longrightarrow> fst (published e) = parties name (s # m # t # ps) \<Longrightarrow>
     three_parties dec (map enc (parties name (s # m # t # ps))) = Some (s, m, t)"
  using codec_topic [of dec enc e 3] codec_two [of dec enc e name s m "t # ps"]
  by (simp add: three_parties_def parties_def toAddress_def)

lemma codec_one:
  "codec_on dec enc e \<Longrightarrow> fst (published e) = parties name (s # ps) \<Longrightarrow>
     toAddress (topic_at dec (map enc (parties name (s # ps))) 1) = Some s"
  using codec_topic [of dec enc e 1] by (simp add: parties_def toAddress_def)

lemma decode_published:
  assumes "codec_on dec enc e" and "fst (published e) = ScSymbol name # ps"
  shows "decodeContractEvent dec num (raw_of enc e) =
     (case decode_body dec num name (map enc (fst (published e))) (enc (snd (published e))) of
        Some d \<Rightarrow> d | None \<Rightarrow> DUnknown name)"
  using codec_topic [OF assms(1), of 0] assms(2)
  by (simp add: decodeContractEvent_def raw_of_def topic_at_def)

lemma pair_items: "bigint_pair (NArray [a, b]) =
    (case toBigInt a of None \<Rightarrow> None | Some x \<Rightarrow> map_option (\<lambda>y. (x, y)) (toBigInt b))"
  by (simp add: bigint_pair_def native_items_def item_def split: option.splits)

lemma decode_body_names:
  "decode_body dec num ''subscribe'' ts v = (case three_parties dec ts of None \<Rightarrow> None
     | Some (s, m, t) \<Rightarrow> map_option (DSubscribe s m t) (toBigInt (decodeScVal dec v)))"
  "decode_body dec num ''executed'' ts v = (case three_parties dec ts of None \<Rightarrow> None
     | Some (s, m, t) \<Rightarrow> map_option (\<lambda>(a, n). DExecuted s m t a n) (bigint_pair (decodeScVal dec v)))"
  "decode_body dec num ''payment_transfer_failure'' ts v = (case two_parties dec ts of None \<Rightarrow> None
     | Some (s, m) \<Rightarrow> map_option (\<lambda>(a, u). DFailure s m a u) (bigint_pair (decodeScVal dec v)))"
  "decode_body dec num ''payment_transfer_success'' ts v = (case two_parties dec ts of None \<Rightarrow> None
     | Some (s, m) \<Rightarrow> map_option (DSuccess s m) (toBigInt (decodeScVal dec v)))"
  "decode_body dec num ''cancel'' ts v = (case two_parties dec ts of None \<Rightarrow> None
     | Some (s, m) \<Rightarrow> map_option (\<lambda>r. DCancel s m r (reason_label r)) (toNumber num (decodeScVal dec v)))"
  "decode_body dec num ''expired'' ts v = map_option (\<lambda>(s, m). DExpired s m) (two_parties dec ts)"
  "decode_body dec num ''low_allowance'' ts v = (case three_parties dec ts of None \<Rightarrow> None
     | Some (s, m, t) \<Rightarrow> map_option (\<lambda>(a, r). DLowAllowance s m t a r) (bigint_pair (decodeScVal dec v)))"
  "decode_body dec num ''batch_execute_initiated'' ts v = (case toAddress (topic_at dec ts 1) of None \<Rightarrow> None
     | Some m \<Rightarrow> map_option (DBatch m) (toNumber num (decodeScVal dec v)))"
  "decode_body dec num ''contract_migrated'' ts v = (case toAddress (topic_at dec ts 1) of None \<Rightarrow> None
     | Some m \<Rightarrow> map_option (DMigrated m) (toNumber num (decodeScVal dec v)))"
  by (simp_all add: decode_body_def)

lemma decode_body_other:
  "decode_body dec num ''contract_deployed'' ts v = Some (DUnknown ''contract_deployed'')"
  "decode_body dec num ''updated'' ts v = Some (DUnknown ''updated'')"
  "decode_body dec num ''subscription_transferred'' ts v = Some (DUnknown ''subscription_transferred'')"
  "decode_body dec num ''paused'' ts v = Some (DUnknown ''paused'')"
  "decode_body dec num ''resumed'' ts v = Some (DUnknown ''resumed'')"
  "decode_body dec num ''fee_collected'' ts v = Some (DUnknown ''fee_collected'')"
  "decode_body dec num ''insufficient_allowance'' ts v = Some (DUnknown ''insufficient_allowance'')"
  by (simp_all add: decode_body_def)

lemma decode_parties:
  "codec_on dec enc e \<Longrightarrow> fst (published e) = parties name ps \<Longrightarrow>
     decodeContractEvent dec num (raw_of enc e) =
       (case decode_body dec num name (map enc (parties name ps)) (enc (snd (published e))) of
          Some d \<Rightarrow> d | None \<Rightarrow> DUnknown name)"
  using decode_published [of dec enc e name "map ScAddress ps" num] by (simp add: parties_def)

lemmas codec_simps = codec_value codec_one codec_two codec_three pair_items toBigInt_def toNumber_def

text \<open>C36: Every event that the contract publishes with one of the nine names the decoder knows is
  decoded to exactly the parties, amounts and counts it was published with, and every other event of the
  contract becomes an unknown event that names it.\<close>

theorem decodes_what_contract_publishes:
  assumes codec: "codec_on dec enc e" and counts: "counts_ok e"
  shows "decodeContractEvent dec num (raw_of enc e) = expected e"
proof -
  note p = decode_parties [OF codec, of _ _ num]
  note v = codec_value [OF codec] codec_one [OF codec] codec_two [OF codec] codec_three [OF codec]
  show ?thesis
  proof (cases e)
    case (emit_contract_deployed x)
    then show ?thesis using decode_published [OF codec, of "''contract_deployed''" "[]" num]
      by (simp only: published.simps fst_conv decode_body_other option.case expected.simps)
  next
    case (emit_subscribe s m t a)
    then show ?thesis using p [of "''subscribe''" "[s, m, t]"] v(1) v(4) [of "''subscribe''" s m t "[]"]
      by (simp add: decode_body_names toBigInt_def)
  qed (insert p v counts, simp_all add: decode_body_names decode_body_other toBigInt_def toNumber_def
      pair_items to_double_exact)
qed

definition demo_enc :: "scval \<Rightarrow> string" where
  "demo_enc v = (case v of ScSymbol s \<Rightarrow> s | ScAddress a \<Rightarrow> CHR ''A'' # a | _ \<Rightarrow> ''V'')"

definition demo_dec :: "native \<Rightarrow> string \<Rightarrow> native option" where
  "demo_dec v b = (if b = ''V'' then Some v else if b = ''bad'' then None
     else if hd b = CHR ''A'' then Some (NText (tl b)) else Some (NText b))"

theorem decodes_what_contract_publishes_witness:
  "decodeContractEvent (demo_dec (NArray [NBigint 500, NNumber 3])) (\<lambda>_. NotWhole ''NaN'')
     (raw_of demo_enc (emit_executed ''GS'' ''GM'' ''CT'' 500 3)) = DExecuted ''GS'' ''GM'' ''CT'' 500 3"
proof -
  have "codec_on (demo_dec (NArray [NBigint 500, NNumber 3])) demo_enc (emit_executed ''GS'' ''GM'' ''CT'' 500 3)"
    by (simp add: codec_on_def demo_dec_def demo_enc_def parties_def)
  from decodes_what_contract_publishes [OF this, of "\<lambda>_. NotWhole ''NaN''"] show ?thesis by simp
qed

end
