(* ===== verification/Subscription_Feed.thy ===== *)
theory Subscription_Feed
  imports Event_Decoder "HOL-Library.Multiset"
begin

text \<open>
  The account history of the front end: the hook \<^verbatim>\<open>frontend/src/hooks/useSubscriptionEvents.ts\<close>, which
  polls the events of an account and merges them, the helpers of \<^verbatim>\<open>frontend/src/lib/utils.ts\<close> it prints
  with, and the older decoder of \<^verbatim>\<open>frontend/src/hooks/usePaymentHistory.ts\<close>. The RPC server is an
  argument of a load; a \<^verbatim>\<open>React\<close> state setter is an update of the feed. The locale order of texts is
  \<open>collate\<close>.
\<close>

section \<open>Printing\<close>

definition STROOPS_PER_TOKEN :: int where "STROOPS_PER_TOKEN = 10000000"

definition stroopsToTokens :: "int \<Rightarrow> string" where
  "stroopsToTokens n = int_str (js_quot n STROOPS_PER_TOKEN) @ ''.'' @ padStart (int_str (js_rem n STROOPS_PER_TOKEN)) 7"

definition tokensToStroops :: "int \<Rightarrow> int" where
  "tokensToStroops n = n * STROOPS_PER_TOKEN"

definition ELLIPSIS :: string where "ELLIPSIS = [CHR 0xE2, CHR 0x80, CHR 0xA6]"

definition truncateAddress :: "string \<Rightarrow> nat \<Rightarrow> string" where
  "truncateAddress a len = (if a = '''' then '''' else if length a \<le> len * 2 then a
     else take len a @ ELLIPSIS @ (if len = 0 then a else drop (length a - len) a))"

definition decodeEventType :: "string \<Rightarrow> string" where
  "decodeEventType raw = (if raw \<in> {''subscribe'', ''executed'', ''cancel'', ''payment_transfer_failure''}
     then raw else ''unknown'')"

definition formatInterval :: "int \<Rightarrow> string" where
  "formatInterval seconds = (if 86400 \<le> seconds \<and> seconds mod 86400 = 0
     then (let days = seconds div 86400 in int_str days @ '' '' @ (if days = 1 then ''day'' else ''days''))
     else int_str seconds @ '' seconds'')"

section \<open>Events of the feed\<close>

record SubscriptionEvent =
  se_id :: string
  se_ledger :: int
  se_timestamp :: string
  se_eventType :: string
  se_subscriber :: string
  se_merchant :: string
  se_token :: string
  se_amount :: string
  se_amountStroops :: string
  se_txHash :: string

record RawEventResponse = raw_event +
  re_id :: string
  re_ledger :: int
  re_ledgerClosedAt :: "string option"
  re_txHash :: "string option"

definition EPOCH :: string where "EPOCH = ''1970-01-01T00:00:00.000Z''"
definition EM_DASH :: string where "EM_DASH = [CHR 0xE2, CHR 0x80, CHR 0x94]"
definition HISTORY_LEDGER_WINDOW :: int where "HISTORY_LEDGER_WINDOW = 10000"
definition PAGE_LIMIT :: nat where "PAGE_LIMIT = 1000"

definition EVENT_TYPES :: "string list" where
  "EVENT_TYPES = [''subscribe'', ''executed'', ''cancel'', ''payment_transfer_failure'']"

text \<open>The four kinds that the feed shows, with type, parties, token and amount.\<close>

fun activity :: "decoded \<Rightarrow> (string \<times> string \<times> string \<times> string option \<times> int option) option" where
  "activity (DSubscribe s m t a) = Some (''subscribe'', s, m, Some t, Some a)"
| "activity (DExecuted s m t a n) = Some (''executed'', s, m, Some t, Some a)"
| "activity (DCancel s m r l) = Some (''cancel'', s, m, None, None)"
| "activity (DFailure s m a u) = Some (''payment_transfer_failure'', s, m, None, Some a)"
| "activity _ = None"

definition getEventAmount :: "int option \<Rightarrow> string option" where
  "getEventAmount a = map_option stroopsToTokens a"

definition toSubscriptionEvent ::
  "RawEventResponse \<Rightarrow> string \<times> string \<times> string \<times> string option \<times> int option \<Rightarrow> SubscriptionEvent" where
  "toSubscriptionEvent raw ev = (case ev of (ty, s, m, t, a) \<Rightarrow> \<lparr>
     se_id = re_id raw, se_ledger = re_ledger raw,
     se_timestamp = (case re_ledgerClosedAt raw of None \<Rightarrow> EPOCH | Some d \<Rightarrow> d),
     se_eventType = ty, se_subscriber = s, se_merchant = m,
     se_token = (case t of None \<Rightarrow> '''' | Some u \<Rightarrow> u),
     se_amount = (case getEventAmount a of None \<Rightarrow> EM_DASH | Some u \<Rightarrow> u),
     se_amountStroops = (case a of None \<Rightarrow> '''' | Some n \<Rightarrow> int_str n),
     se_txHash = (case re_txHash raw of None \<Rightarrow> '''' | Some h \<Rightarrow> h)\<rparr>)"

type_synonym decoders = "(string \<Rightarrow> native option) \<times> (string \<Rightarrow> js_num)"

definition own_event :: "decoders \<Rightarrow> string \<Rightarrow> RawEventResponse \<Rightarrow> SubscriptionEvent option" where
  "own_event D publicKey raw = (case activity (decodeContractEvent (fst D) (snd D) raw) of
       None \<Rightarrow> None
     | Some ev \<Rightarrow> if fst (snd ev) = publicKey then Some (toSubscriptionEvent raw ev) else None)"

definition fetched_events :: "decoders \<Rightarrow> string \<Rightarrow> RawEventResponse list \<Rightarrow> SubscriptionEvent list" where
  "fetched_events D publicKey raws = List.map_filter (own_event D publicKey) raws"

section \<open>Merging\<close>

definition merge_into :: "SubscriptionEvent list \<Rightarrow> (string \<times> SubscriptionEvent) list \<Rightarrow> (string \<times> SubscriptionEvent) list" where
  "merge_into evs m = fold (\<lambda>e. AList.update (se_id e) e) evs m"

text \<open>The comparison is by ledger and then by the time in the locale's order, both descending; the sort
  is stable.\<close>

definition newest_first :: "(string \<Rightarrow> int) \<Rightarrow> SubscriptionEvent list \<Rightarrow> SubscriptionEvent list" where
  "newest_first collate evs =
     sort_key (\<lambda>e. - se_ledger e) (sort_key (\<lambda>e. - collate (se_timestamp e)) evs)"

definition merge_events ::
  "(string \<Rightarrow> int) \<Rightarrow> bool \<Rightarrow> SubscriptionEvent list \<Rightarrow> SubscriptionEvent list \<Rightarrow> SubscriptionEvent list" where
  "merge_events collate replaceHistory current fetched =
     newest_first collate (map snd (merge_into fetched (if replaceHistory then [] else merge_into current [])))"

section \<open>The hook\<close>

text \<open>The state that the component renders from, and the variables of one run of the effect.\<close>

record feed =
  fd_events :: "SubscriptionEvent list"
  fd_loading :: bool
  fd_error :: "string option"
  fd_previousKey :: "string option"

record session =
  ss_inFlight :: bool
  ss_historyLoaded :: bool
  ss_lastLedgerSeen :: "int option"

record events_request =
  er_startLedger :: int
  er_contractIds :: "string list"
  er_topics :: "(string \<times> string) list"
  er_limit :: nat

record rpc_replies =
  rr_latest :: "string + int"
  rr_addressTopic :: "string \<Rightarrow> string + string"
  rr_symbolTopic :: "string \<Rightarrow> string"
  rr_events :: "events_request \<Rightarrow> string + RawEventResponse list"

definition start_ledger :: "bool \<Rightarrow> int \<Rightarrow> session \<Rightarrow> int" where
  "start_ledger replaceHistory latest s =
     (if replaceHistory then max 1 (latest - HISTORY_LEDGER_WINDOW)
      else max 1 ((case ss_lastLedgerSeen s of None \<Rightarrow> latest | Some l \<Rightarrow> l) - 1))"

definition fetch_events ::
  "rpc_replies \<Rightarrow> string \<Rightarrow> string \<Rightarrow> bool \<Rightarrow> session \<Rightarrow> string + int \<times> RawEventResponse list" where
  "fetch_events R contractId publicKey replaceHistory s =
     (case rr_latest R of
        Inl e \<Rightarrow> Inl e
      | Inr latest \<Rightarrow>
          (case rr_addressTopic R publicKey of
             Inl e \<Rightarrow> Inl e
           | Inr topic \<Rightarrow>
               (case rr_events R \<lparr>er_startLedger = start_ledger replaceHistory latest s,
                    er_contractIds = [contractId],
                    er_topics = map (\<lambda>ty. (rr_symbolTopic R ty, topic)) EVENT_TYPES,
                    er_limit = PAGE_LIMIT\<rparr> of
                  Inl e \<Rightarrow> Inl e
                | Inr raws \<Rightarrow> Inr (latest, raws))))"

text \<open>A load sets its guard and, when the answers are there, writes the result; a tick during a load does
  nothing. \<open>cancelled\<close> says that the effect was cleaned up before the answers arrived: then only the
  guard of that run of the effect is written.\<close>

definition begin_load :: "feed \<times> session \<Rightarrow> feed \<times> session" where
  "begin_load st = (case st of (f, s) \<Rightarrow>
     (f\<lparr>fd_loading := True, fd_error := None\<rparr>, s\<lparr>ss_inFlight := True\<rparr>))"

definition finish_load ::
  "decoders \<Rightarrow> (string \<Rightarrow> int) \<Rightarrow> rpc_replies \<Rightarrow> string \<Rightarrow> string \<Rightarrow> bool \<Rightarrow> bool \<Rightarrow> feed \<times> session \<Rightarrow> feed \<times> session" where
  "finish_load D collate R contractId publicKey initialLoad cancelled st =
     (case st of (f, s) \<Rightarrow>
        (let replaceHistory = (initialLoad \<or> \<not> ss_historyLoaded s); s' = s\<lparr>ss_inFlight := False\<rparr>
         in case fetch_events R contractId publicKey replaceHistory s of
              Inl e \<Rightarrow> (if cancelled then f else f\<lparr>fd_error := Some e, fd_loading := False\<rparr>, s')
            | Inr (latest, raws) \<Rightarrow>
                if cancelled then (f, s')
                else (f\<lparr>fd_events := merge_events collate replaceHistory (fd_events f)
                            (fetched_events D publicKey raws), fd_loading := False\<rparr>,
                      s'\<lparr>ss_historyLoaded := True, ss_lastLedgerSeen := Some latest\<rparr>)))"

definition loadEvents ::
  "decoders \<Rightarrow> (string \<Rightarrow> int) \<Rightarrow> rpc_replies \<Rightarrow> string \<Rightarrow> string \<Rightarrow> bool \<Rightarrow> bool \<Rightarrow> feed \<times> session \<Rightarrow> feed \<times> session" where
  "loadEvents D collate R contractId publicKey initialLoad cancelled st =
     (if ss_inFlight (snd st) then st
      else finish_load D collate R contractId publicKey initialLoad cancelled (begin_load st))"

definition new_session :: session where
  "new_session = \<lparr>ss_inFlight = False, ss_historyLoaded = False, ss_lastLedgerSeen = None\<rparr>"

text \<open>The start of the effect: \<open>None\<close> when it returns without a load.\<close>

definition start_effect :: "string option \<Rightarrow> string \<Rightarrow> feed \<Rightarrow> feed \<times> session option" where
  "start_effect publicKey contractId f0 =
     (let f = (if fd_previousKey f0 \<noteq> publicKey
               then f0\<lparr>fd_events := [], fd_error := None, fd_previousKey := publicKey\<rparr> else f0)
      in case publicKey of
           None \<Rightarrow> (f\<lparr>fd_events := [], fd_error := None, fd_loading := False\<rparr>, None)
         | Some k \<Rightarrow>
             if k = '''' then (f\<lparr>fd_events := [], fd_error := None, fd_loading := False\<rparr>, None)
             else if contractId = '''' then
               (f\<lparr>fd_error := Some ''SorobanPay contract is not configured.'', fd_loading := False\<rparr>, None)
             else (f, Some new_session))"

section \<open>The older decoder of payments\<close>

text \<open>\<^verbatim>\<open>decodeExecutedEvent\<close>: here a decoding error of any topic or of the value drops the event.
  The type of the event is left out.\<close>

definition decodeExecutedEvent :: "(string \<Rightarrow> native option) \<Rightarrow> RawEventResponse \<Rightarrow> SubscriptionEvent option" where
  "decodeExecutedEvent dec raw = (case rw_topic raw of
       None \<Rightarrow> None
     | Some ts \<Rightarrow>
         if length ts < 4 \<or> \<not> list_all (\<lambda>t. dec t \<noteq> None) ts then None
         else if dec (ts ! 0) \<noteq> Some (NText ''executed'') then None
         else (case dec (rw_value raw) of
             None \<Rightarrow> None
           | Some v \<Rightarrow>
               (case (case v of NBigint n \<Rightarrow> Some n | _ \<Rightarrow> big_int (native_text v)) of
                  None \<Rightarrow> None
                | Some n \<Rightarrow> Some \<lparr>se_id = re_id raw, se_ledger = re_ledger raw,
                    se_timestamp = (case re_ledgerClosedAt raw of None \<Rightarrow> EPOCH | Some d \<Rightarrow> d),
                    se_eventType = '''',
                    se_subscriber = native_text (the (dec (ts ! 1))),
                    se_merchant = native_text (the (dec (ts ! 2))),
                    se_token = native_text (the (dec (ts ! 3))),
                    se_amount = stroopsToTokens n, se_amountStroops = int_str n,
                    se_txHash = (case re_txHash raw of None \<Rightarrow> '''' | Some h \<Rightarrow> h)\<rparr>)))"

section \<open>Merging keeps one event per identifier\<close>

definition keyed :: "(string \<times> SubscriptionEvent) list \<Rightarrow> bool" where
  "keyed m \<longleftrightarrow> distinct (map fst m) \<and> (\<forall>(k, e) \<in> set m. se_id e = k)"

lemma set_update_keyed:
  assumes "keyed m" and "inj_on se_id (insert e (snd ` set m))"
  shows "keyed (AList.update (se_id e) e m) \<and> snd ` set (AList.update (se_id e) e m) = insert e (snd ` set m)"
  using assms
proof (induction m)
  case Nil
  then show ?case by (simp add: keyed_def)
next
  case (Cons x m)
  obtain k v where x: "x = (k, v)" by (cases x)
  have k: "se_id v = k" and m: "keyed m" and new: "k \<notin> fst ` set m"
    using Cons.prems(1) by (auto simp: keyed_def x)
  have inj: "inj_on se_id (insert e (snd ` set m))"
    using Cons.prems(2) by (rule inj_on_subset) auto
  show ?case
  proof (cases "se_id e = k")
    case True
    have "e = v" by (rule inj_onD [OF Cons.prems(2)]) (simp_all add: True k x)
    then have "AList.update (se_id e) e (x # m) = x # m" using True by (simp add: x)
    then show ?thesis using Cons.prems(1) \<open>e = v\<close> by (simp add: x)
  next
    case False
    note IH = Cons.IH [OF m inj]
    have "fst ` set (AList.update (se_id e) e m) = insert (se_id e) (fst ` set m)"
      by (simp add: dom_update)
    then have "k \<notin> fst ` set (AList.update (se_id e) e m)" using new False by simp
    then have "keyed (x # AList.update (se_id e) e m)" using IH k by (simp add: x keyed_def)
    moreover have "AList.update (se_id e) e (x # m) = x # AList.update (se_id e) e m"
      using False by (simp add: x)
    ultimately show ?thesis using IH by auto
  qed
qed

lemma merge_into_set:
  "keyed m \<Longrightarrow> inj_on se_id (set evs \<union> snd ` set m) \<Longrightarrow>
     keyed (merge_into evs m) \<and> snd ` set (merge_into evs m) = set evs \<union> snd ` set m"
proof (induction evs arbitrary: m)
  case Nil
  then show ?case by (simp add: merge_into_def)
next
  case (Cons e evs)
  have "inj_on se_id (insert e (snd ` set m))" using Cons.prems(2) by (rule inj_on_subset) auto
  note up = set_update_keyed [OF Cons.prems(1) this]
  then have "inj_on se_id (set evs \<union> snd ` set (AList.update (se_id e) e m))"
    using Cons.prems(2) by simp
  from Cons.IH [OF conjunct1 [OF up] this] up show ?case by (auto simp: merge_into_def)
qed

lemma keyed_distinct: "keyed m \<Longrightarrow> distinct (map se_id (map snd m))"
proof -
  assume "keyed m"
  then have "map se_id (map snd m) = map fst m" by (auto simp: keyed_def)
  then show ?thesis using \<open>keyed m\<close> by (simp only: keyed_def)
qed

lemma newest_first_props:
  "set (newest_first collate evs) = set evs"
  "sorted (map (\<lambda>e. - se_ledger e) (newest_first collate evs))"
  "distinct (map se_id (newest_first collate evs)) \<longleftrightarrow> distinct (map se_id evs)"
proof -
  show "set (newest_first collate evs) = set evs"
    and "sorted (map (\<lambda>e. - se_ledger e) (newest_first collate evs))"
    by (simp_all add: newest_first_def)
  have "mset (newest_first collate evs) = mset evs" by (simp add: newest_first_def)
  then have "mset (map se_id (newest_first collate evs)) = mset (map se_id evs)" by simp
  then show "distinct (map se_id (newest_first collate evs)) \<longleftrightarrow> distinct (map se_id evs)"
    by (metis mset_eq_imp_distinct_iff)
qed

lemma merge_events_set:
  assumes "inj_on se_id (set fetched \<union> (if repl then {} else set current))"
  shows "set (merge_events collate repl current fetched) = set fetched \<union> (if repl then {} else set current)"
    and "sorted (map (\<lambda>e. - se_ledger e) (merge_events collate repl current fetched))"
    and "distinct (map se_id (merge_events collate repl current fetched))"
proof -
  let ?base = "if repl then [] else merge_into current []"
  have base: "keyed ?base \<and> snd ` set ?base = (if repl then {} else set current)"
  proof (cases repl)
    case False
    then have "inj_on se_id (set current \<union> snd ` set ([] :: (string \<times> SubscriptionEvent) list))"
      using assms by (auto intro: inj_on_subset)
    from merge_into_set [OF _ this] False show ?thesis by (simp add: keyed_def)
  qed (simp add: keyed_def)
  then have "inj_on se_id (set fetched \<union> snd ` set ?base)" using assms by simp
  from merge_into_set [OF conjunct1 [OF base] this] base
  have "keyed (merge_into fetched ?base) \<and>
      snd ` set (merge_into fetched ?base) = set fetched \<union> (if repl then {} else set current)"
    by simp
  then show "set (merge_events collate repl current fetched) = set fetched \<union> (if repl then {} else set current)"
    and "sorted (map (\<lambda>e. - se_ledger e) (merge_events collate repl current fetched))"
    and "distinct (map se_id (merge_events collate repl current fetched))"
    by (simp_all add: merge_events_def newest_first_props keyed_distinct del: map_map)
qed

lemma set_merge_subset:
  "set (merge_events collate repl current fetched) \<subseteq> set fetched \<union> set current"
proof -
  have into: "snd ` set (merge_into evs m) \<subseteq> set evs \<union> snd ` set m" for evs m
  proof (induction evs arbitrary: m)
    case (Cons e evs)
    have "snd ` set (AList.update (se_id e) e m) \<subseteq> insert e (snd ` set m)"
      using set_update_subset [of "se_id e" e m] by force
    with Cons.IH [of "AList.update (se_id e) e m"] show ?case by (auto simp: merge_into_def)
  qed (simp add: merge_into_def)
  have "snd ` set (if repl then [] else merge_into current []) \<subseteq> set current"
    using into [of current "[]"] by simp
  with into [of fetched "if repl then [] else merge_into current []"]
  have "snd ` set (merge_into fetched (if repl then [] else merge_into current [])) \<subseteq> set fetched \<union> set current"
    by blast
  then show ?thesis by (simp add: merge_events_def newest_first_props)
qed

section \<open>Following the chain\<close>

text \<open>The server at some moment: the latest closed ledger and all events so far, of which a request gets
  those that match its filters from its start ledger on, up to its limit.\<close>

definition serves ::
  "(events_request \<Rightarrow> RawEventResponse \<Rightarrow> bool) \<Rightarrow> rpc_replies \<Rightarrow> string \<Rightarrow> int \<Rightarrow> RawEventResponse list \<Rightarrow> bool" where
  "serves matches R publicKey latest evs \<longleftrightarrow> rr_latest R = Inr latest \<and> \<not> isl (rr_addressTopic R publicKey) \<and>
     (\<forall>q. rr_events R q =
        Inr (take (er_limit q) (filter (\<lambda>r. er_startLedger q \<le> re_ledger r \<and> matches q r) evs)))"

text \<open>An account is followed: the first load of a run of the effect, later loads while the chain grows,
  and loads that fail. Between two answers only events of later ledgers are added, and no answer is cut
  by the limit. \<open>shown\<close> are the events that match the filters of the account.\<close>

definition fits :: "(RawEventResponse \<Rightarrow> bool) \<Rightarrow> int \<Rightarrow> RawEventResponse list \<Rightarrow> bool" where
  "fits shown from evs \<longleftrightarrow> length (filter (\<lambda>r. from \<le> re_ledger r \<and> shown r) evs) \<le> PAGE_LIMIT"

definition grows :: "int \<Rightarrow> RawEventResponse list \<Rightarrow> int \<Rightarrow> RawEventResponse list \<Rightarrow> bool" where
  "grows latest evs latest' evs' \<longleftrightarrow> latest \<le> latest' \<and> set evs \<subseteq> set evs' \<and>
     (\<forall>r \<in> set evs' - set evs. latest < re_ledger r)"

definition filters_of :: "(events_request \<Rightarrow> RawEventResponse \<Rightarrow> bool) \<Rightarrow> rpc_replies \<Rightarrow> string \<Rightarrow> string \<Rightarrow> (RawEventResponse \<Rightarrow> bool) \<Rightarrow> bool" where
  "filters_of matches R contractId publicKey shown \<longleftrightarrow> (\<forall>start r. matches \<lparr>er_startLedger = start,
      er_contractIds = [contractId],
      er_topics = map (\<lambda>ty. (rr_symbolTopic R ty, projr (rr_addressTopic R publicKey))) EVENT_TYPES,
      er_limit = PAGE_LIMIT\<rparr> r = shown r)"

inductive follows ::
  "decoders \<Rightarrow> (string \<Rightarrow> int) \<Rightarrow> string \<Rightarrow> string \<Rightarrow> (RawEventResponse \<Rightarrow> bool) \<Rightarrow>
     feed \<times> session \<Rightarrow> int \<Rightarrow> int \<Rightarrow> RawEventResponse list \<Rightarrow> bool"
  for D collate contractId publicKey shown where
  first_load: "follows D collate contractId publicKey shown
      (loadEvents D collate R contractId publicKey ini False (f, s)) (max 1 (latest - HISTORY_LEDGER_WINDOW)) latest evs"
    if "\<not> ss_inFlight s" and "\<not> ss_historyLoaded s" and "serves matches R publicKey latest evs"
      and "filters_of matches R contractId publicKey shown"
      and "fits shown (max 1 (latest - HISTORY_LEDGER_WINDOW)) evs"
| next_load: "follows D collate contractId publicKey shown
      (loadEvents D collate R contractId publicKey False False st) w latest' evs'"
    if "follows D collate contractId publicKey shown st w latest evs" and "grows latest evs latest' evs'"
      and "serves matches R publicKey latest' evs'" and "filters_of matches R contractId publicKey shown"
      and "fits shown (max 1 (latest - 1)) evs'"
| failed_load: "follows D collate contractId publicKey shown
      (loadEvents D collate R contractId publicKey False False st) w latest evs"
    if "follows D collate contractId publicKey shown st w latest evs"
      and "isl (fetch_events R contractId publicKey False (snd st))"

lemma start_ledger_flag [simp]: "start_ledger repl latest (s\<lparr>ss_inFlight := b\<rparr>) = start_ledger repl latest s"
  by (simp add: start_ledger_def)

lemma fetch_served:
  assumes "serves matches R publicKey latest evs" and "filters_of matches R contractId publicKey shown"
    and "fits shown (start_ledger repl latest s) evs"
  shows "fetch_events R contractId publicKey repl s =
     Inr (latest, filter (\<lambda>r. start_ledger repl latest s \<le> re_ledger r \<and> shown r) evs)"
proof -
  obtain t where "rr_addressTopic R publicKey = Inr t"
    using assms(1) by (cases "rr_addressTopic R publicKey") (auto simp: serves_def)
  then show ?thesis
    using assms by (simp add: serves_def filters_of_def fits_def fetch_events_def)
qed

text \<open>The events of the account that the feed ought to show.\<close>

definition own_of ::
  "decoders \<Rightarrow> string \<Rightarrow> (RawEventResponse \<Rightarrow> bool) \<Rightarrow> int \<Rightarrow> RawEventResponse list \<Rightarrow> SubscriptionEvent set" where
  "own_of D publicKey shown w evs =
     {e. \<exists>r \<in> set evs. shown r \<and> w \<le> re_ledger r \<and> own_event D publicKey r = Some e}"

lemma own_event_id: "own_event D k r = Some e \<Longrightarrow> se_id e = re_id r \<and> se_ledger e = re_ledger r \<and> se_subscriber e = k"
  by (auto simp: own_event_def toSubscriptionEvent_def split: option.splits if_splits prod.splits)

lemma set_fetched:
  "set (fetched_events D k (filter (\<lambda>r. w \<le> re_ledger r \<and> shown r) evs)) = own_of D k shown w evs"
  by (induction evs) (auto simp: fetched_events_def own_of_def map_filter_simps split: option.splits)

lemma own_of_inj: "inj_on re_id (set evs) \<Longrightarrow> inj_on se_id (own_of D k shown w evs)"
proof (rule inj_onI)
  fix x y
  assume inj: "inj_on re_id (set evs)" and x: "x \<in> own_of D k shown w evs" and y: "y \<in> own_of D k shown w evs"
    and same: "se_id x = se_id y"
  from x obtain r where r: "r \<in> set evs" "own_event D k r = Some x" by (auto simp: own_of_def)
  from y obtain q where q: "q \<in> set evs" "own_event D k q = Some y" by (auto simp: own_of_def)
  have "re_id r = re_id q" using own_event_id [OF r(2)] own_event_id [OF q(2)] same by simp
  then have "r = q" using inj_onD [OF inj] r(1) q(1) by blast
  then show "x = y" using r(2) q(2) by simp
qed

definition feed_ok ::
  "decoders \<Rightarrow> string \<Rightarrow> (RawEventResponse \<Rightarrow> bool) \<Rightarrow> feed \<times> session \<Rightarrow> int \<Rightarrow> int \<Rightarrow> RawEventResponse list \<Rightarrow> bool" where
  "feed_ok D k shown st w latest evs \<longleftrightarrow> \<not> ss_inFlight (snd st) \<and> ss_historyLoaded (snd st) \<and>
     ss_lastLedgerSeen (snd st) = Some latest \<and> 1 \<le> w \<and> w \<le> max 1 (latest - 1) \<and>
     (inj_on re_id (set evs) \<longrightarrow>
        set (fd_events (fst st)) = own_of D k shown w evs \<and>
        sorted (map (\<lambda>e. - se_ledger e) (fd_events (fst st))) \<and>
        distinct (map se_id (fd_events (fst st))))"

lemma loadEvents_done:
  assumes "\<not> ss_inFlight s"
    and "fetch_events R contractId k (ini \<or> \<not> ss_historyLoaded s) (s\<lparr>ss_inFlight := True\<rparr>) = Inr (latest, raws)"
  shows "loadEvents D collate R contractId k ini False (f, s) =
     (f\<lparr>fd_loading := False, fd_error := None,
        fd_events := merge_events collate (ini \<or> \<not> ss_historyLoaded s) (fd_events f) (fetched_events D k raws)\<rparr>,
      s\<lparr>ss_inFlight := False, ss_historyLoaded := True, ss_lastLedgerSeen := Some latest\<rparr>)"
  using assms by (simp add: loadEvents_def begin_load_def finish_load_def Let_def)

lemma first_load_ok:
  assumes "\<not> ss_inFlight s" "\<not> ss_historyLoaded s" and "serves matches R k latest evs"
    and "filters_of matches R contractId k shown" and "fits shown (max 1 (latest - HISTORY_LEDGER_WINDOW)) evs"
  shows "feed_ok D k shown (loadEvents D collate R contractId k ini False (f, s))
     (max 1 (latest - HISTORY_LEDGER_WINDOW)) latest evs"
proof -
  define w where "w = max 1 (latest - HISTORY_LEDGER_WINDOW)"
  have w: "1 \<le> w" "w \<le> max 1 (latest - 1)" by (auto simp: w_def HISTORY_LEDGER_WINDOW_def)
  let ?raws = "filter (\<lambda>r. w \<le> re_ledger r \<and> shown r) evs"
  have "fetch_events R contractId k True (s\<lparr>ss_inFlight := True\<rparr>) = Inr (latest, ?raws)"
    using fetch_served [OF assms(3,4), of True "s\<lparr>ss_inFlight := True\<rparr>"] assms(5)
    by (simp add: start_ledger_def flip: w_def)
  then have load: "loadEvents D collate R contractId k ini False (f, s) =
     (f\<lparr>fd_loading := False, fd_error := None,
        fd_events := merge_events collate True (fd_events f) (fetched_events D k ?raws)\<rparr>,
      s\<lparr>ss_inFlight := False, ss_historyLoaded := True, ss_lastLedgerSeen := Some latest\<rparr>)"
    using loadEvents_done [of s R contractId k ini latest ?raws D collate f] assms(1,2) by simp
  have inj: "inj_on se_id (set (fetched_events D k ?raws) \<union> (if True then {} else set (fd_events f)))"
    if "inj_on re_id (set evs)"
    using own_of_inj [OF that] by (simp add: set_fetched)
  show ?thesis
    unfolding feed_ok_def load w_def [symmetric]
    using merge_events_set [OF inj] w by (simp add: set_fetched)
qed

lemma next_load_ok:
  assumes ok: "feed_ok D k shown (f, s) w latest evs" and grow: "grows latest evs latest' evs'"
    and "serves matches R k latest' evs'" "filters_of matches R contractId k shown"
    and "fits shown (max 1 (latest - 1)) evs'"
  shows "feed_ok D k shown (loadEvents D collate R contractId k False False (f, s)) w latest' evs'"
proof -
  let ?w = "max 1 (latest - 1)"
  let ?raws = "filter (\<lambda>r. ?w \<le> re_ledger r \<and> shown r) evs'"
  have s: "\<not> ss_inFlight s" "ss_historyLoaded s" "ss_lastLedgerSeen s = Some latest" "1 \<le> w" "w \<le> ?w"
    using ok by (simp_all add: feed_ok_def)
  have "fetch_events R contractId k False (s\<lparr>ss_inFlight := True\<rparr>) = Inr (latest', ?raws)"
    using fetch_served [OF assms(3,4), of False "s\<lparr>ss_inFlight := True\<rparr>"] assms(5) s(3)
    by (simp add: start_ledger_def)
  then have load: "loadEvents D collate R contractId k False False (f, s) =
     (f\<lparr>fd_loading := False, fd_error := None,
        fd_events := merge_events collate False (fd_events f) (fetched_events D k ?raws)\<rparr>,
      s\<lparr>ss_inFlight := False, ss_historyLoaded := True, ss_lastLedgerSeen := Some latest'\<rparr>)"
    using loadEvents_done [of s R contractId k False latest' ?raws D collate f] s by simp
  have all: "set (fetched_events D k ?raws) \<union> (if False then {} else set (fd_events f)) = own_of D k shown w evs'"
    if "inj_on re_id (set evs')"
  proof -
    have sub: "set evs \<subseteq> set evs'" using grow by (simp add: grows_def)
    have cur: "set (fd_events f) = own_of D k shown w evs"
      using ok inj_on_subset [OF that sub] by (simp add: feed_ok_def)
    have "own_of D k shown ?w evs' \<union> own_of D k shown w evs = own_of D k shown w evs'"
    proof (intro equalityI subsetI)
      fix e assume "e \<in> own_of D k shown ?w evs' \<union> own_of D k shown w evs"
      then show "e \<in> own_of D k shown w evs'" using s(5) sub unfolding own_of_def by force
    next
      fix e assume "e \<in> own_of D k shown w evs'"
      then obtain r where r: "r \<in> set evs'" "shown r" "w \<le> re_ledger r" "own_event D k r = Some e"
        by (auto simp: own_of_def)
      show "e \<in> own_of D k shown ?w evs' \<union> own_of D k shown w evs"
      proof (cases "?w \<le> re_ledger r")
        case True
        then show ?thesis using r by (auto simp: own_of_def)
      next
        case False
        then have "re_ledger r \<le> latest" using r(3) s(4) by simp
        then have "r \<in> set evs" using r(1) grow by (force simp: grows_def)
        then show ?thesis using r by (auto simp: own_of_def)
      qed
    qed
    then show ?thesis unfolding set_fetched cur by simp
  qed
  have inj: "inj_on se_id (set (fetched_events D k ?raws) \<union> (if False then {} else set (fd_events f)))"
    if "inj_on re_id (set evs')"
    unfolding all [OF that] by (rule own_of_inj [OF that])
  have "w \<le> max 1 (latest' - 1)" using s(5) grow by (auto simp: grows_def)
  then show ?thesis
    unfolding feed_ok_def load
    using merge_events_set [OF inj] all s(4) by simp
qed

lemma failed_load_ok:
  assumes ok: "feed_ok D k shown (f, s) w latest evs" and fail: "isl (fetch_events R contractId k False s)"
  shows "feed_ok D k shown (loadEvents D collate R contractId k False False (f, s)) w latest evs"
proof -
  have s: "\<not> ss_inFlight s" "ss_historyLoaded s" using ok by (simp_all add: feed_ok_def)
  have "fetch_events R contractId k False (s\<lparr>ss_inFlight := True\<rparr>) = fetch_events R contractId k False s"
    by (simp add: fetch_events_def split: sum.split)
  then obtain e where "fetch_events R contractId k False (s\<lparr>ss_inFlight := True\<rparr>) = Inl e"
    using fail by (auto simp: isl_def)
  then show ?thesis using ok s
    by (simp add: loadEvents_def begin_load_def finish_load_def Let_def feed_ok_def)
qed

lemma follows_ok: "follows D collate contractId k shown st w latest evs \<Longrightarrow> feed_ok D k shown st w latest evs"
proof (induction rule: follows.induct)
  case (first_load s matches R latest evs ini f)
  then show ?case by (intro first_load_ok)
next
  case (next_load st w latest evs latest' evs' matches R)
  obtain f s where st: "st = (f, s)" by (cases st)
  show ?case unfolding st
    by (rule next_load_ok [of D k shown f s w latest evs]) (use next_load in \<open>simp_all add: st\<close>)
next
  case (failed_load st w latest evs R)
  obtain f s where st: "st = (f, s)" by (cases st)
  show ?case unfolding st by (rule failed_load_ok) (use failed_load in \<open>simp_all add: st\<close>)
qed

text \<open>For a server that answers with the events that satisfy some predicate \<open>shown\<close> of its own reading of the filters: while an
  account is followed, whichever loads fail, the feed shows exactly those events of the account since the start of the window of
  the first load, none missed and none twice, newest ledger first. It needs answers that the page limit of 1000 does not cut, and
  says nothing for a server that matches whole topic lists, where the predicate holds of no event that the contract publishes
  (lemma \<open>whole_topics_show_nothing\<close> below).\<close>

theorem feed_shows_exactly:
  assumes "follows D collate contractId publicKey shown st w latest evs" and "inj_on re_id (set evs)"
  shows "set (fd_events (fst st)) = own_of D publicKey shown w evs
     \<and> sorted (map (\<lambda>e. - se_ledger e) (fd_events (fst st)))
     \<and> distinct (map se_id (fd_events (fst st)))"
  using follows_ok [OF assms(1)] assms(2) by (simp add: feed_ok_def)

definition demo_raw :: "string \<Rightarrow> int \<Rightarrow> RawEventResponse" where
  "demo_raw i l = \<lparr>rw_topic = Some [''executed'', ''AGS'', ''AGM'', ''ACT''], rw_value = ''V'',
     re_id = i, re_ledger = l, re_ledgerClosedAt = None, re_txHash = None\<rparr>"

definition demo_decoders :: decoders where
  "demo_decoders = (demo_dec (NArray [NBigint 500, NNumber 3]), \<lambda>_. NotWhole ''NaN'')"

definition demo_replies :: "int \<Rightarrow> RawEventResponse list \<Rightarrow> rpc_replies" where
  "demo_replies latest evs = \<lparr>rr_latest = Inr latest, rr_addressTopic = (\<lambda>k. Inr k), rr_symbolTopic = (\<lambda>s. s),
     rr_events = (\<lambda>q. Inr (take (er_limit q) (filter (\<lambda>r. er_startLedger q \<le> re_ledger r \<and> True) evs)))\<rparr>"

definition demo_feed :: feed where
  "demo_feed = \<lparr>fd_events = [], fd_loading = False, fd_error = None, fd_previousKey = Some ''GS''\<rparr>"

lemma demo_served:
  "serves (\<lambda>_ _. True) (demo_replies latest evs) k latest evs"
  "filters_of (\<lambda>_ _. True) (demo_replies latest evs) c k (\<lambda>_. True)"
  by (simp_all add: serves_def demo_replies_def filters_of_def)

lemma demo_fits: "length evs \<le> 1000 \<Longrightarrow> fits (\<lambda>_. True) w evs"
  unfolding fits_def PAGE_LIMIT_def by (rule le_trans [OF length_filter_le])

theorem feed_shows_exactly_witness:
  "\<exists>st. follows demo_decoders (\<lambda>_. 0) ''C'' ''GS'' (\<lambda>_. True) st 1 6 [demo_raw ''a'' 5, demo_raw ''b'' 6]
     \<and> se_id ` set (fd_events (fst st)) = {''a'', ''b''}"
proof -
  let ?D = demo_decoders and ?a = "demo_raw ''a'' 5" and ?b = "demo_raw ''b'' 6"
  let ?st1 = "loadEvents ?D (\<lambda>_. 0) (demo_replies 5 [?a]) ''C'' ''GS'' True False (demo_feed, new_session)"
  let ?st2 = "loadEvents ?D (\<lambda>_. 0) (demo_replies 6 [?a, ?b]) ''C'' ''GS'' False False ?st1"
  have "follows ?D (\<lambda>_. 0) ''C'' ''GS'' (\<lambda>_. True) ?st1 (max 1 (5 - HISTORY_LEDGER_WINDOW)) 5 [?a]"
    by (rule first_load [OF _ _ demo_served]) (simp_all add: new_session_def demo_fits)
  then have one: "follows ?D (\<lambda>_. 0) ''C'' ''GS'' (\<lambda>_. True) ?st1 1 5 [?a]"
    by (simp add: HISTORY_LEDGER_WINDOW_def)
  have two: "follows ?D (\<lambda>_. 0) ''C'' ''GS'' (\<lambda>_. True) ?st2 1 6 [?a, ?b]"
    by (rule next_load [OF one _ demo_served]) (simp_all add: grows_def demo_fits demo_raw_def)
  have inj: "inj_on re_id (set [?a, ?b])" by (simp add: demo_raw_def)
  have "map_option se_id (own_event ?D ''GS'' ?a) = Some ''a''" "map_option se_id (own_event ?D ''GS'' ?b) = Some ''b''"
    by code_simp+
  then obtain x y where xy: "own_event ?D ''GS'' ?a = Some x" "se_id x = ''a''" "own_event ?D ''GS'' ?b = Some y" "se_id y = ''b''"
    by auto
  have l: "re_ledger ?a = 5" "re_ledger ?b = 6" by (simp_all add: demo_raw_def)
  have "own_of ?D ''GS'' (\<lambda>_. True) 1 [?a, ?b] = {x, y}"
    using xy l by (auto simp: own_of_def)
  then have "se_id ` own_of ?D ''GS'' (\<lambda>_. True) 1 [?a, ?b] = {''a'', ''b''}" using xy by simp
  then have "se_id ` set (fd_events (fst ?st2)) = {''a'', ''b''}"
    using feed_shows_exactly [OF two inj] by simp
  with two show ?thesis by blast
qed

text \<open>Events whose topics are only the type and the subscriber are never shown: an answer of the server to
  a filter with these two segments stays empty, if it matches whole topic lists.\<close>

lemma two_parties_short: "length ts \<le> 2 \<Longrightarrow> two_parties dec ts = None"
  by (auto simp: two_parties_def topic_at_def toAddress_def split: native.splits option.splits)

lemma decode_body_short:
  "length ts \<le> 2 \<Longrightarrow> decode_body dec num ty ts v = Some d \<Longrightarrow> activity d = None"
  by (auto simp: decode_body_def Let_def two_parties_short three_parties_def
      split: if_splits option.splits)

lemma two_topics_show_nothing:
  assumes "\<And>r. r \<in> set raws \<Longrightarrow> length (the (rw_topic r)) \<le> 2"
  shows "fetched_events D k raws = []"
proof -
  have "own_event D k r = None" if "r \<in> set raws" for r
    using decode_body_short [OF assms [OF that]]
    by (fastforce simp: own_event_def decodeContractEvent_def split: option.splits list.splits native.splits)
  then show ?thesis by (simp add: fetched_events_def List.map_filter_def filter_empty_conv)
qed

text \<open>The documented matching of the RPC: a topic filter matches an event with as many topics as it has segments, each equal to
  the segment or under a \<^verbatim>\<open>*\<close>. A load from a server that matches in this way adds nothing to the feed.\<close>

definition segments_match :: "string list \<Rightarrow> string list \<Rightarrow> bool" where
  "segments_match segs ts \<longleftrightarrow> list_all2 (\<lambda>g t. g = ''*'' \<or> g = t) segs ts"

definition matches_whole_topics :: "rpc_replies \<Rightarrow> bool" where
  "matches_whole_topics R \<longleftrightarrow> (\<forall>q raws r. rr_events R q = Inr raws \<longrightarrow> r \<in> set raws \<longrightarrow>
     (\<exists>(a, b) \<in> set (er_topics q). segments_match [a, b] (the (rw_topic r))))"

lemma whole_topics_show_nothing:
  assumes "matches_whole_topics R"
  shows "set (fd_events (fst (finish_load D collate R contractId k ini cancelled (f, s)))) \<subseteq> set (fd_events f)"
proof -
  have none: "fetched_events D k raws = []" if "rr_events R q = Inr raws" for q raws
  proof (rule two_topics_show_nothing)
    fix r assume "r \<in> set raws"
    then obtain a b where "segments_match [a, b] (the (rw_topic r))"
      using assms \<open>rr_events R q = Inr raws\<close> unfolding matches_whole_topics_def by fast
    then have "length (the (rw_topic r)) = length [a, b]" unfolding segments_match_def by (metis list_all2_lengthD)
    then show "length (the (rw_topic r)) \<le> 2" by simp
  qed
  have "fetched_events D k raws = []" if "fetch_events R contractId k b s = Inr (latest, raws)" for b latest raws
    using that none by (auto simp: fetch_events_def split: sum.splits)
  then show ?thesis
    using set_merge_subset [of collate _ "fd_events f" "[]"] by (auto simp: finish_load_def Let_def split: sum.splits)
qed

text \<open>The older decoder reads the data of an executed payment as one amount, but the contract publishes an
  amount and a number: every payment of the contract is dropped.\<close>

lemma radix_val_bad: "c \<in> set cs \<Longrightarrow> hex_digit c = None \<Longrightarrow> radix_val b a cs = None"
  by (induction cs arbitrary: a) (auto split: option.splits)

lemma big_int_comma: "CHR '','' \<in> set (js_trim s) \<Longrightarrow> big_int s = None"
proof -
  assume c: "CHR '','' \<in> set (js_trim s)"
  have h: "hex_digit (CHR '','') = None" by (simp add: hex_digit_def)
  obtain x cs where s: "js_trim s = x # cs" using c by (cases "js_trim s") auto
  have dec: "decimal_val (x # cs) = None"
    using radix_val_bad [OF c h, of 10 0] unfolding decimal_val_def s by simp
  have tl: "decimal_val cs = None" if "x = CHR ''-'' \<or> x = CHR ''+''"
    using c h that by (auto simp: decimal_val_def s radix_val_bad)
  have "radix_val b 0 ds = None" if "radix_prefix (x # cs) = Some (b, ds)" for b ds
  proof -
    have "CHR '','' \<in> set ds" using that c
      by (auto simp: radix_prefix_def s split: list.splits if_splits)
    then show ?thesis using h by (rule radix_val_bad)
  qed
  then show ?thesis using dec tl by (auto simp: big_int_def s Let_def split: option.splits)
qed

lemma js_trim_nospace: "list_all (\<lambda>c. \<not> is_space c) s \<Longrightarrow> js_trim s = s"
  by (metis (no_types, lifting) dropWhile_eq_self_iff hd_in_set js_trim_def list_all_iff rev_rev_ident set_rev)

lemma history_drops_contract_payments:
  assumes "codec_on dec enc (emit_executed s m t a n)"
    and "rw_topic raw = Some (map enc (fst (published (emit_executed s m t a n))))"
    and "rw_value raw = enc (snd (published (emit_executed s m t a n)))"
  shows "decodeExecutedEvent dec raw = None"
proof -
  have nosp: "\<not> is_space c" if "c \<in> set (int_str i)" for c i
    using that nat_str_digits digit_not_special(1) by (auto simp: int_str_def is_space_def split: if_splits)
  have "list_all (\<lambda>c. \<not> is_space c) (int_str a @ '','' @ int_str n)"
    using nosp by (auto simp: list_all_iff is_space_def)
  then have "js_trim (int_str a @ '','' @ int_str n) = int_str a @ '','' @ int_str n" by (rule js_trim_nospace)
  then have "big_int (int_str a @ '','' @ int_str n) = None" by (intro big_int_comma) simp
  moreover have "dec (rw_value raw) = Some (NArray [NBigint a, NNumber n])"
    using assms(1) unfolding assms(3) by (simp add: codec_on_def)
  ultimately show ?thesis using assms(2) by (auto simp: decodeExecutedEvent_def)
qed

section \<open>Accounts are kept apart\<close>

text \<open>The component over time: renders with any account (a refresh renders with the same one) and loads,
  with any answers of the server, of the current run of the effect; a load of an earlier run ends as
  cancelled.\<close>

inductive hook_step :: "decoders \<Rightarrow> (string \<Rightarrow> int) \<Rightarrow> feed \<times> session option \<Rightarrow> feed \<times> session option \<Rightarrow> bool"
  for D collate where
  rendered: "hook_step D collate (f, so) (start_effect key contractId f)"
| loaded: "hook_step D collate (f, Some s) (map_prod id Some (loadEvents D collate R contractId k ini cancelled (f, s)))"
    if "fd_previousKey f = Some k"
| stale: "hook_step D collate (f, so) (fst (finish_load D collate R contractId k ini True (f, s)), so)"

definition mounted :: "feed \<times> session option \<Rightarrow> bool" where
  "mounted h \<longleftrightarrow> fd_events (fst h) = [] \<and> snd h = None"

definition private_feed :: "feed \<times> session option \<Rightarrow> bool" where
  "private_feed h \<longleftrightarrow> (\<forall>e \<in> set (fd_events (fst h)). fd_previousKey (fst h) = Some (se_subscriber e))"

lemma fetched_own: "e \<in> set (fetched_events D k raws) \<Longrightarrow> se_subscriber e = k"
  by (induction raws) (auto simp: fetched_events_def map_filter_simps dest: own_event_id split: option.splits)

lemma load_private:
  assumes "private_feed (f, Some s)" and "fd_previousKey f = Some k"
  shows "private_feed (map_prod id Some (loadEvents D collate R contractId k ini cancelled (f, s)))"
proof -
  have new: "fd_previousKey f = Some (se_subscriber e)"
    if "e \<in> set (merge_events collate repl (fd_events f) (fetched_events D k raws))" for e repl raws
    using that set_merge_subset [of collate repl "fd_events f" "fetched_events D k raws"] assms fetched_own [of e D k raws]
    by (auto simp: private_feed_def)
  show ?thesis using assms new
    by (auto simp: private_feed_def loadEvents_def begin_load_def finish_load_def Let_def split: sum.splits)
qed

interpretation feed_hook: inv_system mounted "hook_step D collate" private_feed for D collate
proof
  show "private_feed h" if "mounted h" for h using that by (simp add: mounted_def private_feed_def)
  show "private_feed t" if "hook_step D collate h t" "private_feed h" for h t
    using that
  proof (induction rule: hook_step.induct)
    case (rendered f so key contractId)
    then show ?case
      by (auto simp: private_feed_def start_effect_def Let_def split: option.splits)
  next
    case (loaded f k s R contractId ini cancelled)
    then show ?case by (intro load_private)
  next
    case (stale f so R contractId k ini s)
    then show ?case by (auto simp: private_feed_def finish_load_def Let_def split: sum.splits)
  qed
qed

text \<open>C33: The feed never mixes accounts. Whatever accounts are connected one after the other, whatever the server answers (events
  of other accounts included), whichever loads fail, and whichever loads that were started for an earlier account end late, every
  event in the feed is an event whose subscriber is the account that is connected.\<close>

theorem feed_private:
  assumes "reach mounted (hook_step D collate) h" and "e \<in> set (fd_events (fst h))"
  shows "fd_previousKey (fst h) = Some (se_subscriber e)"
  using feed_hook.reach_invar [OF assms(1)] assms(2) by (simp add: private_feed_def)

theorem feed_private_witness:
  "\<exists>h e. reach mounted (hook_step demo_decoders (\<lambda>_. 0)) h \<and> e \<in> set (fd_events (fst h))
     \<and> fd_previousKey (fst h) = Some (se_subscriber e)"
proof -
  let ?s = "hook_step demo_decoders (\<lambda>_. 0)"
  let ?h = "map_prod id Some (loadEvents demo_decoders (\<lambda>_. 0) (demo_replies 5 [demo_raw ''a'' 5]) ''C'' ''GS'' True False (demo_feed, new_session))"
  have "reach mounted ?s (demo_feed, None)" by (rule reach_init) (simp add: mounted_def demo_feed_def)
  then have "reach mounted ?s (start_effect (Some ''GS'') ''C'' demo_feed)" by (rule reach_step) (rule rendered)
  moreover have "start_effect (Some ''GS'') ''C'' demo_feed = (demo_feed, Some new_session)"
    by (simp add: start_effect_def demo_feed_def)
  ultimately have "reach mounted ?s (demo_feed, Some new_session)" by simp
  then have r: "reach mounted ?s ?h" by (rule reach_step) (rule loaded, simp add: demo_feed_def)
  have "length (fd_events (fst ?h)) = 1" by code_simp
  then obtain e where e: "e \<in> set (fd_events (fst ?h))" by (cases "fd_events (fst ?h)") auto
  from r e feed_private [OF r e] show ?thesis by blast
qed

end
