(* ===== verification/Preferences.thy ===== *)
theory Preferences
  imports Json
begin

text \<open>
  The versioned preferences of the front end, \<^verbatim>\<open>frontend/src/lib/preference_storage.ts\<close>: the data, the
  guard against sensitive keys, migration, merging with the defaults, and loading, saving, clearing and
  updating against \<^verbatim>\<open>localStorage\<close>. The browser is given by \<open>browser\<close>: whether there is a window, whether
  storage can be read and written, and the JSON codec (\<open>None\<close> is a \<^verbatim>\<open>SyntaxError\<close>). Numbers are whole.
\<close>

section \<open>Data\<close>

datatype Theme = Light | Dark | System
datatype SortDirection = Asc | Desc

record TableSettings =
  ts_columnVisibility :: "(string \<times> json) list"
  ts_pageSize :: int
  ts_sortColumn :: "string option"
  ts_sortDirection :: SortDirection

record OnboardingData =
  ob_completed :: bool
  ob_lastStep :: int
  ob_startedAt :: "string option"
  ob_completedAt :: "string option"

record PreferenceData =
  pd_schemaVersion :: int
  pd_theme :: Theme
  pd_locale :: string
  pd_tableSettings :: TableSettings
  pd_onboarding :: OnboardingData

definition PREFERENCES_STORAGE_KEY :: string where "PREFERENCES_STORAGE_KEY = ''sorobanpay_preferences''"
definition CURRENT_SCHEMA_VERSION :: int where "CURRENT_SCHEMA_VERSION = 2"

definition DEFAULT_TABLE_SETTINGS :: TableSettings where
  "DEFAULT_TABLE_SETTINGS = \<lparr>ts_columnVisibility = [], ts_pageSize = 10, ts_sortColumn = None,
     ts_sortDirection = Asc\<rparr>"

definition DEFAULT_ONBOARDING :: OnboardingData where
  "DEFAULT_ONBOARDING = \<lparr>ob_completed = False, ob_lastStep = 0, ob_startedAt = None, ob_completedAt = None\<rparr>"

definition DEFAULT_PREFERENCES :: PreferenceData where
  "DEFAULT_PREFERENCES = \<lparr>pd_schemaVersion = CURRENT_SCHEMA_VERSION, pd_theme = System, pd_locale = ''en'',
     pd_tableSettings = DEFAULT_TABLE_SETTINGS, pd_onboarding = DEFAULT_ONBOARDING\<rparr>"

text \<open>The same data as the object that JavaScript handles.\<close>

fun theme_text :: "Theme \<Rightarrow> string" where
  "theme_text Light = ''light''" | "theme_text Dark = ''dark''" | "theme_text System = ''system''"

fun direction_text :: "SortDirection \<Rightarrow> string" where
  "direction_text Asc = ''asc''" | "direction_text Desc = ''desc''"

definition text_or_null :: "string option \<Rightarrow> json" where
  "text_or_null t = (case t of None \<Rightarrow> JNull | Some s \<Rightarrow> JStr s)"

definition table_json :: "TableSettings \<Rightarrow> json" where
  "table_json t = JObj [(''columnVisibility'', JObj (ts_columnVisibility t)), (''pageSize'', JNum (ts_pageSize t)),
     (''sortColumn'', text_or_null (ts_sortColumn t)), (''sortDirection'', JStr (direction_text (ts_sortDirection t)))]"

definition onboarding_json :: "OnboardingData \<Rightarrow> json" where
  "onboarding_json o1 = JObj [(''completed'', JBool (ob_completed o1)), (''lastStep'', JNum (ob_lastStep o1)),
     (''startedAt'', text_or_null (ob_startedAt o1)), (''completedAt'', text_or_null (ob_completedAt o1))]"

definition prefs_object :: "PreferenceData \<Rightarrow> (string \<times> json) list" where
  "prefs_object d = [(''schemaVersion'', JNum (pd_schemaVersion d)), (''theme'', JStr (theme_text (pd_theme d))),
     (''locale'', JStr (pd_locale d)), (''tableSettings'', table_json (pd_tableSettings d)),
     (''onboarding'', onboarding_json (pd_onboarding d))]"

section \<open>Sensitive keys\<close>

definition SENSITIVE_WORDS :: "string list" where
  "SENSITIVE_WORDS = [''mnemonic'', ''privatekey'', ''seed'', ''secret'', ''password'', ''token'', ''auth'', ''credential'']"

definition sensitive :: "string \<Rightarrow> bool" where
  "sensitive k = list_ex (js_includes (js_lower k)) SENSITIVE_WORDS"

definition stripSensitiveKeys :: "(string \<times> json) list \<Rightarrow> (string \<times> json) list" where
  "stripSensitiveKeys kvs = filter (\<lambda>(k, v). \<not> sensitive k) kvs"

section \<open>Merging and migration\<close>

definition read_theme :: "json option \<Rightarrow> Theme option" where
  "read_theme v = (case v of
       Some (JStr s) \<Rightarrow> if s = ''light'' then Some Light else if s = ''dark'' then Some Dark
         else if s = ''system'' then Some System else None
     | _ \<Rightarrow> None)"

definition read_text :: "json option \<Rightarrow> string option" where
  "read_text v = (case v of Some (JStr s) \<Rightarrow> Some s | _ \<Rightarrow> None)"

definition merge_table :: "json option \<Rightarrow> TableSettings" where
  "merge_table raw = \<lparr>
     ts_columnVisibility = (case jget raw ''columnVisibility'' of Some (JObj kvs) \<Rightarrow> kvs | _ \<Rightarrow> []),
     ts_pageSize = (case jget raw ''pageSize'' of
         Some (JNum n) \<Rightarrow> if 0 < n then n else ts_pageSize DEFAULT_TABLE_SETTINGS
       | _ \<Rightarrow> ts_pageSize DEFAULT_TABLE_SETTINGS),
     ts_sortColumn = read_text (jget raw ''sortColumn''),
     ts_sortDirection = (if read_text (jget raw ''sortDirection'') = Some ''desc'' then Desc else Asc)\<rparr>"

definition merge_onboarding :: "json option \<Rightarrow> OnboardingData" where
  "merge_onboarding raw = \<lparr>
     ob_completed = (case jget raw ''completed'' of Some (JBool b) \<Rightarrow> b | _ \<Rightarrow> False),
     ob_lastStep = (case jget raw ''lastStep'' of Some (JNum n) \<Rightarrow> if 0 \<le> n then n else 0 | _ \<Rightarrow> 0),
     ob_startedAt = read_text (jget raw ''startedAt''),
     ob_completedAt = read_text (jget raw ''completedAt'')\<rparr>"

definition merge :: "(string \<times> json) list \<Rightarrow> PreferenceData" where
  "merge raw = \<lparr>
     pd_schemaVersion = CURRENT_SCHEMA_VERSION,
     pd_theme = (case read_theme (map_of raw ''theme'') of Some t \<Rightarrow> t | None \<Rightarrow> pd_theme DEFAULT_PREFERENCES),
     pd_locale = (case map_of raw ''locale'' of
         Some (JStr s) \<Rightarrow> if js_trim s \<noteq> '''' then s else pd_locale DEFAULT_PREFERENCES
       | _ \<Rightarrow> pd_locale DEFAULT_PREFERENCES),
     pd_tableSettings = merge_table (coalesce (map_of raw ''tableSettings'') (Some (JObj []))),
     pd_onboarding = merge_onboarding (coalesce (map_of raw ''onboarding'') (Some (JObj [])))\<rparr>"

text \<open>\<^verbatim>\<open>a ?? b\<close> for a field with a default.\<close>

definition or_else :: "json option \<Rightarrow> json \<Rightarrow> json" where
  "or_else v d = the (coalesce v (Some d))"

definition migrate_v0 :: "(string \<times> json) list \<Rightarrow> (string \<times> json) list" where
  "migrate_v0 raw = AList.update ''schemaVersion'' (JNum 1)
     (AList.update ''locale'' (or_else (map_of raw ''locale'') (JStr (pd_locale DEFAULT_PREFERENCES)))
     (AList.update ''theme'' (or_else (map_of raw ''theme'') (JStr (theme_text (pd_theme DEFAULT_PREFERENCES))))
       (prefs_object DEFAULT_PREFERENCES)))"

definition migrate_table :: "json option \<Rightarrow> json" where
  "migrate_table old = JObj [(''columnVisibility'', or_else (jget old ''columnVisibility'') (JObj [])),
     (''pageSize'', or_else (jget old ''pageSize'') (JNum (ts_pageSize DEFAULT_TABLE_SETTINGS))),
     (''sortColumn'', or_else (jget old ''sortColumn'') JNull),
     (''sortDirection'', or_else (jget old ''sortDirection'') (JStr ''asc''))]"

definition migrate_onboarding :: "json option \<Rightarrow> json" where
  "migrate_onboarding old = JObj [(''completed'', or_else (jget old ''completed'') (JBool False)),
     (''lastStep'', or_else (jget old ''lastStep'') (JNum 0)),
     (''startedAt'', or_else (jget old ''startedAt'') JNull),
     (''completedAt'', or_else (jget old ''completedAt'') JNull)]"

definition migrate_v1 :: "(string \<times> json) list \<Rightarrow> (string \<times> json) list" where
  "migrate_v1 raw = AList.update ''schemaVersion'' (JNum 2)
     (AList.update ''onboarding'' (migrate_onboarding (coalesce (map_of raw ''onboarding'') (Some (JObj []))))
     (AList.update ''tableSettings'' (migrate_table (coalesce (map_of raw ''tableSettings'') (Some (JObj [])))) raw))"

definition schema_version :: "(string \<times> json) list \<Rightarrow> int" where
  "schema_version raw = (case json_number (map_of raw ''schemaVersion'') of Some n \<Rightarrow> n | None \<Rightarrow> 0)"

definition migrate :: "(string \<times> json) list \<Rightarrow> PreferenceData" where
  "migrate raw0 = (let version0 = schema_version raw0;
       raw1 = (if version0 < 1 then migrate_v0 raw0 else raw0);
       version1 = (if version0 < 1 then 1 else version0);
       raw2 = (if version1 < 2 then migrate_v1 raw1 else raw1)
     in merge raw2)"

section \<open>Storage\<close>

record browser =
  br_window :: bool
  br_readable :: bool
  br_writable :: bool
  br_parse :: "string \<Rightarrow> json option"
  br_stringify :: "json \<Rightarrow> string"

type_synonym local_storage = "string \<rightharpoonup> string"

definition loadPreferences :: "browser \<Rightarrow> local_storage \<Rightarrow> PreferenceData" where
  "loadPreferences B ls =
     (if \<not> br_window B \<or> \<not> br_readable B then DEFAULT_PREFERENCES
      else case ls PREFERENCES_STORAGE_KEY of
          None \<Rightarrow> DEFAULT_PREFERENCES
        | Some raw \<Rightarrow>
            if raw = '''' then DEFAULT_PREFERENCES
            else (case br_parse B raw of
                Some (JObj kvs) \<Rightarrow> migrate (stripSensitiveKeys kvs)
              | _ \<Rightarrow> DEFAULT_PREFERENCES))"

definition savePreferences :: "browser \<Rightarrow> PreferenceData \<Rightarrow> local_storage \<Rightarrow> local_storage" where
  "savePreferences B d ls =
     (if \<not> br_window B \<or> \<not> br_writable B then ls
      else ls(PREFERENCES_STORAGE_KEY \<mapsto> br_stringify B (JObj (stripSensitiveKeys (prefs_object d)))))"

definition clearPreferences :: "browser \<Rightarrow> local_storage \<Rightarrow> local_storage" where
  "clearPreferences B ls =
     (if \<not> br_window B \<or> \<not> br_writable B then ls else ls(PREFERENCES_STORAGE_KEY := None))"

text \<open>A patch gives some of the fields; the nested ones are merged field by field. A field that is given as
  \<^verbatim>\<open>undefined\<close>, which would overwrite the current value, has no counterpart.\<close>

record table_patch =
  tp_columnVisibility :: "(string \<times> json) list option"
  tp_pageSize :: "int option"
  tp_sortColumn :: "string option option"
  tp_sortDirection :: "SortDirection option"

record onboarding_patch =
  op_completed :: "bool option"
  op_lastStep :: "int option"
  op_startedAt :: "string option option"
  op_completedAt :: "string option option"

record prefs_patch =
  pp_theme :: "Theme option"
  pp_locale :: "string option"
  pp_tableSettings :: "table_patch option"
  pp_onboarding :: "onboarding_patch option"

definition patched :: "'a option \<Rightarrow> 'a \<Rightarrow> 'a" where
  "patched p v = (case p of None \<Rightarrow> v | Some x \<Rightarrow> x)"

definition patch_table :: "table_patch option \<Rightarrow> TableSettings \<Rightarrow> TableSettings" where
  "patch_table p t = (case p of None \<Rightarrow> t | Some q \<Rightarrow> \<lparr>
     ts_columnVisibility = patched (tp_columnVisibility q) (ts_columnVisibility t),
     ts_pageSize = patched (tp_pageSize q) (ts_pageSize t),
     ts_sortColumn = patched (tp_sortColumn q) (ts_sortColumn t),
     ts_sortDirection = patched (tp_sortDirection q) (ts_sortDirection t)\<rparr>)"

definition patch_onboarding :: "onboarding_patch option \<Rightarrow> OnboardingData \<Rightarrow> OnboardingData" where
  "patch_onboarding p o1 = (case p of None \<Rightarrow> o1 | Some q \<Rightarrow> \<lparr>
     ob_completed = patched (op_completed q) (ob_completed o1),
     ob_lastStep = patched (op_lastStep q) (ob_lastStep o1),
     ob_startedAt = patched (op_startedAt q) (ob_startedAt o1),
     ob_completedAt = patched (op_completedAt q) (ob_completedAt o1)\<rparr>)"

definition patch_prefs :: "prefs_patch \<Rightarrow> PreferenceData \<Rightarrow> PreferenceData" where
  "patch_prefs p d = \<lparr>pd_schemaVersion = CURRENT_SCHEMA_VERSION,
     pd_theme = patched (pp_theme p) (pd_theme d), pd_locale = patched (pp_locale p) (pd_locale d),
     pd_tableSettings = patch_table (pp_tableSettings p) (pd_tableSettings d),
     pd_onboarding = patch_onboarding (pp_onboarding p) (pd_onboarding d)\<rparr>"

definition updatePreferences :: "browser \<Rightarrow> prefs_patch \<Rightarrow> local_storage \<Rightarrow> PreferenceData \<times> local_storage" where
  "updatePreferences B p ls = (let updated = patch_prefs p (loadPreferences B ls)
     in (updated, savePreferences B updated ls))"

section \<open>What is loaded is well-formed\<close>

definition prefs_ok :: "PreferenceData \<Rightarrow> bool" where
  "prefs_ok d \<longleftrightarrow> pd_schemaVersion d = CURRENT_SCHEMA_VERSION \<and> js_trim (pd_locale d) \<noteq> '''' \<and>
     0 < ts_pageSize (pd_tableSettings d) \<and> 0 \<le> ob_lastStep (pd_onboarding d)"

lemma trim_en: "js_trim ''en'' = ''en''" by code_simp

lemma merge_ok: "prefs_ok (merge raw)"
  by (auto simp: prefs_ok_def merge_def merge_table_def merge_onboarding_def DEFAULT_PREFERENCES_def trim_en
      DEFAULT_TABLE_SETTINGS_def split: option.split json.split)

lemma default_ok: "prefs_ok DEFAULT_PREFERENCES"
  by (simp add: prefs_ok_def DEFAULT_PREFERENCES_def DEFAULT_TABLE_SETTINGS_def DEFAULT_ONBOARDING_def trim_en)

lemma load_ok: "prefs_ok (loadPreferences B ls)"
  by (auto simp: loadPreferences_def default_ok migrate_def Let_def merge_ok split: option.split json.split)

definition patch_ok :: "prefs_patch \<Rightarrow> bool" where
  "patch_ok p \<longleftrightarrow> (case pp_locale p of None \<Rightarrow> True | Some l \<Rightarrow> js_trim l \<noteq> '''') \<and>
     (case pp_tableSettings p of None \<Rightarrow> True | Some t \<Rightarrow>
        (case tp_pageSize t of None \<Rightarrow> True | Some n \<Rightarrow> 0 < n)) \<and>
     (case pp_onboarding p of None \<Rightarrow> True | Some q \<Rightarrow>
        (case op_lastStep q of None \<Rightarrow> True | Some n \<Rightarrow> 0 \<le> n))"

lemma patch_prefs_ok: "patch_ok p \<Longrightarrow> prefs_ok d \<Longrightarrow> prefs_ok (patch_prefs p d)"
  by (auto simp: patch_ok_def prefs_ok_def patch_prefs_def patch_table_def patch_onboarding_def patched_def
      split: option.splits)

section \<open>Saving and loading\<close>

lemma sensitive_names:
  "\<not> sensitive ''schemaVersion''" "\<not> sensitive ''theme''" "\<not> sensitive ''locale''"
  "\<not> sensitive ''tableSettings''" "\<not> sensitive ''onboarding''"
  by code_simp+

lemma strip_prefs: "stripSensitiveKeys (prefs_object d) = prefs_object d"
  by (simp add: stripSensitiveKeys_def prefs_object_def sensitive_names)

lemma prefs_fields:
  "map_of (prefs_object d) ''schemaVersion'' = Some (JNum (pd_schemaVersion d))"
  "map_of (prefs_object d) ''theme'' = Some (JStr (theme_text (pd_theme d)))"
  "map_of (prefs_object d) ''locale'' = Some (JStr (pd_locale d))"
  "map_of (prefs_object d) ''tableSettings'' = Some (table_json (pd_tableSettings d))"
  "map_of (prefs_object d) ''onboarding'' = Some (onboarding_json (pd_onboarding d))"
  by (simp_all add: prefs_object_def)

lemma read_theme_text: "read_theme (Some (JStr (theme_text t))) = Some t"
  by (cases t) (simp_all add: read_theme_def)

lemma read_text_or_null: "read_text (Some (text_or_null t)) = t"
  by (cases t) (simp_all add: read_text_def text_or_null_def)

lemma table_fields:
  "jget (Some (table_json t)) ''columnVisibility'' = Some (JObj (ts_columnVisibility t))"
  "jget (Some (table_json t)) ''pageSize'' = Some (JNum (ts_pageSize t))"
  "jget (Some (table_json t)) ''sortColumn'' = Some (text_or_null (ts_sortColumn t))"
  "jget (Some (table_json t)) ''sortDirection'' = Some (JStr (direction_text (ts_sortDirection t)))"
  by (simp_all add: jget_def table_json_def)

lemma onboarding_fields:
  "jget (Some (onboarding_json t)) ''completed'' = Some (JBool (ob_completed t))"
  "jget (Some (onboarding_json t)) ''lastStep'' = Some (JNum (ob_lastStep t))"
  "jget (Some (onboarding_json t)) ''startedAt'' = Some (text_or_null (ob_startedAt t))"
  "jget (Some (onboarding_json t)) ''completedAt'' = Some (text_or_null (ob_completedAt t))"
  by (simp_all add: jget_def onboarding_json_def)

lemma merge_table_json: "0 < ts_pageSize t \<Longrightarrow> merge_table (Some (table_json t)) = t"
  by (cases "ts_sortDirection t")
    (simp_all add: merge_table_def table_fields read_text_or_null, simp_all add: read_text_def)

lemma merge_onboarding_json: "0 \<le> ob_lastStep t \<Longrightarrow> merge_onboarding (Some (onboarding_json t)) = t"
  by (simp add: merge_onboarding_def onboarding_fields read_text_or_null)

lemma coalesce_object:
  "coalesce (Some (table_json t)) x = Some (table_json t)"
  "coalesce (Some (onboarding_json b)) x = Some (onboarding_json b)"
  by (simp_all add: coalesce_def table_json_def onboarding_json_def)

lemma merge_prefs: "prefs_ok d \<Longrightarrow> merge (prefs_object d) = d"
  by (simp add: merge_def prefs_fields read_theme_text coalesce_object merge_table_json merge_onboarding_json
      prefs_ok_def)

lemma migrate_prefs: "prefs_ok d \<Longrightarrow> migrate (prefs_object d) = d"
proof -
  assume ok: "prefs_ok d"
  then have "schema_version (prefs_object d) = 2"
    by (simp add: schema_version_def prefs_fields json_number_def prefs_ok_def CURRENT_SCHEMA_VERSION_def)
  then show ?thesis using merge_prefs [OF ok] by (simp add: migrate_def)
qed

text \<open>The codec gives back an object that it printed.\<close>

definition prints :: "browser \<Rightarrow> (string \<times> json) list \<Rightarrow> bool" where
  "prints B kvs \<longleftrightarrow> br_parse B (br_stringify B (JObj kvs)) = Some (JObj kvs) \<and> br_stringify B (JObj kvs) \<noteq> ''''"

definition usable :: "browser \<Rightarrow> bool" where
  "usable B \<longleftrightarrow> br_window B \<and> br_readable B \<and> br_writable B"

lemma load_after_save:
  "usable B \<Longrightarrow> prints B (prefs_object d) \<Longrightarrow> prefs_ok d \<Longrightarrow> loadPreferences B (savePreferences B d ls) = d"
  by (simp add: usable_def prints_def loadPreferences_def savePreferences_def strip_prefs migrate_prefs)

subsection \<open>Sequences of updates\<close>

fun update_all :: "browser \<Rightarrow> prefs_patch list \<Rightarrow> local_storage \<Rightarrow> PreferenceData list \<times> local_storage" where
  "update_all B [] ls = ([], ls)"
| "update_all B (p # ps) ls = (let (d, ls1) = updatePreferences B p ls; (ds, ls2) = update_all B ps ls1 in (d # ds, ls2))"

text \<open>The value of a field after a sequence of patches: the one that was given last, or else the old one.\<close>

definition last_given :: "(prefs_patch \<Rightarrow> 'a option) \<Rightarrow> prefs_patch list \<Rightarrow> 'a \<Rightarrow> 'a" where
  "last_given sel ps v = last (v # List.map_filter sel ps)"

definition in_table :: "(table_patch \<Rightarrow> 'a option) \<Rightarrow> prefs_patch \<Rightarrow> 'a option" where
  "in_table sel p = Option.bind (pp_tableSettings p) sel"

definition in_onboarding :: "(onboarding_patch \<Rightarrow> 'a option) \<Rightarrow> prefs_patch \<Rightarrow> 'a option" where
  "in_onboarding sel p = Option.bind (pp_onboarding p) sel"

definition fields_given :: "prefs_patch list \<Rightarrow> PreferenceData \<Rightarrow> PreferenceData \<Rightarrow> bool" where
  "fields_given ps old new \<longleftrightarrow>
     pd_theme new = last_given pp_theme ps (pd_theme old) \<and>
     pd_locale new = last_given pp_locale ps (pd_locale old) \<and>
     (let t = pd_tableSettings old; t' = pd_tableSettings new in
       ts_columnVisibility t' = last_given (in_table tp_columnVisibility) ps (ts_columnVisibility t) \<and>
       ts_pageSize t' = last_given (in_table tp_pageSize) ps (ts_pageSize t) \<and>
       ts_sortColumn t' = last_given (in_table tp_sortColumn) ps (ts_sortColumn t) \<and>
       ts_sortDirection t' = last_given (in_table tp_sortDirection) ps (ts_sortDirection t)) \<and>
     (let b = pd_onboarding old; b' = pd_onboarding new in
       ob_completed b' = last_given (in_onboarding op_completed) ps (ob_completed b) \<and>
       ob_lastStep b' = last_given (in_onboarding op_lastStep) ps (ob_lastStep b) \<and>
       ob_startedAt b' = last_given (in_onboarding op_startedAt) ps (ob_startedAt b) \<and>
       ob_completedAt b' = last_given (in_onboarding op_completedAt) ps (ob_completedAt b))"

lemma last_given_simps:
  "last_given sel [] v = v"
  "last_given sel (p # ps) v = last_given sel ps (patched (sel p) v)"
  by (simp_all add: last_given_def patched_def map_filter_simps split: option.split)

lemma patched_fields:
  "pd_theme (patch_prefs p d) = patched (pp_theme p) (pd_theme d)"
  "pd_locale (patch_prefs p d) = patched (pp_locale p) (pd_locale d)"
  "ts_columnVisibility (pd_tableSettings (patch_prefs p d)) = patched (in_table tp_columnVisibility p) (ts_columnVisibility (pd_tableSettings d))"
  "ts_pageSize (pd_tableSettings (patch_prefs p d)) = patched (in_table tp_pageSize p) (ts_pageSize (pd_tableSettings d))"
  "ts_sortColumn (pd_tableSettings (patch_prefs p d)) = patched (in_table tp_sortColumn p) (ts_sortColumn (pd_tableSettings d))"
  "ts_sortDirection (pd_tableSettings (patch_prefs p d)) = patched (in_table tp_sortDirection p) (ts_sortDirection (pd_tableSettings d))"
  "ob_completed (pd_onboarding (patch_prefs p d)) = patched (in_onboarding op_completed p) (ob_completed (pd_onboarding d))"
  "ob_lastStep (pd_onboarding (patch_prefs p d)) = patched (in_onboarding op_lastStep p) (ob_lastStep (pd_onboarding d))"
  "ob_startedAt (pd_onboarding (patch_prefs p d)) = patched (in_onboarding op_startedAt p) (ob_startedAt (pd_onboarding d))"
  "ob_completedAt (pd_onboarding (patch_prefs p d)) = patched (in_onboarding op_completedAt p) (ob_completedAt (pd_onboarding d))"
  by (simp_all add: patch_prefs_def patch_table_def patch_onboarding_def in_table_def in_onboarding_def patched_def split: option.split)

lemma fields_given_Nil: "fields_given [] d d"
  by (simp add: fields_given_def last_given_simps)

lemma fields_given_Cons: "fields_given ps (patch_prefs p d) new \<Longrightarrow> fields_given (p # ps) d new"
  by (simp add: fields_given_def Let_def last_given_simps patched_fields)

lemma update_once:
  assumes "usable B" and "patch_ok p" and "updatePreferences B p ls = (d, ls')" and "prints B (prefs_object d)"
  shows "d = patch_prefs p (loadPreferences B ls)" and "loadPreferences B ls' = d"
    and "k \<noteq> PREFERENCES_STORAGE_KEY \<Longrightarrow> ls' k = ls k"
proof -
  show d: "d = patch_prefs p (loadPreferences B ls)" using assms(3) by (simp add: updatePreferences_def Let_def)
  have ls': "ls' = savePreferences B d ls" using assms(3) by (auto simp: updatePreferences_def Let_def)
  have ok: "prefs_ok d" unfolding d by (rule patch_prefs_ok [OF assms(2) load_ok])
  show "loadPreferences B ls' = d" unfolding ls' by (rule load_after_save [OF assms(1,4) ok])
  show "k \<noteq> PREFERENCES_STORAGE_KEY \<Longrightarrow> ls' k = ls k" by (simp add: ls' savePreferences_def)
qed

text \<open>C38: Updates of the preferences persist. Whatever is in storage, after any sequence of updates with valid values
  the next load gives, field by field (theme, locale, the four table settings, the four onboarding fields), the value that was given
  last, and the old value where no update gave one; the last update returned the same; the data is well-formed, and no other
  key of the storage has changed. What is loaded from a blob of a later schema version is its reading as version 2, which
  the first update writes back: such a blob is not left untouched, although the header of the file says so. (Storage
  works, and the JSON codec reads back what the updates wrote; a patch gives a field or leaves it out.)\<close>

theorem updates_persist:
  assumes "usable B" and "list_all patch_ok ps" and "update_all B ps ls = (ds, ls')"
    and "list_all (\<lambda>d. prints B (prefs_object d)) ds"
  shows "fields_given ps (loadPreferences B ls) (loadPreferences B ls') \<and> prefs_ok (loadPreferences B ls') \<and>
    pd_schemaVersion (loadPreferences B ls') = 2 \<and>
    (ps \<noteq> [] \<longrightarrow> last ds = loadPreferences B ls') \<and> (\<forall>k. k \<noteq> PREFERENCES_STORAGE_KEY \<longrightarrow> ls' k = ls k)"
proof -
  have "fields_given ps (loadPreferences B ls) (loadPreferences B ls') \<and>
    (ps \<noteq> [] \<longrightarrow> ds \<noteq> [] \<and> last ds = loadPreferences B ls') \<and> (\<forall>k. k \<noteq> PREFERENCES_STORAGE_KEY \<longrightarrow> ls' k = ls k)"
    using assms(2-4)
  proof (induction ps arbitrary: ls ds)
    case Nil
    then show ?case by (simp add: fields_given_Nil)
  next
    case (Cons p ps)
    obtain d ls1 where up: "updatePreferences B p ls = (d, ls1)" by fastforce
    obtain ds1 where rest: "update_all B ps ls1 = (ds1, ls')" and ds: "ds = d # ds1"
      using Cons.prems(2) up by (auto split: prod.splits)
    have pok: "patch_ok p" "list_all patch_ok ps" "prints B (prefs_object d)" "list_all (\<lambda>d. prints B (prefs_object d)) ds1"
      using Cons.prems ds by simp_all
    note one = update_once [OF assms(1) pok(1) up pok(3)]
    note ih = Cons.IH [OF pok(2) rest pok(4)]
    have "fields_given ps d (loadPreferences B ls')" using ih one(2) by simp
    then have "fields_given (p # ps) (loadPreferences B ls) (loadPreferences B ls')" unfolding one(1) by (rule fields_given_Cons)
    moreover have "last ds = loadPreferences B ls'"
      using ih one(2) rest ds by (cases ps) auto
    ultimately show ?case using ih one(3) ds by auto
  qed
  then show ?thesis using load_ok [of B ls'] by (simp add: prefs_ok_def CURRENT_SCHEMA_VERSION_def)
qed

section \<open>Migration\<close>

lemma or_else_simps:
  "or_else None d = d" "or_else (Some JNull) d = d" "v \<noteq> JNull \<Longrightarrow> or_else (Some v) d = v"
  by (auto simp: or_else_def coalesce_def split: json.splits)

lemma read_text_or_else: "read_text (Some (or_else v JNull)) = read_text v"
  by (auto simp: read_text_def or_else_def coalesce_def split: option.splits json.splits)

lemma migrate_table_fields:
  "jget (Some (migrate_table t)) ''columnVisibility'' = Some (or_else (jget t ''columnVisibility'') (JObj []))"
  "jget (Some (migrate_table t)) ''pageSize'' = Some (or_else (jget t ''pageSize'') (JNum (ts_pageSize DEFAULT_TABLE_SETTINGS)))"
  "jget (Some (migrate_table t)) ''sortColumn'' = Some (or_else (jget t ''sortColumn'') JNull)"
  "jget (Some (migrate_table t)) ''sortDirection'' = Some (or_else (jget t ''sortDirection'') (JStr ''asc''))"
  by (simp_all add: jget_def [of "Some _"] migrate_table_def)

lemma migrate_onboarding_fields:
  "jget (Some (migrate_onboarding t)) ''completed'' = Some (or_else (jget t ''completed'') (JBool False))"
  "jget (Some (migrate_onboarding t)) ''lastStep'' = Some (or_else (jget t ''lastStep'') (JNum 0))"
  "jget (Some (migrate_onboarding t)) ''startedAt'' = Some (or_else (jget t ''startedAt'') JNull)"
  "jget (Some (migrate_onboarding t)) ''completedAt'' = Some (or_else (jget t ''completedAt'') JNull)"
  by (simp_all add: jget_def [of "Some _"] migrate_onboarding_def)

lemma merge_migrated_table: "merge_table (Some (migrate_table t)) = merge_table t"
  unfolding merge_table_def migrate_table_fields read_text_or_else
  by (auto simp: or_else_def coalesce_def read_text_def DEFAULT_TABLE_SETTINGS_def
      split: option.split json.split)

lemma merge_migrated_onboarding: "merge_onboarding (Some (migrate_onboarding t)) = merge_onboarding t"
  unfolding merge_onboarding_def migrate_onboarding_fields read_text_or_else
  by (auto simp: or_else_def coalesce_def split: option.split json.split)

lemma coalesce_migrated:
  "coalesce (Some (migrate_table t)) x = Some (migrate_table t)"
  "coalesce (Some (migrate_onboarding b)) x = Some (migrate_onboarding b)"
  by (simp_all add: coalesce_def migrate_table_def migrate_onboarding_def)

lemma merge_migrate_v1: "merge (migrate_v1 raw) = merge raw"
  by (simp add: merge_def migrate_v1_def js_simps coalesce_migrated
      merge_migrated_table merge_migrated_onboarding)

text \<open>Migrating a blob of version 1 or later is the same as merging it with the defaults, so no valid
  setting is lost; a blob without a version keeps its theme and locale and nothing else.\<close>

theorem migrate_keeps:
  "migrate raw = (if 1 \<le> schema_version raw then merge raw
     else (merge raw)\<lparr>pd_tableSettings := DEFAULT_TABLE_SETTINGS, pd_onboarding := DEFAULT_ONBOARDING\<rparr>)"
proof (cases "1 \<le> schema_version raw")
  case True
  then show ?thesis by (simp add: migrate_def merge_migrate_v1)
next
  case False
  have dt: "pd_theme DEFAULT_PREFERENCES = System" and dl: "pd_locale DEFAULT_PREFERENCES = ''en''"
    by (simp_all add: DEFAULT_PREFERENCES_def)
  have theme: "(case read_theme (Some (or_else v (JStr ''system''))) of None \<Rightarrow> System | Some t \<Rightarrow> t) =
      (case read_theme v of None \<Rightarrow> System | Some t \<Rightarrow> t)" for v
    by (cases v rule: option.exhaust) (auto simp: or_else_def coalesce_def read_theme_def split: json.splits)
  have locale_kept: "(case or_else v (JStr ''en'') of JStr s \<Rightarrow> if js_trim s \<noteq> [] then s else ''en'' | _ \<Rightarrow> ''en'') =
      (case v of Some (JStr s) \<Rightarrow> if js_trim s \<noteq> [] then s else ''en'' | _ \<Rightarrow> ''en'')" for v
    by (cases v) (auto simp: or_else_def coalesce_def split: json.splits)
  have "migrate raw = merge (migrate_v0 raw)" using False by (simp add: migrate_def merge_migrate_v1)
  also have "\<dots> = (merge raw)\<lparr>pd_tableSettings := DEFAULT_TABLE_SETTINGS, pd_onboarding := DEFAULT_ONBOARDING\<rparr>"
    unfolding merge_def migrate_v0_def dt dl
    by (simp add: js_simps prefs_fields coalesce_object DEFAULT_PREFERENCES_def
        merge_table_json merge_onboarding_json DEFAULT_TABLE_SETTINGS_def DEFAULT_ONBOARDING_def theme locale_kept)
  finally show ?thesis using False by simp
qed

text \<open>A blob of a later version is not left alone: it is read as version 2, and the next update replaces
  it, so that what the later version added is gone.\<close>

lemma future_blob_downgraded:
  assumes "usable B" and "br_parse B raw = Some (JObj kvs)" and "raw \<noteq> ''''"
    and "updatePreferences B p [PREFERENCES_STORAGE_KEY \<mapsto> raw] = (d, ls')"
  shows "pd_schemaVersion (loadPreferences B [PREFERENCES_STORAGE_KEY \<mapsto> raw]) = 2
     \<and> ls' PREFERENCES_STORAGE_KEY = Some (br_stringify B (JObj (prefs_object d)))"
  using assms load_ok [of B "[PREFERENCES_STORAGE_KEY \<mapsto> raw]"]
  by (auto simp: updatePreferences_def Let_def savePreferences_def usable_def strip_prefs prefs_ok_def CURRENT_SCHEMA_VERSION_def)

text \<open>The guard looks at the names of the top level only: a secret below it is written.\<close>

lemma nested_secret_kept:
  "stripSensitiveKeys (prefs_object (d\<lparr>pd_tableSettings := t\<lparr>ts_columnVisibility := [(''privateKey'', JStr s)]\<rparr>\<rparr>)) =
     prefs_object (d\<lparr>pd_tableSettings := t\<lparr>ts_columnVisibility := [(''privateKey'', JStr s)]\<rparr>\<rparr>)"
  by (rule strip_prefs)

definition demo_patch :: prefs_patch where
  "demo_patch = \<lparr>pp_theme = Some Dark, pp_locale = None,
     pp_tableSettings = Some \<lparr>tp_columnVisibility = None, tp_pageSize = Some 25, tp_sortColumn = None, tp_sortDirection = None\<rparr>,
     pp_onboarding = None\<rparr>"

definition demo_patch2 :: prefs_patch where
  "demo_patch2 = \<lparr>pp_theme = None, pp_locale = Some ''de'', pp_tableSettings = None,
     pp_onboarding = Some \<lparr>op_completed = Some True, op_lastStep = None, op_startedAt = None, op_completedAt = None\<rparr>\<rparr>"

theorem updates_persist_witness:
  "\<exists>B ds ls'. update_all B [demo_patch, demo_patch2] Map.empty = (ds, ls') \<and>
     pd_theme (loadPreferences B ls') = Dark \<and> pd_locale (loadPreferences B ls') = ''de'' \<and>
     ts_pageSize (pd_tableSettings (loadPreferences B ls')) = 25 \<and> ob_completed (pd_onboarding (loadPreferences B ls'))"
proof -
  define d1 where "d1 = patch_prefs demo_patch DEFAULT_PREFERENCES"
  define d2 where "d2 = patch_prefs demo_patch2 d1"
  define B where "B = \<lparr>br_window = True, br_readable = True, br_writable = True,
     br_parse = (\<lambda>s. if s = ''X'' then Some (JObj (prefs_object d1)) else if s = ''Y'' then Some (JObj (prefs_object d2)) else None),
     br_stringify = (\<lambda>j. if j = JObj (prefs_object d1) then ''X'' else ''Y'')\<rparr>"
  have use: "usable B" and pr: "prints B (prefs_object d1)" "prints B (prefs_object d2)"
    by (auto simp: usable_def prints_def B_def)
  have trim: "js_trim ''de'' \<noteq> ''''" by code_simp
  have pok: "patch_ok demo_patch" "patch_ok demo_patch2" using trim by (simp_all add: patch_ok_def demo_patch_def demo_patch2_def)
  have load: "loadPreferences B Map.empty = DEFAULT_PREFERENCES" by (simp add: loadPreferences_def)
  then have up1: "updatePreferences B demo_patch Map.empty = (d1, savePreferences B d1 Map.empty)"
    by (simp add: updatePreferences_def d1_def Let_def)
  have load1: "loadPreferences B (savePreferences B d1 Map.empty) = d1" by (rule update_once(2) [OF use pok(1) up1 pr(1)])
  define ls' where "ls' = savePreferences B d2 (savePreferences B d1 Map.empty)"
  have all: "update_all B [demo_patch, demo_patch2] Map.empty = ([d1, d2], ls')"
    using up1 load1 by (simp add: updatePreferences_def [of B demo_patch2] d2_def ls'_def Let_def)
  have "fields_given [demo_patch, demo_patch2] DEFAULT_PREFERENCES (loadPreferences B ls')"
    using updates_persist [OF use _ all] pok pr load by simp
  then have "pd_theme (loadPreferences B ls') = Dark" "pd_locale (loadPreferences B ls') = ''de''"
      "ts_pageSize (pd_tableSettings (loadPreferences B ls')) = 25" "ob_completed (pd_onboarding (loadPreferences B ls'))"
    by (simp_all add: fields_given_def last_given_def in_table_def in_onboarding_def demo_patch_def demo_patch2_def map_filter_simps Let_def)
  with all show ?thesis by blast
qed

end
