(* ===== verification/Tx_Failures.thy ===== *)
theory Tx_Failures
  imports Prelude
begin

text \<open>
  The classification of transaction errors, \<^verbatim>\<open>frontend/src/lib/rpc_error_normalizer.ts\<close>, and the poller
  that throws its results, \<^verbatim>\<open>frontend/src/lib/pollTransaction.ts\<close>. Of the texts shown to the user only
  the titles are kept; the summaries and actions belong to the same table entries. The regular
  expressions are lists of parts, matched on the text in lower case: in each of them a run of spaces, digits
  or spaces and given characters (\<open>Some_of\<close>) is followed by something else, so the longest run is the only one to try.
\<close>

section \<open>Patterns\<close>

datatype pat = Lit string | Spaces0 | Spaces1 | Digits | Some_of string

fun pmatch :: "pat list \<Rightarrow> string \<Rightarrow> string \<Rightarrow> string option" where
  "pmatch [] cap s = Some cap"
| "pmatch (Lit l # ps) cap s = (if take (length l) s = l then pmatch ps cap (drop (length l) s) else None)"
| "pmatch (Spaces0 # ps) cap s = pmatch ps cap (dropWhile is_space s)"
| "pmatch (Spaces1 # ps) cap s =
     (if takeWhile is_space s = [] then None else pmatch ps cap (dropWhile is_space s))"
| "pmatch (Some_of cs # ps) cap s = (let other = (\<lambda>c. is_space c \<or> c \<in> set cs) in
     if takeWhile other s = [] then None else pmatch ps cap (dropWhile other s))"
| "pmatch (Digits # ps) cap s =
     (if takeWhile is_digit s = [] then None else pmatch ps (takeWhile is_digit s) (dropWhile is_digit s))"

text \<open>The first place where a pattern matches, with the digits it captured.\<close>

fun psearch :: "pat list \<Rightarrow> string \<Rightarrow> string option" where
  "psearch ps [] = pmatch ps [] []"
| "psearch ps (c # cs) = (case pmatch ps [] (c # cs) of Some d \<Rightarrow> Some d | None \<Rightarrow> psearch ps cs)"

text \<open>A word between word boundaries, with no word character before or behind it.\<close>

fun word_search :: "bool \<Rightarrow> string \<Rightarrow> string \<Rightarrow> bool" where
  "word_search inside w [] = False"
| "word_search inside w (c # cs) =
     (\<not> inside \<and> take (length w) (c # cs) = w \<and>
        (case drop (length w) (c # cs) of [] \<Rightarrow> True | d # _ \<Rightarrow> \<not> word_char d)
      \<or> word_search (word_char c) w cs)"

section \<open>Errors\<close>

datatype RpcErrorCategory = ContractErrorC | SimulationFailed | SubmissionFailed | OnchainFailed
  | ConfirmationTimeout | SigningRejected | WrongNetwork | InsufficientFunds | AllowanceTooLow
  | NetworkErrorC | UnknownC

record NormalizedRpcError =
  ne_category :: RpcErrorCategory
  ne_title :: string
  ne_retryable :: bool
  ne_contractCode :: "nat option"
  ne_rawMessage :: string

definition CONTRACT_ERROR_DEFS :: "(nat \<times> string \<times> bool) list" where
  "CONTRACT_ERROR_DEFS = [
     (1, ''Invalid amount'', False), (2, ''Interval too short'', False), (3, ''Interval too long'', False),
     (4, ''No active subscription'', False), (5, ''Payment not due yet'', False),
     (6, ''Authorisation failed'', True), (7, ''Transfer failed'', False), (8, ''Invalid timestamp'', True),
     (9, ''Amount too large'', False), (10, ''Self-subscription not allowed'', False),
     (11, ''Invalid token address'', False), (12, ''Empty batch'', False), (13, ''Batch too large'', False),
     (14, ''Insufficient allowance'', False), (15, ''Contract already migrated'', False),
     (16, ''Not admin'', False), (17, ''Contract not initialized'', False)]"

datatype name_rule = Sub "pat list" | Word string

definition CONTRACT_ERROR_NAME_MAP :: "(name_rule \<times> nat) list" where
  "CONTRACT_ERROR_NAME_MAP = [
     (Sub [Lit ''amountmustbepositive''], 1),
     (Sub [Lit ''intervaltoo'', Spaces0, Lit ''short''], 2),
     (Sub [Lit ''intervaltoo'', Spaces0, Lit ''long''], 3),
     (Sub [Lit ''intervaltoo''], 2),
     (Sub [Lit ''noactivesubscription''], 4),
     (Sub [Lit ''paymentnotdue''], 5),
     (Word ''unauthorized'', 6),
     (Sub [Lit ''transferfailed''], 7),
     (Sub [Lit ''invalidtimestamp''], 8),
     (Sub [Lit ''amounttoolarge''], 9),
     (Sub [Lit ''selfsubscription''], 10),
     (Sub [Lit ''invalidtokenaddress''], 11),
     (Sub [Lit ''emptybatch''], 12),
     (Sub [Lit ''batchtoolarge''], 13),
     (Sub [Lit ''insufficientallowance''], 14),
     (Sub [Lit ''alreadymigrated''], 15),
     (Sub [Lit ''notadmin''], 16),
     (Sub [Lit ''notinitialized''], 17)]"

definition rule_matches :: "name_rule \<Rightarrow> string \<Rightarrow> bool" where
  "rule_matches r msg = (case r of Sub ps \<Rightarrow> psearch ps msg \<noteq> None | Word w \<Rightarrow> word_search False w msg)"

definition CODE_PATTERNS :: "pat list list" where
  "CODE_PATTERNS = [
     [Lit ''error'', Spaces0, Lit ''('', Spaces0, Lit ''contract'', Spaces0, Lit '','', Spaces0, Lit ''#'', Digits, Spaces0, Lit '')''],
     [Lit ''contract'', Spaces1, Lit ''error'', Spaces1, Lit ''#'', Digits],
     [Lit ''contract'', Spaces1, Lit ''error'', Spaces1, Lit ''code'', Spaces1, Digits]]"

fun code_from :: "pat list list \<Rightarrow> string \<Rightarrow> nat option" where
  "code_from [] msg = None"
| "code_from (ps # pss) msg = (case psearch ps msg of
       None \<Rightarrow> code_from pss msg
     | Some ds \<Rightarrow> if 1 \<le> digits_val ds \<and> digits_val ds \<le> 17 then Some (digits_val ds) else code_from pss msg)"

definition extractContractCode :: "string \<Rightarrow> nat option" where
  "extractContractCode msg = code_from CODE_PATTERNS (js_lower msg)"

definition contract_error :: "string \<Rightarrow> nat \<Rightarrow> NormalizedRpcError option" where
  "contract_error rawMessage code = map_option (\<lambda>(title, retry). \<lparr>ne_category = ContractErrorC,
     ne_title = title, ne_retryable = retry, ne_contractCode = Some code, ne_rawMessage = rawMessage\<rparr>)
     (map_of CONTRACT_ERROR_DEFS code)"

text \<open>The first rule of the table whose name occurs.\<close>

fun contract_error_by_name :: "(name_rule \<times> nat) list \<Rightarrow> string \<Rightarrow> string \<Rightarrow> NormalizedRpcError option" where
  "contract_error_by_name [] rawMessage msg = None"
| "contract_error_by_name ((r, code) # rs) rawMessage msg =
     (case (if rule_matches r msg then contract_error rawMessage code else None) of
        Some e \<Rightarrow> Some e
      | None \<Rightarrow> contract_error_by_name rs rawMessage msg)"

definition includes_any :: "string \<Rightarrow> string list \<Rightarrow> bool" where
  "includes_any msg ws = list_ex (js_includes msg) ws"

definition plain_error :: "string \<Rightarrow> RpcErrorCategory \<Rightarrow> string \<Rightarrow> bool \<Rightarrow> NormalizedRpcError" where
  "plain_error rawMessage c title retry = \<lparr>ne_category = c, ne_title = title, ne_retryable = retry,
     ne_contractCode = None, ne_rawMessage = rawMessage\<rparr>"

definition text_category :: "string \<Rightarrow> RpcErrorCategory" where
  "text_category msg =
     (if includes_any msg [''user declined'', ''user rejected'', ''signing failed'', ''rejected''] then SigningRejected
      else if includes_any msg [''wrong network'', ''network mismatch'', ''passphrase''] then WrongNetwork
      else if includes_any msg [''transaction preparation failed''] then SimulationFailed
      else if includes_any msg [''transaction submission failed''] then SubmissionFailed
      else if includes_any msg [''transaction failed on-chain''] then OnchainFailed
      else if includes_any msg [''confirmation timeout'', ''timed out'', ''timeout''] then ConfirmationTimeout
      else if includes_any msg [''insufficient balance'', ''not enough'', ''underfunded''] then InsufficientFunds
      else if includes_any msg [''allowance'', ''transfer from'', ''spend limit''] then AllowanceTooLow
      else if includes_any msg [''failed to fetch'', ''network request failed'', ''fetch error'', ''networkerror'',
                ''econnrefused'', ''enotfound'', ''rpc''] \<or> js_includes msg ''fetch'' \<and> \<not> js_includes msg ''freighter''
        then NetworkErrorC
      else UnknownC)"

fun category_title :: "RpcErrorCategory \<Rightarrow> string" where
  "category_title SigningRejected = ''Signing cancelled''"
| "category_title WrongNetwork = ''Wrong network''"
| "category_title SimulationFailed = ''Simulation failed''"
| "category_title SubmissionFailed = ''Transaction submission failed''"
| "category_title OnchainFailed = ''Transaction failed on-chain''"
| "category_title ConfirmationTimeout = ''Transaction timed out''"
| "category_title InsufficientFunds = ''Insufficient balance''"
| "category_title AllowanceTooLow = ''Token allowance too low''"
| "category_title NetworkErrorC = ''Network error''"
| "category_title UnknownC = ''Transaction failed''"
| "category_title ContractErrorC = ''''"

fun category_retryable :: "RpcErrorCategory \<Rightarrow> bool" where
  "category_retryable OnchainFailed = False"
| "category_retryable InsufficientFunds = False"
| "category_retryable AllowanceTooLow = False"
| "category_retryable _ = True"

text \<open>A thrown value: an \<^verbatim>\<open>Error\<close>, a text, nothing, or a plain object such as a normalized error.\<close>

datatype thrown = ErrorObj string | ThrownText string | ThrownNullish | PlainObject NormalizedRpcError

fun raw_message :: "thrown \<Rightarrow> string" where
  "raw_message (ErrorObj m) = m"
| "raw_message (ThrownText s) = s"
| "raw_message ThrownNullish = ''Unknown error''"
| "raw_message (PlainObject _) = ''[object Object]''"

definition normalizeRpcError :: "thrown \<Rightarrow> NormalizedRpcError" where
  "normalizeRpcError err = (let rawMessage = raw_message err; msg = js_lower rawMessage in
     case (case extractContractCode rawMessage of None \<Rightarrow> None | Some code \<Rightarrow> contract_error rawMessage code) of
       Some e \<Rightarrow> e
     | None \<Rightarrow> (case contract_error_by_name CONTRACT_ERROR_NAME_MAP rawMessage msg of
         Some e \<Rightarrow> e
       | None \<Rightarrow> (let c = text_category msg in plain_error rawMessage c (category_title c) (category_retryable c))))"

section \<open>The poller\<close>

datatype tx_status = TxSuccess | TxFailed "string option" | TxNotFound

definition MAX_POLL_ATTEMPTS :: nat where "MAX_POLL_ATTEMPTS = 60"
definition POLL_INTERVAL_MS :: int where "POLL_INTERVAL_MS = 1000"

text \<open>The answers of \<^verbatim>\<open>getTransaction\<close> by attempt; an answer that rejects passes its error on. The text of
  the meta data is what the template prints for it.\<close>

fun poll_loop :: "(nat \<Rightarrow> string + tx_status) \<Rightarrow> string \<Rightarrow> nat \<Rightarrow> nat \<Rightarrow> thrown + string" where
  "poll_loop reply hash attempt 0 = Inl (PlainObject (normalizeRpcError (ErrorObj
      (''Transaction confirmation timeout after '' @ nat_str MAX_POLL_ATTEMPTS @ '' seconds. Hash: '' @ hash))))"
| "poll_loop reply hash attempt (Suc left) = (case reply attempt of
      Inl e \<Rightarrow> Inl (ErrorObj e)
    | Inr TxSuccess \<Rightarrow> Inr hash
    | Inr (TxFailed meta) \<Rightarrow> Inl (PlainObject (normalizeRpcError (ErrorObj
        (''Transaction failed on-chain: '' @ (case meta of None \<Rightarrow> ''no result meta available'' | Some t \<Rightarrow> t)))))
    | Inr TxNotFound \<Rightarrow> poll_loop reply hash (Suc attempt) left)"

definition pollForConfirmation :: "(nat \<Rightarrow> string + tx_status) \<Rightarrow> string \<Rightarrow> thrown + string" where
  "pollForConfirmation reply hash = poll_loop reply hash 0 MAX_POLL_ATTEMPTS"

section \<open>Finding texts\<close>

lemma pmatch_lit_includes: "psearch (Lit l # ps) s = Some d \<Longrightarrow> js_includes s l"
proof (induction s)
  case Nil
  then show ?case by (auto split: if_splits)
next
  case (Cons c cs)
  then show ?case by (auto split: option.splits if_splits)
qed

lemma word_search_includes: "word_search b w s \<Longrightarrow> js_includes s w"
  by (induction s arbitrary: b) auto

lemma psearch_skip:
  "(\<And>i. i < length pre \<Longrightarrow> pmatch ps [] (drop i pre @ s) = None) \<Longrightarrow> psearch ps (pre @ s) = psearch ps s"
proof (induction pre)
  case (Cons c pre)
  have "pmatch ps [] (c # pre @ s) = None" using Cons.prems [of 0] by simp
  moreover have "psearch ps (pre @ s) = psearch ps s"
    using Cons.prems [of "Suc i" for i] by (intro Cons.IH) auto
  ultimately show ?case by simp
qed simp

lemma psearch_here: "pmatch ps [] s = Some d \<Longrightarrow> psearch ps s = Some d"
  by (cases s) auto

section \<open>Contract errors are recognised\<close>

lemma not_open_after_spaces:
  "CHR ''('' \<notin> set u \<Longrightarrow> take 1 (dropWhile is_space (u @ ''error('' @ v)) \<noteq> ''(''"
  by (induction u) (auto simp: is_space_def)

lemma no_earlier_match:
  assumes "u \<noteq> []" and "CHR ''('' \<notin> set u"
  shows "pmatch (Lit ''error'' # Spaces0 # Lit ''('' # ps) [] (u @ ''error('' @ v) = None"
proof (cases "length u < 5")
  case True
  then consider a where "u = [a]" | a b where "u = [a, b]" | a b c where "u = [a, b, c]"
    | a b c d where "u = [a, b, c, d]"
    using assms(1) by (cases u; cases "tl u"; cases "tl (tl u)"; cases "tl (tl (tl u))"; auto)
  then show ?thesis by cases auto
next
  case False
  then have d: "drop 5 (u @ ''error('' @ v) = drop 5 u @ ''error('' @ v" by simp
  have "CHR ''('' \<notin> set (drop 5 u)" using assms(2) by (meson in_set_dropD)
  from not_open_after_spaces [OF this, of v]
  have "take 1 (dropWhile is_space (drop 5 (u @ ''error('' @ v))) \<noteq> ''(''" unfolding d .
  moreover have "pmatch (Lit ''error'' # Spaces0 # Lit ''('' # ps) [] s = None"
    if "take 1 (dropWhile is_space (drop 5 s)) \<noteq> ''(''" for s
    using that by (simp add: numeral_eq_Suc)
  ultimately show ?thesis by blast
qed

lemma lower_append: "js_lower (s @ t) = js_lower s @ js_lower t"
  by (simp add: js_lower_def)

lemma lower_digits: "list_all is_digit ds \<Longrightarrow> js_lower ds = ds"
  by (induction ds) (auto simp: js_lower_def lower_char_def is_digit_def)

lemma takeWhile_number:
  "takeWhile is_digit (nat_str n @ CHR '')'' # v) = nat_str n"
  "dropWhile is_digit (nat_str n @ CHR '')'' # v) = CHR '')'' # v"
  using nat_str_digits [of n] by (simp_all add: takeWhile_append dropWhile_append is_digit_def)

lemma contract_code_search:
  assumes "CHR ''('' \<notin> set pre"
  shows "psearch (hd CODE_PATTERNS) (pre @ ''error('' @ ''contract, #'' @ nat_str n @ '')'' @ v) = Some (nat_str n)"
proof -
  let ?s = "''error('' @ ''contract, #'' @ nat_str n @ '')'' @ v"
  have "psearch (hd CODE_PATTERNS) (pre @ ?s) = psearch (hd CODE_PATTERNS) ?s"
  proof (rule psearch_skip)
    fix i assume "i < length pre"
    then have "drop i pre \<noteq> []" by simp
    moreover have "CHR ''('' \<notin> set (drop i pre)" using assms by (meson in_set_dropD)
    ultimately show "pmatch (hd CODE_PATTERNS) [] (drop i pre @ ?s) = None"
      unfolding CODE_PATTERNS_def list.sel by (rule no_earlier_match)
  qed
  also have "\<dots> = Some (nat_str n)"
    by (rule psearch_here) (simp add: CODE_PATTERNS_def is_space_def takeWhile_number)
  finally show ?thesis .
qed

definition code_entry_ok :: "nat \<Rightarrow> bool" where
  "code_entry_ok n = (case map_of CONTRACT_ERROR_DEFS n of None \<Rightarrow> False
     | Some (title, r) \<Rightarrow> title \<noteq> '''' \<and> r = (n = 6 \<or> n = 8))"

lemma contract_error_codes:
  assumes "1 \<le> n" and "n \<le> 17"
  shows "\<exists>title. title \<noteq> '''' \<and> map_of CONTRACT_ERROR_DEFS n = Some (title, n = 6 \<or> n = 8)"
proof -
  have "list_all code_entry_ok [1..<18]" by code_simp
  moreover have "n \<in> set [1..<18]" using assms by simp
  ultimately have "code_entry_ok n" by (simp only: list_all_iff)
  then show ?thesis
    by (cases "map_of CONTRACT_ERROR_DEFS n") (auto simp only: code_entry_ok_def option.case split: prod.splits)
qed

text \<open>The table of codes is called complete, but the contract has a code more than 1 to 17: \<^verbatim>\<open>GracePeriodNotElapsed = 19\<close> is
  not recognised, and is shown as an unknown failure.\<close>

lemma grace_period_code_unknown:
  "ne_category (normalizeRpcError (ErrorObj ''Error(Contract, #19)'')) = UnknownC"
  by code_simp

text \<open>C39: A message whose first opening bracket belongs to \<^verbatim>\<open>Error(Contract, #n)\<close> with a code from 1 to 17 is classified as that
  contract error, whatever text without an opening bracket comes before and whatever text comes after, another code
  included: the first code decides. Only the codes 6 and 8 invite a retry. These are the 17 codes of the table; the contract
  also has code 19, which the table misses.\<close>

theorem contract_code_recognised:
  fixes n :: nat and pre rest :: string
  assumes "1 \<le> n" and "n \<le> 17" and "CHR ''('' \<notin> set pre"
  defines "msg \<equiv> pre @ ''Error(Contract, #'' @ nat_str n @ '')'' @ rest"
  shows "\<exists>title. title \<noteq> '''' \<and> normalizeRpcError (ErrorObj msg) = \<lparr>ne_category = ContractErrorC, ne_title = title,
     ne_retryable = (n = 6 \<or> n = 8), ne_contractCode = Some n, ne_rawMessage = msg\<rparr>"
proof -
  have low: "js_lower msg = js_lower pre @ ''error('' @ ''contract, #'' @ nat_str n @ '')'' @ js_lower rest"
  proof -
    have "js_lower ''Error(Contract, #'' = ''error('' @ ''contract, #''" "js_lower '')'' = '')''" by code_simp+
    moreover have "js_lower (nat_str n) = nat_str n" using nat_str_digits [of n] by (intro lower_digits) (simp add: list_all_iff)
    ultimately show ?thesis by (simp add: msg_def lower_append del: append.simps)
  qed
  have keep: "lower_char c \<noteq> CHR ''(''" if "c \<noteq> CHR ''(''" for c
  proof
    assume low: "lower_char c = CHR ''(''"
    then have up: "65 \<le> (of_char c :: nat)" "(of_char c :: nat) \<le> 90" "char_of ((of_char c :: nat) + 32) = CHR ''(''"
      using that by (auto simp: lower_char_def split: if_splits)
    define k where "k = (of_char c :: nat) + 32"
    have "(of_char (char_of k :: char) :: nat) = of_char (CHR ''('')" using up(3) unfolding k_def by simp
    then have "k mod 256 = 40" by simp
    then show False using up(1,2) unfolding k_def by simp
  qed
  have "CHR ''('' \<notin> set (js_lower pre)"
  proof
    assume "CHR ''('' \<in> set (js_lower pre)"
    then obtain c where c: "c \<in> set pre" "CHR ''('' = lower_char c" unfolding js_lower_def set_map by blast
    then have "c \<noteq> CHR ''(''" using assms(3) by metis
    from keep [OF this] c(2) show False by metis
  qed
  from contract_code_search [OF this, of n "js_lower rest"]
  have "extractContractCode msg = Some n"
    using assms(1,2) by (simp add: extractContractCode_def low CODE_PATTERNS_def)
  moreover obtain title where "title \<noteq> ''''" "map_of CONTRACT_ERROR_DEFS n = Some (title, n = 6 \<or> n = 8)"
    using contract_error_codes [OF assms(1,2)] by blast
  ultimately show ?thesis by (simp add: normalizeRpcError_def contract_error_def)
qed

theorem contract_code_recognised_witness:
  "ne_category (normalizeRpcError (ErrorObj ''HostError: Error(Contract, #5) user rejected'')) = ContractErrorC
   \<and> ne_contractCode (normalizeRpcError (ErrorObj ''HostError: Error(Contract, #5) user rejected'')) = Some 5"
proof -
  have m: "''HostError: '' @ ''Error(Contract, #'' @ nat_str 5 @ '')'' @ '' user rejected'' =
      ''HostError: Error(Contract, #5) user rejected''"
    by code_simp
  have b: "CHR ''('' \<notin> set ''HostError: ''" by simp
  obtain title where "normalizeRpcError (ErrorObj ''HostError: Error(Contract, #5) user rejected'') =
      \<lparr>ne_category = ContractErrorC, ne_title = title, ne_retryable = (5 = (6::nat) \<or> 5 = (8::nat)),
       ne_contractCode = Some 5, ne_rawMessage = ''HostError: Error(Contract, #5) user rejected''\<rparr>"
    using contract_code_recognised [of 5 "''HostError: ''" "'' user rejected''"] b unfolding m by auto
  then show ?thesis by simp
qed

section \<open>The poller\<close>

lemma poll_loop_success:
  "poll_loop reply hash a n = Inr h \<longleftrightarrow>
     h = hash \<and> (\<exists>k<n. reply (a + k) = Inr TxSuccess \<and> (\<forall>i<k. reply (a + i) = Inr TxNotFound))"
proof (induction n arbitrary: a)
  case (Suc n)
  have split_first: "(\<exists>k<Suc n. P k \<and> (\<forall>i<k. Q i)) \<longleftrightarrow> P 0 \<or> (Q 0 \<and> (\<exists>k<n. P (Suc k) \<and> (\<forall>i<k. Q (Suc i))))"
    for P Q :: "nat \<Rightarrow> bool"
    by (auto simp: Ex_less_Suc2 All_less_Suc2)
  show ?case
  proof (cases "reply a")
    case (Inr st)
    then show ?thesis
      by (cases st) (use Suc.IH [of "Suc a"] in \<open>simp_all add: split_first eq_commute [of hash]\<close>)
  qed (simp add: split_first)
qed simp

lemma poll_loop_timeout:
  "(\<And>i. i < n \<Longrightarrow> reply (a + i) = Inr TxNotFound) \<Longrightarrow>
     poll_loop reply hash a n = Inl (PlainObject (normalizeRpcError (ErrorObj
       (''Transaction confirmation timeout after '' @ nat_str MAX_POLL_ATTEMPTS @ '' seconds. Hash: '' @ hash))))"
proof (induction n arbitrary: a)
  case (Suc n)
  have "reply a = Inr TxNotFound" using Suc.prems [of 0] by simp
  moreover have "reply (Suc a + i) = Inr TxNotFound" if "i < n" for i
    using Suc.prems [of "Suc i"] that by simp
  ultimately show ?case using Suc.IH [of "Suc a"] by simp
qed simp

text \<open>The poller returns exactly when one of the 60 answers is a success and all answers before it say
  that the transaction is not known yet; it then returns the hash it was given.\<close>

theorem poll_returns_iff:
  "pollForConfirmation reply hash = Inr h \<longleftrightarrow>
     h = hash \<and> (\<exists>k<60. reply k = Inr TxSuccess \<and> (\<forall>i<k. reply i = Inr TxNotFound))"
  using poll_loop_success [of reply hash 0 MAX_POLL_ATTEMPTS h]
  by (simp add: pollForConfirmation_def MAX_POLL_ATTEMPTS_def)

theorem poll_returns_iff_witness:
  "pollForConfirmation (\<lambda>i. if i = 2 then Inr TxSuccess else Inr TxNotFound) ''ab'' = Inr ''ab''"
  by (rule iffD2 [OF poll_returns_iff]) (rule conjI [OF refl], rule exI [of _ 2], simp)

section \<open>What a thrown classification becomes\<close>

definition rule_text :: "name_rule \<Rightarrow> string" where
  "rule_text r = (case r of Word w \<Rightarrow> w | Sub (Lit l # _) \<Rightarrow> l | Sub _ \<Rightarrow> [])"

lemma rule_needs_text: "rule_matches r msg \<Longrightarrow> js_includes msg (rule_text r)"
proof (cases r)
  case (Sub ps)
  assume m: "rule_matches r msg"
  show ?thesis
  proof (cases ps)
    case (Cons p qs)
    then show ?thesis using m Sub
      by (cases p) (auto simp: rule_matches_def rule_text_def js_includes_iff dest: pmatch_lit_includes)
  qed (simp add: Sub rule_text_def js_includes_iff)
next
  case (Word w)
  assume "rule_matches r msg"
  then show ?thesis using Word by (simp add: rule_matches_def rule_text_def word_search_includes)
qed

lemma no_name: "\<not> includes_any msg (map (rule_text \<circ> fst) rs) \<Longrightarrow> contract_error_by_name rs raw msg = None"
  by (induction rs) (auto simp: includes_any_def dest: rule_needs_text)

lemma no_code:
  assumes "\<not> js_includes (js_lower msg) ''error''" and "\<not> js_includes (js_lower msg) ''contract''"
  shows "extractContractCode msg = None"
proof -
  have "psearch (Lit l # ps) (js_lower msg) = None" if "\<not> js_includes (js_lower msg) l" for l ps
    using pmatch_lit_includes that by (cases "psearch (Lit l # ps) (js_lower msg)") blast+
  then show ?thesis using assms by (simp add: extractContractCode_def CODE_PATTERNS_def)
qed

text \<open>A message without any of the words of the contract's errors is classified by its text alone.\<close>

definition contract_words :: "string list" where
  "contract_words = ''error'' # ''contract'' # map (rule_text \<circ> fst) CONTRACT_ERROR_NAME_MAP"

lemma by_text:
  assumes "\<not> includes_any (js_lower (raw_message err)) contract_words"
  shows "normalizeRpcError err = (let c = text_category (js_lower (raw_message err)) in
     plain_error (raw_message err) c (category_title c) (category_retryable c))"
proof -
  have "extractContractCode (raw_message err) = None"
    using assms by (intro no_code) (auto simp: includes_any_def contract_words_def)
  moreover have "contract_error_by_name CONTRACT_ERROR_NAME_MAP (raw_message err) (js_lower (raw_message err)) = None"
    using assms by (intro no_name) (simp add: includes_any_def contract_words_def)
  ultimately show ?thesis by (simp add: normalizeRpcError_def Let_def)
qed

text \<open>A word that is not in a text and cannot run over its end into hexadecimal digits is not in the text
  with a hash behind it.\<close>

definition hex_char :: "char \<Rightarrow> bool" where
  "hex_char c \<longleftrightarrow> is_digit c \<or> 97 \<le> (of_char c :: nat) \<and> (of_char c :: nat) \<le> 102"

definition clear_of :: "string \<Rightarrow> string \<Rightarrow> bool" where
  "clear_of a t \<longleftrightarrow> \<not> js_includes a t \<and>
     list_all (\<lambda>k. \<not> list_all hex_char (drop k t) \<or> drop (length a - k) a \<noteq> take k t) [0..<length t]"

lemma clear_of_hash:
  assumes "clear_of a t" and "list_all hex_char b" and "length t \<le> length a"
  shows "\<not> js_includes (a @ b) t"
proof
  assume "js_includes (a @ b) t"
  then have "sublist t (a @ b)" by (simp add: js_includes_iff)
  then consider "sublist t a" | "sublist t b" | t1 t2 where "t = t1 @ t2" "suffix t1 a" "prefix t2 b"
    by (auto simp: sublist_append)
  then show False
  proof cases
    case 1
    then show False using assms(1) by (simp add: clear_of_def js_includes_iff)
  next
    case 2
    then have "set t \<subseteq> set b" by (rule set_mono_sublist)
    then have "list_all hex_char t" using assms(2) by (auto simp: list_all_iff)
    moreover have "t \<noteq> []" using assms(1) by (auto simp: clear_of_def js_includes_iff)
    ultimately show False using assms(1)
      by (auto simp: clear_of_def list_all_iff dest!: bspec [where x = 0])
  next
    case 3
    show False
    proof (cases "t2 = []")
      case True
      then show False using 3 assms(1)
        by (auto simp: clear_of_def js_includes_iff dest: suffix_imp_sublist)
    next
      case False
      have "set t2 \<subseteq> set b" using 3(3) by (rule set_mono_prefix)
      then have "list_all hex_char t2" using assms(2) by (auto simp: list_all_iff)
      moreover have "drop (length a - length t1) a = t1" using 3(2) by (auto simp: suffix_def)
      ultimately show False using assms(1) 3(1) False
        by (auto simp: clear_of_def list_all_iff dest!: bspec [where x = "length t1"])
    qed
  qed
qed

definition earlier_words :: "string list" where
  "earlier_words = [''user declined'', ''user rejected'', ''signing failed'', ''rejected'', ''wrong network'',
     ''network mismatch'', ''passphrase'', ''transaction preparation failed'', ''transaction submission failed'',
     ''transaction failed on-chain'']"

definition timeout_text :: string where
  "timeout_text = ''transaction confirmation timeout after 60 seconds. hash: ''"

lemma timeout_clear:
  "list_all (\<lambda>t. clear_of timeout_text t \<and> length t \<le> length timeout_text) (contract_words @ earlier_words)"
  by code_simp

lemma lower_hex: "list_all hex_char h \<Longrightarrow> js_lower h = h"
  by (induction h) (auto simp: js_lower_def lower_char_def hex_char_def is_digit_def)

lemma timeout_category:
  assumes "list_all hex_char hash"
  shows "ne_category (normalizeRpcError (ErrorObj
     (''Transaction confirmation timeout after '' @ nat_str MAX_POLL_ATTEMPTS @ '' seconds. Hash: '' @ hash))) =
     ConfirmationTimeout"
proof -
  let ?m = "''Transaction confirmation timeout after '' @ nat_str MAX_POLL_ATTEMPTS @ '' seconds. Hash: ''"
  have "js_lower ?m = timeout_text" by code_simp
  then have low: "js_lower (?m @ hash) = timeout_text @ hash" by (simp add: lower_append lower_hex [OF assms] del: append.simps append_assoc)
  have none: "\<not> js_includes (timeout_text @ hash) t" if "t \<in> set (contract_words @ earlier_words)" for t
  proof -
    have "clear_of timeout_text t \<and> length t \<le> length timeout_text"
      using timeout_clear that unfolding list_all_iff by (rule bspec)
    then show ?thesis using clear_of_hash [OF _ assms] by blast
  qed
  have words: "\<not> includes_any (js_lower (raw_message (ErrorObj (?m @ hash)))) contract_words"
    using none unfolding includes_any_def list_ex_iff raw_message.simps low by auto
  have "js_includes timeout_text ''confirmation timeout''" by code_simp
  then have inc: "js_includes (timeout_text @ hash) ''confirmation timeout''"
    by (auto simp: js_includes_iff sublist_append)
  have "\<not> includes_any (timeout_text @ hash) ws" if "set ws \<subseteq> set earlier_words" for ws
    using none that unfolding includes_any_def list_ex_iff by auto
  note this [of "[''user declined'', ''user rejected'', ''signing failed'', ''rejected'']"]
    this [of "[''wrong network'', ''network mismatch'', ''passphrase'']"]
    this [of "[''transaction preparation failed'']"] this [of "[''transaction submission failed'']"]
    this [of "[''transaction failed on-chain'']"]
  then have "text_category (timeout_text @ hash) = ConfirmationTimeout"
    using inc unfolding text_category_def by (simp add: earlier_words_def includes_any_def)
  then have "ne_category (normalizeRpcError (ErrorObj (?m @ hash))) = ConfirmationTimeout"
    using by_text [OF words] by (simp add: plain_error_def low del: append.simps append_assoc)
  then show ?thesis unfolding append_assoc .
qed

lemma object_unknown: "normalizeRpcError (PlainObject e) =
    \<lparr>ne_category = UnknownC, ne_title = ''Transaction failed'', ne_retryable = True, ne_contractCode = None,
     ne_rawMessage = ''[object Object]''\<rparr>"
  by code_simp

text \<open>When the network does not confirm a transaction within the polling time, the poller throws an error
  object of the category for that case; the components that catch it classify it again, and as it is no
  \<^verbatim>\<open>Error\<close> they show an unknown failure whose raw message says nothing.\<close>

theorem timeout_shown_as_unknown:
  assumes "\<And>i. i < 60 \<Longrightarrow> reply i = Inr TxNotFound" and "list_all hex_char hash"
  shows "\<exists>e. pollForConfirmation reply hash = Inl (PlainObject e) \<and> ne_category e = ConfirmationTimeout
     \<and> ne_category (normalizeRpcError (PlainObject e)) = UnknownC
     \<and> ne_rawMessage (normalizeRpcError (PlainObject e)) = ''[object Object]''"
proof -
  let ?e = "normalizeRpcError (ErrorObj (''Transaction confirmation timeout after '' @ nat_str MAX_POLL_ATTEMPTS
      @ '' seconds. Hash: '' @ hash))"
  have "pollForConfirmation reply hash = Inl (PlainObject ?e)"
    unfolding pollForConfirmation_def by (rule poll_loop_timeout) (simp add: assms(1) MAX_POLL_ATTEMPTS_def)
  moreover have "ne_category ?e = ConfirmationTimeout" by (rule timeout_category [OF assms(2)])
  ultimately show ?thesis by (intro exI conjI) (auto simp: object_unknown)
qed

theorem timeout_shown_as_unknown_witness:
  "\<exists>e. pollForConfirmation (\<lambda>_. Inr TxNotFound) ''ab12'' = Inl (PlainObject e) \<and> ne_category e = ConfirmationTimeout
     \<and> ne_category (normalizeRpcError (PlainObject e)) = UnknownC
     \<and> ne_rawMessage (normalizeRpcError (PlainObject e)) = ''[object Object]''"
proof -
  have "list_all hex_char ''ab12''" by code_simp
  from timeout_shown_as_unknown [OF _ this, of "\<lambda>_. Inr TxNotFound"] show ?thesis by simp
qed

end
