(* ===== verification/Wallet.thy ===== *)
theory Wallet
  imports Event_Decoder
begin

text \<open>
  The wallet and the subscription form of the front end: \<^verbatim>\<open>frontend/src/lib/wallet_manager.ts\<close> (detection
  of the extension, connecting, signing), \<^verbatim>\<open>frontend/src/lib/allowance_checker.ts\<close> and
  \<^verbatim>\<open>frontend/src/lib/validation.ts\<close>. The Freighter extension, the clock and \<^verbatim>\<open>setTimeout\<close> are arguments
  that act on a world; a call that rejects gives the left part of a sum, or \<open>None\<close> where the error is
  dropped. The checksum tests of the SDK are arguments of the form.
\<close>

section \<open>Freighter\<close>

record account_reply =
  ar_error :: string
  ar_address :: string

record network_reply =
  nr_error :: string
  nr_networkPassphrase :: string

record sign_reply =
  sr_error :: string
  sr_signedTxXdr :: string

record 'w freighter =
  fr_isConnected :: "'w \<Rightarrow> bool option \<times> 'w"
  fr_isAllowed :: "'w \<Rightarrow> (string + bool) \<times> 'w"
  fr_setAllowed :: "'w \<Rightarrow> (string + unit) \<times> 'w"
  fr_requestAccess :: "'w \<Rightarrow> (string + string) \<times> 'w"
  fr_getAddress :: "'w \<Rightarrow> (string + account_reply) \<times> 'w"
  fr_getNetwork :: "'w \<Rightarrow> (string + network_reply) \<times> 'w"
  fr_signTransaction :: "string \<Rightarrow> string \<Rightarrow> 'w \<Rightarrow> (string + sign_reply) \<times> 'w"
  fr_now :: "'w \<Rightarrow> int"
  fr_sleep :: "int \<Rightarrow> 'w \<Rightarrow> 'w"

text \<open>The polling loop; the fuel bounds the number of rounds, and \<open>None\<close> is running out of it. After the
  loop there is one last attempt.\<close>

definition last_attempt :: "'w freighter \<Rightarrow> 'w \<Rightarrow> bool \<times> 'w" where
  "last_attempt F w = (case fr_isConnected F w of (r, w') \<Rightarrow> (r = Some True, w'))"

fun detect_loop :: "'w freighter \<Rightarrow> int \<Rightarrow> int \<Rightarrow> nat \<Rightarrow> 'w \<Rightarrow> (bool \<times> 'w) option" where
  "detect_loop F deadline intervalMs 0 w = None"
| "detect_loop F deadline intervalMs (Suc fuel) w =
     (if \<not> fr_now F w < deadline then Some (last_attempt F w)
      else case fr_isConnected F w of (r, w1) \<Rightarrow>
        if r = Some True then Some (True, w1)
        else let remaining = deadline - fr_now F w1 in
          if remaining \<le> 0 then Some (last_attempt F w1)
          else detect_loop F deadline intervalMs fuel (fr_sleep F (min intervalMs remaining) w1))"

definition detectFreighter :: "'w freighter \<Rightarrow> int \<Rightarrow> int \<Rightarrow> nat \<Rightarrow> 'w \<Rightarrow> (bool \<times> 'w) option" where
  "detectFreighter F timeoutMs intervalMs fuel w = detect_loop F (fr_now F w + timeoutMs) intervalMs fuel w"

text \<open>Connecting, once the extension was looked for.\<close>

definition read_address :: "'w freighter \<Rightarrow> 'w \<Rightarrow> (string + string) \<times> 'w" where
  "read_address F w = (case fr_getAddress F w of
       (Inl e, w') \<Rightarrow> (Inl e, w')
     | (Inr a, w') \<Rightarrow>
         (if ar_error a \<noteq> '''' then Inl (''Could not retrieve public key: '' @ ar_error a)
          else if ar_address a = '''' then Inl ''Freighter returned an empty public key.''
          else Inr (ar_address a), w'))"

definition request_access :: "'w freighter \<Rightarrow> 'w \<Rightarrow> (string + string) \<times> 'w" where
  "request_access F w = (case fr_requestAccess F w of
       (Inl e, w') \<Rightarrow> (Inl e, w')
     | (Inr err, w') \<Rightarrow>
         if err \<noteq> '''' then (Inl (''Access was denied: '' @ err), w') else read_address F w')"

definition connectWallet :: "'w freighter \<Rightarrow> nat \<Rightarrow> 'w \<Rightarrow> ((string + string) \<times> 'w) option" where
  "connectWallet F fuel w = (case detectFreighter F 3000 100 fuel w of
       None \<Rightarrow> None
     | Some (False, w1) \<Rightarrow> Some (Inl (''Freighter wallet is not installed. '' @
         ''Install it from https://www.freighter.app to continue.''), w1)
     | Some (True, w1) \<Rightarrow> Some (case fr_isAllowed F w1 of
           (Inl e, w2) \<Rightarrow> (Inl e, w2)
         | (Inr allowed, w2) \<Rightarrow>
             if allowed then request_access F w2
             else (case fr_setAllowed F w2 of
                 (Inl e, w3) \<Rightarrow> (Inl e, w3)
               | (Inr _, w3) \<Rightarrow> request_access F w3)))"

definition restoreWalletSession :: "'w freighter \<Rightarrow> 'w \<Rightarrow> string option \<times> 'w" where
  "restoreWalletSession F w = (case fr_getAddress F w of
       (Inl _, w') \<Rightarrow> (None, w')
     | (Inr a, w') \<Rightarrow> (if ar_error a \<noteq> '''' \<or> ar_address a = '''' then None else Some (ar_address a), w'))"

section \<open>Signing\<close>

definition sign_step :: "'w freighter \<Rightarrow> string \<Rightarrow> string \<Rightarrow> 'w \<Rightarrow> (string + string) \<times> 'w" where
  "sign_step F xdr passphrase w = (case fr_signTransaction F xdr passphrase w of
       (Inl e, w') \<Rightarrow> (Inl e, w')
     | (Inr r, w') \<Rightarrow>
         (if sr_error r \<noteq> '''' then Inl (''Transaction signing failed: '' @ sr_error r)
          else if sr_signedTxXdr r = '''' then Inl ''Freighter returned an empty signed transaction XDR.''
          else Inr (sr_signedTxXdr r), w'))"

definition check_session :: "string + account_reply \<Rightarrow> string + network_reply \<Rightarrow> string \<Rightarrow> string \<Rightarrow> string option" where
  "check_session acc net expectedKey passphrase = (case (acc, net) of
       (Inr a, Inr n) \<Rightarrow>
         if ar_error a \<noteq> '''' \<or> ar_address a = '''' then
           Some ''Unable to verify the current Freighter account. Reconnect your wallet and try again.''
         else if ar_address a \<noteq> expectedKey then
           Some ''The Freighter account changed before signing. Review the transaction with your current wallet and try again.''
         else if nr_error n \<noteq> '''' \<or> nr_networkPassphrase n = '''' then
           Some ''Unable to verify the current Freighter network. Reconnect your wallet and try again.''
         else if nr_networkPassphrase n \<noteq> passphrase then
           Some ''The Freighter network changed before signing. Switch back to the expected network and try again.''
         else None
     | _ \<Rightarrow> Some ''Unable to verify the current Freighter account and network. Reconnect your wallet and try again.'')"

definition signTx :: "'w freighter \<Rightarrow> string \<Rightarrow> string \<Rightarrow> string option \<Rightarrow> 'w \<Rightarrow> (string + string) \<times> 'w" where
  "signTx F xdr passphrase expectedPublicKey w =
     (if expectedPublicKey = None \<or> expectedPublicKey = Some '''' then sign_step F xdr passphrase w
      else case fr_getAddress F w of (acc, w1) \<Rightarrow> case fr_getNetwork F w1 of (net, w2) \<Rightarrow>
        case check_session acc net (the expectedPublicKey) passphrase of
          Some e \<Rightarrow> (Inl e, w2)
        | None \<Rightarrow> sign_step F xdr passphrase w2)"

section \<open>The form\<close>

definition base32_char :: "char \<Rightarrow> bool" where
  "base32_char c \<longleftrightarrow> (let n = (of_char c :: nat) in 65 \<le> n \<and> n \<le> 90 \<or> 50 \<le> n \<and> n \<le> 55)"

definition address_shape :: "char \<Rightarrow> string \<Rightarrow> bool" where
  "address_shape c s \<longleftrightarrow> length s = 56 \<and> hd s = c \<and> list_all base32_char (tl s)"

definition isValidGAddress :: "string \<Rightarrow> bool" where
  "isValidGAddress addr = address_shape (CHR ''G'') (js_trim addr)"

definition isValidCAddress :: "string \<Rightarrow> bool" where
  "isValidCAddress addr = address_shape (CHR ''C'') (js_trim addr)"

definition normalizeAddress :: "string \<Rightarrow> string" where "normalizeAddress addr = js_trim addr"

definition assertValidGAddress :: "string \<Rightarrow> string \<Rightarrow> string + string" where
  "assertValidGAddress addr label = (if isValidGAddress (normalizeAddress addr) then Inr (normalizeAddress addr)
     else Inl (''Invalid '' @ label @ '' address: '' @ addr))"

definition assertValidCAddress :: "string \<Rightarrow> string \<Rightarrow> string + string" where
  "assertValidCAddress addr label = (if isValidCAddress (normalizeAddress addr) then Inr (normalizeAddress addr)
     else Inl (''Invalid '' @ label @ '' address: '' @ addr))"

definition MIN_INTERVAL_SECONDS :: int where "MIN_INTERVAL_SECONDS = 86400"
definition MAX_INTERVAL_SECONDS :: int where "MAX_INTERVAL_SECONDS = 31536000"
definition MAX_AMOUNT :: int where "MAX_AMOUNT = 1000000000000000000"

text \<open>\<^verbatim>\<open>/^-?\d+$/\<close> and the number it stands for.\<close>

definition whole_number :: "string \<Rightarrow> int option" where
  "whole_number s = (case s of
       [] \<Rightarrow> None
     | c # cs \<Rightarrow> if c = CHR ''-'' then (if cs \<noteq> [] \<and> list_all is_digit cs then Some (- int (digits_val cs)) else None)
                else if list_all is_digit s then Some (int (digits_val s)) else None)"

record FormValues =
  fv_merchantAddress :: string
  fv_tokenAddress :: string
  fv_amount :: string
  fv_interval :: string
  fv_subscriberAddress :: "string option"

record FieldErrors =
  fe_merchantAddress :: "string option"
  fe_tokenAddress :: "string option"
  fe_amount :: "string option"
  fe_interval :: "string option"

record checksums =
  ck_account :: "string \<Rightarrow> bool"
  ck_contract :: "string \<Rightarrow> bool"

text \<open>The first message of each field. The schema trims a field, then applies its checks in order; the check
  of the whole form adds its message to the merchant behind those of the field.\<close>

definition address_error :: "(string \<Rightarrow> bool) \<Rightarrow> string \<Rightarrow> string \<Rightarrow> string \<Rightarrow> string option" where
  "address_error ok missing wrong s = (let t = js_trim s in
     if t = '''' then Some missing else if \<not> ok (normalizeAddress t) then Some wrong else None)"

definition is_self :: "FormValues \<Rightarrow> bool" where
  "is_self v = (case fv_subscriberAddress v of
       None \<Rightarrow> False
     | Some s \<Rightarrow> s \<noteq> '''' \<and> js_trim (fv_merchantAddress v) = js_trim s)"

definition merchant_error :: "checksums \<Rightarrow> FormValues \<Rightarrow> string option" where
  "merchant_error ck v =
     (case address_error (ck_account ck) ''Merchant address is required.''
         ''Enter a valid Stellar address (starts with G)'' (fv_merchantAddress v) of
        Some e \<Rightarrow> Some e
      | None \<Rightarrow> if is_self v then Some (''Merchant address cannot be the same as your subscriber address. ''
            @ ''A subscription to yourself is not allowed.'') else None)"

definition amount_error :: "string \<Rightarrow> string option" where
  "amount_error s = (let t = js_trim s in
     if t = '''' then Some ''Amount is required.''
     else case whole_number t of
         None \<Rightarrow> Some ''Amount must be a whole number.''
       | Some n \<Rightarrow> if \<not> 0 < n then Some ''Amount must be greater than 0''
           else if \<not> n \<le> MAX_AMOUNT then Some ''Amount exceeds maximum allowed value'' else None)"

definition interval_error :: "string \<Rightarrow> string option" where
  "interval_error s = (let t = js_trim s in
     if t = '''' then Some ''Interval is required.''
     else case whole_number t of
         None \<Rightarrow> Some ''Interval must be a whole number of seconds.''
       | Some n \<Rightarrow> if \<not> MIN_INTERVAL_SECONDS \<le> n then Some ''Interval must be at least 1 day (86400 seconds)''
           else if \<not> n \<le> MAX_INTERVAL_SECONDS
             then Some (''Interval must not exceed '' @ int_str MAX_INTERVAL_SECONDS @ '' seconds'') else None)"

definition validateSubscriptionForm :: "checksums \<Rightarrow> FormValues \<Rightarrow> FieldErrors" where
  "validateSubscriptionForm ck v = \<lparr>fe_merchantAddress = merchant_error ck v,
     fe_tokenAddress = address_error (ck_contract ck) ''Token contract address is required.''
       ''Enter a valid Stellar contract address (starts with C)'' (fv_tokenAddress v),
     fe_amount = amount_error (fv_amount v), fe_interval = interval_error (fv_interval v)\<rparr>"

definition isFormValid :: "FieldErrors \<Rightarrow> bool" where
  "isFormValid e \<longleftrightarrow> fe_merchantAddress e = None \<and> fe_tokenAddress e = None \<and> fe_amount e = None \<and> fe_interval e = None"

section \<open>The allowance\<close>

record AllowanceParams =
  ap_subscriberAddress :: string
  ap_tokenContractId :: string
  ap_contractId :: string
  ap_requiredAmount :: int

record AllowanceResult =
  al_allowance :: int
  al_sufficient :: bool
  al_shortfall :: int

text \<open>The answer to the simulated call \<^verbatim>\<open>allowance(owner, spender)\<close>; a success may lack its value. An error
  of the SDK while the call is built is one of the simulation.\<close>

datatype sim_reply = SimError string | SimSuccess "native option" | SimOther

record allowance_rpc =
  rp_getAccount :: "string \<Rightarrow> string option"
  rp_simulate :: "string \<Rightarrow> string \<Rightarrow> string \<Rightarrow> string + sim_reply"

definition allowance_result :: "int \<Rightarrow> int \<Rightarrow> AllowanceResult" where
  "allowance_result raw required = (let allowance = (if raw < 0 then 0 else raw); sufficient = (required \<le> allowance)
     in \<lparr>al_allowance = allowance, al_sufficient = sufficient,
         al_shortfall = (if sufficient then 0 else required - allowance)\<rparr>)"

fun native_type :: "native \<Rightarrow> string" where
  "native_type NUndefined = ''undefined''"
| "native_type (NBool _) = ''boolean''"
| "native_type (NNumber _) = ''number''"
| "native_type (NBigint _) = ''bigint''"
| "native_type (NText _) = ''string''"
| "native_type _ = ''object''"

definition read_allowance :: "sim_reply \<Rightarrow> int \<Rightarrow> string + AllowanceResult" where
  "read_allowance sim required = (case sim of
       SimError e \<Rightarrow> Inl (''checkAllowance: simulation failed: '' @ e)
     | SimOther \<Rightarrow> Inl ''checkAllowance: unexpected simulation result (neither success nor error)''
     | SimSuccess None \<Rightarrow> Inl ''checkAllowance: simulation returned no result value''
     | SimSuccess (Some (NBigint n)) \<Rightarrow> Inr (allowance_result n required)
     | SimSuccess (Some v) \<Rightarrow>
         Inl (''checkAllowance: expected i128 (bigint) from allowance(), got '' @ native_type v))"

definition checkAllowance :: "allowance_rpc \<Rightarrow> AllowanceParams \<Rightarrow> string + AllowanceResult" where
  "checkAllowance R p =
     (if \<not> isValidGAddress (ap_subscriberAddress p) then
        Inl (''checkAllowance: invalid subscriber address: '' @ ap_subscriberAddress p)
      else if \<not> isValidCAddress (ap_tokenContractId p) then
        Inl (''checkAllowance: invalid token contract address: '' @ ap_tokenContractId p)
      else if \<not> isValidCAddress (ap_contractId p) then
        Inl (''checkAllowance: invalid SorobanPay contract address: '' @ ap_contractId p)
      else if ap_requiredAmount p < 0 then
        Inl (''checkAllowance: requiredAmount must be non-negative, got '' @ int_str (ap_requiredAmount p))
      else (case rp_getAccount R (ap_subscriberAddress p) of
          Some e \<Rightarrow> Inl e
        | None \<Rightarrow> (case rp_simulate R (ap_tokenContractId p) (ap_subscriberAddress p) (ap_contractId p) of
            Inl e \<Rightarrow> Inl e
          | Inr sim \<Rightarrow> read_allowance sim (ap_requiredAmount p))))"

definition formatAllowance :: "int \<Rightarrow> int option \<Rightarrow> string" where
  "formatAllowance raw decimals = (case decimals of
       None \<Rightarrow> int_str raw
     | Some d \<Rightarrow> if d \<le> 0 then int_str raw
         else let factor = 10 ^ nat d in
           int_str (js_quot raw factor) @ ''.'' @ padStart (int_str (js_rem raw factor)) (nat d))"

section \<open>Detection\<close>

text \<open>Time does not run backwards, and a sleep takes at least its time.\<close>

definition clock_ok :: "'w freighter \<Rightarrow> bool" where
  "clock_ok F \<longleftrightarrow> (\<forall>w. fr_now F w \<le> fr_now F (snd (fr_isConnected F w))) \<and>
     (\<forall>d w. 0 < d \<longrightarrow> fr_now F w + d \<le> fr_now F (fr_sleep F d w))"

lemma detect_loop_returns:
  assumes "clock_ok F" and "0 < intervalMs"
  shows "nat (deadline - fr_now F w) < fuel \<Longrightarrow> \<exists>b w'. detect_loop F deadline intervalMs fuel w = Some (b, w')"
proof (induction fuel arbitrary: w)
  case (Suc fuel)
  obtain r w1 where c: "fr_isConnected F w = (r, w1)" by fastforce
  have le: "fr_now F w \<le> fr_now F w1" using assms(1) c by (metis clock_ok_def snd_conv)
  let ?w2 = "fr_sleep F (min intervalMs (deadline - fr_now F w1)) w1"
  show ?case
  proof (cases "fr_now F w < deadline \<and> r \<noteq> Some True \<and> 0 < deadline - fr_now F w1")
    case True
    then have "0 < min intervalMs (deadline - fr_now F w1)" using assms(2) by simp
    then have "fr_now F w1 + min intervalMs (deadline - fr_now F w1) \<le> fr_now F ?w2"
      using assms(1) by (simp add: clock_ok_def)
    then have "nat (deadline - fr_now F ?w2) < fuel" using Suc.prems True le assms(2) by linarith
    from Suc.IH [OF this] True c show ?thesis by (simp add: Let_def)
  next
    case False
    then show ?thesis using c by (cases "last_attempt F w"; cases "last_attempt F w1") (auto simp: Let_def)
  qed
qed simp

lemma detect_loop_finds:
  assumes "clock_ok F" and up: "\<And>w. t0 \<le> fr_now F w \<Longrightarrow> fst (fr_isConnected F w) = Some True" and "t0 \<le> deadline"
  shows "detect_loop F deadline intervalMs fuel w = Some (b, w') \<Longrightarrow> b"
proof (induction fuel arbitrary: w)
  case (Suc fuel)
  obtain r w1 where c: "fr_isConnected F w = (r, w1)" by fastforce
  have last: "last_attempt F v = (b, w') \<Longrightarrow> deadline \<le> fr_now F v \<Longrightarrow> b" for v
    using up [of v] assms(3) by (auto simp: last_attempt_def split: prod.splits)
  show ?case using Suc.prems Suc.IH last [of w] last [of w1] c
    by (auto simp: Let_def split: if_splits)
qed simp

lemma detect_loop_absent:
  assumes "\<And>w. fst (fr_isConnected F w) \<noteq> Some True"
  shows "detect_loop F deadline intervalMs fuel w = Some (b, w') \<Longrightarrow> \<not> b"
proof (induction fuel arbitrary: w)
  case (Suc fuel)
  obtain r w1 where c: "fr_isConnected F w = (r, w1)" by fastforce
  have last: "last_attempt F v = (b, w') \<Longrightarrow> \<not> b" for v
    using assms [of v] by (auto simp: last_attempt_def split: prod.splits)
  show ?case using Suc.prems Suc.IH last assms [of w] c
    by (auto simp: Let_def split: if_splits)
qed simp

text \<open>Detection always answers, after at most one round per millisecond of its time: it finds an
  extension that appears before the time is over and stays, and does not find one that never appears.\<close>

theorem detection_exact:
  assumes "clock_ok F" and "0 < intervalMs" and "nat timeoutMs < fuel"
  shows "\<exists>b w'. detectFreighter F timeoutMs intervalMs fuel w = Some (b, w') \<and>
     ((\<exists>t0 \<le> fr_now F w + timeoutMs. \<forall>v. t0 \<le> fr_now F v \<longrightarrow> fst (fr_isConnected F v) = Some True) \<longrightarrow> b) \<and>
     ((\<forall>v. fst (fr_isConnected F v) \<noteq> Some True) \<longrightarrow> \<not> b)"
proof -
  have "nat (fr_now F w + timeoutMs - fr_now F w) < fuel" using assms(3) by simp
  from detect_loop_returns [OF assms(1,2) this]
  obtain b w' where run: "detect_loop F (fr_now F w + timeoutMs) intervalMs fuel w = Some (b, w')" by blast
  moreover have "b" if "t0 \<le> fr_now F w + timeoutMs" "\<forall>v. t0 \<le> fr_now F v \<longrightarrow> fst (fr_isConnected F v) = Some True" for t0
    using detect_loop_finds [OF assms(1) _ that(1) run] that(2) by blast
  moreover have "\<not> b" if "\<forall>v. fst (fr_isConnected F v) \<noteq> Some True"
    using detect_loop_absent [OF _ run] that by blast
  ultimately show ?thesis unfolding detectFreighter_def by blast
qed

text \<open>A browser that injects the extension at time 5.\<close>

definition late_freighter :: "int freighter" where
  "late_freighter = \<lparr>fr_isConnected = (\<lambda>t. (if 5 \<le> t then Some True else None, t)),
     fr_isAllowed = (\<lambda>t. (Inr True, t)), fr_setAllowed = (\<lambda>t. (Inr (), t)), fr_requestAccess = (\<lambda>t. (Inr '''', t)),
     fr_getAddress = (\<lambda>t. (Inr \<lparr>ar_error = '''', ar_address = (if t < 9 then ''GA'' else ''GB'')\<rparr>, t)),
     fr_getNetwork = (\<lambda>t. (Inr \<lparr>nr_error = '''', nr_networkPassphrase = ''Test''\<rparr>, t)),
     fr_signTransaction = (\<lambda>x p t. (Inr \<lparr>sr_error = '''', sr_signedTxXdr = x @ ''!''\<rparr>, t + 1)),
     fr_now = (\<lambda>t. t), fr_sleep = (\<lambda>d t. t + d)\<rparr>"

lemma late_clock: "clock_ok late_freighter"
  by (simp add: clock_ok_def late_freighter_def)

theorem detection_exact_witness:
  "\<exists>w'. detectFreighter late_freighter 10 3 11 0 = Some (True, w')"
proof -
  obtain b w' where "detectFreighter late_freighter 10 3 11 0 = Some (b, w')"
    and b: "(\<exists>t0 \<le> fr_now late_freighter 0 + 10. \<forall>v. t0 \<le> fr_now late_freighter v \<longrightarrow>
        fst (fr_isConnected late_freighter v) = Some True) \<longrightarrow> b"
    using detection_exact [OF late_clock, of 3 10 11 0] by auto
  moreover have "b" by (rule mp [OF b], rule exI [of _ 5]) (simp add: late_freighter_def)
  ultimately show ?thesis by simp
qed

section \<open>Signing\<close>

text \<open>C32: With an expected account, a transaction is given to the wallet only if the wallet answers with
  that account and the network of the transaction; in every other case the call fails without asking for a
  signature.\<close>

theorem sign_only_expected:
  assumes "expectedKey \<noteq> ''''" and "fr_getAddress F w = (acc, w1)" and "fr_getNetwork F w1 = (net, w2)"
  shows "if (\<exists>a n. acc = Inr a \<and> net = Inr n \<and> ar_error a = '''' \<and> nr_error n = '''' \<and>
            ar_address a = expectedKey \<and> nr_networkPassphrase n = passphrase \<and> passphrase \<noteq> '''')
     then signTx F xdr passphrase (Some expectedKey) w = sign_step F xdr passphrase w2
     else \<exists>e. signTx F xdr passphrase (Some expectedKey) w = (Inl e, w2)"
  using assms by (auto simp: signTx_def check_session_def split: sum.splits)

theorem sign_only_expected_witness:
  "signTx late_freighter ''T'' ''Test'' (Some ''GA'') 7 = (Inr ''T!'', 8) \<and>
   (\<exists>e. signTx late_freighter ''T'' ''Test'' (Some ''GA'') 9 = (Inl e, 9))"
proof -
  have "sign_step late_freighter ''T'' ''Test'' 7 = (Inr ''T!'', 8)"
    by (simp add: sign_step_def late_freighter_def)
  moreover have a: "fr_getAddress late_freighter t = (Inr \<lparr>ar_error = '''', ar_address = (if t < 9 then ''GA'' else ''GB'')\<rparr>, t)"
    and n: "fr_getNetwork late_freighter t = (Inr \<lparr>nr_error = '''', nr_networkPassphrase = ''Test''\<rparr>, t)" for t
    by (simp_all add: late_freighter_def)
  ultimately show ?thesis
    using sign_only_expected [OF _ a n, of "''GA''" 7 "''Test''" "''T''"]
      sign_only_expected [OF _ a n, of "''GA''" 9 "''Test''" "''T''"]
    by simp
qed

section \<open>The form\<close>

lemma js_trim_idem [simp]: "js_trim (js_trim s) = js_trim s"
proof -
  define t where "t = dropWhile is_space s"
  have t: "t = [] \<or> \<not> is_space (hd t)" unfolding t_def using hd_dropWhile [of is_space s] by blast
  have trim: "js_trim s = rev (dropWhile is_space (rev t))" by (simp add: js_trim_def t_def)
  have "prefix (js_trim s) t"
    unfolding trim by (metis rev_rev_ident suffix_dropWhile suffix_to_prefix)
  then have "js_trim s = [] \<or> \<not> is_space (hd (js_trim s))" using t by (auto simp: prefix_def)
  then have "dropWhile is_space (js_trim s) = js_trim s" by (cases "js_trim s") auto
  then show ?thesis unfolding js_trim_def [of "js_trim s"] by (simp add: trim)
qed

text \<open>C35: A form has no errors exactly when the merchant and the token are addresses with a valid checksum, the
  merchant is not the subscriber, and the amount and the interval are whole numbers within the limits of the
  contract.\<close>

theorem form_valid_iff:
  "isFormValid (validateSubscriptionForm ck v) \<longleftrightarrow>
     js_trim (fv_merchantAddress v) \<noteq> '''' \<and> ck_account ck (js_trim (fv_merchantAddress v)) \<and> \<not> is_self v \<and>
     js_trim (fv_tokenAddress v) \<noteq> '''' \<and> ck_contract ck (js_trim (fv_tokenAddress v)) \<and>
     (\<exists>n. whole_number (js_trim (fv_amount v)) = Some n \<and> 0 < n \<and> n \<le> 10 ^ 18) \<and>
     (\<exists>n. whole_number (js_trim (fv_interval v)) = Some n \<and> 24 * 60 * 60 \<le> n \<and> n \<le> 365 * 24 * 60 * 60)"
proof -
  have empty: "whole_number '''' = None" by (simp add: whole_number_def)
  have merchant: "merchant_error ck v = None \<longleftrightarrow>
      js_trim (fv_merchantAddress v) \<noteq> '''' \<and> ck_account ck (js_trim (fv_merchantAddress v)) \<and> \<not> is_self v"
    by (auto simp: merchant_error_def address_error_def normalizeAddress_def Let_def)
  have amount: "amount_error s = None \<longleftrightarrow> (\<exists>n. whole_number (js_trim s) = Some n \<and> 0 < n \<and> n \<le> 10 ^ 18)" for s
    using empty by (auto simp: amount_error_def Let_def MAX_AMOUNT_def split: option.splits)
  have interval: "interval_error s = None \<longleftrightarrow>
      (\<exists>n. whole_number (js_trim s) = Some n \<and> 24 * 60 * 60 \<le> n \<and> n \<le> 365 * 24 * 60 * 60)" for s
    using empty by (auto simp: interval_error_def Let_def MIN_INTERVAL_SECONDS_def MAX_INTERVAL_SECONDS_def
        split: option.splits)
  show ?thesis
    unfolding isFormValid_def validateSubscriptionForm_def FieldErrors.simps merchant amount interval
    by (auto simp: address_error_def normalizeAddress_def Let_def)
qed

section \<open>The allowance\<close>

text \<open>When the checks and the simulation succeed, the allowance is reported as sufficient exactly if it
  covers the amount, a negative answer counting as none, and granting the reported shortfall on top makes it
  sufficient and nothing less does.\<close>

theorem allowance_exact:
  assumes "checkAllowance R p = Inr r"
  shows "\<exists>n. rp_simulate R (ap_tokenContractId p) (ap_subscriberAddress p) (ap_contractId p) = Inr (SimSuccess (Some (NBigint n)))
     \<and> al_allowance r = max 0 n
     \<and> (al_sufficient r \<longleftrightarrow> ap_requiredAmount p \<le> al_allowance r)
     \<and> (\<forall>extra \<ge> 0. ap_requiredAmount p \<le> al_allowance r + extra \<longleftrightarrow> al_shortfall r \<le> extra)"
proof -
  obtain n where sim: "rp_simulate R (ap_tokenContractId p) (ap_subscriberAddress p) (ap_contractId p) =
      Inr (SimSuccess (Some (NBigint n)))" and r: "r = allowance_result n (ap_requiredAmount p)"
    using assms by (auto simp: checkAllowance_def read_allowance_def
        split: if_splits option.splits sum.splits sim_reply.splits native.splits)
  have "al_allowance r = max 0 n" "al_sufficient r \<longleftrightarrow> ap_requiredAmount p \<le> al_allowance r"
    "al_shortfall r = (if al_sufficient r then 0 else ap_requiredAmount p - al_allowance r)"
    by (simp_all add: r allowance_result_def Let_def)
  then show ?thesis using sim by auto
qed

definition demo_allowance :: AllowanceParams where
  "demo_allowance = \<lparr>ap_subscriberAddress = CHR ''G'' # replicate 55 (CHR ''A''),
     ap_tokenContractId = CHR ''C'' # replicate 55 (CHR ''A''), ap_contractId = CHR ''C'' # replicate 55 (CHR ''B''),
     ap_requiredAmount = 9\<rparr>"

theorem allowance_exact_witness:
  "\<exists>r. checkAllowance \<lparr>rp_getAccount = (\<lambda>_. None), rp_simulate = (\<lambda>_ _ _. Inr (SimSuccess (Some (NBigint 4))))\<rparr>
      demo_allowance = Inr r \<and> al_allowance r = 4 \<and> \<not> al_sufficient r"
proof -
  let ?R = "\<lparr>rp_getAccount = (\<lambda>_. None), rp_simulate = (\<lambda>_ _ _. Inr (SimSuccess (Some (NBigint 4))))\<rparr>"
  have run: "checkAllowance ?R demo_allowance = Inr (allowance_result 4 9)" by code_simp
  from allowance_exact [OF run] show ?thesis using run by (simp add: demo_allowance_def)
qed

text \<open>Without a strange sign the text is the one of the amounts; a negative number prints a sign inside the
  fraction.\<close>

lemma formatAllowance_amount: "0 < d \<Longrightarrow> Inr (formatAllowance raw (Some d)) = formatTokenAmount raw d False"
  by (simp add: formatAllowance_def formatTokenAmount_def getDecimalMultiplier_def Let_def)

lemma negative_allowance_text: "formatAllowance (- 5) (Some 2) = ''0.-5''"
  by code_simp

end
