(* ===== verification/Address_Book.thy ===== *)
theory Address_Book
  imports Json
begin

text \<open>
  The address book of the front end, \<^verbatim>\<open>frontend/src/hooks/useAddressBook.ts\<close>: one book per wallet in
  \<^verbatim>\<open>localStorage\<close>, loaded and saved by the effects of a React hook. The stored texts are of any type with a
  JSON codec; a book is the object that was read, a list of pairs of which the keys are distinct and no
  numbers (they are addresses), its entries unchecked values. An effect runs after a
  render whose dependencies changed: a change of the wallet runs the loading and then the saving effect,
  and the loaded entries cause a second render, which saves again.
\<close>

section \<open>Books\<close>

type_synonym book = "(string \<times> json) list"

record 't codec =
  cd_parse :: "'t \<Rightarrow> json option"
  cd_print :: "json \<Rightarrow> 't"
  cd_pretty :: "nat \<Rightarrow> json \<Rightarrow> 't"
  cd_empty :: "'t \<Rightarrow> bool"

definition storageKey :: "string \<Rightarrow> string" where
  "storageKey walletKey = ''sorobanpay_address_book_'' @ walletKey"

fun indexed :: "nat \<Rightarrow> json list \<Rightarrow> book" where
  "indexed i [] = []"
| "indexed i (x # xs) = (nat_str i, x) # indexed (Suc i) xs"

text \<open>\<^verbatim>\<open>null\<close> and values that are no objects give the empty book; an array counts as an object.\<close>

definition loadFromStorage :: "'t codec \<Rightarrow> string \<Rightarrow> (string \<rightharpoonup> 't) \<Rightarrow> book" where
  "loadFromStorage C walletKey ls = (case ls (storageKey walletKey) of
       None \<Rightarrow> []
     | Some raw \<Rightarrow> if cd_empty C raw then []
         else (case cd_parse C raw of
             Some (JObj kvs) \<Rightarrow> kvs
           | Some (JArr xs) \<Rightarrow> indexed 0 xs
           | _ \<Rightarrow> []))"

text \<open>A write that throws is ignored; \<open>fits\<close> says whether the browser takes it.\<close>

definition saveToStorage :: "'t codec \<Rightarrow> bool \<Rightarrow> string \<Rightarrow> book \<Rightarrow> (string \<rightharpoonup> 't) \<Rightarrow> (string \<rightharpoonup> 't)" where
  "saveToStorage C fits walletKey book ls =
     (if fits then ls(storageKey walletKey \<mapsto> cd_print C (JObj book)) else ls)"

section \<open>The operations on a book\<close>

text \<open>The functions given to \<^verbatim>\<open>setEntries\<close>; \<open>None\<close> returns the previous book, which causes no render.\<close>

definition entry_json :: "string \<Rightarrow> string \<Rightarrow> string \<Rightarrow> json" where
  "entry_json address label now = JObj [(''address'', JStr address), (''label'', JStr label),
     (''createdAt'', JStr now), (''updatedAt'', JStr now)]"

definition add_to :: "string \<Rightarrow> string \<Rightarrow> string \<Rightarrow> book \<Rightarrow> book option" where
  "add_to now address label prev = (let a = js_trim address; l = js_trim label in
     if a = '''' \<or> l = '''' then None
     else if truthy (map_of prev a) then None
     else Some (AList.update a (entry_json a l now) prev))"

text \<open>What \<^verbatim>\<open>...v\<close> copies: the fields of an object, the elements of a list and the characters of a text under their positions,
  nothing of any other value.\<close>

definition fields_of :: "json option \<Rightarrow> (string \<times> json) list" where
  "fields_of v = (case v of
       Some (JObj kvs) \<Rightarrow> kvs
     | Some (JArr js) \<Rightarrow> indexed 0 js
     | Some (JStr s) \<Rightarrow> indexed 0 (map (\<lambda>c. JStr [c]) s)
     | _ \<Rightarrow> [])"

definition update_in :: "string \<Rightarrow> string \<Rightarrow> string \<Rightarrow> book \<Rightarrow> book option" where
  "update_in now address label prev = (let l = js_trim label in
     if address = '''' \<or> l = '''' then None
     else if \<not> truthy (map_of prev address) then None
     else Some (AList.update address (JObj (AList.update ''updatedAt'' (JStr now)
       (AList.update ''label'' (JStr l) (fields_of (map_of prev address))))) prev))"

definition delete_from :: "string \<Rightarrow> book \<Rightarrow> book option" where
  "delete_from address prev = Some (AList.delete address prev)"

definition getLabel :: "string \<Rightarrow> book \<Rightarrow> json option" where
  "getLabel address entries = coalesce (jget (map_of entries address) ''label'') (Some JNull)"

definition exportBook :: "'t codec \<Rightarrow> book \<Rightarrow> 't" where
  "exportBook C entries = cd_pretty C 2 (JObj entries)"

section \<open>The hook\<close>

record 't book_hook =
  bk_entries :: book
  bk_wallet :: "string option"
  bk_storage :: "string \<rightharpoonup> 't"

datatype book_op =
    AddEntry string string string
  | UpdateEntry string string string
  | DeleteEntry string
  | ImportBook book
  | ConnectWallet "string option"

definition new_entries :: "book_op \<Rightarrow> book \<Rightarrow> book option" where
  "new_entries op prev = (case op of
       AddEntry now a l \<Rightarrow> add_to now a l prev
     | UpdateEntry now a l \<Rightarrow> update_in now a l prev
     | DeleteEntry a \<Rightarrow> delete_from a prev
     | ImportBook b \<Rightarrow> Some b
     | ConnectWallet _ \<Rightarrow> None)"

text \<open>The saving effect after a render with other entries, and the two renders after a change of the wallet:
  the first saves the entries that are still those of the previous wallet.\<close>

definition save_effect :: "'t codec \<Rightarrow> bool \<Rightarrow> 't book_hook \<Rightarrow> 't book_hook" where
  "save_effect C fits h = (case bk_wallet h of
       None \<Rightarrow> h
     | Some k \<Rightarrow> if k = '''' then h
         else h\<lparr>bk_storage := saveToStorage C fits k (bk_entries h) (bk_storage h)\<rparr>)"

definition load_effect :: "'t codec \<Rightarrow> 't book_hook \<Rightarrow> book" where
  "load_effect C h = (case bk_wallet h of
       None \<Rightarrow> []
     | Some k \<Rightarrow> if k = '''' then [] else loadFromStorage C k (bk_storage h))"

definition connect_wallet :: "'t codec \<Rightarrow> bool \<Rightarrow> bool \<Rightarrow> string option \<Rightarrow> 't book_hook \<Rightarrow> 't book_hook" where
  "connect_wallet C fits1 fits2 k h = (let h1 = h\<lparr>bk_wallet := k\<rparr>; loaded = load_effect C h1;
       h2 = save_effect C fits1 h1
     in save_effect C fits2 (h2\<lparr>bk_entries := loaded\<rparr>))"

definition book_step :: "'t codec \<Rightarrow> book_op \<Rightarrow> 't book_hook \<Rightarrow> 't book_hook" where
  "book_step C op h = (case op of
       ConnectWallet k \<Rightarrow> if k = bk_wallet h then h else connect_wallet C True True k h
     | _ \<Rightarrow> (case new_entries op (bk_entries h) of
         None \<Rightarrow> h
       | Some e \<Rightarrow> save_effect C True (h\<lparr>bk_entries := e\<rparr>)))"

section \<open>A book per wallet\<close>

text \<open>What a user expects: one book for each wallet, of which the operations change the one of the connected
  wallet only. Without a wallet there is a book that is forgotten.\<close>

record books =
  bs_of :: "string \<Rightarrow> book"
  bs_wallet :: "string option"
  bs_loose :: book

definition current_book :: "books \<Rightarrow> book" where
  "current_book s = (case bs_wallet s of Some k \<Rightarrow> if k = '''' then bs_loose s else bs_of s k | None \<Rightarrow> bs_loose s)"

definition set_current :: "book \<Rightarrow> books \<Rightarrow> books" where
  "set_current b s = (case bs_wallet s of
       Some k \<Rightarrow> if k = '''' then s\<lparr>bs_loose := b\<rparr> else s\<lparr>bs_of := (bs_of s)(k := b)\<rparr>
     | None \<Rightarrow> s\<lparr>bs_loose := b\<rparr>)"

definition spec_step :: "book_op \<Rightarrow> books \<Rightarrow> books" where
  "spec_step op s = (case op of
       ConnectWallet k \<Rightarrow> if k = bs_wallet s then s else s\<lparr>bs_wallet := k, bs_loose := []\<rparr>
     | _ \<Rightarrow> (case new_entries op (current_book s) of None \<Rightarrow> s | Some e \<Rightarrow> set_current e s))"

definition codec_ok :: "'t codec \<Rightarrow> bool" where
  "codec_ok C \<longleftrightarrow> (\<forall>b. distinct (map fst b) \<longrightarrow>
     cd_parse C (cd_print C (JObj b)) = Some (JObj b) \<and> \<not> cd_empty C (cd_print C (JObj b)))"

text \<open>An imported book is an object too.\<close>

fun op_ok :: "book_op \<Rightarrow> bool" where
  "op_ok (ImportBook b) \<longleftrightarrow> distinct (map fst b)"
| "op_ok _ \<longleftrightarrow> True"

lemma new_entries_distinct:
  assumes "new_entries op b = Some e" and "op_ok op" and "distinct (map fst b)"
  shows "distinct (map fst e)"
  using assms by (cases op) (auto simp: new_entries_def add_to_def update_in_def delete_from_def Let_def
      distinct_update distinct_delete split: if_splits)

text \<open>The stored books are those of the specification, and the entries of the hook are the current one.\<close>

definition refines :: "'t codec \<Rightarrow> 't book_hook \<Rightarrow> books \<Rightarrow> bool" where
  "refines C h s \<longleftrightarrow> bk_wallet h = bs_wallet s \<and> bk_entries h = current_book s \<and>
     distinct (map fst (bs_loose s)) \<and>
     (\<forall>k. k \<noteq> '''' \<longrightarrow> loadFromStorage C k (bk_storage h) = bs_of s k \<and> distinct (map fst (bs_of s k)))"

lemma current_distinct: "refines C h s \<Longrightarrow> distinct (map fst (current_book s))"
  by (auto simp: refines_def current_book_def split: option.splits)

lemma load_save:
  assumes "codec_ok C" and "distinct (map fst b)"
  shows "loadFromStorage C k (saveToStorage C True k' b ls) = (if k = k' then b else loadFromStorage C k ls)"
  using assms by (auto simp: loadFromStorage_def saveToStorage_def storageKey_def codec_ok_def)

lemma refines_set:
  assumes "codec_ok C" and "refines C h s" and "distinct (map fst e)"
  shows "refines C (save_effect C True (h\<lparr>bk_entries := e\<rparr>)) (set_current e s)"
  using assms
  by (auto simp: refines_def save_effect_def set_current_def current_book_def load_save split: option.splits)

lemma refines_connect:
  assumes "codec_ok C" and "refines C h s"
  shows "refines C (connect_wallet C True True k h) (s\<lparr>bs_wallet := k, bs_loose := []\<rparr>)"
  using assms current_distinct [OF assms(2)]
  by (auto simp: refines_def connect_wallet_def save_effect_def load_effect_def current_book_def load_save Let_def
      split: option.splits)

lemma book_step_refines:
  assumes "codec_ok C" and "refines C h s" and "op_ok op"
  shows "refines C (book_step C op h) (spec_step op s)"
proof -
  have "bk_entries h = current_book s" "bk_wallet h = bs_wallet s" using assms(2) by (simp_all add: refines_def)
  then show ?thesis
    using refines_set [OF assms(1,2)] refines_connect [OF assms(1,2)] assms(2)
      new_entries_distinct [OF _ assms(3) current_distinct [OF assms(2)]]
    by (cases op) (auto simp: book_step_def spec_step_def split: option.splits)
qed

text \<open>C34: With a storage that takes its writes, any sequence of connecting wallets and of adding, changing,
  deleting and importing entries leaves for every wallet the book that its own operations made, and shows
  the book of the connected wallet.\<close>

theorem books_refine:
  assumes "codec_ok C" and "list_all op_ok ops" and "refines C h s"
  shows "refines C (fold (book_step C) ops h) (fold spec_step ops s)"
  using assms(2,3)
proof (induction ops arbitrary: h s)
  case (Cons op ops)
  then have "refines C (book_step C op h) (spec_step op s)" using book_step_refines [OF assms(1)] by simp
  from Cons.IH [OF _ this] Cons.prems show ?case by simp
qed simp

definition id_codec :: "json codec" where
  "id_codec = \<lparr>cd_parse = Some, cd_print = (\<lambda>j. j), cd_pretty = (\<lambda>_ j. j), cd_empty = (\<lambda>_. False)\<rparr>"

definition fresh_hook :: "'t book_hook" where
  "fresh_hook = \<lparr>bk_entries = [], bk_wallet = None, bk_storage = Map.empty\<rparr>"

definition no_books :: books where
  "no_books = \<lparr>bs_of = (\<lambda>_. []), bs_wallet = None, bs_loose = []\<rparr>"

lemma fresh_refines: "refines C fresh_hook no_books"
  by (simp add: refines_def fresh_hook_def no_books_def current_book_def loadFromStorage_def)

theorem books_refine_witness:
  "let h = fold (book_step id_codec) [ConnectWallet (Some ''GA''), AddEntry ''t'' '' GM '' ''Shop'',
       ConnectWallet (Some ''GB''), ConnectWallet (Some ''GA'')] fresh_hook
   in getLabel ''GM'' (bk_entries h) = Some (JStr ''Shop'') \<and> loadFromStorage id_codec ''GB'' (bk_storage h) = []"
proof -
  let ?ops = "[ConnectWallet (Some ''GA''), AddEntry ''t'' '' GM '' ''Shop'',
       ConnectWallet (Some ''GB''), ConnectWallet (Some ''GA'')]"
  have codec: "codec_ok id_codec" by (simp add: codec_ok_def id_codec_def)
  have r: "refines id_codec (fold (book_step id_codec) ?ops fresh_hook) (fold spec_step ?ops no_books)"
    by (rule books_refine [OF codec _ fresh_refines]) simp
  have "getLabel ''GM'' (current_book (fold spec_step ?ops no_books)) = Some (JStr ''Shop'')"
    and "bs_of (fold spec_step ?ops no_books) ''GB'' = []"
    by code_simp+
  then show ?thesis using r unfolding refines_def Let_def by simp
qed

text \<open>The write of the first render puts the entries of the wallet before under the key of the new one. If the
  browser refuses the write that repairs this, the book of the new wallet is lost and the other book is
  found in its place.\<close>

theorem refused_write_mixes_books:
  assumes "codec_ok C" and "k \<noteq> ''''" and "distinct (map fst (bk_entries h))"
  shows "loadFromStorage C k (bk_storage (connect_wallet C True False (Some k) h)) = bk_entries h"
  using assms by (simp add: connect_wallet_def save_effect_def Let_def load_save saveToStorage_def)
    (simp add: loadFromStorage_def codec_ok_def)

end
