(* ===== verification/Webhook_Ingest.thy ===== *)
theory Webhook_Ingest
  imports Webhook_Queue Json
begin

text \<open>
  The signed entrance to the webhook queue, \<^verbatim>\<open>backend/src/routes/webhooks.ts\<close>: capture of the raw body,
  the middleware that checks headers, age, repetition and signature, and the routes. Bodies are lists of
  bytes written as characters; the keyed hash, \<^verbatim>\<open>JSON.parse\<close> and the secret of the environment are
  arguments. The clock is in milliseconds.
\<close>

definition TIMESTAMP_TOLERANCE_SECONDS :: int where "TIMESTAMP_TOLERANCE_SECONDS = 300"
definition REPLAY_WINDOW_SECONDS :: int where "REPLAY_WINDOW_SECONDS = 600"
definition MAX_BODY_BYTES :: nat where "MAX_BODY_BYTES = 1024 * 512"

section \<open>The replay cache\<close>

text \<open>A map from delivery identifiers to the time they were seen.\<close>

type_synonym replay_cache = "(string \<times> int) list"

definition in_window :: "int \<Rightarrow> int \<Rightarrow> bool" where
  "in_window now seenAt \<longleftrightarrow> now - seenAt \<le> 1000 * REPLAY_WINDOW_SECONDS"

definition hasSeen :: "int \<Rightarrow> string \<Rightarrow> replay_cache \<Rightarrow> bool" where
  "hasSeen now deliveryId store = (case map_of store deliveryId of None \<Rightarrow> False | Some s \<Rightarrow> in_window now s)"

definition prune :: "int \<Rightarrow> replay_cache \<Rightarrow> replay_cache" where
  "prune now store = filter (\<lambda>(_, s). in_window now s) store"

definition markSeen :: "nat \<Rightarrow> int \<Rightarrow> string \<Rightarrow> replay_cache \<Rightarrow> bool \<times> replay_cache" where
  "markSeen maxSize now deliveryId store =
     (if (case map_of store deliveryId of None \<Rightarrow> False | Some s \<Rightarrow> in_window now s) then (False, store)
      else (True, AList.update deliveryId now (if maxSize \<le> length store then prune now store else store)))"

section \<open>Signatures\<close>

definition computeSignature :: "(string \<Rightarrow> string \<Rightarrow> string) \<Rightarrow> string \<Rightarrow> string \<Rightarrow> string \<Rightarrow> string" where
  "computeSignature hmac secret timestamp rawBody = hmac secret (timestamp @ ''.'' @ rawBody)"

definition verifySignature :: "(string \<Rightarrow> string \<Rightarrow> string) \<Rightarrow> string \<Rightarrow> string \<Rightarrow> string \<Rightarrow> string \<Rightarrow> bool" where
  "verifySignature hmac secret timestamp rawBody signature =
     (let wanted = computeSignature hmac secret timestamp rawBody;
          received = take (length wanted) (signature @ replicate (length wanted - length signature) (char_of (0::nat)))
      in length wanted = length received \<and> wanted = received \<and> length signature = length wanted)"

section \<open>Requests\<close>

record ingest_env =
  ie_secret :: "string option"
  ie_hmac :: "string \<Rightarrow> string \<Rightarrow> string"
  ie_parse :: "string \<Rightarrow> json option"
  ie_maxSize :: nat

text \<open>What a handler finds: a buffer, a stream that ends or breaks after some chunks, or a stream that an
  earlier parser has read to its end.\<close>

datatype req_body = Buffered string | Stream "string list" | BrokenStream "string list" | Consumed

record ingest_request =
  rq_signature :: "string option"
  rq_timestamp :: "string option"
  rq_deliveryId :: "string option"
  rq_body :: req_body

datatype reply =
    Refused nat string
  | Enqueued string
  | AlreadyEnqueued string
  | Jobs string "unit WebhookJob list"
  | DeadLetters "unit DeadLetterEntry list"
  | NoDeadLetter string
  | ReplayReply ReplayResult

record ingest_state =
  ig_cache :: replay_cache
  ig_queue :: "(json, json mem_store) queue_state"

text \<open>Reading the body. \<open>None\<close> is a request that is never answered, because its stream has ended before.\<close>

fun read_chunks :: "nat \<Rightarrow> string list \<Rightarrow> string option" where
  "read_chunks n [] = Some []"
| "read_chunks n (c # cs) = (if MAX_BODY_BYTES < n + length c then None
     else map_option ((@) c) (read_chunks (n + length c) cs))"

definition capture :: "req_body \<Rightarrow> (reply + string) option" where
  "capture body = (case body of
       Buffered b \<Rightarrow> Some (Inr b)
     | Stream cs \<Rightarrow> Some (case read_chunks 0 cs of
           None \<Rightarrow> Inl (Refused 413 ''PAYLOAD_TOO_LARGE'') | Some b \<Rightarrow> Inr b)
     | BrokenStream cs \<Rightarrow> Some (Inl (case read_chunks 0 cs of
           None \<Rightarrow> Refused 413 ''PAYLOAD_TOO_LARGE'' | Some b \<Rightarrow> Refused 400 ''READ_ERROR''))
     | Consumed \<Rightarrow> None)"

definition header :: "string option \<Rightarrow> string" where
  "header h = (case h of None \<Rightarrow> '''' | Some v \<Rightarrow> v)"

text \<open>The middleware; \<open>None\<close> calls the next handler.\<close>

definition verifyWebhookSignature ::
  "ingest_env \<Rightarrow> int \<Rightarrow> ingest_request \<Rightarrow> string \<Rightarrow> replay_cache \<Rightarrow> reply option \<times> replay_cache" where
  "verifyWebhookSignature E now req rawBody cache = (let secret = header (ie_secret E);
       signature = header (rq_signature req); timestamp = header (rq_timestamp req);
       deliveryId = header (rq_deliveryId req)
     in if secret = '''' then (Some (Refused 503 ''WEBHOOK_SECRET_MISSING''), cache)
     else if signature = '''' \<or> timestamp = '''' \<or> deliveryId = '''' then
       (Some (Refused 400 ''MISSING_HEADERS''), cache)
     else (case parse_int timestamp of
         None \<Rightarrow> (Some (Refused 400 ''INVALID_TIMESTAMP''), cache)
       | Some tsSeconds \<Rightarrow>
           if TIMESTAMP_TOLERANCE_SECONDS < \<bar>now div 1000 - tsSeconds\<bar> then
             (Some (Refused 400 ''TIMESTAMP_TOO_OLD''), cache)
           else (case markSeen (ie_maxSize E) now deliveryId cache of (isNew, cache1) \<Rightarrow>
             if \<not> isNew then (Some (Refused 400 ''REPLAY_DETECTED''), cache1)
             else if \<not> verifySignature (ie_hmac E) secret timestamp rawBody signature then
               (Some (Refused 401 ''INVALID_SIGNATURE''), [])
             else (None, cache1))))"

text \<open>The handler. A property of the value \<^verbatim>\<open>null\<close> throws, which the framework answers with 500.\<close>

definition text_field :: "json \<Rightarrow> string \<Rightarrow> string \<Rightarrow> string" where
  "text_field v k d = (case jget (Some v) k of Some (JStr s) \<Rightarrow> s | _ \<Rightarrow> d)"

definition accept_webhook ::
  "ingest_env \<Rightarrow> int \<Rightarrow> ingest_request \<Rightarrow> string \<Rightarrow> (json, json mem_store) queue_state
   \<Rightarrow> reply \<times> (json, json mem_store) queue_state" where
  "accept_webhook E now req rawBody q = (case ie_parse E rawBody of
       None \<Rightarrow> (Refused 400 ''INVALID_JSON'', q)
     | Some JNull \<Rightarrow> (Refused 500 '''', q)
     | Some parsed \<Rightarrow> (let deliveryId = header (rq_deliveryId req);
           merchant = text_field parsed ''merchantAddress'' ''unknown''; url = text_field parsed ''callbackUrl'' ''''
         in if url = '''' then (Refused 400 ''MISSING_CALLBACK_URL'', q)
         else (case enqueue InMemoryJobStore deliveryId merchant url parsed now q of (enqueued, q') \<Rightarrow>
           (if enqueued then Enqueued deliveryId else AlreadyEnqueued deliveryId, q'))))"

definition ingest :: "ingest_env \<Rightarrow> int \<Rightarrow> ingest_request \<Rightarrow> ingest_state \<Rightarrow> reply option \<times> ingest_state" where
  "ingest E now req s = (case capture (rq_body req) of
       None \<Rightarrow> (None, s)
     | Some (Inl r) \<Rightarrow> (Some r, s)
     | Some (Inr rawBody) \<Rightarrow> (case verifyWebhookSignature E now req rawBody (ig_cache s) of
           (Some r, cache) \<Rightarrow> (Some r, s\<lparr>ig_cache := cache\<rparr>)
         | (None, cache) \<Rightarrow> (case accept_webhook E now req rawBody (ig_queue s) of
               (r, q) \<Rightarrow> (Some r, \<lparr>ig_cache = cache, ig_queue = q\<rparr>))))"

section \<open>The other routes\<close>

definition without_payload :: "'p WebhookJob \<Rightarrow> unit WebhookJob" where
  "without_payload j = \<lparr>jb_id = jb_id j, merchantAddress = merchantAddress j, jb_url = jb_url j, payload = (),
     signingSecretRef = signingSecretRef j, attempts = attempts j, lastAttemptAt = lastAttemptAt j,
     jb_lastError = jb_lastError j, status = status j, createdAt = createdAt j, resolvedAt = resolvedAt j\<rparr>"

definition redacted :: "'p DeadLetterEntry \<Rightarrow> unit DeadLetterEntry" where
  "redacted e = \<lparr>dl_job = without_payload (dl_job e), dl_reason = dl_reason e,
     deadLetteredAt = deadLetteredAt e, replayCount = replayCount e, lastReplayedAt = lastReplayedAt e\<rparr>"

definition get_jobs :: "string \<Rightarrow> ingest_state \<Rightarrow> reply" where
  "get_jobs merchant s = (if js_trim merchant = '''' then Refused 400 ''INVALID_MERCHANT''
     else Jobs merchant (map without_payload (listJobs InMemoryJobStore merchant (ig_queue s))))"

definition get_dead_letters :: "ingest_state \<Rightarrow> reply" where
  "get_dead_letters s = DeadLetters (map redacted (listDeadLetters InMemoryJobStore (ig_queue s)))"

definition post_replay :: "int \<Rightarrow> string \<Rightarrow> ingest_state \<Rightarrow> reply \<times> ingest_state" where
  "post_replay now i s = (if js_trim i = '''' then (Refused 400 ''INVALID_JOB_ID'', s)
     else (case replayDeadLetter InMemoryJobStore i now (ig_queue s) of (r, q) \<Rightarrow>
       (if r = NotReplayed ''dead-letter entry not found'' then NoDeadLetter i else ReplayReply r,
        s\<lparr>ig_queue := q\<rparr>)))"

datatype call = Ingest ingest_request | GetJobs string | GetDeadLetters | PostReplay string

definition handle_call :: "ingest_env \<Rightarrow> int \<Rightarrow> call \<Rightarrow> ingest_state \<Rightarrow> reply option \<times> ingest_state" where
  "handle_call E now c s = (case c of
       Ingest r \<Rightarrow> ingest E now r s
     | GetJobs m \<Rightarrow> (Some (get_jobs m s), s)
     | GetDeadLetters \<Rightarrow> (Some (get_dead_letters s), s)
     | PostReplay i \<Rightarrow> (case post_replay now i s of (r, s') \<Rightarrow> (Some r, s')))"

fun handle_all :: "ingest_env \<Rightarrow> (int \<times> call) list \<Rightarrow> ingest_state \<Rightarrow> reply option list \<times> ingest_state" where
  "handle_all E [] s = ([], s)"
| "handle_all E ((now, c) # cs) s = (case handle_call E now c s of (r, s1) \<Rightarrow>
     case handle_all E cs s1 of (rs, s2) \<Rightarrow> (r # rs, s2))"

section \<open>What the signature covers\<close>

lemma verifySignature_iff:
  "verifySignature hmac secret timestamp rawBody signature \<longleftrightarrow> signature = hmac secret (timestamp @ ''.'' @ rawBody)"
  by (auto simp: verifySignature_def computeSignature_def Let_def)

definition accepted :: "reply option \<Rightarrow> bool" where
  "accepted r \<longleftrightarrow> (\<exists>i. r = Some (Enqueued i) \<or> r = Some (AlreadyEnqueued i))"

lemma verify_passes:
  "verifyWebhookSignature E now req rawBody cache = (None, cache') \<longleftrightarrow>
     header (ie_secret E) \<noteq> '''' \<and> header (rq_signature req) \<noteq> '''' \<and> header (rq_timestamp req) \<noteq> '''' \<and>
     header (rq_deliveryId req) \<noteq> '''' \<and>
     (\<exists>ts. parse_int (header (rq_timestamp req)) = Some ts \<and> \<bar>now div 1000 - ts\<bar> \<le> TIMESTAMP_TOLERANCE_SECONDS) \<and>
     markSeen (ie_maxSize E) now (header (rq_deliveryId req)) cache = (True, cache') \<and>
     header (rq_signature req) = ie_hmac E (header (ie_secret E)) (header (rq_timestamp req) @ ''.'' @ rawBody)"
  unfolding verifyWebhookSignature_def Let_def verifySignature_iff
  by (auto split: option.splits prod.splits)

text \<open>The handler either leaves the queue alone or stores one new job under the identifier of the request.\<close>

lemma enqueue_cases:
  obtains (new) job where "enqueue ops i m u pl now q = (True, q\<lparr>qs_store := st_save ops job (qs_store q)\<rparr>)"
      and "st_get ops i (qs_store q) = None" and "jb_id job = i" and "payload job = pl"
  | (old) "enqueue ops i m u pl now q = (False, q)" and "st_get ops i (qs_store q) \<noteq> None"
proof (cases "st_get ops i (qs_store q)")
  case None
  show ?thesis by (rule new [OF _ None]) (simp add: enqueue_def None Let_def, simp_all)
next
  case (Some j)
  show ?thesis by (rule old) (simp_all add: enqueue_def Some)
qed

lemma accept_cases:
  assumes "accept_webhook E now req rawBody q = (r, q')"
  obtains (new) job parsed where "r = Enqueued (header (rq_deliveryId req))"
      and "getJob InMemoryJobStore (header (rq_deliveryId req)) q = None"
      and "ie_parse E rawBody = Some parsed" and "payload job = parsed"
      and "jb_id job = header (rq_deliveryId req)" and "q' = q\<lparr>qs_store := st_save InMemoryJobStore job (qs_store q)\<rparr>"
  | (old) "r = AlreadyEnqueued (header (rq_deliveryId req))" and "q' = q"
  | (bad) n e where "r = Refused n e" and "q' = q"
proof (cases "ie_parse E rawBody")
  case None
  then show ?thesis using assms bad by (auto simp: accept_webhook_def)
next
  case (Some parsed)
  let ?i = "header (rq_deliveryId req)" and ?m = "text_field parsed ''merchantAddress'' ''unknown''"
    and ?u = "text_field parsed ''callbackUrl'' ''''"
  show ?thesis
  proof (cases "parsed = JNull \<or> ?u = ''''")
    case True
    with assms Some bad show ?thesis
      by (cases parsed) (auto simp: accept_webhook_def Let_def)
  next
    case False
    then have run: "accept_webhook E now req rawBody q = (case enqueue InMemoryJobStore ?i ?m ?u parsed now q of
        (enqueued, q') \<Rightarrow> (if enqueued then Enqueued ?i else AlreadyEnqueued ?i, q'))"
      using Some by (cases parsed) (simp_all add: accept_webhook_def Let_def)
    show ?thesis
    proof (cases rule: enqueue_cases [of InMemoryJobStore ?i ?m ?u parsed now q])
      case (new job)
      show ?thesis by (rule that(1) [of parsed job]) (use assms new Some run in \<open>simp_all add: getJob_def\<close>)
    next
      case old
      show ?thesis by (rule that(2)) (use assms old run in simp_all)
    qed
  qed
qed

lemma ingest_passes:
  assumes "ingest E now req s = (r, s')" and "accepted r \<or> ig_queue s' \<noteq> ig_queue s"
  obtains body cache where "capture (rq_body req) = Some (Inr body)"
    and "verifyWebhookSignature E now req body (ig_cache s) = (None, cache)" and "ig_cache s' = cache"
proof -
  obtain body where body: "capture (rq_body req) = Some (Inr body)"
    using assms by (auto simp: ingest_def accepted_def capture_def split: option.splits sum.splits req_body.splits)
  obtain v cache where v: "verifyWebhookSignature E now req body (ig_cache s) = (v, cache)" by fastforce
  have "v = None"
  proof (rule ccontr)
    assume "v \<noteq> None"
    then obtain n e where "v = Some (Refused n e)"
      using v by (auto simp: verifyWebhookSignature_def Let_def split: if_splits option.splits prod.splits)
    then show False using assms body v by (auto simp: ingest_def accepted_def)
  qed
  moreover from this have "ig_cache s' = cache" using assms(1) body v by (auto simp: ingest_def split: prod.splits)
  ultimately show thesis using that body v by blast
qed

lemma accepted_unseen:
  assumes "accepted (fst (ingest E now req s))"
  shows "\<not> hasSeen now (header (rq_deliveryId req)) (ig_cache s)"
proof -
  obtain cache b where "verifyWebhookSignature E now req b (ig_cache s) = (None, cache)"
    by (rule ingest_passes [OF prod.collapse [symmetric] disjI1 [OF assms]])
  then have "markSeen (ie_maxSize E) now (header (rq_deliveryId req)) (ig_cache s) = (True, cache)"
    unfolding verify_passes by blast
  then show ?thesis by (simp add: markSeen_def hasSeen_def split: if_splits)
qed

lemma accepted_seen:
  assumes "accepted (fst (ingest E now req s))"
  shows "map_of (ig_cache (snd (ingest E now req s))) (header (rq_deliveryId req)) = Some now"
proof -
  obtain cache b where "verifyWebhookSignature E now req b (ig_cache s) = (None, cache)"
    and eq: "ig_cache (snd (ingest E now req s)) = cache"
    by (rule ingest_passes [OF prod.collapse [symmetric] disjI1 [OF assms]])
  then have "markSeen (ie_maxSize E) now (header (rq_deliveryId req)) (ig_cache s) = (True, cache)"
    unfolding verify_passes by blast
  then show ?thesis unfolding eq by (auto simp: markSeen_def AList.update_conv' split: if_splits)
qed

text \<open>C22: A request that is accepted, or that changes the queue at all, came while a secret was configured, with the
  keyed hash of its time and raw body as its signature, within five minutes of the clock, and with a delivery
  identifier that has no unexpired entry in the replay cache. The cache is not a record of all of the last ten minutes:
  a badly signed request empties it, so the last condition speaks of the requests since then only.\<close>

theorem ingest_authentic:
  assumes "ingest E now req s = (r, s')" and "accepted r \<or> ig_queue s' \<noteq> ig_queue s"
  shows "\<exists>secret body ts. ie_secret E = Some secret \<and> secret \<noteq> '''' \<and> capture (rq_body req) = Some (Inr body)
     \<and> rq_signature req = Some (ie_hmac E secret (header (rq_timestamp req) @ ''.'' @ body))
     \<and> parse_int (header (rq_timestamp req)) = Some ts \<and> \<bar>now div 1000 - ts\<bar> \<le> 300
     \<and> \<not> hasSeen now (header (rq_deliveryId req)) (ig_cache s)"
proof -
  obtain body cache where body: "capture (rq_body req) = Some (Inr body)"
    and pass: "verifyWebhookSignature E now req body (ig_cache s) = (None, cache)"
    using ingest_passes [OF assms] .
  have "\<not> hasSeen now (header (rq_deliveryId req)) (ig_cache s)"
    using pass by (auto simp: verify_passes markSeen_def hasSeen_def split: if_splits)
  then show ?thesis
    using pass body unfolding verify_passes TIMESTAMP_TOLERANCE_SECONDS_def
    by (cases "ie_secret E"; cases "rq_signature req") (auto simp: header_def)
qed

definition demo_ingest_env :: ingest_env where
  "demo_ingest_env = \<lparr>ie_secret = Some ''k'', ie_hmac = (\<lambda>k m. k @ m),
     ie_parse = (\<lambda>_. Some (JObj [(''callbackUrl'', JStr ''https://m'')])), ie_maxSize = 3\<rparr>"

definition demo_request :: "string \<Rightarrow> ingest_request" where
  "demo_request i = \<lparr>rq_signature = Some ''k1000.b'', rq_timestamp = Some ''1000'', rq_deliveryId = Some i,
     rq_body = Stream [''b'']\<rparr>"

definition demo_ingest :: ingest_state where
  "demo_ingest = \<lparr>ig_cache = [], ig_queue = empty_queue\<rparr>"

lemma demo_capture: "capture (rq_body (demo_request i)) = Some (Inr ''b'')"
  by (simp add: capture_def demo_request_def MAX_BODY_BYTES_def)

theorem ingest_authentic_witness:
  "fst (ingest demo_ingest_env 1200000 (demo_request ''d1'') demo_ingest) = Some (Enqueued ''d1'') \<and>
   (\<exists>ts. parse_int ''1000'' = Some ts \<and> \<bar>1200000 div 1000 - ts\<bar> \<le> 300)"
proof -
  let ?x = "ingest demo_ingest_env 1200000 (demo_request ''d1'') demo_ingest"
  have run: "fst ?x = Some (Enqueued ''d1'')"
    unfolding ingest_def demo_capture option.case sum.case by code_simp
  then have acc: "accepted (fst ?x)" by (auto simp: accepted_def)
  have ts: "header (rq_timestamp (demo_request ''d1'')) = ''1000''" by (simp add: demo_request_def header_def)
  obtain ts where "parse_int (header (rq_timestamp (demo_request ''d1''))) = Some ts"
    and "\<bar>1200000 div 1000 - ts\<bar> \<le> 300"
    using ingest_authentic [OF prod.collapse [symmetric] disjI1 [OF acc]] by blast
  then show ?thesis using run unfolding ts by blast
qed

section \<open>Repetition\<close>

text \<open>An identifier in the window stays in the cache, whatever is inserted or dropped, unless a bad signature
  clears it.\<close>

lemma markSeen_keeps:
  assumes "map_of cache i = Some s" and "in_window now s"
  shows "map_of (snd (markSeen n now j cache)) i = Some s"
proof -
  have "map_of (prune now c) i = Some s" if "map_of c i = Some s" for c
    using that assms(2)
  proof (induction c)
    case (Cons x xs)
    then show ?case by (cases x) (auto simp: prune_def split: if_splits)
  qed simp
  then show ?thesis using assms
    by (auto simp: markSeen_def AList.update_conv' split: option.splits)
qed

definition bad_signature :: "reply option \<Rightarrow> bool" where
  "bad_signature r \<longleftrightarrow> r = Some (Refused 401 ''INVALID_SIGNATURE'')"

lemma verify_cache:
  assumes "verifyWebhookSignature E now req body cache = (v, cache')"
  shows "cache' = cache \<or> cache' = snd (markSeen (ie_maxSize E) now (header (rq_deliveryId req)) cache) \<or>
    bad_signature v"
proof (rule ccontr)
  assume no: "\<not> ?thesis"
  obtain isNew cache1 where m: "markSeen (ie_maxSize E) now (header (rq_deliveryId req)) cache = (isNew, cache1)"
    by fastforce
  show False
    using assms no m unfolding verifyWebhookSignature_def Let_def bad_signature_def
    by (cases "parse_int (header (rq_timestamp req))") (simp_all split: if_splits)
qed

lemma verify_keeps:
  assumes "map_of cache i = Some s" and "in_window now s"
    and "verifyWebhookSignature E now req body cache = (v, cache')" and "\<not> bad_signature v"
  shows "map_of cache' i = Some s"
  using verify_cache [OF assms(3)] assms(1,4) markSeen_keeps [OF assms(1,2)] by auto

lemma handle_call_keeps:
  assumes "map_of (ig_cache st) i = Some s" and "in_window now s"
    and "\<not> bad_signature (fst (handle_call E now c st))"
  shows "map_of (ig_cache (snd (handle_call E now c st))) i = Some s"
proof (cases c)
  case (Ingest req)
  show ?thesis
  proof (cases "\<exists>b. capture (rq_body req) = Some (Inr b)")
    case True
    then obtain b where b: "capture (rq_body req) = Some (Inr b)" by blast
    obtain v cache where v: "verifyWebhookSignature E now req b (ig_cache st) = (v, cache)" by fastforce
    have "\<not> bad_signature v \<Longrightarrow> map_of cache i = Some s" by (rule verify_keeps [OF assms(1,2) v])
    then show ?thesis using assms(3) b v Ingest
      by (cases v) (auto simp: handle_call_def ingest_def bad_signature_def split: prod.splits)
  next
    case False
    then show ?thesis using assms(1) Ingest
      by (auto simp: handle_call_def ingest_def split: option.splits sum.splits)
  qed
next
  case (PostReplay j)
  then show ?thesis using assms(1) by (auto simp: handle_call_def post_replay_def split: prod.splits)
qed (use assms(1) in \<open>simp_all add: handle_call_def\<close>)

lemma handle_all_keeps:
  assumes "\<forall>(now, c) \<in> set cs. in_window now s" and "\<forall>r \<in> set (fst (handle_all E cs st)). \<not> bad_signature r"
    and "map_of (ig_cache st) i = Some s"
  shows "map_of (ig_cache (snd (handle_all E cs st))) i = Some s"
  using assms
proof (induction E cs st rule: handle_all.induct)
  case (2 E now c cs st)
  obtain r s1 where r: "handle_call E now c st = (r, s1)" by fastforce
  obtain rs s2 where rs: "handle_all E cs s1 = (rs, s2)" by fastforce
  have "map_of (ig_cache s1) i = Some s"
    using handle_call_keeps [of st i s now E c] 2(2-4) r rs by simp
  with "2.IH" [OF r [symmetric]] 2(2-3) r rs show ?case by simp
qed simp

text \<open>Within ten minutes of a request that was accepted, no request with the same delivery identifier is
  accepted, whatever calls come in between, as long as none of them has a bad signature.\<close>

theorem replay_refused:
  assumes "accepted (fst (ingest E t1 req1 st))" and "header (rq_deliveryId req2) = header (rq_deliveryId req1)"
    and "\<forall>(t, c) \<in> set cs. t \<le> t1 + 600 * 1000" and "t2 \<le> t1 + 600 * 1000"
    and "\<forall>r \<in> set (fst (handle_all E cs (snd (ingest E t1 req1 st)))). \<not> bad_signature r"
  shows "\<not> accepted (fst (ingest E t2 req2 (snd (handle_all E cs (snd (ingest E t1 req1 st))))))"
proof -
  let ?i = "header (rq_deliveryId req1)" and ?s1 = "snd (ingest E t1 req1 st)"
  let ?s2 = "snd (handle_all E cs ?s1)"
  have win: "in_window t t1 \<longleftrightarrow> t \<le> t1 + 600 * 1000" for t
    by (auto simp: in_window_def REPLAY_WINDOW_SECONDS_def)
  have seen: "map_of (ig_cache ?s1) ?i = Some t1" by (rule accepted_seen [OF assms(1)])
  have "map_of (ig_cache ?s2) ?i = Some t1"
    by (rule handle_all_keeps [OF _ assms(5) seen]) (use assms(3) win in auto)
  then show ?thesis using accepted_unseen [of E t2 req2 ?s2] assms(2,4) win by (auto simp: hasSeen_def)
qed

theorem replay_refused_witness:
  "\<not> accepted (fst (ingest demo_ingest_env 1300000 (demo_request ''d1'')
      (snd (handle_all demo_ingest_env [(1250000, GetDeadLetters)]
        (snd (ingest demo_ingest_env 1200000 (demo_request ''d1'') demo_ingest))))))"
proof (rule replay_refused)
  have run: "fst (ingest demo_ingest_env 1200000 (demo_request ''d1'') demo_ingest) = Some (Enqueued ''d1'')"
    unfolding ingest_def demo_capture option.case sum.case by code_simp
  show "accepted (fst (ingest demo_ingest_env 1200000 (demo_request ''d1'') demo_ingest))"
    unfolding run by (auto simp: accepted_def)
qed (simp_all add: handle_call_def get_dead_letters_def bad_signature_def)

section \<open>One job per identifier\<close>

lemma save_keeps_job: "getJob InMemoryJobStore j q \<noteq> None \<Longrightarrow>
    getJob InMemoryJobStore j (q\<lparr>qs_store := st_save InMemoryJobStore job (qs_store q)\<rparr>) \<noteq> None"
  by (auto simp: getJob_def InMemoryJobStore_def AList.update_conv')

lemma accept_keeps_job:
  assumes "accept_webhook E now req rawBody q = (r, q')" and "getJob InMemoryJobStore j q \<noteq> None"
  shows "getJob InMemoryJobStore j q' \<noteq> None"
  by (rule accept_cases [OF assms(1)]) (use assms(2) save_keeps_job in simp_all)

lemma accept_enqueues:
  assumes "accept_webhook E now req rawBody q = (Enqueued i, q')"
  shows "getJob InMemoryJobStore i q = None" and "getJob InMemoryJobStore i q' \<noteq> None"
proof -
  obtain job where "i = header (rq_deliveryId req)" "getJob InMemoryJobStore (header (rq_deliveryId req)) q = None"
    "jb_id job = header (rq_deliveryId req)" "q' = q\<lparr>qs_store := st_save InMemoryJobStore job (qs_store q)\<rparr>"
    by (rule accept_cases [OF assms]) (use that in simp_all)
  then show "getJob InMemoryJobStore i q = None" "getJob InMemoryJobStore i q' \<noteq> None"
    by (simp_all add: getJob_def InMemoryJobStore_def AList.update_conv')
qed

lemma replay_keeps_job:
  assumes "getJob InMemoryJobStore j q \<noteq> None"
  shows "getJob InMemoryJobStore j (snd (replayDeadLetter InMemoryJobStore i now q)) \<noteq> None"
  using assms by (auto simp: replayDeadLetter_def getJob_def InMemoryJobStore_def AList.update_conv' Let_def
      split: option.splits)

lemma ingest_enqueue:
  assumes "ingest E now req s = (r, s')"
  obtains (handled) body r' where "r = Some r'"
      and "accept_webhook E now req body (ig_queue s) = (r', ig_queue s')"
  | (stopped) "ig_queue s' = ig_queue s" and "\<not> accepted r"
proof (cases "accepted r \<or> ig_queue s' \<noteq> ig_queue s")
  case True
  obtain body cache where b: "capture (rq_body req) = Some (Inr body)"
    "verifyWebhookSignature E now req body (ig_cache s) = (None, cache)"
    by (rule ingest_passes [OF assms True])
  obtain r' q' where a: "accept_webhook E now req body (ig_queue s) = (r', q')" by fastforce
  show thesis by (rule handled) (use assms b a in \<open>auto simp: ingest_def\<close>)
next
  case False
  then show thesis using stopped by blast
qed

lemma handle_call_keeps_job:
  assumes "getJob InMemoryJobStore j (ig_queue s) \<noteq> None"
  shows "getJob InMemoryJobStore j (ig_queue (snd (handle_call E now c s))) \<noteq> None"
proof (cases c)
  case (Ingest req)
  have "getJob InMemoryJobStore j (ig_queue (snd (ingest E now req s))) \<noteq> None"
    by (rule ingest_enqueue [OF prod.collapse [symmetric], of E now req s])
      (use assms accept_keeps_job in auto)
  then show ?thesis using Ingest by (simp add: handle_call_def)
next
  case (PostReplay i)
  then show ?thesis using assms replay_keeps_job [OF assms, of i now]
    by (cases "replayDeadLetter InMemoryJobStore i now (ig_queue s)") (simp add: handle_call_def post_replay_def)
qed (use assms in \<open>simp_all add: handle_call_def\<close>)

lemma handle_call_enqueues:
  assumes "fst (handle_call E now c s) = Some (Enqueued i)"
  shows "getJob InMemoryJobStore i (ig_queue s) = None"
    and "getJob InMemoryJobStore i (ig_queue (snd (handle_call E now c s))) \<noteq> None"
proof -
  obtain req where c: "c = Ingest req" and r: "fst (ingest E now req s) = Some (Enqueued i)"
    using assms by (cases c) (auto simp: handle_call_def get_jobs_def get_dead_letters_def post_replay_def
        split: if_splits prod.splits)
  obtain body where "accept_webhook E now req body (ig_queue s) = (Enqueued i, ig_queue (snd (ingest E now req s)))"
    by (rule ingest_enqueue [OF prod.collapse [symmetric], of E now req s])
      (use r that in \<open>auto simp: accepted_def\<close>)
  from accept_enqueues [OF this] show "getJob InMemoryJobStore i (ig_queue s) = None"
    "getJob InMemoryJobStore i (ig_queue (snd (handle_call E now c s))) \<noteq> None"
    by (simp_all add: c handle_call_def)
qed

lemma enqueued_bound:
  "count_list (fst (handle_all E cs s)) (Some (Enqueued i)) \<le>
    (if getJob InMemoryJobStore i (ig_queue s) = None then 1 else 0)"
proof (induction E cs s rule: handle_all.induct)
  case (2 E now c cs s)
  obtain r s1 where r: "handle_call E now c s = (r, s1)" by fastforce
  obtain rs s2 where rs: "handle_all E cs s1 = (rs, s2)" by fastforce
  have "r = Some (Enqueued i) \<Longrightarrow> getJob InMemoryJobStore i (ig_queue s) = None \<and>
      getJob InMemoryJobStore i (ig_queue s1) \<noteq> None"
    using handle_call_enqueues [of E now c s i] r by simp
  moreover have "getJob InMemoryJobStore i (ig_queue s) \<noteq> None \<Longrightarrow> getJob InMemoryJobStore i (ig_queue s1) \<noteq> None"
    using handle_call_keeps_job [of i s E now c] r by simp
  ultimately show ?case using "2.IH" [OF r [symmetric]] r rs by (auto split: if_splits)
qed simp

text \<open>C23: Whatever requests come in, repeated, replayed or forged, a delivery identifier is enqueued at most
  once.\<close>

theorem enqueued_once: "count_list (fst (handle_all E cs s)) (Some (Enqueued i)) \<le> 1"
  using enqueued_bound [of E cs s i] by (auto split: if_splits)

section \<open>What the checks do not cover\<close>

text \<open>One request with a bad signature forgets every identifier, so a captured request passes again.\<close>

lemma forged_request_clears:
  assumes "verifyWebhookSignature E now req rawBody cache = (Some (Refused 401 ''INVALID_SIGNATURE''), cache')"
  shows "cache' = [] \<and> \<not> hasSeen now i cache'"
proof -
  obtain isNew cache1 where m: "markSeen (ie_maxSize E) now (header (rq_deliveryId req)) cache = (isNew, cache1)"
    by fastforce
  have "cache' = []"
    using assms m unfolding verifyWebhookSignature_def Let_def
    by (cases "parse_int (header (rq_timestamp req))") (simp_all split: if_splits)
  then show ?thesis by (simp add: hasSeen_def)
qed

text \<open>A body that the JSON parser of the application has read leaves the request without an answer.\<close>

lemma parsed_body_never_answered: "ingest E now (req\<lparr>rq_body := Consumed\<rparr>) s = (None, s)"
  by (simp add: ingest_def capture_def)

lemma accept_enqueued:
  "fst (accept_webhook E now req body q) = Enqueued i \<longleftrightarrow>
     (\<exists>v. ie_parse E body = Some v \<and> v \<noteq> JNull \<and> text_field v ''callbackUrl'' '''' \<noteq> '''') \<and>
     i = header (rq_deliveryId req) \<and> getJob InMemoryJobStore i q = None"
proof (cases "ie_parse E body")
  case (Some v)
  then show ?thesis
    by (cases v; cases "getJob InMemoryJobStore (header (rq_deliveryId req)) q")
      (auto simp: accept_webhook_def enqueue_def getJob_def Let_def)
qed (simp add: accept_webhook_def)

text \<open>The identifier is not part of what is signed: a captured request under another identifier is a new job.\<close>

theorem delivery_id_not_signed:
  assumes "ingest E now req s = (Some (Enqueued i), s')" and "j \<noteq> ''''"
    and "\<not> hasSeen now j (ig_cache s')" and "getJob InMemoryJobStore j (ig_queue s') = None"
  shows "fst (ingest E now (req\<lparr>rq_deliveryId := Some j\<rparr>) s') = Some (Enqueued j)"
proof -
  let ?req = "req\<lparr>rq_deliveryId := Some j\<rparr>"
  have acc: "accepted (Some (Enqueued i))" by (auto simp: accepted_def)
  obtain body cache where b: "capture (rq_body req) = Some (Inr body)"
    "verifyWebhookSignature E now req body (ig_cache s) = (None, cache)"
    by (rule ingest_passes [OF assms(1) disjI1 [OF acc]])
  have a: "accept_webhook E now req body (ig_queue s) = (Enqueued i, ig_queue s')"
    using assms(1) b by (auto simp: ingest_def split: prod.splits)
  have "fst (markSeen (ie_maxSize E) now j (ig_cache s'))"
    using assms(3) by (auto simp: markSeen_def hasSeen_def split: option.splits)
  then obtain c where "markSeen (ie_maxSize E) now j (ig_cache s') = (True, c)" by (metis prod.collapse)
  then have "verifyWebhookSignature E now ?req body (ig_cache s') = (None, c)"
    using b(2) assms(2) unfolding verify_passes
    by (auto simp: header_def simp del: not_None_eq split: option.splits)
  moreover have "fst (accept_webhook E now ?req body (ig_queue s')) = Enqueued j"
    using arg_cong [OF a, of fst] assms(4) by (simp add: accept_enqueued header_def)
  ultimately show ?thesis using b(1) by (auto simp: ingest_def split: prod.splits)
qed

end
