(* ===== verification/Sms.thy ===== *)
theory Sms
  imports Effects
begin

text \<open>
  Text messages, \<^verbatim>\<open>backend/src/services/smsService.ts\<close> and \<^verbatim>\<open>backend/src/routes/sms.ts\<close>: templates,
  opt-outs, the limit per user, sending through a provider, and delivery receipts. The state holds the two
  tables, the map of the limiter, which lives in the process, and the messages handed to a provider. The time
  of a message is the one at which its limit was checked. The answers of the providers are arguments; texts that
  name members of \<^verbatim>\<open>Object.prototype\<close> occur as template names only.
\<close>

section \<open>State\<close>

record SmsLog =
  sl_id :: nat
  sl_to :: string
  sl_body :: string
  sl_templateId :: "string option"
  sl_variables :: "(string \<times> string) list"
  sl_provider :: string
  sl_userId :: string
  sl_status :: string
  sl_messageId :: "string option"
  sl_errorCode :: "string option"
  sl_errorMsg :: "string option"
  sl_createdAt :: int

record sent_sms =
  ss_userId :: string
  ss_to :: string
  ss_body :: string
  ss_time :: int

record sms_state =
  sm_logs :: "SmsLog list"
  sm_nextId :: nat
  sm_optOuts :: "(string \<times> string option) list"
  rateLimitMap :: "(string \<times> int list) list"
  sm_sent :: "sent_sms list"

datatype sms_error = SmsDbError | SmsTypeError

type_synonym 'a sms_io = "(sms_state, sms_error, 'a) io"

section \<open>Templates\<close>

definition TEMPLATES :: "(string \<times> string) list" where
  "TEMPLATES =
    [(''payment_success'', ''SorobanPay: Your payment of {{amount}} {{token}} to {{merchant}} was successful. Ref: {{txHash}}''),
     (''payment_failure'', ''SorobanPay: Your payment of {{amount}} {{token}} to {{merchant}} failed. Please ensure sufficient balance. Reply STOP to opt out.''),
     (''subscription_created'', ''SorobanPay: Subscription created with {{merchant}} for {{amount}} {{token}} every {{interval}}. Reply STOP to opt out.''),
     (''subscription_cancelled'', ''SorobanPay: Your subscription with {{merchant}} has been cancelled. No further charges will be made.''),
     (''payment_due_reminder'', ''SorobanPay: Payment reminder - {{amount}} {{token}} due to {{merchant}} in 24 hours. Ensure your wallet has sufficient balance.'')]"

text \<open>A name that every object inherits finds a value without a body.\<close>

definition inherited :: "string list" where
  "inherited = [''constructor'', ''__proto__'', ''toString'', ''toLocaleString'', ''valueOf'', ''hasOwnProperty'',
     ''isPrototypeOf'', ''propertyIsEnumerable'', ''__defineGetter__'', ''__defineSetter__'',
     ''__lookupGetter__'', ''__lookupSetter__'']"

text \<open>A placeholder at the start of a text: its name and what follows.\<close>

definition placeholder :: "string \<Rightarrow> (string \<times> string) option" where
  "placeholder s = (let name = takeWhile word_char (drop 2 s); rest = drop (2 + length name) s in
     if take 2 s = ''{{'' \<and> name \<noteq> '''' \<and> take 2 rest = ''}}'' then Some (name, drop 2 rest) else None)"

lemma placeholder_shorter: "placeholder s = Some (name, rest) \<Longrightarrow> length rest < length s"
  by (cases s) (auto simp: placeholder_def Let_def split: if_splits)

function renderTemplate :: "(string \<times> string) list \<Rightarrow> string \<Rightarrow> string" where
  "renderTemplate variables s = (case s of [] \<Rightarrow> [] | c # cs \<Rightarrow>
     (case placeholder s of
        None \<Rightarrow> c # renderTemplate variables cs
      | Some (name, rest) \<Rightarrow> (case map_of variables name of Some v \<Rightarrow> v | None \<Rightarrow> ''{{'' @ name @ ''}}'')
          @ renderTemplate variables rest))"
  by pat_completeness auto
termination
  by (relation "measure (length \<circ> snd)") (auto dest: placeholder_shorter)

declare renderTemplate.simps [simp del]

section \<open>The limit\<close>

definition RATE_LIMIT_MAX :: nat where "RATE_LIMIT_MAX = 5"
definition RATE_LIMIT_WINDOW_MS :: int where "RATE_LIMIT_WINDOW_MS = 3600000"

definition recent :: "int \<Rightarrow> int list \<Rightarrow> int list" where
  "recent now ts = filter (\<lambda>t. now - RATE_LIMIT_WINDOW_MS < t) ts"

definition times_of :: "string \<Rightarrow> (string \<times> int list) list \<Rightarrow> int list" where
  "times_of userId m = (case map_of m userId of None \<Rightarrow> [] | Some ts \<Rightarrow> ts)"

definition checkRateLimit :: "int \<Rightarrow> string \<Rightarrow> (string \<times> int list) list \<Rightarrow> bool \<times> (string \<times> int list) list" where
  "checkRateLimit now userId m = (let ts = recent now (times_of userId m) in
     if RATE_LIMIT_MAX \<le> length ts then (False, m) else (True, AList.update userId (ts @ [now]) m))"

section \<open>Providers\<close>

datatype 'r http = NoConnection string | Unparsable | Parsed 'r

record twilio_reply =
  tw_sid :: "string option"
  tw_message :: "string option"

record vonage_message =
  vo_status :: "string option"
  vo_messageId :: string
  vo_errorText :: "string option"

definition or_else :: "string option \<Rightarrow> string \<Rightarrow> string" where
  "or_else s d = (case s of Some t \<Rightarrow> t | None \<Rightarrow> d)"

definition sendViaTwilio :: "twilio_reply http \<Rightarrow> string + string" where
  "sendViaTwilio h = (case h of
       NoConnection e \<Rightarrow> Inl e
     | Unparsable \<Rightarrow> Inl ''Failed to parse Twilio response''
     | Parsed r \<Rightarrow> if or_else (tw_sid r) '''' \<noteq> '''' then Inr (or_else (tw_sid r) '''')
         else Inl (or_else (tw_message r) ''Twilio error''))"

definition sendViaVonage :: "vonage_message list http \<Rightarrow> string + string" where
  "sendViaVonage h = (case h of
       NoConnection e \<Rightarrow> Inl e
     | Unparsable \<Rightarrow> Inl ''Failed to parse Vonage response''
     | Parsed [] \<Rightarrow> Inl ''Vonage error''
     | Parsed (m # _) \<Rightarrow> if vo_status m = Some ''0'' then Inr (vo_messageId m)
         else Inl (or_else (vo_errorText m) ''Vonage error''))"

record sms_env =
  se_dryRun :: "string option"
  se_provider :: "string option"
  se_twilio :: "string \<Rightarrow> string \<Rightarrow> twilio_reply http"
  se_vonage :: "string \<Rightarrow> string \<Rightarrow> vonage_message list http"

definition isDryRun :: "sms_env \<Rightarrow> bool" where "isDryRun E \<longleftrightarrow> se_dryRun E \<noteq> Some ''false''"
definition getProvider :: "sms_env \<Rightarrow> string" where "getProvider E = or_else (se_provider E) ''twilio''"

definition via_provider :: "sms_env \<Rightarrow> string \<Rightarrow> string \<Rightarrow> string + string" where
  "via_provider E dest body = (if getProvider E = ''twilio'' then sendViaTwilio (se_twilio E dest body)
     else sendViaVonage (se_vonage E dest body))"

section \<open>Opting out\<close>

definition isOptedOut :: "string \<Rightarrow> bool sms_io" where
  "isOptedOut phone = db_read SmsDbError (\<lambda>d. phone \<in> fst ` set (sm_optOuts d))"

definition recordOptOut :: "string \<Rightarrow> string option \<Rightarrow> unit sms_io" where
  "recordOptOut phone userId = db_write SmsDbError (\<lambda>d.
     if phone \<in> fst ` set (sm_optOuts d) then d else d\<lparr>sm_optOuts := sm_optOuts d @ [(phone, userId)]\<rparr>)"

definition removeOptOut :: "string \<Rightarrow> unit sms_io" where
  "removeOptOut phone = db_write SmsDbError (\<lambda>d. d\<lparr>sm_optOuts := filter (\<lambda>(p, _). p \<noteq> phone) (sm_optOuts d)\<rparr>)"

section \<open>Sending\<close>

record SendSmsOptions =
  so_to :: string
  so_userId :: string
  so_templateId :: "string option"
  so_variables :: "(string \<times> string) list"
  so_body :: "string option"

record SmsResult =
  sr_success :: bool
  sr_messageId :: "string option"
  sr_error :: "string option"
  sr_logId :: int

definition sms_failure :: "string \<Rightarrow> int \<Rightarrow> SmsResult" where
  "sms_failure e i = \<lparr>sr_success = False, sr_messageId = None, sr_error = Some e, sr_logId = i\<rparr>"

definition sms_success :: "string \<Rightarrow> int \<Rightarrow> SmsResult" where
  "sms_success m i = \<lparr>sr_success = True, sr_messageId = Some m, sr_error = None, sr_logId = i\<rparr>"

text \<open>The text to send, the result of a bad request, or a type error.\<close>

datatype resolved = Text string | BadRequest string | TypeFailure

definition resolve_body :: "SendSmsOptions \<Rightarrow> resolved" where
  "resolve_body o0 = (let tid = or_else (so_templateId o0) '''' in
     if tid \<noteq> '''' then
       (case map_of TEMPLATES tid of
          Some body \<Rightarrow> Text (renderTemplate (so_variables o0) body)
        | None \<Rightarrow> if tid \<in> set inherited then TypeFailure else BadRequest (''Unknown template: '' @ tid))
     else if or_else (so_body o0) '''' \<noteq> '''' then Text (or_else (so_body o0) '''')
     else BadRequest ''Either templateId or body must be provided'')"

definition create_log :: "sms_env \<Rightarrow> int \<Rightarrow> SendSmsOptions \<Rightarrow> string \<Rightarrow> string \<Rightarrow> string option \<Rightarrow> nat sms_io" where
  "create_log E now o0 body st err = db_call SmsDbError (\<lambda>d. (sm_nextId d,
     d\<lparr>sm_logs := sm_logs d @ [\<lparr>sl_id = sm_nextId d, sl_to = so_to o0, sl_body = body,
          sl_templateId = so_templateId o0, sl_variables = so_variables o0, sl_provider = getProvider E,
          sl_userId = so_userId o0, sl_status = st, sl_messageId = None, sl_errorCode = None,
          sl_errorMsg = err, sl_createdAt = now\<rparr>],
       sm_nextId := sm_nextId d + 1\<rparr>))"

definition update_log :: "nat \<Rightarrow> (SmsLog \<Rightarrow> SmsLog) \<Rightarrow> unit sms_io" where
  "update_log i f = db_write SmsDbError (\<lambda>d. d\<lparr>sm_logs := map (\<lambda>l. if sl_id l = i then f l else l) (sm_logs d)\<rparr>)"

text \<open>Handing the message over, and the record of what came of it. A record that fails is itself caught;
  the message of the database's error is written \<^verbatim>\<open>Database error\<close>.\<close>

definition hand_over :: "sms_env \<Rightarrow> int \<Rightarrow> SendSmsOptions \<Rightarrow> string \<Rightarrow> (string + string) sms_io" where
  "hand_over E now o0 body = io_memory (\<lambda>d. (via_provider E (so_to o0) body,
     d\<lparr>sm_sent := sm_sent d @ [\<lparr>ss_userId = so_userId o0, ss_to = so_to o0, ss_body = body, ss_time = now\<rparr>]\<rparr>))"

definition send_failed :: "nat \<Rightarrow> string \<Rightarrow> SmsResult sms_io" where
  "send_failed i e = io_bind (update_log i (\<lambda>l. l\<lparr>sl_status := ''failed'', sl_errorMsg := Some e\<rparr>))
     (\<lambda>_. io_return (sms_failure e (int i)))"

definition deliver_sms :: "sms_env \<Rightarrow> int \<Rightarrow> SendSmsOptions \<Rightarrow> string \<Rightarrow> nat \<Rightarrow> SmsResult sms_io" where
  "deliver_sms E now o0 body i = io_bind (hand_over E now o0 body) (\<lambda>r. case r of
       Inl e \<Rightarrow> send_failed i e
     | Inr m \<Rightarrow> io_catch
         (io_bind (update_log i (\<lambda>l. l\<lparr>sl_status := ''sent'', sl_messageId := Some m\<rparr>))
           (\<lambda>_. io_return (sms_success m (int i))))
         (\<lambda>_. send_failed i ''Database error''))"

definition sendSms :: "sms_env \<Rightarrow> int \<Rightarrow> SendSmsOptions \<Rightarrow> SmsResult sms_io" where
  "sendSms E now o0 = (case resolve_body o0 of
       TypeFailure \<Rightarrow> io_throw SmsTypeError
     | BadRequest e \<Rightarrow> io_return (sms_failure e (- 1))
     | Text body \<Rightarrow> io_bind (isOptedOut (so_to o0)) (\<lambda>optedOut.
         if optedOut then io_bind (create_log E now o0 body ''blocked'' (Some ''Recipient has opted out''))
           (\<lambda>i. io_return (sms_failure ''Recipient has opted out (STOP)'' (int i)))
         else io_bind (io_memory (\<lambda>d. case checkRateLimit now (so_userId o0) (rateLimitMap d) of
             (allowed, m) \<Rightarrow> (allowed, d\<lparr>rateLimitMap := m\<rparr>))) (\<lambda>allowed.
           if \<not> allowed then io_bind (create_log E now o0 body ''rate_limited'' (Some ''Rate limit exceeded (5/hr)''))
             (\<lambda>i. io_return (sms_failure ''Rate limit exceeded: max 5 SMS per hour per user'' (int i)))
           else io_bind (create_log E now o0 body ''queued'' None) (\<lambda>i.
             if isDryRun E then
               io_bind (update_log i (\<lambda>l. l\<lparr>sl_status := ''sent'', sl_messageId := Some ''dry-run''\<rparr>))
                 (\<lambda>_. io_return (sms_success ''dry-run'' (int i)))
             else deliver_sms E now o0 body i))))"

section \<open>Receipts and queries\<close>

definition updateDeliveryStatus :: "string \<Rightarrow> string \<Rightarrow> string option \<Rightarrow> string option \<Rightarrow> unit sms_io" where
  "updateDeliveryStatus messageId st errorCode errorMsg = db_write SmsDbError (\<lambda>d. d\<lparr>sm_logs :=
     map (\<lambda>l. if sl_messageId l = Some messageId
              then l\<lparr>sl_status := st, sl_errorCode := errorCode, sl_errorMsg := errorMsg\<rparr> else l) (sm_logs d)\<rparr>)"

definition getSmsStatus :: "int \<Rightarrow> SmsLog option sms_io" where
  "getSmsStatus logId = db_read SmsDbError (\<lambda>d. find (\<lambda>l. int (sl_id l) = logId) (sm_logs d))"

text \<open>\<^verbatim>\<open>take\<close> with a negative number takes from the end; without a number the query is refused.\<close>

definition take_rows :: "int \<Rightarrow> 'a list \<Rightarrow> 'a list" where
  "take_rows n xs = (if 0 \<le> n then take (nat n) xs else rev (take (nat (- n)) (rev xs)))"

definition getSmsLogsForUser :: "string \<Rightarrow> int option \<Rightarrow> SmsLog list sms_io" where
  "getSmsLogsForUser userId limit = (case limit of
       None \<Rightarrow> io_throw SmsDbError
     | Some n \<Rightarrow> db_read SmsDbError (\<lambda>d.
         take_rows n (sort_key (\<lambda>l. - sl_createdAt l) (filter (\<lambda>l. sl_userId l = userId) (sm_logs d)))))"

definition sendPaymentSuccessSms :: "sms_env \<Rightarrow> int \<Rightarrow> string \<Rightarrow> string \<Rightarrow> string \<Rightarrow> string \<Rightarrow> string \<Rightarrow> string \<Rightarrow> SmsResult sms_io" where
  "sendPaymentSuccessSms E now userId dest amount token merchant txHash = sendSms E now
     \<lparr>so_to = dest, so_userId = userId, so_templateId = Some ''payment_success'',
      so_variables = [(''amount'', amount), (''token'', token), (''merchant'', merchant), (''txHash'', txHash)],
      so_body = None\<rparr>"

definition sendPaymentFailureSms :: "sms_env \<Rightarrow> int \<Rightarrow> string \<Rightarrow> string \<Rightarrow> string \<Rightarrow> string \<Rightarrow> string \<Rightarrow> SmsResult sms_io" where
  "sendPaymentFailureSms E now userId dest amount token merchant = sendSms E now
     \<lparr>so_to = dest, so_userId = userId, so_templateId = Some ''payment_failure'',
      so_variables = [(''amount'', amount), (''token'', token), (''merchant'', merchant)], so_body = None\<rparr>"

definition sendSubscriptionCreatedSms :: "sms_env \<Rightarrow> int \<Rightarrow> string \<Rightarrow> string \<Rightarrow> string \<Rightarrow> string \<Rightarrow> string \<Rightarrow> string \<Rightarrow> SmsResult sms_io" where
  "sendSubscriptionCreatedSms E now userId dest merchant amount token interval = sendSms E now
     \<lparr>so_to = dest, so_userId = userId, so_templateId = Some ''subscription_created'',
      so_variables = [(''merchant'', merchant), (''amount'', amount), (''token'', token), (''interval'', interval)],
      so_body = None\<rparr>"

definition sendSubscriptionCancelledSms :: "sms_env \<Rightarrow> int \<Rightarrow> string \<Rightarrow> string \<Rightarrow> string \<Rightarrow> SmsResult sms_io" where
  "sendSubscriptionCancelledSms E now userId dest merchant = sendSms E now
     \<lparr>so_to = dest, so_userId = userId, so_templateId = Some ''subscription_cancelled'',
      so_variables = [(''merchant'', merchant)], so_body = None\<rparr>"

section \<open>Routes\<close>

record sms_reply =
  sy_code :: nat
  sy_error :: "string option"

definition plain_reply :: "nat \<Rightarrow> sms_reply" where "plain_reply n = \<lparr>sy_code = n, sy_error = None\<rparr>"
definition error_reply :: "nat \<Rightarrow> string \<Rightarrow> sms_reply" where "error_reply n e = \<lparr>sy_code = n, sy_error = Some e\<rparr>"

text \<open>A plus sign, a digit that is not zero, and 6 to 14 digits.\<close>

definition e164 :: "string \<Rightarrow> bool" where
  "e164 s = (case s of p # d # ds \<Rightarrow> p = CHR ''+'' \<and> is_digit d \<and> d \<noteq> CHR ''0'' \<and>
       6 \<le> length ds \<and> length ds \<le> 14 \<and> list_all is_digit ds | _ \<Rightarrow> False)"

definition internal_error :: sms_reply where "internal_error = error_reply 500 ''Internal server error''"

definition post_send :: "sms_env \<Rightarrow> int \<Rightarrow> SendSmsOptions \<Rightarrow> sms_reply sms_io" where
  "post_send E now o0 =
     (if so_to o0 = [] \<or> so_userId o0 = [] then io_return (error_reply 400 ''to and userId are required'')
      else if \<not> e164 (so_to o0) then
        io_return (error_reply 400 ''to must be a valid E.164 phone number (e.g. +14155551234)'')
      else if or_else (so_templateId o0) [] = [] \<and> or_else (so_body o0) [] = [] then
        io_return (error_reply 400 ''Either templateId or body must be provided'')
      else io_catch (io_bind (sendSms E now o0) (\<lambda>r.
          if sr_success r then io_return (plain_reply 202)
          else (let e = or_else (sr_error r) [] in io_return (error_reply
            (if js_includes e ''Rate limit'' then 429 else if js_includes e ''opted out'' then 403 else 502) e))))
        (\<lambda>_. io_return internal_error))"

definition get_status :: "string \<Rightarrow> (sms_reply + SmsLog) sms_io" where
  "get_status logIdText = (case parse_int logIdText of
       None \<Rightarrow> io_return (Inl (error_reply 400 ''Invalid logId''))
     | Some logId \<Rightarrow> io_catch (io_bind (getSmsStatus logId) (\<lambda>r. io_return (case r of
           None \<Rightarrow> Inl (error_reply 404 ''SMS log not found'') | Some l \<Rightarrow> Inr l)))
         (\<lambda>_. io_return (Inl internal_error)))"

definition get_logs :: "string \<Rightarrow> string option \<Rightarrow> (sms_reply + SmsLog list) sms_io" where
  "get_logs userId limit = io_catch
     (io_bind (getSmsLogsForUser userId (map_option (\<lambda>n. min n 200) (parse_int (or_else limit ''50''))))
       (\<lambda>ls. io_return (Inr ls)))
     (\<lambda>_. io_return (Inl internal_error))"

definition post_optout :: "string \<Rightarrow> string option \<Rightarrow> sms_reply sms_io" where
  "post_optout phone userId = (if phone = [] then io_return (error_reply 400 ''phoneNumber is required'')
     else io_catch (io_bind (recordOptOut phone userId) (\<lambda>_. io_return (plain_reply 200)))
       (\<lambda>_. io_return internal_error))"

definition delete_optout :: "string \<Rightarrow> sms_reply sms_io" where
  "delete_optout phone = io_catch (io_bind (removeOptOut phone) (\<lambda>_. io_return (plain_reply 200)))
     (\<lambda>_. io_return internal_error)"

definition get_optout :: "string \<Rightarrow> (sms_reply + bool) sms_io" where
  "get_optout phone = io_catch (io_bind (isOptedOut phone) (\<lambda>b. io_return (Inr b)))
     (\<lambda>_. io_return (Inl internal_error))"

definition mapTwilioStatus :: "string \<Rightarrow> string" where
  "mapTwilioStatus st = or_else (map_of [(''queued'', ''queued''), (''sending'', ''sent''), (''sent'', ''sent''),
     (''delivered'', ''delivered''), (''undelivered'', ''undelivered''), (''failed'', ''failed''),
     (''received'', ''received'')] st) st"

definition mapVonageStatus :: "string \<Rightarrow> string" where
  "mapVonageStatus st = or_else (map_of [(''delivered'', ''delivered''), (''buffered'', ''sent''), (''sent'', ''sent''),
     (''failed'', ''failed''), (''rejected'', ''failed''), (''expired'', ''failed'')] st) st"

text \<open>An inbound message and a receipt may come in one callback; what rejects is logged.\<close>

definition quietly :: "unit sms_io \<Rightarrow> unit sms_io" where
  "quietly m = io_catch m (\<lambda>_. io_return ())"

definition inbound :: "string list \<Rightarrow> string list \<Rightarrow> string option \<Rightarrow> string option \<Rightarrow> unit sms_io" where
  "inbound stops starts body sender = (let b = js_upper (js_trim (or_else body [])); p = or_else sender [] in
     if or_else body [] = [] \<or> p = [] then io_return ()
     else if b \<in> set stops then quietly (recordOptOut p None)
     else if b \<in> set starts then quietly (removeOptOut p)
     else io_return ())"

definition receipt :: "(string \<Rightarrow> string) \<Rightarrow> string option \<Rightarrow> string option \<Rightarrow> string option \<Rightarrow> string option \<Rightarrow> unit sms_io" where
  "receipt mapStatus messageId st code msg =
     (if or_else messageId [] = [] \<or> or_else st [] = [] then io_return ()
      else quietly (updateDeliveryStatus (or_else messageId []) (mapStatus (or_else st [])) code msg))"

record callback =
  cb_messageId :: "string option"
  cb_status :: "string option"
  cb_errorCode :: "string option"
  cb_errorMessage :: "string option"
  cb_text :: "string option"
  cb_from :: "string option"

definition webhook_twilio :: "callback \<Rightarrow> sms_reply sms_io" where
  "webhook_twilio c = io_bind
     (inbound [''STOP'', ''STOPALL'', ''UNSUBSCRIBE'', ''CANCEL'', ''END'', ''QUIT''] [''START'', ''YES'', ''UNSTOP'']
       (cb_text c) (cb_from c))
     (\<lambda>_. io_bind (receipt mapTwilioStatus (cb_messageId c) (cb_status c) (cb_errorCode c) (cb_errorMessage c))
       (\<lambda>_. io_return (plain_reply 200)))"

definition webhook_vonage :: "callback \<Rightarrow> sms_reply sms_io" where
  "webhook_vonage c = io_bind
     (inbound [''STOP'', ''UNSUBSCRIBE''] [''START'', ''SUBSCRIBE''] (cb_text c)
       (if or_else (cb_from c) [] = [] then None else Some (''+'' @ or_else (cb_from c) [])))
     (\<lambda>_. io_bind (receipt mapVonageStatus (cb_messageId c) (cb_status c) (cb_errorCode c) None)
       (\<lambda>_. io_return (plain_reply 200)))"

section \<open>Runs of operations\<close>

datatype sms_op =
    SendOp SendSmsOptions
  | OptOutOp string "string option"
  | OptInOp string
  | TwilioOp callback
  | VonageOp callback

definition sms_step :: "sms_env \<Rightarrow> int \<Rightarrow> sms_op \<Rightarrow> sms_reply sms_io" where
  "sms_step E now op = (case op of
       SendOp o0 \<Rightarrow> post_send E now o0
     | OptOutOp p u \<Rightarrow> post_optout p u
     | OptInOp p \<Rightarrow> delete_optout p
     | TwilioOp c \<Rightarrow> webhook_twilio c
     | VonageOp c \<Rightarrow> webhook_vonage c)"

text \<open>Each operation comes with its time and the outcomes of its calls.\<close>

definition run_sms :: "sms_env \<Rightarrow> (int \<times> sms_op \<times> bool list) list \<Rightarrow> sms_state \<Rightarrow> sms_state" where
  "run_sms E ops d = fold (\<lambda>(now, op, fs) d. db_after (sms_step E now op) fs d) ops d"

lemma keeps_create_log:
  assumes "\<And>d ls n. P d \<Longrightarrow> P (d\<lparr>sm_logs := ls, sm_nextId := n\<rparr>)"
  shows "keeps P (create_log E now o0 body st err)"
  unfolding create_log_def by (rule keeps_call) (simp add: assms)

lemma keeps_update_log:
  assumes "\<And>d ls. P d \<Longrightarrow> P (d\<lparr>sm_logs := ls\<rparr>)"
  shows "keeps P (update_log i f)"
  unfolding update_log_def by (rule keeps_write) (simp add: assms)

lemma keeps_send_failed:
  assumes "\<And>d ls. P d \<Longrightarrow> P (d\<lparr>sm_logs := ls\<rparr>)"
  shows "keeps P (send_failed i e)"
  unfolding send_failed_def by (intro keeps_intros keeps_update_log assms)

lemma keeps_quietly: "keeps P m \<Longrightarrow> keeps P (quietly m)"
  unfolding quietly_def by (intro keeps_intros)

lemma keeps_receipt:
  assumes "\<And>d ls. P d \<Longrightarrow> P (d\<lparr>sm_logs := ls\<rparr>)"
  shows "keeps P (receipt f i st c e)"
  unfolding receipt_def updateDeliveryStatus_def
  by (intro keeps_intros keeps_quietly keeps_write assms)

lemma keeps_inbound:
  assumes "\<And>p u. or_else sender [] = p \<Longrightarrow> keeps P (recordOptOut p u)"
    and "\<And>p. or_else sender [] = p \<Longrightarrow> p \<noteq> [] \<Longrightarrow> js_upper (js_trim (or_else body [])) \<in> set starts \<Longrightarrow>
      keeps P (removeOptOut p)"
  shows "keeps P (inbound stops starts body sender)"
  unfolding inbound_def Let_def by (auto intro!: keeps_intros keeps_quietly assms)

section \<open>Opted out\<close>

definition opts_in :: "string \<Rightarrow> sms_op \<Rightarrow> bool" where
  "opts_in phone op = (case op of
       OptInOp p \<Rightarrow> p = phone
     | TwilioOp c \<Rightarrow> or_else (cb_from c) [] = phone \<and>
         js_upper (js_trim (or_else (cb_text c) [])) \<in> set [''START'', ''YES'', ''UNSTOP'']
     | VonageOp c \<Rightarrow> ''+'' @ or_else (cb_from c) [] = phone \<and>
         js_upper (js_trim (or_else (cb_text c) [])) \<in> set [''START'', ''SUBSCRIBE'']
     | _ \<Rightarrow> False)"

definition silent :: "string \<Rightarrow> sent_sms list \<Rightarrow> sms_state \<Rightarrow> bool" where
  "silent phone S d \<longleftrightarrow> phone \<in> fst ` set (sm_optOuts d) \<and> filter (\<lambda>m. ss_to m = phone) (sm_sent d) = S"

lemma silent_logs [simp]:
  "silent phone S (d\<lparr>sm_logs := ls, sm_nextId := n\<rparr>) = silent phone S d"
  "silent phone S (d\<lparr>sm_logs := ls\<rparr>) = silent phone S d"
  "silent phone S (d\<lparr>rateLimitMap := m\<rparr>) = silent phone S d"
  by (simp_all add: silent_def)

lemma silent_deliver: "so_to o0 \<noteq> phone \<Longrightarrow> keeps (silent phone S) (deliver_sms E now o0 body i)"
  unfolding deliver_sms_def
  by (intro keeps_intros keeps_send_failed keeps_update_log)
    (auto simp: hand_over_def silent_def intro!: keeps_memory)

lemma silent_sendSms: "keeps (silent phone S) (sendSms E now o0)"
proof (cases "resolve_body o0")
  case (Text body)
  have blocked: "keeps (silent phone S) (io_bind (create_log E now o0 body st err) (\<lambda>i. io_return (r i)))"
    for st err and r :: "nat \<Rightarrow> SmsResult"
    by (intro keeps_intros keeps_create_log) simp
  show ?thesis unfolding sendSms_def Text resolved.case isOptedOut_def
  proof (rule keeps_read_bind, rule keeps_if, rule blocked, goal_cases)
    case (1 d a)
    then have other: "so_to o0 \<noteq> phone" by (auto simp: silent_def)
    show ?case
      by (intro keeps_intros blocked silent_deliver [OF other] keeps_create_log keeps_update_log keeps_memory)
        (auto split: prod.splits)
  qed
qed (simp_all add: sendSms_def keeps_intros)

lemma silent_optouts:
  "keeps (silent phone S) (recordOptOut p u)"
  "p \<noteq> phone \<Longrightarrow> keeps (silent phone S) (removeOptOut p)"
  unfolding recordOptOut_def removeOptOut_def by (force simp: silent_def intro!: keeps_write)+

lemma silent_step:
  assumes "\<not> opts_in phone op"
  shows "keeps (silent phone S) (sms_step E now op)"
proof (cases op)
  case (SendOp o0)
  have "keeps (silent phone S) (post_send E now o0)"
    unfolding post_send_def Let_def by (auto intro!: keeps_intros silent_sendSms)
  then show ?thesis by (simp add: sms_step_def SendOp)
next
  case (OptOutOp p u)
  have "keeps (silent phone S) (post_optout p u)"
    unfolding post_optout_def by (auto intro!: keeps_intros silent_optouts)
  then show ?thesis by (simp add: sms_step_def OptOutOp)
next
  case (OptInOp p)
  then have "p \<noteq> phone" using assms by (simp add: opts_in_def)
  then have "keeps (silent phone S) (delete_optout p)"
    unfolding delete_optout_def by (auto intro!: keeps_intros silent_optouts)
  then show ?thesis by (simp add: sms_step_def OptInOp)
next
  case (TwilioOp c)
  have no: "\<not> (or_else (cb_from c) [] = phone \<and> js_upper (js_trim (or_else (cb_text c) [])) \<in> set [''START'', ''YES'', ''UNSTOP''])"
    using assms unfolding opts_in_def TwilioOp sms_op.case .
  have "keeps (silent phone S) (webhook_twilio c)"
    unfolding webhook_twilio_def
  proof (intro keeps_intros keeps_inbound keeps_receipt silent_optouts)
    fix p assume "or_else (cb_from c) [] = p"
      and "js_upper (js_trim (or_else (cb_text c) [])) \<in> set [''START'', ''YES'', ''UNSTOP'']"
    then show "p \<noteq> phone" using no by blast
  qed simp
  then show ?thesis by (simp add: sms_step_def TwilioOp)
next
  case (VonageOp c)
  let ?sender = "if or_else (cb_from c) [] = [] then None else Some (''+'' @ or_else (cb_from c) [])"
  have no: "\<not> (''+'' @ or_else (cb_from c) [] = phone \<and> js_upper (js_trim (or_else (cb_text c) [])) \<in> set [''START'', ''SUBSCRIBE''])"
    using assms unfolding opts_in_def VonageOp sms_op.case .
  have "keeps (silent phone S) (webhook_vonage c)"
    unfolding webhook_vonage_def
  proof (intro keeps_intros keeps_inbound keeps_receipt silent_optouts)
    fix p assume "or_else ?sender [] = p" "p \<noteq> []"
      and yes: "js_upper (js_trim (or_else (cb_text c) [])) \<in> set [''START'', ''SUBSCRIBE'']"
    then have "p = ''+'' @ or_else (cb_from c) []" by (simp add: or_else_def split: if_splits)
    then show "p \<noteq> phone" using no yes by blast
  qed simp
  then show ?thesis by (simp add: sms_step_def VonageOp)
qed

text \<open>C24: Once a number has opted out no message goes to it, whatever is asked for and whichever calls fail,
  until an operation opts it in again.\<close>

theorem opted_out_gets_nothing:
  assumes "phone \<in> fst ` set (sm_optOuts d)" and "\<forall>(now, op, fs) \<in> set ops. \<not> opts_in phone op"
  shows "filter (\<lambda>m. ss_to m = phone) (sm_sent (run_sms E ops d)) = filter (\<lambda>m. ss_to m = phone) (sm_sent d)"
proof -
  have "silent phone S d \<Longrightarrow> silent phone S (run_sms E ops d)" for S d
    using assms(2) unfolding run_sms_def
  proof (induction ops arbitrary: d)
    case (Cons x ops)
    obtain now op fs where x: "x = (now, op, fs)" by (rule prod_cases3) (rule that)
    have "silent phone S (db_after (sms_step E now op) fs d)"
      by (rule keepsD [OF silent_step Cons.prems(1)]) (use Cons.prems(2) x in auto)
    from Cons.IH [OF this] Cons.prems(2) x show ?case by simp
  qed simp
  from this [of "filter (\<lambda>m. ss_to m = phone) (sm_sent d)" d] assms(1) show ?thesis by (simp add: silent_def)
qed

section \<open>Five in an hour\<close>

definition sent_between :: "string \<Rightarrow> int \<Rightarrow> int \<Rightarrow> sent_sms list \<Rightarrow> nat" where
  "sent_between u lo hi ms = length (filter (\<lambda>m. ss_userId m = u \<and> lo < ss_time m \<and> ss_time m \<le> hi) ms)"

definition sent_after :: "string \<Rightarrow> int \<Rightarrow> sent_sms list \<Rightarrow> nat" where
  "sent_after u lo ms = length (filter (\<lambda>m. ss_userId m = u \<and> lo < ss_time m) ms)"

lemma between_after: "sent_between u lo hi ms \<le> sent_after u lo ms"
  unfolding sent_between_def sent_after_def by (induction ms) auto

text \<open>The map remembers enough: in every window that is still open it lists at least the messages that were
  sent, and no window has seen more than five.\<close>

definition within_limit :: "int \<Rightarrow> (string \<times> int list) list \<Rightarrow> sent_sms list \<Rightarrow> bool" where
  "within_limit now m ms \<longleftrightarrow>
     (\<forall>u c. now \<le> c \<longrightarrow> sent_after u (c - RATE_LIMIT_WINDOW_MS) ms \<le> length (recent c (times_of u m))) \<and>
     (\<forall>u T. sent_between u (T - RATE_LIMIT_WINDOW_MS) T ms \<le> RATE_LIMIT_MAX)"

lemma within_limit_later: "within_limit now m ms \<Longrightarrow> now \<le> later \<Longrightarrow> within_limit later m ms"
  by (auto simp: within_limit_def)

lemma recent_recent: "now \<le> c \<Longrightarrow> recent c (recent now ts) = recent c ts"
  by (auto simp: recent_def RATE_LIMIT_WINDOW_MS_def intro: filter_cong)

lemma within_limit_prefix:
  assumes "within_limit now m (ms @ ns)"
  shows "within_limit now m ms"
proof -
  have "sent_after u lo ms \<le> sent_after u lo (ms @ ns)" "sent_between u lo hi ms \<le> sent_between u lo hi (ms @ ns)" for u lo hi
    by (simp_all add: sent_after_def sent_between_def)
  then show ?thesis using assms unfolding within_limit_def by (meson le_trans)
qed

lemma checkRateLimit_ok:
  assumes "within_limit now m ms" and "checkRateLimit now u m = (True, m')"
  shows "within_limit now m' (ms @ [\<lparr>ss_userId = u, ss_to = p, ss_body = b, ss_time = now\<rparr>])"
proof -
  let ?ts = "recent now (times_of u m)" and ?W = RATE_LIMIT_WINDOW_MS
  let ?ms = "ms @ [\<lparr>ss_userId = u, ss_to = p, ss_body = b, ss_time = now\<rparr>]"
  have few: "length ?ts < RATE_LIMIT_MAX" and m': "m' = AList.update u (?ts @ [now]) m"
    using assms(2) by (auto simp: checkRateLimit_def Let_def split: if_splits)
  have times: "times_of v m' = (if v = u then ?ts @ [now] else times_of v m)" for v
    by (simp add: m' times_of_def AList.update_conv')
  have open_windows: "sent_after v (c - ?W) ?ms \<le> length (recent c (times_of v m'))" if "now \<le> c" for v c
  proof -
    have "sent_after v (c - ?W) ms \<le> length (recent c (times_of v m))"
      using assms(1) that by (simp add: within_limit_def)
    moreover have "recent c (?ts @ [now]) = recent c (times_of u m) @ recent c [now]"
      using recent_recent [OF that] by (simp add: recent_def)
    ultimately show ?thesis by (auto simp: sent_after_def times recent_def)
  qed
  moreover have "sent_between v (T - ?W) T ?ms \<le> RATE_LIMIT_MAX" for v T
  proof (cases "v = u \<and> now \<le> T")
    case True
    have "sent_between v (T - ?W) T ?ms \<le> sent_after v (T - ?W) ?ms"
      by (rule between_after)
    also have "\<dots> \<le> length (recent T (?ts @ [now]))" using open_windows [of T v] True by (simp add: times)
    also have "\<dots> \<le> RATE_LIMIT_MAX"
      using few length_filter_le [of _ "?ts @ [now]"] unfolding recent_def [of T] by (metis Suc_leI le_trans length_append_singleton)
    finally show ?thesis .
  next
    case False
    then have "sent_between v (T - ?W) T ?ms = sent_between v (T - ?W) T ms" by (auto simp: sent_between_def)
    then show ?thesis using assms(1) by (simp add: within_limit_def)
  qed
  ultimately show ?thesis by (simp add: within_limit_def)
qed

definition limited :: "int \<Rightarrow> sent_sms list \<Rightarrow> sms_state \<Rightarrow> bool" where
  "limited now pending d \<longleftrightarrow> within_limit now (rateLimitMap d) (sm_sent d @ pending)"

lemma limited_logs [simp]:
  "limited now ps (d\<lparr>sm_logs := ls, sm_nextId := n\<rparr>) = limited now ps d"
  "limited now ps (d\<lparr>sm_logs := ls\<rparr>) = limited now ps d"
  "limited now ps (d\<lparr>sm_optOuts := os\<rparr>) = limited now ps d"
  by (simp_all add: limited_def)

lemma limited_none: "limited now ps d \<Longrightarrow> limited now [] d"
  unfolding limited_def using within_limit_prefix by fastforce

lemmas limited_keeps = keeps_create_log [where P = "limited now ps" for now ps]
  keeps_update_log [where P = "limited now ps" for now ps] keeps_send_failed [where P = "limited now ps" for now ps]

lemma limited_deliver:
  "ensures (limited now [\<lparr>ss_userId = so_userId o0, ss_to = so_to o0, ss_body = body, ss_time = now\<rparr>])
     (deliver_sms E now o0 body i) (\<lambda>_. limited now []) (limited now [])"
  unfolding deliver_sms_def
proof (rule ensures_bind)
  show "ensures (limited now [\<lparr>ss_userId = so_userId o0, ss_to = so_to o0, ss_body = body, ss_time = now\<rparr>])
      (hand_over E now o0 body) (\<lambda>_. limited now []) (limited now [])"
    unfolding hand_over_def by (rule ensures_memory) (simp add: limited_def)
next
  fix r :: "string + string"
  show "ensures (limited now []) (case r of Inl e \<Rightarrow> send_failed i e
      | Inr m \<Rightarrow> io_catch (io_bind (update_log i (\<lambda>l. l\<lparr>sl_status := ''sent'', sl_messageId := Some m\<rparr>))
          (\<lambda>_. io_return (sms_success m (int i)))) (\<lambda>_. send_failed i ''Database error''))
      (\<lambda>_. limited now []) (limited now [])"
    by (intro keeps_ensures keeps_intros limited_keeps) simp_all
qed

lemma limited_sendSms: "keeps (limited now []) (sendSms E now o0)"
proof (cases "resolve_body o0")
  case (Text body)
  let ?m = "\<lparr>ss_userId = so_userId o0, ss_to = so_to o0, ss_body = body, ss_time = now\<rparr>"
  have blocked: "keeps (limited now ps) (io_bind (create_log E now o0 body st err) (\<lambda>i. io_return (r i)))"
    for st err ps and r :: "nat \<Rightarrow> SmsResult"
    by (intro keeps_intros limited_keeps) simp
  have queued: "ensures (limited now [?m]) (io_bind (create_log E now o0 body ''queued'' None) (\<lambda>i.
      if isDryRun E then io_bind (update_log i (\<lambda>l. l\<lparr>sl_status := ''sent'', sl_messageId := Some ''dry-run''\<rparr>))
        (\<lambda>_. io_return (sms_success ''dry-run'' (int i)))
      else deliver_sms E now o0 body i)) (\<lambda>_. limited now []) (limited now [])"
  proof (rule ensures_bind [where Q = "\<lambda>_. limited now [?m]"])
    have "keeps (limited now [?m]) (create_log E now o0 body ''queued'' None)" by (intro limited_keeps) simp
    from keeps_ensures [OF this]
    show "ensures (limited now [?m]) (create_log E now o0 body ''queued'' None) (\<lambda>_. limited now [?m]) (limited now [])"
      by (rule ensures_weaken) (auto intro: limited_none)
    have dry: "keeps (limited now [?m]) (io_bind (update_log i (\<lambda>l. l\<lparr>sl_status := ''sent'', sl_messageId := Some ''dry-run''\<rparr>))
        (\<lambda>_. io_return (sms_success ''dry-run'' (int i))))" for i
      by (intro keeps_intros limited_keeps) simp
    show "ensures (limited now [?m]) (if isDryRun E then
        io_bind (update_log i (\<lambda>l. l\<lparr>sl_status := ''sent'', sl_messageId := Some ''dry-run''\<rparr>))
          (\<lambda>_. io_return (sms_success ''dry-run'' (int i)))
        else deliver_sms E now o0 body i) (\<lambda>_. limited now []) (limited now [])" for i
      using limited_deliver [of now o0 body E i] ensures_weaken [OF keeps_ensures [OF dry]] limited_none by simp
  qed
  have check: "ensures (limited now []) (io_memory (\<lambda>d. case checkRateLimit now (so_userId o0) (rateLimitMap d) of
      (allowed, m) \<Rightarrow> (allowed, d\<lparr>rateLimitMap := m\<rparr>)))
      (\<lambda>allowed. limited now (if allowed then [?m] else [])) (limited now [])"
  proof (rule ensures_memory)
    fix d assume d: "limited now [] d"
    obtain a m where c: "checkRateLimit now (so_userId o0) (rateLimitMap d) = (a, m)" by fastforce
    have "\<not> a \<Longrightarrow> m = rateLimitMap d" using c by (auto simp: checkRateLimit_def Let_def split: if_splits)
    then show "limited now (if fst (case checkRateLimit now (so_userId o0) (rateLimitMap d) of
          (allowed, m) \<Rightarrow> (allowed, d\<lparr>rateLimitMap := m\<rparr>)) then [?m] else [])
        (snd (case checkRateLimit now (so_userId o0) (rateLimitMap d) of
          (allowed, m) \<Rightarrow> (allowed, d\<lparr>rateLimitMap := m\<rparr>)))"
      using d c checkRateLimit_ok [of now "rateLimitMap d" "sm_sent d" "so_userId o0" m "so_to o0" body]
      by (cases a) (simp_all add: limited_def)
  qed
  show ?thesis unfolding sendSms_def Text resolved.case isOptedOut_def
  proof (rule keeps_bind [OF keeps_read], rule keeps_if, rule blocked, rule ensures_keeps, rule ensures_bind [OF check],
      goal_cases)
    case (1 optedOut allowed)
    show ?case
    proof (cases allowed)
      case True
      then show ?thesis using queued by simp
    next
      case False
      then show ?thesis using keeps_ensures [OF blocked [of "[]"]] by simp
    qed
  qed
qed (simp_all add: sendSms_def keeps_intros)

lemma limited_step: "keeps (limited now []) (sms_step E now op)"
proof -
  have opts: "keeps (limited now []) (recordOptOut p u)" "keeps (limited now []) (removeOptOut p)" for p u
    unfolding recordOptOut_def removeOptOut_def by (auto intro!: keeps_write)
  have "keeps (limited now []) (post_send E now o0)" "keeps (limited now []) (post_optout p u)"
    "keeps (limited now []) (delete_optout p)" for o0 p u
    unfolding post_send_def post_optout_def delete_optout_def Let_def
    by (auto intro!: keeps_intros limited_sendSms opts)
  moreover have "keeps (limited now []) (webhook_twilio c)" "keeps (limited now []) (webhook_vonage c)" for c
    unfolding webhook_twilio_def webhook_vonage_def
    by (intro keeps_intros keeps_inbound keeps_receipt opts; simp)+
  ultimately show ?thesis by (cases op) (simp_all add: sms_step_def)
qed

text \<open>C25: Whatever is asked for, in which order and however calls fail, no user is sent more than five messages in
  any hour.\<close>

theorem five_in_an_hour:
  assumes "sm_sent d = []" and "sorted (map fst ops)"
  shows "sent_between u (T - 3600000) T (sm_sent (run_sms E ops d)) \<le> 5"
proof -
  have "limited t0 [] d \<Longrightarrow> \<forall>x \<in> set ops. t0 \<le> fst x \<Longrightarrow> sorted (map fst ops) \<Longrightarrow>
      \<exists>t. limited t [] (run_sms E ops d)" for t0 d ops
  proof (induction ops arbitrary: t0 d)
    case (Cons x ops)
    obtain now op fs where x: "x = (now, op, fs)" by (rule prod_cases3) (rule that)
    have "limited now [] d" using Cons.prems x within_limit_later by (auto simp: limited_def)
    from keepsD [OF limited_step this] have "limited now [] (db_after (sms_step E now op) fs d)" .
    from Cons.IH [OF this] Cons.prems x show ?case by (auto simp: run_sms_def)
  qed (auto simp: run_sms_def)
  moreover have "limited (Min (insert 0 (fst ` set ops))) [] d"
    using assms(1) by (simp add: limited_def within_limit_def sent_after_def sent_between_def)
  ultimately obtain t where "limited t [] (run_sms E ops d)" using assms(2) by (metis List.finite_set Min_le finite_imageI
        finite_insert imageI insertI2)
  then show ?thesis by (auto simp: limited_def within_limit_def RATE_LIMIT_WINDOW_MS_def RATE_LIMIT_MAX_def)
qed

section \<open>Concrete runs\<close>

definition demo_sms_env :: sms_env where
  "demo_sms_env = \<lparr>se_dryRun = Some ''false'', se_provider = None,
     se_twilio = (\<lambda>_ _. Parsed \<lparr>tw_sid = Some ''SM1'', tw_message = None\<rparr>), se_vonage = (\<lambda>_ _. Unparsable)\<rparr>"

definition demo_sms :: sms_state where
  "demo_sms = \<lparr>sm_logs = [], sm_nextId = 1, sm_optOuts = [], rateLimitMap = [], sm_sent = []\<rparr>"

definition demo_send :: sms_op where
  "demo_send = SendOp \<lparr>so_to = ''+14155551234'', so_userId = ''u1'', so_templateId = None, so_variables = [],
     so_body = Some ''hi''\<rparr>"

theorem opted_out_gets_nothing_witness:
  "filter (\<lambda>m. ss_to m = ''+14155551234'') (sm_sent (run_sms demo_sms_env [(1, demo_send, []), (2, demo_send, [])]
     (demo_sms\<lparr>sm_optOuts := [(''+14155551234'', None)]\<rparr>))) = []"
proof -
  let ?d = "demo_sms\<lparr>sm_optOuts := [(''+14155551234'', None)]\<rparr>"
  have "''+14155551234'' \<in> fst ` set (sm_optOuts ?d)" by simp
  moreover have "\<forall>(now, op, fs) \<in> set [(1, demo_send, []), (2, demo_send, [])]. \<not> opts_in ''+14155551234'' op"
    by (simp add: opts_in_def demo_send_def)
  ultimately have "filter (\<lambda>m. ss_to m = ''+14155551234'') (sm_sent (run_sms demo_sms_env
      [(1, demo_send, []), (2, demo_send, [])] ?d)) = filter (\<lambda>m. ss_to m = ''+14155551234'') (sm_sent ?d)"
    by (rule opted_out_gets_nothing)
  then show ?thesis by (simp add: demo_sms_def)
qed

theorem five_in_an_hour_witness:
  "sent_between ''u1'' (7 - 3600000) 7 (sm_sent (run_sms demo_sms_env (map (\<lambda>t. (t, demo_send, [])) [1, 2, 3, 4, 5, 6, 7])
     demo_sms)) \<le> 5 \<and> length (sm_sent (run_sms demo_sms_env [(1, demo_send, [])] demo_sms)) = 1"
proof
  show "sent_between ''u1'' (7 - 3600000) 7 (sm_sent (run_sms demo_sms_env
      (map (\<lambda>t. (t, demo_send, [])) [1, 2, 3, 4, 5, 6, 7]) demo_sms)) \<le> 5"
    by (rule five_in_an_hour) (simp_all add: demo_sms_def)
  show "length (sm_sent (run_sms demo_sms_env [(1, demo_send, [])] demo_sms)) = 1" by code_simp
qed

text \<open>When the record of a sent message fails, the caller is told that it was not sent.\<close>

lemma sent_but_failed:
  "fst (post_send demo_sms_env 1 (case demo_send of SendOp o0 \<Rightarrow> o0) (demo_sms, [False, False, True])) =
     Inr (error_reply 502 ''Database error'')"
  "length (sm_sent (db_after (sms_step demo_sms_env 1 demo_send) [False, False, True] demo_sms)) = 1"
  by code_simp+

end
