(* ===== verification/Ttl_Health.thy ===== *)
theory Ttl_Health
  imports Payment_Scheduler Webhook_Notifier Tally Json
begin

text \<open>
  The TTL monitor, \<^verbatim>\<open>backend/src/services/ttlHealthMonitor.ts\<close>: which subscriptions were last active too long
  ago for the storage of the contract, and one notification per merchant. It reads the rows that the event
  indexer writes; equal times come in the order of the table. The printed form of times and of JSON are
  arguments, the clock is in milliseconds.
\<close>

definition TTL_RISK_DAYS :: int where "TTL_RISK_DAYS = 300"
definition TTL_RISK_SECONDS :: int where "TTL_RISK_SECONDS = TTL_RISK_DAYS * 24 * 60 * 60"

record TtlAtRiskEntry =
  tr_subscriber :: string
  tr_merchant :: string
  tr_token :: string
  tr_amount :: string
  tr_lastPaymentAt :: "string option"
  tr_daysSinceLastPayment :: int

record ttl_env =
  te_iso :: "int \<Rightarrow> string"
  te_stringify :: "json \<Rightarrow> string"

section \<open>Finding\<close>

definition row_key :: "event_row \<Rightarrow> string" where
  "row_key e = er_subscriber e @ '':'' @ er_merchant e @ '':'' @ er_token e"

definition row_triple :: "event_row \<Rightarrow> string \<times> string \<times> string" where
  "row_triple e = (er_subscriber e, er_merchant e, er_token e)"

definition latest_subscriptions :: "event_row list \<Rightarrow> event_row list" where
  "latest_subscriptions rows = distinct_on row_key (newest_first (filter (\<lambda>r. er_type r = ''subscribe'') rows))"

definition last_payment :: "event_row \<Rightarrow> event_row list \<Rightarrow> event_row option" where
  "last_payment sub rows = (case newest_first (filter (\<lambda>r. er_type r = ''executed'' \<and> row_triple r = row_triple sub) rows) of
       [] \<Rightarrow> None | r # _ \<Rightarrow> Some r)"

definition lastActivitySeconds :: "event_row list \<Rightarrow> event_row \<Rightarrow> int" where
  "lastActivitySeconds rows sub = (case last_payment sub rows of
       Some p \<Rightarrow> er_ledgerTimestamp p | None \<Rightarrow> er_ledgerTimestamp sub)"

definition at_risk_entry :: "ttl_env \<Rightarrow> int \<Rightarrow> event_row list \<Rightarrow> event_row \<Rightarrow> TtlAtRiskEntry" where
  "at_risk_entry E nowSeconds rows sub = \<lparr>tr_subscriber = er_subscriber sub, tr_merchant = er_merchant sub,
     tr_token = er_token sub, tr_amount = er_amount sub,
     tr_lastPaymentAt = map_option (\<lambda>p. te_iso E (er_ledgerTimestamp p * 1000)) (last_payment sub rows),
     tr_daysSinceLastPayment = (nowSeconds - lastActivitySeconds rows sub) div (24 * 60 * 60)\<rparr>"

definition findAtRiskSubscriptions :: "ttl_env \<Rightarrow> int \<Rightarrow> event_row list \<Rightarrow> TtlAtRiskEntry list" where
  "findAtRiskSubscriptions E now rows = (let nowSeconds = now div 1000; cutoffSeconds = nowSeconds - TTL_RISK_SECONDS
     in map (at_risk_entry E nowSeconds rows)
          (filter (\<lambda>sub. lastActivitySeconds rows sub < cutoffSeconds) (latest_subscriptions rows)))"

section \<open>Notifying\<close>

definition entry_object :: "TtlAtRiskEntry \<Rightarrow> json" where
  "entry_object e = JObj [(''subscriber'', JStr (tr_subscriber e)), (''merchant'', JStr (tr_merchant e)),
     (''token'', JStr (tr_token e)), (''amount'', JStr (tr_amount e)),
     (''lastPaymentAt'', case tr_lastPaymentAt e of Some t \<Rightarrow> JStr t | None \<Rightarrow> JNull),
     (''daysSinceLastPayment'', JNum (tr_daysSinceLastPayment e))]"

definition ttl_payload :: "ttl_env \<Rightarrow> int \<Rightarrow> string \<Rightarrow> TtlAtRiskEntry list \<Rightarrow> WebhookPayload" where
  "ttl_payload E now merchant subs = \<lparr>wp_event = PaymentFailed, wp_subscriber = js_join (map tr_subscriber subs),
     wp_merchant = merchant, wp_amount = ''0'', wp_txHash = None, wp_eventIndex = None, wp_timestamp = now div 1000,
     wp_traceContext = Some (te_stringify E (JObj [(''type'', JStr ''ttl_at_risk''),
       (''atRiskCount'', JNum (int (length subs))), (''subscriptions'', JArr (map entry_object subs))]))\<rparr>"

definition by_merchant :: "TtlAtRiskEntry list \<Rightarrow> (string \<times> TtlAtRiskEntry list) list" where
  "by_merchant entries = tally tr_merchant (\<lambda>e. [e]) (\<lambda>l e. l @ [e]) entries"

text \<open>An error of one merchant's notification is logged.\<close>

definition notifyMerchantsOfAtRiskSubscriptions ::
  "ttl_env \<Rightarrow> 'w notifier_env \<Rightarrow> webhook_endpoint list \<Rightarrow> int \<Rightarrow> TtlAtRiskEntry list
   \<Rightarrow> delivery_record list \<times> 'w \<Rightarrow> delivery_record list \<times> 'w" where
  "notifyMerchantsOfAtRiskSubscriptions E N eps now entries s =
     fold (\<lambda>(merchant, subs) s. snd (notifyWebhooks N eps (ttl_payload E now merchant subs) s)) (by_merchant entries) s"

definition runTtlHealthCheck ::
  "ttl_env \<Rightarrow> 'w notifier_env \<Rightarrow> webhook_endpoint list \<Rightarrow> int \<Rightarrow> event_row list
   \<Rightarrow> delivery_record list \<times> 'w \<Rightarrow> TtlAtRiskEntry list \<times> delivery_record list \<times> 'w" where
  "runTtlHealthCheck E N eps now rows s = (let entries = findAtRiskSubscriptions E now rows in
     (entries, notifyMerchantsOfAtRiskSubscriptions E N eps now entries s))"

section \<open>What is found\<close>

definition entry_triple :: "TtlAtRiskEntry \<Rightarrow> string \<times> string \<times> string" where
  "entry_triple e = (tr_subscriber e, tr_merchant e, tr_token e)"

text \<open>The last activity of a subscription: its newest payment, or else its newest subscription.\<close>

definition newest_of :: "string \<Rightarrow> string \<times> string \<times> string \<Rightarrow> event_row list \<Rightarrow> int" where
  "newest_of ty k rows = newest (\<lambda>r. er_type r = ty \<and> row_triple r = k) rows"

definition has_event :: "string \<Rightarrow> string \<times> string \<times> string \<Rightarrow> event_row list \<Rightarrow> bool" where
  "has_event ty k rows \<longleftrightarrow> (\<exists>r \<in> set rows. er_type r = ty \<and> row_triple r = k)"

definition storage_age :: "event_row list \<Rightarrow> string \<times> string \<times> string \<Rightarrow> int \<Rightarrow> int" where
  "storage_age rows k nowSeconds =
     nowSeconds - (if has_event ''executed'' k rows then newest_of ''executed'' k rows else newest_of ''subscribe'' k rows)"

definition plain_names :: "event_row list \<Rightarrow> bool" where
  "plain_names rows \<longleftrightarrow> (\<forall>r \<in> set rows. CHR '':'' \<notin> set (er_subscriber r) \<and> CHR '':'' \<notin> set (er_merchant r))"

lemma append_sep_inj: "c \<notin> set a \<Longrightarrow> c \<notin> set b \<Longrightarrow> a @ c # x = b @ c # y \<longleftrightarrow> a = b \<and> x = y"
proof (induction a arbitrary: b)
  case Nil
  then show ?case by (cases b) auto
next
  case (Cons d a)
  then show ?case by (cases b) auto
qed

lemma row_key_triple:
  assumes "plain_names rows" and "r \<in> set rows" and "r' \<in> set rows"
  shows "row_key r = row_key r' \<longleftrightarrow> row_triple r = row_triple r'"
proof -
  have "CHR '':'' \<notin> set (er_subscriber r)" "CHR '':'' \<notin> set (er_subscriber r')"
    "CHR '':'' \<notin> set (er_merchant r)" "CHR '':'' \<notin> set (er_merchant r')"
    using assms unfolding plain_names_def by blast+
  then show ?thesis by (simp add: row_key_def row_triple_def append_sep_inj)
qed

lemma head_newest:
  assumes "newest_first sel = r # rs"
  shows "r \<in> set sel" and "x \<in> set sel \<Longrightarrow> er_ledgerTimestamp x \<le> er_ledgerTimestamp r"
proof -
  have "set (newest_first sel) = set (r # rs)" using assms by simp
  then show "r \<in> set sel" by simp
  assume "x \<in> set sel"
  then show "er_ledgerTimestamp x \<le> er_ledgerTimestamp r"
    using sorted_newest_first [of sel] set_newest_first [of sel] unfolding assms by auto
qed

lemma last_payment_newest:
  "last_payment sub rows = None \<longleftrightarrow> \<not> has_event ''executed'' (row_triple sub) rows"
  "last_payment sub rows = Some p \<Longrightarrow> er_ledgerTimestamp p = newest_of ''executed'' (row_triple sub) rows"
proof -
  define sel where "sel = filter (\<lambda>r. er_type r = ''executed'' \<and> row_triple r = row_triple sub) rows"
  have lp: "last_payment sub rows = (case newest_first sel of [] \<Rightarrow> None | r # _ \<Rightarrow> Some r)"
    by (simp add: last_payment_def sel_def)
  have sel: "x \<in> set sel \<longleftrightarrow> x \<in> set rows \<and> er_type x = ''executed'' \<and> row_triple x = row_triple sub" for x
    by (simp add: sel_def)
  have "newest_first sel = [] \<longleftrightarrow> sel = []" by (metis set_empty set_newest_first)
  moreover have "sel = [] \<longleftrightarrow> \<not> has_event ''executed'' (row_triple sub) rows"
    using sel by (metis has_event_def list.set_intros(1) neq_Nil_conv set_empty empty_iff)
  ultimately show "last_payment sub rows = None \<longleftrightarrow> \<not> has_event ''executed'' (row_triple sub) rows"
    unfolding lp by (auto split: list.splits)
  assume "last_payment sub rows = Some p"
  then obtain rs where l: "newest_first sel = p # rs" unfolding lp by (auto split: list.splits)
  have "newest (\<lambda>r. er_type r = ''executed'' \<and> row_triple r = row_triple sub) rows = er_ledgerTimestamp p"
    by (rule newestI) (use head_newest [OF l] sel in blast)+
  then show "er_ledgerTimestamp p = newest_of ''executed'' (row_triple sub) rows" by (simp add: newest_of_def)
qed

lemma latest_subscription_newest:
  assumes "plain_names rows" and "sub \<in> set (latest_subscriptions rows)"
  shows "sub \<in> set rows" and "er_type sub = ''subscribe''"
    and "er_ledgerTimestamp sub = newest_of ''subscribe'' (row_triple sub) rows"
proof -
  define sel where "sel = filter (\<lambda>r. er_type r = ''subscribe'') rows"
  have sel: "x \<in> set sel \<longleftrightarrow> x \<in> set rows \<and> er_type x = ''subscribe''" for x by (simp add: sel_def)
  have s: "sub \<in> set (distinct_on row_key (newest_first sel))" using assms(2) by (simp add: latest_subscriptions_def sel_def)
  then have "sub \<in> set sel" using set_distinct_on(2) [of row_key "newest_first sel"] by auto
  then show m: "sub \<in> set rows" "er_type sub = ''subscribe''" using sel by blast+
  have "er_ledgerTimestamp x \<le> er_ledgerTimestamp sub" if "x \<in> set sel" "row_key x = row_key sub" for x
    using distinct_on_least [OF sorted_newest_first s, of x] that by simp
  then have "newest (\<lambda>r. er_type r = ''subscribe'' \<and> row_triple r = row_triple sub) rows = er_ledgerTimestamp sub"
    using m sel row_key_triple [OF assms(1)] by (intro newestI) blast+
  then show "er_ledgerTimestamp sub = newest_of ''subscribe'' (row_triple sub) rows" by (simp add: newest_of_def)
qed

lemma lastActivity_age:
  assumes "plain_names rows" and "sub \<in> set (latest_subscriptions rows)"
  shows "nowSeconds - lastActivitySeconds rows sub = storage_age rows (row_triple sub) nowSeconds"
proof (cases "last_payment sub rows")
  case None
  then have "\<not> has_event ''executed'' (row_triple sub) rows" using last_payment_newest(1) by blast
  then show ?thesis unfolding lastActivitySeconds_def storage_age_def None
    using latest_subscription_newest(3) [OF assms] by (simp only: if_False option.case)
next
  case (Some p)
  then have "has_event ''executed'' (row_triple sub) rows" using last_payment_newest(1) [of sub rows] by simp
  then show ?thesis using last_payment_newest(2) [OF Some] Some by (simp add: lastActivitySeconds_def storage_age_def)
qed

lemma latest_triples:
  assumes "plain_names rows"
  shows "distinct (map row_triple (latest_subscriptions rows))"
    and "row_triple ` set (latest_subscriptions rows) = {k. has_event ''subscribe'' k rows}"
proof -
  let ?subs = "latest_subscriptions rows" and ?sel = "newest_first (filter (\<lambda>r. er_type r = ''subscribe'') rows)"
  have subs: "set ?subs \<subseteq> set rows"
    using set_distinct_on(2) [of row_key ?sel] by (auto simp: latest_subscriptions_def)
  have "distinct (map row_key ?subs)" by (simp add: latest_subscriptions_def distinct_map_distinct_on)
  then show "distinct (map row_triple ?subs)"
    using subs row_key_triple [OF assms] by (simp add: distinct_map inj_on_def subset_iff)
  show "row_triple ` set ?subs = {k. has_event ''subscribe'' k rows}"
  proof
    show "row_triple ` set ?subs \<subseteq> {k. has_event ''subscribe'' k rows}"
      using latest_subscription_newest(1,2) [OF assms] unfolding has_event_def by blast
    show "{k. has_event ''subscribe'' k rows} \<subseteq> row_triple ` set ?subs"
    proof
      fix k assume "k \<in> {k. has_event ''subscribe'' k rows}"
      then obtain r where r: "r \<in> set rows" "er_type r = ''subscribe''" "row_triple r = k"
        by (auto simp: has_event_def)
      then have "row_key r \<in> row_key ` set ?subs"
        unfolding latest_subscriptions_def set_distinct_on(1) by simp
      then obtain sub where "sub \<in> set ?subs" "row_key sub = row_key r" by (metis imageE)
      then show "k \<in> row_triple ` set ?subs" using r subs row_key_triple [OF assms] by (metis imageI subsetD)
    qed
  qed
qed

lemma at_risk_entries:
  assumes "plain_names rows"
  shows "distinct (map entry_triple (findAtRiskSubscriptions E now rows))"
    and at_risk_set: "(\<lambda>e. (entry_triple e, tr_daysSinceLastPayment e)) ` set (findAtRiskSubscriptions E now rows) =
      {(k, storage_age rows k (now div 1000) div 86400) |k. has_event ''subscribe'' k rows \<and>
         300 * 86400 < storage_age rows k (now div 1000)}"
proof -
  let ?n = "now div 1000"
  let ?risky = "filter (\<lambda>sub. lastActivitySeconds rows sub < ?n - TTL_RISK_SECONDS) (latest_subscriptions rows)"
  have f: "findAtRiskSubscriptions E now rows = map (at_risk_entry E ?n rows) ?risky"
    by (simp add: findAtRiskSubscriptions_def Let_def)
  have t: "entry_triple (at_risk_entry E ?n rows sub) = row_triple sub" for sub
    by (simp add: entry_triple_def at_risk_entry_def row_triple_def)
  show "distinct (map entry_triple (findAtRiskSubscriptions E now rows))"
    unfolding f by (simp add: t comp_def distinct_map_filter latest_triples(1) [OF assms])
  have risky: "?risky = filter (\<lambda>sub. 300 * 86400 < storage_age rows (row_triple sub) ?n) (latest_subscriptions rows)"
  proof (rule filter_cong [OF refl])
    fix sub assume "sub \<in> set (latest_subscriptions rows)"
    from lastActivity_age [OF assms this, of ?n]
    show "lastActivitySeconds rows sub < ?n - TTL_RISK_SECONDS \<longleftrightarrow> 300 * 86400 < storage_age rows (row_triple sub) ?n"
      unfolding TTL_RISK_SECONDS_def TTL_RISK_DAYS_def by linarith
  qed
  have days: "tr_daysSinceLastPayment (at_risk_entry E ?n rows sub) = storage_age rows (row_triple sub) ?n div 86400"
    if "sub \<in> set (latest_subscriptions rows)" for sub
    using lastActivity_age [OF assms that, of ?n] by (simp add: at_risk_entry_def)
  have "(\<lambda>e. (entry_triple e, tr_daysSinceLastPayment e)) ` set (findAtRiskSubscriptions E now rows) =
      (\<lambda>sub. (row_triple sub, storage_age rows (row_triple sub) ?n div 86400)) `
        {sub \<in> set (latest_subscriptions rows). 300 * 86400 < storage_age rows (row_triple sub) ?n}"
    unfolding f risky set_map set_filter image_image t using days by (intro image_cong) auto
  also have "\<dots> = (\<lambda>k. (k, storage_age rows k ?n div 86400)) `
      {k \<in> row_triple ` set (latest_subscriptions rows). 300 * 86400 < storage_age rows k ?n}" by blast
  finally show "(\<lambda>e. (entry_triple e, tr_daysSinceLastPayment e)) ` set (findAtRiskSubscriptions E now rows) =
      {(k, storage_age rows k ?n div 86400) |k. has_event ''subscribe'' k rows \<and>
         300 * 86400 < storage_age rows k ?n}" unfolding latest_triples(2) [OF assms] by blast
qed

text \<open>C30: The monitor reports exactly the subscriptions whose last activity is more than 300 days ago, each once,
  and with the number of full days since. The last activity is the newest executed payment, if there is one, and the newest
  subscription only without any payment. So subscribing again after a payment does not take a pair off the report,
  although the operations guide says that it renews the entry, and cancelled pairs are reported too, although the
  comments of the monitor speak of active ones.\<close>

theorem at_risk_exactly:
  assumes "plain_names rows"
  shows "distinct (map entry_triple (findAtRiskSubscriptions E now rows)) \<and>
    (\<lambda>e. (entry_triple e, tr_daysSinceLastPayment e)) ` set (findAtRiskSubscriptions E now rows) =
      {(k, storage_age rows k (now div 1000) div 86400) |k. has_event ''subscribe'' k rows \<and>
         300 * 86400 < storage_age rows k (now div 1000)}"
  using at_risk_entries [OF assms] by blast

definition ttl_row :: "string \<Rightarrow> int \<Rightarrow> event_row" where
  "ttl_row ty t = \<lparr>er_type = ty, er_subscriber = ''S'', er_merchant = ''M'', er_token = ''T'', er_amount = ''5'',
     er_ledgerTimestamp = t\<rparr>"

definition demo_ttl :: ttl_env where
  "demo_ttl = \<lparr>te_iso = (\<lambda>_. []), te_stringify = (\<lambda>_. [])\<rparr>"

theorem at_risk_exactly_witness:
  "distinct (map entry_triple (findAtRiskSubscriptions demo_ttl 40000000000 [ttl_row ''subscribe'' 0, ttl_row ''executed'' 100])) \<and>
   map tr_daysSinceLastPayment (findAtRiskSubscriptions demo_ttl 40000000000 [ttl_row ''subscribe'' 0, ttl_row ''executed'' 100]) = [462]"
proof
  have "plain_names [ttl_row ''subscribe'' 0, ttl_row ''executed'' 100]" by (simp add: plain_names_def ttl_row_def)
  from at_risk_exactly [OF this, of demo_ttl 40000000000]
  show "distinct (map entry_triple (findAtRiskSubscriptions demo_ttl 40000000000 [ttl_row ''subscribe'' 0, ttl_row ''executed'' 100]))"
    by blast
  show "map tr_daysSinceLastPayment (findAtRiskSubscriptions demo_ttl 40000000000
      [ttl_row ''subscribe'' 0, ttl_row ''executed'' 100]) = [462]" by code_simp
qed

section \<open>What is sent\<close>

lemma gather_list: "xs \<noteq> [] \<Longrightarrow> gather (\<lambda>e. [e]) (\<lambda>l e. l @ [e]) xs = xs"
proof (induction xs rule: rev_induct)
  case (snoc x xs)
  then show ?case by (cases "xs = []") (simp_all add: gather_snoc)
qed simp

lemma by_merchant_exact:
  "by_merchant entries = map (\<lambda>m. (m, filter (\<lambda>e. tr_merchant e = m) entries)) (first_keys tr_merchant entries)"
  unfolding by_merchant_def tally_exact
proof (rule map_cong [OF refl])
  fix m assume "m \<in> set (first_keys tr_merchant entries)"
  then have "filter (\<lambda>e. tr_merchant e = m) entries \<noteq> []" by (auto simp: no_items)
  then show "(m, gather (\<lambda>e. [e]) (\<lambda>l e. l @ [e]) (filter (\<lambda>e. tr_merchant e = m) entries)) =
      (m, filter (\<lambda>e. tr_merchant e = m) entries)" by (simp add: gather_list)
qed

text \<open>Every merchant with a subscription at risk is notified once, of all its subscriptions, in the order in which
  the merchants were found; an error of one notification does not stop the next.\<close>

lemma one_notification_per_merchant:
  "notifyMerchantsOfAtRiskSubscriptions E N eps now entries s =
     fold (\<lambda>m s. snd (notifyWebhooks N eps (ttl_payload E now m (filter (\<lambda>e. tr_merchant e = m) entries)) s))
       (first_keys tr_merchant entries) s"
  by (simp add: notifyMerchantsOfAtRiskSubscriptions_def by_merchant_exact fold_map comp_def)

text \<open>The indexer stores ledger numbers where the monitor expects seconds: while these lie below the cutoff every
  subscription is at risk, also one that has just paid.\<close>

lemma ledger_numbers_always_at_risk:
  assumes "plain_names rows" and "\<forall>r \<in> set rows. er_ledgerTimestamp r < now div 1000 - 300 * 86400"
    and "has_event ''subscribe'' k rows"
  shows "k \<in> entry_triple ` set (findAtRiskSubscriptions E now rows)"
proof -
  have "newest_of ty k rows < now div 1000 - 300 * 86400" if "has_event ty k rows" for ty
  proof -
    have "newest_of ty k rows \<le> now div 1000 - 300 * 86400 - 1"
      unfolding newest_of_def by (rule newest_le) (use assms(2) that in \<open>force simp: has_event_def\<close>)+
    then show ?thesis by simp
  qed
  then have "300 * 86400 < storage_age rows k (now div 1000)"
    using assms(3) by (force simp: storage_age_def)
  then have "(k, storage_age rows k (now div 1000) div 86400) \<in>
      (\<lambda>e. (entry_triple e, tr_daysSinceLastPayment e)) ` set (findAtRiskSubscriptions E now rows)"
    unfolding at_risk_set [OF assms(1)] using assms(3) by blast
  then show ?thesis by blast
qed

end
