(* ===== verification/Cancellation_Audit.thy ===== *)
theory Cancellation_Audit
  imports Csv "HOL-Library.Multiset"
begin

text \<open>
  The audit trail of cancellations, \<^verbatim>\<open>backend/src/services/cancellationAuditService.ts\<close> and
  \<^verbatim>\<open>backend/src/routes/cancellationAudit.ts\<close>. The table is a list of rows; times are instants, the reading and
  printing of dates, the calendar and the identifiers of new rows are arguments, and the check constraints are
  those of \<^verbatim>\<open>migrations/20241021000010_cancellation_audit.sql\<close>. A number that may be \<^verbatim>\<open>NaN\<close> is an option. The
  column \<^verbatim>\<open>updatedAt\<close>, which the client library keeps, is left out.
\<close>

section \<open>Data\<close>

record CancellationAuditInput =
  ci_network :: string
  ci_contractId :: string
  ci_subscriberAddress :: string
  ci_merchantAddress :: string
  ci_tokenAddress :: "string option"
  ci_amount :: "string option"
  ci_intervalSeconds :: "int option"
  ci_nextPaymentAt :: "int option"
  ci_ledger :: int
  ci_transactionHash :: string
  ci_reason :: "string option"
  ci_source :: "string option"

record CancellationAuditRecord =
  ca_id :: string
  ca_network :: string
  ca_contractId :: string
  ca_subscriberAddress :: string
  ca_merchantAddress :: string
  ca_tokenAddress :: "string option"
  ca_amount :: "string option"
  ca_intervalSeconds :: "int option"
  ca_nextPaymentAt :: "int option"
  ca_cancelledAt :: int
  ca_ledger :: int
  ca_transactionHash :: string
  ca_reason :: "string option"
  ca_source :: string
  ca_createdAt :: int

type_synonym audit_table = "CancellationAuditRecord list"

record ListCancellationsOptions =
  lc_merchantAddress :: "string option"
  lc_subscriberAddress :: "string option"
  lc_network :: "string option"
  lc_from :: "int option"
  lc_to :: "int option"
  lc_limit :: "int option"
  lc_offset :: "int option"

record ListCancellationsResult =
  lr_data :: "CancellationAuditRecord list"
  lr_total :: nat
  lr_limit :: int
  lr_offset :: int

datatype audit_error = ReasonTooLong | AuditDbError

section \<open>Writing\<close>

definition constraints_ok :: "CancellationAuditRecord \<Rightarrow> bool" where
  "constraints_ok r \<longleftrightarrow> ca_network r \<in> {''testnet'', ''mainnet''} \<and>
     (case ca_reason r of None \<Rightarrow> True | Some t \<Rightarrow> length t \<le> 1000) \<and>
     (case ca_intervalSeconds r of None \<Rightarrow> True | Some n \<Rightarrow> 0 < n) \<and>
     (case ca_amount r of None \<Rightarrow> True | Some a \<Rightarrow> a \<noteq> [] \<and> list_all is_digit a)"

definition new_record :: "string \<Rightarrow> int \<Rightarrow> CancellationAuditInput \<Rightarrow> CancellationAuditRecord" where
  "new_record i now inp = \<lparr>ca_id = i, ca_network = ci_network inp, ca_contractId = ci_contractId inp,
     ca_subscriberAddress = ci_subscriberAddress inp, ca_merchantAddress = ci_merchantAddress inp,
     ca_tokenAddress = ci_tokenAddress inp, ca_amount = ci_amount inp, ca_intervalSeconds = ci_intervalSeconds inp,
     ca_nextPaymentAt = ci_nextPaymentAt inp, ca_cancelledAt = now, ca_ledger = ci_ledger inp,
     ca_transactionHash = ci_transactionHash inp, ca_reason = ci_reason inp,
     ca_source = (case ci_source inp of Some s \<Rightarrow> s | None \<Rightarrow> ''event''), ca_createdAt = now\<rparr>"

definition audit_key :: "CancellationAuditRecord \<Rightarrow> string \<times> string" where
  "audit_key r = (ca_network r, ca_transactionHash r)"

definition recordCancellation ::
  "string \<Rightarrow> int \<Rightarrow> CancellationAuditInput \<Rightarrow> audit_table
   \<Rightarrow> (audit_error + CancellationAuditRecord) \<times> audit_table" where
  "recordCancellation i now inp tbl =
     (if (case ci_reason inp of None \<Rightarrow> False | Some t \<Rightarrow> 1000 < length t) then (Inl ReasonTooLong, tbl)
      else (case find (\<lambda>r. audit_key r = (ci_network inp, ci_transactionHash inp)) tbl of
          Some r \<Rightarrow> (Inr r, tbl)
        | None \<Rightarrow> (let r = new_record i now inp in
            if constraints_ok r then (Inr r, tbl @ [r]) else (Inl AuditDbError, tbl))))"

text \<open>\<^verbatim>\<open>back\<close> moves an instant a number of years into the past.\<close>

definition pruneExpiredAuditRecords ::
  "(int \<Rightarrow> int \<Rightarrow> int) \<Rightarrow> int \<Rightarrow> string option \<Rightarrow> int option \<Rightarrow> audit_table
   \<Rightarrow> (audit_error + nat) \<times> audit_table" where
  "pruneExpiredAuditRecords back now retention_env retentionYears tbl =
     (case (case retentionYears of Some y \<Rightarrow> Some y
          | None \<Rightarrow> parse_int (case retention_env of Some e \<Rightarrow> e | None \<Rightarrow> ''7'')) of
        None \<Rightarrow> (Inl AuditDbError, tbl)
      | Some years \<Rightarrow> (let expired = (\<lambda>r. ca_cancelledAt r < back now years) in
          (Inr (length (filter expired tbl)), filter (\<lambda>r. \<not> expired r) tbl)))"

section \<open>Listing\<close>

text \<open>A filter text that is missing or empty does not filter.\<close>

definition text_matches :: "string option \<Rightarrow> string \<Rightarrow> bool" where
  "text_matches f v = (case f of None \<Rightarrow> True | Some t \<Rightarrow> t = [] \<or> v = t)"

definition audit_where :: "ListCancellationsOptions \<Rightarrow> CancellationAuditRecord \<Rightarrow> bool" where
  "audit_where o0 r \<longleftrightarrow> text_matches (lc_merchantAddress o0) (ca_merchantAddress r) \<and>
     text_matches (lc_subscriberAddress o0) (ca_subscriberAddress r) \<and>
     text_matches (lc_network o0) (ca_network r) \<and>
     (case lc_from o0 of None \<Rightarrow> True | Some t \<Rightarrow> t \<le> ca_cancelledAt r) \<and>
     (case lc_to o0 of None \<Rightarrow> True | Some t \<Rightarrow> ca_cancelledAt r \<le> t)"

definition matching :: "ListCancellationsOptions \<Rightarrow> audit_table \<Rightarrow> audit_table" where
  "matching o0 tbl = sort_key (\<lambda>r. - ca_cancelledAt r) (filter (audit_where o0) tbl)"

definition listCancellations :: "ListCancellationsOptions \<Rightarrow> audit_table \<Rightarrow> audit_error + ListCancellationsResult" where
  "listCancellations o0 tbl = (case (lc_limit o0, lc_offset o0) of
       (Some limit, Some offset) \<Rightarrow> (let cappedLimit = min (max 1 limit) 200; skip = max 0 offset in
         Inr \<lparr>lr_data = take (nat cappedLimit) (drop (nat skip) (matching o0 tbl)),
           lr_total = length (filter (audit_where o0) tbl), lr_limit = cappedLimit, lr_offset = skip\<rparr>)
     | _ \<Rightarrow> Inl AuditDbError)"

section \<open>Routes\<close>

record cancellation_query =
  cq_merchant :: "string option"
  cq_subscriber :: "string option"
  cq_network :: "string option"
  cq_from :: "string option"
  cq_to :: "string option"
  cq_limit :: "string option"
  cq_offset :: "string option"

datatype 'a audit_reply = AuditOk 'a | AuditRefused nat string

text \<open>A date that is missing or empty is no filter; the outer \<open>None\<close> is a date that cannot be read.\<close>

definition query_date :: "(string \<Rightarrow> int option) \<Rightarrow> string option \<Rightarrow> int option option" where
  "query_date parse q = (case q of None \<Rightarrow> Some None | Some t \<Rightarrow>
     if t = [] then Some None else map_option Some (parse t))"

definition network_refused :: "string option \<Rightarrow> bool" where
  "network_refused n = (case n of None \<Rightarrow> False | Some t \<Rightarrow> t \<noteq> [] \<and> t \<notin> {''testnet'', ''mainnet''})"

definition query_options ::
  "(string \<Rightarrow> int option) \<Rightarrow> cancellation_query \<Rightarrow> int option \<Rightarrow> int option \<Rightarrow> string + ListCancellationsOptions" where
  "query_options parse q limit offset =
     (if network_refused (cq_network q) then Inl ''network must be testnet or mainnet''
      else (case query_date parse (cq_from q) of
          None \<Rightarrow> Inl ''from must be a valid ISO 8601 date''
        | Some from \<Rightarrow> (case query_date parse (cq_to q) of
            None \<Rightarrow> Inl ''to must be a valid ISO 8601 date''
          | Some to \<Rightarrow> Inr \<lparr>lc_merchantAddress = cq_merchant q, lc_subscriberAddress = cq_subscriber q,
              lc_network = cq_network q, lc_from = from, lc_to = to, lc_limit = limit, lc_offset = offset\<rparr>)))"

definition get_cancellations ::
  "(string \<Rightarrow> int option) \<Rightarrow> cancellation_query \<Rightarrow> audit_table \<Rightarrow> ListCancellationsResult audit_reply" where
  "get_cancellations parse q tbl =
     (let limit = map_option (\<lambda>n. min 200 (max 1 n)) (parse_int (case cq_limit q of Some t \<Rightarrow> t | None \<Rightarrow> ''50''));
          offset = map_option (max 0) (parse_int (case cq_offset q of Some t \<Rightarrow> t | None \<Rightarrow> ''0''))
      in case query_options parse q limit offset of
           Inl e \<Rightarrow> AuditRefused 400 e
         | Inr o0 \<Rightarrow> (case listCancellations o0 tbl of
             Inl _ \<Rightarrow> AuditRefused 500 ''Failed to fetch cancellation audit records'' | Inr r \<Rightarrow> AuditOk r))"

text \<open>The export: a header and a line for each record.\<close>

definition escapeCell :: "string option \<Rightarrow> string" where
  "escapeCell v = (case v of None \<Rightarrow> [] | Some s \<Rightarrow>
     if CHR '','' \<in> set s \<or> QUOTE \<in> set s \<or> LF \<in> set s then [QUOTE] @ quote_chars s @ [QUOTE] else s)"

definition AUDIT_COLUMNS :: "string list" where
  "AUDIT_COLUMNS = [''id'', ''network'', ''contractId'', ''subscriberAddress'', ''merchantAddress'', ''tokenAddress'',
     ''amount'', ''intervalSeconds'', ''nextPaymentAt'', ''cancelledAt'', ''ledger'', ''transactionHash'', ''reason'',
     ''source'', ''createdAt'']"

definition audit_cells :: "(int \<Rightarrow> string) \<Rightarrow> CancellationAuditRecord \<Rightarrow> string option list" where
  "audit_cells print_date r = [Some (ca_id r), Some (ca_network r), Some (ca_contractId r), Some (ca_subscriberAddress r),
     Some (ca_merchantAddress r), ca_tokenAddress r, ca_amount r,
     Some (case ca_intervalSeconds r of Some n \<Rightarrow> int_str n | None \<Rightarrow> []),
     Some (case ca_nextPaymentAt r of Some t \<Rightarrow> print_date t | None \<Rightarrow> []), Some (print_date (ca_cancelledAt r)),
     Some (int_str (ca_ledger r)), Some (ca_transactionHash r), ca_reason r, Some (ca_source r),
     Some (print_date (ca_createdAt r))]"

fun join_lines :: "string list \<Rightarrow> string" where
  "join_lines [] = []"
| "join_lines [l] = l"
| "join_lines (l # m # ls) = l @ [LF] @ join_lines (m # ls)"

definition export_cancellations ::
  "(string \<Rightarrow> int option) \<Rightarrow> (int \<Rightarrow> string) \<Rightarrow> int \<Rightarrow> cancellation_query \<Rightarrow> audit_table
   \<Rightarrow> (string \<times> string) audit_reply" where
  "export_cancellations parse print_date now q tbl = (case query_options parse q (Some 10000) (Some 0) of
       Inl e \<Rightarrow> AuditRefused 400 e
     | Inr o0 \<Rightarrow> (case listCancellations o0 tbl of
         Inl _ \<Rightarrow> AuditRefused 500 ''Failed to export cancellation audit records''
       | Inr result \<Rightarrow> AuditOk (''cancellations-'' @ take 10 (print_date now) @ ''.csv'',
           join_lines (js_join AUDIT_COLUMNS # map (\<lambda>r. js_join (map escapeCell (audit_cells print_date r))) (lr_data result)))))"

section \<open>Records do not change\<close>

definition record_all :: "(string \<times> int \<times> CancellationAuditInput) list \<Rightarrow> audit_table \<Rightarrow> audit_table" where
  "record_all xs tbl = fold (\<lambda>(i, now, inp) tbl. snd (recordCancellation i now inp tbl)) xs tbl"

lemma record_extends: "\<exists>rs. snd (recordCancellation i now inp tbl) = tbl @ rs"
  by (auto simp: recordCancellation_def Let_def split: option.splits)

lemma record_all_extends: "\<exists>rs. record_all xs tbl = tbl @ rs"
proof (induction xs arbitrary: tbl)
  case (Cons x xs)
  obtain i now inp where x: "x = (i, now, inp)" by (rule prod_cases3) (rule that)
  obtain rs where rs: "snd (recordCancellation i now inp tbl) = tbl @ rs" using record_extends by blast
  obtain rs' where "record_all xs (tbl @ rs) = (tbl @ rs) @ rs'" using Cons.IH by blast
  then show ?case using x rs by (simp add: record_all_def)
qed (simp add: record_all_def)

lemma recorded_found:
  assumes "recordCancellation i now inp tbl = (Inr r, tbl')"
  shows "find (\<lambda>r. audit_key r = (ci_network inp, ci_transactionHash inp)) tbl' = Some r"
  using assms by (auto simp: recordCancellation_def Let_def find_append audit_key_def new_record_def
      split: option.splits if_splits)

text \<open>C31: Once a cancellation was recorded, recording the same transaction of the same network again, with whatever
  other data and whatever was recorded in between, gives back the first record and changes nothing.\<close>

theorem recorded_once:
  assumes "recordCancellation i now inp tbl = (Inr r, tbl')"
    and "ci_network again = ci_network inp" and "ci_transactionHash again = ci_transactionHash inp"
    and "case ci_reason again of None \<Rightarrow> True | Some t \<Rightarrow> length t \<le> 1000"
  shows "recordCancellation j later again (record_all xs tbl') = (Inr r, record_all xs tbl')"
proof -
  obtain rs where "record_all xs tbl' = tbl' @ rs" using record_all_extends by blast
  then have "find (\<lambda>r. audit_key r = (ci_network inp, ci_transactionHash inp)) (record_all xs tbl') = Some r"
    using recorded_found [OF assms(1)] by (simp add: find_append)
  then show ?thesis using assms(2-4) by (auto simp: recordCancellation_def split: option.splits)
qed

definition demo_cancellation :: "string \<Rightarrow> CancellationAuditInput" where
  "demo_cancellation h = \<lparr>ci_network = ''testnet'', ci_contractId = ''C'', ci_subscriberAddress = ''S'',
     ci_merchantAddress = ''M'', ci_tokenAddress = None, ci_amount = Some ''5'', ci_intervalSeconds = None,
     ci_nextPaymentAt = None, ci_ledger = 7, ci_transactionHash = h, ci_reason = None, ci_source = None\<rparr>"

theorem recorded_once_witness:
  "\<exists>r. fst (recordCancellation ''b'' 9 (demo_cancellation ''h'') (record_all [(''x'', 2, demo_cancellation ''g'')]
      (snd (recordCancellation ''a'' 1 (demo_cancellation ''h'') [])))) = Inr r \<and> ca_id r = ''a'' \<and> ca_cancelledAt r = 1"
proof -
  let ?r = "new_record ''a'' 1 (demo_cancellation ''h'')"
  have first: "recordCancellation ''a'' 1 (demo_cancellation ''h'') [] = (Inr ?r, [?r])"
    by (simp add: recordCancellation_def demo_cancellation_def new_record_def constraints_ok_def Let_def is_digit_def)
  have reason: "case ci_reason (demo_cancellation ''h'') of None \<Rightarrow> True | Some t \<Rightarrow> length t \<le> 1000"
    by (simp add: demo_cancellation_def)
  from recorded_once [OF first refl refl reason, of "''b''" 9 "[(''x'', 2, demo_cancellation ''g'')]"]
  show ?thesis using first by (simp add: new_record_def)
qed

section \<open>Pages\<close>

definition page_of :: "ListCancellationsOptions \<Rightarrow> nat \<Rightarrow> nat \<Rightarrow> ListCancellationsOptions" where
  "page_of o0 n k = o0\<lparr>lc_limit := Some (int n), lc_offset := Some (int (k * n))\<rparr>"

definition page_data :: "ListCancellationsOptions \<Rightarrow> nat \<Rightarrow> nat \<Rightarrow> audit_table \<Rightarrow> audit_table" where
  "page_data o0 n k tbl = (case listCancellations (page_of o0 n k) tbl of Inr r \<Rightarrow> lr_data r | Inl _ \<Rightarrow> [])"

lemma page_data_slice:
  assumes "1 \<le> n" and "n \<le> 200"
  shows "page_data o0 n k tbl = take n (drop (k * n) (matching o0 tbl))"
proof -
  have "matching (page_of o0 n k) tbl = matching o0 tbl"
    by (simp add: matching_def page_of_def audit_where_def [abs_def])
  moreover have "nat (min (max 1 (int n)) 200) = n" "nat (max 0 (int (k * n))) = k * n"
    using assms by (simp_all add: nat_mult_distrib)
  ultimately show ?thesis by (simp add: page_data_def listCancellations_def page_of_def Let_def)
qed

text \<open>The pages of a listing, with any page length from 1 to 200, together hold every matching record exactly
  once, newest first.\<close>

theorem pages_hold_all:
  assumes "1 \<le> n" and "n \<le> 200" and "length (filter (audit_where o0) tbl) \<le> m * n"
  shows "concat (map (\<lambda>k. page_data o0 n k tbl) [0..<m]) = matching o0 tbl \<and>
    mset (matching o0 tbl) = mset (filter (audit_where o0) tbl) \<and>
    sorted (rev (map ca_cancelledAt (matching o0 tbl)))"
proof -
  have "concat (map (\<lambda>k. page_data o0 n k tbl) [0..<m]) = take (m * n) (matching o0 tbl)"
    by (simp add: page_data_slice [OF assms(1,2)] slices)
  then have "concat (map (\<lambda>k. page_data o0 n k tbl) [0..<m]) = matching o0 tbl"
    using assms(3) by (simp add: matching_def)
  moreover have "sorted (map (\<lambda>r. - ca_cancelledAt r) (matching o0 tbl))" by (simp add: matching_def)
  then have "sorted (rev (map ca_cancelledAt (matching o0 tbl)))"
    by (simp add: sorted_wrt_map sorted_wrt_rev)
  ultimately show ?thesis by (simp add: matching_def)
qed

text \<open>The export asks for 10000 records and gets at most 200.\<close>

lemma export_is_cut_off:
  assumes "query_options parse q (Some 10000) (Some 0) = Inr o0"
  shows "export_cancellations parse print_date now q tbl = AuditOk (''cancellations-'' @ take 10 (print_date now) @ ''.csv'',
    join_lines (js_join AUDIT_COLUMNS #
      map (\<lambda>r. js_join (map escapeCell (audit_cells print_date r))) (take 200 (matching o0 tbl))))"
proof -
  have "lc_limit o0 = Some 10000" "lc_offset o0 = Some 0"
    using assms by (auto simp: query_options_def split: if_splits option.splits)
  then show ?thesis using assms by (simp add: export_cancellations_def listCancellations_def Let_def)
qed

theorem pages_hold_all_witness:
  "concat (map (\<lambda>k. page_data \<lparr>lc_merchantAddress = None, lc_subscriberAddress = None, lc_network = None,
        lc_from = Some 1, lc_to = None, lc_limit = Some 50, lc_offset = Some 0\<rparr> 1 k
      (map (\<lambda>(i, t). new_record i t (demo_cancellation i)) [(''a'', 1), (''b'', 2), (''c'', 0)])) [0..<2]) =
    map (\<lambda>(i, t). new_record i t (demo_cancellation i)) [(''b'', 2), (''a'', 1)]"
proof -
  let ?o = "\<lparr>lc_merchantAddress = None, lc_subscriberAddress = None, lc_network = None,
        lc_from = Some 1, lc_to = None, lc_limit = Some 50, lc_offset = Some 0\<rparr>"
  let ?t = "map (\<lambda>(i, t). new_record i t (demo_cancellation i)) [(''a'', 1), (''b'', 2), (''c'', 0)]"
  have n: "length (filter (audit_where ?o) ?t) \<le> 2 * 1"
    by (simp add: audit_where_def text_matches_def new_record_def)
  have "matching ?o ?t = map (\<lambda>(i, t). new_record i t (demo_cancellation i)) [(''b'', 2), (''a'', 1)]"
    by (simp add: matching_def audit_where_def text_matches_def new_record_def)
  with pages_hold_all [of 1 ?o ?t 2] n show ?thesis by simp
qed

end
