(* ===== verification/Api_Client.thy ===== *)
theory Api_Client
  imports Json
begin

text \<open>
  The typed client of the backend, \<^verbatim>\<open>frontend/src/lib/api_client.ts\<close>: headers, errors by status, envelopes and
  GraphQL. \<^verbatim>\<open>fetch\<close>, the parser and the printer of JSON are arguments; a signal acts through the outcome of
  \<^verbatim>\<open>fetch\<close>. The value \<^verbatim>\<open>undefined\<close> is \<open>None\<close>.
\<close>

section \<open>Errors\<close>

datatype ApiErrorCode = NETWORK_ERROR | CANCELLED | BAD_REQUEST | UNAUTHORIZED | FORBIDDEN | NOT_FOUND | CONFLICT
  | UNPROCESSABLE | RATE_LIMITED | SERVER_ERROR | PARSE_ERROR | GRAPHQL_ERROR | UNKNOWN

record ApiError =
  ae_code :: ApiErrorCode
  ae_message :: string
  ae_status :: "nat option"
  ae_body :: "string option"
  ae_graphqlErrors :: "json list option"

text \<open>What a method throws: an \<^verbatim>\<open>ApiError\<close>, or the type error of a property of \<^verbatim>\<open>null\<close> or \<^verbatim>\<open>undefined\<close>.\<close>

datatype thrown = Api ApiError | TypeFailure

definition isApiError :: "thrown \<Rightarrow> bool" where
  "isApiError t \<longleftrightarrow> (case t of Api _ \<Rightarrow> True | TypeFailure \<Rightarrow> False)"

definition statusToCode :: "nat \<Rightarrow> ApiErrorCode" where
  "statusToCode st =
     (if st = 400 then BAD_REQUEST else if st = 401 then UNAUTHORIZED else if st = 403 then FORBIDDEN
      else if st = 404 then NOT_FOUND else if st = 409 then CONFLICT else if st = 422 then UNPROCESSABLE
      else if st = 429 then RATE_LIMITED else if 500 \<le> st then SERVER_ERROR else UNKNOWN)"

text \<open>What \<^verbatim>\<open>fetch\<close> can reject with: an error with a name and a message, a text, or anything else.\<close>

datatype rejection = ErrorObject string string | TextRejection string | OtherRejection

definition errorMessage :: "rejection \<Rightarrow> string" where
  "errorMessage e = (case e of ErrorObject _ m \<Rightarrow> m | TextRejection s \<Rightarrow> s
     | OtherRejection \<Rightarrow> ''An unexpected error occurred'')"

section \<open>Requests\<close>

type_synonym header_map = "(string \<times> string) list"

record http_request =
  hq_url :: string
  hq_method :: string
  hq_headers :: header_map
  hq_body :: "string option"

text \<open>A response; its text may fail to arrive.\<close>

record http_response =
  hr_status :: nat
  hr_text :: "string option"

record api_client =
  ac_baseUrl :: string
  ac_authToken :: "string option"
  ac_walletPublicKey :: "string option"
  ac_network :: "string option"

record api_env =
  an_fetch :: "http_request \<Rightarrow> rejection + http_response"
  an_parse :: "string \<Rightarrow> json option"
  an_stringify :: "json \<Rightarrow> string"

record RequestOptions =
  ro_headers :: header_map
  ro_unwrapEnvelope :: "bool option"

definition strip_slashes :: "string \<Rightarrow> string" where
  "strip_slashes s = rev (dropWhile (\<lambda>c. c = CHR ''/'') (rev s))"

definition ApiClient :: "string \<Rightarrow> string option \<Rightarrow> string option \<Rightarrow> string option \<Rightarrow> api_client" where
  "ApiClient baseUrl authToken walletPublicKey network = \<lparr>ac_baseUrl = strip_slashes baseUrl,
     ac_authToken = authToken, ac_walletPublicKey = walletPublicKey, ac_network = network\<rparr>"

definition with_header :: "string \<Rightarrow> string \<Rightarrow> string option \<Rightarrow> header_map \<Rightarrow> header_map" where
  "with_header k pre v hs = (case v of None \<Rightarrow> hs | Some t \<Rightarrow> if t = [] then hs else AList.update k (pre @ t) hs)"

definition defaultHeaders :: "api_client \<Rightarrow> header_map" where
  "defaultHeaders c = with_header ''X-Stellar-Network'' [] (ac_network c)
     (with_header ''X-Wallet-Public-Key'' [] (ac_walletPublicKey c)
       (with_header ''Authorization'' ''Bearer '' (ac_authToken c)
         [(''Content-Type'', ''application/json''), (''Accept'', ''application/json'')]))"

definition spread :: "header_map \<Rightarrow> header_map \<Rightarrow> header_map" where
  "spread base extra = fold (\<lambda>(k, v) hs. AList.update k v hs) extra base"

text \<open>A value as the text of an error.\<close>

fun message_text :: "json \<Rightarrow> string" where
  "message_text JNull = ''null''"
| "message_text (JBool b) = (if b then ''true'' else ''false'')"
| "message_text (JNum n) = int_str n"
| "message_text (JStr s) = s"
| "message_text (JArr vs) = js_join (map (\<lambda>v. case v of JNull \<Rightarrow> [] | _ \<Rightarrow> message_text v) vs)"
| "message_text (JObj _) = ''[object Object]''"

text \<open>\<^verbatim>\<open>response.ok\<close>, and the message for a status that is not.\<close>

definition response_ok :: "nat \<Rightarrow> bool" where "response_ok st \<longleftrightarrow> 200 \<le> st \<and> st \<le> 299"

definition error_detail :: "nat \<Rightarrow> json option \<Rightarrow> string" where
  "error_detail st errorBody = (case coalesce (jget (jget errorBody ''error'') ''message'')
       (coalesce (jget errorBody ''message'') (Some (JStr (''HTTP '' @ nat_str st)))) of
     Some v \<Rightarrow> message_text v | None \<Rightarrow> [])"

definition api_error :: "ApiErrorCode \<Rightarrow> string \<Rightarrow> nat \<Rightarrow> string \<Rightarrow> thrown" where
  "api_error code msg st body = Api \<lparr>ae_code = code, ae_message = msg, ae_status = Some st, ae_body = Some body,
     ae_graphqlErrors = None\<rparr>"

definition plain_error :: "ApiErrorCode \<Rightarrow> string \<Rightarrow> thrown" where
  "plain_error code msg = Api \<lparr>ae_code = code, ae_message = msg, ae_status = None, ae_body = None,
     ae_graphqlErrors = None\<rparr>"

definition parse_body :: "api_env \<Rightarrow> string \<Rightarrow> json option option" where
  "parse_body E raw = (if raw = [] then Some None else map_option Some (an_parse E raw))"

definition unwrap_envelope :: "bool \<Rightarrow> nat \<Rightarrow> string \<Rightarrow> json option \<Rightarrow> thrown + json option" where
  "unwrap_envelope unwrap st raw parsed =
     (if \<not> unwrap then Inr parsed
      else (case parsed of
          Some (JObj kvs) \<Rightarrow> (case map_of kvs ''data'' of
              Some v \<Rightarrow> Inr (Some v)
            | None \<Rightarrow> Inl (api_error PARSE_ERROR ''Response did not contain expected \"data\" envelope'' st raw))
        | _ \<Rightarrow> Inl (api_error PARSE_ERROR ''Response did not contain expected \"data\" envelope'' st raw)))"

definition read_response :: "api_env \<Rightarrow> bool \<Rightarrow> http_response \<Rightarrow> thrown + json option" where
  "read_response E unwrap r = (let raw = (case hr_text r of Some t \<Rightarrow> t | None \<Rightarrow> []); st = hr_status r in
     if \<not> response_ok st then Inl (api_error (statusToCode st) (error_detail st (an_parse E raw)) st raw)
     else (case parse_body E raw of
         None \<Rightarrow> Inl (api_error PARSE_ERROR ''Response body is not valid JSON'' st raw)
       | Some parsed \<Rightarrow> unwrap_envelope unwrap st raw parsed))"

definition build_request ::
  "api_env \<Rightarrow> api_client \<Rightarrow> string \<Rightarrow> string \<Rightarrow> json option \<Rightarrow> RequestOptions \<Rightarrow> http_request" where
  "build_request E c meth path body opts = \<lparr>hq_url = ac_baseUrl c @ path, hq_method = meth,
     hq_headers = spread (defaultHeaders c) (ro_headers opts), hq_body = map_option (an_stringify E) body\<rparr>"

definition api_request ::
  "api_env \<Rightarrow> api_client \<Rightarrow> string \<Rightarrow> string \<Rightarrow> json option \<Rightarrow> RequestOptions \<Rightarrow> thrown + json option" where
  "api_request E c meth path body opts = (case an_fetch E (build_request E c meth path body opts) of
       Inl e \<Rightarrow> Inl (case e of
           ErrorObject name m \<Rightarrow> if name = ''AbortError'' then plain_error CANCELLED ''Request was cancelled''
             else plain_error NETWORK_ERROR (''Network request failed: '' @ errorMessage e)
         | _ \<Rightarrow> plain_error NETWORK_ERROR (''Network request failed: '' @ errorMessage e))
     | Inr r \<Rightarrow> read_response E (ro_unwrapEnvelope opts \<noteq> Some False) r)"

definition api_get :: "api_env \<Rightarrow> api_client \<Rightarrow> string \<Rightarrow> RequestOptions \<Rightarrow> thrown + json option" where
  "api_get E c path opts = api_request E c ''GET'' path None opts"

definition api_post :: "api_env \<Rightarrow> api_client \<Rightarrow> string \<Rightarrow> json option \<Rightarrow> RequestOptions \<Rightarrow> thrown + json option" where
  "api_post E c path body opts = api_request E c ''POST'' path body opts"

definition api_put :: "api_env \<Rightarrow> api_client \<Rightarrow> string \<Rightarrow> json option \<Rightarrow> RequestOptions \<Rightarrow> thrown + json option" where
  "api_put E c path body opts = api_request E c ''PUT'' path body opts"

definition api_patch :: "api_env \<Rightarrow> api_client \<Rightarrow> string \<Rightarrow> json option \<Rightarrow> RequestOptions \<Rightarrow> thrown + json option" where
  "api_patch E c path body opts = api_request E c ''PATCH'' path body opts"

definition api_delete :: "api_env \<Rightarrow> api_client \<Rightarrow> string \<Rightarrow> RequestOptions \<Rightarrow> thrown + json option" where
  "api_delete E c path opts = api_request E c ''DELETE'' path None opts"

section \<open>GraphQL\<close>

fun join_semi :: "string list \<Rightarrow> string" where
  "join_semi [] = []"
| "join_semi [p] = p"
| "join_semi (p # q # ps) = p @ ''; '' @ join_semi (q # ps)"

definition graphql_message :: "json \<Rightarrow> string" where
  "graphql_message e = (case jget (Some e) ''message'' of None \<Rightarrow> [] | Some JNull \<Rightarrow> [] | Some v \<Rightarrow> message_text v)"

text \<open>The check \<^verbatim>\<open>raw.errors && raw.errors.length > 0\<close> and what follows it: \<open>None\<close> goes on.\<close>

definition graphql_errors :: "json option \<Rightarrow> thrown option" where
  "graphql_errors errors = (case errors of
       Some (JArr (e # es)) \<Rightarrow> if JNull \<in> set (e # es) then Some TypeFailure
         else Some (Api \<lparr>ae_code = GRAPHQL_ERROR, ae_message = join_semi (map graphql_message (e # es)),
           ae_status = None, ae_body = None, ae_graphqlErrors = Some (e # es)\<rparr>)
     | Some (JStr s) \<Rightarrow> if s = [] then None else Some TypeFailure
     | Some (JObj kvs) \<Rightarrow>
         (case map_of kvs ''length'' of
            None \<Rightarrow> None
          | Some v \<Rightarrow> if (case to_number v of Some n \<Rightarrow> 0 < n | None \<Rightarrow> False) then Some TypeFailure else None)
     | _ \<Rightarrow> None)"

definition read_graphql :: "json option \<Rightarrow> thrown + json" where
  "read_graphql raw = (case raw of
       None \<Rightarrow> Inl TypeFailure
     | Some JNull \<Rightarrow> Inl TypeFailure
     | Some v \<Rightarrow> (case graphql_errors (jget (Some v) ''errors'') of
           Some e \<Rightarrow> Inl e
         | None \<Rightarrow> (case jget (Some v) ''data'' of
             None \<Rightarrow> Inl (plain_error PARSE_ERROR ''GraphQL response contained no \"data\" field'')
           | Some d \<Rightarrow> Inr d)))"

definition graphql :: "api_env \<Rightarrow> api_client \<Rightarrow> string \<Rightarrow> json option \<Rightarrow> string option \<Rightarrow> thrown + json" where
  "graphql E c query variables path = (case api_request E c ''POST'' (case path of Some p \<Rightarrow> p | None \<Rightarrow> ''/graphql'')
       (Some (JObj ((''query'', JStr query) # (case variables of Some v \<Rightarrow> [(''variables'', v)] | None \<Rightarrow> []))))
       \<lparr>ro_headers = [], ro_unwrapEnvelope = Some False\<rparr> of
     Inl e \<Rightarrow> Inl e
   | Inr raw \<Rightarrow> read_graphql raw)"

section \<open>The shared client\<close>

definition getDefaultApiClient :: "string option \<Rightarrow> api_client option \<Rightarrow> api_client \<times> api_client option" where
  "getDefaultApiClient base_env st = (case st of
       Some c \<Rightarrow> (c, st)
     | None \<Rightarrow> (let c = ApiClient (case base_env of Some b \<Rightarrow> b | None \<Rightarrow> []) None None None in (c, Some c)))"

definition setDefaultApiClient :: "api_client option \<Rightarrow> api_client option \<Rightarrow> api_client option" where
  "setDefaultApiClient c st = c"

section \<open>Outcomes\<close>

lemma read_response_api: "read_response E u r = Inl t \<Longrightarrow> isApiError t"
  by (auto simp: read_response_def unwrap_envelope_def api_error_def isApiError_def Let_def
      split: if_splits option.splits json.splits)

text \<open>A request gives a value exactly if a response with a status from 200 to 299 came whose text is an envelope
  with that value, and otherwise throws an \<^verbatim>\<open>ApiError\<close>: with the status and the text if a response came, as
  cancelled or as a network error if none came.\<close>

theorem request_outcome:
  assumes "ro_unwrapEnvelope opts \<noteq> Some False"
  shows "case an_fetch E (build_request E c meth path body opts) of
     Inl e \<Rightarrow> (\<exists>x. api_request E c meth path body opts = Inl (Api x) \<and> ae_status x = None \<and>
       (ae_code x = CANCELLED \<longleftrightarrow> (\<exists>m. e = ErrorObject ''AbortError'' m)) \<and>
       (ae_code x = NETWORK_ERROR \<longleftrightarrow> \<not> (\<exists>m. e = ErrorObject ''AbortError'' m)))
   | Inr r \<Rightarrow> let raw = (case hr_text r of Some t \<Rightarrow> t | None \<Rightarrow> []) in
       (if response_ok (hr_status r) \<and> raw \<noteq> [] \<and> (\<exists>kvs v. an_parse E raw = Some (JObj kvs) \<and> map_of kvs ''data'' = Some v)
        then \<exists>kvs v. an_parse E raw = Some (JObj kvs) \<and> map_of kvs ''data'' = Some v \<and>
          api_request E c meth path body opts = Inr (Some v)
        else \<exists>x. api_request E c meth path body opts = Inl (Api x) \<and> ae_status x = Some (hr_status r) \<and>
          ae_body x = Some raw \<and>
          ae_code x = (if response_ok (hr_status r) then PARSE_ERROR else statusToCode (hr_status r)))"
proof (cases "an_fetch E (build_request E c meth path body opts)")
  case (Inl e)
  then show ?thesis by (cases e) (simp_all add: api_request_def plain_error_def)
next
  case (Inr r)
  let ?raw = "case hr_text r of Some t \<Rightarrow> t | None \<Rightarrow> []"
  have req: "api_request E c meth path body opts = read_response E True r"
    using Inr assms by (simp add: api_request_def)
  show ?thesis
  proof (cases "response_ok (hr_status r) \<and> ?raw \<noteq> [] \<and> an_parse E ?raw \<noteq> None")
    case True
    then obtain v where v: "an_parse E ?raw = Some v" by blast
    have rd: "read_response E True r = unwrap_envelope True (hr_status r) ?raw (Some v)"
      using True v by (simp add: read_response_def parse_body_def Let_def)
    show ?thesis
      unfolding Inr sum.case req rd Let_def using True v
      by (cases v) (auto simp: unwrap_envelope_def api_error_def split: option.splits)
  next
    case False
    then show ?thesis
      unfolding Inr sum.case req Let_def
      by (auto simp: read_response_def parse_body_def unwrap_envelope_def api_error_def Let_def)
  qed
qed

definition demo_api :: "nat \<Rightarrow> json \<Rightarrow> api_env" where
  "demo_api st v = \<lparr>an_fetch = (\<lambda>_. Inr \<lparr>hr_status = st, hr_text = Some ''t''\<rparr>), an_parse = (\<lambda>_. Some v),
     an_stringify = (\<lambda>_. [])\<rparr>"

definition plain_options :: RequestOptions where
  "plain_options = \<lparr>ro_headers = [], ro_unwrapEnvelope = None\<rparr>"

theorem request_outcome_witness:
  "api_request (demo_api 200 (JObj [(''data'', JNum 5)])) (ApiClient ''https://api/'' None None None) ''GET'' ''/x'' None
     plain_options = Inr (Some (JNum 5))"
proof -
  let ?E = "demo_api 200 (JObj [(''data'', JNum 5)])" and ?c = "ApiClient ''https://api/'' None None None"
  have "ro_unwrapEnvelope plain_options \<noteq> Some False" by (simp add: plain_options_def)
  from request_outcome [OF this, of ?E ?c "''GET''" "''/x''" None] show ?thesis
    by (simp add: demo_api_def response_ok_def)
qed

text \<open>The backend answers an error with a text under \<^verbatim>\<open>error\<close>; the client looks for an object there, so the text
  never reaches the user.\<close>

lemma backend_error_text_lost:
  assumes "an_fetch E (build_request E c meth path body opts) = Inr \<lparr>hr_status = st, hr_text = Some raw\<rparr>"
    and "\<not> response_ok st" and "an_parse E raw = Some (JObj [(''error'', JStr detail)])"
  shows "api_request E c meth path body opts = Inl (api_error (statusToCode st) (''HTTP '' @ nat_str st) st raw)"
  using assms by (simp add: api_request_def read_response_def error_detail_def jget_def coalesce_def Let_def)

text \<open>A GraphQL answer without a body ends in a type error instead of an \<^verbatim>\<open>ApiError\<close>.\<close>

lemma graphql_empty_answer:
  assumes "\<And>q. an_fetch E q = Inr \<lparr>hr_status = 200, hr_text = Some []\<rparr>"
  shows "graphql E c query variables path = Inl TypeFailure"
  by (simp add: graphql_def api_request_def assms read_response_def response_ok_def parse_body_def
      unwrap_envelope_def read_graphql_def Let_def)

text \<open>The token goes out in one header, which a caller's header of the same name replaces.\<close>

lemma authorization_header:
  assumes "ac_authToken c = Some t" and "t \<noteq> []" and "''Authorization'' \<notin> fst ` set (ro_headers opts)"
  shows "map_of (hq_headers (build_request E c meth path body opts)) ''Authorization'' = Some (''Bearer '' @ t)"
proof -
  have other: "map_of (fold (\<lambda>(k, v) hs. AList.update k v hs) extra base) ''Authorization'' = map_of base ''Authorization''"
    if "''Authorization'' \<notin> fst ` set extra" for extra base :: header_map
    using that by (induction extra arbitrary: base) (auto simp: AList.update_conv')
  have "map_of (defaultHeaders c) ''Authorization'' = Some (''Bearer '' @ t)"
    using assms(1,2) by (simp add: defaultHeaders_def with_header_def AList.update_conv' split: option.splits)
  then show ?thesis using other [OF assms(3)] by (simp add: build_request_def spread_def)
qed

end
