(* ===== verification/Error_Messages.thy ===== *)
theory Error_Messages
  imports Tx_Failures
begin

text \<open>
  The messages shown for errors, \<^verbatim>\<open>frontend/src/lib/errors.ts\<close>: codes of the life cycle of a transaction, the
  table of contract errors, the rules on texts, and the forms for banners and toasts. The rules are lists of the
  texts that their regular expressions stand for, on the message in lower case. A thrown value is the text that
  it prints, or an error with a code.
\<close>

section \<open>Codes\<close>

datatype ContractLifecycleErrorCode =
    PREPARATION_FAILED
  | SIGNING_FAILED
  | SUBMISSION_FAILED
  | CONFIRMATION_TIMEOUT
  | CONFIRMATION_FAILED
  | USER_CANCELLED
  | VALIDATION_ERROR
  | AMOUNT_MUST_BE_POSITIVE
  | INTERVAL_TOO_SHORT
  | INTERVAL_TOO_LONG
  | NO_ACTIVE_SUBSCRIPTION
  | PAYMENT_NOT_DUE
  | UNAUTHORIZED
  | TRANSFER_FAILED
  | INVALID_TIMESTAMP
  | AMOUNT_TOO_LARGE
  | SELF_SUBSCRIPTION
  | INVALID_TOKEN_ADDRESS
  | SUBSCRIPTION_PAUSED
  | EMPTY_BATCH
  | BATCH_TOO_LARGE
  | INSUFFICIENT_ALLOWANCE
  | ALREADY_MIGRATED
  | NOT_ADMIN
  | AMOUNT_EXCEEDS_LIMIT
  | GRACE_PERIOD_ACTIVE
  | RPC_ERROR
  | WRONG_NETWORK
  | UNKNOWN

record MappedError =
  me_message :: string
  me_action :: string
  me_docsUrl :: "string option"

definition mapped :: "string \<Rightarrow> string \<Rightarrow> string option \<Rightarrow> MappedError" where
  "mapped m a d = \<lparr>me_message = m, me_action = a, me_docsUrl = d\<rparr>"

fun lifecycleErrorMessage :: "ContractLifecycleErrorCode \<Rightarrow> string" where
  "lifecycleErrorMessage PREPARATION_FAILED = ''Transaction preparation failed''"
| "lifecycleErrorMessage SIGNING_FAILED = ''Transaction signing failed''"
| "lifecycleErrorMessage SUBMISSION_FAILED = ''Transaction submission failed''"
| "lifecycleErrorMessage CONFIRMATION_TIMEOUT = ''Transaction confirmation timed out''"
| "lifecycleErrorMessage CONFIRMATION_FAILED = ''Transaction confirmed as failed''"
| "lifecycleErrorMessage USER_CANCELLED = ''Transaction cancelled by user''"
| "lifecycleErrorMessage VALIDATION_ERROR = ''Input validation failed''"
| "lifecycleErrorMessage AMOUNT_MUST_BE_POSITIVE = ''Amount must be greater than zero''"
| "lifecycleErrorMessage INTERVAL_TOO_SHORT = ''Payment interval is too short (minimum 1 day)''"
| "lifecycleErrorMessage INTERVAL_TOO_LONG = ''Payment interval is too long (maximum 365 days)''"
| "lifecycleErrorMessage NO_ACTIVE_SUBSCRIPTION = ''No active subscription found''"
| "lifecycleErrorMessage PAYMENT_NOT_DUE = ''Payment is not due yet''"
| "lifecycleErrorMessage UNAUTHORIZED = ''Authorization failed''"
| "lifecycleErrorMessage TRANSFER_FAILED = ''Token transfer failed (insufficient balance)''"
| "lifecycleErrorMessage INVALID_TIMESTAMP = ''Invalid ledger timestamp''"
| "lifecycleErrorMessage AMOUNT_TOO_LARGE = ''Amount exceeds the maximum allowed value''"
| "lifecycleErrorMessage SELF_SUBSCRIPTION = ''Cannot subscribe to yourself''"
| "lifecycleErrorMessage INVALID_TOKEN_ADDRESS = ''Invalid token contract address''"
| "lifecycleErrorMessage SUBSCRIPTION_PAUSED = ''Subscription is currently paused''"
| "lifecycleErrorMessage EMPTY_BATCH = ''Batch subscriber list is empty''"
| "lifecycleErrorMessage BATCH_TOO_LARGE = ''Batch exceeds maximum size of 50''"
| "lifecycleErrorMessage INSUFFICIENT_ALLOWANCE = ''Token allowance is below the required amount''"
| "lifecycleErrorMessage ALREADY_MIGRATED = ''Contract is already at the current schema version''"
| "lifecycleErrorMessage NOT_ADMIN = ''Caller is not the contract admin''"
| "lifecycleErrorMessage AMOUNT_EXCEEDS_LIMIT = ''Amount exceeds the admin-configured limit''"
| "lifecycleErrorMessage GRACE_PERIOD_ACTIVE = ''Grace period has not yet expired''"
| "lifecycleErrorMessage RPC_ERROR = ''Soroban RPC error''"
| "lifecycleErrorMessage WRONG_NETWORK = ''Wrong Stellar network''"
| "lifecycleErrorMessage UNKNOWN = ''An unexpected error occurred''"

fun getActionForCode :: "ContractLifecycleErrorCode \<Rightarrow> string" where
  "getActionForCode PREPARATION_FAILED = ''Check your inputs and ensure your wallet has enough XLM for fees, then retry.''"
| "getActionForCode SIGNING_FAILED = ''Re-submit the form and approve the transaction in your wallet.''"
| "getActionForCode SUBMISSION_FAILED = ''Check your internet connection and the RPC endpoint, then retry.''"
| "getActionForCode CONFIRMATION_TIMEOUT = ''The transaction may still confirm. Wait a moment before retrying.''"
| "getActionForCode CONFIRMATION_FAILED = ''Review the transaction details and try again.''"
| "getActionForCode USER_CANCELLED = ''Re-submit and approve the transaction in your wallet when prompted.''"
| "getActionForCode VALIDATION_ERROR = ''Correct the highlighted form fields and resubmit.''"
| "getActionForCode TRANSFER_FAILED = ''Top up your wallet balance and retry.''"
| "getActionForCode INSUFFICIENT_ALLOWANCE = ''Approve a higher token allowance for the contract and retry.''"
| "getActionForCode RPC_ERROR = ''Check your RPC URL configuration and network connection, then retry.''"
| "getActionForCode WRONG_NETWORK = ''Open your wallet and switch to the correct Stellar network, then retry.''"
| "getActionForCode _ = ''Please try again. If the problem persists, check the browser console for details.''"

definition getDocsUrlForCode :: "ContractLifecycleErrorCode \<Rightarrow> string option" where
  "getDocsUrlForCode code =
     (if code \<in> {TRANSFER_FAILED, INSUFFICIENT_ALLOWANCE} then
        Some ''https://laboratory.stellar.org/#account-creator?network=test''
      else if code \<in> {WRONG_NETWORK, RPC_ERROR, SUBMISSION_FAILED} then
        Some ''https://github.com/Chrisland58/SorobanPay#troubleshooting''
      else None)"

section \<open>Tables\<close>

definition CONTRACT_ERROR_MAP :: "(nat \<times> MappedError) list" where
  "CONTRACT_ERROR_MAP = [
    (1, mapped ''The payment amount must be greater than zero.''
       ''Enter a positive amount and try again.'' None),
    (2, mapped ''The payment interval is too short (minimum is 1 day).''
       ''Set the interval to at least 86,400 seconds (1 day).'' None),
    (3, mapped ''The payment interval is too long (maximum is 365 days).''
       ''Set the interval to at most 31,536,000 seconds (365 days).'' None),
    (4, mapped ''No active subscription was found for this pair.''
       ''Create a new subscription before trying to execute a payment.'' None),
    (5, mapped ''This payment isn't due yet.''
       ''Wait until the next scheduled payment date and try again.'' None),
    (6, mapped ''Authorization failed - you are not permitted to perform this action.''
       ''Make sure you are connected with the correct wallet and try again.'' None),
    (7, mapped ''Your token balance is too low to complete this payment.''
       ''Top up your wallet and try again.'' (Some ''https://laboratory.stellar.org/#account-creator?network=test'')),
    (8, mapped ''Invalid ledger timestamp detected.''
       ''This may be a temporary network issue. Wait a moment and try again.'' None),
    (9, mapped ''The amount entered is too large.''
       ''Enter an amount less than 10^18 tokens.'' None),
    (10, mapped ''You cannot subscribe to yourself.''
       ''Enter a merchant address that is different from your own wallet address.'' None),
    (11, mapped ''Invalid token address - the token cannot be the SorobanPay contract itself.''
       ''Enter the address of the token contract (e.g. a USDC or XLM wrapped contract).'' None)]"

text \<open>Each rule: the texts of its alternatives, and the message.\<close>

definition PATTERN_RULES :: "(string list \<times> MappedError) list" where
  "PATTERN_RULES = [
    ([''user declined'', ''user rejected'', ''user cancelled'', ''user dismissed'', ''user denied''],
      mapped ''You cancelled the transaction in Freighter.''
       ''Re-submit the form and approve the transaction when Freighter prompts you.'' None),
    ([''wrong network'', ''network mismatch'', ''passphrase''],
      mapped ''Freighter is connected to the wrong network.''
       ''Open Freighter, click the network selector, and switch to the correct network (Testnet or Mainnet) to match the app.'' None),
    ([''timeout'', ''timed out'', ''confirmation timeout''],
      mapped ''The network is slow or the transaction timed out.''
       ''The transaction may still confirm - check the explorer link for the current status. Your form data has been preserved.'' None),
    ([''503'', ''502'', ''504'', ''service unavailable'', ''bad gateway'', ''temporarily unavailable''],
      mapped ''The Soroban RPC endpoint is temporarily unavailable.''
       ''Wait a moment and try again. If this persists, check the Stellar network status.'' (Some ''https://status.stellar.org'')),
    ([''failed to fetch'', ''network error'', ''networkerror'', ''econnrefused'', ''socket''],
      mapped ''Could not connect to the network.''
       ''Check your internet connection and try again.'' None),
    ([''transaction preparation failed'', ''simulation failed''],
      mapped ''Transaction simulation failed before signing.''
       ''Review your inputs and try again. Ensure your wallet has enough XLM for fees.'' None),
    ([''insufficient balance'', ''insufficient funds''],
      mapped ''Your wallet does not have enough balance.''
       ''Top up your wallet and retry.'' (Some ''https://laboratory.stellar.org/#account-creator?network=test'')),
    ([''invalid subscriber'', ''invalid merchant'', ''invalid token'', ''invalid address''],
      mapped ''One or more addresses are invalid.''
       ''Double-check the merchant address and token contract address.'' None),
    ([''freighter is not installed'', ''freighter is not found'', ''freighter is not available'', ''freighter is not detected'', ''freighter not installed'', ''freighter not found'', ''freighter not available'', ''freighter not detected''],
      mapped ''Freighter wallet is not installed or not detected.''
       ''Install the Freighter browser extension and reload the page.'' (Some ''https://www.freighter.app''))]"

definition FALLBACK_ERROR :: MappedError where
  "FALLBACK_ERROR = mapped ''An unexpected error occurred.''
     ''Please try again. If the problem persists, check the browser console for details.''
     (Some ''https://github.com/Chrisland58/SorobanPay#troubleshooting'')"

definition CONTRACT_CODE_MAP :: "(ContractLifecycleErrorCode \<times> nat) list" where
  "CONTRACT_CODE_MAP = [
    (AMOUNT_MUST_BE_POSITIVE, 1),
    (INTERVAL_TOO_SHORT, 2),
    (INTERVAL_TOO_LONG, 3),
    (NO_ACTIVE_SUBSCRIPTION, 4),
    (PAYMENT_NOT_DUE, 5),
    (UNAUTHORIZED, 6),
    (TRANSFER_FAILED, 7),
    (INVALID_TIMESTAMP, 8),
    (AMOUNT_TOO_LARGE, 9),
    (SELF_SUBSCRIPTION, 10),
    (INVALID_TOKEN_ADDRESS, 11)]"

section \<open>Mapping\<close>

text \<open>The three alternatives of the expression for contract codes; the first place where one of them matches
  counts, and there the first of them.\<close>

definition CODE_ALTERNATIVES :: "pat list list" where
  "CODE_ALTERNATIVES = [
     [Lit ''contract'', Spaces1, Lit ''error'', Some_of '':#'', Digits],
     [Lit ''error(contract,'', Spaces0, Lit ''#'', Digits, Lit '')''],
     [Lit ''contracterror('', Digits, Lit '')'']]"

fun first_of :: "pat list list \<Rightarrow> string \<Rightarrow> string option" where
  "first_of [] s = None"
| "first_of (ps # pss) s = (case pmatch ps [] s of Some d \<Rightarrow> Some d | None \<Rightarrow> first_of pss s)"

fun alternatives_search :: "pat list list \<Rightarrow> string \<Rightarrow> string option" where
  "alternatives_search pss [] = first_of pss []"
| "alternatives_search pss (c # cs) = (case first_of pss (c # cs) of Some d \<Rightarrow> Some d
     | None \<Rightarrow> alternatives_search pss cs)"

fun rule_for :: "(string list \<times> MappedError) list \<Rightarrow> string \<Rightarrow> MappedError option" where
  "rule_for [] msg = None"
| "rule_for ((ws, m) # rs) msg = (if includes_any msg ws then Some m else rule_for rs msg)"

definition mapError :: "string \<Rightarrow> MappedError" where
  "mapError raw = (let low = js_lower raw in
     case (case alternatives_search CODE_ALTERNATIVES low of
         None \<Rightarrow> None | Some ds \<Rightarrow> map_of CONTRACT_ERROR_MAP (digits_val ds)) of
       Some m \<Rightarrow> m
     | None \<Rightarrow> (case rule_for PATTERN_RULES low of
         Some m \<Rightarrow> m
       | None \<Rightarrow> FALLBACK_ERROR\<lparr>me_message := (if raw = [] then me_message FALLBACK_ERROR else raw)\<rparr>))"

datatype failure = Printed string | Lifecycle ContractLifecycleErrorCode string

definition mapLifecycleError :: "failure \<Rightarrow> MappedError" where
  "mapLifecycleError err = (case err of
       Printed raw \<Rightarrow> mapError raw
     | Lifecycle code message \<Rightarrow> (case map_of CONTRACT_CODE_MAP code of
         Some contractCode \<Rightarrow> mapError (''Contract error: '' @ nat_str contractCode)
       | None \<Rightarrow> mapped (if message = [] then lifecycleErrorMessage code else message)
           (getActionForCode code) (getDocsUrlForCode code)))"

record UnifiedErrorPresentation =
  up_title :: string
  up_message :: string
  up_action :: string
  up_docsUrl :: "string option"

definition formatUnifiedError :: "failure \<Rightarrow> UnifiedErrorPresentation" where
  "formatUnifiedError err = (let m = mapLifecycleError err in \<lparr>up_title = ''Action required'',
     up_message = me_message m, up_action = me_action m, up_docsUrl = me_docsUrl m\<rparr>)"

definition formatInlineError :: "failure \<Rightarrow> string \<times> string \<times> string \<times> string option" where
  "formatInlineError err = (let u = formatUnifiedError err in (up_title u, up_message u, up_action u, up_docsUrl u))"

definition formatToastError :: "failure \<Rightarrow> string \<times> string \<times> string \<times> string option" where
  "formatToastError err = (let u = formatUnifiedError err in (up_title u, up_message u, up_action u, up_docsUrl u))"

section \<open>Contract errors\<close>

definition code_agrees :: "ContractLifecycleErrorCode \<times> nat \<Rightarrow> bool" where
  "code_agrees p = (case p of (code, n) \<Rightarrow> map_of CONTRACT_ERROR_MAP n \<noteq> None \<and>
     Some (mapError (''Contract error: '' @ nat_str n)) = map_of CONTRACT_ERROR_MAP n)"

lemma all_codes_agree: "list_all code_agrees CONTRACT_CODE_MAP"
  by code_simp

text \<open>An error with the code of a contract error is shown with the entry of that error in the table, whatever its
  message says, the same on a banner and on a toast.\<close>

theorem lifecycle_code_decides:
  assumes "map_of CONTRACT_CODE_MAP code = Some n"
  shows "\<exists>m. map_of CONTRACT_ERROR_MAP n = Some m \<and> mapLifecycleError (Lifecycle code msg) = m \<and>
    formatInlineError (Lifecycle code msg) = (''Action required'', me_message m, me_action m, me_docsUrl m) \<and>
    formatToastError (Lifecycle code msg) = formatInlineError (Lifecycle code msg)"
proof -
  have "(code, n) \<in> set CONTRACT_CODE_MAP" using assms by (rule map_of_SomeD)
  then have "code_agrees (code, n)" using all_codes_agree by (simp only: list_all_iff)
  then obtain m where "map_of CONTRACT_ERROR_MAP n = Some m" "mapError (''Contract error: '' @ nat_str n) = m"
    unfolding code_agrees_def prod.case by fastforce
  moreover have "mapLifecycleError (Lifecycle code msg) = mapError (''Contract error: '' @ nat_str n)"
    by (simp only: mapLifecycleError_def failure.case assms option.case)
  ultimately show ?thesis
    by (simp only: formatInlineError_def formatToastError_def formatUnifiedError_def Let_def
        UnifiedErrorPresentation.simps simp_thms) blast
qed

theorem lifecycle_code_decides_witness:
  "me_message (mapLifecycleError (Lifecycle TRANSFER_FAILED ''timeout'')) =
    ''Your token balance is too low to complete this payment.''"
proof -
  have "map_of CONTRACT_CODE_MAP TRANSFER_FAILED = Some 7" by code_simp
  from lifecycle_code_decides [OF this, of "''timeout''"] obtain m where
    m: "map_of CONTRACT_ERROR_MAP 7 = Some m" "mapLifecycleError (Lifecycle TRANSFER_FAILED ''timeout'') = m" by blast
  have "map_option me_message (map_of CONTRACT_ERROR_MAP 7) = Some ''Your token balance is too low to complete this payment.''"
    by code_simp
  then show ?thesis unfolding m by (simp only: option.map option.inject)
qed

text \<open>The text of the host for the contract's errors 1 to 11 finds the entry; for its other errors, such as 12 and 19,
  there is none, and the raw text is shown.\<close>

definition host_text :: "nat \<Rightarrow> string" where
  "host_text n = ''HostError: Error(Contract, #'' @ nat_str n @ '')''"

lemma contract_codes_found:
  "list_all (\<lambda>n. Some (mapError (host_text n)) = map_of CONTRACT_ERROR_MAP n) [1..<12]"
  by code_simp

lemma contract_codes_without_message:
  "list_all (\<lambda>n. me_message (mapError (host_text n)) = host_text n) [12, 19]"
  by code_simp

end
