(* ===== verification/Push_Notifications.thy ===== *)
theory Push_Notifications
  imports Effects Json
begin

text \<open>
  Push notifications, \<^verbatim>\<open>backend/src/services/pushNotificationService.ts\<close> and \<^verbatim>\<open>backend/src/routes/push.ts\<close>:
  device tokens, segments, sending to Android and the web or to iOS, scheduled notifications and statistics. The
  state holds the four tables and the messages handed to the two services, whose answers are arguments. An
  operation reads the clock once. The targets of a notification are served one after the other, each to its end
  whether another one fails or not; errors are listed in the order of the targets. A filter or a data object is
  kept as the JSON value whose text the table holds, and a picture or link that is \<^verbatim>\<open>null\<close> counts as absent. A
  value of the wrong type is refused by the database; a platform that is an expression of its query language
  is refused here too.
\<close>

section \<open>State\<close>

record PushToken =
  pt_userId :: string
  pt_token :: string
  pt_platform :: string
  pt_active :: bool

record UserSegment =
  us_name :: string
  us_filter :: json
  us_description :: "string option"
  us_createdAt :: int

record PushPayload =
  pp_title :: string
  pp_body :: string
  pp_imageUrl :: "string option"
  pp_deepLink :: "string option"
  pp_data :: "json option"
  pp_silent :: bool
  pp_actions :: "json option"

record PushNotification =
  pn_id :: nat
  pn_title :: string
  pn_body :: string
  pn_imageUrl :: "string option"
  pn_deepLink :: "string option"
  pn_data :: "json option"
  pn_segment :: "string option"
  pn_userId :: "string option"
  pn_scheduledAt :: "int option"
  pn_status :: string
  pn_sentAt :: "int option"

record PushDelivery =
  pd_id :: nat
  pd_notificationId :: nat
  pd_userId :: string
  pd_token :: string
  pd_platform :: string
  pd_status :: string
  pd_sentAt :: "int option"
  pd_errorMsg :: "string option"

record push_message =
  pm_token :: string
  pm_body :: json

record push_state =
  pu_tokens :: "PushToken list"
  pu_segments :: "UserSegment list"
  pu_notifications :: "PushNotification list"
  pu_nextNotification :: nat
  pu_deliveries :: "PushDelivery list"
  pu_nextDelivery :: nat
  pu_pushed :: "push_message list"

datatype push_error = PushDbError

type_synonym 'a push_io = "(push_state, push_error, 'a) io"

section \<open>Tokens and segments\<close>

definition registerPushToken :: "string \<Rightarrow> string \<Rightarrow> string \<Rightarrow> unit push_io" where
  "registerPushToken userId token platform = db_write PushDbError (\<lambda>d. d\<lparr>pu_tokens :=
     table_upsert (\<lambda>r. pt_userId r = userId \<and> pt_token r = token)
       (\<lambda>r. r\<lparr>pt_active := True, pt_platform := platform\<rparr>)
       \<lparr>pt_userId = userId, pt_token = token, pt_platform = platform, pt_active = True\<rparr> (pu_tokens d)\<rparr>)"

definition deactivatePushToken :: "string \<Rightarrow> unit push_io" where
  "deactivatePushToken token = db_write PushDbError (\<lambda>d. d\<lparr>pu_tokens :=
     table_update (\<lambda>r. pt_token r = token) (\<lambda>r. r\<lparr>pt_active := False\<rparr>) (pu_tokens d)\<rparr>)"

definition active_tokens :: "(PushToken \<Rightarrow> bool) \<Rightarrow> PushToken list push_io" where
  "active_tokens p = db_read PushDbError (\<lambda>d. filter (\<lambda>r. p r \<and> pt_active r) (pu_tokens d))"

definition getPushTokensForUser :: "string \<Rightarrow> PushToken list push_io" where
  "getPushTokensForUser userId = active_tokens (\<lambda>r. pt_userId r = userId)"

definition upsertSegment :: "int \<Rightarrow> string \<Rightarrow> json \<Rightarrow> string option \<Rightarrow> unit push_io" where
  "upsertSegment now name filt description = db_write PushDbError (\<lambda>d. d\<lparr>pu_segments :=
     table_upsert (\<lambda>s. us_name s = name) (\<lambda>s. s\<lparr>us_filter := filt, us_description := description\<rparr>)
       \<lparr>us_name = name, us_filter = filt, us_description = description, us_createdAt = now\<rparr> (pu_segments d)\<rparr>)"

text \<open>The texts of a list, if it has no other elements; the database refuses a query with others.\<close>

fun all_texts :: "json list \<Rightarrow> string list option" where
  "all_texts [] = Some []"
| "all_texts (JStr s # vs) = map_option ((#) s) (all_texts vs)"
| "all_texts (v # vs) = None"

definition platform_filter :: "json option \<Rightarrow> (string \<Rightarrow> bool) option" where
  "platform_filter v = (if truthy v then (case v of Some (JStr s) \<Rightarrow> Some (\<lambda>p. p = s) | _ \<Rightarrow> None) else Some (\<lambda>_. True))"

definition user_filter :: "json option \<Rightarrow> (string \<Rightarrow> bool) option" where
  "user_filter v = (case v of
       Some (JArr (x # xs)) \<Rightarrow> map_option (\<lambda>us u. u \<in> set us) (all_texts (x # xs))
     | _ \<Rightarrow> Some (\<lambda>_. True))"

definition resolveSegmentTokens :: "string \<Rightarrow> PushToken list push_io" where
  "resolveSegmentTokens name = io_bind (db_read PushDbError (\<lambda>d. find (\<lambda>s. us_name s = name) (pu_segments d)))
     (\<lambda>s. case s of None \<Rightarrow> io_return []
      | Some seg \<Rightarrow> (case (platform_filter (jget (Some (us_filter seg)) ''platform''),
                          user_filter (jget (Some (us_filter seg)) ''userIds'')) of
          (Some p, Some u) \<Rightarrow> active_tokens (\<lambda>r. p (pt_platform r) \<and> u (pt_userId r))
        | _ \<Rightarrow> io_throw PushDbError))"

section \<open>The two services\<close>

datatype fcm_answer = FcmUnreachable string | FcmUnparsable | FcmAnswer bool "string option"
datatype apns_answer = ApnsUnreachable string | ApnsAnswer nat "string option"

record apns_request =
  ar_host :: string
  ar_path :: string
  ar_authorization :: string
  ar_topic :: string
  ar_pushType :: string
  ar_payload :: json

record push_env =
  pe_dryRun :: "string option"
  pe_serverKey :: "string option"
  pe_keyId :: "string option"
  pe_teamId :: "string option"
  pe_bundleId :: "string option"
  pe_keyPath :: "string option"
  pe_production :: "string option"
  pe_readFile :: "string \<Rightarrow> string + string"
  pe_stringify :: "json \<Rightarrow> string"
  pe_date :: "json \<Rightarrow> int option"
  pe_base64url :: "json \<Rightarrow> string"
  pe_fcm :: "string \<Rightarrow> json \<Rightarrow> fcm_answer"
  pe_apns :: "apns_request \<Rightarrow> apns_answer"

definition env_text :: "string option \<Rightarrow> string" where
  "env_text v = (case v of Some s \<Rightarrow> s | None \<Rightarrow> [])"

text \<open>An object without the fields that are \<^verbatim>\<open>undefined\<close>, and the entries that spreading a value adds.\<close>

definition defined_fields :: "(string \<times> json option) list \<Rightarrow> (string \<times> json) list" where
  "defined_fields kvs = List.map_filter (\<lambda>(k, v). map_option (Pair k) v) kvs"

definition entries :: "json option \<Rightarrow> (string \<times> json) list" where
  "entries v = (case v of
       Some (JObj kvs) \<Rightarrow> kvs
     | Some (JArr vs) \<Rightarrow> zip (map nat_str [0..<length vs]) vs
     | Some (JStr s) \<Rightarrow> zip (map nat_str [0..<length s]) (map (\<lambda>c. JStr [c]) s)
     | _ \<Rightarrow> [])"

definition put_field :: "string \<times> json \<Rightarrow> (string \<times> json) list \<Rightarrow> (string \<times> json) list" where
  "put_field e kvs = AList.update (fst e) (snd e) kvs"

definition fcm_payload :: "push_env \<Rightarrow> string \<Rightarrow> PushPayload \<Rightarrow> json" where
  "fcm_payload E token p = JObj (defined_fields
     [(''to'', Some (JStr token)),
      (''notification'', if pp_silent p then None else Some (JObj (defined_fields
          [(''title'', Some (JStr (pp_title p))), (''body'', Some (JStr (pp_body p))),
           (''image'', map_option JStr (pp_imageUrl p))]))),
      (''data'', Some (JObj (fold put_field (defined_fields
          [(''deepLink'', if env_text (pp_deepLink p) = [] then None else map_option JStr (pp_deepLink p)),
           (''actions'', if truthy (pp_actions p) then map_option (\<lambda>a. JStr (pe_stringify E a)) (pp_actions p) else None)])
          (entries (pp_data p))))),
      (''priority'', Some (JStr (if pp_silent p then ''normal'' else ''high''))),
      (''content_available'', if pp_silent p then Some (JBool True) else None)])"

definition fcm_result :: "fcm_answer \<Rightarrow> string option" where
  "fcm_result a = (case a of
       FcmUnreachable e \<Rightarrow> Some e
     | FcmUnparsable \<Rightarrow> Some ''Failed to parse FCM response''
     | FcmAnswer True _ \<Rightarrow> None
     | FcmAnswer False e \<Rightarrow> Some (case e of Some t \<Rightarrow> t | None \<Rightarrow> ''FCM error''))"

definition apns_payload :: "PushPayload \<Rightarrow> json" where
  "apns_payload p = JObj (fold put_field (entries (pp_data p)) (defined_fields
     [(''aps'', Some (JObj (defined_fields
        [(''alert'', if pp_silent p then None
            else Some (JObj [(''title'', JStr (pp_title p)), (''body'', JStr (pp_body p))])),
         (''content-available'', if pp_silent p then Some (JNum 1) else None),
         (''sound'', if pp_silent p then None else Some (JStr ''default''))]))),
      (''deepLink'', map_option JStr (pp_deepLink p))]))"

definition apns_jwt :: "push_env \<Rightarrow> int \<Rightarrow> string" where
  "apns_jwt E now =
     pe_base64url E (JObj [(''alg'', JStr ''ES256''), (''kid'', JStr (env_text (pe_keyId E)))]) @ ''.'' @
     pe_base64url E (JObj [(''iss'', JStr (env_text (pe_teamId E))), (''iat'', JNum (now div 1000))]) @
     ''.SIGNATURE_PLACEHOLDER''"

definition apns_request_for :: "push_env \<Rightarrow> int \<Rightarrow> string \<Rightarrow> PushPayload \<Rightarrow> apns_request" where
  "apns_request_for E now token p =
     \<lparr>ar_host = (if pe_production E = Some ''true'' then ''api.push.apple.com'' else ''api.sandbox.push.apple.com''),
      ar_path = ''/3/device/'' @ token, ar_authorization = ''bearer '' @ apns_jwt E now,
      ar_topic = env_text (pe_bundleId E), ar_pushType = (if pp_silent p then ''background'' else ''alert''),
      ar_payload = apns_payload p\<rparr>"

definition apns_result :: "apns_answer \<Rightarrow> string option" where
  "apns_result a = (case a of
       ApnsUnreachable e \<Rightarrow> Some e
     | ApnsAnswer st reason \<Rightarrow> if st = 200 then None
         else Some (case reason of Some t \<Rightarrow> t | None \<Rightarrow> ''APNs status '' @ nat_str st))"

text \<open>Handing a message over: \<open>None\<close> is success, and an error its text.\<close>

definition push_out :: "string \<Rightarrow> json \<Rightarrow> 'a \<Rightarrow> 'a push_io" where
  "push_out token body r = io_memory (\<lambda>d. (r, d\<lparr>pu_pushed := pu_pushed d @ [\<lparr>pm_token = token, pm_body = body\<rparr>]\<rparr>))"

definition sendFcmMessage :: "push_env \<Rightarrow> string \<Rightarrow> PushPayload \<Rightarrow> string option push_io" where
  "sendFcmMessage E token p = push_out token (fcm_payload E token p)
     (fcm_result (pe_fcm E (env_text (pe_serverKey E)) (fcm_payload E token p)))"

definition sendApnsMessage :: "push_env \<Rightarrow> int \<Rightarrow> string \<Rightarrow> PushPayload \<Rightarrow> string option push_io" where
  "sendApnsMessage E now token p =
     (if env_text (pe_keyId E) = [] \<or> env_text (pe_teamId E) = [] \<or> env_text (pe_bundleId E) = [] \<or>
         env_text (pe_keyPath E) = [] then io_return (Some ''APNs not configured'')
      else case pe_readFile E (env_text (pe_keyPath E)) of
        Inl e \<Rightarrow> io_return (Some (''Cannot read APNs key: '' @ e))
      | Inr key \<Rightarrow> push_out token (apns_payload p) (apns_result (pe_apns E (apns_request_for E now token p))))"

definition push_dry_run :: "push_env \<Rightarrow> bool" where "push_dry_run E \<longleftrightarrow> pe_dryRun E \<noteq> Some ''false''"

section \<open>Sending\<close>

record SendPushOptions =
  sp_payload :: PushPayload
  sp_userId :: "string option"
  sp_segmentName :: "string option"
  sp_tokens :: "string list"
  sp_scheduledAt :: "int option"

record PushResult =
  pr_notificationId :: nat
  pr_sent :: nat
  pr_failed :: nat
  pr_errors :: "string list"

definition in_future :: "int \<Rightarrow> int option \<Rightarrow> bool" where
  "in_future now at = (case at of Some t \<Rightarrow> now < t | None \<Rightarrow> False)"

definition create_notification :: "int \<Rightarrow> SendPushOptions \<Rightarrow> nat push_io" where
  "create_notification now o0 = db_call PushDbError (\<lambda>d. (pu_nextNotification d,
     d\<lparr>pu_notifications := pu_notifications d @
         [\<lparr>pn_id = pu_nextNotification d, pn_title = pp_title (sp_payload o0), pn_body = pp_body (sp_payload o0),
           pn_imageUrl = pp_imageUrl (sp_payload o0), pn_deepLink = pp_deepLink (sp_payload o0),
           pn_data = (if truthy (pp_data (sp_payload o0)) then pp_data (sp_payload o0) else None),
           pn_segment = sp_segmentName o0, pn_userId = sp_userId o0, pn_scheduledAt = sp_scheduledAt o0,
           pn_status = (if in_future now (sp_scheduledAt o0) then ''pending'' else ''sending''), pn_sentAt = None\<rparr>],
       pu_nextNotification := pu_nextNotification d + 1\<rparr>))"

definition update_notification :: "nat \<Rightarrow> (PushNotification \<Rightarrow> PushNotification) \<Rightarrow> unit push_io" where
  "update_notification i f = db_write PushDbError
     (\<lambda>d. d\<lparr>pu_notifications := table_update (\<lambda>n. pn_id n = i) f (pu_notifications d)\<rparr>)"

definition resolve_targets :: "SendPushOptions \<Rightarrow> PushToken list push_io" where
  "resolve_targets o0 =
     (if sp_tokens o0 \<noteq> [] then active_tokens (\<lambda>r. pt_token r \<in> set (sp_tokens o0))
      else if env_text (sp_userId o0) \<noteq> [] then getPushTokensForUser (env_text (sp_userId o0))
      else if env_text (sp_segmentName o0) \<noteq> [] then resolveSegmentTokens (env_text (sp_segmentName o0))
      else io_return [])"

definition create_delivery :: "nat \<Rightarrow> PushToken \<Rightarrow> nat push_io" where
  "create_delivery nid t = db_call PushDbError (\<lambda>d. (pu_nextDelivery d,
     d\<lparr>pu_deliveries := pu_deliveries d @
         [\<lparr>pd_id = pu_nextDelivery d, pd_notificationId = nid, pd_userId = pt_userId t, pd_token = pt_token t,
           pd_platform = pt_platform t, pd_status = ''pending'', pd_sentAt = None, pd_errorMsg = None\<rparr>],
       pu_nextDelivery := pu_nextDelivery d + 1\<rparr>))"

definition update_delivery :: "nat \<Rightarrow> (PushDelivery \<Rightarrow> PushDelivery) \<Rightarrow> unit push_io" where
  "update_delivery i f = db_write PushDbError
     (\<lambda>d. d\<lparr>pu_deliveries := table_update (\<lambda>r. pd_id r = i) f (pu_deliveries d)\<rparr>)"

definition delivered_now :: "int \<Rightarrow> nat \<Rightarrow> string option push_io" where
  "delivered_now now i = io_bind (update_delivery i (\<lambda>r. r\<lparr>pd_status := ''delivered'', pd_sentAt := Some now\<rparr>))
     (\<lambda>_. io_return None)"

definition dead_token :: "string \<Rightarrow> bool" where
  "dead_token e \<longleftrightarrow> e \<in> set [''NotRegistered'', ''InvalidRegistration'', ''Unregistered'']"

definition failed_now :: "PushToken \<Rightarrow> nat \<Rightarrow> string \<Rightarrow> string option push_io" where
  "failed_now t i e = io_bind (update_delivery i (\<lambda>r. r\<lparr>pd_status := ''failed'', pd_errorMsg := Some e\<rparr>))
     (\<lambda>_. io_bind (if dead_token e then deactivatePushToken (pt_token t) else io_return ()) (\<lambda>_. io_return (Some e)))"

definition deliver_target :: "push_env \<Rightarrow> int \<Rightarrow> nat \<Rightarrow> PushPayload \<Rightarrow> PushToken \<Rightarrow> string option push_io" where
  "deliver_target E now nid p t = io_bind (create_delivery nid t) (\<lambda>i.
     if push_dry_run E then delivered_now now i
     else io_bind (if pt_platform t = ''ios'' then sendApnsMessage E now (pt_token t) p
                   else sendFcmMessage E (pt_token t) p)
       (\<lambda>r. case r of None \<Rightarrow> delivered_now now i | Some e \<Rightarrow> failed_now t i e))"

text \<open>All targets: for each one its result, or nothing when one of its calls rejected.\<close>

fun deliver_all :: "push_env \<Rightarrow> int \<Rightarrow> nat \<Rightarrow> PushPayload \<Rightarrow> PushToken list \<Rightarrow>
    (PushToken \<times> string option) option list push_io" where
  "deliver_all E now nid p [] = io_return []"
| "deliver_all E now nid p (t # ts) = io_bind
     (io_catch (io_bind (deliver_target E now nid p t) (\<lambda>r. io_return (Some (t, r)))) (\<lambda>_. io_return None))
     (\<lambda>r. io_bind (deliver_all E now nid p ts) (\<lambda>rs. io_return (r # rs)))"

definition last_chars :: "nat \<Rightarrow> string \<Rightarrow> string" where "last_chars n s = drop (length s - n) s"

definition error_lines :: "(PushToken \<times> string option) option list \<Rightarrow> string list" where
  "error_lines rs = [last_chars 8 (pt_token t) @ '': '' @ e. Some (t, Some e) \<leftarrow> rs]"

definition sent_count :: "(PushToken \<times> string option) option list \<Rightarrow> nat" where
  "sent_count rs = length [t. Some (t, None) \<leftarrow> rs]"

definition final_status :: "nat \<Rightarrow> nat \<Rightarrow> string" where
  "final_status sent failed = (if failed = 0 then ''sent'' else if sent = 0 then ''failed'' else ''sent'')"

definition finish_push :: "int \<Rightarrow> nat \<Rightarrow> (PushToken \<times> string option) option list \<Rightarrow> PushResult push_io" where
  "finish_push now nid rs = (let sent = sent_count rs; errs = error_lines rs in
     if None \<in> set rs then io_throw PushDbError
     else io_bind (update_notification nid
         (\<lambda>n. n\<lparr>pn_status := final_status sent (length errs), pn_sentAt := Some now\<rparr>))
       (\<lambda>_. io_return \<lparr>pr_notificationId = nid, pr_sent = sent, pr_failed = length errs, pr_errors = errs\<rparr>))"

definition sendPushNotification :: "push_env \<Rightarrow> int \<Rightarrow> SendPushOptions \<Rightarrow> PushResult push_io" where
  "sendPushNotification E now o0 = io_bind (create_notification now o0) (\<lambda>nid.
     if in_future now (sp_scheduledAt o0)
     then io_return \<lparr>pr_notificationId = nid, pr_sent = 0, pr_failed = 0, pr_errors = []\<rparr>
     else io_bind (resolve_targets o0) (\<lambda>targets.
       if targets = [] then io_bind (update_notification nid (\<lambda>n. n\<lparr>pn_status := ''sent'', pn_sentAt := Some now\<rparr>))
         (\<lambda>_. io_return \<lparr>pr_notificationId = nid, pr_sent = 0, pr_failed = 0, pr_errors = [''No target tokens found'']\<rparr>)
       else io_bind (deliver_all E now nid (sp_payload o0) targets) (finish_push now nid)))"

section \<open>Scheduled notifications and statistics\<close>

definition scheduled_options :: "PushNotification \<Rightarrow> SendPushOptions" where
  "scheduled_options n =
     \<lparr>sp_payload = \<lparr>pp_title = pn_title n, pp_body = pn_body n, pp_imageUrl = pn_imageUrl n,
        pp_deepLink = pn_deepLink n, pp_data = pn_data n, pp_silent = False, pp_actions = None\<rparr>,
      sp_userId = pn_userId n, sp_segmentName = pn_segment n, sp_tokens = [], sp_scheduledAt = None\<rparr>"

fun process_due :: "push_env \<Rightarrow> int \<Rightarrow> PushNotification list \<Rightarrow> unit push_io" where
  "process_due E now [] = io_return ()"
| "process_due E now (n # ns) = io_bind (update_notification (pn_id n) (\<lambda>r. r\<lparr>pn_status := ''sending''\<rparr>))
     (\<lambda>_. io_bind (sendPushNotification E now (scheduled_options n)) (\<lambda>_. process_due E now ns))"

definition due_push :: "int \<Rightarrow> PushNotification \<Rightarrow> bool" where
  "due_push now n \<longleftrightarrow> pn_status n = ''pending'' \<and> (case pn_scheduledAt n of Some t \<Rightarrow> t \<le> now | None \<Rightarrow> False)"

definition processScheduledNotifications :: "push_env \<Rightarrow> int \<Rightarrow> unit push_io" where
  "processScheduledNotifications E now = io_bind
     (db_read PushDbError (\<lambda>d. take 50 (filter (due_push now) (pu_notifications d)))) (process_due E now)"

record notification_stats =
  ns_total :: nat
  ns_delivered :: nat
  ns_failed :: nat
  ns_pending :: nat

definition with_status :: "string \<Rightarrow> PushDelivery list \<Rightarrow> nat" where
  "with_status st ds = length (filter (\<lambda>r. pd_status r = st) ds)"

definition stats_of :: "PushDelivery list \<Rightarrow> notification_stats" where
  "stats_of ds = \<lparr>ns_total = length ds, ns_delivered = with_status ''delivered'' ds,
     ns_failed = with_status ''failed'' ds, ns_pending = with_status ''pending'' ds\<rparr>"

definition deliveries_of :: "nat \<Rightarrow> push_state \<Rightarrow> PushDelivery list" where
  "deliveries_of nid d = filter (\<lambda>r. pd_notificationId r = nid) (pu_deliveries d)"

definition getNotificationStats :: "nat \<Rightarrow> notification_stats push_io" where
  "getNotificationStats nid = db_read PushDbError (\<lambda>d. stats_of (deliveries_of nid d))"

section \<open>Routes\<close>

datatype push_reply =
    PushRefused nat string
  | PushDone string
  | TokenList string "PushToken list"
  | PushAccepted PushResult
  | NotificationInfo PushNotification notification_stats
  | SegmentList "UserSegment list"

definition or_500 :: "push_reply push_io \<Rightarrow> push_reply push_io" where
  "or_500 m = io_catch m (\<lambda>_. io_return (PushRefused 500 ''Internal server error''))"

text \<open>An optional text of a body: what is neither a text nor absent is refused by the database.\<close>

definition opt_text :: "json option \<Rightarrow> string option option" where
  "opt_text v = (case v of None \<Rightarrow> Some None | Some JNull \<Rightarrow> Some None | Some (JStr s) \<Rightarrow> Some (Some s) | _ \<Rightarrow> None)"

definition post_token :: "json option \<Rightarrow> push_reply push_io" where
  "post_token body = (let u = jget body ''userId''; t = jget body ''token''; p = jget body ''platform'' in
     if \<not> truthy u \<or> \<not> truthy t \<or> \<not> truthy p then
       io_return (PushRefused 400 ''userId, token, and platform are required'')
     else if p \<notin> set (map (\<lambda>s. Some (JStr s)) [''ios'', ''android'', ''web'']) then
       io_return (PushRefused 400 ''platform must be one of: ios, android, web'')
     else or_500 (case (u, t, p) of
         (Some (JStr us), Some (JStr tok), Some (JStr pl)) \<Rightarrow>
           io_bind (registerPushToken us tok pl) (\<lambda>_. io_return (PushDone ''Push token registered''))
       | _ \<Rightarrow> io_throw PushDbError))"

definition delete_token :: "string \<Rightarrow> push_reply push_io" where
  "delete_token token = or_500 (io_bind (deactivatePushToken token) (\<lambda>_. io_return (PushDone ''Token deactivated'')))"

definition get_tokens :: "string \<Rightarrow> push_reply push_io" where
  "get_tokens userId = or_500 (io_bind (getPushTokensForUser userId) (\<lambda>ts. io_return (TokenList userId ts)))"

text \<open>The options that a body asks for; nothing if the database refuses them.\<close>

definition push_options :: "push_env \<Rightarrow> json option \<Rightarrow> SendPushOptions option" where
  "push_options E body =
     (case (jget body ''title'', jget body ''body'', opt_text (jget body ''imageUrl''), opt_text (jget body ''deepLink''),
            opt_text (jget body ''userId''), opt_text (jget body ''segmentName'')) of
        (Some (JStr ti), Some (JStr bo), Some im, Some dl, Some us, Some sg) \<Rightarrow>
          (let opts = \<lambda>at. \<lparr>sp_payload = \<lparr>pp_title = ti, pp_body = bo, pp_imageUrl = im, pp_deepLink = dl,
               pp_data = jget body ''data'', pp_silent = truthy (jget body ''silent''), pp_actions = jget body ''actions''\<rparr>,
             sp_userId = us, sp_segmentName = sg, sp_tokens = [], sp_scheduledAt = at\<rparr> in
           if truthy (jget body ''scheduledAt'')
           then map_option (\<lambda>t. opts (Some t)) (Option.bind (jget body ''scheduledAt'') (pe_date E))
           else Some (opts None))
      | _ \<Rightarrow> None)"

definition post_push :: "push_env \<Rightarrow> int \<Rightarrow> json option \<Rightarrow> push_reply push_io" where
  "post_push E now body =
     (if \<not> truthy (jget body ''title'') \<or> \<not> truthy (jget body ''body'') then
        io_return (PushRefused 400 ''title and body are required'')
      else if \<not> truthy (jget body ''userId'') \<and> \<not> truthy (jget body ''segmentName'') then
        io_return (PushRefused 400 ''Either userId or segmentName must be provided'')
      else or_500 (case push_options E body of
          None \<Rightarrow> io_throw PushDbError
        | Some o0 \<Rightarrow> io_bind (sendPushNotification E now o0) (\<lambda>r. io_return (PushAccepted r))))"

definition get_notification :: "string \<Rightarrow> push_reply push_io" where
  "get_notification i = (case parse_int i of
       None \<Rightarrow> io_return (PushRefused 400 ''Invalid notification id'')
     | Some n \<Rightarrow> or_500 (io_bind (db_read PushDbError (\<lambda>d. find (\<lambda>r. int (pn_id r) = n) (pu_notifications d)))
         (\<lambda>r. case r of
            None \<Rightarrow> io_return (PushRefused 404 ''Notification not found'')
          | Some row \<Rightarrow> io_bind (getNotificationStats (pn_id row)) (\<lambda>st. io_return (NotificationInfo row st)))))"

definition post_segment :: "int \<Rightarrow> json option \<Rightarrow> push_reply push_io" where
  "post_segment now body = (let name = jget body ''name''; filt = jget body ''filter'' in
     if \<not> truthy name \<or> \<not> (case filt of Some (JObj _) \<Rightarrow> True | Some (JArr _) \<Rightarrow> True | _ \<Rightarrow> False) then
       io_return (PushRefused 400 ''name and filter (object) are required'')
     else or_500 (case (name, filt, opt_text (jget body ''description'')) of
         (Some (JStr nm), Some f, Some desc) \<Rightarrow>
           io_bind (upsertSegment now nm f desc) (\<lambda>_. io_return (PushDone (''Segment '' @ [CHR 39] @ nm @ [CHR 39] @ '' saved'')))
       | _ \<Rightarrow> io_throw PushDbError))"

definition get_segments :: "push_reply push_io" where
  "get_segments = or_500 (io_bind (db_read PushDbError (\<lambda>d. sort_key (\<lambda>s. - us_createdAt s) (pu_segments d)))
     (\<lambda>ss. io_return (SegmentList ss)))"

section \<open>Runs of operations\<close>

datatype push_op =
    TokenOp "json option"
  | DeactivateOp string
  | PushOp "json option"
  | DirectOp SendPushOptions
  | SegmentOp "json option"
  | CronOp

definition push_step :: "push_env \<Rightarrow> int \<Rightarrow> push_op \<Rightarrow> unit push_io" where
  "push_step E now op = (case op of
       TokenOp b \<Rightarrow> io_bind (post_token b) (\<lambda>_. io_return ())
     | DeactivateOp t \<Rightarrow> io_bind (delete_token t) (\<lambda>_. io_return ())
     | PushOp b \<Rightarrow> io_bind (post_push E now b) (\<lambda>_. io_return ())
     | DirectOp o0 \<Rightarrow> io_bind (sendPushNotification E now o0) (\<lambda>_. io_return ())
     | SegmentOp b \<Rightarrow> io_bind (post_segment now b) (\<lambda>_. io_return ())
     | CronOp \<Rightarrow> processScheduledNotifications E now)"

text \<open>Each operation comes with its time and the outcomes of its calls.\<close>

definition run_push :: "push_env \<Rightarrow> (int \<times> push_op \<times> bool list) list \<Rightarrow> push_state \<Rightarrow> push_state" where
  "run_push E ops d = fold (\<lambda>(now, op, fs) d. db_after (push_step E now op) fs d) ops d"

section \<open>Tokens that are not active\<close>

definition registers :: "string \<Rightarrow> push_op \<Rightarrow> bool" where
  "registers token op = (case op of TokenOp b \<Rightarrow> jget b ''token'' = Some (JStr token) | _ \<Rightarrow> False)"

definition inactive :: "string \<Rightarrow> push_state \<Rightarrow> bool" where
  "inactive token d \<longleftrightarrow> list_all (\<lambda>r. pt_token r = token \<longrightarrow> \<not> pt_active r) (pu_tokens d)"

definition pushed_to :: "string \<Rightarrow> push_state \<Rightarrow> push_message list" where
  "pushed_to token d = filter (\<lambda>m. pm_token m = token) (pu_pushed d)"

definition mute :: "string \<Rightarrow> push_message list \<Rightarrow> push_state \<Rightarrow> bool" where
  "mute token S d \<longleftrightarrow> inactive token d \<and> pushed_to token d = S"

lemma mute_other [simp]:
  "mute token S (d\<lparr>pu_notifications := ns\<rparr>) = mute token S d"
  "mute token S (d\<lparr>pu_notifications := ns, pu_nextNotification := i\<rparr>) = mute token S d"
  "mute token S (d\<lparr>pu_deliveries := ds\<rparr>) = mute token S d"
  "mute token S (d\<lparr>pu_deliveries := ds, pu_nextDelivery := i\<rparr>) = mute token S d"
  "mute token S (d\<lparr>pu_segments := ss\<rparr>) = mute token S d"
  by (simp_all add: mute_def inactive_def pushed_to_def)

lemma mute_deactivate: "keeps (mute token S) (deactivatePushToken t)"
  unfolding deactivatePushToken_def
  by (rule keeps_write) (auto simp: mute_def inactive_def pushed_to_def table_update_def list_all_iff)

lemma mute_register: "t \<noteq> token \<Longrightarrow> keeps (mute token S) (registerPushToken u t p)"
  unfolding registerPushToken_def
  by (rule keeps_write)
    (auto simp: mute_def inactive_def pushed_to_def table_upsert_def table_update_def list_all_iff)

lemma mute_push_out: "t \<noteq> token \<Longrightarrow> keeps (mute token S) (push_out t body r)"
  unfolding push_out_def by (rule keeps_memory) (simp add: mute_def inactive_def pushed_to_def)

lemma mute_updates:
  "keeps (mute token S) (update_notification i f)" "keeps (mute token S) (update_delivery i g)"
  "keeps (mute token S) (create_notification now o0)" "keeps (mute token S) (create_delivery nid t)"
  unfolding update_notification_def update_delivery_def create_notification_def create_delivery_def
  by (rule keeps_write keeps_call; simp)+

lemma mute_target:
  assumes "pt_token t \<noteq> token"
  shows "keeps (mute token S) (deliver_target E now nid p t)"
  unfolding deliver_target_def delivered_now_def failed_now_def sendApnsMessage_def sendFcmMessage_def
  by (intro keeps_intros mute_updates mute_deactivate mute_push_out assms)

lemma mute_all:
  assumes "\<forall>t \<in> set ts. pt_token t \<noteq> token"
  shows "keeps (mute token S) (deliver_all E now nid p ts)"
  using assms
proof (induction ts)
  case (Cons t ts)
  then show ?case unfolding deliver_all.simps by (intro keeps_intros mute_target) auto
qed (simp add: keeps_return)

lemma mute_active_tokens:
  "ensures (mute token S) (active_tokens q) (\<lambda>ts d. (\<forall>t \<in> set ts. pt_token t \<noteq> token) \<and> mute token S d) (mute token S)"
  unfolding active_tokens_def by (rule ensures_read) (auto simp: mute_def inactive_def list_all_iff)

lemma mute_none:
  "ensures (mute token S) (io_return []) (\<lambda>ts d. (\<forall>t \<in> set ts. pt_token t \<noteq> token) \<and> mute token S d) (mute token S)"
  by (rule ensures_return) simp

lemma mute_segment:
  "ensures (mute token S) (resolveSegmentTokens name)
     (\<lambda>ts d. (\<forall>t \<in> set ts. pt_token t \<noteq> token) \<and> mute token S d) (mute token S)"
  unfolding resolveSegmentTokens_def
proof (rule ensures_bind, rule ensures_read, assumption, assumption, goal_cases)
  case (1 seg)
  show ?case by (auto intro!: mute_none mute_active_tokens ensures_throw split: option.splits prod.splits)
qed

lemma mute_resolve:
  "ensures (mute token S) (resolve_targets o0)
     (\<lambda>ts d. (\<forall>t \<in> set ts. pt_token t \<noteq> token) \<and> mute token S d) (mute token S)"
  unfolding resolve_targets_def getPushTokensForUser_def by (simp add: mute_active_tokens mute_segment mute_none)

lemma mute_send: "keeps (mute token S) (sendPushNotification E now o0)"
  unfolding sendPushNotification_def
proof (rule keeps_bind [OF mute_updates(3)], rule keeps_if, rule keeps_return, rule ensures_keeps,
    rule ensures_bind [OF mute_resolve], rule ensures_pure, rule keeps_ensures, goal_cases)
  case (1 nid ts)
  have "keeps (mute token S) (finish_push now nid rs)" for rs
    unfolding finish_push_def Let_def by (intro keeps_intros mute_updates)
  with 1 show ?case by (intro keeps_intros mute_updates mute_all) auto
qed

lemma mute_due: "keeps (mute token S) (process_due E now ns)"
  by (induction ns) (auto intro!: keeps_intros mute_updates mute_send)

lemma mute_step:
  assumes "\<not> registers token op"
  shows "keeps (mute token S) (push_step E now op)"
proof (cases op)
  case (TokenOp b)
  have "keeps (mute token S) (post_token b)"
    unfolding post_token_def Let_def or_500_def
    using assms mute_register
    by (auto simp: TokenOp registers_def intro!: keeps_intros split: option.splits json.splits)
  then show ?thesis by (simp add: push_step_def TokenOp keeps_intros)
next
  case (PushOp b)
  then show ?thesis unfolding push_step_def post_push_def or_500_def by (auto intro!: keeps_intros mute_send)
next
  case (SegmentOp b)
  have "keeps (mute token S) (upsertSegment now nm f ds)" for nm f ds
    unfolding upsertSegment_def by (rule keeps_write) simp
  then have "keeps (mute token S) (post_segment now b)"
    unfolding post_segment_def Let_def or_500_def
    by (auto intro!: keeps_intros split: option.splits json.splits)
  then show ?thesis by (simp add: push_step_def SegmentOp keeps_intros)
next
  case CronOp
  then show ?thesis unfolding push_step_def processScheduledNotifications_def
    by (auto intro!: keeps_intros mute_due)
qed (auto simp: push_step_def delete_token_def or_500_def intro!: keeps_intros mute_send mute_deactivate)

text \<open>A device token that is not active gets no notification, whatever is asked for and whichever calls fail,
  until it is registered again.\<close>

theorem inactive_token_gets_nothing:
  assumes "inactive token d" and "\<forall>(now, op, fs) \<in> set ops. \<not> registers token op"
  shows "pushed_to token (run_push E ops d) = pushed_to token d \<and> inactive token (run_push E ops d)"
proof -
  have "mute token S d \<Longrightarrow> mute token S (run_push E ops d)" for S d
    using assms(2) unfolding run_push_def
  proof (induction ops arbitrary: d)
    case (Cons x ops)
    obtain now op fs where x: "x = (now, op, fs)" by (rule prod_cases3) (rule that)
    have "mute token S (db_after (push_step E now op) fs d)"
      by (rule keepsD [OF mute_step Cons.prems(1)]) (use Cons.prems(2) x in auto)
    from Cons.IH [OF this] Cons.prems(2) x show ?case by simp
  qed simp
  from this [of "pushed_to token d" d] assms(1) show ?thesis by (simp add: mute_def)
qed

section \<open>Accounting\<close>

text \<open>Identifiers are fresh: every operation keeps this, and it makes the deliveries of a notification its own.\<close>

definition push_ok :: "push_state \<Rightarrow> bool" where
  "push_ok d \<longleftrightarrow> list_all (\<lambda>r. pd_id r < pu_nextDelivery d \<and> pd_notificationId r < pu_nextNotification d) (pu_deliveries d)"

definition push_tally :: "PushDelivery list \<Rightarrow> string list \<times> nat \<times> nat \<times> nat" where
  "push_tally ds = (map pd_token ds, with_status ''delivered'' ds, with_status ''failed'' ds, with_status ''pending'' ds)"

definition counted :: "nat \<Rightarrow> string list \<times> nat \<times> nat \<times> nat \<Rightarrow> push_state \<Rightarrow> bool" where
  "counted nid x d \<longleftrightarrow> push_ok d \<and> nid < pu_nextNotification d \<and> push_tally (deliveries_of nid d) = x"

text \<open>A delivery that has just been created.\<close>

definition underway :: "nat \<Rightarrow> PushToken \<Rightarrow> string list \<times> nat \<times> nat \<times> nat \<Rightarrow> nat \<Rightarrow> push_state \<Rightarrow> bool" where
  "underway nid t x i d \<longleftrightarrow> push_ok d \<and> nid < pu_nextNotification d \<and>
     (\<exists>old row. pu_deliveries d = old @ [row] \<and> list_all (\<lambda>r. pd_id r < i) old \<and> pd_id row = i \<and>
        pd_notificationId row = nid \<and> pd_token row = pt_token t \<and>
        push_tally (filter (\<lambda>r. pd_notificationId r = nid) old) = x)"

lemma underway_created: "ensures (counted nid x) (create_delivery nid t) (underway nid t x) (\<lambda>_. True)"
  unfolding create_delivery_def
  by (rule ensures_call)
    (auto simp: counted_def underway_def push_ok_def deliveries_of_def list_all_iff less_Suc_eq)

lemma update_absent: "list_all (\<lambda>r. pd_id r < i) old \<Longrightarrow> table_update (\<lambda>r. pd_id r = i) f old = old"
  by (induction old) (auto simp: table_update_def)

lemma push_tally_snoc:
  "push_tally ds = (ts, a, b, 0) \<Longrightarrow> pd_status row = ''delivered'' \<Longrightarrow>
     push_tally (ds @ [row]) = (ts @ [pd_token row], Suc a, b, 0)"
  "push_tally ds = (ts, a, b, 0) \<Longrightarrow> pd_status row = ''failed'' \<Longrightarrow>
     push_tally (ds @ [row]) = (ts @ [pd_token row], a, Suc b, 0)"
  by (auto simp: push_tally_def with_status_def)

lemma underway_settled:
  assumes "\<And>r. pd_id (f r) = pd_id r \<and> pd_notificationId (f r) = pd_notificationId r \<and> pd_token (f r) = pd_token r"
    and "\<And>ds row. push_tally ds = x \<Longrightarrow> pd_token row = pt_token t \<Longrightarrow> push_tally (ds @ [f row]) = y"
  shows "ensures (underway nid t x i) (update_delivery i f) (\<lambda>_. counted nid y) (\<lambda>_. True)"
  unfolding update_delivery_def
proof (rule ensures_write)
  fix d assume "underway nid t x i d"
  then obtain old row where d: "pu_deliveries d = old @ [row]" "list_all (\<lambda>r. pd_id r < i) old" "pd_id row = i"
      "pd_notificationId row = nid" "pd_token row = pt_token t"
      "push_tally (filter (\<lambda>r. pd_notificationId r = nid) old) = x" "push_ok d" "nid < pu_nextNotification d"
    unfolding underway_def by blast
  have upd: "table_update (\<lambda>r. pd_id r = i) f (pu_deliveries d) = old @ [f row]"
    using update_absent [OF d(2), of f] d(1,3) by (simp add: table_update_def)
  show "counted nid y (d\<lparr>pu_deliveries := table_update (\<lambda>r. pd_id r = i) f (pu_deliveries d)\<rparr>)"
    unfolding upd counted_def deliveries_of_def
    using d assms(1) assms(2) [OF d(6,5)] by (auto simp: push_ok_def)
qed simp

lemma settled_delivered:
  "ensures (underway nid t (ts, a, b, 0) i) (delivered_now now i)
     (\<lambda>r d. r = None \<and> counted nid (ts @ [pt_token t], Suc a, b, 0) d) (\<lambda>_. True)"
  unfolding delivered_now_def
  by (rule ensures_bind [OF underway_settled [where y = "(ts @ [pt_token t], Suc a, b, 0)"] ensures_return])
    (auto simp: push_tally_snoc)

lemma keeps_counted_deactivate: "keeps (counted nid x) (deactivatePushToken tok)"
  unfolding deactivatePushToken_def by (rule keeps_write) (simp add: counted_def push_ok_def deliveries_of_def)

lemma settled_failed:
  "ensures (underway nid t (ts, a, b, 0) i) (failed_now t i e)
     (\<lambda>r d. r = Some e \<and> counted nid (ts @ [pt_token t], a, Suc b, 0) d) (\<lambda>_. True)"
  unfolding failed_now_def
proof (rule ensures_bind [OF underway_settled [where y = "(ts @ [pt_token t], a, Suc b, 0)"]])
  let ?I = "counted nid (ts @ [pt_token t], a, Suc b, 0)"
  have "keeps ?I (if dead_token e then deactivatePushToken (pt_token t) else io_return ())"
    by (intro keeps_intros keeps_counted_deactivate)
  from keeps_result [OF this] show "ensures ?I (io_bind (if dead_token e then deactivatePushToken (pt_token t) else io_return ())
      (\<lambda>_. io_return (Some e))) (\<lambda>r d. r = Some e \<and> ?I d) (\<lambda>_. True)"
    by (rule ensures_bind) (simp add: ensures_return)
qed (auto simp: push_tally_snoc)

lemma underway_sent:
  "ensures (underway nid t x i) (if pt_platform t = ''ios'' then sendApnsMessage E now (pt_token t) p
     else sendFcmMessage E (pt_token t) p) (\<lambda>_. underway nid t x i) (\<lambda>_. True)"
proof -
  have "keeps (underway nid t x i) (push_out tok body r)" for tok body and r :: "string option"
    unfolding push_out_def by (rule keeps_memory) (simp add: underway_def push_ok_def)
  then have "keeps (underway nid t x i) (if pt_platform t = ''ios'' then sendApnsMessage E now (pt_token t) p
     else sendFcmMessage E (pt_token t) p)"
    unfolding sendApnsMessage_def sendFcmMessage_def by (auto intro!: keeps_intros)
  then show ?thesis by (rule keeps_result)
qed

definition after_target :: "nat \<Rightarrow> PushToken \<Rightarrow> string list \<Rightarrow> nat \<Rightarrow> nat \<Rightarrow> string option \<Rightarrow> push_state \<Rightarrow> bool" where
  "after_target nid t ts a b r = counted nid (ts @ [pt_token t], if r = None then Suc a else a, if r = None then b else Suc b, 0)"

lemma target_counted:
  "ensures (counted nid (ts, a, b, 0)) (deliver_target E now nid p t) (after_target nid t ts a b) (\<lambda>_. True)"
proof -
  have del: "ensures (underway nid t (ts, a, b, 0) i) (delivered_now now i) (after_target nid t ts a b) (\<lambda>_. True)" for i
    by (rule ensures_weaken [OF settled_delivered]) (auto simp: after_target_def)
  have fail: "ensures (underway nid t (ts, a, b, 0) i) (failed_now t i e) (after_target nid t ts a b) (\<lambda>_. True)" for i e
    by (rule ensures_weaken [OF settled_failed]) (auto simp: after_target_def)
  have res: "ensures (underway nid t (ts, a, b, 0) i)
      (case r of None \<Rightarrow> delivered_now now i | Some e \<Rightarrow> failed_now t i e) (after_target nid t ts a b) (\<lambda>_. True)" for i r
    by (cases r) (simp_all add: del fail)
  have out: "ensures (underway nid t (ts, a, b, 0) i)
      (io_bind (if pt_platform t = ''ios'' then sendApnsMessage E now (pt_token t) p
         else sendFcmMessage E (pt_token t) p)
       (\<lambda>r. case r of None \<Rightarrow> delivered_now now i | Some e \<Rightarrow> failed_now t i e)) (after_target nid t ts a b) (\<lambda>_. True)" for i
    by (rule ensures_bind [OF underway_sent res])
  show ?thesis unfolding deliver_target_def
  proof (rule ensures_bind [OF underway_created])
    show "ensures (underway nid t (ts, a, b, 0) i) (if push_dry_run E then delivered_now now i
        else io_bind (if pt_platform t = ''ios'' then sendApnsMessage E now (pt_token t) p
           else sendFcmMessage E (pt_token t) p)
         (\<lambda>r. case r of None \<Rightarrow> delivered_now now i | Some e \<Rightarrow> failed_now t i e)) (after_target nid t ts a b) (\<lambda>_. True)" for i
      by (cases "push_dry_run E") (simp_all only: if_True if_False del out)
  qed
qed

definition all_served :: "nat \<Rightarrow> PushToken list \<Rightarrow> string list \<Rightarrow> nat \<Rightarrow> nat \<Rightarrow>
    (PushToken \<times> string option) option list \<Rightarrow> push_state \<Rightarrow> bool" where
  "all_served nid targets ts a b rs d \<longleftrightarrow> None \<in> set rs \<or>
     counted nid (ts @ map pt_token targets, a + sent_count rs, b + length (error_lines rs), 0) d \<and>
     sent_count rs + length (error_lines rs) = length targets"

lemma all_counted:
  "ensures (counted nid (ts, a, b, 0)) (deliver_all E now nid p targets) (all_served nid targets ts a b) (\<lambda>_. True)"
proof (induction targets arbitrary: ts a b)
  case Nil
  show ?case by (simp, rule ensures_return) (simp add: all_served_def sent_count_def error_lines_def)
next
  case (Cons t targets)
  let ?one = "io_catch (io_bind (deliver_target E now nid p t) (\<lambda>r. io_return (Some (t, r)))) (\<lambda>_. io_return None)"
  let ?Q = "\<lambda>x d. case x of None \<Rightarrow> True | Some (t', r) \<Rightarrow> after_target nid t ts a b r d"
  have "ensures (counted nid (ts, a, b, 0)) (io_bind (deliver_target E now nid p t) (\<lambda>r. io_return (Some (t, r)))) ?Q (\<lambda>_. True)"
    by (rule ensures_bind [OF target_counted]) (simp add: ensures_return)
  then have one: "ensures (counted nid (ts, a, b, 0)) ?one ?Q (\<lambda>_. True)"
    by (rule ensures_catch) (simp add: ensures_return)
  have rest: "ensures (?Q x) (io_bind (deliver_all E now nid p targets) (\<lambda>rs. io_return (x # rs)))
      (all_served nid (t # targets) ts a b) (\<lambda>_. True)" for x
  proof (cases x)
    case None
    have "ensures (\<lambda>_. True) (io_bind (deliver_all E now nid p targets) (\<lambda>rs. io_return (None # rs)))
        (all_served nid (t # targets) ts a b) (\<lambda>_. True)"
      by (rule ensures_bind [OF ensures_True]) (simp add: ensures_return all_served_def)
    then show ?thesis by (simp add: None)
  next
    case (Some y)
    obtain t' r where y: "y = (t', r)" by (cases y)
    let ?a = "if r = None then Suc a else a" and ?b = "if r = None then b else Suc b"
    have "ensures (counted nid (ts @ [pt_token t], ?a, ?b, 0))
        (io_bind (deliver_all E now nid p targets) (\<lambda>rs. io_return (Some (t', r) # rs)))
        (all_served nid (t # targets) ts a b) (\<lambda>_. True)"
      by (rule ensures_bind [OF Cons.IH], rule ensures_return, cases r)
        (auto simp: all_served_def sent_count_def error_lines_def)
    then show ?thesis by (simp add: Some y after_target_def)
  qed
  show ?case unfolding deliver_all.simps by (rule ensures_bind [OF one rest])
qed

lemma created_counted:
  "ensures push_ok (create_notification now o0) (\<lambda>nid. counted nid ([], 0, 0, 0)) (\<lambda>_. True)"
  unfolding create_notification_def
proof (rule ensures_call)
  fix d assume d: "push_ok d"
  have "filter (\<lambda>r. pd_notificationId r = pu_nextNotification d) (pu_deliveries d) = []"
    using d by (auto simp: push_ok_def list_all_iff filter_empty_conv)
  then show "counted (fst (pu_nextNotification d,
       d\<lparr>pu_notifications := pu_notifications d @
         [\<lparr>pn_id = pu_nextNotification d, pn_title = pp_title (sp_payload o0), pn_body = pp_body (sp_payload o0),
           pn_imageUrl = pp_imageUrl (sp_payload o0), pn_deepLink = pp_deepLink (sp_payload o0),
           pn_data = (if truthy (pp_data (sp_payload o0)) then pp_data (sp_payload o0) else None),
           pn_segment = sp_segmentName o0, pn_userId = sp_userId o0, pn_scheduledAt = sp_scheduledAt o0,
           pn_status = (if in_future now (sp_scheduledAt o0) then ''pending'' else ''sending''), pn_sentAt = None\<rparr>],
       pu_nextNotification := pu_nextNotification d + 1\<rparr>)) ([], 0, 0, 0)
     (snd (pu_nextNotification d,
       d\<lparr>pu_notifications := pu_notifications d @
         [\<lparr>pn_id = pu_nextNotification d, pn_title = pp_title (sp_payload o0), pn_body = pp_body (sp_payload o0),
           pn_imageUrl = pp_imageUrl (sp_payload o0), pn_deepLink = pp_deepLink (sp_payload o0),
           pn_data = (if truthy (pp_data (sp_payload o0)) then pp_data (sp_payload o0) else None),
           pn_segment = sp_segmentName o0, pn_userId = sp_userId o0, pn_scheduledAt = sp_scheduledAt o0,
           pn_status = (if in_future now (sp_scheduledAt o0) then ''pending'' else ''sending''), pn_sentAt = None\<rparr>],
       pu_nextNotification := pu_nextNotification d + 1\<rparr>))"
    using d by (auto simp: counted_def push_ok_def deliveries_of_def push_tally_def with_status_def list_all_iff less_SucI)
qed simp

lemma keeps_counted_update: "keeps (counted nid x) (update_notification i f)"
  unfolding update_notification_def by (rule keeps_write) (simp add: counted_def push_ok_def deliveries_of_def)

lemma counted_resolve: "keeps (counted nid x) (resolve_targets o0)"
  unfolding resolve_targets_def getPushTokensForUser_def resolveSegmentTokens_def active_tokens_def
  by (auto intro!: keeps_intros split: option.splits prod.splits)

lemma finish_counted:
  "ensures (all_served nid targets [] 0 0 rs) (finish_push now nid rs)
     (\<lambda>r d. counted (pr_notificationId r) (map pt_token targets, pr_sent r, pr_failed r, 0) d \<and>
       pr_sent r + pr_failed r = length targets) (\<lambda>_. True)"
proof (cases "None \<in> set rs")
  case True
  then show ?thesis by (simp add: finish_push_def ensures_throw)
next
  case False
  let ?P = "\<lambda>d. sent_count rs + length (error_lines rs) = length targets \<and>
    counted nid (map pt_token targets, sent_count rs, length (error_lines rs), 0) d"
  have "ensures ?P (finish_push now nid rs)
     (\<lambda>r d. counted (pr_notificationId r) (map pt_token targets, pr_sent r, pr_failed r, 0) d \<and>
       pr_sent r + pr_failed r = length targets) (\<lambda>_. True)"
    using False unfolding finish_push_def Let_def
    by (intro ensures_pure)
      (simp, intro ensures_bind [OF keeps_result [OF keeps_counted_update]] ensures_return, simp)
  then show ?thesis by (rule ensures_weaken) (simp_all add: all_served_def False)
qed

lemma send_counted:
  "ensures push_ok (sendPushNotification E now o0)
     (\<lambda>r d. \<exists>ts. counted (pr_notificationId r) (ts, pr_sent r, pr_failed r, 0) d \<and> pr_sent r + pr_failed r = length ts) (\<lambda>_. True)"
  unfolding sendPushNotification_def
proof (rule ensures_bind [OF created_counted], goal_cases)
  case (1 nid)
  let ?Q = "\<lambda>r d. \<exists>ts. counted (pr_notificationId r) (ts, pr_sent r, pr_failed r, 0) d \<and> pr_sent r + pr_failed r = length ts"
  have none: "ensures (counted nid ([], 0, 0, 0)) (io_return r) ?Q (\<lambda>_. True)"
    if "pr_notificationId r = nid" "pr_sent r = 0" "pr_failed r = 0" for r
    by (rule ensures_return) (use that in auto)
  have empty: "ensures (counted nid ([], 0, 0, 0)) (io_bind (update_notification nid f) (\<lambda>_. io_return r)) ?Q (\<lambda>_. True)"
    if "pr_notificationId r = nid" "pr_sent r = 0" "pr_failed r = 0" for r f
    by (rule ensures_bind [OF keeps_result [OF keeps_counted_update] none]) (use that in auto)
  have served: "ensures (counted nid ([], 0, 0, 0))
      (io_bind (deliver_all E now nid (sp_payload o0) targets) (finish_push now nid)) ?Q (\<lambda>_. True)" for targets
    by (rule ensures_bind [OF all_counted], rule ensures_weaken [OF finish_counted]) (auto intro: exI [of _ "map pt_token targets"])
  have go: "ensures (counted nid ([], 0, 0, 0)) (io_bind (resolve_targets o0) (\<lambda>targets.
      if targets = [] then io_bind (update_notification nid (\<lambda>n. n\<lparr>pn_status := ''sent'', pn_sentAt := Some now\<rparr>))
         (\<lambda>_. io_return \<lparr>pr_notificationId = nid, pr_sent = 0, pr_failed = 0, pr_errors = [''No target tokens found'']\<rparr>)
       else io_bind (deliver_all E now nid (sp_payload o0) targets) (finish_push now nid))) ?Q (\<lambda>_. True)"
  proof (rule ensures_bind [OF keeps_result [OF counted_resolve]], goal_cases)
    case (1 targets)
    show ?case by (cases "targets = []") (simp_all only: if_True if_False served empty PushResult.simps simp_thms)
  qed
  show ?case
    by (cases "in_future now (sp_scheduledAt o0)")
      (simp_all only: if_True if_False go none PushResult.simps simp_thms)
qed

text \<open>When a send reports its counts, exactly as many deliveries of its notification are on record as delivered and
  as failed, none is left pending, and there are no others; this whichever calls failed.\<close>

theorem push_counts_recorded:
  assumes "push_ok d" and "sendPushNotification E now o0 (d, fs) = (Inr r, d', fs')"
  shows "stats_of (deliveries_of (pr_notificationId r) d') =
    \<lparr>ns_total = pr_sent r + pr_failed r, ns_delivered = pr_sent r, ns_failed = pr_failed r, ns_pending = 0\<rparr>"
proof -
  obtain ts where ts: "counted (pr_notificationId r) (ts, pr_sent r, pr_failed r, 0) d'" "pr_sent r + pr_failed r = length ts"
    using ensures_result [OF send_counted assms] by blast
  then have "length (deliveries_of (pr_notificationId r) d') = length ts"
    by (auto simp: counted_def push_tally_def)
  then show ?thesis using ts by (auto simp: stats_of_def counted_def push_tally_def)
qed

section \<open>Concrete runs\<close>

definition demo_push_env :: push_env where
  "demo_push_env = \<lparr>pe_dryRun = Some ''false'', pe_serverKey = None, pe_keyId = None, pe_teamId = None,
     pe_bundleId = None, pe_keyPath = None, pe_production = None, pe_readFile = (\<lambda>_. Inl ''none''),
     pe_stringify = (\<lambda>_. []), pe_date = (\<lambda>v. json_number (Some v)), pe_base64url = (\<lambda>_. []),
     pe_fcm = (\<lambda>_ _. FcmAnswer True None), pe_apns = (\<lambda>_. ApnsAnswer 200 None)\<rparr>"

definition demo_push :: push_state where
  "demo_push = \<lparr>pu_tokens = [\<lparr>pt_userId = ''u'', pt_token = ''t1'', pt_platform = ''android'', pt_active = True\<rparr>,
       \<lparr>pt_userId = ''u'', pt_token = ''t2'', pt_platform = ''ios'', pt_active = True\<rparr>,
       \<lparr>pt_userId = ''u'', pt_token = ''t3'', pt_platform = ''web'', pt_active = False\<rparr>],
     pu_segments = [], pu_notifications = [], pu_nextNotification = 1, pu_deliveries = [], pu_nextDelivery = 1,
     pu_pushed = []\<rparr>"

definition demo_body :: "(string \<times> json) list \<Rightarrow> json option" where
  "demo_body kvs = Some (JObj ([(''title'', JStr ''a''), (''body'', JStr ''b''), (''userId'', JStr ''u'')] @ kvs))"

definition demo_options :: SendPushOptions where
  "demo_options = the (push_options demo_push_env (demo_body []))"

theorem push_counts_recorded_witness:
  "stats_of (deliveries_of 1 (db_after (sendPushNotification demo_push_env 5 demo_options) [] demo_push)) =
     \<lparr>ns_total = 2, ns_delivered = 1, ns_failed = 1, ns_pending = 0\<rparr>"
proof -
  let ?run = "sendPushNotification demo_push_env 5 demo_options (demo_push, [])"
  have run: "fst ?run = Inr \<lparr>pr_notificationId = 1, pr_sent = 1, pr_failed = 1, pr_errors = [''t2: APNs not configured'']\<rparr>"
    by code_simp
  have "push_ok demo_push" by (simp add: push_ok_def demo_push_def)
  moreover have "?run = (Inr \<lparr>pr_notificationId = 1, pr_sent = 1, pr_failed = 1, pr_errors = [''t2: APNs not configured'']\<rparr>,
      fst (snd ?run), snd (snd ?run))"
    using run by (metis prod.collapse)
  ultimately have "stats_of (deliveries_of 1 (fst (snd ?run))) =
      \<lparr>ns_total = 2, ns_delivered = 1, ns_failed = 1, ns_pending = 0\<rparr>"
    using push_counts_recorded [of demo_push demo_push_env 5 demo_options "[]"] by fastforce
  then show ?thesis by (simp only: db_after_def)
qed

theorem inactive_token_gets_nothing_witness:
  "pushed_to ''t3'' (run_push demo_push_env [(5, PushOp (demo_body []), []), (6, CronOp, [])] demo_push) = []"
proof -
  have "inactive ''t3'' demo_push" by (simp add: inactive_def demo_push_def)
  moreover have "\<forall>(now, op, fs) \<in> set [(5, PushOp (demo_body []), []), (6, CronOp, [])]. \<not> registers ''t3'' op"
    by (simp add: registers_def)
  ultimately have "pushed_to ''t3'' (run_push demo_push_env [(5, PushOp (demo_body []), []), (6, CronOp, [])] demo_push) =
      pushed_to ''t3'' demo_push"
    by (rule inactive_token_gets_nothing [THEN conjunct1])
  then show ?thesis by (simp add: pushed_to_def demo_push_def)
qed

text \<open>A silent notification that was scheduled arrives as a visible one, and its own record stays at \<^verbatim>\<open>sending\<close>: the
  deliveries belong to a second record.\<close>

definition demo_silent :: push_state where
  "demo_silent = run_push demo_push_env
     [(5, PushOp (demo_body [(''silent'', JBool True), (''scheduledAt'', JNum 7)]), []), (8, CronOp, [])] demo_push"

lemma scheduled_becomes_visible:
  "map pm_body (pu_pushed demo_silent) = [fcm_payload demo_push_env ''t1'' (sp_payload demo_options)]"
  "map (\<lambda>n. (pn_id n, pn_status n)) (pu_notifications demo_silent) = [(1, ''sending''), (2, ''sent'')]"
  "map pd_notificationId (pu_deliveries demo_silent) = [2, 2]"
  by code_simp+

text \<open>A notification to listed tokens that was scheduled reaches nobody.\<close>

lemma scheduled_list_lost:
  "pu_pushed (run_push demo_push_env
     [(5, DirectOp (demo_options\<lparr>sp_userId := None, sp_tokens := [''t1''], sp_scheduledAt := Some 7\<rparr>), []), (8, CronOp, [])]
     demo_push) = []"
  by code_simp

text \<open>When one call fails, every later notification that was due keeps waiting, and the one that failed is never sent.\<close>

lemma failed_schedule_lost:
  "let d = run_push demo_push_env [(5, PushOp (demo_body [(''scheduledAt'', JNum 7)]), []),
       (8, CronOp, [False, False, True]), (9, CronOp, [])] demo_push
   in pu_pushed d = [] \<and> map pn_status (pu_notifications d) = [''sending'']"
  by code_simp

end
