(* ===== verification/Subscription_Routes.thy ===== *)
theory Subscription_Routes
  imports Subscription_State Payment_Scheduler Retry_Queue Effects "HOL-Library.Multiset"
begin

text \<open>
  The routes of subscriptions, \<^verbatim>\<open>backend/src/routes/subscriptions.ts\<close>, in the order in which Express tries
  them. They read the table of subscriptions, the events and the retries, and cancel retries through the retry
  queue. Each call of a service or of the database is one call, which may reject. A query parameter occurs at most
  once. \<^verbatim>\<open>res.json\<close> throws a type error on a \<^verbatim>\<open>bigint\<close>, which the handler catches. The readers of dates are
  arguments.
\<close>

section \<open>State, requests and replies\<close>

text \<open>A row of \<^verbatim>\<open>Subscription\<close> with the columns that the state service does not use; two are \<^verbatim>\<open>bigint\<close>.\<close>

record stored_subscription = subscription_row +
  st_interval :: int
  st_nextPayment :: int
  st_createdAt :: int

record 'w routes_db =
  rt_subscriptions :: "stored_subscription list"
  rt_events :: "event_row list"
  rt_retries :: "retry_db \<times> 'w"

datatype route_error = RouteDbError | RouteTypeError

type_synonym ('w, 'a) route_io = "('w routes_db, route_error, 'a) io"

datatype http_method = GET | DELETE

record route_request =
  rq_method :: http_method
  rq_path :: "string list"
  rq_query :: "string \<Rightarrow> string option"
  rq_merchant :: "string option"

record detail_reply =
  dt_subscriber :: string
  dt_merchant :: string
  dt_token :: string
  dt_amount :: string
  dt_status :: SubscriptionState
  dt_lastPaymentAt :: "string option"
  dt_createdAt :: string

datatype route_reply =
    Refused nat string
  | SubscriptionPage "stored_subscription list" nat int
  | Detail detail_reply
  | PaymentPage "(event_row \<times> string) list" nat int int
  | RawPayments "event_row list"
  | Retries "PaymentRetryRecord list"
  | Cancelled nat
  | NoRoute

type_synonym 'w handler = "route_request \<Rightarrow> ('w, route_reply) route_io"

text \<open>\<^verbatim>\<open>res.json\<close> of a body with the given \<^verbatim>\<open>bigint\<close> values.\<close>

definition res_json :: "int list \<Rightarrow> route_reply \<Rightarrow> ('w, route_reply) route_io" where
  "res_json bigints r = (if bigints = [] then io_return r else io_throw RouteTypeError)"

definition or_failed :: "string \<Rightarrow> ('w, route_reply) route_io \<Rightarrow> ('w, route_reply) route_io" where
  "or_failed msg m = io_catch m (\<lambda>_. io_return (Refused 500 msg))"

text \<open>\<^verbatim>\<open>parseInt(q ?? d, 10)\<close> and \<^verbatim>\<open>parseInt(\<dots>) || d\<close>.\<close>

definition int_param :: "string option \<Rightarrow> int \<Rightarrow> int option" where
  "int_param q d = (case q of None \<Rightarrow> Some d | Some s \<Rightarrow> parse_int s)"

definition int_or :: "int option \<Rightarrow> int \<Rightarrow> int" where
  "int_or v d = (case v of None \<Rightarrow> d | Some n \<Rightarrow> if n = 0 then d else n)"

text \<open>\<^verbatim>\<open>skip\<close> and \<^verbatim>\<open>take\<close>: a negative \<^verbatim>\<open>take\<close> counts from the end, where the skipping then starts too.\<close>

definition rows_page :: "int \<Rightarrow> int \<Rightarrow> 'a list \<Rightarrow> 'a list" where
  "rows_page skip n xs = (if 0 \<le> n then take (nat n) (drop (nat skip) xs)
     else rev (take (nat (- n)) (drop (nat skip) (rev xs))))"

section \<open>Handlers\<close>

definition SUBSCRIPTION_STATUSES :: "string list" where
  "SUBSCRIPTION_STATUSES = [''ACTIVE'', ''PAUSED'', ''OVERDUE'', ''CANCELLED'']"

definition status_text :: "SubscriptionState \<Rightarrow> string" where
  "status_text s = (case s of ACTIVE \<Rightarrow> ''ACTIVE'' | PAUSED \<Rightarrow> ''PAUSED'' | OVERDUE \<Rightarrow> ''OVERDUE''
     | CANCELLED \<Rightarrow> ''CANCELLED'' | EXPIRED \<Rightarrow> ''EXPIRED'')"

definition listed :: "string \<Rightarrow> string option \<Rightarrow> stored_subscription list \<Rightarrow> stored_subscription list" where
  "listed merchant st rows = sort_key (\<lambda>r. - st_createdAt r) (filter (\<lambda>r. sr_merchant r = merchant \<and>
     (case st of None \<Rightarrow> True | Some s \<Rightarrow> s = [] \<or> status_text (sr_status r) = s)) rows)"

definition list_subscriptions :: "'w handler" where
  "list_subscriptions q = (case rq_merchant q of
       None \<Rightarrow> io_return (Refused 401 ''Missing or invalid Authorization header'')
     | Some merchant \<Rightarrow>
       if merchant = [] then io_return (Refused 401 ''Missing or invalid Authorization header'') else
       let st = rq_query q ''status'';
           page = max (int_or (int_param (rq_query q ''page'') 1) 1) 1;
           limit = min (max (int_or (int_param (rq_query q ''limit'') 20) 20) 1) 100
       in if (case st of None \<Rightarrow> False | Some s \<Rightarrow> s \<noteq> [] \<and> s \<notin> set SUBSCRIPTION_STATUSES)
          then io_return (Refused 400 ''Invalid status filter. Must be one of: ACTIVE, PAUSED, OVERDUE, CANCELLED'')
          else or_failed ''Failed to fetch subscriptions''
            (io_bind (db_read RouteDbError (\<lambda>d. listed merchant st (rt_subscriptions d)))
              (\<lambda>rows. let data = rows_page ((page - 1) * limit) limit rows in
                res_json (concat (map (\<lambda>r. [st_interval r, st_nextPayment r]) data))
                  (SubscriptionPage data (length rows) page))))"

definition last_subscribe :: "string \<times> string \<Rightarrow> event_row list \<Rightarrow> event_row option" where
  "last_subscribe pr rows = (case newest_first (filter (\<lambda>r. er_type r = ''subscribe'' \<and> row_pair r = pr) rows) of
      [] \<Rightarrow> None | r # _ \<Rightarrow> Some r)"

definition get_detail :: "string \<Rightarrow> string \<Rightarrow> 'w handler" where
  "get_detail subscriber merchant q =
     (if merchant = ''retries''
      then io_return (Refused 400 (''Invalid path '' @ [CHR 0xE2, CHR 0x80, CHR 0x94] @ '' did you mean /:subscriber/:merchant/retries?''))
      else or_failed ''Failed to fetch subscription''
        (io_bind (db_read RouteDbError (\<lambda>d. last_subscribe (subscriber, merchant) (rt_events d))) (\<lambda>subEvent.
         io_bind (db_read RouteDbError (\<lambda>d. last_exec (subscriber, merchant) (rt_events d))) (\<lambda>lastExecuted.
         io_bind (db_read RouteDbError (\<lambda>d. getSubscriptionStatus subscriber merchant
             (map subscription_row.truncate (rt_subscriptions d)))) (\<lambda>st.
         case subEvent of
           None \<Rightarrow> io_return (Refused 404 ''Subscription not found'')
         | Some e \<Rightarrow> res_json [] (Detail \<lparr>dt_subscriber = er_subscriber e, dt_merchant = er_merchant e,
             dt_token = er_token e, dt_amount = er_amount e,
             dt_status = (case st of Some s \<Rightarrow> s | None \<Rightarrow> ACTIVE),
             dt_lastPaymentAt = map_option (\<lambda>r. int_str (er_ledgerTimestamp r)) lastExecuted,
             dt_createdAt = int_str (er_ledgerTimestamp e)\<rparr>))))))"

record date_env =
  de_parse :: "string \<Rightarrow> int option"
  de_endOfDay :: "int \<Rightarrow> int"

text \<open>A bound of the window: none, a date that cannot be read, or seconds.\<close>

datatype bound = NoBound | BadDate | Bound int

definition date_bound :: "(string \<Rightarrow> int option) \<Rightarrow> (int \<Rightarrow> int) \<Rightarrow> string option \<Rightarrow> bound" where
  "date_bound parse adjust q = (case q of None \<Rightarrow> NoBound | Some s \<Rightarrow> if s = [] then NoBound
     else (case parse s of None \<Rightarrow> BadDate | Some t \<Rightarrow> Bound (adjust t div 1000)))"

definition in_bounds :: "bound \<Rightarrow> bound \<Rightarrow> int \<Rightarrow> bool" where
  "in_bounds lo hi t \<longleftrightarrow> (case lo of Bound l \<Rightarrow> l \<le> t | _ \<Rightarrow> True) \<and> (case hi of Bound h \<Rightarrow> t \<le> h | _ \<Rightarrow> True)"

definition payments_of :: "string \<Rightarrow> bound \<Rightarrow> bound \<Rightarrow> event_row list \<Rightarrow> event_row list" where
  "payments_of merchant lo hi rows = newest_first (filter (\<lambda>r. er_merchant r = merchant \<and> er_type r = ''executed'' \<and>
     in_bounds lo hi (er_ledgerTimestamp r)) rows)"

definition get_payments :: "date_env \<Rightarrow> 'w handler" where
  "get_payments D q = (case rq_query q ''merchant'' of
       None \<Rightarrow> io_return (Refused 400 ''merchant query parameter is required'')
     | Some merchant \<Rightarrow>
       if merchant = [] then io_return (Refused 400 ''merchant query parameter is required'') else
       (case date_bound (de_parse D) id (rq_query q ''from'') of
          BadDate \<Rightarrow> io_return (Refused 400 ''from must be a valid ISO 8601 date'')
        | lo \<Rightarrow> (case date_bound (de_parse D) (de_endOfDay D) (rq_query q ''to'') of
            BadDate \<Rightarrow> io_return (Refused 400 ''to must be a valid ISO 8601 date'')
          | hi \<Rightarrow> or_failed ''Failed to fetch payment history''
             (case (int_param (rq_query q ''limit'') 50, int_param (rq_query q ''offset'') 0) of
                (Some l, Some s) \<Rightarrow> (let limit = min l 200; offset = max s 0 in
                  io_bind (db_read RouteDbError (\<lambda>d. payments_of merchant lo hi (rt_events d)))
                    (\<lambda>rows. res_json [] (PaymentPage
                       (map (\<lambda>r. (r, int_str (er_ledgerTimestamp r))) (rows_page offset limit rows))
                       (length rows) limit offset)))
              | _ \<Rightarrow> io_throw RouteDbError))))"

text \<open>\<^verbatim>\<open>CacheKey\<close> and \<^verbatim>\<open>CACHE_TTL\<close> are imported from \<^verbatim>\<open>lib/redis.ts\<close>, which exports neither: the first
  use throws, inside the handler's \<^verbatim>\<open>try\<close>.\<close>

definition merchant_subscriptions :: "string \<Rightarrow> 'w handler" where
  "merchant_subscriptions merchant q = or_failed ''Failed to fetch subscriptions'' (io_throw RouteTypeError)"

definition merchant_payments :: "string \<Rightarrow> 'w handler" where
  "merchant_payments merchant q = or_failed ''Failed to fetch payments''
     (let limit = int_or (Option.bind (rq_query q ''limit'') parse_int) 50;
          offset = int_or (Option.bind (rq_query q ''offset'') parse_int) 0 in
      if offset < 0 then io_throw RouteDbError
      else io_bind (db_read RouteDbError (\<lambda>d. rows_page offset limit (payments_of merchant NoBound NoBound (rt_events d))))
        (\<lambda>rows. res_json (map er_ledgerTimestamp rows) (RawPayments rows)))"

definition get_retries :: "string \<Rightarrow> string \<Rightarrow> 'w handler" where
  "get_retries subscriber merchant q =
     (if subscriber = [] \<or> merchant = []
      then io_return (Refused 400 ''subscriber and merchant path parameters are required'')
      else or_failed ''Failed to fetch retry records''
        (io_bind (db_read RouteDbError (\<lambda>d. getRawRetries subscriber merchant (fst (rt_retries d))))
          (\<lambda>rs. res_json [] (Retries rs))))"

definition delete_retries :: "'w retry_env \<Rightarrow> string \<Rightarrow> string \<Rightarrow> 'w handler" where
  "delete_retries R subscriber merchant q =
     (if subscriber = [] \<or> merchant = []
      then io_return (Refused 400 ''subscriber and merchant path parameters are required'')
      else or_failed ''Failed to cancel retry records''
        (io_bind (db_read RouteDbError (\<lambda>d. length (filter (\<lambda>r. pr_status r = RetryPending)
             (getRawRetries subscriber merchant (fst (rt_retries d))))))
          (\<lambda>n. io_bind (db_write RouteDbError (\<lambda>d. d\<lparr>rt_retries := cancelRetries R subscriber merchant (rt_retries d)\<rparr>))
            (\<lambda>_. res_json [] (Cancelled n)))))"

section \<open>The router\<close>

text \<open>The patterns of the router in the order of the file; the first one that fits serves the request.\<close>

datatype segment = Lit string | Param

fun fits :: "segment list \<Rightarrow> string list \<Rightarrow> string list option" where
  "fits [] [] = Some []"
| "fits (Lit s # ps) (x # xs) = (if x = s then fits ps xs else None)"
| "fits (Param # ps) (x # xs) = (if x = [] then None else map_option ((#) x) (fits ps xs))"
| "fits _ _ = None"

datatype route = ListRoute | DetailRoute | PaymentsRoute | MerchantRoute | MerchantPaymentsRoute
  | RetriesRoute | CancelRoute

definition ROUTES :: "(http_method \<times> segment list \<times> route) list" where
  "ROUTES =
     [(GET, [], ListRoute), (GET, [Param, Param], DetailRoute), (GET, [Lit ''payments''], PaymentsRoute),
      (GET, [Lit ''merchant'', Param], MerchantRoute), (GET, [Lit ''merchant'', Param, Lit ''payments''], MerchantPaymentsRoute),
      (GET, [Param, Param, Lit ''retries''], RetriesRoute), (DELETE, [Param, Param, Lit ''retries''], CancelRoute)]"

fun route_for :: "(http_method \<times> segment list \<times> route) list \<Rightarrow> http_method \<Rightarrow> string list \<Rightarrow>
    (route \<times> string list) option" where
  "route_for [] m path = None"
| "route_for ((m', ps, r) # rs) m path = (case (if m = m' then fits ps path else None) of
     Some args \<Rightarrow> Some (r, args) | None \<Rightarrow> route_for rs m path)"

definition handle_subscriptions :: "date_env \<Rightarrow> 'w retry_env \<Rightarrow> 'w handler" where
  "handle_subscriptions D R q = (case route_for ROUTES (rq_method q) (rq_path q) of
       Some (ListRoute, _) \<Rightarrow> list_subscriptions q
     | Some (DetailRoute, [s, m]) \<Rightarrow> get_detail s m q
     | Some (PaymentsRoute, _) \<Rightarrow> get_payments D q
     | Some (MerchantRoute, [m]) \<Rightarrow> merchant_subscriptions m q
     | Some (MerchantPaymentsRoute, [m]) \<Rightarrow> merchant_payments m q
     | Some (RetriesRoute, [s, m]) \<Rightarrow> get_retries s m q
     | Some (CancelRoute, [s, m]) \<Rightarrow> delete_retries R s m q
     | _ \<Rightarrow> io_return NoRoute)"

section \<open>Reading changes nothing\<close>

lemma keeps_res_json: "keeps P (res_json bs r)"
  unfolding res_json_def by (intro keeps_intros)

lemma keeps_or_failed: "keeps P m \<Longrightarrow> keeps P (or_failed msg m)"
  unfolding or_failed_def by (intro keeps_intros)

lemma keeps_readers:
  "keeps P (list_subscriptions q)" "keeps P (get_detail s m q)" "keeps P (get_payments D q)"
  "keeps P (merchant_subscriptions m q)" "keeps P (merchant_payments m q)" "keeps P (get_retries s m q)"
  unfolding list_subscriptions_def get_detail_def get_payments_def merchant_subscriptions_def merchant_payments_def
    get_retries_def Let_def
  by (auto intro!: keeps_intros keeps_or_failed keeps_res_json split: option.splits bound.splits)

lemma get_never_cancels:
  "route_for ROUTES GET path \<noteq> Some (CancelRoute, args)"
  by (auto simp: ROUTES_def split: option.splits)

text \<open>A GET request of any path, with whatever query and whichever calls fail, leaves every table as it was.\<close>

theorem get_changes_nothing:
  assumes "rq_method q = GET"
  shows "db_after (handle_subscriptions D R q) fs d = d"
proof -
  have "keeps (\<lambda>x. x = d) (handle_subscriptions D R q)"
    unfolding handle_subscriptions_def
    using assms get_never_cancels [of "rq_path q"]
    by (auto intro!: keeps_intros keeps_readers split: option.splits prod.splits route.splits list.splits)
  then show ?thesis by (rule keepsD) simp
qed

section \<open>Pages of payments\<close>

definition page_request :: "route_request \<Rightarrow> nat \<Rightarrow> nat \<Rightarrow> route_request" where
  "page_request q n k = q\<lparr>rq_query := (rq_query q)(''limit'' \<mapsto> nat_str n, ''offset'' \<mapsto> nat_str (k * n))\<rparr>"

definition page_rows :: "date_env \<Rightarrow> 'w routes_db \<Rightarrow> route_request \<Rightarrow> (event_row \<times> string) list" where
  "page_rows D d q = (case get_payments D q (d, []) of (Inr (PaymentPage rows _ _ _), _) \<Rightarrow> rows | _ \<Rightarrow> [])"

definition with_time :: "event_row \<Rightarrow> event_row \<times> string" where
  "with_time r = (r, int_str (er_ledgerTimestamp r))"

lemma page_slice:
  fixes d :: "'w routes_db"
  assumes n: "1 \<le> n" "n \<le> 200" and m: "rq_query q ''merchant'' = Some merchant" "merchant \<noteq> []"
    and lo: "date_bound (de_parse D) id (rq_query q ''from'') = lo" "lo \<noteq> BadDate"
    and hi: "date_bound (de_parse D) (de_endOfDay D) (rq_query q ''to'') = hi" "hi \<noteq> BadDate"
  shows "page_rows D d (page_request q n k) =
    map with_time (take n (drop (k * n) (payments_of merchant lo hi (rt_events d))))"
proof -
  let ?q = "rq_query (page_request q n k)"
  have q: "?q ''merchant'' = Some merchant" "?q ''from'' = rq_query q ''from''" "?q ''to'' = rq_query q ''to''"
    "int_param (?q ''limit'') 50 = Some (int n)" "int_param (?q ''offset'') 0 = Some (int (k * n))"
    using m by (simp_all add: page_request_def int_param_def)
  have page: "rows_page (int k * int n) (min (int n) 200) xs = take n (drop (k * n) xs)" for xs :: "event_row list"
    using n by (simp add: rows_page_def nat_mult_distrib)
  have "get_payments D (page_request q n k) (d, []) =
     (let rows = payments_of merchant lo hi (rt_events d) in
      (Inr (PaymentPage (map with_time (take n (drop (k * n) rows))) (length rows) (min (int n) 200)
         (max (int (k * n)) 0)), d, []))"
    unfolding get_payments_def q lo(1) hi(1) option.case Let_def with_time_def [abs_def]
    using m(2) lo(2) hi(2)
    by (cases lo; cases hi) (simp_all add: page or_failed_def res_json_def io_simps)
  then show ?thesis by (simp add: page_rows_def Let_def)
qed

text \<open>The pages of a merchant's payments, of any length from 1 to 200 and with any window, together hold every
  executed payment of the merchant inside the window exactly once, newest first.\<close>

theorem payment_pages_hold_all:
  assumes "1 \<le> n" "n \<le> 200" and "rq_query q ''merchant'' = Some merchant" "merchant \<noteq> []"
    and "date_bound (de_parse D) id (rq_query q ''from'') = lo" "lo \<noteq> BadDate"
    and "date_bound (de_parse D) (de_endOfDay D) (rq_query q ''to'') = hi" "hi \<noteq> BadDate"
    and "length (rt_events d) \<le> k * n"
  shows "\<exists>rows. concat (map (\<lambda>i. page_rows D d (page_request q n i)) [0..<k]) = map with_time rows \<and>
    mset rows = mset (filter (\<lambda>r. er_merchant r = merchant \<and> er_type r = ''executed'' \<and>
      in_bounds lo hi (er_ledgerTimestamp r)) (rt_events d)) \<and>
    sorted (rev (map er_ledgerTimestamp rows))"
proof -
  let ?rows = "payments_of merchant lo hi (rt_events d)"
  have len: "length ?rows \<le> k * n"
    using assms(9) by (simp add: payments_of_def newest_first_def) (meson length_filter_le le_trans)
  have "concat (map (\<lambda>i. page_rows D d (page_request q n i)) [0..<k]) =
      map with_time (concat (map (\<lambda>i. take n (drop (i * n) ?rows)) [0..<k]))"
    unfolding page_slice [OF assms(1-8)] by (simp add: map_concat comp_def)
  also have "concat (map (\<lambda>i. take n (drop (i * n) ?rows)) [0..<k]) = ?rows"
    unfolding slices using len by simp
  finally have pages: "concat (map (\<lambda>i. page_rows D d (page_request q n i)) [0..<k]) = map with_time ?rows" .
  have "sorted (map (\<lambda>r. - er_ledgerTimestamp r) ?rows)" by (simp add: payments_of_def newest_first_def)
  then have "sorted (rev (map er_ledgerTimestamp ?rows))" by (simp add: sorted_wrt_map sorted_wrt_rev)
  moreover have "mset ?rows = mset (filter (\<lambda>r. er_merchant r = merchant \<and> er_type r = ''executed'' \<and>
      in_bounds lo hi (er_ledgerTimestamp r)) (rt_events d))"
    by (simp add: payments_of_def newest_first_def)
  ultimately show ?thesis using pages by blast
qed

section \<open>Cancelling retries\<close>

text \<open>When the route reports a number of cancelled retries, so many retries of the pair were pending, none is
  pending any more, and every other retry, the subscriptions and the events are as before.\<close>

theorem cancel_route_exact:
  assumes "retry_ok (fst (rt_retries d))" and "delete_retries R s m q (d, fs) = (Inr (Cancelled n), d', fs')"
  shows "n = length (filter (\<lambda>r. pr_status r = RetryPending) (getRawRetries s m (fst (rt_retries d)))) \<and>
    \<not> has_pending s m (fst (rt_retries d')) \<and>
    rd_rows (fst (rt_retries d')) = map (\<lambda>r. if of_pair s m r \<and> pr_status r = RetryPending
      then r\<lparr>pr_status := RetryCancelled\<rparr> else r) (rd_rows (fst (rt_retries d))) \<and>
    rt_subscriptions d' = rt_subscriptions d \<and> rt_events d' = rt_events d"
proof -
  obtain db w where r: "rt_retries d = (db, w)" by (rule prod.exhaust)
  obtain db' w' where c: "cancelRetries R s m (db, w) = (db', w')" by (rule prod.exhaust)
  have "n = length (filter (\<lambda>r. pr_status r = RetryPending) (getRawRetries s m db)) \<and>
      d' = d\<lparr>rt_retries := cancelRetries R s m (rt_retries d)\<rparr>"
    using assms(2)
    by (auto simp: delete_retries_def or_failed_def res_json_def io_bind_run io_catch_run db_read_def db_write_def
        db_call_def io_return_def r split: if_splits)
  with cancel_complete [OF _ c] assms(1) show ?thesis by (simp add: r c)
qed

section \<open>What does not work\<close>

text \<open>The columns of a subscription hold \<^verbatim>\<open>bigint\<close>s: only an empty page can be sent.\<close>

lemma only_empty_pages:
  assumes "list_subscriptions q (d, fs) = (Inr (SubscriptionPage data cnt page), d', fs')"
  shows "data = []"
proof -
  have "concat (map (\<lambda>r. [st_interval r, st_nextPayment r]) xs) = [] \<Longrightarrow> xs = []" for xs by (cases xs) auto
  then show ?thesis
    using assms
    by (auto simp: list_subscriptions_def or_failed_def res_json_def io_bind_run io_catch_run db_read_def db_call_def
        io_return_def io_throw_def Let_def split: if_splits option.splits)
qed

lemma only_empty_payments:
  assumes "merchant_payments m q (d, fs) = (Inr (RawPayments rows), d', fs')"
  shows "rows = []"
  using assms
  by (auto simp: merchant_payments_def or_failed_def res_json_def io_bind_run io_catch_run db_read_def db_call_def
      io_return_def io_throw_def Let_def split: if_splits)

text \<open>The route of a merchant's subscriptions comes after a pattern that fits every such path.\<close>

lemma merchant_route_unreachable: "route_for ROUTES method path \<noteq> Some (MerchantRoute, args)"
proof
  assume r: "route_for ROUTES method path = Some (MerchantRoute, args)"
  have "fits [Param, Param] path = None \<Longrightarrow> fits [Lit ''merchant'', Param] path = None"
  proof (cases path)
    case (Cons x xs)
    show "fits [Param, Param] path = None \<Longrightarrow> fits [Lit ''merchant'', Param] path = None"
    proof (cases xs)
      case (Cons y ys)
      then show "fits [Param, Param] path = None \<Longrightarrow> fits [Lit ''merchant'', Param] path = None"
        by (cases ys) (simp_all add: \<open>path = x # xs\<close> split: if_splits)
    qed (simp add: Cons)
  qed simp
  with r show False by (auto simp: ROUTES_def split: option.splits if_splits)
qed

section \<open>Concrete requests\<close>

definition demo_routes :: "unit routes_db" where
  "demo_routes = \<lparr>rt_subscriptions = [subscription_row.extend
        \<lparr>sr_subscriber = ''S'', sr_merchant = ''M'', sr_token = ''T'', sr_amount = ''5'', sr_status = OVERDUE\<rparr>
        \<lparr>st_interval = 86400, st_nextPayment = 7, st_createdAt = 1\<rparr>],
     rt_events = map (\<lambda>(ty, t). \<lparr>er_type = ty, er_subscriber = ''S'', er_merchant = ''M'', er_token = ''T'',
        er_amount = ''5'', er_ledgerTimestamp = t\<rparr>) [(''subscribe'', 1), (''executed'', 2), (''executed'', 4), (''executed'', 3)],
     rt_retries = (scheduled_retries, ())\<rparr>"

definition demo_request :: "http_method \<Rightarrow> string list \<Rightarrow> (string \<times> string) list \<Rightarrow> route_request" where
  "demo_request m p kvs = \<lparr>rq_method = m, rq_path = p, rq_query = map_of kvs, rq_merchant = Some ''M''\<rparr>"

definition demo_dates :: date_env where "demo_dates = \<lparr>de_parse = (\<lambda>s. map_option (\<lambda>n. n * 1000) (parse_int s)), de_endOfDay = id\<rparr>"

text \<open>The detail of any pair is given to any merchant.\<close>

lemma detail_of_any_pair:
  "fst (handle_subscriptions demo_dates quiet_env (demo_request GET [''S'', ''M''] [] \<lparr>rq_merchant := Some ''X''\<rparr>)
     (demo_routes, [])) =
   Inr (Detail \<lparr>dt_subscriber = ''S'', dt_merchant = ''M'', dt_token = ''T'', dt_amount = ''5'', dt_status = OVERDUE,
     dt_lastPaymentAt = Some ''4'', dt_createdAt = ''1''\<rparr>)"
  by code_simp

lemma list_fails:
  "fst (handle_subscriptions demo_dates quiet_env (demo_request GET [] []) (demo_routes, [])) =
     Inr (Refused 500 ''Failed to fetch subscriptions'')"
  by code_simp

theorem get_changes_nothing_witness:
  "db_after (handle_subscriptions demo_dates quiet_env (demo_request GET [''S'', ''M'', ''retries''] [])) [True] demo_routes =
     demo_routes"
  by (rule get_changes_nothing) (simp add: demo_request_def)

theorem payment_pages_hold_all_witness:
  "\<exists>rows. concat (map (\<lambda>i. page_rows demo_dates demo_routes
      (page_request (demo_request GET [''payments''] [(''merchant'', ''M''), (''from'', ''2''), (''to'', ''3'')]) 1 i)) [0..<4]) =
      map with_time rows \<and>
    mset rows = mset (filter (\<lambda>r. er_merchant r = ''M'' \<and> er_type r = ''executed'' \<and>
      in_bounds (Bound 2) (Bound 3) (er_ledgerTimestamp r)) (rt_events demo_routes)) \<and>
    sorted (rev (map er_ledgerTimestamp rows))"
proof (rule payment_pages_hold_all)
  let ?q = "demo_request GET [''payments''] [(''merchant'', ''M''), (''from'', ''2''), (''to'', ''3'')]"
  show "date_bound (de_parse demo_dates) id (rq_query ?q ''from'') = Bound 2"
    "date_bound (de_parse demo_dates) (de_endOfDay demo_dates) (rq_query ?q ''to'') = Bound 3" by code_simp+
  show "rq_query ?q ''merchant'' = Some ''M''" by (simp add: demo_request_def)
qed (simp_all add: demo_routes_def)

theorem cancel_route_exact_witness:
  "\<exists>d'. delete_retries quiet_env ''S'' ''M'' (demo_request DELETE [] []) (demo_routes, []) = (Inr (Cancelled 3), d', []) \<and>
     \<not> has_pending ''S'' ''M'' (fst (rt_retries d'))"
proof -
  let ?run = "delete_retries quiet_env ''S'' ''M'' (demo_request DELETE [] []) (demo_routes, [])"
  have "fst ?run = Inr (Cancelled 3)" "snd (snd ?run) = []" by code_simp+
  then obtain d' where run: "?run = (Inr (Cancelled 3), d', [])" by (metis prod.collapse)
  have "retry_ok (fst (rt_retries demo_routes))" by (simp add: demo_routes_def scheduled_ok)
  from cancel_route_exact [OF this run] run show ?thesis by blast
qed

end
