(* ===== verification/Spec2Isabelle.thy ===== *)
theory Spec2Isabelle
  imports Subscription_State Retry_Policy Reconciler_Reports Webhook_Queue Webhook_Worker Event_Indexer
    Payment_Execution Rpc_Pool Redis_Client Retry_Queue Payment_Scheduler Payout_Summaries
    Kyc_Routes Auth_Routes Token_Amounts Data_Import Payment_Exports Revenue Analytics
    Rpc_Fallback Subscription_Feed Preferences Tx_Failures Wallet Address_Book Webhook_Ingest Sms Ttl_Health
    Cancellation_Audit Api_Client Error_Messages Push_Notifications Subscription_Routes
begin

text \<open>
  \<^bold>\<open>SorobanPay: subscription payments on Stellar\<close>

  \<^bold>\<open>The program.\<close> A merchant's subscribers let a Soroban contract pull recurring payments. The backend
  (\<^verbatim>\<open>src/backend/src\<close>) watches the contract's events, keeps the state of every subscription in PostgreSQL
  or through Prisma, executes due payments, tells merchants about events by signed webhooks, retries what
  failed, summarises payouts, and serves an HTTP API with sign-in and identity checks. The front end
  (\<^verbatim>\<open>src/frontend/src\<close>) builds transactions in the browser and prints and reads amounts. The parts interact
  through tables: the indexers write events and subscriptions, the reconciler compares them with the
  chain, the scheduler and the summaries read them, the outbox relay, the webhook workers and the retry
  queue deliver what the indexers recorded; Redis carries locks, cached values and sign-in challenges;
  every call to the chain goes through the RPC pool and the retry policies.

  \<^bold>\<open>Shared theories.\<close>
  \<^item> \<open>Prelude\<close>: JavaScript strings, numbers and maps, tables of rows, the locales \<open>kv_store\<close> and
    \<open>inv_system\<close> (a transition system with an invariant) and the collections \<open>table_simps\<close>, \<open>js_simps\<close>.
  \<^item> \<open>Json\<close>: JSON values and the JavaScript operators on unchecked values.
  \<^item> \<open>Effects\<close>: computations over a database whose calls may reject, with the judgements \<open>keeps\<close>
    (invariants) and \<open>ensures\<close> (pre- and postconditions) and their rules.
  \<^item> \<open>Circuit_Breaker\<close>: the locales \<open>breaker\<close> and \<open>probing_breaker\<close>; interpreted on the Redis breaker
    (\<open>cb\<close>) and on an endpoint of the RPC pool (\<open>endpoint\<close>).

  \<^bold>\<open>Components\<close> (theory: sources; state and operations; what is shown).
  \<^item> \<open>Subscription_State\<close>: \<^verbatim>\<open>lib/subscriptionStateMachine.ts\<close>, \<^verbatim>\<open>services/subscriptionStateService.ts\<close>. The
    table of statuses is the state, \<open>applyEvent\<close> the step; it refines a function of each pair's own events,
    and refusals are characterised.
  \<^item> \<open>Retry_Policy\<close>: \<^verbatim>\<open>lib/backoff.ts\<close>, \<^verbatim>\<open>lib/retry.ts\<close>. The number of calls, the result returned, and the
    bounds of the delays.
  \<^item> \<open>Reconciler\<close>, \<open>Cursor\<close>, \<open>Reconciler_Reports\<close>: \<^verbatim>\<open>services/reconciler.ts\<close> and its jobs. Replay of
    events, comparison, repair against a store given by a locale, dry runs by pages, audit entries:
    convergence, idempotence, exactness of dry runs, completeness of paging.
  \<^item> \<open>Webhook_Queue\<close>: \<^verbatim>\<open>services/webhookQueue.ts\<close>. Jobs, dead letters and alerts; an invariant of all
    reachable states, exhaustion after five attempts, replay.
  \<^item> \<open>Webhook_Worker\<close>: \<^verbatim>\<open>workers/webhook.ts\<close>. The delivery table and its scan; signatures.
  \<^item> \<open>Webhook_Notifier\<close>, \<open>Retry_Queue\<close>: \<^verbatim>\<open>services/webhookNotifier.ts\<close>, \<^verbatim>\<open>services/webhookSignature.ts\<close>,
    \<^verbatim>\<open>services/retryQueue.ts\<close>. Direct delivery, and delayed retries of failed payments.
  \<^item> \<open>Indexer\<close>: \<^verbatim>\<open>services/indexer.ts\<close>. Pages of events, transactions, the cursor; recovery after any
    failure, exactness of 128-bit amounts.
  \<^item> \<open>Indexer_State\<close>: \<^verbatim>\<open>services/indexerStateService.ts\<close>, \<^verbatim>\<open>services/eventDeduplication.ts\<close>. Checkpoints and
    the set of processed events.
  \<^item> \<open>Event_Indexer\<close>: \<^verbatim>\<open>services/eventIndexer.ts\<close>. Events, outbox, state and audit rows; the one-to-one
    correspondence of events and outbox records, repeatability.
  \<^item> \<open>Payment_Execution\<close>: \<^verbatim>\<open>services/idempotencyService.ts\<close>, \<^verbatim>\<open>services/executePaymentHelper.ts\<close>. Idempotent
    submission with a key bound to its payment.
  \<^item> \<open>Payment_Scheduler\<close>, \<open>Payout_Summaries\<close>: \<^verbatim>\<open>services/paymentScheduler.ts\<close>,
    \<^verbatim>\<open>services/payoutSummaryGenerator.ts\<close>. Which subscriptions are due (one day after the last
    payment, whatever the interval); exact sums per merchant and token, and which other summaries stay.
  \<^item> \<open>Rpc_Pool\<close>, \<open>Redis_Client\<close>: \<^verbatim>\<open>rpc/rpcPool.ts\<close>, \<^verbatim>\<open>lib/redis.ts\<close>. Availability of the pool, spacing of
    probes, exclusion of locks in any interleaving, the cache during an outage.
  \<^item> \<open>Kyc\<close>, \<open>Kyc_Routes\<close>: \<^verbatim>\<open>services/kycService.ts\<close>, \<^verbatim>\<open>routes/kyc.ts\<close>. Identity checks and provider webhooks.
  \<^item> \<open>Auth\<close>, \<open>Auth_Routes\<close>: \<^verbatim>\<open>services/authService.ts\<close>, \<^verbatim>\<open>routes/auth.ts\<close>, \<^verbatim>\<open>middleware/merchantAuth.ts\<close>.
    Challenges, tokens, refresh-token families, and signing in end to end.
  \<^item> \<open>Token_Amounts\<close>: \<^verbatim>\<open>frontend/src/lib/token_decimals.ts\<close>. Printing and reading of amounts.
  \<^item> \<open>Csv\<close>, \<open>Import_Xml\<close>, \<open>Data_Import\<close>: \<^verbatim>\<open>services/dataImportService.ts\<close>, \<^verbatim>\<open>routes/dataImport.ts\<close>. Readers for
    CSV, JSON and XML, validation, duplicates, import jobs with failing calls, and the routes: the readers
    invert writers, duplicates are found exactly, finished jobs are complete whatever calls fail.
  \<^item> \<open>Payment_Exports\<close>: \<^verbatim>\<open>routes/payments.ts\<close>, \<^verbatim>\<open>routes/reports.ts\<close>. Batched reading and the CSV and JSON
    exports; an export read by the data import gives the payments again.
  \<^item> \<open>Tally\<close>, \<open>Revenue\<close>: \<^verbatim>\<open>routes/mrr.ts\<close>, \<^verbatim>\<open>routes/analytics.ts\<close>. Grouping into maps, recurring revenue with
    its cache, and the revenue chart: sums over all payers of the window (cancelled ones included) against an own
    reference of interval and share, and replies from the merchant's own events only, at most five minutes old.
  \<^item> \<open>Analytics\<close>: \<^verbatim>\<open>services/analyticsService.ts\<close>. Consent, tracking, cursor pages and aggregates.
  \<^item> \<open>Rpc_Fallback\<close>: \<^verbatim>\<open>frontend/src/lib/rpc_fallback.ts\<close>. Endpoints with an availability cache; calls in the
    order of priority, and what an outage does to later calls.
  \<^item> \<open>Event_Decoder\<close>, \<open>Subscription_Feed\<close>: \<^verbatim>\<open>frontend/src/lib/event_decoder.ts\<close>,
    \<^verbatim>\<open>frontend/src/hooks/useSubscriptionEvents.ts\<close>, \<^verbatim>\<open>frontend/src/lib/utils.ts\<close>. What the contract publishes is
    decoded to the same data; the feed never mixes accounts, shows each event that a server returns once, and shows
    nothing from a server that matches whole topic lists, as the RPC documents it.
  \<^item> \<open>Preferences\<close>: \<^verbatim>\<open>frontend/src/lib/preference_storage.ts\<close>. Migration, merging, and what a
    sequence of updates leaves in each field; a blob of a later version is read as version 2.
  \<^item> \<open>Tx_Failures\<close>: \<^verbatim>\<open>frontend/src/lib/rpc_error_normalizer.ts\<close>, \<^verbatim>\<open>frontend/src/lib/pollTransaction.ts\<close>. Classes
    of errors, and confirmation of a transaction.
  \<^item> \<open>Wallet\<close>: \<^verbatim>\<open>frontend/src/lib/wallet_manager.ts\<close>, \<^verbatim>\<open>validation.ts\<close>, \<^verbatim>\<open>allowance_checker.ts\<close>. Detecting the
    extension, connecting, signing for the expected account only, the checks of the form, and the allowance.
  \<^item> \<open>Address_Book\<close>: \<^verbatim>\<open>frontend/src/hooks/useAddressBook.ts\<close>. The effects of the hook refine one book per wallet.
  \<^item> \<open>Webhook_Ingest\<close>: \<^verbatim>\<open>routes/webhooks.ts\<close>. The replay cache, the signature check and the routes in front of the
    webhook queue: what is accepted was signed and fresh, repetition is refused, and a job is made once.
  \<^item> \<open>Sms\<close>: \<^verbatim>\<open>services/smsService.ts\<close>, \<^verbatim>\<open>routes/sms.ts\<close>. Templates, opt-outs, the limit per user, sending and
    receipts: opted-out numbers get nothing, and no user more than five messages in an hour.
  \<^item> \<open>Ttl_Health\<close>: \<^verbatim>\<open>services/ttlHealthMonitor.ts\<close>. Which subscriptions are at risk, and one notification per merchant.
  \<^item> \<open>Cancellation_Audit\<close>: \<^verbatim>\<open>services/cancellationAuditService.ts\<close>, \<^verbatim>\<open>routes/cancellationAudit.ts\<close>. Records that
    do not change, and pages that hold every record once.
  \<^item> \<open>Api_Client\<close>: \<^verbatim>\<open>lib/api_client.ts\<close> of the front end. Requests, errors and envelopes: what each response gives.
  \<^item> \<open>Error_Messages\<close>: \<^verbatim>\<open>lib/errors.ts\<close> of the front end. The codes, texts and actions shown for errors.
  \<^item> \<open>Push_Notifications\<close>: \<^verbatim>\<open>services/pushNotificationService.ts\<close>, \<^verbatim>\<open>routes/push.ts\<close>. Device tokens, segments,
    sending and scheduling: inactive tokens get nothing, and the statistics of a notification are what was reported.
  \<^item> \<open>Subscription_Routes\<close>: \<^verbatim>\<open>routes/subscriptions.ts\<close>. The router over the services: reading changes nothing, the pages of
    payments hold each payment once, and a cancellation of retries does what it reports.

  \<^bold>\<open>How code becomes definitions.\<close> A struct or row is a \<open>record\<close>, a union a \<open>datatype\<close>, a function with
  effects a function on an explicit state; an exception is the left part of a sum. Third-party code (the
  Stellar SDK, HTTP, HMAC, the database engine's failures, randomness, the clock) is an argument; what a
  property relies on is one of its hypotheses, and its witness instantiates the argument. Interleavings
  are sequences of steps or of commands where a component is shared (locks, overlapping deliveries);
  elsewhere an operation is one step and the header of its theory says so.

  \<^bold>\<open>Bounds and fuel.\<close> Polling and paging loops take fuel; the properties that speak of them give enough
  (more than the number of events, more than the number of pages), so that they return. Confirmation is
  polled 20 times and a webhook attempted 5 times as in the source. Numbers are unbounded integers or
  rationals where the source uses \<^verbatim>\<open>number\<close>; rounding of floating-point numbers is not modelled. Text is
  ASCII; dashes and dots of other alphabets in messages are replaced.

  \<^bold>\<open>Not modelled.\<close> React components and most hooks, styling, request plumbing of express, mail
  senders, metrics, logging, tracing, configuration, the generated Prisma client, the GraphQL layer, the
  floating-point yield estimates, and the Rust contract. Their state either belongs to third-party code
  or no other part depends on it.
\<close>

end
